(* ===== verification/Prelude.thy ===== *)
theory Prelude
  imports "HOL-Library.Word"
begin

text \<open>
  Shared vocabulary of the development: byte sequences and big-endian numbers
  (Go's \<open>encoding/binary\<close>), Go slices, error values, the result type with its
  sequencing operator, and the generic lemmas the component theories use.

  A Go \<open>[]byte\<close> is a \<open>byte list\<close>, a Go \<open>string\<close> is an Isabelle \<open>string\<close> (both are
  sequences of bytes), \<open>uint16\<close>, \<open>uint32\<close>, \<open>uint64\<close>, \<open>int32\<close> and \<open>int64\<close> are words of
  that width read by \<open>unat\<close> or \<open>sint\<close>, and a Go \<open>int\<close> is an \<open>int\<close> or \<open>nat\<close>; where a
  product of two \<open>int\<close> values can exceed 64 bits the wrap-around is written out
  (\<open>wrap_int64\<close>).
\<close>

unbundle bit_operations_syntax

named_theorems wire_simps \<open>layout of encoded data: lengths and field positions\<close>
named_theorems res_simps \<open>sequencing of fallible steps\<close>

type_synonym byte = "8 word"
type_synonym bytes = "byte list"
type_synonym u16 = "16 word"
type_synonym u32 = "32 word"
type_synonym u64 = "64 word"

section \<open>Errors and results\<close>

text \<open>
  Go error values. \<open>Errorf fmt args\<close> is \<open>fmt.Errorf\<close> with its format string and
  arguments; \<open>Wrap e fmt args\<close> is \<open>fmt.Errorf("%w: ...", e, ...)\<close>. \<open>Panic\<close> is not an
  error value but a run-time panic; it stands in the error position because it ends the
  function just as an error return does.
\<close>

datatype go_error =
    Errorf string "farg list"
  | Wrap go_error string "farg list"
  | EOF
  | UnexpectedEOF
  | ErrInvalidDSN
  | ErrUnsupported
  | ErrConnection
  | ErrConnectionClosed
  | ErrAuthentication
  | ErrBadConn
  | ErrSyntax
  | ErrRange
  | ErrInvalidNumericText
  | ErrBindingUnsupported
  | ErrUnsupportedCCSID
  | ErrNotSingleByte
  | WireError string go_error
  | TransportError string go_error
  | ProtocolError string u16 int
  | BindingError int string go_error
  | ErrCanceled
  | ErrDeadlineExceeded
  | ErrTxDone
  | ErrSQLNoData
  | ErrSQLDataException
  | ErrSQLConstraintViolation
  | ErrSQLInvalidCursor
  | ErrSQLSyntaxError
  | SQLError int string string string string string string
  | Panic string
and farg = FInt int | FStr string | FErr go_error

type_synonym 'a res = "go_error + 'a"

text \<open>
  \<open>SQLError\<close> carries code, state, message, message id, message text, second-level text and
  tokens. Its \<open>Is\<close> method compares the class of the SQLSTATE with the sentinel errors.
\<close>

fun SQLError_Is :: "string \<Rightarrow> go_error \<Rightarrow> bool" where
  "SQLError_Is st ErrSQLNoData = (2 \<le> length st \<and> take 2 st = ''02'')"
| "SQLError_Is st ErrSQLDataException = (2 \<le> length st \<and> take 2 st = ''22'')"
| "SQLError_Is st ErrSQLConstraintViolation = (2 \<le> length st \<and> take 2 st = ''23'')"
| "SQLError_Is st ErrSQLInvalidCursor = (2 \<le> length st \<and> (take 2 st = ''24'' \<or> take 2 st = ''25''))"
| "SQLError_Is st ErrSQLSyntaxError = (2 \<le> length st \<and> take 2 st = ''42'')"
| "SQLError_Is st _ = False"

text \<open>\<open>errors.Is\<close>: the error itself, one its \<open>Is\<close> method accepts, or one it wraps.\<close>

fun errors_Is :: "go_error \<Rightarrow> go_error \<Rightarrow> bool" where
  "errors_Is (Wrap e f a) t \<longleftrightarrow> Wrap e f a = t \<or> errors_Is e t"
| "errors_Is (WireError op e) t \<longleftrightarrow> WireError op e = t \<or> errors_Is e t"
| "errors_Is (TransportError op e) t \<longleftrightarrow> TransportError op e = t \<or> errors_Is e t"
| "errors_Is (BindingError n op e) t \<longleftrightarrow> BindingError n op e = t \<or> errors_Is e t"
| "errors_Is (SQLError cd st msg mid mtext second toks) t \<longleftrightarrow>
     SQLError cd st msg mid mtext second toks = t \<or> SQLError_Is st t"
| "errors_Is e t \<longleftrightarrow> e = t"

text \<open>\<open>if err != nil { return err }\<close>: continue with the value, or return the error.\<close>

definition res_bind :: "'e + 'a \<Rightarrow> ('a \<Rightarrow> 'e + 'b) \<Rightarrow> 'e + 'b" where
  "res_bind m f = (case m of Inl e \<Rightarrow> Inl e | Inr x \<Rightarrow> f x)"

lemma res_bind_Inl [simp, res_simps]: "res_bind (Inl e) f = Inl e"
  by (simp add: res_bind_def)

lemma res_bind_Inr [simp, res_simps]: "res_bind (Inr x) f = f x"
  by (simp add: res_bind_def)

lemma res_bind_eq_Inr [res_simps]:
  "res_bind m f = Inr y \<longleftrightarrow> (\<exists>x. m = Inr x \<and> f x = Inr y)"
  by (cases m) simp_all

lemma res_bind_eq_Inl [res_simps]:
  "res_bind m f = Inl e \<longleftrightarrow> m = Inl e \<or> (\<exists>x. m = Inr x \<and> f x = Inl e)"
  by (cases m) simp_all

lemma res_bind_assoc: "res_bind (res_bind m f) g = res_bind m (\<lambda>x. res_bind (f x) g)"
  by (cases m) simp_all

lemma res_bind_cong [fundef_cong]:
  assumes "m = m'" and "\<And>x. m' = Inr x \<Longrightarrow> f x = f' x"
  shows "res_bind m f = res_bind m' f'"
  using assms by (cases m') simp_all

section \<open>Go slices\<close>

text \<open>
  \<open>data[i:j]\<close>. In the source every slice expression follows the length check that
  makes it in range; the model keeps that check as the guard around it.
\<close>

definition slice :: "nat \<Rightarrow> nat \<Rightarrow> 'a list \<Rightarrow> 'a list" where
  "slice i j xs = take (j - i) (drop i xs)"

lemma length_slice [simp]: "j \<le> length xs \<Longrightarrow> length (slice i j xs) = j - i"
  by (auto simp: slice_def)

lemma slice_append_left [simp]: "j \<le> length xs \<Longrightarrow> slice i j (xs @ ys) = slice i j xs"
  by (cases "i \<le> length xs") (auto simp: slice_def)

lemma slice_append_right:
  "length xs \<le> i \<Longrightarrow> slice i j (xs @ ys) = slice (i - length xs) (j - length xs) ys"
  by (auto simp: slice_def)

lemma slice_full [simp]: "slice 0 (length xs) xs = xs"
  by (simp add: slice_def)

lemma slice_self: "n = length xs \<Longrightarrow> slice 0 n xs = xs"
  by simp

lemma slice_0: "slice 0 j xs = take j xs"
  by (simp add: slice_def)

lemma slice_empty [simp]: "slice i i xs = []"
  by (simp add: slice_def)

text \<open>
  A slice expression with its run-time check: it panics when the bounds are out of order
  or past the end.
\<close>

definition sub_slice :: "nat \<Rightarrow> nat \<Rightarrow> 'a list \<Rightarrow> 'a list res" where
  "sub_slice i j xs =
     (if i \<le> j \<and> j \<le> length xs then Inr (slice i j xs) else Inl (Panic ''slice bounds out of range''))"

lemma sub_slice_ok [simp]: "i \<le> j \<Longrightarrow> j \<le> length xs \<Longrightarrow> sub_slice i j xs = Inr (slice i j xs)"
  by (simp add: sub_slice_def)

text \<open>Go's \<open>copy(dst, src)\<close> into a slice of its own.\<close>

definition copy_into :: "'a list \<Rightarrow> 'a list \<Rightarrow> 'a list" where
  "copy_into dst src = take (length dst) src @ drop (length src) dst"

lemma length_copy_into [simp]: "length (copy_into dst src) = length dst"
  by (simp add: copy_into_def min_def)

lemma take_copy_into: "n \<le> length src \<Longrightarrow> take n (copy_into dst src) = take n (take (length dst) src)"
  by (auto simp: copy_into_def min_def)

lemma copy_into_same [simp]: "length src = length dst \<Longrightarrow> copy_into dst src = src"
  by (simp add: copy_into_def)

text \<open>\<open>make\<close> with a computed length panics when it is negative or above what the run time can allocate.\<close>

definition go_max_alloc :: int where
  "go_max_alloc = 2 ^ 48"

definition wrap_int64 :: "int \<Rightarrow> int" where
  "wrap_int64 x = (x + 2 ^ 63) mod 2 ^ 64 - 2 ^ 63"

lemma wrap_int64_id: "- (2 ^ 63) \<le> x \<Longrightarrow> x < 2 ^ 63 \<Longrightarrow> wrap_int64 x = x"
  by (simp add: wrap_int64_def)

lemma wrap_int64_range: "- (2 ^ 63) \<le> wrap_int64 x \<and> wrap_int64 x < 2 ^ 63"
proof -
  have "0 \<le> (x + 2 ^ 63) mod 2 ^ 64" and "(x + 2 ^ 63) mod 2 ^ 64 < 2 ^ 64"
    by simp_all
  then show ?thesis unfolding wrap_int64_def by simp
qed

definition make_slice :: "int \<Rightarrow> 'a \<Rightarrow> 'a list res" where
  "make_slice n z =
     (if n < 0 \<or> n > go_max_alloc then Inl (Panic ''makeslice: len out of range'')
      else Inr (replicate (nat n) z))"

lemma make_slice_Inr:
  "make_slice n z = Inr xs \<longleftrightarrow> 0 \<le> n \<and> n \<le> go_max_alloc \<and> xs = replicate (nat n) z"
  by (auto simp: make_slice_def)

section \<open>Big-endian numbers\<close>

fun be_nat :: "bytes \<Rightarrow> nat" where
  "be_nat [] = 0"
| "be_nat (b # bs) = unat b * 256 ^ length bs + be_nat bs"

fun be_bytes :: "nat \<Rightarrow> nat \<Rightarrow> bytes" where
  "be_bytes 0 v = []"
| "be_bytes (Suc n) v = word_of_nat (v div 256 ^ n) # be_bytes n v"

lemma length_be_bytes [simp]: "length (be_bytes n v) = n"
  by (induction n) simp_all

lemma unat_less_pow: "unat (w :: 'a::len word) < 2 ^ LENGTH('a)"
  by (rule unsigned_less)

lemma be_nat_less: "be_nat bs < 256 ^ length bs"
proof (induction bs)
  case Nil
  then show ?case by simp
next
  case (Cons b bs)
  have "unat b \<le> 255" using unat_less_pow [of b] by simp
  then have "unat b * 256 ^ length bs \<le> 255 * 256 ^ length bs" by (rule mult_le_mono1)
  with Cons.IH show ?case unfolding be_nat.simps length_Cons power_Suc by linarith
qed

lemma be_nat_append: "be_nat (xs @ ys) = be_nat xs * 256 ^ length ys + be_nat ys"
  by (induction xs) (simp_all add: algebra_simps power_add)

lemma unat_byte_of_nat: "unat (word_of_nat n :: byte) = n mod 256"
  by (simp add: unat_of_nat)

lemma be_nat_be_bytes [simp]: "be_nat (be_bytes n v) = v mod 256 ^ n"
proof (induction n)
  case 0
  then show ?case by simp
next
  case (Suc n)
  have "v mod (256 ^ n * 256) = 256 ^ n * (v div 256 ^ n mod 256) + v mod 256 ^ n"
    by (rule mod_mult2_eq)
  then show ?case by (simp add: Suc unat_byte_of_nat mult.commute)
qed

lemma byte_of_nat_mod: "256 dvd m \<Longrightarrow> (word_of_nat (v mod m) :: byte) = word_of_nat v"
  by (simp add: word_unat_eq_iff unat_byte_of_nat mod_mod_cancel)

lemma div_mod_pow: "v mod ((256::nat) ^ (n + k)) div 256 ^ n = (v div 256 ^ n) mod 256 ^ k"
proof -
  have "v mod (256 ^ n * 256 ^ k) = 256 ^ n * (v div 256 ^ n mod 256 ^ k) + v mod 256 ^ n"
    by (rule mod_mult2_eq)
  then show ?thesis unfolding power_add by simp
qed

lemma be_bytes_mod_ge: "n \<le> m \<Longrightarrow> be_bytes n (v mod 256 ^ m) = be_bytes n v"
proof (induction n)
  case 0
  then show ?case by simp
next
  case (Suc n)
  then obtain k where m: "m = n + Suc k"
    by (metis add_Suc_right add_Suc_shift less_iff_Suc_add less_eq_Suc_le)
  have "(word_of_nat ((v div 256 ^ n) mod 256 ^ Suc k) :: byte) = word_of_nat (v div 256 ^ n)"
    by (rule byte_of_nat_mod) simp
  with Suc m show ?case by (simp only: be_bytes.simps div_mod_pow)
qed

lemma be_bytes_mod: "be_bytes n (v mod 256 ^ n) = be_bytes n v"
  by (rule be_bytes_mod_ge) simp

lemma be_bytes_be_nat [simp]: "be_bytes (length bs) (be_nat bs) = bs"
proof (induction bs)
  case Nil
  then show ?case by simp
next
  case (Cons b bs)
  have "(unat b * 256 ^ length bs + be_nat bs) div 256 ^ length bs = unat b"
    using be_nat_less [of bs] by simp
  moreover have "be_bytes (length bs) (unat b * 256 ^ length bs + be_nat bs) = bs"
  proof -
    have "(unat b * 256 ^ length bs + be_nat bs) mod 256 ^ length bs = be_nat bs"
      using be_nat_less [of bs] by simp
    then show ?thesis using Cons.IH be_bytes_mod by metis
  qed
  ultimately show ?case by simp
qed

text \<open>\<open>binary.BigEndian.UintN(b)\<close> reads the first bytes of \<open>b\<close>; \<open>AppendUintN\<close> writes them.\<close>

definition Uint16 :: "bytes \<Rightarrow> u16" where
  "Uint16 b = word_of_nat (be_nat (take 2 b))"

definition Uint32 :: "bytes \<Rightarrow> u32" where
  "Uint32 b = word_of_nat (be_nat (take 4 b))"

definition Uint64 :: "bytes \<Rightarrow> u64" where
  "Uint64 b = word_of_nat (be_nat (take 8 b))"

definition bytesU16 :: "u16 \<Rightarrow> bytes" where
  "bytesU16 v = be_bytes 2 (unat v)"

definition bytesU32 :: "u32 \<Rightarrow> bytes" where
  "bytesU32 v = be_bytes 4 (unat v)"

definition bytesU64 :: "u64 \<Rightarrow> bytes" where
  "bytesU64 v = be_bytes 8 (unat v)"

lemma length_bytesU [simp]:
  "length (bytesU16 v) = 2" "length (bytesU32 w) = 4" "length (bytesU64 x) = 8"
  by (simp_all add: bytesU16_def bytesU32_def bytesU64_def)

lemma Uint_bytesU [simp]:
  "Uint16 (bytesU16 v) = v" "Uint32 (bytesU32 w) = w" "Uint64 (bytesU64 x) = x"
  using unat_less_pow [of v] unat_less_pow [of w] unat_less_pow [of x]
  by (simp_all add: Uint16_def bytesU16_def Uint32_def bytesU32_def Uint64_def bytesU64_def)

lemma Uint_bytesU_append [simp]:
  "Uint16 (bytesU16 v @ ys) = v" "Uint32 (bytesU32 w @ ys) = w" "Uint64 (bytesU64 x @ ys) = x"
  using unat_less_pow [of v] unat_less_pow [of w] unat_less_pow [of x]
  by (simp_all add: Uint16_def bytesU16_def Uint32_def bytesU32_def Uint64_def bytesU64_def)

lemma bytesU16_Uint16: "length b = 2 \<Longrightarrow> bytesU16 (Uint16 b) = b"
  using be_nat_less [of b] be_bytes_be_nat [of b]
  by (simp add: Uint16_def bytesU16_def unat_of_nat)

lemma bytesU32_Uint32: "length b = 4 \<Longrightarrow> bytesU32 (Uint32 b) = b"
  using be_nat_less [of b] be_bytes_be_nat [of b]
  by (simp add: Uint32_def bytesU32_def unat_of_nat)

lemma bytesU64_Uint64: "length b = 8 \<Longrightarrow> bytesU64 (Uint64 b) = b"
  using be_nat_less [of b] be_bytes_be_nat [of b]
  by (simp add: Uint64_def bytesU64_def unat_of_nat)

text \<open>The bytes written out, for evaluation by the simplifier.\<close>

lemma bytesU16_eq: "bytesU16 v = [word_of_nat (unat v div 256), word_of_nat (unat v)]"
  by (simp add: bytesU16_def numeral_2_eq_2)

lemma Uint16_eq: "Uint16 (a # b # rest) = word_of_nat (unat a * 256 + unat b)"
  by (simp add: Uint16_def numeral_2_eq_2)

lemma bytesU32_eq:
  "bytesU32 v = [word_of_nat (unat v div 16777216), word_of_nat (unat v div 65536),
     word_of_nat (unat v div 256), word_of_nat (unat v)]"
proof -
  have "be_bytes (Suc (Suc (Suc (Suc 0)))) n =
      [word_of_nat (n div 16777216), word_of_nat (n div 65536), word_of_nat (n div 256), word_of_nat n]" for n
    by simp
  moreover have "Suc (Suc (Suc (Suc 0))) = 4" by simp
  ultimately show ?thesis unfolding bytesU32_def by metis
qed

lemma Uint32_eq:
  "Uint32 (a # b # c # d # rest) =
     word_of_nat (unat a * 16777216 + unat b * 65536 + unat c * 256 + unat d)"
  by (simp add: Uint32_def add.assoc)

text \<open>Code equations over binary integers, so that large values can be evaluated.\<close>

definition be_int :: "bytes \<Rightarrow> int" where
  "be_int bs = foldl (\<lambda>a b. a * 256 + uint b) 0 bs"

lemma be_int_be_nat: "be_int bs = int (be_nat bs)"
proof -
  have "foldl (\<lambda>a b. a * 256 + uint b) x bs = x * 256 ^ length bs + int (be_nat bs)" for x
    by (induction bs arbitrary: x) (simp_all add: algebra_simps)
  then show ?thesis by (simp add: be_int_def)
qed

fun be_ibytes :: "nat \<Rightarrow> int \<Rightarrow> bytes" where
  "be_ibytes 0 v = []"
| "be_ibytes (Suc n) v = word_of_int (v div 256 ^ n) # be_ibytes n v"

lemma be_ibytes_be_bytes: "be_ibytes n (int v) = be_bytes n v"
proof (induction n)
  case (Suc n)
  have "int v div 256 ^ n = int (v div 256 ^ n)" by (simp add: zdiv_int)
  then have "(word_of_int (int v div 256 ^ n) :: byte) = word_of_nat (v div 256 ^ n)" by (simp only: of_int_of_nat_eq)
  with Suc show ?case by simp
qed simp

lemma Uint_code [code]:
  "Uint16 b = word_of_int (be_int (take 2 b))" "Uint32 b = word_of_int (be_int (take 4 b))"
  "Uint64 b = word_of_int (be_int (take 8 b))"
  by (simp_all add: Uint16_def Uint32_def Uint64_def be_int_be_nat)

lemma bytesU_code [code]:
  "bytesU16 v = be_ibytes 2 (uint v)" "bytesU32 w = be_ibytes 4 (uint w)" "bytesU64 x = be_ibytes 8 (uint x)"
  by (simp_all only: bytesU16_def bytesU32_def bytesU64_def be_ibytes_be_bytes uint_nat)

text \<open>Reading a field of a concatenation: the slice at a field's offset is that field.\<close>

lemma slice_field [wire_simps]:
  "length pre = i \<Longrightarrow> length x = j - i \<Longrightarrow> slice i j (pre @ x @ post) = x"
  by (simp add: slice_def)

lemma slice_last_field [wire_simps]:
  "length pre = i \<Longrightarrow> length x = j - i \<Longrightarrow> slice i j (pre @ x) = x"
  by (simp add: slice_def)

lemma unat_word_of_nat_32: "n < 2 ^ 32 \<Longrightarrow> unat (word_of_nat n :: u32) = n"
  by (simp add: unat_of_nat)

lemma unat_word_of_nat_16: "n < 2 ^ 16 \<Longrightarrow> unat (word_of_nat n :: u16) = n"
  by (simp add: unat_of_nat)

section \<open>Bit fields\<close>

lemma or_shift_add:
  fixes a b :: int
  assumes "0 \<le> b" "b < 2 ^ n"
  shows "push_bit n a OR b = a * 2 ^ n + b"
proof -
  have "b = take_bit n b" using take_bit_int_eq_self [OF assms] by simp
  then have "\<not> bit (push_bit n a) m \<or> \<not> bit b m" for m
    by (metis bit_push_bit_iff bit_take_bit_iff not_le)
  then have "push_bit n a + b = push_bit n a OR b" by (rule disjunctive_add)
  then show ?thesis by (simp add: push_bit_eq_mult)
qed

end
