(* ===== verification/GoStrings.thy ===== *)
theory GoStrings
  imports Prelude
begin

text \<open>
  The parts of Go's \<open>strings\<close>, \<open>strconv\<close> and \<open>fmt\<close> packages the driver uses on text:
  trimming, searching, decimal digits, integer parsing and printing. A Go string is its
  byte sequence, so \<open>length\<close> counts bytes, as \<open>len\<close> does. The lemmas relate digit strings to
  the numbers they denote.
\<close>

section \<open>Definitions\<close>

abbreviation code :: "char \<Rightarrow> nat" where
  "code c \<equiv> of_char c"

definition byte_of_char :: "char \<Rightarrow> byte" where
  "byte_of_char c = word_of_nat (code c)"

definition char_of_byte :: "byte \<Rightarrow> char" where
  "char_of_byte b = char_of (unat b)"

definition is_digit :: "char \<Rightarrow> bool" where
  "is_digit c \<longleftrightarrow> 48 \<le> code c \<and> code c \<le> 57"

text \<open>\<open>isASCIIDigits\<close> of \<open>src/sql.go\<close>: no byte outside '0'..'9'.\<close>

definition isASCIIDigits :: "string \<Rightarrow> bool" where
  "isASCIIDigits s = list_all is_digit s"

definition digit_val :: "char \<Rightarrow> nat" where
  "digit_val c = code c - 48"

definition digit_char :: "nat \<Rightarrow> char" where
  "digit_char d = char_of (48 + d)"

text \<open>The number a digit string denotes.\<close>

definition nat_of_digits :: "string \<Rightarrow> nat" where
  "nat_of_digits s = foldl (\<lambda>a c. a * 10 + digit_val c) 0 s"

definition rep :: "nat \<Rightarrow> char \<Rightarrow> string" where
  "rep n c = replicate n c"

text \<open>
  \<open>strings.TrimSpace\<close>: the white space of \<open>unicode.IsSpace\<close> in UTF-8, removed from both
  ends.
\<close>

definition space_seqs :: "string list" where
  "space_seqs = [[CHR 9], [CHR 10], [CHR 11], [CHR 12], [CHR 13], [CHR 32],
     [CHR 0xC2, CHR 0x85], [CHR 0xC2, CHR 0xA0], [CHR 0xE1, CHR 0x9A, CHR 0x80]] @
     map (\<lambda>k. [CHR 0xE2, CHR 0x80, char_of (0x80 + k)]) [0..<11] @
     [[CHR 0xE2, CHR 0x80, CHR 0xA8], [CHR 0xE2, CHR 0x80, CHR 0xA9],
      [CHR 0xE2, CHR 0x80, CHR 0xAF], [CHR 0xE2, CHR 0x81, CHR 0x9F],
      [CHR 0xE3, CHR 0x80, CHR 0x80]]"

definition strip1 :: "string list \<Rightarrow> string \<Rightarrow> string option" where
  "strip1 ws s =
     (case find (\<lambda>w. w \<noteq> [] \<and> take (length w) s = w) ws of
        None \<Rightarrow> None | Some w \<Rightarrow> Some (drop (length w) s))"

lemma find_Some_P: "find P xs = Some x \<Longrightarrow> x \<in> set xs \<and> P x"
  by (induction xs) (auto split: if_splits)

lemma strip1_shorter: "strip1 ws s = Some t \<Longrightarrow> length t < length s"
  by (auto simp: strip1_def split: option.splits dest!: find_Some_P)
     (metis (no_types, lifting) diff_less length_drop length_greater_0_conv length_take min_0R take_Nil)

function trimSeqs :: "string list \<Rightarrow> string \<Rightarrow> string" where
  "trimSeqs ws s = (case strip1 ws s of None \<Rightarrow> s | Some t \<Rightarrow> trimSeqs ws t)"
  by pat_completeness auto
termination
  by (relation "measure (\<lambda>(ws, s). length s)") (auto dest: strip1_shorter)

declare trimSeqs.simps [simp del]

definition TrimSpace :: "string \<Rightarrow> string" where
  "TrimSpace s = rev (trimSeqs (map rev space_seqs) (rev (trimSeqs space_seqs s)))"

text \<open>\<open>strings.TrimLeft\<close>, \<open>TrimRight\<close> and \<open>Trim\<close> with a one-character cutset.\<close>

definition TrimLeft :: "char \<Rightarrow> string \<Rightarrow> string" where
  "TrimLeft c s = dropWhile (\<lambda>x. x = c) s"

definition TrimRight :: "char \<Rightarrow> string \<Rightarrow> string" where
  "TrimRight c s = rev (dropWhile (\<lambda>x. x = c) (rev s))"

definition TrimChar :: "char \<Rightarrow> string \<Rightarrow> string" where
  "TrimChar c s = TrimRight c (TrimLeft c s)"

text \<open>\<open>strings.IndexByte\<close> and \<open>strings.IndexAny\<close>: the first position, or None for -1.\<close>

definition Index :: "(char \<Rightarrow> bool) \<Rightarrow> string \<Rightarrow> nat option" where
  "Index P s = (if list_ex P s then Some (length (takeWhile (\<lambda>c. \<not> P c) s)) else None)"

text \<open>\<open>strconv.ParseInt(s, 10, 64)\<close>, which is also what \<open>strconv.Atoi\<close> computes.\<close>

fun parseUint64_loop :: "nat \<Rightarrow> string \<Rightarrow> nat res" where
  "parseUint64_loop n [] = Inr n"
| "parseUint64_loop n (c # cs) =
     (if \<not> is_digit c then Inl ErrSyntax
      else if n \<ge> 1844674407370955162 then Inl ErrRange
      else if n * 10 + digit_val c \<ge> 2 ^ 64 then Inl ErrRange
      else parseUint64_loop (n * 10 + digit_val c) cs)"

definition ParseInt64 :: "string \<Rightarrow> int res" where
  "ParseInt64 s =
     (if s = [] then Inl ErrSyntax
      else let neg = (hd s = CHR ''-''); body = (if hd s = CHR ''-'' \<or> hd s = CHR ''+'' then tl s else s) in
        if body = [] then Inl ErrSyntax
        else (case parseUint64_loop 0 body of
                Inl e \<Rightarrow> Inl e
              | Inr un \<Rightarrow>
                  if \<not> neg \<and> un \<ge> 2 ^ 63 then Inl ErrRange
                  else if neg \<and> un > 2 ^ 63 then Inl ErrRange
                  else Inr (if neg then - int un else int un)))"

text \<open>\<open>fmt.Sprintf("%d", n)\<close>, and \<open>"%0wd"\<close> for a non-negative number.\<close>

fun show_nat :: "nat \<Rightarrow> string" where
  "show_nat n = (if n < 10 then [digit_char n] else show_nat (n div 10) @ [digit_char (n mod 10)])"

declare show_nat.simps [simp del]

definition show_int :: "int \<Rightarrow> string" where
  "show_int i = (if i < 0 then CHR ''-'' # show_nat (nat (- i)) else show_nat (nat i))"

definition zero_pad :: "nat \<Rightarrow> string \<Rightarrow> string" where
  "zero_pad w s = rep (w - length s) (CHR ''0'') @ s"

section \<open>Lemmas\<close>

lemma length_rep [simp]: "length (rep n c) = n"
  by (simp add: rep_def)

lemma set_rep: "set (rep n c) \<subseteq> {c}"
  by (auto simp: rep_def)

lemma isASCIIDigits_simps [simp]:
  "isASCIIDigits []" "isASCIIDigits (c # s) = (is_digit c \<and> isASCIIDigits s)"
  "isASCIIDigits (s @ t) = (isASCIIDigits s \<and> isASCIIDigits t)"
  by (simp_all add: isASCIIDigits_def)

lemma isASCIIDigits_rev [simp]: "isASCIIDigits (rev s) = isASCIIDigits s"
  by (simp add: isASCIIDigits_def list_all_iff)

lemma isASCIIDigits_subset: "set t \<subseteq> set s \<Longrightarrow> isASCIIDigits s \<Longrightarrow> isASCIIDigits t"
  by (auto simp: isASCIIDigits_def list_all_iff)

lemma isASCIIDigits_take [simp]: "isASCIIDigits s \<Longrightarrow> isASCIIDigits (take n s)"
  by (rule isASCIIDigits_subset [OF set_take_subset])

lemma isASCIIDigits_drop [simp]: "isASCIIDigits s \<Longrightarrow> isASCIIDigits (drop n s)"
  by (rule isASCIIDigits_subset [OF set_drop_subset])

lemma isASCIIDigits_rep [simp]: "isASCIIDigits (rep n (CHR ''0''))"
  by (auto simp: isASCIIDigits_def rep_def list_all_iff is_digit_def)

lemma isASCIIDigits_TrimLeft [simp]: "isASCIIDigits s \<Longrightarrow> isASCIIDigits (TrimLeft c s)"
  by (auto intro: isASCIIDigits_subset simp: TrimLeft_def dest: set_dropWhileD)

lemma digit_val_digit_char [simp]: "d < 10 \<Longrightarrow> digit_val (digit_char d) = d"
  by (simp add: digit_val_def digit_char_def)

lemma is_digit_digit_char [simp]: "d < 10 \<Longrightarrow> is_digit (digit_char d)"
  by (simp add: is_digit_def digit_char_def)

lemma digit_val_less: "is_digit c \<Longrightarrow> digit_val c < 10"
  unfolding is_digit_def digit_val_def by arith

lemma digit_char_digit_val [simp]: "is_digit c \<Longrightarrow> digit_char (digit_val c) = c"
  by (simp add: digit_char_def digit_val_def is_digit_def)

lemma digit_val_0 [simp]: "digit_val (CHR ''0'') = 0"
  by (simp add: digit_val_def)

lemma digit_char_0 [simp]: "digit_char 0 = CHR ''0''"
proof -
  have "digit_char 0 = char_of (code (CHR ''0''))" by (simp add: digit_char_def)
  then show ?thesis by (simp only: char_of_char)
qed

lemma digit_val_eq_0: "is_digit c \<Longrightarrow> digit_val c = 0 \<longleftrightarrow> c = CHR ''0''"
proof
  assume "is_digit c" "digit_val c = 0"
  then have "c = digit_char 0" by (metis digit_char_digit_val)
  then show "c = CHR ''0''" by simp
qed simp

lemma foldl_digits: "foldl (\<lambda>a c. a * 10 + digit_val c) x s = x * 10 ^ length s + nat_of_digits s"
  unfolding nat_of_digits_def
proof (induction s arbitrary: x)
  case Nil
  then show ?case by simp
next
  case (Cons c s)
  have "foldl (\<lambda>a c. a * 10 + digit_val c) x (c # s) =
      (x * 10 + digit_val c) * 10 ^ length s + foldl (\<lambda>a c. a * 10 + digit_val c) 0 s"
    using Cons [of "x * 10 + digit_val c"] by simp
  moreover have "foldl (\<lambda>a c. a * 10 + digit_val c) 0 (c # s) =
      digit_val c * 10 ^ length s + foldl (\<lambda>a c. a * 10 + digit_val c) 0 s"
    using Cons [of "digit_val c"] by simp
  ultimately show ?case by (simp add: add_mult_distrib)
qed

lemma nat_of_digits_simps [simp]:
  "nat_of_digits [] = 0" "nat_of_digits (c # s) = digit_val c * 10 ^ length s + nat_of_digits s"
  using foldl_digits [of "digit_val c" s] by (simp_all add: nat_of_digits_def)

lemma nat_of_digits_append [simp]:
  "nat_of_digits (s @ t) = nat_of_digits s * 10 ^ length t + nat_of_digits t"
  by (induction s) (simp_all add: algebra_simps power_add)

lemma nat_of_digits_rep [simp]: "nat_of_digits (rep n (CHR ''0'')) = 0"
  by (induction n) (simp_all add: rep_def)

lemma nat_of_digits_zero_pad [simp]: "nat_of_digits (zero_pad w s) = nat_of_digits s"
  by (simp add: zero_pad_def)

lemma length_zero_pad [simp]: "length (zero_pad w s) = max w (length s)"
  by (simp add: zero_pad_def)

lemma zero_pad_id [simp]: "w \<le> length s \<Longrightarrow> zero_pad w s = s"
  by (simp add: zero_pad_def rep_def)

lemma isASCIIDigits_zero_pad [simp]: "isASCIIDigits (zero_pad w s) = isASCIIDigits s"
  by (simp add: zero_pad_def)

lemma nat_of_digits_less: "isASCIIDigits s \<Longrightarrow> nat_of_digits s < 10 ^ length s"
proof (induction s)
  case Nil
  then show ?case by simp
next
  case (Cons c s)
  then have "digit_val c \<le> 9" using digit_val_less [of c] by simp
  then have "digit_val c * 10 ^ length s \<le> 9 * 10 ^ length s" by (rule mult_le_mono1)
  with Cons show ?case unfolding nat_of_digits_simps length_Cons power_Suc
    isASCIIDigits_simps by linarith
qed

lemma nat_of_digits_TrimLeft [simp]: "nat_of_digits (TrimLeft (CHR ''0'') s) = nat_of_digits s"
  by (induction s) (auto simp: TrimLeft_def)

lemma nat_of_digits_take:
  assumes "isASCIIDigits s" "n \<le> length s"
  shows "nat_of_digits (take n s) = nat_of_digits s div 10 ^ (length s - n)"
    and "nat_of_digits (drop n s) = nat_of_digits s mod 10 ^ (length s - n)"
proof -
  have eq: "nat_of_digits s = nat_of_digits (take n s) * 10 ^ (length s - n) + nat_of_digits (drop n s)"
    using nat_of_digits_append [of "take n s" "drop n s"] assms by simp
  have "nat_of_digits (drop n s) < 10 ^ (length s - n)"
    using nat_of_digits_less [of "drop n s"] assms by simp
  then show "nat_of_digits (take n s) = nat_of_digits s div 10 ^ (length s - n)"
    and "nat_of_digits (drop n s) = nat_of_digits s mod 10 ^ (length s - n)"
    by (simp_all add: eq)
qed

lemma nat_of_digits_eq_0:
  "isASCIIDigits s \<Longrightarrow> nat_of_digits s = 0 \<longleftrightarrow> (\<forall>c \<in> set s. c = CHR ''0'')"
  by (induction s) (auto simp: digit_val_eq_0)

lemma nat_of_digits_inj:
  "isASCIIDigits s \<Longrightarrow> isASCIIDigits t \<Longrightarrow> length s = length t \<Longrightarrow>
   nat_of_digits s = nat_of_digits t \<Longrightarrow> s = t"
proof (induction s arbitrary: t)
  case Nil
  then show ?case by simp
next
  case (Cons c s)
  from Cons.prems(3) obtain d u where t: "t = d # u" and len: "length s = length u"
    by (cases t) simp_all
  have ls: "nat_of_digits s < 10 ^ length u" and lu: "nat_of_digits u < 10 ^ length u"
    using Cons.prems nat_of_digits_less [of s] nat_of_digits_less [of u] t len by auto
  have eq: "digit_val c * 10 ^ length u + nat_of_digits s = digit_val d * 10 ^ length u + nat_of_digits u"
    using Cons.prems t len by simp
  have dv: "digit_val c = digit_val d"
    using arg_cong [OF eq, of "\<lambda>x. x div 10 ^ length u"] ls lu by simp
  then have "nat_of_digits s = nat_of_digits u" using eq by simp
  moreover have "c = digit_char (digit_val c)" and "d = digit_char (digit_val d)"
    using Cons.prems(1,2) t by simp_all
  then have "c = d" using \<open>digit_val c = digit_val d\<close> by metis
  moreover have "s = u"
    using Cons.IH [of u] Cons.prems(1,2) t len \<open>nat_of_digits s = nat_of_digits u\<close> by simp
  ultimately show ?case using t by blast
qed

lemma TrimChar_empty_iff: "TrimChar c s = [] \<longleftrightarrow> (\<forall>x \<in> set s. x = c)"
proof -
  have "dropWhile (\<lambda>x. x = c) (rev (dropWhile (\<lambda>x. x = c) s)) = [] \<longleftrightarrow> (\<forall>x \<in> set (dropWhile (\<lambda>x. x = c) s). x = c)"
    by (simp add: dropWhile_eq_Nil_conv)
  also have "\<dots> \<longleftrightarrow> (\<forall>x \<in> set s. x = c)"
    by (induction s) auto
  finally show ?thesis by (simp add: TrimChar_def TrimLeft_def TrimRight_def)
qed

lemma isASCIIDigits_show_nat [simp]: "isASCIIDigits (show_nat n)"
proof (induction n rule: less_induct)
  case (less n)
  then show ?case by (subst show_nat.simps) simp
qed

lemma nat_of_digits_show_nat [simp]: "nat_of_digits (show_nat n) = n"
proof (induction n rule: less_induct)
  case (less n)
  then show ?case by (subst show_nat.simps) simp
qed

lemma show_nat_nonempty [simp]: "show_nat n \<noteq> []"
  by (subst show_nat.simps) simp

lemma length_show_nat: "0 < n \<Longrightarrow> n < 10 ^ k \<Longrightarrow> length (show_nat n) \<le> k"
proof (induction k arbitrary: n)
  case 0
  then show ?case by simp
next
  case (Suc k)
  show ?case
  proof (cases "n < 10")
    case True
    then show ?thesis by (simp add: show_nat.simps [of n])
  next
    case False
    then have "n div 10 < 10 ^ k" "0 < n div 10" using Suc.prems by auto
    then show ?thesis using Suc.IH [of "n div 10"] False by (simp add: show_nat.simps [of n])
  qed
qed

lemma show_nat_lower: "0 < n \<Longrightarrow> 10 ^ (length (show_nat n) - 1) \<le> n"
proof (induction n rule: less_induct)
  case (less n)
  show ?case
  proof (cases "n < 10")
    case True
    then show ?thesis using less.prems by (simp add: show_nat.simps [of n])
  next
    case False
    let ?m = "n div 10"
    have "10 ^ (length (show_nat ?m) - 1) \<le> ?m" using less False by simp
    moreover have "length (show_nat n) - 1 = Suc (length (show_nat ?m) - 1)"
      using False by (simp add: show_nat.simps [of n] Suc_leI)
    ultimately have "10 ^ (length (show_nat n) - 1) \<le> 10 * ?m" by (simp only: power_Suc mult_le_mono)
    then show ?thesis by linarith
  qed
qed

lemma parseUint64_loop_digits:
  "isASCIIDigits s \<Longrightarrow> n * 10 ^ length s + nat_of_digits s < 2 ^ 64 \<Longrightarrow>
   parseUint64_loop n s = Inr (n * 10 ^ length s + nat_of_digits s)"
proof (induction s arbitrary: n)
  case Nil
  then show ?case by simp
next
  case (Cons c s)
  let ?m = "n * 10 + digit_val c"
  have total: "n * 10 ^ length (c # s) + nat_of_digits (c # s) = ?m * 10 ^ length s + nat_of_digits s"
    by (simp add: add_mult_distrib)
  have "?m \<le> ?m * 10 ^ length s" by simp
  then have m: "?m < 2 ^ 64" using Cons.prems(2) unfolding total by linarith
  then have "n < 1844674407370955162" by simp
  then show ?case using Cons m unfolding total by simp
qed

lemma parseUint64_loop_sound:
  "parseUint64_loop n s = Inr m \<Longrightarrow> isASCIIDigits s \<and> m = n * 10 ^ length s + nat_of_digits s"
  by (induction s arbitrary: n) (fastforce simp: add_mult_distrib split: if_splits)+

lemma isASCIIDigits_hd: "isASCIIDigits s \<Longrightarrow> s \<noteq> [] \<Longrightarrow> hd s \<noteq> CHR ''-'' \<and> hd s \<noteq> CHR ''+''"
  by (cases s) (auto simp: is_digit_def)

lemma ParseInt64_digits:
  "isASCIIDigits s \<Longrightarrow> s \<noteq> [] \<Longrightarrow> nat_of_digits s < 2 ^ 63 \<Longrightarrow> ParseInt64 s = Inr (int (nat_of_digits s))"
  using isASCIIDigits_hd [of s] parseUint64_loop_digits [of s 0]
  by (simp add: ParseInt64_def Let_def)

lemma ParseInt64_neg_digits:
  "isASCIIDigits s \<Longrightarrow> s \<noteq> [] \<Longrightarrow> nat_of_digits s \<le> 2 ^ 63 \<Longrightarrow>
   ParseInt64 (CHR ''-'' # s) = Inr (- int (nat_of_digits s))"
  using parseUint64_loop_digits [of s 0]
  by (simp add: ParseInt64_def Let_def)

lemma ParseInt64_show_int:
  assumes "- (2 ^ 63) \<le> i" and "i < 2 ^ 63"
  shows "ParseInt64 (show_int i) = Inr i"
proof (cases "i < 0")
  case True
  then have "nat (- i) \<le> 2 ^ 63" using assms by (simp add: nat_le_iff)
  then show ?thesis using True ParseInt64_neg_digits [of "show_nat (nat (- i))"]
    by (simp add: show_int_def)
next
  case False
  then have "nat i < 2 ^ 63" using assms by (simp add: nat_less_iff)
  then show ?thesis using False ParseInt64_digits [of "show_nat (nat i)"]
    by (simp add: show_int_def)
qed

lemma ParseInt64_range: "ParseInt64 s = Inr i \<Longrightarrow> - (2 ^ 63) \<le> i \<and> i < 2 ^ 63"
  by (auto simp: ParseInt64_def Let_def split: if_splits sum.splits)

lemma Index_Some:
  "Index P s = Some i \<Longrightarrow> i < length s \<and> P (s ! i) \<and> (\<forall>c \<in> set (take i s). \<not> P c)"
proof -
  assume a: "Index P s = Some i"
  then have ex: "\<exists>x \<in> set s. P x" and i: "i = length (takeWhile (\<lambda>c. \<not> P c) s)"
    by (auto simp: Index_def list_ex_iff split: if_splits)
  have lt: "i < length s"
  proof (rule ccontr)
    assume "\<not> i < length s"
    then have "takeWhile (\<lambda>c. \<not> P c) s = s"
      using i by (metis length_takeWhile_le linorder_not_less order_antisym takeWhile_eq_all_conv takeWhile_eq_take take_all)
    with ex show False by (auto simp: takeWhile_eq_all_conv)
  qed
  moreover have "P (s ! i)" using nth_length_takeWhile [of "\<lambda>c. \<not> P c" s] lt i by simp
  moreover have "\<forall>c \<in> set (take i s). \<not> P c"
    using i by (metis set_takeWhileD takeWhile_eq_take)
  ultimately show ?thesis by blast
qed

lemma Index_None: "Index P s = None \<longleftrightarrow> (\<forall>c \<in> set s. \<not> P c)"
  by (auto simp: Index_def list_ex_iff)

text \<open>Text made of printable ASCII characters other than the blank has nothing to trim.\<close>

definition plain_char :: "char \<Rightarrow> bool" where
  "plain_char c \<longleftrightarrow> 33 \<le> code c \<and> code c \<le> 126"

lemma space_seqs_plain:
  "list_all (\<lambda>w. w \<noteq> [] \<and> \<not> plain_char (hd w) \<and> \<not> plain_char (last w)) space_seqs"
  unfolding plain_char_def by code_simp

lemma trimSeqs_plain:
  assumes "\<forall>w \<in> set ws. w \<noteq> [] \<longrightarrow> \<not> plain_char (hd w)" and "s = [] \<or> plain_char (hd s)"
  shows "trimSeqs ws s = s"
proof -
  have "find (\<lambda>w. w \<noteq> [] \<and> take (length w) s = w) ws = None"
    unfolding find_None_iff
  proof
    assume "\<exists>w. w \<in> set ws \<and> w \<noteq> [] \<and> take (length w) s = w"
    then obtain w where w: "w \<in> set ws" "w \<noteq> []" "take (length w) s = w" by blast
    then have "s \<noteq> []" and "hd w = hd s" by (metis take_Nil, metis hd_take length_greater_0_conv)
    with w assms show False by auto
  qed
  then show ?thesis by (subst trimSeqs.simps) (simp add: strip1_def)
qed

lemma TrimSpace_plain:
  assumes "s \<noteq> []" and "plain_char (hd s)" and "plain_char (last s)"
  shows "TrimSpace s = s"
proof -
  have "trimSeqs space_seqs s = s"
    using space_seqs_plain assms by (intro trimSeqs_plain) (auto simp: list_all_iff)
  moreover have "trimSeqs (map rev space_seqs) (rev s) = rev s"
    using space_seqs_plain assms by (intro trimSeqs_plain) (auto simp: list_all_iff hd_rev)
  ultimately show ?thesis by (simp add: TrimSpace_def)
qed

lemma is_digit_plain: "is_digit c \<Longrightarrow> plain_char c"
  by (auto simp: is_digit_def plain_char_def)

lemma drop_zero_pad: "length s \<le> p \<Longrightarrow> p \<le> w \<Longrightarrow> drop (w - p) (zero_pad w s) = zero_pad p s"
  by (simp add: zero_pad_def rep_def)

lemma zero_pad_eqI:
  assumes "isASCIIDigits s" "isASCIIDigits t" "nat_of_digits s = nat_of_digits t" "length s \<le> w" "length t \<le> w"
  shows "zero_pad w s = zero_pad w t"
  using assms by (intro nat_of_digits_inj) simp_all

end
