(* ===== verification/Unicode.thy ===== *)
theory Unicode
  imports GoStrings
begin

text \<open>
  The parts of Go's \<open>unicode/utf8\<close> and \<open>unicode/utf16\<close> the driver's text conversion is
  built on: ranging over a string, \<open>[]rune(s)\<close>, \<open>string(runes)\<close>, \<open>utf16.Encode\<close> and
  \<open>utf16.Decode\<close>. A rune is a \<open>nat\<close>, a UTF-16 code unit a 16-bit word. The lemmas show that
  text made of Unicode scalar values survives UTF-8 and UTF-16 unchanged.
\<close>

section \<open>Definitions\<close>

definition RuneError :: nat where "RuneError = 0xFFFD"

definition valid_rune :: "nat \<Rightarrow> bool" where
  "valid_rune r \<longleftrightarrow> r < 0xD800 \<or> (0xE000 \<le> r \<and> r \<le> 0x10FFFF)"

definition in_range :: "nat \<Rightarrow> nat \<Rightarrow> char \<Rightarrow> bool" where
  "in_range lo hi c \<longleftrightarrow> lo \<le> code c \<and> code c \<le> hi"

text \<open>\<open>utf8.DecodeRuneInString\<close>: the rune and its width; an invalid sequence has width 1.\<close>

fun DecodeRune :: "string \<Rightarrow> nat \<times> nat" where
  "DecodeRune [] = (RuneError, 0)"
| "DecodeRune (c # s) =
     (if code c < 0x80 then (code c, 1)
      else if in_range 0xC2 0xDF c then
        (case s of
           d # _ \<Rightarrow> if in_range 0x80 0xBF d then ((code c - 0xC0) * 64 + (code d - 0x80), 2) else (RuneError, 1)
         | [] \<Rightarrow> (RuneError, 1))
      else if in_range 0xE0 0xEF c then
        (case s of
           d # e # _ \<Rightarrow>
             if in_range (if code c = 0xE0 then 0xA0 else 0x80) (if code c = 0xED then 0x9F else 0xBF) d \<and>
                in_range 0x80 0xBF e
             then ((code c - 0xE0) * 4096 + (code d - 0x80) * 64 + (code e - 0x80), 3)
             else (RuneError, 1)
         | _ \<Rightarrow> (RuneError, 1))
      else if in_range 0xF0 0xF4 c then
        (case s of
           d # e # f # _ \<Rightarrow>
             if in_range (if code c = 0xF0 then 0x90 else 0x80) (if code c = 0xF4 then 0x8F else 0xBF) d \<and>
                in_range 0x80 0xBF e \<and> in_range 0x80 0xBF f
             then ((code c - 0xF0) * 262144 + (code d - 0x80) * 4096 + (code e - 0x80) * 64 + (code f - 0x80), 4)
             else (RuneError, 1)
         | _ \<Rightarrow> (RuneError, 1))
      else (RuneError, 1))"

text \<open>\<open>utf8.AppendRune\<close>; surrogates and values above U+10FFFF are written as U+FFFD.\<close>

definition EncodeRune :: "nat \<Rightarrow> string" where
  "EncodeRune r0 =
     (let r = (if valid_rune r0 then r0 else RuneError) in
      if r < 0x80 then [char_of r]
      else if r < 0x800 then [char_of (0xC0 + r div 64), char_of (0x80 + r mod 64)]
      else if r < 0x10000 then
        [char_of (0xE0 + r div 4096), char_of (0x80 + r div 64 mod 64), char_of (0x80 + r mod 64)]
      else
        [char_of (0xF0 + r div 262144), char_of (0x80 + r div 4096 mod 64),
         char_of (0x80 + r div 64 mod 64), char_of (0x80 + r mod 64)])"

text \<open>\<open>string(runes)\<close> and \<open>[]rune(s)\<close>.\<close>

definition string_of_runes :: "nat list \<Rightarrow> string" where
  "string_of_runes rs = concat (map EncodeRune rs)"

lemma DecodeRune_width: "DecodeRune (c # s) = (r, w) \<Longrightarrow> 0 < w"
  by (auto split: list.splits if_splits)

lemma DecodeRune_advance [simp]: "0 < snd (DecodeRune (c # s))"
  by (cases "DecodeRune (c # s)") (simp only: snd_conv DecodeRune_width)

lemma diff_less_Suc_pos: "0 < w \<Longrightarrow> Suc n - w < Suc n"
  by simp

function runes :: "string \<Rightarrow> nat list" where
  "runes [] = []"
| "runes (c # s) = (case DecodeRune (c # s) of (r, w) \<Rightarrow> r # runes (drop w (c # s)))"
  by pat_completeness auto
termination
  by (relation "measure length") (auto simp del: DecodeRune.simps dest: DecodeRune_width [OF sym])

text \<open>\<open>utf8.Valid\<close> and \<open>bytes.ToValidUTF8(s, "\uFFFD")\<close>: a run of invalid bytes becomes one U+FFFD.\<close>

definition invalid_at :: "string \<Rightarrow> bool" where
  "invalid_at s \<longleftrightarrow> s \<noteq> [] \<and> 0x80 \<le> code (hd s) \<and> snd (DecodeRune s) = 1"

function utf8_Valid :: "string \<Rightarrow> bool" where
  "utf8_Valid [] = True"
| "utf8_Valid (c # s) = (\<not> invalid_at (c # s) \<and> utf8_Valid (drop (snd (DecodeRune (c # s))) (c # s)))"
  by pat_completeness auto
termination
  by (relation "measure length") (auto simp del: DecodeRune.simps simp: diff_less_Suc_pos)

function toValidUTF8_loop :: "bool \<Rightarrow> string \<Rightarrow> string" where
  "toValidUTF8_loop bad [] = []"
| "toValidUTF8_loop bad (c # s) =
     (let w = snd (DecodeRune (c # s)) in
      if invalid_at (c # s)
      then (if bad then [] else EncodeRune RuneError) @ toValidUTF8_loop True s
      else take w (c # s) @ toValidUTF8_loop False (drop w (c # s)))"
  by pat_completeness auto
termination
  by (relation "measure (\<lambda>(bad, s). length s)") (auto simp del: DecodeRune.simps simp: diff_less_Suc_pos)

definition ToValidUTF8 :: "string \<Rightarrow> string" where
  "ToValidUTF8 s = toValidUTF8_loop False s"

text \<open>\<open>utf16.EncodeRune\<close>, \<open>utf16.Encode\<close>, \<open>utf16.IsSurrogate\<close> and \<open>utf16.Decode\<close>.\<close>

definition utf16_EncodeRune :: "nat \<Rightarrow> u16 \<times> u16" where
  "utf16_EncodeRune r =
     (if r < 0x10000 \<or> r > 0x10FFFF then (0xFFFD, 0xFFFD)
      else (word_of_nat (0xD800 + (r - 0x10000) div 1024 mod 1024),
            word_of_nat (0xDC00 + (r - 0x10000) mod 1024)))"

definition utf16_units :: "nat \<Rightarrow> u16 list" where
  "utf16_units r =
     (if r < 0xD800 \<or> (0xE000 \<le> r \<and> r < 0x10000) then [word_of_nat r]
      else if 0x10000 \<le> r \<and> r \<le> 0x10FFFF then (case utf16_EncodeRune r of (hi, lo) \<Rightarrow> [hi, lo])
      else [0xFFFD])"

definition utf16_Encode :: "nat list \<Rightarrow> u16 list" where
  "utf16_Encode rs = concat (map utf16_units rs)"

definition IsSurrogate :: "u16 \<Rightarrow> bool" where
  "IsSurrogate u \<longleftrightarrow> 0xD800 \<le> unat u \<and> unat u < 0xE000"

definition is_high :: "u16 \<Rightarrow> bool" where
  "is_high u \<longleftrightarrow> 0xD800 \<le> unat u \<and> unat u < 0xDC00"

definition is_low :: "u16 \<Rightarrow> bool" where
  "is_low u \<longleftrightarrow> 0xDC00 \<le> unat u \<and> unat u < 0xE000"

definition join_pair :: "u16 \<Rightarrow> u16 \<Rightarrow> nat" where
  "join_pair hi lo = 0x10000 + (unat hi - 0xD800) * 1024 + (unat lo - 0xDC00)"

fun utf16_Decode :: "u16 list \<Rightarrow> nat list" where
  "utf16_Decode [] = []"
| "utf16_Decode [u] = [if IsSurrogate u then RuneError else unat u]"
| "utf16_Decode (u # v # us) =
     (if \<not> IsSurrogate u then unat u # utf16_Decode (v # us)
      else if is_high u \<and> is_low v then join_pair u v # utf16_Decode us
      else RuneError # utf16_Decode (v # us))"

section \<open>Lemmas\<close>

lemma code_char_of [simp]: "n < 256 \<Longrightarrow> code (char_of n) = n"
  by simp

lemma EncodeRune_nonempty: "EncodeRune r \<noteq> []"
  by (simp add: EncodeRune_def Let_def)

lemma DecodeRune2:
  assumes "2 \<le> a" "a < 32" "b < 64"
  shows "DecodeRune (char_of (0xC0 + a) # char_of (0x80 + b) # s) = (a * 64 + b, 2)"
  using assms by (simp add: in_range_def)

lemma DecodeRune3:
  assumes "a < 16" "b < 64" "c < 64" "a = 0 \<longrightarrow> 32 \<le> b" "a = 13 \<longrightarrow> b < 32"
  shows "DecodeRune (char_of (0xE0 + a) # char_of (0x80 + b) # char_of (0x80 + c) # s) =
    (a * 4096 + b * 64 + c, 3)"
proof -
  have "in_range (if 0xE0 + a = 0xE0 then 0xA0 else 0x80) (if 0xE0 + a = 0xED then 0x9F else 0xBF)
      (char_of (0x80 + b))"
    using assms by (auto simp: in_range_def)
  then show ?thesis using assms(1-3) by (simp add: in_range_def)
qed

lemma DecodeRune4:
  assumes "a \<le> 4" "b < 64" "c < 64" "d < 64" "a = 0 \<longrightarrow> 16 \<le> b" "a = 4 \<longrightarrow> b < 16"
  shows "DecodeRune (char_of (0xF0 + a) # char_of (0x80 + b) # char_of (0x80 + c) # char_of (0x80 + d) # s) =
    (a * 262144 + b * 4096 + c * 64 + d, 4)"
proof -
  have "in_range (if 0xF0 + a = 0xF0 then 0x90 else 0x80) (if 0xF0 + a = 0xF4 then 0x8F else 0xBF)
      (char_of (0x80 + b))"
    using assms by (auto simp: in_range_def)
  then show ?thesis using assms(1-4) by (simp add: in_range_def)
qed

lemma div_64:
  fixes r :: nat
  shows "r div 4096 = r div 64 div 64" and "r div 262144 = r div 64 div 64 div 64"
  by (simp_all add: div_mult2_eq [symmetric])

lemma digits_64: "(r::nat) = r div 64 * 64 + r mod 64"
  by simp

lemma DecodeRune_EncodeRune:
  assumes "valid_rune r"
  shows "DecodeRune (EncodeRune r @ s) = (r, length (EncodeRune r))"
proof -
  let ?a = "r div 64" and ?b = "r div 64 div 64" and ?c = "r div 64 div 64 div 64"
  note d = digits_64 [of r] digits_64 [of ?a] digits_64 [of ?b]
  have m: "r mod 64 < 64" "?a mod 64 < 64" "?b mod 64 < 64" by simp_all
  have enc: "EncodeRune r = (if r < 0x80 then [char_of r]
      else if r < 0x800 then [char_of (0xC0 + ?a), char_of (0x80 + r mod 64)]
      else if r < 0x10000 then
        [char_of (0xE0 + ?b), char_of (0x80 + ?a mod 64), char_of (0x80 + r mod 64)]
      else
        [char_of (0xF0 + ?c), char_of (0x80 + ?b mod 64), char_of (0x80 + ?a mod 64), char_of (0x80 + r mod 64)])"
    unfolding EncodeRune_def Let_def div_64 using assms by simp
  consider "r < 0x80" | "0x80 \<le> r" "r < 0x800" | "0x800 \<le> r" "r < 0x10000" | "0x10000 \<le> r" "r \<le> 0x10FFFF"
    using assms unfolding valid_rune_def by linarith
  then show ?thesis
  proof cases
    case 1
    then show ?thesis by (simp add: enc)
  next
    case 2
    then have "2 \<le> ?a" "?a < 32" using d m by linarith+
    from DecodeRune2 [OF this m(1)] 2 show ?thesis by (simp add: enc del: DecodeRune.simps)
  next
    case 3
    then have "?b < 16" "?b = 0 \<longrightarrow> 32 \<le> ?a mod 64" "?b = 13 \<longrightarrow> ?a mod 64 < 32"
      using d m assms unfolding valid_rune_def by linarith+
    moreover have "?b * 4096 + ?a mod 64 * 64 + r mod 64 = r" using d(1,2) by linarith
    ultimately show ?thesis using DecodeRune3 [OF _ m(2) m(1), of ?b s] 3
      by (simp add: enc del: DecodeRune.simps)
  next
    case 4
    then have "?c \<le> 4" "?c = 0 \<longrightarrow> 16 \<le> ?b mod 64" "?c = 4 \<longrightarrow> ?b mod 64 < 16"
      using d m by linarith+
    moreover have "?c * 262144 + ?b mod 64 * 4096 + ?a mod 64 * 64 + r mod 64 = r" using d by linarith
    ultimately show ?thesis using DecodeRune4 [OF _ m(3) m(2) m(1), of ?c s] 4
      by (simp add: enc del: DecodeRune.simps)
  qed
qed

lemma runes_append: "s \<noteq> [] \<Longrightarrow> runes s = fst (DecodeRune s) # runes (drop (snd (DecodeRune s)) s)"
  by (cases s) (auto simp del: DecodeRune.simps simp: split_beta)

lemma runes_EncodeRune: "valid_rune r \<Longrightarrow> runes (EncodeRune r @ s) = r # runes s"
  using runes_append [of "EncodeRune r @ s"] DecodeRune_EncodeRune [of r s] EncodeRune_nonempty [of r]
  by simp

text \<open>Text made of Unicode scalar values: \<open>[]rune(string(rs)) = rs\<close>.\<close>

lemma runes_string_of_runes: "list_all valid_rune rs \<Longrightarrow> runes (string_of_runes rs) = rs"
  by (induction rs) (simp_all add: string_of_runes_def runes_EncodeRune)

lemma string_of_runes_append [simp]: "string_of_runes (xs @ ys) = string_of_runes xs @ string_of_runes ys"
  by (simp add: string_of_runes_def)

text \<open>Well-formed text is the text of some sequence of Unicode scalar values.\<close>

definition wf_text :: "string \<Rightarrow> bool" where
  "wf_text s \<longleftrightarrow> list_all valid_rune (runes s) \<and> string_of_runes (runes s) = s"

text \<open>Evaluation on literal text.\<close>

lemmas utf8_eval = wf_text_def in_range_def valid_rune_def string_of_runes_def EncodeRune_def Let_def char_of_eq_iff

lemma wf_text_string_of_runes: "list_all valid_rune rs \<Longrightarrow> wf_text (string_of_runes rs)"
  by (simp add: wf_text_def runes_string_of_runes)

lemma wf_text_cases:
  assumes "wf_text s"
  obtains rs where "list_all valid_rune rs" "s = string_of_runes rs" "runes s = rs"
  using assms by (metis wf_text_def)

lemma EncodeRune_ascii: "n < 128 \<Longrightarrow> EncodeRune n = [char_of n]"
  by (simp add: EncodeRune_def valid_rune_def Let_def)

lemma valid_rune_ascii: "n < 128 \<Longrightarrow> valid_rune n"
  by (simp add: valid_rune_def)

lemma string_of_runes_ascii:
  "list_all (\<lambda>c. code c < 128) s \<Longrightarrow> string_of_runes (map code s) = s"
  by (induction s) (simp_all add: string_of_runes_def EncodeRune_ascii)

lemma ascii_wf_text:
  assumes "list_all (\<lambda>c. code c < 128) s"
  shows "wf_text s" and "runes s = map code s"
proof -
  have v: "list_all valid_rune (map code s)"
    using assms by (induction s) (simp_all add: valid_rune_ascii)
  then show "runes s = map code s" using string_of_runes_ascii [OF assms] runes_string_of_runes by metis
  then show "wf_text s" using v string_of_runes_ascii [OF assms] by (simp add: wf_text_def)
qed

lemma invalid_at_EncodeRune: "valid_rune r \<Longrightarrow> \<not> invalid_at (EncodeRune r @ s)"
proof (cases "r < 0x80")
  case True
  then show ?thesis by (simp add: invalid_at_def EncodeRune_ascii)
next
  case False
  assume "valid_rune r"
  with False have "length (EncodeRune r) \<noteq> 1" by (simp add: EncodeRune_def Let_def)
  with DecodeRune_EncodeRune [OF \<open>valid_rune r\<close>, of s] show ?thesis by (simp add: invalid_at_def)
qed

lemma utf8_Valid_EncodeRune:
  assumes "valid_rune r"
  shows "utf8_Valid (EncodeRune r @ s) = utf8_Valid s"
proof -
  obtain c t where ct: "EncodeRune r @ s = c # t" using EncodeRune_nonempty [of r] by (cases "EncodeRune r") auto
  have "utf8_Valid (c # t) = utf8_Valid (drop (length (EncodeRune r)) (c # t))"
    using DecodeRune_EncodeRune [OF assms, of s] invalid_at_EncodeRune [OF assms, of s] ct
    by (simp del: DecodeRune.simps)
  then show ?thesis by (simp flip: ct)
qed

lemma utf8_Valid_wf_text: "wf_text s \<Longrightarrow> utf8_Valid s"
proof (elim wf_text_cases)
  fix rs assume "list_all valid_rune rs" and "s = string_of_runes rs"
  then show ?thesis
    by (induction rs arbitrary: s) (simp_all add: string_of_runes_def utf8_Valid_EncodeRune)
qed

subsection \<open>UTF-16\<close>

lemma unat_word_16: "n < 65536 \<Longrightarrow> unat (word_of_nat n :: u16) = n"
  by (rule unat_word_of_nat_16) simp

lemma utf16_pair:
  assumes "0x10000 \<le> r" "r \<le> 0x10FFFF"
  obtains hi lo where "utf16_units r = [hi, lo]" "is_high hi" "is_low lo" "join_pair hi lo = r"
proof -
  let ?q = "(r - 0x10000) div 1024" and ?m = "(r - 0x10000) mod 1024"
  have q: "?q < 1024" using assms by (simp add: less_mult_imp_div_less)
  have m: "?m < 1024" by simp
  have r: "r = 0x10000 + ?q * 1024 + ?m" using assms by (simp add: div_mult_mod_eq)
  let ?hi = "word_of_nat (0xD800 + ?q) :: u16" and ?lo = "word_of_nat (0xDC00 + ?m) :: u16"
  have uh: "unat ?hi = 0xD800 + ?q" using q by (intro unat_word_16) linarith
  have ul: "unat ?lo = 0xDC00 + ?m" using m by (intro unat_word_16) linarith
  have "utf16_units r = [?hi, ?lo]" using assms q by (simp add: utf16_units_def utf16_EncodeRune_def)
  moreover have "is_high ?hi" using uh q unfolding is_high_def by linarith
  moreover have "is_low ?lo" using ul m unfolding is_low_def by linarith
  moreover have "join_pair ?hi ?lo = r" using r unfolding join_pair_def uh ul by linarith
  ultimately show thesis using that by blast
qed

lemma high_IsSurrogate: "is_high u \<Longrightarrow> IsSurrogate u"
  by (simp add: is_high_def IsSurrogate_def)

lemma utf16_Decode_units:
  assumes "valid_rune r"
  shows "utf16_Decode (utf16_units r @ us) = r # utf16_Decode us"
proof (cases "r < 0x10000")
  case True
  with assms have u: "utf16_units r = [word_of_nat r]" "\<not> IsSurrogate (word_of_nat r)"
    "unat (word_of_nat r :: u16) = r"
    by (auto simp: utf16_units_def valid_rune_def IsSurrogate_def unat_word_16)
  then show ?thesis by (cases us) simp_all
next
  case False
  with assms have "0x10000 \<le> r" "r \<le> 0x10FFFF" by (auto simp: valid_rune_def)
  then obtain hi lo where "utf16_units r = [hi, lo]" "is_high hi" "is_low lo" "join_pair hi lo = r"
    by (rule utf16_pair)
  then show ?thesis by (simp add: high_IsSurrogate)
qed

lemma utf16_Decode_Encode: "list_all valid_rune rs \<Longrightarrow> utf16_Decode (utf16_Encode rs) = rs"
  by (induction rs) (simp_all add: utf16_Encode_def utf16_Decode_units)

lemma join_pair_valid: "is_high u \<Longrightarrow> is_low v \<Longrightarrow> valid_rune (join_pair u v)"
proof -
  assume u: "is_high u" and v: "is_low v"
  then have "unat u - 0xD800 \<le> 1023" and "unat v - 0xDC00 \<le> 1023"
    unfolding is_high_def is_low_def by linarith+
  then show ?thesis unfolding join_pair_def valid_rune_def by linarith
qed

text \<open>Decoding always yields Unicode scalar values.\<close>

lemma utf16_Decode_valid: "list_all valid_rune (utf16_Decode us)"
proof -
  have s: "\<not> IsSurrogate u \<Longrightarrow> valid_rune (unat u)" for u :: u16
    using unat_less_pow [of u] by (auto simp: IsSurrogate_def valid_rune_def)
  have e: "valid_rune RuneError" by (simp add: RuneError_def valid_rune_def)
  show ?thesis by (induction us rule: utf16_Decode.induct) (simp_all add: s e join_pair_valid)
qed

end
