(* ===== verification/Floats.thy ===== *)
theory Floats
  imports Prelude
begin

text \<open>
  Go's conversions between \<open>float32\<close>, \<open>float64\<close> and \<open>int64\<close>, on IEEE 754 bit patterns, as far
  as the driver uses them: widening a REAL column, narrowing a REAL parameter with rounding
  to nearest even, and reading a \<open>float64\<close> as an exact integer. A NaN keeps its leading payload
  bits and becomes quiet, as the processors Go runs on do.
\<close>

section \<open>Definitions\<close>

definition f64_sign :: "nat \<Rightarrow> nat" where "f64_sign b = b div 2 ^ 63 mod 2"
definition f64_exp :: "nat \<Rightarrow> nat" where "f64_exp b = b div 2 ^ 52 mod 2 ^ 11"
definition f64_man :: "nat \<Rightarrow> nat" where "f64_man b = b mod 2 ^ 52"

definition f64_bits :: "nat \<Rightarrow> nat \<Rightarrow> nat \<Rightarrow> nat" where
  "f64_bits s e m = s * 2 ^ 63 + e * 2 ^ 52 + m"

definition f32_sign :: "nat \<Rightarrow> nat" where "f32_sign b = b div 2 ^ 31 mod 2"
definition f32_exp :: "nat \<Rightarrow> nat" where "f32_exp b = b div 2 ^ 23 mod 2 ^ 8"
definition f32_man :: "nat \<Rightarrow> nat" where "f32_man b = b mod 2 ^ 23"

definition f32_bits :: "nat \<Rightarrow> nat \<Rightarrow> nat \<Rightarrow> nat" where
  "f32_bits s e m = s * 2 ^ 31 + e * 2 ^ 23 + m"

text \<open>The position of the highest one bit.\<close>

fun top_bit :: "nat \<Rightarrow> nat" where
  "top_bit n = (if n \<le> 1 then 0 else Suc (top_bit (n div 2)))"

declare top_bit.simps [simp del]

text \<open>\<open>float64(x)\<close> for a \<open>float32\<close>: exact; a subnormal number is normalised.\<close>

definition float32_to_64 :: "nat \<Rightarrow> nat" where
  "float32_to_64 b =
     (let s = f32_sign b; e = f32_exp b; m = f32_man b in
      if e = 255 then f64_bits s 2047 (if m = 0 then 0 else m mod 2 ^ 22 * 2 ^ 29 + 2 ^ 51)
      else if e = 0 then
        if m = 0 then f64_bits s 0 0
        else let k = top_bit m in f64_bits s (k + 874) ((m - 2 ^ k) * 2 ^ (52 - k))
      else f64_bits s (e + 896) (m * 2 ^ 29))"

text \<open>\<open>n / 2 ^ k\<close>, rounded to the nearest integer, ties to even.\<close>

definition round_shift :: "nat \<Rightarrow> nat \<Rightarrow> nat" where
  "round_shift n k =
     (let q = n div 2 ^ k; r = n mod 2 ^ k in if 2 * r > 2 ^ k \<or> (2 * r = 2 ^ k \<and> odd q) then q + 1 else q)"

text \<open>\<open>float32(x)\<close> for a \<open>float64\<close>; a carry out of the fraction moves into the exponent by itself.\<close>

definition float64_to_32 :: "nat \<Rightarrow> nat" where
  "float64_to_32 b =
     (let s = f64_sign b; e = f64_exp b; m = f64_man b in
      if e = 2047 then f32_bits s 255 (if m = 0 then 0 else m div 2 ^ 29 mod 2 ^ 22 + 2 ^ 22)
      else if e > 1150 then f32_bits s 255 0
      else if e \<ge> 897 then
        let r = (e - 897) * 2 ^ 23 + round_shift (2 ^ 52 + m) 29 in
        if r \<ge> 255 * 2 ^ 23 then f32_bits s 255 0 else s * 2 ^ 31 + r
      else if e \<ge> 872 then s * 2 ^ 31 + round_shift (2 ^ 52 + m) (926 - e)
      else f32_bits s 0 0)"

text \<open>\<open>math.IsNaN\<close>, \<open>math.IsInf\<close>, and the value of a \<open>float64\<close> that is an integer (\<open>x = math.Trunc(x)\<close>).\<close>

definition f64_finite :: "nat \<Rightarrow> bool" where
  "f64_finite b \<longleftrightarrow> f64_exp b \<noteq> 2047"

definition f64_int :: "nat \<Rightarrow> int option" where
  "f64_int b =
     (let e = f64_exp b; m = f64_man b; n = (if e = 0 then m else 2 ^ 52 + m);
          v = (if e \<ge> 1075 then Some (n * 2 ^ (e - 1075))
               else if n = 0 then Some 0
               else if e < 1023 then None
               else if n mod 2 ^ (1075 - e) = 0 then Some (n div 2 ^ (1075 - e)) else None) in
      map_option (\<lambda>n. if f64_sign b = 1 then - int n else int n) v)"

text \<open>\<open>float64(n)\<close> for an \<open>int64\<close>, rounded to nearest even.\<close>

definition float_of_nat :: "nat \<Rightarrow> nat" where
  "float_of_nat n =
     (if n = 0 then 0
      else let k = top_bit n in
        if k \<le> 52 then (k + 1023) * 2 ^ 52 + (n - 2 ^ k) * 2 ^ (52 - k)
        else (k + 1022) * 2 ^ 52 + round_shift n (k - 52))"

definition float_of_int :: "int \<Rightarrow> nat" where
  "float_of_int i = (if i < 0 then 2 ^ 63 + float_of_nat (nat (- i)) else float_of_nat (nat i))"

section \<open>Lemmas\<close>

lemma f32_fields:
  assumes "b < 2 ^ 32"
  shows "f32_bits (f32_sign b) (f32_exp b) (f32_man b) = b" "f32_sign b < 2" "f32_exp b < 256" "f32_man b < 2 ^ 23"
proof -
  define q where "q = b div 2 ^ 23"
  have "b div 2 ^ 31 = q div 2 ^ 8" unfolding q_def by (simp add: div_mult2_eq [symmetric])
  moreover have "b div 2 ^ 31 < 2" using assms by (simp add: less_mult_imp_div_less)
  ultimately have s: "f32_sign b = q div 2 ^ 8" and e: "f32_exp b = q mod 2 ^ 8"
    by (simp_all add: f32_sign_def f32_exp_def q_def)
  have "q div 2 ^ 8 * 2 ^ 31 + q mod 2 ^ 8 * 2 ^ 23 = (q div 2 ^ 8 * 2 ^ 8 + q mod 2 ^ 8) * 2 ^ 23"
    by (simp only: add_mult_distrib mult.assoc) simp
  also have "\<dots> = q * 2 ^ 23" by (simp only: div_mult_mod_eq)
  finally show "f32_bits (f32_sign b) (f32_exp b) (f32_man b) = b"
    unfolding f32_bits_def s e f32_man_def by (simp add: q_def)
qed (simp_all add: f32_sign_def f32_exp_def f32_man_def)

lemma f64_fields:
  assumes "s < 2" "e < 2 ^ 11" "m < 2 ^ 52"
  shows "f64_sign (f64_bits s e m) = s" "f64_exp (f64_bits s e m) = e" "f64_man (f64_bits s e m) = m"
proof -
  have d: "f64_bits s e m div 2 ^ 52 = s * 2 ^ 11 + e"
    using assms(3) by (simp add: f64_bits_def)
  have "f64_bits s e m div 2 ^ 63 = f64_bits s e m div 2 ^ 52 div 2 ^ 11" by (simp add: div_mult2_eq [symmetric])
  then have "f64_bits s e m div 2 ^ 63 = s" unfolding d using assms(2) by simp
  then show "f64_sign (f64_bits s e m) = s" using assms(1) by (simp add: f64_sign_def)
  show "f64_exp (f64_bits s e m) = e" unfolding f64_exp_def d using assms(2) by simp
  have "f64_bits s e m = (s * 2 ^ 11 + e) * 2 ^ 52 + m" by (simp add: f64_bits_def)
  then show "f64_man (f64_bits s e m) = m" unfolding f64_man_def using assms(3) by (simp only: mod_mult_self3) simp
qed

lemma top_bit_bounds: "0 < n \<Longrightarrow> 2 ^ top_bit n \<le> n \<and> n < 2 ^ Suc (top_bit n)"
proof (induction n rule: top_bit.induct)
  case (1 n)
  show ?case
  proof (cases "n \<le> 1")
    case True
    then show ?thesis using 1(2) by (subst top_bit.simps, subst top_bit.simps) auto
  next
    case False
    then have "2 ^ top_bit (n div 2) \<le> n div 2 \<and> n div 2 < 2 ^ Suc (top_bit (n div 2))" by (intro 1(1)) auto
    then have "2 ^ Suc (top_bit (n div 2)) \<le> n" "n < 2 ^ Suc (Suc (top_bit (n div 2)))" by auto
    then show ?thesis using False by (simp add: top_bit.simps [of n])
  qed
qed

lemma top_bit_unique: "2 ^ k \<le> n \<Longrightarrow> n < 2 ^ Suc k \<Longrightarrow> top_bit n = k"
proof -
  assume k: "2 ^ k \<le> n" "n < 2 ^ Suc k"
  then have "0 < n" by (metis le_zero_eq not_gr_zero power_not_zero zero_neq_numeral)
  with top_bit_bounds have "2 ^ top_bit n \<le> n" "n < 2 ^ Suc (top_bit n)" by auto
  with k have "(2 :: nat) ^ k < 2 ^ Suc (top_bit n)" "(2 :: nat) ^ top_bit n < 2 ^ Suc k" by linarith+
  from this [THEN power_less_imp_less_exp [rotated]] show ?thesis by simp
qed

lemma round_shift_exact: "round_shift (n * 2 ^ k) k = n"
  by (simp add: round_shift_def)

text \<open>A REAL value that is widened and narrowed again is unchanged.\<close>

lemma float32_narrow_widen:
  assumes "b < 2 ^ 32" "\<not> (f32_exp b = 255 \<and> f32_man b \<noteq> 0)"
  shows "float64_to_32 (float32_to_64 b) = b"
proof -
  note f = f32_fields [OF assms(1)]
  let ?s = "f32_sign b" and ?e = "f32_exp b" and ?m = "f32_man b"
  consider "?e = 255" "?m = 0" | "?e = 0" "?m = 0" | "?e = 0" "?m \<noteq> 0" | "0 < ?e" "?e < 255" using assms(2) f(3) by linarith
  then show ?thesis
  proof cases
    case 1
    then have "float32_to_64 b = f64_bits ?s 2047 0" by (simp add: float32_to_64_def)
    then show ?thesis using f64_fields [of ?s 2047 0] f 1 by (simp add: float64_to_32_def)
  next
    case 2
    then have "float32_to_64 b = f64_bits ?s 0 0" by (simp add: float32_to_64_def)
    then show ?thesis using f64_fields [of ?s 0 0] f 2 by (simp add: float64_to_32_def)
  next
    case 3
    define k where "k = top_bit ?m"
    have k: "2 ^ k \<le> ?m" "?m < 2 ^ Suc k" using top_bit_bounds [of ?m] 3(2) by (simp_all add: k_def)
    then have "(2 :: nat) ^ k < 2 ^ 23" using f(4) by linarith
    then have k23: "k < 23" by (rule power_less_imp_less_exp [rotated]) simp
    let ?x = "(?m - 2 ^ k) * 2 ^ (52 - k)"
    have p: "(2 :: nat) ^ k * 2 ^ (52 - k) = 2 ^ 52" using k23 by (simp flip: power_add)
    have "?x < 2 ^ k * 2 ^ (52 - k)" using k by simp
    then have x: "?x < 2 ^ 52" unfolding p .
    have w: "float32_to_64 b = f64_bits ?s (k + 874) ?x" using 3 by (simp add: float32_to_64_def k_def Let_def)
    have "2 ^ k * 2 ^ (52 - k) \<le> ?m * 2 ^ (52 - k)" using k(1) by (intro mult_right_mono) simp_all
    then have "2 ^ 52 + ?x = ?m * 2 ^ (52 - k)" unfolding p by (simp only: diff_mult_distrib p le_add_diff_inverse)
    moreover have "926 - (k + 874) = 52 - k" by simp
    ultimately have "round_shift (2 ^ 52 + ?x) (926 - (k + 874)) = ?m" by (simp only: round_shift_exact)
    moreover have "f32_bits ?s 0 ?m = b" using f(1) 3(1) by simp
    ultimately show ?thesis using f64_fields [of ?s "k + 874" ?x] f(2) k23 x
      unfolding w by (simp add: float64_to_32_def f32_bits_def Let_def)
  next
    case 4
    have m: "?m * 2 ^ 29 < 2 ^ 52" using f(4) by simp
    have w: "float32_to_64 b = f64_bits ?s (?e + 896) (?m * 2 ^ 29)" using 4 by (simp add: float32_to_64_def)
    have "2 ^ 52 + ?m * 2 ^ 29 = (2 ^ 23 + ?m) * 2 ^ 29" by (simp add: algebra_simps)
    then have r: "round_shift (2 ^ 52 + ?m * 2 ^ 29) 29 = 2 ^ 23 + ?m" by (simp only: round_shift_exact)
    have b: "?s * 2 ^ 31 + ?e * 2 ^ 23 + ?m = b" using f(1) by (simp add: f32_bits_def)
    have "(?e + 896 - 897) * 2 ^ 23 + (2 ^ 23 + ?m) = ?e * 2 ^ 23 + ?m" using 4(1) by (simp add: diff_mult_distrib)
    moreover have "\<not> ?e * 2 ^ 23 + ?m \<ge> 255 * 2 ^ 23"
    proof -
      have "(?e + 1) * 2 ^ 23 \<le> 255 * 2 ^ 23" using 4(2) by (intro mult_right_mono) simp_all
      then show ?thesis using f(4) by simp
    qed
    ultimately show ?thesis using f64_fields [of ?s "?e + 896" "?m * 2 ^ 29"] f(2) 4 m r b
      unfolding w float64_to_32_def Let_def by simp
  qed
qed

end
