(* ===== verification/Values.thy ===== *)
theory Values
  imports Unicode Floats
begin

text \<open>
  The values a caller passes to and receives from the driver (Go's \<open>driver.Value\<close> and
  \<open>driver.NamedValue\<close>), and the standard-library text formats the driver prints them with.
  A \<open>float64\<close> is its IEEE 754 bit pattern; the texts \<open>strconv\<close> gives it are arguments where
  they are needed. A \<open>time.Time\<close> is its wall-clock reading.
\<close>

record go_time =
  tYear :: int
  tMonth :: nat
  tDay :: nat
  tHour :: nat
  tMinute :: nat
  tSecond :: nat
  tNanosecond :: nat

text \<open>
  Arguments can be of any Go type. Besides the types of \<open>driver.Value\<close> the model knows the other
  integer types by name, \<open>float32\<close>, pointers, named types (by the value of their underlying
  type), implementations of \<open>driver.Valuer\<close> by what their \<open>Value\<close> method returns, and
  \<open>sql.Out\<close> with its destination and \<open>In\<close> flag. \<open>VOther\<close> is a value of any other type.
\<close>

datatype driverValue =
    VNil
  | VInt int
  | VFloat u64
  | VBool bool
  | VString string
  | VBytes bytes
  | VTime go_time
  | VGoInt string int
  | VFloat32 u32
  | VPointer "driverValue option"
  | VNamed string driverValue
  | VValuer "go_error + driverValue"
  | VOut outDest bool
  | VOther string
and outDest = OutNil | OutNotPointer | OutNilPointer | OutPointer driverValue

fun IsValue :: "driverValue \<Rightarrow> bool" where
  "IsValue VNil = True"
| "IsValue (VInt _) = True"
| "IsValue (VFloat _) = True"
| "IsValue (VBool _) = True"
| "IsValue (VString _) = True"
| "IsValue (VBytes _) = True"
| "IsValue (VTime _) = True"
| "IsValue _ = False"

definition float64_of_32 :: "u32 \<Rightarrow> u64" where
  "float64_of_32 w = word_of_nat (float32_to_64 (unat w))"

text \<open>\<open>driver.DefaultParameterConverter.ConvertValue\<close>.\<close>

fun ConvertValue :: "driverValue \<Rightarrow> driverValue res" where
  "ConvertValue (VGoInt name i) =
     (if name = ''uint64'' \<and> i \<ge> 2 ^ 63 then Inl (Errorf ''uint64 values with high bit set are not supported'' [])
      else Inr (VInt (wrap_int64 i)))"
| "ConvertValue (VFloat32 w) = Inr (VFloat (float64_of_32 w))"
| "ConvertValue (VPointer None) = Inr VNil"
| "ConvertValue (VPointer (Some v)) = ConvertValue v"
| "ConvertValue (VNamed t v) =
     (case v of
        VInt i \<Rightarrow> Inr v | VFloat f \<Rightarrow> Inr v | VBool b \<Rightarrow> Inr v | VString s \<Rightarrow> Inr v | VBytes b \<Rightarrow> Inr v
      | VGoInt name i \<Rightarrow> ConvertValue v | VFloat32 w \<Rightarrow> ConvertValue v
      | _ \<Rightarrow> Inl (Errorf ''unsupported type %T, a %s'' [FStr t]))"
| "ConvertValue (VValuer r) =
     (case r of
        Inl e \<Rightarrow> Inl e
      | Inr v \<Rightarrow> if IsValue v then Inr v else Inl (Errorf ''non-Value type %T returned from Value'' []))"
| "ConvertValue (VOut d i) = Inl (Errorf ''unsupported type %T, a %s'' [FStr ''sql.Out''])"
| "ConvertValue (VOther t) = Inl (Errorf ''unsupported type %T, a %s'' [FStr t])"
| "ConvertValue v = Inr v"

record namedValue =
  nvName :: string
  nvOrdinal :: nat
  nvValue :: driverValue

text \<open>\<open>hex.EncodeToString\<close> in upper case.\<close>

definition hex_char :: "nat \<Rightarrow> char" where
  "hex_char d = (if d < 10 then char_of (48 + d) else char_of (55 + d))"

definition hex_byte :: "byte \<Rightarrow> string" where
  "hex_byte b = [hex_char (unat b div 16), hex_char (unat b mod 16)]"

definition hex_upper :: "bytes \<Rightarrow> string" where
  "hex_upper bs = concat (map hex_byte bs)"

text \<open>\<open>%08X\<close> of a 32-bit number.\<close>

definition hex8 :: "nat \<Rightarrow> string" where
  "hex8 n = map (\<lambda>i. hex_char (n div 16 ^ (7 - i) mod 16)) [0..<8]"

text \<open>Two-digit fields, and the layout "2006-01-02-15.04.05.999999999": no trailing zeros in the fraction.\<close>

definition pad2 :: "nat \<Rightarrow> string" where
  "pad2 n = zero_pad 2 (show_nat n)"

definition format_year :: "int \<Rightarrow> string" where
  "format_year y = (if y < 0 then CHR ''-'' # zero_pad 4 (show_nat (nat (- y))) else zero_pad 4 (show_nat (nat y)))"

definition format_fraction :: "nat \<Rightarrow> string" where
  "format_fraction ns =
     (let digits = TrimRight (CHR ''0'') (zero_pad 9 (show_nat ns)) in
      if digits = [] then [] else CHR ''.'' # digits)"

definition format_timestamp :: "go_time \<Rightarrow> string" where
  "format_timestamp t =
     format_year (tYear t) @ ''-'' @ pad2 (tMonth t) @ ''-'' @ pad2 (tDay t) @ ''-'' @ pad2 (tHour t) @ ''.'' @
     pad2 (tMinute t) @ ''.'' @ pad2 (tSecond t) @ format_fraction (tNanosecond t)"

section \<open>Lemmas\<close>

lemma hex_char_inject: "a < 16 \<Longrightarrow> b < 16 \<Longrightarrow> hex_char a = hex_char b \<Longrightarrow> a = b"
  unfolding hex_char_def by (auto split: if_splits dest!: arg_cong [of _ _ code])

lemma length_hex8 [simp]: "length (hex8 n) = 8"
  by (simp add: hex8_def)

lemma div_mod_eq_pow:
  assumes "\<forall>i < k. (m::nat) div 16 ^ i mod 16 = n div 16 ^ i mod 16"
  shows "m mod 16 ^ k = n mod 16 ^ k"
  using assms
proof (induction k)
  case (Suc k)
  have "x mod 16 ^ Suc k = x div 16 ^ k mod 16 * 16 ^ k + x mod 16 ^ k" for x :: nat
    using mod_mult2_eq [of x "16 ^ k" 16] by (simp add: mult.commute)
  with Suc show ?case by simp
qed simp

lemma hex8_inject: "m < 2 ^ 32 \<Longrightarrow> n < 2 ^ 32 \<Longrightarrow> hex8 m = hex8 n \<Longrightarrow> m = n"
proof -
  assume m: "m < 2 ^ 32" and n: "n < 2 ^ 32" and e: "hex8 m = hex8 n"
  have "m div 16 ^ i mod 16 = n div 16 ^ i mod 16" if "i < 8" for i
  proof -
    have "hex8 m ! (7 - i) = hex8 n ! (7 - i)" using e by simp
    moreover have "[0..<8] ! (7 - i) = 7 - i" by (subst nth_upt) simp_all
    ultimately have "hex_char (m div 16 ^ i mod 16) = hex_char (n div 16 ^ i mod 16)"
      using that by (simp add: hex8_def)
    then show ?thesis by (rule hex_char_inject [rotated 2]) simp_all
  qed
  then have "m mod 16 ^ 8 = n mod 16 ^ 8" by (intro div_mod_eq_pow) simp
  with m n show ?thesis by simp
qed

end
