(* ===== verification/Formats.thy ===== *)
theory Formats
  imports GoStrings
begin

text \<open>
  The data the SQL layer passes around, from \<open>src/sql.go\<close> and \<open>src/bidi_settings.go\<close>:
  parameter marker fields and formats, column metadata, result-set metadata, fetched
  blocks, the SQLCA and warnings, and the Db2 type codes. Pointers that may be nil are
  options; a warning chain (\<open>SQLWarning.Next\<close>) is a list.
\<close>

section \<open>Db2 type codes\<close>

definition db2TypeDate :: int where "db2TypeDate = 384"
definition db2TypeTime :: int where "db2TypeTime = 388"
definition db2TypeTimestamp :: int where "db2TypeTimestamp = 392"
definition db2TypeDatalink :: int where "db2TypeDatalink = 396"
definition db2TypeBlob :: int where "db2TypeBlob = 404"
definition db2TypeClob :: int where "db2TypeClob = 408"
definition db2TypeDbclob :: int where "db2TypeDbclob = 412"
definition db2TypeVarchar :: int where "db2TypeVarchar = 448"
definition db2TypeChar :: int where "db2TypeChar = 452"
definition db2TypeLongVarchar :: int where "db2TypeLongVarchar = 456"
definition db2TypeVarGraphic :: int where "db2TypeVarGraphic = 464"
definition db2TypeGraphic :: int where "db2TypeGraphic = 468"
definition db2TypeLongVarGraphic :: int where "db2TypeLongVarGraphic = 472"
definition db2TypeFloatingPoint :: int where "db2TypeFloatingPoint = 480"
definition db2TypeDecimal :: int where "db2TypeDecimal = 484"
definition db2TypeNumeric :: int where "db2TypeNumeric = 488"
definition db2TypeBigint :: int where "db2TypeBigint = 492"
definition db2TypeInteger :: int where "db2TypeInteger = 496"
definition db2TypeSmallint :: int where "db2TypeSmallint = 500"
definition db2TypeRowID :: int where "db2TypeRowID = 904"
definition db2TypeVarbinary :: int where "db2TypeVarbinary = 908"
definition db2TypeBinary :: int where "db2TypeBinary = 912"
definition db2TypeBlobLocator :: int where "db2TypeBlobLocator = 960"
definition db2TypeClobLocator :: int where "db2TypeClobLocator = 964"
definition db2TypeDbclobLocator :: int where "db2TypeDbclobLocator = 968"
definition db2TypeXML :: int where "db2TypeXML = 988"
definition db2TypeDecfloat :: int where "db2TypeDecfloat = 996"
definition db2TypeBoolean :: int where "db2TypeBoolean = 2436"
definition db2TypeXMLLocator :: int where "db2TypeXMLLocator = 2452"

lemmas db2_types =
  db2TypeDate_def db2TypeTime_def db2TypeTimestamp_def db2TypeDatalink_def db2TypeBlob_def
  db2TypeClob_def db2TypeDbclob_def db2TypeVarchar_def db2TypeChar_def db2TypeLongVarchar_def
  db2TypeVarGraphic_def db2TypeGraphic_def db2TypeLongVarGraphic_def db2TypeFloatingPoint_def
  db2TypeDecimal_def db2TypeNumeric_def db2TypeBigint_def db2TypeInteger_def db2TypeSmallint_def
  db2TypeRowID_def db2TypeVarbinary_def db2TypeBinary_def db2TypeBlobLocator_def
  db2TypeClobLocator_def db2TypeDbclobLocator_def db2TypeXML_def db2TypeDecfloat_def
  db2TypeBoolean_def db2TypeXMLLocator_def

text \<open>The type code without its null bit; CCSID 65535 turns character types into binary ones.\<close>

definition db2_type_of :: "int \<Rightarrow> int \<Rightarrow> int" where
  "db2_type_of typ0 ccsid =
     (let typ = typ0 AND 0xFFFE in
      if ccsid = 65535 \<and> typ = db2TypeChar then db2TypeBinary
      else if ccsid = 65535 \<and> (typ = db2TypeVarchar \<or> typ = db2TypeLongVarchar) then db2TypeVarbinary
      else typ)"

section \<open>Bidi settings\<close>

record bidiSettings =
  bsStringType :: int
  bsImplicitReordering :: bool
  bsNumericOrdering :: bool

definition defaultBidiSettings :: bidiSettings where
  "defaultBidiSettings = \<lparr>bsStringType = 5, bsImplicitReordering = True, bsNumericOrdering = False\<rparr>"

section \<open>Parameter markers\<close>

record parameterMarkerField =
  pfName :: string
  pfSQLType :: int
  pfLength :: int
  pfScale :: int
  pfPrecision :: int
  pfCCSID :: int
  pfParameterType :: int
  pfLOBLocator :: int
  pfLOBMaxSize :: int
  pfBidi :: "bidiSettings option"

definition textBidi :: "parameterMarkerField \<Rightarrow> bidiSettings" where
  "textBidi f = (case pfBidi f of None \<Rightarrow> defaultBidiSettings | Some b \<Rightarrow> b)"

definition parameterFieldDB2Type :: "parameterMarkerField \<Rightarrow> int" where
  "parameterFieldDB2Type f = db2_type_of (pfSQLType f) (pfCCSID f)"

record parameterMarkerFormat =
  pmCodePoint :: u16
  pmRecordSize :: int
  pmFields :: "parameterMarkerField list"

definition parameterCount :: "parameterMarkerFormat option \<Rightarrow> nat" where
  "parameterCount f = (case f of None \<Rightarrow> 0 | Some m \<Rightarrow> length (pmFields m))"

definition pm_field :: "parameterMarkerFormat option \<Rightarrow> int \<Rightarrow> parameterMarkerField option" where
  "pm_field f index =
     (case f of None \<Rightarrow> None
      | Some m \<Rightarrow> if index < 0 \<or> index \<ge> int (length (pmFields m)) then None
                  else Some (pmFields m ! nat index))"

definition usesOriginalFormat :: "parameterMarkerFormat option \<Rightarrow> bool" where
  "usesOriginalFormat f = (case f of None \<Rightarrow> False | Some m \<Rightarrow> pmCodePoint m = 0x3808)"

definition usesExtendedFormat :: "parameterMarkerFormat option \<Rightarrow> bool" where
  "usesExtendedFormat f =
     (case f of None \<Rightarrow> False | Some m \<Rightarrow> pmCodePoint m = 0x380D \<or> pmCodePoint m = 0x3813)"

section \<open>Columns and result sets\<close>

record columnMeta =
  cName :: string
  cNameCCSID :: int
  cLabel :: string
  cBaseColumnName :: string
  cBaseTableName :: string
  cBaseSchemaName :: string
  cSQLFromTable :: string
  cSQLFromSchema :: string
  cUDTName :: string
  cType :: int
  cLength :: int
  cScale :: int
  cPrecision :: int
  cCCSID :: int
  cOffset :: int
  cLobMaxSize :: int
  cUpdateable :: int
  cSearchable :: int
  cIsIdentity :: bool
  cIsAlwaysGenerated :: bool
  cIsPartOfAnyIndex :: bool
  cIsLoneUniqueIndex :: bool
  cIsPartOfUniqueIndex :: bool
  cIsExpression :: bool
  cIsPrimaryKey :: bool
  cIsNamed :: bool
  cIsRowID :: bool
  cIsRowChangeTimestamp :: bool

text \<open>The zero value of the struct, what \<open>make([]columnMeta, n)\<close> fills the slice with.\<close>

definition zeroColumn :: columnMeta where
  "zeroColumn = \<lparr>cName = [], cNameCCSID = 0, cLabel = [], cBaseColumnName = [], cBaseTableName = [],
     cBaseSchemaName = [], cSQLFromTable = [], cSQLFromSchema = [], cUDTName = [], cType = 0,
     cLength = 0, cScale = 0, cPrecision = 0, cCCSID = 0, cOffset = 0, cLobMaxSize = 0,
     cUpdateable = 0, cSearchable = 0, cIsIdentity = False, cIsAlwaysGenerated = False,
     cIsPartOfAnyIndex = False, cIsLoneUniqueIndex = False, cIsPartOfUniqueIndex = False,
     cIsExpression = False, cIsPrimaryKey = False, cIsNamed = False, cIsRowID = False,
     cIsRowChangeTimestamp = False\<rparr>"

definition db2Type :: "columnMeta \<Rightarrow> int" where
  "db2Type c = db2_type_of (cType c) (cCCSID c)"

definition nullable :: "columnMeta \<Rightarrow> bool" where
  "nullable c \<longleftrightarrow> cType c AND 1 \<noteq> 0"

definition displayName :: "columnMeta \<Rightarrow> string" where
  "displayName c =
     (if TrimSpace (cLabel c) \<noteq> [] then TrimSpace (cLabel c)
      else if TrimSpace (cName c) \<noteq> [] then TrimSpace (cName c)
      else if TrimSpace (cBaseColumnName c) \<noteq> [] then TrimSpace (cBaseColumnName c)
      else [])"

definition databaseTypeName :: "columnMeta \<Rightarrow> string" where
  "databaseTypeName c =
     (let t = db2Type c in
      if t = db2TypeDate then ''DATE'' else if t = db2TypeTime then ''TIME''
      else if t = db2TypeTimestamp then ''TIMESTAMP'' else if t = db2TypeDatalink then ''DATALINK''
      else if t = db2TypeBlob then ''BLOB'' else if t = db2TypeClob then ''CLOB''
      else if t = db2TypeDbclob then ''DBCLOB'' else if t = db2TypeVarchar then ''VARCHAR''
      else if t = db2TypeChar then ''CHAR'' else if t = db2TypeLongVarchar then ''LONGVARCHAR''
      else if t = db2TypeVarGraphic then ''VARGRAPHIC'' else if t = db2TypeGraphic then ''GRAPHIC''
      else if t = db2TypeLongVarGraphic then ''LONGVARGRAPHIC''
      else if t = db2TypeFloatingPoint then (if cLength c = 4 then ''REAL'' else ''DOUBLE'')
      else if t = db2TypeDecimal then ''DECIMAL'' else if t = db2TypeNumeric then ''NUMERIC''
      else if t = db2TypeBigint then ''BIGINT'' else if t = db2TypeInteger then ''INTEGER''
      else if t = db2TypeSmallint then ''SMALLINT'' else if t = db2TypeRowID then ''ROWID''
      else if t = db2TypeVarbinary then ''VARBINARY'' else if t = db2TypeBinary then ''BINARY''
      else if t = db2TypeBlobLocator then ''BLOB LOCATOR''
      else if t = db2TypeClobLocator then ''CLOB LOCATOR''
      else if t = db2TypeDbclobLocator then ''DBCLOB LOCATOR''
      else if t = db2TypeXML then ''SQLXML'' else if t = db2TypeXMLLocator then ''XML''
      else if t = db2TypeDecfloat then ''DECFLOAT'' else if t = db2TypeBoolean then ''BOOLEAN''
      else ''UNKNOWN'')"

record resultSetMeta =
  rmColumns :: "columnMeta list"
  rmRowSize :: int
  rmDateFormat :: int
  rmTimeFormat :: int
  rmDateSeparator :: int
  rmTimeSeparator :: int
  rmHasDataFormat :: bool

definition zeroMeta :: resultSetMeta where
  "zeroMeta = \<lparr>rmColumns = [], rmRowSize = 0, rmDateFormat = 0, rmTimeFormat = 0,
     rmDateSeparator = 0, rmTimeSeparator = 0, rmHasDataFormat = False\<rparr>"

definition ensureColumns :: "resultSetMeta \<Rightarrow> int \<Rightarrow> resultSetMeta res" where
  "ensureColumns m count =
     (if count < 0 then Inl (Errorf ''invalid column count %d'' [FInt count])
      else if rmColumns m = [] then Inr (m\<lparr>rmColumns := replicate (nat count) zeroColumn\<rparr>)
      else if int (length (rmColumns m)) \<noteq> count then
        Inl (Errorf ''column count mismatch: got %d want %d'' [FInt count, FInt (int (length (rmColumns m)))])
      else Inr m)"

definition columnNames :: "resultSetMeta \<Rightarrow> string list" where
  "columnNames m =
     map (\<lambda>(i, c). if displayName c = [] then ''COL'' @ show_nat (i + 1) else displayName c)
       (enumerate 0 (rmColumns m))"

definition sumColumnLengths :: "columnMeta list \<Rightarrow> int" where
  "sumColumnLengths cs = foldl (\<lambda>total c. total + cLength c) 0 cs"

record fetchBlock =
  fbRowCount :: int
  fbColumnCount :: int
  fbIndicatorSize :: int
  fbRowSize :: int
  fbNulls :: "bool list"
  fbData :: bytes
  fbCursorClosed :: bool
  fbEndOfData :: bool

definition zeroBlock :: fetchBlock where
  "zeroBlock = \<lparr>fbRowCount = 0, fbColumnCount = 0, fbIndicatorSize = 0, fbRowSize = 0,
     fbNulls = [], fbData = [], fbCursorClosed = False, fbEndOfData = False\<rparr>"

section \<open>SQLCA and warnings\<close>

record sqlWarning =
  swCode :: int
  swState :: string
  swMessage :: string

record sqlcaInfo =
  siSQLCode :: int
  siSQLState :: string
  siGeneratedKey :: int
  siHasGeneratedKey :: bool
  siUpdateCount :: int
  siResultSetsCount :: int
  siWarning :: "sqlWarning list"
  siTokens :: string

definition zeroSqlca :: sqlcaInfo where
  "zeroSqlca = \<lparr>siSQLCode = 0, siSQLState = [], siGeneratedKey = 0, siHasGeneratedKey = False,
     siUpdateCount = 0, siResultSetsCount = 0, siWarning = [], siTokens = []\<rparr>"

record execResult =
  erRowsAffected :: int
  erLastInsertID :: int
  erHasLastInsert :: bool

definition errNoGeneratedKey :: go_error where
  "errNoGeneratedKey = Wrap ErrUnsupported ''no generated key was returned for this statement (LastInsertId needs an INSERT into a table with an identity or generated column; with the DSN option returnGeneratedKeys=true the INSERT is wrapped to read the key)'' []"

definition LastInsertId :: "execResult option \<Rightarrow> int res" where
  "LastInsertId r =
     (case r of None \<Rightarrow> Inl errNoGeneratedKey
      | Some e \<Rightarrow> if erHasLastInsert e then Inr (erLastInsertID e)
                  else Inl errNoGeneratedKey)"

definition RowsAffected :: "execResult option \<Rightarrow> int res" where
  "RowsAffected r = (case r of None \<Rightarrow> Inl ErrUnsupported | Some e \<Rightarrow> Inr (erRowsAffected e))"

section \<open>Lemmas\<close>

lemma ensureColumns_length:
  "ensureColumns m count = Inr m' \<Longrightarrow> length (rmColumns m') = nat count \<and> 0 \<le> count"
  by (auto simp: ensureColumns_def split: if_splits)

lemma length_columnNames [simp]: "length (columnNames m) = length (rmColumns m)"
  by (simp add: columnNames_def)

lemma columnNames_nonempty:
  assumes "n \<in> set (columnNames m)"
  shows "n \<noteq> []"
  using assms by (auto simp: columnNames_def split: if_splits)

lemma sumColumnLengths_eq: "sumColumnLengths cs = sum_list (map cLength cs)"
proof -
  have "foldl (\<lambda>total c. total + cLength c) x cs = x + sum_list (map cLength cs)" for x
    by (induction cs arbitrary: x) simp_all
  then show ?thesis by (simp add: sumColumnLengths_def)
qed

end
