(* ===== verification/Scan.thy ===== *)
theory Scan
  imports Values Formats
begin

text \<open>
  Scanning of SQL text: the placeholder scanners of \<open>src/stmt.go\<close> (\<open>countSQLPlaceholders\<close>,
  \<open>rewriteNamedParams\<close>, \<open>reorderNamedArgs\<close>, \<open>expandSQLQuery\<close>), the statement classifier of
  \<open>src/sql.go\<close>, and the INSERT recognition and generated-key code of \<open>src/generatedkeys.go\<close>.
  The three scanning loops share one switch over the scanner state; it is the definition
  \<open>scanStep\<close>, and the loops differ in what they do with the piece it recognises.
\<close>

section \<open>Definitions\<close>

subsection \<open>The scanner\<close>

datatype sqlScanState = ScanNormal | ScanSingleQuoted | ScanDoubleQuoted | ScanLineComment | ScanBlockComment

definition isNameStartChar :: "char \<Rightarrow> bool" where
  "isNameStartChar ch \<longleftrightarrow> (97 \<le> code ch \<and> code ch \<le> 122) \<or> (65 \<le> code ch \<and> code ch \<le> 90) \<or> ch = CHR ''_''"

definition isNameContinueChar :: "char \<Rightarrow> bool" where
  "isNameContinueChar ch \<longleftrightarrow> (97 \<le> code ch \<and> code ch \<le> 122) \<or> (65 \<le> code ch \<and> code ch \<le> 90) \<or>
     (48 \<le> code ch \<and> code ch \<le> 57) \<or> ch = CHR ''_''"

text \<open>What a turn of the loop recognises: bytes that stay as they are, a \<open>?\<close>, or a \<open>:name\<close>.\<close>

datatype piece = PText string | PMark | PName string

definition starts :: "char \<Rightarrow> string \<Rightarrow> bool" where
  "starts c s \<longleftrightarrow> (case s of [] \<Rightarrow> False | d # _ \<Rightarrow> d = c)"

definition quote :: char where "quote = CHR 39"
definition dquote :: char where "dquote = CHR 34"
definition newline :: char where "newline = CHR 10"

text \<open>A quoted run: a doubled quote stays inside, a single one ends it.\<close>

definition scanQuoted :: "char \<Rightarrow> sqlScanState \<Rightarrow> char \<Rightarrow> string \<Rightarrow> piece \<times> sqlScanState \<times> string" where
  "scanQuoted q st ch rest =
     (if ch = q then (if starts q rest then (PText [ch, q], st, tl rest) else (PText [ch], ScanNormal, rest))
      else (PText [ch], st, rest))"

fun scanStep :: "sqlScanState \<Rightarrow> char \<Rightarrow> string \<Rightarrow> piece \<times> sqlScanState \<times> string" where
  "scanStep ScanNormal ch rest =
     (if ch = quote then (PText [ch], ScanSingleQuoted, rest)
      else if ch = dquote then (PText [ch], ScanDoubleQuoted, rest)
      else if ch = CHR ''-'' then
        (if starts (CHR ''-'') rest then (PText ''--'', ScanLineComment, tl rest) else (PText [ch], ScanNormal, rest))
      else if ch = CHR ''/'' then
        (if starts (CHR ''*'') rest then (PText ''/*'', ScanBlockComment, tl rest) else (PText [ch], ScanNormal, rest))
      else if ch = CHR ''?'' then (PMark, ScanNormal, rest)
      else if ch = CHR '':'' then
        (if starts (CHR '':'') rest then (PText ''::'', ScanNormal, tl rest)
         else case rest of
           c # cs \<Rightarrow> if isNameStartChar c
                    then (PName (c # takeWhile isNameContinueChar cs), ScanNormal, dropWhile isNameContinueChar cs)
                    else (PText [ch], ScanNormal, rest)
         | [] \<Rightarrow> (PText [ch], ScanNormal, rest))
      else (PText [ch], ScanNormal, rest))"
| "scanStep ScanSingleQuoted ch rest = scanQuoted quote ScanSingleQuoted ch rest"
| "scanStep ScanDoubleQuoted ch rest = scanQuoted dquote ScanDoubleQuoted ch rest"
| "scanStep ScanLineComment ch rest =
     (PText [ch], if ch = newline then ScanNormal else ScanLineComment, rest)"
| "scanStep ScanBlockComment ch rest =
     (if ch = CHR ''*'' \<and> starts (CHR ''/'') rest then (PText ''*/'', ScanNormal, tl rest)
      else (PText [ch], ScanBlockComment, rest))"

definition unterminated :: "sqlScanState \<Rightarrow> bool" where
  "unterminated st \<longleftrightarrow> st = ScanSingleQuoted \<or> st = ScanDoubleQuoted \<or> st = ScanBlockComment"

definition errUnterminated :: go_error where
  "errUnterminated = Errorf ''unterminated SQL literal or comment'' []"

lemma scanQuoted_rest: "length (snd (snd (scanQuoted q st ch rest))) \<le> length rest"
  by (simp add: scanQuoted_def)

lemma scanStep_rest: "length (snd (snd (scanStep st ch rest))) \<le> length rest"
proof (cases st)
  case ScanNormal
  have "length (dropWhile P cs) \<le> Suc (length cs)" for P and cs :: string
    by (simp add: le_SucI length_dropWhile_le)
  then show ?thesis using ScanNormal by (auto split: list.splits)
qed (auto simp: scanQuoted_rest)

lemma scanStep_advance: "(p, x) = scanStep st ch rest \<Longrightarrow> (st', rest') = x \<Longrightarrow> length rest' < Suc (length rest)"
  using scanStep_rest [of st ch rest] by (metis less_Suc_eq_le snd_conv)

subsection \<open>Counting and rewriting placeholders\<close>

function countLoop :: "sqlScanState \<Rightarrow> nat \<Rightarrow> string \<Rightarrow> nat res" where
  "countLoop st count [] = (if unterminated st then Inl errUnterminated else Inr count)"
| "countLoop st count (ch # rest) =
     (case scanStep st ch rest of (p, st', rest') \<Rightarrow>
        countLoop st' (case p of PText _ \<Rightarrow> count | _ \<Rightarrow> Suc count) rest')"
  by pat_completeness auto
termination
  by (relation "measure (\<lambda>(st, n, s). length s)") (simp, drule (1) scanStep_advance, simp)

definition countSQLPlaceholders :: "string \<Rightarrow> nat res" where
  "countSQLPlaceholders query = countLoop ScanNormal 0 query"

text \<open>The rewriting loop: the text built so far is what the recursive call prefixes.\<close>

function rewriteLoop :: "sqlScanState \<Rightarrow> string \<Rightarrow> (string \<times> string list) res" where
  "rewriteLoop st [] = (if unterminated st then Inl errUnterminated else Inr ([], []))"
| "rewriteLoop st (ch # rest) =
     (case scanStep st ch rest of (p, st', rest') \<Rightarrow>
        res_bind (rewriteLoop st' rest') (\<lambda>(out, names).
          case p of
            PText s \<Rightarrow> Inr (s @ out, names)
          | PMark \<Rightarrow> Inr (CHR ''?'' # out, names)
          | PName n \<Rightarrow> Inr (CHR ''?'' # out, n # names)))"
  by pat_completeness auto
termination
  by (relation "measure (\<lambda>(st, s). length s)") (simp, drule (1) scanStep_advance, auto)

definition rewriteNamedParams :: "string \<Rightarrow> (string \<times> string list) res" where
  "rewriteNamedParams query =
     (if CHR '':'' \<notin> set query then Inr (query, [])
      else res_bind (rewriteLoop ScanNormal query) (\<lambda>(out, names).
        if names = [] then Inr (query, []) else Inr (out, names)))"

text \<open>The last argument of a name wins, as in the map the source fills.\<close>

definition lookup_name :: "string \<Rightarrow> namedValue list \<Rightarrow> namedValue option" where
  "lookup_name name args = find (\<lambda>a. nvName a \<noteq> [] \<and> nvName a = name) (rev args)"

fun reorderLoop :: "nat \<Rightarrow> string list \<Rightarrow> namedValue list \<Rightarrow> namedValue list res" where
  "reorderLoop i [] args = Inr []"
| "reorderLoop i (name # names) args =
     (case lookup_name name args of
        None \<Rightarrow> Inl (Errorf ''named parameter %q not provided'' [FStr name])
      | Some arg \<Rightarrow> res_bind (reorderLoop (Suc i) names args) (\<lambda>out.
          Inr (arg\<lparr>nvOrdinal := Suc i, nvName := []\<rparr> # out)))"

definition reorderNamedArgs :: "string list \<Rightarrow> namedValue list \<Rightarrow> namedValue list res" where
  "reorderNamedArgs paramNames args = (if paramNames = [] then Inr args else reorderLoop 0 paramNames args)"

subsection \<open>Literals in place of placeholders\<close>

definition ReplaceQuote :: "string \<Rightarrow> string" where
  "ReplaceQuote s = concat (map (\<lambda>c. if c = quote then [quote, quote] else [c]) s)"

text \<open>\<open>fmtFloat\<close> is \<open>strconv.FormatFloat(v, 'g', -1, 64)\<close>.\<close>

definition sqlLiteralFromNamedValue :: "(u64 \<Rightarrow> string) \<Rightarrow> namedValue \<Rightarrow> string res" where
  "sqlLiteralFromNamedValue fmtFloat nv =
     res_bind (ConvertValue (nvValue nv)) (\<lambda>v.
      case v of
        VNil \<Rightarrow> Inr ''NULL''
      | VInt i \<Rightarrow> Inr (show_int i)
      | VFloat f \<Rightarrow> Inr (fmtFloat f)
      | VBool b \<Rightarrow> Inr (if b then ''1'' else ''0'')
      | VString s \<Rightarrow> Inr ([quote] @ ReplaceQuote s @ [quote])
      | VBytes b \<Rightarrow> Inr (''X'' @ [quote] @ hex_upper b @ [quote])
      | VTime t \<Rightarrow> Inr (''TIMESTAMP('' @ [quote] @ format_timestamp t @ [quote] @ '')'')
      | _ \<Rightarrow> Inl (Errorf ''unsupported parameter type %T'' []))"

definition errCount :: "nat \<Rightarrow> nat \<Rightarrow> go_error" where
  "errCount got want = Errorf ''parameter count mismatch: got %d values for %d placeholders''
     [FInt (int got), FInt (int want)]"

function expandLoop :: "(u64 \<Rightarrow> string) \<Rightarrow> namedValue list \<Rightarrow> sqlScanState \<Rightarrow> nat \<Rightarrow> string \<Rightarrow> string res" where
  "expandLoop ff args st argIndex [] =
     (if unterminated st then Inl errUnterminated
      else if list_all (\<lambda>a. nvName a = []) args \<and> argIndex \<noteq> length args
      then Inl (errCount (length args) argIndex) else Inr [])"
| "expandLoop ff args st argIndex (ch # rest) =
     (case scanStep st ch rest of (p, st', rest') \<Rightarrow>
        (case p of
           PText s \<Rightarrow> res_bind (expandLoop ff args st' argIndex rest') (\<lambda>out. Inr (s @ out))
         | PMark \<Rightarrow>
             if argIndex \<ge> length args then Inl (errCount (length args) argIndex)
             else res_bind (sqlLiteralFromNamedValue ff (args ! argIndex)) (\<lambda>lit.
                    res_bind (expandLoop ff args st' (Suc argIndex) rest') (\<lambda>out. Inr (lit @ out)))
         | PName n \<Rightarrow>
             (case lookup_name n args of
                None \<Rightarrow> Inl (Errorf ''named parameter %q not provided'' [FStr n])
              | Some a \<Rightarrow> res_bind (sqlLiteralFromNamedValue ff a) (\<lambda>lit.
                  res_bind (expandLoop ff args st' argIndex rest') (\<lambda>out. Inr (lit @ out))))))"
  by pat_completeness auto
termination
  by (relation "measure (\<lambda>(ff, args, st, i, s). length s)")
     (simp, (drule (1) scanStep_advance, simp)+)

definition expandSQLQuery :: "(u64 \<Rightarrow> string) \<Rightarrow> string \<Rightarrow> namedValue list \<Rightarrow> string res" where
  "expandSQLQuery fmtFloat query args =
     (if args = [] then Inr query else expandLoop fmtFloat args ScanNormal 0 query)"

subsection \<open>Statement types\<close>

definition HasPrefix :: "string \<Rightarrow> string \<Rightarrow> bool" where
  "HasPrefix s p \<longleftrightarrow> take (length p) s = p"

text \<open>
  \<open>strings.ToUpper\<close> as far as a comparison with ASCII text can tell: the letters whose upper
  case is an ASCII letter are a to z, U+0131 and U+017F; every other letter stays outside
  ASCII and is left as it is.
\<close>

definition upper_rune :: "nat \<Rightarrow> nat" where
  "upper_rune r = (if 97 \<le> r \<and> r \<le> 122 then r - 32 else if r = 0x131 then 73 else if r = 0x17F then 83 else r)"

definition ToUpper :: "string \<Rightarrow> string" where
  "ToUpper s = string_of_runes (map upper_rune (runes s))"

text \<open>
  \<open>strings.ToLower\<close> in the same sense: the letters whose lower case is an ASCII letter are A to Z,
  U+0130 and U+212A.
\<close>

definition lower_rune :: "nat \<Rightarrow> nat" where
  "lower_rune r = (if 65 \<le> r \<and> r \<le> 90 then r + 32 else if r = 0x130 then 105 else if r = 0x212A then 107 else r)"

definition ToLower :: "string \<Rightarrow> string" where
  "ToLower s = string_of_runes (map lower_rune (runes s))"

lemma ToLower_ascii:
  assumes "list_all (\<lambda>c. code c < 128) s"
  shows "ToLower s = map (\<lambda>c. char_of (lower_rune (code c))) s"
proof -
  have "string_of_runes (map lower_rune (map code s)) = map (\<lambda>c. char_of (lower_rune (code c))) s"
    using assms by (induction s) (simp_all add: string_of_runes_def EncodeRune_ascii lower_rune_def)
  then show ?thesis by (simp add: ToLower_def ascii_wf_text(2) [OF assms])
qed

lemma trimSeqs_length: "length (trimSeqs ws s) \<le> length s"
proof (induction ws s rule: trimSeqs.induct)
  case (1 ws s)
  show ?case
  proof (cases "strip1 ws s")
    case None
    then show ?thesis by (subst trimSeqs.simps) simp
  next
    case (Some t)
    with 1 strip1_shorter [OF Some] show ?thesis by (subst trimSeqs.simps) (simp add: le_less_trans less_imp_le)
  qed
qed

lemma TrimSpace_length: "length (TrimSpace s) \<le> length s"
  unfolding TrimSpace_def length_rev
  using trimSeqs_length [of "map rev space_seqs" "rev (trimSeqs space_seqs s)"] trimSeqs_length [of space_seqs s]
  by simp

function skipParens :: "string \<Rightarrow> string" where
  "skipParens [] = []"
| "skipParens (c # s) = (if c = CHR ''('' then skipParens (TrimSpace s) else c # s)"
  by pat_completeness auto
termination
  by (relation "measure length") (auto simp: le_imp_less_Suc TrimSpace_length)

definition sqlStatementTypeUnknown :: int where "sqlStatementTypeUnknown = 0"
definition sqlStatementTypeInsertUpdateDelete :: int where "sqlStatementTypeInsertUpdateDelete = 1"
definition sqlStatementTypeSelect :: int where "sqlStatementTypeSelect = 2"
definition sqlStatementTypeCall :: int where "sqlStatementTypeCall = 3"

lemmas statement_types = sqlStatementTypeUnknown_def sqlStatementTypeInsertUpdateDelete_def
  sqlStatementTypeSelect_def sqlStatementTypeCall_def

definition classifySQLStatement :: "string \<Rightarrow> int" where
  "classifySQLStatement sql =
     (let s = skipParens (ToUpper (TrimSpace sql)) in
      if HasPrefix s ''SELECT'' \<or> HasPrefix s ''VALUES'' \<or> HasPrefix s ''WITH'' then sqlStatementTypeSelect
      else if HasPrefix s ''INSERT'' \<or> HasPrefix s ''UPDATE'' \<or> HasPrefix s ''DELETE'' \<or> HasPrefix s ''MERGE''
      then sqlStatementTypeInsertUpdateDelete
      else if HasPrefix s ''CALL'' then sqlStatementTypeCall
      else sqlStatementTypeUnknown)"

subsection \<open>Generated keys\<close>

definition isSQLDelimiter :: "char \<Rightarrow> bool" where
  "isSQLDelimiter b \<longleftrightarrow> b \<in> {CHR 32, CHR 9, CHR 13, CHR 10, CHR ''('', CHR ''/'', CHR ''-''}"

fun afterClose :: "string \<Rightarrow> string option" where
  "afterClose [] = None"
| "afterClose (c # s) = (if c = CHR ''*'' \<and> starts (CHR ''/'') s then Some (tl s) else afterClose s)"

lemma afterClose_shorter: "afterClose s = Some t \<Longrightarrow> length t < length s"
  by (induction s) (auto split: if_splits)

definition afterLine :: "string \<Rightarrow> string" where
  "afterLine s = drop 1 (dropWhile (\<lambda>c. c \<noteq> newline) s)"

lemma afterLine_shorter: "s \<noteq> [] \<Longrightarrow> length (afterLine s) < length s"
proof -
  assume "s \<noteq> []"
  then have "0 < length s" by simp
  moreover have "length (dropWhile (\<lambda>c. c \<noteq> newline) s) \<le> length s" by (rule length_dropWhile_le)
  ultimately show ?thesis unfolding afterLine_def length_drop by linarith
qed

lemma HasPrefix_nonempty: "HasPrefix s (c # p) \<Longrightarrow> s \<noteq> []"
  by (auto simp: HasPrefix_def)

function skipLeadingSQLNoise :: "string \<Rightarrow> string" where
  "skipLeadingSQLNoise query =
     (let s = trimSeqs space_seqs query in
      if HasPrefix s ''--'' then (if newline \<notin> set s then [] else skipLeadingSQLNoise (afterLine s))
      else if HasPrefix s ''/*'' then
        (case afterClose (drop 2 s) of None \<Rightarrow> [] | Some t \<Rightarrow> skipLeadingSQLNoise t)
      else s)"
  by pat_completeness auto
termination
proof (relation "measure length", simp)
  fix q s
  assume s: "s = trimSeqs space_seqs q" and p: "HasPrefix s ''--''"
  from HasPrefix_nonempty [OF p] afterLine_shorter trimSeqs_length [of space_seqs q] s
  show "(afterLine s, q) \<in> measure length" by (auto intro: less_le_trans)
next
  fix q s t
  assume s: "s = trimSeqs space_seqs q" and t: "afterClose (drop 2 s) = Some t"
  from afterClose_shorter [OF t] trimSeqs_length [of space_seqs q] s
  show "(t, q) \<in> measure length" by auto
qed

declare skipLeadingSQLNoise.simps [simp del]

definition upper_char :: "char \<Rightarrow> char" where
  "upper_char c = (if 97 \<le> code c \<and> code c \<le> 122 then char_of (code c - 32) else c)"

text \<open>
  \<open>strings.EqualFold(text[:6], "INSERT")\<close>: six bytes equal a six-letter ASCII word under case
  folding only when each of them is an ASCII letter of that word in either case.
\<close>

definition isInsertStatement :: "string \<Rightarrow> bool" where
  "isInsertStatement query =
     (let s = skipLeadingSQLNoise query in
      length s \<ge> 6 \<and> map upper_char (take 6 s) = ''INSERT'' \<and> (length s = 6 \<or> isSQLDelimiter (s ! 6)))"

definition TrimRightSpace :: "string \<Rightarrow> string" where
  "TrimRightSpace s = rev (trimSeqs (map rev space_seqs) (rev s))"

definition TrimSemicolon :: "string \<Rightarrow> string" where
  "TrimSemicolon s = (if s \<noteq> [] \<and> last s = CHR '';'' then butlast s else s)"

definition wrapInsertForGeneratedKeys :: "string \<Rightarrow> string res" where
  "wrapInsertForGeneratedKeys query =
     (if \<not> isInsertStatement query
      then Inl (Wrap ErrUnsupported ''returnGeneratedKeys applies only to INSERT statements'' [])
      else Inr (''SELECT *SQLGENCOLUMNS FROM NEW TABLE('' @ [newline] @
             TrimRightSpace (TrimSemicolon (TrimRightSpace (trimSeqs space_seqs query))) @ [newline] @ '')''))"

definition parseGeneratedKeyText :: "string \<Rightarrow> int res" where
  "parseGeneratedKeyText s =
     (case ParseInt64 (TrimSpace s) of
        Inl _ \<Rightarrow> Inl (Errorf ''generated key %q is not an integer'' [FStr s])
      | Inr k \<Rightarrow> Inr k)"

fun generatedKeyInt64 :: "driverValue \<Rightarrow> int res" where
  "generatedKeyInt64 (VInt i) = Inr i"
| "generatedKeyInt64 (VBytes b) = parseGeneratedKeyText (map char_of_byte b)"
| "generatedKeyInt64 (VString s) = parseGeneratedKeyText s"
| "generatedKeyInt64 VNil = Inl (Errorf ''generated key is NULL'' [])"
| "generatedKeyInt64 v = Inl (Errorf ''generated key has unsupported type %T'' [])"

text \<open>
  \<open>rows.Next\<close> turn by turn: each element is a row or an error; the end of the list is
  \<open>io.EOF\<close>.
\<close>

fun keyRows :: "driverValue list res list \<Rightarrow> execResult \<Rightarrow> execResult res" where
  "keyRows [] result = Inr (if erHasLastInsert result then result else result\<lparr>erLastInsertID := 0\<rparr>)"
| "keyRows (Inl e # rows) result = Inl e"
| "keyRows (Inr dest # rows) result =
     (case generatedKeyInt64 (hd dest) of
        Inl e \<Rightarrow> Inl (Errorf ''generated keys: %w'' [FErr e])
      | Inr key \<Rightarrow> keyRows rows (result\<lparr>erRowsAffected := erRowsAffected result + 1,
                     erLastInsertID := key, erHasLastInsert := True\<rparr>))"

definition readGeneratedKeyRows :: "string list \<Rightarrow> driverValue list res list \<Rightarrow> execResult res" where
  "readGeneratedKeyRows columns rows =
     (if columns = [] then Inl (Errorf ''generated keys: wrapped INSERT returned no columns'' [])
      else keyRows rows \<lparr>erRowsAffected = 0, erLastInsertID = 0, erHasLastInsert = False\<rparr>)"

section \<open>The pieces of a query\<close>

text \<open>The sequence of pieces a query consists of and the state at its end: what all three loops walk along.\<close>

function pieces :: "sqlScanState \<Rightarrow> string \<Rightarrow> piece list \<times> sqlScanState" where
  "pieces st [] = ([], st)"
| "pieces st (ch # rest) =
     (case scanStep st ch rest of (p, st', rest') \<Rightarrow> case pieces st' rest' of (ps, fin) \<Rightarrow> (p # ps, fin))"
  by pat_completeness auto
termination
  by (relation "measure (\<lambda>(st, s). length s)") (simp, drule (1) scanStep_advance, auto)

fun is_mark :: "piece \<Rightarrow> bool" where
  "is_mark (PText s) = False"
| "is_mark p = True"

fun piece_names :: "piece list \<Rightarrow> string list" where
  "piece_names [] = []"
| "piece_names (PName n # ps) = n # piece_names ps"
| "piece_names (p # ps) = piece_names ps"

fun render :: "piece \<Rightarrow> string" where
  "render (PText s) = s"
| "render p = ''?''"

fun to_mark :: "piece \<Rightarrow> piece" where
  "to_mark (PName n) = PMark"
| "to_mark p = p"

definition render_all :: "piece list \<Rightarrow> string" where
  "render_all ps = concat (map render ps)"

lemma render_all_simps [simp]: "render_all [] = []" "render_all (p # ps) = render p @ render_all ps"
  by (simp_all add: render_all_def)

lemma countLoop_pieces:
  "countLoop st n s = (case pieces st s of (ps, fin) \<Rightarrow>
     if unterminated fin then Inl errUnterminated else Inr (n + length (filter is_mark ps)))"
  by (induction st n s rule: countLoop.induct) (auto simp del: scanStep.simps split: prod.splits piece.splits)

lemma rewriteLoop_pieces:
  "rewriteLoop st s = (case pieces st s of (ps, fin) \<Rightarrow>
     if unterminated fin then Inl errUnterminated else Inr (render_all ps, piece_names ps))"
  by (induction st s rule: rewriteLoop.induct) (auto simp del: scanStep.simps split: prod.splits piece.splits)

text \<open>The rewritten text starts like the original one, except that a name starts with the mark.\<close>

definition sim :: "string \<Rightarrow> string \<Rightarrow> bool" where
  "sim s out \<longleftrightarrow> (s = [] \<and> out = []) \<or>
     (\<exists>d r os. s = d # r \<and> (out = d # os \<or> (d = CHR '':'' \<and> out = CHR ''?'' # os \<and> r \<noteq> [] \<and> isNameStartChar (hd r))))"

lemma scanStep_text: "scanStep st ch rest = (PText t, st', rest') \<Longrightarrow> \<exists>t'. t = ch # t' \<and> rest = t' @ rest'"
  by (cases st) (auto simp: scanQuoted_def starts_def split: if_splits list.splits)

lemma scanStep_name:
  "scanStep st ch rest = (PName n, st', rest') \<Longrightarrow> ch = CHR '':'' \<and> st = ScanNormal \<and> rest \<noteq> [] \<and> isNameStartChar (hd rest)"
  by (cases st) (auto simp: scanQuoted_def split: if_splits list.splits)

lemma scanStep_mark: "scanStep st ch rest = (PMark, st', rest') \<Longrightarrow> ch = CHR ''?'' \<and> st = ScanNormal \<and> st' = ScanNormal \<and> rest' = rest"
  by (cases st) (auto simp: scanQuoted_def split: if_splits list.splits)

lemma scanStep_name_state: "scanStep st ch rest = (PName n, st', rest') \<Longrightarrow> st' = ScanNormal"
  by (cases st) (auto simp: scanQuoted_def split: if_splits list.splits)

lemma sim_render: "sim s (render_all (fst (pieces st s)))"
proof (cases s)
  case Nil
  then show ?thesis by (simp add: sim_def)
next
  case (Cons ch rest)
  obtain p st' rest' where e: "scanStep st ch rest = (p, st', rest')" by (metis prod_cases3)
  obtain ps fin where q: "pieces st' rest' = (ps, fin)" by fastforce
  have out: "render_all (fst (pieces st s)) = render p @ render_all ps" using Cons e q by simp
  show ?thesis
  proof (cases p)
    case (PText t)
    with scanStep_text e obtain t' where "t = ch # t'" by blast
    with out PText Cons show ?thesis by (auto simp: sim_def)
  next
    case PMark
    with scanStep_mark e have "ch = CHR ''?''" by blast
    with out PMark Cons show ?thesis by (auto simp: sim_def)
  next
    case (PName n)
    with scanStep_name e have "ch = CHR '':''" "rest \<noteq> []" "isNameStartChar (hd rest)" by blast+
    with out PName Cons show ?thesis by (auto simp: sim_def)
  qed
qed

lemma sim_starts: "sim s out \<Longrightarrow> c \<noteq> CHR ''?'' \<Longrightarrow> starts c out \<Longrightarrow> starts c s"
  by (auto simp: sim_def starts_def)

lemma quotes_not_mark: "quote \<noteq> CHR ''?''" "dquote \<noteq> CHR ''?''"
  by (simp_all add: quote_def dquote_def)

lemma scanQuoted_again:
  assumes "scanQuoted q st ch rest = (PText (ch # t'), st', rest')" "sim rest' out" "q \<noteq> CHR ''?''"
  shows "scanQuoted q st ch (t' @ out) = (PText (ch # t'), st', out)"
  using assms sim_starts [of rest' out q]
  by (auto simp: scanQuoted_def split: if_splits) (auto simp: starts_def)

text \<open>Scanning a piece of text again, in front of the rewritten rest, recognises the same piece.\<close>

lemma scanStep_again:
  assumes e: "scanStep st ch rest = (PText (ch # t'), st', rest')" and s: "sim rest' out"
  shows "scanStep st ch (t' @ out) = (PText (ch # t'), st', out)"
proof (cases st)
  case ScanNormal
  note n = sim_starts [OF s]
  show ?thesis
  proof (cases "ch = CHR '':'' \<and> \<not> starts (CHR '':'') rest")
    case True
    with e ScanNormal have t: "t' = []" "rest' = rest" "st' = ScanNormal"
      by (auto simp: quote_def dquote_def split: list.splits if_splits)
    have nn: "\<not> (\<exists>c cs. rest = c # cs \<and> isNameStartChar c)"
      using e ScanNormal True by (auto simp: quote_def dquote_def split: list.splits if_splits)
    have "\<not> starts (CHR '':'') out" using n [of "CHR '':''"] True t by auto
    moreover have "\<not> (\<exists>c cs. out = c # cs \<and> isNameStartChar c)"
    proof (cases rest)
      case Nil
      with s t show ?thesis by (simp add: sim_def)
    next
      case (Cons d r)
      with True have "d \<noteq> CHR '':''" by (simp add: starts_def)
      with s t Cons obtain os where "out = d # os" by (auto simp: sim_def)
      with nn Cons show ?thesis by simp
    qed
    ultimately show ?thesis using True ScanNormal t by (auto simp: quote_def dquote_def split: list.splits)
  next
    case False
    have st: "starts c (c # out)" for c by (simp add: starts_def)
    consider "ch = CHR ''-''" | "ch = CHR ''/''" | "ch = CHR '':''" "starts (CHR '':'') rest"
      | "ch \<notin> {CHR ''-'', CHR ''/'', CHR '':''}" using False by blast
    then show ?thesis
    proof cases
      case 1
      with e ScanNormal n [of "CHR ''-''"] st show ?thesis
        by (cases "starts (CHR ''-'') rest") (auto simp: quote_def dquote_def)
    next
      case 2
      with e ScanNormal n [of "CHR ''*''"] st show ?thesis
        by (cases "starts (CHR ''*'') rest") (auto simp: quote_def dquote_def)
    next
      case 3
      with e ScanNormal st show ?thesis by (auto simp: quote_def dquote_def)
    next
      case 4
      with e ScanNormal have "t' = []" "rest' = rest" by (auto split: if_splits)
      with 4 e ScanNormal show ?thesis by (auto split: if_splits)
    qed
  qed
next
  case ScanSingleQuoted
  with scanQuoted_again [OF _ s quotes_not_mark(1)] e show ?thesis by simp
next
  case ScanDoubleQuoted
  with scanQuoted_again [OF _ s quotes_not_mark(2)] e show ?thesis by simp
next
  case ScanLineComment
  with e show ?thesis by auto
next
  case ScanBlockComment
  with e sim_starts [OF s, of "CHR ''/''"] show ?thesis by (auto simp: starts_def split: if_splits)
qed

lemma pieces_render:
  "pieces st s = (ps, fin) \<Longrightarrow> pieces st (render_all ps) = (map to_mark ps, fin)"
proof (induction st s arbitrary: ps fin rule: pieces.induct)
  case (1 st)
  then show ?case by simp
next
  case (2 st ch rest)
  obtain p st' rest' where e: "scanStep st ch rest = (p, st', rest')" by (metis prod_cases3)
  obtain qs where q: "pieces st' rest' = (qs, fin)" and ps: "ps = p # qs"
    using "2.prems" e by (auto split: prod.splits)
  have IH: "pieces st' (render_all qs) = (map to_mark qs, fin)"
    by (rule "2.IH" [OF e [symmetric] refl q])
  show ?case
  proof (cases p)
    case (PText t)
    then obtain t' where t: "t = ch # t'" using e scanStep_text by blast
    have "scanStep st ch (t' @ render_all qs) = (PText (ch # t'), st', render_all qs)"
      using scanStep_again e sim_render [of rest' st'] q PText t by simp
    with IH ps PText t show ?thesis by simp
  next
    case PMark
    with e scanStep_mark have "st = ScanNormal" "st' = ScanNormal" by blast+
    with IH ps PMark show ?thesis by (simp add: quote_def dquote_def)
  next
    case (PName n)
    with e scanStep_name scanStep_name_state have "st = ScanNormal" "st' = ScanNormal" by blast+
    with IH ps PName show ?thesis by (simp add: quote_def dquote_def)
  qed
qed

lemma filter_to_mark: "is_mark \<circ> to_mark = is_mark"
proof
  show "(is_mark \<circ> to_mark) p = is_mark p" for p by (cases p) simp_all
qed

lemma piece_names_to_mark: "piece_names (map to_mark ps) = []"
proof (induction ps)
  case (Cons p ps)
  then show ?case by (cases p) simp_all
qed simp

lemma length_piece_names: "length (piece_names ps) = length (filter is_mark ps) - count_list ps PMark \<and>
    count_list ps PMark \<le> length (filter is_mark ps)"
proof (induction ps)
  case (Cons p ps)
  then show ?case by (cases p) auto
qed simp

lemma rewrite_pieces:
  assumes "rewriteNamedParams q = Inr (q', names)" "names \<noteq> []"
  obtains ps fin where "pieces ScanNormal q = (ps, fin)" "\<not> unterminated fin" "q' = render_all ps" "names = piece_names ps"
proof -
  obtain ps fin where p: "pieces ScanNormal q = (ps, fin)" by fastforce
  with assms have "\<not> unterminated fin \<and> q' = render_all ps \<and> names = piece_names ps"
    by (auto simp: rewriteNamedParams_def rewriteLoop_pieces res_simps split: if_splits)
  with p show thesis using that by blast
qed

section \<open>String literals\<close>

lemma count_quoted:
  assumes "\<not> starts quote rest"
  shows "countLoop ScanSingleQuoted n (ReplaceQuote s @ quote # rest) = countLoop ScanNormal n rest"
proof (induction s)
  case Nil
  with assms show ?case by (simp add: ReplaceQuote_def scanQuoted_def)
next
  case (Cons c s)
  have "ReplaceQuote (c # s) = (if c = quote then [quote, quote] else [c]) @ ReplaceQuote s"
    by (simp add: ReplaceQuote_def)
  with Cons show ?case by (simp add: scanQuoted_def starts_def)
qed

lemma show_int_negative: "i < 0 \<Longrightarrow> show_int i = CHR ''-'' # show_nat (nat (- i))"
  by (simp add: show_int_def)

lemma pieces_comment: "newline \<notin> set s \<Longrightarrow> snd (pieces ScanLineComment s) = ScanLineComment"
proof (induction s)
  case (Cons c s)
  then show ?case by (cases "pieces ScanLineComment s") auto
qed simp

lemma digits_no_newline: "isASCIIDigits s \<Longrightarrow> newline \<notin> set s"
  by (auto simp: isASCIIDigits_def list_all_iff is_digit_def newline_def)

section \<open>Named arguments\<close>

lemma lookup_name_Some: "lookup_name n args = Some a \<Longrightarrow> a \<in> set args \<and> nvName a = n \<and> n \<noteq> []"
  unfolding lookup_name_def by (auto dest: find_Some_P)

lemma lookup_name_None: "lookup_name n args = None \<longleftrightarrow> (\<forall>a \<in> set args. nvName a \<noteq> n \<or> n = [])"
  unfolding lookup_name_def find_None_iff by auto

lemma reorderLoop_Inr:
  "reorderLoop i names args = Inr out \<Longrightarrow> length out = length names \<and>
     (\<forall>k < length names. \<exists>a. lookup_name (names ! k) args = Some a \<and>
        out ! k = a\<lparr>nvOrdinal := i + k + 1, nvName := []\<rparr>)"
proof (induction i names args arbitrary: out rule: reorderLoop.induct)
  case (2 i n ns args)
  from "2.prems" obtain a out' where a: "lookup_name n args = Some a"
    and r: "reorderLoop (Suc i) ns args = Inr out'" and out: "out = a\<lparr>nvOrdinal := Suc i, nvName := []\<rparr> # out'"
    by (auto simp: res_simps split: option.splits)
  from "2.IH" [OF a r] a out show ?case by (auto simp: nth_Cons split: nat.splits)
qed simp

lemma reorderLoop_Inl: "(\<exists>e. reorderLoop i names args = Inl e) \<longleftrightarrow> (\<exists>n \<in> set names. lookup_name n args = None)"
  by (induction i names args rule: reorderLoop.induct) (auto simp: res_simps split: option.splits)

section \<open>Properties\<close>



text \<open>
  The named arguments are put in the order of the placeholders: position k gets the
  last argument given for its name, with ordinal k+1 and no name, and the call fails
  exactly when some placeholder has no argument.
\<close>

theorem reorder_named_args:
  assumes "names \<noteq> []"
  shows "(\<forall>out. reorderNamedArgs names args = Inr out \<longrightarrow> length out = length names \<and>
       (\<forall>k < length names. \<exists>a \<in> set args. nvName a = names ! k \<and>
          out ! k = a\<lparr>nvOrdinal := k + 1, nvName := []\<rparr>)) \<and>
     ((\<exists>e. reorderNamedArgs names args = Inl e) \<longleftrightarrow>
        (\<exists>n \<in> set names. \<forall>a \<in> set args. nvName a \<noteq> n \<or> n = []))"
proof -
  have "length out = length names \<and> (\<forall>k < length names. \<exists>a \<in> set args. nvName a = names ! k \<and>
          out ! k = a\<lparr>nvOrdinal := k + 1, nvName := []\<rparr>)"
    if "reorderNamedArgs names args = Inr out" for out
    using reorderLoop_Inr [of 0 names args out] that assms
    by (fastforce simp: reorderNamedArgs_def dest: lookup_name_Some)
  moreover have "(\<exists>e. reorderNamedArgs names args = Inl e) \<longleftrightarrow>
        (\<exists>n \<in> set names. \<forall>a \<in> set args. nvName a \<noteq> n \<or> n = [])"
    using reorderLoop_Inl [of 0 names args] assms by (simp add: reorderNamedArgs_def lookup_name_None)
  ultimately show ?thesis by blast
qed

theorem reorder_named_args_witness:
  "reorderNamedArgs [''b'', ''a''] [\<lparr>nvName = ''a'', nvOrdinal = 1, nvValue = VInt 1\<rparr>,
      \<lparr>nvName = ''b'', nvOrdinal = 2, nvValue = VInt 2\<rparr>] =
     Inr [\<lparr>nvName = [], nvOrdinal = 1, nvValue = VInt 2\<rparr>, \<lparr>nvName = [], nvOrdinal = 2, nvValue = VInt 1\<rparr>] \<and>
   (\<exists>e. reorderNamedArgs [''c''] [\<lparr>nvName = ''a'', nvOrdinal = 1, nvValue = VInt 1\<rparr>] = Inl e)"
proof
  show "reorderNamedArgs [''b'', ''a''] [\<lparr>nvName = ''a'', nvOrdinal = 1, nvValue = VInt 1\<rparr>,
      \<lparr>nvName = ''b'', nvOrdinal = 2, nvValue = VInt 2\<rparr>] =
     Inr [\<lparr>nvName = [], nvOrdinal = 1, nvValue = VInt 2\<rparr>, \<lparr>nvName = [], nvOrdinal = 2, nvValue = VInt 1\<rparr>]"
    by code_simp
  show "\<exists>e. reorderNamedArgs [''c''] [\<lparr>nvName = ''a'', nvOrdinal = 1, nvValue = VInt 1\<rparr>] = Inl e"
    using reorder_named_args [of "[''c'']" "[\<lparr>nvName = ''a'', nvOrdinal = 1, nvValue = VInt 1\<rparr>]"] by simp
qed

text \<open>
  No string value can leave its literal: scanning the literal of any string, quotes
  included, ends in the state it began in, so that the text after it is scanned as if the
  literal were not there. This needs the text after the literal not to start with a quote.
\<close>

theorem string_literal_closed:
  assumes "\<not> starts quote rest" and "nvValue v = VString s"
  shows "\<exists>lit. sqlLiteralFromNamedValue fmtFloat v = Inr lit \<and>
    countLoop ScanNormal n (lit @ rest) = countLoop ScanNormal n rest"
  using assms count_quoted [OF assms(1), of n s] by (simp add: sqlLiteralFromNamedValue_def)

theorem string_literal_closed_witness:
  "\<exists>lit. sqlLiteralFromNamedValue (\<lambda>f. []) \<lparr>nvName = [], nvOrdinal = 1, nvValue = VString [quote, CHR ''?'']\<rparr> = Inr lit \<and>
    countLoop ScanNormal 0 (lit @ '' + ?'') = countLoop ScanNormal 0 '' + ?''"
  by (rule string_literal_closed [where s = "[quote, CHR ''?'']"]) (simp_all add: starts_def quote_def)

text \<open>
  A negative number bound to a placeholder that follows a minus sign turns the rest of
  the line into a comment: for every negative value the expansion of \<open>VALUES 1-?\<close> contains
  \<open>--\<close>, and the scanner is inside a line comment at its end.
\<close>

theorem expand_minus_comment:
  assumes "i < 0"
  shows "\<exists>out. expandSQLQuery fmtFloat ''VALUES 1-?'' [\<lparr>nvName = [], nvOrdinal = 1, nvValue = VInt i\<rparr>] = Inr out \<and>
    snd (pieces ScanNormal out) = ScanLineComment"
proof -
  let ?d = "show_nat (nat (- i))"
  have lit: "sqlLiteralFromNamedValue fmtFloat \<lparr>nvName = [], nvOrdinal = 1, nvValue = VInt i\<rparr> = Inr (CHR ''-'' # ?d)"
    using assms by (simp add: sqlLiteralFromNamedValue_def show_int_negative)
  have "expandSQLQuery fmtFloat ''VALUES 1-?'' [\<lparr>nvName = [], nvOrdinal = 1, nvValue = VInt i\<rparr>] =
      Inr (''VALUES 1--'' @ ?d)"
    by (simp add: expandSQLQuery_def quote_def dquote_def starts_def unterminated_def lit [unfolded One_nat_def])
  moreover have "snd (pieces ScanLineComment ?d) = ScanLineComment"
    by (intro pieces_comment digits_no_newline) simp
  then have "snd (pieces ScanNormal (''VALUES 1--'' @ ?d)) = ScanLineComment"
    by (simp add: quote_def dquote_def starts_def split_beta)
  ultimately show ?thesis by blast
qed

theorem expand_minus_comment_witness:
  "\<exists>out. expandSQLQuery (\<lambda>f. []) ''VALUES 1-?'' [\<lparr>nvName = [], nvOrdinal = 1, nvValue = VInt (-5)\<rparr>] = Inr out \<and>
    snd (pieces ScanNormal out) = ScanLineComment"
  by (rule expand_minus_comment) simp

end
