(* ===== verification/Config.thy ===== *)
theory Config
  imports Scan
begin

text \<open>
  The connection settings of \<open>src/config.go\<close> with their validation, and the values other
  parts of the driver derive from them: commitment-control levels (\<open>src/dbconn.go\<close>,
  \<open>src/tx.go\<close>), the fetch buffer and the LOB threshold. Of \<open>TLSConfig\<close> the record
  has the server name (\<open>None\<close> for nil); \<open>RawQuery\<close> is an association list with distinct keys, durations are in nanoseconds.
\<close>

section \<open>Definitions\<close>

datatype NamingConvention = NamingSQL | NamingSystem | NamingOther string

record Config =
  cfgHost :: string
  cfgPort :: int
  cfgUseTLS :: bool
  cfgSchema :: string
  cfgNaming :: NamingConvention
  cfgDateFormat :: int
  cfgDateSeparator :: int
  cfgTimeFormat :: int
  cfgTimeSeparator :: int
  cfgDecimalSeparator :: int
  cfgCommitmentControl :: int
  cfgLibraries :: "string list"
  cfgStatementCacheSize :: int
  cfgScrollableCursors :: bool
  cfgHoldCursors :: bool
  cfgQueryOptimizeGoal :: int
  cfgDecimalMaxPrecision :: int
  cfgDecimalMaxScale :: int
  cfgMinimumDivideScale :: int
  cfgLOBThreshold :: int
  cfgBlockSize :: int
  cfgTrueAutocommit :: bool
  cfgUseBlockUpdate :: bool
  cfgReturnGeneratedKeys :: bool
  cfgDecfloatRoundingMode :: int
  cfgExtendedDynamic :: bool
  cfgPackage :: string
  cfgPackageLibrary :: string
  cfgPackageCriteria :: string
  cfgPackageAddDisabled :: bool
  cfgPackageError :: string
  cfgPackageCCSID :: int
  cfgPackageCCSIDSystem :: bool
  cfgPackageCache :: bool
  cfgQueryTimeoutMechanism :: string
  cfgReceiveBufferSize :: int
  cfgSendBufferSize :: int
  cfgSocketTimeout :: int
  cfgErrorsFull :: bool
  cfgTimestampString :: bool
  cfgBidiStringType :: int
  cfgBidiImplicitReordering :: bool
  cfgBidiNumericOrdering :: bool
  cfgDSN :: string
  cfgUser :: string
  cfgPassword :: string
  cfgApplicationName :: string
  cfgClientUser :: string
  cfgClientAccounting :: string
  cfgClientHostname :: string
  cfgClientProgramID :: string
  cfgQueryStorageLimit :: int
  cfgPackageClear :: bool
  cfgKeepAlive :: "bool option"
  cfgTCPNoDelay :: "bool option"
  cfgConnectTimeout :: int
  cfgRawQuery :: "(string \<times> string list) list"
  cfgTLSConfig :: "string option"

definition defaultCommitmentControl :: int where "defaultCommitmentControl = 1"
definition maxLOBThreshold :: int where "maxLOBThreshold = 15728640"
definition defaultBlockSizeKB :: int where "defaultBlockSizeKB = 256"

definition validBidiStringType :: "int \<Rightarrow> bool" where
  "validBidiStringType t \<longleftrightarrow> t = -1 \<or> t = 0 \<or> (t \<ge> 4 \<and> t \<le> 11)"

definition validBlockSize :: "int \<Rightarrow> bool" where
  "validBlockSize kb \<longleftrightarrow> kb \<in> {0, 8, 16, 32, 64, 128, 256, 512} \<or> (kb > 512 \<and> kb \<le> 16000)"

definition invalid_option :: "string \<Rightarrow> int \<Rightarrow> unit res" where
  "invalid_option name v = Inl (Wrap ErrInvalidDSN (''invalid '' @ name @ '' %d'') [FInt v])"

definition validatePackageConfig :: "Config \<Rightarrow> unit res" where
  "validatePackageConfig c =
     (if cfgPackageError c \<notin> {'''', ''none'', ''warning'', ''exception''}
      then Inl (Wrap ErrInvalidDSN ''invalid packageError %q'' [FStr (cfgPackageError c)])
      else if cfgPackageCriteria c \<notin> {'''', ''default'', ''select''}
      then Inl (Wrap ErrInvalidDSN ''invalid packageCriteria %q'' [FStr (cfgPackageCriteria c)])
      else if cfgPackageCCSID c < 0 then invalid_option ''packageCCSID'' (cfgPackageCCSID c)
      else Inr ())"

text \<open>The bound on socket buffers, from \<open>src/transport.go\<close>.\<close>

definition maxSocketBufferSize :: int where "maxSocketBufferSize = 16 * 1024 * 1024"

definition Validate :: "Config \<Rightarrow> unit res" where
  "Validate c =
     (if TrimSpace (cfgHost c) = [] then Inl (Wrap ErrInvalidDSN ''host is required'' [])
      else if cfgPort c < 0 \<or> cfgPort c > 65535 then invalid_option ''port'' (cfgPort c)
      else if \<not> validBidiStringType (cfgBidiStringType c) then invalid_option ''bidiStringType'' (cfgBidiStringType c)
      else if cfgDateFormat c < 0 \<or> cfgDateFormat c > 7 then invalid_option ''dateFormat'' (cfgDateFormat c)
      else if cfgDateSeparator c < 0 \<or> cfgDateSeparator c > 4 then invalid_option ''dateSeparator'' (cfgDateSeparator c)
      else if cfgTimeFormat c < 0 \<or> cfgTimeFormat c > 4 then invalid_option ''timeFormat'' (cfgTimeFormat c)
      else if cfgTimeSeparator c < 0 \<or> cfgTimeSeparator c > 3 then invalid_option ''timeSeparator'' (cfgTimeSeparator c)
      else if cfgDecimalSeparator c < 0 \<or> cfgDecimalSeparator c > 1 then invalid_option ''decimalSeparator'' (cfgDecimalSeparator c)
      else if cfgCommitmentControl c < 0 \<or> cfgCommitmentControl c > 4 then invalid_option ''commitmentControl'' (cfgCommitmentControl c)
      else if cfgStatementCacheSize c < 0 then invalid_option ''statementCacheSize'' (cfgStatementCacheSize c)
      else if cfgQueryOptimizeGoal c < 0 \<or> cfgQueryOptimizeGoal c > 2 then invalid_option ''queryOptimizeGoal'' (cfgQueryOptimizeGoal c)
      else if cfgDecimalMaxPrecision c \<noteq> 0 \<and> cfgDecimalMaxPrecision c \<noteq> 31 \<and> cfgDecimalMaxPrecision c \<noteq> 63
      then invalid_option ''decimalMaxPrecision'' (cfgDecimalMaxPrecision c)
      else if cfgDecimalMaxScale c < 0 \<or> cfgDecimalMaxScale c > 63 then invalid_option ''decimalMaxScale'' (cfgDecimalMaxScale c)
      else if cfgMinimumDivideScale c < 0 \<or> cfgMinimumDivideScale c > 9 then invalid_option ''minimumDivideScale'' (cfgMinimumDivideScale c)
      else if cfgLOBThreshold c < 0 \<or> cfgLOBThreshold c > maxLOBThreshold then invalid_option ''lobThreshold'' (cfgLOBThreshold c)
      else if \<not> validBlockSize (cfgBlockSize c) then invalid_option ''blockSize'' (cfgBlockSize c)
      else if cfgDecfloatRoundingMode c < 0 \<or> cfgDecfloatRoundingMode c > 6
      then invalid_option ''decfloatRoundingMode'' (cfgDecfloatRoundingMode c)
      else if cfgReceiveBufferSize c < 0 \<or> cfgReceiveBufferSize c > maxSocketBufferSize
      then invalid_option ''receiveBufferSize'' (cfgReceiveBufferSize c)
      else if cfgSendBufferSize c < 0 \<or> cfgSendBufferSize c > maxSocketBufferSize
      then invalid_option ''sendBufferSize'' (cfgSendBufferSize c)
      else if cfgSocketTimeout c < 0
      then Inl (Wrap ErrInvalidDSN ''invalid socketTimeout %s'' [FInt (cfgSocketTimeout c)])
      else validatePackageConfig c)"

definition fetchBufferBytes :: "Config \<Rightarrow> u32" where
  "fetchBufferBytes c =
     (if cfgBlockSize c \<le> 0 then word_of_int (defaultBlockSizeKB * 1024)
      else word_of_int (cfgBlockSize c) * 1024)"

definition lobThresholdValue :: "Config \<Rightarrow> u32" where
  "lobThresholdValue c =
     (if cfgLOBThreshold c \<le> 0 then 0
      else if cfgLOBThreshold c > maxLOBThreshold then word_of_int maxLOBThreshold
      else word_of_int (cfgLOBThreshold c))"

definition bidiSettingsFromConfig :: "Config \<Rightarrow> bidiSettings" where
  "bidiSettingsFromConfig cfg =
     \<lparr>bsStringType = cfgBidiStringType cfg, bsImplicitReordering = cfgBidiImplicitReordering cfg,
      bsNumericOrdering = cfgBidiNumericOrdering cfg\<rparr>"

subsection \<open>Commitment control\<close>

definition requestCommitmentControl :: "bool \<Rightarrow> int \<Rightarrow> u16" where
  "requestCommitmentControl autoCommit commitmentControl =
     (if autoCommit then 0
      else if commitmentControl < 0 \<or> commitmentControl > 4 then word_of_int defaultCommitmentControl
      else word_of_int commitmentControl)"

definition serverCommitmentControl :: "Config \<Rightarrow> bool \<Rightarrow> int \<Rightarrow> u16" where
  "serverCommitmentControl cfg autoCommit commitmentControl =
     (if autoCommit \<and> \<not> cfgTrueAutocommit cfg then 0 else requestCommitmentControl False commitmentControl)"

definition commitmentControlForAutoCommit :: "bool \<Rightarrow> int \<Rightarrow> int" where
  "commitmentControlForAutoCommit enabled commitmentControl =
     (if enabled then 0
      else if commitmentControl < 0 \<or> commitmentControl > 4 then defaultCommitmentControl
      else commitmentControl)"

text \<open>The isolation levels of \<open>database/sql\<close>, by their numbers: 0 default, 1 read uncommitted,
  2 read committed, 3 write committed, 4 repeatable read, 5 snapshot, 6 serializable, 7 linearizable.\<close>

definition transactionIsolationMode :: "int \<Rightarrow> string res" where
  "transactionIsolationMode level =
     (if level = 0 then Inr []
      else if level = 1 then Inr ''CHG''
      else if level = 2 then Inr ''CS''
      else if level = 4 then Inr ''ALL''
      else if level = 6 then Inr ''RR''
      else Inl (Wrap ErrUnsupported ''unsupported isolation level %d'' [FInt level]))"

definition transactionCommitmentControl :: "int \<Rightarrow> int" where
  "transactionCommitmentControl level =
     (if level = 1 then 2 else if level = 2 then 1 else if level = 4 then 3 else if level = 6 then 4
      else defaultCommitmentControl)"

section \<open>Lemmas\<close>

lemma Validate_ok:
  assumes "Validate c = Inr ()"
  shows "0 \<le> cfgDateFormat c \<and> cfgDateFormat c \<le> 7" "0 \<le> cfgDateSeparator c \<and> cfgDateSeparator c \<le> 4"
    "0 \<le> cfgTimeFormat c \<and> cfgTimeFormat c \<le> 4" "0 \<le> cfgTimeSeparator c \<and> cfgTimeSeparator c \<le> 3"
    "0 \<le> cfgDecimalSeparator c \<and> cfgDecimalSeparator c \<le> 1" "0 \<le> cfgCommitmentControl c \<and> cfgCommitmentControl c \<le> 4"
    "validBlockSize (cfgBlockSize c)"
    "0 \<le> cfgLOBThreshold c \<and> cfgLOBThreshold c \<le> maxLOBThreshold"
  using assms by (simp_all add: Validate_def invalid_option_def split: if_splits)

end
