(* ===== verification/Wire.thy ===== *)
theory Wire
  imports Prelude
begin

text \<open>
  The host-server datastream: \<open>src/protocol.go\<close> (header and LL/CP parameters) and
  \<open>src/wire.go\<close> (packet framing, the append helpers, the reply envelope).

  A request or reply is a 20-byte header, a template and a sequence of parameters, each
  a 4-byte length (LL), a 2-byte code point (CP) and a payload. The theory shows that the
  writers and readers are inverse, that no reader looks past its input, and that framing
  consumes exactly one packet of the stream.
\<close>

section \<open>Definitions\<close>

subsection \<open>Append helpers\<close>

definition appendU32 :: "bytes \<Rightarrow> u32 \<Rightarrow> bytes" where
  "appendU32 dst v = dst @ bytesU32 v"

definition appendU16 :: "bytes \<Rightarrow> u16 \<Rightarrow> bytes" where
  "appendU16 dst v = dst @ bytesU16 v"

definition appendU64 :: "bytes \<Rightarrow> u64 \<Rightarrow> bytes" where
  "appendU64 dst v = dst @ bytesU64 v"

definition appendI32 :: "bytes \<Rightarrow> int \<Rightarrow> bytes" where
  "appendI32 dst v = appendU32 dst (word_of_int v)"

definition appendBytes :: "bytes \<Rightarrow> bytes \<Rightarrow> bytes" where
  "appendBytes dst v = dst @ v"

subsection \<open>Header\<close>

definition HeaderSize :: nat where "HeaderSize = 20"

record Header =
  hLength :: u32
  hHeaderID :: u16
  hServerID :: u16
  hCSInstance :: u32
  hCorrelationID :: u32
  hTemplateLength :: u16
  hReqRepID :: u16

definition MarshalBinary :: "Header \<Rightarrow> bytes" where
  "MarshalBinary h =
     bytesU32 (hLength h) @ bytesU16 (hHeaderID h) @ bytesU16 (hServerID h) @
     bytesU32 (hCSInstance h) @ bytesU32 (hCorrelationID h) @
     bytesU16 (hTemplateLength h) @ bytesU16 (hReqRepID h)"

definition ParseHeader :: "bytes \<Rightarrow> Header res" where
  "ParseHeader data =
     (if length data < HeaderSize then Inl (Errorf ''header too short: %d'' [FInt (int (length data))])
      else if Uint32 (slice 0 4 data) = word_of_nat (length data) then
        Inr \<lparr>hLength = Uint32 (slice 0 4 data),
             hHeaderID = Uint16 (slice 4 6 data),
             hServerID = Uint16 (slice 6 8 data),
             hCSInstance = Uint32 (slice 8 12 data),
             hCorrelationID = Uint32 (slice 12 16 data),
             hTemplateLength = Uint16 (slice 16 18 data),
             hReqRepID = Uint16 (slice 18 20 data)\<rparr>
      else
        Inr \<lparr>hLength = word_of_nat (length data + 4),
             hHeaderID = Uint16 (slice 0 2 data),
             hServerID = Uint16 (slice 2 4 data),
             hCSInstance = Uint32 (slice 4 8 data),
             hCorrelationID = Uint32 (slice 8 12 data),
             hTemplateLength = Uint16 (slice 12 14 data),
             hReqRepID = Uint16 (slice 14 16 data)\<rparr>)"

definition buildHeader :: "u32 \<Rightarrow> u16 \<Rightarrow> u16 \<Rightarrow> u16 \<Rightarrow> u16 \<Rightarrow> bytes" where
  "buildHeader len headerID serverID templateLength reqRepID =
     bytesU32 len @ bytesU16 headerID @ bytesU16 serverID @ bytesU32 0 @ bytesU32 0 @
     bytesU16 templateLength @ bytesU16 reqRepID"

subsection \<open>LL/CP parameters\<close>

definition AppendLLCP :: "bytes \<Rightarrow> u16 \<Rightarrow> bytes \<Rightarrow> bytes" where
  "AppendLLCP dst codePoint payload =
     dst @ bytesU32 (word_of_nat (length payload + 6)) @ bytesU16 codePoint @ payload"

definition ParseLLCP :: "bytes \<Rightarrow> (u16 \<times> bytes \<times> bytes) res" where
  "ParseLLCP data =
     (if length data < 6 then Inl (Errorf ''llcp too short: %d'' [FInt (int (length data))])
      else let len = unat (Uint32 (slice 0 4 data)) in
        if len < 6 then Inl (Errorf ''invalid llcp length: %d'' [FInt (int len)])
        else if len > length data then
          Inl (Errorf ''llcp length %d exceeds buffer %d'' [FInt (int len), FInt (int (length data))])
        else Inr (Uint16 (slice 4 6 data), slice 6 len data, drop len data))"

subsection \<open>Packet framing\<close>

text \<open>
  What a connection still delivers: the bytes that arrive, then the error the next
  read reports (\<open>io.EOF\<close> when the peer closed it, a deadline error and so on).
\<close>

record conn_in =
  inBytes :: bytes
  inErr :: go_error

text \<open>\<open>io.ReadFull\<close>: all \<open>n\<close> bytes, or the error; EOF after a partial read is \<open>ErrUnexpectedEOF\<close>.\<close>

definition ReadFull :: "conn_in \<Rightarrow> nat \<Rightarrow> bytes res \<times> conn_in" where
  "ReadFull c n =
     (if n \<le> length (inBytes c) then (Inr (take n (inBytes c)), c\<lparr>inBytes := drop n (inBytes c)\<rparr>)
      else (Inl (if inErr c = EOF \<and> inBytes c \<noteq> [] then UnexpectedEOF else inErr c),
            c\<lparr>inBytes := []\<rparr>))"

definition maxPacketLength :: nat where
  "maxPacketLength = 2 ^ 30"

definition readPacket :: "conn_in \<Rightarrow> bytes res \<times> conn_in" where
  "readPacket c =
     (case ReadFull c 4 of
        (Inl e, c1) \<Rightarrow> (Inl (WireError ''read packet length'' e), c1)
      | (Inr lengthBuf, c1) \<Rightarrow>
          let len = unat (Uint32 lengthBuf) in
          if len < HeaderSize then
            (Inl (WireError ''validate packet length''
               (Errorf ''invalid packet length: %d (minimum %d)'' [FInt (int len), FInt (int HeaderSize)])), c1)
          else if len > maxPacketLength then
            (Inl (WireError ''validate packet length''
               (Errorf ''packet length %d exceeds maximum %d'' [FInt (int len), FInt (int maxPacketLength)])), c1)
          else (case ReadFull c1 (len - 4) of
                  (Inl e, c2) \<Rightarrow> (Inl (WireError ''read packet body'' e), c2)
                | (Inr body, c2) \<Rightarrow> (Inr (lengthBuf @ body), c2)))"

subsection \<open>Replies\<close>

definition readReturnCode :: "bytes \<Rightarrow> int res" where
  "readReturnCode packet =
     (if length packet < 24 then Inl (Errorf ''reply too short: %d'' [FInt (int (length packet))])
      else Inr (sint (Uint32 (slice 20 24 packet))))"

definition readSimpleReply :: "bytes \<Rightarrow> (int \<times> bytes) res" where
  "readSimpleReply packet =
     res_bind (readReturnCode packet) (\<lambda>rc.
       if length packet < 24 then Inl (Errorf ''reply too short: %d'' [FInt (int (length packet))])
       else Inr (rc, drop 24 packet))"

definition readSimpleReplyForID :: "bytes \<Rightarrow> u16 \<Rightarrow> (int \<times> bytes) res" where
  "readSimpleReplyForID packet expectedReplyID =
     res_bind (ParseHeader packet) (\<lambda>header.
       if hReqRepID header \<noteq> expectedReplyID
       then Inl (Errorf ''unexpected reply id: 0x%x'' [FInt (uint (hReqRepID header))])
       else readSimpleReply packet)"

record replyEnvelope =
  envHeader :: Header
  envORSBitmap :: u32
  envCompressed :: u32
  envReturnORSHandle :: u16
  envReturnDataFunctionID :: u16
  envRequestDataFunctionID :: u16
  envRCClass :: u16
  envRCCode :: int

definition hasWarning :: "replyEnvelope \<Rightarrow> bool" where
  "hasWarning e \<longleftrightarrow> envRCClass e \<noteq> 0 \<and> envRCCode e \<ge> 0"

definition hasError :: "replyEnvelope \<Rightarrow> bool" where
  "hasError e \<longleftrightarrow> envRCClass e \<noteq> 0 \<and> envRCCode e < 0"

definition readReplyEnvelope :: "bytes \<Rightarrow> (replyEnvelope \<times> bytes) res" where
  "readReplyEnvelope packet =
     (if length packet < 40 then Inl (Errorf ''reply too short: %d'' [FInt (int (length packet))])
      else res_bind (ParseHeader packet) (\<lambda>header.
        if hReqRepID header \<noteq> 0x2800
        then Inl (Errorf ''unexpected reply id: 0x%x'' [FInt (uint (hReqRepID header))])
        else Inr (\<lparr>envHeader = header,
                   envORSBitmap = Uint32 (slice 20 24 packet),
                   envCompressed = Uint32 (slice 24 28 packet),
                   envReturnORSHandle = Uint16 (slice 28 30 packet),
                   envReturnDataFunctionID = Uint16 (slice 30 32 packet),
                   envRequestDataFunctionID = Uint16 (slice 32 34 packet),
                   envRCClass = Uint16 (slice 34 36 packet),
                   envRCCode = sint (Uint32 (slice 36 40 packet))\<rparr>,
                  drop 40 packet)))"

section \<open>Lemmas\<close>

lemma length_MarshalBinary [simp, wire_simps]: "length (MarshalBinary h) = HeaderSize"
  by (simp add: MarshalBinary_def HeaderSize_def)

lemma length_buildHeader [simp, wire_simps]: "length (buildHeader l h s t r) = HeaderSize"
  by (simp add: buildHeader_def HeaderSize_def)

lemma buildHeader_eq_MarshalBinary:
  "buildHeader l h s t r =
     MarshalBinary \<lparr>hLength = l, hHeaderID = h, hServerID = s, hCSInstance = 0,
       hCorrelationID = 0, hTemplateLength = t, hReqRepID = r\<rparr>"
  by (simp add: buildHeader_def MarshalBinary_def)

lemma slices_MarshalBinary:
  "slice 0 4 (MarshalBinary h @ rest) = bytesU32 (hLength h)"
  "slice 4 6 (MarshalBinary h @ rest) = bytesU16 (hHeaderID h)"
  "slice 6 8 (MarshalBinary h @ rest) = bytesU16 (hServerID h)"
  "slice 8 12 (MarshalBinary h @ rest) = bytesU32 (hCSInstance h)"
  "slice 12 16 (MarshalBinary h @ rest) = bytesU32 (hCorrelationID h)"
  "slice 16 18 (MarshalBinary h @ rest) = bytesU16 (hTemplateLength h)"
  "slice 18 20 (MarshalBinary h @ rest) = bytesU16 (hReqRepID h)"
  by (simp_all add: MarshalBinary_def slice_def)

lemma ParseHeader_MarshalBinary:
  assumes "hLength h = word_of_nat (HeaderSize + length rest)"
  shows "ParseHeader (MarshalBinary h @ rest) = Inr h"
  using assms by (simp add: ParseHeader_def slices_MarshalBinary)

lemma ParseHeader_total: "HeaderSize \<le> length data \<Longrightarrow> \<exists>h. ParseHeader data = Inr h"
  by (simp add: ParseHeader_def)

lemma ParseLLCP_AppendLLCP:
  assumes "length payload + 6 < 2 ^ 32"
  shows "ParseLLCP (AppendLLCP [] cp payload @ rest) = Inr (cp, payload, rest)"
proof -
  let ?n = "length payload + 6"
  have len: "unat (word_of_nat ?n :: u32) = ?n"
    using assms by (intro unat_word_of_nat_32)
  have s1: "slice 0 4 (AppendLLCP [] cp payload @ rest) = bytesU32 (word_of_nat ?n)"
    and s2: "slice 4 6 (AppendLLCP [] cp payload @ rest) = bytesU16 cp"
    and s3: "slice 6 ?n (AppendLLCP [] cp payload @ rest) = payload"
    by (simp_all add: AppendLLCP_def slice_def)
  show ?thesis
    unfolding ParseLLCP_def s1 s2 Uint_bytesU len Let_def s3
    by (simp add: AppendLLCP_def)
qed

text \<open>Whatever \<open>ParseLLCP\<close> accepts is one parameter followed by the rest: nothing is lost or read twice.\<close>

lemma ParseLLCP_sound:
  assumes "ParseLLCP data = Inr (cp, payload, rest)"
  shows "data = AppendLLCP [] cp payload @ rest" and "length payload + 6 < 2 ^ 32"
proof -
  let ?len = "unat (Uint32 (slice 0 4 data))"
  from assms have 6: "6 \<le> length data" and len: "6 \<le> ?len" "?len \<le> length data"
    and cp: "cp = Uint16 (slice 4 6 data)" and pl: "payload = slice 6 ?len data"
    and rest: "rest = drop ?len data"
    by (auto simp: ParseLLCP_def Let_def split: if_splits)
  have lp: "length payload + 6 = ?len" using len by (simp add: pl)
  then show "length payload + 6 < 2 ^ 32" using unat_less_pow [of "Uint32 (slice 0 4 data)"] by simp
  have a: "bytesU32 (word_of_nat (length payload + 6)) = slice 0 4 data"
    unfolding lp using 6 by (simp add: bytesU32_Uint32)
  have b: "bytesU16 cp = slice 4 6 data" using 6 by (simp add: cp bytesU16_Uint16)
  have "data = take 4 data @ take 2 (drop 4 data) @ take (?len - 6) (drop 6 data) @ drop ?len data"
  proof -
    have "drop 6 data = take (?len - 6) (drop 6 data) @ drop ?len data"
      using append_take_drop_id [of "?len - 6" "drop 6 data"] len by simp
    moreover have "drop 4 data = take 2 (drop 4 data) @ drop 6 data"
      using append_take_drop_id [of 2 "drop 4 data"] by simp
    ultimately show ?thesis using append_take_drop_id [of 4 data] by simp
  qed
  then show "data = AppendLLCP [] cp payload @ rest"
    unfolding AppendLLCP_def a b using pl rest by (simp add: slice_def)
qed

lemma ParseLLCP_shorter:
  assumes "ParseLLCP data = Inr (cp, payload, rest)"
  shows "length rest < length data" and "length payload < length data"
  using ParseLLCP_sound(1) [OF assms] by (simp_all add: AppendLLCP_def)

lemma ReadFull_ok: "inBytes c = xs @ ys \<Longrightarrow> ReadFull c (length xs) = (Inr xs, c\<lparr>inBytes := ys\<rparr>)"
  by (simp add: ReadFull_def)

lemma ReadFull_Inr:
  "ReadFull c n = (Inr xs, c') \<Longrightarrow> inBytes c = xs @ inBytes c' \<and> length xs = n \<and> inErr c' = inErr c"
  by (auto simp: ReadFull_def split: if_splits)

lemma readPacket_ok:
  assumes "HeaderSize \<le> length packet" and "length packet \<le> maxPacketLength"
    and "take 4 packet = bytesU32 (word_of_nat (length packet))"
    and "inBytes c = packet @ rest"
  shows "readPacket c = (Inr packet, c\<lparr>inBytes := rest\<rparr>)"
proof -
  let ?n = "length packet"
  have n: "unat (word_of_nat ?n :: u32) = ?n"
    using assms(2) by (intro unat_word_of_nat_32) (simp add: maxPacketLength_def)
  have r1: "ReadFull c 4 = (Inr (take 4 packet), c\<lparr>inBytes := drop 4 packet @ rest\<rparr>)"
    using assms(1,4) by (simp add: ReadFull_def HeaderSize_def)
  have r2: "ReadFull (c\<lparr>inBytes := drop 4 packet @ rest\<rparr>) (?n - 4) =
      (Inr (drop 4 packet), c\<lparr>inBytes := rest\<rparr>)"
    by (simp add: ReadFull_def)
  show ?thesis
    unfolding readPacket_def r1 prod.case sum.case assms(3) Uint_bytesU n Let_def
    using assms(1,2) r2 by (simp flip: assms(3))
qed

lemma readPacket_Inr:
  assumes "readPacket c = (Inr packet, c')"
  shows "inBytes c = packet @ inBytes c' \<and> HeaderSize \<le> length packet \<and>
    length packet \<le> maxPacketLength \<and> unat (Uint32 packet) = length packet"
proof -
  obtain lb c1 where r1: "ReadFull c 4 = (Inr lb, c1)"
    using assms by (auto simp: readPacket_def split: prod.splits sum.splits)
  let ?len = "unat (Uint32 lb)"
  have len: "HeaderSize \<le> ?len" "?len \<le> maxPacketLength"
    using assms r1 by (auto simp: readPacket_def Let_def split: prod.splits sum.splits if_splits)
  then obtain body where r2: "ReadFull c1 (?len - 4) = (Inr body, c')" and p: "packet = lb @ body"
    using assms r1 by (auto simp: readPacket_def Let_def split: prod.splits sum.splits if_splits)
  from ReadFull_Inr [OF r1] ReadFull_Inr [OF r2] len p show ?thesis
    by (auto simp: Uint32_def HeaderSize_def)
qed

lemma readReplyEnvelope_Inr:
  assumes "readReplyEnvelope packet = Inr (e, payload)"
  shows "40 \<le> length packet \<and> packet = take 40 packet @ payload \<and> hReqRepID (envHeader e) = 0x2800
    \<and> - (2 ^ 31) \<le> envRCCode e \<and> envRCCode e < 2 ^ 31"
proof -
  have "- (2 ^ 31) \<le> sint (x :: u32) \<and> sint x < 2 ^ 31" for x
    using sint_range_size [of x] by (simp add: word_size)
  then show ?thesis using assms
    by (auto simp: readReplyEnvelope_def res_simps split: if_splits)
qed

section \<open>Properties\<close>

text \<open>
  Reading a parameter and writing one are exact inverses: \<open>ParseLLCP\<close> accepts precisely
  the data that starts with what \<open>AppendLLCP\<close> writes, and returns that code point, that
  payload and the bytes after it.
\<close>

theorem llcp_exact:
  "ParseLLCP data = Inr (cp, payload, rest) \<longleftrightarrow>
     data = AppendLLCP [] cp payload @ rest \<and> length payload + 6 < 2 ^ 32"
  using ParseLLCP_sound ParseLLCP_AppendLLCP by blast

text \<open>
  Packet framing: a read succeeds exactly when the stream starts with a whole packet
  whose length field is its own length, between the header size and the maximum, and it
  then consumes that packet and nothing of the next one.
\<close>

theorem packet_framing:
  "(\<exists>c'. readPacket c = (Inr packet, c') \<and> inBytes c' = rest) \<longleftrightarrow>
     inBytes c = packet @ rest \<and> HeaderSize \<le> length packet \<and> length packet \<le> maxPacketLength \<and>
     unat (Uint32 packet) = length packet"
proof
  assume "\<exists>c'. readPacket c = (Inr packet, c') \<and> inBytes c' = rest"
  then show "inBytes c = packet @ rest \<and> HeaderSize \<le> length packet \<and> length packet \<le> maxPacketLength \<and>
     unat (Uint32 packet) = length packet"
    using readPacket_Inr by blast
next
  assume a: "inBytes c = packet @ rest \<and> HeaderSize \<le> length packet \<and> length packet \<le> maxPacketLength \<and>
     unat (Uint32 packet) = length packet"
  have "word_of_nat (unat (Uint32 packet)) = Uint32 packet" by simp
  with a have "Uint32 packet = word_of_nat (length packet)" by metis
  moreover have "bytesU32 (Uint32 packet) = take 4 packet"
    using bytesU32_Uint32 [of "take 4 packet"] a by (simp add: Uint32_def HeaderSize_def)
  ultimately have "take 4 packet = bytesU32 (word_of_nat (length packet))" by simp
  from readPacket_ok [OF _ _ this] a show "\<exists>c'. readPacket c = (Inr packet, c') \<and> inBytes c' = rest" by auto
qed

text \<open>
  A header survives the wire: the header \<open>MarshalBinary\<close> or \<open>buildHeader\<close> writes in front
  of a body is what \<open>ParseHeader\<close> reads from the packet, provided its length field counts
  the packet.
\<close>

theorem header_round_trip:
  assumes "hLength h = word_of_nat (HeaderSize + length body)"
  shows "ParseHeader (MarshalBinary h @ body) = Inr h \<and>
    (hCSInstance h = 0 \<and> hCorrelationID h = 0 \<longrightarrow>
       buildHeader (hLength h) (hHeaderID h) (hServerID h) (hTemplateLength h) (hReqRepID h) = MarshalBinary h)"
  using ParseHeader_MarshalBinary [OF assms] by (simp add: buildHeader_def MarshalBinary_def)

theorem header_round_trip_witness:
  "ParseHeader (MarshalBinary \<lparr>hLength = 24, hHeaderID = 0, hServerID = 0xE004, hCSInstance = 0,
      hCorrelationID = 7, hTemplateLength = 20, hReqRepID = 0x1803\<rparr> @ [1, 2, 3, 4]) =
   Inr \<lparr>hLength = 24, hHeaderID = 0, hServerID = 0xE004, hCSInstance = 0,
      hCorrelationID = 7, hTemplateLength = 20, hReqRepID = 0x1803\<rparr>"
  using header_round_trip [of "\<lparr>hLength = 24, hHeaderID = 0, hServerID = 0xE004, hCSInstance = 0,
      hCorrelationID = 7, hTemplateLength = 20, hReqRepID = 0x1803\<rparr>" "[1, 2, 3, 4]"]
  by (simp add: HeaderSize_def)

end
