(* ===== verification/Reader.thy ===== *)
theory Reader
  imports Wire
begin

text \<open>
  \<open>sliceReader\<close> of \<open>src/sql.go\<close>, the bounds-checked cursor every payload parser reads
  through, and the shape the parsers share: scanning a sequence of LL/CP parameters for
  the code points of interest (the locale \<open>llcp_scanner\<close>, which each such loop instantiates).
\<close>

section \<open>Definitions\<close>

record sliceReader =
  srData :: bytes
  srPos :: nat

type_synonym 'a rd = "sliceReader \<Rightarrow> ('a \<times> sliceReader) res"

definition newSliceReader :: "bytes \<Rightarrow> sliceReader" where
  "newSliceReader data = \<lparr>srData = data, srPos = 0\<rparr>"

definition remaining :: "sliceReader \<Rightarrow> int" where
  "remaining r = int (length (srData r)) - int (srPos r)"

definition advance :: "nat \<Rightarrow> sliceReader \<Rightarrow> sliceReader" where
  "advance n r = r\<lparr>srPos := srPos r + n\<rparr>"

definition readU8 :: "byte rd" where
  "readU8 r = (if remaining r < 1 then Inl EOF else Inr (srData r ! srPos r, advance 1 r))"

definition readU16 :: "u16 rd" where
  "readU16 r = (if remaining r < 2 then Inl EOF else Inr (Uint16 (drop (srPos r) (srData r)), advance 2 r))"

definition readU32 :: "u32 rd" where
  "readU32 r = (if remaining r < 4 then Inl EOF else Inr (Uint32 (drop (srPos r) (srData r)), advance 4 r))"

definition readBytes :: "int \<Rightarrow> bytes rd" where
  "readBytes n r =
     (if n < 0 \<or> remaining r < n then Inl EOF
      else Inr (slice (srPos r) (srPos r + nat n) (srData r), advance (nat n) r))"

definition skip :: "int \<Rightarrow> unit rd" where
  "skip n r = res_bind (readBytes n r) (\<lambda>(_, r'). Inr ((), r'))"

text \<open>Sequencing of reads: stop at the first error.\<close>

definition rd_bind :: "'a rd \<Rightarrow> ('a \<Rightarrow> 'b rd) \<Rightarrow> 'b rd" where
  "rd_bind m f r = res_bind (m r) (\<lambda>(x, r'). f x r')"

definition rd_return :: "'a \<Rightarrow> 'a rd" where
  "rd_return x r = Inr (x, r)"

section \<open>Readers\<close>

text \<open>
  A reader advances over the same data and never past its end; what it returns depends on
  the unread bytes only.
\<close>

definition in_bounds :: "sliceReader \<Rightarrow> bool" where
  "in_bounds r \<longleftrightarrow> srPos r \<le> length (srData r)"

definition unread :: "sliceReader \<Rightarrow> bytes" where
  "unread r = drop (srPos r) (srData r)"

definition moves :: "'a rd \<Rightarrow> bool" where
  "moves m \<longleftrightarrow> (\<forall>r x r'. in_bounds r \<longrightarrow> m r = Inr (x, r') \<longrightarrow>
     srData r' = srData r \<and> srPos r \<le> srPos r' \<and> in_bounds r')"

lemma movesD:
  assumes "moves m" "in_bounds r" "m r = Inr (x, r')"
  shows "srData r' = srData r" and "srPos r \<le> srPos r'" and "in_bounds r'"
  using assms unfolding moves_def by blast+

lemma moves_return [intro, simp]: "moves (rd_return x)"
  by (simp add: moves_def rd_return_def)

lemma moves_fail [intro, simp]: "moves (\<lambda>r. Inl e)"
  by (simp add: moves_def)

lemma moves_bind [intro]:
  assumes "moves m" "\<And>x. moves (f x)"
  shows "moves (rd_bind m f)"
  unfolding moves_def
proof (intro allI impI)
  fix r y r' assume r: "in_bounds r" and "rd_bind m f r = Inr (y, r')"
  then obtain x r1 where m: "m r = Inr (x, r1)" and f: "f x r1 = Inr (y, r')"
    by (auto simp: rd_bind_def res_simps)
  from movesD [OF assms(1) r m] movesD [OF assms(2) _ f]
  show "srData r' = srData r \<and> srPos r \<le> srPos r' \<and> in_bounds r'" by auto
qed

lemma moves_if [intro]: "moves m \<Longrightarrow> moves m' \<Longrightarrow> moves (\<lambda>r. if P then m r else m' r)"
  by (cases P) simp_all

lemma moves_reads [intro, simp]:
  "moves readU8" "moves readU16" "moves readU32" "moves (readBytes n)" "moves (skip n)"
  by (auto simp: moves_def readU8_def readU16_def readU32_def readBytes_def skip_def advance_def
      in_bounds_def remaining_def res_simps split: if_splits)

text \<open>Reading what was written: each read on the bytes of a value returns it and leaves the rest.\<close>

definition reads :: "'a rd \<Rightarrow> bytes \<Rightarrow> 'a \<Rightarrow> bool" where
  "reads m bs x \<longleftrightarrow> (\<forall>r rest. in_bounds r \<longrightarrow> unread r = bs @ rest \<longrightarrow> m r = Inr (x, advance (length bs) r))"

lemma readsD: "reads m bs x \<Longrightarrow> in_bounds r \<Longrightarrow> unread r = bs @ rest \<Longrightarrow> m r = Inr (x, advance (length bs) r)"
  by (simp add: reads_def)

lemma unread_length: "in_bounds r \<Longrightarrow> unread r = bs @ rest \<Longrightarrow> srPos r + length bs + length rest = length (srData r)"
  by (metis add.assoc in_bounds_def le_add_diff_inverse length_append length_drop unread_def)

lemma in_bounds_advance: "in_bounds r \<Longrightarrow> unread r = bs @ rest \<Longrightarrow> in_bounds (advance (length bs) r)"
  using unread_length [of r bs rest] by (simp add: in_bounds_def advance_def)

lemma unread_advance: "unread r = bs @ rest \<Longrightarrow> unread (advance (length bs) r) = rest"
  by (simp add: unread_def advance_def add.commute flip: drop_drop)

lemma advance_advance [simp]: "advance m (advance n r) = advance (n + m) r"
  by (simp add: advance_def add.assoc)

lemma advance_0 [simp]: "advance 0 r = r"
  by (simp add: advance_def)

lemma reads_return: "reads (rd_return x) [] x"
  by (simp add: reads_def rd_return_def)

lemma reads_bind:
  assumes "reads m bs x" "reads (f x) bs' y"
  shows "reads (rd_bind m f) (bs @ bs') y"
  unfolding reads_def
proof (intro allI impI)
  fix r rest assume r: "in_bounds r" and u: "unread r = (bs @ bs') @ rest"
  then have m: "m r = Inr (x, advance (length bs) r)" using readsD [OF assms(1) r] by simp
  from u have u1: "unread (advance (length bs) r) = bs' @ rest" by (simp add: unread_advance)
  from in_bounds_advance [OF r, of bs "bs' @ rest"] u have "in_bounds (advance (length bs) r)" by simp
  from readsD [OF assms(2) this u1] m show "rd_bind m f r = Inr (y, advance (length (bs @ bs')) r)"
    by (simp add: rd_bind_def)
qed

lemma reads_bind_last:
  assumes "reads m bs x" "reads (f x) [] y"
  shows "reads (rd_bind m f) bs y"
  using reads_bind [of m bs x f "[]" y] assms by simp

lemma reads_readU16: "reads readU16 (bytesU16 v) v"
  unfolding reads_def
proof (intro allI impI)
  fix r rest assume "in_bounds r" and u: "unread r = bytesU16 v @ rest"
  from unread_length [OF this] u show "readU16 r = Inr (v, advance (length (bytesU16 v)) r)"
    by (simp add: readU16_def remaining_def flip: unread_def)
qed

lemma reads_readU32: "reads readU32 (bytesU32 v) v"
  unfolding reads_def
proof (intro allI impI)
  fix r rest assume "in_bounds r" and u: "unread r = bytesU32 v @ rest"
  from unread_length [OF this] u show "readU32 r = Inr (v, advance (length (bytesU32 v)) r)"
    by (simp add: readU32_def remaining_def flip: unread_def)
qed

lemma reads_readU8: "reads readU8 [b] b"
  unfolding reads_def
proof (intro allI impI)
  fix r rest assume r: "in_bounds r" and u: "unread r = [b] @ rest"
  have "srData r ! srPos r = b" using u hd_drop_conv_nth [of "srPos r" "srData r"] unread_length [OF r u]
    by (simp add: unread_def)
  with unread_length [OF r u] show "readU8 r = Inr (b, advance (length [b]) r)"
    by (simp add: readU8_def remaining_def)
qed

lemma reads_readBytes: "n = int (length bs) \<Longrightarrow> reads (readBytes n) bs bs"
  unfolding reads_def
proof (intro allI impI)
  fix r rest assume n: "n = int (length bs)" and r: "in_bounds r" and u: "unread r = bs @ rest"
  have "slice (srPos r) (srPos r + length bs) (srData r) = bs"
    using u by (simp add: slice_def unread_def)
  with n unread_length [OF r u] show "readBytes n r = Inr (bs, advance (length bs) r)"
    by (simp add: readBytes_def remaining_def)
qed

lemma reads_skip: "n = int (length bs) \<Longrightarrow> reads (skip n) bs ()"
  using reads_readBytes [of n bs] by (simp add: reads_def skip_def)

lemmas reads_intros = reads_readU8 reads_readU16 reads_readU32

lemma reads_new: "reads m bs x \<Longrightarrow> m (newSliceReader (bs @ rest)) = Inr (x, advance (length bs) (newSliceReader (bs @ rest)))"
  by (rule readsD) (simp_all add: in_bounds_def newSliceReader_def unread_def)

lemma in_bounds_new [simp]: "in_bounds (newSliceReader data)"
  by (simp add: in_bounds_def newSliceReader_def)

section \<open>Scanning parameters\<close>

text \<open>The bytes of a list of parameters.\<close>

definition params :: "(u16 \<times> bytes) list \<Rightarrow> bytes" where
  "params ps = concat (map (\<lambda>(cp, payload). AppendLLCP [] cp payload) ps)"

definition params_ok :: "(u16 \<times> bytes) list \<Rightarrow> bool" where
  "params_ok ps \<longleftrightarrow> list_all (\<lambda>(cp, payload). length payload + 6 < 2 ^ 32) ps"

lemma params_simps [simp]:
  "params [] = []"
  "params ((cp, payload) # ps) = AppendLLCP [] cp payload @ params ps"
  "params (ps @ qs) = params ps @ params qs"
  by (simp_all add: params_def)

lemma params_ok_simps [simp]:
  "params_ok []"
  "params_ok ((cp, payload) # ps) \<longleftrightarrow> length payload + 6 < 2 ^ 32 \<and> params_ok ps"
  "params_ok (ps @ qs) \<longleftrightarrow> params_ok ps \<and> params_ok qs"
  by (simp_all add: params_ok_def)

lemma AppendLLCP_nonempty [simp]: "AppendLLCP [] cp payload \<noteq> []"
  by (simp add: AppendLLCP_def bytesU32_eq)

text \<open>
  A scanner looks at the parameters in order. \<open>hit\<close> is the answer for a parameter that ends
  the scan (None: skip it), \<open>dflt\<close> the answer at the end, \<open>fail\<close> the answer for data that is not
  a parameter.
\<close>

locale llcp_scanner =
  fixes scan :: "bytes \<Rightarrow> 'a" and hit :: "u16 \<Rightarrow> bytes \<Rightarrow> 'a option" and dflt :: 'a and fail :: "go_error \<Rightarrow> 'a"
  assumes scan_eq: "scan data =
    (if data = [] then dflt
     else case ParseLLCP data of Inl e \<Rightarrow> fail e
       | Inr (cp, payload, rest) \<Rightarrow> (case hit cp payload of Some a \<Rightarrow> a | None \<Rightarrow> scan rest))"
begin

lemma scan_Nil: "scan [] = dflt"
  using scan_eq [of "[]"] by simp

lemma scan_param:
  assumes "length payload + 6 < 2 ^ 32"
  shows "scan (AppendLLCP [] cp payload @ rest) = (case hit cp payload of Some a \<Rightarrow> a | None \<Rightarrow> scan rest)"
  using scan_eq [of "AppendLLCP [] cp payload @ rest"] ParseLLCP_AppendLLCP [OF assms, of cp rest] by simp

lemma scan_skip:
  assumes "params_ok ps" "list_all (\<lambda>(cp, payload). hit cp payload = None) ps"
  shows "scan (params ps @ rest) = scan rest"
  using assms by (induction ps) (auto simp: scan_param)

lemma scan_found:
  assumes "params_ok ps" "list_all (\<lambda>(cp, payload). hit cp payload = None) ps"
    and "length payload + 6 < 2 ^ 32" "hit cp payload = Some a"
  shows "scan (params ps @ AppendLLCP [] cp payload @ rest) = a"
  using scan_skip [OF assms(1,2)] scan_param [OF assms(3)] assms(4) by simp

lemma scan_none:
  assumes "params_ok ps" "list_all (\<lambda>(cp, payload). hit cp payload = None) ps"
  shows "scan (params ps) = dflt"
  using scan_skip [OF assms, of "[]"] by (simp add: scan_Nil)

text \<open>A scan ends: its answer is the default, a failure, or the answer of some parameter in the data.\<close>

lemma scan_result:
  "scan data = dflt \<or> (\<exists>e. scan data = fail e) \<or>
   (\<exists>cp payload a. hit cp payload = Some a \<and> length payload + 6 \<le> length data \<and> scan data = a)"
proof (induction "length data" arbitrary: data rule: less_induct)
  case less
  show ?case
  proof (cases "data = []")
    case True
    then show ?thesis by (simp add: scan_Nil)
  next
    case ne: False
    show ?thesis
    proof (cases "ParseLLCP data")
      case (Inl e)
      with ne scan_eq [of data] show ?thesis by auto
    next
      case (Inr t)
      obtain cp payload rest where t: "t = (cp, payload, rest)" by (cases t) auto
      have sound: "data = AppendLLCP [] cp payload @ rest" and lt: "length rest < length data"
        using ParseLLCP_sound(1) ParseLLCP_shorter(1) Inr t by blast+
      have len: "length payload + 6 \<le> length data" by (subst sound) (simp add: AppendLLCP_def)
      have eq: "scan data = (case hit cp payload of Some a \<Rightarrow> a | None \<Rightarrow> scan rest)"
        using ne Inr t scan_eq [of data] by simp
      show ?thesis
      proof (cases "hit cp payload")
        case None
        then show ?thesis using less [OF lt] eq lt by (fastforce intro: le_trans)
      next
        case (Some a)
        with eq len show ?thesis by auto
      qed
    qed
  qed
qed

end

end
