(* ===== verification/Ccsid.thy ===== *)
theory Ccsid
  imports Unicode
begin

text \<open>
  Text conversion: \<open>src/internal/ccsid/ccsid.go\<close> and \<open>units.go\<close>, \<open>src/encoding.go\<close>, and the
  helpers of \<open>src/sql.go\<close> that call them. The conversion tables are binary files embedded
  in the program; their decompressed contents are the parameter \<open>fs\<close>, an association list
  from CCSID to the bytes (or the error of opening the zlib stream). A table of fixed sz
  indexed by a byte or a \<open>uint16\<close> is a function on that type.
\<close>

section \<open>Definitions\<close>

subsection \<open>Single-byte tables\<close>

record singleByte =
  sbCcsid :: int
  sbSub :: byte
  sbToUnicode :: "byte \<Rightarrow> u16"
  sbFromUni :: "u16 \<Rightarrow> byte"

definition corrupt :: "int \<Rightarrow> string \<Rightarrow> go_error" where
  "corrupt cid what = Errorf (''ccsid %d: corrupt '' @ what) [FInt cid]"

definition parseSingle :: "int \<Rightarrow> bytes \<Rightarrow> singleByte res" where
  "parseSingle cid raw =
     (if length raw \<noteq> 1 + 512 + 65536 then Inl (corrupt cid ''single-byte table'')
      else Inr \<lparr>sbCcsid = cid, sbSub = raw ! 0,
                sbToUnicode = (\<lambda>i. Uint16 (drop (1 + unat i * 2) raw)),
                sbFromUni = (\<lambda>u. raw ! (513 + unat u))\<rparr>)"

definition singleByte_Decode :: "singleByte \<Rightarrow> bytes \<Rightarrow> string res" where
  "singleByte_Decode t data = Inr (string_of_runes (map (\<lambda>b. unat (sbToUnicode t b)) data))"

definition singleByte_EncodeRune :: "singleByte \<Rightarrow> nat \<Rightarrow> bytes" where
  "singleByte_EncodeRune t r =
     (if r > 0xFFFF then (case utf16_EncodeRune r of (hi, lo) \<Rightarrow> [sbFromUni t hi, sbFromUni t lo])
      else [sbFromUni t (word_of_nat r)])"

definition singleByte_Encode :: "singleByte \<Rightarrow> string \<Rightarrow> bytes res" where
  "singleByte_Encode t s = Inr (concat (map (singleByte_EncodeRune t) (runes s)))"

definition singleByte_Space :: "singleByte \<Rightarrow> bytes" where
  "singleByte_Space t = [sbFromUni t 0x20]"

subsection \<open>Double-byte tables\<close>

definition dbSubUnicode :: u16 where "dbSubUnicode = 0xFFFD"
definition dbSubChar :: u16 where "dbSubChar = 0xFEFE"
definition sbSubUnicode :: u16 where "sbSubUnicode = 0x1A"
definition shiftOut :: byte where "shiftOut = 0x0E"
definition shiftIn :: byte where "shiftIn = 0x0F"
definition euro :: u16 where "euro = 0x20AC"

lemmas ccsid_consts = dbSubUnicode_def dbSubChar_def sbSubUnicode_def shiftOut_def shiftIn_def euro_def

record doubleByte =
  dbCcsid :: int
  dbToUnicode :: "u16 \<Rightarrow> u16"
  dbFromUni :: "u16 \<Rightarrow> u16"
  dbToMulti :: "u16 \<Rightarrow> u16 list option"
  dbFromMulti :: "bytes \<Rightarrow> u16 option"
  dbMaxMulti :: nat

definition unitsKey :: "u16 list \<Rightarrow> bytes" where
  "unitsKey units = concat (map bytesU16 units)"

fun units_at :: "nat \<Rightarrow> bytes \<Rightarrow> u16 list" where
  "units_at 0 rest = []"
| "units_at (Suc k) rest = Uint16 rest # units_at k (drop 2 rest)"

fun parseMulti :: "nat \<Rightarrow> bytes \<Rightarrow> doubleByte \<Rightarrow> doubleByte res" where
  "parseMulti 0 rest t = Inr t"
| "parseMulti (Suc n) rest t =
     (if length rest < 3 then Inl (corrupt (dbCcsid t) ''double-byte table'')
      else let cd = Uint16 rest; l = unat (rest ! 2); rest1 = drop 3 rest in
        if length rest1 < l * 2 then Inl (corrupt (dbCcsid t) ''double-byte table'')
        else let seq = units_at l rest1 in
          parseMulti n (drop (l * 2) rest1)
            (t\<lparr>dbToMulti := (dbToMulti t)(cd \<mapsto> seq),
               dbFromMulti := (dbFromMulti t)(unitsKey seq \<mapsto> cd),
               dbMaxMulti := max (dbMaxMulti t) l\<rparr>))"

definition parseDouble :: "int \<Rightarrow> bytes \<Rightarrow> doubleByte res" where
  "parseDouble cid raw =
     (let tableBytes = 65536 * 2 in
      if length raw < 2 * tableBytes + 4 then Inl (corrupt cid ''double-byte table'')
      else let rest = drop (2 * tableBytes) raw in
        parseMulti (unat (Uint32 rest)) (drop 4 rest)
          \<lparr>dbCcsid = cid,
           dbToUnicode = (\<lambda>i. Uint16 (drop (unat i * 2) raw)),
           dbFromUni = (\<lambda>i. Uint16 (drop (tableBytes + unat i * 2) raw)),
           dbToMulti = Map.empty, dbFromMulti = Map.empty, dbMaxMulti = 0\<rparr>)"

definition be_unit :: "byte \<Rightarrow> byte \<Rightarrow> u16" where
  "be_unit a b = Uint16 [a, b]"

definition decodeCode :: "doubleByte \<Rightarrow> u16 \<Rightarrow> u16 list" where
  "decodeCode t cd = (case dbToMulti t cd of Some seq \<Rightarrow> seq | None \<Rightarrow> [dbToUnicode t cd])"

fun doubleUnits :: "doubleByte \<Rightarrow> bytes \<Rightarrow> u16 list" where
  "doubleUnits t (a # b # rest) = decodeCode t (be_unit a b) @ doubleUnits t rest"
| "doubleUnits t _ = []"

definition doubleByte_Decode :: "doubleByte \<Rightarrow> bytes \<Rightarrow> string res" where
  "doubleByte_Decode t data = Inr (string_of_runes (utf16_Decode (doubleUnits t data)))"

fun multiAt :: "doubleByte \<Rightarrow> u16 list \<Rightarrow> nat \<Rightarrow> (u16 \<times> nat) option" where
  "multiAt t src 0 = None"
| "multiAt t src (Suc l) =
     (if Suc l < 2 then None
      else case dbFromMulti t (unitsKey (take (Suc l) src)) of
        Some cd \<Rightarrow> Some (cd, Suc l)
      | None \<Rightarrow> multiAt t src l)"

text \<open>\<open>encodeAt\<close> on the code units from the current position on; \<open>src\<close> is not empty.\<close>

definition encodeAt :: "doubleByte \<Rightarrow> u16 list \<Rightarrow> u16 \<times> nat" where
  "encodeAt t src =
     (case multiAt t src (min (dbMaxMulti t) (length src)) of
        Some r \<Rightarrow> r
      | None \<Rightarrow>
          let u = hd src in
          if IsSurrogate u then
            (if unat u < 0xDC00 \<and> 1 < length src then (dbSubChar, 2) else (dbSubChar, 1))
          else (dbFromUni t u, 1))"

lemma multiAt_pos: "multiAt t src l = Some (cd, n) \<Longrightarrow> 0 < n"
  by (induction t src l rule: multiAt.induct) (auto split: if_splits option.splits)

lemma encodeAt_pos: "0 < snd (encodeAt t src)"
  by (auto simp: encodeAt_def Let_def split: option.splits dest: multiAt_pos)

lemma encodeAt_advance: "(cd, n) = encodeAt t src \<Longrightarrow> 0 < n"
  by (metis encodeAt_pos snd_conv)

function doubleCodes :: "doubleByte \<Rightarrow> u16 list \<Rightarrow> u16 list" where
  "doubleCodes t [] = []"
| "doubleCodes t (u # us) =
     (case encodeAt t (u # us) of (cd, n) \<Rightarrow> cd # doubleCodes t (drop n (u # us)))"
  by pat_completeness auto
termination
  by (relation "measure (\<lambda>(t, us). length us)") (auto dest: encodeAt_advance)

definition doubleByte_Encode :: "doubleByte \<Rightarrow> string \<Rightarrow> bytes res" where
  "doubleByte_Encode t s = Inr (concat (map bytesU16 (doubleCodes t (utf16_Encode (runes s)))))"

definition doubleByte_Space :: "doubleByte \<Rightarrow> bytes" where
  "doubleByte_Space t = bytesU16 (dbFromUni t 0x3000)"

subsection \<open>Mixed tables\<close>

record mixedByte =
  mbCcsid :: int
  mbSb :: singleByte
  mbDb :: doubleByte

text \<open>The flag is the source's \<open>single\<close>: outside a shift-out/shift-in bracket.\<close>

fun mixedUnits :: "mixedByte \<Rightarrow> bool \<Rightarrow> bytes \<Rightarrow> u16 list" where
  "mixedUnits t single [] = []"
| "mixedUnits t True (b # rest) =
     (if b = shiftOut then mixedUnits t False rest
      else sbToUnicode (mbSb t) b # mixedUnits t True rest)"
| "mixedUnits t False [b] = (if b = shiftIn then [] else [dbSubUnicode])"
| "mixedUnits t False (b # c # rest) =
     (if b = shiftIn then mixedUnits t True (c # rest)
      else decodeCode (mbDb t) (be_unit b c) @ mixedUnits t False rest)"

definition mixedByte_Decode :: "mixedByte \<Rightarrow> bytes \<Rightarrow> string res" where
  "mixedByte_Decode t data = Inr (string_of_runes (utf16_Decode (mixedUnits t True data)))"

definition putSingle :: "bool \<Rightarrow> byte \<Rightarrow> bytes" where
  "putSingle single b = (if single then [b] else [shiftIn, b])"

definition putDouble :: "bool \<Rightarrow> u16 \<Rightarrow> bytes" where
  "putDouble single cd = (if single then [shiftOut] else []) @ bytesU16 cd"

definition sb_first :: "mixedByte \<Rightarrow> u16 \<Rightarrow> bool" where
  "sb_first t cur \<longleftrightarrow> cur AND 0xFF00 = 0 \<or> cur = euro \<or> (cur = 0x203E \<and> (mbCcsid t = 935 \<or> mbCcsid t = 1388))"

text \<open>One turn of the encoder's loop: the bytes it appends, the new \<open>single\<close>, the units consumed.\<close>

definition mixedStep :: "mixedByte \<Rightarrow> bool \<Rightarrow> u16 list \<Rightarrow> bytes \<times> bool \<times> nat" where
  "mixedStep t single src =
     (let cur = hd src; sub = sbSub (mbSb t); b = sbFromUni (mbSb t) cur in
      if sb_first t cur then
        (if b \<noteq> sub \<or> cur = sbSubUnicode then (putSingle single b, True, 1)
         else case encodeAt (mbDb t) src of (cd, n) \<Rightarrow>
           if cd = dbSubChar then (putSingle single sub, True, n) else (putDouble single cd, False, n))
      else case encodeAt (mbDb t) src of (cd, n) \<Rightarrow>
        if cd \<noteq> dbSubChar \<or> cur = dbSubUnicode then (putDouble single cd, False, n)
        else if b \<noteq> sub then (putSingle single b, True, n)
        else if single then ([sub], True, n)
        else (bytesU16 dbSubChar, False, n))"

lemma mixedStep_pos: "0 < snd (snd (mixedStep t single src))"
  using encodeAt_pos [of "mbDb t" src] by (auto simp: mixedStep_def Let_def split: prod.splits)

lemma mixedStep_advance: "(out, y) = mixedStep t single src \<Longrightarrow> (single', n) = y \<Longrightarrow> 0 < n"
  by (metis mixedStep_pos snd_conv)

function mixedBytes :: "mixedByte \<Rightarrow> bool \<Rightarrow> u16 list \<Rightarrow> bytes" where
  "mixedBytes t single [] = (if single then [] else [shiftIn])"
| "mixedBytes t single (u # us) =
     (case mixedStep t single (u # us) of (out, single', n) \<Rightarrow> out @ mixedBytes t single' (drop n (u # us)))"
  by pat_completeness auto
termination
  by (relation "measure (\<lambda>(t, single, us). length us)")
     (simp, drule (1) mixedStep_advance, simp)

definition mixedByte_Encode :: "mixedByte \<Rightarrow> string \<Rightarrow> bytes res" where
  "mixedByte_Encode t s = Inr (mixedBytes t True (utf16_Encode (runes s)))"

subsection \<open>Unicode CCSIDs\<close>

record unicodeImpl =
  ucCcsid :: int
  ucKind :: nat

definition unicodeCodec :: "int \<Rightarrow> unicodeImpl option" where
  "unicodeCodec cid =
     (if cid \<in> {1200, 1201, 13488, 17584, 21680} then Some \<lparr>ucCcsid = cid, ucKind = 0\<rparr>
      else if cid = 1202 then Some \<lparr>ucCcsid = cid, ucKind = 1\<rparr>
      else if cid = 1208 then Some \<lparr>ucCcsid = cid, ucKind = 2\<rparr>
      else None)"

definition putUnit :: "unicodeImpl \<Rightarrow> u16 \<Rightarrow> bytes" where
  "putUnit u w = (if ucKind u = 1 then rev (bytesU16 w) else bytesU16 w)"

definition getUnit :: "unicodeImpl \<Rightarrow> byte \<Rightarrow> byte \<Rightarrow> u16" where
  "getUnit u a b = (if ucKind u = 1 then Uint16 [b, a] else Uint16 [a, b])"

fun getUnits :: "unicodeImpl \<Rightarrow> bytes \<Rightarrow> u16 list" where
  "getUnits u (a # b # rest) = getUnit u a b # getUnits u rest"
| "getUnits u _ = []"

definition string_of_bytes :: "bytes \<Rightarrow> string" where
  "string_of_bytes bs = map char_of_byte bs"

definition bytes_of_string :: "string \<Rightarrow> bytes" where
  "bytes_of_string s = map byte_of_char s"

definition unicode_Decode :: "unicodeImpl \<Rightarrow> bytes \<Rightarrow> string res" where
  "unicode_Decode u data =
     (if ucKind u = 2 then
        (let s = string_of_bytes data in Inr (if utf8_Valid s then s else ToValidUTF8 s))
      else if length data mod 2 \<noteq> 0 then
        Inl (Errorf ''ccsid %d: data length must be even: %d'' [FInt (ucCcsid u), FInt (int (length data))])
      else Inr (string_of_runes (utf16_Decode (getUnits u data))))"

definition unicode_Encode :: "unicodeImpl \<Rightarrow> string \<Rightarrow> bytes res" where
  "unicode_Encode u s =
     (if ucKind u = 2 then Inr (bytes_of_string s)
      else Inr (concat (map (putUnit u) (utf16_Encode (runes s)))))"

definition unicode_Space :: "unicodeImpl \<Rightarrow> bytes" where
  "unicode_Space u = (if ucKind u = 2 then [0x20] else putUnit u 0x20)"

subsection \<open>The codec registry\<close>

datatype Codec = CSingle singleByte | CDouble doubleByte | CMixed mixedByte | CUnicode unicodeImpl

fun codec_CCSID :: "Codec \<Rightarrow> int" where
  "codec_CCSID (CSingle t) = sbCcsid t"
| "codec_CCSID (CDouble t) = dbCcsid t"
| "codec_CCSID (CMixed t) = mbCcsid t"
| "codec_CCSID (CUnicode t) = ucCcsid t"

fun codec_Decode :: "Codec \<Rightarrow> bytes \<Rightarrow> string res" where
  "codec_Decode (CSingle t) = singleByte_Decode t"
| "codec_Decode (CDouble t) = doubleByte_Decode t"
| "codec_Decode (CMixed t) = mixedByte_Decode t"
| "codec_Decode (CUnicode t) = unicode_Decode t"

fun codec_Encode :: "Codec \<Rightarrow> string \<Rightarrow> bytes res" where
  "codec_Encode (CSingle t) = singleByte_Encode t"
| "codec_Encode (CDouble t) = doubleByte_Encode t"
| "codec_Encode (CMixed t) = mixedByte_Encode t"
| "codec_Encode (CUnicode t) = unicode_Encode t"

fun codec_Space :: "Codec \<Rightarrow> bytes" where
  "codec_Space (CSingle t) = singleByte_Space t"
| "codec_Space (CDouble t) = doubleByte_Space t"
| "codec_Space (CMixed t) = singleByte_Space (mbSb t)"
| "codec_Space (CUnicode t) = unicode_Space t"

type_synonym tables = "(int \<times> bytes res) list"
type_synonym codec_cache = "int \<Rightarrow> Codec option"

definition loadMixed :: "(codec_cache \<Rightarrow> int \<Rightarrow> Codec res \<times> codec_cache) \<Rightarrow>
    codec_cache \<Rightarrow> int \<Rightarrow> bytes \<Rightarrow> Codec res \<times> codec_cache" where
  "loadMixed lookup cache cid raw =
     (if length raw < 9 then (Inl (corrupt cid ''mixed table''), cache)
      else case lookup cache (uint (Uint32 (slice 1 5 raw))) of
        (Inl e, cache1) \<Rightarrow> (Inl e, cache1)
      | (Inr sb, cache1) \<Rightarrow>
          (case lookup cache1 (uint (Uint32 (slice 5 9 raw))) of
             (Inl e, cache2) \<Rightarrow> (Inl e, cache2)
           | (Inr db, cache2) \<Rightarrow>
               ((case (sb, db) of
                   (CSingle s, CDouble d) \<Rightarrow> Inr (CMixed \<lparr>mbCcsid = cid, mbSb = s, mbDb = d\<rparr>)
                 | _ \<Rightarrow> Inl (Errorf ''ccsid %d: invalid mixed table components'' [FInt cid])), cache2)))"

text \<open>\<open>load\<close>; the recursive \<open>lookupLocked\<close> for the components of a mixed table is its first argument.\<close>

definition load :: "(codec_cache \<Rightarrow> int \<Rightarrow> Codec res \<times> codec_cache) \<Rightarrow> tables \<Rightarrow>
    codec_cache \<Rightarrow> int \<Rightarrow> Codec res \<times> codec_cache" where
  "load lookup fs cache cid =
     (case unicodeCodec cid of
        Some u \<Rightarrow> (Inr (CUnicode u), cache)
      | None \<Rightarrow>
          (case map_of fs cid of
             None \<Rightarrow> (Inl (Wrap ErrUnsupportedCCSID '' %d'' [FInt cid]), cache)
           | Some (Inl e) \<Rightarrow> (Inl (Errorf ''ccsid %d: corrupt table: %w'' [FInt cid, FErr e]), cache)
           | Some (Inr raw) \<Rightarrow>
               if raw = [] then (Inl (Errorf ''ccsid %d: empty table'' [FInt cid]), cache)
               else if hd raw = 0x53 then (map_sum (\<lambda>x. x) CSingle (parseSingle cid (tl raw)), cache)
               else if hd raw = 0x44 then (map_sum (\<lambda>x. x) CDouble (parseDouble cid (tl raw)), cache)
               else if hd raw = 0x4D then loadMixed lookup cache cid raw
               else (Inl (Errorf ''ccsid %d: unknown table kind %q'' [FInt cid, FInt (uint (hd raw))]), cache)))"

text \<open>
  A mixed table that names itself, directly or through another mixed table, would be
  loaded for ever. Every other chain of mixed tables is shorter than the number of tables,
  so that much fuel is exact: it runs out on such a cycle only.
\<close>

fun lookupLocked :: "nat \<Rightarrow> tables \<Rightarrow> codec_cache \<Rightarrow> int \<Rightarrow> Codec res \<times> codec_cache" where
  "lookupLocked 0 fs cache cid = (Inl (Panic ''stack overflow''), cache)"
| "lookupLocked (Suc n) fs cache cid =
     (case cache cid of
        Some c \<Rightarrow> (Inr c, cache)
      | None \<Rightarrow>
          (case load (\<lambda>cache cid. lookupLocked n fs cache cid) fs cache cid of
             (Inl e, cache1) \<Rightarrow> (Inl e, cache1)
           | (Inr c, cache1) \<Rightarrow> (Inr c, cache1(cid \<mapsto> c))))"

definition Lookup :: "tables \<Rightarrow> codec_cache \<Rightarrow> int \<Rightarrow> Codec res \<times> codec_cache" where
  "Lookup fs cache cid = lookupLocked (Suc (Suc (length fs))) fs cache cid"

definition Supported :: "tables \<Rightarrow> int \<Rightarrow> bool" where
  "Supported fs cid \<longleftrightarrow> unicodeCodec cid \<noteq> None \<or> map_of fs cid \<noteq> None"

definition ListCCSIDs :: "tables \<Rightarrow> int list" where
  "ListCCSIDs fs =
     sort ([1200, 1201, 1202, 1208, 13488, 17584, 21680] @ filter (\<lambda>n. n \<le> 0xFFFF) (map fst fs))"

text \<open>
  The package functions. The registry's cache only saves work (see \<open>Lookup_transparent\<close>
  below), so they are stated over an empty one.
\<close>

definition codec_for :: "tables \<Rightarrow> int \<Rightarrow> Codec res" where
  "codec_for fs cid = fst (Lookup fs Map.empty cid)"

definition ccsid_Decode :: "tables \<Rightarrow> bytes \<Rightarrow> int \<Rightarrow> string res" where
  "ccsid_Decode fs data cid = res_bind (codec_for fs cid) (\<lambda>c. codec_Decode c data)"

definition ccsid_Encode :: "tables \<Rightarrow> string \<Rightarrow> int \<Rightarrow> bytes res" where
  "ccsid_Encode fs s cid = res_bind (codec_for fs cid) (\<lambda>c. codec_Encode c s)"

definition DecodeUnits :: "tables \<Rightarrow> bytes \<Rightarrow> int \<Rightarrow> u16 list res" where
  "DecodeUnits fs data cid =
     res_bind (codec_for fs cid) (\<lambda>c.
       case c of CSingle sb \<Rightarrow> Inr (map (sbToUnicode sb) data) | _ \<Rightarrow> Inl ErrNotSingleByte)"

definition EncodeUnits :: "tables \<Rightarrow> u16 list \<Rightarrow> int \<Rightarrow> bytes res" where
  "EncodeUnits fs units cid =
     res_bind (codec_for fs cid) (\<lambda>c.
       case c of CSingle sb \<Rightarrow> Inr (map (sbFromUni sb) units) | _ \<Rightarrow> Inl ErrNotSingleByte)"

subsection \<open>Conversions of the driver\<close>

definition EncodeUTF16BE :: "string \<Rightarrow> bytes" where
  "EncodeUTF16BE s = concat (map bytesU16 (utf16_Encode (runes s)))"

definition DecodeUTF16BE :: "bytes \<Rightarrow> string res" where
  "DecodeUTF16BE data =
     (if length data mod 2 \<noteq> 0
      then Inl (Errorf ''utf16be data length must be even: %d'' [FInt (int (length data))])
      else Inr (string_of_runes (utf16_Decode (units_at (length data div 2) data))))"

definition EncodeEBCDIC37 :: "tables \<Rightarrow> string \<Rightarrow> bytes res" where
  "EncodeEBCDIC37 fs s = ccsid_Encode fs s 37"

definition DecodeEBCDIC37 :: "tables \<Rightarrow> bytes \<Rightarrow> string res" where
  "DecodeEBCDIC37 fs data = ccsid_Decode fs data 37"

definition EncodeEBCDIC37BlankPad :: "tables \<Rightarrow> string \<Rightarrow> nat \<Rightarrow> bytes res" where
  "EncodeEBCDIC37BlankPad fs s sz =
     res_bind (EncodeEBCDIC37 fs s) (\<lambda>encoded. Inr (copy_into (replicate sz 0x40) encoded))"

definition EncodeUTF16BEBlankPad :: "string \<Rightarrow> int \<Rightarrow> bytes" where
  "EncodeUTF16BEBlankPad s sz =
     (if sz \<le> 0 then []
      else copy_into (copy_into (replicate (nat sz) 0) (concat (replicate (nat sz div 2) [0x00, 0x20])))
             (EncodeUTF16BE s))"

definition textCCSID :: "int \<Rightarrow> int" where
  "textCCSID cid = (if cid = 0 \<or> cid = 65535 then 37 else cid)"

definition decodeTextByCCSID :: "tables \<Rightarrow> bytes \<Rightarrow> int \<Rightarrow> string res" where
  "decodeTextByCCSID fs data cid =
     (if data = [] then Inr []
      else case ccsid_Decode fs data (textCCSID cid) of
        Inl e \<Rightarrow> Inl (if errors_Is e ErrUnsupportedCCSID
                    then Wrap ErrUnsupported ''unsupported CCSID %d'' [FInt cid] else e)
      | Inr s \<Rightarrow> Inr s)"

definition encodeTextBytes :: "tables \<Rightarrow> string \<Rightarrow> int \<Rightarrow> bytes res" where
  "encodeTextBytes fs s cid =
     (case ccsid_Encode fs s (textCCSID cid) of
        Inl e \<Rightarrow> Inl (if errors_Is e ErrUnsupportedCCSID
                    then Wrap ErrUnsupported ''unsupported CCSID %d'' [FInt cid] else e)
      | Inr b \<Rightarrow> Inr b)"

text \<open>
  \<open>fitTextBytesToLength\<close>: as many whole blanks as fit, zero bytes after them, then the text
  over both; a text longer than the field is cut.
\<close>

definition fitTextBytesToLength :: "tables \<Rightarrow> bytes \<Rightarrow> nat \<Rightarrow> int \<Rightarrow> bytes" where
  "fitTextBytesToLength fs raw len cid =
     (let space = (case codec_for fs (textCCSID cid) of Inr c \<Rightarrow> codec_Space c | Inl _ \<Rightarrow> [0x40]) in
      copy_into (copy_into (replicate len 0) (concat (replicate (len div length space) space))) raw)"

section \<open>The registry's cache\<close>

text \<open>The codec a CCSID stands for, from the tables alone.\<close>

inductive loads :: "tables \<Rightarrow> int \<Rightarrow> Codec \<Rightarrow> bool" for fs :: tables where
  loads_unicode: "unicodeCodec cid = Some u \<Longrightarrow> loads fs cid (CUnicode u)"
| loads_single: "unicodeCodec cid = None \<Longrightarrow> map_of fs cid = Some (Inr (0x53 # raw)) \<Longrightarrow>
    parseSingle cid raw = Inr s \<Longrightarrow> loads fs cid (CSingle s)"
| loads_double: "unicodeCodec cid = None \<Longrightarrow> map_of fs cid = Some (Inr (0x44 # raw)) \<Longrightarrow>
    parseDouble cid raw = Inr d \<Longrightarrow> loads fs cid (CDouble d)"
| loads_mixed: "unicodeCodec cid = None \<Longrightarrow> map_of fs cid = Some (Inr (0x4D # raw)) \<Longrightarrow> 8 \<le> length raw \<Longrightarrow>
    loads fs (uint (Uint32 (slice 0 4 raw))) (CSingle s) \<Longrightarrow>
    loads fs (uint (Uint32 (slice 4 8 raw))) (CDouble d) \<Longrightarrow>
    loads fs cid (CMixed \<lparr>mbCcsid = cid, mbSb = s, mbDb = d\<rparr>)"

inductive_simps loads_CSingle: "loads fs cid (CSingle s)"
inductive_simps loads_CDouble: "loads fs cid (CDouble d)"
inductive_cases loadsE: "loads fs cid c"

lemma loads_det: "loads fs cid c \<Longrightarrow> loads fs cid c' \<Longrightarrow> c = c'"
proof (induction arbitrary: c' rule: loads.induct)
  case (loads_mixed cid raw s d)
  from loads_mixed.prems loads_mixed.hyps(1,2) show ?case
    by (cases rule: loadsE) (auto dest: loads_mixed.IH)
qed (auto elim: loadsE)

definition coherent :: "tables \<Rightarrow> codec_cache \<Rightarrow> bool" where
  "coherent fs cache \<longleftrightarrow> (\<forall>cid c. cache cid = Some c \<longrightarrow> loads fs cid c)"

lemma coherent_empty [simp]: "coherent fs Map.empty"
  by (simp add: coherent_def)

lemma coherent_upd: "coherent fs cache \<Longrightarrow> loads fs cid c \<Longrightarrow> coherent fs (cache(cid \<mapsto> c))"
  by (simp add: coherent_def)

lemma slice_Cons [simp]: "slice (Suc i) (Suc j) (x # xs) = slice i j xs"
  by (simp add: slice_def)

definition sound_lookup :: "tables \<Rightarrow> (codec_cache \<Rightarrow> int \<Rightarrow> Codec res \<times> codec_cache) \<Rightarrow> bool" where
  "sound_lookup fs lookup \<longleftrightarrow>
     (\<forall>cache cid r cache'. coherent fs cache \<longrightarrow> lookup cache cid = (r, cache') \<longrightarrow>
        coherent fs cache' \<and> (\<forall>c. r = Inr c \<longrightarrow> loads fs cid c))"

lemma sound_lookupD:
  "sound_lookup fs lookup \<Longrightarrow> coherent fs cache \<Longrightarrow> lookup cache cid = (r, cache') \<Longrightarrow>
     coherent fs cache' \<and> (\<forall>c. r = Inr c \<longrightarrow> loads fs cid c)"
  by (auto simp: sound_lookup_def)

lemma loadMixed_sound:
  assumes "sound_lookup fs lookup"
    and "coherent fs cache" "unicodeCodec cid = None" "map_of fs cid = Some (Inr (0x4D # raw))"
    and "loadMixed lookup cache cid (0x4D # raw) = (r, cache')"
  shows "coherent fs cache' \<and> (\<forall>c. r = Inr c \<longrightarrow> loads fs cid c)"
proof (cases "length raw < 8")
  case True
  with assms(2,5) show ?thesis by (auto simp: loadMixed_def)
next
  case False
  obtain r1 c1 where l1: "lookup cache (uint (Uint32 (slice 0 4 raw))) = (r1, c1)" by fastforce
  obtain r2 c2 where l2: "lookup c1 (uint (Uint32 (slice 4 8 raw))) = (r2, c2)" by fastforce
  note s1 = sound_lookupD [OF assms(1,2) l1]
  have s2: "coherent fs c2 \<and> (\<forall>c. r2 = Inr c \<longrightarrow> loads fs (uint (Uint32 (slice 4 8 raw))) c)"
    using sound_lookupD [OF assms(1) _ l2] s1 by simp
  have sl: "slice 1 5 (0x4D # raw) = slice 0 4 raw" "slice 5 9 (0x4D # raw) = slice 4 8 raw"
    by (simp_all add: slice_def)
  from assms(5) False l1 l2 s1 s2 show ?thesis
    unfolding loadMixed_def sl
    by (auto split: sum.splits Codec.splits intro: loads_mixed [OF assms(3,4)])
qed

lemma load_sound:
  assumes "sound_lookup fs lookup"
    and "coherent fs cache" and "load lookup fs cache cid = (r, cache')"
  shows "coherent fs cache' \<and> (\<forall>c. r = Inr c \<longrightarrow> loads fs cid c)"
proof (cases "unicodeCodec cid")
  case (Some u)
  with assms(2,3) show ?thesis by (auto simp: load_def intro: loads_unicode)
next
  case u: None
  show ?thesis
  proof (cases "\<exists>b raw. map_of fs cid = Some (Inr (b # raw))")
    case False
    then have "map_of fs cid \<noteq> Some (Inr raw)" if "raw \<noteq> []" for raw
      using that by (metis neq_Nil_conv)
    with assms(2,3) u show ?thesis by (auto simp: load_def split: option.splits sum.splits if_splits)
  next
    case True
    then obtain b raw where m: "map_of fs cid = Some (Inr (b # raw))" by blast
    consider "b = 0x53" | "b = 0x44" | "b = 0x4D" | "b \<notin> {0x53, 0x44, 0x4D}" by blast
    then show ?thesis
    proof cases
      case 1
      with assms(2,3) u m show ?thesis
        by (cases "parseSingle cid raw") (auto simp: load_def intro: loads_single)
    next
      case 2
      with assms(2,3) u m show ?thesis
        by (cases "parseDouble cid raw") (auto simp: load_def intro: loads_double)
    next
      case 3
      with assms(3) u m have "loadMixed lookup cache cid (0x4D # raw) = (r, cache')" by (simp add: load_def)
      then show ?thesis using loadMixed_sound [OF assms(1,2) u] m 3 by blast
    next
      case 4
      with assms(2,3) u m show ?thesis by (auto simp: load_def)
    qed
  qed
qed

lemma lookupLocked_sound:
  "coherent fs cache \<Longrightarrow> lookupLocked n fs cache cid = (r, cache') \<Longrightarrow>
     coherent fs cache' \<and> (\<forall>c. r = Inr c \<longrightarrow> loads fs cid c)"
proof (induction n arbitrary: cache cid r cache')
  case 0
  then show ?case by auto
next
  case (Suc n)
  show ?case
  proof (cases "cache cid")
    case (Some c)
    with Suc.prems show ?thesis by (auto simp: coherent_def)
  next
    case None
    obtain r1 c1 where l: "load (\<lambda>cache cid. lookupLocked n fs cache cid) fs cache cid = (r1, c1)"
      by fastforce
    have "coherent fs c1 \<and> (\<forall>c. r1 = Inr c \<longrightarrow> loads fs cid c)"
      using load_sound [OF _ Suc.prems(1) l] Suc.IH by (auto simp: sound_lookup_def)
    with Suc.prems None l show ?thesis by (auto split: sum.splits intro: coherent_upd)
  qed
qed

lemma lookupLocked_leaf:
  assumes "coherent fs cache" "loads fs cid c" "\<nexists>t. c = CMixed t"
  shows "\<exists>cache'. lookupLocked (Suc n) fs cache cid = (Inr c, cache')"
proof (cases "cache cid")
  case (Some c')
  with assms have "c' = c" by (auto simp: coherent_def dest: loads_det)
  with Some show ?thesis by simp
next
  case None
  from assms(2) show ?thesis
    by (cases rule: loadsE) (use assms(3) in \<open>auto simp: load_def None\<close>)
qed

lemma lookupLocked_complete:
  assumes "coherent fs cache" "loads fs cid c"
  shows "\<exists>cache'. lookupLocked (Suc (Suc n)) fs cache cid = (Inr c, cache')"
proof (cases "cache cid")
  case (Some c')
  with assms have "c' = c" by (auto simp: coherent_def dest: loads_det)
  with Some show ?thesis by simp
next
  case None
  show ?thesis
  proof (cases "\<exists>t. c = CMixed t")
    case False
    with lookupLocked_leaf [OF assms] show ?thesis by blast
  next
    case True
    with assms(2) obtain raw s d where h: "unicodeCodec cid = None" "map_of fs cid = Some (Inr (0x4D # raw))"
      "8 \<le> length raw" "loads fs (uint (Uint32 (slice 0 4 raw))) (CSingle s)"
      "loads fs (uint (Uint32 (slice 4 8 raw))) (CDouble d)"
      and c: "c = CMixed \<lparr>mbCcsid = cid, mbSb = s, mbDb = d\<rparr>"
      by (auto elim: loadsE)
    have sl: "slice (Suc 0) 5 (0x4D # raw) = slice 0 4 raw" "slice 5 9 (0x4D # raw) = slice 4 8 raw"
      by (simp_all add: slice_def)
    obtain c1 where l1: "lookupLocked (Suc n) fs cache (uint (Uint32 (slice 0 4 raw))) = (Inr (CSingle s), c1)"
      using lookupLocked_leaf [OF assms(1) h(4)] by blast
    then have "coherent fs c1" using lookupLocked_sound [OF assms(1)] by blast
    then obtain c2 where l2: "lookupLocked (Suc n) fs c1 (uint (Uint32 (slice 4 8 raw))) = (Inr (CDouble d), c2)"
      using lookupLocked_leaf [OF _ h(5)] by blast
    have "load (\<lambda>cache cid. lookupLocked (Suc n) fs cache cid) fs cache cid = (Inr c, c2)"
      using h(1-3) by (simp add: load_def loadMixed_def sl l1 l2 c del: lookupLocked.simps)
    then show ?thesis by (subst lookupLocked.simps) (simp add: None del: lookupLocked.simps)
  qed
qed

lemma Lookup_Inr_iff: "coherent fs cache \<Longrightarrow> fst (Lookup fs cache cid) = Inr c \<longleftrightarrow> loads fs cid c"
  unfolding Lookup_def
  using lookupLocked_complete lookupLocked_sound by (metis fst_conv prod.collapse)

lemma codec_for_Inr_iff: "codec_for fs cid = Inr c \<longleftrightarrow> loads fs cid c"
  by (simp add: codec_for_def Lookup_Inr_iff)

section \<open>Round trips\<close>

text \<open>
  What the rest of the driver relies on: a text a codec can represent comes back
  unchanged. Every codec of the package is an instance.
\<close>

locale text_codec =
  fixes enc :: "string \<Rightarrow> bytes res" and dec :: "bytes \<Rightarrow> string res" and ok :: "string \<Rightarrow> bool"
  assumes round_trip: "ok s \<Longrightarrow> \<exists>b. enc s = Inr b \<and> dec b = Inr s"
begin

lemma dec_enc: "ok s \<Longrightarrow> res_bind (enc s) dec = Inr s"
  using round_trip by fastforce

lemma enc_inject: "ok s \<Longrightarrow> ok s' \<Longrightarrow> enc s = enc s' \<Longrightarrow> s = s'"
  using dec_enc by (metis sum.inject(2))

lemma enc_not_error: "ok s \<Longrightarrow> enc s \<noteq> Inl e"
  using round_trip by fastforce

end

subsection \<open>Bytes and code units\<close>

lemma bytesU16_two: obtains h l where "bytesU16 u = [h, l]" "be_unit h l = u"
proof -
  obtain h l where hl: "bytesU16 u = [h, l]" by (simp add: bytesU16_def numeral_2_eq_2)
  then have "be_unit h l = u" using Uint_bytesU(1) [of u] by (simp add: be_unit_def)
  with hl show thesis by (rule that)
qed

lemma string_of_bytes_of_string [simp]: "string_of_bytes (bytes_of_string s) = s"
proof -
  have "char_of_byte (byte_of_char c) = c" for c
    unfolding char_of_byte_def byte_of_char_def
    by (simp add: unat_of_nat take_bit_eq_mod)
  then show ?thesis by (simp add: string_of_bytes_def bytes_of_string_def map_idI)
qed

lemma getUnits_put: "getUnits u (putUnit u w @ rest) = w # getUnits u rest"
proof -
  obtain h l where hl: "bytesU16 w = [h, l]" "be_unit h l = w" by (rule bytesU16_two)
  then show ?thesis by (simp add: putUnit_def getUnit_def be_unit_def)
qed

lemma length_putUnit [simp]: "length (putUnit u w) = 2"
  by (simp add: putUnit_def)

lemma getUnits_puts: "getUnits u (concat (map (putUnit u) ws)) = ws"
  by (induction ws) (simp_all add: getUnits_put)

lemma even_puts: "length (concat (map (putUnit u) ws)) mod 2 = 0"
  by (induction ws) simp_all

lemma utf16_string: "wf_text s \<Longrightarrow> string_of_runes (utf16_Decode (utf16_Encode (runes s))) = s"
  by (simp add: wf_text_def utf16_Decode_Encode)

lemma units_at_key: "units_at (length us) (unitsKey us @ rest) = us"
  by (induction us) (simp_all add: unitsKey_def)

lemma unitsKey_inject: "unitsKey us = unitsKey vs \<Longrightarrow> us = vs"
proof -
  assume e: "unitsKey us = unitsKey vs"
  have "length (unitsKey ws) = 2 * length ws" for ws by (induction ws) (simp_all add: unitsKey_def)
  then have "length us = length vs" using e by (metis mult_cancel1 zero_neq_numeral)
  with e show ?thesis using units_at_key [of us "[]"] units_at_key [of vs "[]"] by simp
qed

subsection \<open>The codecs\<close>

interpretation uni: text_codec "unicode_Encode u" "unicode_Decode u" wf_text for u
proof
  fix s :: string assume wf: "wf_text s"
  show "\<exists>b. unicode_Encode u s = Inr b \<and> unicode_Decode u b = Inr s"
  proof (cases "ucKind u = 2")
    case True
    with utf8_Valid_wf_text [OF wf] show ?thesis by (simp add: unicode_Encode_def unicode_Decode_def)
  next
    case False
    with utf16_string [OF wf] even_puts [of u] show ?thesis
      by (simp add: unicode_Encode_def unicode_Decode_def getUnits_puts)
  qed
qed

text \<open>A single-byte table represents a text when each of its characters survives the table.\<close>

definition sb_rune_ok :: "singleByte \<Rightarrow> nat \<Rightarrow> bool" where
  "sb_rune_ok t r \<longleftrightarrow> r \<le> 0xFFFF \<and> sbToUnicode t (sbFromUni t (word_of_nat r)) = word_of_nat r"

definition sb_ok :: "singleByte \<Rightarrow> string \<Rightarrow> bool" where
  "sb_ok t s \<longleftrightarrow> wf_text s \<and> list_all (sb_rune_ok t) (runes s)"

lemma sb_decode_encode:
  "list_all (sb_rune_ok t) rs \<Longrightarrow>
     map (\<lambda>b. unat (sbToUnicode t b)) (concat (map (singleByte_EncodeRune t) rs)) = rs"
  by (induction rs) (simp_all add: sb_rune_ok_def singleByte_EncodeRune_def unat_word_16)

interpretation sb: text_codec "singleByte_Encode t" "singleByte_Decode t" "sb_ok t" for t
  by unfold_locales (simp add: singleByte_Encode_def singleByte_Decode_def sb_ok_def wf_text_def sb_decode_encode)

function double_ok :: "doubleByte \<Rightarrow> u16 list \<Rightarrow> bool" where
  "double_ok t [] = True"
| "double_ok t (u # us) =
     (case encodeAt t (u # us) of (cd, n) \<Rightarrow>
        n \<le> length (u # us) \<and> decodeCode t cd = take n (u # us) \<and> double_ok t (drop n (u # us)))"
  by pat_completeness auto
termination
  by (relation "measure (\<lambda>(t, us). length us)") (auto dest: encodeAt_advance)

lemma doubleUnits_cons: "doubleUnits t (bytesU16 cd @ rest) = decodeCode t cd @ doubleUnits t rest"
proof -
  obtain h l where "bytesU16 cd = [h, l]" "be_unit h l = cd" by (rule bytesU16_two)
  then show ?thesis by simp
qed

lemma double_decode_encode:
  "double_ok t us \<Longrightarrow> doubleUnits t (concat (map bytesU16 (doubleCodes t us))) = us"
proof (induction t us rule: doubleCodes.induct)
  case (2 t u us)
  obtain cd n where e: "encodeAt t (u # us) = (cd, n)" by fastforce
  with "2.prems" have d: "decodeCode t cd = take n (u # us)" and ok: "double_ok t (drop n (u # us))" by simp_all
  have "doubleCodes t (u # us) = cd # doubleCodes t (drop n (u # us))" by (simp add: e)
  with "2.IH" [OF e [symmetric] ok] d show ?case
    by (simp only: list.map concat.simps doubleUnits_cons append_take_drop_id)
qed simp

interpretation db: text_codec "doubleByte_Encode t" "doubleByte_Decode t"
  "\<lambda>s. wf_text s \<and> double_ok t (utf16_Encode (runes s))" for t
  by unfold_locales (simp add: doubleByte_Encode_def doubleByte_Decode_def double_decode_encode utf16_string)

text \<open>
  A step of the mixed encoder is faithful when what it writes is read back as the units it
  consumed: a byte of the single-byte table that is not the shift-out, or a code of the
  double-byte table whose first byte is not the shift-in.
\<close>

definition mixed_step_ok :: "mixedByte \<Rightarrow> bool \<Rightarrow> u16 list \<Rightarrow> bool" where
  "mixed_step_ok t single src \<longleftrightarrow>
     (case mixedStep t single src of (out, single', n) \<Rightarrow>
        n \<le> length src \<and>
        (if single' then
           out = putSingle single (last out) \<and> last out \<noteq> shiftOut \<and> [sbToUnicode (mbSb t) (last out)] = take n src
         else let cd = Uint16 (drop (length out - 2) out) in
           out = putDouble single cd \<and> hd (bytesU16 cd) \<noteq> shiftIn \<and> decodeCode (mbDb t) cd = take n src))"

function mixed_ok :: "mixedByte \<Rightarrow> bool \<Rightarrow> u16 list \<Rightarrow> bool" where
  "mixed_ok t single [] = True"
| "mixed_ok t single (u # us) =
     (case mixedStep t single (u # us) of (out, single', n) \<Rightarrow>
        mixed_step_ok t single (u # us) \<and> mixed_ok t single' (drop n (u # us)))"
  by pat_completeness auto
termination
  by (relation "measure (\<lambda>(t, single, us). length us)")
     (simp, drule (1) mixedStep_advance, simp)

lemma mixedUnits_putSingle:
  "b \<noteq> shiftOut \<Longrightarrow> mixedUnits t single (putSingle single b @ rest) = sbToUnicode (mbSb t) b # mixedUnits t True rest"
  by (cases single) (simp_all add: putSingle_def)

lemma mixedUnits_putDouble:
  assumes "hd (bytesU16 cd) \<noteq> shiftIn"
  shows "mixedUnits t single (putDouble single cd @ rest) = decodeCode (mbDb t) cd @ mixedUnits t False rest"
proof -
  obtain h l where "bytesU16 cd = [h, l]" "be_unit h l = cd" by (rule bytesU16_two)
  with assms show ?thesis by (cases single) (simp_all add: putDouble_def)
qed

lemma mixedUnits_step:
  assumes "mixedStep t single src = (out, single', n)" "mixed_step_ok t single src"
  shows "mixedUnits t single (out @ rest) = take n src @ mixedUnits t single' rest"
proof (cases single')
  case True
  with assms have "out = putSingle single (last out)" "last out \<noteq> shiftOut"
    "[sbToUnicode (mbSb t) (last out)] = take n src"
    by (simp_all add: mixed_step_ok_def)
  then have "mixedUnits t single (out @ rest) = [sbToUnicode (mbSb t) (last out)] @ mixedUnits t True rest"
    using mixedUnits_putSingle [of "last out" t single rest] by simp
  with True \<open>[_] = take n src\<close> show ?thesis by simp
next
  case False
  let ?cd = "Uint16 (drop (length out - 2) out)"
  from False assms have "out = putDouble single ?cd" "hd (bytesU16 ?cd) \<noteq> shiftIn"
    "decodeCode (mbDb t) ?cd = take n src"
    by (simp_all add: mixed_step_ok_def Let_def)
  then have "mixedUnits t single (out @ rest) = decodeCode (mbDb t) ?cd @ mixedUnits t False rest"
    using mixedUnits_putDouble [of ?cd t single rest] by simp
  with False \<open>_ = take n src\<close> show ?thesis by simp
qed

lemma mixed_decode_encode:
  "mixed_ok t single us \<Longrightarrow> mixedUnits t single (mixedBytes t single us) = us"
proof (induction t single us rule: mixedBytes.induct)
  case (1 t single)
  then show ?case by simp
next
  case (2 t single u us)
  obtain out single' n where e: "mixedStep t single (u # us) = (out, single', n)" by (metis prod_cases3)
  with "2.prems" have ok: "mixed_step_ok t single (u # us)" "mixed_ok t single' (drop n (u # us))" by simp_all
  have "mixedBytes t single (u # us) = out @ mixedBytes t single' (drop n (u # us))" by (simp add: e)
  with "2.IH" [OF e [symmetric] refl ok(2)] mixedUnits_step [OF e ok(1)] show ?case
    by (simp only: append_take_drop_id)
qed

interpretation mb: text_codec "mixedByte_Encode t" "mixedByte_Decode t"
  "\<lambda>s. wf_text s \<and> mixed_ok t True (utf16_Encode (runes s))" for t
  by unfold_locales (simp add: mixedByte_Encode_def mixedByte_Decode_def mixed_decode_encode utf16_string)

fun codec_ok :: "Codec \<Rightarrow> string \<Rightarrow> bool" where
  "codec_ok (CSingle t) s = sb_ok t s"
| "codec_ok (CDouble t) s = (wf_text s \<and> double_ok t (utf16_Encode (runes s)))"
| "codec_ok (CMixed t) s = (wf_text s \<and> mixed_ok t True (utf16_Encode (runes s)))"
| "codec_ok (CUnicode t) s = wf_text s"

interpretation cdc: text_codec "codec_Encode c" "codec_Decode c" "codec_ok c" for c
  by unfold_locales
     (cases c; simp add: sb.round_trip db.round_trip mb.round_trip uni.round_trip)

definition text_ok :: "tables \<Rightarrow> int \<Rightarrow> string \<Rightarrow> bool" where
  "text_ok fs cid s = (case codec_for fs (textCCSID cid) of Inr c \<Rightarrow> codec_ok c s | Inl _ \<Rightarrow> False)"

lemma codec_Decode_Nil: "codec_Decode c [] = Inr []"
proof (cases c)
  case (CUnicode u)
  then show ?thesis by (simp add: unicode_Decode_def string_of_bytes_def string_of_runes_def)
qed (simp_all add: singleByte_Decode_def doubleByte_Decode_def mixedByte_Decode_def string_of_runes_def)

interpretation ctext: text_codec "\<lambda>s. encodeTextBytes fs s cid" "\<lambda>b. decodeTextByCCSID fs b cid" "text_ok fs cid"
  for fs cid
proof
  fix s assume "text_ok fs cid s"
  then obtain c where c: "codec_for fs (textCCSID cid) = Inr c" and ok: "codec_ok c s"
    by (auto simp: text_ok_def split: sum.splits)
  from cdc.round_trip [OF ok] obtain b where "codec_Encode c s = Inr b" "codec_Decode c b = Inr s" by blast
  with c show "\<exists>b. encodeTextBytes fs s cid = Inr b \<and> decodeTextByCCSID fs b cid = Inr s"
    by (auto simp: encodeTextBytes_def decodeTextByCCSID_def ccsid_Encode_def ccsid_Decode_def codec_Decode_Nil)
qed

section \<open>Properties\<close>

lemma codec_for_unicode: "unicodeCodec cid = Some u \<Longrightarrow> codec_for fs cid = Inr (CUnicode u)"
  by (simp add: codec_for_Inr_iff loads_unicode)



text \<open>
  Mixed single/double-byte text: when every step of the encoder writes something the
  tables read back, the shift-out and shift-in brackets it inserts are the ones the
  decoder expects, and the whole text comes back.
\<close>

theorem mixed_text_round_trip:
  assumes "wf_text s" and "mixed_ok t True (utf16_Encode (runes s))"
  shows "res_bind (mixedByte_Encode t s) (mixedByte_Decode t) = Inr s"
  using assms by (intro mb.dec_enc) simp

definition example_mixed :: mixedByte where
  "example_mixed = \<lparr>mbCcsid = 930,
     mbSb = \<lparr>sbCcsid = 290, sbSub = 0x3F,
       sbToUnicode = (\<lambda>b. if b = 0xC1 then 0x41 else 0xFFFD),
       sbFromUni = (\<lambda>u. if u = 0x41 then 0xC1 else 0x3F)\<rparr>,
     mbDb = \<lparr>dbCcsid = 300,
       dbToUnicode = (\<lambda>c. if c = 0x4562 then 0x65E5 else 0xFFFD),
       dbFromUni = (\<lambda>u. if u = 0x65E5 then 0x4562 else 0xFEFE),
       dbToMulti = Map.empty, dbFromMulti = Map.empty, dbMaxMulti = 0\<rparr>\<rparr>"

lemmas mixed_eval = example_mixed_def mixed_step_ok_def mixedStep_def sb_first_def encodeAt_def Let_def
  ccsid_consts putSingle_def putDouble_def decodeCode_def IsSurrogate_def bytesU16_eq Uint16_eq

theorem mixed_text_round_trip_witness:
  "mixedByte_Encode example_mixed [CHR 0x41, CHR 0xE6, CHR 0x97, CHR 0xA5, CHR 0x41] =
     Inr [0xC1, 0x0E, 0x45, 0x62, 0x0F, 0xC1] \<and>
   res_bind (mixedByte_Encode example_mixed [CHR 0x41, CHR 0xE6, CHR 0x97, CHR 0xA5, CHR 0x41])
     (mixedByte_Decode example_mixed) = Inr [CHR 0x41, CHR 0xE6, CHR 0x97, CHR 0xA5, CHR 0x41]"
proof -
  let ?s = "[CHR 0x41, CHR 0xE6, CHR 0x97, CHR 0xA5, CHR 0x41]"
  have u: "utf16_Encode (runes ?s) = [0x41, 0x65E5, 0x41]"
    by (simp add: utf8_eval utf16_Encode_def utf16_units_def)
  have "mixedBytes example_mixed True [0x41, 0x65E5, 0x41] = [0xC1, 0x0E, 0x45, 0x62, 0x0F, 0xC1]"
    by (simp add: mixed_eval)
  then have "mixedByte_Encode example_mixed ?s = Inr [0xC1, 0x0E, 0x45, 0x62, 0x0F, 0xC1]"
    by (simp only: mixedByte_Encode_def u)
  moreover have "mixed_ok example_mixed True (utf16_Encode (runes ?s))"
    unfolding u by (simp add: mixed_eval)
  moreover have "wf_text ?s" by (simp add: utf8_eval)
  ultimately show ?thesis using mixed_text_round_trip by blast
qed

text \<open>
  C28. The registry's cache only saves work: from any cache earlier lookups can have left,
  a lookup finds the same codec as one that starts from nothing, and it leaves such a
  cache behind, also when it fails half-way through a mixed table.
\<close>

theorem Lookup_transparent:
  assumes "coherent fs cache"
  shows "(\<forall>c. fst (Lookup fs cache cid) = Inr c \<longleftrightarrow> codec_for fs cid = Inr c) \<and>
    coherent fs (snd (Lookup fs cache cid))"
proof -
  have "coherent fs (snd (Lookup fs cache cid))"
    using lookupLocked_sound [OF assms] unfolding Lookup_def by (metis prod.collapse)
  with assms show ?thesis by (simp add: Lookup_Inr_iff codec_for_Inr_iff)
qed

theorem Lookup_transparent_witness:
  "coherent [] [1208 \<mapsto> CUnicode \<lparr>ucCcsid = 1208, ucKind = 2\<rparr>] \<and>
   (\<forall>c. fst (Lookup [] [1208 \<mapsto> CUnicode \<lparr>ucCcsid = 1208, ucKind = 2\<rparr>] 1200) = Inr c \<longleftrightarrow>
        codec_for [] 1200 = Inr c)"
proof -
  have "coherent [] [1208 \<mapsto> CUnicode \<lparr>ucCcsid = 1208, ucKind = 2\<rparr>]"
    by (simp add: coherent_def loads_unicode unicodeCodec_def)
  with Lookup_transparent [OF this, of 1200] show ?thesis by blast
qed

lemma codec_for_unknown:
  assumes "unicodeCodec cid = None" "map_of fs cid = None"
  shows "codec_for fs cid = Inl (Wrap ErrUnsupportedCCSID '' %d'' [FInt cid])"
  using assms by (simp add: codec_for_def Lookup_def load_def)

text \<open>
  A CCSID with neither an algorithmic conversion nor a table is reported as the
  driver's \<open>ErrUnsupported\<close> naming the CCSID of the column, on both directions.
\<close>

theorem unsupported_ccsid:
  assumes "\<not> Supported fs (textCCSID cid)" and "data \<noteq> []"
  shows "decodeTextByCCSID fs data cid = Inl (Wrap ErrUnsupported ''unsupported CCSID %d'' [FInt cid]) \<and>
    encodeTextBytes fs s cid = Inl (Wrap ErrUnsupported ''unsupported CCSID %d'' [FInt cid])"
  using assms codec_for_unknown [of "textCCSID cid" fs]
  by (simp add: Supported_def decodeTextByCCSID_def encodeTextBytes_def ccsid_Decode_def ccsid_Encode_def)

theorem unsupported_ccsid_witness:
  "decodeTextByCCSID [] [0xC1] 65535 = Inl (Wrap ErrUnsupported ''unsupported CCSID %d'' [FInt 65535])"
proof -
  have "\<not> Supported [] (textCCSID 65535)" by code_simp
  then show ?thesis using unsupported_ccsid [of "[]" 65535 "[0xC1]"] by simp
qed

lemma length_fitTextBytesToLength [simp]: "length (fitTextBytesToLength fs raw len cid) = len"
  by (simp add: fitTextBytesToLength_def Let_def)

lemma take_fitTextBytesToLength:
  "length raw \<le> len \<Longrightarrow> take (length raw) (fitTextBytesToLength fs raw len cid) = raw"
  by (simp add: fitTextBytesToLength_def Let_def take_copy_into)

end
