(* ===== verification/Handles.thy ===== *)
theory Handles
  imports Values
begin

text \<open>
  Statement ids, descriptor handles and cursor names of a connection (\<open>src/sql.go\<close>,
  \<open>nextStatementName\<close> to \<open>releaseOpenCursorName\<close>). The record holds the fields of \<open>Conn\<close> that
  \<open>nameMu\<close> guards; every operation runs under that lock, so it is one state change.

  An id that is handed out must not be handed out again before it is released: the locale
  \<open>id_allocator\<close> states that contract once, and the statement ids and the default cursor
  names are instances of it.
\<close>

section \<open>Definitions\<close>

record nameState =
  nsUsed :: "u16 set"
  nsDescriptorSeq :: u32
  nsCursorSeq :: u32
  nsBusy :: "u16 set"

definition maxStatements :: nat where "maxStatements = 9999"

definition errMaxStatementsExceeded :: go_error where
  "errMaxStatementsExceeded = Errorf ''as400: maximum number of open statements exceeded'' []"

definition statementName :: "u16 \<Rightarrow> string" where
  "statementName h = ''STMT'' @ hex8 (unat h)"

definition nextStatementName :: "nameState \<Rightarrow> (string \<times> u16) res \<times> nameState" where
  "nextStatementName s =
     (case find (\<lambda>i. word_of_nat i \<notin> nsUsed s) [1..<maxStatements] of
        Some i \<Rightarrow> (Inr (statementName (word_of_nat i), word_of_nat i), s\<lparr>nsUsed := insert (word_of_nat i) (nsUsed s)\<rparr>)
      | None \<Rightarrow> (Inl errMaxStatementsExceeded, s))"

definition releaseStatementHandle :: "u16 \<Rightarrow> nameState \<Rightarrow> nameState" where
  "releaseStatementHandle h s = (if h = 0 then s else s\<lparr>nsUsed := nsUsed s - {h}\<rparr>)"

definition nextDescriptorHandle :: "nameState \<Rightarrow> u16 \<times> nameState" where
  "nextDescriptorHandle s =
     (let seq1 = nsDescriptorSeq s + 1;
          seq2 = (if (ucast seq1 :: u16) = 0 then seq1 + 1 else seq1) in
      (ucast seq2, s\<lparr>nsDescriptorSeq := seq2\<rparr>))"

definition cursorNameForStatement :: "u16 \<Rightarrow> string" where
  "cursorNameForStatement h = ''CRSR'' @ hex8 (unat h)"

definition openCursorName :: "u16 \<Rightarrow> nameState \<Rightarrow> (string \<times> bool) \<times> nameState" where
  "openCursorName h s =
     (if h \<notin> nsBusy s then ((cursorNameForStatement h, True), s\<lparr>nsBusy := insert h (nsBusy s)\<rparr>)
      else let seq1 = nsCursorSeq s + 1; seq2 = (if seq1 = 0 then 1 else seq1) in
        ((''XCRSR'' @ hex8 (unat seq2), False), s\<lparr>nsCursorSeq := seq2\<rparr>))"

definition releaseDefaultCursor :: "u16 \<Rightarrow> nameState \<Rightarrow> nameState" where
  "releaseDefaultCursor h s = s\<lparr>nsBusy := nsBusy s - {h}\<rparr>"

definition releaseOpenCursorName :: "u16 \<Rightarrow> bool \<Rightarrow> nameState \<Rightarrow> nameState" where
  "releaseOpenCursorName h defaultCursor s = (if defaultCursor then releaseDefaultCursor h s else s)"

section \<open>Allocators\<close>

locale id_allocator =
  fixes alloc :: "'s \<Rightarrow> ('i \<times> 's) option" and free :: "'i \<Rightarrow> 's \<Rightarrow> 's" and live :: "'s \<Rightarrow> 'i set"
    and ids :: "'i set"
  assumes alloc_fresh: "alloc s = Some (i, s') \<Longrightarrow> i \<in> ids - live s \<and> live s' = insert i (live s)"
    and alloc_total: "alloc s = None \<longleftrightarrow> ids \<subseteq> live s"
    and free_live: "i \<in> ids \<Longrightarrow> live (free i s) = live s - {i}"
begin

text \<open>A client's history: it allocates, and frees ids it holds.\<close>

inductive run :: "'s \<Rightarrow> 'i set \<Rightarrow> 's \<Rightarrow> 'i set \<Rightarrow> bool" where
  run_refl: "run s h s h"
| run_alloc: "run s h s' h' \<Longrightarrow> alloc s' = Some (i, s'') \<Longrightarrow> run s h s'' (insert i h')"
| run_free: "run s h s' h' \<Longrightarrow> i \<in> h' \<Longrightarrow> run s h (free i s') (h' - {i})"

lemma run_live: "run s h s' h' \<Longrightarrow> h = live s \<Longrightarrow> h \<subseteq> ids \<Longrightarrow> h' = live s' \<and> h' \<subseteq> ids"
proof (induction rule: run.induct)
  case (run_alloc s h s' h' i s'')
  with alloc_fresh [OF run_alloc.hyps(2)] show ?case by blast
next
  case (run_free s h s' h' i)
  then show ?case using free_live by (metis Diff_subset subset_iff)
qed simp

text \<open>What is handed out is never something the client still holds, and a freed id is available again.\<close>

lemma run_fresh:
  assumes "run s (live s) s' h" "live s \<subseteq> ids" "alloc s' = Some (i, s'')"
  shows "i \<notin> h \<and> i \<in> ids"
  using run_live [OF assms(1) refl assms(2)] alloc_fresh [OF assms(3)] by blast

lemma free_available:
  assumes "i \<in> ids"
  shows "\<exists>j s'. alloc (free i s) = Some (j, s')"
proof -
  have "\<not> ids \<subseteq> live (free i s)" using free_live [OF assms] assms by blast
  then show ?thesis using alloc_total by (metis option.exhaust surj_pair)
qed

end

definition statementIds :: "u16 set" where
  "statementIds = word_of_nat ` {1..<maxStatements}"

definition allocStatement :: "nameState \<Rightarrow> (u16 \<times> nameState) option" where
  "allocStatement s = (case nextStatementName s of (Inr (n, h), s') \<Rightarrow> Some (h, s') | (Inl _, s') \<Rightarrow> None)"

lemma statementIds_nonzero: "0 \<notin> statementIds"
proof
  assume "0 \<in> statementIds"
  then obtain n where "n \<in> {1..<maxStatements}" "(0 :: u16) = word_of_nat n" by (auto simp: statementIds_def)
  then have "unat (word_of_nat n :: u16) = 0" "n < 2 ^ 16" "n \<noteq> 0" by (auto simp: maxStatements_def)
  then show False using unat_word_of_nat_16 by simp
qed

interpretation stmt_ids: id_allocator allocStatement releaseStatementHandle nsUsed statementIds
proof
  fix s i s'
  assume "allocStatement s = Some (i, s')"
  then obtain n where "find (\<lambda>i. word_of_nat i \<notin> nsUsed s) [1..<maxStatements] = Some n"
    and i: "i = word_of_nat n" "s' = s\<lparr>nsUsed := insert i (nsUsed s)\<rparr>"
    by (auto simp: allocStatement_def nextStatementName_def split: option.splits)
  then have "n \<in> {1..<maxStatements}" "word_of_nat n \<notin> nsUsed s" by (auto dest: find_Some_P)
  with i show "i \<in> statementIds - nsUsed s \<and> nsUsed s' = insert i (nsUsed s)" by (auto simp: statementIds_def)
next
  fix s
  have "allocStatement s = None \<longleftrightarrow> find (\<lambda>i. word_of_nat i \<notin> nsUsed s) [1..<maxStatements] = None"
    by (auto simp: allocStatement_def nextStatementName_def split: option.splits)
  also have "\<dots> \<longleftrightarrow> statementIds \<subseteq> nsUsed s"
    unfolding find_None_iff by (auto simp: statementIds_def)
  finally show "allocStatement s = None \<longleftrightarrow> statementIds \<subseteq> nsUsed s" .
next
  fix i s assume "i \<in> statementIds"
  with statementIds_nonzero show "nsUsed (releaseStatementHandle i s) = nsUsed s - {i}"
    by (auto simp: releaseStatementHandle_def)
qed

section \<open>Names\<close>

lemma statementIds_bounds: "h \<in> statementIds \<longleftrightarrow> 1 \<le> unat h \<and> unat h < maxStatements"
proof
  assume "h \<in> statementIds"
  then obtain n where "n \<in> {1..<maxStatements}" "h = word_of_nat n" by (auto simp: statementIds_def)
  then show "1 \<le> unat h \<and> unat h < maxStatements"
    using unat_word_of_nat_16 [of n] by (simp add: maxStatements_def)
next
  assume "1 \<le> unat h \<and> unat h < maxStatements"
  moreover have "h = word_of_nat (unat h)" by simp
  ultimately show "h \<in> statementIds" unfolding statementIds_def by (intro image_eqI [of _ _ "unat h"]) auto
qed

lemma unat_u16_less: "unat (h :: u16) < 2 ^ 32"
  using unat_less_pow [of h] by simp

lemma statementName_inject: "statementName h = statementName g \<Longrightarrow> h = g"
  using hex8_inject [OF unat_u16_less [of h] unat_u16_less [of g]]
  by (simp add: statementName_def word_unat_eq_iff)

lemma cursorName_inject: "cursorNameForStatement h = cursorNameForStatement g \<Longrightarrow> h = g"
  using hex8_inject [OF unat_u16_less [of h] unat_u16_less [of g]]
  by (simp add: cursorNameForStatement_def word_unat_eq_iff)

lemma nextStatementName_alloc:
  "nextStatementName s = (Inr (n, i), s') \<Longrightarrow> allocStatement s = Some (i, s') \<and> n = statementName i"
  by (auto simp: allocStatement_def nextStatementName_def split: option.splits)

subsection \<open>Descriptor handles\<close>

definition lowSeq :: "nameState \<Rightarrow> nat" where
  "lowSeq s = unat (nsDescriptorSeq s) mod 65536"

lemma unat_ucast_16: "unat (ucast (x :: u32) :: u16) = unat x mod 65536"
  by (simp add: unsigned_ucast_eq take_bit_eq_mod)

lemma unat_Suc_32: "unat (x + 1 :: u32) mod 65536 = (unat x + 1) mod 65536"
proof -
  have "unat (x + 1) = (unat x + 1) mod 2 ^ 32" by (simp add: unat_word_ariths)
  moreover have "(unat x + 1) mod 2 ^ 32 mod 65536 = (unat x + 1) mod 65536"
    by (rule mod_mod_cancel) simp
  ultimately show ?thesis by simp
qed

lemma nextDescriptorHandle_low:
  assumes "nextDescriptorHandle s = (h, s')"
  shows "unat h = lowSeq s mod 65535 + 1" and "lowSeq s' = unat h"
proof -
  let ?b = "lowSeq s"
  have b: "?b < 65536" by (simp add: lowSeq_def)
  have u1: "unat (ucast (nsDescriptorSeq s + 1) :: u16) = (?b + 1) mod 65536"
    unfolding unat_ucast_16 unat_Suc_32 lowSeq_def by (simp add: mod_Suc_eq)
  have u2: "unat (nsDescriptorSeq s + 1 + 1) mod 65536 = (?b + 2) mod 65536"
  proof -
    let ?x = "nsDescriptorSeq s"
    have "unat (?x + 1 + 1) mod 65536 = (unat (?x + 1) mod 65536 + 1) mod 65536"
      by (simp only: unat_Suc_32 [of "?x + 1"] mod_add_left_eq)
    also have "\<dots> = (unat ?x + 2) mod 65536"
      by (simp only: unat_Suc_32 mod_add_left_eq add.assoc one_add_one)
    also have "\<dots> = (?b + 2) mod 65536" by (simp only: lowSeq_def mod_add_left_eq)
    finally show ?thesis .
  qed
  have z: "(ucast (nsDescriptorSeq s + 1) :: u16) = 0 \<longleftrightarrow> ?b = 65535"
    using u1 b by (auto simp: unat_eq_0 [symmetric] mod_Suc)
  have low: "unat h = unat (nsDescriptorSeq s') mod 65536"
    using assms by (auto simp: nextDescriptorHandle_def Let_def unat_ucast_16)
  show "lowSeq s' = unat h" using low by (simp add: lowSeq_def)
  show "unat h = ?b mod 65535 + 1"
  proof (cases "?b = 65535")
    case True
    with assms z have "nsDescriptorSeq s' = nsDescriptorSeq s + 1 + 1"
      by (auto simp: nextDescriptorHandle_def Let_def)
    with low u2 True show ?thesis by simp
  next
    case False
    with assms z have "h = ucast (nsDescriptorSeq s + 1)"
      by (auto simp: nextDescriptorHandle_def Let_def)
    with u1 False b show ?thesis by simp
  qed
qed

fun descriptorHandles :: "nat \<Rightarrow> nameState \<Rightarrow> u16 list" where
  "descriptorHandles 0 s = []"
| "descriptorHandles (Suc k) s = (case nextDescriptorHandle s of (h, s') \<Rightarrow> h # descriptorHandles k s')"

lemma descriptorHandles_eq:
  "map unat (descriptorHandles k s) = map (\<lambda>i. (lowSeq s + i) mod 65535 + 1) [0..<k]"
proof (induction k arbitrary: s)
  case (Suc k)
  obtain h s' where e: "nextDescriptorHandle s = (h, s')" by fastforce
  note low = nextDescriptorHandle_low [OF e]
  have shift: "(lowSeq s' + i) mod 65535 + 1 = (lowSeq s + Suc i) mod 65535 + 1" for i
    unfolding low(2) low(1) by (simp only: add.assoc mod_add_left_eq plus_1_eq_Suc)
  have "map unat (descriptorHandles (Suc k) s) = unat h # map (\<lambda>i. (lowSeq s' + i) mod 65535 + 1) [0..<k]"
    using e Suc.IH [of s'] by simp
  also have "\<dots> = map (\<lambda>i. (lowSeq s + i) mod 65535 + 1) (0 # map Suc [0..<k])"
    unfolding low(1) list.map map_map comp_def shift add_0_right ..
  finally show ?case by (simp only: upt_conv_Cons map_Suc_upt zero_less_Suc)
qed simp

lemma shifted_mod_inj:
  assumes "(i::nat) < n" "j < n" "(b + i) mod n = (b + j) mod n"
  shows "i = j"
proof -
  let ?r = "b mod n"
  have r: "?r < n" using assms(1) by simp
  have m: "(b + k) mod n = (if ?r + k < n then ?r + k else ?r + k - n)" if "k < n" for k
  proof -
    have "(b + k) mod n = (?r + k) mod n" by (simp only: mod_add_left_eq)
    moreover have "(?r + k) mod n = ?r + k - n" if "\<not> ?r + k < n"
    proof -
      have "?r + k - n < n" using r \<open>k < n\<close> by linarith
      then show ?thesis using that le_mod_geq [of n "?r + k"] by simp
    qed
    ultimately show ?thesis by simp
  qed
  from assms m [OF assms(1)] m [OF assms(2)] r show ?thesis by (auto split: if_splits)
qed

section \<open>Properties\<close>

text \<open>
  C40. Statement ids: over any history of opening and closing statements, an id handed out
  lies in 1..9998, is the id of no statement still open, and its name is the name of no
  open statement; the connection refuses a statement only when all the ids are in use, and
  closing any statement makes the next request succeed.
\<close>

theorem statement_ids_unique:
  assumes "nsUsed s = {}" and "stmt_ids.run s {} s' open"
  shows "(\<forall>n i s''. nextStatementName s' = (Inr (n, i), s'') \<longrightarrow>
      1 \<le> unat i \<and> unat i < maxStatements \<and> i \<notin> open \<and> (\<forall>j \<in> open. statementName j \<noteq> n)) \<and>
    ((\<exists>e s''. nextStatementName s' = (Inl e, s'')) \<longleftrightarrow> statementIds \<subseteq> open) \<and>
    (\<forall>j \<in> open. \<exists>n i s''. nextStatementName (releaseStatementHandle j s') = (Inr (n, i), s''))"
proof -
  have live: "open = nsUsed s'" "open \<subseteq> statementIds"
    using stmt_ids.run_live [OF assms(2)] assms(1) by auto
  have a: "1 \<le> unat i \<and> unat i < maxStatements \<and> i \<notin> open \<and> (\<forall>j \<in> open. statementName j \<noteq> n)"
    if "nextStatementName s' = (Inr (n, i), s'')" for n i s''
    using nextStatementName_alloc [OF that] stmt_ids.alloc_fresh live statementName_inject statementIds_bounds by blast
  have fails: "(\<exists>e s''. nextStatementName t = (Inl e, s'')) \<longleftrightarrow> allocStatement t = None" for t
    by (auto simp: allocStatement_def split: prod.splits sum.splits)
  have b: "(\<exists>e s''. nextStatementName s' = (Inl e, s'')) \<longleftrightarrow> statementIds \<subseteq> open"
    unfolding fails stmt_ids.alloc_total live(1) ..
  have c: "\<exists>n i s''. nextStatementName (releaseStatementHandle j s') = (Inr (n, i), s'')" if "j \<in> open" for j
    using stmt_ids.free_available [of j s'] that live(2)
    by (auto simp: allocStatement_def split: prod.splits sum.splits)
  from a b c show ?thesis by blast
qed

theorem statement_ids_unique_witness:
  "\<exists>n i s''. nextStatementName (releaseStatementHandle 1 \<lparr>nsUsed = {1}, nsDescriptorSeq = 0, nsCursorSeq = 0, nsBusy = {}\<rparr>) =
     (Inr (n, i), s'')"
proof -
  let ?s = "\<lparr>nsUsed = {}, nsDescriptorSeq = 0, nsCursorSeq = 0, nsBusy = {}\<rparr> :: nameState"
  let ?t = "\<lparr>nsUsed = {1}, nsDescriptorSeq = 0, nsCursorSeq = 0, nsBusy = {}\<rparr> :: nameState"
  have "1 < maxStatements" by (simp add: maxStatements_def)
  from upt_conv_Cons [OF this] have "allocStatement ?s = Some (1, ?t)"
    by (simp add: allocStatement_def nextStatementName_def)
  then have "stmt_ids.run ?s {} ?t {1}"
    using stmt_ids.run_alloc [OF stmt_ids.run_refl] by fastforce
  with statement_ids_unique [of ?s ?t "{1}"] show ?thesis by simp
qed

text \<open>
  Descriptor handles: successive handles run through 1..65535 in a cycle, wrapping past
  65535 to 1 and never giving 0, so any 65535 successive handles are different from each
  other.
\<close>

theorem descriptor_handles_cycle:
  "map unat (descriptorHandles k s) =
     map (\<lambda>i. (unat (nsDescriptorSeq s) mod 65536 + i) mod 65535 + 1) [0..<k] \<and>
   (k \<le> 65535 \<longrightarrow> distinct (descriptorHandles k s))"
proof
  show eq: "map unat (descriptorHandles k s) =
     map (\<lambda>i. (unat (nsDescriptorSeq s) mod 65536 + i) mod 65535 + 1) [0..<k]"
    using descriptorHandles_eq [of k s] by (simp add: lowSeq_def)
  have "inj_on (\<lambda>i. (b + i) mod 65535 + 1) {0..<k}" if k: "k \<le> 65535" for b :: nat
  proof (rule inj_onI)
    fix i j assume i: "i \<in> {0..<k}" and j: "j \<in> {0..<k}" and e: "(b + i) mod 65535 + 1 = (b + j) mod 65535 + 1"
    from i j k have "i < 65535" "j < 65535" by simp_all
    moreover from e have "(b + i) mod 65535 = (b + j) mod 65535" by (simp only: add_right_cancel)
    ultimately show "i = j" by (rule shifted_mod_inj)
  qed
  then have "k \<le> 65535 \<longrightarrow> distinct (map unat (descriptorHandles k s))"
    unfolding eq by (auto simp only: distinct_map distinct_upt set_upt)
  then show "k \<le> 65535 \<longrightarrow> distinct (descriptorHandles k s)"
    by (auto simp only: distinct_map)
qed

theorem descriptor_handles_cycle_witness:
  "distinct (descriptorHandles 65535 \<lparr>nsUsed = {}, nsDescriptorSeq = 0xFFFFFFF0, nsCursorSeq = 0, nsBusy = {}\<rparr>)"
  using descriptor_handles_cycle [of 65535 "\<lparr>nsUsed = {}, nsDescriptorSeq = 0xFFFFFFF0, nsCursorSeq = 0, nsBusy = {}\<rparr>"]
  by simp

text \<open>
  Cursor names: a new cursor on a statement gets the statement's own name when that is
  free and a numbered name otherwise; in neither case is it the default name of another
  statement, and a numbered name is no statement's default name. Releasing the default
  name makes it available again.
\<close>

theorem cursor_names_owned:
  assumes "openCursorName h s = ((n, isDefault), s')"
  shows "(isDefault \<longleftrightarrow> h \<notin> nsBusy s) \<and> (isDefault \<longrightarrow> n = cursorNameForStatement h) \<and>
    (\<not> isDefault \<longrightarrow> (\<forall>g. n \<noteq> cursorNameForStatement g)) \<and>
    (\<forall>g. g \<noteq> h \<longrightarrow> n \<noteq> cursorNameForStatement g) \<and>
    nsBusy s' = insert h (nsBusy s) \<and>
    fst (openCursorName h (releaseDefaultCursor h s')) = (cursorNameForStatement h, True)"
  using assms cursorName_inject
  by (auto simp: openCursorName_def releaseDefaultCursor_def cursorNameForStatement_def Let_def split: if_splits)

theorem cursor_names_owned_witness:
  "\<exists>n s'. openCursorName 7 \<lparr>nsUsed = {7}, nsDescriptorSeq = 0, nsCursorSeq = 0xFFFFFFFF, nsBusy = {7}\<rparr> = ((n, False), s') \<and>
     (\<forall>g. n \<noteq> cursorNameForStatement g)"
proof -
  let ?s = "\<lparr>nsUsed = {7}, nsDescriptorSeq = 0, nsCursorSeq = 0xFFFFFFFF, nsBusy = {7}\<rparr> :: nameState"
  obtain n d s' where e: "openCursorName 7 ?s = ((n, d), s')" by (metis prod.collapse)
  from cursor_names_owned [OF e] e show ?thesis by auto
qed

end
