(* ===== verification/Requests.thy ===== *)
theory Requests
  imports Reader Ccsid Scan Handles
begin

text \<open>
  The request builders of \<open>src/sql.go\<close>, \<open>src/tx.go\<close>, \<open>src/package.go\<close> and
  \<open>src/call_result_sets.go\<close>. A request is a header, a 20-byte template that counts the
  parameters, and the parameters. The contract of a builder is the locale
  \<open>request_builder\<close>: the bytes are the request for the stated function, handles and list of
  parameters. From it follows, once for all builders, that a server reading the request by
  its header and LL/CP fields sees exactly those. \<open>fs\<close> are the conversion tables.
\<close>

section \<open>Definitions\<close>

subsection \<open>Attributes and template\<close>

definition DatabaseServerID :: u16 where "DatabaseServerID = 0xE004"

definition orsSendReplyImmediately :: u32 where "orsSendReplyImmediately = 0x80000000"
definition orsDataFormat :: u32 where "orsDataFormat = 0x08000000"
definition orsResultData :: u32 where "orsResultData = 0x04000000"
definition orsSQLCA :: u32 where "orsSQLCA = 0x02000000"
definition orsParameterMarkerFormat :: u32 where "orsParameterMarkerFormat = 0x00800000"
definition orsReplyRLECompressed :: u32 where "orsReplyRLECompressed = 0x00040000"
definition orsExtendedColumnDescriptors :: u32 where "orsExtendedColumnDescriptors = 0x00020000"
definition orsReturnResultSetAttributes :: u32 where "orsReturnResultSetAttributes = 0x00008000"

definition appendRequestTemplate :: "bytes \<Rightarrow> u32 \<Rightarrow> u16 \<Rightarrow> u16 \<Rightarrow> nat \<Rightarrow> bytes" where
  "appendRequestTemplate dst bitmap rpbHandle pmHandle parmCount =
     dst @ bytesU32 bitmap @ bytesU32 0 @ bytesU16 1 @ bytesU16 1 @ bytesU16 0 @ bytesU16 rpbHandle @
     bytesU16 pmHandle @ bytesU16 (word_of_nat parmCount)"

definition appendNameAttribute :: "tables \<Rightarrow> u16 \<Rightarrow> string \<Rightarrow> bytes res" where
  "appendNameAttribute fs codePoint name =
     res_bind (EncodeEBCDIC37 fs name) (\<lambda>encoded.
       Inr (bytesU32 (word_of_nat (10 + length encoded)) @ bytesU16 codePoint @ bytesU16 37 @
            bytesU16 (word_of_nat (length encoded)) @ encoded))"

definition appendByteAttribute :: "bytes \<Rightarrow> u16 \<Rightarrow> byte \<Rightarrow> bytes" where
  "appendByteAttribute dst codePoint value = dst @ bytesU32 7 @ bytesU16 codePoint @ [value]"

definition appendShortAttribute :: "bytes \<Rightarrow> u16 \<Rightarrow> u16 \<Rightarrow> bytes" where
  "appendShortAttribute dst codePoint value = dst @ bytesU32 8 @ bytesU16 codePoint @ bytesU16 value"

definition appendIntAttribute :: "bytes \<Rightarrow> u16 \<Rightarrow> u32 \<Rightarrow> bytes" where
  "appendIntAttribute dst codePoint value = dst @ bytesU32 10 @ bytesU16 codePoint @ bytesU32 value"

definition appendShortIntAttribute :: "bytes \<Rightarrow> u16 \<Rightarrow> u16 \<Rightarrow> u32 \<Rightarrow> bytes" where
  "appendShortIntAttribute dst codePoint value relative =
     dst @ bytesU32 12 @ bytesU16 codePoint @ bytesU16 value @ bytesU32 relative"

definition appendRawAttribute :: "bytes \<Rightarrow> u16 \<Rightarrow> bytes \<Rightarrow> bytes" where
  "appendRawAttribute dst codePoint value = AppendLLCP dst codePoint value"

definition appendExtendedSQLTextAttribute :: "tables \<Rightarrow> string \<Rightarrow> int \<Rightarrow> bytes res" where
  "appendExtendedSQLTextAttribute fs query ccsidValue =
     res_bind (encodeTextBytes fs query ccsidValue) (\<lambda>encoded.
       Inr (bytesU32 (word_of_nat (12 + length encoded)) @ bytesU16 0x3831 @ bytesU16 (word_of_int ccsidValue) @
            bytesU32 (word_of_nat (length encoded)) @ encoded))"

text \<open>The lines every builder ends with: header, template, body.\<close>

definition finishRequest :: "u16 \<Rightarrow> u32 \<Rightarrow> u16 \<Rightarrow> u16 \<Rightarrow> nat \<Rightarrow> bytes \<Rightarrow> bytes" where
  "finishRequest fn bitmap rpb pm parms body =
     appendRequestTemplate (buildHeader (word_of_nat (40 + length body)) 0 DatabaseServerID 20 fn) bitmap rpb pm parms @ body"

subsection \<open>Package attributes\<close>

record packageSpec =
  psName :: string
  psLibrary :: string
  psPackaged :: bool

definition appendPrepareAttributes :: "tables \<Rightarrow> packageSpec option \<Rightarrow> bytes \<times> nat \<Rightarrow> bytes \<times> nat" where
  "appendPrepareAttributes fs pkg bp =
     (case (pkg, bp) of
        (None, _) \<Rightarrow> bp
      | (Some s, (body, parms)) \<Rightarrow>
          if psPackaged s then
            (let body1 = appendByteAttribute body 0x3808 1 in
             case appendNameAttribute fs 0x3804 (psName s) of
               Inr attr \<Rightarrow> (body1 @ attr, parms + 2)
             | Inl _ \<Rightarrow> (body1, parms + 1))
          else (appendRawAttribute (appendByteAttribute body 0x3808 0) 0x3804 [], parms + 2))"

definition appendExecuteAttributes :: "tables \<Rightarrow> packageSpec option \<Rightarrow> bytes \<times> nat \<Rightarrow> bytes \<times> nat" where
  "appendExecuteAttributes fs pkg bp =
     (case pkg of
        None \<Rightarrow> bp
      | Some s \<Rightarrow>
          if \<not> psPackaged s then bp
          else case appendNameAttribute fs 0x3804 (psName s) of
            Inl _ \<Rightarrow> bp | Inr attr \<Rightarrow> (fst bp @ attr, snd bp + 1))"

definition appendLibraryAttributes :: "tables \<Rightarrow> packageSpec option \<Rightarrow> bytes \<times> nat \<Rightarrow> bytes \<times> nat" where
  "appendLibraryAttributes fs pkg bp =
     (case pkg of
        None \<Rightarrow> bp
      | Some s \<Rightarrow> (case appendNameAttribute fs 0x3801 (psLibrary s) of
          Inl _ \<Rightarrow> bp | Inr attr \<Rightarrow> (fst bp @ attr, snd bp + 1)))"

definition buildCreatePackageRequest :: "tables \<Rightarrow> string \<Rightarrow> string \<Rightarrow> bytes res" where
  "buildCreatePackageRequest fs name library =
     res_bind (appendNameAttribute fs 0x3804 name) (\<lambda>nameAttr.
     res_bind (appendNameAttribute fs 0x3801 library) (\<lambda>libraryAttr.
       Inr (finishRequest 0x180F orsSendReplyImmediately 0 0 2 (nameAttr @ libraryAttr))))"

subsection \<open>Statements and cursors\<close>

definition buildCreateRPBRequest :: "tables \<Rightarrow> u16 \<Rightarrow> string \<Rightarrow> packageSpec option \<Rightarrow> bytes res" where
  "buildCreateRPBRequest fs statementHandle stmtName pkg =
     res_bind (appendNameAttribute fs 0x3806 stmtName) (\<lambda>nameAttr.
     res_bind (appendNameAttribute fs 0x380B (cursorNameForStatement statementHandle)) (\<lambda>cursorAttr.
       let (body, parms) = appendLibraryAttributes fs pkg (nameAttr @ cursorAttr, 2) in
       Inr (finishRequest 0x1D00 0 statementHandle 0 parms body)))"

definition buildPrepareAndDescribeRequestCCSID ::
    "tables \<Rightarrow> u16 \<Rightarrow> string \<Rightarrow> string \<Rightarrow> packageSpec option \<Rightarrow> int \<Rightarrow> bytes res" where
  "buildPrepareAndDescribeRequestCCSID fs statementHandle stmtName query pkg txtCCSID =
     (let statementType = classifySQLStatement query in
      res_bind (appendNameAttribute fs 0x3806 stmtName) (\<lambda>nameAttr.
        let (body1, parms1) =
              (if statementType = sqlStatementTypeSelect \<or> statementType = sqlStatementTypeCall
               then (appendByteAttribute (appendShortAttribute nameAttr 0x3812 (word_of_int statementType)) 0x3809 0x80, 3)
               else (nameAttr, 1));
            (body2, parms2) = appendPrepareAttributes fs pkg (body1, parms1) in
        res_bind (appendExtendedSQLTextAttribute fs query txtCCSID) (\<lambda>textAttr.
          let bitmap0 = orsSendReplyImmediately OR orsDataFormat OR orsSQLCA OR orsParameterMarkerFormat;
              bitmap = (if statementType \<noteq> sqlStatementTypeCall then bitmap0 OR orsExtendedColumnDescriptors else bitmap0) in
          Inr (finishRequest 0x1803 bitmap statementHandle 0 (parms2 + 1) (body2 @ textAttr)))))"

definition defaultPackageCCSID :: int where "defaultPackageCCSID = 13488"

definition buildPrepareAndDescribeRequest ::
    "tables \<Rightarrow> u16 \<Rightarrow> string \<Rightarrow> string \<Rightarrow> packageSpec option \<Rightarrow> bytes res" where
  "buildPrepareAndDescribeRequest fs statementHandle stmtName query pkg =
     buildPrepareAndDescribeRequestCCSID fs statementHandle stmtName query pkg defaultPackageCCSID"

definition buildOpenAndDescribeRequest :: "tables \<Rightarrow> string \<Rightarrow> string \<Rightarrow> bytes res" where
  "buildOpenAndDescribeRequest fs stmtName cursorName =
     res_bind (appendNameAttribute fs 0x3806 stmtName) (\<lambda>nameAttr.
     res_bind (appendNameAttribute fs 0x380B cursorName) (\<lambda>cursorAttr.
       let body = appendShortAttribute (appendByteAttribute (appendByteAttribute
                    (appendByteAttribute (nameAttr @ cursorAttr) 0x3809 0x80) 0x3833 0xE8) 0x380A 0xD5) 0x380D 0 in
       Inr (finishRequest 0x1804 (orsSendReplyImmediately OR orsDataFormat OR orsSQLCA OR
              orsReturnResultSetAttributes OR orsExtendedColumnDescriptors) 0 0 6 body)))"

definition fetchRelative :: int where "fetchRelative = 7"
definition fetchDirect :: int where "fetchDirect = 8"

definition buildFetchRequestForStatement ::
    "tables \<Rightarrow> u16 \<Rightarrow> string \<Rightarrow> u32 \<Rightarrow> int \<Rightarrow> int \<Rightarrow> bytes res" where
  "buildFetchRequestForStatement fs statementHandle cursorName fetchBufferSize option relative =
     res_bind (appendNameAttribute fs 0x380B cursorName) (\<lambda>cursorAttr.
       let body1 = appendShortAttribute cursorAttr 0x380E (word_of_int option);
           body2 = (if option = fetchRelative \<or> option = fetchDirect
                    then appendShortIntAttribute (take (length body1 - 8) body1) 0x380E
                           (word_of_int option) (word_of_int relative)
                    else body1);
           body = appendIntAttribute (appendByteAttribute body2 0x3833 0xE8) 0x3834 fetchBufferSize in
       Inr (finishRequest 0x180B (orsSendReplyImmediately OR orsResultData) statementHandle 0 4 body))"

definition buildFetchRequest :: "tables \<Rightarrow> string \<Rightarrow> u32 \<Rightarrow> int \<Rightarrow> int \<Rightarrow> bytes res" where
  "buildFetchRequest fs cursorName fetchBufferSize option relative =
     buildFetchRequestForStatement fs 0 cursorName fetchBufferSize option relative"

definition buildCloseCursorRequest :: "tables \<Rightarrow> string \<Rightarrow> byte \<Rightarrow> bytes res" where
  "buildCloseCursorRequest fs cursorName reuseIndicator =
     res_bind (appendNameAttribute fs 0x380B cursorName) (\<lambda>cursorAttr.
       Inr (finishRequest 0x180A orsSendReplyImmediately 0 0 2
              (appendByteAttribute cursorAttr 0x3810 reuseIndicator)))"

definition buildCloseResultSetCursorRequest :: "tables \<Rightarrow> u16 \<Rightarrow> string \<Rightarrow> byte \<Rightarrow> bytes res" where
  "buildCloseResultSetCursorRequest fs statementHandle cursorName reuseIndicator =
     res_bind (appendNameAttribute fs 0x380B cursorName) (\<lambda>cursorAttr.
       Inr (finishRequest 0x180A orsReplyRLECompressed statementHandle 0 2
              (appendByteAttribute cursorAttr 0x3810 reuseIndicator)))"

definition buildDeleteRPBRequest :: "u16 \<Rightarrow> bytes" where
  "buildDeleteRPBRequest statementHandle =
     appendRequestTemplate (buildHeader 40 0 DatabaseServerID 20 0x1D02)
       (orsSendReplyImmediately OR orsReplyRLECompressed) statementHandle 0 0"

definition buildTestConnectionRequest :: bytes where
  "buildTestConnectionRequest =
     appendRequestTemplate (buildHeader 40 0 DatabaseServerID 20 0x0000) orsSendReplyImmediately 0 0 0"

definition buildExecuteImmediateRequestCCSID :: "tables \<Rightarrow> string \<Rightarrow> int \<Rightarrow> packageSpec option \<Rightarrow> int \<Rightarrow> bytes res" where
  "buildExecuteImmediateRequestCCSID fs query statementType pkg txtCCSID =
     (let (body1, parms1) =
            (if statementType = sqlStatementTypeCall then
               (let b = appendByteAttribute (appendShortAttribute [] 0x3812 (word_of_int sqlStatementTypeCall)) 0x3809 0x80 in
                if pkg = None then (appendByteAttribute b 0x3808 0, 3) else (b, 2))
             else ([], 0));
          (body2, parms2) = appendPrepareAttributes fs pkg (body1, parms1) in
      res_bind (appendExtendedSQLTextAttribute fs query txtCCSID) (\<lambda>textAttr.
        Inr (finishRequest 0x1806 (orsSendReplyImmediately OR orsSQLCA) 0 0 (parms2 + 1) (body2 @ textAttr))))"

definition buildExecuteImmediateRequest :: "tables \<Rightarrow> string \<Rightarrow> int \<Rightarrow> packageSpec option \<Rightarrow> bytes res" where
  "buildExecuteImmediateRequest fs query statementType pkg =
     buildExecuteImmediateRequestCCSID fs query statementType pkg defaultPackageCCSID"

definition buildExecuteCallNoParamsRequest :: "tables \<Rightarrow> u16 \<Rightarrow> packageSpec option \<Rightarrow> bytes" where
  "buildExecuteCallNoParamsRequest fs statementHandle pkg =
     (let (body, parms) = appendExecuteAttributes fs pkg (appendShortAttribute [] 0x3812 (word_of_int sqlStatementTypeCall), 1) in
      finishRequest 0x1805 (orsSendReplyImmediately OR orsSQLCA OR orsReturnResultSetAttributes) statementHandle 0 parms body)"

subsection \<open>Transactions\<close>

definition buildCommitRequest :: bytes where
  "buildCommitRequest =
     appendRequestTemplate (buildHeader 40 0 DatabaseServerID 20 0x1807) orsSendReplyImmediately 0 0 0"

definition buildRollbackRequest :: bytes where
  "buildRollbackRequest =
     appendRequestTemplate (buildHeader 40 0 DatabaseServerID 20 0x1808) orsSendReplyImmediately 0 0 0"

definition autoCommitIndicator :: "bool \<Rightarrow> byte" where
  "autoCommitIndicator enabled = (if enabled then 0xE8 else 0xD5)"

definition buildAutoCommitRequestLevel :: "bool \<Rightarrow> u16 \<Rightarrow> bytes" where
  "buildAutoCommitRequestLevel enabled level =
     finishRequest 0x1F80 (orsSendReplyImmediately OR 0x01000000) 0 0 2
       (appendShortAttribute (appendByteAttribute [] 0x3824 (autoCommitIndicator enabled)) 0x380E level)"

definition buildEndJobRequest :: bytes where
  "buildEndJobRequest =
     buildHeader 40 0 DatabaseServerID 0 0x1FFF @ bytesU32 0 @ bytesU32 0 @ bytesU32 0 @ bytesU32 0 @ bytesU32 0"

subsection \<open>Parameter values\<close>

record lobWriteRequest =
  lwLocatorHandle :: u32
  lwRequestedSize :: int
  lwData :: bytes

text \<open>\<open>outDest\<close> is only tested for being present.\<close>

record parameterBinding =
  pbField :: parameterMarkerField
  pbRaw :: bytes
  pbIsNull :: bool
  pbHasOut :: bool
  pbLobWrite :: "lobWriteRequest option"

fun layoutLoop :: "nat \<Rightarrow> parameterBinding list \<Rightarrow> bool" where
  "layoutLoop tot [] = False"
| "layoutLoop tot (b # bs) =
     (if length (pbRaw b) > 0xFFFF then True
      else if tot + length (pbRaw b) > 0xFFFF then True
      else layoutLoop (tot + length (pbRaw b)) bs)"

text \<open>True for the extended layout.\<close>

definition parameterMarkerPayloadLayout :: "parameterMarkerFormat option \<Rightarrow> parameterBinding list \<Rightarrow> bool" where
  "parameterMarkerPayloadLayout format bindings =
     (if format = None \<or> \<not> usesOriginalFormat format then True
      else if length bindings > 0xFFFF then True
      else layoutLoop 0 bindings)"

definition sumBindingLengths :: "parameterBinding list \<Rightarrow> nat" where
  "sumBindingLengths bindings = foldl (\<lambda>tot b. tot + length (pbRaw b)) 0 bindings"

text \<open>One 64-byte and one 54-byte entry; bytes the source does not write are zero.\<close>

definition extendedEntry :: "parameterBinding \<Rightarrow> bytes" where
  "extendedEntry b =
     (let f = pbField b in
      bytesU16 64 @ bytesU16 (word_of_int (pfSQLType f)) @ bytesU32 (word_of_nat (length (pbRaw b))) @
      bytesU16 (word_of_int (pfScale f)) @ bytesU16 (word_of_int (pfPrecision f)) @ bytesU16 (word_of_int (pfCCSID f)) @
      [word_of_int (pfParameterType f)] @ replicate 2 0 @ bytesU32 (word_of_int (pfLOBLocator f)) @ replicate 5 0 @
      bytesU32 (word_of_int (pfLOBMaxSize f)) @ replicate 34 0)"

definition originalEntry :: "parameterBinding \<Rightarrow> bytes" where
  "originalEntry b =
     (let f = pbField b in
      bytesU16 54 @ bytesU16 (word_of_int (pfSQLType f)) @ bytesU16 (word_of_nat (length (pbRaw b))) @
      bytesU16 (word_of_int (pfScale f)) @ bytesU16 (word_of_int (pfPrecision f)) @ bytesU16 (word_of_int (pfCCSID f)) @
      [word_of_int (pfParameterType f)] @ replicate 41 0)"

definition buildParameterMarkerFormatPayload ::
    "parameterMarkerFormat option \<Rightarrow> parameterBinding list \<Rightarrow> bytes \<times> u16" where
  "buildParameterMarkerFormatPayload format bindings =
     (if parameterMarkerPayloadLayout format bindings then
        (bytesU32 1 @ bytesU32 (word_of_nat (length bindings)) @ replicate 4 0 @
         bytesU32 (word_of_nat (sumBindingLengths bindings)) @ concat (map extendedEntry bindings), 0x380D)
      else
        (bytesU32 1 @ bytesU16 (word_of_nat (length bindings)) @
         bytesU16 (word_of_nat (sumBindingLengths bindings)) @ concat (map originalEntry bindings), 0x3808))"

definition indicatorOf :: "parameterBinding \<Rightarrow> bytes" where
  "indicatorOf b = bytesU16 (if pbIsNull b then 0xFFFF else 0)"

definition buildParameterMarkerDataPayload ::
    "parameterMarkerFormat option \<Rightarrow> parameterBinding list \<Rightarrow> bytes \<times> u16" where
  "buildParameterMarkerDataPayload format bindings =
     (if parameterMarkerPayloadLayout format bindings then
        (bytesU32 1 @ bytesU32 1 @ bytesU16 (word_of_nat (length bindings)) @ bytesU16 2 @ bytesU32 0 @
         bytesU32 (word_of_nat (sumBindingLengths bindings)) @ concat (map indicatorOf bindings) @
         concat (map pbRaw bindings), 0x381F)
      else
        (bytesU32 1 @ bytesU32 1 @ bytesU16 (word_of_nat (length bindings)) @ bytesU16 2 @
         bytesU16 (word_of_nat (sumBindingLengths bindings)) @ concat (map indicatorOf bindings) @
         concat (map pbRaw bindings), 0x3811))"

definition buildChangeDescriptorRequest ::
    "u16 \<Rightarrow> u16 \<Rightarrow> parameterMarkerFormat option \<Rightarrow> parameterBinding list \<Rightarrow> bytes" where
  "buildChangeDescriptorRequest statementHandle descriptorHandle format bindings =
     (let (formatPayload, formatCodePoint) = buildParameterMarkerFormatPayload format bindings;
          requestFormatCodePoint =
            (if formatCodePoint = 0x3808 then 0x3801
             else if formatCodePoint = 0x380D \<or> formatCodePoint = 0x3813 then 0x381E else formatCodePoint) in
      finishRequest 0x1E00 (orsSendReplyImmediately OR orsSQLCA) statementHandle descriptorHandle 1
        (AppendLLCP [] requestFormatCodePoint formatPayload))"

definition buildDeleteDescriptorRequest :: "u16 \<Rightarrow> u16 \<Rightarrow> bytes" where
  "buildDeleteDescriptorRequest statementHandle descriptorHandle =
     appendRequestTemplate (buildHeader 40 0 DatabaseServerID 20 0x1E01)
       (orsSendReplyImmediately OR orsSQLCA) statementHandle descriptorHandle 0"

definition hasOutputBindings :: "parameterBinding list \<Rightarrow> bool" where
  "hasOutputBindings bindings = list_ex pbHasOut bindings"

definition buildExecutePreparedRequest ::
    "tables \<Rightarrow> u16 \<Rightarrow> u16 \<Rightarrow> int \<Rightarrow> parameterMarkerFormat option \<Rightarrow> parameterBinding list \<Rightarrow> packageSpec option \<Rightarrow> bytes" where
  "buildExecutePreparedRequest fs statementHandle descriptorHandle statementType format bindings pkg =
     (let (dataPayload, dataCodePoint) = buildParameterMarkerDataPayload format bindings;
          (body, parms) = appendExecuteAttributes fs pkg
            (appendShortAttribute [] 0x3812 (word_of_int statementType) @ AppendLLCP [] dataCodePoint dataPayload, 2);
          bitmap = (if statementType = sqlStatementTypeCall \<and> hasOutputBindings bindings
                    then orsSendReplyImmediately OR orsSQLCA OR orsResultData
                    else orsSendReplyImmediately OR orsSQLCA) in
      finishRequest 0x1805 bitmap statementHandle descriptorHandle parms body)"

definition buildOpenDescribePreparedRequest ::
    "tables \<Rightarrow> u16 \<Rightarrow> u16 \<Rightarrow> string \<Rightarrow> string \<Rightarrow> parameterMarkerFormat option \<Rightarrow> parameterBinding list \<Rightarrow>
     bool \<Rightarrow> bool \<Rightarrow> packageSpec option \<Rightarrow> bytes res" where
  "buildOpenDescribePreparedRequest fs statementHandle descriptorHandle stmtName cursorName format bindings scrollable hold pkg =
     res_bind (appendNameAttribute fs 0x3806 stmtName) (\<lambda>nameAttr.
     res_bind (appendNameAttribute fs 0x380B cursorName) (\<lambda>cursorAttr.
       let (body1, parms1) = appendExecuteAttributes fs pkg (nameAttr @ cursorAttr, 2);
           body2 = appendShortAttribute (appendByteAttribute (appendByteAttribute (appendByteAttribute
                     body1 0x3809 0x80) 0x3833 0xE8) 0x380A 0xD5) 0x380D (if scrollable then 2 else 0);
           (body3, parms3) = (if hold then (appendByteAttribute (appendByteAttribute body2 0x380F 0xE8) 0x3830 0xE8, parms1 + 6)
                              else (body2, parms1 + 4));
           (body4, parms4) = (if bindings \<noteq> [] then
               (case buildParameterMarkerDataPayload format bindings of (dataPayload, dataCodePoint) \<Rightarrow>
                  (body3 @ AppendLLCP [] dataCodePoint dataPayload, parms3 + 1))
             else (body3, parms3)) in
       Inr (finishRequest 0x1804 (orsSendReplyImmediately OR orsDataFormat OR orsSQLCA OR orsReturnResultSetAttributes)
              statementHandle descriptorHandle parms4 body4)))"

subsection \<open>Large objects\<close>

definition collectLOBWriteRequests :: "parameterBinding list \<Rightarrow> lobWriteRequest list" where
  "collectLOBWriteRequests bindings = List.map_filter pbLobWrite bindings"

definition buildWriteLOBDataRequest :: "lobWriteRequest \<Rightarrow> bytes" where
  "buildWriteLOBDataRequest w =
     finishRequest 0x1817 (orsSendReplyImmediately OR orsResultData) 0 0 5
       (AppendLLCP (appendByteAttribute (appendIntAttribute (appendIntAttribute
          (appendIntAttribute [] 0x3818 (lwLocatorHandle w)) 0x3819 (word_of_int (lwRequestedSize w))) 0x381A 0) 0x381B 0xF0)
          0x381D (lwData w))"

definition buildRetrieveLobDataRequest :: "u32 \<Rightarrow> int \<Rightarrow> bytes" where
  "buildRetrieveLobDataRequest locatorHandle requestedSize =
     finishRequest 0x1816 (orsSendReplyImmediately OR orsResultData) 0 0 5
       (appendByteAttribute (appendByteAttribute (appendIntAttribute (appendIntAttribute
          (appendIntAttribute [] 0x3818 locatorHandle) 0x3819 (word_of_int requestedSize)) 0x381A 0) 0x381B 0xF0) 0x3821 0xF1)"

definition buildFreeLobRequest :: "u32 \<Rightarrow> bytes" where
  "buildFreeLobRequest locatorHandle =
     finishRequest 0x1819 orsSendReplyImmediately 0 0 1 (appendIntAttribute [] 0x3818 locatorHandle)"

section \<open>What a server reads\<close>

text \<open>
  A request as the protocol describes it: function, reply bitmap, handles and parameters.
  \<open>request_bytes\<close> is its layout, \<open>parse_request\<close> reads it the way the peer does: by the header,
  the template at its fixed offsets and one LL/CP field after the other, checking the
  length, the server and the parameter count.
\<close>

record request =
  rqFunction :: u16
  rqBitmap :: u32
  rqRpb :: u16
  rqPm :: u16
  rqParams :: "(u16 \<times> bytes) list"

definition request_bytes :: "request \<Rightarrow> bytes" where
  "request_bytes q = finishRequest (rqFunction q) (rqBitmap q) (rqRpb q) (rqPm q) (length (rqParams q)) (params (rqParams q))"

definition request_fits :: "request \<Rightarrow> bool" where
  "request_fits q \<longleftrightarrow> length (rqParams q) < 2 ^ 16 \<and> 40 + length (params (rqParams q)) < 2 ^ 32"

function parse_params :: "bytes \<Rightarrow> (u16 \<times> bytes) list option" where
  "parse_params data =
     (if data = [] then Some []
      else case ParseLLCP data of
        Inl e \<Rightarrow> None
      | Inr (cp, payload, rest) \<Rightarrow> map_option (Cons (cp, payload)) (parse_params rest))"
  by pat_completeness auto
termination by (relation "measure length") (auto dest: ParseLLCP_shorter)

declare parse_params.simps [simp del]

definition parse_request :: "bytes \<Rightarrow> request option" where
  "parse_request packet =
     (case ParseHeader packet of
        Inl e \<Rightarrow> None
      | Inr h \<Rightarrow>
          if length packet < 40 \<or> unat (hLength h) \<noteq> length packet \<or> hServerID h \<noteq> DatabaseServerID \<or>
             hTemplateLength h \<noteq> 20 then None
          else case parse_params (drop 40 packet) of
            None \<Rightarrow> None
          | Some ps \<Rightarrow>
              if unat (Uint16 (slice 38 40 packet)) \<noteq> length ps then None
              else Some \<lparr>rqFunction = hReqRepID h, rqBitmap = Uint32 (slice 20 24 packet),
                         rqRpb = Uint16 (slice 34 36 packet), rqPm = Uint16 (slice 36 38 packet), rqParams = ps\<rparr>)"

lemma params_length_ok: "length (params ps) < 2 ^ 32 \<Longrightarrow> params_ok ps"
  by (induction ps) (auto simp: AppendLLCP_def)

lemma parse_params_params: "params_ok ps \<Longrightarrow> parse_params (params ps) = Some ps"
proof (induction ps)
  case Nil
  then show ?case by (simp add: parse_params.simps [of "[]"])
next
  case (Cons p ps)
  obtain cp payload where p: "p = (cp, payload)" by (cases p)
  from Cons.prems p have "ParseLLCP (params (p # ps)) = Inr (cp, payload, params ps)"
    by (simp add: ParseLLCP_AppendLLCP)
  with Cons p show ?case by (subst parse_params.simps) simp
qed

lemma template_slices:
  assumes "length h = 20"
  shows "slice 20 24 (appendRequestTemplate h bm rpb pm n @ body) = bytesU32 bm"
    and "slice 34 36 (appendRequestTemplate h bm rpb pm n @ body) = bytesU16 rpb"
    and "slice 36 38 (appendRequestTemplate h bm rpb pm n @ body) = bytesU16 pm"
    and "slice 38 40 (appendRequestTemplate h bm rpb pm n @ body) = bytesU16 (word_of_nat n)"
    and "drop 40 (appendRequestTemplate h bm rpb pm n @ body) = body"
  using assms by (simp_all add: appendRequestTemplate_def slice_def)

lemma parse_request_bytes:
  assumes "request_fits q"
  shows "parse_request (request_bytes q) = Some q"
proof -
  let ?ps = "rqParams q" and ?body = "params (rqParams q)"
  let ?hd = "buildHeader (word_of_nat (40 + length ?body)) 0 DatabaseServerID 20 (rqFunction q)"
  have lh: "length ?hd = 20" by (simp add: HeaderSize_def)
  have eq: "request_bytes q = appendRequestTemplate ?hd (rqBitmap q) (rqRpb q) (rqPm q) (length ?ps) @ ?body"
    by (simp add: request_bytes_def finishRequest_def)
  have len: "length (request_bytes q) = 40 + length ?body"
    by (simp add: eq appendRequestTemplate_def HeaderSize_def)
  obtain t where t: "request_bytes q = ?hd @ t" "length t = 20 + length ?body"
    by (simp add: eq appendRequestTemplate_def)
  have ok: "params_ok ?ps" using assms by (intro params_length_ok) (simp add: request_fits_def)
  have l32: "unat (word_of_nat (40 + length ?body) :: u32) = 40 + length ?body"
    using assms by (intro unat_word_of_nat_32) (simp add: request_fits_def)
  have l16: "unat (word_of_nat (length ?ps) :: u16) = length ?ps"
    using assms by (intro unat_word_of_nat_16) (simp add: request_fits_def)
  have hdr: "ParseHeader (request_bytes q) = Inr \<lparr>hLength = word_of_nat (40 + length ?body), hHeaderID = 0,
      hServerID = DatabaseServerID, hCSInstance = 0, hCorrelationID = 0, hTemplateLength = 20, hReqRepID = rqFunction q\<rparr>"
    unfolding t(1) buildHeader_eq_MarshalBinary
    by (rule ParseHeader_MarshalBinary) (simp add: t(2) HeaderSize_def)
  have long: "\<not> length (request_bytes q) < 40" by (simp add: len)
  show ?thesis
    unfolding parse_request_def hdr sum.case Header.simps l32 len
    unfolding eq template_slices [OF lh] Uint_bytesU l16 parse_params_params [OF ok]
    by simp
qed

text \<open>
  The contract of a builder: what it returns is the layout of the request \<open>meaning\<close> states.
\<close>

locale request_builder =
  fixes build :: "'c \<Rightarrow> bytes res" and meaning :: "'c \<Rightarrow> request"
  assumes builds: "build c = Inr packet \<Longrightarrow> packet = request_bytes (meaning c)"
begin

lemma understood:
  assumes "build c = Inr packet" "request_fits (meaning c)"
  shows "parse_request packet = Some (meaning c)"
  using builds [OF assms(1)] parse_request_bytes [OF assms(2)] by simp

text \<open>Two commands that put the same bytes on the wire mean the same to the server.\<close>

lemma unambiguous:
  assumes "build c = Inr packet" "build d = Inr packet" "request_fits (meaning c)" "request_fits (meaning d)"
  shows "meaning c = meaning d"
  using understood [OF assms(1,3)] understood [OF assms(2,4)] by simp

end

section \<open>Meaning of the commands\<close>

text \<open>The parameters each attribute helper stands for.\<close>

definition name_param :: "tables \<Rightarrow> u16 \<Rightarrow> string \<Rightarrow> u16 \<times> bytes" where
  "name_param fs cp name =
     (let e = (case EncodeEBCDIC37 fs name of Inr e \<Rightarrow> e | Inl _ \<Rightarrow> []) in
      (cp, bytesU16 37 @ bytesU16 (word_of_nat (length e)) @ e))"

definition text_param :: "tables \<Rightarrow> string \<Rightarrow> int \<Rightarrow> u16 \<times> bytes" where
  "text_param fs query ccsid =
     (let e = (case encodeTextBytes fs query ccsid of Inr e \<Rightarrow> e | Inl _ \<Rightarrow> []) in
      (0x3831, bytesU16 (word_of_int ccsid) @ bytesU32 (word_of_nat (length e)) @ e))"

named_theorems attr_simps \<open>attribute helpers as parameters\<close>

lemma appendNameAttribute_Inr [attr_simps]:
  "appendNameAttribute fs cp name = Inr a \<Longrightarrow> a = params [name_param fs cp name]"
  by (cases "EncodeEBCDIC37 fs name")
    (auto simp: appendNameAttribute_def name_param_def AppendLLCP_def add.commute)

lemma appendExtendedSQLTextAttribute_Inr [attr_simps]:
  "appendExtendedSQLTextAttribute fs query ccsid = Inr a \<Longrightarrow> a = params [text_param fs query ccsid]"
  by (cases "encodeTextBytes fs query ccsid")
    (auto simp: appendExtendedSQLTextAttribute_def text_param_def AppendLLCP_def add.commute)

lemma attribute_params [attr_simps]:
  "appendByteAttribute dst cp b = dst @ params [(cp, [b])]"
  "appendShortAttribute dst cp v = dst @ params [(cp, bytesU16 v)]"
  "appendIntAttribute dst cp w = dst @ params [(cp, bytesU32 w)]"
  "appendShortIntAttribute dst cp v w = dst @ params [(cp, bytesU16 v @ bytesU32 w)]"
  "appendRawAttribute dst cp bs = dst @ params [(cp, bs)]"
  "AppendLLCP dst cp bs = dst @ params [(cp, bs)]"
  by (simp_all add: appendByteAttribute_def appendShortAttribute_def appendIntAttribute_def
      appendShortIntAttribute_def appendRawAttribute_def AppendLLCP_def)

lemma params_join:
  "params [] = []" "params ps @ params qs = params (ps @ qs)" "params ps @ params qs @ bs = params (ps @ qs) @ bs"
  by simp_all

definition prepare_params :: "tables \<Rightarrow> packageSpec option \<Rightarrow> (u16 \<times> bytes) list" where
  "prepare_params fs pkg =
     (case pkg of None \<Rightarrow> []
      | Some s \<Rightarrow> if \<not> psPackaged s then [(0x3808, [0]), (0x3804, [])]
                 else (0x3808, [1]) # (if isl (EncodeEBCDIC37 fs (psName s)) then [] else [name_param fs 0x3804 (psName s)]))"

definition execute_params :: "tables \<Rightarrow> packageSpec option \<Rightarrow> (u16 \<times> bytes) list" where
  "execute_params fs pkg =
     (case pkg of None \<Rightarrow> []
      | Some s \<Rightarrow> if psPackaged s \<and> \<not> isl (EncodeEBCDIC37 fs (psName s)) then [name_param fs 0x3804 (psName s)] else [])"

definition library_params :: "tables \<Rightarrow> packageSpec option \<Rightarrow> (u16 \<times> bytes) list" where
  "library_params fs pkg =
     (case pkg of None \<Rightarrow> []
      | Some s \<Rightarrow> if isl (EncodeEBCDIC37 fs (psLibrary s)) then [] else [name_param fs 0x3801 (psLibrary s)])"

lemma appendNameAttribute_isl: "isl (appendNameAttribute fs cp name) = isl (EncodeEBCDIC37 fs name)"
  by (cases "EncodeEBCDIC37 fs name") (simp_all add: appendNameAttribute_def)

lemma appendNameAttribute_cases:
  "(case appendNameAttribute fs cp name of Inl e \<Rightarrow> x | Inr a \<Rightarrow> f a) =
     (if isl (EncodeEBCDIC37 fs name) then x else f (params [name_param fs cp name]))"
  using appendNameAttribute_isl [of fs cp name]
  by (cases "appendNameAttribute fs cp name") (auto dest: appendNameAttribute_Inr)

lemma package_attributes [attr_simps]:
  "appendPrepareAttributes fs pkg (body, n) = (body @ params (prepare_params fs pkg), n + length (prepare_params fs pkg))"
  "appendExecuteAttributes fs pkg (body, n) = (body @ params (execute_params fs pkg), n + length (execute_params fs pkg))"
  "appendLibraryAttributes fs pkg (body, n) = (body @ params (library_params fs pkg), n + length (library_params fs pkg))"
  by (auto simp: appendPrepareAttributes_def appendExecuteAttributes_def appendLibraryAttributes_def
      prepare_params_def execute_params_def library_params_def appendNameAttribute_cases attr_simps Let_def
      params_join simp del: params_simps(2,3) split: option.splits)

text \<open>The commands of the SQL layer, one per builder, and how each is issued.\<close>

datatype command =
    CreatePackage string string
  | CreateRPB u16 string "packageSpec option"
  | Prepare u16 string string "packageSpec option" int
  | OpenDescribe string string
  | Fetch u16 string u32 int int
  | CloseCursor string byte
  | CloseResultSetCursor u16 string byte
  | DeleteRPB u16
  | TestConnection
  | ExecuteImmediate string int "packageSpec option" int
  | ExecuteCallNoParams u16 "packageSpec option"
  | Commit
  | Rollback
  | AutoCommit bool u16
  | ChangeDescriptor u16 u16 "parameterMarkerFormat option" "parameterBinding list"
  | DeleteDescriptor u16 u16
  | ExecutePrepared u16 u16 int "parameterMarkerFormat option" "parameterBinding list" "packageSpec option"
  | OpenPrepared u16 u16 string string "parameterMarkerFormat option" "parameterBinding list" bool bool "packageSpec option"
  | WriteLOB lobWriteRequest
  | RetrieveLOB u32 int
  | FreeLOB u32

fun issue :: "tables \<Rightarrow> command \<Rightarrow> bytes res" where
  "issue fs (CreatePackage name library) = buildCreatePackageRequest fs name library"
| "issue fs (CreateRPB h name pkg) = buildCreateRPBRequest fs h name pkg"
| "issue fs (Prepare h name query pkg ccsid) = buildPrepareAndDescribeRequestCCSID fs h name query pkg ccsid"
| "issue fs (OpenDescribe name cursor) = buildOpenAndDescribeRequest fs name cursor"
| "issue fs (Fetch h cursor sz opt rel) = buildFetchRequestForStatement fs h cursor sz opt rel"
| "issue fs (CloseCursor cursor reuse) = buildCloseCursorRequest fs cursor reuse"
| "issue fs (CloseResultSetCursor h cursor reuse) = buildCloseResultSetCursorRequest fs h cursor reuse"
| "issue fs (DeleteRPB h) = Inr (buildDeleteRPBRequest h)"
| "issue fs TestConnection = Inr buildTestConnectionRequest"
| "issue fs (ExecuteImmediate query ty pkg ccsid) = buildExecuteImmediateRequestCCSID fs query ty pkg ccsid"
| "issue fs (ExecuteCallNoParams h pkg) = Inr (buildExecuteCallNoParamsRequest fs h pkg)"
| "issue fs Commit = Inr buildCommitRequest"
| "issue fs Rollback = Inr buildRollbackRequest"
| "issue fs (AutoCommit enabled level) = Inr (buildAutoCommitRequestLevel enabled level)"
| "issue fs (ChangeDescriptor h d format bs) = Inr (buildChangeDescriptorRequest h d format bs)"
| "issue fs (DeleteDescriptor h d) = Inr (buildDeleteDescriptorRequest h d)"
| "issue fs (ExecutePrepared h d ty format bs pkg) = Inr (buildExecutePreparedRequest fs h d ty format bs pkg)"
| "issue fs (OpenPrepared h d name cursor format bs scroll hold pkg) =
     buildOpenDescribePreparedRequest fs h d name cursor format bs scroll hold pkg"
| "issue fs (WriteLOB w) = Inr (buildWriteLOBDataRequest w)"
| "issue fs (RetrieveLOB loc sz) = Inr (buildRetrieveLobDataRequest loc sz)"
| "issue fs (FreeLOB loc) = Inr (buildFreeLobRequest loc)"

definition req :: "u16 \<Rightarrow> u32 \<Rightarrow> u16 \<Rightarrow> u16 \<Rightarrow> (u16 \<times> bytes) list \<Rightarrow> request" where
  "req fn bitmap rpb pm ps = \<lparr>rqFunction = fn, rqBitmap = bitmap, rqRpb = rpb, rqPm = pm, rqParams = ps\<rparr>"

lemma request_bytes_req: "request_bytes (req fn bitmap rpb pm ps) = finishRequest fn bitmap rpb pm (length ps) (params ps)"
  by (simp add: request_bytes_def req_def)

text \<open>The reply bits are OR-ed from: 80000000 reply now, 08000000 data format, 04000000 result
  data, 02000000 SQLCA, 01000000 server attributes, 00800000 parameter-marker format, 00040000
  compressed, 00020000 extended descriptors, 00008000 result-set attributes.\<close>

fun meaning :: "tables \<Rightarrow> command \<Rightarrow> request" where
  "meaning fs (CreatePackage name library) =
     req 0x180F 0x80000000 0 0 [name_param fs 0x3804 name, name_param fs 0x3801 library]"
| "meaning fs (CreateRPB h name pkg) =
     req 0x1D00 0 h 0 ([name_param fs 0x3806 name, name_param fs 0x380B (cursorNameForStatement h)] @ library_params fs pkg)"
| "meaning fs (Prepare h name query pkg ccsid) =
     (let ty = classifySQLStatement query in
      req 0x1803 (if ty = sqlStatementTypeCall then 0x8A800000 else 0x8A820000) h 0
        ([name_param fs 0x3806 name] @
         (if ty = sqlStatementTypeSelect \<or> ty = sqlStatementTypeCall
          then [(0x3812, bytesU16 (word_of_int ty)), (0x3809, [0x80])] else []) @
         prepare_params fs pkg @ [text_param fs query ccsid]))"
| "meaning fs (OpenDescribe name cursor) =
     req 0x1804 0x8A028000 0 0 [name_param fs 0x3806 name, name_param fs 0x380B cursor, (0x3809, [0x80]),
       (0x3833, [0xE8]), (0x380A, [0xD5]), (0x380D, bytesU16 0)]"
| "meaning fs (Fetch h cursor sz opt rel) =
     req 0x180B 0x84000000 h 0 [name_param fs 0x380B cursor,
       (0x380E, bytesU16 (word_of_int opt) @
          (if opt = fetchRelative \<or> opt = fetchDirect then bytesU32 (word_of_int rel) else [])),
       (0x3833, [0xE8]), (0x3834, bytesU32 sz)]"
| "meaning fs (CloseCursor cursor reuse) = req 0x180A 0x80000000 0 0 [name_param fs 0x380B cursor, (0x3810, [reuse])]"
| "meaning fs (CloseResultSetCursor h cursor reuse) =
     req 0x180A 0x00040000 h 0 [name_param fs 0x380B cursor, (0x3810, [reuse])]"
| "meaning fs (DeleteRPB h) = req 0x1D02 0x80040000 h 0 []"
| "meaning fs TestConnection = req 0 0x80000000 0 0 []"
| "meaning fs (ExecuteImmediate query ty pkg ccsid) =
     req 0x1806 0x82000000 0 0
       ((if ty = sqlStatementTypeCall then [(0x3812, bytesU16 3), (0x3809, [0x80])] @
           (if pkg = None then [(0x3808, [0])] else []) else []) @
        prepare_params fs pkg @ [text_param fs query ccsid])"
| "meaning fs (ExecuteCallNoParams h pkg) = req 0x1805 0x82008000 h 0 ((0x3812, bytesU16 3) # execute_params fs pkg)"
| "meaning fs Commit = req 0x1807 0x80000000 0 0 []"
| "meaning fs Rollback = req 0x1808 0x80000000 0 0 []"
| "meaning fs (AutoCommit enabled level) =
     req 0x1F80 0x81000000 0 0 [(0x3824, [if enabled then 0xE8 else 0xD5]), (0x380E, bytesU16 level)]"
| "meaning fs (ChangeDescriptor h d format bs) =
     req 0x1E00 0x82000000 h d [(if parameterMarkerPayloadLayout format bs then 0x381E else 0x3801,
       fst (buildParameterMarkerFormatPayload format bs))]"
| "meaning fs (DeleteDescriptor h d) = req 0x1E01 0x82000000 h d []"
| "meaning fs (ExecutePrepared h d ty format bs pkg) =
     req 0x1805 (if ty = sqlStatementTypeCall \<and> list_ex pbHasOut bs then 0x86000000 else 0x82000000) h d
       ([(0x3812, bytesU16 (word_of_int ty)),
         (if parameterMarkerPayloadLayout format bs then 0x381F else 0x3811, fst (buildParameterMarkerDataPayload format bs))] @
        execute_params fs pkg)"
| "meaning fs (OpenPrepared h d name cursor format bs scroll hold pkg) =
     req 0x1804 0x8A008000 h d
       ([name_param fs 0x3806 name, name_param fs 0x380B cursor] @ execute_params fs pkg @
        [(0x3809, [0x80]), (0x3833, [0xE8]), (0x380A, [0xD5]), (0x380D, bytesU16 (if scroll then 2 else 0))] @
        (if hold then [(0x380F, [0xE8]), (0x3830, [0xE8])] else []) @
        (if bs = [] then [] else
           [(if parameterMarkerPayloadLayout format bs then 0x381F else 0x3811, fst (buildParameterMarkerDataPayload format bs))]))"
| "meaning fs (WriteLOB w) =
     req 0x1817 0x84000000 0 0 [(0x3818, bytesU32 (lwLocatorHandle w)), (0x3819, bytesU32 (word_of_int (lwRequestedSize w))),
       (0x381A, bytesU32 0), (0x381B, [0xF0]), (0x381D, lwData w)]"
| "meaning fs (RetrieveLOB loc sz) =
     req 0x1816 0x84000000 0 0 [(0x3818, bytesU32 loc), (0x3819, bytesU32 (word_of_int sz)),
       (0x381A, bytesU32 0), (0x381B, [0xF0]), (0x3821, [0xF1])]"
| "meaning fs (FreeLOB loc) = req 0x1819 0x80000000 0 0 [(0x3818, bytesU32 loc)]"

lemmas ors_bits = orsSendReplyImmediately_def orsDataFormat_def orsResultData_def orsSQLCA_def
  orsParameterMarkerFormat_def orsReplyRLECompressed_def orsExtendedColumnDescriptors_def
  orsReturnResultSetAttributes_def

lemma finishRequest_cong:
  "n = m \<Longrightarrow> body = body' \<Longrightarrow> finishRequest fn bitmap rpb pm n body = finishRequest fn bitmap rpb pm m body'"
  by simp

lemma empty_request:
  "appendRequestTemplate (buildHeader 40 0 DatabaseServerID 20 fn) bitmap rpb pm 0 = finishRequest fn bitmap rpb pm 0 []"
  by (simp add: finishRequest_def)

lemma drop_short_attribute:
  "take (length (appendShortAttribute body cp v) - 8) (appendShortAttribute body cp v) = body"
  by (simp add: appendShortAttribute_def)

lemma fetch_bytes:
  assumes "buildFetchRequestForStatement fs h cursor sz opt rel = Inr packet"
  shows "packet = request_bytes (meaning fs (Fetch h cursor sz opt rel))"
proof -
  from assms obtain attr where attr: "appendNameAttribute fs 0x380B cursor = Inr attr"
    by (auto simp: buildFetchRequestForStatement_def res_simps)
  from assms attr show ?thesis
    unfolding buildFetchRequestForStatement_def Let_def drop_short_attribute appendNameAttribute_Inr [OF attr]
    by (cases "opt = fetchRelative \<or> opt = fetchDirect")
      (auto simp: attr_simps params_join request_bytes_req ors_bits intro!: finishRequest_cong simp del: params_simps(2,3))
qed

lemma prepare_bytes:
  assumes "buildPrepareAndDescribeRequestCCSID fs h name query pkg ccsid = Inr packet"
  shows "packet = request_bytes (meaning fs (Prepare h name query pkg ccsid))"
proof -
  from assms obtain a t where a: "appendNameAttribute fs 0x3806 name = Inr a"
    and t: "appendExtendedSQLTextAttribute fs query ccsid = Inr t"
    by (auto simp: buildPrepareAndDescribeRequestCCSID_def Let_def res_simps case_prod_beta)
  from assms a t show ?thesis
    unfolding buildPrepareAndDescribeRequestCCSID_def Let_def appendNameAttribute_Inr [OF a]
      appendExtendedSQLTextAttribute_Inr [OF t] meaning.simps
    by (cases "classifySQLStatement query = sqlStatementTypeSelect"; cases "classifySQLStatement query = sqlStatementTypeCall")
      (auto simp: statement_types attr_simps params_join request_bytes_req ors_bits intro!: finishRequest_cong
        simp del: params_simps(2,3))
qed

lemma immediate_bytes:
  assumes "buildExecuteImmediateRequestCCSID fs query ty pkg ccsid = Inr packet"
  shows "packet = request_bytes (meaning fs (ExecuteImmediate query ty pkg ccsid))"
proof -
  from assms obtain t where t: "appendExtendedSQLTextAttribute fs query ccsid = Inr t"
    by (auto simp: buildExecuteImmediateRequestCCSID_def Let_def res_simps case_prod_beta)
  from assms t show ?thesis
    unfolding buildExecuteImmediateRequestCCSID_def Let_def appendExtendedSQLTextAttribute_Inr [OF t]
    by (cases "ty = sqlStatementTypeCall"; cases "pkg = None")
      (auto simp: sqlStatementTypeCall_def attr_simps params_join request_bytes_req ors_bits
        intro!: finishRequest_cong simp del: params_simps(2,3))
qed

lemmas builder_defs = buildCreatePackageRequest_def buildCreateRPBRequest_def
  buildOpenAndDescribeRequest_def buildCloseCursorRequest_def
  buildCloseResultSetCursorRequest_def buildDeleteRPBRequest_def buildTestConnectionRequest_def
  buildExecuteCallNoParamsRequest_def buildCommitRequest_def
  buildRollbackRequest_def buildAutoCommitRequestLevel_def buildDeleteDescriptorRequest_def
  buildWriteLOBDataRequest_def buildRetrieveLobDataRequest_def buildFreeLobRequest_def

lemma payload_code_points:
  "buildParameterMarkerFormatPayload format bs =
     (fst (buildParameterMarkerFormatPayload format bs), if parameterMarkerPayloadLayout format bs then 0x380D else 0x3808)"
  "buildParameterMarkerDataPayload format bs =
     (fst (buildParameterMarkerDataPayload format bs), if parameterMarkerPayloadLayout format bs then 0x381F else 0x3811)"
  by (simp_all add: buildParameterMarkerFormatPayload_def buildParameterMarkerDataPayload_def)

lemma execute_prepared_bytes:
  "buildExecutePreparedRequest fs h d ty format bs pkg = request_bytes (meaning fs (ExecutePrepared h d ty format bs pkg))"
  unfolding buildExecutePreparedRequest_def
  by (subst payload_code_points)
    (simp add: attr_simps params_join request_bytes_req ors_bits hasOutputBindings_def Let_def del: params_simps(2,3))

lemma change_descriptor_bytes:
  "buildChangeDescriptorRequest h d format bs = request_bytes (meaning fs (ChangeDescriptor h d format bs))"
  unfolding buildChangeDescriptorRequest_def
  by (subst payload_code_points)
    (simp add: attr_simps params_join request_bytes_req ors_bits Let_def del: params_simps(2,3))

lemma open_prepared_bytes:
  assumes "buildOpenDescribePreparedRequest fs h d name cursor format bs scroll hold pkg = Inr packet"
  shows "packet = request_bytes (meaning fs (OpenPrepared h d name cursor format bs scroll hold pkg))"
proof -
  from assms obtain a c where a: "appendNameAttribute fs 0x3806 name = Inr a"
    and c: "appendNameAttribute fs 0x380B cursor = Inr c"
    by (auto simp: buildOpenDescribePreparedRequest_def Let_def res_simps case_prod_beta)
  obtain pl where pl: "buildParameterMarkerDataPayload format bs =
      (pl, if parameterMarkerPayloadLayout format bs then 0x381F else 0x3811)"
    using payload_code_points(2) by blast
  from assms a c show ?thesis
    unfolding buildOpenDescribePreparedRequest_def Let_def appendNameAttribute_Inr [OF a]
      appendNameAttribute_Inr [OF c] meaning.simps pl fst_conv
    by (cases hold; cases "bs = []")
      (auto simp: attr_simps params_join request_bytes_req ors_bits
        intro!: finishRequest_cong simp del: params_simps(2,3))
qed

lemma issue_bytes:
  assumes "issue fs c = Inr packet"
  shows "packet = request_bytes (meaning fs c)"
proof (cases c)
  case (Prepare h name query pkg ccsid)
  with assms show ?thesis unfolding Prepare issue.simps by (intro prepare_bytes)
next
  case (ExecuteImmediate query ty pkg ccsid)
  with assms show ?thesis unfolding ExecuteImmediate issue.simps by (intro immediate_bytes)
next
  case (Fetch h cursor sz opt rel)
  with assms show ?thesis unfolding Fetch issue.simps by (intro fetch_bytes)
next
  case (OpenPrepared h d name cursor format bs scroll hold pkg)
  with assms show ?thesis unfolding OpenPrepared issue.simps by (intro open_prepared_bytes)
next
  case (ExecutePrepared h d ty format bs pkg)
  with assms show ?thesis unfolding ExecutePrepared issue.simps by (simp only: execute_prepared_bytes sum.inject)
next
  case (ChangeDescriptor h d format bs)
  with assms show ?thesis unfolding ChangeDescriptor issue.simps
    by (simp only: change_descriptor_bytes [of _ _ _ _ fs] sum.inject)
qed (use assms in \<open>auto simp: builder_defs res_simps attr_simps params_join request_bytes_req ors_bits Let_def
      empty_request autoCommitIndicator_def sqlStatementTypeCall_def
      dest!: appendNameAttribute_Inr appendExtendedSQLTextAttribute_Inr
      intro!: finishRequest_cong simp del: params_simps(2,3) split: if_splits prod.splits\<close>)

interpretation commands: request_builder "issue fs" "meaning fs" for fs
  by unfold_locales (rule issue_bytes)

section \<open>Properties\<close>

text \<open>
  C4. Every request of the SQL layer says what it means: whatever command the driver issues,
  the peer that reads the bytes by the header, the template and the LL/CP fields finds the
  function, reply bits, handles and parameters of that command, the header's length is
  the length of the packet and the template's count is the number of parameters.
\<close>

theorem request_understood:
  assumes "issue fs c = Inr packet" "request_fits (meaning fs c)"
  shows "parse_request packet = Some (meaning fs c)"
  using assms by (rule commands.understood)

theorem request_understood_witness:
  "parse_request (buildWriteLOBDataRequest \<lparr>lwLocatorHandle = 7, lwRequestedSize = 2, lwData = [1, 2]\<rparr>) =
     Some (req 0x1817 0x84000000 0 0 [(0x3818, bytesU32 7), (0x3819, bytesU32 2), (0x381A, bytesU32 0),
       (0x381B, [0xF0]), (0x381D, [1, 2])])"
  using request_understood [of "[]" "WriteLOB \<lparr>lwLocatorHandle = 7, lwRequestedSize = 2, lwData = [1, 2]\<rparr>"]
  by (simp add: request_fits_def req_def AppendLLCP_def)

end
