(* ===== verification/Decimal.thy ===== *)
theory Decimal
  imports Formats
begin

text \<open>
  DECIMAL and NUMERIC values: \<open>decimalTextDigits\<close> of \<open>src/numeric_param.go\<close> (text to digits)
  and the packed and zoned encoders and decoders of \<open>src/sql.go\<close>. The lemmas show that
  the digits denote the text's value truncated to the field's scale, that encoding is
  exact, and that the decoders invert the encoders.
\<close>

section \<open>Definitions\<close>

subsection \<open>Text to digits\<close>

definition maxDecimalExponent :: int where
  "maxDecimalExponent = 100000"

text \<open>
  The first half of \<open>decimalTextDigits\<close>: sign, integer digits, fraction digits and the
  decimal exponent of the text.
\<close>

definition splitSign :: "string \<Rightarrow> bool \<times> string" where
  "splitSign s =
     (if s \<noteq> [] \<and> (hd s = CHR ''+'' \<or> hd s = CHR ''-'') then (hd s = CHR ''-'', tl s) else (False, s))"

definition decimalExponent :: "string \<Rightarrow> (string \<times> int) res" where
  "decimalExponent s =
     (case Index (\<lambda>c. c = CHR ''e'' \<or> c = CHR ''E'') s of
        None \<Rightarrow> Inr (s, 0)
      | Some i \<Rightarrow>
          let (neg, body) = splitSign (drop (i + 1) s); sign = (if neg then -1 else 1) in
          if body = [] \<or> \<not> isASCIIDigits body then Inl ErrInvalidNumericText
          else if length body > 9 then Inr (take i s, sign * (maxDecimalExponent + 1))
          else (case ParseInt64 body of
                  Inl _ \<Rightarrow> Inl ErrInvalidNumericText
                | Inr e \<Rightarrow> Inr (take i s, sign * e)))"

definition splitPoint :: "string \<Rightarrow> string \<times> string" where
  "splitPoint s =
     (case Index (\<lambda>c. c = CHR ''.'') s of None \<Rightarrow> (s, []) | Some i \<Rightarrow> (take i s, drop (i + 1) s))"

definition decimalParts :: "string \<Rightarrow> (bool \<times> string \<times> string \<times> int) res" where
  "decimalParts text =
     (let (negative, s) = splitSign (TrimSpace text) in
      res_bind (decimalExponent s) (\<lambda>(mantissa, exp).
        let (intPart, fracPart) = splitPoint mantissa in
        if (intPart = [] \<and> fracPart = []) \<or> \<not> isASCIIDigits intPart \<or> \<not> isASCIIDigits fracPart
        then Inl ErrInvalidNumericText
        else Inr (negative, intPart, fracPart, exp)))"

definition splitAtPoint :: "string \<Rightarrow> int \<Rightarrow> string \<times> string" where
  "splitAtPoint digits point =
     (if point \<le> 0 then ([], rep (nat (- point)) (CHR ''0'') @ digits)
      else if point \<ge> int (length digits) then
        (digits @ rep (nat point - length digits) (CHR ''0''), [])
      else (take (nat point) digits, drop (nat point) digits))"

definition fitFraction :: "nat \<Rightarrow> string \<Rightarrow> string" where
  "fitFraction scale f =
     (if length f > scale then take scale f else f @ rep (scale - length f) (CHR ''0''))"

definition joinDigits :: "nat \<Rightarrow> bool \<Rightarrow> string \<Rightarrow> string \<Rightarrow> string \<times> bool" where
  "joinDigits scale negative intDigits fracDigits0 =
     (let fracDigits = fitFraction scale fracDigits0;
          integerPart = TrimLeft (CHR ''0'') intDigits;
          neg = (if TrimChar (CHR ''0'') (integerPart @ fracDigits) = [] then False else negative) in
      if integerPart = [] then (if fracDigits = [] then (''0'', neg) else (fracDigits, neg))
      else (integerPart @ fracDigits, neg))"

definition decimalTextDigits :: "string \<Rightarrow> int \<Rightarrow> (string \<times> bool) res" where
  "decimalTextDigits text scale0 =
     (let scale = nat (max 0 scale0) in
      res_bind (decimalParts text) (\<lambda>(negative, intPart, fracPart, exp).
        let digits = intPart @ fracPart; point = int (length intPart) + exp;
            tooSmall = (TrimChar (CHR ''0'') digits = [] \<or> point < - maxDecimalExponent) in
        if \<not> tooSmall \<and> point > maxDecimalExponent then Inl (Errorf ''decimal value out of range'' [])
        else Inr (case if tooSmall then splitAtPoint [] 0 else splitAtPoint digits point of
                    (intDigits, fracDigits) \<Rightarrow> joinDigits scale negative intDigits fracDigits)))"

subsection \<open>Packed and zoned encoders\<close>

definition digit_nibble :: "char \<Rightarrow> byte" where
  "digit_nibble c = byte_of_char c - 48"

definition packDecimalDigits :: "string \<Rightarrow> bool \<Rightarrow> parameterMarkerField \<Rightarrow> bytes" where
  "packDecimalDigits digits0 negative field =
     (let digits1 = (if digits0 = [] then ''0'' else digits0);
          tb1 = (if pfLength field \<le> 0 then (pfPrecision field + 2) div 2 else pfLength field);
          targetBytes = nat (if tb1 \<le> 0 then (int (length digits1) + 2) div 2 else tb1);
          digitSlots = (if targetBytes * 2 - 1 < 1 then 1 else targetBytes * 2 - 1);
          digits2 = (if length digits1 > digitSlots then drop (length digits1 - digitSlots) digits1 else digits1);
          digits = zero_pad digitSlots digits2;
          signNibble = (if negative then 0x0D else 0x0C :: byte) in
      map (\<lambda>i. push_bit 4 (digit_nibble (digits ! (i * 2))) OR digit_nibble (digits ! (i * 2 + 1))) [0..<targetBytes - 1]
      @ [push_bit 4 (digit_nibble (last digits)) OR signNibble])"

definition zoneDecimalDigits :: "string \<Rightarrow> bool \<Rightarrow> parameterMarkerField \<Rightarrow> bytes" where
  "zoneDecimalDigits digits0 negative field =
     (let digits1 = (if digits0 = [] then ''0'' else digits0);
          tb1 = (if pfLength field \<le> 0 then pfPrecision field else pfLength field);
          targetBytes = nat (if tb1 \<le> 0 then int (length digits1) else tb1);
          digits2 = (if length digits1 > targetBytes then drop (length digits1 - targetBytes) digits1 else digits1);
          digits = zero_pad targetBytes digits2;
          buf = map (\<lambda>c. 0xF0 OR digit_nibble c) digits in
      if negative then buf[length buf - 1 := 0xD0 OR digit_nibble (last digits)] else buf)"

text \<open>
  \<open>encodePackedOrZonedDecimalParameter\<close>, from the decimal text of the value on
  (\<open>parameterFieldDecimalString\<close>).
\<close>

definition encodeDecimalText :: "string \<Rightarrow> parameterMarkerField \<Rightarrow> bool \<Rightarrow> bytes res" where
  "encodeDecimalText text field packed =
     res_bind (decimalTextDigits text (pfScale field)) (\<lambda>(normalized, negative).
       if pfPrecision field > 0 \<and> int (length normalized) > pfPrecision field
       then Inl (Errorf ''decimal value out of range'' [])
       else if packed then Inr (packDecimalDigits normalized negative field)
       else Inr (zoneDecimalDigits normalized negative field))"

subsection \<open>Packed and zoned decoders\<close>

definition hi_nib :: "byte \<Rightarrow> byte" where
  "hi_nib b = drop_bit 4 b AND 0x0F"

definition lo_nib :: "byte \<Rightarrow> byte" where
  "lo_nib b = b AND 0x0F"

definition digitNibble :: "byte \<Rightarrow> char" where
  "digitNibble nibble = (if nibble > 9 then CHR ''0'' else char_of_byte (48 + nibble))"

fun packedDigits :: "bytes \<Rightarrow> string \<Rightarrow> (string \<times> byte) res" where
  "packedDigits [] digits = Inr (digits, 0x0C)"
| "packedDigits [b] digits =
     (if hi_nib b > 9 then Inl (Errorf ''invalid packed decimal digit nibble 0x%X'' [FInt (uint (hi_nib b))])
      else if lo_nib b < 0x0A then Inl (Errorf ''invalid packed decimal sign nibble 0x%X'' [FInt (uint (lo_nib b))])
      else Inr (digits @ [digitNibble (hi_nib b)], lo_nib b))"
| "packedDigits (b # b' # bs) digits =
     (if hi_nib b > 9 then Inl (Errorf ''invalid packed decimal digit nibble 0x%X'' [FInt (uint (hi_nib b))])
      else if lo_nib b > 9 then Inl (Errorf ''invalid packed decimal digit nibble 0x%X'' [FInt (uint (lo_nib b))])
      else packedDigits (b' # bs) (digits @ [digitNibble (hi_nib b), digitNibble (lo_nib b)]))"

text \<open>Cut or zero-fill to the precision; \<open>digits[len-precision:]\<close> panics for a negative precision.\<close>

definition fitPrecision :: "int \<Rightarrow> string \<Rightarrow> string res" where
  "fitPrecision precision digits =
     (if int (length digits) > precision then
        (if precision < 0 then Inl (Panic ''slice bounds out of range'')
         else Inr (drop (length digits - nat precision) digits))
      else Inr (zero_pad (nat precision) digits))"

definition insertPoint :: "int \<Rightarrow> string \<Rightarrow> string" where
  "insertPoint scale digits =
     (if scale > 0 then
        let ds = (if scale \<ge> int (length digits)
                  then rep (nat scale - length digits + 1) (CHR ''0'') @ digits else digits);
            point = length ds - nat scale in
        take point ds @ [CHR ''.''] @ drop point ds
      else digits)"

definition signPrefix :: "byte \<Rightarrow> string" where
  "signPrefix sign = (if sign = 0x0B \<or> sign = 0x0D then ''-'' else [])"

definition decodePackedDecimalString :: "bytes \<Rightarrow> int \<Rightarrow> int \<Rightarrow> string res" where
  "decodePackedDecimalString data precision scale =
     (if data = [] then Inr ''0''
      else if precision < 0 then Inl (Errorf ''invalid packed decimal precision %d'' [FInt precision])
      else res_bind (packedDigits data []) (\<lambda>(digits, sign).
             res_bind (fitPrecision precision digits) (\<lambda>ds.
               Inr (signPrefix sign @ insertPoint scale ds))))"

fun zonedDigits :: "bytes \<Rightarrow> string \<Rightarrow> (string \<times> byte) res" where
  "zonedDigits [] digits = Inr (digits, 0x0C)"
| "zonedDigits (b # bs) digits =
     (if lo_nib b > 9 then Inl (Errorf ''invalid zoned decimal digit nibble 0x%X'' [FInt (uint (lo_nib b))])
      else if bs = [] then
        (if hi_nib b < 0x0A then Inl (Errorf ''invalid zoned decimal sign nibble 0x%X'' [FInt (uint (hi_nib b))])
         else Inr (digits @ [char_of_byte (48 + lo_nib b)], hi_nib b))
      else zonedDigits bs (digits @ [char_of_byte (48 + lo_nib b)]))"

definition decodeZonedDecimalString :: "bytes \<Rightarrow> int \<Rightarrow> int \<Rightarrow> string res" where
  "decodeZonedDecimalString data precision scale =
     (if data = [] then Inr ''0''
      else res_bind (zonedDigits data []) (\<lambda>(digits, sign).
             res_bind (fitPrecision precision digits) (\<lambda>ds.
               Inr (signPrefix sign @ insertPoint scale ds))))"

section \<open>Lemmas\<close>

subsection \<open>Nibbles\<close>

lemma nibbles_all:
  "list_all (\<lambda>n. list_all (\<lambda>m.
     hi_nib (push_bit 4 (word_of_nat n) OR word_of_nat m) = word_of_nat n \<and>
     lo_nib (push_bit 4 (word_of_nat n) OR word_of_nat m) = word_of_nat m) [0..<16]) [0..<16]"
  by code_simp

lemma nibbles:
  assumes "h \<le> 15" and "l \<le> 15"
  shows "hi_nib (push_bit 4 h OR l) = h" and "lo_nib (push_bit 4 h OR l) = l"
proof -
  have "unat h \<in> set [0..<16]" "unat l \<in> set [0..<16]"
    using assms by (simp_all add: word_le_nat_alt)
  with nibbles_all have "hi_nib (push_bit 4 (word_of_nat (unat h)) OR word_of_nat (unat l)) = word_of_nat (unat h) \<and>
      lo_nib (push_bit 4 (word_of_nat (unat h)) OR word_of_nat (unat l)) = word_of_nat (unat l)"
    unfolding list_all_iff by blast
  then show "hi_nib (push_bit 4 h OR l) = h" and "lo_nib (push_bit 4 h OR l) = l"
    by simp_all
qed

lemma digit_nibble_eq: "is_digit c \<Longrightarrow> digit_nibble c = word_of_nat (digit_val c)"
  by (simp add: digit_nibble_def byte_of_char_def digit_val_def is_digit_def of_nat_diff)

lemma unat_digit_nibble: "is_digit c \<Longrightarrow> unat (digit_nibble c) = digit_val c"
  using digit_val_less [of c] by (simp add: digit_nibble_eq unat_of_nat)

lemma digit_nibble_le: "is_digit c \<Longrightarrow> digit_nibble c \<le> 9"
  using digit_val_less [of c] by (simp add: word_le_nat_alt unat_digit_nibble)

lemma digit_nibble_le15: "is_digit c \<Longrightarrow> digit_nibble c \<le> 15"
  using digit_nibble_le [of c] by (simp add: word_le_nat_alt)

lemma char_digit_nibble: "is_digit c \<Longrightarrow> char_of_byte (48 + digit_nibble c) = c"
  by (simp add: digit_nibble_def byte_of_char_def char_of_byte_def unat_of_nat)

lemma digitNibble_digit_nibble: "is_digit c \<Longrightarrow> digitNibble (digit_nibble c) = c"
  using digit_nibble_le [of c] by (auto simp: digitNibble_def char_digit_nibble dest: leD)

subsection \<open>Packed\<close>

fun packPairs :: "string \<Rightarrow> byte \<Rightarrow> bytes" where
  "packPairs [] s = []"
| "packPairs [c] s = [push_bit 4 (digit_nibble c) OR s]"
| "packPairs (h # l # ds) s = (push_bit 4 (digit_nibble h) OR digit_nibble l) # packPairs ds s"

lemma packPairs_index:
  "length ds = 2 * n + 1 \<Longrightarrow>
   map (\<lambda>i. push_bit 4 (digit_nibble (ds ! (i * 2))) OR digit_nibble (ds ! (i * 2 + 1))) [0..<n]
     @ [push_bit 4 (digit_nibble (last ds)) OR s] = packPairs ds s"
proof (induction n arbitrary: ds)
  case 0
  then show ?case by (cases ds) auto
next
  case (Suc n)
  then obtain h l rest where ds: "ds = h # l # rest" and len: "length rest = 2 * n + 1"
    by (cases ds; cases "tl ds") auto
  have "rest \<noteq> []" using len by auto
  then show ?case using Suc.IH [OF len]
    by (simp add: ds map_upt_Suc del: upt_Suc)
qed

lemma packPairs_nonempty [simp]: "packPairs ds s = [] \<longleftrightarrow> ds = []"
  by (cases "(ds, s)" rule: packPairs.cases) auto

lemma packedDigits_packPairs:
  "isASCIIDigits ds \<Longrightarrow> odd (length ds) \<Longrightarrow> 10 \<le> s \<Longrightarrow> s \<le> 15 \<Longrightarrow>
   packedDigits (packPairs ds s) acc = Inr (acc @ ds, s)"
proof (induction ds s arbitrary: acc rule: packPairs.induct)
  case (1 s)
  then show ?case by simp
next
  case (2 c s)
  then have "is_digit c" by simp
  with 2 digit_nibble_le [of c] show ?case
    by (simp add: nibbles digit_nibble_le15 digitNibble_digit_nibble not_less not_le)
next
  case (3 h l ds s)
  then have h: "is_digit h" and l: "is_digit l" and ds: "ds \<noteq> []" by auto
  then obtain b bs where bs: "packPairs ds s = b # bs" by (metis list.exhaust packPairs_nonempty)
  have "packedDigits (packPairs ds s) ((acc @ [h, l])) = Inr ((acc @ [h, l]) @ ds, s)"
    using 3 by simp
  then show ?case using h l digit_nibble_le [OF h] digit_nibble_le [OF l]
    by (simp add: bs nibbles digit_nibble_le15 digitNibble_digit_nibble not_less)
qed

text \<open>
  The encoder writes the digits, zero-filled to the odd number of digit slots of the
  field, as long as they fit.
\<close>

definition packBytes :: "parameterMarkerField \<Rightarrow> nat \<Rightarrow> nat" where
  "packBytes field n =
     (if pfLength field > 0 then nat (pfLength field)
      else if pfPrecision field \<ge> 0 then nat ((pfPrecision field + 2) div 2)
      else (n + 2) div 2)"

lemma packDecimalDigits_eq:
  assumes "ds \<noteq> []" and "length ds < 2 * packBytes field (length ds)"
  shows "packDecimalDigits ds negative field =
    packPairs (zero_pad (2 * packBytes field (length ds) - 1) ds) (if negative then 0x0D else 0x0C)"
proof -
  let ?n = "packBytes field (length ds)"
  let ?tb = "if pfLength field \<le> 0 then (pfPrecision field + 2) div 2 else pfLength field"
  have tb: "nat (if ?tb \<le> 0 then (int (length ds) + 2) div 2 else ?tb) = ?n"
    unfolding packBytes_def by (auto simp: nat_div_distrib nat_add_distrib)
  have slots: "(if ?n * 2 - 1 < 1 then 1 else ?n * 2 - 1) = 2 * ?n - 1"
    using assms by (cases ds) auto
  have fits: "\<not> length ds > 2 * ?n - 1" using assms(2) by simp
  have len: "length (zero_pad (2 * ?n - 1) ds) = 2 * (?n - 1) + 1"
    unfolding length_zero_pad using assms(2) by arith
  show ?thesis
    unfolding packDecimalDigits_def Let_def
    by (simp only: assms(1) if_False tb slots fits packPairs_index [OF len])
qed

lemma packDecimalDigits_packed:
  assumes "isASCIIDigits ds" and "ds \<noteq> []" and "length ds < 2 * packBytes field (length ds)"
  shows "packedDigits (packDecimalDigits ds negative field) [] =
    Inr (zero_pad (2 * packBytes field (length ds) - 1) ds, if negative then 0x0D else 0x0C)"
proof -
  have "length (zero_pad (2 * packBytes field (length ds) - 1) ds) = 2 * packBytes field (length ds) - 1"
    using assms(3) by simp
  moreover have "odd (2 * packBytes field (length ds) - 1)" using assms(3) by simp
  ultimately have "odd (length (zero_pad (2 * packBytes field (length ds) - 1) ds))" by simp
  then show ?thesis
    using packedDigits_packPairs [of "zero_pad (2 * packBytes field (length ds) - 1) ds"
        "if negative then 0x0D else 0x0C" "[]"] assms
    by (simp add: packDecimalDigits_eq)
qed

subsection \<open>Zoned\<close>

lemma zonedDigits_map:
  assumes "isASCIIDigits ds" and "10 \<le> z" and "z \<le> 15" and "is_digit c"
  shows "zonedDigits (map (\<lambda>c. 0xF0 OR digit_nibble c) ds @ [push_bit 4 z OR digit_nibble c]) acc =
    Inr (acc @ ds @ [c], z)"
  using assms(1)
proof (induction ds arbitrary: acc)
  case Nil
  show ?case using assms(2-4) digit_nibble_le [OF assms(4)]
    by (simp add: nibbles digit_nibble_le15 char_digit_nibble not_less not_le)
next
  case (Cons d ds)
  then have d: "is_digit d" by simp
  have "0xF0 OR digit_nibble d = push_bit 4 15 OR digit_nibble d" by simp
  then have "lo_nib (0xF0 OR digit_nibble d) = digit_nibble d"
    using d by (simp only: nibbles digit_nibble_le15 order_refl)
  then show ?case using Cons d digit_nibble_le [OF d]
    by (simp add: char_digit_nibble not_less)
qed

definition zoneBytes :: "parameterMarkerField \<Rightarrow> nat \<Rightarrow> nat" where
  "zoneBytes field n =
     (if pfLength field > 0 then nat (pfLength field)
      else if pfPrecision field > 0 then nat (pfPrecision field) else n)"

lemma zoneDecimalDigits_zoned:
  assumes "isASCIIDigits ds" and "ds \<noteq> []" and "length ds \<le> zoneBytes field (length ds)"
  shows "zonedDigits (zoneDecimalDigits ds negative field) [] =
    Inr (zero_pad (zoneBytes field (length ds)) ds, if negative then 0x0D else 0x0F)"
proof -
  let ?n = "zoneBytes field (length ds)" and ?zs = "zero_pad (zoneBytes field (length ds)) ds"
  let ?tb = "if pfLength field \<le> 0 then pfPrecision field else pfLength field"
  have tb: "nat (if ?tb \<le> 0 then int (length ds) else ?tb) = ?n"
    unfolding zoneBytes_def by auto
  have fits: "\<not> length ds > ?n" using assms(3) by simp
  obtain ws c where zs: "?zs = ws @ [c]"
    using assms(2) by (metis append_is_Nil_conv rev_exhaust zero_pad_def)
  have dig: "isASCIIDigits ws" "is_digit c"
    using assms(1) zs isASCIIDigits_zero_pad [of ?n ds] by simp_all
  have F0: "0xF0 OR digit_nibble x = push_bit 4 15 OR digit_nibble x"
    and D0: "0xD0 OR digit_nibble x = push_bit 4 13 OR digit_nibble x" for x
    by simp_all
  have "zoneDecimalDigits ds negative field =
      map (\<lambda>c. 0xF0 OR digit_nibble c) ws @ [push_bit 4 (if negative then 0x0D else 0x0F) OR digit_nibble c]"
    unfolding zoneDecimalDigits_def Let_def
    by (simp only: assms(2) if_False tb fits zs) (simp add: list_update_append)
  then show ?thesis using zonedDigits_map [OF dig(1) _ _ dig(2), of "if negative then 0x0D else 0x0F" "[]"]
    by (simp add: zs)
qed

subsection \<open>The value of decimal text\<close>

text \<open>\<open>scaled N k\<close> is \<open>N * 10 ^ k\<close>, truncated towards zero for a negative \<open>k\<close>.\<close>

definition scaled :: "nat \<Rightarrow> int \<Rightarrow> nat" where
  "scaled N k = (if k \<ge> 0 then N * 10 ^ nat k else N div 10 ^ nat (- k))"

lemma scaled_zero [simp]: "scaled 0 k = 0"
  by (simp add: scaled_def)

lemma length_fitFraction [simp]: "length (fitFraction s f) = s"
  by (simp add: fitFraction_def)

lemma isASCIIDigits_fitFraction [simp]: "isASCIIDigits f \<Longrightarrow> isASCIIDigits (fitFraction s f)"
  by (simp add: fitFraction_def)

lemma nat_of_digits_fitFraction:
  assumes "isASCIIDigits f"
  shows "nat_of_digits (fitFraction s f) = scaled (nat_of_digits f) (int s - int (length f))"
proof (cases "length f > s")
  case True
  then have "nat (int (length f) - int s) = length f - s" by simp
  with True assms show ?thesis
    by (simp add: fitFraction_def scaled_def nat_of_digits_take(1))
next
  case False
  then have "nat (int s - int (length f)) = s - length f" by simp
  with False show ?thesis by (simp add: fitFraction_def scaled_def)
qed

lemma splitAtPoint_digits:
  "isASCIIDigits ds \<Longrightarrow> splitAtPoint ds p = (i, f) \<Longrightarrow> isASCIIDigits i \<and> isASCIIDigits f"
  by (auto simp: splitAtPoint_def split: if_splits)

lemma splitAtPoint_value:
  assumes "isASCIIDigits ds" and sp: "splitAtPoint ds p = (i, f)"
  shows "nat_of_digits i * 10 ^ s + nat_of_digits (fitFraction s f) =
    scaled (nat_of_digits ds) (p - int (length ds) + int s)"
proof -
  let ?N = "nat_of_digits ds" and ?L = "length ds"
  have f: "isASCIIDigits f" using splitAtPoint_digits [OF assms] by simp
  consider "p \<le> 0" | "0 < p" "p \<ge> int ?L" | "0 < p" "p < int ?L" by linarith
  then show ?thesis
  proof cases
    case 1
    then have "i = []" and "nat_of_digits f = ?N" and "int (length f) = int ?L - p"
      using sp by (auto simp: splitAtPoint_def)
    moreover from this have "p - int ?L + int s = int s - int (length f)" by linarith
    ultimately show ?thesis using f by (simp only: nat_of_digits_fitFraction) simp
  next
    case 2
    then have i: "i = ds @ rep (nat p - ?L) (CHR ''0'')" and fe: "f = []"
      using sp by (auto simp: splitAtPoint_def)
    define q where "q = nat p - ?L"
    have p: "p = int ?L + int q" using 2 by (simp add: q_def)
    have "nat (p - int ?L + int s) = q + s" using p by simp
    moreover have "0 \<le> p - int ?L + int s" using p by simp
    ultimately show ?thesis
      by (simp add: i fe q_def [symmetric] nat_of_digits_fitFraction scaled_def power_add)
  next
    case 3
    define q where "q = nat p"
    have q: "p = int q" "q < ?L" using 3 by (auto simp: q_def)
    have i: "i = take q ds" and fd: "f = drop q ds"
      using sp 3 by (auto simp: splitAtPoint_def q_def)
    have lf: "length f = ?L - q" using fd by simp
    have N: "?N = nat_of_digits i * 10 ^ (?L - q) + nat_of_digits f"
      using nat_of_digits_append [of i f] i fd by simp
    show ?thesis
    proof (cases "?L - q > s")
      case True
      let ?d = "?L - q - s"
      have pw: "(10::nat) ^ (?L - q) = 10 ^ ?d * 10 ^ s" using True by (simp flip: power_add)
      have k: "nat (- (p - int ?L + int s)) = ?d" "\<not> 0 \<le> p - int ?L + int s" using True q by auto
      have k2: "nat (- (int s - int (length f))) = ?d" "\<not> 0 \<le> int s - int (length f)" using True lf by auto
      have "?N div 10 ^ ?d = nat_of_digits i * 10 ^ s + nat_of_digits f div 10 ^ ?d"
      proof -
        have "?N = nat_of_digits f + (nat_of_digits i * 10 ^ s) * 10 ^ ?d"
          unfolding N pw by (simp add: ac_simps)
        then show ?thesis by (simp only: div_mult_self1 power_not_zero zero_neq_numeral not_False_eq_True)
      qed
      then show ?thesis using f k k2 by (simp add: nat_of_digits_fitFraction scaled_def)
    next
      case False
      let ?d = "s - (?L - q)"
      have pw: "(10::nat) ^ s = 10 ^ (?L - q) * 10 ^ ?d" using False by (simp flip: power_add)
      have k: "nat (p - int ?L + int s) = ?d" "0 \<le> p - int ?L + int s" using False q by auto
      have k2: "nat (int s - int (length f)) = ?d" "0 \<le> int s - int (length f)" using False lf by auto
      have "nat_of_digits i * 10 ^ s + nat_of_digits f * 10 ^ ?d = ?N * 10 ^ ?d"
        unfolding N pw by (simp add: add_mult_distrib)
      then show ?thesis using f k k2 by (simp add: nat_of_digits_fitFraction scaled_def)
    qed
  qed
qed

lemma scaled_underflow:
  assumes "isASCIIDigits ds" and "p < - maxDecimalExponent" and "int s \<le> maxDecimalExponent"
  shows "scaled (nat_of_digits ds) (p - int (length ds) + int s) = 0"
proof -
  have "nat_of_digits ds < 10 ^ length ds" using assms(1) by (rule nat_of_digits_less)
  also have "(10::nat) ^ length ds \<le> 10 ^ nat (- (p - int (length ds) + int s))"
    using assms(2,3) by (intro power_increasing) auto
  finally show ?thesis using assms(2,3) by (simp add: scaled_def)
qed

lemma decimalParts_digits:
  "decimalParts text = Inr (n, i, f, e) \<Longrightarrow> isASCIIDigits i \<and> isASCIIDigits f"
  by (auto simp: decimalParts_def Let_def split_beta res_simps split: if_splits)

lemma decimalTextDigits_value:
  assumes r: "decimalTextDigits text scale = Inr (ds, neg)" and sc: "0 \<le> scale" "scale \<le> maxDecimalExponent"
  shows "\<exists>n i f e. decimalParts text = Inr (n, i, f, e) \<and> isASCIIDigits ds \<and> ds \<noteq> [] \<and>
    nat_of_digits ds = scaled (nat_of_digits (i @ f)) (e - int (length f) + scale) \<and>
    (neg \<longleftrightarrow> n \<and> nat_of_digits ds \<noteq> 0)"
proof -
  obtain n i f e where parts: "decimalParts text = Inr (n, i, f, e)"
    using r by (auto simp: decimalTextDigits_def Let_def res_simps)
  note dig = decimalParts_digits [OF parts]
  define s where "s = nat scale"
  define digits where "digits = i @ f"
  define p where "p = int (length i) + e"
  define small where "small \<longleftrightarrow> TrimChar (CHR ''0'') digits = [] \<or> p < - maxDecimalExponent"
  obtain I F where IF: "(if small then splitAtPoint [] 0 else splitAtPoint digits p) = (I, F)"
    by fastforce
  define fr where "fr = fitFraction s F"
  have s: "nat (max 0 scale) = s" "int s = scale" using sc by (auto simp: s_def)
  have digs: "isASCIIDigits digits" using dig by (simp add: digits_def)
  have val: "nat_of_digits I * 10 ^ s + nat_of_digits fr = scaled (nat_of_digits digits) (p - int (length digits) + int s)"
  proof (cases small)
    case True
    then have "I = []" "F = []" using IF by (auto simp: splitAtPoint_def rep_def)
    moreover have "scaled (nat_of_digits digits) (p - int (length digits) + int s) = 0"
    proof (cases "p < - maxDecimalExponent")
      case True
      then show ?thesis using sc s by (intro scaled_underflow [OF digs]) simp_all
    next
      case False
      with True have "nat_of_digits digits = 0"
        by (simp add: small_def TrimChar_empty_iff nat_of_digits_eq_0 [OF digs])
      then show ?thesis by (simp only: scaled_zero)
    qed
    ultimately show ?thesis by (simp add: fr_def nat_of_digits_fitFraction)
  next
    case False
    then show ?thesis using splitAtPoint_value [OF digs, of p I F s] IF by (simp add: fr_def)
  qed
  have IFd: "isASCIIDigits I" "isASCIIDigits fr"
    using IF splitAtPoint_digits [of "[]" 0 I F] splitAtPoint_digits [OF digs, of p I F]
    by (auto simp: fr_def split: if_splits)
  let ?I = "TrimLeft (CHR ''0'') I"
  let ?neg = "if TrimChar (CHR ''0'') (?I @ fr) = [] then False else n"
  have res: "(ds, neg) = (if ?I = [] then (if fr = [] then (''0'', ?neg) else (fr, ?neg)) else (?I @ fr, ?neg))"
    using r IF unfolding decimalTextDigits_def parts res_bind_Inr Let_def prod.case s(1)
    by (auto simp: fr_def joinDigits_def Let_def small_def digits_def p_def split: if_splits)
  have lfr: "length fr = s" by (simp add: fr_def)
  have all: "nat_of_digits (?I @ fr) = nat_of_digits I * 10 ^ s + nat_of_digits fr"
    by (simp add: lfr)
  have z: "TrimChar (CHR ''0'') (?I @ fr) = [] \<longleftrightarrow> nat_of_digits (?I @ fr) = 0"
    using IFd nat_of_digits_eq_0 [of "?I @ fr"] by (simp add: TrimChar_empty_iff)
  have I0: "?I = [] \<Longrightarrow> nat_of_digits I = 0"
    using nat_of_digits_TrimLeft [of I] by (simp del: nat_of_digits_TrimLeft)
  have dsv: "nat_of_digits ds = nat_of_digits (?I @ fr)" and ds: "isASCIIDigits ds" "ds \<noteq> []" and neg: "neg = ?neg"
    using res IFd I0 by (auto simp: is_digit_def split: if_splits)
  have exp: "p - int (length digits) + int s = e - int (length f) + scale"
    by (simp add: p_def digits_def s)
  have v: "nat_of_digits ds = scaled (nat_of_digits (i @ f)) (e - int (length f) + scale)"
    using dsv all val exp by (simp only: digits_def)
  have "neg \<longleftrightarrow> n \<and> nat_of_digits ds \<noteq> 0" unfolding neg z dsv by simp
  with parts ds v show ?thesis by blast
qed

lemma decimalTextDigits_error:
  "decimalParts text = Inl e \<Longrightarrow> decimalTextDigits text scale = Inl e"
  by (simp add: decimalTextDigits_def)

subsection \<open>Decoding what was encoded\<close>

lemma decodePacked_packDecimalDigits:
  assumes "isASCIIDigits ds" and "ds \<noteq> []" and "0 < pfPrecision f" and "int (length ds) \<le> pfPrecision f"
    and "pfLength f = (pfPrecision f + 2) div 2"
  shows "decodePackedDecimalString (packDecimalDigits ds neg f) (pfPrecision f) scale =
    Inr ((if neg then ''-'' else []) @ insertPoint scale (zero_pad (nat (pfPrecision f)) ds))"
proof -
  define p where "p = nat (pfPrecision f)"
  have p: "pfPrecision f = int p" "0 < p" "length ds \<le> p" using assms by (auto simp: p_def)
  let ?n = "packBytes f (length ds)"
  have "(int p + 2) div 2 = int ((p + 2) div 2)" by simp
  then have n: "?n = (p + 2) div 2" unfolding packBytes_def assms(5) p(1) by simp
  have slots: "p \<le> 2 * ?n - 1" "length ds < 2 * ?n" unfolding n using p(2,3) by arith+
  have dig: "packedDigits (packDecimalDigits ds neg f) [] =
      Inr (zero_pad (2 * ?n - 1) ds, if neg then 0x0D else 0x0C)"
    using assms(1,2) slots(2) by (rule packDecimalDigits_packed)
  have len: "length (zero_pad (2 * ?n - 1) ds) = 2 * ?n - 1" using slots p by simp
  have fit: "fitPrecision (int p) (zero_pad (2 * ?n - 1) ds) = Inr (zero_pad p ds)"
  proof (cases "2 * ?n - 1 = p")
    case True
    show ?thesis unfolding True fitPrecision_def using p(3) by simp
  next
    case False
    then have "int (2 * ?n - 1) > int p" using slots(1) by linarith
    then show ?thesis unfolding fitPrecision_def len
      using drop_zero_pad [OF p(3) slots(1)] by simp
  qed
  have "packDecimalDigits ds neg f \<noteq> []"
    using packDecimalDigits_eq [OF assms(2) slots(2)] assms(2) by (simp add: zero_pad_def)
  then show ?thesis
    using fit by (simp add: decodePackedDecimalString_def dig p(1) signPrefix_def)
qed

lemma decodeZoned_zoneDecimalDigits:
  assumes "isASCIIDigits ds" and "ds \<noteq> []" and "0 < pfPrecision f" and "int (length ds) \<le> pfPrecision f"
    and "pfLength f = pfPrecision f"
  shows "decodeZonedDecimalString (zoneDecimalDigits ds neg f) (pfPrecision f) scale =
    Inr ((if neg then ''-'' else []) @ insertPoint scale (zero_pad (nat (pfPrecision f)) ds))"
proof -
  define p where "p = nat (pfPrecision f)"
  have p: "pfPrecision f = int p" "0 < p" "length ds \<le> p" using assms by (auto simp: p_def)
  have n: "zoneBytes f (length ds) = p" unfolding zoneBytes_def using assms(5) p by simp
  have dig: "zonedDigits (zoneDecimalDigits ds neg f) [] = Inr (zero_pad p ds, if neg then 0x0D else 0x0F)"
    using zoneDecimalDigits_zoned [OF assms(1,2), of f neg] p(3) unfolding n by simp
  then have "zoneDecimalDigits ds neg f \<noteq> []" using assms(2) by (auto simp: zero_pad_def)
  moreover have "fitPrecision (int p) (zero_pad p ds) = Inr (zero_pad p ds)"
    using p by (simp add: fitPrecision_def)
  ultimately show ?thesis
    by (simp add: decodeZonedDecimalString_def dig p(1) signPrefix_def)
qed

text \<open>The text a decoder prints is read back as the same number.\<close>

lemma insertPoint_split:
  assumes "isASCIIDigits D" and "D \<noteq> []" and "0 \<le> scale"
  obtains I F where "splitPoint (insertPoint scale D) = (I, F)" and "insertPoint scale D = (if F = [] then I else I @ CHR ''.'' # F)"
    and "isASCIIDigits I" "isASCIIDigits F" "length F = nat scale" "nat_of_digits (I @ F) = nat_of_digits D"
    and "I \<noteq> []" and "length I \<le> length D + 1"
proof (cases "scale > 0")
  case False
  have "Index (\<lambda>c. c = CHR ''.'') D = None"
    using assms(1) by (auto simp: Index_None isASCIIDigits_def list_all_iff is_digit_def)
  with False assms that [of D "[]"] show ?thesis by (simp add: insertPoint_def splitPoint_def)
next
  case True
  define s where "s = nat scale"
  define E where "E = (if scale \<ge> int (length D) then rep (s - length D + 1) (CHR ''0'') @ D else D)"
  define I where "I = take (length E - s) E"
  define F where "F = drop (length E - s) E"
  have s: "scale = int s" "0 < s" using True by (auto simp: s_def)
  have E: "isASCIIDigits E" "s < length E" "nat_of_digits E = nat_of_digits D" "length E - s \<le> length D + 1"
    using assms(1) by (auto simp: E_def s)
  have ip: "insertPoint scale D = I @ CHR ''.'' # F"
    using True by (simp add: insertPoint_def Let_def I_def F_def E_def s)
  have IF: "isASCIIDigits I" "isASCIIDigits F" "length F = s" "I @ F = E" "I \<noteq> []"
    using E by (auto simp: I_def F_def)
  have tw: "takeWhile (\<lambda>c. c \<noteq> CHR ''.'') (I @ CHR ''.'' # F) = I"
    using IF(1) by (subst takeWhile_append2) (auto simp: isASCIIDigits_def list_all_iff is_digit_def)
  have "splitPoint (I @ CHR ''.'' # F) = (I, F)"
    by (simp add: splitPoint_def Index_def tw)
  moreover have "length I \<le> length D + 1" using E(4) by (simp add: I_def)
  moreover have "F \<noteq> []" using IF(3) s by auto
  ultimately show ?thesis using that [of I F] ip IF E s by simp
qed

lemma decimalParts_printed:
  assumes "isASCIIDigits D" and "D \<noteq> []" and "0 \<le> scale"
  shows "\<exists>I F. decimalParts ((if neg then ''-'' else []) @ insertPoint scale D) = Inr (neg, I, F, 0) \<and>
    length F = nat scale \<and> nat_of_digits (I @ F) = nat_of_digits D \<and> length I \<le> length D + 1"
proof -
  obtain I F where sp: "splitPoint (insertPoint scale D) = (I, F)"
    and ip: "insertPoint scale D = (if F = [] then I else I @ CHR ''.'' # F)"
    and IF: "isASCIIDigits I" "isASCIIDigits F" "length F = nat scale" "nat_of_digits (I @ F) = nat_of_digits D"
    "I \<noteq> []" "length I \<le> length D + 1"
    using insertPoint_split [OF assms] by metis
  let ?t = "insertPoint scale D" and ?s = "(if neg then ''-'' else []) @ insertPoint scale D"
  have hd: "is_digit (hd ?t)" and ne: "?t \<noteq> []"
    using IF ip by (auto simp: hd_append isASCIIDigits_def list_all_iff)
  have lst: "is_digit (last ?t)"
    using IF ip by (auto simp: isASCIIDigits_def list_all_iff)
  have trim: "TrimSpace ?s = ?s"
    using hd lst ne by (intro TrimSpace_plain) (auto simp: is_digit_plain hd_append, simp add: plain_char_def)
  have sign: "splitSign ?s = (neg, ?t)"
    using hd ne by (auto simp: splitSign_def is_digit_def)
  have "\<forall>c \<in> set ?t. is_digit c \<or> c = CHR ''.''"
    using IF ip by (auto simp: isASCIIDigits_def list_all_iff)
  then have "Index (\<lambda>c. c = CHR ''e'' \<or> c = CHR ''E'') ?t = None"
    by (auto simp: Index_None is_digit_def)
  then have "decimalExponent ?t = Inr (?t, 0)" by (simp add: decimalExponent_def)
  then have "decimalParts ?s = Inr (neg, I, F, 0)"
    unfolding decimalParts_def trim sign using sp IF by simp
  with IF show ?thesis by blast
qed

lemma decimalTextDigits_succeeds:
  assumes "decimalParts text = Inr (n, i, f, e)" and "int (length i) + e \<le> maxDecimalExponent"
  shows "\<exists>ds neg. decimalTextDigits text scale = Inr (ds, neg)"
  using assms by (auto simp: decimalTextDigits_def Let_def split: prod.splits)

lemma printed_decimal_digits:
  assumes "isASCIIDigits D" and "D \<noteq> []" and "0 \<le> scale" and "int (length D) < maxDecimalExponent"
    and "scale \<le> maxDecimalExponent" and "neg \<Longrightarrow> nat_of_digits D \<noteq> 0"
  shows "\<exists>ds. decimalTextDigits ((if neg then ''-'' else []) @ insertPoint scale D) scale = Inr (ds, neg) \<and>
    isASCIIDigits ds \<and> ds \<noteq> [] \<and> nat_of_digits ds = nat_of_digits D"
proof -
  let ?s = "(if neg then ''-'' else []) @ insertPoint scale D"
  obtain I F where parts: "decimalParts ?s = Inr (neg, I, F, 0)"
    and F: "length F = nat scale" and v: "nat_of_digits (I @ F) = nat_of_digits D" and I: "length I \<le> length D + 1"
    using decimalParts_printed [OF assms(1-3)] by blast
  have "int (length I) + 0 \<le> maxDecimalExponent" using I assms(4) by simp
  then obtain ds neg' where r: "decimalTextDigits ?s scale = Inr (ds, neg')"
    using decimalTextDigits_succeeds [OF parts] by blast
  have "scaled (nat_of_digits D) (0 - int (length F) + scale) = nat_of_digits D"
    using F assms(3) by (simp add: scaled_def)
  with decimalTextDigits_value [OF r assms(3,5)] parts v
  have "isASCIIDigits ds" "ds \<noteq> []" "nat_of_digits ds = nat_of_digits D" "neg' \<longleftrightarrow> neg \<and> nat_of_digits ds \<noteq> 0"
    by (auto simp del: nat_of_digits_append)
  moreover from this assms(6) have "neg' = neg" by auto
  ultimately show ?thesis using r by metis
qed

lemma packDecimalDigits_cong:
  assumes "isASCIIDigits a" "isASCIIDigits b" "a \<noteq> []" "b \<noteq> []" "nat_of_digits a = nat_of_digits b"
    and "0 < pfLength f" "length a < 2 * nat (pfLength f)" "length b < 2 * nat (pfLength f)"
  shows "packDecimalDigits a neg f = packDecimalDigits b neg f"
proof -
  let ?w = "2 * nat (pfLength f) - 1"
  have "zero_pad ?w a = zero_pad ?w b" using assms by (intro zero_pad_eqI) auto
  moreover have "packBytes f n = nat (pfLength f)" for n using assms(6) by (simp add: packBytes_def)
  ultimately show ?thesis
    using assms packDecimalDigits_eq [of a f neg] packDecimalDigits_eq [of b f neg] by simp
qed

lemma zoneDecimalDigits_cong:
  assumes "isASCIIDigits a" "isASCIIDigits b" "a \<noteq> []" "b \<noteq> []" "nat_of_digits a = nat_of_digits b"
    and "0 < pfLength f" "length a \<le> nat (pfLength f)" "length b \<le> nat (pfLength f)"
  shows "zoneDecimalDigits a neg f = zoneDecimalDigits b neg f"
proof -
  let ?w = "nat (pfLength f)"
  have "zero_pad ?w a = zero_pad ?w b" using assms by (intro zero_pad_eqI) auto
  then show ?thesis using assms by (simp add: zoneDecimalDigits_def Let_def)
qed

text \<open>
  A field as the server describes it: the storage length that belongs to the precision,
  and a scale between 0 and the precision.
\<close>

definition decimal_field :: "parameterMarkerField \<Rightarrow> bool \<Rightarrow> bool" where
  "decimal_field f packed \<longleftrightarrow>
     0 < pfPrecision f \<and> pfPrecision f < maxDecimalExponent \<and> 0 \<le> pfScale f \<and> pfScale f \<le> pfPrecision f \<and>
     pfLength f = (if packed then (pfPrecision f + 2) div 2 else pfPrecision f)"

definition decodeDecimal :: "bool \<Rightarrow> bytes \<Rightarrow> int \<Rightarrow> int \<Rightarrow> string res" where
  "decodeDecimal packed = (if packed then decodePackedDecimalString else decodeZonedDecimalString)"

lemma encodeDecimalText_Inr:
  assumes "encodeDecimalText text f packed = Inr raw" and "decimalTextDigits text (pfScale f) = Inr (ds, neg)"
    and "decimal_field f packed"
  shows "int (length ds) \<le> pfPrecision f"
    and "raw = (if packed then packDecimalDigits ds neg f else zoneDecimalDigits ds neg f)"
  using assms by (simp_all add: encodeDecimalText_def decimal_field_def split: if_splits)

lemma decode_encodeDecimalText:
  assumes e: "encodeDecimalText text f packed = Inr raw" and f: "decimal_field f packed"
    and d: "decimalTextDigits text (pfScale f) = Inr (ds, neg)"
  shows "decodeDecimal packed raw (pfPrecision f) (pfScale f) =
    Inr ((if neg then ''-'' else []) @ insertPoint (pfScale f) (zero_pad (nat (pfPrecision f)) ds))"
proof -
  have fits: "int (length ds) \<le> pfPrecision f"
    and raw: "raw = (if packed then packDecimalDigits ds neg f else zoneDecimalDigits ds neg f)"
    using encodeDecimalText_Inr [OF e d f] by simp_all
  have dig: "isASCIIDigits ds" "ds \<noteq> []"
    using decimalTextDigits_value [OF d] f by (auto simp: decimal_field_def)
  show ?thesis
  proof (cases packed)
    case True
    then show ?thesis using decodePacked_packDecimalDigits [OF dig, of f neg "pfScale f"] f fits raw
      by (simp add: decodeDecimal_def decimal_field_def)
  next
    case False
    then show ?thesis using decodeZoned_zoneDecimalDigits [OF dig, of f neg "pfScale f"] f fits raw
      by (simp add: decodeDecimal_def decimal_field_def)
  qed
qed

lemma encodeDecimalText_cong:
  assumes "decimalTextDigits t1 (pfScale f) = Inr (a, neg)" "decimalTextDigits t2 (pfScale f) = Inr (b, neg)"
    and "nat_of_digits a = nat_of_digits b" and f: "decimal_field f packed"
    and "encodeDecimalText t1 f packed = Inr raw" and lb: "int (length b) \<le> pfPrecision f"
  shows "encodeDecimalText t2 f packed = Inr raw"
proof -
  have dig: "isASCIIDigits a" "a \<noteq> []" "isASCIIDigits b" "b \<noteq> []"
    using decimalTextDigits_value [OF assms(1)] decimalTextDigits_value [OF assms(2)] f
    by (auto simp: decimal_field_def)
  have la: "int (length a) \<le> pfPrecision f"
    and raw: "raw = (if packed then packDecimalDigits a neg f else zoneDecimalDigits a neg f)"
    using encodeDecimalText_Inr [OF assms(5,1) f] by simp_all
  have "raw = (if packed then packDecimalDigits b neg f else zoneDecimalDigits b neg f)"
  proof (cases packed)
    case True
    then have "pfPrecision f < 2 * pfLength f" "0 < pfLength f" using f by (auto simp: decimal_field_def)
    then have "length a < 2 * nat (pfLength f)" "length b < 2 * nat (pfLength f)" using la lb by linarith+
    then show ?thesis
      using True raw packDecimalDigits_cong [OF dig(1,3,2,4) assms(3) \<open>0 < pfLength f\<close>] by simp
  next
    case False
    then have "0 < pfLength f" "length a \<le> nat (pfLength f)" "length b \<le> nat (pfLength f)"
      using f la lb by (auto simp: decimal_field_def)
    then show ?thesis
      using False raw zoneDecimalDigits_cong [OF dig(1,3,2,4) assms(3)] by simp
  qed
  then show ?thesis using assms(2) lb by (simp add: encodeDecimalText_def)
qed

lemma decimalTextDigits_shape:
  assumes "decimalTextDigits text scale = Inr (ds, neg)"
  shows "length ds = max 1 (nat (max 0 scale)) \<or> (ds \<noteq> [] \<and> hd ds \<noteq> CHR ''0'')"
proof -
  have *: "TrimLeft (CHR ''0'') x = [] \<or> hd (TrimLeft (CHR ''0'') x) \<noteq> CHR ''0''" for x
    using hd_dropWhile [of "\<lambda>c. c = CHR ''0''" x] by (auto simp: TrimLeft_def)
  let ?s = "nat (max 0 scale)"
  obtain n I F where "(ds, neg) = joinDigits ?s n I F"
    using assms by (simp add: decimalTextDigits_def Let_def split_beta res_simps split: if_splits) metis+
  then have "ds = ''0'' \<and> fitFraction ?s F = [] \<or> ds = fitFraction ?s F \<and> ds \<noteq> [] \<or>
      TrimLeft (CHR ''0'') I \<noteq> [] \<and> ds = TrimLeft (CHR ''0'') I @ fitFraction ?s F"
    by (auto simp: joinDigits_def Let_def split: if_splits)
  then show ?thesis
  proof (elim disjE conjE)
    assume "ds = ''0''" "fitFraction ?s F = []"
    then have "?s = 0" "length ds = 1" using length_fitFraction [of ?s F] by auto
    then show ?thesis by simp
  next
    assume "ds = fitFraction ?s F" "ds \<noteq> []"
    from \<open>ds \<noteq> []\<close> have "length ds \<noteq> 0" by simp
    moreover have "length ds = ?s" using \<open>ds = fitFraction ?s F\<close> length_fitFraction by metis
    ultimately show ?thesis by simp
  next
    assume "TrimLeft (CHR ''0'') I \<noteq> []" "ds = TrimLeft (CHR ''0'') I @ fitFraction ?s F"
    then show ?thesis using * [of I] by simp
  qed
qed

lemma leading_digit_lower:
  assumes "isASCIIDigits ds" "ds \<noteq> []" "hd ds \<noteq> CHR ''0''"
  shows "10 ^ (length ds - 1) \<le> nat_of_digits ds"
proof -
  obtain c cs where ds: "ds = c # cs" using assms(2) by (cases ds) auto
  then have "1 \<le> digit_val c" using assms digit_val_eq_0 [of c] by (cases "digit_val c") auto
  then have "1 * 10 ^ length cs \<le> digit_val c * 10 ^ length cs" by (rule mult_le_mono1)
  then have "10 ^ length cs \<le> nat_of_digits ds" unfolding ds nat_of_digits_simps by linarith
  then show ?thesis by (simp add: ds)
qed

lemma decimalTextDigits_short:
  assumes "decimalTextDigits text scale = Inr (ds, neg)" and "isASCIIDigits ds"
    and "nat_of_digits ds < 10 ^ p" and "0 < p" and "nat (max 0 scale) \<le> p"
  shows "length ds \<le> p"
  using decimalTextDigits_shape [OF assms(1)]
proof
  assume "length ds = max 1 (nat (max 0 scale))"
  then show ?thesis using assms(4,5) by simp
next
  assume "ds \<noteq> [] \<and> hd ds \<noteq> CHR ''0''"
  then have "(10::nat) ^ (length ds - 1) < 10 ^ p"
    using leading_digit_lower [OF assms(2)] assms(3) by (meson le_less_trans)
  then have "length ds - 1 < p" by simp
  then show ?thesis by simp
qed

section \<open>Properties\<close>

text \<open>
  C29. A DECIMAL (packed) or NUMERIC (zoned) parameter that is accepted holds exactly the
  value of its text, truncated towards zero to the field's scale: the decoder prints the
  digits of \<open>|text| * 10 ^ scale\<close>, zero-filled to the precision, with a minus sign only
  for a negative non-zero result.
\<close>

theorem decimal_parameter_exact:
  assumes "encodeDecimalText text f packed = Inr raw" and "decimal_field f packed"
  shows "\<exists>n i fr e ds neg. decimalParts text = Inr (n, i, fr, e) \<and>
    isASCIIDigits ds \<and> int (length ds) \<le> pfPrecision f \<and>
    nat_of_digits ds = scaled (nat_of_digits (i @ fr)) (e - int (length fr) + pfScale f) \<and>
    (neg \<longleftrightarrow> n \<and> nat_of_digits ds \<noteq> 0) \<and>
    decodeDecimal packed raw (pfPrecision f) (pfScale f) =
      Inr ((if neg then ''-'' else []) @ insertPoint (pfScale f) (zero_pad (nat (pfPrecision f)) ds))"
proof -
  obtain ds neg where d: "decimalTextDigits text (pfScale f) = Inr (ds, neg)"
    using assms(1) by (auto simp: encodeDecimalText_def res_simps)
  have "0 \<le> pfScale f" "pfScale f \<le> maxDecimalExponent" using assms(2) by (auto simp: decimal_field_def)
  with decimalTextDigits_value [OF d] encodeDecimalText_Inr(1) [OF assms(1) d assms(2)]
    decode_encodeDecimalText [OF assms d]
  show ?thesis by blast
qed

definition example_field :: parameterMarkerField where
  "example_field = \<lparr>pfName = [], pfSQLType = 484, pfLength = 3, pfScale = 2, pfPrecision = 5, pfCCSID = 0,
     pfParameterType = 0, pfLOBLocator = -1, pfLOBMaxSize = -1, pfBidi = None\<rparr>"

theorem decimal_parameter_exact_witness:
  "encodeDecimalText ''-12.349'' example_field True = Inr [0x01, 0x23, 0x4D] \<and> decimal_field example_field True \<and>
   decodeDecimal True [0x01, 0x23, 0x4D] 5 2 = Inr ''-012.34'' \<and>
   (\<exists>n i fr e ds neg. decimalParts ''-12.349'' = Inr (n, i, fr, e) \<and>
     nat_of_digits ds = scaled (nat_of_digits (i @ fr)) (e - int (length fr) + 2))"
proof -
  have 1: "encodeDecimalText ''-12.349'' example_field True = Inr [0x01, 0x23, 0x4D]" by code_simp
  have 2: "decimal_field example_field True" by code_simp
  have 3: "decodeDecimal True [0x01, 0x23, 0x4D] 5 2 = Inr ''-012.34''" by code_simp
  have "pfScale example_field = 2" by (simp add: example_field_def)
  with decimal_parameter_exact [OF 1 2] show ?thesis using 1 2 3 by auto
qed

text \<open>
  Round trip of decimal parameters: the text the driver decodes from an encoded
  DECIMAL or NUMERIC value encodes to the same bytes again, so a value read from a column
  can be bound unchanged.
\<close>

theorem decimal_reencode:
  assumes "encodeDecimalText text f packed = Inr raw" and "decimal_field f packed"
  shows "\<exists>out. decodeDecimal packed raw (pfPrecision f) (pfScale f) = Inr out \<and>
    encodeDecimalText out f packed = Inr raw"
proof -
  obtain ds neg where d: "decimalTextDigits text (pfScale f) = Inr (ds, neg)"
    using assms(1) by (auto simp: encodeDecimalText_def res_simps)
  have f: "0 < pfPrecision f" "pfPrecision f < maxDecimalExponent" "0 \<le> pfScale f" "pfScale f \<le> pfPrecision f"
    using assms(2) by (auto simp: decimal_field_def)
  define p where "p = nat (pfPrecision f)"
  let ?D = "zero_pad p ds" and ?out = "(if neg then ''-'' else []) @ insertPoint (pfScale f) (zero_pad p ds)"
  have dig: "isASCIIDigits ds" "ds \<noteq> []" "neg \<Longrightarrow> nat_of_digits ds \<noteq> 0"
    using decimalTextDigits_value [OF d] f by auto
  have len: "length ds \<le> p" using encodeDecimalText_Inr(1) [OF assms(1) d assms(2)] by (simp add: p_def)
  have D: "isASCIIDigits ?D" "?D \<noteq> []" "int (length ?D) < maxDecimalExponent"
    using dig len f by (auto simp: p_def zero_pad_def)
  obtain ds2 where r: "decimalTextDigits ?out (pfScale f) = Inr (ds2, neg)" "isASCIIDigits ds2"
    "nat_of_digits ds2 = nat_of_digits ?D"
    using printed_decimal_digits [OF D(1,2) f(3) D(3), of neg] f dig(3) by auto
  have "nat_of_digits ds2 < 10 ^ p" using nat_of_digits_less [OF D(1)] r(3) len by simp
  then have "length ds2 \<le> p"
    using f by (intro decimalTextDigits_short [OF r(1,2)]) (auto simp: p_def)
  then have "int (length ds2) \<le> pfPrecision f" using f by (simp add: p_def)
  then have "encodeDecimalText ?out f packed = Inr raw"
    using encodeDecimalText_cong [OF d r(1) _ assms(2,1)] r(3) by simp
  moreover have "decodeDecimal packed raw (pfPrecision f) (pfScale f) = Inr ?out"
    using decode_encodeDecimalText [OF assms d] by (simp add: p_def)
  ultimately show ?thesis by blast
qed

theorem decimal_reencode_witness:
  "encodeDecimalText ''7.5'' example_field True = Inr [0x00, 0x75, 0x0C] \<and>
   (\<exists>out. decodeDecimal True [0x00, 0x75, 0x0C] (pfPrecision example_field) (pfScale example_field) = Inr out \<and>
     encodeDecimalText out example_field True = Inr [0x00, 0x75, 0x0C])"
proof -
  have 1: "encodeDecimalText ''7.5'' example_field True = Inr [0x00, 0x75, 0x0C]" by code_simp
  have 2: "decimal_field example_field True" by code_simp
  from decimal_reencode [OF 1 2] 1 show ?thesis by blast
qed

text \<open>
  Malformed decimal text is refused, never read as zero: without a digit, or with
  anything but digits around one decimal point and a well-formed exponent, the encoder
  returns the invalid-number error.
\<close>

theorem decimal_text_rejected:
  assumes "splitSign (TrimSpace text) = (negative, s)" and "decimalExponent s = Inr (mantissa, exp)"
    and "splitPoint mantissa = (i, fr)" and "i = [] \<and> fr = [] \<or> \<not> isASCIIDigits i \<or> \<not> isASCIIDigits fr"
  shows "encodeDecimalText text f packed = Inl ErrInvalidNumericText"
  using assms by (auto simp: encodeDecimalText_def decimalTextDigits_def decimalParts_def)

theorem decimal_text_rejected_witness:
  "encodeDecimalText ''1.2.3'' example_field True = Inl ErrInvalidNumericText \<and>
   encodeDecimalText '' '' example_field False = Inl ErrInvalidNumericText"
proof
  show "encodeDecimalText ''1.2.3'' example_field True = Inl ErrInvalidNumericText"
    by (rule decimal_text_rejected [of _ False "''1.2.3''" "''1.2.3''" 0 "''1''" "''2.3''"]) code_simp+
  show "encodeDecimalText '' '' example_field False = Inl ErrInvalidNumericText"
    by (rule decimal_text_rejected [of _ False "[]" "[]" 0 "[]" "[]"]) code_simp+
qed

text \<open>
  The two decimal decoders treat a negative precision differently: the packed decoder
  returns an error for every non-empty value, while the zoned decoder slices with a negative
  length and panics whenever the digits themselves are valid.
\<close>

theorem negative_precision:
  assumes "precision < 0" and "data \<noteq> []" and "zonedDigits data [] = Inr r"
  shows "decodePackedDecimalString data' precision scale \<noteq> Inl (Panic m) \<and>
    decodeZonedDecimalString data precision scale = Inl (Panic ''slice bounds out of range'')"
  using assms by (auto simp: decodePackedDecimalString_def decodeZonedDecimalString_def fitPrecision_def
      split: prod.splits)

theorem negative_precision_witness:
  "decodeZonedDecimalString [0xF1] (-1) 0 = Inl (Panic ''slice bounds out of range'') \<and>
   decodePackedDecimalString [0x1C] (-1) 0 \<noteq> Inl (Panic ''slice bounds out of range'')"
proof -
  have "zonedDigits [0xF1] [] = Inr (''1'', 0x0F)" by code_simp
  then show ?thesis using negative_precision [of "-1" "[0xF1]" "(''1'', 0x0F)"] by simp
qed

end
