(* ===== verification/Parse.thy ===== *)
theory Parse
  imports Reader Decimal Ccsid
begin

text \<open>
  The payload parsers of \<open>src/sql.go\<close>: column descriptors, data formats, result data,
  SQLCA and parameter-marker formats; with \<open>sqlerrmcTokens\<close> of \<open>src/sqlerror_text.go\<close>. The
  conversion tables are the argument \<open>fs\<close> wherever a parser decodes text. Parsers that index
  the payload directly use \<open>sub_slice\<close> and \<open>index_at\<close>, which panic out of range, so that the
  absence of panics is something to prove.
\<close>

section \<open>Definitions\<close>

definition rd_lift :: "'a res \<Rightarrow> 'a rd" where
  "rd_lift m r = res_bind m (\<lambda>x. Inr (x, r))"

definition index_at :: "nat \<Rightarrow> 'a list \<Rightarrow> 'a res" where
  "index_at i xs = (if i < length xs then Inr (xs ! i) else Inl (Panic ''index out of range''))"

subsection \<open>Extended column descriptors\<close>

definition upd_col :: "nat \<Rightarrow> (columnMeta \<Rightarrow> columnMeta) \<Rightarrow> resultSetMeta \<Rightarrow> resultSetMeta" where
  "upd_col i f m = m\<lparr>rmColumns := (rmColumns m)[i := f (rmColumns m ! i)]\<rparr>"

definition set_attributes :: "byte \<Rightarrow> byte \<Rightarrow> u16 \<Rightarrow> columnMeta \<Rightarrow> columnMeta" where
  "set_attributes updateable searchable bm c = c\<lparr>
     cUpdateable := uint updateable, cSearchable := uint searchable,
     cIsIdentity := (bm AND 0x8000 \<noteq> 0), cIsAlwaysGenerated := (bm AND 0x4000 = 0),
     cIsPartOfAnyIndex := (bm AND 0x2000 \<noteq> 0), cIsLoneUniqueIndex := (bm AND 0x1000 \<noteq> 0),
     cIsPartOfUniqueIndex := (bm AND 0x0800 \<noteq> 0), cIsExpression := (bm AND 0x0400 \<noteq> 0),
     cIsPrimaryKey := (bm AND 0x0200 \<noteq> 0), cIsNamed := (bm AND 0x0100 = 0),
     cIsRowID := (bm AND 0x0080 \<noteq> 0), cIsRowChangeTimestamp := (bm AND 0x0040 \<noteq> 0)\<rparr>"

text \<open>One turn of the first loop: the column's attributes, the offset and length of its section.\<close>

definition columnHeader :: "nat \<Rightarrow> resultSetMeta \<Rightarrow> (resultSetMeta \<times> int \<times> int) rd" where
  "columnHeader i meta =
     rd_bind readU8 (\<lambda>updateable. rd_bind readU8 (\<lambda>searchable. rd_bind readU16 (\<lambda>bm.
     rd_bind readU32 (\<lambda>offset. rd_bind readU32 (\<lambda>len. rd_bind (skip 4) (\<lambda>_.
       if unat offset < 6
       then (\<lambda>r. Inl (Errorf ''invalid extended column descriptor offset: %d'' [FInt (uint offset)]))
       else rd_return (upd_col i (set_attributes updateable searchable bm) meta, uint offset - 6, uint len)))))))"

fun columnHeaders :: "nat \<Rightarrow> nat \<Rightarrow> resultSetMeta \<Rightarrow> (resultSetMeta \<times> (int \<times> int) list) rd" where
  "columnHeaders i 0 meta = rd_return (meta, [])"
| "columnHeaders i (Suc k) meta =
     rd_bind (columnHeader i meta) (\<lambda>(meta', ol).
       rd_bind (columnHeaders (Suc i) k meta') (\<lambda>(meta'', ols). rd_return (meta'', ol # ols)))"

definition set_text :: "u16 \<Rightarrow> string \<Rightarrow> columnMeta \<Rightarrow> columnMeta" where
  "set_text cp s c =
     (if cp = 0x3900 then c\<lparr>cBaseColumnName := s\<rparr> else if cp = 0x3901 then c\<lparr>cBaseTableName := s\<rparr>
      else if cp = 0x3902 then c\<lparr>cLabel := s\<rparr> else if cp = 0x3904 then c\<lparr>cBaseSchemaName := s\<rparr>
      else if cp = 0x3905 then c\<lparr>cSQLFromTable := s\<rparr> else if cp = 0x3906 then c\<lparr>cSQLFromSchema := s\<rparr>
      else c)"

definition descriptorText :: "tables \<Rightarrow> u16 \<Rightarrow> int \<Rightarrow> string rd" where
  "descriptorText fs cp payloadLength =
     (if cp = 0x3902 then
        rd_bind readU16 (\<lambda>cid. rd_bind (readBytes (payloadLength - 2)) (\<lambda>b.
          rd_lift (decodeTextByCCSID fs b (if uint cid = 65535 then 37 else uint cid))))
      else rd_bind (readBytes payloadLength) (\<lambda>b. rd_lift (decodeTextByCCSID fs b 37)))"

definition descriptor :: "tables \<Rightarrow> nat \<Rightarrow> resultSetMeta \<Rightarrow> resultSetMeta rd" where
  "descriptor fs i meta =
     rd_bind readU32 (\<lambda>descriptorLength. rd_bind readU16 (\<lambda>cp.
       rd_bind (descriptorText fs cp (uint descriptorLength - 6)) (\<lambda>s.
         rd_return (upd_col i (set_text cp s) meta))))"

lemma moves_lift [intro, simp]: "moves (rd_lift m)"
  by (auto simp: moves_def rd_lift_def res_simps)

lemma moves_descriptorText [simp]: "moves (descriptorText fs cp n)"
  by (auto simp: descriptorText_def)

lemma readU32_advance:
  "readU32 r = Inr (x, r') \<Longrightarrow> r' = advance 4 r \<and> in_bounds r' \<and> in_bounds r"
  by (auto simp: readU32_def remaining_def in_bounds_def advance_def split: if_splits)

lemma rd_bind_Inr: "rd_bind m f r = Inr (y, r'') \<longleftrightarrow> (\<exists>x r'. m r = Inr (x, r') \<and> f x r' = Inr (y, r''))"
  by (auto simp: rd_bind_def res_simps)

lemma descriptor_advance:
  assumes "descriptor fs i meta r = Inr (meta', r')"
  shows "srPos r < srPos r' \<and> srData r' = srData r \<and> in_bounds r'"
proof -
  obtain x r1 where r1: "readU32 r = Inr (x, r1)" and
    rest: "rd_bind readU16 (\<lambda>cp. rd_bind (descriptorText fs cp (uint x - 6)) (\<lambda>s.
         rd_return (upd_col i (set_text cp s) meta))) r1 = Inr (meta', r')"
    using assms unfolding descriptor_def rd_bind_Inr by blast
  note a = readU32_advance [OF r1]
  have "moves (rd_bind readU16 (\<lambda>cp. rd_bind (descriptorText fs cp (uint x - 6)) (\<lambda>s.
         rd_return (upd_col i (set_text cp s) meta))))" by (intro moves_bind) simp_all
  from movesD [OF this _ rest] a show ?thesis by (auto simp: advance_def)
qed

function sectionLoop :: "tables \<Rightarrow> nat \<Rightarrow> nat \<Rightarrow> int \<Rightarrow> resultSetMeta \<Rightarrow> resultSetMeta rd" where
  "sectionLoop fs i start len meta r =
     (let done = int (srPos r) - int start in
      if \<not> done < len then Inr (meta, r)
      else if len - done < 6 then res_bind (skip (len - done) r) (\<lambda>(_, r'). Inr (meta, r'))
      else case descriptor fs i meta r of
        Inl e \<Rightarrow> Inl e
      | Inr (meta', r') \<Rightarrow> sectionLoop fs i start len meta' r')"
  by pat_completeness auto
termination
  by (relation "measure (\<lambda>(fs, i, start, len, meta, r). length (srData r) - srPos r)")
     (auto simp: in_bounds_def dest!: descriptor_advance)

declare sectionLoop.simps [simp del]

definition columnSection :: "tables \<Rightarrow> nat \<Rightarrow> int \<Rightarrow> int \<Rightarrow> resultSetMeta \<Rightarrow> resultSetMeta rd" where
  "columnSection fs i offset len meta r =
     res_bind (if offset > int (srPos r) then skip (offset - int (srPos r)) r else Inr ((), r))
       (\<lambda>(_, r1). sectionLoop fs i (srPos r1) len meta r1)"

fun columnSections :: "tables \<Rightarrow> nat \<Rightarrow> (int \<times> int) list \<Rightarrow> resultSetMeta \<Rightarrow> resultSetMeta rd" where
  "columnSections fs i [] meta = rd_return meta"
| "columnSections fs i ((offset, len) # ols) meta =
     rd_bind (columnSection fs i offset len meta) (\<lambda>meta'. columnSections fs (Suc i) ols meta')"

definition parseExtendedColumnDescriptors :: "tables \<Rightarrow> bytes \<Rightarrow> resultSetMeta \<Rightarrow> resultSetMeta res" where
  "parseExtendedColumnDescriptors fs payload meta =
     res_bind (rd_bind readU32 (\<lambda>numColumns.
       rd_bind (rd_lift (ensureColumns meta (uint numColumns))) (\<lambda>meta1.
       rd_bind (skip 6) (\<lambda>_.
       rd_bind (columnHeaders 0 (unat numColumns) meta1) (\<lambda>(meta2, ols).
         columnSections fs 0 ols meta2)))) (newSliceReader payload))
       (\<lambda>(m, _). Inr m)"

subsection \<open>Super extended data format\<close>

record fieldRecord =
  frType :: u16
  frLength :: u32
  frScale :: u16
  frPrecision :: u16
  frCCSID :: u16
  frBitmap :: byte
  frLobMaxSize :: u32
  frVariableLength :: u32

definition readFieldRecord :: "fieldRecord rd" where
  "readFieldRecord =
     rd_bind readU16 (\<lambda>_. rd_bind readU16 (\<lambda>fieldType. rd_bind readU32 (\<lambda>fieldLength.
     rd_bind readU16 (\<lambda>fieldScale. rd_bind readU16 (\<lambda>fieldPrecision. rd_bind readU16 (\<lambda>fieldCCSID.
     rd_bind readU8 (\<lambda>_. rd_bind readU16 (\<lambda>_. rd_bind readU32 (\<lambda>_.
     rd_bind readU8 (\<lambda>attributeBitmap. rd_bind readU32 (\<lambda>_. rd_bind readU32 (\<lambda>lobMaxSize.
     rd_bind readU16 (\<lambda>_. rd_bind readU32 (\<lambda>_. rd_bind readU32 (\<lambda>varLen.
     rd_bind readU32 (\<lambda>_. rd_bind readU32 (\<lambda>_.
       rd_return \<lparr>frType = fieldType, frLength = fieldLength, frScale = fieldScale,
         frPrecision = fieldPrecision, frCCSID = fieldCCSID, frBitmap = attributeBitmap,
         frLobMaxSize = lobMaxSize, frVariableLength = varLen\<rparr>)))))))))))))))))"

definition set_field :: "fieldRecord \<Rightarrow> columnMeta \<Rightarrow> columnMeta" where
  "set_field f c = c\<lparr>cType := uint (frType f), cLength := uint (frLength f), cScale := uint (frScale f),
     cPrecision := uint (frPrecision f), cCCSID := uint (frCCSID f), cLobMaxSize := uint (frLobMaxSize f),
     cIsNamed := (frBitmap f AND 0x80 \<noteq> 0)\<rparr>"

fun fieldRecords :: "nat \<Rightarrow> nat \<Rightarrow> resultSetMeta \<Rightarrow> (resultSetMeta \<times> int list) rd" where
  "fieldRecords i 0 meta = rd_return (meta, [])"
| "fieldRecords i (Suc k) meta =
     rd_bind readFieldRecord (\<lambda>f.
       rd_bind (fieldRecords (Suc i) k (upd_col i (set_field f) meta)) (\<lambda>(meta', vs).
         rd_return (meta', uint (frVariableLength f) # vs)))"

fun assignOffsets :: "int \<Rightarrow> columnMeta list \<Rightarrow> columnMeta list \<times> int" where
  "assignOffsets offset [] = ([], offset)"
| "assignOffsets offset (c # cs) =
     (case assignOffsets (offset + cLength c) cs of (cs', tot) \<Rightarrow> (c\<lparr>cOffset := offset\<rparr> # cs', tot))"

definition set_name :: "u16 \<Rightarrow> string \<Rightarrow> int \<Rightarrow> columnMeta \<Rightarrow> columnMeta" where
  "set_name cp name cid c =
     (if cp = 0x3840 then c\<lparr>cName := name, cNameCCSID := cid\<rparr>
      else if cp = 0x3841 then c\<lparr>cUDTName := name\<rparr> else c)"

text \<open>One entry of a column's variable information; the length is returned for the loop.\<close>

definition variableEntry :: "tables \<Rightarrow> nat \<Rightarrow> resultSetMeta \<Rightarrow> (resultSetMeta \<times> int) rd" where
  "variableEntry fs i meta =
     rd_bind readU32 (\<lambda>fieldLL. rd_bind readU16 (\<lambda>fieldCP. rd_bind readU16 (\<lambda>fieldCCSID.
       if uint fieldLL - 8 < 0
       then (\<lambda>r. Inl (Errorf ''invalid variable field length: %d'' [FInt (uint fieldLL)]))
       else rd_bind (readBytes (uint fieldLL - 8)) (\<lambda>nameBytes.
              rd_bind (rd_lift (decodeTextByCCSID fs nameBytes (uint fieldCCSID))) (\<lambda>name.
                rd_return (upd_col i (set_name fieldCP name (uint fieldCCSID)) meta, uint fieldLL))))))"

lemma variableEntry_length: "variableEntry fs i meta r = Inr ((meta', ll), r') \<Longrightarrow> 8 \<le> ll"
  by (auto simp: variableEntry_def rd_bind_Inr rd_return_def split: if_splits)

function variableLoop :: "tables \<Rightarrow> nat \<Rightarrow> int \<Rightarrow> resultSetMeta \<Rightarrow> resultSetMeta rd" where
  "variableLoop fs i rem meta r =
     (if \<not> rem > 0 then Inr (meta, r)
      else if rem < 8 then res_bind (skip rem r) (\<lambda>(_, r'). Inr (meta, r'))
      else case variableEntry fs i meta r of
        Inl e \<Rightarrow> Inl e
      | Inr ((meta', ll), r') \<Rightarrow> variableLoop fs i (rem - ll) meta' r')"
  by pat_completeness auto
termination
  by (relation "measure (\<lambda>(fs, i, rem, meta, r). nat rem)")
     (auto dest!: variableEntry_length)

declare variableLoop.simps [simp del]

fun variableInfo :: "tables \<Rightarrow> nat \<Rightarrow> int list \<Rightarrow> resultSetMeta \<Rightarrow> resultSetMeta rd" where
  "variableInfo fs i [] meta = rd_return meta"
| "variableInfo fs i (v # vs) meta = rd_bind (variableLoop fs i v meta) (variableInfo fs (Suc i) vs)"

definition placeColumns :: "resultSetMeta \<Rightarrow> resultSetMeta" where
  "placeColumns meta =
     (case assignOffsets 0 (rmColumns meta) of (cs, tot) \<Rightarrow>
        meta\<lparr>rmColumns := cs, rmRowSize := (if rmRowSize meta = 0 then tot else rmRowSize meta)\<rparr>)"

definition parseSuperExtendedDataFormat :: "tables \<Rightarrow> bytes \<Rightarrow> resultSetMeta \<Rightarrow> resultSetMeta res" where
  "parseSuperExtendedDataFormat fs payload meta =
     res_bind (rd_bind readU32 (\<lambda>_. rd_bind readU32 (\<lambda>numFields.
       rd_bind readU8 (\<lambda>dateFormat. rd_bind readU8 (\<lambda>timeFormat.
       rd_bind readU8 (\<lambda>dateSeparator. rd_bind readU8 (\<lambda>timeSeparator.
       rd_bind readU32 (\<lambda>recordSize.
         (let meta1 = meta\<lparr>rmDateFormat := uint dateFormat, rmTimeFormat := uint timeFormat,
                 rmDateSeparator := uint dateSeparator, rmTimeSeparator := uint timeSeparator,
                 rmHasDataFormat := True, rmRowSize := uint recordSize\<rparr> in
          rd_bind (rd_lift (case ensureColumns meta1 (uint numFields) of
              Inr m \<Rightarrow> Inr m
            | Inl e \<Rightarrow> if rmColumns meta1 = []
                       then Inr (meta1\<lparr>rmColumns := replicate (unat numFields) zeroColumn\<rparr>) else Inl e)) (\<lambda>meta2.
          rd_bind (fieldRecords 0 (unat numFields) meta2) (\<lambda>(meta3, vs).
            variableInfo fs 0 vs (placeColumns meta3)))))))))))
       (newSliceReader payload)) (\<lambda>(m, _). Inr m)"

function describeLoop :: "tables \<Rightarrow> bytes \<Rightarrow> resultSetMeta \<Rightarrow> resultSetMeta res" where
  "describeLoop fs data meta =
     (if data = [] then Inr meta
      else case ParseLLCP data of
        Inl e \<Rightarrow> Inl e
      | Inr (cp, cpPayload, rest) \<Rightarrow>
          (case (if cp = 0x3811 then parseExtendedColumnDescriptors fs cpPayload meta
                 else if cp = 0x3812 then parseSuperExtendedDataFormat fs cpPayload meta
                 else Inr meta) of
             Inl e \<Rightarrow> Inl e
           | Inr meta' \<Rightarrow> describeLoop fs rest meta'))"
  by pat_completeness auto
termination
  by (relation "measure (\<lambda>(fs, data, meta). length data)") (auto dest: ParseLLCP_shorter(1))

declare describeLoop.simps [simp del]

definition parseDescribePayload :: "tables \<Rightarrow> bytes \<Rightarrow> resultSetMeta res" where
  "parseDescribePayload fs payload =
     res_bind (describeLoop fs payload zeroMeta) (\<lambda>meta.
       Inr (if rmRowSize meta = 0 \<and> rmColumns meta \<noteq> []
            then meta\<lparr>rmRowSize := sumColumnLengths (rmColumns meta)\<rparr> else meta))"

subsection \<open>Result data\<close>

fun indicatorRow :: "nat \<Rightarrow> int \<Rightarrow> bool list rd" where
  "indicatorRow 0 indicatorSize = rd_return []"
| "indicatorRow (Suc k) indicatorSize =
     rd_bind (if indicatorSize > 0
              then rd_bind (readBytes indicatorSize) (\<lambda>b. rd_return (indicatorSize \<ge> 2 \<and> Uint16 b = 0xFFFF))
              else rd_return False) (\<lambda>isNull.
       rd_bind (indicatorRow k indicatorSize) (\<lambda>ns. rd_return (isNull # ns)))"

fun indicatorRows :: "nat \<Rightarrow> nat \<Rightarrow> int \<Rightarrow> bool list rd" where
  "indicatorRows 0 cols indicatorSize = rd_return []"
| "indicatorRows (Suc k) cols indicatorSize =
     rd_bind (indicatorRow cols indicatorSize) (\<lambda>row.
       rd_bind (indicatorRows k cols indicatorSize) (\<lambda>rows. rd_return (row @ rows)))"

text \<open>
  \<open>Nulls[row*columnCount+col]\<close> is filled in row order, one entry per indicator. The slices
  are allocated before anything is read; a product of two counts is computed in 64 bits.
\<close>

definition parseResultDataBlock :: "sliceReader \<Rightarrow> int \<Rightarrow> int \<Rightarrow> int \<Rightarrow> int \<Rightarrow> fetchBlock res" where
  "parseResultDataBlock r rowCount columnCount indicatorSize rowSize =
     res_bind (make_slice (wrap_int64 (rowCount * columnCount)) False) (\<lambda>nulls0.
     res_bind (make_slice (wrap_int64 (rowCount * rowSize)) 0) (\<lambda>data0.
     res_bind (make_slice indicatorSize (0 :: byte)) (\<lambda>_.
     res_bind (indicatorRows (nat rowCount) (nat columnCount) indicatorSize r) (\<lambda>(nulls, r1).
     res_bind (readBytes (wrap_int64 (rowCount * rowSize)) r1) (\<lambda>(data, r2).
       Inr \<lparr>fbRowCount = rowCount, fbColumnCount = columnCount, fbIndicatorSize = indicatorSize,
            fbRowSize = rowSize, fbNulls = copy_into nulls0 nulls, fbData = copy_into data0 data,
            fbCursorClosed = False, fbEndOfData = False\<rparr>)))))"

definition parseOriginalResultDataPayload :: "bytes \<Rightarrow> fetchBlock res" where
  "parseOriginalResultDataPayload payload =
     res_bind (rd_bind readU32 (\<lambda>_. rd_bind readU32 (\<lambda>rowCount. rd_bind readU16 (\<lambda>columnCount.
       rd_bind readU16 (\<lambda>indicatorSize. rd_bind readU16 (\<lambda>rowSize.
         rd_return (uint rowCount, uint columnCount, uint indicatorSize, uint rowSize))))))
       (newSliceReader payload))
     (\<lambda>((rowCount, columnCount, indicatorSize, rowSize), r).
        parseResultDataBlock r rowCount columnCount indicatorSize rowSize)"

definition parseResultDataPayload :: "bytes \<Rightarrow> fetchBlock res" where
  "parseResultDataPayload payload =
     res_bind (rd_bind readU32 (\<lambda>_. rd_bind readU32 (\<lambda>rowCount. rd_bind readU16 (\<lambda>columnCount.
       rd_bind readU16 (\<lambda>indicatorSize. rd_bind readU32 (\<lambda>_. rd_bind readU32 (\<lambda>rowSize.
         rd_return (uint rowCount, uint columnCount, uint indicatorSize, uint rowSize)))))))
       (newSliceReader payload))
     (\<lambda>((rowCount, columnCount, indicatorSize, rowSize), r).
        parseResultDataBlock r rowCount columnCount indicatorSize rowSize)"

function parseFetchPayload :: "bytes \<Rightarrow> fetchBlock res" where
  "parseFetchPayload payload =
     (if payload = [] then Inr zeroBlock
      else case ParseLLCP payload of
        Inl e \<Rightarrow> Inl e
      | Inr (cp, cpPayload, rest) \<Rightarrow>
          if cp = 0x380E then parseResultDataPayload cpPayload
          else if cp = 0x3806 then parseOriginalResultDataPayload cpPayload
          else parseFetchPayload rest)"
  by pat_completeness auto
termination
  by (relation "measure length") (auto dest: ParseLLCP_shorter(1))

declare parseFetchPayload.simps [simp del]

subsection \<open>SQLCA\<close>

fun splitBytes :: "bytes \<Rightarrow> byte \<Rightarrow> bytes list" where
  "splitBytes [] sep = [[]]"
| "splitBytes (b # bs) sep =
     (if b = sep then [] # splitBytes bs sep
      else case splitBytes bs sep of p # ps \<Rightarrow> (b # p) # ps | [] \<Rightarrow> [[b]])"

text \<open>\<open>strings.Join\<close> with a single space.\<close>

fun join_space :: "string list \<Rightarrow> string" where
  "join_space [] = []"
| "join_space [s] = s"
| "join_space (s # t # ss) = s @ '' '' @ join_space (t # ss)"

definition tokenText :: "tables \<Rightarrow> bytes \<Rightarrow> string option" where
  "tokenText fs part =
     (if part = [] then None
      else case decodeTextByCCSID fs part 37 of
        Inl _ \<Rightarrow> None
      | Inr s \<Rightarrow> if TrimSpace s \<noteq> [] then Some (TrimSpace s) else None)"

definition sqlerrmcTokens :: "tables \<Rightarrow> bytes \<Rightarrow> string res" where
  "sqlerrmcTokens fs sqlca =
     (if length sqlca < 18 then Inr []
      else res_bind (sub_slice 16 18 sqlca) (\<lambda>lb.
        let l0 = unat (Uint16 lb) in
        if l0 = 0 then Inr []
        else let l1 = (if l0 > 70 then 70 else l0);
                 l2 = (if length sqlca < 18 + l1 then length sqlca - 18 else l1) in
          res_bind (sub_slice 18 (18 + l2) sqlca) (\<lambda>raw.
            Inr (join_space (List.map_filter (tokenText fs) (splitBytes raw 0xFF))))))"

text \<open>The bytes of the first SQLCA parameter (0x3807), empty when there is none.\<close>

function findSQLCA :: "bytes \<Rightarrow> bytes res" where
  "findSQLCA data =
     (if data = [] then Inr []
      else case ParseLLCP data of
        Inl e \<Rightarrow> Inl e
      | Inr (cp, cpPayload, rest) \<Rightarrow> if cp = 0x3807 then Inr cpPayload else findSQLCA rest)"
  by pat_completeness auto
termination
  by (relation "measure length") (auto dest: ParseLLCP_shorter(1))

declare findSQLCA.simps [simp del]

definition sqlcaKey :: "bytes \<Rightarrow> int option res" where
  "sqlcaKey b =
     (if length b \<ge> 72 + 16 then
        res_bind (sub_slice 72 88 b) (\<lambda>kb.
          Inr (case decodePackedDecimalString kb 30 0 of
                 Inl _ \<Rightarrow> None
               | Inr key \<Rightarrow> (case ParseInt64 (TrimSpace key) of Inl _ \<Rightarrow> None | Inr k \<Rightarrow> Some k)))
      else Inr None)"

definition sqlcaWarning :: "int \<Rightarrow> string \<Rightarrow> sqlWarning list" where
  "sqlcaWarning c state =
     (if c > 0 then
        [\<lparr>swCode = c, swState = state,
          swMessage = (if state \<noteq> [] then ''SQL warning '' @ show_int c @ '' ('' @ state @ '')''
                       else ''SQL warning '' @ show_int c)\<rparr>]
      else [])"

definition parseSQLCA :: "tables \<Rightarrow> bytes \<Rightarrow> sqlcaInfo res" where
  "parseSQLCA fs b =
     (if b = [] then Inr zeroSqlca
      else if length b < 136 then Inl (Errorf ''sqlca too short: %d'' [FInt (int (length b))])
      else
        res_bind (sub_slice 12 16 b) (\<lambda>c. res_bind (sub_slice 104 108 b) (\<lambda>u.
        res_bind (sub_slice 100 104 b) (\<lambda>n. res_bind (sub_slice 131 136 b) (\<lambda>st.
        res_bind (sqlerrmcTokens fs b) (\<lambda>tokens. res_bind (sqlcaKey b) (\<lambda>key.
          let sqlcode = sint (Uint32 c);
              state = (case decodeTextByCCSID fs st 37 of Inr s \<Rightarrow> TrimSpace s | Inl _ \<Rightarrow> []) in
          Inr \<lparr>siSQLCode = sqlcode, siSQLState = state,
               siGeneratedKey = (case key of Some k \<Rightarrow> k | None \<Rightarrow> 0), siHasGeneratedKey = (key \<noteq> None),
               siUpdateCount = sint (Uint32 u), siResultSetsCount = sint (Uint32 n),
               siWarning = sqlcaWarning sqlcode state, siTokens = tokens\<rparr>)))))))"

definition parseSQLCAFromPayload :: "tables \<Rightarrow> bytes \<Rightarrow> sqlcaInfo res" where
  "parseSQLCAFromPayload fs payload = res_bind (findSQLCA payload) (parseSQLCA fs)"

subsection \<open>Parameter-marker formats\<close>

definition markerTooShort :: "bytes \<Rightarrow> go_error" where
  "markerTooShort payload = Errorf ''parameter marker format too short: %d'' [FInt (int (length payload))]"

text \<open>\<open>int(int16(binary.BigEndian.Uint16(payload[a:a+2])))\<close> and its unsigned forms.\<close>

definition i16_at :: "nat \<Rightarrow> bytes \<Rightarrow> int res" where
  "i16_at a payload = res_bind (sub_slice a (a + 2) payload) (\<lambda>b. Inr (sint (Uint16 b)))"

definition u16_at :: "nat \<Rightarrow> bytes \<Rightarrow> int res" where
  "u16_at a payload = res_bind (sub_slice a (a + 2) payload) (\<lambda>b. Inr (uint (Uint16 b)))"

definition u32_at :: "nat \<Rightarrow> bytes \<Rightarrow> int res" where
  "u32_at a payload = res_bind (sub_slice a (a + 4) payload) (\<lambda>b. Inr (uint (Uint32 b)))"

definition u8_at :: "nat \<Rightarrow> bytes \<Rightarrow> int res" where
  "u8_at a payload = res_bind (index_at a payload) (\<lambda>b. Inr (uint b))"

definition markerName :: "tables \<Rightarrow> bytes \<Rightarrow> nat \<Rightarrow> int \<Rightarrow> int \<Rightarrow> string res" where
  "markerName fs payload start nameLength nameCCSID =
     (if nameLength > 0 \<and> int start + nameLength \<le> int (length payload) then
        res_bind (sub_slice start (start + nat nameLength) payload) (\<lambda>b.
          Inr (case decodeTextByCCSID fs b nameCCSID of Inr name \<Rightarrow> TrimSpace name | Inl _ \<Rightarrow> []))
      else Inr [])"

definition originalMarkerField :: "tables \<Rightarrow> bytes \<Rightarrow> nat \<Rightarrow> parameterMarkerField res" where
  "originalMarkerField fs payload base =
     res_bind (i16_at (base + 2) payload) (\<lambda>sqlType. res_bind (i16_at (base + 4) payload) (\<lambda>len.
     res_bind (i16_at (base + 6) payload) (\<lambda>scale. res_bind (i16_at (base + 8) payload) (\<lambda>prec.
     res_bind (u16_at (base + 10) payload) (\<lambda>cid. res_bind (u8_at (base + 12) payload) (\<lambda>ptype.
     res_bind (u16_at (base + 28) payload) (\<lambda>nameLength. res_bind (u16_at (base + 30) payload) (\<lambda>nameCCSID.
     res_bind (markerName fs payload (base + 32) nameLength nameCCSID) (\<lambda>name.
       Inr \<lparr>pfName = name, pfSQLType = sqlType, pfLength = len, pfScale = scale, pfPrecision = prec,
            pfCCSID = cid, pfParameterType = ptype, pfLOBLocator = -1, pfLOBMaxSize = -1, pfBidi = None\<rparr>)))))))))"

text \<open>The fields the extended (64 bytes each) and super extended (48 bytes each) layouts share.\<close>

definition extendedMarkerField :: "bytes \<Rightarrow> nat \<Rightarrow> parameterMarkerField res" where
  "extendedMarkerField payload base =
     res_bind (i16_at (base + 2) payload) (\<lambda>sqlType. res_bind (u32_at (base + 4) payload) (\<lambda>len.
     res_bind (i16_at (base + 8) payload) (\<lambda>scale. res_bind (i16_at (base + 10) payload) (\<lambda>prec.
     res_bind (u16_at (base + 12) payload) (\<lambda>cid. res_bind (u8_at (base + 14) payload) (\<lambda>ptype.
     res_bind (u32_at (base + 17) payload) (\<lambda>locator. res_bind (u32_at (base + 26) payload) (\<lambda>maxSize.
       Inr \<lparr>pfName = [], pfSQLType = sqlType, pfLength = len, pfScale = scale, pfPrecision = prec,
            pfCCSID = cid, pfParameterType = ptype, pfLOBLocator = locator, pfLOBMaxSize = maxSize,
            pfBidi = None\<rparr>))))))))"

definition extendedMarkerFieldName :: "tables \<Rightarrow> bytes \<Rightarrow> nat \<Rightarrow> parameterMarkerField res" where
  "extendedMarkerFieldName fs payload base =
     res_bind (extendedMarkerField payload base) (\<lambda>f.
     res_bind (u16_at (base + 30) payload) (\<lambda>nameLength. res_bind (u16_at (base + 32) payload) (\<lambda>nameCCSID.
     res_bind (markerName fs payload (base + 34) nameLength nameCCSID) (\<lambda>name. Inr (f\<lparr>pfName := name\<rparr>)))))"

fun markerFields :: "(nat \<Rightarrow> parameterMarkerField res) \<Rightarrow> nat \<Rightarrow> nat \<Rightarrow> nat \<Rightarrow> parameterMarkerField list res" where
  "markerFields f base step 0 = Inr []"
| "markerFields f base step (Suc k) =
     res_bind (f base) (\<lambda>x. res_bind (markerFields f (base + step) step k) (\<lambda>xs. Inr (x # xs)))"

definition parseOriginalParameterMarkerFormat :: "tables \<Rightarrow> bytes \<Rightarrow> parameterMarkerFormat option res" where
  "parseOriginalParameterMarkerFormat fs payload =
     (if payload = [] then Inr None
      else if length payload < 8 then Inl (markerTooShort payload)
      else res_bind (u16_at 4 payload) (\<lambda>count. res_bind (u16_at 6 payload) (\<lambda>recordSize.
        if count = 0 then Inr (Some \<lparr>pmCodePoint = 0, pmRecordSize = recordSize, pmFields = []\<rparr>)
        else if int (length payload) < 8 + count * 54 then Inl (markerTooShort payload)
        else res_bind (markerFields (originalMarkerField fs payload) 8 54 (nat count)) (\<lambda>fields.
          Inr (Some \<lparr>pmCodePoint = 0, pmRecordSize = recordSize, pmFields = fields\<rparr>)))))"

definition parseExtendedParameterMarkerFormat :: "tables \<Rightarrow> bytes \<Rightarrow> parameterMarkerFormat option res" where
  "parseExtendedParameterMarkerFormat fs payload =
     (if payload = [] then Inr None
      else if length payload < 16 then Inl (markerTooShort payload)
      else res_bind (u32_at 4 payload) (\<lambda>count. res_bind (u32_at 12 payload) (\<lambda>recordSize.
        if count = 0 then Inr (Some \<lparr>pmCodePoint = 0, pmRecordSize = recordSize, pmFields = []\<rparr>)
        else if int (length payload) < 16 + count * 64 then Inl (markerTooShort payload)
        else res_bind (markerFields (extendedMarkerFieldName fs payload) 16 64 (nat count)) (\<lambda>fields.
          Inr (Some \<lparr>pmCodePoint = 0, pmRecordSize = recordSize, pmFields = fields\<rparr>)))))"

definition parseSuperExtendedParameterMarkerFormat :: "bytes \<Rightarrow> parameterMarkerFormat option res" where
  "parseSuperExtendedParameterMarkerFormat payload =
     (if payload = [] then Inr None
      else if length payload < 16 then Inl (markerTooShort payload)
      else res_bind (u32_at 4 payload) (\<lambda>count. res_bind (u32_at 12 payload) (\<lambda>recordSize.
        if count = 0 then Inr (Some \<lparr>pmCodePoint = 0, pmRecordSize = recordSize, pmFields = []\<rparr>)
        else if int (length payload) < 16 + count * 48 then Inl (markerTooShort payload)
        else res_bind (markerFields (extendedMarkerField payload) 16 48 (nat count)) (\<lambda>fields.
          Inr (Some \<lparr>pmCodePoint = 0, pmRecordSize = recordSize, pmFields = fields\<rparr>)))))"

definition withCodePoint :: "u16 \<Rightarrow> parameterMarkerFormat option res \<Rightarrow> parameterMarkerFormat option res" where
  "withCodePoint cp m = res_bind m (\<lambda>f. Inr (map_option (\<lambda>x. x\<lparr>pmCodePoint := cp\<rparr>) f))"

function parseParameterMarkerFormatFromPayload :: "tables \<Rightarrow> bytes \<Rightarrow> parameterMarkerFormat option res" where
  "parseParameterMarkerFormatFromPayload fs payload =
     (if payload = [] then Inr None
      else case ParseLLCP payload of
        Inl e \<Rightarrow> Inl e
      | Inr (cp, cpPayload, rest) \<Rightarrow>
          if cp = 0x3808 then withCodePoint 0x3808 (parseOriginalParameterMarkerFormat fs cpPayload)
          else if cp = 0x380D then withCodePoint 0x380D (parseExtendedParameterMarkerFormat fs cpPayload)
          else if cp = 0x3813 then withCodePoint 0x3813 (parseSuperExtendedParameterMarkerFormat cpPayload)
          else parseParameterMarkerFormatFromPayload fs rest)"
  by pat_completeness auto
termination
  by (relation "measure (\<lambda>(fs, payload). length payload)") (auto dest: ParseLLCP_shorter(1))

declare parseParameterMarkerFormatFromPayload.simps [simp del]

section \<open>The scanning loops\<close>

interpretation fetch_scan: llcp_scanner parseFetchPayload
  "\<lambda>cp b. if cp = 0x380E then Some (parseResultDataPayload b)
          else if cp = 0x3806 then Some (parseOriginalResultDataPayload b) else None" "Inr zeroBlock" Inl
  by unfold_locales (subst parseFetchPayload.simps, auto split: sum.splits)

interpretation sqlca_scan: llcp_scanner findSQLCA "\<lambda>cp b. if cp = 0x3807 then Some (Inr b) else None" "Inr []" Inl
  by unfold_locales (subst findSQLCA.simps, auto split: sum.splits)

interpretation marker_scan: llcp_scanner "parseParameterMarkerFormatFromPayload fs"
  "\<lambda>cp b. if cp = 0x3808 then Some (withCodePoint 0x3808 (parseOriginalParameterMarkerFormat fs b))
          else if cp = 0x380D then Some (withCodePoint 0x380D (parseExtendedParameterMarkerFormat fs b))
          else if cp = 0x3813 then Some (withCodePoint 0x3813 (parseSuperExtendedParameterMarkerFormat b))
          else None" "Inr None" Inl for fs
  by unfold_locales (subst parseParameterMarkerFormatFromPayload.simps, auto split: sum.splits)

section \<open>Result data\<close>

definition is_null :: "nat \<Rightarrow> bytes \<Rightarrow> bool" where
  "is_null isz b \<longleftrightarrow> 2 \<le> isz \<and> Uint16 b = 0xFFFF"

lemma reads_indicatorRow:
  assumes "list_all (\<lambda>b. length b = isz) inds"
  shows "reads (indicatorRow (length inds) (int isz)) (concat inds) (map (is_null isz) inds)"
  using assms
proof (induction inds)
  case Nil
  then show ?case by (simp add: reads_return)
next
  case (Cons b bs)
  have one: "reads (if int isz > 0 then rd_bind (readBytes (int isz)) (\<lambda>b. rd_return (int isz \<ge> 2 \<and> Uint16 b = 0xFFFF))
      else rd_return False) b (is_null isz b)"
  proof (cases "isz = 0")
    case True
    with Cons.prems show ?thesis using reads_return by (simp add: is_null_def)
  next
    case False
    have "reads (rd_return (int isz \<ge> 2 \<and> Uint16 b = 0xFFFF)) [] (is_null isz b)"
      using reads_return [of "is_null isz b"] by (simp add: is_null_def)
    with False reads_bind_last [OF reads_readBytes [of "int isz" b]] Cons.prems show ?thesis by simp
  qed
  have rest: "reads (rd_bind (indicatorRow (length bs) (int isz)) (\<lambda>ns. rd_return (is_null isz b # ns)))
      (concat bs) (map (is_null isz) (b # bs))"
    using Cons by (intro reads_bind_last [where x = "map (is_null isz) bs"]) (simp_all add: reads_return)
  have "reads (indicatorRow (Suc (length bs)) (int isz)) (b @ concat bs) (map (is_null isz) (b # bs))"
    unfolding indicatorRow.simps by (rule reads_bind, rule one, rule rest)
  then show ?case by simp
qed

lemma reads_indicatorRows:
  assumes "list_all (\<lambda>b. length b = isz) inds" "length inds = rows * cols"
  shows "reads (indicatorRows rows cols (int isz)) (concat inds) (map (is_null isz) inds)"
  using assms
proof (induction rows arbitrary: inds)
  case 0
  then show ?case by (simp add: reads_return)
next
  case (Suc k)
  let ?a = "take cols inds" and ?b = "drop cols inds"
  have l: "length ?a = cols" "length ?b = k * cols" using Suc.prems(2) by simp_all
  have all: "list_all (\<lambda>b. length b = isz) ?a" "list_all (\<lambda>b. length b = isz) ?b"
    using Suc.prems(1) by (metis append_take_drop_id list_all_append)+
  have "reads (rd_bind (indicatorRows k cols (int isz)) (\<lambda>rows. rd_return (map (is_null isz) ?a @ rows)))
      (concat ?b) (map (is_null isz) ?a @ map (is_null isz) ?b)"
    by (rule reads_bind_last [OF Suc.IH [OF all(2) l(2)] reads_return])
  then have "reads (indicatorRows (Suc k) cols (int isz)) (concat ?a @ concat ?b)
      (map (is_null isz) ?a @ map (is_null isz) ?b)"
    unfolding indicatorRows.simps using reads_indicatorRow [OF all(1), unfolded l(1)]
    by (intro reads_bind)
  then show ?case by (simp flip: concat_append map_append)
qed

definition result_payload :: "u32 \<Rightarrow> nat \<Rightarrow> nat \<Rightarrow> nat \<Rightarrow> nat \<Rightarrow> bytes list \<Rightarrow> bytes \<Rightarrow> bytes" where
  "result_payload token rows cols isz rowSize inds data =
     bytesU32 token @ bytesU32 (word_of_nat rows) @ bytesU16 (word_of_nat cols) @ bytesU16 (word_of_nat isz) @
     bytesU32 0 @ bytesU32 (word_of_nat rowSize) @ concat inds @ data"

lemma uint_word_of_nat:
  "n < 2 ^ 32 \<Longrightarrow> uint (word_of_nat n :: u32) = int n" "m < 2 ^ 16 \<Longrightarrow> uint (word_of_nat m :: u16) = int m"
  by (simp_all add: unat_word_of_nat_32 unat_word_of_nat_16 flip: int_eq_iff uint_nat)
     (simp_all add: uint_nat unat_word_of_nat_32 unat_word_of_nat_16)

lemma reads_resultHeader:
  assumes "rows < 2 ^ 32" "cols < 2 ^ 16" "isz < 2 ^ 16" "rowSize < 2 ^ 32"
  shows "reads (rd_bind readU32 (\<lambda>_. rd_bind readU32 (\<lambda>rowCount. rd_bind readU16 (\<lambda>columnCount.
       rd_bind readU16 (\<lambda>indicatorSize. rd_bind readU32 (\<lambda>_. rd_bind readU32 (\<lambda>rowSize.
         rd_return (uint rowCount, uint columnCount, uint indicatorSize, uint rowSize))))))))
     (bytesU32 token @ bytesU32 (word_of_nat rows) @ bytesU16 (word_of_nat cols) @ bytesU16 (word_of_nat isz) @
       bytesU32 0 @ bytesU32 (word_of_nat rowSize) @ []) (int rows, int cols, int isz, int rowSize)"
  by ((rule reads_bind, rule reads_readU32 reads_readU16)+)
     (use assms in \<open>simp add: uint_word_of_nat reads_return\<close>)

lemma wrap_count:
  assumes "rows < (2::nat) ^ 32" "n < (2::nat) ^ k" "k \<le> 31"
  shows "wrap_int64 (int rows * int n) = int rows * int n"
proof -
  have "rows * n < 2 ^ 32 * 2 ^ k" using assms(1,2) by (intro mult_strict_mono) simp_all
  also have "\<dots> = (2::nat) ^ (32 + k)" by (simp add: power_add)
  also have "\<dots> \<le> 2 ^ 63" using assms(3) by (intro power_increasing) simp_all
  finally have "int (rows * n) < 2 ^ 63" by (metis of_nat_less_iff of_nat_numeral of_nat_power)
  moreover have "0 \<le> int (rows * n)" by simp
  ultimately have "wrap_int64 (int (rows * n)) = int (rows * n)" by (intro wrap_int64_id) linarith+
  then show ?thesis by simp
qed

lemma make_slice_nat: "n \<le> (2::nat) ^ 48 \<Longrightarrow> make_slice (int n) z = Inr (replicate n z)"
proof -
  assume "n \<le> (2::nat) ^ 48"
  then have "int n \<le> 2 ^ 48" by (metis of_nat_le_iff of_nat_numeral of_nat_power)
  then show ?thesis by (simp add: make_slice_def go_max_alloc_def)
qed

lemma wrap_int64_nat: "n \<le> (2::nat) ^ 48 \<Longrightarrow> wrap_int64 (int n) = int n"
  by (intro wrap_int64_id) simp_all

lemma null_alloc:
  assumes "rows < (2::nat) ^ 32" "cols < (2::nat) ^ 16"
  shows "make_slice (wrap_int64 (int rows * int cols)) z = Inr (replicate (rows * cols) z)"
proof -
  have "rows * cols < 2 ^ 32 * 2 ^ 16" using assms by (intro mult_strict_mono) simp_all
  then have "rows * cols \<le> 2 ^ 48" by (simp add: power_add [symmetric])
  moreover have "wrap_int64 (int rows * int cols) = int (rows * cols)"
    using wrap_count [OF assms] by simp
  ultimately show ?thesis by (simp only: make_slice_nat)
qed

lemma parseResultDataBlock_ok:
  assumes "rows < 2 ^ 32" "cols < 2 ^ 16" "isz < 2 ^ 16"
    and "rows * rowSize \<le> 2 ^ 48"
    and "list_all (\<lambda>b. length b = isz) inds" "length inds = rows * cols" "length data = rows * rowSize"
    and "in_bounds r" "unread r = concat inds @ data @ rest"
  shows "parseResultDataBlock r (int rows) (int cols) (int isz) (int rowSize) =
    Inr \<lparr>fbRowCount = int rows, fbColumnCount = int cols, fbIndicatorSize = int isz, fbRowSize = int rowSize,
         fbNulls = map (is_null isz) inds, fbData = data, fbCursorClosed = False, fbEndOfData = False\<rparr>"
proof -
  let ?r1 = "advance (length (concat inds)) r"
  have w: "wrap_int64 (int rows * int rowSize) = int (rows * rowSize)"
    unfolding of_nat_mult [symmetric] using assms(4) by (rule wrap_int64_nat)
  note d = make_slice_nat [OF assms(4), of "0 :: byte"]
  have i: "make_slice (int isz) (0 :: byte) = Inr (replicate isz 0)"
    using assms(3) by (intro make_slice_nat) simp
  have n: "indicatorRows rows cols (int isz) r = Inr (map (is_null isz) inds, ?r1)"
    using readsD [OF reads_indicatorRows [OF assms(5,6)] assms(8,9)] .
  have b: "readBytes (int (rows * rowSize)) ?r1 = Inr (data, advance (length data) ?r1)"
    using readsD [OF reads_readBytes in_bounds_advance [OF assms(8,9)] unread_advance [OF assms(9)]] assms(7)
    by simp
  show ?thesis unfolding parseResultDataBlock_def w d i
    using assms(6,7) by (simp add: null_alloc [OF assms(1,2)] n b del: of_nat_mult)
qed

lemma parseResultDataPayload_ok:
  assumes "rows < 2 ^ 32" "cols < 2 ^ 16" "isz < 2 ^ 16" "rowSize < 2 ^ 32" "rows * rowSize \<le> 2 ^ 48"
    and "list_all (\<lambda>b. length b = isz) inds" "length inds = rows * cols" "length data = rows * rowSize"
  shows "parseResultDataPayload (result_payload token rows cols isz rowSize inds data) =
    Inr \<lparr>fbRowCount = int rows, fbColumnCount = int cols, fbIndicatorSize = int isz, fbRowSize = int rowSize,
         fbNulls = map (is_null isz) inds, fbData = data, fbCursorClosed = False, fbEndOfData = False\<rparr>"
proof -
  let ?h = "bytesU32 token @ bytesU32 (word_of_nat rows) @ bytesU16 (word_of_nat cols) @ bytesU16 (word_of_nat isz) @
       bytesU32 0 @ bytesU32 (word_of_nat rowSize) @ []"
  let ?r = "newSliceReader (?h @ concat inds @ data)"
  have p: "result_payload token rows cols isz rowSize inds data = ?h @ concat inds @ data"
    by (simp add: result_payload_def)
  have u: "unread ?r = ?h @ concat inds @ data" by (simp add: unread_def newSliceReader_def)
  note h = reads_new [OF reads_resultHeader [OF assms(1-4), of token], of "concat inds @ data"]
  show ?thesis unfolding p parseResultDataPayload_def h res_bind_Inr prod.case
    by (rule parseResultDataBlock_ok [OF assms(1-3,5-8), where rest = "[]"])
       (use in_bounds_advance [OF in_bounds_new u] unread_advance [OF u] in simp_all)
qed

text \<open>What every accepted block satisfies: its slices have exactly the announced sizes.\<close>

definition block_wf :: "fetchBlock \<Rightarrow> bool" where
  "block_wf b \<longleftrightarrow> 0 \<le> fbRowCount b \<and> 0 \<le> fbColumnCount b \<and> 0 \<le> fbRowSize b \<and>
     int (length (fbNulls b)) = fbRowCount b * fbColumnCount b \<and>
     int (length (fbData b)) = fbRowCount b * fbRowSize b"

lemma wrap_int64_large:
  assumes "0 \<le> x" "x < 2 ^ 64" "wrap_int64 x \<ge> 0"
  shows "wrap_int64 x = x"
proof (cases "x < 2 ^ 63")
  case True
  with assms(1) show ?thesis by (intro wrap_int64_id) linarith+
next
  case False
  have "(x + 2 ^ 63) mod 2 ^ 64 = x - 2 ^ 63"
    using assms(2) False by (intro int_mod_pos_eq [of _ _ 1]) simp_all
  with assms(2,3) show ?thesis unfolding wrap_int64_def by simp
qed

lemma readBytes_length: "readBytes n r = Inr (b, r') \<Longrightarrow> in_bounds r \<Longrightarrow> int (length b) = n"
  by (auto simp: readBytes_def remaining_def in_bounds_def split: if_splits)

lemma parseResultDataBlock_wf:
  assumes "parseResultDataBlock r rc cc isz rs = Inr b"
    and "0 \<le> rc" "rc < 2 ^ 32" "0 \<le> cc" "cc < 2 ^ 16" "0 \<le> rs" "rs < 2 ^ 32"
  shows "block_wf b"
proof -
  obtain nulls0 data0 where n: "make_slice (wrap_int64 (rc * cc)) False = Inr nulls0"
    and d: "make_slice (wrap_int64 (rc * rs)) (0 :: byte) = Inr data0"
    using assms(1) by (auto simp: parseResultDataBlock_def res_simps)
  then have b: "fbRowCount b = rc" "fbColumnCount b = cc" "fbRowSize b = rs"
    "length (fbNulls b) = length nulls0" "length (fbData b) = length data0"
    using assms(1) by (auto simp: parseResultDataBlock_def res_simps)
  have m: "rc * x < 2 ^ 64" if "0 \<le> x" "x < 2 ^ 32" for x
  proof -
    have "rc * x \<le> 2 ^ 32 * (2 ^ 32 - 1)" using that assms(2,3) by (intro mult_mono) simp_all
    then show ?thesis by simp
  qed
  have "wrap_int64 (rc * cc) = rc * cc" "wrap_int64 (rc * rs) = rc * rs"
    using n d m [of cc] m [of rs] assms(2-7)
    by (auto simp: make_slice_Inr intro!: wrap_int64_large)
  with n d b assms(2,4,6) show ?thesis by (auto simp: block_wf_def make_slice_Inr)
qed

lemma uint_bounds: "0 \<le> uint (w :: u16)" "uint w < 2 ^ 16" "0 \<le> uint (v :: u32)" "uint v < 2 ^ 32"
    "uint v < 4294967296" "uint w < 65536" "uint w < 4294967296"
  using uint_bounded [of w] uint_bounded [of v] by simp_all

lemma parseResultDataPayload_wf: "parseResultDataPayload p = Inr b \<Longrightarrow> block_wf b"
  by (auto simp: parseResultDataPayload_def res_simps rd_bind_Inr rd_return_def uint_bounds
      intro!: parseResultDataBlock_wf)

lemma parseOriginalResultDataPayload_wf: "parseOriginalResultDataPayload p = Inr b \<Longrightarrow> block_wf b"
  by (auto simp: parseOriginalResultDataPayload_def res_simps rd_bind_Inr rd_return_def uint_bounds
      intro!: parseResultDataBlock_wf)

lemma parseFetchPayload_wf: "parseFetchPayload p = Inr b \<Longrightarrow> block_wf b"
proof -
  assume b: "parseFetchPayload p = Inr b"
  have "block_wf zeroBlock" by (simp add: block_wf_def zeroBlock_def)
  with b show ?thesis using fetch_scan.scan_result [of p]
    by (auto split: if_splits dest: parseResultDataPayload_wf parseOriginalResultDataPayload_wf)
qed

section \<open>SQLCA and parameter markers: no run-time panic\<close>

definition is_panic :: "'a res \<Rightarrow> bool" where
  "is_panic m \<longleftrightarrow> (\<exists>s. m = Inl (Panic s))"

lemma is_panic_simps [simp]:
  "\<not> is_panic (Inr x)" "is_panic (Inl (Panic s))" "\<not> is_panic (Inl (Errorf f a))"
  by (simp_all add: is_panic_def)

lemma is_panic_bind: "is_panic (res_bind m f) \<longleftrightarrow> is_panic m \<or> (\<exists>x. m = Inr x \<and> is_panic (f x))"
  by (cases m) (auto simp: is_panic_def)

lemma ParseLLCP_no_panic: "ParseLLCP data = Inl e \<Longrightarrow> \<not> is_panic (Inl e)"
  by (auto simp: ParseLLCP_def Let_def is_panic_def split: if_splits)

lemma at_ok:
  "a + 2 \<le> length p \<Longrightarrow> i16_at a p = Inr (sint (Uint16 (slice a (a + 2) p)))"
  "a + 2 \<le> length p \<Longrightarrow> u16_at a p = Inr (uint (Uint16 (slice a (a + 2) p)))"
  "a + 4 \<le> length p \<Longrightarrow> u32_at a p = Inr (uint (Uint32 (slice a (a + 4) p)))"
  "a < length p \<Longrightarrow> u8_at a p = Inr (uint (p ! a))"
  by (simp_all add: i16_at_def u16_at_def u32_at_def u8_at_def index_at_def)

lemma markerName_total: "\<exists>n. markerName fs p start l c = Inr n"
  by (auto simp: markerName_def)

lemma originalMarkerField_total:
  assumes "base + 54 \<le> length p"
  shows "\<exists>f. originalMarkerField fs p base = Inr f"
proof -
  obtain n where "markerName fs p (base + 32) (uint (Uint16 (slice (base + 28) (base + 28 + 2) p)))
      (uint (Uint16 (slice (base + 30) (base + 30 + 2) p))) = Inr n" using markerName_total by blast
  with assms show ?thesis by (simp add: originalMarkerField_def at_ok)
qed

lemma extendedMarkerField_total: "base + 48 \<le> length p \<Longrightarrow> \<exists>f. extendedMarkerField p base = Inr f"
  by (simp add: extendedMarkerField_def at_ok)

lemma extendedMarkerFieldName_total:
  assumes "base + 64 \<le> length p"
  shows "\<exists>f. extendedMarkerFieldName fs p base = Inr f"
proof -
  obtain f where "extendedMarkerField p base = Inr f"
    using assms extendedMarkerField_total [of base p] by auto
  moreover obtain n where "markerName fs p (base + 34) (uint (Uint16 (slice (base + 30) (base + 30 + 2) p)))
      (uint (Uint16 (slice (base + 32) (base + 32 + 2) p))) = Inr n" using markerName_total by blast
  ultimately show ?thesis using assms by (simp add: extendedMarkerFieldName_def at_ok)
qed

lemma markerFields_total:
  assumes "\<And>b. base \<le> b \<Longrightarrow> b + step \<le> len \<Longrightarrow> \<exists>x. f b = Inr x" "base + k * step \<le> len"
  shows "\<exists>xs. markerFields f base step k = Inr xs \<and> length xs = k"
  using assms
proof (induction k arbitrary: base)
  case (Suc k)
  obtain x where "f base = Inr x" using Suc.prems(1) [of base] Suc.prems(2) by auto
  moreover obtain xs where "markerFields f (base + step) step k = Inr xs" "length xs = k"
    using Suc.IH [of "base + step"] Suc.prems by (auto simp: algebra_simps)
  ultimately show ?case by simp
qed simp

lemma markerFields_safe:
  assumes "\<And>b. b + step \<le> length p \<Longrightarrow> \<exists>x. f b = Inr x" "int base + c * int step \<le> int (length p)"
  shows "\<not> is_panic (markerFields f base step (nat c))"
proof (cases "0 \<le> c")
  case True
  then have "int (base + nat c * step) \<le> int (length p)" using assms(2) by simp
  then have "base + nat c * step \<le> length p" by (simp only: of_nat_le_iff)
  then obtain xs where "markerFields f base step (nat c) = Inr xs"
    using markerFields_total [of base step "length p" f "nat c"] assms(1) by blast
  then show ?thesis by simp
qed simp

lemmas marker_parsers = parseOriginalParameterMarkerFormat_def parseExtendedParameterMarkerFormat_def
  parseSuperExtendedParameterMarkerFormat_def

lemma marker_parsers_no_panic:
  "\<not> is_panic (parseOriginalParameterMarkerFormat fs p)"
  "\<not> is_panic (parseExtendedParameterMarkerFormat fs p)"
  "\<not> is_panic (parseSuperExtendedParameterMarkerFormat p)"
proof -
  have m: "\<not> is_panic (Inl (markerTooShort p) :: 'x res)" by (simp add: markerTooShort_def)
  note 1 = markerFields_safe [of 54 p "originalMarkerField fs p" 8, OF originalMarkerField_total, where c = "uint (w :: u16)" for w, simplified]
  note 2 = markerFields_safe [of 64 p "extendedMarkerFieldName fs p" 16, OF extendedMarkerFieldName_total, where c = "uint (w :: u32)" for w, simplified]
  note 3 = markerFields_safe [of 48 p "extendedMarkerField p" 16, OF extendedMarkerField_total, where c = "uint (w :: u32)" for w, simplified]
  show "\<not> is_panic (parseOriginalParameterMarkerFormat fs p)"
    "\<not> is_panic (parseExtendedParameterMarkerFormat fs p)"
    "\<not> is_panic (parseSuperExtendedParameterMarkerFormat p)"
    using m 1 2 3 by (auto simp: marker_parsers at_ok is_panic_bind)
qed

lemma withCodePoint_no_panic: "is_panic (withCodePoint cp m) \<longleftrightarrow> is_panic m"
  by (auto simp: withCodePoint_def is_panic_bind)

lemma parseMarkers_no_panic: "\<not> is_panic (parseParameterMarkerFormatFromPayload fs p)"
proof (induction "length p" arbitrary: p rule: less_induct)
  case less
  show ?case
  proof (cases "ParseLLCP p")
    case (Inl e)
    then show ?thesis using ParseLLCP_no_panic [OF Inl]
      by (subst parseParameterMarkerFormatFromPayload.simps) (auto simp: is_panic_def)
  next
    case (Inr t)
    obtain cp pl rest where t: "t = (cp, pl, rest)" by (cases t) auto
    from less ParseLLCP_shorter(1) [OF Inr [unfolded t]]
    have "\<not> is_panic (parseParameterMarkerFormatFromPayload fs rest)" by blast
    then show ?thesis using Inr t marker_parsers_no_panic
      by (subst parseParameterMarkerFormatFromPayload.simps) (auto simp: withCodePoint_no_panic)
  qed
qed

lemma sqlerrmcTokens_total: "\<exists>t. sqlerrmcTokens fs b = Inr t"
  by (auto simp: sqlerrmcTokens_def Let_def)

lemma sqlcaKey_total: "\<exists>k. sqlcaKey b = Inr k"
  by (auto simp: sqlcaKey_def)

text \<open>The generated key is read with a fixed precision, for which the decimal decoder cannot panic.\<close>

lemma packedDigits_no_panic: "\<not> is_panic (packedDigits data acc)"
  by (induction data acc rule: packedDigits.induct) (auto simp: is_panic_bind Let_def digitNibble_def split: if_splits)

lemma sqlcaKey_decoder_no_panic: "\<not> is_panic (decodePackedDecimalString kb 30 0)"
  using packedDigits_no_panic [of kb "[]"]
  by (auto simp: decodePackedDecimalString_def is_panic_bind fitPrecision_def split: if_splits)

lemma parseSQLCA_ok:
  assumes "136 \<le> length b"
  shows "\<exists>info. parseSQLCA fs b = Inr info \<and> siSQLCode info = sint (Uint32 (slice 12 16 b)) \<and>
    siUpdateCount info = sint (Uint32 (slice 104 108 b)) \<and>
    siResultSetsCount info = sint (Uint32 (slice 100 104 b)) \<and>
    siWarning info = sqlcaWarning (siSQLCode info) (siSQLState info)"
proof -
  have "b \<noteq> []" using assms by auto
  moreover obtain t k where "sqlerrmcTokens fs b = Inr t" "sqlcaKey b = Inr k"
    using sqlerrmcTokens_total sqlcaKey_total by blast
  ultimately show ?thesis using assms by (simp add: parseSQLCA_def Let_def)
qed

section \<open>Column layout\<close>

definition layout :: "columnMeta list \<Rightarrow> (int \<times> int) list" where
  "layout cs = map (\<lambda>c. (cOffset c, cLength c)) cs"

text \<open>The part of the metadata that names, labels and attributes leave alone.\<close>

definition frame :: "resultSetMeta \<Rightarrow> (int \<times> int) list \<times> bool \<times> int" where
  "frame m = (layout (rmColumns m), rmHasDataFormat m, rmRowSize m)"

lemma layout_upd:
  assumes "\<And>c. cOffset (f c) = cOffset c" "\<And>c. cLength (f c) = cLength c"
  shows "frame (upd_col i f m) = frame m"
proof -
  have "(cs :: columnMeta list)[i := f (cs ! i)] = cs" if "\<not> i < length cs" for cs
    using that by (simp add: list_update_beyond)
  moreover have "layout (cs[i := f (cs ! i)]) = layout cs" if "i < length cs" for cs
    using that assms by (simp add: layout_def map_update list_update_same_conv)
  ultimately have "layout ((rmColumns m)[i := f (rmColumns m ! i)]) = layout (rmColumns m)"
    by (cases "i < length (rmColumns m)") simp_all
  then show ?thesis by (simp add: frame_def upd_col_def)
qed

lemma frame_set [simp]:
  "frame (upd_col i (set_attributes u s b) m) = frame m"
  "frame (upd_col i (set_text cp t) m) = frame m"
  "frame (upd_col i (set_name cp t c) m) = frame m"
  by (rule layout_upd; simp add: set_attributes_def set_text_def set_name_def)+

lemma columnHeader_frame: "columnHeader i m r = Inr ((m', ol), r') \<Longrightarrow> frame m' = frame m"
  by (auto simp: columnHeader_def rd_bind_Inr rd_return_def split: if_splits)

lemma columnHeaders_frame: "columnHeaders i k m r = Inr ((m', ols), r') \<Longrightarrow> frame m' = frame m"
  by (induction k arbitrary: i m r m' ols r')
     (fastforce simp: rd_bind_Inr rd_return_def dest: columnHeader_frame)+

lemma descriptor_frame: "descriptor fs i m r = Inr (m', r') \<Longrightarrow> frame m' = frame m"
  by (auto simp: descriptor_def rd_bind_Inr rd_return_def)

lemma sectionLoop_frame: "sectionLoop fs i st len m r = Inr (m', r') \<Longrightarrow> frame m' = frame m"
proof (induction "length (srData r) - srPos r" arbitrary: m r rule: less_induct)
  case less
  let ?d = "int (srPos r) - int st"
  note unf = less.prems [unfolded sectionLoop.simps [of fs i st len m r] Let_def]
  show ?case
  proof (cases "?d < len \<and> \<not> len - ?d < 6")
    case True
    with unf obtain m1 r1 where d: "descriptor fs i m r = Inr (m1, r1)"
      and l: "sectionLoop fs i st len m1 r1 = Inr (m', r')" by (auto split: sum.splits)
    from descriptor_advance [OF d] have "length (srData r1) - srPos r1 < length (srData r) - srPos r"
      by (auto simp: in_bounds_def)
    from less.hyps [OF this l] descriptor_frame [OF d] show ?thesis by simp
  next
    case False
    with unf show ?thesis by (auto simp: res_simps split: if_splits)
  qed
qed

lemma columnSections_frame: "columnSections fs i ols m r = Inr (m', r') \<Longrightarrow> frame m' = frame m"
proof (induction fs i ols m arbitrary: r rule: columnSections.induct)
  case (2 fs i off len ols m)
  from "2.prems" obtain m1 r1 where a: "columnSection fs i off len m r = Inr (m1, r1)"
    and b: "columnSections fs (Suc i) ols m1 r1 = Inr (m', r')" by (auto simp: rd_bind_Inr)
  from a have "frame m1 = frame m" by (auto simp: columnSection_def res_simps dest: sectionLoop_frame)
  with "2.IH" [OF b] show ?case by simp
qed (simp add: rd_return_def)

lemma ensureColumns_frame:
  "ensureColumns m n = Inr m' \<Longrightarrow> rmColumns m \<noteq> [] \<Longrightarrow> m' = m"
  by (auto simp: ensureColumns_def split: if_splits)

lemma ensureColumns_flags:
  "ensureColumns m n = Inr m' \<Longrightarrow> rmHasDataFormat m' = rmHasDataFormat m \<and> rmRowSize m' = rmRowSize m \<and>
     (rmColumns m' = rmColumns m \<or> (rmColumns m = [] \<and> rmColumns m' = replicate (nat n) zeroColumn))"
  by (auto simp: ensureColumns_def split: if_splits)

lemma variableEntry_frame: "variableEntry fs i m r = Inr ((m', ll), r') \<Longrightarrow> frame m' = frame m"
  by (auto simp: variableEntry_def rd_bind_Inr rd_return_def split: if_splits)

lemma variableLoop_frame: "variableLoop fs i n m r = Inr (m', r') \<Longrightarrow> frame m' = frame m"
proof (induction "nat n" arbitrary: n m r rule: less_induct)
  case less
  note unf = less.prems [unfolded variableLoop.simps [of fs i n m r]]
  show ?case
  proof (cases "n < 8")
    case True
    with unf show ?thesis by (auto simp: res_simps split: if_splits)
  next
    case False
    with unf obtain m1 ll r1 where d: "variableEntry fs i m r = Inr ((m1, ll), r1)"
      and l: "variableLoop fs i (n - ll) m1 r1 = Inr (m', r')" by (auto split: sum.splits)
    from variableEntry_length [OF d] False have "nat (n - ll) < nat n" by simp
    from less.hyps [OF this l] variableEntry_frame [OF d] show ?thesis by simp
  qed
qed

lemma variableInfo_frame: "variableInfo fs i vs m r = Inr (m', r') \<Longrightarrow> frame m' = frame m"
  by (induction vs arbitrary: i m r) (auto simp: rd_bind_Inr rd_return_def dest: variableLoop_frame)

text \<open>The columns of a row follow each other without gaps.\<close>

definition contiguous :: "columnMeta list \<Rightarrow> bool" where
  "contiguous cs \<longleftrightarrow> (\<forall>i < length cs. cOffset (cs ! i) = sum_list (map cLength (take i cs)))"

lemma contiguous_layout: "layout cs = layout cs' \<Longrightarrow> contiguous cs \<longleftrightarrow> contiguous cs'"
proof -
  assume l: "layout cs = layout cs'"
  have m: "map cOffset xs = map fst (layout xs)" "map cLength xs = map snd (layout xs)" for xs
    by (simp_all add: layout_def)
  have len: "length cs = length cs'" using l by (metis layout_def length_map)
  have "cOffset (cs ! i) = cOffset (cs' ! i)" if "i < length cs" for i
    using that len l m(1) by (metis nth_map)
  moreover have "map cLength (take i cs) = map cLength (take i cs')" for i
    using l m(2) by (metis take_map)
  ultimately show ?thesis by (simp add: contiguous_def len)
qed

lemma assignOffsets_spec:
  "assignOffsets off cs = (cs', t) \<Longrightarrow> length cs' = length cs \<and> map cLength cs' = map cLength cs \<and>
     t = off + sum_list (map cLength cs) \<and>
     (\<forall>i < length cs. cOffset (cs' ! i) = off + sum_list (map cLength (take i cs)))"
proof (induction off cs arbitrary: cs' t rule: assignOffsets.induct)
  case (2 off c cs)
  obtain cs1 where a: "assignOffsets (off + cLength c) cs = (cs1, t)" and cs': "cs' = c\<lparr>cOffset := off\<rparr> # cs1"
    using "2.prems" by (auto split: prod.splits)
  from "2.IH" [OF a] cs' show ?case by (auto simp: nth_Cons split: nat.splits)
qed simp

lemma placeColumns_spec:
  "contiguous (rmColumns (placeColumns m)) \<and>
   (rmRowSize (placeColumns m) = 0 \<longrightarrow> sumColumnLengths (rmColumns (placeColumns m)) = 0)"
proof -
  obtain cs t where a: "assignOffsets 0 (rmColumns m) = (cs, t)" by fastforce
  note sp = assignOffsets_spec [OF a]
  have "map cLength (take i cs) = map cLength (take i (rmColumns m))" for i
    using sp by (metis take_map)
  with sp a show ?thesis by (auto simp: placeColumns_def contiguous_def sumColumnLengths_eq)
qed

definition placed :: "resultSetMeta \<Rightarrow> bool" where
  "placed m \<longleftrightarrow> (rmHasDataFormat m \<longrightarrow>
     contiguous (rmColumns m) \<and> (rmRowSize m = 0 \<longrightarrow> sumColumnLengths (rmColumns m) = 0))"

lemma placed_frame: "frame m = frame m' \<Longrightarrow> placed m \<longleftrightarrow> placed m'"
proof -
  assume f: "frame m = frame m'"
  then have l: "layout (rmColumns m) = layout (rmColumns m')" and
    r: "rmHasDataFormat m = rmHasDataFormat m'" "rmRowSize m = rmRowSize m'" by (simp_all add: frame_def)
  have "map cLength xs = map snd (layout xs)" for xs by (simp add: layout_def)
  then have "sumColumnLengths (rmColumns m) = sumColumnLengths (rmColumns m')"
    using l by (simp add: sumColumnLengths_eq)
  with contiguous_layout [OF l] r show ?thesis by (simp add: placed_def)
qed

lemma contiguous_zero: "contiguous (replicate n zeroColumn)" "sumColumnLengths (replicate n zeroColumn) = 0"
  by (simp_all add: contiguous_def zeroColumn_def sumColumnLengths_eq sum_list_replicate)

lemma parseExtendedColumnDescriptors_placed:
  assumes "parseExtendedColumnDescriptors fs p m = Inr m'" "placed m"
  shows "placed m'"
proof -
  obtain n m1 k r1 m2 ols r2 r3 where e: "ensureColumns m n = Inr m1"
    and h: "columnHeaders 0 k m1 r1 = Inr ((m2, ols), r2)" and c: "columnSections fs 0 ols m2 r2 = Inr (m', r3)"
    using assms(1)
    by (auto simp: parseExtendedColumnDescriptors_def res_simps rd_bind_Inr rd_lift_def)
  have "placed m1" using ensureColumns_flags [OF e] assms(2) contiguous_zero by (auto simp: placed_def)
  moreover have "frame m' = frame m1" using columnHeaders_frame [OF h] columnSections_frame [OF c] by simp
  ultimately show ?thesis using placed_frame by blast
qed

lemma parseSuperExtendedDataFormat_placed:
  assumes "parseSuperExtendedDataFormat fs p m = Inr m'"
  shows "placed m'"
proof -
  obtain m3 vs ra rb where v: "variableInfo fs 0 vs (placeColumns m3) ra = Inr (m', rb)"
    using assms by (auto simp: parseSuperExtendedDataFormat_def res_simps rd_bind_Inr Let_def)
  have "placed (placeColumns m3)" using placeColumns_spec [of m3] by (simp add: placed_def)
  with variableInfo_frame [OF v] show ?thesis using placed_frame by blast
qed

lemma describeLoop_placed: "describeLoop fs data m = Inr m' \<Longrightarrow> placed m \<Longrightarrow> placed m'"
proof (induction "length data" arbitrary: data m rule: less_induct)
  case less
  note unf = less.prems(1) [unfolded describeLoop.simps [of fs data m]]
  show ?case
  proof (cases "data = []")
    case True
    with unf less.prems(2) show ?thesis by simp
  next
    case False
    with unf obtain cp pl rest m1 where p: "ParseLLCP data = Inr (cp, pl, rest)"
      and m1: "(if cp = 0x3811 then parseExtendedColumnDescriptors fs pl m
                 else if cp = 0x3812 then parseSuperExtendedDataFormat fs pl m else Inr m) = Inr m1"
      and l: "describeLoop fs rest m1 = Inr m'" by (auto split: sum.splits)
    from m1 less.prems(2) have "placed m1"
      by (auto split: if_splits dest: parseExtendedColumnDescriptors_placed parseSuperExtendedDataFormat_placed)
    from less.hyps [OF ParseLLCP_shorter(1) [OF p] l this] show ?thesis .
  qed
qed

section \<open>Properties\<close>

text \<open>
  C3. A fetch reply is read exactly: whatever parameters come before the result data, the
  block has the announced counts, one null flag per indicator in row order (set for an
  indicator of at least two bytes that starts with X'FFFF'), and the row bytes unchanged.
\<close>

theorem fetch_reply_read:
  assumes "params_ok ps" and "list_all (\<lambda>(cp, b). cp \<noteq> 0x380E \<and> cp \<noteq> 0x3806) ps"
    and "rows < 2 ^ 32" and "cols < 2 ^ 16" and "isz < 2 ^ 16" and "rowSize < 2 ^ 32" and "rows * rowSize \<le> 2 ^ 48"
    and "list_all (\<lambda>b. length b = isz) inds" and "length inds = rows * cols" and "length data = rows * rowSize"
    and "length (result_payload token rows cols isz rowSize inds data) + 6 < 2 ^ 32"
  shows "parseFetchPayload (params ps @ AppendLLCP [] 0x380E (result_payload token rows cols isz rowSize inds data) @ rest) =
    Inr \<lparr>fbRowCount = int rows, fbColumnCount = int cols, fbIndicatorSize = int isz, fbRowSize = int rowSize,
         fbNulls = map (is_null isz) inds, fbData = data, fbCursorClosed = False, fbEndOfData = False\<rparr>"
proof -
  have "list_all (\<lambda>(cp, b). (if cp = 0x380E then Some (parseResultDataPayload b)
          else if cp = 0x3806 then Some (parseOriginalResultDataPayload b) else None) = None) ps"
    using assms(2) by (auto simp: list_all_iff)
  from fetch_scan.scan_found [OF assms(1) this assms(11), where cp = "0x380E" and rest = rest]
  show ?thesis using parseResultDataPayload_ok [OF assms(3-10), of token] by simp
qed

theorem fetch_reply_read_witness:
  "parseFetchPayload (params [(0x3807, [1])] @
     AppendLLCP [] 0x380E (result_payload 1 2 1 2 3 [[0, 0], [0xFF, 0xFF]] [1, 2, 3, 4, 5, 6]) @ []) =
   Inr \<lparr>fbRowCount = 2, fbColumnCount = 1, fbIndicatorSize = 2, fbRowSize = 3,
         fbNulls = [False, True], fbData = [1, 2, 3, 4, 5, 6], fbCursorClosed = False, fbEndOfData = False\<rparr>"
  using fetch_reply_read [of "[(0x3807, [1])]" 2 1 2 3 "[[0, 0], [0xFF, 0xFF]]" "[1, 2, 3, 4, 5, 6]" 1 "[]"]
  by (simp add: result_payload_def is_null_def Uint16_eq)

text \<open>
  Every block a fetch reply yields is consistent: it holds one null flag per row and
  column and exactly the bytes of its rows, so a row and a column within the counts can be
  looked up in it. This covers both result-data layouts and replies without result data.
\<close>

theorem fetch_block_consistent:
  assumes "parseFetchPayload payload = Inr b"
  shows "0 \<le> fbRowCount b \<and> 0 \<le> fbColumnCount b \<and> 0 \<le> fbRowSize b \<and>
    int (length (fbNulls b)) = fbRowCount b * fbColumnCount b \<and>
    int (length (fbData b)) = fbRowCount b * fbRowSize b"
  using parseFetchPayload_wf [OF assms] by (simp add: block_wf_def)

theorem fetch_block_consistent_witness:
  "parseFetchPayload [] = Inr zeroBlock \<and> int (length (fbData zeroBlock)) = fbRowCount zeroBlock * fbRowSize zeroBlock"
proof -
  have "parseFetchPayload [] = Inr zeroBlock" by (simp add: fetch_scan.scan_Nil)
  with fetch_block_consistent [OF this] show ?thesis by simp
qed

text \<open>
  The row storage is allocated from the counts in the reply before any of its bytes are
  checked: a 20-byte result-data payload whose row count times row size exceeds what the
  run time can allocate makes the parser panic instead of reporting malformed data.
\<close>

theorem oversized_result_data_panics:
  assumes "rows < 2 ^ 32" and "cols < 2 ^ 16" and "isz < 2 ^ 16" and "rowSize < 2 ^ 32"
    and "2 ^ 48 < rows * rowSize"
  shows "parseResultDataPayload (result_payload token rows cols isz rowSize [] []) =
    Inl (Panic ''makeslice: len out of range'')"
proof -
  let ?h = "bytesU32 token @ bytesU32 (word_of_nat rows) @ bytesU16 (word_of_nat cols) @ bytesU16 (word_of_nat isz) @
       bytesU32 0 @ bytesU32 (word_of_nat rowSize) @ []"
  have p: "result_payload token rows cols isz rowSize [] [] = ?h @ []" by (simp add: result_payload_def)
  note h = reads_new [OF reads_resultHeader [OF assms(1-4), of token], of "[]"]
  have big: "2 ^ 48 < int rows * int rowSize"
    using assms(5) by (metis of_nat_less_iff of_nat_mult of_nat_numeral of_nat_power)
  have "int rows * int rowSize < 2 ^ 64"
  proof -
    have "int rows * int rowSize \<le> 2 ^ 32 * (2 ^ 32 - 1)" using assms(1,4) by (intro mult_mono) simp_all
    then show ?thesis by simp
  qed
  with big have "wrap_int64 (int rows * int rowSize) < 0 \<or> wrap_int64 (int rows * int rowSize) = int rows * int rowSize"
    using wrap_int64_large [of "int rows * int rowSize"] by fastforce
  with big have "make_slice (wrap_int64 (int rows * int rowSize)) (0 :: byte) = Inl (Panic ''makeslice: len out of range'')"
    by (auto simp: make_slice_def go_max_alloc_def)
  then show ?thesis unfolding p parseResultDataPayload_def h res_bind_Inr prod.case
    by (simp add: parseResultDataBlock_def null_alloc [OF assms(1,2)])
qed

theorem oversized_result_data_panics_witness:
  "length (result_payload 0 4294967295 1 2 4294967295 [] []) = 20 \<and>
   parseResultDataPayload (result_payload 0 4294967295 1 2 4294967295 [] []) =
     Inl (Panic ''makeslice: len out of range'')"
  using oversized_result_data_panics [of 4294967295 1 2 4294967295 0] by (simp add: result_payload_def)

text \<open>
  C13. After a describe reply with a data format has been read, the columns follow each
  other in the row without gaps: each column's offset is the sum of the lengths of the
  columns before it, whatever names, labels and attributes the reply carries and in
  whatever order; a row size of zero is left only when the columns take no space.
\<close>

theorem describe_layout:
  assumes "parseDescribePayload fs payload = Inr meta" and "rmHasDataFormat meta"
  shows "(\<forall>i < length (rmColumns meta). cOffset (rmColumns meta ! i) =
      sum_list (map cLength (take i (rmColumns meta)))) \<and>
    (rmRowSize meta = 0 \<longrightarrow> sum_list (map cLength (rmColumns meta)) = 0)"
proof -
  obtain m where m: "describeLoop fs payload zeroMeta = Inr m"
    and meta: "meta = (if rmRowSize m = 0 \<and> rmColumns m \<noteq> []
      then m\<lparr>rmRowSize := sumColumnLengths (rmColumns m)\<rparr> else m)"
    using assms(1) by (auto simp: parseDescribePayload_def res_simps)
  have "placed zeroMeta" by (simp add: placed_def zeroMeta_def)
  from describeLoop_placed [OF m this] have "placed m" .
  with assms(2) meta show ?thesis
    by (auto simp: placed_def contiguous_def sumColumnLengths_eq split: if_splits)
qed

definition example_format :: bytes where
  "example_format =
     bytesU32 0 @ bytesU32 2 @ [1, 1, 0x2D, 0x3A] @ bytesU32 6 @
     concat (map (\<lambda>(t, l). bytesU16 0 @ bytesU16 t @ bytesU32 l @ bytesU16 0 @ bytesU16 0 @ bytesU16 37 @
       [0] @ bytesU16 0 @ bytesU32 0 @ [0x80] @ bytesU32 0 @ bytesU32 0 @ bytesU16 0 @ bytesU32 0 @ bytesU32 0 @
       bytesU32 0 @ bytesU32 0) [(496, 4), (500, 2)])"

theorem describe_layout_witness:
  "\<exists>meta. parseDescribePayload [] (AppendLLCP [] 0x3812 example_format) = Inr meta \<and>
     rmHasDataFormat meta \<and> length (rmColumns meta) = 2 \<and> cOffset (rmColumns meta ! 1) = 4"
proof -
  obtain meta where m: "parseDescribePayload [] (AppendLLCP [] 0x3812 example_format) = Inr meta"
    and "rmHasDataFormat meta" "length (rmColumns meta) = 2" "map cLength (rmColumns meta) = [4, 2]"
  proof -
    have "(case parseDescribePayload [] (AppendLLCP [] 0x3812 example_format) of
        Inr meta \<Rightarrow> rmHasDataFormat meta \<and> length (rmColumns meta) = 2 \<and> map cLength (rmColumns meta) = [4, 2]
      | Inl _ \<Rightarrow> False)" by code_simp
    then show thesis using that by (auto split: sum.splits)
  qed
  with describe_layout [OF m] show ?thesis by (auto simp: numeral_2_eq_2 length_Suc_conv)
qed

text \<open>
  C14. The parameter-marker format parsers index the payload directly; their length checks
  suffice: on no payload whatsoever, in any of the three layouts, do they panic.
\<close>

theorem marker_format_no_panic:
  "parseParameterMarkerFormatFromPayload fs payload \<noteq> Inl (Panic msg)"
  using parseMarkers_no_panic [of fs payload] by (auto simp: is_panic_def)

text \<open>
  The SQLCA of a reply is found behind any other parameters and read without a panic
  or an error once it has its 136 bytes: the SQLCODE, the update count and the number of
  result sets are the signed words at their offsets, and a warning is recorded exactly for
  a positive SQLCODE. A reply without an SQLCA gives the zero value.
\<close>

theorem sqlca_read:
  assumes "params_ok ps" and "list_all (\<lambda>(cp, b). cp \<noteq> 0x3807) ps"
    and "136 \<le> length sqlca" and "length sqlca + 6 < 2 ^ 32"
  shows "parseSQLCAFromPayload fs (params ps) = Inr zeroSqlca \<and>
    (\<exists>info. parseSQLCAFromPayload fs (params ps @ AppendLLCP [] 0x3807 sqlca @ rest) = Inr info \<and>
       siSQLCode info = sint (Uint32 (slice 12 16 sqlca)) \<and>
       siUpdateCount info = sint (Uint32 (slice 104 108 sqlca)) \<and>
       siResultSetsCount info = sint (Uint32 (slice 100 104 sqlca)) \<and>
       (siWarning info \<noteq> [] \<longleftrightarrow> siSQLCode info > 0))"
proof -
  have l: "list_all (\<lambda>(cp, b). (if cp = 0x3807 then Some (Inr b) else None) = None) ps"
    using assms(2) by (auto simp: list_all_iff)
  have "findSQLCA (params ps) = Inr []" by (rule sqlca_scan.scan_none [OF assms(1) l])
  moreover have "findSQLCA (params ps @ AppendLLCP [] 0x3807 sqlca @ rest) = Inr sqlca"
    by (rule sqlca_scan.scan_found [OF assms(1) l assms(4)]) simp
  moreover have "parseSQLCA fs [] = Inr zeroSqlca" by (simp add: parseSQLCA_def)
  ultimately show ?thesis using parseSQLCA_ok [OF assms(3), of fs]
    by (auto simp: parseSQLCAFromPayload_def sqlcaWarning_def)
qed

theorem sqlca_read_witness:
  "\<exists>info. parseSQLCAFromPayload [] (params [(0x3811, [1])] @
      AppendLLCP [] 0x3807 (replicate 12 0 @ bytesU32 100 @ replicate 120 0) @ []) = Inr info \<and>
     siSQLCode info = 100 \<and> siWarning info \<noteq> []"
proof -
  have "slice 12 16 (replicate 12 0 @ bytesU32 100 @ replicate 120 0) = bytesU32 100" by (simp add: slice_def)
  with sqlca_read [of "[(0x3811, [1])]" "replicate 12 0 @ bytesU32 100 @ replicate 120 0" "[]" "[]"]
  show ?thesis by auto
qed

end
