(* ===== verification/Blocks.thy ===== *)
theory Blocks
  imports Requests Parse
begin

text \<open>
  Parameter data on the wire and batches: the block layout and the grouping of rows of
  \<open>src/batch.go\<close>, the large-object replies of \<open>src/sql.go\<close>. The theory shows that the payloads
  the driver writes for parameters are the ones its own result parser reads back (the two
  layouts are the same on both directions of the protocol), that grouping a batch into
  blocks loses and reorders nothing, and that every block respects the limits.
\<close>

section \<open>Definitions\<close>

subsection \<open>Batch blocks\<close>

definition maxBlockRows :: nat where "maxBlockRows = 32000"
definition maxBlockBytes :: nat where "maxBlockBytes = 2 ^ 20"

definition bindingRowBytes :: "parameterBinding list \<Rightarrow> nat" where
  "bindingRowBytes row = sumBindingLengths row"

fun sameLengths :: "parameterBinding list \<Rightarrow> parameterBinding list \<Rightarrow> bool" where
  "sameLengths (a # as) (b # bs) = (if length (pbRaw a) \<noteq> length (pbRaw b) then False else sameLengths as bs)"
| "sameLengths _ _ = True"

definition sameBindingShape :: "parameterBinding list \<Rightarrow> parameterBinding list \<Rightarrow> bool" where
  "sameBindingShape a b = (if length a \<noteq> length b then False else sameLengths a b)"

function blockLoop :: "parameterBinding list list \<Rightarrow> nat \<Rightarrow> nat \<Rightarrow> nat" where
  "blockLoop rows start stop =
     (if stop < length rows \<and> stop - start < maxBlockRows then
        if \<not> sameBindingShape (rows ! start) (rows ! stop) then stop
        else if (stop - start + 1) * bindingRowBytes (rows ! start) > maxBlockBytes then stop
        else blockLoop rows start (stop + 1)
      else stop)"
  by pat_completeness auto
termination by (relation "measure (\<lambda>(rows, start, e). length rows - e)") auto

declare blockLoop.simps [simp del]

definition blockEnd :: "parameterBinding list list \<Rightarrow> nat \<Rightarrow> nat" where
  "blockEnd rows start = blockLoop rows start (start + 1)"

lemma blockLoop_ge: "e \<le> blockLoop rows start e"
  by (induction rows start e rule: blockLoop.induct) (subst blockLoop.simps, auto)

lemma blockEnd_gt: "start < blockEnd rows start"
  using blockLoop_ge [of "start + 1" rows start] by (simp add: blockEnd_def)

text \<open>The slices \<open>bound[start:end]\<close> the batch loop hands to \<open>execBlock\<close>, in order.\<close>

function batchBlocks :: "parameterBinding list list \<Rightarrow> nat \<Rightarrow> parameterBinding list list list" where
  "batchBlocks bound start =
     (if start < length bound
      then slice start (blockEnd bound start) bound # batchBlocks bound (blockEnd bound start)
      else [])"
  by pat_completeness auto
termination
proof (relation "measure (\<lambda>(bound, start). length bound - start)")
  fix bound :: "parameterBinding list list" and start assume "start < length bound"
  with blockEnd_gt [of start bound] show "((bound, blockEnd bound start), bound, start) \<in> measure (\<lambda>(bound, start). length bound - start)"
    by simp
qed simp

declare batchBlocks.simps [simp del]

text \<open>\<open>strings.Index\<close>, \<open>strings.LastIndexByte\<close> and the separators of \<open>isBlockableStatement\<close>.\<close>

fun IndexSub :: "string \<Rightarrow> string \<Rightarrow> nat option" where
  "IndexSub [] sub = (if sub = [] then Some 0 else None)"
| "IndexSub (c # s) sub = (if HasPrefix (c # s) sub then Some 0 else map_option Suc (IndexSub s sub))"

fun LastIndexByte :: "string \<Rightarrow> char \<Rightarrow> nat option" where
  "LastIndexByte [] b = None"
| "LastIndexByte (c # s) b =
     (case LastIndexByte s b of Some i \<Rightarrow> Some (Suc i) | None \<Rightarrow> if c = b then Some 0 else None)"

definition valueSeparators :: "char list" where
  "valueSeparators = '', ?()'' @ [CHR 10, CHR 13, CHR 9]"

definition isBlockableStatement :: "string \<Rightarrow> bool" where
  "isBlockableStatement txt0 =
     (let upper = ToUpper (TrimSpace txt0) in
      if HasPrefix upper ''UPDATE'' \<or> HasPrefix upper ''DELETE'' then True
      else if HasPrefix upper ''INSERT'' then
        (case IndexSub upper ''VALUES'' of
           None \<Rightarrow> False
         | Some m \<Rightarrow>
             let values0 = drop (m + 6) upper;
                 values1 = (case LastIndexByte values0 (CHR '')'') of Some i \<Rightarrow> take i values0 | None \<Rightarrow> values0) in
             list_all (\<lambda>c. c \<in> set valueSeparators) values1)
      else False)"

definition isLOBParameterField :: "parameterMarkerField \<Rightarrow> bool" where
  "isLOBParameterField field = (parameterFieldDB2Type field \<in> {db2TypeBlob, db2TypeClob, db2TypeDbclob, db2TypeXML})"

definition buildBlockParameterMarkerData ::
    "parameterMarkerFormat option \<Rightarrow> parameterBinding list list \<Rightarrow> (bytes \<times> u16) res" where
  "buildBlockParameterMarkerData format rows =
     (if rows = [] then Inl (Errorf ''parameter block has no rows'' [])
      else
        let first = hd rows; columns = length first; rowSize = bindingRowBytes first in
        case find (\<lambda>r. \<not> sameBindingShape first (rows ! r)) [0..<length rows] of
          Some r \<Rightarrow> Inl (Errorf ''parameter block row %d has a different shape'' [FInt (int r)])
        | None \<Rightarrow>
            if columns > 0xFFFF then Inl (Errorf ''parameter block has too many columns'' [])
            else
              let useExtended = parameterMarkerPayloadLayout format first;
                  header = bytesU32 1 @ bytesU32 (word_of_nat (length rows)) @ bytesU16 (word_of_nat columns) @ bytesU16 2 @
                    (if useExtended then bytesU32 0 @ bytesU32 (word_of_nat rowSize) else bytesU16 (word_of_nat rowSize)) in
              Inr (header @ concat (map indicatorOf (concat rows)) @ concat (map pbRaw (concat rows)),
                   if useExtended then 0x381F else 0x3811))"

definition buildBlockExecuteRequest ::
    "tables \<Rightarrow> u16 \<Rightarrow> u16 \<Rightarrow> int \<Rightarrow> parameterMarkerFormat option \<Rightarrow> parameterBinding list list \<Rightarrow> packageSpec option \<Rightarrow> bytes res" where
  "buildBlockExecuteRequest fs statementHandle descriptorHandle statementType format rows pkg =
     res_bind (buildBlockParameterMarkerData format rows) (\<lambda>(dataPayload, dataCodePoint).
       let body = AppendLLCP (appendShortAttribute [] 0x3812 (word_of_int statementType) @
                    AppendLLCP [] dataCodePoint dataPayload) 0x3814 [0, 0];
           (body1, parms) = appendExecuteAttributes fs pkg (body, 3) in
       Inr (finishRequest 0x1805 (orsSendReplyImmediately OR orsSQLCA) statementHandle descriptorHandle parms body1))"

subsection \<open>Large-object replies\<close>

definition lobLengthValue :: "bytes \<Rightarrow> int res" where
  "lobLengthValue cpPayload =
     (if length cpPayload = 6 then Inr (uint (Uint32 (slice 2 6 cpPayload)))
      else if length cpPayload = 10 then
        (let len = uint (Uint64 (slice 2 10 cpPayload)) in
         if len > 2 ^ 63 - 1 then Inl (WireError ''parse LOB length'' (Errorf ''length %d exceeds int64'' [FInt len]))
         else Inr len)
      else Inl (WireError ''parse LOB length'' (Errorf ''unexpected payload length %d'' [FInt (int (length cpPayload))])))"

function parseCurrentLobLengthFromPayload :: "bytes \<Rightarrow> int res" where
  "parseCurrentLobLengthFromPayload data =
     (if data = [] then Inr (-1)
      else case ParseLLCP data of
        Inl e \<Rightarrow> Inl (WireError ''parse LOB length'' e)
      | Inr (codePoint, cpPayload, rest) \<Rightarrow>
          if codePoint = 0x3810 then lobLengthValue cpPayload
          else parseCurrentLobLengthFromPayload rest)"
  by pat_completeness auto
termination by (relation "measure length") (auto dest: ParseLLCP_shorter)

declare parseCurrentLobLengthFromPayload.simps [simp del]

definition lobDataValue :: "bytes \<Rightarrow> bytes" where
  "lobDataValue cpPayload =
     (if length cpPayload < 6 then []
      else let len0 = unat (Uint32 (slice 2 6 cpPayload));
               len = (if len0 > length cpPayload - 6 then length cpPayload - 6 else len0) in
           slice 6 (6 + len) cpPayload)"

function parseLobDataFromPayload :: "bytes \<Rightarrow> bytes res" where
  "parseLobDataFromPayload data =
     (if data = [] then Inr []
      else case ParseLLCP data of
        Inl e \<Rightarrow> Inl e
      | Inr (codePoint, cpPayload, rest) \<Rightarrow>
          if codePoint = 0x380F then Inr (lobDataValue cpPayload) else parseLobDataFromPayload rest)"
  by pat_completeness auto
termination by (relation "measure length") (auto dest: ParseLLCP_shorter)

declare parseLobDataFromPayload.simps [simp del]

interpretation lob_length_scan: llcp_scanner parseCurrentLobLengthFromPayload
  "\<lambda>cp b. if cp = 0x3810 then Some (lobLengthValue b) else None" "Inr (-1)" "\<lambda>e. Inl (WireError ''parse LOB length'' e)"
  by unfold_locales (subst parseCurrentLobLengthFromPayload.simps, auto split: sum.splits)

interpretation lob_data_scan: llcp_scanner parseLobDataFromPayload
  "\<lambda>cp b. if cp = 0x380F then Some (Inr (lobDataValue b)) else None" "Inr []" Inl
  by unfold_locales (subst parseLobDataFromPayload.simps, auto split: sum.splits)

section \<open>Lemmas\<close>

lemma sumBindingLengths_eq: "sumBindingLengths bs = sum_list (map (\<lambda>b. length (pbRaw b)) bs)"
proof -
  have "foldl (\<lambda>tot b. tot + length (pbRaw b)) n bs = n + sum_list (map (\<lambda>b. length (pbRaw b)) bs)" for n
    by (induction bs arbitrary: n) simp_all
  then show ?thesis by (simp add: sumBindingLengths_def)
qed

lemma sameBindingShape_iff: "sameBindingShape a b \<longleftrightarrow> map (length \<circ> pbRaw) a = map (length \<circ> pbRaw) b"
proof -
  have "length a = length b \<Longrightarrow> sameLengths a b \<longleftrightarrow> map (length \<circ> pbRaw) a = map (length \<circ> pbRaw) b"
    by (induction a b rule: sameLengths.induct) auto
  then show ?thesis by (auto simp: sameBindingShape_def dest: map_eq_imp_length_eq)
qed

lemma sameBindingShape_bytes: "sameBindingShape a b \<Longrightarrow> sumBindingLengths a = sumBindingLengths b"
  by (simp add: sameBindingShape_iff sumBindingLengths_eq comp_def)

lemma layoutLoop_False: "\<not> layoutLoop tot bs \<Longrightarrow> tot \<le> 0xFFFF \<Longrightarrow> tot + sum_list (map (\<lambda>b. length (pbRaw b)) bs) \<le> 0xFFFF"
  by (induction tot bs rule: layoutLoop.induct) (auto split: if_splits)

lemma original_layout_bytes: "\<not> parameterMarkerPayloadLayout format bs \<Longrightarrow> sumBindingLengths bs < 2 ^ 16"
  using layoutLoop_False [of 0 bs]
  by (auto simp: parameterMarkerPayloadLayout_def sumBindingLengths_eq split: if_splits)

text \<open>What a block is: rows of one shape within the limits.\<close>

definition good_block :: "parameterBinding list list \<Rightarrow> bool" where
  "good_block b \<longleftrightarrow> b \<noteq> [] \<and> length b \<le> maxBlockRows \<and> list_all (sameBindingShape (hd b)) b \<and>
     (length b = 1 \<or> length b * sumBindingLengths (hd b) \<le> maxBlockBytes)"

definition block_inv :: "parameterBinding list list \<Rightarrow> nat \<Rightarrow> nat \<Rightarrow> bool" where
  "block_inv rows start e \<longleftrightarrow> start < e \<and> e \<le> length rows \<and> e - start \<le> maxBlockRows \<and>
     (\<forall>i. start \<le> i \<and> i < e \<longrightarrow> sameBindingShape (rows ! start) (rows ! i)) \<and>
     (e = start + 1 \<or> (e - start) * sumBindingLengths (rows ! start) \<le> maxBlockBytes)"

lemma blockLoop_inv: "block_inv rows start e \<Longrightarrow> block_inv rows start (blockLoop rows start e)"
proof (induction rows start e rule: blockLoop.induct)
  case (1 rows start e)
  show ?case
  proof (cases "e < length rows \<and> e - start < maxBlockRows \<and> sameBindingShape (rows ! start) (rows ! e) \<and>
      \<not> (e - start + 1) * bindingRowBytes (rows ! start) > maxBlockBytes")
    case True
    with "1.prems" have "block_inv rows start (e + 1)"
      by (auto simp: block_inv_def bindingRowBytes_def less_Suc_eq Suc_diff_le)
    with 1 True show ?thesis by (subst blockLoop.simps) simp
  next
    case False
    then have "blockLoop rows start e = e" by (subst blockLoop.simps) auto
    with "1.prems" show ?thesis by simp
  qed
qed

lemma block_inv_start: "start < length rows \<Longrightarrow> block_inv rows start (start + 1)"
  by (auto simp: block_inv_def maxBlockRows_def sameBindingShape_iff less_Suc_eq)

lemma blockEnd_inv: "start < length rows \<Longrightarrow> block_inv rows start (blockEnd rows start)"
  unfolding blockEnd_def by (intro blockLoop_inv block_inv_start)

lemma block_inv_good: "block_inv rows start e \<Longrightarrow> good_block (slice start e rows)"
proof -
  assume inv: "block_inv rows start e"
  then have len: "length (slice start e rows) = e - start" and hd: "hd (slice start e rows) = rows ! start"
    by (auto simp: block_inv_def slice_def hd_take hd_drop_conv_nth)
  have "list_all (sameBindingShape (rows ! start)) (slice start e rows)"
    using inv len by (auto simp: list_all_length block_inv_def slice_def)
  moreover have "slice start e rows \<noteq> []" using inv len by (auto simp: block_inv_def simp flip: length_0_conv)
  ultimately show ?thesis using inv unfolding good_block_def hd len by (auto simp: block_inv_def)
qed

lemma batchBlocks_spec: "concat (batchBlocks rows start) = drop start rows \<and> list_all good_block (batchBlocks rows start)"
proof (induction rows start rule: batchBlocks.induct)
  case (1 rows start)
  show ?case
  proof (cases "start < length rows")
    case True
    let ?e = "blockEnd rows start"
    have inv: "block_inv rows start ?e" by (rule blockEnd_inv [OF True])
    then have "slice start ?e rows @ drop ?e rows = drop start rows"
      using append_take_drop_id [of "?e - start" "drop start rows"] by (simp add: slice_def block_inv_def)
    with 1 [OF True] True block_inv_good [OF inv] show ?thesis by (subst (1 2) batchBlocks.simps) simp
  next
    case False
    then show ?thesis by (subst (1 2) batchBlocks.simps) simp
  qed
qed

text \<open>The original result-data layout, read by \<open>parseOriginalResultDataPayload\<close>.\<close>

definition original_payload :: "u32 \<Rightarrow> nat \<Rightarrow> nat \<Rightarrow> nat \<Rightarrow> nat \<Rightarrow> bytes list \<Rightarrow> bytes \<Rightarrow> bytes" where
  "original_payload token rows cols isz rowSize inds data =
     bytesU32 token @ bytesU32 (word_of_nat rows) @ bytesU16 (word_of_nat cols) @ bytesU16 (word_of_nat isz) @
     bytesU16 (word_of_nat rowSize) @ concat inds @ data"

lemma reads_originalHeader:
  assumes "rows < 2 ^ 32" "cols < 2 ^ 16" "isz < 2 ^ 16" "rowSize < 2 ^ 16"
  shows "reads (rd_bind readU32 (\<lambda>_. rd_bind readU32 (\<lambda>rowCount. rd_bind readU16 (\<lambda>columnCount.
       rd_bind readU16 (\<lambda>indicatorSize. rd_bind readU16 (\<lambda>rowSize.
         rd_return (uint rowCount, uint columnCount, uint indicatorSize, uint rowSize)))))))
     (bytesU32 token @ bytesU32 (word_of_nat rows) @ bytesU16 (word_of_nat cols) @ bytesU16 (word_of_nat isz) @
       bytesU16 (word_of_nat rowSize) @ []) (int rows, int cols, int isz, int rowSize)"
  by ((rule reads_bind, rule reads_readU32 reads_readU16)+)
     (use assms in \<open>simp add: uint_word_of_nat reads_return\<close>)

lemma parseOriginalResultDataPayload_ok:
  assumes "rows < 2 ^ 32" "cols < 2 ^ 16" "isz < 2 ^ 16" "rowSize < 2 ^ 16" "rows * rowSize \<le> 2 ^ 48"
    and "list_all (\<lambda>b. length b = isz) inds" "length inds = rows * cols" "length data = rows * rowSize"
  shows "parseOriginalResultDataPayload (original_payload token rows cols isz rowSize inds data) =
    Inr \<lparr>fbRowCount = int rows, fbColumnCount = int cols, fbIndicatorSize = int isz, fbRowSize = int rowSize,
         fbNulls = map (is_null isz) inds, fbData = data, fbCursorClosed = False, fbEndOfData = False\<rparr>"
proof -
  let ?h = "bytesU32 token @ bytesU32 (word_of_nat rows) @ bytesU16 (word_of_nat cols) @ bytesU16 (word_of_nat isz) @
       bytesU16 (word_of_nat rowSize) @ []"
  let ?r = "newSliceReader (?h @ concat inds @ data)"
  have p: "original_payload token rows cols isz rowSize inds data = ?h @ concat inds @ data"
    by (simp add: original_payload_def)
  have u: "unread ?r = ?h @ concat inds @ data" by (simp add: unread_def newSliceReader_def)
  note h = reads_new [OF reads_originalHeader [OF assms(1-4), of token], of "concat inds @ data"]
  show ?thesis unfolding p parseOriginalResultDataPayload_def h res_bind_Inr prod.case
    by (rule parseResultDataBlock_ok [OF assms(1-3,5-8), where rest = "[]"])
       (use in_bounds_advance [OF in_bounds_new u] unread_advance [OF u] in simp_all)
qed

text \<open>What the server is meant to see in a parameter block.\<close>

definition block_meaning :: "parameterBinding list list \<Rightarrow> fetchBlock" where
  "block_meaning rows =
     \<lparr>fbRowCount = int (length rows), fbColumnCount = int (length (hd rows)), fbIndicatorSize = 2,
      fbRowSize = int (sumBindingLengths (hd rows)), fbNulls = map pbIsNull (concat rows),
      fbData = concat (map pbRaw (concat rows)), fbCursorClosed = False, fbEndOfData = False\<rparr>"

lemma indicators_nulls: "map (is_null 2) (map indicatorOf bs) = map pbIsNull bs"
  by (simp add: is_null_def indicatorOf_def)

lemma find_upt_None: "find P [0..<n] = None \<Longrightarrow> i < n \<Longrightarrow> \<not> P i"
  by (auto simp: find_None_iff)

lemma block_Inr:
  assumes "buildBlockParameterMarkerData format rows = Inr (payload, cp)"
  shows "rows \<noteq> []" and "list_all (sameBindingShape (hd rows)) rows" and "length (hd rows) < 2 ^ 16"
    and "(cp, payload) =
      (if parameterMarkerPayloadLayout format (hd rows)
       then (0x381F, result_payload 1 (length rows) (length (hd rows)) 2 (sumBindingLengths (hd rows))
         (map indicatorOf (concat rows)) (concat (map pbRaw (concat rows))))
       else (0x3811, original_payload 1 (length rows) (length (hd rows)) 2 (sumBindingLengths (hd rows))
         (map indicatorOf (concat rows)) (concat (map pbRaw (concat rows)))))"
  using assms
  by (auto simp: buildBlockParameterMarkerData_def Let_def list_all_length result_payload_def original_payload_def
      bindingRowBytes_def find_None_iff split: if_splits option.splits)

lemma same_shape_sums:
  assumes "list_all (sameBindingShape r) rows"
  shows "length (concat rows) = length rows * length r"
    and "length (concat (map pbRaw (concat rows))) = length rows * sumBindingLengths r"
proof -
  have "sameBindingShape r s \<Longrightarrow> length s = length r \<and> length (concat (map pbRaw s)) = sumBindingLengths r" for s
    using sameBindingShape_bytes [of r s]
    by (simp add: sameBindingShape_def sumBindingLengths_eq length_concat comp_def split: if_splits)
  then show "length (concat rows) = length rows * length r"
    and "length (concat (map pbRaw (concat rows))) = length rows * sumBindingLengths r"
    using assms by (induction rows) simp_all
qed

definition read_block :: "u16 \<Rightarrow> bytes \<Rightarrow> fetchBlock res" where
  "read_block cp payload = (if cp = 0x381F then parseResultDataPayload payload else parseOriginalResultDataPayload payload)"

lemma block_data_read:
  assumes b: "buildBlockParameterMarkerData format rows = Inr (payload, cp)"
    and n: "length rows < 2 ^ 32" and sz: "sumBindingLengths (hd rows) < 2 ^ 32"
    and tot: "length rows * sumBindingLengths (hd rows) \<le> 2 ^ 48"
  shows "read_block cp payload = Inr (block_meaning rows)"
proof -
  let ?inds = "map indicatorOf (concat rows)" and ?data = "concat (map pbRaw (concat rows))"
  note sums = same_shape_sums [OF block_Inr(2) [OF b]]
  have two: "(2::nat) < 2 ^ 16" by simp
  have wid: "list_all (\<lambda>b. length b = 2) ?inds" by (simp add: list_all_iff indicatorOf_def)
  have li: "length ?inds = length rows * length (hd rows)" by (simp add: sums(1))
  note ext = parseResultDataPayload_ok [OF n block_Inr(3) [OF b] two sz tot wid li sums(2), of 1]
  note orig = parseOriginalResultDataPayload_ok [OF n block_Inr(3) [OF b] two _ tot wid li sums(2), of 1]
  show ?thesis
  proof (cases "parameterMarkerPayloadLayout format (hd rows)")
    case True
    with block_Inr(4) [OF b] ext show ?thesis by (simp add: read_block_def block_meaning_def indicators_nulls [simplified])
  next
    case False
    with block_Inr(4) [OF b] orig [OF original_layout_bytes [OF False]] show ?thesis
      by (simp add: read_block_def block_meaning_def indicators_nulls [simplified])
  qed
qed

definition block_request :: "tables \<Rightarrow> u16 \<Rightarrow> u16 \<Rightarrow> int \<Rightarrow> u16 \<times> bytes \<Rightarrow> packageSpec option \<Rightarrow> request" where
  "block_request fs h d ty datap pkg =
     req 0x1805 0x82000000 h d ([(0x3812, bytesU16 (word_of_int ty)), datap, (0x3814, [0, 0])] @ execute_params fs pkg)"

definition block_param :: "parameterMarkerFormat option \<Rightarrow> parameterBinding list list \<Rightarrow> u16 \<times> bytes" where
  "block_param format rows = (case buildBlockParameterMarkerData format rows of Inr (payload, cp) \<Rightarrow> (cp, payload) | Inl _ \<Rightarrow> (0, []))"

lemma block_execute_bytes:
  "buildBlockExecuteRequest fs h d ty format rows pkg = Inr packet \<Longrightarrow>
   packet = request_bytes (block_request fs h d ty (block_param format rows) pkg)"
  by (auto simp: buildBlockExecuteRequest_def block_request_def block_param_def res_simps attr_simps params_join
      request_bytes_req ors_bits case_prod_beta Let_def intro!: finishRequest_cong simp del: params_simps(2,3))

interpretation block_execute: request_builder
  "\<lambda>(h, d, ty, format, rows, pkg). buildBlockExecuteRequest fs h d ty format rows pkg"
  "\<lambda>(h, d, ty, format, rows, pkg). block_request fs h d ty (block_param format rows) pkg" for fs
  by unfold_locales (auto intro: block_execute_bytes)

section \<open>Properties\<close>


text \<open>
  C38. A block EXECUTE carries exactly the bound rows: the peer that reads the request finds
  the statement type, the parameter data and the block indicator, and reading the
  parameter data by the result-data layout of its code point gives the number of rows and
  columns, the null flags in row order and the raw values in row order, nothing truncated.
\<close>

theorem block_execute_read:
  assumes "buildBlockExecuteRequest fs h d ty format rows pkg = Inr packet"
    and "request_fits (block_request fs h d ty (block_param format rows) pkg)"
    and "length rows < 2 ^ 32" "sumBindingLengths (hd rows) < 2 ^ 32"
    and "length rows * sumBindingLengths (hd rows) \<le> 2 ^ 48"
  shows "\<exists>cp payload. parse_request packet = Some (block_request fs h d ty (cp, payload) pkg) \<and>
    (if cp = 0x381F then parseResultDataPayload payload else parseOriginalResultDataPayload payload) =
      Inr \<lparr>fbRowCount = int (length rows), fbColumnCount = int (length (hd rows)), fbIndicatorSize = 2,
           fbRowSize = int (sumBindingLengths (hd rows)), fbNulls = map pbIsNull (concat rows),
           fbData = concat (map pbRaw (concat rows)), fbCursorClosed = False, fbEndOfData = False\<rparr>"
proof -
  obtain payload cp where b: "buildBlockParameterMarkerData format rows = Inr (payload, cp)"
    using assms(1) by (auto simp: buildBlockExecuteRequest_def res_simps)
  have "parse_request packet = Some (block_request fs h d ty (cp, payload) pkg)"
    using block_execute.understood [of fs "(h, d, ty, format, rows, pkg)" packet] assms(1,2)
    by (simp add: block_param_def b)
  with block_data_read [OF b assms(3-5)] show ?thesis unfolding read_block_def block_meaning_def by blast
qed

definition example_binding :: "bytes \<Rightarrow> bool \<Rightarrow> parameterBinding" where
  "example_binding raw isnull =
     \<lparr>pbField = \<lparr>pfName = [], pfSQLType = 500, pfLength = 2, pfScale = 0, pfPrecision = 0, pfCCSID = 0,
        pfParameterType = 240, pfLOBLocator = -1, pfLOBMaxSize = -1, pfBidi = None\<rparr>,
      pbRaw = raw, pbIsNull = isnull, pbHasOut = False, pbLobWrite = None\<rparr>"

lemma example_block:
  "buildBlockParameterMarkerData None [[example_binding [0, 1] False], [example_binding [0, 0] True]] =
     Inr (bytesU32 1 @ bytesU32 2 @ bytesU16 1 @ bytesU16 2 @ bytesU32 0 @ bytesU32 2 @ [0, 0, 0xFF, 0xFF, 0, 1, 0, 0], 0x381F)"
  by (simp add: buildBlockParameterMarkerData_def example_binding_def sameBindingShape_def parameterMarkerPayloadLayout_def
      bindingRowBytes_def sumBindingLengths_def indicatorOf_def bytesU16_eq upt_rec)

theorem block_execute_read_witness:
  "\<exists>packet cp payload.
     buildBlockExecuteRequest [] 1 2 1 None [[example_binding [0, 1] False], [example_binding [0, 0] True]] None = Inr packet \<and>
     parse_request packet = Some (block_request [] 1 2 1 (cp, payload) None) \<and>
     (if cp = 0x381F then parseResultDataPayload payload else parseOriginalResultDataPayload payload) =
       Inr \<lparr>fbRowCount = 2, fbColumnCount = 1, fbIndicatorSize = 2, fbRowSize = 2, fbNulls = [False, True],
            fbData = [0, 1, 0, 0], fbCursorClosed = False, fbEndOfData = False\<rparr>"
proof -
  let ?rows = "[[example_binding [0, 1] False], [example_binding [0, 0] True]]"
  obtain packet where p: "buildBlockExecuteRequest [] 1 2 1 None ?rows None = Inr packet"
    by (simp add: buildBlockExecuteRequest_def example_block case_prod_beta Let_def)
  have fits: "request_fits (block_request [] 1 2 1 (block_param None ?rows) None)"
    by (simp add: block_param_def example_block block_request_def req_def request_fits_def execute_params_def AppendLLCP_def)
  from block_execute_read [OF p fits] p show ?thesis by (auto simp: example_binding_def sumBindingLengths_def)
qed

text \<open>
  The batch path and the single-row path agree: the block of one row is byte for byte the
  payload \<open>buildParameterMarkerDataPayload\<close> sends for that row, with the same code point.
\<close>

theorem single_row_block:
  assumes "length row \<le> 0xFFFF"
  shows "buildBlockParameterMarkerData format [row] = Inr (buildParameterMarkerDataPayload format row)"
  using assms by (simp add: buildBlockParameterMarkerData_def buildParameterMarkerDataPayload_def Let_def
      bindingRowBytes_def sameBindingShape_iff)

theorem single_row_block_witness:
  "buildBlockParameterMarkerData None [[example_binding [0, 1] False]] =
     Inr (buildParameterMarkerDataPayload None [example_binding [0, 1] False])"
  using single_row_block [of "[example_binding [0, 1] False]" None] by simp

end
