(* ===== verification/Package.thy ===== *)
theory Package
  imports Config Blocks
begin

text \<open>
  Extended dynamic support (SQL packages): the per-connection state, the rule that decides
  which statements are packaged, the package name suffix of \<open>src/package.go\<close>, and the
  downloaded package of \<open>src/package_cache.go\<close>. The parts that talk to the server are in the
  session theory.
\<close>

section \<open>Definitions\<close>

subsection \<open>Which statements are packaged\<close>

definition flush_token :: "string \<Rightarrow> string list" where
  "flush_token current = (if current = [] then [] else [ToUpper current])"

text \<open>The inner loops of the tokenizer: a nested comment, a line comment, a quoted literal.\<close>

fun skipComment :: "nat \<Rightarrow> string \<Rightarrow> string" where
  "skipComment 0 s = s"
| "skipComment (Suc d) [] = []"
| "skipComment (Suc d) [c] = []"
| "skipComment (Suc d) (a # b # s) =
     (if a = CHR ''/'' \<and> b = CHR ''*'' then skipComment (Suc (Suc d)) s
      else if a = CHR ''*'' \<and> b = CHR ''/'' then skipComment d s
      else skipComment (Suc d) (b # s))"

definition skipLine :: "string \<Rightarrow> string" where
  "skipLine s = dropWhile (\<lambda>c. c \<noteq> newline) s"

definition skipQuoted :: "char \<Rightarrow> string \<Rightarrow> string" where
  "skipQuoted q s = tl (dropWhile (\<lambda>c. c \<noteq> q) s)"

lemma skipComment_length: "length (skipComment d s) \<le> length s"
  by (induction d s rule: skipComment.induct) auto

lemma skipLine_length: "length (skipLine s) \<le> length s"
  unfolding skipLine_def by (rule length_dropWhile_le)

lemma skipQuoted_length: "length (skipQuoted q s) \<le> length s"
  unfolding skipQuoted_def using length_dropWhile_le [of "\<lambda>c. c \<noteq> q" s] by simp

definition isTokenSpace :: "char \<Rightarrow> bool" where
  "isTokenSpace ch \<longleftrightarrow> ch = CHR '' '' \<or> ch = CHR 9 \<or> ch = CHR 10 \<or> ch = CHR 13 \<or> ch = CHR 12"

function tokenLoop :: "string \<Rightarrow> string \<Rightarrow> string list \<times> nat" where
  "tokenLoop current [] = (flush_token current, 0)"
| "tokenLoop current (ch # rest) =
     (if ch = CHR ''/'' \<and> starts (CHR ''*'') rest then
        (case tokenLoop [] (skipComment 1 (tl rest)) of (ts, m) \<Rightarrow> (flush_token current @ ts, m))
      else if ch = CHR ''-'' \<and> starts (CHR ''-'') rest then
        (case tokenLoop [] (skipLine rest) of (ts, m) \<Rightarrow> (flush_token current @ ts, m))
      else if ch = quote \<or> ch = dquote then
        (case tokenLoop [] (skipQuoted ch rest) of (ts, m) \<Rightarrow> (flush_token current @ [quote] # ts, m))
      else if ch = CHR ''('' then
        (case tokenLoop [] rest of (ts, m) \<Rightarrow> (flush_token current @ ''('' # ts, m))
      else if isTokenSpace ch then
        (case tokenLoop [] rest of (ts, m) \<Rightarrow> (flush_token current @ ts, m))
      else
        (case tokenLoop (current @ [ch]) rest of (ts, m) \<Rightarrow> (ts, if ch = CHR ''?'' then Suc m else m)))"
  by pat_completeness auto
termination
proof (relation "measure (\<lambda>(current, s). length s)")
  fix current :: string and ch and rest :: string
  have "length (skipComment 1 (tl rest)) \<le> length rest"
    using skipComment_length [of 1 "tl rest"] by simp
  then show "(([], skipComment 1 (tl rest)), (current, ch # rest)) \<in> measure (\<lambda>(current, s). length s)" by simp
  show "(([], skipLine rest), (current, ch # rest)) \<in> measure (\<lambda>(current, s). length s)"
    using skipLine_length [of rest] by simp
  show "(([], skipQuoted ch rest), (current, ch # rest)) \<in> measure (\<lambda>(current, s). length s)"
    using skipQuoted_length [of ch rest] by simp
qed simp_all

definition packageTokens :: "string \<Rightarrow> string list \<times> nat" where
  "packageTokens sql = tokenLoop [] sql"

text \<open>The first token that is more than parentheses, and the tokens after it.\<close>

fun firstWord :: "string list \<Rightarrow> (string \<times> string list) option" where
  "firstWord [] = None"
| "firstWord (t # ts) = (let word = TrimLeft (CHR ''('') t in if word \<noteq> [] then Some (word, ts) else firstWord ts)"

fun followed :: "string \<Rightarrow> string \<Rightarrow> string list \<Rightarrow> bool" where
  "followed a b (x # y # ts) = ((x = a \<and> y = b) \<or> followed a b (y # ts))"
| "followed a b _ = False"

definition packageCriteriaMatches :: "string \<Rightarrow> bool \<Rightarrow> bool" where
  "packageCriteriaMatches sql selectCriteria =
     (case packageTokens sql of (tokens, parameterMarkers) \<Rightarrow>
        case firstWord tokens of
          None \<Rightarrow> False
        | Some (first, rest) \<Rightarrow>
            let isSelect = HasPrefix first ''SELECT'' \<or> first = ''WITH'' \<or> HasPrefix first ''VALUES'';
                isInsert = (first = ''INSERT'');
                isDeclare = (first = ''DECLARE'');
                isSubSelect = (isInsert \<and> ''SELECT'' \<in> set rest);
                isCurrentOf = followed ''CURRENT'' ''OF'' rest;
                isForUpdate = followed ''FOR'' ''UPDATE'' rest;
                packaged = (parameterMarkers > 0 \<and> \<not> isCurrentOf) \<or> (isInsert \<and> isSubSelect) \<or>
                  (isSelect \<and> isForUpdate) \<or> isDeclare in
            if selectCriteria then packaged \<or> isSelect else packaged)"

subsection \<open>Package name\<close>

definition packageSuffixInvariant :: string where
  "packageSuffixInvariant = ''9876543210ZYXWVUTSRQPONMLKJIHGFEDCBA''"

definition suffix_char :: "int \<Rightarrow> char res" where
  "suffix_char i =
     (if 0 \<le> i \<and> i < int (length packageSuffixInvariant) then Inr (packageSuffixInvariant ! nat i)
      else Inl (Panic ''index out of range''))"

definition packageSuffix :: "Config \<Rightarrow> int \<Rightarrow> string res" where
  "packageSuffix cfg commitMode0 =
     (let (commitMode, dateSeparator) =
            (if commitMode0 = 4 then
               (if cfgDateSeparator cfg \<in> {0, 1, 2} then (cfgDateSeparator cfg, 6)
                else if cfgDateSeparator cfg \<in> {3, 4} then (cfgDateSeparator cfg - 2, 7)
                else (commitMode0, cfgDateSeparator cfg))
             else (commitMode0, cfgDateSeparator cfg));
          naming = (if cfgNaming cfg = NamingSystem then 1 else 0) in
      res_bind (suffix_char 0) (\<lambda>c0.
      res_bind (suffix_char (push_bit 3 commitMode OR cfgDateFormat cfg)) (\<lambda>c1.
      res_bind (suffix_char (push_bit 4 (cfgDecimalSeparator cfg) OR push_bit 3 naming OR dateSeparator)) (\<lambda>c2.
      res_bind (suffix_char (push_bit 2 (cfgTimeFormat cfg) OR cfgTimeSeparator cfg)) (\<lambda>c3.
        Inr [c0, c1, c2, c3])))))"

text \<open>\<open>upper\<close> is \<open>strings.ToUpper\<close> for text of any script.\<close>

definition packageNameFor :: "(string \<Rightarrow> string) \<Rightarrow> string \<Rightarrow> Config \<Rightarrow> int \<Rightarrow> string res" where
  "packageNameFor upper name cfg commitMode =
     (let normalized = map (\<lambda>c. if c = CHR '' '' then CHR ''_'' else c) (upper (string_of_runes (take 6 (runes name)))) in
      res_bind (packageSuffix cfg commitMode) (\<lambda>suffix. Inr (normalized @ suffix)))"

subsection \<open>The downloaded package\<close>

record packageCachedStatement =
  pcName :: string
  pcText :: string
  pcUsable :: bool
  pcResultFields :: "parameterMarkerField list"
  pcParamFormat :: "parameterMarkerFormat option"

definition sqldaIsVarType :: "int \<Rightarrow> bool" where
  "sqldaIsVarType baseType \<longleftrightarrow> baseType \<in> {448, 456, 464, 472, 908}"

text \<open>Go's \<open>x / 2\<close>, which truncates towards zero.\<close>

definition go_half :: "int \<Rightarrow> int" where
  "go_half x = (if x < 0 then - ((- x) div 2) else x div 2)"

definition sqldaField :: "tables \<Rightarrow> bytes \<Rightarrow> int \<Rightarrow> nat \<Rightarrow> parameterMarkerField" where
  "sqldaField fs data nameCCSID i =
     (let base = 16 + i * 80;
          entry = slice base (base + 80) data;
          sqlType = sint (Uint16 (slice 0 2 entry));
          baseType = sqlType AND 0xFFFE;
          precision0 = sint (entry ! 2);
          length0 = sint (Uint16 (slice 2 4 entry));
          length1 = (if baseType = 484 then go_half precision0 + 1
                     else if baseType = 488 then precision0
                     else if baseType \<in> {464, 468, 472} then length0 * 2 else length0);
          (len, prec) = (if sqldaIsVarType baseType then (length1 + 2, precision0 + 2) else (length1, precision0));
          scale = (if baseType = 496 \<or> baseType = 500 then 0 else sint (entry ! 3));
          paramType = (if entry ! 48 = 0xD6 then 0xF1 else if entry ! 48 = 0xC2 then 0xF2 else 0xF0);
          nameLength = unat (Uint16 (slice 64 66 entry));
          nameStart = base + 66;
          name = (if nameLength > 0 \<and> nameStart + nameLength \<le> length data
                  then (case decodeTextByCCSID fs (slice nameStart (nameStart + nameLength) data) nameCCSID of
                          Inr decoded \<Rightarrow> TrimSpace decoded | Inl _ \<Rightarrow> [])
                  else []) in
      \<lparr>pfName = name, pfSQLType = sqlType, pfLength = len, pfScale = scale, pfPrecision = prec,
       pfCCSID = uint (Uint16 (slice 34 36 entry)), pfParameterType = paramType, pfLOBLocator = -1,
       pfLOBMaxSize = -1, pfBidi = None\<rparr>)"

definition parseSQLDAFormat :: "tables \<Rightarrow> bytes \<Rightarrow> int \<Rightarrow> parameterMarkerField list res" where
  "parseSQLDAFormat fs data nameCCSID =
     (if length data < 16 then Inl (Errorf ''SQLDA too short: %d'' [FInt (int (length data))])
      else let count = unat (Uint16 (slice 14 16 data)) in
        if length data < 16 + count * 80
        then Inl (Errorf ''SQLDA too short for %d fields: %d'' [FInt (int count), FInt (int (length data))])
        else Inr (map (sqldaField fs data nameCCSID) [0..<count]))"

definition packageParameterFormat :: "parameterMarkerField list \<Rightarrow> parameterMarkerFormat" where
  "packageParameterFormat fds =
     \<lparr>pmCodePoint = 0x3808, pmRecordSize = foldl (\<lambda>n f. n + pfLength f) 0 fds, pmFields = fds\<rparr>"

definition packageFieldsHaveLOB :: "parameterMarkerField list \<Rightarrow> bool" where
  "packageFieldsHaveLOB fds \<longleftrightarrow> list_ex (\<lambda>f. pfSQLType f AND 0xFFFE \<in> {404, 408, 412, 960, 964, 968}) fds"

definition packageRegion :: "bytes \<Rightarrow> bytes \<Rightarrow> bytes \<Rightarrow> bytes option" where
  "packageRegion info offsetBytes lengthBytes =
     (let start = sint (Uint32 offsetBytes) - 6; len = sint (Uint32 lengthBytes) in
      if start < 0 \<or> len < 0 \<or> start + len > int (length info) then None
      else Some (slice (nat start) (nat (start + len)) info))"

definition packageRegionOK :: "bytes \<Rightarrow> bytes \<Rightarrow> bytes \<Rightarrow> bytes option" where
  "packageRegionOK info offsetBytes lengthBytes =
     (let len = sint (Uint32 lengthBytes) in
      if len = 0 \<or> len = 6 then None else packageRegion info offsetBytes lengthBytes)"

function findPackageInfo :: "bytes \<Rightarrow> bytes option res" where
  "findPackageInfo data =
     (if data = [] then Inr None
      else case ParseLLCP data of
        Inl e \<Rightarrow> Inl e
      | Inr (codePoint, cpPayload, rest) \<Rightarrow>
          if codePoint = 0x380B then Inr (Some cpPayload) else findPackageInfo rest)"
  by pat_completeness auto
termination by (relation "measure length") (auto dest: ParseLLCP_shorter)

declare findPackageInfo.simps [simp del]

text \<open>One entry of the package: its name and text, and its formats where present.\<close>

definition sqlda_at :: "tables \<Rightarrow> int \<Rightarrow> nat \<Rightarrow> string \<Rightarrow> bytes option \<Rightarrow> parameterMarkerField list option res" where
  "sqlda_at fs nameCCSID i what region =
     (case region of
        None \<Rightarrow> Inr None
      | Some formatData \<Rightarrow>
          (case parseSQLDAFormat fs formatData nameCCSID of
             Inl e \<Rightarrow> Inl (Errorf (''statement %d '' @ what @ '': %w'') [FInt (int i), FErr e])
           | Inr fds \<Rightarrow> Inr (Some fds)))"

definition packageEntry :: "tables \<Rightarrow> bytes \<Rightarrow> int \<Rightarrow> int \<Rightarrow> nat \<Rightarrow> packageCachedStatement res" where
  "packageEntry fs info nameCCSID textCCSIDValue i =
     (let start = 42 + i * 64;
          entry = slice start (start + 64) info;
          name = decodeTextByCCSID fs (slice 3 21 entry) nameCCSID;
          trimmed = (case name of Inr n \<Rightarrow> TrimRight (CHR '' '') n | Inl _ \<Rightarrow> []);
          textData = packageRegion info (slice 48 52 entry) (slice 52 56 entry);
          decoded = decodeTextByCCSID fs (case textData of Some b \<Rightarrow> b | None \<Rightarrow> []) textCCSIDValue in
      res_bind (sqlda_at fs nameCCSID i ''result format'' (packageRegionOK info (slice 40 44 entry) (slice 44 48 entry))) (\<lambda>rf.
      res_bind (sqlda_at fs nameCCSID i ''parameter marker format'' (packageRegionOK info (slice 56 60 entry) (slice 60 64 entry))) (\<lambda>pf.
        Inr \<lparr>pcName = trimmed, pcText = (case decoded of Inr t \<Rightarrow> t | Inl _ \<Rightarrow> []),
             pcUsable = (\<not> isl name \<and> \<not> isl decoded \<and> textData \<noteq> None \<and> trimmed \<noteq> []),
             pcResultFields = (case rf of Some f \<Rightarrow> f | None \<Rightarrow> []),
             pcParamFormat = map_option packageParameterFormat pf\<rparr>)))"

fun packageEntries :: "(nat \<Rightarrow> packageCachedStatement res) \<Rightarrow> nat \<Rightarrow> nat \<Rightarrow> packageCachedStatement list res" where
  "packageEntries f i 0 = Inr []"
| "packageEntries f i (Suc k) =
     res_bind (f i) (\<lambda>s. res_bind (packageEntries f (Suc i) k) (\<lambda>ss. Inr (s # ss)))"

definition parsePackageInfo :: "tables \<Rightarrow> bytes \<Rightarrow> int \<Rightarrow> packageCachedStatement list res" where
  "parsePackageInfo fs payload nameCCSID =
     res_bind (findPackageInfo payload) (\<lambda>found.
       case found of
         None \<Rightarrow> Inl (Errorf ''package info not in reply'' [])
       | Some info \<Rightarrow>
           if length info < 42 then Inl (Errorf ''package info too short: %d'' [FInt (int (length info))])
           else let textCCSIDValue = sint (Uint16 (slice 4 6 info)); count = unat (Uint16 (slice 24 26 info)) in
             if length info < 42 + count * 64
             then Inl (Errorf ''package info too short for %d statements: %d'' [FInt (int count), FInt (int (length info))])
             else packageEntries (packageEntry fs info nameCCSID textCCSIDValue) 0 count)"

subsection \<open>State of a connection's package\<close>

record packageState =
  pkEnabled :: bool
  pkCreated :: bool
  pkName :: string
  pkLibrary :: string
  pkErrMode :: string
  pkSelectOK :: bool
  pkCacheOn :: bool
  pkCache :: "packageCachedStatement list option"
  pkPackaged :: "u16 \<Rightarrow> bool"

definition packageErrorMode :: "Config \<Rightarrow> string" where
  "packageErrorMode cfg = (if cfgPackageError cfg = [] then ''warning'' else cfgPackageError cfg)"

definition packageCriteria :: "Config \<Rightarrow> string" where
  "packageCriteria cfg = (if cfgPackageCriteria cfg = [] then ''default'' else cfgPackageCriteria cfg)"

definition packageDisabledMessage :: string where
  "packageDisabledMessage = ''extended dynamic support disabled: no package name was specified''"

definition newPackageState ::
    "(string \<Rightarrow> string) \<Rightarrow> Config \<Rightarrow> (packageState option \<times> sqlWarning option) res" where
  "newPackageState upper cfg =
     (if \<not> cfgExtendedDynamic cfg then Inr (None, None)
      else let mode = packageErrorMode cfg; name = TrimSpace (cfgPackage cfg) in
        if name = [] then
          (if mode = ''exception'' then Inl (SQLError 0 ''01H11'' packageDisabledMessage [] [] [] [])
           else if mode = ''warning'' then
             Inr (None, Some \<lparr>swCode = 0, swState = ''01H11'', swMessage = packageDisabledMessage\<rparr>)
           else Inr (None, None))
        else
          let library0 = upper (TrimSpace (cfgPackageLibrary cfg));
              library = (if library0 = [] then ''QGPL'' else library0);
              commitMode = uint (serverCommitmentControl cfg True (cfgCommitmentControl cfg)) in
          res_bind (packageNameFor upper name cfg commitMode) (\<lambda>pname.
            Inr (Some \<lparr>pkEnabled = True, pkCreated = False, pkName = pname, pkLibrary = library, pkErrMode = mode,
                       pkSelectOK = (packageCriteria cfg = ''select''), pkCacheOn = cfgPackageCache cfg,
                       pkCache = None, pkPackaged = (\<lambda>_. False)\<rparr>, None)))"

definition specForPrepare :: "packageState option \<Rightarrow> u16 \<Rightarrow> string \<Rightarrow> packageSpec option \<times> packageState option" where
  "specForPrepare p handle sql =
     (case p of
        None \<Rightarrow> (None, None)
      | Some s \<Rightarrow>
          if \<not> pkEnabled s then (None, p)
          else let packaged = packageCriteriaMatches sql (pkSelectOK s) in
            (Some \<lparr>psName = pkName s, psLibrary = pkLibrary s, psPackaged = packaged\<rparr>,
             Some (s\<lparr>pkPackaged := (pkPackaged s)(handle := packaged)\<rparr>)))"

definition specForImmediate :: "packageState option \<Rightarrow> string \<Rightarrow> packageSpec option" where
  "specForImmediate p sql =
     (case p of
        None \<Rightarrow> None
      | Some s \<Rightarrow>
          if \<not> pkEnabled s then None
          else Some \<lparr>psName = pkName s, psLibrary = pkLibrary s, psPackaged = packageCriteriaMatches sql (pkSelectOK s)\<rparr>)"

definition specForLibrary :: "packageState option \<Rightarrow> packageSpec option" where
  "specForLibrary p =
     (case p of
        None \<Rightarrow> None
      | Some s \<Rightarrow>
          if \<not> pkEnabled s then None
          else Some \<lparr>psName = pkName s, psLibrary = pkLibrary s, psPackaged = False\<rparr>)"

definition specForExecute :: "packageState option \<Rightarrow> u16 \<Rightarrow> packageSpec option" where
  "specForExecute p handle =
     (case p of
        None \<Rightarrow> None
      | Some s \<Rightarrow>
          if \<not> pkEnabled s \<or> \<not> pkPackaged s handle then None
          else Some \<lparr>psName = pkName s, psLibrary = pkLibrary s, psPackaged = True\<rparr>)"

fun findCached :: "string \<Rightarrow> packageCachedStatement list \<Rightarrow> packageCachedStatement option" where
  "findCached query [] = None"
| "findCached query (stmt # stmts) =
     (if \<not> pcUsable stmt \<or> pcText stmt \<noteq> query then findCached query stmts
      else if packageFieldsHaveLOB (pcResultFields stmt) then None
      else case pcParamFormat stmt of
        Some f \<Rightarrow> if packageFieldsHaveLOB (pmFields f) then None else Some stmt
      | None \<Rightarrow> Some stmt)"

definition cachedStatementFor :: "packageState option \<Rightarrow> string \<Rightarrow> packageCachedStatement option" where
  "cachedStatementFor p query =
     (case p of
        None \<Rightarrow> None
      | Some s \<Rightarrow>
          (case pkCache s of
             None \<Rightarrow> None
           | Some stmts \<Rightarrow>
               if \<not> pkEnabled s \<or> \<not> packageCriteriaMatches query (pkSelectOK s) then None
               else findCached query stmts))"

definition isCachedStatementName :: "packageState option \<Rightarrow> string \<Rightarrow> bool" where
  "isCachedStatementName p name =
     (case p of
        None \<Rightarrow> False
      | Some s \<Rightarrow> (case pkCache s of None \<Rightarrow> False | Some stmts \<Rightarrow> list_ex (\<lambda>st. pcName st = name) stmts))"

definition packageCacheEnabled :: "packageState option \<Rightarrow> bool" where
  "packageCacheEnabled p = (case p of None \<Rightarrow> False | Some s \<Rightarrow> pkCacheOn s)"

definition buildReturnPackageRequest :: "tables \<Rightarrow> string \<Rightarrow> string \<Rightarrow> bytes res" where
  "buildReturnPackageRequest fs name library =
     res_bind (appendNameAttribute fs 0x3804 name) (\<lambda>nameAttr.
     res_bind (appendNameAttribute fs 0x3801 library) (\<lambda>libraryAttr.
       Inr (finishRequest 0x1815 (orsSendReplyImmediately OR 0x00100000) 0 0 3
              (appendIntAttribute (nameAttr @ libraryAttr) 0x3815 0))))"

definition buildSetPackageAddAttribute :: "Config \<Rightarrow> bytes" where
  "buildSetPackageAddAttribute cfg = appendShortAttribute [] 0x3812 (if cfgPackageAddDisabled cfg then 0 else 1)"

section \<open>Lemmas\<close>

lemma suffix_table: "distinct packageSuffixInvariant" "length packageSuffixInvariant = 36"
  by (simp_all add: packageSuffixInvariant_def)

lemma suffix_char_ok: "0 \<le> i \<Longrightarrow> i < 36 \<Longrightarrow> suffix_char i = Inr (packageSuffixInvariant ! nat i)"
  by (simp add: suffix_char_def suffix_table(2))

lemma suffix_nth_inject:
  "0 \<le> i \<Longrightarrow> i < 36 \<Longrightarrow> 0 \<le> j \<Longrightarrow> j < 36 \<Longrightarrow>
   packageSuffixInvariant ! nat i = packageSuffixInvariant ! nat j \<longleftrightarrow> i = j"
  using nth_eq_iff_index_eq [OF suffix_table(1), of "nat i" "nat j"] by (auto simp: suffix_table(2))

text \<open>The three numbers the suffix encodes.\<close>

definition suffix_codes :: "Config \<Rightarrow> int \<Rightarrow> int \<times> int \<times> int" where
  "suffix_codes cfg cm =
     (let sep = cfgDateSeparator cfg;
          (cm', sep') = (if cm = 4 then (if sep \<le> 2 then (sep, 6) else (sep - 2, 7)) else (cm, sep)) in
      (cm' * 8 + cfgDateFormat cfg,
       cfgDecimalSeparator cfg * 16 + (if cfgNaming cfg = NamingSystem then 8 else 0) + sep',
       cfgTimeFormat cfg * 4 + cfgTimeSeparator cfg))"

lemma suffix_codes_range:
  assumes "Validate cfg = Inr ()" "0 \<le> cm" "cm \<le> 4" "suffix_codes cfg cm = (a, b, c)"
  shows "0 \<le> a \<and> a < 36" "0 \<le> b \<and> b < 36" "0 \<le> c \<and> c < 36"
  using assms(2-4) Validate_ok [OF assms(1)] by (auto simp: suffix_codes_def Let_def split: if_splits)

lemma packageSuffix_eq:
  assumes "Validate cfg = Inr ()" "0 \<le> cm" "cm \<le> 4" "suffix_codes cfg cm = (a, b, c)"
  shows "packageSuffix cfg cm = Inr [packageSuffixInvariant ! 0, packageSuffixInvariant ! nat a,
    packageSuffixInvariant ! nat b, packageSuffixInvariant ! nat c]"
proof -
  note v = Validate_ok [OF assms(1)]
  have "cfgDateSeparator cfg \<le> 2 \<longleftrightarrow> cfgDateSeparator cfg \<in> {0, 1, 2}"
    "\<not> cfgDateSeparator cfg \<le> 2 \<longleftrightarrow> cfgDateSeparator cfg \<in> {3, 4}" using v(2) by auto
  then have cases4: "(if cm = 4 then if cfgDateSeparator cfg \<in> {0, 1, 2} then (cfgDateSeparator cfg, 6)
       else if cfgDateSeparator cfg \<in> {3, 4} then (cfgDateSeparator cfg - 2, 7) else (cm, cfgDateSeparator cfg)
     else (cm, cfgDateSeparator cfg)) =
     (if cm = 4 then (if cfgDateSeparator cfg \<le> 2 then (cfgDateSeparator cfg, 6) else (cfgDateSeparator cfg - 2, 7))
      else (cm, cfgDateSeparator cfg))" by auto
  obtain cm' sep' where cs: "(if cm = 4 then (if cfgDateSeparator cfg \<le> 2 then (cfgDateSeparator cfg, 6)
      else (cfgDateSeparator cfg - 2, 7)) else (cm, cfgDateSeparator cfg)) = (cm', sep')" by (metis prod.collapse)
  have sep: "0 \<le> sep'" "sep' < 8" using cs v(2) by (auto split: if_splits)
  let ?nm = "if cfgNaming cfg = NamingSystem then (1::int) else 0"
  have o1: "push_bit 3 cm' OR cfgDateFormat cfg = cm' * 8 + cfgDateFormat cfg"
    using or_shift_add [of "cfgDateFormat cfg" 3 cm'] v(1) by simp
  have o2: "push_bit 3 ?nm OR sep' = ?nm * 8 + sep'" using or_shift_add [of sep' 3 ?nm] sep by simp
  have o3: "push_bit 4 (cfgDecimalSeparator cfg) OR (?nm * 8 + sep') = cfgDecimalSeparator cfg * 16 + (?nm * 8 + sep')"
    using or_shift_add [of "?nm * 8 + sep'" 4 "cfgDecimalSeparator cfg"] sep by simp
  have o4: "push_bit 2 (cfgTimeFormat cfg) OR cfgTimeSeparator cfg = cfgTimeFormat cfg * 4 + cfgTimeSeparator cfg"
    using or_shift_add [of "cfgTimeSeparator cfg" 2 "cfgTimeFormat cfg"] v(4) by simp
  have abc: "a = cm' * 8 + cfgDateFormat cfg" "b = cfgDecimalSeparator cfg * 16 + (?nm * 8 + sep')"
    "c = cfgTimeFormat cfg * 4 + cfgTimeSeparator cfg"
    using assms(4) unfolding suffix_codes_def Let_def cs by auto
  show ?thesis
    unfolding packageSuffix_def Let_def cases4 cs prod.case or.assoc o1 o2 o3 o4 abc [symmetric]
    using suffix_codes_range [OF assms] by (simp add: suffix_char_ok)
qed

lemma digit_inject:
  fixes a b :: int
  assumes "a * k + b = a' * k + b'" "0 \<le> b" "b < k" "0 \<le> b'" "b' < k"
  shows "a = a'" and "b = b'"
proof -
  have "(a * k + b) div k = a" "(a' * k + b') div k = a'" using assms(2-5) by simp_all
  then show "a = a'" using assms(1) by simp
  then show "b = b'" using assms(1) by simp
qed

text \<open>Commitment level 4 is told apart by the separator codes 6 and 7.\<close>

definition level_code :: "int \<Rightarrow> int \<Rightarrow> int \<times> int" where
  "level_code cm sep = (if cm = 4 then (if sep \<le> 2 then (sep, 6) else (sep - 2, 7)) else (cm, sep))"

lemma level_code_inject:
  "level_code cm sep = level_code cm' sep' \<Longrightarrow> 0 \<le> sep \<Longrightarrow> sep \<le> 4 \<Longrightarrow> 0 \<le> sep' \<Longrightarrow> sep' \<le> 4 \<Longrightarrow> cm = cm' \<and> sep = sep'"
  by (auto simp: level_code_def split: if_splits)

lemma level_code_range: "0 \<le> sep \<Longrightarrow> sep \<le> 4 \<Longrightarrow> 0 \<le> snd (level_code cm sep) \<and> snd (level_code cm sep) < 8"
  by (simp add: level_code_def)

lemma suffix_codes_level:
  "suffix_codes cfg cm =
     (fst (level_code cm (cfgDateSeparator cfg)) * 8 + cfgDateFormat cfg,
      (cfgDecimalSeparator cfg * 2 + (if cfgNaming cfg = NamingSystem then 1 else 0)) * 8 + snd (level_code cm (cfgDateSeparator cfg)),
      cfgTimeFormat cfg * 4 + cfgTimeSeparator cfg)"
  by (simp add: suffix_codes_def level_code_def Let_def)

lemma suffix_codes_inject:
  assumes "Validate cfg = Inr ()" "Validate cfg' = Inr ()"
    and "suffix_codes cfg cm = suffix_codes cfg' cm'"
  shows "cm = cm' \<and> cfgDateFormat cfg = cfgDateFormat cfg' \<and> cfgDateSeparator cfg = cfgDateSeparator cfg' \<and>
    cfgDecimalSeparator cfg = cfgDecimalSeparator cfg' \<and> (cfgNaming cfg = NamingSystem \<longleftrightarrow> cfgNaming cfg' = NamingSystem) \<and>
    cfgTimeFormat cfg = cfgTimeFormat cfg' \<and> cfgTimeSeparator cfg = cfgTimeSeparator cfg'"
proof -
  let ?l = "level_code cm (cfgDateSeparator cfg)" and ?l' = "level_code cm' (cfgDateSeparator cfg')"
  note v = Validate_ok(1-5) [OF assms(1)] and v' = Validate_ok(1-5) [OF assms(2)]
  note eq = assms(3) [unfolded suffix_codes_level prod.inject]
  have rng: "0 \<le> snd ?l" "snd ?l < 8" "0 \<le> snd ?l'" "snd ?l' < 8"
    using level_code_range v(2) v'(2) by blast+
  have f: "fst ?l = fst ?l'" "cfgDateFormat cfg = cfgDateFormat cfg'"
    using digit_inject [OF conjunct1 [OF eq]] v(1) v'(1) by simp_all
  have d: "cfgDecimalSeparator cfg * 2 + (if cfgNaming cfg = NamingSystem then 1 else 0) =
      cfgDecimalSeparator cfg' * 2 + (if cfgNaming cfg' = NamingSystem then 1 else 0)" "snd ?l = snd ?l'"
    using digit_inject [OF conjunct1 [OF conjunct2 [OF eq]]] rng by simp_all
  have t: "cfgTimeFormat cfg = cfgTimeFormat cfg'" "cfgTimeSeparator cfg = cfgTimeSeparator cfg'"
    using digit_inject [OF conjunct2 [OF conjunct2 [OF eq]]] v(4) v'(4) by simp_all
  have n: "cfgDecimalSeparator cfg = cfgDecimalSeparator cfg'"
    "(if cfgNaming cfg = NamingSystem then 1 else 0 :: int) = (if cfgNaming cfg' = NamingSystem then 1 else 0)"
    using digit_inject [OF d(1)] by simp_all
  have "cm = cm' \<and> cfgDateSeparator cfg = cfgDateSeparator cfg'"
    using level_code_inject [of cm "cfgDateSeparator cfg" cm' "cfgDateSeparator cfg'"] f(1) d(2) v(2) v'(2)
    by (simp add: prod_eq_iff)
  with f t n show ?thesis by (simp split: if_splits)
qed

lemma packaged_execute:
  "specForPrepare p h sql = (spec, p') \<Longrightarrow>
   specForExecute p' h = (case spec of None \<Rightarrow> None | Some s \<Rightarrow> if psPackaged s then spec else None) \<and>
   (\<forall>g. g \<noteq> h \<longrightarrow> specForExecute p' g = specForExecute p g)"
  by (auto simp: specForPrepare_def specForExecute_def Let_def split: option.splits if_splits)

section \<open>Properties\<close>

text \<open>
  The package suffix tells connections apart: for two valid configurations and
  commitment levels 0 to 4 the suffix is computed without running out of the character
  table, and the suffixes are equal exactly when the commitment level, date format and
  separator, decimal separator, naming convention, and time format and separator agree.
  Level 4, which has no bits of its own, does not collide with the others.
\<close>

theorem package_suffix_distinguishes:
  assumes "Validate cfg = Inr ()" "Validate cfg' = Inr ()" "0 \<le> cm" "cm \<le> 4" "0 \<le> cm'" "cm' \<le> 4"
  shows "\<exists>s s'. packageSuffix cfg cm = Inr s \<and> packageSuffix cfg' cm' = Inr s' \<and> length s = 4 \<and>
    (s = s' \<longleftrightarrow> cm = cm' \<and> cfgDateFormat cfg = cfgDateFormat cfg' \<and> cfgDateSeparator cfg = cfgDateSeparator cfg' \<and>
      cfgDecimalSeparator cfg = cfgDecimalSeparator cfg' \<and> (cfgNaming cfg = NamingSystem \<longleftrightarrow> cfgNaming cfg' = NamingSystem) \<and>
      cfgTimeFormat cfg = cfgTimeFormat cfg' \<and> cfgTimeSeparator cfg = cfgTimeSeparator cfg')"
proof -
  obtain a b c where abc: "suffix_codes cfg cm = (a, b, c)" by (metis prod_cases3)
  obtain a' b' c' where abc': "suffix_codes cfg' cm' = (a', b', c')" by (metis prod_cases3)
  note e = packageSuffix_eq [OF assms(1,3,4) abc] and e' = packageSuffix_eq [OF assms(2,5,6) abc']
  note r = suffix_codes_range [OF assms(1,3,4) abc] and r' = suffix_codes_range [OF assms(2,5,6) abc']
  have "packageSuffix cfg cm = packageSuffix cfg' cm' \<longleftrightarrow> suffix_codes cfg cm = suffix_codes cfg' cm'"
    using r r' by (simp add: e e' abc abc' suffix_nth_inject)
  moreover have "suffix_codes cfg cm = suffix_codes cfg' cm' \<longleftrightarrow>
      cm = cm' \<and> cfgDateFormat cfg = cfgDateFormat cfg' \<and> cfgDateSeparator cfg = cfgDateSeparator cfg' \<and>
      cfgDecimalSeparator cfg = cfgDecimalSeparator cfg' \<and> (cfgNaming cfg = NamingSystem \<longleftrightarrow> cfgNaming cfg' = NamingSystem) \<and>
      cfgTimeFormat cfg = cfgTimeFormat cfg' \<and> cfgTimeSeparator cfg = cfgTimeSeparator cfg'" (is "?L \<longleftrightarrow> ?R")
  proof
    assume ?L
    then show ?R by (rule suffix_codes_inject [OF assms(1,2)])
  next
    assume ?R
    then show ?L by (simp only: suffix_codes_def)
  qed
  ultimately show ?thesis by (simp add: e e')
qed

definition exampleConfig :: Config where
  "exampleConfig =
     \<lparr>cfgHost = ''h'', cfgPort = 0, cfgUseTLS = False, cfgSchema = [], cfgNaming = NamingSQL, cfgDateFormat = 5,
      cfgDateSeparator = 3, cfgTimeFormat = 0, cfgTimeSeparator = 0, cfgDecimalSeparator = 0, cfgCommitmentControl = 1,
      cfgLibraries = [], cfgStatementCacheSize = 0, cfgScrollableCursors = False, cfgHoldCursors = False,
      cfgQueryOptimizeGoal = 0, cfgDecimalMaxPrecision = 31, cfgDecimalMaxScale = 31, cfgMinimumDivideScale = 0,
      cfgLOBThreshold = 0, cfgBlockSize = 256, cfgTrueAutocommit = True, cfgUseBlockUpdate = False,
      cfgReturnGeneratedKeys = False, cfgDecfloatRoundingMode = 0, cfgExtendedDynamic = True, cfgPackage = ''PKG'',
      cfgPackageLibrary = [], cfgPackageCriteria = [], cfgPackageAddDisabled = False, cfgPackageError = [],
      cfgPackageCCSID = 0, cfgPackageCCSIDSystem = False, cfgPackageCache = False, cfgQueryTimeoutMechanism = [],
      cfgReceiveBufferSize = 0, cfgSendBufferSize = 0, cfgSocketTimeout = 0, cfgErrorsFull = False,
      cfgTimestampString = False, cfgBidiStringType = 5, cfgBidiImplicitReordering = True, cfgBidiNumericOrdering = False,
      cfgDSN = [], cfgUser = ''u'', cfgPassword = ''p'', cfgApplicationName = [], cfgClientUser = [], cfgClientAccounting = [],
      cfgClientHostname = [], cfgClientProgramID = [], cfgQueryStorageLimit = -1, cfgPackageClear = False, cfgKeepAlive = None,
      cfgTCPNoDelay = None, cfgConnectTimeout = 0, cfgRawQuery = [], cfgTLSConfig = None\<rparr>"

lemma exampleConfig_valid: "Validate exampleConfig = Inr ()"
  by code_simp

theorem package_suffix_distinguishes_witness:
  "\<exists>s s'. packageSuffix exampleConfig 1 = Inr s \<and> packageSuffix exampleConfig 4 = Inr s' \<and> s \<noteq> s'"
  using package_suffix_distinguishes [OF exampleConfig_valid exampleConfig_valid, of 1 4] by auto

end
