(* ===== verification/Session.thy ===== *)
theory Session
  imports Package
begin

text \<open>
  A connection as the SQL layer sees it: sending a request and reading its reply
  (\<open>doRequest\<close>, \<open>doStatementRequest\<close> and the requests without reply), checking the reply
  (\<open>src/reply_error.go\<close>), fetching the message text of an SQL error
  (\<open>src/sqlerror_text.go\<close>), warnings and invalidation (\<open>src/driver.go\<close>, \<open>src/sql.go\<close>).

  The peer and the network are part of the state: \<open>cnIn\<close> is what the connection still
  delivers, \<open>cnWrites\<close> tells which of the next writes fail, \<open>cnSent\<close> and \<open>cnRead\<close> record the
  packets written and read. All are arbitrary, so a theorem about every state covers every
  server. Time is a counter that advances with every read and write; a context answers
  \<open>Err\<close> and the time until its deadline as functions of it. Pointers are never nil here:
  the checks for a nil connection or context are left out.
\<close>

section \<open>Definitions\<close>

subsection \<open>Contexts\<close>

record go_ctx =
  ctxErr :: "nat \<Rightarrow> go_error option"
  ctxUntil :: "nat \<Rightarrow> int option"

definition Background :: go_ctx where
  "Background = \<lparr>ctxErr = (\<lambda>_. None), ctxUntil = (\<lambda>_. None)\<rparr>"

definition ctxIOError :: "go_ctx \<Rightarrow> nat \<Rightarrow> go_error option" where
  "ctxIOError ctx now =
     (case ctxErr ctx now of
        Some e \<Rightarrow> Some e
      | None \<Rightarrow> (case ctxUntil ctx now of
          Some d \<Rightarrow> if d \<le> 0 then Some ErrDeadlineExceeded else None
        | None \<Rightarrow> None))"

subsection \<open>The connection\<close>

record SystemInfo =
  syFunctionalLevel :: int
  syJobIdentifier :: string
  syCCSID :: int
  syVersion :: int
  sySystem :: string
  syLevel :: int
  syPasswordLevel :: int
  syJobName :: string

record Conn =
  cnCfg :: Config
  cnSystemInfo :: "SystemInfo option"
  cnNet :: bool
  cnClosed :: bool
  cnCloseErr :: "go_error option"
  cnAutoCommit :: bool
  cnCommitment :: int
  cnWarnings :: "sqlWarning list"
  cnNames :: nameState
  cnPkg :: "packageState option"
  cnRpbTimeouts :: "u16 \<Rightarrow> int option"
  cnClientInfo :: "(string \<times> string) list"
  cnFresh :: go_ctx
  cnIn :: conn_in
  cnWrites :: "bool list"
  cnSent :: "bytes list"
  cnRead :: "bytes list"
  cnCancels :: "u16 list"
  cnClock :: nat

text \<open>\<open>cnFresh\<close> is what \<open>context.WithTimeout(context.Background(), nativeCancelTimeout)\<close> returns.\<close>

definition IsValid :: "Conn \<Rightarrow> bool" where
  "IsValid c \<longleftrightarrow> \<not> cnClosed c \<and> cnNet c"

definition invalidateConnection :: "go_error \<Rightarrow> Conn \<Rightarrow> Conn" where
  "invalidateConnection e c =
     c\<lparr>cnClosed := True, cnNet := (if cnClosed c then cnNet c else False),
       cnCloseErr := (case cnCloseErr c of None \<Rightarrow> Some e | Some e' \<Rightarrow> Some e')\<rparr>"

definition recordWarning :: "sqlWarning list \<Rightarrow> Conn \<Rightarrow> Conn" where
  "recordWarning w c = c\<lparr>cnWarnings := cnWarnings c @ w\<rparr>"

definition ClearWarnings :: "Conn \<Rightarrow> Conn" where
  "ClearWarnings c = c\<lparr>cnWarnings := []\<rparr>"

definition cleanupContext :: "go_ctx \<Rightarrow> Conn \<Rightarrow> go_ctx" where
  "cleanupContext ctx c = (if ctxErr ctx (cnClock c) = None then ctx else cnFresh c)"

subsection \<open>Sequencing\<close>

type_synonym ('s, 'a) step = "'s \<Rightarrow> 'a res \<times> 's"

type_synonym 'a act = "(Conn, 'a) step"

definition act_return :: "'a \<Rightarrow> ('s, 'a) step" where
  "act_return x c = (Inr x, c)"

definition act_fail :: "go_error \<Rightarrow> ('s, 'a) step" where
  "act_fail e c = (Inl e, c)"

definition act_res :: "'a res \<Rightarrow> ('s, 'a) step" where
  "act_res r c = (r, c)"

definition act_get :: "('s \<Rightarrow> 'a) \<Rightarrow> ('s, 'a) step" where
  "act_get f c = (Inr (f c), c)"

definition act_modify :: "('s \<Rightarrow> 's) \<Rightarrow> ('s, unit) step" where
  "act_modify f c = (Inr (), f c)"

definition act_bind :: "('s, 'a) step \<Rightarrow> ('a \<Rightarrow> ('s, 'b) step) \<Rightarrow> ('s, 'b) step" where
  "act_bind m f c = (case m c of (Inl e, c1) \<Rightarrow> (Inl e, c1) | (Inr x, c1) \<Rightarrow> f x c1)"

text \<open>The result of a step as a value, for a caller that looks at the error itself.\<close>

definition act_try :: "('s, 'a) step \<Rightarrow> ('s, 'a res) step" where
  "act_try m c = (case m c of (r, c1) \<Rightarrow> (Inr r, c1))"

text \<open>\<open>defer\<close>: the cleanup runs after the body whatever its result, and does not change it.\<close>

definition act_defer :: "('s, 'a) step \<Rightarrow> ('s, 'b) step \<Rightarrow> ('s, 'a) step" where
  "act_defer m d c = (case m c of (r, c1) \<Rightarrow> (r, snd (d c1)))"

subsection \<open>Sending and receiving\<close>

definition netWrite :: "bytes \<Rightarrow> Conn \<Rightarrow> bool \<times> Conn" where
  "netWrite p c =
     (case cnWrites c of
        True # ws \<Rightarrow> (False, c\<lparr>cnWrites := ws, cnClock := Suc (cnClock c)\<rparr>)
      | _ \<Rightarrow> (True, c\<lparr>cnWrites := tl (cnWrites c), cnSent := cnSent c @ [p], cnClock := Suc (cnClock c)\<rparr>))"

definition netRead :: "Conn \<Rightarrow> bytes res \<times> Conn" where
  "netRead c =
     (case readPacket (cnIn c) of
        (Inl e, i) \<Rightarrow> (Inl e, c\<lparr>cnIn := i, cnClock := Suc (cnClock c)\<rparr>)
      | (Inr p, i) \<Rightarrow> (Inr p, c\<lparr>cnIn := i, cnRead := cnRead c @ [p], cnClock := Suc (cnClock c)\<rparr>))"

definition abortStatementIO :: "go_ctx \<Rightarrow> 'a act" where
  "abortStatementIO ctx c =
     (case ctxIOError ctx (cnClock c) of
        Some e \<Rightarrow> (Inl e, invalidateConnection e c)
      | None \<Rightarrow> (Inl ErrBadConn, invalidateConnection ErrBadConn c))"

definition doRequestWithPreamble :: "go_ctx \<Rightarrow> bytes \<Rightarrow> bytes \<Rightarrow> (replyEnvelope \<times> bytes) act" where
  "doRequestWithPreamble ctx preamble request c =
     (case ctxErr ctx (cnClock c) of
        Some e \<Rightarrow> (Inl e, invalidateConnection e c)
      | None \<Rightarrow>
          if cnClosed c \<or> \<not> cnNet c then (Inl ErrBadConn, c)
          else
            (case (if preamble \<noteq> [] then netWrite preamble c else (True, c)) of (ok1, c1) \<Rightarrow>
              if \<not> ok1 then abortStatementIO ctx c1
              else (case netWrite request c1 of (ok2, c2) \<Rightarrow>
                if \<not> ok2 then abortStatementIO ctx c2
                else (case netRead c2 of
                    (Inl e, c3) \<Rightarrow> abortStatementIO ctx c3
                  | (Inr packet, c3) \<Rightarrow> (readReplyEnvelope packet, c3)))))"

definition doRequest :: "go_ctx \<Rightarrow> bytes \<Rightarrow> (replyEnvelope \<times> bytes) act" where
  "doRequest ctx request = doRequestWithPreamble ctx [] request"

definition canCancelNatively :: "Conn \<Rightarrow> bool" where
  "canCancelNatively c =
     (case cnSystemInfo c of
        None \<Rightarrow> False
      | Some s \<Rightarrow> syFunctionalLevel s \<ge> 5 \<and> TrimSpace (syJobIdentifier s) \<noteq> [])"

text \<open>
  The watcher of \<open>doStatementRequest\<close> cancels over a second connection and moves the socket
  deadline; what it changes for this connection is whether and when the read fails, which
  \<open>cnIn\<close> leaves open.
\<close>

definition doStatementRequest :: "go_ctx \<Rightarrow> bytes \<Rightarrow> u16 \<Rightarrow> (replyEnvelope \<times> bytes) act" where
  "doStatementRequest ctx request statementHandle c =
     (if \<not> canCancelNatively c then doRequest ctx request c
      else case ctxErr ctx (cnClock c) of
        Some e \<Rightarrow> (Inl e, c)
      | None \<Rightarrow>
          if cnClosed c \<or> \<not> cnNet c then (Inl ErrBadConn, c)
          else (case netWrite request c of (ok, c1) \<Rightarrow>
            if \<not> ok then abortStatementIO ctx c1
            else (case netRead c1 of
                (Inl e, c2) \<Rightarrow> abortStatementIO ctx c2
              | (Inr packet, c2) \<Rightarrow>
                  (case readReplyEnvelope packet of
                     Inl e \<Rightarrow> abortStatementIO ctx c2
                   | Inr r \<Rightarrow>
                       (case ctxErr ctx (cnClock c2) of
                          Some e \<Rightarrow> (Inl e, c2)
                        | None \<Rightarrow> (Inr r, c2))))))"

text \<open>\<open>sendRequestNoReply\<close> and \<open>sendWithoutReply\<close>: the same body in two files.\<close>

definition sendRequestNoReply :: "go_ctx \<Rightarrow> bytes \<Rightarrow> unit act" where
  "sendRequestNoReply ctx request c =
     (case ctxErr ctx (cnClock c) of
        Some e \<Rightarrow> (Inl e, invalidateConnection e c)
      | None \<Rightarrow>
          if cnClosed c \<or> \<not> cnNet c then (Inl ErrBadConn, c)
          else (case netWrite request c of (ok, c1) \<Rightarrow>
            if ok then (Inr (), c1)
            else (case ctxErr ctx (cnClock c1) of
                Some e \<Rightarrow> (Inl e, invalidateConnection e c1)
              | None \<Rightarrow> (Inl ErrBadConn, invalidateConnection ErrBadConn c1))))"

definition sendWithoutReply :: "go_ctx \<Rightarrow> bytes \<Rightarrow> unit act" where
  "sendWithoutReply ctx request = sendRequestNoReply ctx request"

text \<open>
  \<open>cancelStatement\<close> works on a connection of its own; here it only leaves a trace. Its callers
  ignore the result.
\<close>

definition cancelStatement :: "u16 \<Rightarrow> unit act" where
  "cancelStatement statementHandle c =
     (if canCancelNatively c then (Inr (), c\<lparr>cnCancels := cnCancels c @ [statementHandle]\<rparr>)
      else (Inl (Wrap ErrUnsupported ''protocol-native cancel'' []), c))"

subsection \<open>Message texts\<close>

record sqlMessageText =
  mtMessageID :: string
  mtFirstLevelText :: string
  mtSecondLevelText :: string

definition sqlMessageBitmap :: "bool \<Rightarrow> u32" where
  "sqlMessageBitmap secondLevel =
     (let bitmap = orsSendReplyImmediately OR orsSQLCA OR 0x40000000 OR 0x20000000 in
      if secondLevel then bitmap OR 0x10000000 else bitmap)"

definition buildSendResultsSetRequest :: "u16 \<Rightarrow> u32 \<Rightarrow> bytes" where
  "buildSendResultsSetRequest rpbHandle bitmap =
     appendRequestTemplate (buildHeader 40 0 DatabaseServerID 20 0x1F00) bitmap rpbHandle 0 0"

definition decodeMessageCodePoint :: "tables \<Rightarrow> bytes \<Rightarrow> nat \<Rightarrow> string res" where
  "decodeMessageCodePoint fs payload textOffset =
     (if length payload < textOffset then Inr []
      else res_bind (decodeTextByCCSID fs (drop textOffset payload) (uint (Uint16 (slice 0 2 payload))))
             (\<lambda>txt0. Inr (TrimSpace txt0)))"

function messageLoop :: "tables \<Rightarrow> sqlMessageText \<Rightarrow> bytes \<Rightarrow> sqlMessageText res" where
  "messageLoop fs out data =
     (if data = [] then Inr out
      else case ParseLLCP data of
        Inl e \<Rightarrow> Inl e
      | Inr (codePoint, cp, rest) \<Rightarrow>
          (if codePoint = 0x3801 then
             (case decodeMessageCodePoint fs cp 2 of Inl e \<Rightarrow> Inl e
              | Inr t \<Rightarrow> messageLoop fs (out\<lparr>mtMessageID := t\<rparr>) rest)
           else if codePoint = 0x3802 then
             (case decodeMessageCodePoint fs cp 4 of Inl e \<Rightarrow> Inl e
              | Inr t \<Rightarrow> messageLoop fs (out\<lparr>mtFirstLevelText := t\<rparr>) rest)
           else if codePoint = 0x3803 then
             (case decodeMessageCodePoint fs cp 4 of Inl e \<Rightarrow> Inl e
              | Inr t \<Rightarrow> messageLoop fs (out\<lparr>mtSecondLevelText := t\<rparr>) rest)
           else messageLoop fs out rest))"
  by pat_completeness auto
termination by (relation "measure (\<lambda>(fs, out, data). length data)") (auto dest: ParseLLCP_shorter)

declare messageLoop.simps [simp del]

definition parseSQLMessageText :: "tables \<Rightarrow> bytes \<Rightarrow> sqlMessageText res" where
  "parseSQLMessageText fs payload =
     messageLoop fs \<lparr>mtMessageID = [], mtFirstLevelText = [], mtSecondLevelText = []\<rparr> payload"

text \<open>\<open>newSQLError\<close>: the error of an SQLCA, with the message text of a follow-up request when it succeeds.\<close>

definition sqlcaMessage :: "sqlcaInfo \<Rightarrow> string" where
  "sqlcaMessage info =
     (if siSQLState info \<noteq> [] then ''SQL execution failed ('' @ siSQLState info @ '')'' else ''SQL execution failed'')"

definition withMessageText :: "sqlcaInfo \<Rightarrow> sqlMessageText \<Rightarrow> go_error" where
  "withMessageText info t =
     (let (mtext, msg) = (if mtFirstLevelText t \<noteq> [] then (mtFirstLevelText t, mtFirstLevelText t)
                          else ([], sqlcaMessage info)) in
      SQLError (siSQLCode info) (siSQLState info) msg (mtMessageID t) mtext (mtSecondLevelText t) (siTokens info))"

definition newSQLError :: "tables \<Rightarrow> go_ctx \<Rightarrow> u16 \<Rightarrow> sqlcaInfo \<Rightarrow> 'a act" where
  "newSQLError fs ctx statementHandle info c =
     (let plain = SQLError (siSQLCode info) (siSQLState info) (sqlcaMessage info) [] [] [] (siTokens info) in
      case doRequest ctx (buildSendResultsSetRequest statementHandle (sqlMessageBitmap (cfgErrorsFull (cnCfg c)))) c of
        (Inl e, c1) \<Rightarrow> (Inl plain, c1)
      | (Inr (envelope, payload), c1) \<Rightarrow>
          (case parseSQLMessageText fs payload of
             Inl e \<Rightarrow> (Inl plain, c1)
           | Inr t \<Rightarrow> (Inl (withMessageText info t), c1)))"

subsection \<open>Checking replies\<close>

definition isEndOfDataReply :: "string \<Rightarrow> replyEnvelope \<Rightarrow> bool" where
  "isEndOfDataReply operation envelope =
     (if envRCClass envelope = 2 \<and> envRCCode envelope = 700 then True
      else if operation \<noteq> ''fetch'' then False
      else if envRCClass envelope = 1 \<and> envRCCode envelope = 100 then True
      else if envRCClass envelope = 2 \<and> envRCCode envelope = 701 then True
      else False)"

function payloadHasSQLCA :: "bytes \<Rightarrow> bool" where
  "payloadHasSQLCA data =
     (if data = [] then False
      else case ParseLLCP data of
        Inl e \<Rightarrow> False
      | Inr (codePoint, cp, rest) \<Rightarrow> if codePoint = 0x3807 then True else payloadHasSQLCA rest)"
  by pat_completeness auto
termination by (relation "measure length") (auto dest: ParseLLCP_shorter)

declare payloadHasSQLCA.simps [simp del]

definition newProtocolError :: "string \<Rightarrow> replyEnvelope \<Rightarrow> go_error" where
  "newProtocolError operation envelope = ProtocolError operation (envRCClass envelope) (envRCCode envelope)"

definition replyWarning :: "string \<Rightarrow> replyEnvelope \<Rightarrow> sqlWarning" where
  "replyWarning operation envelope =
     \<lparr>swCode = envRCCode envelope, swState = [],
      swMessage = operation @ '' returned warning: class='' @ show_nat (unat (envRCClass envelope)) @
        '' code='' @ show_int (envRCCode envelope)\<rparr>"

definition checkReply :: "tables \<Rightarrow> go_ctx \<Rightarrow> u16 \<Rightarrow> string \<Rightarrow> replyEnvelope \<Rightarrow> bytes \<Rightarrow> unit act" where
  "checkReply fs ctx statementHandle operation envelope payload =
     (if hasWarning envelope then
        (if isEndOfDataReply operation envelope then act_return ()
         else act_modify (recordWarning [replyWarning operation envelope]))
      else if \<not> hasError envelope then act_return ()
      else if \<not> payloadHasSQLCA payload then act_fail (newProtocolError operation envelope)
      else case parseSQLCAFromPayload fs payload of
        Inl e \<Rightarrow> act_fail (newProtocolError operation envelope)
      | Inr info \<Rightarrow> newSQLError fs ctx statementHandle (info\<lparr>siSQLCode := envRCCode envelope\<rparr>))"

text \<open>A request whose reply is checked, and one whose SQLCA is then read.\<close>

definition request_checked :: "tables \<Rightarrow> go_ctx \<Rightarrow> u16 \<Rightarrow> string \<Rightarrow> (replyEnvelope \<times> bytes) act \<Rightarrow> (replyEnvelope \<times> bytes) act" where
  "request_checked fs ctx statementHandle operation send =
     act_bind send (\<lambda>(envelope, payload).
       act_bind (checkReply fs ctx statementHandle operation envelope payload) (\<lambda>_. act_return (envelope, payload)))"

interpretation sqlca_present: llcp_scanner payloadHasSQLCA "\<lambda>cp b. if cp = 0x3807 then Some True else None" False "\<lambda>e. False"
  by unfold_locales (subst payloadHasSQLCA.simps, auto split: sum.splits)

section \<open>Running steps\<close>

named_theorems act_simps \<open>equations of the sequencing operators\<close>

lemma act_simps1 [act_simps]:
  "act_return x c = (Inr x, c)" "act_fail e c = (Inl e, c)" "act_res r c = (r, c)" "act_get f c = (Inr (f c), c)"
  "act_modify g c = (Inr (), g c)"
  by (simp_all add: act_return_def act_fail_def act_res_def act_get_def act_modify_def)

lemma act_bind_run [act_simps]:
  "m c = (Inl e, c1) \<Longrightarrow> act_bind m f c = (Inl e, c1)"
  "m c = (Inr x, c1) \<Longrightarrow> act_bind m f c = f x c1"
  by (simp_all add: act_bind_def)

lemma act_bind_Inr: "act_bind m f c = (Inr y, c2) \<longleftrightarrow> (\<exists>x c1. m c = (Inr x, c1) \<and> f x c1 = (Inr y, c2))"
  by (cases "m c") (auto simp: act_bind_def split: sum.splits)

lemma act_bind_cases:
  "act_bind m f c = (r, c2) \<longleftrightarrow>
     (\<exists>e. m c = (Inl e, c2) \<and> r = Inl e) \<or> (\<exists>x c1. m c = (Inr x, c1) \<and> f x c1 = (r, c2))"
  by (cases "m c") (auto simp: act_bind_def split: sum.splits)

section \<open>Requests that expect a reply\<close>

text \<open>
  A request asks for its reply with the top bit of the reply bitmap. A step of the session
  sends requests with that bit through the functions that read a reply, and requests
  without it through the functions that do not.
\<close>

definition expects :: "bytes \<Rightarrow> bool" where
  "expects p \<longleftrightarrow> bit (Uint32 (slice 20 24 p)) 31"

lemma expects_request: "expects (request_bytes q) \<longleftrightarrow> bit (rqBitmap q) 31"
proof -
  let ?h = "buildHeader (word_of_nat (40 + length (params (rqParams q)))) 0 DatabaseServerID 20 (rqFunction q)"
  have "length ?h = 20" by (simp add: HeaderSize_def)
  from template_slices(1) [OF this] show ?thesis
    by (simp add: expects_def request_bytes_def finishRequest_def)
qed

lemma expects_template:
  "expects (appendRequestTemplate (buildHeader l 0 DatabaseServerID 20 fn) bitmap rpb pm n @ body) \<longleftrightarrow> bit bitmap 31"
  using template_slices(1) [of "buildHeader l 0 DatabaseServerID 20 fn" bitmap rpb pm n body]
  by (simp add: expects_def HeaderSize_def)

lemma expects_finish: "expects (finishRequest fn bitmap rpb pm n body) \<longleftrightarrow> bit bitmap 31"
  by (simp add: finishRequest_def expects_template)

lemma expects_empty: "expects (appendRequestTemplate (buildHeader l 0 DatabaseServerID 20 fn) bitmap rpb pm n) \<longleftrightarrow> bit bitmap 31"
  using expects_template [of l fn bitmap rpb pm n "[]"] by simp

lemma reply_bit: "bit (0x80000000 :: u32) 31"
  by (simp add: bit_word_iff_drop_bit_and drop_bit_eq_div)

text \<open>What a step may do to the connection, as a preorder on states.\<close>

definition same_wire :: "Conn \<Rightarrow> Conn \<Rightarrow> bool" where
  "same_wire c d \<longleftrightarrow> cnNet d = cnNet c \<and> cnClosed d = cnClosed c \<and> cnIn d = cnIn c \<and> cnWrites d = cnWrites c \<and>
     cnSent d = cnSent c \<and> cnRead d = cnRead c \<and> cnNames d = cnNames c \<and>
     cnCfg d = cnCfg c \<and> cnAutoCommit d = cnAutoCommit c \<and> cnCommitment d = cnCommitment c"

locale step_relation =
  fixes R :: "Conn \<Rightarrow> Conn \<Rightarrow> bool"
  assumes R_trans: "R a b \<Longrightarrow> R b c \<Longrightarrow> R a c"
    and R_local: "same_wire c d \<Longrightarrow> R c d"
    and R_request: "pre = [] \<or> \<not> expects pre \<Longrightarrow> expects rq \<Longrightarrow> R c (snd (doRequestWithPreamble ctx pre rq c))"
    and R_statement: "expects rq \<Longrightarrow> R c (snd (doStatementRequest ctx rq h c))"
    and R_noreply: "\<not> expects rq \<Longrightarrow> R c (snd (sendRequestNoReply ctx rq c))"
begin

definition keeps :: "'a act \<Rightarrow> bool" where
  "keeps m \<longleftrightarrow> (\<forall>c. R c (snd (m c)))"

lemma R_refl: "R c c"
  by (rule R_local) (simp add: same_wire_def)

lemma keepsD: "keeps m \<Longrightarrow> m c = (r, d) \<Longrightarrow> R c d"
  unfolding keeps_def by (metis snd_conv)

lemma keeps_pure [intro, simp]:
  "keeps (act_return x)" "keeps (act_fail e)" "keeps (act_res r)" "keeps (act_get g)"
  by (simp_all add: keeps_def act_simps1 R_refl)

lemma keeps_modify [intro]: "(\<And>c. same_wire c (f c)) \<Longrightarrow> keeps (act_modify f)"
  by (simp add: keeps_def act_simps1 R_local)

lemma keeps_bind [intro]:
  assumes "keeps m" "\<And>x. keeps (f x)"
  shows "keeps (act_bind m f)"
  unfolding keeps_def
proof
  fix c
  obtain r d where m: "m c = (r, d)" by (cases "m c")
  from keepsD [OF assms(1) m] assms(2) m show "R c (snd (act_bind m f c))"
    by (cases r) (auto simp: act_bind_def keeps_def intro: R_trans)
qed

lemma keeps_try [intro]: "keeps m \<Longrightarrow> keeps (act_try m)"
  by (simp add: keeps_def act_try_def case_prod_beta)

lemma keeps_defer [intro]:
  assumes "keeps m" "keeps d"
  shows "keeps (act_defer m d)"
  unfolding keeps_def
proof
  fix c
  obtain r c1 where m: "m c = (r, c1)" by (cases "m c")
  from keepsD [OF assms(1) m] assms(2) show "R c (snd (act_defer m d c))"
    by (auto simp: act_defer_def m keeps_def intro: R_trans)
qed

lemma keeps_if [intro]: "(P \<Longrightarrow> keeps m) \<Longrightarrow> (\<not> P \<Longrightarrow> keeps m') \<Longrightarrow> keeps (if P then m else m')"
  by simp

lemma keeps_on: "(\<And>c. \<exists>m'. keeps m' \<and> m c = m' c) \<Longrightarrow> keeps m"
  unfolding keeps_def by metis

lemma keeps_requests [intro]:
  "expects rq \<Longrightarrow> keeps (doRequest ctx rq)"
  "\<not> expects pre \<Longrightarrow> expects rq \<Longrightarrow> keeps (doRequestWithPreamble ctx pre rq)"
  "expects rq \<Longrightarrow> keeps (doStatementRequest ctx rq h)"
  "\<not> expects rq \<Longrightarrow> keeps (sendRequestNoReply ctx rq)"
  "\<not> expects rq \<Longrightarrow> keeps (sendWithoutReply ctx rq)"
  by (simp_all add: keeps_def doRequest_def sendWithoutReply_def R_request R_statement R_noreply)

lemma keeps_cancel [intro, simp]: "keeps (cancelStatement h)"
  by (auto simp: keeps_def cancelStatement_def same_wire_def intro: R_local)

lemma expects_message: "expects (buildSendResultsSetRequest h (sqlMessageBitmap full))"
  by (simp add: buildSendResultsSetRequest_def expects_empty sqlMessageBitmap_def ors_bits bit_or_iff reply_bit Let_def)

lemma keeps_newSQLError [intro, simp]: "keeps (newSQLError fs ctx h info)"
  unfolding keeps_def
proof
  fix c :: Conn
  let ?rq = "buildSendResultsSetRequest h (sqlMessageBitmap (cfgErrorsFull (cnCfg c)))"
  have "R c (snd (doRequest ctx ?rq c))" using keeps_requests(1) [OF expects_message] by (simp add: keeps_def)
  then show "R c (snd (newSQLError fs ctx h info c :: 'a res \<times> Conn))"
    by (auto simp: newSQLError_def Let_def split: prod.splits sum.splits)
qed

lemma keeps_checkReply [intro, simp]: "keeps (checkReply fs ctx h op env payload)"
proof -
  have "keeps (act_modify (recordWarning w))" for w
    by (rule keeps_modify) (simp add: same_wire_def recordWarning_def)
  then show ?thesis unfolding checkReply_def by (auto split: sum.splits)
qed

lemma keeps_request_checked [intro]: "keeps m \<Longrightarrow> keeps (request_checked fs ctx h op m)"
  unfolding request_checked_def by (intro keeps_bind) (auto split: prod.splits)

end

text \<open>A relation that does not look at the statement and cursor names either.\<close>

locale session_relation = step_relation +
  assumes R_names: "R c (c\<lparr>cnNames := n\<rparr>)"

text \<open>A relation that does not look at the transaction state either.\<close>

locale connection_relation = session_relation +
  assumes R_transaction: "R c (c\<lparr>cnAutoCommit := a, cnCommitment := m\<rparr>)"

section \<open>Relations every step keeps\<close>

text \<open>
  How far a transport function got: nothing was transferred and the connection is not
  valid afterwards; it broke off after some packets; or all packets of the exchange were
  transferred and the connection is as valid as before.
\<close>

definition transferred :: "Conn \<Rightarrow> Conn \<Rightarrow> bytes list \<Rightarrow> bytes list \<Rightarrow> bool" where
  "transferred c d xs ys \<longleftrightarrow> cnSent d = cnSent c @ xs \<and> cnRead d = cnRead c @ ys \<and> cnNet d = cnNet c \<and> cnClosed d = cnClosed c"

definition broken :: "Conn \<Rightarrow> Conn \<Rightarrow> bool" where
  "broken c d \<longleftrightarrow> \<not> IsValid d \<and> (\<exists>xs ys. cnSent d = cnSent c @ xs \<and> cnRead d = cnRead c @ ys) \<and>
     (IsValid c \<or> cnSent d = cnSent c \<and> cnRead d = cnRead c \<and> cnIn d = cnIn c)"

lemma IsValid_invalidate [simp]: "\<not> IsValid (invalidateConnection e c)"
  by (simp add: IsValid_def invalidateConnection_def)

lemma wire_invalidate [simp]:
  "cnSent (invalidateConnection e c) = cnSent c" "cnRead (invalidateConnection e c) = cnRead c"
  "cnIn (invalidateConnection e c) = cnIn c"
  by (simp_all add: invalidateConnection_def)

lemma netWrite_ok: "netWrite p c = (True, d) \<Longrightarrow> transferred c d [p] []"
  by (auto simp: netWrite_def transferred_def split: list.splits bool.splits)

lemma netWrite_fail: "netWrite p c = (False, d) \<Longrightarrow> transferred c d [] []"
  by (auto simp: netWrite_def transferred_def split: list.splits bool.splits)

lemma netRead_ok: "netRead c = (Inr p, d) \<Longrightarrow> transferred c d [] [p]"
  by (auto simp: netRead_def transferred_def split: prod.splits sum.splits)

lemma netRead_fail: "netRead c = (Inl e, d) \<Longrightarrow> transferred c d [] []"
  by (auto simp: netRead_def transferred_def split: prod.splits sum.splits)

lemma transferred_trans: "transferred a b xs ys \<Longrightarrow> transferred b c xs' ys' \<Longrightarrow> transferred a c (xs @ xs') (ys @ ys')"
  by (simp add: transferred_def)

lemma transferred_refl: "transferred c c [] []"
  by (simp add: transferred_def)

lemma abort_broken:
  "IsValid c \<Longrightarrow> transferred c d xs ys \<Longrightarrow> abortStatementIO ctx d = (r, e) \<Longrightarrow> broken c e"
  by (auto simp: abortStatementIO_def broken_def transferred_def split: option.splits)

lemma invalidate_broken: "broken c (invalidateConnection e c)"
  by (simp add: broken_def)

lemma broken_refl: "\<not> IsValid c \<Longrightarrow> broken c c"
  by (simp add: broken_def)

lemma guard_valid: "cnClosed c \<or> \<not> cnNet c \<longleftrightarrow> \<not> IsValid c"
  by (simp add: IsValid_def)

lemma exchange_outcome:
  assumes "doRequestWithPreamble ctx pre rq c = (r, d)"
  shows "broken c d \<or> (\<exists>p. IsValid c \<and> transferred c d ((if pre = [] then [] else [pre]) @ [rq]) [p] \<and> r = readReplyEnvelope p)"
proof (cases "ctxErr ctx (cnClock c) = None \<and> IsValid c")
  case False
  then show ?thesis using assms
    by (auto simp: doRequestWithPreamble_def guard_valid invalidate_broken broken_refl split: option.splits)
next
  case True
  let ?pre = "if pre = [] then [] else [pre]"
  obtain ok1 c1 where w1: "(if pre \<noteq> [] then netWrite pre c else (True, c)) = (ok1, c1)" by (metis surj_pair)
  have t1: "ok1 \<Longrightarrow> transferred c c1 ?pre []" "\<not> ok1 \<Longrightarrow> transferred c c1 [] []"
    using w1 by (auto dest: netWrite_ok netWrite_fail simp: transferred_refl split: if_splits)
  note unf = assms [unfolded doRequestWithPreamble_def guard_valid w1]
  show ?thesis
  proof (cases ok1)
    case False
    with unf True abort_broken [OF _ t1(2)] show ?thesis by auto
  next
    case ok1: True
    obtain ok2 c2 where w2: "netWrite rq c1 = (ok2, c2)" by (metis surj_pair)
    show ?thesis
    proof (cases ok2)
      case False
      with unf True ok1 w2 abort_broken [OF _ transferred_trans [OF t1(1) netWrite_fail]] show ?thesis
        by auto
    next
      case ok2: True
      from transferred_trans [OF t1(1) [OF ok1] netWrite_ok] w2 ok2
      have t2: "transferred c c2 (?pre @ [rq]) []" by simp
      obtain rr c3 where rd: "netRead c2 = (rr, c3)" by (metis surj_pair)
      show ?thesis
      proof (cases rr)
        case (Inl e)
        with unf True ok1 ok2 w2 rd abort_broken [OF _ transferred_trans [OF t2 netRead_fail]] show ?thesis
          by auto
      next
        case (Inr p)
        with unf True ok1 ok2 w2 rd transferred_trans [OF t2 netRead_ok] show ?thesis by auto
      qed
    qed
  qed
qed

lemma statement_outcome:
  assumes "doStatementRequest ctx rq h c = (r, d)"
  shows "broken c d \<or> d = c \<or> (\<exists>p. IsValid c \<and> transferred c d [rq] [p])"
proof (cases "canCancelNatively c \<and> ctxErr ctx (cnClock c) = None \<and> IsValid c")
  case False
  then show ?thesis using assms exchange_outcome [of ctx "[]" rq c r d]
    by (auto simp: doStatementRequest_def doRequest_def guard_valid broken_refl split: option.splits if_splits)
next
  case True
  obtain ok c1 where w: "netWrite rq c = (ok, c1)" by (metis surj_pair)
  obtain rr c2 where rd: "netRead c1 = (rr, c2)" by (metis surj_pair)
  note unf = assms [unfolded doStatementRequest_def guard_valid w prod.case rd]
  show ?thesis
  proof (cases ok)
    case False
    with unf True w abort_broken [OF _ netWrite_fail [of rq c c1]] show ?thesis by auto
  next
    case ok: True
    then have t: "transferred c c1 [rq] []" using w netWrite_ok by simp
    show ?thesis
    proof (cases rr)
      case (Inl e)
      with unf True ok rd abort_broken [OF _ transferred_trans [OF t netRead_fail]] show ?thesis by auto
    next
      case (Inr p)
      from transferred_trans [OF t netRead_ok] rd Inr have t2: "transferred c c2 [rq] [p]" by simp
      with unf True ok Inr abort_broken [OF _ t2] show ?thesis
        by (auto split: sum.splits option.splits)
    qed
  qed
qed

lemma noreply_outcome:
  assumes "sendRequestNoReply ctx rq c = (r, d)"
  shows "broken c d \<or> (IsValid c \<and> transferred c d [rq] [])"
proof (cases "ctxErr ctx (cnClock c) = None \<and> IsValid c")
  case False
  then show ?thesis using assms
    by (auto simp: sendRequestNoReply_def guard_valid invalidate_broken broken_refl split: option.splits)
next
  case True
  obtain ok c1 where w: "netWrite rq c = (ok, c1)" by (metis surj_pair)
  show ?thesis
  proof (cases ok)
    case False
    with w have "transferred c c1 [] []" by (simp add: netWrite_fail)
    with True assms w False show ?thesis
      by (auto simp: sendRequestNoReply_def guard_valid broken_def transferred_def split: option.splits)
  next
    case ok: True
    with True assms w netWrite_ok [of rq c c1] show ?thesis by (auto simp: sendRequestNoReply_def guard_valid)
  qed
qed

definition unanswered :: "Conn \<Rightarrow> int" where
  "unanswered c = int (length (filter expects (cnSent c))) - int (length (cnRead c))"

definition sync_rel :: "Conn \<Rightarrow> Conn \<Rightarrow> bool" where
  "sync_rel c d \<longleftrightarrow> (IsValid d \<longrightarrow> IsValid c \<and> unanswered d = unanswered c)"

definition dead_rel :: "Conn \<Rightarrow> Conn \<Rightarrow> bool" where
  "dead_rel c d \<longleftrightarrow> (\<not> IsValid c \<longrightarrow> \<not> IsValid d \<and> cnSent d = cnSent c \<and> cnRead d = cnRead c \<and> cnIn d = cnIn c)"

definition log_rel :: "Conn \<Rightarrow> Conn \<Rightarrow> bool" where
  "log_rel c d \<longleftrightarrow> (\<exists>xs ys. cnSent d = cnSent c @ xs \<and> cnRead d = cnRead c @ ys)"

lemmas relation_defs = sync_rel_def dead_rel_def log_rel_def broken_def transferred_def unanswered_def

interpretation wire_sync: connection_relation sync_rel
proof
  show "sync_rel c (c\<lparr>cnAutoCommit := a, cnCommitment := m\<rparr>)" for c a m
    by (simp add: relation_defs IsValid_def)
  show "sync_rel c (c\<lparr>cnNames := n\<rparr>)" for c n
    by (simp add: relation_defs IsValid_def)
  show "sync_rel a b \<Longrightarrow> sync_rel b c \<Longrightarrow> sync_rel a c" for a b c by (simp add: sync_rel_def)
  show "same_wire c d \<Longrightarrow> sync_rel c d" for c d
    by (simp add: sync_rel_def same_wire_def unanswered_def IsValid_def)
  show "pre = [] \<or> \<not> expects pre \<Longrightarrow> expects rq \<Longrightarrow> sync_rel c (snd (doRequestWithPreamble ctx pre rq c))" for pre rq c ctx
    using exchange_outcome [of ctx pre rq c, OF surjective_pairing] by (auto simp: relation_defs split: if_splits)
  show "expects rq \<Longrightarrow> sync_rel c (snd (doStatementRequest ctx rq h c))" for rq c ctx h
    using statement_outcome [of ctx rq h c, OF surjective_pairing] by (auto simp: relation_defs)
  show "\<not> expects rq \<Longrightarrow> sync_rel c (snd (sendRequestNoReply ctx rq c))" for rq c ctx
    using noreply_outcome [of ctx rq c, OF surjective_pairing] by (auto simp: relation_defs)
qed

interpretation dead: connection_relation dead_rel
proof
  show "dead_rel c (c\<lparr>cnAutoCommit := a, cnCommitment := m\<rparr>)" for c a m
    by (simp add: relation_defs IsValid_def)
  show "dead_rel c (c\<lparr>cnNames := n\<rparr>)" for c n
    by (simp add: relation_defs IsValid_def)
  show "dead_rel a b \<Longrightarrow> dead_rel b c \<Longrightarrow> dead_rel a c" for a b c by (auto simp: dead_rel_def)
  show "same_wire c d \<Longrightarrow> dead_rel c d" for c d by (simp add: dead_rel_def same_wire_def IsValid_def)
  show "dead_rel c (snd (doRequestWithPreamble ctx pre rq c))" for pre rq c ctx
    using exchange_outcome [of ctx pre rq c, OF surjective_pairing] by (auto simp: relation_defs)
  show "dead_rel c (snd (doStatementRequest ctx rq h c))" for rq c ctx h
    using statement_outcome [of ctx rq h c, OF surjective_pairing] by (auto simp: relation_defs)
  show "dead_rel c (snd (sendRequestNoReply ctx rq c))" for rq c ctx
    using noreply_outcome [of ctx rq c, OF surjective_pairing] by (auto simp: relation_defs)
qed

interpretation logs: connection_relation log_rel
proof
  show "log_rel c (c\<lparr>cnAutoCommit := a, cnCommitment := m\<rparr>)" for c a m
    by (simp add: relation_defs IsValid_def)
  show "log_rel c (c\<lparr>cnNames := n\<rparr>)" for c n
    by (simp add: relation_defs IsValid_def)
  show "log_rel a b \<Longrightarrow> log_rel b c \<Longrightarrow> log_rel a c" for a b c by (auto simp: log_rel_def)
  show "same_wire c d \<Longrightarrow> log_rel c d" for c d by (simp add: log_rel_def same_wire_def)
  show "log_rel c (snd (doRequestWithPreamble ctx pre rq c))" for pre rq c ctx
    using exchange_outcome [of ctx pre rq c, OF surjective_pairing] by (auto simp: relation_defs)
  show "log_rel c (snd (doStatementRequest ctx rq h c))" for rq c ctx h
    using statement_outcome [of ctx rq h c, OF surjective_pairing] by (auto simp: relation_defs)
  show "log_rel c (snd (sendRequestNoReply ctx rq c))" for rq c ctx
    using noreply_outcome [of ctx rq c, OF surjective_pairing] by (auto simp: relation_defs)
qed

text \<open>The transport leaves the names alone.\<close>

definition names_rel :: "Conn \<Rightarrow> Conn \<Rightarrow> bool" where
  "names_rel c d \<longleftrightarrow> cnNames d = cnNames c"

lemma names_primitive:
  "cnNames (invalidateConnection e c) = cnNames c" "cnNames (snd (netWrite p c)) = cnNames c"
  "cnNames (snd (netRead c)) = cnNames c" "cnNames (snd (abortStatementIO ctx c)) = cnNames c"
  by (auto simp: invalidateConnection_def netWrite_def netRead_def abortStatementIO_def
      split: list.splits bool.splits prod.splits sum.splits option.splits)

lemma names_write: "netWrite p c = (ok, d) \<Longrightarrow> cnNames d = cnNames c" "netRead c = (r, d) \<Longrightarrow> cnNames d = cnNames c"
  using names_primitive(2) [of p c] names_primitive(3) [of c] by simp_all

interpretation names: step_relation names_rel
proof
  show "names_rel a b \<Longrightarrow> names_rel b c \<Longrightarrow> names_rel a c" for a b c by (simp add: names_rel_def)
  show "same_wire c d \<Longrightarrow> names_rel c d" for c d by (simp add: names_rel_def same_wire_def)
  show rq: "names_rel c (snd (doRequestWithPreamble ctx pre rq c))" for pre rq c ctx
    unfolding names_rel_def doRequestWithPreamble_def
    by (auto simp: names_primitive dest!: names_write split: option.splits prod.splits sum.splits if_splits)
  show "names_rel c (snd (doStatementRequest ctx rq h c))" for rq c ctx h
    using rq [of c ctx "[]" rq] unfolding names_rel_def doStatementRequest_def doRequest_def
    by (auto simp: names_primitive dest!: names_write split: option.splits prod.splits sum.splits if_splits)
  show "names_rel c (snd (sendRequestNoReply ctx rq c))" for rq c ctx
    unfolding names_rel_def sendRequestNoReply_def
    by (auto simp: names_primitive dest!: names_write split: option.splits prod.splits if_splits)
qed

text \<open>The transport leaves the configuration and the transaction state alone.\<close>

definition settings_rel :: "Conn \<Rightarrow> Conn \<Rightarrow> bool" where
  "settings_rel c d \<longleftrightarrow> cnCfg d = cnCfg c \<and> cnAutoCommit d = cnAutoCommit c \<and> cnCommitment d = cnCommitment c"

lemma settings_primitive:
  "settings_rel c (invalidateConnection e c)" "settings_rel c (snd (abortStatementIO ctx c))"
  "settings_rel c (snd (netWrite p c))" "settings_rel c (snd (netRead c))"
  by (auto simp: settings_rel_def invalidateConnection_def netWrite_def netRead_def abortStatementIO_def
      split: list.splits bool.splits prod.splits sum.splits option.splits)

lemma settings_trans: "settings_rel a b \<Longrightarrow> settings_rel b c \<Longrightarrow> settings_rel a c"
  by (simp add: settings_rel_def)

lemma settings_write: "netWrite p c = (ok, d) \<Longrightarrow> settings_rel c d" "netRead c = (r, d) \<Longrightarrow> settings_rel c d"
  using settings_primitive(3) [of c p] settings_primitive(4) [of c] by simp_all

lemma settings_after:
  "settings_rel a c \<Longrightarrow> settings_rel a (invalidateConnection e c)"
  "settings_rel a c \<Longrightarrow> settings_rel a (snd (abortStatementIO ctx c))"
  by (rule settings_trans [OF _ settings_primitive(1)], assumption) (rule settings_trans [OF _ settings_primitive(2)])

interpretation settings: session_relation settings_rel
proof
  show "settings_rel c (c\<lparr>cnNames := n\<rparr>)" for c n by (simp add: settings_rel_def)
  show "settings_rel a b \<Longrightarrow> settings_rel b c \<Longrightarrow> settings_rel a c" for a b c by (rule settings_trans)
  show "same_wire c d \<Longrightarrow> settings_rel c d" for c d by (simp add: settings_rel_def same_wire_def)
  have refl: "settings_rel c c" for c by (simp add: settings_rel_def)
  show rq: "settings_rel c (snd (doRequestWithPreamble ctx pre rq c))" for pre rq c ctx
    unfolding doRequestWithPreamble_def
    by (auto simp: refl settings_primitive dest!: settings_write intro!: settings_after intro: settings_trans
        split: option.splits prod.splits sum.splits if_splits)
  show "settings_rel c (snd (doStatementRequest ctx rq h c))" for rq c ctx h
    using rq [of c ctx "[]" rq] unfolding doStatementRequest_def doRequest_def
    by (auto simp: refl settings_primitive dest!: settings_write intro!: settings_after intro: settings_trans
        split: option.splits prod.splits sum.splits if_splits)
  show "settings_rel c (snd (sendRequestNoReply ctx rq c))" for rq c ctx
    unfolding sendRequestNoReply_def
    by (auto simp: refl settings_primitive dest!: settings_write intro!: settings_after intro: settings_trans
        split: option.splits prod.splits if_splits)
qed

section \<open>A server that answers\<close>

text \<open>The shortest reply: an envelope that reports success, without parameters.\<close>

definition okReply :: bytes where
  "okReply = [0, 0, 0, 40] @ replicate 14 0 @ [0x28, 0] @ replicate 20 0"

definition okEnvelope :: replyEnvelope where
  "okEnvelope = fst (projr (readReplyEnvelope okReply))"

lemma okReply_bytes:
  "okReply = [0, 0, 0, 40, 0, 0, 0, 0, 0, 0, 0, 0, 0, 0, 0, 0, 0, 0, 0x28, 0, 0, 0, 0, 0, 0, 0, 0, 0, 0, 0, 0, 0, 0, 0, 0, 0, 0, 0, 0, 0]"
  by (simp add: okReply_def eval_nat_numeral)

lemma okReply_envelope: "readReplyEnvelope okReply = Inr (okEnvelope, [])" "envRCClass okEnvelope = 0"
  by (simp_all add: okEnvelope_def readReplyEnvelope_def okReply_bytes ParseHeader_def HeaderSize_def slice_def Uint16_def Uint32_def)

lemma okReply_packet:
  "inBytes i = okReply @ rest \<Longrightarrow> readPacket i = (Inr okReply, i\<lparr>inBytes := rest\<rparr>)"
  by (simp add: okReply_bytes readPacket_def ReadFull_def HeaderSize_def maxPacketLength_def Uint32_def)

lemma doRequest_answered:
  assumes "IsValid c" "cnWrites c = []" "inBytes (cnIn c) = okReply @ rest"
  shows "doRequest Background rq c = (Inr (okEnvelope, []),
    c\<lparr>cnSent := cnSent c @ [rq], cnRead := cnRead c @ [okReply], cnIn := (cnIn c)\<lparr>inBytes := rest\<rparr>,
      cnClock := cnClock c + 2\<rparr>)"
  using assms okReply_packet [of "cnIn c" rest]
  by (simp add: doRequest_def doRequestWithPreamble_def Background_def guard_valid netWrite_def netRead_def okReply_envelope)

lemma request_checked_answered:
  assumes "IsValid c" "cnWrites c = []" "inBytes (cnIn c) = okReply @ rest"
  shows "request_checked fs Background h op (doRequest Background rq) c = (Inr (okEnvelope, []),
    c\<lparr>cnSent := cnSent c @ [rq], cnRead := cnRead c @ [okReply], cnIn := (cnIn c)\<lparr>inBytes := rest\<rparr>,
      cnClock := cnClock c + 2\<rparr>)"
  by (simp add: request_checked_def act_bind_def doRequest_answered [OF assms] checkReply_def hasWarning_def hasError_def
      okReply_envelope act_simps1)

text \<open>An open connection whose server has sent the given bytes.\<close>

definition exampleConn :: "bytes \<Rightarrow> Conn" where
  "exampleConn bs =
     \<lparr>cnCfg = exampleConfig, cnSystemInfo = None, cnNet = True, cnClosed = False, cnCloseErr = None, cnAutoCommit = True,
      cnCommitment = 0, cnWarnings = [], cnNames = \<lparr>nsUsed = {1}, nsDescriptorSeq = 0, nsCursorSeq = 0, nsBusy = {1}\<rparr>,
      cnPkg = None, cnRpbTimeouts = (\<lambda>h. None), cnClientInfo = [], cnFresh = Background, cnIn = \<lparr>inBytes = bs, inErr = EOF\<rparr>,
      cnWrites = [], cnSent = [], cnRead = [], cnCancels = [], cnClock = 0\<rparr>"

end
