(* ===== verification/Sql.thy ===== *)
theory Sql
  imports Session
begin

text \<open>
  The operations of the SQL layer on a connection: preparing, opening, fetching, executing
  and closing (\<open>src/sql.go\<close>), the package requests (\<open>src/package.go\<close>, \<open>src/package_cache.go\<close>),
  query timeouts (\<open>src/clientinfo.go\<close>), block execution (\<open>src/batch.go\<close>), large objects, and
  transactions (\<open>src/tx.go\<close>), each as a step of the session. What these functions use of
  parts the development does not model is the record \<open>library\<close>: the conversion tables, the
  bidirectional layout of statement texts and column names, the binding of arguments, the
  decoding of a column, the assignment to an output destination and a floating-point rounding.
\<close>

section \<open>Definitions\<close>

record library =
  lbTables :: tables
  lbBidiSQL :: "Conn \<Rightarrow> string \<Rightarrow> string"
  lbBidiName :: "Conn \<Rightarrow> string \<Rightarrow> int \<Rightarrow> string"
  lbBind :: "parameterMarkerFormat option \<Rightarrow> namedValue list \<Rightarrow> bidiSettings \<Rightarrow> parameterBinding list res"
  lbDecode :: "Conn \<Rightarrow> columnMeta \<Rightarrow> bytes \<Rightarrow> driverValue res"
  lbLobText :: "Conn \<Rightarrow> bytes \<Rightarrow> columnMeta \<Rightarrow> driverValue res"
  lbAssign :: "parameterBinding \<Rightarrow> driverValue \<Rightarrow> unit res"
  lbCeilSeconds :: "int \<Rightarrow> int"

definition unsupported :: "string \<Rightarrow> go_error" where
  "unsupported op = (if op = [] then ErrUnsupported else Wrap ErrUnsupported op [])"

subsection \<open>Packages\<close>

definition setPkg :: "(packageState \<Rightarrow> packageState) \<Rightarrow> Conn \<Rightarrow> Conn" where
  "setPkg f c = c\<lparr>cnPkg := map_option f (cnPkg c)\<rparr>"

definition packageError :: "string \<Rightarrow> string \<Rightarrow> string \<Rightarrow> unit act" where
  "packageError mode state message =
     (if mode = ''exception'' then act_fail (SQLError 0 state message [] [] [] [])
      else if mode = ''warning'' then
        act_modify (recordWarning [\<lparr>swCode = 0, swState = state, swMessage = message\<rparr>])
      else act_return ())"

definition packageNameCCSID :: "Conn \<Rightarrow> int" where
  "packageNameCCSID c = (case cnSystemInfo c of None \<Rightarrow> 0 | Some s \<Rightarrow> syCCSID s)"

definition packageReadMessage :: "string \<Rightarrow> replyEnvelope \<Rightarrow> string" where
  "packageReadMessage name envelope =
     ''SQL package '' @ name @ '' could not be read (class '' @ show_nat (unat (envRCClass envelope)) @ '', code '' @
     show_int (envRCCode envelope) @ ''); package cache disabled''"

text \<open>\<open>showErr\<close> is the text of an error, which the message of an unreadable package quotes.\<close>

definition cachePackage :: "(go_error \<Rightarrow> string) \<Rightarrow> library \<Rightarrow> go_ctx \<Rightarrow> packageState \<Rightarrow> unit act" where
  "cachePackage showErr lib ctx p =
     act_bind (act_res (buildReturnPackageRequest (lbTables lib) (pkName p) (pkLibrary p))) (\<lambda>request.
     act_bind (doRequest ctx request) (\<lambda>(envelope, payload).
       if envRCClass envelope \<noteq> 0 then
         act_bind (act_modify (setPkg (\<lambda>p. p\<lparr>pkCacheOn := False\<rparr>))) (\<lambda>_.
           packageError (pkErrMode p) ''01H12'' (packageReadMessage (pkName p) envelope))
       else
         act_bind (act_get packageNameCCSID) (\<lambda>ccsid.
           case parsePackageInfo (lbTables lib) payload ccsid of
             Inl e \<Rightarrow>
               act_bind (act_modify (setPkg (\<lambda>p. p\<lparr>pkCacheOn := False\<rparr>))) (\<lambda>_.
                 packageError (pkErrMode p) ''01H12''
                   (''SQL package '' @ pkName p @ '' info could not be read ('' @ showErr e @ ''); package cache disabled''))
           | Inr cache \<Rightarrow> act_modify (setPkg (\<lambda>p. p\<lparr>pkCache := Some cache\<rparr>)))))"

definition packageCreateMessage :: "string \<Rightarrow> replyEnvelope \<Rightarrow> string" where
  "packageCreateMessage name envelope =
     ''SQL package '' @ name @ '' could not be created (class '' @ show_nat (unat (envRCClass envelope)) @ '', code '' @
     show_int (envRCCode envelope) @ ''); extended dynamic support disabled''"

definition packageCollectionMessage :: string where
  "packageCollectionMessage = ''extended dynamic support disabled: the package default collection does not match the connection''"

definition packageFailure :: "(go_error \<Rightarrow> string) \<Rightarrow> library \<Rightarrow> go_ctx \<Rightarrow> packageState \<Rightarrow> replyEnvelope \<Rightarrow> unit act" where
  "packageFailure showErr lib ctx p envelope =
     (if envRCClass envelope = 1 \<and> envRCCode envelope = -601 then
        (if pkCacheOn p then cachePackage showErr lib ctx p else act_return ())
      else if envRCCode envelope = -999999 then
        act_bind (act_try (packageError (pkErrMode p) ''01H11'' packageCollectionMessage)) (\<lambda>failure.
        act_bind (act_modify (setPkg (\<lambda>p. p\<lparr>pkEnabled := False\<rparr>))) (\<lambda>_. act_res failure))
      else if envRCClass envelope \<noteq> 0 then
        act_bind (act_modify (setPkg (\<lambda>p. p\<lparr>pkEnabled := False\<rparr>))) (\<lambda>_.
          if pkErrMode p = ''exception'' then act_fail (newProtocolError ''create package'' envelope)
          else if pkErrMode p = ''warning'' then
            act_modify (recordWarning [\<lparr>swCode = envRCCode envelope, swState = [],
              swMessage = packageCreateMessage (pkName p) envelope\<rparr>])
          else act_return ())
      else act_return ())"

definition ensurePackage :: "(go_error \<Rightarrow> string) \<Rightarrow> library \<Rightarrow> go_ctx \<Rightarrow> unit act" where
  "ensurePackage showErr lib ctx =
     act_bind (act_get cnPkg) (\<lambda>pkg.
       case pkg of
         None \<Rightarrow> act_return ()
       | Some p \<Rightarrow>
           if pkCreated p then act_return ()
           else if \<not> pkEnabled p then act_modify (setPkg (\<lambda>p. p\<lparr>pkCreated := True\<rparr>))
           else
             act_bind (act_res (buildCreatePackageRequest (lbTables lib) (pkName p) (pkLibrary p))) (\<lambda>request.
             act_bind (doRequest ctx request) (\<lambda>(envelope, _).
             act_bind (packageFailure showErr lib ctx p envelope) (\<lambda>_.
               act_modify (setPkg (\<lambda>p. p\<lparr>pkCreated := True\<rparr>))))))"

definition takeSpecForPrepare :: "u16 \<Rightarrow> string \<Rightarrow> packageSpec option act" where
  "takeSpecForPrepare handle sql c =
     (case specForPrepare (cnPkg c) handle sql of (spec, p) \<Rightarrow> (Inr spec, c\<lparr>cnPkg := p\<rparr>))"

subsection \<open>Names\<close>

definition act_names :: "(nameState \<Rightarrow> 'a \<times> nameState) \<Rightarrow> 'a act" where
  "act_names f c = (case f (cnNames c) of (x, n) \<Rightarrow> (Inr x, c\<lparr>cnNames := n\<rparr>))"

definition act_name_step :: "(nameState \<Rightarrow> nameState) \<Rightarrow> unit act" where
  "act_name_step f = act_modify (\<lambda>c. c\<lparr>cnNames := f (cnNames c)\<rparr>)"

definition takeStatementName :: "(string \<times> u16) act" where
  "takeStatementName = act_bind (act_names nextStatementName) act_res"

subsection \<open>Statements\<close>

definition statementTextCCSIDFor :: "Config \<Rightarrow> int \<Rightarrow> int \<Rightarrow> int" where
  "statementTextCCSIDFor cfg serverCCSID serverVRM =
     (if cfgPackageCCSIDSystem cfg then (if serverCCSID > 0 then serverCCSID else 37)
      else let ccsid = cfgPackageCCSID cfg in
        if ccsid \<le> 0 then defaultPackageCCSID
        else if ccsid = 1200 \<and> serverVRM \<noteq> 0 \<and> serverVRM < 0x050300 then defaultPackageCCSID
        else ccsid)"

definition statementTextCCSID :: "Conn \<Rightarrow> int" where
  "statementTextCCSID c =
     (case cnSystemInfo c of
        None \<Rightarrow> statementTextCCSIDFor (cnCfg c) 0 0
      | Some s \<Rightarrow> statementTextCCSIDFor (cnCfg c) (syCCSID s) (syVersion s))"

text \<open>The seconds of a duration, at least 1 and at most the largest \<open>int32\<close>; \<open>lbCeilSeconds\<close> is \<open>math.Ceil(d.Seconds())\<close>.\<close>

definition remainingSeconds :: "library \<Rightarrow> int \<Rightarrow> int" where
  "remainingSeconds lib d =
     (let secs = lbCeilSeconds lib d in if secs < 1 then 1 else if secs > 2147483647 then 2147483647 else secs)"

definition buildChangeRPBQueryTimeoutRequest :: "u16 \<Rightarrow> int \<Rightarrow> bytes" where
  "buildChangeRPBQueryTimeoutRequest statementHandle seconds =
     finishRequest 0x1D03 0 statementHandle 0 1 (appendIntAttribute [] 0x3817 (word_of_int seconds))"

definition syncQueryTimeoutRPB :: "library \<Rightarrow> go_ctx \<Rightarrow> u16 \<Rightarrow> unit act" where
  "syncQueryTimeoutRPB lib ctx statementHandle c =
     (if cfgQueryTimeoutMechanism (cnCfg c) \<noteq> ''qqrytimlmt'' then act_return () c
      else
        let until = ctxUntil ctx (cnClock c);
            want = (case until of Some d \<Rightarrow> remainingSeconds lib d | None \<Rightarrow> -1);
            previous = cnRpbTimeouts c statementHandle in
        if until = None \<and> (previous = None \<or> previous = Some (-1)) then act_return () c
        else if previous = Some want then act_return () c
        else act_bind (sendRequestNoReply ctx (buildChangeRPBQueryTimeoutRequest statementHandle want)) (\<lambda>_.
          act_modify (\<lambda>c. c\<lparr>cnRpbTimeouts := (cnRpbTimeouts c)(statementHandle := Some want)\<rparr>)) c)"

text \<open>After a failed request the statement is cancelled when the context was the reason.\<close>

definition isCtxError :: "go_error \<Rightarrow> bool" where
  "isCtxError e \<longleftrightarrow> errors_Is e ErrCanceled \<or> errors_Is e ErrDeadlineExceeded"

definition cancelling :: "bool \<Rightarrow> u16 \<Rightarrow> 'a act \<Rightarrow> 'a act" where
  "cancelling onlyInvalid statementHandle m =
     act_bind (act_try m) (\<lambda>r.
       case r of
         Inr x \<Rightarrow> act_return x
       | Inl e \<Rightarrow>
           act_bind (act_get IsValid) (\<lambda>valid.
             if isCtxError e \<and> (onlyInvalid \<longrightarrow> \<not> valid)
             then act_bind (act_try (cancelStatement statementHandle)) (\<lambda>_. act_fail e)
             else act_fail e))"

definition sqlcaOf :: "library \<Rightarrow> go_ctx \<Rightarrow> u16 \<Rightarrow> bytes \<Rightarrow> sqlcaInfo act" where
  "sqlcaOf lib ctx statementHandle payload =
     act_bind (act_res (parseSQLCAFromPayload (lbTables lib) payload)) (\<lambda>info.
       if siSQLCode info < 0 then newSQLError (lbTables lib) ctx statementHandle info else act_return info)"

definition prepareAndDescribe ::
    "(go_error \<Rightarrow> string) \<Rightarrow> library \<Rightarrow> go_ctx \<Rightarrow> u16 \<Rightarrow> string \<Rightarrow> string \<Rightarrow> (sqlcaInfo \<times> parameterMarkerFormat option) act" where
  "prepareAndDescribe showErr lib ctx statementHandle stmtName query =
     act_bind (ensurePackage showErr lib ctx) (\<lambda>_.
     act_bind (act_get cnPkg) (\<lambda>pkg.
     act_bind (act_res (buildCreateRPBRequest (lbTables lib) statementHandle stmtName (specForLibrary pkg))) (\<lambda>createRPB.
     act_bind (act_get (\<lambda>c. (lbBidiSQL lib c query, statementTextCCSID c))) (\<lambda>(txt0, ccsid).
     act_bind (takeSpecForPrepare statementHandle query) (\<lambda>spec.
     act_bind (act_res (buildPrepareAndDescribeRequestCCSID (lbTables lib) statementHandle stmtName txt0 spec ccsid)) (\<lambda>request.
     act_bind (cancelling False statementHandle (doRequestWithPreamble ctx createRPB request)) (\<lambda>(envelope, payload).
     act_bind (checkReply (lbTables lib) ctx statementHandle ''prepare'' envelope payload) (\<lambda>_.
     act_bind (sqlcaOf lib ctx statementHandle payload) (\<lambda>info.
     act_bind (act_modify (recordWarning (siWarning info))) (\<lambda>_.
     act_bind (act_res (parseParameterMarkerFormatFromPayload (lbTables lib) payload)) (\<lambda>format.
       act_return (info, format))))))))))))"

definition prepareOrReuse ::
    "(go_error \<Rightarrow> string) \<Rightarrow> library \<Rightarrow> go_ctx \<Rightarrow> u16 \<Rightarrow> string \<Rightarrow> string \<Rightarrow> (string \<times> parameterMarkerFormat option) act" where
  "prepareOrReuse showErr lib ctx statementHandle stmtName query =
     act_bind (ensurePackage showErr lib ctx) (\<lambda>_.
     act_bind (act_get (\<lambda>c. cachedStatementFor (cnPkg c) query)) (\<lambda>cached.
       case cached of
         None \<Rightarrow>
           act_bind (prepareAndDescribe showErr lib ctx statementHandle stmtName query) (\<lambda>(_, format).
             act_return (stmtName, format))
       | Some stmt \<Rightarrow>
           act_bind (takeSpecForPrepare statementHandle query) (\<lambda>_.
           act_bind (act_get cnPkg) (\<lambda>pkg.
           act_bind (act_res (buildCreateRPBRequest (lbTables lib) statementHandle (pcName stmt) (specForLibrary pkg))) (\<lambda>request.
           act_bind (sendWithoutReply ctx request) (\<lambda>_.
             act_return (pcName stmt, pcParamFormat stmt)))))))"

definition closeCursor :: "library \<Rightarrow> go_ctx \<Rightarrow> string \<Rightarrow> byte \<Rightarrow> unit act" where
  "closeCursor lib ctx cursorName reuseIndicator =
     (if TrimSpace cursorName = [] then act_return ()
      else act_bind (act_res (buildCloseCursorRequest (lbTables lib) cursorName reuseIndicator)) (\<lambda>request.
        act_bind (doRequest ctx request) (\<lambda>(envelope, payload).
          checkReply (lbTables lib) ctx 0 ''close cursor'' envelope payload)))"

definition closeResultSetCursorNoReply :: "library \<Rightarrow> go_ctx \<Rightarrow> u16 \<Rightarrow> string \<Rightarrow> byte \<Rightarrow> unit act" where
  "closeResultSetCursorNoReply lib ctx statementHandle cursorName reuseIndicator =
     act_bind (act_res (buildCloseResultSetCursorRequest (lbTables lib) statementHandle cursorName reuseIndicator))
       (sendRequestNoReply ctx)"

definition closePreparedStatement :: "library \<Rightarrow> go_ctx \<Rightarrow> string \<Rightarrow> u16 \<Rightarrow> unit act" where
  "closePreparedStatement lib ctx stmtName statementHandle =
     (if TrimSpace stmtName = [] then act_return ()
      else act_defer
        (act_bind (act_get (\<lambda>c. isCachedStatementName (cnPkg c) stmtName)) (\<lambda>shared.
           if shared then act_return ()
           else act_bind (doRequest ctx (buildDeleteRPBRequest statementHandle)) (\<lambda>(envelope, payload).
             checkReply (lbTables lib) ctx 0 ''delete RPB'' envelope payload)))
        (act_name_step (releaseStatementHandle statementHandle)))"

definition discardStatement :: "library \<Rightarrow> go_ctx \<Rightarrow> string \<Rightarrow> u16 \<Rightarrow> unit act" where
  "discardStatement lib ctx stmtName statementHandle =
     act_bind (act_get (cleanupContext ctx)) (\<lambda>cleanupCtx.
     act_bind (act_try (closePreparedStatement lib cleanupCtx stmtName statementHandle)) (\<lambda>_. act_return ()))"

definition closeInterruptedCursor :: "library \<Rightarrow> go_ctx \<Rightarrow> string \<Rightarrow> go_error \<Rightarrow> unit act" where
  "closeInterruptedCursor lib ctx cursorName openErr =
     act_bind (act_get (\<lambda>c. (IsValid c, cleanupContext ctx c))) (\<lambda>(valid, cleanupCtx).
       if \<not> valid then act_return ()
       else if \<not> isCtxError openErr then act_return ()
       else act_bind (act_try (closeCursor lib cleanupCtx cursorName 0xF0)) (\<lambda>_. act_return ()))"

subsection \<open>Cursors\<close>

definition openAndDescribe ::
    "library \<Rightarrow> go_ctx \<Rightarrow> u16 \<Rightarrow> string \<Rightarrow> string \<Rightarrow> u16 \<Rightarrow> parameterMarkerFormat option \<Rightarrow> parameterBinding list \<Rightarrow>
     (resultSetMeta \<times> sqlcaInfo) act" where
  "openAndDescribe lib ctx statementHandle stmtName cursorName descriptorHandle format bindings =
     act_bind (syncQueryTimeoutRPB lib ctx statementHandle) (\<lambda>_.
     act_bind (act_get (\<lambda>c. (cnCfg c, specForExecute (cnPkg c) statementHandle))) (\<lambda>(cfg, spec).
     act_bind (act_res (buildOpenDescribePreparedRequest (lbTables lib) statementHandle descriptorHandle stmtName cursorName
                 format bindings (cfgScrollableCursors cfg) (cfgHoldCursors cfg) spec)) (\<lambda>request.
     act_bind (cancelling True statementHandle (doStatementRequest ctx request statementHandle)) (\<lambda>(envelope, payload).
     act_bind (checkReply (lbTables lib) ctx statementHandle ''open'' envelope payload) (\<lambda>_.
     act_bind (sqlcaOf lib ctx statementHandle payload) (\<lambda>info.
     act_bind (act_res (parseDescribePayload (lbTables lib) payload)) (\<lambda>meta.
     act_bind (act_get (\<lambda>c. map (\<lambda>col. col\<lparr>cName := lbBidiName lib c (cName col) (cNameCCSID col)\<rparr>) (rmColumns meta))) (\<lambda>cols.
       act_return (meta\<lparr>rmColumns := cols\<rparr>, info)))))))))"

definition fetchRows :: "library \<Rightarrow> go_ctx \<Rightarrow> u16 \<Rightarrow> string \<Rightarrow> u32 \<Rightarrow> int \<Rightarrow> int \<Rightarrow> fetchBlock act" where
  "fetchRows lib ctx statementHandle cursorName fetchBufferSize option relative =
     act_bind (act_res (buildFetchRequestForStatement (lbTables lib) statementHandle cursorName fetchBufferSize option relative)) (\<lambda>request.
     act_bind (cancelling True statementHandle (doStatementRequest ctx request statementHandle)) (\<lambda>(envelope, payload).
     act_bind (checkReply (lbTables lib) ctx statementHandle ''fetch'' envelope payload) (\<lambda>_.
     act_bind (act_res (parseFetchPayload payload)) (\<lambda>block.
       act_return (block\<lparr>fbCursorClosed := (envRCClass envelope = 2 \<and> envRCCode envelope = 700) \<or> fbCursorClosed block,
                         fbEndOfData := (envRCClass envelope = 2 \<and> envRCCode envelope = 701) \<or> fbEndOfData block\<rparr>)))))"

text \<open>
  The rows of a query. \<open>releaseStmt\<close> is a callback; \<open>qrReleaseStmt\<close> tells whether it is set and
  \<open>qrReleased\<close> counts its calls.
\<close>

record queryRows =
  qrCtx :: go_ctx
  qrMeta :: resultSetMeta
  qrStatementHandle :: u16
  qrStatementName :: string
  qrCursorName :: string
  qrDefaultCursor :: bool
  qrFetchBufferSize :: u32
  qrResultSetCount :: int
  qrResultSetIndex :: int
  qrBlock :: "fetchBlock option"
  qrRowIndex :: int
  qrCurrentRow :: int
  qrResultSetDone :: bool
  qrStoredProc :: bool
  qrScrollable :: bool
  qrOwnStatement :: bool
  qrReleaseStmt :: bool
  qrReleased :: nat
  qrClosed :: bool
  qrServerClosed :: bool
  qrEndOfData :: bool

definition newQueryRows :: "go_ctx \<Rightarrow> u16 \<Rightarrow> string \<Rightarrow> string \<Rightarrow> bool \<Rightarrow> int \<Rightarrow> resultSetMeta \<Rightarrow> Config \<Rightarrow> queryRows" where
  "newQueryRows ctx statementHandle stmtName cursorName defaultCursor resultSetCount meta cfg =
     \<lparr>qrCtx = ctx, qrMeta = meta, qrStatementHandle = statementHandle, qrStatementName = stmtName,
      qrCursorName = cursorName, qrDefaultCursor = defaultCursor, qrFetchBufferSize = fetchBufferBytes cfg,
      qrResultSetCount = resultSetCount, qrResultSetIndex = 1, qrBlock = None, qrRowIndex = 0, qrCurrentRow = 0,
      qrResultSetDone = (rmColumns meta = []), qrStoredProc = False, qrScrollable = cfgScrollableCursors cfg,
      qrOwnStatement = False, qrReleaseStmt = False, qrReleased = 0, qrClosed = False, qrServerClosed = False,
      qrEndOfData = False\<rparr>"

definition withRowSize :: "resultSetMeta \<Rightarrow> resultSetMeta" where
  "withRowSize meta = (if rmRowSize meta = 0 then meta\<lparr>rmRowSize := sumColumnLengths (rmColumns meta)\<rparr> else meta)"

definition errNoResultSet :: go_error where
  "errNoResultSet = Errorf ''query did not return a result set'' []"

text \<open>
  The two functions that open a cursor differ in one step: without bindings the cursor name
  is given back when the query returns no result set (\<open>giveBack\<close>), with bindings it is not.
\<close>

definition openRows ::
    "bool \<Rightarrow> library \<Rightarrow> go_ctx \<Rightarrow> u16 \<Rightarrow> string \<Rightarrow> u16 \<Rightarrow> parameterMarkerFormat option \<Rightarrow> parameterBinding list \<Rightarrow> queryRows act" where
  "openRows giveBack lib ctx statementHandle stmtName descriptorHandle format bindings =
     act_bind (act_names (openCursorName statementHandle)) (\<lambda>(cursorName, defaultCursor).
     act_bind (act_try (openAndDescribe lib ctx statementHandle stmtName cursorName descriptorHandle format bindings)) (\<lambda>r.
       case r of
         Inl e \<Rightarrow>
           act_bind (closeInterruptedCursor lib ctx cursorName e) (\<lambda>_.
           act_bind (act_name_step (releaseOpenCursorName statementHandle defaultCursor)) (\<lambda>_. act_fail e))
       | Inr (meta, sqlca) \<Rightarrow>
           act_bind (act_modify (recordWarning (siWarning sqlca))) (\<lambda>_.
             let resultSetCount = (if siResultSetsCount sqlca > 0 then siResultSetsCount sqlca else 1) in
             if rmColumns meta = [] \<and> resultSetCount = 1 then
               act_bind (act_name_step (if giveBack then releaseOpenCursorName statementHandle defaultCursor else id)) (\<lambda>_.
                 act_fail errNoResultSet)
             else act_get (\<lambda>c. newQueryRows ctx statementHandle stmtName cursorName defaultCursor resultSetCount
                                (withRowSize meta) (cnCfg c)))))"

definition queryRowsForStatement :: "library \<Rightarrow> go_ctx \<Rightarrow> u16 \<Rightarrow> string \<Rightarrow> queryRows act" where
  "queryRowsForStatement lib ctx statementHandle stmtName = openRows True lib ctx statementHandle stmtName 0 None []"

definition queryRowsForStatementWithBindings ::
    "library \<Rightarrow> go_ctx \<Rightarrow> u16 \<Rightarrow> string \<Rightarrow> u16 \<Rightarrow> parameterMarkerFormat option \<Rightarrow> parameterBinding list \<Rightarrow> queryRows act" where
  "queryRowsForStatementWithBindings lib ctx statementHandle stmtName descriptorHandle format bindings =
     openRows False lib ctx statementHandle stmtName descriptorHandle format bindings"

definition queryPrepared :: "library \<Rightarrow> go_ctx \<Rightarrow> u16 \<Rightarrow> string \<Rightarrow> queryRows act" where
  "queryPrepared lib ctx statementHandle stmtName =
     (if TrimSpace stmtName = [] then act_fail ErrBadConn
      else act_bind (act_modify ClearWarnings) (\<lambda>_. queryRowsForStatement lib ctx statementHandle stmtName))"

definition queryCallRows :: "library \<Rightarrow> go_ctx \<Rightarrow> u16 \<Rightarrow> string \<Rightarrow> queryRows act" where
  "queryCallRows lib ctx statementHandle stmtName =
     (if TrimSpace stmtName = [] then act_fail ErrBadConn
      else
        act_bind (syncQueryTimeoutRPB lib ctx statementHandle) (\<lambda>_.
        act_bind (act_get (\<lambda>c. specForExecute (cnPkg c) statementHandle)) (\<lambda>spec.
        act_bind (doStatementRequest ctx (buildExecuteCallNoParamsRequest (lbTables lib) statementHandle spec) statementHandle)
          (\<lambda>(envelope, payload).
        act_bind (checkReply (lbTables lib) ctx statementHandle ''execute'' envelope payload) (\<lambda>_.
        act_bind (act_res (parseSQLCAFromPayload (lbTables lib) payload)) (\<lambda>info.
        act_bind (act_modify (recordWarning (siWarning info))) (\<lambda>_.
          if siSQLCode info < 0 then newSQLError (lbTables lib) ctx statementHandle info
          else act_bind (queryRowsForStatement lib ctx statementHandle stmtName) (\<lambda>rows.
            act_return (rows\<lparr>qrResultSetCount := (if siResultSetsCount info > 0 then siResultSetsCount info else qrResultSetCount rows),
                             qrStoredProc := True\<rparr>)))))))))"

text \<open>The deferred switch of \<open>queryContext\<close>: clean up and return the error when the steps fail.\<close>

definition on_failure :: "('s, unit) step \<Rightarrow> ('s, 'a) step \<Rightarrow> ('s, 'a) step" where
  "on_failure cleanup m =
     act_bind (act_try m) (\<lambda>r. case r of Inr x \<Rightarrow> act_return x | Inl e \<Rightarrow> act_bind cleanup (\<lambda>_. act_fail e))"

definition queryRequests :: "(go_error \<Rightarrow> string) \<Rightarrow> library \<Rightarrow> go_ctx \<Rightarrow> u16 \<Rightarrow> string \<Rightarrow> string \<Rightarrow> (bytes \<times> bytes) act" where
  "queryRequests showErr lib ctx statementHandle stmtName query =
     act_bind (ensurePackage showErr lib ctx) (\<lambda>_.
     act_bind (act_get cnPkg) (\<lambda>pkg.
     act_bind (act_res (buildCreateRPBRequest (lbTables lib) statementHandle stmtName (specForLibrary pkg))) (\<lambda>createRPB.
     act_bind (act_get (\<lambda>c. (lbBidiSQL lib c query, statementTextCCSID c))) (\<lambda>(txt0, ccsid).
     act_bind (takeSpecForPrepare statementHandle query) (\<lambda>spec.
     act_bind (act_res (buildPrepareAndDescribeRequestCCSID (lbTables lib) statementHandle stmtName txt0 spec ccsid)) (\<lambda>request.
       act_return (createRPB, request)))))))"

text \<open>The steps after the id is taken and the requests are built; the rows own the statement when they succeed.\<close>

definition querySteps :: "library \<Rightarrow> go_ctx \<Rightarrow> u16 \<Rightarrow> string \<Rightarrow> int \<Rightarrow> bytes \<Rightarrow> bytes \<Rightarrow> queryRows act" where
  "querySteps lib ctx statementHandle stmtName statementType createRPB request =
     act_bind (doRequestWithPreamble ctx createRPB request) (\<lambda>(envelope, payload).
     act_bind (checkReply (lbTables lib) ctx statementHandle ''prepare'' envelope payload) (\<lambda>_.
     act_bind (sqlcaOf lib ctx statementHandle payload) (\<lambda>info.
     act_bind (act_modify (recordWarning (siWarning info))) (\<lambda>_.
     act_bind (if statementType = sqlStatementTypeCall then queryCallRows lib ctx statementHandle stmtName
               else queryRowsForStatement lib ctx statementHandle stmtName) (\<lambda>rows.
       act_return (rows\<lparr>qrOwnStatement := True,
         qrStoredProc := (statementType = sqlStatementTypeCall \<or> qrStoredProc rows)\<rparr>))))))"

definition queryBody :: "(go_error \<Rightarrow> string) \<Rightarrow> library \<Rightarrow> go_ctx \<Rightarrow> u16 \<Rightarrow> string \<Rightarrow> int \<Rightarrow> string \<Rightarrow> queryRows act" where
  "queryBody showErr lib ctx statementHandle stmtName statementType query =
     act_bind (on_failure (act_name_step (releaseStatementHandle statementHandle))
       (queryRequests showErr lib ctx statementHandle stmtName query)) (\<lambda>(createRPB, request).
     on_failure (discardStatement lib ctx stmtName statementHandle)
       (querySteps lib ctx statementHandle stmtName statementType createRPB request))"

definition queryContext :: "(go_error \<Rightarrow> string) \<Rightarrow> library \<Rightarrow> go_ctx \<Rightarrow> string \<Rightarrow> queryRows act" where
  "queryContext showErr lib ctx query =
     act_bind (act_modify ClearWarnings) (\<lambda>_.
       let statementType = classifySQLStatement query in
       if statementType \<noteq> sqlStatementTypeSelect \<and> statementType \<noteq> sqlStatementTypeCall
       then act_fail (unsupported ''QueryContext only supports SELECT, VALUES, WITH, or CALL statements'')
       else act_bind takeStatementName (\<lambda>(stmtName, statementHandle).
         queryBody showErr lib ctx statementHandle stmtName statementType query))"

subsection \<open>Execution\<close>

definition execResultOf :: "sqlcaInfo \<Rightarrow> execResult" where
  "execResultOf info =
     \<lparr>erRowsAffected = (if siUpdateCount info < 0 then 0 else siUpdateCount info),
      erLastInsertID = (if siHasGeneratedKey info then siGeneratedKey info else 0),
      erHasLastInsert = siHasGeneratedKey info\<rparr>"

definition errResultSets :: go_error where
  "errResultSets = Errorf ''statement returned result sets; use QueryContext'' []"

definition execContext :: "(go_error \<Rightarrow> string) \<Rightarrow> library \<Rightarrow> go_ctx \<Rightarrow> string \<Rightarrow> execResult act" where
  "execContext showErr lib ctx query =
     act_bind (act_modify ClearWarnings) (\<lambda>_.
       let statementType = classifySQLStatement query in
       if statementType = sqlStatementTypeSelect then act_fail (unsupported ''ExecContext cannot execute query statements'')
       else
         act_bind (ensurePackage showErr lib ctx) (\<lambda>_.
         act_bind (act_get (\<lambda>c. (lbBidiSQL lib c query, specForImmediate (cnPkg c) query, statementTextCCSID c))) (\<lambda>(txt0, spec, ccsid).
         act_bind (act_res (buildExecuteImmediateRequestCCSID (lbTables lib) txt0 statementType spec ccsid)) (\<lambda>request.
         act_bind (doRequest ctx request) (\<lambda>(envelope, payload).
         act_bind (checkReply (lbTables lib) ctx 0 ''execute'' envelope payload) (\<lambda>_.
         act_bind (act_res (parseSQLCAFromPayload (lbTables lib) payload)) (\<lambda>info.
         act_bind (act_modify (recordWarning (siWarning info))) (\<lambda>_.
           if siSQLCode info < 0 then newSQLError (lbTables lib) ctx 0 info
           else if siResultSetsCount info > 0 then act_fail errResultSets
           else act_return (execResultOf info)))))))))"

definition writeLOBData :: "library \<Rightarrow> go_ctx \<Rightarrow> lobWriteRequest \<Rightarrow> unit act" where
  "writeLOBData lib ctx write =
     act_bind (doRequest ctx (buildWriteLOBDataRequest write)) (\<lambda>(envelope, payload).
       checkReply (lbTables lib) ctx 0 ''write LOB data'' envelope payload)"

fun writeLOBs :: "library \<Rightarrow> go_ctx \<Rightarrow> lobWriteRequest list \<Rightarrow> unit act" where
  "writeLOBs lib ctx [] = act_return ()"
| "writeLOBs lib ctx (w # ws) = act_bind (writeLOBData lib ctx w) (\<lambda>_. writeLOBs lib ctx ws)"

definition writeLOBDataRequests :: "library \<Rightarrow> go_ctx \<Rightarrow> parameterBinding list \<Rightarrow> unit act" where
  "writeLOBDataRequests lib ctx bindings = writeLOBs lib ctx (collectLOBWriteRequests bindings)"

definition retrieveLobData :: "library \<Rightarrow> go_ctx \<Rightarrow> u32 \<Rightarrow> bytes act" where
  "retrieveLobData lib ctx locatorHandle =
     act_bind (doRequest ctx (buildRetrieveLobDataRequest locatorHandle 0)) (\<lambda>(lengthEnvelope, lengthPayload).
     act_bind (checkReply (lbTables lib) ctx 0 ''retrieve LOB length'' lengthEnvelope lengthPayload) (\<lambda>_.
     act_bind (act_res (parseCurrentLobLengthFromPayload lengthPayload)) (\<lambda>currentLength.
       if currentLength \<le> 0 then act_return []
       else
         let requested = (if currentLength > 2147483647 then 2147483647 else currentLength) in
         act_bind (doRequest ctx (buildRetrieveLobDataRequest locatorHandle requested)) (\<lambda>(envelope, payload).
         act_bind (checkReply (lbTables lib) ctx 0 ''retrieve LOB data'' envelope payload) (\<lambda>_.
           case parseLobDataFromPayload payload of
             Inl e \<Rightarrow> act_fail (WireError ''parse LOB data'' e)
           | Inr data \<Rightarrow> act_return data)))))"

definition freeLob :: "library \<Rightarrow> go_ctx \<Rightarrow> u32 \<Rightarrow> unit act" where
  "freeLob lib ctx locatorHandle =
     (if locatorHandle = 0 then act_return ()
      else act_bind (doRequest ctx (buildFreeLobRequest locatorHandle)) (\<lambda>(envelope, payload).
        checkReply (lbTables lib) ctx 0 ''free LOB'' envelope payload))"

definition resolveLobLocatorValue :: "library \<Rightarrow> go_ctx \<Rightarrow> columnMeta \<Rightarrow> driverValue \<Rightarrow> driverValue act" where
  "resolveLobLocatorValue lib ctx col value =
     (if db2Type col \<notin> {db2TypeBlobLocator, db2TypeClobLocator, db2TypeDbclobLocator, db2TypeXMLLocator} then act_return value
      else case value of
        VBytes raw \<Rightarrow>
          if length raw < 4 then act_return value
          else
            let locatorHandle = Uint32 (take 4 raw);
                isText = (db2Type col = db2TypeClobLocator \<or> db2Type col = db2TypeDbclobLocator \<or> db2Type col = db2TypeXMLLocator) in
            if locatorHandle = 0 then act_return (if isText then VString [] else VBytes [])
            else
              act_bind (act_try (retrieveLobData lib ctx locatorHandle)) (\<lambda>data.
              act_bind (act_try (freeLob lib ctx locatorHandle)) (\<lambda>freed.
                case data of
                  Inl e \<Rightarrow> act_fail e
                | Inr bytes0 \<Rightarrow>
                    (case freed of
                       Inl e \<Rightarrow> act_fail e
                     | Inr _ \<Rightarrow>
                         if isText then act_bind (act_get (\<lambda>c. lbLobText lib c bytes0 col)) act_res
                         else act_return (VBytes bytes0))))
      | _ \<Rightarrow> act_return value)"

definition parameterFieldNullLength :: "parameterMarkerField \<Rightarrow> int" where
  "parameterFieldNullLength field =
     (if pfLength field > 0 then pfLength field
      else let t = parameterFieldDB2Type field in
        if t = db2TypeBigint then 8
        else if t = db2TypeInteger then 4
        else if t = db2TypeSmallint then 2
        else if t = db2TypeBoolean then 1
        else if t = db2TypeFloatingPoint then (if pfLength field = 4 then 4 else 8)
        else if t = db2TypeDecimal then (if pfPrecision field > 0 then (pfPrecision field + 2) div 2 else 0)
        else if t = db2TypeNumeric then (if pfPrecision field > 0 then pfPrecision field else 0)
        else if t = db2TypeDecfloat then (if pfPrecision field = 34 then 16 else 8)
        else 0)"

definition isOutputParameterField :: "parameterMarkerField \<Rightarrow> bool" where
  "isOutputParameterField field \<longleftrightarrow> pfParameterType field AND 0xFF = 0xF1 \<or> pfParameterType field AND 0xFF = 0xF2"

definition parameterFieldResultLength :: "parameterMarkerField \<Rightarrow> int" where
  "parameterFieldResultLength field =
     (if isLOBParameterField field \<and> pfLOBLocator field > 0 then 4 else parameterFieldNullLength field)"

definition parameterFieldResultColumnMeta :: "parameterMarkerField \<Rightarrow> int \<Rightarrow> int \<Rightarrow> columnMeta" where
  "parameterFieldResultColumnMeta field offset len =
     (let t = parameterFieldDB2Type field;
          colType = (if pfLOBLocator field > 0 then
              (if t = db2TypeBlob then db2TypeBlobLocator
               else if t = db2TypeClob then db2TypeClobLocator
               else if t = db2TypeDbclob then db2TypeDbclobLocator
               else if t = db2TypeXML then db2TypeXMLLocator else pfSQLType field)
            else pfSQLType field) in
      zeroColumn\<lparr>cType := colType, cLength := len, cScale := pfScale field, cPrecision := pfPrecision field,
        cCCSID := pfCCSID field, cOffset := offset, cLobMaxSize := pfLOBMaxSize field\<rparr>)"

fun assignOutputs ::
    "library \<Rightarrow> go_ctx \<Rightarrow> bool list \<Rightarrow> bytes \<Rightarrow> nat \<Rightarrow> int \<Rightarrow> parameterBinding list \<Rightarrow> unit act" where
  "assignOutputs lib ctx nulls row colIndex offset [] = act_return ()"
| "assignOutputs lib ctx nulls row colIndex offset (b # bs) =
     (let len = parameterFieldResultLength (pbField b) in
      if offset + len > int (length row) then act_fail (Errorf ''output parameter row too short'' [])
      else
        act_bind
          (if \<not> pbHasOut b then act_return ()
           else
             let col = parameterFieldResultColumnMeta (pbField b) offset len in
             act_bind (if colIndex < length nulls \<and> nulls ! colIndex then act_return VNil
                       else act_bind (act_bind (act_get (\<lambda>c. lbDecode lib c col row)) act_res)
                              (resolveLobLocatorValue lib ctx col)) (\<lambda>value.
               act_res (lbAssign lib b value)))
          (\<lambda>_. assignOutputs lib ctx nulls row (Suc colIndex) (offset + len) bs))"

definition assignCallOutputParameters :: "library \<Rightarrow> go_ctx \<Rightarrow> bytes \<Rightarrow> parameterBinding list \<Rightarrow> unit act" where
  "assignCallOutputParameters lib ctx payload bindings =
     (if \<not> hasOutputBindings bindings then act_return ()
      else act_bind (act_res (parseFetchPayload payload)) (\<lambda>block.
        if fbRowCount block = 0 \<or> fbColumnCount block = 0 then act_return ()
        else
          let outputs = filter (\<lambda>b. isOutputParameterField (pbField b)) bindings in
          if fbColumnCount block \<noteq> int (length outputs) \<and> fbColumnCount block \<noteq> int (length bindings)
          then act_fail (Errorf ''unexpected output parameter column count: got %d want %d or %d''
                 [FInt (fbColumnCount block), FInt (int (length outputs)), FInt (int (length bindings))])
          else
            let taken = (if fbColumnCount block = int (length outputs) then outputs else bindings) in
            if fbRowSize block > int (length (fbData block)) then act_fail (Errorf ''output parameter row size out of range'' [])
            else assignOutputs lib ctx (fbNulls block) (take (nat (fbRowSize block)) (fbData block)) 0 0 taken))"

text \<open>Descriptors: every change is followed by a delete, whose failure is recorded as a warning.\<close>

definition recordDeleteDescriptorFailure :: "(go_error \<Rightarrow> string) \<Rightarrow> (replyEnvelope \<times> bytes) res \<Rightarrow> Conn \<Rightarrow> Conn" where
  "recordDeleteDescriptorFailure showErr r =
     (case r of
        Inl e \<Rightarrow> recordWarning [\<lparr>swCode = 0, swState = [], swMessage = ''delete descriptor request failed: '' @ showErr e\<rparr>]
      | Inr (envelope, _) \<Rightarrow>
          if hasError envelope then
            recordWarning [\<lparr>swCode = envRCCode envelope, swState = [],
              swMessage = showErr (Errorf ''delete descriptor request failed: class=%d code=0x%x''
                [FInt (uint (envRCClass envelope)), FInt (envRCCode envelope mod 2 ^ 32)])\<rparr>]
          else id)"

definition deleteDescriptor :: "(go_error \<Rightarrow> string) \<Rightarrow> go_ctx \<Rightarrow> u16 \<Rightarrow> u16 \<Rightarrow> unit act" where
  "deleteDescriptor showErr ctx statementHandle descriptorHandle =
     act_bind (act_try (doRequest ctx (buildDeleteDescriptorRequest statementHandle descriptorHandle))) (\<lambda>r.
       act_modify (recordDeleteDescriptorFailure showErr r))"

definition changeDescriptor ::
    "library \<Rightarrow> go_ctx \<Rightarrow> u16 \<Rightarrow> (replyEnvelope \<times> bytes) act \<Rightarrow> unit act" where
  "changeDescriptor lib ctx statementHandle send =
     act_bind send (\<lambda>(envelope, payload).
     act_bind (checkReply (lbTables lib) ctx statementHandle ''change descriptor'' envelope payload) (\<lambda>_.
     act_bind (sqlcaOf lib ctx statementHandle payload) (\<lambda>info.
       act_modify (recordWarning (siWarning info)))))"

definition executeStep ::
    "library \<Rightarrow> go_ctx \<Rightarrow> u16 \<Rightarrow> u16 \<Rightarrow> int \<Rightarrow> parameterMarkerFormat option \<Rightarrow> parameterBinding list \<Rightarrow> execResult act" where
  "executeStep lib ctx statementHandle descriptorHandle statementType format bindings =
     act_bind (act_get (\<lambda>c. specForExecute (cnPkg c) statementHandle)) (\<lambda>spec.
     act_bind (doStatementRequest ctx (buildExecutePreparedRequest (lbTables lib) statementHandle descriptorHandle statementType
                 format bindings spec) statementHandle) (\<lambda>(envelope, payload).
     act_bind (checkReply (lbTables lib) ctx statementHandle ''execute'' envelope payload) (\<lambda>_.
     act_bind (act_res (parseSQLCAFromPayload (lbTables lib) payload)) (\<lambda>info.
     act_bind (act_modify (recordWarning (siWarning info))) (\<lambda>_.
       if siSQLCode info < 0 then newSQLError (lbTables lib) ctx statementHandle info
       else
         act_bind (if statementType = sqlStatementTypeCall then assignCallOutputParameters lib ctx payload bindings
                   else act_return ()) (\<lambda>_.
           if siResultSetsCount info > 0 then act_fail errResultSets
           else act_return (execResultOf info)))))))"

definition execPrepared ::
    "(go_error \<Rightarrow> string) \<Rightarrow> library \<Rightarrow> go_ctx \<Rightarrow> u16 \<Rightarrow> int \<Rightarrow> parameterMarkerFormat option \<Rightarrow> namedValue list \<Rightarrow> execResult act" where
  "execPrepared showErr lib ctx statementHandle statementType format args =
     (if statementType = sqlStatementTypeSelect then act_fail (unsupported ''ExecContext cannot execute query statements'')
      else
        act_bind (act_get (\<lambda>c. bidiSettingsFromConfig (cnCfg c))) (\<lambda>bs.
        act_bind (act_res (lbBind lib format args bs)) (\<lambda>bindings.
        act_bind (syncQueryTimeoutRPB lib ctx statementHandle) (\<lambda>_.
          if bindings = [] then executeStep lib ctx statementHandle 0 statementType format bindings
          else
            act_bind (act_names nextDescriptorHandle) (\<lambda>descriptorHandle.
              act_defer
                (act_bind (changeDescriptor lib ctx statementHandle
                   (doRequest ctx (buildChangeDescriptorRequest statementHandle descriptorHandle format bindings))) (\<lambda>_.
                 act_bind (writeLOBDataRequests lib ctx bindings) (\<lambda>_.
                   executeStep lib ctx statementHandle descriptorHandle statementType format bindings)))
                (deleteDescriptor showErr ctx statementHandle descriptorHandle))))))"

definition queryPreparedWithArgs ::
    "(go_error \<Rightarrow> string) \<Rightarrow> library \<Rightarrow> go_ctx \<Rightarrow> u16 \<Rightarrow> string \<Rightarrow> parameterMarkerFormat option \<Rightarrow> namedValue list \<Rightarrow> queryRows act" where
  "queryPreparedWithArgs showErr lib ctx statementHandle stmtName format args =
     (if TrimSpace stmtName = [] then act_fail ErrBadConn
      else
        act_bind (act_get (\<lambda>c. bidiSettingsFromConfig (cnCfg c))) (\<lambda>bs.
        act_bind (act_res (lbBind lib format args bs)) (\<lambda>bindings.
          if bindings = [] then queryPrepared lib ctx statementHandle stmtName
          else
            act_bind (act_names nextDescriptorHandle) (\<lambda>descriptorHandle.
              act_defer
                (act_bind (changeDescriptor lib ctx statementHandle (cancelling False statementHandle
                   (doRequest ctx (buildChangeDescriptorRequest statementHandle descriptorHandle format bindings)))) (\<lambda>_.
                 act_bind (writeLOBDataRequests lib ctx bindings) (\<lambda>_.
                   queryRowsForStatementWithBindings lib ctx statementHandle stmtName descriptorHandle format bindings)))
                (deleteDescriptor showErr ctx statementHandle descriptorHandle)))))"

subsection \<open>Batches\<close>

definition execBlock ::
    "(go_error \<Rightarrow> string) \<Rightarrow> library \<Rightarrow> go_ctx \<Rightarrow> u16 \<Rightarrow> int \<Rightarrow> parameterMarkerFormat option \<Rightarrow> parameterBinding list list \<Rightarrow> int act" where
  "execBlock showErr lib ctx statementHandle statementType format rows =
     act_bind (act_names nextDescriptorHandle) (\<lambda>descriptorHandle.
       act_defer
         (act_bind (changeDescriptor lib ctx statementHandle
            (doRequest ctx (buildChangeDescriptorRequest statementHandle descriptorHandle format (hd rows)))) (\<lambda>_.
          act_bind (act_get (\<lambda>c. specForExecute (cnPkg c) statementHandle)) (\<lambda>spec.
          act_bind (act_res (buildBlockExecuteRequest (lbTables lib) statementHandle descriptorHandle statementType format rows spec)) (\<lambda>request.
          act_bind (doStatementRequest ctx request statementHandle) (\<lambda>(envelope, payload).
          act_bind (checkReply (lbTables lib) ctx statementHandle ''block execute'' envelope payload) (\<lambda>_.
          act_bind (act_res (parseSQLCAFromPayload (lbTables lib) payload)) (\<lambda>info.
          act_bind (act_modify (recordWarning (siWarning info))) (\<lambda>_.
            if siSQLCode info < 0 then newSQLError (lbTables lib) ctx statementHandle info
            else if siResultSetsCount info > 0 then act_fail errResultSets
            else act_return (if siUpdateCount info < 0 then 0 else siUpdateCount info)))))))))
         (deleteDescriptor showErr ctx statementHandle descriptorHandle))"

text \<open>
  The loops return the total with the error, as the source does: the rows of the blocks or
  rows before the failing one are counted.
\<close>

fun blockTotals :: "(parameterBinding list list \<Rightarrow> int act) \<Rightarrow> int \<Rightarrow> parameterBinding list list list \<Rightarrow> Conn \<Rightarrow> (int \<times> go_error option) \<times> Conn" where
  "blockTotals run tot [] c = ((tot, None), c)"
| "blockTotals run tot (b # bs) c =
     (case run b c of
        (Inl e, c1) \<Rightarrow> ((tot, Some e), c1)
      | (Inr n, c1) \<Rightarrow> blockTotals run (tot + n) bs c1)"

fun bindRows :: "(namedValue list \<Rightarrow> parameterBinding list res) \<Rightarrow> nat \<Rightarrow> namedValue list list \<Rightarrow> parameterBinding list list res" where
  "bindRows bind r [] = Inr []"
| "bindRows bind r (args # rest) =
     (case bind args of
        Inl e \<Rightarrow> Inl (Errorf ''batch row %d: %w'' [FInt (int r), FErr e])
      | Inr b \<Rightarrow> res_bind (bindRows bind (Suc r) rest) (\<lambda>bs. Inr (b # bs)))"

definition execBatchBlocks ::
    "(go_error \<Rightarrow> string) \<Rightarrow> library \<Rightarrow> go_ctx \<Rightarrow> u16 \<Rightarrow> int \<Rightarrow> parameterMarkerFormat option \<Rightarrow> namedValue list list \<Rightarrow>
     Conn \<Rightarrow> (int \<times> go_error option) \<times> Conn" where
  "execBatchBlocks showErr lib ctx statementHandle statementType format rows c =
     (case bindRows (\<lambda>args. lbBind lib format args (bidiSettingsFromConfig (cnCfg c))) 0 rows of
        Inl e \<Rightarrow> ((0, Some e), c)
      | Inr bound \<Rightarrow> blockTotals (execBlock showErr lib ctx statementHandle statementType format) 0 (batchBlocks bound 0) c)"

fun execBatchRowByRow ::
    "(namedValue list \<Rightarrow> execResult act) \<Rightarrow> nat \<Rightarrow> int \<Rightarrow> namedValue list list \<Rightarrow> Conn \<Rightarrow> (int \<times> go_error option) \<times> Conn" where
  "execBatchRowByRow run r tot [] c = ((tot, None), c)"
| "execBatchRowByRow run r tot (args # rest) c =
     (case run args c of
        (Inl e, c1) \<Rightarrow> ((tot, Some (Errorf ''batch row %d: %w'' [FInt (int r), FErr e])), c1)
      | (Inr res, c1) \<Rightarrow> execBatchRowByRow run (Suc r) (tot + erRowsAffected res) rest c1)"

definition serverVRMAtLeast :: "int \<Rightarrow> Conn \<Rightarrow> bool" where
  "serverVRMAtLeast vrm c = (case cnSystemInfo c of None \<Rightarrow> False | Some s \<Rightarrow> syVersion s \<noteq> 0 \<and> syVersion s \<ge> vrm)"

definition batchBlockable :: "Conn \<Rightarrow> string \<Rightarrow> parameterMarkerFormat option \<Rightarrow> bool" where
  "batchBlockable c query format =
     (case format of
        None \<Rightarrow> False
      | Some f \<Rightarrow>
          if \<not> cfgUseBlockUpdate (cnCfg c) \<or> pmFields f = [] then False
          else if \<not> isBlockableStatement query then False
          else if \<not> isInsertStatement query \<and> \<not> serverVRMAtLeast 0x070100 c then False
          else \<not> list_ex (\<lambda>field. isLOBParameterField field \<or> pfLOBLocator field > 0) (pmFields f))"

definition execBatchPrepared ::
    "(go_error \<Rightarrow> string) \<Rightarrow> library \<Rightarrow> go_ctx \<Rightarrow> string \<Rightarrow> u16 \<Rightarrow> int \<Rightarrow> parameterMarkerFormat option \<Rightarrow> namedValue list list res \<Rightarrow>
     Conn \<Rightarrow> (int \<times> go_error option) \<times> Conn" where
  "execBatchPrepared showErr lib ctx query statementHandle statementType format named c =
     (if statementType = sqlStatementTypeSelect then ((0, Some (unsupported ''ExecBatch cannot execute query statements'')), c)
      else case named of
        Inl e \<Rightarrow> ((0, Some e), c)
      | Inr rows \<Rightarrow>
          if \<not> batchBlockable c query format
          then execBatchRowByRow (execPrepared showErr lib ctx statementHandle statementType format) 0 0 rows c
          else execBatchBlocks showErr lib ctx statementHandle statementType format rows c)"

subsection \<open>Statements prepared for one use\<close>

definition prepareTransientStatement ::
    "(go_error \<Rightarrow> string) \<Rightarrow> library \<Rightarrow> go_ctx \<Rightarrow> string \<Rightarrow> (int \<times> u16 \<times> string \<times> parameterMarkerFormat option) act" where
  "prepareTransientStatement showErr lib ctx query =
     (let statementType = classifySQLStatement query in
      act_bind takeStatementName (\<lambda>(stmtName, statementHandle).
      act_bind (on_failure (discardStatement lib ctx stmtName statementHandle)
                  (prepareOrReuse showErr lib ctx statementHandle stmtName query)) (\<lambda>(preparedName, format).
        act_return (statementType, statementHandle, preparedName, format))))"

definition execPreparedTransient ::
    "(go_error \<Rightarrow> string) \<Rightarrow> library \<Rightarrow> go_ctx \<Rightarrow> string \<Rightarrow> namedValue list \<Rightarrow> execResult act" where
  "execPreparedTransient showErr lib ctx query args =
     act_bind (prepareTransientStatement showErr lib ctx query) (\<lambda>(statementType, statementHandle, stmtName, format).
       act_defer (execPrepared showErr lib ctx statementHandle statementType format args)
         (closePreparedStatement lib Background stmtName statementHandle))"

definition queryPreparedTransient ::
    "(go_error \<Rightarrow> string) \<Rightarrow> library \<Rightarrow> go_ctx \<Rightarrow> string \<Rightarrow> namedValue list \<Rightarrow> queryRows act" where
  "queryPreparedTransient showErr lib ctx query args =
     act_bind (prepareTransientStatement showErr lib ctx query) (\<lambda>(statementType, statementHandle, stmtName, format).
     act_bind (on_failure (act_bind (act_try (closePreparedStatement lib Background stmtName statementHandle)) (\<lambda>_. act_return ()))
                 (queryPreparedWithArgs showErr lib ctx statementHandle stmtName format args)) (\<lambda>rows.
       act_return (rows\<lparr>qrStoredProc := (statementType = sqlStatementTypeCall \<or> qrStoredProc rows), qrOwnStatement := True\<rparr>)))"

section \<open>Every operation keeps the session relations\<close>

named_theorems expects_simps \<open>which requests ask for a reply\<close>

lemmas reply_requested = expects_finish expects_empty ors_bits bit_or_iff reply_bit

lemma builders_expect [expects_simps]:
  "expects (buildDeleteRPBRequest h)" "expects (buildTestConnectionRequest)" "expects buildCommitRequest"
  "expects buildRollbackRequest" "expects (buildAutoCommitRequestLevel en lvl)" "expects (buildWriteLOBDataRequest w)"
  "expects (buildRetrieveLobDataRequest loc sz)" "expects (buildFreeLobRequest loc)"
  "expects (buildDeleteDescriptorRequest h d)" "expects (buildChangeDescriptorRequest h d format bs)"
  "\<not> expects (buildChangeRPBQueryTimeoutRequest h n)"
  by (simp_all add: builder_defs buildChangeDescriptorRequest_def buildChangeRPBQueryTimeoutRequest_def Let_def
      case_prod_beta reply_requested)

lemma builders_expect_exec [expects_simps]:
  "expects (buildExecuteCallNoParamsRequest fs h pkg)"
  "expects (buildExecutePreparedRequest fs h d ty format bs pkg)"
  by (simp_all add: buildExecuteCallNoParamsRequest_def buildExecutePreparedRequest_def Let_def case_prod_beta reply_requested)

lemma builders_expect_res [expects_simps]:
  "buildCreatePackageRequest fs n l = Inr rq \<Longrightarrow> expects rq"
  "buildReturnPackageRequest fs n l = Inr rq \<Longrightarrow> expects rq"
  "buildPrepareAndDescribeRequestCCSID fs h n q pkg cid = Inr rq \<Longrightarrow> expects rq"
  "buildFetchRequestForStatement fs h cur sz opt rel = Inr rq \<Longrightarrow> expects rq"
  "buildCloseCursorRequest fs cur re = Inr rq \<Longrightarrow> expects rq"
  "buildExecuteImmediateRequestCCSID fs q ty pkg cid = Inr rq \<Longrightarrow> expects rq"
  "buildOpenDescribePreparedRequest fs h d n cur format bs scroll hold pkg = Inr rq \<Longrightarrow> expects rq"
  "buildBlockExecuteRequest fs h d ty format rows pkg = Inr rq \<Longrightarrow> expects rq"
  by (auto simp: buildCreatePackageRequest_def buildReturnPackageRequest_def buildPrepareAndDescribeRequestCCSID_def
      buildFetchRequestForStatement_def buildCloseCursorRequest_def buildExecuteImmediateRequestCCSID_def
      buildOpenDescribePreparedRequest_def buildBlockExecuteRequest_def res_simps Let_def case_prod_beta reply_requested)

lemma builders_no_reply [expects_simps]:
  "buildCreateRPBRequest fs h n pkg = Inr rq \<Longrightarrow> \<not> expects rq"
  "buildCloseResultSetCursorRequest fs h cur re = Inr rq \<Longrightarrow> \<not> expects rq"
  by (auto simp: buildCreateRPBRequest_def buildCloseResultSetCursorRequest_def res_simps Let_def case_prod_beta
      expects_finish ors_bits bit_word_iff_drop_bit_and drop_bit_eq_div)

lemma act_try_run: "act_try m c = (Inr (fst (m c)), snd (m c))"
  by (simp add: act_try_def case_prod_beta)

lemma on_failure_Inr: "on_failure cl m c = (Inr x, d) \<Longrightarrow> m c = (Inr x, d)"
  by (cases "m c") (auto simp: on_failure_def act_bind_Inr act_try_run act_simps1 split: sum.splits)

lemma queryRequests_kinds:
  assumes "queryRequests se lib ctx h n q c = (Inr (a, b), d)"
  shows "\<not> expects a" and "expects b"
  using assms unfolding queryRequests_def
  by (auto simp: act_bind_Inr act_simps1 dest: builders_expect_res builders_no_reply)

context step_relation
begin

lemma keeps_bind_res: "(\<And>x. r = Inr x \<Longrightarrow> keeps (f x)) \<Longrightarrow> keeps (act_bind (act_res r) f)"
  by (cases r) (auto simp: keeps_def act_bind_def act_simps1 R_refl)

lemma keeps_bind_value:
  assumes "keeps m" "\<And>x c d. m c = (Inr x, d) \<Longrightarrow> keeps (f x)"
  shows "keeps (act_bind m f)"
  unfolding keeps_def
proof
  fix c
  obtain r d where m: "m c = (r, d)" by (cases "m c")
  from keepsD [OF assms(1) m] assms(2) m show "R c (snd (act_bind m f c))"
    by (cases r) (auto simp: act_bind_def keeps_def intro: R_trans)
qed

lemma keeps_prod: "(\<And>a b. x = (a, b) \<Longrightarrow> keeps (f a b)) \<Longrightarrow> keeps (case x of (a, b) \<Rightarrow> f a b)"
  by (cases x) simp

lemma keeps_sum: "(\<And>e. keeps (f e)) \<Longrightarrow> (\<And>x. keeps (g x)) \<Longrightarrow> keeps (case r of Inl e \<Rightarrow> f e | Inr x \<Rightarrow> g x)"
  by (cases r) simp_all

lemma keeps_option: "keeps f \<Longrightarrow> (\<And>x. keeps (g x)) \<Longrightarrow> keeps (case p of None \<Rightarrow> f | Some x \<Rightarrow> g x)"
  by (cases p) simp_all

lemma keeps_local:
  "keeps (takeSpecForPrepare h sql)" "keeps (act_modify (setPkg p))" "keeps (act_modify (recordWarning w))"
  "keeps (act_modify ClearWarnings)" "keeps (act_modify (\<lambda>c. c\<lparr>cnRpbTimeouts := t c\<rparr>))"
  by (auto simp: keeps_def takeSpecForPrepare_def act_simps1 setPkg_def recordWarning_def
      ClearWarnings_def same_wire_def case_prod_beta intro!: R_local)

lemmas keeps_intros = keeps_bind_res keeps_bind keeps_prod keeps_sum keeps_option keeps_if keeps_try keeps_defer
  keeps_pure keeps_local keeps_newSQLError keeps_checkReply keeps_cancel

lemma keeps_package: "keeps (packageError mode st msg)" "keeps (cachePackage se lib ctx p)"
  "keeps (packageFailure se lib ctx p env)" "keeps (ensurePackage se lib ctx)"
proof -
  show err: "keeps (packageError mode st msg)" for mode st msg
    unfolding packageError_def by (intro keeps_intros)
  show cache: "keeps (cachePackage se lib ctx p)" for p
    unfolding cachePackage_def by (intro keeps_intros keeps_requests err) (rule builders_expect_res)
  show fail: "keeps (packageFailure se lib ctx p env)" for p env
    unfolding packageFailure_def by (intro keeps_intros err cache)
  show "keeps (ensurePackage se lib ctx)"
    unfolding ensurePackage_def by (intro keeps_intros keeps_requests fail) (rule builders_expect_res)
qed

lemma keeps_syncQueryTimeout: "keeps (syncQueryTimeoutRPB lib ctx h)"
proof (rule keeps_on)
  fix c
  let ?w = "\<lambda>want. act_bind (sendRequestNoReply ctx (buildChangeRPBQueryTimeoutRequest h want)) (\<lambda>_.
      act_modify (\<lambda>c. c\<lparr>cnRpbTimeouts := (cnRpbTimeouts c)(h := Some want)\<rparr>))"
  have "keeps (?w want)" for want by (intro keeps_intros keeps_requests) (simp add: expects_simps)
  then show "\<exists>m'. keeps m' \<and> syncQueryTimeoutRPB lib ctx h c = m' c"
    by (auto simp: syncQueryTimeoutRPB_def Let_def)
qed

lemma keeps_cancelling: "keeps m \<Longrightarrow> keeps (cancelling b h m)"
  unfolding cancelling_def by (intro keeps_intros)

lemma keeps_on_failure: "keeps cleanup \<Longrightarrow> keeps m \<Longrightarrow> keeps (on_failure cleanup m)"
  unfolding on_failure_def by (intro keeps_intros)

lemma keeps_sqlcaOf: "keeps (sqlcaOf lib ctx h payload)"
  unfolding sqlcaOf_def by (intro keeps_intros)

lemma keeps_prepare: "keeps (prepareAndDescribe se lib ctx h n q)" "keeps (prepareOrReuse se lib ctx h n q)"
proof -
  show prep: "keeps (prepareAndDescribe se lib ctx h n q)"
    unfolding prepareAndDescribe_def
    by (intro keeps_intros keeps_package keeps_cancelling keeps_requests keeps_sqlcaOf)
      (auto dest: builders_expect_res builders_no_reply)
  show "keeps (prepareOrReuse se lib ctx h n q)"
    unfolding prepareOrReuse_def
    by (intro keeps_intros keeps_package prep keeps_requests) (auto dest: builders_no_reply)
qed

lemma keeps_close_cursor:
  "keeps (closeCursor lib ctx cur re)" "keeps (closeResultSetCursorNoReply lib ctx h cur re)"
  "keeps (closeInterruptedCursor lib ctx cur e)"
proof -
  show cur: "keeps (closeCursor lib ctx cur re)" for ctx cur re
    unfolding closeCursor_def by (intro keeps_intros keeps_requests) (rule builders_expect_res)
  show "keeps (closeResultSetCursorNoReply lib ctx h cur re)"
    unfolding closeResultSetCursorNoReply_def by (intro keeps_intros keeps_requests) (rule builders_no_reply)
  show "keeps (closeInterruptedCursor lib ctx cur e)"
    unfolding closeInterruptedCursor_def by (intro keeps_intros cur)
qed

text \<open>Closing a statement without giving its id back, which is the step left to the names.\<close>

lemma keeps_delete_rpb:
  "keeps (act_bind (act_get (\<lambda>c. isCachedStatementName (cnPkg c) n)) (\<lambda>shared.
     if shared then act_return ()
     else act_bind (doRequest ctx (buildDeleteRPBRequest h)) (\<lambda>(envelope, payload).
       checkReply (lbTables lib) ctx 0 ''delete RPB'' envelope payload)))"
  by (intro keeps_intros keeps_requests builders_expect)

lemma keeps_open_cursor:
  "keeps (openAndDescribe lib ctx h n cur d format bs)" "keeps (fetchRows lib ctx h cur sz opt rel)"
proof -
  show "keeps (openAndDescribe lib ctx h n cur d format bs)"
    unfolding openAndDescribe_def
    by (intro keeps_intros keeps_cancelling keeps_requests keeps_sqlcaOf keeps_syncQueryTimeout) (rule builders_expect_res)
  show "keeps (fetchRows lib ctx h cur sz opt rel)"
    unfolding fetchRows_def by (intro keeps_intros keeps_cancelling keeps_requests) (rule builders_expect_res)
qed

lemma keeps_execContext: "keeps (execContext se lib ctx q)"
  unfolding execContext_def Let_def
  by (intro keeps_intros keeps_package keeps_requests) (rule builders_expect_res)

lemma keeps_writeLOBs: "keeps (writeLOBs lib ctx ws)"
proof (induction ws)
  case (Cons w ws)
  then show ?case unfolding writeLOBs.simps writeLOBData_def
    by (intro keeps_intros keeps_requests builders_expect)
qed simp

lemma keeps_lob:
  "keeps (retrieveLobData lib ctx loc)" "keeps (freeLob lib ctx loc)" "keeps (resolveLobLocatorValue lib ctx col v)"
proof -
  show ret: "keeps (retrieveLobData lib ctx loc)" for loc
    unfolding retrieveLobData_def Let_def by (intro keeps_intros keeps_requests builders_expect)
  show free: "keeps (freeLob lib ctx loc)" for loc
    unfolding freeLob_def by (intro keeps_intros keeps_requests builders_expect)
  show "keeps (resolveLobLocatorValue lib ctx col v)"
    unfolding resolveLobLocatorValue_def Let_def
    by (cases v) (simp, intro keeps_intros | simp only: driverValue.case, intro keeps_intros ret free)+
qed

lemma keeps_assignOutputs: "keeps (assignOutputs lib ctx nulls row i off bs)"
proof (induction bs arbitrary: i off)
  case (Cons b bs)
  then show ?case unfolding assignOutputs.simps Let_def by (intro keeps_intros keeps_lob)
qed simp

lemma keeps_assignCall: "keeps (assignCallOutputParameters lib ctx payload bs)"
  unfolding assignCallOutputParameters_def Let_def by (intro keeps_intros keeps_assignOutputs)

lemma keeps_deleteDescriptor: "keeps (deleteDescriptor se ctx h d)"
proof -
  have "keeps (act_modify (recordDeleteDescriptorFailure se r))" for r
    by (rule keeps_modify)
      (auto simp: same_wire_def recordDeleteDescriptorFailure_def recordWarning_def split: sum.splits prod.splits)
  then show ?thesis unfolding deleteDescriptor_def by (intro keeps_intros keeps_requests builders_expect)
qed

lemma keeps_change: "keeps m \<Longrightarrow> keeps (changeDescriptor lib ctx h m)"
  unfolding changeDescriptor_def by (intro keeps_intros keeps_sqlcaOf)

lemma keeps_executeStep: "keeps (executeStep lib ctx h d ty format bs)"
  unfolding executeStep_def by (intro keeps_intros keeps_requests builders_expect_exec keeps_assignCall)

end

context session_relation
begin

lemma keeps_names: "keeps (act_names f)" "keeps (act_name_step g)"
  by (simp_all add: keeps_def act_names_def act_name_step_def act_simps1 case_prod_beta R_names)

lemma keeps_takeStatementName: "keeps takeStatementName"
  unfolding takeStatementName_def by (intro keeps_intros keeps_names)

lemma keeps_close: "keeps (closePreparedStatement lib ctx n h)" "keeps (discardStatement lib ctx n h)"
proof -
  show stmt: "keeps (closePreparedStatement lib ctx n h)" for ctx
    unfolding closePreparedStatement_def by (intro keeps_if keeps_defer keeps_delete_rpb keeps_pure keeps_names)
  show "keeps (discardStatement lib ctx n h)"
    unfolding discardStatement_def by (intro keeps_intros stmt)
qed

lemma keeps_open:
  "keeps (openRows gb lib ctx h n d format bs)" "keeps (queryCallRows lib ctx h n)" "keeps (queryPrepared lib ctx h n)"
proof -
  show rows: "keeps (openRows gb lib ctx h n d format bs)" for gb d format bs
    unfolding openRows_def Let_def by (intro keeps_intros keeps_names keeps_open_cursor keeps_close_cursor)
  show "keeps (queryCallRows lib ctx h n)"
    unfolding queryCallRows_def queryRowsForStatement_def
    by (intro keeps_intros keeps_requests keeps_syncQueryTimeout rows builders_expect_exec)
  show "keeps (queryPrepared lib ctx h n)"
    unfolding queryPrepared_def queryRowsForStatement_def by (intro keeps_intros rows)
qed

lemma keeps_queryContext: "keeps (queryContext se lib ctx q)"
proof -
  have reqs: "keeps (queryRequests se lib ctx h n q)" for h n
    unfolding queryRequests_def by (intro keeps_intros keeps_package)
  show ?thesis
    unfolding queryContext_def queryBody_def querySteps_def queryRowsForStatement_def Let_def
    by (intro keeps_if keeps_bind [OF keeps_takeStatementName] keeps_bind [OF keeps_local(4)] keeps_prod
        keeps_bind_value [OF keeps_on_failure [OF keeps_names(2) reqs]])
      (auto intro!: keeps_intros keeps_on_failure keeps_close keeps_open keeps_requests keeps_sqlcaOf dest!: on_failure_Inr dest: queryRequests_kinds)
qed

lemma keeps_execute:
  "keeps (execPrepared se lib ctx h ty format args)"
  "keeps (queryPreparedWithArgs se lib ctx h n format args)" "keeps (execBlock se lib ctx h ty format rows)"
proof -
  show "keeps (execPrepared se lib ctx h ty format args)"
    unfolding execPrepared_def writeLOBDataRequests_def
    by (intro keeps_intros keeps_names keeps_syncQueryTimeout keeps_executeStep keeps_change keeps_requests builders_expect
        keeps_writeLOBs keeps_deleteDescriptor)
  show "keeps (queryPreparedWithArgs se lib ctx h n format args)"
    unfolding queryPreparedWithArgs_def writeLOBDataRequests_def queryRowsForStatementWithBindings_def
    by (intro keeps_intros keeps_names keeps_change keeps_cancelling keeps_requests builders_expect keeps_writeLOBs
        keeps_deleteDescriptor keeps_open)
  show "keeps (execBlock se lib ctx h ty format rows)"
    unfolding execBlock_def
    by (intro keeps_intros keeps_names keeps_change keeps_requests builders_expect keeps_deleteDescriptor)
      (rule builders_expect_res)
qed

lemma keeps_transient:
  "keeps (prepareTransientStatement se lib ctx q)" "keeps (execPreparedTransient se lib ctx q args)"
  "keeps (queryPreparedTransient se lib ctx q args)"
proof -
  show prep: "keeps (prepareTransientStatement se lib ctx q)"
    unfolding prepareTransientStatement_def Let_def
    by (intro keeps_intros keeps_takeStatementName keeps_on_failure keeps_close keeps_prepare)
  show "keeps (execPreparedTransient se lib ctx q args)"
    unfolding execPreparedTransient_def by (intro keeps_intros prep keeps_execute keeps_close)
  show "keeps (queryPreparedTransient se lib ctx q args)"
    unfolding queryPreparedTransient_def by (intro keeps_intros prep keeps_on_failure keeps_execute keeps_close)
qed

lemma batch_keeps:
  "R c (snd (execBatchPrepared se lib ctx q h ty format named c))"
proof -
  have blocks: "(\<And>b. keeps (run b)) \<Longrightarrow> R c (snd (blockTotals run t bs c))" for run t bs c
  proof (induction bs arbitrary: t c)
    case (Cons b bs)
    obtain r d where run: "run b c = (r, d)" by (cases "run b c")
    from keepsD [OF Cons.prems run] Cons.IH [OF Cons.prems] run show ?case
      by (cases r) (auto intro: R_trans)
  qed (simp add: R_refl)
  have rows: "(\<And>a. keeps (run a)) \<Longrightarrow> R c (snd (execBatchRowByRow run i t rs c))" for run i t rs c
  proof (induction rs arbitrary: i t c)
    case (Cons a rs)
    obtain r d where run: "run a c = (r, d)" by (cases "run a c")
    from keepsD [OF Cons.prems run] Cons.IH [OF Cons.prems] run show ?case
      by (cases r) (auto intro: R_trans)
  qed (simp add: R_refl)
  show ?thesis
    by (auto simp: execBatchPrepared_def execBatchBlocks_def R_refl intro!: blocks rows keeps_execute split: sum.splits)
qed

end

end
