(* ===== verification/Cache.thy ===== *)
theory Cache
  imports Sql "HOL-Library.Multiset"
begin

text \<open>
  The statement cache of a connection (\<open>src/driver.go\<close>, \<open>cachedPreparedStatement\<close> and
  \<open>releaseCachedStatement\<close>). The source shares a statement by its pointer: the cache, the
  callers that use it and an eviction all see the same reference count. The model has a heap
  of statements; the map and the users hold addresses.

  Each section under \<open>statementCacheMu\<close> is one operation. Between the lookup and the insertion
  the lock is free, so other operations can come between: the step relation allows any
  interleaving of the sections. What the sections decide to close is returned as a list of
  addresses, in the order of the \<open>closePreparedStatement\<close> calls.
\<close>

section \<open>Definitions\<close>

record cachedStatement =
  csType :: int
  csHandle :: u16
  csName :: string
  csFormat :: "parameterMarkerFormat option"
  csRefs :: nat
  csEvicted :: bool

record statementCache =
  scHeap :: "nat \<Rightarrow> cachedStatement option"
  scNext :: nat
  scMap :: "(string \<times> nat) list"
  scOrder :: "string list"
  scNil :: bool

definition updateStatement :: "(cachedStatement \<Rightarrow> cachedStatement) \<Rightarrow> nat \<Rightarrow> statementCache \<Rightarrow> statementCache" where
  "updateStatement f i s = s\<lparr>scHeap := (scHeap s)(i := map_option f (scHeap s i))\<rparr>"

text \<open>The first section: make the map when there is none, and look the query up.\<close>

definition cacheLookup :: "string \<Rightarrow> statementCache \<Rightarrow> nat option \<times> statementCache" where
  "cacheLookup query s =
     (let s1 = (if scNil s then s\<lparr>scNil := False, scMap := []\<rparr> else s) in
      case map_of (scMap s1) query of
        Some i \<Rightarrow>
          (Some i, (updateStatement (\<lambda>cs. cs\<lparr>csRefs := Suc (csRefs cs)\<rparr>) i s1)
             \<lparr>scOrder := remove1 query (scOrder s1) @ [query]\<rparr>)
      | None \<Rightarrow> (None, s1))"

text \<open>The eviction of the oldest entry when the cache is full; the map and the order are indexed without a check.\<close>

definition evictOldest :: "int \<Rightarrow> statementCache \<Rightarrow> nat list res \<times> statementCache" where
  "evictOldest cacheSize s =
     (if int (length (scMap s)) < cacheSize then (Inr [], s)
      else case scOrder s of
        [] \<Rightarrow> (Inl (Panic ''index out of range''), s)
      | key # order \<Rightarrow>
          (case map_of (scMap s) key of
             None \<Rightarrow> (Inl (Panic ''nil pointer dereference''), s)
           | Some victim \<Rightarrow>
               (Inr (if map_option csRefs (scHeap s victim) = Some 0 then [victim] else []),
                (updateStatement (\<lambda>cs. cs\<lparr>csEvicted := True\<rparr>) victim s)
                  \<lparr>scMap := filter (\<lambda>e. fst e \<noteq> key) (scMap s), scOrder := order\<rparr>)))"

text \<open>
  The second section, with the statement that was prepared in between. The result is the
  statement to use and those to close.
\<close>

definition cacheInsert :: "int \<Rightarrow> string \<Rightarrow> cachedStatement \<Rightarrow> statementCache \<Rightarrow> (nat \<times> nat list) res \<times> statementCache" where
  "cacheInsert cacheSize query prepared s =
     (let i = scNext s;
          s1 = s\<lparr>scHeap := (scHeap s)(i := Some (prepared\<lparr>csRefs := 0, csEvicted := False\<rparr>)), scNext := Suc i\<rparr> in
      case map_of (scMap s1) query of
        Some existing \<Rightarrow>
          (Inr (existing, [i]), updateStatement (\<lambda>cs. cs\<lparr>csRefs := Suc (csRefs cs)\<rparr>) existing s1)
      | None \<Rightarrow>
          (case evictOldest cacheSize s1 of
             (Inl e, s2) \<Rightarrow> (Inl e, s2)
           | (Inr closing, s2) \<Rightarrow>
               let s3 = updateStatement (\<lambda>cs. cs\<lparr>csRefs := 1\<rparr>) i s2 in
               if scNil s3 then (Inl (Panic ''assignment to entry in nil map''), s3)
               else (Inr (i, closing), s3\<lparr>scMap := (query, i) # scMap s3, scOrder := scOrder s3 @ [query]\<rparr>)))"

definition releaseCachedStatement :: "nat \<Rightarrow> statementCache \<Rightarrow> nat list \<times> statementCache" where
  "releaseCachedStatement i s =
     (let s1 = updateStatement (\<lambda>cs. cs\<lparr>csRefs := csRefs cs - 1\<rparr>) i s in
      (case scHeap s1 i of
         Some cs \<Rightarrow> if csEvicted cs \<and> csRefs cs = 0 \<and> csName cs \<noteq> [] then [i] else []
       | None \<Rightarrow> [], s1))"

text \<open>\<open>Close\<close> of the connection drops the map and the order.\<close>

definition dropCache :: "statementCache \<Rightarrow> statementCache" where
  "dropCache s = s\<lparr>scMap := [], scOrder := [], scNil := True\<rparr>"

definition newCache :: statementCache where
  "newCache = \<lparr>scHeap = (\<lambda>_. None), scNext = 0, scMap = [], scOrder = [], scNil = False\<rparr>"

section \<open>Interleavings of the sections\<close>

text \<open>
  A state is the cache, the statements in use (with multiplicity) and the statements that
  were closed, in order. A statement is released by someone who uses it; prepared statements
  have a name.
\<close>

inductive cache_step ::
    "int \<Rightarrow> statementCache \<times> nat multiset \<times> nat list \<Rightarrow> statementCache \<times> nat multiset \<times> nat list \<Rightarrow> bool" for n where
  hit: "cacheLookup q s = (Some i, s') \<Longrightarrow> cache_step n (s, H, C) (s', add_mset i H, C)"
| miss: "cacheLookup q s = (None, s') \<Longrightarrow> cache_step n (s, H, C) (s', H, C)"
| insert: "csName cs \<noteq> [] \<Longrightarrow> cacheInsert n q cs s = (Inr (i, cl), s') \<Longrightarrow> cache_step n (s, H, C) (s', add_mset i H, C @ cl)"
| release: "i \<in># H \<Longrightarrow> releaseCachedStatement i s = (cl, s') \<Longrightarrow> cache_step n (s, H, C) (s', H - {#i#}, C @ cl)"
| drop: "cache_step n (s, H, C) (dropCache s, H, C)"

inductive_simps cache_step_simps: "cache_step n (s, H, C) (s', H', C')"

definition heap_ok :: "statementCache \<Rightarrow> nat multiset \<Rightarrow> bool" where
  "heap_ok s H \<longleftrightarrow> (\<forall>i. scHeap s i \<noteq> None \<longleftrightarrow> i < scNext s) \<and>
     (\<forall>i cs. scHeap s i = Some cs \<longrightarrow> csRefs cs = count H i \<and> csName cs \<noteq> []) \<and> set_mset H \<subseteq> {..<scNext s}"

definition map_ok :: "int \<Rightarrow> statementCache \<Rightarrow> bool" where
  "map_ok n s \<longleftrightarrow> distinct (map fst (scMap s)) \<and> distinct (map snd (scMap s)) \<and> distinct (scOrder s) \<and>
     set (scOrder s) = fst ` set (scMap s) \<and> int (length (scMap s)) \<le> n \<and> (scNil s \<longrightarrow> scMap s = []) \<and>
     (\<forall>i\<in>snd ` set (scMap s). \<exists>cs. scHeap s i = Some cs \<and> \<not> csEvicted cs)"

definition closed_ok :: "statementCache \<Rightarrow> nat multiset \<Rightarrow> nat list \<Rightarrow> bool" where
  "closed_ok s H C \<longleftrightarrow> distinct C \<and> (\<forall>i\<in>set C. i < scNext s \<and> i \<notin># H \<and> i \<notin> snd ` set (scMap s)) \<and>
     (\<forall>i cs. scHeap s i = Some cs \<longrightarrow> csEvicted cs \<longrightarrow> csRefs cs = 0 \<longrightarrow> i \<in> set C)"

definition cache_inv :: "int \<Rightarrow> statementCache \<times> nat multiset \<times> nat list \<Rightarrow> bool" where
  "cache_inv n = (\<lambda>(s, H, C). heap_ok s H \<and> map_ok n s \<and> closed_ok s H C)"

lemma cache_inv_new: "0 < n \<Longrightarrow> cache_inv n (newCache, {#}, [])"
  by (simp add: cache_inv_def heap_ok_def map_ok_def closed_ok_def newCache_def)

lemma cache_inv_drop: "cache_inv n (s, H, C) \<Longrightarrow> 0 < n \<Longrightarrow> cache_inv n (dropCache s, H, C)"
  by (auto simp: cache_inv_def heap_ok_def map_ok_def closed_ok_def dropCache_def)

lemma cached_allocated:
  assumes "cache_inv n (s, H, C)" "i \<in> snd ` set (scMap s)"
  shows "i < scNext s"
proof -
  from assms have "scHeap s i \<noteq> None" by (auto simp: cache_inv_def map_ok_def)
  with assms show ?thesis by (auto simp: cache_inv_def heap_ok_def)
qed

lemma map_of_cached: "map_of (scMap s) q = Some i \<Longrightarrow> i \<in> snd ` set (scMap s)"
  by (drule map_of_SomeD) force

lemma cache_inv_use:
  assumes "cache_inv n (s, H, C)" "i \<in> snd ` set (scMap s)"
  shows "cache_inv n (updateStatement (\<lambda>cs. cs\<lparr>csRefs := Suc (csRefs cs)\<rparr>) i s, add_mset i H, C)"
  using assms cached_allocated [OF assms]
  by (auto simp: cache_inv_def heap_ok_def map_ok_def closed_ok_def updateStatement_def split: if_splits)

lemma cache_inv_order:
  assumes "cache_inv n (s, H, C)" "q \<in> set (scOrder s)"
  shows "cache_inv n (s\<lparr>scOrder := remove1 q (scOrder s) @ [q]\<rparr>, H, C)"
  using assms by (auto simp: cache_inv_def heap_ok_def map_ok_def closed_ok_def)

lemma cache_inv_lookup:
  assumes "cache_inv n (s, H, C)" "cacheLookup q s = (r, s')"
  shows "cache_inv n (s', (case r of None \<Rightarrow> H | Some i \<Rightarrow> add_mset i H), C)"
proof -
  let ?s = "if scNil s then s\<lparr>scNil := False, scMap := []\<rparr> else s"
  have inv: "cache_inv n (?s, H, C)"
    using assms(1) by (auto simp: cache_inv_def heap_ok_def map_ok_def closed_ok_def)
  show ?thesis
  proof (cases "map_of (scMap ?s) q")
    case None
    with inv assms(2) show ?thesis by (auto simp: cacheLookup_def Let_def)
  next
    case (Some i)
    let ?u = "updateStatement (\<lambda>cs. cs\<lparr>csRefs := Suc (csRefs cs)\<rparr>) i ?s"
    from map_of_SomeD [OF Some] have q: "q \<in> fst ` set (scMap ?s)" by force
    from cache_inv_use [OF inv map_of_cached [OF Some]] have "cache_inv n (?u, add_mset i H, C)" .
    moreover from this q have "q \<in> set (scOrder ?u)"
      by (simp add: cache_inv_def map_ok_def updateStatement_def)
    ultimately have "cache_inv n (?u\<lparr>scOrder := remove1 q (scOrder ?u) @ [q]\<rparr>, add_mset i H, C)"
      by (rule cache_inv_order)
    moreover have "cacheLookup q s = (Some i, ?u\<lparr>scOrder := remove1 q (scOrder ?u) @ [q]\<rparr>)"
      using Some by (simp add: cacheLookup_def Let_def updateStatement_def)
    ultimately show ?thesis using assms(2) by auto
  qed
qed

text \<open>A new statement on the heap, used by nobody yet.\<close>

definition allocated :: "cachedStatement \<Rightarrow> statementCache \<Rightarrow> statementCache" where
  "allocated cs s = s\<lparr>scHeap := (scHeap s)(scNext s := Some (cs\<lparr>csRefs := 0, csEvicted := False\<rparr>)), scNext := Suc (scNext s)\<rparr>"

lemma cache_inv_allocated:
  assumes "cache_inv n (s, H, C)" "csName cs \<noteq> []"
  shows "cache_inv n (allocated cs s, H, C)" "scNext s \<notin># H" "scNext s \<notin> snd ` set (scMap s)" "scNext s \<notin> set C"
proof -
  have m: "i \<in> snd ` set (scMap s) \<Longrightarrow> i \<noteq> scNext s" for i using cached_allocated [OF assms(1)] by (metis less_irrefl)
  then show "scNext s \<notin> snd ` set (scMap s)" by blast
  show H: "scNext s \<notin># H" "scNext s \<notin> set C"
    using assms(1) by (auto simp: cache_inv_def heap_ok_def closed_ok_def)
  have "heap_ok (allocated cs s) H"
    using assms H(1) by (auto simp: cache_inv_def heap_ok_def allocated_def not_in_iff less_Suc_eq)
  moreover have "map_ok n (allocated cs s)"
    using assms(1) m by (auto simp: cache_inv_def map_ok_def allocated_def)
  moreover have "closed_ok (allocated cs s) H C"
    using assms(1) by (auto simp: cache_inv_def closed_ok_def allocated_def)
  ultimately show "cache_inv n (allocated cs s, H, C)" by (simp add: cache_inv_def)
qed

lemma cache_inv_close:
  assumes "cache_inv n (s, H, C)" "i < scNext s" "i \<notin># H" "i \<notin> snd ` set (scMap s)" "i \<notin> set C"
  shows "cache_inv n (s, H, C @ [i])"
  using assms by (auto simp: cache_inv_def closed_ok_def)

lemma filter_key:
  assumes "distinct (map fst xs)" "key \<in> fst ` set xs"
  shows "Suc (length (filter (\<lambda>e. fst e \<noteq> key) xs)) = length xs"
  using assms
proof (induction xs)
  case (Cons x xs)
  show ?case
  proof (cases "fst x = key")
    case True
    have "fst e \<noteq> key" if "e \<in> set xs" for e using that True Cons.prems(1) by (metis distinct.simps(2) image_eqI list.simps(9) set_map)
    then have "filter (\<lambda>e. fst e \<noteq> key) xs = xs" by (simp add: filter_id_conv)
    with True show ?thesis by simp
  next
    case False
    with Cons show ?thesis by auto
  qed
qed simp

lemma evicted_entry:
  assumes "map_ok n s" "scOrder s = key # order" "0 < n"
  obtains v where "map_of (scMap s) key = Some v" "v \<in> snd ` set (scMap s)"
    "v \<notin> snd ` set (filter (\<lambda>e. fst e \<noteq> key) (scMap s))"
    "map_ok n (s\<lparr>scMap := filter (\<lambda>e. fst e \<noteq> key) (scMap s), scOrder := order\<rparr>)"
    "int (length (filter (\<lambda>e. fst e \<noteq> key) (scMap s))) < n"
proof -
  let ?m = "filter (\<lambda>e. fst e \<noteq> key) (scMap s)"
  have d: "distinct (map fst (scMap s))" "inj_on snd (set (scMap s))" "distinct (map snd (scMap s))"
    using assms(1) by (auto simp: map_ok_def distinct_map)
  have k: "key \<in> fst ` set (scMap s)" and ord: "set order = fst ` set (scMap s) - {key}" "distinct order"
    using assms(1,2) by (auto simp: map_ok_def)
  from k obtain v where v: "map_of (scMap s) key = Some v" by (metis map_of_eq_None_iff option.exhaust)
  have "v \<notin> snd ` set ?m"
  proof
    assume "v \<in> snd ` set ?m"
    then obtain k' where "(k', v) \<in> set (scMap s)" "k' \<noteq> key" by auto
    with inj_onD [OF d(2), of "(k', v)" "(key, v)"] map_of_SomeD [OF v] show False by simp
  qed
  moreover have "int (length ?m) < n"
    using filter_key [OF d(1) k] assms(1) by (simp add: map_ok_def)
  moreover have "map_ok n (s\<lparr>scMap := ?m, scOrder := order\<rparr>)"
    using assms(1) ord filter_key [OF d(1) k] by (auto simp: map_ok_def distinct_map_filter)
  ultimately show thesis using that v map_of_cached [OF v] by blast
qed

lemma cache_inv_evict_entry:
  assumes "cache_inv n (s, H, C)" "v \<in> snd ` set (scMap s)" "v \<notin> snd ` set m" "set m \<subseteq> set (scMap s)"
    and "map_ok n (s\<lparr>scMap := m, scOrder := order\<rparr>)"
  shows "cache_inv n ((updateStatement (\<lambda>cs. cs\<lparr>csEvicted := True\<rparr>) v s)\<lparr>scMap := m, scOrder := order\<rparr>, H,
      C @ (if map_option csRefs (scHeap s v) = Some 0 then [v] else []))"
    (is "cache_inv n (?t, H, C @ ?cl)")
proof -
  obtain cs where cs: "scHeap s v = Some cs" using assms(1,2) by (auto simp: cache_inv_def map_ok_def)
  have refs: "csRefs cs = count H v" using assms(1) cs by (auto simp: cache_inv_def heap_ok_def)
  have v: "v < scNext s" "v \<notin> set C" using cached_allocated [OF assms(1,2)] assms(1,2) by (auto simp: cache_inv_def closed_ok_def)
  have "heap_ok ?t H" using assms(1) cs by (auto simp: cache_inv_def heap_ok_def updateStatement_def)
  moreover have "map_ok n ?t" using assms(5,3) by (auto simp: map_ok_def updateStatement_def)
  moreover have "closed_ok ?t H (C @ ?cl)"
  proof -
    have c: "closed_ok s H C" using assms(1) by (simp add: cache_inv_def)
    have cl: "?cl = (if count H v = 0 then [v] else [])" using cs refs by simp
    have sub: "snd ` set m \<subseteq> snd ` set (scMap s)" using assms(4) by blast
    have "distinct (C @ ?cl)" using c v(2) unfolding cl by (auto simp: closed_ok_def)
    moreover have "\<forall>i\<in>set (C @ ?cl). i < scNext s \<and> i \<notin># H \<and> i \<notin> snd ` set m"
      using c sub v(1) assms(3) unfolding cl by (auto simp: closed_ok_def not_in_iff split: if_splits)
    moreover have "i \<in> set (C @ ?cl)" if "scHeap ?t i = Some cs'" "csEvicted cs'" "csRefs cs' = 0" for i cs'
      using c that cs refs unfolding cl by (auto simp: closed_ok_def updateStatement_def split: if_splits)
    ultimately show ?thesis by (simp add: closed_ok_def updateStatement_def)
  qed
  ultimately show ?thesis by (simp add: cache_inv_def)
qed

text \<open>Evicting the oldest entry keeps everything and leaves room for one more.\<close>

lemma cache_inv_evict:
  assumes "cache_inv n (s, H, C)" "0 < n" "evictOldest n s = (r, s')"
  obtains cl where "r = Inr cl" "cache_inv n (s', H, C @ cl)" "int (length (scMap s')) < n"
    "scNext s' = scNext s" "scNil s' = scNil s" "set (scMap s') \<subseteq> set (scMap s)"
    "\<And>i. i \<notin> snd ` set (scMap s) \<Longrightarrow> scHeap s' i = scHeap s i" "set cl \<subseteq> snd ` set (scMap s)"
proof (cases "int (length (scMap s)) < n")
  case True
  with assms that show ?thesis by (auto simp: evictOldest_def)
next
  case False
  have ok: "map_ok n s" using assms(1) by (simp add: cache_inv_def)
  with False assms(2) have "scMap s \<noteq> []" "set (scOrder s) = fst ` set (scMap s)" by (auto simp: map_ok_def)
  then obtain key order where o: "scOrder s = key # order" by (cases "scOrder s") auto
  obtain v where v: "map_of (scMap s) key = Some v" "v \<in> snd ` set (scMap s)"
    "v \<notin> snd ` set (filter (\<lambda>e. fst e \<noteq> key) (scMap s))"
    "map_ok n (s\<lparr>scMap := filter (\<lambda>e. fst e \<noteq> key) (scMap s), scOrder := order\<rparr>)"
    "int (length (filter (\<lambda>e. fst e \<noteq> key) (scMap s))) < n"
    using evicted_entry [OF ok o assms(2)] by blast
  let ?cl = "if map_option csRefs (scHeap s v) = Some 0 then [v] else []"
  let ?t = "(updateStatement (\<lambda>cs. cs\<lparr>csEvicted := True\<rparr>) v s)\<lparr>scMap := filter (\<lambda>e. fst e \<noteq> key) (scMap s), scOrder := order\<rparr>"
  have r: "r = Inr ?cl" "s' = ?t" using False o v(1) assms(3) by (auto simp: evictOldest_def)
  show ?thesis
  proof (rule that)
    show "r = Inr ?cl" by (rule r)
    show "cache_inv n (s', H, C @ ?cl)" unfolding r(2) by (rule cache_inv_evict_entry [OF assms(1) v(2,3) _ v(4)]) auto
    show "int (length (scMap s')) < n" "scNext s' = scNext s" "scNil s' = scNil s" "set (scMap s') \<subseteq> set (scMap s)"
      using v(5) by (auto simp: r(2) updateStatement_def)
    show "scHeap s' i = scHeap s i" if "i \<notin> snd ` set (scMap s)" for i
      using that v(2) by (auto simp: r(2) updateStatement_def)
    show "set ?cl \<subseteq> snd ` set (scMap s)" using v(2) by auto
  qed
qed

lemma cache_inv_publish:
  assumes "cache_inv n (s, H, C)" "scHeap s i = Some cs'" "i \<notin> snd ` set (scMap s)" "i \<notin> set C" "q \<notin> fst ` set (scMap s)"
    and "i < scNext s" "i \<notin># H" "int (length (scMap s)) < n" "\<not> scNil s" "\<not> csEvicted cs'"
  shows "cache_inv n ((updateStatement (\<lambda>cs. cs\<lparr>csRefs := 1\<rparr>) i s)\<lparr>scMap := (q, i) # scMap s, scOrder := scOrder s @ [q]\<rparr>,
      add_mset i H, C)" (is "cache_inv n (?t, ?H, C)")
proof -
  have "count H i = 0" using assms(7) by (simp add: not_in_iff)
  then have "heap_ok ?t ?H" using assms(1,2,6) by (auto simp: cache_inv_def heap_ok_def updateStatement_def)
  moreover have "map_ok n ?t" using assms by (auto simp: cache_inv_def map_ok_def updateStatement_def)
  moreover have "closed_ok ?t ?H C" using assms(1-4,10) by (auto simp: cache_inv_def closed_ok_def updateStatement_def)
  ultimately show ?thesis by (simp add: cache_inv_def)
qed

lemma cache_inv_insert:
  assumes "cache_inv n (s, H, C)" "0 < n" "csName cs \<noteq> []" "cacheInsert n q cs s = (r, s')"
  shows "case r of Inr (i, cl) \<Rightarrow> cache_inv n (s', add_mset i H, C @ cl) | Inl e \<Rightarrow> scNil s"
proof -
  let ?i = "scNext s" and ?s = "allocated cs s"
  note al = cache_inv_allocated [OF assms(1,3)]
  have s1: "s\<lparr>scHeap := (scHeap s)(?i := Some (cs\<lparr>csRefs := 0, csEvicted := False\<rparr>)), scNext := Suc ?i\<rparr> = ?s"
    and m: "scMap ?s = scMap s" by (simp_all add: allocated_def)
  show ?thesis
  proof (cases "map_of (scMap s) q")
    case (Some j)
    then have j: "j \<in> snd ` set (scMap ?s)" using map_of_cached m by simp
    let ?u = "updateStatement (\<lambda>cs. cs\<lparr>csRefs := Suc (csRefs cs)\<rparr>) j ?s"
    have "cache_inv n (?u, add_mset j H, C)" by (rule cache_inv_use [OF al(1) j])
    moreover have "?i \<noteq> j" using al(3) j m by auto
    ultimately have "cache_inv n (?u, add_mset j H, C @ [?i])"
      using al(2-4) m by (intro cache_inv_close) (auto simp: updateStatement_def allocated_def)
    with assms(4) Some show ?thesis unfolding cacheInsert_def Let_def s1 m by auto
  next
    case None
    obtain r2 s2 where ev: "evictOldest n ?s = (r2, s2)" by (metis surj_pair)
    obtain cl where cl: "r2 = Inr cl" "cache_inv n (s2, H, C @ cl)" "int (length (scMap s2)) < n"
      "scNext s2 = scNext ?s" "scNil s2 = scNil ?s" "set (scMap s2) \<subseteq> set (scMap ?s)"
      "\<And>i. i \<notin> snd ` set (scMap ?s) \<Longrightarrow> scHeap s2 i = scHeap ?s i" "set cl \<subseteq> snd ` set (scMap ?s)"
      using cache_inv_evict [OF al(1) assms(2) ev] by blast
    have heap: "scHeap s2 ?i = Some (cs\<lparr>csRefs := 0, csEvicted := False\<rparr>)"
      using cl(7) [of ?i] al(3) m by (simp add: allocated_def)
    have fresh: "?i \<notin> snd ` set (scMap s2)" "?i \<notin> set (C @ cl)" "q \<notin> fst ` set (scMap s2)" "?i < scNext s2"
      using al(3,4) cl(4,6,8) m None by (auto simp: allocated_def map_of_eq_None_iff)
    from cache_inv_publish [OF cl(2) heap fresh al(2) cl(3)] show ?thesis
      using assms(4) None ev cl(1,5) unfolding cacheInsert_def Let_def s1 m
      by (auto simp: updateStatement_def allocated_def split: if_splits)
  qed
qed

lemma cache_inv_release:
  assumes "cache_inv n (s, H, C)" "i \<in># H" "releaseCachedStatement i s = (cl, s')"
  shows "cache_inv n (s', H - {#i#}, C @ cl)"
proof -
  have i: "i < scNext s" "i \<notin> set C" using assms(1,2) by (auto simp: cache_inv_def heap_ok_def closed_ok_def)
  then obtain cs where cs: "scHeap s i = Some cs" using assms(1) by (fastforce simp: cache_inv_def heap_ok_def)
  have refs: "csRefs cs = count H i" "csName cs \<noteq> []" using assms(1) cs by (auto simp: cache_inv_def heap_ok_def)
  have s': "s' = updateStatement (\<lambda>cs. cs\<lparr>csRefs := csRefs cs - 1\<rparr>) i s"
    and cl: "cl = (if csEvicted cs \<and> count H i - 1 = 0 then [i] else [])"
    using assms(3) cs refs by (auto simp: releaseCachedStatement_def Let_def updateStatement_def)
  have "heap_ok s' (H - {#i#})"
    using assms(1) cs refs s' by (auto simp: cache_inv_def heap_ok_def updateStatement_def dest: in_diffD)
  moreover have "map_ok n s'" using assms(1) s' by (auto simp: cache_inv_def map_ok_def updateStatement_def)
  moreover have "closed_ok s' (H - {#i#}) (C @ cl)"
  proof -
    have c: "closed_ok s H C" using assms(1) by (simp add: cache_inv_def)
    have ev: "csEvicted cs \<Longrightarrow> i \<notin> snd ` set (scMap s)" using assms(1) cs by (auto simp: cache_inv_def map_ok_def)
    have m: "scMap s' = scMap s" "scNext s' = scNext s" by (simp_all add: s' updateStatement_def)
    have "distinct (C @ cl)" using c i(2) unfolding cl by (auto simp: closed_ok_def)
    moreover have "j < scNext s \<and> j \<notin># H - {#i#} \<and> j \<notin> snd ` set (scMap s)" if "j \<in> set (C @ cl)" for j
    proof (cases "j \<in> set C")
      case True
      with c show ?thesis by (auto simp: closed_ok_def dest: in_diffD)
    next
      case False
      with that cl ev i(1) show ?thesis by (auto simp: not_in_iff split: if_splits)
    qed
    moreover have "j \<in> set (C @ cl)" if "scHeap s' j = Some cs'" "csEvicted cs'" "csRefs cs' = 0" for j cs'
    proof (cases "j = i")
      case True
      with that cs refs(1) show ?thesis by (auto simp: cl s' updateStatement_def)
    next
      case False
      with that c show ?thesis by (auto simp: closed_ok_def s' updateStatement_def)
    qed
    ultimately show ?thesis by (simp add: closed_ok_def m)
  qed
  ultimately show ?thesis by (simp add: cache_inv_def)
qed

lemma cache_inv_step:
  assumes "cache_step n (s, H, C) (s', H', C')" "cache_inv n (s, H, C)" "0 < n"
  shows "cache_inv n (s', H', C')"
  using assms(1)
proof (cases rule: cache_step.cases)
  case (hit q i)
  with cache_inv_lookup [OF assms(2), of q] show ?thesis by auto
next
  case (miss q)
  with cache_inv_lookup [OF assms(2), of q] show ?thesis by auto
next
  case (insert cs q i cl)
  with cache_inv_insert [OF assms(2,3), of cs q] show ?thesis by auto
next
  case (release i cl)
  with cache_inv_release [OF assms(2), of i] show ?thesis by auto
next
  case drop
  with cache_inv_drop [OF assms(2,3)] show ?thesis by auto
qed

lemma cache_inv_reachable:
  assumes "(cache_step n)\<^sup>*\<^sup>* (newCache, {#}, []) z" "0 < n"
  shows "cache_inv n z"
  using assms(1)
proof (induction rule: rtranclp_induct)
  case base
  then show ?case by (rule cache_inv_new [OF assms(2)])
next
  case (step y z)
  obtain s H C s' H' C' where "y = (s, H, C)" "z = (s', H', C')" by (metis prod_cases3)
  with step cache_inv_step assms(2) show ?case by blast
qed

text \<open>
  C5. The statement cache never closes a statement somebody uses and never closes one
  twice, in any interleaving of lookups, insertions, releases and a close of the
  connection: a closed statement is not in the cache and not in use. An evicted statement
  whose last user has released it has been closed, the reference count of a statement is the
  number of its users, and the cache holds at most the configured number of statements.
\<close>

theorem cache_statements_safe:
  assumes "(cache_step n)\<^sup>*\<^sup>* (newCache, {#}, []) (s, H, C)" "0 < n"
  shows "distinct C \<and> (\<forall>i\<in>set C. i \<notin># H \<and> i \<notin> snd ` set (scMap s)) \<and>
    (\<forall>i cs. scHeap s i = Some cs \<longrightarrow> csRefs cs = count H i \<and> (csEvicted cs \<and> i \<notin># H \<longrightarrow> i \<in> set C)) \<and>
    int (length (scMap s)) \<le> n"
proof -
  have inv: "heap_ok s H" "map_ok n s" "closed_ok s H C"
    using cache_inv_reachable [OF assms] by (simp_all add: cache_inv_def)
  have "csRefs cs = count H i" if "scHeap s i = Some cs" for i cs
    using inv(1) that unfolding heap_ok_def by blast
  moreover have "i \<in> set C" if "scHeap s i = Some cs" "csEvicted cs" "csRefs cs = 0" for i cs
    using inv(3) that unfolding closed_ok_def by blast
  moreover have "distinct C" "\<forall>i\<in>set C. i \<notin># H \<and> i \<notin> snd ` set (scMap s)" "int (length (scMap s)) \<le> n"
    using inv(2,3) unfolding closed_ok_def map_ok_def by blast+
  ultimately show ?thesis unfolding not_in_iff by metis
qed

definition exampleStatement :: cachedStatement where
  "exampleStatement = \<lparr>csType = 1, csHandle = 1, csName = ''STMT0001'', csFormat = None, csRefs = 0, csEvicted = False\<rparr>"

text \<open>A cache of one statement: one query is inserted, another one evicts it while it is used, then it is released.\<close>

theorem cache_statements_safe_witness:
  "\<exists>s. (cache_step 1)\<^sup>*\<^sup>* (newCache, {#}, []) (s, {#1#}, [0]) \<and> int (length (scMap s)) \<le> 1"
proof -
  let ?i1 = "cacheInsert 1 ''A'' exampleStatement newCache"
  let ?s1 = "snd ?i1"
  let ?i2 = "cacheInsert 1 ''B'' exampleStatement ?s1"
  let ?s2 = "snd ?i2"
  let ?s3 = "snd (releaseCachedStatement 0 ?s2)"
  have n: "csName exampleStatement \<noteq> []" by (simp add: exampleStatement_def)
  have "fst ?i1 = Inr (0, [])" "fst ?i2 = Inr (1, [])" "fst (releaseCachedStatement 0 ?s2) = [0]" by code_simp+
  then have 1: "?i1 = (Inr (0, []), ?s1)" and 2: "?i2 = (Inr (1, []), ?s2)" and 3: "releaseCachedStatement 0 ?s2 = ([0], ?s3)"
    by (simp_all add: prod_eq_iff)
  have "cache_step 1 (newCache, {#}, []) (?s1, {#0#}, [])" using cache_step.insert [OF n 1, of "{#}" "[]"] by simp
  moreover have "cache_step 1 (?s1, {#0#}, []) (?s2, {#1, 0#}, [])" using cache_step.insert [OF n 2, of "{#0#}" "[]"] by simp
  moreover have "cache_step 1 (?s2, {#1, 0#}, []) (?s3, {#1#}, [0])"
    using cache_step.release [OF _ 3, of "{#1, 0#}" 1 "[]"] by simp
  ultimately have run: "(cache_step 1)\<^sup>*\<^sup>* (newCache, {#}, []) (?s3, {#1#}, [0])"
    by (meson rtranclp.rtrancl_into_rtrancl rtranclp.rtrancl_refl)
  with cache_statements_safe [OF run] show ?thesis by auto
qed

text \<open>
  Inserting into the cache never fails in a reachable state, in particular the eviction
  finds the oldest entry; the one exception is a connection that was closed after the
  lookup, whose map is nil: then the insertion panics.
\<close>

theorem cache_insert_total:
  assumes "(cache_step n)\<^sup>*\<^sup>* (newCache, {#}, []) (s, H, C)" "0 < n" "csName cs \<noteq> []"
  shows "(\<exists>i cl s'. cacheInsert n q cs s = (Inr (i, cl), s') \<and> \<not> scNil s) \<or>
    (\<exists>s'. cacheInsert n q cs s = (Inl (Panic ''assignment to entry in nil map''), s') \<and> scNil s)"
proof -
  obtain r s' where r: "cacheInsert n q cs s = (r, s')" by (metis surj_pair)
  have inv: "cache_inv n (s, H, C)" by (rule cache_inv_reachable [OF assms(1,2)])
  show ?thesis
  proof (cases "scNil s")
    case True
    then have "scMap s = []" using inv by (simp add: cache_inv_def map_ok_def)
    with True assms(2) show ?thesis by (simp add: cacheInsert_def Let_def evictOldest_def updateStatement_def)
  next
    case False
    with cache_inv_insert [OF inv assms(2,3) r] r show ?thesis by (cases r) auto
  qed
qed

theorem cache_insert_total_witness:
  "\<exists>s'. cacheInsert 1 ''A'' exampleStatement (dropCache newCache) = (Inl (Panic ''assignment to entry in nil map''), s')"
proof -
  have run: "(cache_step 1)\<^sup>*\<^sup>* (newCache, {#}, []) (dropCache newCache, {#}, [])" by (rule r_into_rtranclp) (rule cache_step.drop)
  have "csName exampleStatement \<noteq> []" by (simp add: exampleStatement_def)
  from cache_insert_total [OF run _ this, of "''A''"] show ?thesis by (auto simp: dropCache_def)
qed

end
