(* ===== verification/Rows.thy ===== *)
theory Rows
  imports Sql
begin

text \<open>
  The rows of a query (\<open>queryRows\<close> of \<open>src/sql.go\<close>): reading row by row across fetched blocks,
  scrolling, moving to the next result set, and closing. An operation takes the rows and
  the connection and returns both. \<open>Next\<close> is a loop that fetches until it has a row or the
  result set is done; it is a partial function, and its value is shown to be always defined.
\<close>

section \<open>Definitions\<close>

type_synonym 'a rows_result = "'a res \<times> queryRows \<times> Conn"

text \<open>Without a row: the result set is done, and the rows close themselves after the last one.\<close>

definition lastResultSet :: "queryRows \<Rightarrow> bool" where
  "lastResultSet r \<longleftrightarrow> qrResultSetCount r \<le> 0 \<or> qrResultSetIndex r \<ge> qrResultSetCount r"

definition rowsCloseCursor :: "library \<Rightarrow> queryRows \<Rightarrow> go_ctx \<Rightarrow> unit act" where
  "rowsCloseCursor lib r ctx =
     (if qrServerClosed r then act_return ()
      else if qrEndOfData r \<and> TrimSpace (qrCursorName r) \<noteq> []
      then closeResultSetCursorNoReply lib ctx (qrStatementHandle r) (qrCursorName r) 0xF1
      else closeCursor lib ctx (qrCursorName r) 0xF1)"

definition rowsClose :: "library \<Rightarrow> queryRows \<Rightarrow> Conn \<Rightarrow> unit rows_result" where
  "rowsClose lib r c =
     (if qrClosed r then (Inr (), r, c)
      else
        let ctx = cleanupContext (qrCtx r) c;
            (closeErr, c1) = rowsCloseCursor lib r ctx c;
            c2 = (if qrOwnStatement r \<and> TrimSpace (qrStatementName r) \<noteq> []
                  then snd (closePreparedStatement lib ctx (qrStatementName r) (qrStatementHandle r) c1) else c1);
            r1 = r\<lparr>qrClosed := True, qrReleased := (if qrReleaseStmt r then Suc (qrReleased r) else qrReleased r),
                   qrReleaseStmt := False\<rparr>;
            c3 = (if qrDefaultCursor r then c2\<lparr>cnNames := releaseDefaultCursor (qrStatementHandle r) (cnNames c2)\<rparr> else c2) in
        (closeErr, r1, c3))"

definition endResultSet :: "library \<Rightarrow> queryRows \<Rightarrow> Conn \<Rightarrow> 'a rows_result" where
  "endResultSet lib r c =
     (let r1 = r\<lparr>qrResultSetDone := True\<rparr> in
      if lastResultSet r then (case rowsClose lib r1 c of (_, r2, c2) \<Rightarrow> (Inl EOF, r2, c2))
      else (Inl EOF, r1, c))"

text \<open>An error closes the rows; a panic unwinds through the caller without closing them.\<close>

definition failRows :: "library \<Rightarrow> go_error \<Rightarrow> queryRows \<Rightarrow> Conn \<Rightarrow> 'a rows_result" where
  "failRows lib e r c =
     (case e of
        Panic _ \<Rightarrow> (Inl e, r, c)
      | _ \<Rightarrow> (case rowsClose lib r c of (_, r2, c2) \<Rightarrow> (Inl e, r2, c2)))"

text \<open>\<open>decode\<close> is the decoding of a column under the date settings of the result set.\<close>

fun decodeColumns ::
    "(columnMeta \<Rightarrow> bytes \<Rightarrow> driverValue res) \<Rightarrow> library \<Rightarrow> go_ctx \<Rightarrow> bool list \<Rightarrow> int \<Rightarrow> bytes \<Rightarrow> columnMeta list \<Rightarrow> driverValue list act" where
  "decodeColumns decode lib ctx nulls k row [] = act_return []"
| "decodeColumns decode lib ctx nulls k row (col # cols) =
     act_bind (act_res (if k < 0 \<or> k \<ge> int (length nulls) then Inl (Panic ''index out of range'') else Inr (nulls ! nat k))) (\<lambda>isNull.
     act_bind (if isNull then act_return VNil
               else act_bind (act_res (decode col row)) (resolveLobLocatorValue lib ctx col)) (\<lambda>v.
     act_bind (decodeColumns decode lib ctx nulls (k + 1) row cols) (\<lambda>vs. act_return (v # vs))))"

definition decodeCurrentRow ::
    "(columnMeta \<Rightarrow> bytes \<Rightarrow> driverValue res) \<Rightarrow> library \<Rightarrow> queryRows \<Rightarrow> driverValue list act" where
  "decodeCurrentRow decode lib r =
     (case qrBlock r of
        None \<Rightarrow> act_fail EOF
      | Some b \<Rightarrow>
          let rowOffset = qrRowIndex r * fbRowSize b; rowEnd = rowOffset + fbRowSize b in
          if rowOffset < 0 \<or> rowEnd > int (length (fbData b)) then act_fail (Errorf ''row offset out of range'' [])
          else if rowEnd < rowOffset then act_fail (Panic ''slice bounds out of range'')
          else decodeColumns decode lib (qrCtx r) (fbNulls b) (qrRowIndex r * int (length (rmColumns (qrMeta r))))
                 (slice (nat rowOffset) (nat rowEnd) (fbData b)) (rmColumns (qrMeta r)))"

text \<open>A row of the current block.\<close>

definition takeRow ::
    "(columnMeta \<Rightarrow> bytes \<Rightarrow> driverValue res) \<Rightarrow> library \<Rightarrow> queryRows \<Rightarrow> fetchBlock \<Rightarrow> Conn \<Rightarrow> driverValue list rows_result" where
  "takeRow decode lib r b c =
     (case decodeCurrentRow decode lib r c of
        (Inl e, c1) \<Rightarrow> failRows lib e r c1
      | (Inr vs, c1) \<Rightarrow>
          let r1 = r\<lparr>qrRowIndex := qrRowIndex r + 1, qrCurrentRow := qrCurrentRow r + 1\<rparr>;
              r2 = (if qrRowIndex r1 \<ge> fbRowCount b then r1\<lparr>qrBlock := None, qrRowIndex := 0\<rparr> else r1) in
          (Inr vs, r2, c1))"

text \<open>Fetch the next block unless the server has said that there is none.\<close>

definition fetchBlockStep :: "library \<Rightarrow> queryRows \<Rightarrow> Conn \<Rightarrow> fetchBlock option rows_result" where
  "fetchBlockStep lib r c =
     (if qrServerClosed r \<or> qrEndOfData r then (Inr None, r, c)
      else case fetchRows lib (qrCtx r) (qrStatementHandle r) (qrCursorName r) (qrFetchBufferSize r) 0 0 c of
        (Inl e, c1) \<Rightarrow> failRows lib e r c1
      | (Inr b, c1) \<Rightarrow>
          (Inr (Some b),
           r\<lparr>qrServerClosed := ((fbCursorClosed b \<and> \<not> qrScrollable r) \<or> qrServerClosed r),
             qrEndOfData := (fbEndOfData b \<or> qrEndOfData r)\<rparr>, c1))"

partial_function (option) nextLoop ::
    "(columnMeta \<Rightarrow> bytes \<Rightarrow> driverValue res) \<Rightarrow> library \<Rightarrow> queryRows \<Rightarrow> Conn \<Rightarrow> driverValue list rows_result option" where
  "nextLoop decode lib r c =
     (case qrBlock r of
        Some b \<Rightarrow>
          if qrRowIndex r < fbRowCount b then Some (takeRow decode lib r b c)
          else if fbRowCount b = 0 then Some (endResultSet lib r c)
          else
            (case fetchBlockStep lib r c of
               (Inl e, r1, c1) \<Rightarrow> Some (Inl e, r1, c1)
             | (Inr None, r1, c1) \<Rightarrow> Some (endResultSet lib (r1\<lparr>qrBlock := None, qrRowIndex := 0\<rparr>) c1)
             | (Inr (Some b1), r1, c1) \<Rightarrow>
                 if fbRowCount b1 = 0 then Some (endResultSet lib (r1\<lparr>qrBlock := None, qrRowIndex := 0\<rparr>) c1)
                 else nextLoop decode lib (r1\<lparr>qrBlock := Some b1, qrRowIndex := 0\<rparr>) c1)
      | None \<Rightarrow>
          (case fetchBlockStep lib r c of
             (Inl e, r1, c1) \<Rightarrow> Some (Inl e, r1, c1)
           | (Inr None, r1, c1) \<Rightarrow> Some (endResultSet lib (r1\<lparr>qrBlock := None, qrRowIndex := 0\<rparr>) c1)
           | (Inr (Some b1), r1, c1) \<Rightarrow>
               if fbRowCount b1 = 0 then Some (endResultSet lib (r1\<lparr>qrBlock := None, qrRowIndex := 0\<rparr>) c1)
               else nextLoop decode lib (r1\<lparr>qrBlock := Some b1, qrRowIndex := 0\<rparr>) c1))"

text \<open>\<open>n\<close> is the length of the destination slice.\<close>

definition rowsNext ::
    "(columnMeta \<Rightarrow> bytes \<Rightarrow> driverValue res) \<Rightarrow> library \<Rightarrow> nat \<Rightarrow> queryRows \<Rightarrow> Conn \<Rightarrow> driverValue list rows_result option" where
  "rowsNext decode lib n r c =
     (if qrClosed r then Some (Inl EOF, r, c)
      else if n \<noteq> length (rmColumns (qrMeta r)) then
        Some (Inl (Errorf ''destination column count mismatch: got %d want %d''
                [FInt (int n), FInt (int (length (rmColumns (qrMeta r))))]), r, c)
      else if rmColumns (qrMeta r) = [] then
        (if qrResultSetDone r then Some (Inl EOF, r, c) else Some (endResultSet lib r c))
      else if qrResultSetDone r then Some (Inl EOF, r, c)
      else nextLoop decode lib r c)"

definition fetchFirst :: int where "fetchFirst = 2"
definition fetchLast :: int where "fetchLast = 3"
definition fetchBeforeFirst :: int where "fetchBeforeFirst = 4"
definition fetchAfterLast :: int where "fetchAfterLast = 5"
definition fetchCurrent :: int where "fetchCurrent = 6"

definition scrolledRow :: "int \<Rightarrow> int \<Rightarrow> int \<Rightarrow> int" where
  "scrolledRow option relative current =
     (if option = fetchBeforeFirst \<or> option = fetchAfterLast \<or> option = fetchFirst then 0
      else if option = fetchDirect then relative - 1
      else if option = fetchRelative then current + relative
      else current)"

definition scroll :: "library \<Rightarrow> int \<Rightarrow> int \<Rightarrow> queryRows \<Rightarrow> Conn \<Rightarrow> unit rows_result" where
  "scroll lib option relative r c =
     (if qrClosed r then (Inl EOF, r, c)
      else if \<not> qrScrollable r then (Inl (unsupported ''scrollable cursor''), r, c)
      else case fetchRows lib (qrCtx r) (qrStatementHandle r) (qrCursorName r) (qrFetchBufferSize r) option relative c of
        (Inl e, c1) \<Rightarrow> failRows lib e r c1
      | (Inr b, c1) \<Rightarrow>
          (Inr (), r\<lparr>qrBlock := Some b, qrRowIndex := 0, qrCurrentRow := scrolledRow option relative (qrCurrentRow r),
                     qrResultSetDone := (fbRowCount b = 0)\<rparr>, c1))"

definition rowsAbsolute :: "library \<Rightarrow> int \<Rightarrow> queryRows \<Rightarrow> Conn \<Rightarrow> unit rows_result" where
  "rowsAbsolute lib row r c =
     (if row < 1 then (Inl (Errorf ''absolute row must be positive: %d'' [FInt row]), r, c)
      else scroll lib fetchDirect row r c)"

definition rowsRow :: "queryRows \<Rightarrow> int" where
  "rowsRow r = (if qrClosed r then 0 else qrCurrentRow r)"

definition HasNextResultSet :: "queryRows \<Rightarrow> bool" where
  "HasNextResultSet r = (if qrClosed r then False else if qrResultSetCount r \<le> 0 then False else qrResultSetIndex r < qrResultSetCount r)"

definition NextResultSet :: "library \<Rightarrow> queryRows \<Rightarrow> Conn \<Rightarrow> unit rows_result" where
  "NextResultSet lib r c =
     (if qrClosed r then (Inl EOF, r, c)
      else if \<not> HasNextResultSet r then
        (case rowsClose lib r c of
           (Inl e, r1, c1) \<Rightarrow> (Inl e, r1, c1)
         | (Inr _, r1, c1) \<Rightarrow> (Inl EOF, r1, c1))
      else
        case (if \<not> qrServerClosed r \<and> TrimSpace (qrCursorName r) \<noteq> []
              then closeResultSetCursorNoReply lib (cleanupContext (qrCtx r) c) (qrStatementHandle r) (qrCursorName r) 0xF2 c
              else (Inr (), c)) of
          (Inl e, c1) \<Rightarrow> (Inl e, r\<lparr>qrClosed := True\<rparr>, c1)
        | (Inr _, c1) \<Rightarrow>
            (case openAndDescribe lib (qrCtx r) (qrStatementHandle r) (qrStatementName r) (qrCursorName r) 0 None [] c1 of
               (Inl e, c2) \<Rightarrow> (Inl e, r\<lparr>qrClosed := True\<rparr>, c2)
             | (Inr (meta, sqlca), c2) \<Rightarrow>
                 (Inr (), r\<lparr>qrServerClosed := False, qrEndOfData := False, qrMeta := withRowSize meta, qrBlock := None,
                    qrRowIndex := 0, qrResultSetDone := (rmColumns meta = []), qrResultSetIndex := qrResultSetIndex r + 1\<rparr>,
                  recordWarning (siWarning sqlca) c2)))"

section \<open>The loop of Next runs at most twice\<close>

text \<open>
  A fetched block has a row count that is not negative, so an unread block ends the loop in
  its next round. The value of the loop is therefore this function without a loop.
\<close>

definition loadRow ::
    "(columnMeta \<Rightarrow> bytes \<Rightarrow> driverValue res) \<Rightarrow> library \<Rightarrow> queryRows \<Rightarrow> Conn \<Rightarrow> driverValue list rows_result" where
  "loadRow decode lib r c =
     (case fetchBlockStep lib r c of
        (Inl e, r1, c1) \<Rightarrow> (Inl e, r1, c1)
      | (Inr None, r1, c1) \<Rightarrow> endResultSet lib (r1\<lparr>qrBlock := None, qrRowIndex := 0\<rparr>) c1
      | (Inr (Some b), r1, c1) \<Rightarrow>
          if fbRowCount b = 0 then endResultSet lib (r1\<lparr>qrBlock := None, qrRowIndex := 0\<rparr>) c1
          else takeRow decode lib (r1\<lparr>qrBlock := Some b, qrRowIndex := 0\<rparr>) b c1)"

definition nextRow ::
    "(columnMeta \<Rightarrow> bytes \<Rightarrow> driverValue res) \<Rightarrow> library \<Rightarrow> queryRows \<Rightarrow> Conn \<Rightarrow> driverValue list rows_result" where
  "nextRow decode lib r c =
     (case qrBlock r of
        Some b \<Rightarrow>
          if qrRowIndex r < fbRowCount b then takeRow decode lib r b c
          else if fbRowCount b = 0 then endResultSet lib r c
          else loadRow decode lib r c
      | None \<Rightarrow> loadRow decode lib r c)"

lemma fetchRows_wf: "fetchRows lib ctx h cur sz opt rel c = (Inr b, d) \<Longrightarrow> block_wf b"
  by (auto simp: fetchRows_def act_bind_Inr act_simps1 block_wf_def dest!: parseFetchPayload_wf)

lemma failRows_Inl: "failRows lib e r c \<noteq> (Inr x, r1, c1)"
  by (auto simp: failRows_def split: go_error.splits prod.splits)

lemma fetchBlockStep_wf: "fetchBlockStep lib r c = (Inr (Some b), r1, c1) \<Longrightarrow> block_wf b"
  by (auto simp: fetchBlockStep_def failRows_Inl dest: fetchRows_wf split: if_splits prod.splits sum.splits)

lemma nextLoop_loaded:
  "qrBlock r = Some b \<Longrightarrow> qrRowIndex r < fbRowCount b \<Longrightarrow> nextLoop decode lib r c = Some (takeRow decode lib r b c)"
  by (subst nextLoop.simps) simp

lemma nextLoop_reload:
  assumes "fetchBlockStep lib r c = (Inr (Some b), r1, c1)" "fbRowCount b \<noteq> 0"
  shows "nextLoop decode lib (r1\<lparr>qrBlock := Some b, qrRowIndex := 0\<rparr>) c1 =
    Some (takeRow decode lib (r1\<lparr>qrBlock := Some b, qrRowIndex := 0\<rparr>) b c1)"
  using fetchBlockStep_wf [OF assms(1)] assms(2) by (intro nextLoop_loaded) (auto simp: block_wf_def)

lemma nextLoop_eq: "nextLoop decode lib r c = Some (nextRow decode lib r c)"
  by (subst nextLoop.simps)
    (auto simp: nextRow_def loadRow_def nextLoop_reload split: option.splits prod.splits sum.splits)

lemma decodeColumns_length: "decodeColumns decode lib ctx nulls k row cols c = (Inr vs, d) \<Longrightarrow> length vs = length cols"
  by (induction cols arbitrary: k vs c) (auto simp: act_bind_Inr act_simps1)

lemma decodeCurrentRow_length:
  "decodeCurrentRow decode lib r c = (Inr vs, d) \<Longrightarrow> length vs = length (rmColumns (qrMeta r))"
  by (auto simp: decodeCurrentRow_def Let_def act_simps1 dest: decodeColumns_length split: option.splits if_splits)

lemma rowsClose_closed: "rowsClose lib r c = (res, r1, c1) \<Longrightarrow> qrClosed r1"
  by (auto simp: rowsClose_def Let_def split: if_splits prod.splits)

lemma failRows_closed: "failRows lib e r c = (Inl EOF, r1, c1) \<Longrightarrow> qrClosed r1"
  by (auto simp: failRows_def dest: rowsClose_closed split: go_error.splits prod.splits)

text \<open>A result of Next: a row of the right width, or the end of data for good, or another error.\<close>

definition next_result :: "nat \<Rightarrow> driverValue list rows_result \<Rightarrow> bool" where
  "next_result n out =
     (case out of
        (Inr vs, r, c) \<Rightarrow> length vs = n
      | (Inl e, r, c) \<Rightarrow> e \<noteq> EOF \<or> qrClosed r \<or> qrResultSetDone r)"

lemma failRows_next: "next_result n (failRows lib e r c)"
  by (cases "failRows lib e r c :: driverValue list rows_result")
    (auto simp: next_result_def failRows_def dest: rowsClose_closed split: go_error.splits prod.splits)

lemma endResultSet_next: "next_result n (endResultSet lib r c)"
  by (auto simp: next_result_def endResultSet_def Let_def dest: rowsClose_closed split: prod.splits)

lemma takeRow_next: "next_result (length (rmColumns (qrMeta r))) (takeRow decode lib r b c)"
  using failRows_next [of "length (rmColumns (qrMeta r))" lib _ r]
  by (auto simp: takeRow_def Let_def split: prod.splits sum.splits)
    (auto simp: next_result_def dest: decodeCurrentRow_length)

lemma fetchBlockStep_meta:
  "fetchBlockStep lib r c = (Inr b, r1, c1) \<Longrightarrow> qrMeta r1 = qrMeta r"
  by (auto simp: fetchBlockStep_def failRows_def split: if_splits prod.splits sum.splits go_error.splits)

lemma fetchBlockStep_fail: "fetchBlockStep lib r c = (Inl e, r1, c1) \<Longrightarrow> next_result n (Inl e, r1, c1)"
  by (auto simp: fetchBlockStep_def next_result_def dest!: failRows_closed split: if_splits prod.splits sum.splits)

lemma loadRow_next: "next_result (length (rmColumns (qrMeta r))) (loadRow decode lib r c)"
proof -
  have "fetchBlockStep lib r c = (Inr (Some b), r1, c1) \<Longrightarrow>
      next_result (length (rmColumns (qrMeta r))) (takeRow decode lib (r1\<lparr>qrBlock := Some b, qrRowIndex := 0\<rparr>) b c1)" for b r1 c1
    using takeRow_next [of "r1\<lparr>qrBlock := Some b, qrRowIndex := 0\<rparr>"] by (simp add: fetchBlockStep_meta)
  then show ?thesis
    by (auto simp: loadRow_def endResultSet_next fetchBlockStep_fail split: prod.splits sum.splits option.splits)
qed

lemma nextRow_next: "next_result (length (rmColumns (qrMeta r))) (nextRow decode lib r c)"
  by (simp add: nextRow_def takeRow_next endResultSet_next loadRow_next split: option.splits)

text \<open>
  C12. \<open>Next\<close> always returns, whatever the server sends: with a row that has as many values
  as the destination, or with an error. An \<open>io.EOF\<close> is final: afterwards the rows are closed or
  the result set is marked as done, so that later calls return \<open>io.EOF\<close> at once.
\<close>

theorem next_terminates: "\<exists>out. rowsNext decode lib n r c = Some out \<and> next_result n out"
proof -
  have "next_result n (Inl (Errorf f xs), r, c)" for f xs by (simp add: next_result_def)
  moreover have "qrClosed r \<or> qrResultSetDone r \<Longrightarrow> next_result n (Inl EOF, r, c)" by (simp add: next_result_def)
  ultimately show ?thesis
    using nextRow_next [of r decode lib c] endResultSet_next [of n lib r c]
    by (auto simp: rowsNext_def nextLoop_eq simp del: split_paired_Ex)
qed

section \<open>What the row operations keep\<close>

context session_relation
begin

lemma R_snd: "keeps m \<Longrightarrow> R c (snd (m c))"
  by (simp add: keeps_def)

lemma R_rowsClose: "R c (snd (snd (rowsClose lib r c)))"
proof -
  let ?ctx = "cleanupContext (qrCtx r) c"
  have "keeps (rowsCloseCursor lib r ?ctx)"
    unfolding rowsCloseCursor_def by (intro keeps_intros keeps_close_cursor)
  then have 1: "R c (snd (rowsCloseCursor lib r ?ctx c))" by (rule R_snd)
  have 2: "R d (snd (closePreparedStatement lib ?ctx (qrStatementName r) (qrStatementHandle r) d))" for d
    by (rule R_snd [OF keeps_close(1)])
  from R_trans [OF 1 2] 1 R_trans [OF R_trans [OF 1 2] R_names] R_trans [OF 1 R_names] show ?thesis
    by (simp add: rowsClose_def Let_def case_prod_beta R_refl)
qed

lemma R_failRows: "R c (snd (snd (failRows lib e r c :: 'a rows_result)))"
  using R_rowsClose [of c lib r] by (cases e) (auto simp: failRows_def R_refl case_prod_beta)

lemma R_endResultSet: "R c (snd (snd (endResultSet lib r c :: 'a rows_result)))"
  using R_rowsClose [of c lib "r\<lparr>qrResultSetDone := True\<rparr>"]
  by (auto simp: endResultSet_def Let_def R_refl case_prod_beta)

lemma R_result:
  "failRows lib e r c = (out, r1, c1) \<Longrightarrow> R c c1" "endResultSet lib r c = (out, r1, c1) \<Longrightarrow> R c c1"
  "rowsClose lib r c = (out', r1, c1) \<Longrightarrow> R c c1"
  by (metis R_failRows snd_conv, metis R_endResultSet snd_conv, metis R_rowsClose snd_conv)

lemma keeps_decodeColumns: "keeps (decodeColumns decode lib ctx nulls k row cols)"
proof (induction cols arbitrary: k)
  case (Cons col cols)
  then show ?case unfolding decodeColumns.simps by (intro keeps_intros keeps_lob)
qed simp

lemma R_takeRow: "R c (snd (snd (takeRow decode lib r b c)))"
proof -
  have "keeps (decodeCurrentRow decode lib r)"
    unfolding decodeCurrentRow_def Let_def by (intro keeps_intros keeps_decodeColumns)
  then have 1: "R c (snd (decodeCurrentRow decode lib r c))" by (rule R_snd)
  show ?thesis
    by (auto simp: takeRow_def Let_def case_prod_beta split: sum.splits intro: R_trans [OF 1 R_failRows] 1)
qed

lemma R_fetchBlockStep: "R c (snd (snd (fetchBlockStep lib r c)))"
  using R_snd [OF keeps_open_cursor(2), of c]
  by (auto simp: fetchBlockStep_def R_refl case_prod_beta split: sum.splits intro: R_trans [OF _ R_failRows])

lemma R_loadRow: "R c (snd (snd (loadRow decode lib r c)))"
  using R_fetchBlockStep [of c lib r]
  by (auto simp: loadRow_def split: prod.splits sum.splits option.splits intro: R_trans [OF _ R_endResultSet] R_trans [OF _ R_takeRow])

lemma R_nextRow: "R c (snd (snd (nextRow decode lib r c)))"
  by (simp add: nextRow_def R_takeRow R_endResultSet R_loadRow split: option.splits)

lemma R_rowsNext: "rowsNext decode lib n r c = Some (out, r1, c1) \<Longrightarrow> R c c1"
  using R_nextRow [of c decode lib r]
  by (auto simp: rowsNext_def nextLoop_eq R_refl dest: R_result split: if_splits)

lemma R_scroll: "scroll lib opt rel r c = (out, r1, c1) \<Longrightarrow> R c c1"
  using R_snd [OF keeps_open_cursor(2), of c lib "qrCtx r" "qrStatementHandle r" "qrCursorName r" "qrFetchBufferSize r" opt rel]
  by (auto simp: scroll_def R_refl dest!: R_result intro: R_trans split: if_splits prod.splits sum.splits)

lemma R_NextResultSet: "NextResultSet lib r c = (out, r1, c1) \<Longrightarrow> R c c1"
proof -
  assume N: "NextResultSet lib r c = (out, r1, c1)"
  let ?close = "if \<not> qrServerClosed r \<and> TrimSpace (qrCursorName r) \<noteq> []
      then closeResultSetCursorNoReply lib (cleanupContext (qrCtx r) c) (qrStatementHandle r) (qrCursorName r) 0xF2 c
      else (Inr (), c)"
  have 1: "R c (snd ?close)" using R_snd [OF keeps_close_cursor(2)] by (simp add: R_refl)
  have 2: "R d (snd (openAndDescribe lib (qrCtx r) (qrStatementHandle r) (qrStatementName r) (qrCursorName r) 0 None [] d))" for d
    by (rule R_snd [OF keeps_open_cursor(1)])
  have 3: "R d (recordWarning w d)" for w d by (rule R_local) (simp add: same_wire_def recordWarning_def)
  obtain cr d where cl: "?close = (cr, d)" by (metis surj_pair)
  obtain or d2 where op: "openAndDescribe lib (qrCtx r) (qrStatementHandle r) (qrStatementName r) (qrCursorName r) 0 None [] d = (or, d2)"
    by (metis surj_pair)
  note steps = 1 [unfolded cl snd_conv] 2 [of d, unfolded op snd_conv] 3 [of d2]
  from N [unfolded NextResultSet_def cl prod.case op] steps show ?thesis
    by (auto simp: R_refl dest: R_result intro: R_trans split: if_splits prod.splits sum.splits)
qed

end

section \<open>Every row is delivered once and in order\<close>

text \<open>
  The caller's loop: call \<open>Next\<close> with a destination of \<open>n\<close> values up to \<open>k\<close> times, collecting the
  rows, until it returns an error.
\<close>

fun readRows ::
    "(columnMeta \<Rightarrow> bytes \<Rightarrow> driverValue res) \<Rightarrow> library \<Rightarrow> nat \<Rightarrow> nat \<Rightarrow> queryRows \<Rightarrow> Conn \<Rightarrow>
     driverValue list list \<times> go_error option \<times> queryRows \<times> Conn" where
  "readRows decode lib n 0 r c = ([], None, r, c)"
| "readRows decode lib n (Suc k) r c =
     (case rowsNext decode lib n r c of
        None \<Rightarrow> ([], None, r, c)
      | Some (Inl e, r1, c1) \<Rightarrow> ([], Some e, r1, c1)
      | Some (Inr vs, r1, c1) \<Rightarrow> (case readRows decode lib n k r1 c1 of (rows, e, r2, c2) \<Rightarrow> (vs # rows, e, r2, c2)))"

text \<open>The values of a row of a block, column by column; large-object locators are left out.\<close>

definition plainColumn :: "columnMeta \<Rightarrow> bool" where
  "plainColumn col \<longleftrightarrow> db2Type col \<notin> {db2TypeBlobLocator, db2TypeClobLocator, db2TypeDbclobLocator, db2TypeXMLLocator}"

definition blockRowBytes :: "fetchBlock \<Rightarrow> nat \<Rightarrow> bytes" where
  "blockRowBytes b i = take (nat (fbRowSize b)) (drop (i * nat (fbRowSize b)) (fbData b))"

definition blockValue :: "(columnMeta \<Rightarrow> bytes \<Rightarrow> driverValue res) \<Rightarrow> columnMeta list \<Rightarrow> fetchBlock \<Rightarrow> nat \<Rightarrow> nat \<Rightarrow> driverValue res" where
  "blockValue decode cols b i j =
     (if fbNulls b ! (i * length cols + j) then Inr VNil else decode (cols ! j) (blockRowBytes b i))"

definition blockRows :: "(columnMeta \<Rightarrow> bytes \<Rightarrow> driverValue res) \<Rightarrow> columnMeta list \<Rightarrow> fetchBlock \<Rightarrow> driverValue list list" where
  "blockRows decode cols b =
     map (\<lambda>i. map (\<lambda>j. projr (blockValue decode cols b i j)) [0..<length cols]) [0..<nat (fbRowCount b)]"

definition readableBlock :: "(columnMeta \<Rightarrow> bytes \<Rightarrow> driverValue res) \<Rightarrow> columnMeta list \<Rightarrow> fetchBlock \<Rightarrow> bool" where
  "readableBlock decode cols b \<longleftrightarrow>
     block_wf b \<and> fbColumnCount b = int (length cols) \<and>
     list_all (\<lambda>i. list_all (\<lambda>j. \<not> isl (blockValue decode cols b i j)) [0..<length cols]) [0..<nat (fbRowCount b)]"

lemma decodeColumns_plain:
  assumes "list_all plainColumn cols" "k + length cols \<le> length nulls"
    and "\<And>j. j < length cols \<Longrightarrow> \<not> isl (if nulls ! (k + j) then Inr VNil else decode (cols ! j) row)"
  shows "decodeColumns decode lib ctx nulls (int k) row cols c =
    (Inr (map (\<lambda>j. projr (if nulls ! (k + j) then Inr VNil else decode (cols ! j) row)) [0..<length cols]), c)"
  using assms
proof (induction cols arbitrary: k)
  case (Cons col cols)
  have upt: "[0..<length (col # cols)] = 0 # map Suc [0..<length cols]"
    by (simp add: map_Suc_upt upt_conv_Cons del: upt_Suc)
  have ih: "decodeColumns decode lib ctx nulls (int k + 1) row cols c =
    (Inr (map (\<lambda>j. projr (if nulls ! (Suc k + j) then Inr VNil else decode (cols ! j) row)) [0..<length cols]), c)"
  proof -
    have "\<not> isl (if nulls ! (Suc k + j) then Inr VNil else decode (cols ! j) row)" if "j < length cols" for j
      using Cons.prems(3) [of "Suc j"] that by (simp split: if_splits)
    from Cons.IH [of "Suc k", OF _ _ this] Cons.prems(1,2) show ?thesis by (simp add: add.commute)
  qed
  have hd: "\<not> isl (if nulls ! k then Inr VNil else decode col row)" using Cons.prems(3) [of 0] by (simp split: if_splits)
  have res: "resolveLobLocatorValue lib ctx col v = act_return v" for v
    using Cons.prems(1) by (simp add: resolveLobLocatorValue_def plainColumn_def)
  from hd Cons.prems(2) show ?case
    unfolding upt by (cases "decode col row") (auto simp: act_bind_def act_simps1 ih res o_def split: if_splits)
qed (simp add: act_simps1)

lemma blockRows_nth:
  "i < nat (fbRowCount b) \<Longrightarrow> blockRows decode cols b ! i = map (\<lambda>j. projr (blockValue decode cols b i j)) [0..<length cols]"
  unfolding blockRows_def by (subst nth_map) simp_all

lemma decodeCurrentRow_plain:
  assumes "qrBlock r = Some b" "0 \<le> qrRowIndex r" "qrRowIndex r < fbRowCount b"
    and "readableBlock decode (rmColumns (qrMeta r)) b" "list_all plainColumn (rmColumns (qrMeta r))"
  shows "decodeCurrentRow decode lib r c = (Inr (blockRows decode (rmColumns (qrMeta r)) b ! nat (qrRowIndex r)), c)"
proof -
  let ?cols = "rmColumns (qrMeta r)" and ?i = "nat (qrRowIndex r)" and ?s = "nat (fbRowSize b)"
  have wf: "block_wf b" and cc: "fbColumnCount b = int (length ?cols)" using assms(4) by (auto simp: readableBlock_def)
  have i: "Suc ?i \<le> nat (fbRowCount b)" "qrRowIndex r = int ?i" using assms(2,3) by auto
  have sz: "0 \<le> fbRowSize b" "0 \<le> fbRowCount b" using wf by (auto simp: block_wf_def)
  have data: "length (fbData b) = nat (fbRowCount b) * ?s" and nulls: "length (fbNulls b) = nat (fbRowCount b) * length ?cols"
    using wf cc by (auto simp: block_wf_def) (metis nat_mult_distrib nat_int, metis nat_mult_distrib nat_int)
  have bounds: "?i * ?s + ?s \<le> length (fbData b)" "?i * length ?cols + length ?cols \<le> length (fbNulls b)"
    using mult_le_mono1 [OF i(1), of ?s] mult_le_mono1 [OF i(1), of "length ?cols"] by (simp_all add: data nulls add.commute)
  have "\<not> isl (blockValue decode ?cols b ?i j)" if "j < length ?cols" for j
  proof -
    have "\<forall>i<nat (fbRowCount b). \<forall>j<length ?cols. \<not> isl (blockValue decode ?cols b i j)"
      using assms(4) by (simp add: readableBlock_def list_all_iff)
    with i(1) that show ?thesis using Suc_le_eq by blast
  qed
  then have dec: "decodeColumns decode lib (qrCtx r) (fbNulls b) (int (?i * length ?cols)) (blockRowBytes b ?i) ?cols c =
      (Inr (blockRows decode ?cols b ! ?i), c)"
    using decodeColumns_plain [OF assms(5) bounds(2)] blockRows_nth [OF Suc_le_lessD [OF i(1)]] by (simp add: blockValue_def)
  have off: "nat (qrRowIndex r * fbRowSize b) = ?i * ?s" "nat (qrRowIndex r * fbRowSize b + fbRowSize b) = ?i * ?s + ?s"
    "0 \<le> qrRowIndex r * fbRowSize b" "0 \<le> fbRowSize b"
    using assms(2) sz by (simp_all add: nat_mult_distrib nat_add_distrib)
  have "\<not> int (length (fbData b)) < qrRowIndex r * fbRowSize b + fbRowSize b" "\<not> qrRowIndex r * fbRowSize b < 0"
    using bounds(1) off by linarith+
  with off dec assms(1,2) show ?thesis
    by (simp add: decodeCurrentRow_def Let_def slice_def blockRowBytes_def)
qed

text \<open>
  The blocks the server delivers for the cursor from a state without a loaded block: it ends
  the cursor (or has said so with an earlier block), or the next block has rows and the rest
  follows once they are read.
\<close>

definition drained :: "queryRows \<Rightarrow> int \<Rightarrow> queryRows" where
  "drained r k = r\<lparr>qrBlock := None, qrRowIndex := 0, qrCurrentRow := qrCurrentRow r + k\<rparr>"

inductive serves :: "library \<Rightarrow> queryRows \<Rightarrow> Conn \<Rightarrow> fetchBlock list \<Rightarrow> bool" for lib where
  ended: "fetchBlockStep lib r c = (Inr None, r1, c1) \<Longrightarrow> serves lib r c []"
| empty_block: "fetchBlockStep lib r c = (Inr (Some b), r1, c1) \<Longrightarrow> fbRowCount b = 0 \<Longrightarrow> serves lib r c []"
| block: "fetchBlockStep lib r c = (Inr (Some b), r1, c1) \<Longrightarrow> 0 < fbRowCount b \<Longrightarrow>
    serves lib (drained r1 (fbRowCount b)) c1 bs \<Longrightarrow> serves lib r c (b # bs)"

text \<open>Rows that can be read: open, within a result set, with columns that are not locators.\<close>

definition readable :: "queryRows \<Rightarrow> bool" where
  "readable r \<longleftrightarrow> \<not> qrClosed r \<and> \<not> qrResultSetDone r \<and> rmColumns (qrMeta r) \<noteq> [] \<and> list_all plainColumn (rmColumns (qrMeta r))"

lemma readable_next: "readable r \<Longrightarrow> rowsNext decode lib (length (rmColumns (qrMeta r))) r c = Some (nextRow decode lib r c)"
  by (simp add: readable_def rowsNext_def nextLoop_eq)

lemma readable_update:
  "readable (drained r k) = readable r" "readable (r\<lparr>qrRowIndex := i, qrCurrentRow := j\<rparr>) = readable r"
  "readable (r\<lparr>qrBlock := b, qrRowIndex := i\<rparr>) = readable r"
  by (simp_all add: readable_def drained_def)

lemma takeRow_plain:
  assumes "readable r" "qrBlock r = Some b" "0 \<le> qrRowIndex r" "qrRowIndex r < fbRowCount b"
    and "readableBlock decode (rmColumns (qrMeta r)) b"
  shows "takeRow decode lib r b c =
    (Inr (blockRows decode (rmColumns (qrMeta r)) b ! nat (qrRowIndex r)),
     (if qrRowIndex r + 1 < fbRowCount b then r\<lparr>qrRowIndex := qrRowIndex r + 1, qrCurrentRow := qrCurrentRow r + 1\<rparr>
      else drained r 1), c)"
  using decodeCurrentRow_plain [OF assms(2-5)] assms(1)
  by (auto simp: takeRow_def Let_def readable_def drained_def)

lemma blockRows_length [simp]: "length (blockRows decode cols b) = nat (fbRowCount b)"
  by (simp add: blockRows_def)

lemma read_block:
  assumes "readable r" "qrBlock r = Some b" "qrRowIndex r = int i" "i + m = nat (fbRowCount b)" "0 < m"
    and "readableBlock decode (rmColumns (qrMeta r)) b"
  shows "readRows decode lib (length (rmColumns (qrMeta r))) (m + k) r c =
    (case readRows decode lib (length (rmColumns (qrMeta r))) k (drained r (int m)) c of
       (rows, e, r2, c2) \<Rightarrow> (drop i (blockRows decode (rmColumns (qrMeta r)) b) @ rows, e, r2, c2))"
  using assms
proof (induction m arbitrary: r i)
  case (Suc m)
  let ?cols = "rmColumns (qrMeta r)"
  let ?r1 = "r\<lparr>qrRowIndex := qrRowIndex r + 1, qrCurrentRow := qrCurrentRow r + 1\<rparr>"
  have lt: "qrRowIndex r < fbRowCount b" "0 \<le> qrRowIndex r" using Suc.prems(3,4) by auto
  have nxt: "rowsNext decode lib (length ?cols) r c = Some (takeRow decode lib r b c)"
    using lt Suc.prems(1,2) by (simp add: readable_next nextRow_def)
  have row: "takeRow decode lib r b c =
      (Inr (blockRows decode ?cols b ! i), (if m = 0 then drained r 1 else ?r1), c)"
    using takeRow_plain [OF Suc.prems(1,2) lt(2,1) Suc.prems(6)] Suc.prems(3,4) by auto
  have drop: "drop i (blockRows decode ?cols b) = blockRows decode ?cols b ! i # drop (Suc i) (blockRows decode ?cols b)"
    using Suc.prems(4) by (intro Cons_nth_drop_Suc [symmetric]) simp
  show ?case
  proof (cases "m = 0")
    case True
    with nxt row drop Suc.prems(4) show ?thesis by (simp add: drained_def split: prod.splits)
  next
    case False
    have "drained ?r1 (int m) = drained r (int (Suc m))" by (simp add: drained_def)
    with Suc.IH [of ?r1 "Suc i"] False Suc.prems nxt row drop show ?thesis
      by (simp add: readable_update split: prod.splits)
  qed
qed simp

lemma fetchBlockStep_rows:
  "fetchBlockStep lib r c = (Inr x, r1, c1) \<Longrightarrow> \<exists>closed eod. r1 = r\<lparr>qrServerClosed := closed, qrEndOfData := eod\<rparr>"
proof -
  have id: "\<exists>closed eod. q = q\<lparr>qrServerClosed := closed, qrEndOfData := eod\<rparr>" for q :: queryRows
    by (rule exI [of _ "qrServerClosed q"], rule exI [of _ "qrEndOfData q"]) (cases q, simp)
  assume "fetchBlockStep lib r c = (Inr x, r1, c1)"
  then show ?thesis
    by (auto simp: fetchBlockStep_def failRows_Inl id split: if_splits prod.splits sum.splits)
qed

lemma endResultSet_EOF: "\<exists>r2 c2. endResultSet lib r c = (Inl EOF :: driverValue list res, r2, c2)"
  by (auto simp: endResultSet_def Let_def split: prod.splits)

text \<open>Loading a block and taking its first row is one call of \<open>Next\<close>.\<close>

lemma readRows_load:
  assumes "readable r" "qrBlock r = None" "fetchBlockStep lib r c = (Inr (Some b), r1, c1)" "0 < fbRowCount b"
  shows "readRows decode lib (length (rmColumns (qrMeta r))) (Suc k) r c =
    readRows decode lib (length (rmColumns (qrMeta r))) (Suc k) (r1\<lparr>qrBlock := Some b, qrRowIndex := 0\<rparr>) c1"
proof -
  let ?r = "r1\<lparr>qrBlock := Some b, qrRowIndex := 0\<rparr>"
  have r1: "readable ?r" "rmColumns (qrMeta ?r) = rmColumns (qrMeta r)"
    using fetchBlockStep_rows [OF assms(3)] assms(1) by (auto simp: readable_def)
  have "rowsNext decode lib (length (rmColumns (qrMeta r))) r c = Some (takeRow decode lib ?r b c1)"
    "rowsNext decode lib (length (rmColumns (qrMeta r))) ?r c1 = Some (takeRow decode lib ?r b c1)"
    using readable_next [OF r1(1), of decode lib c1] assms r1(2) by (simp_all add: readable_next nextRow_def loadRow_def)
  then show ?thesis by simp
qed

lemma drained_blk: "qrBlock (drained r k) = None"
  by (simp add: drained_def)

lemma read_served:
  assumes "serves lib r c bs" "readable r" "qrBlock r = None" "list_all (readableBlock decode (rmColumns (qrMeta r))) bs"
  shows "\<exists>r2 c2. readRows decode lib (length (rmColumns (qrMeta r)))
      (Suc (length (concat (map (blockRows decode (rmColumns (qrMeta r))) bs)))) r c =
    (concat (map (blockRows decode (rmColumns (qrMeta r))) bs), Some EOF, r2, c2)"
  using assms
proof (induction rule: serves.induct)
  case (ended r c r1 c1)
  then show ?case using endResultSet_EOF [of lib "r1\<lparr>qrBlock := None, qrRowIndex := 0\<rparr>" c1]
    by (auto simp: readable_next nextRow_def loadRow_def)
next
  case (empty_block r c b r1 c1)
  then show ?case using endResultSet_EOF [of lib "r1\<lparr>qrBlock := None, qrRowIndex := 0\<rparr>" c1]
    by (auto simp: readable_next nextRow_def loadRow_def)
next
  case (block r c b r1 c1 bs)
  let ?cols = "rmColumns (qrMeta r)" and ?r = "r1\<lparr>qrBlock := Some b, qrRowIndex := 0\<rparr>"
  let ?rest = "concat (map (blockRows decode ?cols) bs)" and ?m = "nat (fbRowCount b)"
  have cols: "rmColumns (qrMeta ?r) = ?cols" "rmColumns (qrMeta (drained r1 k)) = ?cols"
    and ok: "readable ?r" "readable (drained r1 k)" for k
    using fetchBlockStep_rows [OF block.hyps(1)] block.prems(1) by (auto simp: readable_def drained_def)
  have dr: "drained ?r (int ?m) = drained r1 (fbRowCount b)" using block.hyps(2) by (simp add: drained_def)
  obtain r2 c2 where rest: "readRows decode lib (length ?cols) (Suc (length ?rest)) (drained r1 (fbRowCount b)) c1 =
      (?rest, Some EOF, r2, c2)"
    using block.IH [OF ok(2)] block.prems(3) by (auto simp only: cols(2) list.pred_inject drained_blk)
  have "readRows decode lib (length ?cols) (?m + Suc (length ?rest)) ?r c1 = (blockRows decode ?cols b @ ?rest, Some EOF, r2, c2)"
    using read_block [OF ok(1), of b 0 ?m decode lib "Suc (length ?rest)" c1] block.hyps(2) block.prems(3) cols(1) rest dr
    by (simp del: readRows.simps)
  with readRows_load [OF block.prems(1,2) block.hyps(1,2)] show ?case by (simp del: readRows.simps)
qed

definition pendingRows :: "(columnMeta \<Rightarrow> bytes \<Rightarrow> driverValue res) \<Rightarrow> queryRows \<Rightarrow> driverValue list list" where
  "pendingRows decode r =
     (case qrBlock r of None \<Rightarrow> [] | Some b \<Rightarrow> drop (nat (qrRowIndex r)) (blockRows decode (rmColumns (qrMeta r)) b))"

definition afterBlock :: "queryRows \<Rightarrow> queryRows" where
  "afterBlock r = (case qrBlock r of None \<Rightarrow> r | Some b \<Rightarrow> drained r (fbRowCount b - qrRowIndex r))"

definition positioned :: "(columnMeta \<Rightarrow> bytes \<Rightarrow> driverValue res) \<Rightarrow> queryRows \<Rightarrow> bool" where
  "positioned decode r =
     (case qrBlock r of
        None \<Rightarrow> True
      | Some b \<Rightarrow> 0 \<le> qrRowIndex r \<and> qrRowIndex r < fbRowCount b \<and> readableBlock decode (rmColumns (qrMeta r)) b)"

definition cursorRows :: "(columnMeta \<Rightarrow> bytes \<Rightarrow> driverValue res) \<Rightarrow> queryRows \<Rightarrow> fetchBlock list \<Rightarrow> driverValue list list" where
  "cursorRows decode r bs = pendingRows decode r @ concat (map (blockRows decode (rmColumns (qrMeta r))) bs)"

text \<open>
  C2. Reading a cursor with \<open>Next\<close> delivers every row exactly once and in order: first the
  unread rows of the loaded block, then the rows of each block the server sends, and then
  \<open>io.EOF\<close>. A value is \<open>nil\<close> where the block's null flag of that row and column is set and the
  decoded bytes of that row otherwise. This holds for any split of the rows into blocks,
  for an end announced with the last block or by an empty one, and for columns that are not
  large-object locators.
\<close>

theorem rows_delivered:
  assumes "readable r" "positioned decode r" "serves lib (afterBlock r) c bs"
    and "list_all (readableBlock decode (rmColumns (qrMeta r))) bs"
  shows "\<exists>r2 c2. readRows decode lib (length (rmColumns (qrMeta r))) (Suc (length (cursorRows decode r bs))) r c =
    (cursorRows decode r bs, Some EOF, r2, c2)"
proof (cases "qrBlock r")
  case None
  with read_served [OF assms(3)] assms show ?thesis by (simp add: afterBlock_def cursorRows_def pendingRows_def)
next
  case (Some b)
  let ?i = "nat (qrRowIndex r)" let ?m = "nat (fbRowCount b) - ?i"
  have pos: "0 \<le> qrRowIndex r" "qrRowIndex r < fbRowCount b" "readableBlock decode (rmColumns (qrMeta r)) b"
    using assms(2) Some by (auto simp: positioned_def)
  then have m: "?i + ?m = nat (fbRowCount b)" "0 < ?m" "fbRowCount b - qrRowIndex r = int ?m" by auto
  have after: "afterBlock r = drained r (int ?m)" using Some m(3) by (simp add: afterBlock_def)
  have meta: "rmColumns (qrMeta (drained r k)) = rmColumns (qrMeta r)" "readable (drained r k)" for k
    using assms(1) by (simp_all add: drained_def readable_def)
  from read_served [OF assms(3) [unfolded after] meta(2) drained_blk, of decode] assms(4) obtain r2 c2 where
    "readRows decode lib (length (rmColumns (qrMeta r)))
       (Suc (length (concat (map (blockRows decode (rmColumns (qrMeta r))) bs)))) (drained r (int ?m)) c =
     (concat (map (blockRows decode (rmColumns (qrMeta r))) bs), Some EOF, r2, c2)"
    by (auto simp only: meta(1))
  with read_block [OF assms(1) Some _ m(1,2) pos(3), of lib "Suc (length (concat (map (blockRows decode (rmColumns (qrMeta r))) bs)))" c]
    pos(1) Some show ?thesis
    by (simp add: cursorRows_def pendingRows_def del: readRows.simps)
qed

definition exampleBlock :: fetchBlock where
  "exampleBlock = zeroBlock\<lparr>fbRowCount := 2, fbColumnCount := 1, fbRowSize := 1, fbNulls := [False, True], fbData := [7, 9]\<rparr>"

definition exampleMeta :: resultSetMeta where
  "exampleMeta = zeroMeta\<lparr>rmColumns := [zeroColumn\<lparr>cType := 496, cLength := 1\<rparr>]\<rparr>"

definition exampleRows :: queryRows where
  "exampleRows = (newQueryRows Background 1 ''STMT0001'' ''CRSR0001'' True 1 exampleMeta exampleConfig)
     \<lparr>qrBlock := Some exampleBlock, qrEndOfData := True\<rparr>"

lemmas example_simps = exampleRows_def exampleMeta_def exampleBlock_def newQueryRows_def zeroBlock_def zeroColumn_def

definition exampleLibrary :: library where
  "exampleLibrary =
     \<lparr>lbTables = [], lbBidiSQL = (\<lambda>c s. s), lbBidiName = (\<lambda>c s n. s), lbBind = (\<lambda>format args bs. Inr []),
      lbDecode = (\<lambda>c col row. Inr (VBytes row)), lbLobText = (\<lambda>c bs col. Inr (VBytes bs)),
      lbAssign = (\<lambda>b v. Inr ()), lbCeilSeconds = (\<lambda>d. d)\<rparr>"

theorem rows_delivered_witness:
  "\<exists>r2 c2. readRows (\<lambda>col row. Inr (VBytes row)) exampleLibrary 1 3 exampleRows (exampleConn []) =
    ([[VBytes [7]], [VNil]], Some EOF, r2, c2)"
proof -
  let ?decode = "\<lambda>col row. Inr (VBytes row)"
  have cols: "length (rmColumns (qrMeta exampleRows)) = 1" by (simp add: example_simps)
  have up: "[0..<2] = [0, 1::nat]" by (simp add: upt_rec)
  have rows: "cursorRows ?decode exampleRows [] = [[VBytes [7]], [VNil]]"
    by (simp add: cursorRows_def pendingRows_def blockRows_def example_simps blockValue_def blockRowBytes_def up)
  have ready: "readable exampleRows"
    by (simp add: readable_def example_simps plainColumn_def db2Type_def db2_type_of_def db2_types)
  have pos: "positioned ?decode exampleRows"
    by (simp add: positioned_def readableBlock_def block_wf_def example_simps blockValue_def up)
  have srv: "serves exampleLibrary (afterBlock exampleRows) (exampleConn []) []"
    by (rule serves.ended) (simp add: fetchBlockStep_def afterBlock_def example_simps drained_def)
  from rows_delivered [OF ready pos srv] cols rows show ?thesis by (simp del: readRows.simps add: eval_nat_numeral)
qed

section \<open>Closing\<close>

text \<open>The operations of the rows in any order, on whatever state the connection is in.\<close>

inductive rows_run :: "(columnMeta \<Rightarrow> bytes \<Rightarrow> driverValue res) \<Rightarrow> library \<Rightarrow> queryRows \<Rightarrow> queryRows \<Rightarrow> bool" for decode lib where
  start: "rows_run decode lib r r"
| nexts: "rows_run decode lib r q \<Longrightarrow> rowsNext decode lib n q c = Some (out, q1, c1) \<Longrightarrow> rows_run decode lib r q1"
| scrolls: "rows_run decode lib r q \<Longrightarrow> scroll lib opt rel q c = (out', q1, c1) \<Longrightarrow> rows_run decode lib r q1"
| next_sets: "rows_run decode lib r q \<Longrightarrow> NextResultSet lib q c = (out', q1, c1) \<Longrightarrow> rows_run decode lib r q1"
| closes: "rows_run decode lib r q \<Longrightarrow> rowsClose lib q c = (out', q1, c1) \<Longrightarrow> rows_run decode lib r q1"

text \<open>The release of the statement is pending, or has happened once and the rows are closed.\<close>

definition releases_ok :: "queryRows \<Rightarrow> bool" where
  "releases_ok r \<longleftrightarrow> (if qrReleaseStmt r then qrReleased r = 0 else qrReleased r = 1 \<and> qrClosed r)"

definition same_release :: "queryRows \<Rightarrow> queryRows \<Rightarrow> bool" where
  "same_release r q \<longleftrightarrow> qrReleaseStmt q = qrReleaseStmt r \<and> qrReleased q = qrReleased r \<and> (qrClosed r \<longrightarrow> qrClosed q)"

lemma releases_same: "same_release r q \<Longrightarrow> releases_ok r \<Longrightarrow> releases_ok q"
  by (auto simp: same_release_def releases_ok_def split: if_splits)

lemma rowsClose_releases: "rowsClose lib r c = (out, r1, c1) \<Longrightarrow> releases_ok r \<Longrightarrow> releases_ok r1"
  by (auto simp: rowsClose_def Let_def releases_ok_def split: if_splits prod.splits)

lemma failRows_releases: "failRows lib e r c = (out, r1, c1) \<Longrightarrow> releases_ok r \<Longrightarrow> releases_ok r1"
  by (auto simp: failRows_def dest: rowsClose_releases split: go_error.splits prod.splits)

lemma endResultSet_releases: "endResultSet lib r c = (out, r1, c1) \<Longrightarrow> releases_ok r \<Longrightarrow> releases_ok r1"
  by (auto simp: endResultSet_def Let_def dest!: rowsClose_releases split: if_splits prod.splits)
    (simp_all add: releases_ok_def)

lemma takeRow_releases: "takeRow decode lib r b c = (out, r1, c1) \<Longrightarrow> releases_ok r \<Longrightarrow> releases_ok r1"
  by (auto simp: takeRow_def Let_def dest: failRows_releases intro: releases_same [of r]
      simp: same_release_def split: if_splits prod.splits sum.splits)

lemma fetchBlockStep_releases: "fetchBlockStep lib r c = (out, r1, c1) \<Longrightarrow> releases_ok r \<Longrightarrow> releases_ok r1"
  by (auto simp: fetchBlockStep_def dest: failRows_releases intro: releases_same [of r]
      simp: same_release_def split: if_splits prod.splits sum.splits)

lemma releases_update [simp]:
  "releases_ok (r\<lparr>qrBlock := b, qrRowIndex := i\<rparr>) = releases_ok r"
  by (simp add: releases_ok_def)

lemma loadRow_releases: "loadRow decode lib r c = (out, r1, c1) \<Longrightarrow> releases_ok r \<Longrightarrow> releases_ok r1"
  by (auto simp: loadRow_def dest!: fetchBlockStep_releases takeRow_releases endResultSet_releases
      split: if_splits prod.splits sum.splits option.splits)

lemma rowsNext_releases: "rowsNext decode lib n r c = Some (out, r1, c1) \<Longrightarrow> releases_ok r \<Longrightarrow> releases_ok r1"
  by (auto simp: rowsNext_def nextLoop_eq nextRow_def split: if_splits option.splits
      dest: loadRow_releases takeRow_releases endResultSet_releases)

lemma scroll_releases: "scroll lib opt rel r c = (out, r1, c1) \<Longrightarrow> releases_ok r \<Longrightarrow> releases_ok r1"
  by (auto simp: scroll_def dest: failRows_releases intro: releases_same [of r]
      simp: same_release_def split: if_splits prod.splits sum.splits)

lemma NextResultSet_releases: "NextResultSet lib r c = (out, r1, c1) \<Longrightarrow> releases_ok r \<Longrightarrow> releases_ok r1"
  by (auto simp: NextResultSet_def dest: rowsClose_releases intro: releases_same [of r]
      simp: same_release_def split: if_splits prod.splits sum.splits)

lemma rows_run_releases: "rows_run decode lib r q \<Longrightarrow> releases_ok r \<Longrightarrow> releases_ok q"
  by (induction rule: rows_run.induct)
    (auto dest: rowsNext_releases scroll_releases NextResultSet_releases rowsClose_releases)

lemma names_kept: "names.keeps m \<Longrightarrow> m c = (res, d) \<Longrightarrow> cnNames d = cnNames c"
  using names.keepsD by (simp add: names_rel_def)

lemma rowsCloseCursor_names: "rowsCloseCursor lib r ctx c = (res, d) \<Longrightarrow> cnNames d = cnNames c"
proof -
  have "names.keeps (rowsCloseCursor lib r ctx)"
    unfolding rowsCloseCursor_def by (intro names.keeps_intros names.keeps_close_cursor)
  then show "rowsCloseCursor lib r ctx c = (res, d) \<Longrightarrow> ?thesis" by (rule names_kept)
qed

lemma closePreparedStatement_names:
  assumes "TrimSpace n \<noteq> []"
  shows "cnNames (snd (closePreparedStatement lib ctx n h c)) = releaseStatementHandle h (cnNames c)"
proof -
  let ?m = "act_bind (act_get (\<lambda>c. isCachedStatementName (cnPkg c) n)) (\<lambda>shared.
     if shared then act_return ()
     else act_bind (doRequest ctx (buildDeleteRPBRequest h)) (\<lambda>(envelope, payload).
       checkReply (lbTables lib) ctx 0 ''delete RPB'' envelope payload))"
  obtain res d where m: "?m c = (res, d)" by (cases "?m c")
  from names_kept [OF names.keeps_delete_rpb m] m assms show ?thesis
    by (simp add: closePreparedStatement_def act_defer_def act_name_step_def act_simps1)
qed

text \<open>What the names are after a close: the statement's id and its default cursor name are given back.\<close>

definition names_after_close :: "queryRows \<Rightarrow> nameState \<Rightarrow> nameState" where
  "names_after_close r s =
     (let s1 = (if qrOwnStatement r \<and> TrimSpace (qrStatementName r) \<noteq> [] then releaseStatementHandle (qrStatementHandle r) s else s) in
      if qrDefaultCursor r then releaseDefaultCursor (qrStatementHandle r) s1 else s1)"

lemma rowsClose_names:
  assumes "\<not> qrClosed r" "rowsClose lib r c = (out, r1, c1)"
  shows "cnNames c1 = names_after_close r (cnNames c)"
proof -
  obtain ce d where cl: "rowsCloseCursor lib r (cleanupContext (qrCtx r) c) c = (ce, d)" by (metis surj_pair)
  from assms cl rowsCloseCursor_names [OF cl] show ?thesis
    by (auto simp: rowsClose_def Let_def names_after_close_def closePreparedStatement_names)
qed



text \<open>
  When moving to the next result set fails, \<open>NextResultSet\<close> only marks the rows as
  closed: the release callback of the statement stays pending, no name is given back, and a
  later \<open>Close\<close> returns at once without doing either.
\<close>

theorem next_result_set_leaks:
  assumes "\<not> qrClosed r" "HasNextResultSet r" "NextResultSet lib r c = (Inl e, r1, c1)"
  shows "r1 = r\<lparr>qrClosed := True\<rparr> \<and> cnNames c1 = cnNames c \<and> rowsClose lib r1 d = (Inr (), r1, d)"
proof -
  let ?close = "if \<not> qrServerClosed r \<and> TrimSpace (qrCursorName r) \<noteq> []
      then closeResultSetCursorNoReply lib (cleanupContext (qrCtx r) c) (qrStatementHandle r) (qrCursorName r) 0xF2 c
      else (Inr (), c)"
  obtain cr d1 where cl: "?close = (cr, d1)" by (metis surj_pair)
  obtain ro d2 where op: "openAndDescribe lib (qrCtx r) (qrStatementHandle r) (qrStatementName r) (qrCursorName r) 0 None [] d1 = (ro, d2)"
    by (metis surj_pair)
  have 1: "cnNames d1 = cnNames c" using cl names_kept [OF names.keeps_close_cursor(2)] by (auto split: if_splits)
  have 2: "cnNames d2 = cnNames d1" by (rule names_kept [OF names.keeps_open_cursor(1) op])
  from assms 1 2 show ?thesis
    unfolding NextResultSet_def cl prod.case op by (auto simp: rowsClose_def split: sum.splits prod.splits)
qed

lemma doStatementRequest_dead: "\<not> IsValid c \<Longrightarrow> doStatementRequest ctx rq h c \<noteq> (Inr x, d)"
  by (auto simp: doStatementRequest_def doRequest_def doRequestWithPreamble_def guard_valid split: option.splits)

lemma openAndDescribe_dead:
  assumes "\<not> IsValid c"
  shows "openAndDescribe lib ctx h n cur dh format bs c \<noteq> (Inr x, d)"
proof
  assume "openAndDescribe lib ctx h n cur dh format bs c = (Inr x, d)"
  then obtain u c1 rq env c2 where sync: "syncQueryTimeoutRPB lib ctx h c = (u, c1)"
    and rq: "cancelling True h (doStatementRequest ctx rq h) c1 = (Inr env, c2)"
    by (auto simp: openAndDescribe_def act_bind_Inr act_simps1)
  have "\<not> IsValid c1" using dead.keepsD [OF dead.keeps_syncQueryTimeout sync] assms by (simp add: dead_rel_def)
  with rq doStatementRequest_dead [of c1 ctx rq h] show False
    by (auto simp: cancelling_def act_bind_Inr act_simps1 act_try_run split: sum.splits if_splits) (metis surjective_pairing)
qed

theorem next_result_set_leaks_witness:
  "(let r = exampleRows\<lparr>qrResultSetCount := 2, qrReleaseStmt := True, qrServerClosed := True\<rparr> in
    case NextResultSet exampleLibrary r ((exampleConn [])\<lparr>cnNet := False\<rparr>) of
      (out, r1, c1) \<Rightarrow> qrReleaseStmt r1 \<and> 1 \<in> nsBusy (cnNames c1) \<and> rowsClose exampleLibrary r1 c1 = (Inr (), r1, c1))"
proof -
  let ?r = "exampleRows\<lparr>qrResultSetCount := 2, qrReleaseStmt := True, qrServerClosed := True\<rparr>"
  let ?c = "(exampleConn [])\<lparr>cnNet := False\<rparr>"
  have r: "\<not> qrClosed ?r" "HasNextResultSet ?r" by (simp_all add: example_simps HasNextResultSet_def)
  have c: "\<not> IsValid ?c" by (simp add: IsValid_def)
  obtain out r1 c1 where N: "NextResultSet exampleLibrary ?r ?c = (out, r1, c1)" by (metis surj_pair)
  obtain e where e: "out = Inl e"
    using N r openAndDescribe_dead [OF c]
    by (auto simp: NextResultSet_def split: prod.splits sum.splits)
  from next_result_set_leaks [OF r N [unfolded e], of c1] N show ?thesis by (auto simp: exampleConn_def)
qed

end
