(* ===== verification/Tx.thy ===== *)
theory Tx
  imports Rows
begin

text \<open>
  Transactions (\<open>src/tx.go\<close>) and the connection-level operations \<open>Ping\<close> and \<open>Close\<close>
  (\<open>src/driver.go\<close>). A transaction is open on the server while automatic commit is off; the
  driver turns it off in \<open>BeginTx\<close> and on again when the transaction is finished.
\<close>

section \<open>Definitions\<close>

record Tx =
  txConn :: bool
  txCtx :: go_ctx
  txDone :: bool

definition currentCommitmentMode :: "Conn \<Rightarrow> int" where
  "currentCommitmentMode c =
     (if cnCommitment c < 0 \<or> cnCommitment c > 4 then defaultCommitmentControl else cnCommitment c)"

definition setCurrentCommitmentControl :: "int \<Rightarrow> Conn \<Rightarrow> Conn" where
  "setCurrentCommitmentControl mode c = c\<lparr>cnCommitment := mode\<rparr>"

definition autoCommitRequest :: "bool \<Rightarrow> Conn \<Rightarrow> bytes" where
  "autoCommitRequest enabled c =
     buildAutoCommitRequestLevel enabled
       (serverCommitmentControl (cnCfg c) enabled (commitmentControlForAutoCommit False (currentCommitmentMode c)))"

definition setAutoCommitState :: "library \<Rightarrow> go_ctx \<Rightarrow> bool \<Rightarrow> unit act" where
  "setAutoCommitState lib ctx enabled =
     act_bind (act_get cnAutoCommit) (\<lambda>current.
       if current = enabled then act_return ()
       else
         act_bind (act_get (autoCommitRequest enabled)) (\<lambda>request.
         act_bind (request_checked (lbTables lib) ctx 0 ''set auto commit'' (doRequest ctx request)) (\<lambda>_.
           act_modify (\<lambda>c. c\<lparr>cnAutoCommit := enabled\<rparr>))))"

definition commitTransaction :: "library \<Rightarrow> go_ctx \<Rightarrow> unit act" where
  "commitTransaction lib ctx =
     act_bind (request_checked (lbTables lib) ctx 0 ''commit'' (doRequest ctx buildCommitRequest)) (\<lambda>_. act_return ())"

definition rollbackTransaction :: "library \<Rightarrow> go_ctx \<Rightarrow> unit act" where
  "rollbackTransaction lib ctx =
     act_bind (request_checked (lbTables lib) ctx 0 ''rollback'' (doRequest ctx buildRollbackRequest)) (\<lambda>_. act_return ())"

definition setTransactionIsolationLevel :: "(go_error \<Rightarrow> string) \<Rightarrow> library \<Rightarrow> go_ctx \<Rightarrow> string \<Rightarrow> unit act" where
  "setTransactionIsolationLevel showErr lib ctx mode =
     (if mode = [] then act_return ()
      else act_bind (execContext showErr lib ctx (''SET TRANSACTION ISOLATION LEVEL '' @ mode)) (\<lambda>_. act_return ()))"

definition beginSteps :: "(go_error \<Rightarrow> string) \<Rightarrow> library \<Rightarrow> go_ctx \<Rightarrow> int \<Rightarrow> Tx act" where
  "beginSteps showErr lib ctx isolation =
     act_bind (act_res (transactionIsolationMode isolation)) (\<lambda>mode.
     act_bind (setTransactionIsolationLevel showErr lib ctx mode) (\<lambda>_.
     act_bind (act_modify (\<lambda>c. setCurrentCommitmentControl
                 (if mode = [] then cfgCommitmentControl (cnCfg c) else transactionCommitmentControl isolation) c)) (\<lambda>_.
     act_bind (setAutoCommitState lib ctx False) (\<lambda>_.
       act_return \<lparr>txConn = True, txCtx = ctx, txDone = False\<rparr>))))"

definition BeginTx :: "(go_error \<Rightarrow> string) \<Rightarrow> library \<Rightarrow> go_ctx \<Rightarrow> int \<Rightarrow> Tx act" where
  "BeginTx showErr lib ctx isolation c =
     (case ctxErr ctx (cnClock c) of
        Some e \<Rightarrow> (Inl e, c)
      | None \<Rightarrow>
          if \<not> IsValid c then (Inl ErrBadConn, c)
          else if \<not> cnAutoCommit c then (Inl (Errorf ''transaction already active'' []), c)
          else beginSteps showErr lib ctx isolation c)"

definition finishSteps :: "library \<Rightarrow> go_ctx \<Rightarrow> bool \<Rightarrow> unit act" where
  "finishSteps lib ctx commit =
     act_bind (if commit then commitTransaction lib ctx else rollbackTransaction lib ctx) (\<lambda>_.
     act_bind (setAutoCommitState lib ctx True) (\<lambda>_.
       act_modify (\<lambda>c. setCurrentCommitmentControl (cfgCommitmentControl (cnCfg c)) c)))"

text \<open>\<open>Commit\<close> and \<open>Rollback\<close> are \<open>finish\<close> with the flag.\<close>

definition finish :: "library \<Rightarrow> bool \<Rightarrow> Tx \<Rightarrow> Conn \<Rightarrow> unit res \<times> Tx \<times> Conn" where
  "finish lib commit t c =
     (if txDone t then (Inl ErrTxDone, t, c)
      else
        let t1 = t\<lparr>txDone := True, txConn := False\<rparr> in
        if \<not> txConn t then (Inl ErrTxDone, t1, c)
        else if \<not> IsValid c then (Inl ErrBadConn, t1, c)
        else case finishSteps lib (txCtx t) commit c of (r, c1) \<Rightarrow> (r, t1, c1))"

definition Ping :: "go_ctx \<Rightarrow> unit act" where
  "Ping ctx c =
     (case ctxErr ctx (cnClock c) of
        Some e \<Rightarrow> (Inl e, c)
      | None \<Rightarrow>
          if \<not> IsValid c then (Inl ErrBadConn, c)
          else case doRequest ctx buildTestConnectionRequest c of
            (Inl e, c1) \<Rightarrow> (Inl (if isCtxError e then e else ErrBadConn), c1)
          | (Inr (envelope, _), c1) \<Rightarrow>
              (if envRCClass envelope = 7 \<and> envRCCode envelope = -201 then Inr () else Inl ErrBadConn, c1))"

text \<open>
  \<open>Close\<close> of a connection: \<open>closeErr\<close> is what closing the socket returns. The statement cache is
  dropped with the connection.
\<close>

definition connClose :: "go_error option \<Rightarrow> Conn \<Rightarrow> go_error option \<times> Conn" where
  "connClose closeErr c =
     (if cnClosed c then (cnCloseErr c, c)
      else
        let c1 = (if cnNet c then snd (netWrite buildEndJobRequest c) else c);
            err = (if cnNet c then closeErr else None) in
        (err, c1\<lparr>cnClosed := True, cnNet := False, cnCloseErr := err\<rparr>))"

section \<open>Exchanges that succeed\<close>

lemma abort_Inl: "abortStatementIO ctx c \<noteq> (Inr x, d)"
  by (auto simp: abortStatementIO_def split: option.splits)

lemma doRequest_Inr:
  assumes "doRequest ctx rq c = (Inr x, d)"
  shows "IsValid c \<and> IsValid d \<and> cnSent d = cnSent c @ [rq]"
  using assms unfolding doRequest_def doRequestWithPreamble_def guard_valid
  by (auto simp: abort_Inl transferred_def IsValid_def dest!: netWrite_ok netRead_ok
      split: option.splits if_splits prod.splits sum.splits)

lemma newSQLError_Inl: "newSQLError fs ctx h info c \<noteq> (Inr x, d)"
  by (auto simp: newSQLError_def Let_def split: prod.splits sum.splits)

lemma checkReply_Inr:
  "checkReply fs ctx h op env payload c = (Inr x, d) \<Longrightarrow> IsValid d = IsValid c \<and> cnSent d = cnSent c"
  by (auto simp: checkReply_def act_simps1 newSQLError_Inl recordWarning_def IsValid_def split: if_splits sum.splits)

lemma request_checked_Inr:
  assumes "request_checked fs ctx h op (doRequest ctx rq) c = (Inr x, d)"
  shows "IsValid c \<and> IsValid d \<and> cnSent d = cnSent c @ [rq]"
  using assms by (auto simp: request_checked_def act_bind_Inr act_simps1 dest!: doRequest_Inr checkReply_Inr)

lemma settings_request_checked:
  "expects rq \<Longrightarrow> request_checked fs ctx h op (doRequest ctx rq) c = (r, d) \<Longrightarrow> settings_rel c d"
  by (rule settings.keepsD [OF settings.keeps_request_checked]) (rule settings.keeps_requests)

lemma expects_autoCommit: "expects (autoCommitRequest b c)"
  by (simp add: autoCommitRequest_def builders_expect)

text \<open>Ending the transaction on the server, before automatic commit is turned on again.\<close>

definition endTransaction :: "library \<Rightarrow> go_ctx \<Rightarrow> bool \<Rightarrow> unit act" where
  "endTransaction lib ctx commit = (if commit then commitTransaction lib ctx else rollbackTransaction lib ctx)"

definition endRequest :: "bool \<Rightarrow> bytes" where
  "endRequest commit = (if commit then buildCommitRequest else buildRollbackRequest)"

lemma endTransaction_checked:
  "\<exists>op. endTransaction lib ctx commit =
     act_bind (request_checked (lbTables lib) ctx 0 op (doRequest ctx (endRequest commit))) (\<lambda>_. act_return ())"
  by (auto simp: endTransaction_def endRequest_def commitTransaction_def rollbackTransaction_def)

lemma endTransaction_Inr:
  assumes "endTransaction lib ctx commit c = (Inr (), d)"
  shows "IsValid d \<and> cnSent d = cnSent c @ [endRequest commit]"
  using endTransaction_checked [of lib ctx commit] assms
  by (auto simp: act_bind_Inr act_simps1 dest: request_checked_Inr)

lemma endTransaction_settings: "endTransaction lib ctx commit c = (r, d) \<Longrightarrow> settings_rel c d"
proof -
  obtain op where e: "endTransaction lib ctx commit =
     act_bind (request_checked (lbTables lib) ctx 0 op (doRequest ctx (endRequest commit))) (\<lambda>_. act_return ())"
    using endTransaction_checked by blast
  have "settings.keeps (endTransaction lib ctx commit)"
    unfolding e by (intro settings.keeps_bind settings.keeps_request_checked settings.keeps_requests settings.keeps_pure)
      (simp add: endRequest_def builders_expect)
  then show "endTransaction lib ctx commit c = (r, d) \<Longrightarrow> ?thesis" by (rule settings.keepsD)
qed

lemma setAutoCommitState_Inr:
  assumes "setAutoCommitState lib ctx b c = (Inr (), d)" "cnAutoCommit c \<noteq> b"
  shows "cnSent d = cnSent c @ [autoCommitRequest b c] \<and> cnAutoCommit d = b \<and> cnCfg d = cnCfg c \<and>
    cnCommitment d = cnCommitment c \<and> IsValid d"
proof -
  from assms obtain x c1 where
    "request_checked (lbTables lib) ctx 0 ''set auto commit'' (doRequest ctx (autoCommitRequest b c)) c = (Inr x, c1)"
    "d = c1\<lparr>cnAutoCommit := b\<rparr>"
    by (auto simp: setAutoCommitState_def act_bind_Inr act_simps1)
  note rq = this(1) and d = this(2)
  from request_checked_Inr [OF rq] settings_request_checked [OF expects_autoCommit rq] d show ?thesis
    by (simp add: settings_rel_def IsValid_def)
qed

lemma setAutoCommitState_Inl:
  assumes "setAutoCommitState lib ctx b c = (Inl e, d)"
  shows "settings_rel c d"
proof -
  from assms have
    "request_checked (lbTables lib) ctx 0 ''set auto commit'' (doRequest ctx (autoCommitRequest b c)) c = (Inl e, d)"
    by (auto simp: setAutoCommitState_def act_bind_cases act_simps1 split: if_splits)
  then show ?thesis by (rule settings_request_checked [OF expects_autoCommit])
qed

section \<open>Transactions\<close>


definition exampleTx :: Tx where
  "exampleTx = \<lparr>txConn = True, txCtx = Background, txDone = False\<rparr>"

text \<open>A connection in a transaction whose server answers two requests.\<close>

definition txExampleConn :: Conn where
  "txExampleConn = (exampleConn (okReply @ okReply))\<lparr>cnAutoCommit := False, cnCommitment := 4\<rparr>"

lemma txExample_run: "\<exists>t1 c1. finish exampleLibrary True exampleTx txExampleConn = (Inr (), t1, c1)"
proof -
  let ?c = "txExampleConn"
  let ?d = "?c\<lparr>cnSent := [buildCommitRequest], cnRead := [okReply], cnIn := \<lparr>inBytes = okReply, inErr = EOF\<rparr>, cnClock := 2\<rparr>"
  have c: "IsValid ?c" "cnWrites ?c = []" "inBytes (cnIn ?c) = okReply @ okReply"
    by (simp_all add: txExampleConn_def exampleConn_def IsValid_def)
  have d: "IsValid ?d" "cnWrites ?d = []" "inBytes (cnIn ?d) = okReply @ []" "\<not> cnAutoCommit ?d"
    by (simp_all add: txExampleConn_def exampleConn_def IsValid_def)
  have "commitTransaction exampleLibrary Background ?c = (Inr (), ?d)"
    by (simp add: commitTransaction_def act_bind_def request_checked_answered [OF c] act_simps1)
      (simp add: txExampleConn_def exampleConn_def)
  moreover have "\<exists>d2. setAutoCommitState exampleLibrary Background True ?d = (Inr (), d2)"
    using d(4) by (simp add: setAutoCommitState_def act_bind_def request_checked_answered [OF d(1-3)] act_simps1)
  ultimately show ?thesis using c(1)
    by (auto simp: finish_def exampleTx_def finishSteps_def act_bind_def act_simps1)
qed


text \<open>
  A transaction can be finished once: whatever the first \<open>Commit\<close> or \<open>Rollback\<close> returned, every
  later one returns \<open>sql.ErrTxDone\<close> and does not touch the connection.
\<close>

theorem finish_once:
  assumes "finish lib commit t c = (r, t1, c1)"
  shows "finish lib commit' t1 d = (Inl ErrTxDone, t1, d)"
  using assms by (auto simp: finish_def Let_def split: if_splits prod.splits)

theorem finish_once_witness:
  "(case finish exampleLibrary True exampleTx (exampleConn []) of (r, t1, c1) \<Rightarrow>
      finish exampleLibrary False t1 c1 = (Inl ErrTxDone, t1, c1))"
proof -
  obtain r t1 c1 where f: "finish exampleLibrary True exampleTx (exampleConn []) = (r, t1, c1)" by (metis surj_pair)
  from finish_once [OF this] f show ?thesis by simp
qed

text \<open>
  C17. When finishing a transaction fails, for whatever reason and at whichever of its two
  requests, the connection is still marked as not being in automatic commit: the next use
  of the session rolls back (\<open>ResetSession\<close>) and a new transaction is refused.
\<close>

theorem finish_fails:
  assumes "finish lib commit t c = (Inl e, t1, c1)" "\<not> cnAutoCommit c"
  shows "\<not> cnAutoCommit c1 \<and> fst (BeginTx showErr lib ctx isolation c1) \<noteq> Inr tx"
proof -
  have "settings_rel c c1"
  proof (cases "\<not> txDone t \<and> txConn t \<and> IsValid c")
    case False
    then show ?thesis using assms(1) by (auto simp: finish_def Let_def settings_rel_def split: if_splits)
  next
    case True
    with assms(1) have st: "finishSteps lib (txCtx t) commit c = (Inl e, c1)"
      by (auto simp: finish_def Let_def split: prod.splits)
    show ?thesis
    proof (cases "endTransaction lib (txCtx t) commit c")
      case (Pair r d)
      from endTransaction_settings [OF Pair] have cd: "settings_rel c d" .
      show ?thesis
      proof (cases r)
        case (Inl e')
        with st Pair cd show ?thesis by (simp add: finishSteps_def endTransaction_def act_bind_def)
      next
        case (Inr u)
        with st Pair have "setAutoCommitState lib (txCtx t) True d = (Inl e, c1)"
          by (auto simp: finishSteps_def endTransaction_def act_bind_cases act_simps1)
        from settings_trans [OF cd setAutoCommitState_Inl [OF this]] show ?thesis .
      qed
    qed
  qed
  with assms(2) show ?thesis by (auto simp: settings_rel_def BeginTx_def split: option.splits)
qed

theorem finish_fails_witness:
  "(case finish exampleLibrary True exampleTx ((exampleConn [])\<lparr>cnNet := False, cnAutoCommit := False\<rparr>) of (r, t1, c1) \<Rightarrow>
      \<not> cnAutoCommit c1 \<and> fst (BeginTx (\<lambda>e. []) exampleLibrary Background 0 c1) \<noteq> Inr exampleTx)"
proof -
  let ?c = "(exampleConn [])\<lparr>cnNet := False, cnAutoCommit := False\<rparr>"
  have f: "finish exampleLibrary True exampleTx ?c = (Inl ErrBadConn, exampleTx\<lparr>txDone := True, txConn := False\<rparr>, ?c)"
    by (simp add: finish_def exampleTx_def IsValid_def)
  from finish_fails [OF f, of "\<lambda>e. []" Background 0 exampleTx] f show ?thesis by simp
qed

lemma setTransactionIsolationLevel_settings:
  "setTransactionIsolationLevel showErr lib ctx mode c = (r, d) \<Longrightarrow> settings_rel c d"
proof -
  have "settings.keeps (setTransactionIsolationLevel showErr lib ctx mode)"
    unfolding setTransactionIsolationLevel_def by (intro settings.keeps_intros settings.keeps_execContext)
  then show "setTransactionIsolationLevel showErr lib ctx mode c = (r, d) \<Longrightarrow> ?thesis" by (rule settings.keepsD)
qed

lemma isolation_mode: "transactionIsolationMode isolation = Inr mode \<Longrightarrow> mode = [] \<longleftrightarrow> isolation = 0"
  by (auto simp: transactionIsolationMode_def split: if_splits)

lemma beginSteps_Inr:
  assumes "beginSteps showErr lib ctx isolation c = (Inr tx, c1)" "cnAutoCommit c"
  shows "\<not> cnAutoCommit c1 \<and> txConn tx \<and> \<not> txDone tx \<and>
    cnCommitment c1 = (if isolation = 0 then cfgCommitmentControl (cnCfg c) else transactionCommitmentControl isolation)"
proof -
  from assms(1) obtain mode d where mode: "transactionIsolationMode isolation = Inr mode"
    and iso: "setTransactionIsolationLevel showErr lib ctx mode c = (Inr (), d)"
    and auto: "setAutoCommitState lib ctx False (setCurrentCommitmentControl
         (if mode = [] then cfgCommitmentControl (cnCfg d) else transactionCommitmentControl isolation) d) = (Inr (), c1)"
    and tx: "tx = \<lparr>txConn = True, txCtx = ctx, txDone = False\<rparr>"
    by (auto simp: beginSteps_def act_bind_Inr act_simps1)
  from setTransactionIsolationLevel_settings [OF iso] assms(2) have d: "cnAutoCommit d" "cnCfg d = cnCfg c"
    by (auto simp: settings_rel_def)
  from setAutoCommitState_Inr [OF auto] d tx isolation_mode [OF mode] show ?thesis
    by (simp add: setCurrentCommitmentControl_def)
qed

lemma beginSteps_Inl:
  assumes "beginSteps showErr lib ctx isolation c = (Inl e, c1)"
  shows "cnAutoCommit c1 = cnAutoCommit c"
proof -
  have set: "settings_rel (setCurrentCommitmentControl m d) c1 \<Longrightarrow> cnAutoCommit c1 = cnAutoCommit d" for m d
    by (simp add: settings_rel_def setCurrentCommitmentControl_def)
  from assms show ?thesis
    by (auto simp: beginSteps_def act_bind_cases act_simps1 settings_rel_def
        dest!: setTransactionIsolationLevel_settings setAutoCommitState_Inl set)
qed

text \<open>
  C18. \<open>BeginTx\<close> succeeds only on a connection in automatic commit and leaves it outside of it,
  with a transaction that can be finished and the isolation level's commitment control (or
  the configured one) recorded; when it fails, automatic commit is as before.
\<close>

theorem begin_outcome:
  "case BeginTx showErr lib ctx isolation c of
     (Inr tx, c1) \<Rightarrow> cnAutoCommit c \<and> \<not> cnAutoCommit c1 \<and> txConn tx \<and> \<not> txDone tx \<and>
       cnCommitment c1 = (if isolation = 0 then cfgCommitmentControl (cnCfg c) else transactionCommitmentControl isolation)
   | (Inl e, c1) \<Rightarrow> cnAutoCommit c1 = cnAutoCommit c"
proof -
  obtain r c1 where B: "BeginTx showErr lib ctx isolation c = (r, c1)" by (metis surj_pair)
  show ?thesis
  proof (cases "ctxErr ctx (cnClock c) = None \<and> IsValid c \<and> cnAutoCommit c")
    case False
    with B show ?thesis by (auto simp: BeginTx_def split: option.splits if_splits)
  next
    case True
    with B have "beginSteps showErr lib ctx isolation c = (r, c1)" by (simp add: BeginTx_def)
    with beginSteps_Inr [of showErr lib ctx isolation c] beginSteps_Inl [of showErr lib ctx isolation c] True B show ?thesis
      by (cases r) auto
  qed
qed

end
