(* ===== verification/Stmt.thy ===== *)
theory Stmt
  imports Cache Tx
begin

text \<open>
  Prepared statements (\<open>Stmt\<close> of \<open>src/stmt.go\<close>) and the entry points of a connection that use
  the statement cache (\<open>src/driver.go\<close>, \<open>ExecContext\<close> to \<open>queryPreparedCached\<close>), batches
  (\<open>ExecBatch\<close> of \<open>src/batch.go\<close>) and inserts that return generated keys
  (\<open>src/generatedkeys.go\<close>). The state is a connection with its cache.

  A statement counts the calls and the rows that use it; \<open>Close\<close> waits until there are none.
  The wait is a call that does not return: \<open>stmtClose\<close> is \<open>None\<close> while the statement is in use.
  Statements the cache gives up are closed right after the section that decided it; the
  source does so in a goroutine for an evicted statement nobody uses.
\<close>

section \<open>Definitions\<close>

record driverConn =
  dcConn :: Conn
  dcCache :: statementCache

type_synonym 'a dact = "(driverConn, 'a) step"

definition on_conn :: "'a act \<Rightarrow> 'a dact" where
  "on_conn m d = (case m (dcConn d) of (r, c) \<Rightarrow> (r, d\<lparr>dcConn := c\<rparr>))"

definition on_cache :: "(statementCache \<Rightarrow> 'a \<times> statementCache) \<Rightarrow> 'a dact" where
  "on_cache f d = (case f (dcCache d) of (x, s) \<Rightarrow> (Inr x, d\<lparr>dcCache := s\<rparr>))"

definition cachedAt :: "nat \<Rightarrow> driverConn \<Rightarrow> cachedStatement" where
  "cachedAt i d = the (scHeap (dcCache d) i)"

subsection \<open>The cache in use\<close>

fun closeStatements :: "library \<Rightarrow> nat list \<Rightarrow> unit dact" where
  "closeStatements lib [] = act_return ()"
| "closeStatements lib (i # is) =
     act_bind (act_get (cachedAt i)) (\<lambda>cs.
     act_bind (act_try (on_conn (closePreparedStatement lib Background (csName cs) (csHandle cs)))) (\<lambda>_.
       closeStatements lib is))"

definition cachedPreparedStatement :: "(go_error \<Rightarrow> string) \<Rightarrow> library \<Rightarrow> go_ctx \<Rightarrow> string \<Rightarrow> nat dact" where
  "cachedPreparedStatement showErr lib ctx query =
     act_bind (act_get (\<lambda>d. cfgStatementCacheSize (cnCfg (dcConn d)))) (\<lambda>cacheSize.
     act_bind (if cacheSize \<le> 0 then act_return None else on_cache (cacheLookup query)) (\<lambda>found.
       case found of
         Some i \<Rightarrow> act_return i
       | None \<Rightarrow>
           act_bind (on_conn (prepareTransientStatement showErr lib ctx query)) (\<lambda>(statementType, statementHandle, stmtName, format).
             let prepared = \<lparr>csType = statementType, csHandle = statementHandle, csName = stmtName, csFormat = format,
                             csRefs = 0, csEvicted = False\<rparr> in
             if cacheSize \<le> 0 then on_cache (\<lambda>s. (scNext s, allocated prepared s))
             else act_bind (act_bind (on_cache (cacheInsert cacheSize query prepared)) act_res) (\<lambda>(i, closing).
               act_bind (closeStatements lib closing) (\<lambda>_. act_return i)))))"

definition releaseStatement :: "library \<Rightarrow> nat \<Rightarrow> unit dact" where
  "releaseStatement lib i = act_bind (on_cache (releaseCachedStatement i)) (closeStatements lib)"

definition execPreparedCached ::
    "(go_error \<Rightarrow> string) \<Rightarrow> library \<Rightarrow> go_ctx \<Rightarrow> string \<Rightarrow> namedValue list \<Rightarrow> execResult dact" where
  "execPreparedCached showErr lib ctx query args =
     act_bind (act_get (\<lambda>d. cfgStatementCacheSize (cnCfg (dcConn d)))) (\<lambda>cacheSize.
       if cacheSize \<le> 0 then on_conn (execPreparedTransient showErr lib ctx query args)
       else
         act_bind (cachedPreparedStatement showErr lib ctx query) (\<lambda>i.
         act_bind (act_get (cachedAt i)) (\<lambda>cs.
           act_defer (on_conn (execPrepared showErr lib ctx (csHandle cs) (csType cs) (csFormat cs) args))
             (releaseStatement lib i))))"

definition markStoredProcResult :: "int \<Rightarrow> queryRows \<Rightarrow> queryRows" where
  "markStoredProcResult statementType rows =
     (if statementType = sqlStatementTypeCall then rows\<lparr>qrStoredProc := True\<rparr> else rows)"

text \<open>The rows of a cached statement, and the statement their close releases, if any.\<close>

definition queryPreparedCached ::
    "(go_error \<Rightarrow> string) \<Rightarrow> library \<Rightarrow> go_ctx \<Rightarrow> string \<Rightarrow> namedValue list \<Rightarrow> (queryRows \<times> nat option) dact" where
  "queryPreparedCached showErr lib ctx query args =
     act_bind (act_get (\<lambda>d. cfgStatementCacheSize (cnCfg (dcConn d)))) (\<lambda>cacheSize.
       if cacheSize \<le> 0 then
         act_bind (on_conn (queryPreparedTransient showErr lib ctx query args)) (\<lambda>rows. act_return (rows, None))
       else
         act_bind (cachedPreparedStatement showErr lib ctx query) (\<lambda>i.
         act_bind (act_get (cachedAt i)) (\<lambda>cs.
         act_bind (on_failure (releaseStatement lib i)
           (on_conn (queryPreparedWithArgs showErr lib ctx (csHandle cs) (csName cs) (csFormat cs) args))) (\<lambda>rows.
             act_return ((markStoredProcResult (csType cs) rows)\<lparr>qrReleaseStmt := True\<rparr>, Some i)))))"

text \<open>\<open>Close\<close> of rows of a cached statement: the callback runs when it is still set.\<close>

definition closeQueryRows :: "library \<Rightarrow> queryRows \<Rightarrow> nat option \<Rightarrow> driverConn \<Rightarrow> unit res \<times> queryRows \<times> driverConn" where
  "closeQueryRows lib r owner d =
     (case rowsClose lib r (dcConn d) of (res, r1, c1) \<Rightarrow>
        let d1 = d\<lparr>dcConn := c1\<rparr> in
        (res, r1, if qrReleaseStmt r \<and> \<not> qrReleaseStmt r1
                  then (case owner of Some i \<Rightarrow> snd (releaseStatement lib i d1) | None \<Rightarrow> d1) else d1))"

subsection \<open>Entry points of the connection\<close>

definition namedQuery :: "string \<Rightarrow> namedValue list \<Rightarrow> (string \<times> namedValue list) res" where
  "namedQuery query args =
     res_bind (rewriteNamedParams query) (\<lambda>(rewritten, paramNames).
     res_bind (reorderNamedArgs paramNames args) (\<lambda>ordered. Inr (rewritten, ordered)))"

definition QueryContext ::
    "(go_error \<Rightarrow> string) \<Rightarrow> library \<Rightarrow> go_ctx \<Rightarrow> string \<Rightarrow> namedValue list \<Rightarrow> (queryRows \<times> nat option) dact" where
  "QueryContext showErr lib ctx query args =
     act_bind (act_get (\<lambda>d. IsValid (dcConn d))) (\<lambda>valid.
       if \<not> valid then act_fail ErrBadConn
       else if args = [] then act_bind (on_conn (queryContext showErr lib ctx query)) (\<lambda>rows. act_return (rows, None))
       else act_bind (act_res (namedQuery query args)) (\<lambda>(rewritten, ordered).
         queryPreparedCached showErr lib ctx rewritten ordered))"

text \<open>
  The rows of a wrapped insert are read to the end. The loop is the caller's and may not end;
  not ending is \<open>None\<close>.
\<close>

partial_function (option) drainKeyRows ::
    "(columnMeta \<Rightarrow> bytes \<Rightarrow> driverValue res) \<Rightarrow> library \<Rightarrow> driverValue list res list \<Rightarrow> queryRows \<Rightarrow> Conn \<Rightarrow>
     (driverValue list res list \<times> queryRows \<times> Conn) option" where
  "drainKeyRows decode lib seen r c =
     (case rowsNext decode lib (length (rmColumns (qrMeta r))) r c of
        None \<Rightarrow> None
      | Some (Inl e, r1, c1) \<Rightarrow> Some (if e = EOF then seen else seen @ [Inl e], r1, c1)
      | Some (Inr vs, r1, c1) \<Rightarrow>
          (case generatedKeyInt64 (hd vs) of
             Inl _ \<Rightarrow> Some (seen @ [Inr vs], r1, c1)
           | Inr _ \<Rightarrow> drainKeyRows decode lib (seen @ [Inr vs]) r1 c1))"

definition execInsertWithGeneratedKey ::
    "(columnMeta \<Rightarrow> bytes \<Rightarrow> driverValue res) \<Rightarrow> (go_error \<Rightarrow> string) \<Rightarrow> library \<Rightarrow> go_ctx \<Rightarrow> string \<Rightarrow> namedValue list \<Rightarrow>
     driverConn \<Rightarrow> (execResult res \<times> driverConn) option" where
  "execInsertWithGeneratedKey decode showErr lib ctx query args d =
     (case wrapInsertForGeneratedKeys query of
        Inl e \<Rightarrow> Some (Inl e, d)
      | Inr wrapped \<Rightarrow>
          (case QueryContext showErr lib ctx wrapped args d of
             (Inl e, d1) \<Rightarrow> Some (Inl e, d1)
           | (Inr (r, owner), d1) \<Rightarrow>
               if rmColumns (qrMeta r) = [] then
                 Some (readGeneratedKeyRows [] [], snd (snd (closeQueryRows lib r owner d1)))
               else
                 (case drainKeyRows decode lib [] r (dcConn d1) of
                    None \<Rightarrow> None
                  | Some (rows, r1, c1) \<Rightarrow>
                      Some (readGeneratedKeyRows (columnNames (qrMeta r)) rows,
                            snd (snd (closeQueryRows lib r1 owner (d1\<lparr>dcConn := c1\<rparr>)))))))"

definition ExecContext ::
    "(columnMeta \<Rightarrow> bytes \<Rightarrow> driverValue res) \<Rightarrow> (go_error \<Rightarrow> string) \<Rightarrow> library \<Rightarrow> go_ctx \<Rightarrow> string \<Rightarrow> namedValue list \<Rightarrow>
     driverConn \<Rightarrow> (execResult res \<times> driverConn) option" where
  "ExecContext decode showErr lib ctx query args d =
     (if \<not> IsValid (dcConn d) then Some (Inl ErrBadConn, d)
      else if cfgReturnGeneratedKeys (cnCfg (dcConn d)) \<and> isInsertStatement query
      then execInsertWithGeneratedKey decode showErr lib ctx query args d
      else if args = [] then Some (on_conn (execContext showErr lib ctx query) d)
      else case namedQuery query args of
        Inl e \<Rightarrow> Some (Inl e, d)
      | Inr (rewritten, ordered) \<Rightarrow> Some (execPreparedCached showErr lib ctx rewritten ordered d))"

text \<open>\<open>named\<close> are the rows after \<open>batchNamedRows\<close>; \<open>given\<close> is their number.\<close>

definition ExecBatch ::
    "(go_error \<Rightarrow> string) \<Rightarrow> library \<Rightarrow> go_ctx \<Rightarrow> string \<Rightarrow> nat \<Rightarrow> namedValue list list res \<Rightarrow> Conn \<Rightarrow> (int \<times> go_error option) \<times> Conn" where
  "ExecBatch showErr lib ctx query given named c =
     (if \<not> IsValid c then ((0, Some ErrBadConn), c)
      else if given = 0 then ((0, None), c)
      else case rewriteNamedParams query of
        Inl e \<Rightarrow> ((0, Some e), c)
      | Inr (rewritten, _) \<Rightarrow>
          (case prepareTransientStatement showErr lib ctx rewritten c of
             (Inl e, c1) \<Rightarrow> ((0, Some e), c1)
           | (Inr (statementType, statementHandle, stmtName, format), c1) \<Rightarrow>
               (case execBatchPrepared showErr lib ctx rewritten statementHandle statementType format named c1 of
                  (r, c2) \<Rightarrow> (r, snd (closePreparedStatement lib Background stmtName statementHandle c2)))))"

subsection \<open>Prepared statements\<close>

record Stmt =
  stQuery :: string
  stName :: string
  stHandle :: u16
  stType :: int
  stFormat :: "parameterMarkerFormat option"
  stParamNames :: "string list"
  stClosed :: bool
  stActive :: nat

definition newStmt :: "string \<Rightarrow> string \<Rightarrow> u16 \<Rightarrow> int \<Rightarrow> parameterMarkerFormat option \<Rightarrow> string list \<Rightarrow> Stmt" where
  "newStmt query stmtName statementHandle statementType format paramNames =
     \<lparr>stQuery = query, stName = stmtName, stHandle = statementHandle, stType = statementType, stFormat = format,
      stParamNames = paramNames, stClosed = False, stActive = 0\<rparr>"

definition prepareStmt :: "(go_error \<Rightarrow> string) \<Rightarrow> library \<Rightarrow> go_ctx \<Rightarrow> string \<Rightarrow> Stmt act" where
  "prepareStmt showErr lib ctx query =
     act_bind (act_get (\<lambda>c. (ctxErr ctx (cnClock c), IsValid c))) (\<lambda>(err, valid).
       case err of
         Some e \<Rightarrow> act_fail e
       | None \<Rightarrow>
           if \<not> valid then act_fail ErrBadConn
           else
             act_bind (act_res (rewriteNamedParams query)) (\<lambda>(rewritten, paramNames).
             act_bind (prepareTransientStatement showErr lib ctx rewritten) (\<lambda>(statementType, statementHandle, stmtName, format).
               act_return (newStmt rewritten stmtName statementHandle statementType format paramNames))))"

definition acquire :: "Stmt \<Rightarrow> unit res \<times> Stmt" where
  "acquire s = (if stClosed s then (Inl ErrConnectionClosed, s) else (Inr (), s\<lparr>stActive := Suc (stActive s)\<rparr>))"

definition release :: "Stmt \<Rightarrow> Stmt" where
  "release s = s\<lparr>stActive := stActive s - 1\<rparr>"

definition NumInput :: "Stmt \<Rightarrow> int" where
  "NumInput s =
     (case stFormat s of
        Some _ \<Rightarrow> int (parameterCount (stFormat s))
      | None \<Rightarrow> (case countSQLPlaceholders (stQuery s) of Inr n \<Rightarrow> int n | Inl _ \<Rightarrow> -1))"

definition errPreparedStatementBindingUnsupported :: go_error where
  "errPreparedStatementBindingUnsupported = Errorf ''prepared statement parameter binding unsupported'' []"

text \<open>What \<open>ExecContext\<close> of a statement does between \<open>acquire\<close> and the deferred \<open>release\<close>.\<close>

definition stmtExec ::
    "(columnMeta \<Rightarrow> bytes \<Rightarrow> driverValue res) \<Rightarrow> (go_error \<Rightarrow> string) \<Rightarrow> library \<Rightarrow> go_ctx \<Rightarrow> namedValue list \<Rightarrow> Stmt \<Rightarrow>
     driverConn \<Rightarrow> (execResult res \<times> driverConn) option" where
  "stmtExec decode showErr lib ctx args s d =
     (if \<not> IsValid (dcConn d) then Some (Inl ErrBadConn, d)
      else if cfgReturnGeneratedKeys (cnCfg (dcConn d)) \<and> stParamNames s = [] \<and> isInsertStatement (stQuery s)
      then execInsertWithGeneratedKey decode showErr lib ctx (stQuery s) args d
      else if stName s \<noteq> [] \<and> stFormat s \<noteq> None then
        (case reorderNamedArgs (stParamNames s) args of
           Inl e \<Rightarrow> Some (Inl e, d)
         | Inr ordered \<Rightarrow> Some (on_conn (execPrepared showErr lib ctx (stHandle s) (stType s) (stFormat s) ordered) d))
      else if args = [] then Some (on_conn (execContext showErr lib ctx (stQuery s)) d)
      else Some (Inl errPreparedStatementBindingUnsupported, d))"

definition stmtExecContext ::
    "(columnMeta \<Rightarrow> bytes \<Rightarrow> driverValue res) \<Rightarrow> (go_error \<Rightarrow> string) \<Rightarrow> library \<Rightarrow> go_ctx \<Rightarrow> namedValue list \<Rightarrow> Stmt \<Rightarrow>
     driverConn \<Rightarrow> (execResult res \<times> Stmt \<times> driverConn) option" where
  "stmtExecContext decode showErr lib ctx args s d =
     (case acquire s of
        (Inl e, s1) \<Rightarrow> Some (Inl e, s1, d)
      | (Inr _, s1) \<Rightarrow> map_option (\<lambda>(r, d1). (r, release s1, d1)) (stmtExec decode showErr lib ctx args s1 d))"

text \<open>The rows of a statement call back \<open>release\<close>; an error releases at once.\<close>

definition stmtRows :: "Stmt \<Rightarrow> queryRows act \<Rightarrow> Conn \<Rightarrow> queryRows res \<times> Stmt \<times> Conn" where
  "stmtRows s m c =
     (case m c of
        (Inl e, c1) \<Rightarrow> (Inl e, release s, c1)
      | (Inr rows, c1) \<Rightarrow> (Inr ((markStoredProcResult (stType s) rows)\<lparr>qrReleaseStmt := True\<rparr>), s, c1))"

definition stmtQueryContext ::
    "(go_error \<Rightarrow> string) \<Rightarrow> library \<Rightarrow> go_ctx \<Rightarrow> namedValue list \<Rightarrow> Stmt \<Rightarrow> Conn \<Rightarrow> queryRows res \<times> Stmt \<times> Conn" where
  "stmtQueryContext showErr lib ctx args s c =
     (case acquire s of
        (Inl e, s1) \<Rightarrow> (Inl e, s1, c)
      | (Inr _, s1) \<Rightarrow>
          if \<not> IsValid c then (Inl ErrBadConn, release s1, c)
          else if stName s1 \<noteq> [] \<and> args = [] then
            stmtRows s1 (if stType s1 = sqlStatementTypeCall then queryCallRows lib ctx (stHandle s1) (stName s1)
                         else queryPrepared lib ctx (stHandle s1) (stName s1)) c
          else if stName s1 \<noteq> [] \<and> stFormat s1 \<noteq> None \<and> args \<noteq> [] then
            (case reorderNamedArgs (stParamNames s1) args of
               Inl e \<Rightarrow> (Inl e, s1, c)
             | Inr ordered \<Rightarrow> stmtRows s1 (queryPreparedWithArgs showErr lib ctx (stHandle s1) (stName s1) (stFormat s1) ordered) c)
          else (Inl errPreparedStatementBindingUnsupported, release s1, c))"

definition stmtExecBatch ::
    "(go_error \<Rightarrow> string) \<Rightarrow> library \<Rightarrow> go_ctx \<Rightarrow> nat \<Rightarrow> namedValue list list res \<Rightarrow> Stmt \<Rightarrow> Conn \<Rightarrow> (int \<times> go_error option) \<times> Stmt \<times> Conn" where
  "stmtExecBatch showErr lib ctx given named s c =
     (case acquire s of
        (Inl e, s1) \<Rightarrow> ((0, Some e), s1, c)
      | (Inr _, s1) \<Rightarrow>
          if \<not> IsValid c then ((0, Some ErrBadConn), release s1, c)
          else if stName s1 = [] \<or> stFormat s1 = None then ((0, Some errPreparedStatementBindingUnsupported), release s1, c)
          else if given = 0 then ((0, None), release s1, c)
          else case execBatchPrepared showErr lib ctx (stQuery s1) (stHandle s1) (stType s1) (stFormat s1) named c of
            (r, c1) \<Rightarrow> (r, release s1, c1))"

definition stmtClose :: "library \<Rightarrow> Stmt \<Rightarrow> Conn \<Rightarrow> (unit res \<times> Stmt \<times> Conn) option" where
  "stmtClose lib s c =
     (if stClosed s then Some (Inr (), s, c)
      else if stActive s > 0 then None
      else
        let s1 = s\<lparr>stClosed := True\<rparr> in
        if stName s1 = [] \<or> \<not> IsValid c then Some (Inr (), s1, c)
        else case closePreparedStatement lib Background (stName s1) (stHandle s1) c of (r, c1) \<Rightarrow> Some (r, s1, c1))"

section \<open>A statement is in use exactly while somebody uses it\<close>

text \<open>
  The life of a statement: executions, batches, queries that return rows or fail, rows whose
  close calls the statement back, and \<open>Close\<close>, each on whatever state the connection is in.
  The number counts the rows that are still open. Queries whose named arguments do not match
  are left out here (see \<open>stmt_query_leaks\<close>).
\<close>

inductive stmt_step :: "library \<Rightarrow> Stmt \<times> nat \<Rightarrow> Stmt \<times> nat \<Rightarrow> bool" for lib where
  exec: "stmtExecContext decode showErr lib ctx args s d = Some (r, s1, d1) \<Longrightarrow> stmt_step lib (s, k) (s1, k)"
| batch: "stmtExecBatch showErr lib ctx given named s c = (r', s1, c1) \<Longrightarrow> stmt_step lib (s, k) (s1, k)"
| rows: "stmtQueryContext showErr lib ctx args s c = (Inr q, s1, c1) \<Longrightarrow> stmt_step lib (s, k) (s1, Suc k)"
| no_rows: "stmtQueryContext showErr lib ctx args s c = (Inl e, s1, c1) \<Longrightarrow> \<not> isl (reorderNamedArgs (stParamNames s) args) \<Longrightarrow>
    stmt_step lib (s, k) (s1, k)"
| rows_closed: "stmt_step lib (s, Suc k) (release s, k)"
| closed: "stmtClose lib s c = Some (r'', s1, c1) \<Longrightarrow> stmt_step lib (s, k) (s1, k)"

lemma acquire_release: "acquire s = (Inr u, s1) \<Longrightarrow> stActive (release s1) = stActive s"
  "acquire s = (Inr u, s1) \<Longrightarrow> stActive s1 = Suc (stActive s) \<and> stParamNames s1 = stParamNames s"
  "acquire s = (Inl e, s1) \<Longrightarrow> s1 = s"
  by (auto simp: acquire_def release_def split: if_splits)

lemma exec_active: "stmtExecContext decode showErr lib ctx args s d = Some (r, s1, d1) \<Longrightarrow> stActive s1 = stActive s"
  by (auto simp: stmtExecContext_def dest: acquire_release split: prod.splits sum.splits)

lemma batch_active: "stmtExecBatch showErr lib ctx given named s c = (r, s1, c1) \<Longrightarrow> stActive s1 = stActive s"
  by (auto simp: stmtExecBatch_def dest: acquire_release split: prod.splits sum.splits if_splits)

lemma stmtRows_active:
  "stmtRows s m c = (Inr q, s1, c1) \<Longrightarrow> s1 = s \<and> qrReleaseStmt q" "stmtRows s m c = (Inl e, s1, c1) \<Longrightarrow> s1 = release s"
  by (auto simp: stmtRows_def split: prod.splits sum.splits)

lemma query_active:
  "stmtQueryContext showErr lib ctx args s c = (Inr q, s1, c1) \<Longrightarrow> stActive s1 = Suc (stActive s)"
  "stmtQueryContext showErr lib ctx args s c = (Inl e, s1, c1) \<Longrightarrow> \<not> isl (reorderNamedArgs (stParamNames s) args) \<Longrightarrow>
    stActive s1 = stActive s"
  by (auto simp: stmtQueryContext_def dest!: stmtRows_active dest: acquire_release split: prod.splits sum.splits if_splits)

lemma close_active: "stmtClose lib s c = Some (r, s1, c1) \<Longrightarrow> stActive s1 = stActive s"
  by (auto simp: stmtClose_def Let_def split: if_splits prod.splits)

lemma stmt_step_active: "stmt_step lib (s, k) (s1, k1) \<Longrightarrow> stActive s = k \<Longrightarrow> stActive s1 = k1"
  by (erule stmt_step.cases) (auto dest: exec_active batch_active query_active close_active simp: release_def)

lemma stmt_active:
  assumes "(stmt_step lib)\<^sup>*\<^sup>* (newStmt q n h ty format names, 0) z"
  shows "stActive (fst z) = snd z"
  using assms
proof (induction rule: rtranclp_induct)
  case base
  then show ?case by (simp add: newStmt_def)
next
  case (step y z)
  with stmt_step_active [of lib "fst y" "snd y" "fst z" "snd z"] show ?case by simp
qed


definition exampleStmt :: Stmt where
  "exampleStmt = newStmt ''SELECT :a FROM T'' ''STMT0001'' 1 2
     (Some \<lparr>pmCodePoint = 0x3813, pmRecordSize = 0, pmFields = []\<rparr>) [''a'']"


text \<open>
  A query of a prepared statement whose named arguments do not match returns without
  giving the statement back: the use count stays raised with no rows that could lower it,
  so a later \<open>Close\<close> never returns.
\<close>

theorem stmt_query_leaks:
  assumes "IsValid c" "\<not> stClosed s" "stName s \<noteq> []" "stFormat s = Some f" "args \<noteq> []"
    and "reorderNamedArgs (stParamNames s) args = Inl e"
  shows "\<exists>s1. stmtQueryContext showErr lib ctx args s c = (Inl e, s1, c) \<and> stActive s1 = Suc (stActive s) \<and>
    stmtClose lib s1 d = None"
  using assms by (simp add: stmtQueryContext_def acquire_def stmtClose_def)

theorem stmt_query_leaks_witness:
  "\<exists>s1 e. stmtQueryContext (\<lambda>e. []) exampleLibrary Background [\<lparr>nvName = ''b'', nvOrdinal = 1, nvValue = VNil\<rparr>] exampleStmt (exampleConn []) =
      (Inl e, s1, exampleConn []) \<and> stmtClose exampleLibrary s1 (exampleConn []) = None"
proof -
  let ?args = "[\<lparr>nvName = ''b'', nvOrdinal = 1, nvValue = VNil\<rparr>]"
  have "isl (reorderNamedArgs (stParamNames exampleStmt) ?args)"
    by (simp add: exampleStmt_def newStmt_def reorderNamedArgs_def lookup_name_def)
  then obtain e where e: "reorderNamedArgs (stParamNames exampleStmt) ?args = Inl e" by (auto simp: isl_def)
  have "IsValid (exampleConn [])" "\<not> stClosed exampleStmt" "stName exampleStmt \<noteq> []"
    "stFormat exampleStmt = Some \<lparr>pmCodePoint = 0x3813, pmRecordSize = 0, pmFields = []\<rparr>"
    by (simp_all add: exampleConn_def IsValid_def exampleStmt_def newStmt_def)
  from stmt_query_leaks [OF this _ e] show ?thesis by blast
qed

end
