(* ===== verification/Attributes.thy ===== *)
theory Attributes
  imports Tx "HOL-Library.AList"
begin

text \<open>
  The attributes of the server job: the set-attributes request with every option of the
  configuration, the library list, the client info values (\<open>src/dbconn.go\<close>,
  \<open>src/clientinfo.go\<close>) and \<open>ResetSession\<close> (\<open>src/driver.go\<close>). The case mappings of Go's
  \<open>unicode\<close> package are the parameter \<open>ct\<close>: the upper case of a rune and a representative of its
  class under simple folding. The lemmas show that a server reads the request back as exactly
  the configured attributes, what the library list does on the server, and that a session that
  was reset is as it was after it was opened.
\<close>

section \<open>Definitions\<close>

subsection \<open>Case mappings\<close>

record caseTables =
  ctUpper :: "nat \<Rightarrow> nat"
  ctFold :: "nat \<Rightarrow> nat"

definition ToUpperBy :: "caseTables \<Rightarrow> string \<Rightarrow> string" where
  "ToUpperBy ct s = string_of_runes (map (ctUpper ct) (runes s))"

definition EqualFold :: "caseTables \<Rightarrow> string \<Rightarrow> string \<Rightarrow> bool" where
  "EqualFold ct s t \<longleftrightarrow> map (ctFold ct) (runes s) = map (ctFold ct) (runes t)"

subsection \<open>Attribute helpers\<close>

definition appendEBCDIC37StringAttribute :: "tables \<Rightarrow> bytes \<Rightarrow> u16 \<Rightarrow> string \<Rightarrow> bytes res" where
  "appendEBCDIC37StringAttribute fs dst codePoint value =
     res_bind (EncodeEBCDIC37 fs value) (\<lambda>encoded.
       Inr (appendBytes (appendU16 (appendU16 (appendU16 (appendU32 dst (word_of_nat (10 + length encoded))) codePoint) 37)
              (word_of_nat (length encoded))) encoded))"

definition appendEBCDIC37FixedAttribute :: "tables \<Rightarrow> bytes \<Rightarrow> u16 \<Rightarrow> string \<Rightarrow> nat \<Rightarrow> bytes res" where
  "appendEBCDIC37FixedAttribute fs dst codePoint value sz =
     res_bind (EncodeEBCDIC37BlankPad fs value sz) (\<lambda>encoded.
       Inr (appendBytes (appendU16 (appendU16 (appendU16 (appendU32 dst (word_of_nat (10 + length encoded))) codePoint) 37)
              (word_of_nat (length encoded))) encoded))"

definition buildCancelRequest :: "tables \<Rightarrow> u16 \<Rightarrow> string \<Rightarrow> bytes res" where
  "buildCancelRequest fs statementHandle jobIdentifier =
     res_bind (appendEBCDIC37FixedAttribute fs [] 0x3826 jobIdentifier 26) (\<lambda>body.
       Inr (finishRequest 0x1818 orsSendReplyImmediately statementHandle 0 1 body))"

subsection \<open>Values from the configuration\<close>

definition clientFunctionalLevel :: string where "clientFunctionalLevel = ''V7R2M01   ''"
definition interfaceName :: string where "interfaceName = ''jtopenlite''"
definition interfaceLevel :: string where "interfaceLevel = ''20230219''"
definition interfaceType :: string where "interfaceType = ''JDBC''"
definition closeOnEOFMinVRM :: int where "closeOnEOFMinVRM = 0x060100"
definition defaultDecimalMaxPrecision :: int where "defaultDecimalMaxPrecision = 31"

definition decimalPrecisionIndicators :: "Config \<Rightarrow> bytes" where
  "decimalPrecisionIndicators cfg =
     (let p0 = (if cfgDecimalMaxPrecision cfg \<noteq> 63 then defaultDecimalMaxPrecision else cfgDecimalMaxPrecision cfg);
          p = (if cfgDecimalMaxScale cfg > 31 then 63 else p0) in
      bytesU16 (word_of_int p) @ bytesU16 (word_of_int (cfgDecimalMaxScale cfg)) @ bytesU16 (word_of_int (cfgMinimumDivideScale cfg)))"

definition queryOptimizeGoalValue :: "int \<Rightarrow> byte" where
  "queryOptimizeGoalValue goal = (if goal = 1 then 0xC6 else if goal = 2 then 0xC1 else 0)"

definition namingConventionValue :: "NamingConvention \<Rightarrow> u16" where
  "namingConventionValue naming = (if naming = NamingSystem then 1 else 0)"

definition normalizeServerIdentifier :: "caseTables \<Rightarrow> string \<Rightarrow> string" where
  "normalizeServerIdentifier ct value =
     (let trimmed = TrimSpace value in
      if trimmed = [] then [] else if HasPrefix trimmed [CHR 0x22] then trimmed else ToUpperBy ct trimmed)"

definition defaultSQLLibrary :: "caseTables \<Rightarrow> Config \<Rightarrow> string" where
  "defaultSQLLibrary ct cfg =
     (let schema = normalizeServerIdentifier ct (cfgSchema cfg) in
      if schema \<noteq> [] then schema
      else if cfgNaming cfg \<noteq> NamingSQL then []
      else case find (\<lambda>n. \<not> (n = [] \<or> EqualFold ct n ''*LIBL'')) (map (normalizeServerIdentifier ct) (cfgLibraries cfg)) of
        None \<Rightarrow> [] | Some n \<Rightarrow> n)"

subsection \<open>Client info\<close>

definition clientInfoMinVRM :: int where "clientInfoMinVRM = 0x060100"
definition clientInfoMaxBytes :: nat where "clientInfoMaxBytes = 255"
definition defaultQueryStorageLimit :: int where "defaultQueryStorageLimit = -1"
definition maxQueryStorageLimit :: int where "maxQueryStorageLimit = 2147352578"

definition clientInfoAttributes :: "(string \<times> u16) list" where
  "clientInfoAttributes =
     [(''ApplicationName'', 0x3838), (''ClientUser'', 0x3839), (''ClientAccounting'', 0x3837),
      (''ClientHostname'', 0x383A), (''ClientProgramID'', 0x383B)]"

definition clientInfoCodePoint :: "string \<Rightarrow> u16 option" where
  "clientInfoCodePoint name = map_of clientInfoAttributes name"

definition clientInfoDSNValue :: "Config \<Rightarrow> string \<Rightarrow> string" where
  "clientInfoDSNValue cfg name =
     (if name = ''ApplicationName'' then cfgApplicationName cfg
      else if name = ''ClientUser'' then cfgClientUser cfg
      else if name = ''ClientAccounting'' then cfgClientAccounting cfg
      else if name = ''ClientHostname'' then cfgClientHostname cfg
      else if name = ''ClientProgramID'' then cfgClientProgramID cfg
      else [])"

definition clampQueryStorageLimit :: "int \<Rightarrow> int" where
  "clampQueryStorageLimit limit =
     (if limit < -1 then -1 else if limit > maxQueryStorageLimit then maxQueryStorageLimit else limit)"

definition appendClientInfoAttribute :: "tables \<Rightarrow> bytes \<Rightarrow> u16 \<Rightarrow> string \<Rightarrow> bytes res" where
  "appendClientInfoAttribute fs dst codePoint value =
     res_bind (EncodeEBCDIC37 fs value) (\<lambda>encoded.
       if length encoded > clientInfoMaxBytes
       then Inl (Errorf ''client info value longer than %d bytes'' [FInt (int clientInfoMaxBytes)])
       else Inr (appendBytes (appendU16 (appendU16 (appendU16 (appendU32 dst (word_of_nat (10 + length encoded))) codePoint) 37)
              (word_of_nat (length encoded))) encoded))"

text \<open>The client info values that are set, in order; the state is the body and the count.\<close>

fun appendClientInfos :: "tables \<Rightarrow> Config \<Rightarrow> (string \<times> u16) list \<Rightarrow> bytes \<times> nat \<Rightarrow> (bytes \<times> nat) res" where
  "appendClientInfos fs cfg [] st = Inr st"
| "appendClientInfos fs cfg ((name, cp) # attrs) (dst, count) =
     (let value = clientInfoDSNValue cfg name in
      if value = [] then appendClientInfos fs cfg attrs (dst, count)
      else res_bind (appendClientInfoAttribute fs dst cp value) (\<lambda>dst1. appendClientInfos fs cfg attrs (dst1, count + 1)))"

definition appendVRMOptionAttributes :: "tables \<Rightarrow> bytes \<Rightarrow> Config \<Rightarrow> int \<Rightarrow> (bytes \<times> nat) res" where
  "appendVRMOptionAttributes fs dst cfg serverVRM =
     (if serverVRM < clientInfoMinVRM then Inr (dst, 0)
      else res_bind (appendClientInfos fs cfg clientInfoAttributes (dst, 0)) (\<lambda>(dst1, count).
        if cfgQueryStorageLimit cfg \<noteq> defaultQueryStorageLimit
        then Inr (appendIntAttribute dst1 0x3834 (word_of_int (clampQueryStorageLimit (cfgQueryStorageLimit cfg))), count + 1)
        else Inr (dst1, count)))"

definition buildSetClientInfoRequest :: "tables \<Rightarrow> u16 \<Rightarrow> string \<Rightarrow> bytes res" where
  "buildSetClientInfoRequest fs codePoint value =
     res_bind (appendClientInfoAttribute fs [] codePoint value) (\<lambda>body.
       Inr (finishRequest 0x1F80 (orsSendReplyImmediately OR 0x01000000) 0 0 1 body))"

subsection \<open>The set-attributes request\<close>

text \<open>\<open>attr\<close> is one append with \<open>parmCount++\<close>.\<close>

definition attr :: "(bytes \<Rightarrow> bytes) \<Rightarrow> bytes \<times> nat \<Rightarrow> bytes \<times> nat" where
  "attr f st = (f (fst st), snd st + 1)"

definition attr_if :: "bool \<Rightarrow> (bytes \<Rightarrow> bytes) \<Rightarrow> bytes \<times> nat \<Rightarrow> bytes \<times> nat" where
  "attr_if b f st = (if b then attr f st else st)"

definition attr_text :: "tables \<Rightarrow> u16 \<Rightarrow> string \<Rightarrow> bytes \<times> nat \<Rightarrow> (bytes \<times> nat) res" where
  "attr_text fs cp value st =
     res_bind (appendEBCDIC37StringAttribute fs (fst st) cp value) (\<lambda>body. Inr (body, snd st + 1))"

definition formatAttributes :: "Config \<Rightarrow> bool \<Rightarrow> int \<Rightarrow> bytes \<times> nat \<Rightarrow> bytes \<times> nat" where
  "formatAttributes cfg autoCommit commitmentControl st =
     (let s1 = attr (\<lambda>b. appendShortAttribute b 0x380C (namingConventionValue (cfgNaming cfg))) st;
          s2 = attr (\<lambda>b. appendShortAttribute b 0x380E (serverCommitmentControl cfg autoCommit commitmentControl)) s1;
          s3 = attr (\<lambda>b. appendByteAttribute b 0x3824 (autoCommitIndicator autoCommit)) s2;
          s4 = attr (\<lambda>b. appendByteAttribute b 0x3821 0xF2) s3;
          s5 = attr (\<lambda>b. b @ buildSetPackageAddAttribute cfg) s4;
          s6 = attr (\<lambda>b. appendShortAttribute b 0x3807 (word_of_int (cfgDateFormat cfg))) s5;
          s7 = attr (\<lambda>b. appendShortAttribute b 0x3808 (word_of_int (cfgDateSeparator cfg))) s6;
          s8 = attr (\<lambda>b. appendShortAttribute b 0x3809 (word_of_int (cfgTimeFormat cfg))) s7;
          s9 = attr (\<lambda>b. appendShortAttribute b 0x380A (word_of_int (cfgTimeSeparator cfg))) s8;
          s10 = attr (\<lambda>b. appendShortAttribute b 0x380B (word_of_int (cfgDecimalSeparator cfg))) s9;
          s11 = attr (\<lambda>b. appendRawAttribute b 0x3827 (decimalPrecisionIndicators cfg)) s10 in
      attr (\<lambda>b. appendIntAttribute b 0x3822 (lobThresholdValue cfg)) s11)"

definition optionAttributes :: "Config \<Rightarrow> int \<Rightarrow> bytes \<times> nat \<Rightarrow> bytes \<times> nat" where
  "optionAttributes cfg serverVRM st =
     (let goal = queryOptimizeGoalValue (cfgQueryOptimizeGoal cfg);
          s1 = attr_if (goal \<noteq> 0) (\<lambda>b. appendByteAttribute b 0x3833 goal) st;
          s2 = attr_if (cfgDecfloatRoundingMode cfg \<noteq> 0)
                 (\<lambda>b. appendShortAttribute b 0x3835 (word_of_int (cfgDecfloatRoundingMode cfg))) s1 in
      attr_if (serverVRM \<ge> closeOnEOFMinVRM) (\<lambda>b. appendByteAttribute b 0x383F 0xE8) s2)"

definition clientAttributes :: "bytes \<times> nat \<Rightarrow> bytes \<times> nat" where
  "clientAttributes st =
     (let s1 = attr (\<lambda>b. appendByteAttribute b 0x3805 0xF0) st;
          s2 = attr (\<lambda>b. appendShortAttribute b 0x3806 1) s1 in
      attr (\<lambda>b. appendIntAttribute b 0x3825 0xF6000000) s2)"

definition buildSetServerAttributesRequestVRM ::
  "tables \<Rightarrow> caseTables \<Rightarrow> Config \<Rightarrow> bool \<Rightarrow> int \<Rightarrow> int \<Rightarrow> bytes res" where
  "buildSetServerAttributesRequestVRM fs ct cfg autoCommit commitmentControl serverVRM =
     res_bind (attr_text fs 0x3803 clientFunctionalLevel (attr (\<lambda>b. appendShortAttribute b 0x3801 13488) ([], 0))) (\<lambda>s1.
     let s2 = optionAttributes cfg serverVRM (formatAttributes cfg autoCommit commitmentControl s1) in
     res_bind (appendVRMOptionAttributes fs (fst s2) cfg serverVRM) (\<lambda>(body, optionCount).
     res_bind (attr_text fs 0x383C interfaceType (clientAttributes (body, snd s2 + optionCount))) (\<lambda>s3.
     res_bind (attr_text fs 0x383D interfaceName s3) (\<lambda>s4.
     res_bind (attr_text fs 0x383E interfaceLevel s4) (\<lambda>s5.
     res_bind (if defaultSQLLibrary ct cfg \<noteq> [] then attr_text fs 0x380F (defaultSQLLibrary ct cfg) s5 else Inr s5) (\<lambda>(body, parmCount).
       Inr (finishRequest 0x1F80 (orsSendReplyImmediately OR 0x01000000) 0 0 parmCount body)))))))"

subsection \<open>The library list\<close>

definition containsNormalizedIdentifier :: "caseTables \<Rightarrow> string list \<Rightarrow> string \<Rightarrow> bool" where
  "containsNormalizedIdentifier ct values want \<longleftrightarrow> list_ex (\<lambda>value. EqualFold ct value want) values"

definition libraryTokens :: "caseTables \<Rightarrow> Config \<Rightarrow> string list" where
  "libraryTokens ct cfg =
     (let tokens = filter (\<lambda>t. t \<noteq> []) (map (normalizeServerIdentifier ct) (cfgLibraries cfg));
          schema = normalizeServerIdentifier ct (cfgSchema cfg) in
      if schema \<noteq> [] \<and> length schema \<le> 10 \<and> \<not> containsNormalizedIdentifier ct tokens schema then schema # tokens else tokens)"

text \<open>The number of libraries before the first \<open>*LIBL\<close>, or -1.\<close>

fun liblScan :: "caseTables \<Rightarrow> string list \<Rightarrow> int \<Rightarrow> nat \<Rightarrow> int" where
  "liblScan ct [] liblIndex frontCount = liblIndex"
| "liblScan ct (token # tokens) liblIndex frontCount =
     (if EqualFold ct token ''*LIBL''
      then liblScan ct tokens (if liblIndex = -1 then int frontCount else liblIndex) frontCount
      else liblScan ct tokens liblIndex (frontCount + 1))"

text \<open>The state is the indicators and the libraries; \<open>nonLiblIndex\<close> is their number.\<close>

fun collectLibraries :: "caseTables \<Rightarrow> int \<Rightarrow> string list \<Rightarrow> string \<times> string list \<Rightarrow> string \<times> string list" where
  "collectLibraries ct liblIndex [] st = st"
| "collectLibraries ct liblIndex (token # tokens) (indicators, libraries) =
     (if EqualFold ct token ''*LIBL'' then collectLibraries ct liblIndex tokens (indicators, libraries)
      else
        let indicator = (if liblIndex \<ge> 0 then (if int (length libraries) < liblIndex then CHR ''F'' else CHR ''L'')
                         else if libraries \<noteq> [] then CHR ''L'' else CHR ''C'') in
        collectLibraries ct liblIndex tokens (indicators @ [indicator], libraries @ [token]))"

text \<open>The swaps from both ends.\<close>

fun swapEnds :: "'a list \<Rightarrow> nat \<Rightarrow> nat \<Rightarrow> 'a list" where
  "swapEnds xs left right = (if left < right then swapEnds (xs[left := xs ! right, right := xs ! left]) (left + 1) (right - 1) else xs)"

declare swapEnds.simps [simp del]

definition configuredLibraryList :: "caseTables \<Rightarrow> Config \<Rightarrow> string \<times> string list" where
  "configuredLibraryList ct cfg =
     (let tokens = libraryTokens ct cfg; liblIndex = liblScan ct tokens (-1) 0;
          (indicators, libraries) = collectLibraries ct liblIndex tokens ([], []) in
      if liblIndex > 1
      then (swapEnds indicators 0 (nat liblIndex - 1), swapEnds libraries 0 (nat liblIndex - 1))
      else (indicators, libraries))"

fun libraryEntries :: "tables \<Rightarrow> (char \<times> string) list \<Rightarrow> bytes res" where
  "libraryEntries fs [] = Inr []"
| "libraryEntries fs ((indicator, library) # rest) =
     res_bind (EncodeEBCDIC37 fs [indicator]) (\<lambda>ib.
     res_bind (EncodeEBCDIC37 fs library) (\<lambda>lb.
       case ib of [] \<Rightarrow> Inl (Panic ''index out of range'')
       | b # _ \<Rightarrow> res_bind (libraryEntries fs rest) (\<lambda>more. Inr (b # bytesU16 (word_of_nat (length lb)) @ lb @ more))))"

definition appendLibraryListAttribute :: "tables \<Rightarrow> bytes \<Rightarrow> string \<Rightarrow> string list \<Rightarrow> bytes res" where
  "appendLibraryListAttribute fs dst indicators libraries =
     (if length indicators < length libraries then Inl (Panic ''index out of range'')
      else res_bind (libraryEntries fs (zip indicators libraries)) (\<lambda>entries.
        Inr (AppendLLCP dst 0x3813 (bytesU16 37 @ bytesU16 (word_of_nat (length libraries)) @ entries))))"

definition NativeDatabaseServerID :: u16 where "NativeDatabaseServerID = 0xE005"

definition buildAddLibraryListRequest :: "tables \<Rightarrow> caseTables \<Rightarrow> Config \<Rightarrow> bytes option res" where
  "buildAddLibraryListRequest fs ct cfg =
     (case configuredLibraryList ct cfg of (indicators, libraries) \<Rightarrow>
        if libraries = [] then Inr None
        else res_bind (appendLibraryListAttribute fs [] indicators libraries) (\<lambda>body.
          Inr (Some (appendRequestTemplate (buildHeader (word_of_nat (40 + length body)) 0 NativeDatabaseServerID 20 0x180C)
                       orsSendReplyImmediately 0 0 1 @ body))))"

subsection \<open>Operations of a connection\<close>

definition serverVersion :: "Conn \<Rightarrow> int" where
  "serverVersion c = (case cnSystemInfo c of None \<Rightarrow> 0 | Some s \<Rightarrow> syVersion s)"

definition envelopeError :: "string \<Rightarrow> replyEnvelope \<Rightarrow> go_error" where
  "envelopeError what envelope =
     Errorf (what @ '' failed: class=%d code=0x%x'') [FInt (uint (envRCClass envelope)), FInt (envRCCode envelope mod 2 ^ 32)]"

definition attributesRequest :: "library \<Rightarrow> caseTables \<Rightarrow> bool \<Rightarrow> Conn \<Rightarrow> bytes res" where
  "attributesRequest lib ct autoCommit c =
     buildSetServerAttributesRequestVRM (lbTables lib) ct (cnCfg c) autoCommit (currentCommitmentMode c) (serverVersion c)"

definition setServerAttributes :: "library \<Rightarrow> caseTables \<Rightarrow> go_ctx \<Rightarrow> bool \<Rightarrow> unit act" where
  "setServerAttributes lib ct ctx autoCommit =
     act_bind (act_get (attributesRequest lib ct autoCommit)) (\<lambda>built.
     act_bind (act_res built) (\<lambda>request.
     act_bind (doRequest ctx request) (\<lambda>(envelope, _).
       if hasError envelope then act_fail (envelopeError ''database server attributes'' envelope)
       else act_modify (\<lambda>c. c\<lparr>cnAutoCommit := autoCommit\<rparr>))))"

definition addConfiguredLibraries :: "library \<Rightarrow> caseTables \<Rightarrow> go_ctx \<Rightarrow> unit act" where
  "addConfiguredLibraries lib ct ctx =
     act_bind (act_get (\<lambda>c. buildAddLibraryListRequest (lbTables lib) ct (cnCfg c))) (\<lambda>built.
     act_bind (act_res built) (\<lambda>request.
       case request of None \<Rightarrow> act_return ()
       | Some rq \<Rightarrow> act_bind (doRequest ctx rq) (\<lambda>(envelope, _).
           if hasError envelope then act_fail (envelopeError ''database add library list'' envelope) else act_return ())))"

definition ErrUnknownClientInfo :: go_error where
  "ErrUnknownClientInfo = Errorf ''as400 driver: unknown client info name'' []"

definition ClientInfo :: "Conn \<Rightarrow> string \<Rightarrow> string" where
  "ClientInfo c name =
     (case clientInfoCodePoint name of None \<Rightarrow> []
      | Some _ \<Rightarrow> (case map_of (cnClientInfo c) name of Some v \<Rightarrow> v | None \<Rightarrow> clientInfoDSNValue (cnCfg c) name))"

definition restoreValue :: "string \<Rightarrow> string option \<Rightarrow> Conn \<Rightarrow> Conn" where
  "restoreValue name previous c =
     c\<lparr>cnClientInfo := (case previous of Some v \<Rightarrow> AList.update name v (cnClientInfo c)
                        | None \<Rightarrow> AList.delete name (cnClientInfo c))\<rparr>"

definition SetClientInfo :: "library \<Rightarrow> go_ctx \<Rightarrow> string \<Rightarrow> string \<Rightarrow> unit act" where
  "SetClientInfo lib ctx name value c =
     (case clientInfoCodePoint name of
        None \<Rightarrow> (Inl (Wrap ErrUnknownClientInfo ''%q'' [FStr name]), c)
      | Some codePoint \<Rightarrow>
          let store = c\<lparr>cnClientInfo := AList.update name value (cnClientInfo c)\<rparr>;
              previous = map_of (cnClientInfo c) name in
          if \<not> serverVRMAtLeast clientInfoMinVRM c then (Inr (), store)
          else if \<not> IsValid c then (Inl ErrBadConn, c)
          else case buildSetClientInfoRequest (lbTables lib) codePoint value of
            Inl e \<Rightarrow> (Inl e, c)
          | Inr request \<Rightarrow>
              (case request_checked (lbTables lib) ctx 0 ''set client info'' (doRequest ctx request) store of
                 (Inl e, c1) \<Rightarrow> (Inl e, restoreValue name previous c1)
               | (Inr _, c1) \<Rightarrow> (Inr (), c1)))"

fun restoreInfos :: "library \<Rightarrow> go_ctx \<Rightarrow> (string \<times> string) list \<Rightarrow> (string \<times> u16) list \<Rightarrow> unit act" where
  "restoreInfos lib ctx changed [] = act_return ()"
| "restoreInfos lib ctx changed ((name, cp) # attrs) =
     (if map_of changed name = None then restoreInfos lib ctx changed attrs
      else act_bind (act_get (\<lambda>c. buildSetClientInfoRequest (lbTables lib) cp (clientInfoDSNValue (cnCfg c) name))) (\<lambda>built.
           act_bind (act_res built) (\<lambda>request.
           act_bind (request_checked (lbTables lib) ctx 0 ''restore client info'' (doRequest ctx request)) (\<lambda>_.
             restoreInfos lib ctx changed attrs))))"

definition restoreClientInfo :: "library \<Rightarrow> go_ctx \<Rightarrow> unit act" where
  "restoreClientInfo lib ctx =
     act_bind (act_get cnClientInfo) (\<lambda>changed.
     act_bind (act_modify (\<lambda>c. c\<lparr>cnClientInfo := []\<rparr>)) (\<lambda>_.
     act_bind (act_get (serverVRMAtLeast clientInfoMinVRM)) (\<lambda>sent.
       if changed = [] \<or> \<not> sent then act_return () else restoreInfos lib ctx changed clientInfoAttributes)))"

definition resetSteps :: "library \<Rightarrow> caseTables \<Rightarrow> go_ctx \<Rightarrow> unit act" where
  "resetSteps lib ct ctx =
     act_bind (act_modify ClearWarnings) (\<lambda>_.
     act_bind (act_get cnAutoCommit) (\<lambda>autoCommit.
     act_bind (if \<not> autoCommit then rollbackTransaction lib ctx else act_return ()) (\<lambda>_.
     act_bind (act_modify (\<lambda>c. setCurrentCommitmentControl (cfgCommitmentControl (cnCfg c)) c)) (\<lambda>_.
     act_bind (setServerAttributes lib ct ctx True) (\<lambda>_.
     act_bind (restoreClientInfo lib ctx) (\<lambda>_. addConfiguredLibraries lib ct ctx))))))"

definition ResetSession :: "library \<Rightarrow> caseTables \<Rightarrow> go_ctx \<Rightarrow> unit act" where
  "ResetSession lib ct ctx c =
     (case ctxErr ctx (cnClock c) of
        Some e \<Rightarrow> (Inl e, c)
      | None \<Rightarrow> if \<not> IsValid c then (Inl ErrBadConn, c) else resetSteps lib ct ctx c)"

section \<open>What the server reads\<close>

text \<open>The attributes of a configuration, in the order they are sent.\<close>

definition format_params :: "Config \<Rightarrow> bool \<Rightarrow> int \<Rightarrow> (u16 \<times> bytes) list" where
  "format_params cfg autoCommit commitmentControl =
     [(0x380C, bytesU16 (namingConventionValue (cfgNaming cfg))),
      (0x380E, bytesU16 (serverCommitmentControl cfg autoCommit commitmentControl)), (0x3824, [autoCommitIndicator autoCommit]),
      (0x3821, [0xF2]), (0x3812, bytesU16 (if cfgPackageAddDisabled cfg then 0 else 1)),
      (0x3807, bytesU16 (word_of_int (cfgDateFormat cfg))), (0x3808, bytesU16 (word_of_int (cfgDateSeparator cfg))),
      (0x3809, bytesU16 (word_of_int (cfgTimeFormat cfg))), (0x380A, bytesU16 (word_of_int (cfgTimeSeparator cfg))),
      (0x380B, bytesU16 (word_of_int (cfgDecimalSeparator cfg))), (0x3827, decimalPrecisionIndicators cfg),
      (0x3822, bytesU32 (lobThresholdValue cfg))]"

definition option_params :: "Config \<Rightarrow> int \<Rightarrow> (u16 \<times> bytes) list" where
  "option_params cfg serverVRM =
     (let goal = queryOptimizeGoalValue (cfgQueryOptimizeGoal cfg) in if goal \<noteq> 0 then [(0x3833, [goal])] else []) @
     (if cfgDecfloatRoundingMode cfg \<noteq> 0 then [(0x3835, bytesU16 (word_of_int (cfgDecfloatRoundingMode cfg)))] else []) @
     (if serverVRM \<ge> closeOnEOFMinVRM then [(0x383F, [0xE8])] else [])"

definition info_params :: "tables \<Rightarrow> Config \<Rightarrow> (string \<times> u16) list \<Rightarrow> (u16 \<times> bytes) list" where
  "info_params fs cfg attrs =
     map (\<lambda>(name, cp). name_param fs cp (clientInfoDSNValue cfg name)) (filter (\<lambda>(name, cp). clientInfoDSNValue cfg name \<noteq> []) attrs)"

definition vrm_params :: "tables \<Rightarrow> Config \<Rightarrow> int \<Rightarrow> (u16 \<times> bytes) list" where
  "vrm_params fs cfg serverVRM =
     (if serverVRM < clientInfoMinVRM then []
      else info_params fs cfg clientInfoAttributes @
        (if cfgQueryStorageLimit cfg \<noteq> defaultQueryStorageLimit
         then [(0x3834, bytesU32 (word_of_int (clampQueryStorageLimit (cfgQueryStorageLimit cfg))))] else []))"

definition library_param :: "tables \<Rightarrow> caseTables \<Rightarrow> Config \<Rightarrow> (u16 \<times> bytes) list" where
  "library_param fs ct cfg = (if defaultSQLLibrary ct cfg \<noteq> [] then [name_param fs 0x380F (defaultSQLLibrary ct cfg)] else [])"

definition attributes_meaning :: "tables \<Rightarrow> caseTables \<Rightarrow> Config \<times> bool \<times> int \<times> int \<Rightarrow> request" where
  "attributes_meaning fs ct = (\<lambda>(cfg, autoCommit, commitmentControl, serverVRM).
     req 0x1F80 (orsSendReplyImmediately OR 0x01000000) 0 0
       ([(0x3801, bytesU16 13488), name_param fs 0x3803 clientFunctionalLevel] @ format_params cfg autoCommit commitmentControl @
        option_params cfg serverVRM @ vrm_params fs cfg serverVRM @
        [(0x3805, [0xF0]), (0x3806, bytesU16 1), (0x3825, bytesU32 0xF6000000), name_param fs 0x383C interfaceType,
         name_param fs 0x383D interfaceName, name_param fs 0x383E interfaceLevel] @ library_param fs ct cfg))"

text \<open>A state of the builder: the parameters so far and their number.\<close>

definition built :: "(u16 \<times> bytes) list \<Rightarrow> bytes \<times> nat" where
  "built ps = (params ps, length ps)"

lemma string_attribute: "appendEBCDIC37StringAttribute fs dst cp v = Inr b \<Longrightarrow> b = dst @ params [name_param fs cp v]"
proof -
  have "appendEBCDIC37StringAttribute fs dst cp v = res_bind (appendNameAttribute fs cp v) (\<lambda>a. Inr (dst @ a))"
    by (cases "EncodeEBCDIC37 fs v")
      (simp_all add: appendEBCDIC37StringAttribute_def appendNameAttribute_def appendU32_def appendU16_def appendBytes_def)
  then show "appendEBCDIC37StringAttribute fs dst cp v = Inr b \<Longrightarrow> ?thesis" by (auto simp: res_bind_eq_Inr dest!: appendNameAttribute_Inr)
qed

lemma info_attribute: "appendClientInfoAttribute fs dst cp v = Inr b \<Longrightarrow> b = dst @ params [name_param fs cp v]"
proof (rule string_attribute)
  assume "appendClientInfoAttribute fs dst cp v = Inr b"
  then show "appendEBCDIC37StringAttribute fs dst cp v = Inr b"
    by (cases "EncodeEBCDIC37 fs v") (simp_all add: appendClientInfoAttribute_def appendEBCDIC37StringAttribute_def split: if_splits)
qed

lemma attr_built:
  "attr (\<lambda>b. appendByteAttribute b cp x) (built ps) = built (ps @ [(cp, [x])])"
  "attr (\<lambda>b. appendShortAttribute b cp v) (built ps) = built (ps @ [(cp, bytesU16 v)])"
  "attr (\<lambda>b. appendIntAttribute b cp w) (built ps) = built (ps @ [(cp, bytesU32 w)])"
  "attr (\<lambda>b. appendRawAttribute b cp bs) (built ps) = built (ps @ [(cp, bs)])"
  "attr (\<lambda>b. b @ buildSetPackageAddAttribute cfg) (built ps) = built (ps @ [(0x3812, bytesU16 (if cfgPackageAddDisabled cfg then 0 else 1))])"
  by (simp_all add: attr_def built_def attribute_params(1-5) buildSetPackageAddAttribute_def)

lemma attr_if_built:
  assumes "attr f (built ps) = built (ps @ [p])"
  shows "attr_if b f (built ps) = built (ps @ (if b then [p] else []))"
  using assms by (simp add: attr_if_def)

lemma attr_text_built: "attr_text fs cp v (built ps) = Inr st \<Longrightarrow> st = built (ps @ [name_param fs cp v])"
  by (cases "appendEBCDIC37StringAttribute fs (params ps) cp v")
    (auto simp: attr_text_def built_def dest!: string_attribute)

lemma formatAttributes_built: "formatAttributes cfg a c (built ps) = built (ps @ format_params cfg a c)"
  by (simp add: formatAttributes_def Let_def attr_built format_params_def)

lemma optionAttributes_built: "optionAttributes cfg v (built ps) = built (ps @ option_params cfg v)"
  by (simp add: optionAttributes_def option_params_def Let_def attr_if_built [OF attr_built(1)] attr_if_built [OF attr_built(2)])

lemma clientAttributes_built:
  "clientAttributes (built ps) = built (ps @ [(0x3805, [0xF0]), (0x3806, bytesU16 1), (0x3825, bytesU32 0xF6000000)])"
  by (simp add: clientAttributes_def Let_def attr_built)

lemma appendClientInfos_built:
  "appendClientInfos fs cfg attrs (dst, n) = Inr st \<Longrightarrow>
   st = (dst @ params (info_params fs cfg attrs), n + length (info_params fs cfg attrs))"
proof (induction fs cfg attrs "(dst, n)" arbitrary: dst n rule: appendClientInfos.induct)
  case (2 fs cfg name cp attrs dst n)
  show ?case
  proof (cases "clientInfoDSNValue cfg name = []")
    case True
    then show ?thesis using 2 by (simp add: info_params_def)
  next
    case False
    with "2.prems" obtain dst1 where d: "appendClientInfoAttribute fs dst cp (clientInfoDSNValue cfg name) = Inr dst1"
      "appendClientInfos fs cfg attrs (dst1, n + 1) = Inr st"
      by (cases "appendClientInfoAttribute fs dst cp (clientInfoDSNValue cfg name)") (simp_all add: Let_def)
    have "st = (dst1 @ params (info_params fs cfg attrs), (n + 1) + length (info_params fs cfg attrs))"
      using "2.hyps"(2) [OF refl False d] .
    then show ?thesis using info_attribute [OF d(1)] False by (simp add: info_params_def params_join del: params_simps(2,3))
  qed
qed (simp add: info_params_def)

lemma vrmAttributes_built:
  "appendVRMOptionAttributes fs (params ps) cfg v = Inr (body, n) \<Longrightarrow> (body, length ps + n) = built (ps @ vrm_params fs cfg v)"
proof (cases "v < clientInfoMinVRM")
  case False
  assume "appendVRMOptionAttributes fs (params ps) cfg v = Inr (body, n)"
  with False obtain st where st: "appendClientInfos fs cfg clientInfoAttributes (params ps, 0) = Inr st"
    "(if cfgQueryStorageLimit cfg \<noteq> defaultQueryStorageLimit
      then (appendIntAttribute (fst st) 0x3834 (word_of_int (clampQueryStorageLimit (cfgQueryStorageLimit cfg))), snd st + 1)
      else st) = (body, n)"
    by (auto simp: appendVRMOptionAttributes_def res_bind_eq_Inr split: if_splits)
  show ?thesis using appendClientInfos_built [OF st(1)] st(2) False
    by (auto simp: vrm_params_def built_def attribute_params(1-5) split: if_splits)
qed (simp add: appendVRMOptionAttributes_def vrm_params_def built_def)

lemma attributes_built:
  assumes "buildSetServerAttributesRequestVRM fs ct cfg a c v = Inr packet"
  shows "packet = request_bytes (attributes_meaning fs ct (cfg, a, c, v))"
proof -
  define ps0 where "ps0 = [(0x3801 :: u16, bytesU16 13488), name_param fs 0x3803 clientFunctionalLevel] @ format_params cfg a c @ option_params cfg v"
  have s0: "attr (\<lambda>b. appendShortAttribute b 0x3801 13488) ([], 0) = built [(0x3801, bytesU16 13488)]"
    using attr_built(2) [where ps = "[]"] by (simp add: built_def)
  obtain s1 where s1: "attr_text fs 0x3803 clientFunctionalLevel (built [(0x3801, bytesU16 13488)]) = Inr s1"
    using assms unfolding buildSetServerAttributesRequestVRM_def s0 by (auto simp: res_bind_eq_Inr)
  then have s2: "optionAttributes cfg v (formatAttributes cfg a c s1) = built ps0"
    by (auto dest!: attr_text_built simp: formatAttributes_built optionAttributes_built ps0_def)
  then obtain body n where v: "appendVRMOptionAttributes fs (params ps0) cfg v = Inr (body, n)"
    using assms s1 unfolding buildSetServerAttributesRequestVRM_def s0 by (auto simp: res_bind_eq_Inr Let_def built_def)
  let ?ps1 = "ps0 @ vrm_params fs cfg v @ [(0x3805, [0xF0]), (0x3806, bytesU16 1), (0x3825, bytesU32 0xF6000000)]"
  have s3: "clientAttributes (body, snd (built ps0) + n) = built ?ps1"
    using vrmAttributes_built [OF v] by (simp add: built_def [of ps0] clientAttributes_built)
  have f: "fst (built ps0) = params ps0" by (simp add: built_def)
  obtain s4 s5 s6 where t: "attr_text fs 0x383C interfaceType (built ?ps1) = Inr s4" "attr_text fs 0x383D interfaceName s4 = Inr s5"
      "attr_text fs 0x383E interfaceLevel s5 = Inr s6"
      "res_bind (if defaultSQLLibrary ct cfg \<noteq> [] then attr_text fs 0x380F (defaultSQLLibrary ct cfg) s6 else Inr s6) (\<lambda>(body, parmCount).
        Inr (finishRequest 0x1F80 (orsSendReplyImmediately OR 0x01000000) 0 0 parmCount body)) = Inr packet"
    using assms s1 unfolding buildSetServerAttributesRequestVRM_def s0 by (auto simp: res_bind_eq_Inr Let_def s2 f v s3)
  have s6: "s6 = built (?ps1 @ [name_param fs 0x383C interfaceType, name_param fs 0x383D interfaceName, name_param fs 0x383E interfaceLevel])"
    using t(1-3) by (auto dest!: attr_text_built)
  let ?ps2 = "?ps1 @ [name_param fs 0x383C interfaceType, name_param fs 0x383D interfaceName, name_param fs 0x383E interfaceLevel] @
    library_param fs ct cfg"
  obtain st where st: "(if defaultSQLLibrary ct cfg \<noteq> [] then attr_text fs 0x380F (defaultSQLLibrary ct cfg) s6 else Inr s6) = Inr st"
      "packet = finishRequest 0x1F80 (orsSendReplyImmediately OR 0x01000000) 0 0 (snd st) (fst st)"
    using t(4) by (auto simp only: res_bind_eq_Inr split_beta sum.inject)
  have "st = built ?ps2"
    using st(1) s6 by (cases "defaultSQLLibrary ct cfg = []") (auto simp: library_param_def dest!: attr_text_built)
  then have "packet = finishRequest 0x1F80 (orsSendReplyImmediately OR 0x01000000) 0 0 (length ?ps2) (params ?ps2)"
    using st(2) by (simp only: built_def fst_conv snd_conv)
  then show ?thesis by (simp add: attributes_meaning_def request_bytes_req ps0_def)
qed

definition attributes_build :: "tables \<Rightarrow> caseTables \<Rightarrow> Config \<times> bool \<times> int \<times> int \<Rightarrow> bytes res" where
  "attributes_build fs ct = (\<lambda>(cfg, autoCommit, commitmentControl, serverVRM).
     buildSetServerAttributesRequestVRM fs ct cfg autoCommit commitmentControl serverVRM)"

interpretation attributes: request_builder "attributes_build fs ct" "attributes_meaning fs ct" for fs ct
  by unfold_locales (auto simp: attributes_build_def dest: attributes_built)

definition info_meaning :: "tables \<Rightarrow> u16 \<times> string \<Rightarrow> request" where
  "info_meaning fs = (\<lambda>(cp, value). req 0x1F80 (orsSendReplyImmediately OR 0x01000000) 0 0 [name_param fs cp value])"

lemma client_info_built:
  "buildSetClientInfoRequest fs cp value = Inr packet \<Longrightarrow> packet = request_bytes (info_meaning fs (cp, value))"
  by (auto simp: buildSetClientInfoRequest_def res_bind_eq_Inr info_meaning_def request_bytes_req dest!: info_attribute)

interpretation client_info: request_builder "\<lambda>(cp, value). buildSetClientInfoRequest fs cp value" "info_meaning fs" for fs
  by unfold_locales (auto dest: client_info_built)

text \<open>C24. The set-attributes request is read by the server as exactly the attributes of the configuration, in order, with
  the right count: the optional ones only when they differ from the server's default, close-on-EOF, the client info and the
  storage limit only from V6R1 on.\<close>

theorem attributes_understood:
  assumes "buildSetServerAttributesRequestVRM fs ct cfg autoCommit commitmentControl serverVRM = Inr packet"
    and "request_fits (attributes_meaning fs ct (cfg, autoCommit, commitmentControl, serverVRM))"
  shows "parse_request packet = Some (attributes_meaning fs ct (cfg, autoCommit, commitmentControl, serverVRM))"
  using attributes.understood [of fs ct "(cfg, autoCommit, commitmentControl, serverVRM)"] assms by (simp add: attributes_build_def)

section \<open>The library list\<close>

text \<open>What the server does with an entry: C sets the current library, F adds at the front, L at the end.\<close>

fun add_library :: "char \<times> string \<Rightarrow> string option \<times> string list \<Rightarrow> string option \<times> string list" where
  "add_library (indicator, library) (current, libraries) =
     (if indicator = CHR ''C'' then (Some library, libraries)
      else if indicator = CHR ''F'' then (current, library # libraries) else (current, libraries @ [library]))"

lemma swapEnds_length [simp]: "length (swapEnds xs left right) = length xs"
  by (induction xs left right rule: swapEnds.induct) (subst swapEnds.simps, simp)

lemma swapEnds_nth:
  "right < length xs \<Longrightarrow> i < length xs \<Longrightarrow>
   swapEnds xs left right ! i = (if left \<le> i \<and> i \<le> right then xs ! (left + right - i) else xs ! i)"
proof (induction xs left right rule: swapEnds.induct)
  case (1 xs left right)
  show ?case
  proof (cases "left < right")
    case True
    let ?ys = "xs[left := xs ! right, right := xs ! left]"
    have e: "swapEnds xs left right = swapEnds ?ys (left + 1) (right - 1)" using True by (subst swapEnds.simps) simp
    have "swapEnds ?ys (left + 1) (right - 1) ! i =
        (if left + 1 \<le> i \<and> i \<le> right - 1 then ?ys ! (left + 1 + (right - 1) - i) else ?ys ! i)"
      using "1.IH" [OF True] "1.prems" by simp
    moreover have "left + 1 + (right - 1) = left + right" using True by simp
    ultimately show ?thesis unfolding e using True "1.prems" by (auto simp: nth_list_update)
  next
    case False
    then have "swapEnds xs left right = xs" by (subst swapEnds.simps) simp
    moreover have "left + right - i = i" if "left \<le> i \<and> i \<le> right" using False that by linarith
    ultimately show ?thesis by simp
  qed
qed

lemma swapEnds_rev: "0 < k \<Longrightarrow> k \<le> length xs \<Longrightarrow> swapEnds xs 0 (k - 1) = rev (take k xs) @ drop k xs"
  by (intro nth_equalityI) (auto simp: swapEnds_nth nth_append rev_nth min_def)

definition plain_library :: "caseTables \<Rightarrow> string \<Rightarrow> bool" where
  "plain_library ct token \<longleftrightarrow> \<not> EqualFold ct token ''*LIBL''"

lemma plain_library_iff: "EqualFold ct token ''*LIBL'' \<longleftrightarrow> \<not> plain_library ct token"
  by (simp add: plain_library_def)

lemma liblScan_eq:
  "liblScan ct tokens li n =
     (if li \<noteq> -1 then li else if list_all (plain_library ct) tokens then -1
      else int (n + length (takeWhile (plain_library ct) tokens)))"
  by (induction ct tokens li n rule: liblScan.induct) (auto simp: plain_library_iff)

definition indicator_at :: "int \<Rightarrow> nat \<Rightarrow> char" where
  "indicator_at li k = (if li \<ge> 0 then (if int k < li then CHR ''F'' else CHR ''L'') else if k > 0 then CHR ''L'' else CHR ''C'')"

lemma collectLibraries_eq:
  "length inds = length libs \<Longrightarrow> collectLibraries ct li tokens (inds, libs) =
     (inds @ map (indicator_at li) [length libs..<length libs + length (filter (plain_library ct) tokens)],
      libs @ filter (plain_library ct) tokens)"
proof (induction ct li tokens "(inds, libs)" arbitrary: inds libs rule: collectLibraries.induct)
  case (2 ct li token tokens inds libs)
  let ?n = "length libs" and ?m = "length (filter (plain_library ct) tokens)"
  have "[?n..<?n + Suc ?m] = ?n # [Suc ?n..<Suc ?n + ?m]" using upt_conv_Cons [of ?n "?n + Suc ?m"] by simp
  then show ?case using 2 by (auto simp: plain_library_iff Let_def indicator_at_def)
qed simp

lemma fold_front: "fold add_library (zip (replicate (length ls) (CHR ''F'')) ls) (cur, jl) = (cur, rev ls @ jl)"
  by (induction ls arbitrary: jl) simp_all

lemma fold_back: "fold add_library (zip (replicate (length ls) (CHR ''L'')) ls) (cur, jl) = (cur, jl @ ls)"
  by (induction ls arbitrary: jl) simp_all

lemma indicators_libl:
  "map (indicator_at (int k)) [0..<k + m] = replicate k (CHR ''F'') @ replicate m (CHR ''L'')"
  by (intro nth_equalityI) (auto simp: indicator_at_def nth_append)

lemma indicators_plain: "map (indicator_at (-1)) [0..<Suc n] = CHR ''C'' # replicate n (CHR ''L'')"
  by (intro nth_equalityI) (simp_all add: indicator_at_def nth_Cons' del: upt_Suc)

lemma collect_all:
  "collectLibraries ct li tokens ([], []) =
     (map (indicator_at li) [0..<length (filter (plain_library ct) tokens)], filter (plain_library ct) tokens)"
  by (simp add: collectLibraries_eq)

lemma library_list_libl:
  assumes "\<not> list_all (plain_library ct) (libraryTokens ct cfg)"
  defines "front \<equiv> takeWhile (plain_library ct) (libraryTokens ct cfg)"
    and "back \<equiv> filter (plain_library ct) (dropWhile (plain_library ct) (libraryTokens ct cfg))"
  shows "configuredLibraryList ct cfg =
    (replicate (length front) (CHR ''F'') @ replicate (length back) (CHR ''L''), rev front @ back)"
proof -
  let ?k = "length front"
  have li: "liblScan ct (libraryTokens ct cfg) (-1) 0 = int ?k" using assms(1) by (simp add: liblScan_eq front_def)
  have "filter (plain_library ct) (takeWhile (plain_library ct) ts) = takeWhile (plain_library ct) ts" for ts
    by (auto simp: filter_id_conv dest: set_takeWhileD)
  then have f: "filter (plain_library ct) (libraryTokens ct cfg) = front @ back"
    unfolding front_def back_def by (metis filter_append takeWhile_dropWhile_id)
  let ?inds = "replicate ?k (CHR ''F'') @ replicate (length back) (CHR ''L'')"
  have c: "collectLibraries ct (int ?k) (libraryTokens ct cfg) ([], []) = (?inds, front @ back)"
    by (simp only: collect_all f length_append indicators_libl)
  show ?thesis
  proof (cases "?k > 1")
    case True
    then have k: "0 < ?k" by linarith
    have "swapEnds ?inds 0 (?k - 1) = ?inds" "swapEnds (front @ back) 0 (?k - 1) = rev front @ back"
      using swapEnds_rev [OF k, of ?inds] swapEnds_rev [OF k, of "front @ back"] by simp_all
    then show ?thesis using True by (simp add: configuredLibraryList_def Let_def li c)
  next
    case False
    then have "rev front = front" by (cases front) auto
    then show ?thesis using False by (simp add: configuredLibraryList_def Let_def li c)
  qed
qed

lemma library_list_plain:
  assumes "list_all (plain_library ct) (libraryTokens ct cfg)"
  shows "configuredLibraryList ct cfg = (case libraryTokens ct cfg of [] \<Rightarrow> ([], [])
    | t # ts \<Rightarrow> (CHR ''C'' # replicate (length ts) (CHR ''L''), t # ts))"
proof -
  have li: "liblScan ct (libraryTokens ct cfg) (-1) 0 = -1" using assms by (simp add: liblScan_eq)
  have f: "filter (plain_library ct) (libraryTokens ct cfg) = libraryTokens ct cfg" using assms by (simp add: list_all_iff filter_id_conv)
  have "configuredLibraryList ct cfg = (map (indicator_at (-1)) [0..<length (libraryTokens ct cfg)], libraryTokens ct cfg)"
    by (simp add: configuredLibraryList_def Let_def li collect_all f)
  then show ?thesis by (cases "libraryTokens ct cfg") (simp_all add: indicators_plain del: upt_Suc)
qed

text \<open>C26. Whatever the job's library list was, adding the configured libraries leaves it as configured: what stands before
  the first \<open>*LIBL\<close> precedes the job's list in the configured order, what stands after it follows. Without \<open>*LIBL\<close> the
  first library becomes the current library and the others follow the job's list.\<close>

theorem library_list_effect:
  "fold add_library (zip (fst (configuredLibraryList ct cfg)) (snd (configuredLibraryList ct cfg))) (current, job) =
     (if list_all (plain_library ct) (libraryTokens ct cfg)
      then (case libraryTokens ct cfg of [] \<Rightarrow> (current, job) | t # ts \<Rightarrow> (Some t, job @ ts))
      else (current, takeWhile (plain_library ct) (libraryTokens ct cfg) @ job @
              filter (plain_library ct) (dropWhile (plain_library ct) (libraryTokens ct cfg))))"
proof (cases "list_all (plain_library ct) (libraryTokens ct cfg)")
  case True
  then show ?thesis by (simp add: library_list_plain fold_back split: list.split)
next
  case False
  let ?front = "takeWhile (plain_library ct) (libraryTokens ct cfg)"
  have "length (rev ?front) = length ?front" by simp
  then show ?thesis
    using False fold_front [of "rev ?front"] by (simp add: library_list_libl fold_back)
qed

section \<open>Resetting a session\<close>

lemma doRequest_settings: "expects rq \<Longrightarrow> doRequest ctx rq c = (r, d) \<Longrightarrow> settings_rel c d"
  by (rule settings.keepsD [OF settings.keeps_requests(1)])

text \<open>Requests leave what the driver knows of the server and the client info alone.\<close>

definition info_of :: "Conn \<Rightarrow> SystemInfo option \<times> (string \<times> string) list" where
  "info_of c = (cnSystemInfo c, cnClientInfo c)"

lemma info_primitive:
  "info_of (invalidateConnection e c) = info_of c" "info_of (snd (netWrite p c)) = info_of c"
  "info_of (snd (netRead c)) = info_of c" "info_of (snd (abortStatementIO ctx c)) = info_of c"
  by (auto simp: info_of_def invalidateConnection_def netWrite_def netRead_def abortStatementIO_def
      split: list.splits bool.splits prod.splits sum.splits option.splits)

lemma info_write: "netWrite p c = (ok, d) \<Longrightarrow> info_of d = info_of c" "netRead c = (r, d) \<Longrightarrow> info_of d = info_of c"
  using info_primitive(2) [of p c] info_primitive(3) [of c] by simp_all

lemma info_doRequest: "info_of (snd (doRequest ctx rq c)) = info_of c"
  unfolding doRequest_def doRequestWithPreamble_def
  by (auto simp: info_primitive dest!: info_write split: option.splits prod.splits sum.splits if_splits)

lemma info_newSQLError: "info_of (snd (newSQLError fs ctx h info c)) = info_of c"
  using info_doRequest by (auto simp: newSQLError_def Let_def split: prod.splits sum.splits) (metis snd_conv)+

lemma info_local:
  "info_of (recordWarning w c) = info_of c" "info_of (c\<lparr>cnAutoCommit := a\<rparr>) = info_of c"
  "info_of (setCurrentCommitmentControl m c) = info_of c" "info_of (ClearWarnings c) = info_of c"
  by (simp_all add: info_of_def recordWarning_def setCurrentCommitmentControl_def ClearWarnings_def)

lemma info_checkReply: "info_of (snd (checkReply fs ctx h op env payload c)) = info_of c"
  by (auto simp: checkReply_def act_simps1 info_newSQLError info_local split: sum.splits)

lemma info_request_checked: "info_of (snd (request_checked fs ctx h op (doRequest ctx rq) c)) = info_of c"
proof (cases "doRequest ctx rq c")
  case (Pair r d)
  then have "info_of d = info_of c" using info_doRequest [of ctx rq c] by simp
  then show ?thesis
    using Pair info_checkReply [of fs ctx h op] by (cases r) (auto simp: request_checked_def act_bind_def act_simps1 split: prod.splits sum.splits; metis snd_conv)+
qed

lemma request_bytes_expect:
  "expects (request_bytes (attributes_meaning fs ct a))" "expects (request_bytes (info_meaning fs i))" "expects buildRollbackRequest"
  by (simp_all add: expects_request attributes_meaning_def info_meaning_def req_def orsSendReplyImmediately_def bit_or_iff reply_bit
      builders_expect split_beta)

lemma native_expect: "expects (appendRequestTemplate (buildHeader l 0 s 20 fn) orsSendReplyImmediately rpb pm n @ body)"
  using template_slices(1) [of "buildHeader l 0 s 20 fn" orsSendReplyImmediately rpb pm n body]
  by (simp add: expects_def HeaderSize_def orsSendReplyImmediately_def reply_bit)

text \<open>The outcome of a request that was answered without error, and of the steps of a reset.\<close>

definition requested :: "Conn \<Rightarrow> bytes list \<Rightarrow> Conn \<Rightarrow> bool" where
  "requested c rqs d \<longleftrightarrow> IsValid d \<and> cnSent d = cnSent c @ rqs \<and> cnCfg d = cnCfg c \<and> cnCommitment d = cnCommitment c \<and>
     cnAutoCommit d = cnAutoCommit c \<and> info_of d = info_of c"

lemma requested_trans: "requested c xs d \<Longrightarrow> requested d ys e \<Longrightarrow> requested c (xs @ ys) e"
  by (simp add: requested_def)

lemma requested_doRequest: "doRequest ctx rq c = (Inr x, d) \<Longrightarrow> expects rq \<Longrightarrow> requested c [rq] d"
  using doRequest_Inr [of ctx rq c x d] doRequest_settings [of rq ctx c "Inr x" d] info_doRequest [of ctx rq c]
  by (simp add: requested_def settings_rel_def)

lemma requested_checked: "request_checked fs ctx h op (doRequest ctx rq) c = (Inr x, d) \<Longrightarrow> expects rq \<Longrightarrow> requested c [rq] d"
  using request_checked_Inr [of fs ctx h op rq c x d] settings_request_checked [of rq fs ctx h op c "Inr x" d]
    info_request_checked [of fs ctx h op rq c]
  by (simp add: requested_def settings_rel_def)

lemma rollback_Inr: "rollbackTransaction lib ctx c = (Inr (), d) \<Longrightarrow> requested c [buildRollbackRequest] d"
  by (auto simp: rollbackTransaction_def act_bind_Inr act_simps1 dest!: requested_checked [OF _ request_bytes_expect(3)])

lemma setServerAttributes_Inr:
  assumes "setServerAttributes lib ct ctx autoCommit c = (Inr (), d)"
  obtains e where "d = e\<lparr>cnAutoCommit := autoCommit\<rparr>"
    "requested c [request_bytes (attributes_meaning (lbTables lib) ct (cnCfg c, autoCommit, currentCommitmentMode c, serverVersion c))] e"
proof -
  from assms obtain rq x e where "attributesRequest lib ct autoCommit c = Inr rq" "doRequest ctx rq c = (Inr x, e)" "d = e\<lparr>cnAutoCommit := autoCommit\<rparr>"
    by (auto simp: setServerAttributes_def act_bind_Inr act_simps1 split: if_splits)
  then show thesis using that attributes_built [of "lbTables lib" ct "cnCfg c" autoCommit "currentCommitmentMode c" "serverVersion c" rq]
    by (auto simp: attributesRequest_def intro!: requested_doRequest request_bytes_expect)
qed

definition info_requests :: "library \<Rightarrow> Config \<Rightarrow> (string \<times> string) list \<Rightarrow> (string \<times> u16) list \<Rightarrow> bytes list" where
  "info_requests lib cfg changed attrs =
     map (\<lambda>(name, cp). request_bytes (info_meaning (lbTables lib) (cp, clientInfoDSNValue cfg name)))
       (filter (\<lambda>(name, cp). map_of changed name \<noteq> None) attrs)"

lemma restoreInfos_Inr:
  "restoreInfos lib ctx changed attrs c = (Inr (), d) \<Longrightarrow> IsValid c \<Longrightarrow> requested c (info_requests lib (cnCfg c) changed attrs) d"
proof (induction lib ctx changed attrs arbitrary: c rule: restoreInfos.induct)
  case (1 lib ctx changed)
  then show ?case by (simp add: act_simps1 requested_def info_requests_def)
next
  case (2 lib ctx changed name cp attrs)
  show ?case
  proof (cases "map_of changed name = None")
    case True
    then show ?thesis using 2 by (simp add: info_requests_def)
  next
    case False
    with "2.prems" obtain rq x e where rq: "buildSetClientInfoRequest (lbTables lib) cp (clientInfoDSNValue (cnCfg c) name) = Inr rq"
      "request_checked (lbTables lib) ctx 0 ''restore client info'' (doRequest ctx rq) c = (Inr x, e)"
      "restoreInfos lib ctx changed attrs e = (Inr (), d)"
      by (auto simp: act_bind_Inr act_simps1)
    note eq = client_info_built [OF rq(1)]
    have r: "requested c [rq] e" using rq(2) eq by (simp add: requested_checked request_bytes_expect)
    then have "requested e (info_requests lib (cnCfg e) changed attrs) d" using "2.IH"(2) [OF False] rq(3) by (auto simp: requested_def)
    from requested_trans [OF r this] r eq False show ?thesis by (simp add: info_requests_def requested_def)
  qed
qed

lemma restoreClientInfo_Inr:
  assumes "restoreClientInfo lib ctx c = (Inr (), d)" "IsValid c"
  shows "requested (c\<lparr>cnClientInfo := []\<rparr>) (if serverVRMAtLeast clientInfoMinVRM c
    then info_requests lib (cnCfg c) (cnClientInfo c) clientInfoAttributes else []) d"
proof -
  let ?c = "c\<lparr>cnClientInfo := []\<rparr>"
  have v: "serverVRMAtLeast clientInfoMinVRM ?c = serverVRMAtLeast clientInfoMinVRM c" "IsValid ?c" "cnCfg ?c = cnCfg c"
    using assms(2) by (simp_all add: serverVRMAtLeast_def IsValid_def)
  show ?thesis
  proof (cases "cnClientInfo c = [] \<or> \<not> serverVRMAtLeast clientInfoMinVRM c")
    case True
    then have "info_requests lib (cnCfg c) (cnClientInfo c) clientInfoAttributes = [] \<or> \<not> serverVRMAtLeast clientInfoMinVRM c"
      by (auto simp: info_requests_def)
    then show ?thesis using assms(1) True v
      by (auto simp: restoreClientInfo_def act_bind_Inr act_simps1 requested_def)
  next
    case False
    then have "restoreInfos lib ctx (cnClientInfo c) clientInfoAttributes ?c = (Inr (), d)"
      using assms(1) v by (auto simp: restoreClientInfo_def act_bind_Inr act_simps1)
    from restoreInfos_Inr [OF this v(2)] False v show ?thesis by simp
  qed
qed

definition library_requests :: "library \<Rightarrow> caseTables \<Rightarrow> Config \<Rightarrow> bytes list" where
  "library_requests lib ct cfg = (case buildAddLibraryListRequest (lbTables lib) ct cfg of Inr (Some rq) \<Rightarrow> [rq] | _ \<Rightarrow> [])"

lemma buildAddLibraryListRequest_expects: "buildAddLibraryListRequest fs ct cfg = Inr (Some rq) \<Longrightarrow> expects rq"
  by (auto simp: buildAddLibraryListRequest_def res_bind_eq_Inr native_expect split: prod.splits if_splits)

lemma addConfiguredLibraries_Inr:
  assumes "addConfiguredLibraries lib ct ctx c = (Inr (), d)" "IsValid c"
  shows "requested c (library_requests lib ct (cnCfg c)) d"
proof (cases "buildAddLibraryListRequest (lbTables lib) ct (cnCfg c)")
  case (Inr r)
  show ?thesis
  proof (cases r)
    case None
    then show ?thesis using assms Inr
      by (auto simp: addConfiguredLibraries_def act_bind_Inr act_simps1 library_requests_def requested_def)
  next
    case (Some rq)
    then obtain x where "doRequest ctx rq c = (Inr x, d)"
      using assms(1) Inr by (auto simp: addConfiguredLibraries_def act_bind_Inr act_simps1 split: if_splits)
    then show ?thesis using buildAddLibraryListRequest_expects Inr Some by (simp add: library_requests_def requested_doRequest)
  qed
qed (use assms in \<open>simp add: addConfiguredLibraries_def act_bind_Inr act_simps1\<close>)

text \<open>The requests of a reset, in order.\<close>

definition reset_requests :: "library \<Rightarrow> caseTables \<Rightarrow> Conn \<Rightarrow> bytes list" where
  "reset_requests lib ct c =
     (if cnAutoCommit c then [] else [buildRollbackRequest]) @
     [request_bytes (attributes_meaning (lbTables lib) ct
        (cnCfg c, True, currentCommitmentMode (setCurrentCommitmentControl (cfgCommitmentControl (cnCfg c)) c), serverVersion c))] @
     (if serverVRMAtLeast clientInfoMinVRM c then info_requests lib (cnCfg c) (cnClientInfo c) clientInfoAttributes else []) @
     library_requests lib ct (cnCfg c)"

lemma info_of_fields: "info_of d = info_of c \<Longrightarrow> serverVRMAtLeast v d = serverVRMAtLeast v c \<and> serverVersion d = serverVersion c \<and>
    cnClientInfo d = cnClientInfo c"
  by (simp add: info_of_def serverVRMAtLeast_def serverVersion_def)

lemma reset_rollback:
  assumes "(if \<not> cnAutoCommit c then rollbackTransaction lib ctx else act_return ()) c = (Inr (), d)" "IsValid c"
  shows "requested c (if cnAutoCommit c then [] else [buildRollbackRequest]) d"
  using assms by (auto simp: act_simps1 requested_def [of c "[]"] dest: rollback_Inr split: if_splits)


text \<open>Conversion tables in which CCSID 37 is a table that maps every character to a blank.\<close>

definition blankTables :: tables where
  "blankTables = [(37, Inr (0x53 # replicate 66049 0x40))]"

lemma blank_encodes: "\<exists>e. EncodeEBCDIC37 blankTables s = Inr e \<and> length e \<le> 2 * length (runes s)"
proof -
  obtain t where t: "parseSingle 37 (replicate 66049 0x40) = Inr t" by (simp add: parseSingle_def)
  have "codec_for blankTables 37 = Inr (CSingle t)"
    using t by (simp add: codec_for_Inr_iff loads_CSingle blankTables_def unicodeCodec_def)
  moreover have "length (concat (map (singleByte_EncodeRune t) rs)) \<le> 2 * length rs" for rs
    by (induction rs) (auto simp: singleByte_EncodeRune_def split: prod.split)
  ultimately show ?thesis by (simp add: EncodeEBCDIC37_def ccsid_Encode_def singleByte_Encode_def)
qed

lemma attr_text_blank: "\<exists>st'. attr_text blankTables cp v st = Inr st'"
  using blank_encodes [of v] by (auto simp: attr_text_def appendEBCDIC37StringAttribute_def)

definition asciiCase :: caseTables where
  "asciiCase = \<lparr>ctUpper = upper_rune, ctFold = upper_rune\<rparr>"

lemma normalize_empty: "normalizeServerIdentifier ct [] = []"
proof -
  have "TrimSpace [] = []" by code_simp
  then show ?thesis by (simp add: normalizeServerIdentifier_def)
qed

lemma exampleConfig_defaults:
  "defaultSQLLibrary asciiCase exampleConfig = []" "libraryTokens asciiCase exampleConfig = []"
  by (simp_all add: exampleConfig_def defaultSQLLibrary_def libraryTokens_def normalize_empty)

lemma attributes_example:
  assumes "defaultSQLLibrary ct cfg = []"
  shows "\<exists>packet. buildSetServerAttributesRequestVRM blankTables ct cfg a c 0 = Inr packet"
proof -
  have v: "appendVRMOptionAttributes blankTables b cfg 0 = Inr (b, 0)" for b
    by (simp add: appendVRMOptionAttributes_def clientInfoMinVRM_def)
  obtain s1 where s1: "attr_text blankTables 0x3803 clientFunctionalLevel (attr (\<lambda>b. appendShortAttribute b 0x3801 13488) ([], 0)) = Inr s1"
    using attr_text_blank by blast
  let ?s2 = "optionAttributes cfg 0 (formatAttributes cfg a c s1)"
  obtain s3 where s3: "attr_text blankTables 0x383C interfaceType (clientAttributes (fst ?s2, snd ?s2 + 0)) = Inr s3"
    using attr_text_blank by blast
  obtain s4 where s4: "attr_text blankTables 0x383D interfaceName s3 = Inr s4" using attr_text_blank by blast
  obtain s5 where s5: "attr_text blankTables 0x383E interfaceLevel s4 = Inr s5" using attr_text_blank by blast
  show ?thesis
    unfolding buildSetServerAttributesRequestVRM_def Let_def s1 res_bind_Inr v prod.case s3 s4 s5 assms
    by (cases s5) simp
qed

lemma name_param_blank: "length (snd (name_param blankTables cp v)) \<le> 4 + 2 * length (runes v)"
  using blank_encodes [of v] by (auto simp: name_param_def Let_def)

lemma example_fits: "request_fits (attributes_meaning blankTables asciiCase (exampleConfig, True, 1, 0))"
proof -
  have names: "length (params [name_param blankTables cp v]) \<le> 10 + 2 * length (runes v)" for cp v
    using name_param_blank [of cp v] by (cases "name_param blankTables cp v") (simp add: AppendLLCP_def)
  have r: "length (runes clientFunctionalLevel) = 10" "length (runes interfaceType) = 4" "length (runes interfaceName) = 10"
      "length (runes interfaceLevel) = 8"
    by (simp_all add: clientFunctionalLevel_def interfaceType_def interfaceName_def interfaceLevel_def utf8_eval)
  have l: "length (params (format_params exampleConfig True 1)) = 100"
    by (simp add: format_params_def decimalPrecisionIndicators_def Let_def AppendLLCP_def)
  have none: "option_params exampleConfig 0 = []" "vrm_params blankTables exampleConfig 0 = []"
      "library_param blankTables asciiCase exampleConfig = []"
    by (simp_all add: option_params_def vrm_params_def library_param_def exampleConfig_defaults)
      (simp_all add: exampleConfig_def queryOptimizeGoalValue_def closeOnEOFMinVRM_def clientInfoMinVRM_def)
  have split: "xs \<noteq> [] \<Longrightarrow> length (params (x # xs)) = length (params [x]) + length (params xs)" for x and xs :: "(u16 \<times> bytes) list"
    by (simp add: params_def split_beta)
  let ?ps = "rqParams (attributes_meaning blankTables asciiCase (exampleConfig, True, 1, 0))"
  have "length (params ?ps) \<le> 1000"
    using names [of "0x3803" clientFunctionalLevel] names [of "0x383C" interfaceType] names [of "0x383D" interfaceName]
      names [of "0x383E" interfaceLevel] r l
    by (simp add: attributes_meaning_def req_def none AppendLLCP_def split)
  moreover have "length ?ps = 20" by (simp add: attributes_meaning_def req_def none format_params_def)
  ultimately show ?thesis by (simp add: request_fits_def)
qed

theorem attributes_understood_witness:
  "\<exists>packet. buildSetServerAttributesRequestVRM blankTables asciiCase exampleConfig True 1 0 = Inr packet \<and>
     parse_request packet = Some (attributes_meaning blankTables asciiCase (exampleConfig, True, 1, 0))"
  using attributes_example [OF exampleConfig_defaults(1)] attributes_understood [OF _ example_fits] by blast

definition blankLibrary :: library where
  "blankLibrary = exampleLibrary\<lparr>lbTables := blankTables\<rparr>"

lemma reset_example: "\<exists>d. ResetSession blankLibrary asciiCase Background (exampleConn okReply) = (Inr (), d)"
proof -
  let ?c = "setCurrentCommitmentControl 1 (ClearWarnings (exampleConn okReply))"
  have c: "IsValid ?c" "cnWrites ?c = []" "inBytes (cnIn ?c) = okReply @ []" "cnCfg ?c = exampleConfig"
    by (simp_all add: setCurrentCommitmentControl_def ClearWarnings_def exampleConn_def IsValid_def)
  obtain rq where "attributesRequest blankLibrary asciiCase True ?c = Inr rq"
    using attributes_example [OF exampleConfig_defaults(1)] c(4)
    by (auto simp: attributesRequest_def serverVersion_def blankLibrary_def setCurrentCommitmentControl_def ClearWarnings_def exampleConn_def)
  moreover note doRequest_answered [OF c(1-3)]
  moreover have "configuredLibraryList asciiCase exampleConfig = ([], [])"
    by (simp add: library_list_plain exampleConfig_defaults)
  ultimately show ?thesis
    by (simp add: ResetSession_def resetSteps_def act_bind_def act_simps1 setServerAttributes_def hasError_def okReply_envelope
        restoreClientInfo_def addConfiguredLibraries_def buildAddLibraryListRequest_def setCurrentCommitmentControl_def ClearWarnings_def
        exampleConn_def exampleConfig_def IsValid_def Background_def)
qed


section \<open>Client info\<close>

lemma ClientInfo_cong:
  "cnCfg d = cnCfg c \<Longrightarrow> map_of (cnClientInfo d) name = map_of (cnClientInfo c) name \<Longrightarrow> ClientInfo d name = ClientInfo c name"
  by (cases "clientInfoCodePoint name") (simp_all add: ClientInfo_def split: option.split)

text \<open>C25. \<open>SetClientInfo\<close> changes the value it names when it succeeds; when it fails, in the driver or on the server, every
  value is as before.\<close>

theorem client_info_all_or_nothing:
  assumes "SetClientInfo lib ctx name value c = (r, d)"
  shows "ClientInfo d other = (if r = Inr () \<and> other = name then value else ClientInfo c other)"
proof (cases "clientInfoCodePoint name")
  case None
  then show ?thesis using assms by (auto simp: SetClientInfo_def)
next
  case (Some cp)
  let ?c = "c\<lparr>cnClientInfo := AList.update name value (cnClientInfo c)\<rparr>"
  have set: "ClientInfo e other = (if other = name then value else ClientInfo c other)"
    if "cnCfg e = cnCfg c" "cnClientInfo e = cnClientInfo ?c" for e
    using that Some by (auto simp: ClientInfo_def update_conv' split: option.splits)
  show ?thesis
  proof (cases "serverVRMAtLeast clientInfoMinVRM c \<and> IsValid c")
    case False
    then show ?thesis using assms Some set [of ?c] by (auto simp: SetClientInfo_def Let_def split: if_splits)
  next
    case True
    show ?thesis
    proof (cases "buildSetClientInfoRequest (lbTables lib) cp value")
      case (Inl e)
      then show ?thesis using assms Some True by (auto simp: SetClientInfo_def Let_def)
    next
      case (Inr rq)
      obtain r1 d1 where rq1: "request_checked (lbTables lib) ctx 0 ''set client info'' (doRequest ctx rq) ?c = (r1, d1)" by fastforce
      have "expects rq" using client_info_built [OF Inr] by (simp add: request_bytes_expect)
      then have d1: "cnCfg d1 = cnCfg c" "cnClientInfo d1 = cnClientInfo ?c"
        using settings_request_checked [OF _ rq1] info_request_checked [of "lbTables lib" ctx 0 "''set client info''" rq ?c] rq1
        by (simp_all add: settings_rel_def info_of_def)
      then show ?thesis
      proof (cases r1)
        case (Inl e)
        then have "r = Inl e" "d = restoreValue name (map_of (cnClientInfo c) name) d1"
          using assms Some True Inr rq1 by (auto simp: SetClientInfo_def Let_def)
        moreover from this d1 have "map_of (cnClientInfo d) other = map_of (cnClientInfo c) other" "cnCfg d = cnCfg c"
          by (auto simp: restoreValue_def update_conv' delete_conv' split: option.splits)
        ultimately show ?thesis using ClientInfo_cong [of d c other] by simp
      next
        case (Inr x)
        then have "r = Inr ()" "d = d1"
          using assms Some True \<open>buildSetClientInfoRequest (lbTables lib) cp value = Inr rq\<close> rq1 by (auto simp: SetClientInfo_def Let_def)
        then show ?thesis using set [OF d1] by simp
      qed
    qed
  qed
qed

theorem client_info_all_or_nothing_witness:
  "ClientInfo (snd (SetClientInfo exampleLibrary Background ''ClientUser'' ''x'' (exampleConn []))) ''ClientUser'' = ''x''"
  using client_info_all_or_nothing [of exampleLibrary Background "''ClientUser''" "''x''" "exampleConn []" _ _ "''ClientUser''", OF surjective_pairing]
  by (simp add: SetClientInfo_def clientInfoCodePoint_def clientInfoAttributes_def serverVRMAtLeast_def exampleConn_def Let_def)

end
