(* ===== verification/Driver.thy ===== *)
theory Driver
  imports Stmt Attributes
begin

text \<open>
  All operations of a connection together. The entry points of \<open>database/sql\<close> and the
  operations of statements, rows and transactions are the steps of one relation, so that a
  property of the connection holds after any sequence of them: whatever the application
  calls, whatever the contexts do and whatever the server and the network deliver.
\<close>

section \<open>Every entry point keeps the connection relations\<close>

context connection_relation
begin

lemma keeps_transaction:
  "keeps (act_modify (\<lambda>c. c\<lparr>cnAutoCommit := a\<rparr>))" "keeps (act_modify (\<lambda>c. setCurrentCommitmentControl (m c) c))"
proof -
  have "c\<lparr>cnAutoCommit := a\<rparr> = c\<lparr>cnAutoCommit := a, cnCommitment := cnCommitment c\<rparr>"
    "setCurrentCommitmentControl (m c) c = c\<lparr>cnAutoCommit := cnAutoCommit c, cnCommitment := m c\<rparr>" for c :: Conn
    by (cases c, simp add: setCurrentCommitmentControl_def)+
  then show "keeps (act_modify (\<lambda>c. c\<lparr>cnAutoCommit := a\<rparr>))" "keeps (act_modify (\<lambda>c. setCurrentCommitmentControl (m c) c))"
    using R_transaction unfolding keeps_def act_simps1 by (metis snd_conv)+
qed

lemma keeps_setAutoCommit: "keeps (setAutoCommitState lib ctx b)"
proof -
  have "keeps (act_bind (act_get (autoCommitRequest b)) (\<lambda>request.
      act_bind (request_checked (lbTables lib) ctx 0 ''set auto commit'' (doRequest ctx request)) (\<lambda>_.
        act_modify (\<lambda>c. c\<lparr>cnAutoCommit := b\<rparr>))))"
    by (rule keeps_bind_value)
      (auto simp: act_simps1 intro!: keeps_bind keeps_request_checked keeps_requests keeps_transaction expects_autoCommit)
  then show ?thesis unfolding setAutoCommitState_def by (simp add: keeps_bind [OF keeps_pure(4)])
qed

lemma keeps_endTransaction: "keeps (commitTransaction lib ctx)" "keeps (rollbackTransaction lib ctx)"
  unfolding commitTransaction_def rollbackTransaction_def
  by (intro keeps_bind keeps_request_checked keeps_requests keeps_pure builders_expect)+

lemma R_BeginTx: "R c (snd (BeginTx showErr lib ctx isolation c))"
proof -
  have "keeps (beginSteps showErr lib ctx isolation)"
    unfolding beginSteps_def setTransactionIsolationLevel_def
    by (intro keeps_intros keeps_execContext keeps_transaction keeps_setAutoCommit)
  then show ?thesis by (auto simp: BeginTx_def R_refl intro: R_snd split: option.splits)
qed

lemma R_finish: "R c (snd (snd (finish lib commit t c)))"
proof -
  have "keeps (finishSteps lib (txCtx t) commit)"
    unfolding finishSteps_def by (intro keeps_intros keeps_endTransaction keeps_setAutoCommit keeps_transaction)
  then have "R c (snd (finishSteps lib (txCtx t) commit c))" by (rule R_snd)
  then show ?thesis by (auto simp: finish_def Let_def R_refl split: prod.splits)
qed

lemma R_Ping: "R c (snd (Ping ctx c))"
proof -
  have "R c (snd (doRequest ctx buildTestConnectionRequest c))"
    by (rule R_snd [OF keeps_requests(1)]) (rule builders_expect)
  then show ?thesis by (auto simp: Ping_def R_refl split: option.splits prod.splits sum.splits)
qed

lemma keeps_setServerAttributes: "keeps (setServerAttributes lib ct ctx b)"
  unfolding setServerAttributes_def
proof (rule keeps_bind_value)
  fix built c d
  assume "act_get (attributesRequest lib ct b) c = (Inr built, d)"
  then have b: "built = attributesRequest lib ct b c" by (auto simp: act_simps1)
  have "expects rq" if "built = Inr rq" for rq
    using that b attributes_built by (metis attributesRequest_def request_bytes_expect(1))
  then show "keeps (act_bind (act_res built) (\<lambda>request. act_bind (doRequest ctx request) (\<lambda>(envelope, _).
      if hasError envelope then act_fail (envelopeError ''database server attributes'' envelope)
      else act_modify (\<lambda>c. c\<lparr>cnAutoCommit := b\<rparr>))))"
    by (intro keeps_bind_value) (auto simp: act_simps1 split_beta intro!: keeps_bind keeps_requests keeps_transaction)
qed simp

lemma keeps_addConfiguredLibraries: "keeps (addConfiguredLibraries lib ct ctx)"
  unfolding addConfiguredLibraries_def
proof (rule keeps_bind_value)
  fix built c d
  assume "act_get (\<lambda>c. buildAddLibraryListRequest (lbTables lib) ct (cnCfg c)) c = (Inr built, d)"
  then have b: "built = buildAddLibraryListRequest (lbTables lib) ct (cnCfg c)" by (auto simp: act_simps1)
  then show "keeps (act_bind (act_res built) (\<lambda>request. case request of None \<Rightarrow> act_return ()
      | Some rq \<Rightarrow> act_bind (doRequest ctx rq) (\<lambda>(envelope, _).
          if hasError envelope then act_fail (envelopeError ''database add library list'' envelope) else act_return ())))"
    by (intro keeps_bind_value)
      (auto simp: act_simps1 split_beta intro!: keeps_bind keeps_requests intro: buildAddLibraryListRequest_expects split: option.splits)
qed simp

lemma keeps_restoreInfos: "keeps (restoreInfos lib ctx changed attrs)"
proof (induction lib ctx changed attrs rule: restoreInfos.induct)
  case (2 lib ctx changed name cp attrs)
  have "keeps (act_bind (act_get (\<lambda>c. buildSetClientInfoRequest (lbTables lib) cp (clientInfoDSNValue (cnCfg c) name))) (\<lambda>built.
      act_bind (act_res built) (\<lambda>request.
      act_bind (request_checked (lbTables lib) ctx 0 ''restore client info'' (doRequest ctx request)) (\<lambda>_.
        restoreInfos lib ctx changed attrs))))" if "map_of changed name \<noteq> None"
  proof (rule keeps_bind_value)
    fix built c d
    assume "act_get (\<lambda>c. buildSetClientInfoRequest (lbTables lib) cp (clientInfoDSNValue (cnCfg c) name)) c = (Inr built, d)"
    then have b: "built = buildSetClientInfoRequest (lbTables lib) cp (clientInfoDSNValue (cnCfg c) name)" by (auto simp: act_simps1)
    have "expects rq" if "built = Inr rq" for rq
      using that b client_info_built by (metis request_bytes_expect(2))
    then show "keeps (act_bind (act_res built) (\<lambda>request.
        act_bind (request_checked (lbTables lib) ctx 0 ''restore client info'' (doRequest ctx request)) (\<lambda>_.
          restoreInfos lib ctx changed attrs)))"
      using "2.IH"(2) that by (intro keeps_bind_value) (auto simp: act_simps1 intro!: keeps_bind keeps_request_checked keeps_requests)
  qed simp
  then show ?case using "2.IH"(1) by simp
qed simp

lemma R_ResetSession: "R c (snd (ResetSession lib ct ctx c))"
proof -
  have local: "keeps (act_modify ClearWarnings)" "keeps (act_modify (\<lambda>c. c\<lparr>cnClientInfo := []\<rparr>))"
    by (rule keeps_modify, simp add: same_wire_def ClearWarnings_def)+
  have "keeps (restoreClientInfo lib ctx)"
    unfolding restoreClientInfo_def by (intro keeps_intros local keeps_restoreInfos)
  then have "keeps (resetSteps lib ct ctx)"
    unfolding resetSteps_def
    by (intro keeps_intros local keeps_endTransaction keeps_transaction keeps_setServerAttributes keeps_addConfiguredLibraries)
  then show ?thesis by (auto simp: ResetSession_def R_refl intro: R_snd split: option.splits)
qed

lemma R_SetClientInfo: "R c (snd (SetClientInfo lib ctx name v c))"
proof -
  let ?c = "c\<lparr>cnClientInfo := AList.update name v (cnClientInfo c)\<rparr>"
  have store: "R c ?c" by (rule R_local) (simp add: same_wire_def)
  have undo: "R e (restoreValue name p e)" for e p by (rule R_local) (simp add: same_wire_def restoreValue_def)
  show ?thesis
  proof (cases "clientInfoCodePoint name")
    case None
    then show ?thesis by (simp add: SetClientInfo_def R_refl)
  next
    case (Some cp)
    show ?thesis
    proof (cases "buildSetClientInfoRequest (lbTables lib) cp v")
      case (Inl e)
      then show ?thesis using Some store by (simp add: SetClientInfo_def Let_def R_refl)
    next
      case (Inr rq)
      obtain r d where rq: "request_checked (lbTables lib) ctx 0 ''set client info'' (doRequest ctx rq) ?c = (r, d)" by fastforce
      have "expects rq" using client_info_built [OF Inr] by (simp add: request_bytes_expect)
      then have "R ?c d" using keepsD [OF keeps_request_checked [OF keeps_requests(1)] rq] by simp
      then have d: "R c d" using store R_trans by blast
      then have "R c (restoreValue name p d)" for p using undo R_trans by blast
      then show ?thesis using Some Inr rq store d by (cases r) (simp_all add: SetClientInfo_def Let_def R_refl)
    qed
  qed
qed

text \<open>Steps of a connection with its cache.\<close>

definition dkeeps :: "'a dact \<Rightarrow> bool" where
  "dkeeps m \<longleftrightarrow> (\<forall>d. R (dcConn d) (dcConn (snd (m d))))"

lemma dkeepsD: "dkeeps m \<Longrightarrow> m d = (r, e) \<Longrightarrow> R (dcConn d) (dcConn e)"
  unfolding dkeeps_def by (metis snd_conv)

lemma dkeeps_pure: "dkeeps (act_return x)" "dkeeps (act_fail e)" "dkeeps (act_res r)" "dkeeps (act_get g)" "dkeeps (on_cache f)"
  by (auto simp: dkeeps_def act_simps1 on_cache_def R_refl split: prod.splits)

lemma dkeeps_conn: "keeps m \<Longrightarrow> dkeeps (on_conn m)"
  by (auto simp: dkeeps_def on_conn_def dest: keepsD split: prod.splits)

lemma dkeeps_bind:
  assumes "dkeeps m" "\<And>x. dkeeps (f x)"
  shows "dkeeps (act_bind m f)"
  unfolding dkeeps_def
proof
  fix d
  obtain r e where m: "m d = (r, e)" by (cases "m d")
  from dkeepsD [OF assms(1) m] assms(2) m show "R (dcConn d) (dcConn (snd (act_bind m f d)))"
    by (cases r) (auto simp: act_bind_def dkeeps_def intro: R_trans)
qed

lemma dkeeps_try: "dkeeps m \<Longrightarrow> dkeeps (act_try m)"
  by (simp add: dkeeps_def act_try_def case_prod_beta)

lemma dkeeps_defer: "dkeeps m \<Longrightarrow> dkeeps f \<Longrightarrow> dkeeps (act_defer m f)"
  by (auto simp: dkeeps_def act_defer_def case_prod_beta intro: R_trans)

lemma dkeeps_cases:
  "(P \<Longrightarrow> dkeeps m) \<Longrightarrow> (\<not> P \<Longrightarrow> dkeeps m') \<Longrightarrow> dkeeps (if P then m else m')"
  "(\<And>a b. x = (a, b) \<Longrightarrow> dkeeps (f a b)) \<Longrightarrow> dkeeps (case x of (a, b) \<Rightarrow> f a b)"
  "(\<And>e. dkeeps (f' e)) \<Longrightarrow> (\<And>y. dkeeps (g y)) \<Longrightarrow> dkeeps (case r of Inl e \<Rightarrow> f' e | Inr y \<Rightarrow> g y)"
  "dkeeps m0 \<Longrightarrow> (\<And>y. dkeeps (g' y)) \<Longrightarrow> dkeeps (case p of None \<Rightarrow> m0 | Some y \<Rightarrow> g' y)"
  by (auto split: prod.splits sum.splits option.splits)

lemmas dkeeps_intros = dkeeps_bind dkeeps_cases dkeeps_pure dkeeps_try dkeeps_defer dkeeps_conn

lemma dkeeps_closeStatements: "dkeeps (closeStatements lib is)"
  by (induction "is") (auto intro!: dkeeps_intros keeps_close)

lemma dkeeps_release: "dkeeps (releaseStatement lib i)"
  unfolding releaseStatement_def by (intro dkeeps_intros dkeeps_closeStatements)

lemma dkeeps_cachedPrepared: "dkeeps (cachedPreparedStatement showErr lib ctx query)"
  unfolding cachedPreparedStatement_def Let_def by (intro dkeeps_intros keeps_transient dkeeps_closeStatements)

lemma dkeeps_prepared:
  "dkeeps (execPreparedCached showErr lib ctx query args)" "dkeeps (queryPreparedCached showErr lib ctx query args)"
  unfolding execPreparedCached_def queryPreparedCached_def on_failure_def
  by (intro dkeeps_intros keeps_transient keeps_execute dkeeps_cachedPrepared dkeeps_release)+

lemma dkeeps_QueryContext: "dkeeps (QueryContext showErr lib ctx query args)"
  unfolding QueryContext_def by (intro dkeeps_intros keeps_queryContext dkeeps_prepared)

lemma R_closeQueryRows: "R (dcConn d) (dcConn (snd (snd (closeQueryRows lib r owner d))))"
proof -
  obtain res r1 c1 where cl: "rowsClose lib r (dcConn d) = (res, r1, c1)" by (metis surj_pair)
  have "R c1 (dcConn (snd (releaseStatement lib i (d\<lparr>dcConn := c1\<rparr>))))" for i
    using dkeeps_release unfolding dkeeps_def by (metis driverConn.select_convs(1) driverConn.surjective driverConn.update_convs(1))
  with R_result(3) [OF cl] cl show ?thesis
    by (auto simp: closeQueryRows_def Let_def intro: R_trans split: option.splits)
qed

lemma R_drainKeyRows: "drainKeyRows decode lib seen r c = Some y \<Longrightarrow> R c (snd (snd y))"
proof (erule drainKeyRows.raw_induct [rotated])
  fix f decode lib seen r c y
  assume ih: "\<And>decode lib seen r c y. f decode lib seen r c = Some y \<Longrightarrow> R c (snd (snd y))"
    and body: "(case rowsNext decode lib (length (rmColumns (qrMeta r))) r c of
      None \<Rightarrow> None
    | Some (Inl e, r1, c1) \<Rightarrow> Some (if e = EOF then seen else seen @ [Inl e], r1, c1)
    | Some (Inr vs, r1, c1) \<Rightarrow>
        (case generatedKeyInt64 (hd vs) of
           Inl _ \<Rightarrow> Some (seen @ [Inr vs], r1, c1)
         | Inr _ \<Rightarrow> f decode lib (seen @ [Inr vs]) r1 c1)) = Some y"
  from body show "R c (snd (snd y))"
    by (auto dest!: R_rowsNext dest: ih R_trans [OF _ ih] split: option.splits prod.splits sum.splits)
qed

lemma R_execInsert:
  assumes "execInsertWithGeneratedKey decode showErr lib ctx query args d = Some (r, e)"
  shows "R (dcConn d) (dcConn e)"
proof (cases "wrapInsertForGeneratedKeys query")
  case (Inl err)
  with assms show ?thesis by (auto simp: execInsertWithGeneratedKey_def R_refl)
next
  case (Inr wrapped)
  obtain q d1 where Q: "QueryContext showErr lib ctx wrapped args d = (q, d1)" by (metis surj_pair)
  note d1 = dkeepsD [OF dkeeps_QueryContext Q]
  note cl = R_closeQueryRows [of "d1\<lparr>dcConn := _\<rparr>", simplified] R_closeQueryRows [of d1]
  from assms Inr Q d1 cl show ?thesis
    by (auto simp: execInsertWithGeneratedKey_def intro: R_trans dest!: R_drainKeyRows
        split: sum.splits prod.splits option.splits if_splits)
qed

lemma R_ExecContext:
  assumes "ExecContext decode showErr lib ctx query args d = Some (r, e)"
  shows "R (dcConn d) (dcConn e)"
  using assms dkeepsD [OF dkeeps_conn [OF keeps_execContext], of showErr lib ctx query d]
    dkeepsD [OF dkeeps_prepared(1), of showErr lib ctx _ _ d]
  by (auto simp: ExecContext_def R_refl dest: R_execInsert split: if_splits sum.splits prod.splits)

lemma R_stmtExecContext:
  assumes "stmtExecContext decode showErr lib ctx args s d = Some (r, s1, e)"
  shows "R (dcConn d) (dcConn e)"
proof -
  have "R (dcConn d) (dcConn e)" if "stmtExec decode showErr lib ctx args s' d = Some (r, e)" for s'
    using that dkeepsD [OF dkeeps_conn [OF keeps_execContext], of showErr lib ctx "stQuery s'" d]
      dkeepsD [OF dkeeps_conn [OF keeps_execute(1)], of showErr lib ctx "stHandle s'" "stType s'" "stFormat s'" _ d]
    by (auto simp: stmtExec_def R_refl dest: R_execInsert split: if_splits sum.splits prod.splits)
  with assms show ?thesis by (auto simp: stmtExecContext_def R_refl split: prod.splits sum.splits)
qed

lemma R_stmtQueryContext: "R c (snd (snd (stmtQueryContext showErr lib ctx args s c)))"
proof -
  have rows: "keeps m \<Longrightarrow> R c (snd (snd (stmtRows s' m c)))" for m s'
    using R_snd [of m c] by (auto simp: stmtRows_def split: prod.splits sum.splits)
  note [simp] = rows [OF keeps_open(2)] rows [OF keeps_open(3)] rows [OF keeps_execute(2)]
  show ?thesis by (simp add: stmtQueryContext_def R_refl split: prod.splits sum.splits)
qed

lemma R_batches:
  "R c (snd (ExecBatch showErr lib ctx query given named c))"
  "R c (snd (snd (stmtExecBatch showErr lib ctx given named s c)))"
proof -
  have prep: "prepareTransientStatement showErr lib ctx q c = (r, d) \<Longrightarrow> R c d" for q r d
    by (rule keepsD [OF keeps_transient(1)])
  have run: "execBatchPrepared showErr lib ctx q h ty f named c = (r, d) \<Longrightarrow> R c d" for q h ty f c r d
    using batch_keeps by (metis snd_conv)
  have cl: "R c (snd (closePreparedStatement lib Background n h c))" for n h c
    by (rule R_snd [OF keeps_close(1)])
  show "R c (snd (ExecBatch showErr lib ctx query given named c))"
    by (auto simp: ExecBatch_def R_refl dest!: prep run intro: R_trans cl R_trans [OF R_trans cl] split: sum.splits prod.splits)
  show "R c (snd (snd (stmtExecBatch showErr lib ctx given named s c)))"
    by (auto simp: stmtExecBatch_def R_refl dest: run split: prod.splits sum.splits)
qed

lemma R_prepareStmt: "R c (snd (prepareStmt showErr lib ctx query c))"
proof -
  have "keeps (prepareStmt showErr lib ctx query)" unfolding prepareStmt_def by (intro keeps_intros keeps_transient)
  then show ?thesis by (rule R_snd)
qed

lemma R_stmtClose: "stmtClose lib s c = Some (r, s1, c1) \<Longrightarrow> R c c1"
  using R_snd [OF keeps_close(1), of c lib Background "stName s" "stHandle s"]
  by (auto simp: stmtClose_def Let_def R_refl split: if_splits prod.splits)

end

text \<open>A relation that closing the connection keeps as well.\<close>

locale driver_relation = connection_relation +
  assumes R_connClose: "R c (snd (connClose err c))"

section \<open>The steps of a connection\<close>

inductive driver_step :: "driverConn \<Rightarrow> driverConn \<Rightarrow> bool" where
  exec: "ExecContext decode showErr lib ctx query args d = Some (r, e) \<Longrightarrow> driver_step d e"
| query: "QueryContext showErr lib ctx query args d = (r1, e) \<Longrightarrow> driver_step d e"
| batch: "ExecBatch showErr lib ctx query given named (dcConn d) = (r2, c) \<Longrightarrow> driver_step d (d\<lparr>dcConn := c\<rparr>)"
| prepare: "prepareStmt showErr lib ctx query (dcConn d) = (r3, c) \<Longrightarrow> driver_step d (d\<lparr>dcConn := c\<rparr>)"
| stmt_exec: "stmtExecContext decode showErr lib ctx args s d = Some (r4, s', e) \<Longrightarrow> driver_step d e"
| stmt_query: "stmtQueryContext showErr lib ctx args s (dcConn d) = (r5, s', c) \<Longrightarrow> driver_step d (d\<lparr>dcConn := c\<rparr>)"
| stmt_batch: "stmtExecBatch showErr lib ctx given named s (dcConn d) = (r6, s', c) \<Longrightarrow> driver_step d (d\<lparr>dcConn := c\<rparr>)"
| stmt_close: "stmtClose lib s (dcConn d) = Some (r7, s', c) \<Longrightarrow> driver_step d (d\<lparr>dcConn := c\<rparr>)"
| rows_next: "rowsNext decode lib n q (dcConn d) = Some (r8, q', c) \<Longrightarrow> driver_step d (d\<lparr>dcConn := c\<rparr>)"
| rows_scroll: "scroll lib opt rel q (dcConn d) = (r9, q', c) \<Longrightarrow> driver_step d (d\<lparr>dcConn := c\<rparr>)"
| rows_next_set: "NextResultSet lib q (dcConn d) = (r10, q', c) \<Longrightarrow> driver_step d (d\<lparr>dcConn := c\<rparr>)"
| rows_close: "closeQueryRows lib q owner d = (r11, q', e) \<Longrightarrow> driver_step d e"
| begin_tx: "BeginTx showErr lib ctx isolation (dcConn d) = (r12, c) \<Longrightarrow> driver_step d (d\<lparr>dcConn := c\<rparr>)"
| finish_tx: "finish lib commit t (dcConn d) = (r13, t', c) \<Longrightarrow> driver_step d (d\<lparr>dcConn := c\<rparr>)"
| ping: "Ping ctx (dcConn d) = (r14, c) \<Longrightarrow> driver_step d (d\<lparr>dcConn := c\<rparr>)"
| reset_session: "ResetSession lib ct ctx (dcConn d) = (r16, c) \<Longrightarrow> driver_step d (d\<lparr>dcConn := c\<rparr>)"
| set_client_info: "SetClientInfo lib ctx name v (dcConn d) = (r17, c) \<Longrightarrow> driver_step d (d\<lparr>dcConn := c\<rparr>)"
| close: "connClose err (dcConn d) = (r15, c) \<Longrightarrow> driver_step d (d\<lparr>dcConn := c, dcCache := dropCache (dcCache d)\<rparr>)"

context driver_relation
begin

lemma snd_rule: "P (snd x) \<Longrightarrow> x = (a, b) \<Longrightarrow> P b"
  by simp

lemma R_driver_step: "driver_step d e \<Longrightarrow> R (dcConn d) (dcConn e)"
proof (induction rule: driver_step.induct)
  case (exec decode showErr lib ctx query args d r e)
  then show ?case by (rule R_ExecContext)
next
  case (query showErr lib ctx query args d r1 e)
  then show ?case by (rule dkeepsD [OF dkeeps_QueryContext])
next
  case (batch showErr lib ctx query given named d r2 c)
  then show ?case using R_batches(1) by (metis driverConn.select_convs(1) driverConn.surjective driverConn.update_convs(1) snd_conv)
next
  case (prepare showErr lib ctx query d r3 c)
  then show ?case using R_prepareStmt [of "dcConn d" showErr lib ctx query] by simp
next
  case (stmt_exec decode showErr lib ctx args s d r4 s' e)
  then show ?case by (rule R_stmtExecContext)
next
  case (stmt_query showErr lib ctx args s d r5 s' c)
  then show ?case using R_stmtQueryContext [of "dcConn d" showErr lib ctx args s] by simp
next
  case (stmt_batch showErr lib ctx given named s d r6 s' c)
  then show ?case using R_batches(2) [of "dcConn d" showErr lib ctx given named s] by simp
next
  case (rows_close lib q owner d r11 q' e)
  then show ?case using R_closeQueryRows [of d lib q owner] by simp
next
  case (begin_tx showErr lib ctx isolation d r12 c)
  then show ?case using R_BeginTx [of "dcConn d" showErr lib ctx isolation] by simp
next
  case (finish_tx lib commit t d r13 t' c)
  then show ?case using R_finish [of "dcConn d" lib commit t] by simp
next
  case (ping ctx d r14 c)
  then show ?case using R_Ping [of "dcConn d" ctx] by simp
next
  case (reset_session lib ct ctx d r16 c)
  then show ?case using R_ResetSession [of "dcConn d" lib ct ctx] by simp
next
  case (set_client_info lib ctx name v d r17 c)
  then show ?case using R_SetClientInfo [of "dcConn d" lib ctx name v] by simp
next
  case (close err d r15 c)
  then show ?case using R_connClose [of "dcConn d" err] by simp
qed (simp_all add: R_stmtClose R_rowsNext R_scroll R_NextResultSet)

lemma R_driver_run: "driver_step\<^sup>*\<^sup>* d e \<Longrightarrow> R (dcConn d) (dcConn e)"
  by (induction rule: rtranclp_induct) (auto simp: R_refl dest: R_driver_step intro: R_trans)

end

lemma netWrite_log: "cnRead (snd (netWrite p c)) = cnRead c \<and> (\<exists>xs. cnSent (snd (netWrite p c)) = cnSent c @ xs)"
  by (auto simp: netWrite_def split: list.splits bool.splits)

interpretation all_sync: driver_relation sync_rel
  by unfold_locales (auto simp: sync_rel_def connClose_def Let_def IsValid_def)

interpretation all_dead: driver_relation dead_rel
  by unfold_locales (auto simp: dead_rel_def connClose_def Let_def IsValid_def)

section \<open>The connection stays in step with the server\<close>

text \<open>
  C1. On a connection that is valid, every reply to a request that asked for one has been
  read: after any sequence of operations the number of packets read is the number of
  requests with a reply that were sent. So the next reply the driver reads belongs to the
  request it has just sent; cancellations, deadlines, malformed replies and failed writes
  either keep this or make the connection invalid.
\<close>

theorem wire_in_step:
  assumes "driver_step\<^sup>*\<^sup>* d e" "cnSent (dcConn d) = []" "cnRead (dcConn d) = []" "IsValid (dcConn e)"
  shows "length (cnRead (dcConn e)) = length (filter expects (cnSent (dcConn e)))"
proof -
  from all_sync.R_driver_run [OF assms(1)] assms(4) have "unanswered (dcConn e) = unanswered (dcConn d)"
    by (simp add: sync_rel_def)
  with assms(2,3) show ?thesis by (simp add: unanswered_def)
qed

definition exampleDriver :: "bytes \<Rightarrow> driverConn" where
  "exampleDriver bs = \<lparr>dcConn = exampleConn bs, dcCache = newCache\<rparr>"

theorem wire_in_step_witness:
  "\<exists>c. Ping Background (exampleConn okReply) = (Inl ErrBadConn, c) \<and> IsValid c \<and> length (cnRead c) = 1"
proof -
  let ?d = "exampleDriver okReply"
  obtain r c where P: "Ping Background (dcConn ?d) = (r, c)" by (metis surj_pair)
  have v: "IsValid (exampleConn okReply)" "cnWrites (exampleConn okReply) = []" "inBytes (cnIn (exampleConn okReply)) = okReply @ []"
    by (simp_all add: exampleConn_def IsValid_def)
  have "ctxErr Background n = None" for n by (simp add: Background_def)
  with P v have "r = Inl ErrBadConn" "cnSent c = cnSent (exampleConn okReply) @ [buildTestConnectionRequest]"
    "IsValid c = IsValid (exampleConn okReply)"
    by (auto simp: Ping_def exampleDriver_def doRequest_answered [OF v] okReply_envelope IsValid_def)
  with v have c: "r = Inl ErrBadConn" "IsValid c" "cnSent c = [buildTestConnectionRequest]" by (simp_all add: exampleConn_def)
  have run: "driver_step\<^sup>*\<^sup>* ?d (?d\<lparr>dcConn := c\<rparr>)" by (rule r_into_rtranclp) (rule driver_step.ping [OF P])
  have s: "cnSent (dcConn ?d) = []" "cnRead (dcConn ?d) = []" "IsValid (dcConn (?d\<lparr>dcConn := c\<rparr>))"
    using c(2) by (simp_all add: exampleDriver_def exampleConn_def)
  from wire_in_step [OF run s] c P show ?thesis by (auto simp: builders_expect exampleDriver_def)
qed

text \<open>
  A connection that is not valid stays so and is silent: no operation sends or reads
  anything on it any more.
\<close>

theorem invalid_is_silent:
  assumes "driver_step\<^sup>*\<^sup>* d e" "\<not> IsValid (dcConn d)"
  shows "\<not> IsValid (dcConn e) \<and> cnSent (dcConn e) = cnSent (dcConn d) \<and> cnRead (dcConn e) = cnRead (dcConn d) \<and>
    cnIn (dcConn e) = cnIn (dcConn d)"
  using all_dead.R_driver_run [OF assms(1)] assms(2) by (simp add: dead_rel_def)

theorem invalid_is_silent_witness:
  "(let c = snd (connClose None (exampleConn okReply)) in cnSent (snd (Ping Background c)) = [buildEndJobRequest])"
proof -
  let ?c = "snd (connClose None (exampleConn okReply))"
  let ?d = "\<lparr>dcConn = ?c, dcCache = newCache\<rparr>"
  obtain r c1 where P: "Ping Background (dcConn ?d) = (r, c1)" by (metis surj_pair)
  have run: "driver_step\<^sup>*\<^sup>* ?d (?d\<lparr>dcConn := c1\<rparr>)" by (rule r_into_rtranclp) (rule driver_step.ping [OF P])
  have c: "\<not> IsValid ?c" "cnSent ?c = [buildEndJobRequest]"
    by (simp_all add: connClose_def exampleConn_def IsValid_def netWrite_def Let_def)
  from invalid_is_silent [OF run] c P show ?thesis by (simp add: Let_def)
qed

section \<open>A failed query gives its names back\<close>

definition same_ids :: "nameState \<Rightarrow> nameState \<Rightarrow> bool" where
  "same_ids s t \<longleftrightarrow> nsUsed t = nsUsed s \<and> nsBusy t = nsBusy s"

lemma same_ids_trans: "same_ids a b \<Longrightarrow> same_ids b c \<Longrightarrow> same_ids a c"
  by (simp add: same_ids_def)

lemma open_release: "openCursorName h s = ((cur, df), s') \<Longrightarrow> same_ids s (releaseOpenCursorName h df s')"
  by (auto simp: openCursorName_def releaseOpenCursorName_def releaseDefaultCursor_def same_ids_def Let_def split: if_splits)

lemma openRows_fails:
  assumes "openRows True lib ctx h n dh format bs c = (Inl e, c')"
  shows "same_ids (cnNames c) (cnNames c')"
proof -
  obtain cur df s' where oc: "openCursorName h (cnNames c) = ((cur, df), s')" by (metis surj_pair)
  let ?c1 = "c\<lparr>cnNames := s'\<rparr>"
  obtain r c2 where op: "openAndDescribe lib ctx h n cur dh format bs ?c1 = (r, c2)" by (metis surj_pair)
  have n2: "cnNames c2 = s'" using names_kept [OF names.keeps_open_cursor(1) op] by simp
  have ci: "closeInterruptedCursor lib ctx cur x c2 = (u, c3) \<Longrightarrow> cnNames c3 = s'" for x u c3
    using names_kept [OF names.keeps_close_cursor(3)] n2 by metis
  have "cnNames c' = releaseOpenCursorName h df s'"
  proof (cases r)
    case (Inl x)
    have ok: "\<exists>c3. closeInterruptedCursor lib ctx cur x c2 = (Inr (), c3)"
      by (auto simp: closeInterruptedCursor_def act_bind_def act_simps1 act_try_run split: prod.splits)
    with assms oc op Inl ci show ?thesis
      by (auto simp: openRows_def act_bind_def act_names_def act_try_run act_name_step_def act_simps1)
  next
    case (Inr p)
    with assms oc op n2 show ?thesis
      by (auto simp: openRows_def act_bind_def act_names_def act_try_run act_name_step_def act_simps1 Let_def recordWarning_def
          split: prod.splits if_splits)
  qed
  with open_release [OF oc] show ?thesis by simp
qed

lemma act_bind_names:
  assumes "act_bind m f c = (Inl e, c')" "names.keeps m"
    and "\<And>x c1. m c = (Inr x, c1) \<Longrightarrow> f x c1 = (Inl e, c') \<Longrightarrow> same_ids (cnNames c1) (cnNames c')"
  shows "same_ids (cnNames c) (cnNames c')"
proof -
  from assms(1) consider "m c = (Inl e, c')" | x c1 where "m c = (Inr x, c1)" "f x c1 = (Inl e, c')"
    by (auto simp: act_bind_cases)
  then show ?thesis
  proof cases
    case 1
    then show ?thesis using names_kept [OF assms(2)] by (simp add: same_ids_def)
  next
    case (2 x c1)
    with names_kept [OF assms(2) 2(1)] assms(3) [OF 2] show ?thesis by simp
  qed
qed

lemma names_keeps_fail: "names.keeps m \<Longrightarrow> m c = (r, c') \<Longrightarrow> same_ids (cnNames c) (cnNames c')"
  by (drule (1) names_kept) (simp add: same_ids_def)

lemma same_ids_refl [simp]: "same_ids s s"
  by (simp add: same_ids_def)

lemma openRows_map_fails:
  "act_bind (openRows True lib ctx h n dh format bs) (\<lambda>r. act_return (g r)) c = (Inl e, c') \<Longrightarrow> same_ids (cnNames c) (cnNames c')"
  by (auto simp: act_bind_cases act_simps1 dest: openRows_fails)

lemmas names_parts = names.keeps_syncQueryTimeout names.keeps_pure names.keeps_requests builders_expect_exec names.keeps_checkReply
  names.keeps_local names.keeps_newSQLError names.keeps_sqlcaOf

lemma queryCallRows_fails:
  assumes "queryCallRows lib ctx h n c = (Inl e, c')"
  shows "same_ids (cnNames c) (cnNames c')"
  using assms unfolding queryCallRows_def queryRowsForStatement_def
  by (auto split: if_splits prod.splits simp: act_simps1 intro!: names_parts elim!: openRows_map_fails act_bind_names
      intro: names_keeps_fail [OF names.keeps_newSQLError])

text \<open>The steps of a query once its statement has an id: the names in use are as before when they fail.\<close>

lemma querySteps_fail:
  assumes "querySteps lib ctx h n ty createRPB request c = (Inl e, c')" "\<not> expects createRPB" "expects request"
  shows "same_ids (cnNames c) (cnNames c')"
proof -
  have rows: "act_bind (if ty = sqlStatementTypeCall then queryCallRows lib ctx h n else queryRowsForStatement lib ctx h n)
      (\<lambda>rows. act_return (g rows)) c1 = (Inl e, c') \<Longrightarrow> same_ids (cnNames c1) (cnNames c')" for c1 g
    by (auto simp: act_bind_cases act_simps1 queryRowsForStatement_def dest: queryCallRows_fails openRows_fails split: if_splits)
  from assms show ?thesis unfolding querySteps_def
    by (auto split: prod.splits intro!: names_parts elim!: rows act_bind_names)
qed

lemma on_failure_Inl:
  assumes "on_failure cleanup m c = (Inl e, c')" "\<And>d. \<exists>d'. cleanup d = (Inr (), d')"
  obtains c1 where "m c = (Inl e, c1)" "cleanup c1 = (Inr (), c')"
proof -
  obtain r c1 where m: "m c = (r, c1)" by (cases "m c")
  obtain d' where "cleanup c1 = (Inr (), d')" using assms(2) by blast
  with assms(1) m that show thesis
    by (cases r) (auto simp: on_failure_def act_bind_def act_try_run act_simps1)
qed

lemma discardStatement_names:
  assumes "TrimSpace n \<noteq> []"
  shows "\<exists>d. discardStatement lib ctx n h c = (Inr (), d) \<and> cnNames d = releaseStatementHandle h (cnNames c)"
  using closePreparedStatement_names [OF assms]
  by (auto simp: discardStatement_def act_bind_def act_simps1 act_try_run)

lemma hex_char_plain: "k < 16 \<Longrightarrow> plain_char (hex_char k)"
  by (auto simp: plain_char_def hex_char_def)

lemma statementName_visible: "TrimSpace (statementName h) \<noteq> []"
proof -
  have "last (hex8 (unat h)) = hex_char (unat h mod 16)" by (simp add: hex8_def last_map)
  then have "plain_char (last (statementName h))" using hex_char_plain by (simp add: statementName_def hex8_def)
  moreover have "plain_char (hd (statementName h))" by (simp add: statementName_def) code_simp
  ultimately show ?thesis by (subst TrimSpace_plain) (auto simp: statementName_def)
qed

lemma queryRequests_names: "queryRequests se lib ctx h n q c = (r, d) \<Longrightarrow> cnNames d = cnNames c"
proof -
  have "names.keeps (queryRequests se lib ctx h n q)"
    unfolding queryRequests_def by (intro names.keeps_intros names.keeps_package)
  then show "queryRequests se lib ctx h n q c = (r, d) \<Longrightarrow> ?thesis" by (rule names_kept)
qed

lemma takeStatementName_names:
  assumes "takeStatementName c = (Inr (n, h), c1)"
  shows "n = statementName h" "h \<noteq> 0" "h \<notin> nsUsed (cnNames c)"
    "cnNames c1 = (cnNames c)\<lparr>nsUsed := insert h (nsUsed (cnNames c))\<rparr>"
proof -
  from assms have "nextStatementName (cnNames c) = (Inr (n, h), cnNames c1)"
    by (auto simp: takeStatementName_def act_bind_Inr act_names_def act_simps1 split: prod.splits)
  then have al: "allocStatement (cnNames c) = Some (h, cnNames c1)" "n = statementName h"
    "cnNames c1 = (cnNames c)\<lparr>nsUsed := insert h (nsUsed (cnNames c))\<rparr>"
    by (auto simp: allocStatement_def nextStatementName_def split: option.splits)
  from stmt_ids.alloc_fresh [OF al(1)] statementIds_nonzero al show "n = statementName h" "h \<noteq> 0" "h \<notin> nsUsed (cnNames c)"
    "cnNames c1 = (cnNames c)\<lparr>nsUsed := insert h (nsUsed (cnNames c))\<rparr>"
    by auto
qed

lemma takeStatementName_fails: "takeStatementName c = (Inl e, c1) \<Longrightarrow> cnNames c1 = cnNames c"
  by (auto simp: takeStatementName_def act_bind_cases act_names_def act_simps1 nextStatementName_def
      split: prod.splits option.splits)

lemma release_allocated:
  assumes "h \<noteq> 0" "h \<notin> nsUsed s" "same_ids (s\<lparr>nsUsed := insert h (nsUsed s)\<rparr>) t"
  shows "same_ids s (releaseStatementHandle h t)"
  using assms by (auto simp: same_ids_def releaseStatementHandle_def)

lemma queryBody_fails:
  assumes "queryBody showErr lib ctx h n ty query c1 = (Inl e, c')" "TrimSpace n \<noteq> []"
  obtains t where "same_ids (cnNames c1) t" "cnNames c' = releaseStatementHandle h t"
proof -
  let ?req = "on_failure (act_name_step (releaseStatementHandle h)) (queryRequests showErr lib ctx h n query)"
  from assms(1) consider "?req c1 = (Inl e, c')" |
    a b c2 where "?req c1 = (Inr (a, b), c2)" "on_failure (discardStatement lib ctx n h) (querySteps lib ctx h n ty a b) c2 = (Inl e, c')"
    by (auto simp: queryBody_def act_bind_cases)
  then show thesis
  proof cases
    case 1
    have "\<exists>d'. act_name_step (releaseStatementHandle h) d = (Inr (), d')" for d by (simp add: act_name_step_def act_simps1)
    with 1 obtain c3 where "queryRequests showErr lib ctx h n query c1 = (Inl e, c3)"
      "act_name_step (releaseStatementHandle h) c3 = (Inr (), c')" by (rule on_failure_Inl)
    with queryRequests_names that [of "cnNames c1"] show thesis by (auto simp: act_name_step_def act_simps1)
  next
    case (2 a b c2)
    from on_failure_Inr [OF 2(1)] have q: "queryRequests showErr lib ctx h n query c1 = (Inr (a, b), c2)" .
    have "\<exists>d'. discardStatement lib ctx n h d = (Inr (), d')" for d using discardStatement_names [OF assms(2)] by blast
    with 2(2) obtain c3 where st: "querySteps lib ctx h n ty a b c2 = (Inl e, c3)" "discardStatement lib ctx n h c3 = (Inr (), c')"
      by (rule on_failure_Inl)
    from querySteps_fail [OF st(1) queryRequests_kinds [OF q]] queryRequests_names [OF q]
    have "same_ids (cnNames c1) (cnNames c3)" by simp
    with that discardStatement_names [OF assms(2), of lib ctx h c3] st(2) show thesis by auto
  qed
qed


lemma exchange_dead: "\<not> IsValid c \<Longrightarrow> doRequestWithPreamble ctx pre rq c \<noteq> (Inr x, d)"
  by (auto simp: doRequestWithPreamble_def guard_valid split: option.splits)

lemma dead_keepsD: "dead.keeps m \<Longrightarrow> m c = (r, d) \<Longrightarrow> \<not> IsValid c \<Longrightarrow> \<not> IsValid d"
  using dead.keepsD [of m c r d] by (simp add: dead_rel_def)

lemma queryContext_dead:
  assumes "\<not> IsValid c"
  shows "queryContext showErr lib ctx query c \<noteq> (Inr q, d)"
proof
  assume "queryContext showErr lib ctx query c = (Inr q, d)"
  then obtain n h c1 where take: "takeStatementName (ClearWarnings c) = (Inr (n, h), c1)"
    and body: "queryBody showErr lib ctx h n (classifySQLStatement query) query c1 = (Inr q, d)"
    by (auto simp: queryContext_def act_bind_Inr act_simps1 Let_def split: if_splits)
  from body obtain a b c2 where req: "queryRequests showErr lib ctx h n query c1 = (Inr (a, b), c2)"
    and st: "querySteps lib ctx h n (classifySQLStatement query) a b c2 = (Inr q, d)"
    by (auto simp: queryBody_def act_bind_Inr dest!: on_failure_Inr)
  have reqs: "dead.keeps (queryRequests showErr lib ctx h n query)"
    unfolding queryRequests_def by (intro dead.keeps_intros dead.keeps_package)
  have "\<not> IsValid (ClearWarnings c)" using assms by (simp add: ClearWarnings_def IsValid_def)
  with dead_keepsD [OF dead.keeps_takeStatementName take] dead_keepsD [OF reqs req] have "\<not> IsValid c2" by blast
  with st show False by (auto simp: querySteps_def act_bind_Inr exchange_dead)
qed


section \<open>A context error is not reported as a bad connection\<close>

text \<open>
  \<open>database/sql\<close> retries an operation that returns \<open>driver.ErrBadConn\<close>, so a cancelled or
  timed-out operation must not return it. A context never reports \<open>ErrBadConn\<close> itself.
\<close>

definition ctx_errors :: "go_ctx \<Rightarrow> bool" where
  "ctx_errors ctx \<longleftrightarrow> (\<forall>t. ctxErr ctx t \<noteq> Some ErrBadConn)"

lemma abort_bad_connection:
  "abortStatementIO ctx c = (Inl ErrBadConn, d) \<Longrightarrow> ctx_errors ctx \<Longrightarrow> ctxIOError ctx (cnClock d) = None"
  by (auto simp: abortStatementIO_def invalidateConnection_def ctxIOError_def ctx_errors_def split: option.splits if_splits)

lemma readReplyEnvelope_error: "readReplyEnvelope p \<noteq> Inl ErrBadConn"
  by (auto simp: readReplyEnvelope_def ParseHeader_def res_bind_def split: if_splits sum.splits)

lemma exchange_bad_connection:
  assumes "doRequestWithPreamble ctx pre rq c = (Inl ErrBadConn, d)" "IsValid c" "ctx_errors ctx"
  shows "ctxIOError ctx (cnClock d) = None"
  using assms unfolding doRequestWithPreamble_def guard_valid
  by (auto simp: ctx_errors_def readReplyEnvelope_error intro: abort_bad_connection
      split: option.splits prod.splits sum.splits if_splits)



text \<open>
  The requests without a reply do not keep this: when their write fails because the
  deadline has passed but the context's timer has not fired, they return
  \<open>driver.ErrBadConn\<close> where an exchange returns the deadline error.
\<close>

theorem noreply_deadline_is_bad_connection:
  assumes "IsValid c" "cnWrites c = True # ws" "\<And>t. ctxErr ctx t = None" "\<And>t. ctxUntil ctx t = Some 0"
  shows "fst (sendRequestNoReply ctx rq c) = Inl ErrBadConn \<and> fst (doRequest ctx rq c) = Inl ErrDeadlineExceeded"
  using assms
  by (simp add: sendRequestNoReply_def doRequest_def doRequestWithPreamble_def guard_valid netWrite_def abortStatementIO_def ctxIOError_def)

theorem noreply_deadline_is_bad_connection_witness:
  "fst (sendRequestNoReply \<lparr>ctxErr = (\<lambda>t. None), ctxUntil = (\<lambda>t. Some 0)\<rparr> [] ((exampleConn [])\<lparr>cnWrites := [True]\<rparr>)) = Inl ErrBadConn"
proof -
  have "IsValid ((exampleConn [])\<lparr>cnWrites := [True]\<rparr>)" by (simp add: exampleConn_def IsValid_def)
  from noreply_deadline_is_bad_connection [OF this, of "[]" "\<lparr>ctxErr = (\<lambda>t. None), ctxUntil = (\<lambda>t. Some 0)\<rparr>"] show ?thesis by simp
qed

end
