(* ===== verification/DateTime.thy ===== *)
theory DateTime
  imports Config
begin

text \<open>
  Dates, times and timestamps: the text forms of \<open>src/datetime_format.go\<close>, the picosecond
  \<open>Timestamp\<close> type of \<open>src/timestamp.go\<close> and \<open>parseIBMiTimestamp\<close> of \<open>src/sql.go\<close>, over a
  model of what they use of Go's \<open>time\<close> package: \<open>time.Date\<close> with its normalisation,
  \<open>YearDay\<close>, and \<open>time.Parse\<close> for the one layout the driver uses. The lemmas show that
  every accepted text denotes a real day and time, and that the parsers invert the printers.
\<close>

section \<open>Definitions\<close>

subsection \<open>The calendar of the time package\<close>

definition isLeap :: "int \<Rightarrow> bool" where
  "isLeap y \<longleftrightarrow> y mod 4 = 0 \<and> (y mod 100 \<noteq> 0 \<or> y mod 400 = 0)"

definition daysIn :: "int \<Rightarrow> nat \<Rightarrow> nat" where
  "daysIn y m =
     (if m = 2 then (if isLeap y then 29 else 28) else if m = 4 \<or> m = 6 \<or> m = 9 \<or> m = 11 then 30 else 31)"

lemma daysIn_bounds: "28 \<le> daysIn y m" "daysIn y m \<le> 31"
  by (simp_all add: daysIn_def)

definition nextMonth :: "int \<Rightarrow> nat \<Rightarrow> int \<times> nat" where
  "nextMonth y m = (if m \<ge> 12 then (y + 1, 1) else (y, m + 1))"

definition prevMonth :: "int \<Rightarrow> nat \<Rightarrow> int \<times> nat" where
  "prevMonth y m = (if m \<le> 1 then (y - 1, 12) else (y, m - 1))"

text \<open>A day outside its month is carried into the months before or after, as \<open>time.Date\<close> documents.\<close>

function normDay :: "int \<Rightarrow> nat \<Rightarrow> int \<Rightarrow> int \<times> nat \<times> nat" where
  "normDay y m d =
     (if d < 1 then (case prevMonth y m of (y', m') \<Rightarrow> normDay y' m' (d + int (daysIn y' m')))
      else if d > int (daysIn y m) then (case nextMonth y m of (y', m') \<Rightarrow> normDay y' m' (d - int (daysIn y m)))
      else (y, m, nat d))"
  by pat_completeness auto
termination
proof (relation "measure (\<lambda>(y, m, d). if d < 1 then nat (100 - d) else nat d)", goal_cases)
  case (2 y m d y' m')
  then show ?case using daysIn_bounds [of y' m'] by auto
next
  case (3 y m d y' m')
  then show ?case using daysIn_bounds [of y m] by auto
qed simp

declare normDay.simps [simp del]

text \<open>\<open>time.Date(year, month, day, hour, min, sec, nsec, UTC)\<close>.\<close>

definition time_Date :: "int \<Rightarrow> int \<Rightarrow> int \<Rightarrow> int \<Rightarrow> int \<Rightarrow> int \<Rightarrow> int \<Rightarrow> go_time" where
  "time_Date year month day hour minute sec nsec =
     (let sec1 = sec + nsec div 1000000000; min1 = minute + sec1 div 60; hour1 = hour + min1 div 60;
          day1 = day + hour1 div 24; year1 = year + (month - 1) div 12;
          (y, m, d) = normDay year1 (nat ((month - 1) mod 12) + 1) day1 in
      \<lparr>tYear = y, tMonth = m, tDay = d, tHour = nat (hour1 mod 24), tMinute = nat (min1 mod 60),
       tSecond = nat (sec1 mod 60), tNanosecond = nat (nsec mod 1000000000)\<rparr>)"

definition YearDay :: "go_time \<Rightarrow> nat" where
  "YearDay t = sum_list (map (daysIn (tYear t)) [1..<tMonth t]) + tDay t"

text \<open>\<open>time.Unix(0, 0).UTC()\<close> and the zero \<open>time.Time\<close>.\<close>

definition epoch :: go_time where
  "epoch = \<lparr>tYear = 1970, tMonth = 1, tDay = 1, tHour = 0, tMinute = 0, tSecond = 0, tNanosecond = 0\<rparr>"

definition zeroTime :: go_time where
  "zeroTime = \<lparr>tYear = 1, tMonth = 1, tDay = 1, tHour = 0, tMinute = 0, tSecond = 0, tNanosecond = 0\<rparr>"

text \<open>\<open>fmt.Sprintf("%0wd", i)\<close> (a sign counts in the width), and Go's \<open>%\<close> on int.\<close>

definition sprintf_0d :: "nat \<Rightarrow> int \<Rightarrow> string" where
  "sprintf_0d w i = (if i < 0 then CHR ''-'' # zero_pad (w - 1) (show_nat (nat (- i))) else zero_pad w (show_nat (nat i)))"

definition go_rem :: "int \<Rightarrow> int \<Rightarrow> int" where
  "go_rem a b = sgn a * (\<bar>a\<bar> mod \<bar>b\<bar>)"

subsection \<open>time.Parse for the timestamp layout\<close>

text \<open>
  \<open>time.Parse\<close> with the layout \<open>2006-01-02-15.04.05\<close>, followed by nothing or by a point and
  \<open>k\<close> zeros. The package reads the hour as one or two digits and the other fields as two,
  and accepts a fraction the layout does not have after the seconds.
\<close>

definition skip_char :: "char \<Rightarrow> string \<Rightarrow> string option" where
  "skip_char c s = (if s \<noteq> [] \<and> hd s = c then Some (tl s) else None)"

fun getnum :: "bool \<Rightarrow> string \<Rightarrow> (nat \<times> string) option" where
  "getnum fixed [] = None"
| "getnum fixed [a] = (if is_digit a \<and> \<not> fixed then Some (digit_val a, []) else None)"
| "getnum fixed (a # b # s) =
     (if \<not> is_digit a then None
      else if \<not> is_digit b then (if fixed then None else Some (digit_val a, b # s))
      else Some (digit_val a * 10 + digit_val b, s))"

definition time_atoi :: "string \<Rightarrow> int option" where
  "time_atoi s =
     (let neg = (s \<noteq> [] \<and> hd s = CHR ''-''); body = (if s \<noteq> [] \<and> hd s \<in> {CHR ''-'', CHR ''+''} then tl s else s) in
      if isASCIIDigits body then Some (if neg then - int (nat_of_digits body) else int (nat_of_digits body)) else None)"

definition commaOrPeriod :: "char \<Rightarrow> bool" where
  "commaOrPeriod c \<longleftrightarrow> c = CHR ''.'' \<or> c = CHR '',''"

definition parseNanoseconds :: "string \<Rightarrow> nat \<Rightarrow> nat option" where
  "parseNanoseconds value nbytes0 =
     (if value = [] \<or> \<not> commaOrPeriod (hd value) then None
      else let nbytes = min 10 nbytes0 in
        Option.bind (time_atoi (slice 1 nbytes value)) (\<lambda>ns.
          if ns < 0 then None else Some (nat ns * 10 ^ (10 - nbytes))))"

definition year_field :: "string \<Rightarrow> (nat \<times> string) option" where
  "year_field s =
     (if length s < 4 \<or> \<not> isASCIIDigits (take 4 s) then None else Some (nat_of_digits (take 4 s), drop 4 s))"

definition ranged :: "nat \<Rightarrow> nat \<Rightarrow> (nat \<times> string) option \<Rightarrow> (nat \<times> string) option" where
  "ranged lo hi r = Option.bind r (\<lambda>(v, s). if lo \<le> v \<and> v \<le> hi then Some (v, s) else None)"

definition fraction_field :: "nat option \<Rightarrow> string \<Rightarrow> (nat \<times> string) option" where
  "fraction_field layout value =
     (if layout = None \<or> layout = Some 0 then
        (if length value \<ge> 2 \<and> commaOrPeriod (value ! 0) \<and> is_digit (value ! 1) then
           let n = 2 + length (takeWhile is_digit (drop 2 value)) in
           Option.bind (parseNanoseconds value n) (\<lambda>ns. Some (ns, drop n value))
         else Some (0, value))
      else if length value < 1 + the layout then None
      else Option.bind (parseNanoseconds value (1 + the layout)) (\<lambda>ns. Some (ns, drop (1 + the layout) value)))"

definition parse_error :: "string \<Rightarrow> go_error" where
  "parse_error s = Errorf ''parsing time %q'' [FStr s]"

definition stamp_fields :: "nat option \<Rightarrow> string \<Rightarrow> (nat \<times> nat \<times> nat \<times> nat \<times> nat \<times> nat \<times> nat) option" where
  "stamp_fields layout s0 =
     Option.bind (year_field s0) (\<lambda>(year, s1).
     Option.bind (skip_char (CHR ''-'') s1) (\<lambda>s2.
     Option.bind (ranged 1 12 (getnum True s2)) (\<lambda>(month, s3).
     Option.bind (skip_char (CHR ''-'') s3) (\<lambda>s4.
     Option.bind (getnum True s4) (\<lambda>(day, s5).
     Option.bind (skip_char (CHR ''-'') s5) (\<lambda>s6.
     Option.bind (ranged 0 23 (getnum False s6)) (\<lambda>(hour, s7).
     Option.bind (skip_char (CHR ''.'') s7) (\<lambda>s8.
     Option.bind (ranged 0 59 (getnum True s8)) (\<lambda>(minute, s9).
     Option.bind (skip_char (CHR ''.'') s9) (\<lambda>s10.
     Option.bind (ranged 0 59 (getnum True s10)) (\<lambda>(sec, s11).
     Option.bind (fraction_field layout s11) (\<lambda>(nsec, s12).
     Option.bind (if layout = Some 0 then skip_char (CHR ''.'') s12 else Some s12) (\<lambda>s13.
       if s13 \<noteq> [] \<or> day < 1 \<or> day > daysIn (int year) month then None
       else Some (year, month, day, hour, minute, sec, nsec))))))))))))))"

definition time_Parse :: "nat option \<Rightarrow> string \<Rightarrow> go_time res" where
  "time_Parse layout s =
     (case stamp_fields layout s of
        None \<Rightarrow> Inl (parse_error s)
      | Some (year, month, day, hour, minute, sec, nsec) \<Rightarrow>
          Inr (time_Date (int year) (int month) (int day) (int hour) (int minute) (int sec) (int nsec)))"

definition parseIBMiTimestamp :: "string \<Rightarrow> go_time res" where
  "parseIBMiTimestamp s =
     (if length s = 19 then time_Parse None s
      else if length s > 19 \<and> s ! 19 = CHR ''.'' then
        let n = min 9 (length (drop 20 s)) in time_Parse (Some n) (take (20 + n) s)
      else time_Parse None s)"

subsection \<open>Settings\<close>

record dateTimeSettings =
  dtDateFormat :: int
  dtDateSeparator :: int
  dtTimeFormat :: int
  dtTimeSeparator :: int
  dtTimestampString :: bool

definition dateFormatJulian :: int where "dateFormatJulian = 0"
definition dateFormatMDY :: int where "dateFormatMDY = 1"
definition dateFormatDMY :: int where "dateFormatDMY = 2"
definition dateFormatYMD :: int where "dateFormatYMD = 3"
definition dateFormatUSA :: int where "dateFormatUSA = 4"
definition dateFormatEUR :: int where "dateFormatEUR = 6"
definition timeFormatUSA :: int where "timeFormatUSA = 1"
definition timeFormatISO :: int where "timeFormatISO = 2"
definition timeFormatEUR :: int where "timeFormatEUR = 3"
definition timeFormatJIS :: int where "timeFormatJIS = 4"

lemmas format_codes = dateFormatJulian_def dateFormatMDY_def dateFormatDMY_def dateFormatYMD_def dateFormatUSA_def
  dateFormatEUR_def timeFormatUSA_def timeFormatISO_def timeFormatEUR_def timeFormatJIS_def

definition dateSeparatorText :: "string list" where
  "dateSeparatorText = [''/'', ''-'', ''.'', '','', '' '']"

definition timeSeparatorText :: "string list" where
  "timeSeparatorText = ['':'', ''.'', '','', '' '']"

definition defaultDateTimeSettings :: dateTimeSettings where
  "defaultDateTimeSettings =
     \<lparr>dtDateFormat = 5, dtDateSeparator = 0, dtTimeFormat = 0, dtTimeSeparator = 0, dtTimestampString = False\<rparr>"

definition dateTimeSettingsFromConfig :: "Config \<Rightarrow> dateTimeSettings" where
  "dateTimeSettingsFromConfig cfg =
     \<lparr>dtDateFormat = cfgDateFormat cfg, dtDateSeparator = cfgDateSeparator cfg, dtTimeFormat = cfgTimeFormat cfg,
      dtTimeSeparator = cfgTimeSeparator cfg, dtTimestampString = cfgTimestampString cfg\<rparr>"

definition dateSep :: "dateTimeSettings \<Rightarrow> string" where
  "dateSep s =
     (if dtDateSeparator s < 0 \<or> dtDateSeparator s \<ge> int (length dateSeparatorText) then dateSeparatorText ! 0
      else dateSeparatorText ! nat (dtDateSeparator s))"

definition timeSep :: "dateTimeSettings \<Rightarrow> string" where
  "timeSep s =
     (if dtTimeSeparator s < 0 \<or> dtTimeSeparator s \<ge> int (length timeSeparatorText) then timeSeparatorText ! 0
      else timeSeparatorText ! nat (dtTimeSeparator s))"

subsection \<open>Printing\<close>

definition formatDate :: "go_time \<Rightarrow> dateTimeSettings \<Rightarrow> string" where
  "formatDate t cfg =
     (let year = tYear t; month = int (tMonth t); day = int (tDay t); sep = dateSep cfg; f = dtDateFormat cfg in
      if f = dateFormatUSA then sprintf_0d 2 month @ ''/'' @ sprintf_0d 2 day @ ''/'' @ sprintf_0d 4 year
      else if f = dateFormatEUR then sprintf_0d 2 day @ ''.'' @ sprintf_0d 2 month @ ''.'' @ sprintf_0d 4 year
      else if f = dateFormatJulian then sprintf_0d 2 (go_rem year 100) @ sep @ sprintf_0d 3 (int (YearDay t))
      else if f = dateFormatMDY then sprintf_0d 2 month @ sep @ sprintf_0d 2 day @ sep @ sprintf_0d 2 (go_rem year 100)
      else if f = dateFormatDMY then sprintf_0d 2 day @ sep @ sprintf_0d 2 month @ sep @ sprintf_0d 2 (go_rem year 100)
      else if f = dateFormatYMD then sprintf_0d 2 (go_rem year 100) @ sep @ sprintf_0d 2 month @ sep @ sprintf_0d 2 day
      else sprintf_0d 4 year @ ''-'' @ sprintf_0d 2 month @ ''-'' @ sprintf_0d 2 day)"

definition usaHour :: "nat \<Rightarrow> nat \<times> string" where
  "usaHour hour =
     (if hour > 12 then (hour - 12, ''P'') else if hour = 12 then (hour, ''P'')
      else if hour = 0 then (12, ''A'') else (hour, ''A''))"

definition formatTime :: "go_time \<Rightarrow> dateTimeSettings \<Rightarrow> string" where
  "formatTime t cfg =
     (let hour = tHour t; minute = tMinute t; sec = tSecond t; sep = timeSep cfg; f = dtTimeFormat cfg in
      if f = timeFormatUSA then (case usaHour hour of (h, marker) \<Rightarrow> pad2 h @ '':'' @ pad2 minute @ '' '' @ marker @ ''M'')
      else if f = timeFormatISO \<or> f = timeFormatEUR then pad2 hour @ ''.'' @ pad2 minute @ ''.'' @ pad2 sec
      else if f = timeFormatJIS then pad2 hour @ '':'' @ pad2 minute @ '':'' @ pad2 sec
      else pad2 hour @ sep @ pad2 minute @ sep @ pad2 sec)"

subsection \<open>Reading fields by position\<close>

record fieldReader =
  frText :: string
  frErr :: "go_error option"

definition newFieldReader :: "string \<Rightarrow> fieldReader" where
  "newFieldReader s = \<lparr>frText = s, frErr = None\<rparr>"

definition fr_num :: "fieldReader \<Rightarrow> nat \<Rightarrow> nat \<Rightarrow> nat \<times> fieldReader" where
  "fr_num r start n =
     (if frErr r \<noteq> None then (0, r)
      else if start + n > length (frText r)
      then (0, r\<lparr>frErr := Some (Errorf ''field at offset %d out of range'' [FInt (int start)])\<rparr>)
      else let field = slice start (start + n) (frText r) in
        case Index (\<lambda>c. \<not> is_digit c) field of
          Some i \<Rightarrow> (0, r\<lparr>frErr := Some (Errorf ''unexpected character %q at offset %d''
                                  [FStr [field ! i], FInt (int (start + i))])\<rparr>)
        | None \<Rightarrow> (nat_of_digits field, r))"

definition expandTwoDigitYear :: "nat \<Rightarrow> nat" where
  "expandTwoDigitYear yy = (if yy \<le> 39 then 2000 + yy else 1900 + yy)"

definition fr_yearAt :: "fieldReader \<Rightarrow> nat \<Rightarrow> nat \<Rightarrow> nat \<times> fieldReader" where
  "fr_yearAt r start len =
     (if len \<le> 8 then (case fr_num r start 2 of (yy, r1) \<Rightarrow> (expandTwoDigitYear yy, r1)) else fr_num r start 4)"

text \<open>Three numbers read in the order of the assignment.\<close>

definition fr_num3 :: "fieldReader \<Rightarrow> nat \<times> nat \<Rightarrow> nat \<times> nat \<Rightarrow> nat \<times> nat \<Rightarrow> (nat \<times> nat \<times> nat) \<times> fieldReader" where
  "fr_num3 r a b c =
     (case fr_num r (fst a) (snd a) of (x, r1) \<Rightarrow>
      case fr_num r1 (fst b) (snd b) of (y, r2) \<Rightarrow>
      case fr_num r2 (fst c) (snd c) of (z, r3) \<Rightarrow> ((x, y, z), r3))"

subsection \<open>Parsing\<close>

definition julianFields :: "string \<Rightarrow> (nat \<times> nat) \<times> fieldReader" where
  "julianFields s =
     (if length s \<le> 6 then
        (case fr_num (newFieldReader s) 0 2 of (yy, r1) \<Rightarrow>
         case fr_num r1 3 3 of (d, r2) \<Rightarrow> ((expandTwoDigitYear yy, d), r2))
      else
        (case fr_num (newFieldReader s) 0 4 of (y, r1) \<Rightarrow>
         case fr_num r1 5 3 of (d, r2) \<Rightarrow> ((y, d), r2)))"

text \<open>Year, month and day, in this order, of a date that is not julian.\<close>

definition dateFields :: "int \<Rightarrow> string \<Rightarrow> (nat \<times> nat \<times> nat) \<times> fieldReader" where
  "dateFields f s =
     (let r = newFieldReader s in
      if f = dateFormatUSA then (case fr_num3 r (0, 2) (3, 2) (6, 4) of ((m, d, y), r3) \<Rightarrow> ((y, m, d), r3))
      else if f = dateFormatEUR then (case fr_num3 r (0, 2) (3, 2) (6, 4) of ((d, m, y), r3) \<Rightarrow> ((y, m, d), r3))
      else if f = dateFormatMDY then
        (case fr_num r 0 2 of (m, r1) \<Rightarrow> case fr_num r1 3 2 of (d, r2) \<Rightarrow>
         case fr_yearAt r2 6 (length s) of (y, r3) \<Rightarrow> ((y, m, d), r3))
      else if f = dateFormatDMY then
        (case fr_num r 0 2 of (d, r1) \<Rightarrow> case fr_num r1 3 2 of (m, r2) \<Rightarrow>
         case fr_yearAt r2 6 (length s) of (y, r3) \<Rightarrow> ((y, m, d), r3))
      else if f = dateFormatYMD then
        (if length s \<le> 8 then (case fr_num3 r (0, 2) (3, 2) (6, 2) of ((yy, m, d), r3) \<Rightarrow> ((expandTwoDigitYear yy, m, d), r3))
         else fr_num3 r (0, 4) (5, 2) (8, 2))
      else fr_num3 r (0, 4) (5, 2) (8, 2))"

definition parseDate :: "string \<Rightarrow> dateTimeSettings \<Rightarrow> go_time res" where
  "parseDate s0 cfg =
     (let s = TrimSpace s0 in
      if TrimChar (CHR ''0'') s = [] then Inr epoch
      else if dtDateFormat cfg = dateFormatJulian then
        (case julianFields s of ((year, dayOfYear), r) \<Rightarrow>
          case frErr r of
            Some e \<Rightarrow> Inl (Wrap e ''invalid julian date %q: %w'' [FStr s])
          | None \<Rightarrow>
              let t = time_Date (int year) 1 (int dayOfYear) 0 0 0 0 in
              if dayOfYear < 1 \<or> tYear t \<noteq> int year \<or> YearDay t \<noteq> dayOfYear
              then Inl (Errorf ''invalid julian date %q'' [FStr s]) else Inr t)
      else
        (case dateFields (dtDateFormat cfg) s of ((year, month, day), r) \<Rightarrow>
          case frErr r of
            Some e \<Rightarrow> Inl (Wrap e ''invalid date %q: %w'' [FStr s])
          | None \<Rightarrow>
              let t = time_Date (int year) (int month) (int day) 0 0 0 0 in
              if tYear t \<noteq> int year \<or> tMonth t \<noteq> month \<or> tDay t \<noteq> day
              then Inl (Errorf ''invalid date %q'' [FStr s]) else Inr t))"

definition invalid_time :: "string \<Rightarrow> string \<Rightarrow> 'a res" where
  "invalid_time what s = Inl (Errorf (''invalid time %q'' @ what) [FStr s])"

definition time_of_day :: "nat \<Rightarrow> nat \<Rightarrow> nat \<Rightarrow> go_time" where
  "time_of_day h m s = time_Date 0 1 1 (int h) (int m) (int s) 0"

definition checkTimeFields :: "string \<Rightarrow> nat \<Rightarrow> nat \<Rightarrow> nat \<Rightarrow> go_time res" where
  "checkTimeFields s hour minute sec =
     (if hour > 23 \<or> minute > 59 \<or> sec > 59 then invalid_time '': field out of range'' s
      else Inr (time_of_day hour minute sec))"

definition parseTimeFields :: "string \<Rightarrow> dateTimeSettings \<Rightarrow> go_time res" where
  "parseTimeFields s cfg =
     (if dtTimeFormat cfg = timeFormatUSA then
        if length s < 7 then invalid_time [] s
        else (case fr_num (newFieldReader s) 0 2 of (hour, r1) \<Rightarrow> case fr_num r1 3 2 of (minute, r2) \<Rightarrow>
          case frErr r2 of
            Some e \<Rightarrow> Inl (Wrap e ''invalid time %q: %w'' [FStr s])
          | None \<Rightarrow>
              if hour > 12 then invalid_time '': hour out of range'' s
              else let marker = byte_of_char (s ! 6) OR 0x20 in
                if marker = 0x61 then checkTimeFields s (if hour = 12 then 0 else hour) minute 0
                else if marker = 0x70 then checkTimeFields s (if hour \<noteq> 12 then hour + 12 else hour) minute 0
                else invalid_time '': expected AM or PM'' s)
      else (case fr_num3 (newFieldReader s) (0, 2) (3, 2) (6, 2) of ((hour, minute, sec), r) \<Rightarrow>
          case frErr r of
            Some e \<Rightarrow> Inl (Wrap e ''invalid time %q: %w'' [FStr s])
          | None \<Rightarrow> checkTimeFields s (if hour = 24 \<and> minute = 0 \<and> sec = 0 then 0 else hour) minute sec))"

definition parseTime :: "string \<Rightarrow> dateTimeSettings \<Rightarrow> go_time res" where
  "parseTime s0 cfg =
     (let s = TrimSpace s0 in
      if s = [] then Inr (time_of_day 0 0 0)
      else case parseTimeFields s cfg of
        Inr t \<Rightarrow> Inr t
      | Inl e \<Rightarrow>
          if length s \<ge> 19 \<and> s ! 4 = CHR ''-'' \<and> s ! 7 = CHR ''-'' then
            (case parseIBMiTimestamp s of
               Inr ts \<Rightarrow> Inr (time_of_day (tHour ts) (tMinute ts) (tSecond ts))
             | Inl _ \<Rightarrow> Inl e)
          else Inl e)"

definition decodeDateText :: "string \<Rightarrow> dateTimeSettings \<Rightarrow> driverValue res" where
  "decodeDateText s cfg =
     (if s = [] then Inr (VString s)
      else case parseDate s cfg of
        Inl e \<Rightarrow> Inl (Wrap e ''i400: decode DATE value: %w'' []) | Inr t \<Rightarrow> Inr (VTime t))"

definition decodeTimeText :: "string \<Rightarrow> dateTimeSettings \<Rightarrow> driverValue res" where
  "decodeTimeText s cfg =
     (if s = [] then Inr (VString s)
      else case parseTime s cfg of
        Inl e \<Rightarrow> Inl (Wrap e ''i400: decode TIME value: %w'' []) | Inr t \<Rightarrow> Inr (VTime t))"

subsection \<open>Timestamps with picoseconds\<close>

definition maxTimestampPicoseconds :: int where
  "maxTimestampPicoseconds = 999999999999"

record Timestamp =
  tsTime :: go_time
  tsPicoseconds :: int

record NullTimestamp =
  ntTimestamp :: Timestamp
  ntValid :: bool

definition zeroTimestamp :: Timestamp where
  "zeroTimestamp = \<lparr>tsTime = zeroTime, tsPicoseconds = 0\<rparr>"

text \<open>The layout "2006-01-02-15.04.05" of \<open>time.Format\<close>.\<close>

definition format_seconds :: "go_time \<Rightarrow> string" where
  "format_seconds t =
     format_year (tYear t) @ ''-'' @ pad2 (tMonth t) @ ''-'' @ pad2 (tDay t) @ ''-'' @ pad2 (tHour t) @ ''.'' @
     pad2 (tMinute t) @ ''.'' @ pad2 (tSecond t)"

definition timestampText :: "Timestamp \<Rightarrow> string res" where
  "timestampText ts =
     (if tsPicoseconds ts < 0 \<or> tsPicoseconds ts > maxTimestampPicoseconds
      then Inl (Errorf ''i400: Timestamp picoseconds %d out of range'' [FInt (tsPicoseconds ts)])
      else let picos = (if tsPicoseconds ts = 0 then int (tNanosecond (tsTime ts)) * 1000 else tsPicoseconds ts) in
        Inr (format_seconds (tsTime ts) @ ''.'' @ zero_pad 12 (show_nat (nat picos))))"

definition invalid_timestamp :: "string \<Rightarrow> 'a res" where
  "invalid_timestamp s = Inl (Errorf ''i400: invalid timestamp %q'' [FStr s])"

definition parseFraction :: "string \<Rightarrow> string \<Rightarrow> int res" where
  "parseFraction s rest =
     (if rest = [] then Inr 0
      else if hd rest \<noteq> CHR ''.'' then invalid_timestamp s
      else let frac = tl rest in
        if length frac < 1 \<or> length frac > 12 \<or> \<not> isASCIIDigits frac
        then Inl (Errorf ''i400: invalid timestamp fraction in %q'' [FStr s])
        else (case ParseInt64 (frac @ rep (12 - length frac) (CHR ''0'')) of Inl _ \<Rightarrow> Inr 0 | Inr p \<Rightarrow> Inr p))"

definition stampSeparatorsOk :: "string \<Rightarrow> bool" where
  "stampSeparatorsOk s \<longleftrightarrow>
     s ! 4 = CHR ''-'' \<and> s ! 7 = CHR ''-'' \<and> (s ! 10 = CHR ''-'' \<or> s ! 10 = CHR '' '' \<or> s ! 10 = CHR ''T'') \<and>
     (s ! 13 = CHR ''.'' \<or> s ! 13 = CHR '':'') \<and> (s ! 16 = CHR ''.'' \<or> s ! 16 = CHR '':'')"

definition stampNumbers :: "string \<Rightarrow> (int \<times> int \<times> int \<times> int \<times> int \<times> int) res" where
  "stampNumbers s =
     res_bind (ParseInt64 (slice 0 4 s)) (\<lambda>year.
     res_bind (ParseInt64 (slice 5 7 s)) (\<lambda>month.
     res_bind (ParseInt64 (slice 8 10 s)) (\<lambda>day.
     res_bind (ParseInt64 (slice 11 13 s)) (\<lambda>hour.
     res_bind (ParseInt64 (slice 14 16 s)) (\<lambda>minute.
     res_bind (ParseInt64 (slice 17 19 s)) (\<lambda>sec. Inr (year, month, day, hour, minute, sec)))))))"

definition parseTimestampText :: "string \<Rightarrow> (go_time \<times> int) res" where
  "parseTimestampText s0 =
     (let s = TrimSpace s0 in
      if length s < 19 then invalid_timestamp s
      else if \<not> stampSeparatorsOk s then invalid_timestamp s
      else case stampNumbers s of
        Inl _ \<Rightarrow> invalid_timestamp s
      | Inr (year, month, day, hour, minute, sec) \<Rightarrow>
          if hour > 23 \<or> minute > 59 \<or> sec > 59 then invalid_timestamp s
          else let date = time_Date year month day hour minute sec 0 in
            if tYear date \<noteq> year \<or> int (tMonth date) \<noteq> month \<or> int (tDay date) \<noteq> day then invalid_timestamp s
            else res_bind (parseFraction s (drop 19 s)) (\<lambda>picos.
              Inr (time_Date year month day hour minute sec (picos div 1000), picos)))"

definition Timestamp_parse :: "string \<Rightarrow> Timestamp res" where
  "Timestamp_parse s = res_bind (parseTimestampText s) (\<lambda>(t, picos). Inr \<lparr>tsTime = t, tsPicoseconds = picos\<rparr>)"

text \<open>\<open>Scan\<close> returns the new value of the receiver.\<close>

fun Timestamp_Scan :: "driverValue \<Rightarrow> Timestamp res" where
  "Timestamp_Scan VNil = Inl (Errorf ''i400: cannot scan NULL into Timestamp; use NullTimestamp'' [])"
| "Timestamp_Scan (VTime t) = Inr \<lparr>tsTime = t, tsPicoseconds = int (tNanosecond t) * 1000\<rparr>"
| "Timestamp_Scan (VString s) = Timestamp_parse s"
| "Timestamp_Scan (VBytes bs) = Timestamp_parse (map char_of_byte bs)"
| "Timestamp_Scan v = Inl (Errorf ''i400: cannot scan %T into Timestamp'' [])"

definition Timestamp_Value :: "Timestamp \<Rightarrow> driverValue res" where
  "Timestamp_Value ts = res_bind (timestampText ts) (\<lambda>s. Inr (VString s))"

text \<open>\<open>errText\<close> is the text \<open>fmt\<close> gives the error.\<close>

definition Timestamp_String :: "(go_error \<Rightarrow> string) \<Rightarrow> Timestamp \<Rightarrow> string" where
  "Timestamp_String errText ts =
     (case timestampText ts of Inl e \<Rightarrow> ''Timestamp(invalid: '' @ errText e @ '')'' | Inr s \<Rightarrow> s)"

text \<open>On an error the receiver keeps its timestamp, but is already marked valid.\<close>

definition NullTimestamp_Scan :: "NullTimestamp \<Rightarrow> driverValue \<Rightarrow> unit res \<times> NullTimestamp" where
  "NullTimestamp_Scan n v =
     (if v = VNil then (Inr (), n\<lparr>ntTimestamp := zeroTimestamp, ntValid := False\<rparr>)
      else case Timestamp_Scan v of
        Inl e \<Rightarrow> (Inl e, n\<lparr>ntValid := True\<rparr>)
      | Inr ts \<Rightarrow> (Inr (), n\<lparr>ntTimestamp := ts, ntValid := True\<rparr>))"

definition NullTimestamp_Value :: "NullTimestamp \<Rightarrow> driverValue res" where
  "NullTimestamp_Value n = (if \<not> ntValid n then Inr VNil else Timestamp_Value (ntTimestamp n))"

section \<open>Lemmas\<close>

subsection \<open>The calendar\<close>

definition valid_date :: "int \<Rightarrow> nat \<Rightarrow> nat \<Rightarrow> bool" where
  "valid_date y m d \<longleftrightarrow> 1 \<le> m \<and> m \<le> 12 \<and> 1 \<le> d \<and> d \<le> daysIn y m"

definition valid_clock :: "go_time \<Rightarrow> bool" where
  "valid_clock t \<longleftrightarrow> tHour t < 24 \<and> tMinute t < 60 \<and> tSecond t < 60 \<and> tNanosecond t < 1000000000"

definition valid_time :: "go_time \<Rightarrow> bool" where
  "valid_time t \<longleftrightarrow> valid_date (tYear t) (tMonth t) (tDay t) \<and> valid_clock t"

definition at_midnight :: "go_time \<Rightarrow> go_time" where
  "at_midnight t = t\<lparr>tHour := 0, tMinute := 0, tSecond := 0, tNanosecond := 0\<rparr>"

lemma normDay_valid:
  "1 \<le> m \<Longrightarrow> m \<le> 12 \<Longrightarrow> normDay y m d = (y', m', d') \<Longrightarrow> valid_date y' m' d'"
proof (induction y m d rule: normDay.induct)
  case (1 y m d)
  have p: "1 \<le> snd (prevMonth y m) \<and> snd (prevMonth y m) \<le> 12"
    and n: "1 \<le> snd (nextMonth y m) \<and> snd (nextMonth y m) \<le> 12"
    using 1(3,4) by (auto simp: prevMonth_def nextMonth_def)
  show ?case
  proof (cases "d < 1")
    case True
    obtain y1 m1 where pm: "prevMonth y m = (y1, m1)" by force
    have "normDay y1 m1 (d + int (daysIn y1 m1)) = (y', m', d')"
      using 1(5) True pm by (subst (asm) normDay.simps) simp
    then show ?thesis using 1(1) [OF True pm [symmetric]] p pm by simp
  next
    case False
    show ?thesis
    proof (cases "d > int (daysIn y m)")
      case True
      obtain y1 m1 where nm: "nextMonth y m = (y1, m1)" by force
      have "normDay y1 m1 (d - int (daysIn y m)) = (y', m', d')"
        using 1(5) False True nm by (subst (asm) normDay.simps) simp
      then show ?thesis using 1(2) [OF False True nm [symmetric]] n nm by simp
    next
      case False
      with 1(3,4,5) \<open>\<not> d < 1\<close> show ?thesis
        by (subst (asm) normDay.simps) (auto simp: valid_date_def)
    qed
  qed
qed

lemma normDay_id: "1 \<le> d \<Longrightarrow> d \<le> int (daysIn y m) \<Longrightarrow> normDay y m d = (y, m, nat d)"
  by (subst normDay.simps) simp

lemma normDay_months:
  assumes "k + n \<le> 12" "1 \<le> k" "1 \<le> d" "d \<le> daysIn y (k + n)"
  shows "normDay y k (int (sum_list (map (daysIn y) [k..<k + n]) + d)) = (y, k + n, d)"
  using assms
proof (induction n arbitrary: k)
  case 0
  then show ?case by (simp add: normDay_id)
next
  case (Suc n)
  have e: "[k..<k + Suc n] = k # [Suc k..<Suc k + n]" by (simp add: upt_rec)
  have "int (sum_list (map (daysIn y) [k..<k + Suc n]) + d) - int (daysIn y k)
      = int (sum_list (map (daysIn y) [Suc k..<Suc k + n]) + d)"
    unfolding e by simp
  moreover have "nextMonth y k = (y, Suc k)" using Suc.prems by (simp add: nextMonth_def)
  moreover have "int (sum_list (map (daysIn y) [k..<k + Suc n]) + d) > int (daysIn y k)"
    unfolding e using Suc.prems by simp
  moreover have "\<not> int (sum_list (map (daysIn y) [k..<k + Suc n]) + d) < 1" using Suc.prems by simp
  ultimately have "normDay y k (int (sum_list (map (daysIn y) [k..<k + Suc n]) + d))
      = normDay y (Suc k) (int (sum_list (map (daysIn y) [Suc k..<Suc k + n]) + d))"
    by (subst normDay.simps) (simp only: if_True if_False prod.case)
  also have "\<dots> = (y, Suc k + n, d)" using Suc by (intro Suc.IH) simp_all
  finally show ?case by simp
qed

lemma time_Date_valid: "valid_time (time_Date y mo d h mi s ns)"
proof -
  obtain y' m' d' where n: "normDay (y + (mo - 1) div 12) (nat ((mo - 1) mod 12) + 1)
      (d + (h + (mi + (s + ns div 1000000000) div 60) div 60) div 24) = (y', m', d')"
    by (metis prod_cases3)
  have "nat ((mo - 1) mod 12) + 1 \<le> 12" by (simp add: nat_less_iff Suc_le_eq)
  with n have "valid_date y' m' d'" by (intro normDay_valid [OF _ _ n]) simp_all
  then show ?thesis using n
    by (simp add: time_Date_def Let_def valid_time_def valid_clock_def nat_less_iff)
qed

lemma time_Date_id:
  assumes "valid_date y m d" "h < 24" "mi < 60" "s < 60" "ns < 1000000000"
  shows "time_Date y (int m) (int d) (int h) (int mi) (int s) (int ns) =
    \<lparr>tYear = y, tMonth = m, tDay = d, tHour = h, tMinute = mi, tSecond = s, tNanosecond = ns\<rparr>"
proof -
  from assms(1) have "normDay y m (int d) = (y, m, d)" "1 \<le> m" "m \<le> 12" "nat (int m - 1) + 1 = m"
    by (auto simp: valid_date_def normDay_id)
  moreover have "int m - 1 < 12" "0 \<le> int m - 1" using calculation by simp_all
  ultimately show ?thesis using assms(2-) by (simp add: time_Date_def Let_def)
qed

lemma time_of_day_eq:
  "h < 24 \<Longrightarrow> m < 60 \<Longrightarrow> s < 60 \<Longrightarrow> time_of_day h m s =
    \<lparr>tYear = 0, tMonth = 1, tDay = 1, tHour = h, tMinute = m, tSecond = s, tNanosecond = 0\<rparr>"
  using time_Date_id [of 0 1 1 h m s 0] by (simp add: time_of_day_def valid_date_def daysIn_def)

lemma YearDay_bounds: "valid_date (tYear t) (tMonth t) (tDay t) \<Longrightarrow> 1 \<le> YearDay t \<and> YearDay t < 1000"
proof -
  assume v: "valid_date (tYear t) (tMonth t) (tDay t)"
  have "sum_list (map (daysIn y) xs) \<le> 31 * length xs" for y xs
    by (induction xs) (use daysIn_bounds(2) in \<open>auto intro: add_mono\<close>)
  from this [of "tYear t" "[1..<tMonth t]"] show ?thesis
    using v daysIn_bounds(2) [of "tYear t" "tMonth t"] by (auto simp: valid_date_def YearDay_def)
qed

lemma time_Date_YearDay:
  assumes "valid_date (tYear t) (tMonth t) (tDay t)"
  shows "time_Date (tYear t) 1 (int (YearDay t)) 0 0 0 0 = at_midnight t"
proof -
  have "normDay (tYear t) 1 (int (YearDay t)) = (tYear t, tMonth t, tDay t)"
    using normDay_months [of 1 "tMonth t - 1" "tDay t" "tYear t"] assms
    by (auto simp: YearDay_def valid_date_def simp del: upt_Suc)
  then show ?thesis by (simp add: time_Date_def at_midnight_def)
qed

lemma time_Date_midnight:
  assumes "valid_date (tYear t) (tMonth t) (tDay t)"
  shows "time_Date (tYear t) (int (tMonth t)) (int (tDay t)) 0 0 0 0 = at_midnight t"
  using time_Date_id [OF assms, of 0 0 0 0] by (simp add: at_midnight_def)

subsection \<open>Fields\<close>

lemma pad2_digits [simp]: "isASCIIDigits (pad2 n)"
  by (simp add: pad2_def)

lemma length_show_nat_le: "n < 10 ^ k \<Longrightarrow> 0 < k \<Longrightarrow> length (show_nat n) \<le> k"
  by (cases "n = 0") (simp_all add: length_show_nat, subst show_nat.simps, simp)

lemma zero_pad_field:
  assumes "n < 10 ^ w" "0 < w"
  shows "length (zero_pad w (show_nat n)) = w" "isASCIIDigits (zero_pad w (show_nat n))"
    "nat_of_digits (zero_pad w (show_nat n)) = n"
  using length_show_nat_le [OF assms] by simp_all

lemma pad2_field: "n < 100 \<Longrightarrow> length (pad2 n) = 2" "nat_of_digits (pad2 n) = n"
  using zero_pad_field [of n 2] by (simp_all add: pad2_def)

lemma sprintf_0d_field:
  assumes "0 \<le> i" "i < 10 ^ w" "0 < w"
  shows "length (sprintf_0d w i) = w" "isASCIIDigits (sprintf_0d w i)" "nat_of_digits (sprintf_0d w i) = nat i"
proof -
  have "nat i < 10 ^ w" using assms(1,2) by (simp add: nat_less_iff)
  from zero_pad_field [OF this assms(3)] assms(1)
  show "length (sprintf_0d w i) = w" "isASCIIDigits (sprintf_0d w i)" "nat_of_digits (sprintf_0d w i) = nat i"
    by (simp_all add: sprintf_0d_def)
qed

lemma fr_num_at:
  assumes "isASCIIDigits ds" "start = length a" "n = length ds"
  shows "fr_num \<lparr>frText = a @ ds @ b, frErr = None\<rparr> start n = (nat_of_digits ds, \<lparr>frText = a @ ds @ b, frErr = None\<rparr>)"
proof -
  have "Index (\<lambda>c. \<not> is_digit c) ds = None"
    using assms(1) by (auto simp: Index_None isASCIIDigits_def list_all_iff)
  then show ?thesis using assms(2,3) by (simp add: fr_num_def slice_def)
qed

lemma fr_num_second:
  assumes "isASCIIDigits y" "n = length y" "i = Suc (length x)"
  shows "fr_num \<lparr>frText = x @ c # y @ r, frErr = None\<rparr> i n = (nat_of_digits y, \<lparr>frText = x @ c # y @ r, frErr = None\<rparr>)"
  using fr_num_at [OF assms(1) _ assms(2), of i "x @ [c]" r] assms(3) by simp

text \<open>Three fields of digits with one-character separators, read at their positions.\<close>

lemma fr_num_fields:
  assumes "isASCIIDigits x" "isASCIIDigits y" "isASCIIDigits z"
    and "s = x @ [c] @ y @ [c'] @ z @ w"
  shows "i = 0 \<Longrightarrow> l = length x \<Longrightarrow> fr_num \<lparr>frText = s, frErr = None\<rparr> i l = (nat_of_digits x, \<lparr>frText = s, frErr = None\<rparr>)"
    and "i = length x + 1 \<Longrightarrow> l = length y \<Longrightarrow>
      fr_num \<lparr>frText = s, frErr = None\<rparr> i l = (nat_of_digits y, \<lparr>frText = s, frErr = None\<rparr>)"
    and "i = length x + length y + 2 \<Longrightarrow> l = length z \<Longrightarrow>
      fr_num \<lparr>frText = s, frErr = None\<rparr> i l = (nat_of_digits z, \<lparr>frText = s, frErr = None\<rparr>)"
  using assms fr_num_at [of x i "[]" l "[c] @ y @ [c'] @ z @ w"] fr_num_at [of y i "x @ [c]" l "[c'] @ z @ w"]
    fr_num_at [of z i "x @ [c] @ y @ [c']" l w]
  by simp_all

lemma separator_char:
  assumes "list_all (\<lambda>s. length s = 1 \<and> \<not> is_digit (hd s)) seps" "seps \<noteq> []"
  shows "\<exists>c. (if i < 0 \<or> i \<ge> int (length seps) then seps ! 0 else seps ! nat i) = [c] \<and> \<not> is_digit c"
proof -
  let ?s = "if i < 0 \<or> i \<ge> int (length seps) then seps ! 0 else seps ! nat i"
  have "?s \<in> set seps" using assms(2) by (auto intro!: nth_mem)
  with assms(1) have "length ?s = 1 \<and> \<not> is_digit (hd ?s)" unfolding list_all_iff by blast
  then show ?thesis by (cases ?s) auto
qed

lemma dateSep_char: "\<exists>c. dateSep cfg = [c] \<and> \<not> is_digit c"
  unfolding dateSep_def by (rule separator_char) code_simp+

lemma timeSep_char: "\<exists>c. timeSep cfg = [c] \<and> \<not> is_digit c"
  unfolding timeSep_def by (rule separator_char) code_simp+

lemma digits_plain:
  assumes "isASCIIDigits x" "x \<noteq> []"
  shows "plain_char (hd x)" "plain_char (last x)"
  using assms is_digit_plain by (auto simp: isASCIIDigits_def list_all_iff)

text \<open>Text that begins and ends with digits is not trimmed, and a separator keeps it from being all zeros.\<close>

lemma dated_text:
  assumes "isASCIIDigits x" "x \<noteq> []" "isASCIIDigits z" "z \<noteq> []" "\<not> is_digit c"
  shows "TrimSpace (x @ c # m @ z) = x @ c # m @ z" "TrimChar (CHR ''0'') (x @ c # m @ z) \<noteq> []"
proof -
  show "TrimSpace (x @ c # m @ z) = x @ c # m @ z"
    using digits_plain [OF assms(1,2)] digits_plain [OF assms(3,4)] assms(2,4) by (intro TrimSpace_plain) auto
  have "c \<noteq> CHR ''0''" using assms(5) by (auto simp: is_digit_def)
  then show "TrimChar (CHR ''0'') (x @ c # m @ z) \<noteq> []" by (auto simp: TrimChar_empty_iff)
qed

subsection \<open>Dates\<close>

text \<open>The years a date format can express.\<close>

definition date_year_ok :: "dateTimeSettings \<Rightarrow> int \<Rightarrow> bool" where
  "date_year_ok cfg y \<longleftrightarrow>
     (if dtDateFormat cfg \<in> {dateFormatJulian, dateFormatMDY, dateFormatDMY, dateFormatYMD}
      then 1940 \<le> y \<and> y \<le> 2039 else 0 \<le> y \<and> y \<le> 9999)"

lemma expand_window: "1940 \<le> y \<Longrightarrow> y \<le> 2039 \<Longrightarrow> int (expandTwoDigitYear (nat (y mod 100))) = y"
  unfolding expandTwoDigitYear_def by (simp add: nat_le_iff) presburger


text \<open>The text of a date, as three fields and two separators; a julian date has two fields.\<close>

lemma parseDate_fields:
  assumes "TrimSpace s = s" "TrimChar (CHR ''0'') s \<noteq> []" "dtDateFormat cfg \<noteq> dateFormatJulian"
    and "dateFields (dtDateFormat cfg) s = ((year, tMonth t, tDay t), \<lparr>frText = s, frErr = None\<rparr>)"
    and "int year = tYear t" "valid_date (tYear t) (tMonth t) (tDay t)"
  shows "parseDate s cfg = Inr (at_midnight t)"
  using assms time_Date_midnight [OF assms(6)]
  by (simp add: parseDate_def Let_def) (simp add: at_midnight_def)

lemma valid_date_fields:
  assumes "valid_date y m d"
  shows "m < 100" "d < 100" "int m < 10 ^ 2" "int d < 10 ^ 2"
  using assms daysIn_bounds(2) [of y m] by (auto simp: valid_date_def)

lemma rem_century: "1940 \<le> y \<Longrightarrow> go_rem y 100 = y mod 100"
  by (simp add: go_rem_def)

lemma julianFields_text:
  assumes "isASCIIDigits x" "length x = 2" "isASCIIDigits z" "length z = 3"
  shows "julianFields (x @ c # z) =
    ((expandTwoDigitYear (nat_of_digits x), nat_of_digits z), \<lparr>frText = x @ c # z, frErr = None\<rparr>)"
proof -
  have "fr_num \<lparr>frText = x @ c # z, frErr = None\<rparr> 0 2 = (nat_of_digits x, \<lparr>frText = x @ c # z, frErr = None\<rparr>)"
    using fr_num_at [of x 0 "[]" 2 "c # z"] assms by simp
  moreover have "fr_num \<lparr>frText = x @ c # z, frErr = None\<rparr> 3 3 = (nat_of_digits z, \<lparr>frText = x @ c # z, frErr = None\<rparr>)"
  proof -
    have "3 = Suc (length x)" "3 = length z" using assms(2,4) by simp_all
    from fr_num_second [OF assms(3) this(2,1), of c "[]"] show ?thesis by simp
  qed
  moreover have "length (x @ c # z) \<le> 6" using assms(2,4) by simp
  ultimately show ?thesis by (simp only: julianFields_def newFieldReader_def if_True prod.case)
qed

text \<open>The fields of the other formats: two digits of month and day, two or four of the year.\<close>

lemma dateFields_text:
  assumes "isASCIIDigits y" "isASCIIDigits m" "isASCIIDigits d" "length m = 2" "length d = 2"
  shows "length y = 4 \<Longrightarrow> dateFields dateFormatUSA (m @ c # d @ c # y) =
      ((nat_of_digits y, nat_of_digits m, nat_of_digits d), \<lparr>frText = m @ c # d @ c # y, frErr = None\<rparr>)"
    and "length y = 4 \<Longrightarrow> dateFields dateFormatEUR (d @ c # m @ c # y) =
      ((nat_of_digits y, nat_of_digits m, nat_of_digits d), \<lparr>frText = d @ c # m @ c # y, frErr = None\<rparr>)"
    and "length y = 2 \<Longrightarrow> dateFields dateFormatMDY (m @ c # d @ c # y) =
      ((expandTwoDigitYear (nat_of_digits y), nat_of_digits m, nat_of_digits d), \<lparr>frText = m @ c # d @ c # y, frErr = None\<rparr>)"
    and "length y = 2 \<Longrightarrow> dateFields dateFormatDMY (d @ c # m @ c # y) =
      ((expandTwoDigitYear (nat_of_digits y), nat_of_digits m, nat_of_digits d), \<lparr>frText = d @ c # m @ c # y, frErr = None\<rparr>)"
    and "length y = 2 \<Longrightarrow> dateFields dateFormatYMD (y @ c # m @ c # d) =
      ((expandTwoDigitYear (nat_of_digits y), nat_of_digits m, nat_of_digits d), \<lparr>frText = y @ c # m @ c # d, frErr = None\<rparr>)"
    and "length y = 4 \<Longrightarrow> f \<notin> {dateFormatMDY, dateFormatDMY, dateFormatYMD, dateFormatUSA, dateFormatEUR} \<Longrightarrow>
      dateFields f (y @ c # m @ c # d) =
      ((nat_of_digits y, nat_of_digits m, nat_of_digits d), \<lparr>frText = y @ c # m @ c # d, frErr = None\<rparr>)"
  using assms fr_num_fields [of m d y "m @ c # d @ c # y" c c "[]"] fr_num_fields [of d m y "d @ c # m @ c # y" c c "[]"]
    fr_num_fields [of y m d "y @ c # m @ c # d" c c "[]"]
  by (simp_all add: dateFields_def format_codes newFieldReader_def fr_num3_def fr_yearAt_def)

lemma date_roundtrip_julian:
  assumes "valid_date (tYear t) (tMonth t) (tDay t)" "dtDateFormat cfg = dateFormatJulian"
    and "1940 \<le> tYear t" "tYear t \<le> 2039"
  shows "parseDate (formatDate t cfg) cfg = Inr (at_midnight t)"
proof -
  let ?x = "sprintf_0d 2 (tYear t mod 100)" and ?z = "sprintf_0d 3 (int (YearDay t))"
  obtain c where c: "dateSep cfg = [c]" "\<not> is_digit c" using dateSep_char by blast
  have x: "length ?x = 2" "isASCIIDigits ?x" "nat_of_digits ?x = nat (tYear t mod 100)"
    by (auto intro!: sprintf_0d_field)
  have z: "length ?z = 3" "isASCIIDigits ?z" "nat_of_digits ?z = YearDay t"
    using YearDay_bounds [OF assms(1)] sprintf_0d_field [of "int (YearDay t)" 3] by simp_all
  have s: "formatDate t cfg = ?x @ c # ?z"
    using assms(2,3) c by (simp add: formatDate_def Let_def format_codes rem_century)
  have t: "TrimSpace (?x @ c # ?z) = ?x @ c # ?z" "TrimChar (CHR ''0'') (?x @ c # ?z) \<noteq> []"
    using dated_text [OF x(2) _ z(2) _ c(2), of "[]"] x(1) z(1) by (metis append_Nil length_0_conv zero_neq_numeral)+
  have f: "julianFields (?x @ c # ?z) =
      ((expandTwoDigitYear (nat (tYear t mod 100)), YearDay t), \<lparr>frText = ?x @ c # ?z, frErr = None\<rparr>)"
    using julianFields_text [OF x(2,1) z(2,1)] by (simp only: x(3) z(3))
  show ?thesis
    unfolding s using t f assms(2) expand_window [OF assms(3,4)] time_Date_YearDay [OF assms(1)] YearDay_bounds [OF assms(1)]
    by (simp add: parseDate_def Let_def) (simp add: at_midnight_def YearDay_def)
qed

text \<open>One shape for the other formats: the outer fields, the middle field and the separator.\<close>

lemma parseDate_text:
  assumes "isASCIIDigits x" "x \<noteq> []" "isASCIIDigits z" "z \<noteq> []" "\<not> is_digit c"
    and "formatDate t cfg = x @ c # y @ c # z" "dtDateFormat cfg \<noteq> dateFormatJulian"
    and "dateFields (dtDateFormat cfg) (x @ c # y @ c # z) =
      ((year, tMonth t, tDay t), \<lparr>frText = x @ c # y @ c # z, frErr = None\<rparr>)"
    and "int year = tYear t" "valid_date (tYear t) (tMonth t) (tDay t)"
  shows "parseDate (formatDate t cfg) cfg = Inr (at_midnight t)"
  unfolding assms(6)
  using dated_text [OF assms(1-5), of "y @ [c]"] assms(7-) by (intro parseDate_fields) simp_all

lemma date_roundtrip_short:
  assumes v: "valid_date (tYear t) (tMonth t) (tDay t)"
    and f: "dtDateFormat cfg \<in> {dateFormatMDY, dateFormatDMY, dateFormatYMD}"
    and w: "1940 \<le> tYear t" "tYear t \<le> 2039"
  shows "parseDate (formatDate t cfg) cfg = Inr (at_midnight t)"
proof -
  define m d y where mdy: "m = sprintf_0d 2 (int (tMonth t))" "d = sprintf_0d 2 (int (tDay t))"
    "y = sprintf_0d 2 (tYear t mod 100)"
  obtain c where c: "dateSep cfg = [c]" "\<not> is_digit c" using dateSep_char by blast
  have m: "length m = 2" "isASCIIDigits m" "nat_of_digits m = tMonth t"
    and d: "length d = 2" "isASCIIDigits d" "nat_of_digits d = tDay t"
    and y: "length y = 2" "isASCIIDigits y" "nat_of_digits y = nat (tYear t mod 100)"
    using valid_date_fields [OF v] by (auto simp: mdy sprintf_0d_field)
  have ne: "m \<noteq> []" "d \<noteq> []" "y \<noteq> []" using m(1) d(1) y(1) by auto
  note flds = dateFields_text [OF y(2) m(2) d(2) m(1) d(1), unfolded m(3) d(3) y(3)]
  have s: "dtDateFormat cfg = dateFormatMDY \<Longrightarrow> formatDate t cfg = m @ c # d @ c # y"
    "dtDateFormat cfg = dateFormatDMY \<Longrightarrow> formatDate t cfg = d @ c # m @ c # y"
    "dtDateFormat cfg = dateFormatYMD \<Longrightarrow> formatDate t cfg = y @ c # m @ c # d"
    using w(1) by (simp_all add: formatDate_def Let_def format_codes rem_century c(1) mdy)
  consider "dtDateFormat cfg = dateFormatMDY" | "dtDateFormat cfg = dateFormatDMY" | "dtDateFormat cfg = dateFormatYMD"
    using f by blast
  then show ?thesis
  proof cases
    case 1
    show ?thesis
      by (rule parseDate_text [OF m(2) ne(1) y(2) ne(3) c(2) s(1) [OF 1] _ _ expand_window [OF w] v])
        (use 1 flds(3) [OF y(1)] in \<open>simp_all add: format_codes\<close>)
  next
    case 2
    show ?thesis
      by (rule parseDate_text [OF d(2) ne(2) y(2) ne(3) c(2) s(2) [OF 2] _ _ expand_window [OF w] v])
        (use 2 flds(4) [OF y(1)] in \<open>simp_all add: format_codes\<close>)
  next
    case 3
    show ?thesis
      by (rule parseDate_text [OF y(2) ne(3) d(2) ne(2) c(2) s(3) [OF 3] _ _ expand_window [OF w] v])
        (use 3 flds(5) [OF y(1)] in \<open>simp_all add: format_codes\<close>)
  qed
qed

lemma date_roundtrip_long:
  assumes v: "valid_date (tYear t) (tMonth t) (tDay t)"
    and f: "dtDateFormat cfg \<notin> {dateFormatJulian, dateFormatMDY, dateFormatDMY, dateFormatYMD}"
    and w: "0 \<le> tYear t" "tYear t \<le> 9999"
  shows "parseDate (formatDate t cfg) cfg = Inr (at_midnight t)"
proof -
  define m d y where mdy: "m = sprintf_0d 2 (int (tMonth t))" "d = sprintf_0d 2 (int (tDay t))"
    "y = sprintf_0d 4 (tYear t)"
  have m: "length m = 2" "isASCIIDigits m" "nat_of_digits m = tMonth t"
    and d: "length d = 2" "isASCIIDigits d" "nat_of_digits d = tDay t"
    and y: "length y = 4" "isASCIIDigits y" "nat_of_digits y = nat (tYear t)"
    using valid_date_fields [OF v] w by (auto simp: mdy sprintf_0d_field)
  have ne: "m \<noteq> []" "d \<noteq> []" "y \<noteq> []" using m(1) d(1) y(1) by auto
  have k: "\<not> is_digit (CHR ''/'')" "\<not> is_digit (CHR ''.'')" "\<not> is_digit (CHR ''-'')"
    by (simp_all add: is_digit_def)
  have year: "int (nat (tYear t)) = tYear t" using w(1) by simp
  note flds = dateFields_text [OF y(2) m(2) d(2) m(1) d(1), unfolded m(3) d(3) y(3)]
  have s: "dtDateFormat cfg = dateFormatUSA \<Longrightarrow> formatDate t cfg = m @ CHR ''/'' # d @ CHR ''/'' # y"
    "dtDateFormat cfg = dateFormatEUR \<Longrightarrow> formatDate t cfg = d @ CHR ''.'' # m @ CHR ''.'' # y"
    "dtDateFormat cfg \<notin> {dateFormatUSA, dateFormatEUR} \<Longrightarrow> formatDate t cfg = y @ CHR ''-'' # m @ CHR ''-'' # d"
    using f by (simp_all add: formatDate_def Let_def format_codes mdy)
  consider "dtDateFormat cfg = dateFormatUSA" | "dtDateFormat cfg = dateFormatEUR"
    | "dtDateFormat cfg \<notin> {dateFormatUSA, dateFormatEUR}" by blast
  then show ?thesis
  proof cases
    case 1
    show ?thesis
      by (rule parseDate_text [OF m(2) ne(1) y(2) ne(3) k(1) s(1) [OF 1] _ _ year v])
        (use 1 flds(1) [OF y(1)] in \<open>simp_all add: format_codes\<close>)
  next
    case 2
    show ?thesis
      by (rule parseDate_text [OF d(2) ne(2) y(2) ne(3) k(2) s(2) [OF 2] _ _ year v])
        (use 2 flds(2) [OF y(1)] in \<open>simp_all add: format_codes\<close>)
  next
    case 3
    show ?thesis
      by (rule parseDate_text [OF y(2) ne(3) d(2) ne(2) k(3) s(3) [OF 3] _ _ year v])
        (use 3 f flds(6) [OF y(1), of "dtDateFormat cfg"] in simp_all)
  qed
qed

lemma valid_epoch: "valid_time epoch"
  by (simp add: epoch_def valid_time_def valid_date_def valid_clock_def daysIn_def)

lemma parseDate_valid: "parseDate s cfg = Inr t \<Longrightarrow> valid_time t"
  by (auto simp: parseDate_def Let_def valid_epoch split: if_splits prod.splits option.splits) (metis time_Date_valid)+

subsection \<open>Times\<close>

lemma checkTimeFields_Inr: "h < 24 \<Longrightarrow> m < 60 \<Longrightarrow> s < 60 \<Longrightarrow> checkTimeFields txt h m s = Inr (time_of_day h m s)"
  by (simp add: checkTimeFields_def)

lemma parseTimeFields_text:
  assumes "isASCIIDigits h" "isASCIIDigits m" "isASCIIDigits s" "length h = 2" "length m = 2" "length s = 2"
    and "dtTimeFormat cfg \<noteq> timeFormatUSA" "nat_of_digits h < 24" "nat_of_digits m < 60" "nat_of_digits s < 60"
  shows "parseTimeFields (h @ c # m @ c # s) cfg = Inr (time_of_day (nat_of_digits h) (nat_of_digits m) (nat_of_digits s))"
  using assms fr_num_fields [OF assms(1-3), of "h @ c # m @ c # s" c c "[]"]
  by (simp add: parseTimeFields_def newFieldReader_def fr_num3_def checkTimeFields_Inr)

lemma parseTimeFields_usa:
  assumes "isASCIIDigits h" "isASCIIDigits m" "length h = 2" "length m = 2" "dtTimeFormat cfg = timeFormatUSA"
    and "1 \<le> nat_of_digits h" "nat_of_digits h \<le> 12" "nat_of_digits m < 60"
  shows "parseTimeFields (h @ '':'' @ m @ '' AM'') cfg = Inr (time_of_day (nat_of_digits h mod 12) (nat_of_digits m) 0)"
    and "parseTimeFields (h @ '':'' @ m @ '' PM'') cfg = Inr (time_of_day (nat_of_digits h mod 12 + 12) (nat_of_digits m) 0)"
proof -
  have at: "fr_num \<lparr>frText = h @ CHR '':'' # m @ r, frErr = None\<rparr> 0 2 = (nat_of_digits h, \<lparr>frText = h @ CHR '':'' # m @ r, frErr = None\<rparr>)"
    "fr_num \<lparr>frText = h @ CHR '':'' # m @ r, frErr = None\<rparr> 3 2 = (nat_of_digits m, \<lparr>frText = h @ CHR '':'' # m @ r, frErr = None\<rparr>)" for r
    using fr_num_at [OF assms(1), of 0 "[]" 2] assms(3) apply simp
    by (rule fr_num_second [OF assms(2)]) (simp_all add: assms(3,4))
  have nth: "(h @ '':'' @ m @ '' '' @ r) ! 6 = hd r" if "r \<noteq> []" for r
    using that assms(3,4) by (simp add: nth_append hd_conv_nth)
  have mk: "byte_of_char (CHR ''A'') OR 0x20 = 0x61" "byte_of_char (CHR ''P'') OR 0x20 = 0x70"
    by (simp_all add: byte_of_char_def)
  show "parseTimeFields (h @ '':'' @ m @ '' AM'') cfg = Inr (time_of_day (nat_of_digits h mod 12) (nat_of_digits m) 0)"
    using assms at [of "'' AM''"] nth [of "''AM''"] mk
    by (cases "nat_of_digits h = 12") (simp_all add: parseTimeFields_def newFieldReader_def checkTimeFields_Inr)
  show "parseTimeFields (h @ '':'' @ m @ '' PM'') cfg = Inr (time_of_day (nat_of_digits h mod 12 + 12) (nat_of_digits m) 0)"
    using assms at [of "'' PM''"] nth [of "''PM''"] mk
    by (cases "nat_of_digits h = 12") (simp_all add: parseTimeFields_def newFieldReader_def checkTimeFields_Inr)
qed

lemma parseTime_plain:
  assumes "s \<noteq> []" "plain_char (hd s)" "plain_char (last s)" "parseTimeFields s cfg = Inr t"
  shows "parseTime s cfg = Inr t"
  using assms TrimSpace_plain [OF assms(1-3)] by (simp add: parseTime_def)

lemma time_roundtrip_fields:
  assumes v: "valid_clock t" and f: "dtTimeFormat cfg \<noteq> timeFormatUSA"
  shows "parseTime (formatTime t cfg) cfg = Inr (time_of_day (tHour t) (tMinute t) (tSecond t))"
proof -
  obtain c where c: "timeSep cfg = [c]" using timeSep_char by blast
  define k where "k = (if dtTimeFormat cfg = timeFormatISO \<or> dtTimeFormat cfg = timeFormatEUR then CHR ''.''
    else if dtTimeFormat cfg = timeFormatJIS then CHR '':'' else c)"
  have s: "formatTime t cfg = pad2 (tHour t) @ k # pad2 (tMinute t) @ k # pad2 (tSecond t)"
    using f c by (simp add: formatTime_def Let_def k_def)
  have l: "length (pad2 (tHour t)) = 2" "length (pad2 (tMinute t)) = 2" "length (pad2 (tSecond t)) = 2"
    using v by (simp_all add: valid_clock_def pad2_field)
  have "parseTimeFields (formatTime t cfg) cfg = Inr (time_of_day (tHour t) (tMinute t) (tSecond t))"
    unfolding s using v parseTimeFields_text [OF _ _ _ l f, of k] by (simp add: pad2_field valid_clock_def)
  moreover have "pad2 (tHour t) \<noteq> []" "pad2 (tSecond t) \<noteq> []" using l by auto
  then have "plain_char (hd (formatTime t cfg))" "plain_char (last (formatTime t cfg))" "formatTime t cfg \<noteq> []"
    unfolding s using digits_plain [OF pad2_digits, of "tHour t"] digits_plain [OF pad2_digits, of "tSecond t"] by simp_all
  ultimately show ?thesis by (intro parseTime_plain)
qed

lemma usaHour_text:
  assumes "h < 24" "usaHour h = (h', marker)"
  shows "1 \<le> h'" "h' \<le> 12" "marker = (if h < 12 then ''A'' else ''P'')" "h = (if h < 12 then h' mod 12 else h' mod 12 + 12)"
  using assms by (auto simp: usaHour_def split: if_splits)

lemma time_roundtrip_usa:
  assumes v: "valid_clock t" and f: "dtTimeFormat cfg = timeFormatUSA"
  shows "parseTime (formatTime t cfg) cfg = Inr (time_of_day (tHour t) (tMinute t) 0)"
proof -
  obtain h marker where u: "usaHour (tHour t) = (h, marker)" by force
  have h24: "tHour t < 24" and m: "tMinute t < 60" using v by (simp_all add: valid_clock_def)
  note uh = usaHour_text [OF h24 u]
  have s: "formatTime t cfg = pad2 h @ '':'' @ pad2 (tMinute t) @ '' '' @ marker @ ''M''"
    using f u by (simp add: formatTime_def Let_def)
  have l: "length (pad2 h) = 2" "length (pad2 (tMinute t)) = 2" using uh m by (simp_all add: pad2_field)
  have "parseTimeFields (formatTime t cfg) cfg = Inr (time_of_day (tHour t) (tMinute t) 0)"
    using parseTimeFields_usa [OF pad2_digits pad2_digits l f] uh m unfolding s
    by (cases "tHour t < 12") (simp_all add: pad2_field)
  moreover have "pad2 h \<noteq> []" using l by auto
  then have "plain_char (hd (formatTime t cfg))" "plain_char (last (formatTime t cfg))" "formatTime t cfg \<noteq> []"
    unfolding s using digits_plain [OF pad2_digits, of h] by (simp_all add: plain_char_def)
  ultimately show ?thesis by (intro parseTime_plain)
qed

lemma parseTimeFields_valid: "parseTimeFields s cfg = Inr t \<Longrightarrow> valid_time t"
  unfolding parseTimeFields_def checkTimeFields_def invalid_time_def time_of_day_def
  by (auto simp: time_Date_valid Let_def split: if_splits prod.splits option.splits)

lemma parseTime_valid: "parseTime s cfg = Inr t \<Longrightarrow> valid_time t"
  by (auto simp: parseTime_def Let_def time_of_day_def time_Date_valid split: if_splits sum.splits dest: parseTimeFields_valid)

subsection \<open>Timestamps\<close>

lemma four_digits: "length y = 4 \<Longrightarrow> \<exists>a b c d. y = [a, b, c, d]"
  by (auto simp: numeral_eq_Suc length_Suc_conv)

lemma two_digits: "length y = 2 \<Longrightarrow> \<exists>a b. y = [a, b]"
  by (auto simp: numeral_eq_Suc length_Suc_conv)

text \<open>The text of a timestamp up to the seconds: fields of digits and their separators.\<close>

definition stamp :: "string \<Rightarrow> string \<Rightarrow> string \<Rightarrow> string \<Rightarrow> string \<Rightarrow> string \<Rightarrow> string" where
  "stamp y m d h mi s = y @ ''-'' @ m @ ''-'' @ d @ ''-'' @ h @ ''.'' @ mi @ ''.'' @ s"

definition stamp_ok :: "string \<Rightarrow> string \<Rightarrow> string \<Rightarrow> string \<Rightarrow> string \<Rightarrow> string \<Rightarrow> bool" where
  "stamp_ok y m d h mi s \<longleftrightarrow> length y = 4 \<and> length m = 2 \<and> length d = 2 \<and> length h = 2 \<and> length mi = 2 \<and> length s = 2 \<and>
     isASCIIDigits y \<and> isASCIIDigits m \<and> isASCIIDigits d \<and> isASCIIDigits h \<and> isASCIIDigits mi \<and> isASCIIDigits s"

lemma length_stamp: "stamp_ok y m d h mi s \<Longrightarrow> length (stamp y m d h mi s) = 19"
  by (simp add: stamp_ok_def stamp_def)

lemma ParseInt64_short: "isASCIIDigits x \<Longrightarrow> length x \<le> 18 \<Longrightarrow> x \<noteq> [] \<Longrightarrow> ParseInt64 x = Inr (int (nat_of_digits x))"
proof -
  assume a: "isASCIIDigits x" "length x \<le> 18" "x \<noteq> []"
  have "nat_of_digits x < 10 ^ length x" by (rule nat_of_digits_less [OF a(1)])
  also have "\<dots> \<le> 10 ^ 18" using a(2) by (intro power_increasing) simp_all
  finally show ?thesis using a by (intro ParseInt64_digits) simp_all
qed

lemma stamp_slices:
  assumes "stamp_ok y m d h mi s"
  shows "slice 0 4 (stamp y m d h mi s @ r) = y" "slice 5 7 (stamp y m d h mi s @ r) = m"
    "slice 8 10 (stamp y m d h mi s @ r) = d" "slice 11 13 (stamp y m d h mi s @ r) = h"
    "slice 14 16 (stamp y m d h mi s @ r) = mi" "slice 17 19 (stamp y m d h mi s @ r) = s"
    "drop 19 (stamp y m d h mi s @ r) = r" "stampSeparatorsOk (stamp y m d h mi s @ r)"
proof -
  from assms obtain y1 y2 y3 y4 m1 m2 d1 d2 h1 h2 i1 i2 s1 s2 where
    e: "y = [y1, y2, y3, y4]" "m = [m1, m2]" "d = [d1, d2]" "h = [h1, h2]" "mi = [i1, i2]" "s = [s1, s2]"
    unfolding stamp_ok_def using four_digits two_digits by meson
  show "slice 0 4 (stamp y m d h mi s @ r) = y" "slice 5 7 (stamp y m d h mi s @ r) = m"
    "slice 8 10 (stamp y m d h mi s @ r) = d" "slice 11 13 (stamp y m d h mi s @ r) = h"
    "slice 14 16 (stamp y m d h mi s @ r) = mi" "slice 17 19 (stamp y m d h mi s @ r) = s"
    "drop 19 (stamp y m d h mi s @ r) = r" "stampSeparatorsOk (stamp y m d h mi s @ r)"
    by (simp_all add: e stamp_def slice_def stampSeparatorsOk_def)
qed

lemma stampNumbers_stamp:
  assumes "stamp_ok y m d h mi s"
  shows "stampNumbers (stamp y m d h mi s @ r) =
    Inr (int (nat_of_digits y), int (nat_of_digits m), int (nat_of_digits d), int (nat_of_digits h), int (nat_of_digits mi),
      int (nat_of_digits s))"
proof -
  have p: "ParseInt64 y = Inr (int (nat_of_digits y))" "ParseInt64 m = Inr (int (nat_of_digits m))"
    "ParseInt64 d = Inr (int (nat_of_digits d))" "ParseInt64 h = Inr (int (nat_of_digits h))"
    "ParseInt64 mi = Inr (int (nat_of_digits mi))" "ParseInt64 s = Inr (int (nat_of_digits s))"
    using assms by (auto simp: stamp_ok_def intro!: ParseInt64_short)
  show ?thesis by (simp only: stampNumbers_def stamp_slices [OF assms] p res_simps)
qed

lemma getnum_digits: "length ds = 2 \<Longrightarrow> isASCIIDigits ds \<Longrightarrow> getnum b (ds @ s) = Some (nat_of_digits ds, s)"
  using two_digits [of ds] by (auto simp: nat_of_digits_def)

lemma stamp_fields_stamp:
  assumes "stamp_ok y m d h mi s" and "valid_date (int (nat_of_digits y)) (nat_of_digits m) (nat_of_digits d)"
    and "nat_of_digits h < 24" "nat_of_digits mi < 60" "nat_of_digits s < 60"
    and "fraction_field layout r = Some (ns, [])" "layout \<noteq> Some 0"
  shows "stamp_fields layout (stamp y m d h mi s @ r) =
    Some (nat_of_digits y, nat_of_digits m, nat_of_digits d, nat_of_digits h, nat_of_digits mi, nat_of_digits s, ns)"
proof -
  have "year_field (y @ t) = Some (nat_of_digits y, t)" for t
    using assms(1) by (simp add: stamp_ok_def year_field_def)
  then show ?thesis
    using assms by (simp add: stamp_fields_def stamp_def stamp_ok_def getnum_digits skip_char_def ranged_def valid_date_def
        daysIn_bounds)
qed

lemma time_eta:
  "t = \<lparr>tYear = tYear t, tMonth = tMonth t, tDay = tDay t, tHour = tHour t, tMinute = tMinute t, tSecond = tSecond t,
     tNanosecond = tNanosecond t\<rparr>" for t :: go_time
  by simp

text \<open>The printed seconds of a time with a four-digit year are such a text.\<close>

lemma format_seconds_stamp:
  assumes "valid_time t" "0 \<le> tYear t" "tYear t \<le> 9999"
  obtains y m d h mi s where "format_seconds t = stamp y m d h mi s" "stamp_ok y m d h mi s"
    "int (nat_of_digits y) = tYear t" "nat_of_digits m = tMonth t" "nat_of_digits d = tDay t" "nat_of_digits h = tHour t"
    "nat_of_digits mi = tMinute t" "nat_of_digits s = tSecond t"
proof -
  let ?y = "zero_pad 4 (show_nat (nat (tYear t)))"
  have y: "length ?y = 4" "isASCIIDigits ?y" "int (nat_of_digits ?y) = tYear t"
    using zero_pad_field [of "nat (tYear t)" 4] assms(2,3) by (simp_all add: nat_less_iff)
  have "tMonth t < 100" "tDay t < 100" using valid_date_fields assms(1) by (auto simp: valid_time_def)
  with y show ?thesis using assms
    by (intro that [of ?y "pad2 (tMonth t)" "pad2 (tDay t)" "pad2 (tHour t)" "pad2 (tMinute t)" "pad2 (tSecond t)"])
      (simp_all add: format_seconds_def stamp_def stamp_ok_def format_year_def pad2_field valid_time_def valid_clock_def)
qed

lemma TrimSpace_stamp:
  assumes "stamp_ok y m d h mi s" "plain_char c"
  shows "TrimSpace (stamp y m d h mi s @ z @ [c]) = stamp y m d h mi s @ z @ [c]"
proof -
  have "y \<noteq> []" using assms(1) by (auto simp: stamp_ok_def)
  then have "plain_char (hd y)" "y \<noteq> []" using digits_plain [of y] assms(1) by (simp_all add: stamp_ok_def)
  with assms(2) show ?thesis by (intro TrimSpace_plain) (simp_all add: stamp_def)
qed

lemma parseFraction_twelve:
  assumes "p < 10 ^ 12"
  shows "parseFraction s (''.'' @ zero_pad 12 (show_nat p)) = Inr (int p)"
proof -
  note z = zero_pad_field [of p 12, OF assms]
  have "zero_pad 12 (show_nat p) \<noteq> []" using z(1) by (metis list.size(3) zero_neq_numeral zero_less_numeral)
  then show ?thesis using z ParseInt64_short [of "zero_pad 12 (show_nat p)"] by (simp add: parseFraction_def rep_def Let_def)
qed

definition picos_of :: "Timestamp \<Rightarrow> int" where
  "picos_of ts = (if tsPicoseconds ts = 0 then int (tNanosecond (tsTime ts)) * 1000 else tsPicoseconds ts)"

lemma timestamp_roundtrip:
  assumes "valid_time (tsTime ts)" "0 \<le> tYear (tsTime ts)" "tYear (tsTime ts) \<le> 9999"
    and "0 \<le> tsPicoseconds ts" "tsPicoseconds ts \<le> maxTimestampPicoseconds"
  shows "\<exists>s. timestampText ts = Inr s \<and>
    parseTimestampText s = Inr ((tsTime ts)\<lparr>tNanosecond := nat (picos_of ts div 1000)\<rparr>, picos_of ts)"
proof -
  let ?t = "tsTime ts" and ?p = "nat (picos_of ts)"
  let ?z = "zero_pad 12 (show_nat ?p)"
  from format_seconds_stamp [OF assms(1-3)] obtain y m d h mi s where
    f: "format_seconds ?t = stamp y m d h mi s" and ok: "stamp_ok y m d h mi s"
    and n: "int (nat_of_digits y) = tYear ?t" "nat_of_digits m = tMonth ?t" "nat_of_digits d = tDay ?t"
      "nat_of_digits h = tHour ?t" "nat_of_digits mi = tMinute ?t" "nat_of_digits s = tSecond ?t"
    by blast
  have c: "valid_clock ?t" and vd: "valid_date (tYear ?t) (tMonth ?t) (tDay ?t)"
    using assms(1) by (simp_all add: valid_time_def)
  have p: "0 \<le> picos_of ts" "?p < 10 ^ 12"
    using assms(4,5) c by (auto simp: picos_of_def maxTimestampPicoseconds_def valid_clock_def nat_less_iff)
  let ?s = "stamp y m d h mi s @ ''.'' @ ?z"
  have tx: "timestampText ts = Inr ?s"
    using assms(4,5) by (simp add: timestampText_def f picos_of_def)
  obtain z' k where z: "?z = z' @ [k]" using zero_pad_field(1) [OF p(2)] by (cases ?z rule: rev_cases) auto
  have dig: "plain_char k"
    using zero_pad_field(2) [OF p(2)] z is_digit_plain by simp
  have trim: "TrimSpace ?s = ?s" unfolding z using TrimSpace_stamp [OF ok dig, of "CHR ''.'' # z'"] by simp
  have ns: "nat (picos_of ts div 1000) < 1000000000" "0 \<le> picos_of ts div 1000" using p by (simp_all add: nat_less_iff)
  have "time_Date (tYear ?t) (int (tMonth ?t)) (int (tDay ?t)) (int (tHour ?t)) (int (tMinute ?t)) (int (tSecond ?t))
      (picos_of ts div 1000) = ?t\<lparr>tNanosecond := nat (picos_of ts div 1000)\<rparr>"
    using time_Date_id [OF vd _ _ _ ns(1), of "tHour ?t" "tMinute ?t" "tSecond ?t"] c ns(2) by (simp add: valid_clock_def)
  moreover have "time_Date (tYear ?t) (int (tMonth ?t)) (int (tDay ?t)) (int (tHour ?t)) (int (tMinute ?t)) (int (tSecond ?t)) 0
      = ?t\<lparr>tNanosecond := 0\<rparr>"
    using time_Date_id [OF vd, of "tHour ?t" "tMinute ?t" "tSecond ?t" 0] c by (simp add: valid_clock_def)
  moreover have "parseFraction ?s (''.'' @ ?z) = Inr (picos_of ts)" using parseFraction_twelve [OF p(2)] p(1) by simp
  moreover have "tHour ?t \<le> 23 \<and> tMinute ?t \<le> 59 \<and> tSecond ?t \<le> 59" using c by (simp add: valid_clock_def)
  ultimately have "parseTimestampText ?s = Inr (?t\<lparr>tNanosecond := nat (picos_of ts div 1000)\<rparr>, picos_of ts)"
    unfolding parseTimestampText_def Let_def trim
    by (simp add: stamp_slices [OF ok] length_stamp [OF ok] stampNumbers_stamp [OF ok] n res_simps)
  with tx show ?thesis by blast
qed

lemma TrimRight_zeros:
  "\<exists>k. s = TrimRight c s @ rep k c"
proof -
  have "rev s = takeWhile (\<lambda>x. x = c) (rev s) @ dropWhile (\<lambda>x. x = c) (rev s)" by simp
  moreover have "takeWhile (\<lambda>x. x = c) (rev s) = rep (length (takeWhile (\<lambda>x. x = c) (rev s))) c"
    unfolding rep_def by (metis (mono_tags, lifting) replicate_eqI set_takeWhileD)
  ultimately have "s = rev (dropWhile (\<lambda>x. x = c) (rev s)) @ rep (length (takeWhile (\<lambda>x. x = c) (rev s))) c"
    unfolding rep_def by (metis rev_append rev_replicate rev_rev_ident)
  then show ?thesis unfolding TrimRight_def by blast
qed

lemma fraction_text:
  assumes "ns < 1000000000" "ds = TrimRight (CHR ''0'') (zero_pad 9 (show_nat ns))"
  shows "isASCIIDigits ds" "length ds \<le> 9" "nat_of_digits ds * 10 ^ (9 - length ds) = ns" "ds = [] \<Longrightarrow> ns = 0"
proof -
  note z = zero_pad_field [of ns 9]
  obtain k where k: "zero_pad 9 (show_nat ns) = ds @ rep k (CHR ''0'')" using TrimRight_zeros assms(2) by blast
  have "length (zero_pad 9 (show_nat ns)) = 9" "isASCIIDigits (zero_pad 9 (show_nat ns))"
    "nat_of_digits (zero_pad 9 (show_nat ns)) = ns" using z assms(1) by simp_all
  then have e: "length ds + k = 9" "isASCIIDigits ds" "nat_of_digits ds * 10 ^ k = ns" unfolding k by simp_all
  then show "isASCIIDigits ds" "length ds \<le> 9" by simp_all
  have "k = 9 - length ds" using e(1) by simp
  then show "nat_of_digits ds * 10 ^ (9 - length ds) = ns" "ds = [] \<Longrightarrow> ns = 0" using e(3) by auto
qed

lemma fraction_field_digits:
  assumes "isASCIIDigits ds" "length ds \<le> 9" "ds \<noteq> []"
  shows "fraction_field (Some (length ds)) (CHR ''.'' # ds) = Some (nat_of_digits ds * 10 ^ (9 - length ds), [])"
proof -
  have "time_atoi ds = Some (int (nat_of_digits ds))"
    using assms(1) isASCIIDigits_hd [OF assms(1,3)] by (simp add: time_atoi_def)
  moreover have "slice 1 (Suc (length ds)) (CHR ''.'' # ds) = ds" by (simp add: slice_def)
  ultimately have "parseNanoseconds (CHR ''.'' # ds) (Suc (length ds)) = Some (nat_of_digits ds * 10 ^ (9 - length ds))"
    using assms(2) by (simp add: parseNanoseconds_def commaOrPeriod_def min_absorb2)
  then show ?thesis using assms(3) by (simp add: fraction_field_def)
qed

text \<open>What the driver sends for a time value is what it reads back.\<close>

lemma ibmi_timestamp_roundtrip:
  assumes v: "valid_time t" and year: "0 \<le> tYear t" "tYear t \<le> 9999"
  shows "parseIBMiTimestamp (format_timestamp t) = Inr t"
proof -
  from format_seconds_stamp [OF assms] obtain y m d h mi s where
    f: "format_seconds t = stamp y m d h mi s" and ok: "stamp_ok y m d h mi s"
    and n: "int (nat_of_digits y) = tYear t" "nat_of_digits m = tMonth t" "nat_of_digits d = tDay t"
      "nat_of_digits h = tHour t" "nat_of_digits mi = tMinute t" "nat_of_digits s = tSecond t"
    by blast
  let ?ds = "TrimRight (CHR ''0'') (zero_pad 9 (show_nat (tNanosecond t)))"
  have c: "valid_clock t" and vd: "valid_date (tYear t) (tMonth t) (tDay t)"
    using v by (simp_all add: valid_time_def)
  then have "tNanosecond t < 1000000000" by (simp add: valid_clock_def)
  note fr = fraction_text [OF this refl]
  have tx: "format_timestamp t = stamp y m d h mi s @ (if ?ds = [] then [] else CHR ''.'' # ?ds)"
    using f by (simp add: format_timestamp_def format_seconds_def format_fraction_def Let_def)
  have parse: "time_Parse layout (stamp y m d h mi s @ r) = Inr t"
    if "fraction_field layout r = Some (tNanosecond t, [])" "layout \<noteq> Some 0" for layout r
    using stamp_fields_stamp [OF ok _ _ _ _ that] n vd c
      time_Date_id [OF vd, of "tHour t" "tMinute t" "tSecond t" "tNanosecond t"]
    by (simp add: time_Parse_def valid_clock_def)
  show ?thesis
  proof (cases "?ds = []")
    case True
    then show ?thesis using parse [of None "[]"] fr(4) length_stamp [OF ok]
      by (simp add: tx parseIBMiTimestamp_def fraction_field_def)
  next
    case False
    let ?r = "CHR ''.'' # ?ds"
    have "fraction_field (Some (length ?ds)) ?r = Some (tNanosecond t, [])"
      using fraction_field_digits [OF fr(1,2) False] fr(3) by simp
    with False have "time_Parse (Some (length ?ds)) (stamp y m d h mi s @ ?r) = Inr t" by (intro parse) simp_all
    moreover have "drop 20 (stamp y m d h mi s @ ?r) = ?ds" "(stamp y m d h mi s @ ?r) ! 19 = CHR ''.''"
      using length_stamp [OF ok] by (simp_all add: nth_append)
    ultimately show ?thesis using False fr(2) length_stamp [OF ok]
      by (simp add: tx parseIBMiTimestamp_def Let_def min_absorb2)
  qed
qed

lemma time_Parse_valid: "time_Parse layout s = Inr t \<Longrightarrow> valid_time t"
  by (auto simp: time_Parse_def time_Date_valid split: option.splits)

lemma parseIBMiTimestamp_valid: "parseIBMiTimestamp s = Inr t \<Longrightarrow> valid_time t"
  by (auto simp: parseIBMiTimestamp_def Let_def split: if_splits dest: time_Parse_valid)

lemma parseTimestampText_valid: "parseTimestampText s = Inr (t, picos) \<Longrightarrow> valid_time t"
  unfolding parseTimestampText_def Let_def invalid_timestamp_def
  by (auto simp: time_Date_valid res_bind_def split: if_splits sum.splits)

text \<open>
  \<open>parseTimestampText\<close> reads its two-digit fields with \<open>strconv.Atoi\<close>, which takes a sign, and
  bounds them from above only: a negative minute or second borrows from the hour.
\<close>

lemma negative_minute_accepted:
  "parseTimestampText ''2024-01-01-05.-1.00'' =
    Inr (\<lparr>tYear = 2024, tMonth = 1, tDay = 1, tHour = 4, tMinute = 59, tSecond = 0, tNanosecond = 0\<rparr>, 0)"
proof -
  have "TrimSpace ''2024-01-01-05.-1.00'' = ''2024-01-01-05.-1.00''"
    by (rule TrimSpace_plain) (simp_all add: plain_char_def)
  moreover have "time_Date 2024 1 1 5 (-1) 0 0 =
      \<lparr>tYear = 2024, tMonth = 1, tDay = 1, tHour = 4, tMinute = 59, tSecond = 0, tNanosecond = 0\<rparr>"
    by (simp add: time_Date_def normDay_id daysIn_def)
  ultimately show ?thesis
    by (simp add: parseTimestampText_def stampSeparatorsOk_def stampNumbers_def slice_def ParseInt64_def is_digit_def
        digit_val_def parseFraction_def res_simps)
qed

section \<open>Properties\<close>

definition exampleTime :: go_time where
  "exampleTime = \<lparr>tYear = 2024, tMonth = 2, tDay = 29, tHour = 23, tMinute = 59, tSecond = 7, tNanosecond = 120000000\<rparr>"



text \<open>
  Timestamps survive both of their text forms. What the driver sends for a time value
  (nanoseconds, trailing zeros dropped) is parsed back to the same time, and the twelve-digit
  text of a \<open>Timestamp\<close> is parsed back to its picoseconds, with the time cut to nanoseconds.
\<close>

theorem timestamps_read_back:
  assumes "valid_time (tsTime ts)" "0 \<le> tYear (tsTime ts)" "tYear (tsTime ts) \<le> 9999"
    and "0 \<le> tsPicoseconds ts" "tsPicoseconds ts \<le> maxTimestampPicoseconds"
  shows "parseIBMiTimestamp (format_timestamp (tsTime ts)) = Inr (tsTime ts) \<and>
    (\<exists>s. Timestamp_Value ts = Inr (VString s) \<and>
      Timestamp_Scan (VString s) =
        Inr \<lparr>tsTime = (tsTime ts)\<lparr>tNanosecond := nat (picos_of ts div 1000)\<rparr>, tsPicoseconds = picos_of ts\<rparr>)"
  using ibmi_timestamp_roundtrip [OF assms(1-3)] timestamp_roundtrip [OF assms]
  by (auto simp: Timestamp_Value_def Timestamp_parse_def res_simps)

theorem timestamps_read_back_witness:
  "parseIBMiTimestamp (format_timestamp exampleTime) = Inr exampleTime \<and>
   (\<exists>s. Timestamp_Value \<lparr>tsTime = exampleTime, tsPicoseconds = 120000000001\<rparr> = Inr (VString s) \<and>
     Timestamp_Scan (VString s) = Inr \<lparr>tsTime = exampleTime, tsPicoseconds = 120000000001\<rparr>)"
  using timestamps_read_back [of "\<lparr>tsTime = exampleTime, tsPicoseconds = 120000000001\<rparr>"]
  by (simp add: exampleTime_def valid_time_def valid_date_def valid_clock_def daysIn_def isLeap_def
      maxTimestampPicoseconds_def picos_of_def)

text \<open>
  Every DATE, TIME and TIMESTAMP text the decoders accept denotes a real day of the
  calendar and a real time of day, whatever the server sent; the only other result they give
  is the empty text itself.
\<close>

theorem decoded_times_are_real:
  "(case decodeDateText s cfg of Inl e \<Rightarrow> True | Inr v \<Rightarrow> (s = [] \<and> v = VString []) \<or> (\<exists>t. v = VTime t \<and> valid_time t)) \<and>
   (case decodeTimeText s cfg of Inl e \<Rightarrow> True | Inr v \<Rightarrow> (s = [] \<and> v = VString []) \<or> (\<exists>t. v = VTime t \<and> valid_time t)) \<and>
   (case parseIBMiTimestamp s of Inl e \<Rightarrow> True | Inr t \<Rightarrow> valid_time t) \<and>
   (case Timestamp_parse s of Inl e \<Rightarrow> True | Inr ts \<Rightarrow> valid_time (tsTime ts))"
proof -
  have "case Timestamp_parse s of Inl e \<Rightarrow> True | Inr ts \<Rightarrow> valid_time (tsTime ts)"
    by (auto simp: Timestamp_parse_def res_bind_def split: sum.splits dest: parseTimestampText_valid)
  then show ?thesis
    by (auto simp: decodeDateText_def decodeTimeText_def split: sum.splits
        dest: parseDate_valid parseTime_valid parseIBMiTimestamp_valid)
qed

end
