(* ===== verification/Decfloat.thy ===== *)
theory Decfloat
  imports Scan Decimal
begin

text \<open>
  DECFLOAT values: the densely packed decimal decoder of \<open>src/sql.go\<close> and the encoder of
  \<open>src/decfloat_encode.go\<close>. The lemmas show that the declet table inverts the unpacking, that
  rounding is to nearest with ties to even, and that decoding an encoded value gives the
  text of exactly the coefficient and exponent that were packed.
\<close>

section \<open>Definitions\<close>

subsection \<open>Decoding\<close>

text \<open>
  The Go code computes on \<open>int\<close> and \<open>int64\<close>; every shift to the right is followed by a mask
  that drops the copies of the sign bit, so the model shifts 64-bit words.
\<close>

definition decletCombination :: "int \<Rightarrow> int" where
  "decletCombination b =
     (if b AND 0xe = 0xe then drop_bit 5 (b AND 0x60) OR 4
      else if b AND 0x8 = 0x8 then drop_bit 1 (NOT b AND 0x6) else 0)"

definition decletDecoded :: "int \<Rightarrow> int \<Rightarrow> int" where
  "decletDecoded k b =
     (if k = 0 then push_bit 1 (b AND 0x380) OR (b AND 0x77)
      else if k = 1 then push_bit 1 (b AND 0x80) OR (b AND 0x71) OR drop_bit 7 (b AND 0x300) OR 0x800
      else if k = 2 then push_bit 1 (b AND 0x380) OR (b AND 0x11) OR drop_bit 4 (b AND 0x60) OR 0x80
      else if k = 3 then push_bit 1 (b AND 0x380) OR (b AND 0x71) OR 0x8
      else if k = 4 then push_bit 1 (b AND 0x80) OR (b AND 0x11) OR drop_bit 7 (b AND 0x300) OR 0x880
      else if k = 5 then push_bit 1 (b AND 0x80) OR (b AND 0x11) OR drop_bit 3 (b AND 0x300) OR 0x808
      else if k = 6 then push_bit 1 (b AND 0x380) OR (b AND 0x11) OR 0x88
      else if k = 7 then push_bit 1 (b AND 0x80) OR (b AND 0x11) OR 0x888
      else 0)"

definition decfloatUnpackDeclet :: "int \<Rightarrow> int" where
  "decfloatUnpackDeclet b =
     (let decoded = decletDecoded (decletCombination b) b in
      drop_bit 8 (decoded AND 0xf00) * 100 + drop_bit 4 (decoded AND 0xf0) * 10 + (decoded AND 0xf))"

definition decfloatBitsToDigits :: "int \<Rightarrow> int" where
  "decfloatBitsToDigits b =
     foldl (\<lambda>d i. d * 1000 + decfloatUnpackDeclet (drop_bit (i * 10) b AND 0x3ff)) 0 [2, 1, 0]"

definition decfloat16Bias :: int where "decfloat16Bias = 398"
definition decfloat34Bias :: int where "decfloat34Bias = 6176"

definition formatDecfloatStr :: "int \<Rightarrow> string \<Rightarrow> int \<Rightarrow> string" where
  "formatDecfloatStr sign coefDigits exponent =
     (let n = int (length coefDigits); scale = - exponent;
          result = (if scale \<le> 0 then coefDigits @ rep (nat (- scale)) (CHR ''0'')
                    else if scale \<ge> n then ''0.'' @ rep (nat (scale - n)) (CHR ''0'') @ coefDigits
                    else take (nat (n - scale)) coefDigits @ ''.'' @ drop (nat (n - scale)) coefDigits) in
      if sign < 0 \<and> result \<noteq> ''0'' then CHR ''-'' # result else result)"

definition formatDecfloat :: "int \<Rightarrow> int \<Rightarrow> int \<Rightarrow> string" where
  "formatDecfloat sign coef exponent =
     formatDecfloatStr sign (if coef = 0 then ''0'' else TrimLeft (CHR ''0'') (show_int coef)) exponent"

text \<open>The special values, which both decoders test the same way.\<close>

definition signed_text :: "int \<Rightarrow> string \<Rightarrow> string" where
  "signed_text sign s = (if sign < 0 then CHR ''-'' # s else s)"

definition decfloatSpecial :: "u64 \<Rightarrow> int \<Rightarrow> string option" where
  "decfloatSpecial hi sign =
     (let combination = drop_bit 58 hi AND 0x1f in
      if combination = 0x1f then
        Some (signed_text sign (if hi AND 0x0200000000000000 \<noteq> 0 then ''SNaN'' else ''NaN''))
      else if combination = 0x1e then Some (signed_text sign ''Infinity'')
      else None)"

definition decfloatSign :: "u64 \<Rightarrow> int" where
  "decfloatSign hi = (if drop_bit 63 hi AND 1 \<noteq> 0 then -1 else 1)"

text \<open>The leading digits of exponent and coefficient, from the combination field.\<close>

definition decfloatMSDs :: "u64 \<Rightarrow> int \<times> int" where
  "decfloatMSDs hi =
     (let combination = drop_bit 58 hi AND 0x1f in
      if combination AND 0x18 = 0x18
      then (uint (drop_bit 1 (combination AND 0x06)), uint (8 + (combination AND 0x01)))
      else (uint (drop_bit 3 (combination AND 0x18)), uint (combination AND 0x07)))"

definition decodeDecfloat16 :: "bytes \<Rightarrow> string res" where
  "decodeDecfloat16 data =
     (if length data < 8 then Inl (Errorf ''DECFLOAT(16) requires 8 bytes, got %d'' [FInt (int (length data))])
      else let bits = Uint64 (take 8 data); sign = decfloatSign bits in
        case decfloatSpecial bits sign of
          Some s \<Rightarrow> Inr s
        | None \<Rightarrow>
            let (exponentMSD, coefficientMSD) = decfloatMSDs bits;
                exponent = (uint (drop_bit 50 (bits AND 0x03fc000000000000)) OR push_bit 8 exponentMSD) - decfloat16Bias;
                coefCont = bits AND 0x0003ffffffffffff;
                coefficientLo = decfloatBitsToDigits (uint (coefCont AND 0x3fffffff));
                coefficientHi = decfloatBitsToDigits (uint (drop_bit 30 coefCont AND 0xfffff)) + coefficientMSD * 1000000 in
            Inr (formatDecfloat sign (coefficientHi * 1000000000 + coefficientLo) exponent))"

definition decodeDecfloat34 :: "bytes \<Rightarrow> string res" where
  "decodeDecfloat34 data =
     (if length data < 16 then Inl (Errorf ''DECFLOAT(34) requires 16 bytes, got %d'' [FInt (int (length data))])
      else let hi = Uint64 (take 8 data); lo = Uint64 (slice 8 16 data); sign = decfloatSign hi in
        case decfloatSpecial hi sign of
          Some s \<Rightarrow> Inr s
        | None \<Rightarrow>
            let (exponentMSD, coefficientMSD) = decfloatMSDs hi;
                exponent = (uint (drop_bit 46 (hi AND 0x03ffc00000000000)) OR push_bit 12 exponentMSD) - decfloat34Bias;
                coefLo = decfloatBitsToDigits (uint (lo AND 0x3fffffff));
                coefMeLo = decfloatBitsToDigits (uint (drop_bit 30 lo AND 0x3fffffff));
                coefMeHi = decfloatBitsToDigits (uint (push_bit 4 (hi AND 0x3ffffff) OR (drop_bit 60 lo AND 0xf)));
                coefHi = decfloatBitsToDigits (uint (drop_bit 26 hi AND 0xfffff)) + coefficientMSD * 1000000;
                sig = show_int coefHi @ zero_pad 9 (show_int coefMeHi) @ zero_pad 9 (show_int coefMeLo) @
                      zero_pad 9 (show_int coefLo);
                trimmed = TrimLeft (CHR ''0'') sig in
            Inr (formatDecfloatStr sign (if trimmed = [] then ''0'' else trimmed) exponent))"

text \<open>The choice of format by the length of the column.\<close>

definition decodeDecfloat :: "bytes \<Rightarrow> string res" where
  "decodeDecfloat raw =
     (if length raw = 8 then decodeDecfloat16 raw else if length raw = 16 then decodeDecfloat34 raw
      else Inl (Errorf ''unexpected DECFLOAT length %d'' [FInt (int (length raw))]))"

subsection \<open>Encoding\<close>

record decfloatFormat =
  dfSize :: nat
  dfPrecision :: nat
  dfBias :: int
  dfQmin :: int
  dfQmax :: int
  dfExpContBits :: nat

definition decfloat16Format :: decfloatFormat where
  "decfloat16Format = \<lparr>dfSize = 8, dfPrecision = 16, dfBias = decfloat16Bias, dfQmin = - decfloat16Bias,
     dfQmax = 767 - decfloat16Bias, dfExpContBits = 8\<rparr>"

definition decfloat34Format :: decfloatFormat where
  "decfloat34Format = \<lparr>dfSize = 16, dfPrecision = 34, dfBias = decfloat34Bias, dfQmin = - decfloat34Bias,
     dfQmax = 12287 - decfloat34Bias, dfExpContBits = 12\<rparr>"

text \<open>The lowest declet that decodes to the value, or -1.\<close>

definition decfloatDecletTable :: "int \<Rightarrow> int" where
  "decfloatDecletTable v = (case find (\<lambda>b. decfloatUnpackDeclet b = v) [0..1023] of Some b \<Rightarrow> b | None \<Rightarrow> -1)"

datatype decfloatKind = DecfloatFinite | DecfloatInf | DecfloatNaN | DecfloatSNaN

record decfloatValue =
  dvNeg :: bool
  dvKind :: decfloatKind
  dvCoef :: nat
  dvExp :: int

definition decfloatPow10 :: "nat \<Rightarrow> nat" where
  "decfloatPow10 n = 10 ^ n"

definition decfloatRoundDrop :: "nat \<Rightarrow> int \<Rightarrow> nat" where
  "decfloatRoundDrop coef dropped =
     (if dropped \<le> 0 then coef
      else let p = decfloatPow10 (nat dropped); q = coef div p; r = coef mod p in
        if 2 * r > p \<or> (2 * r = p \<and> odd q) then q + 1 else q)"

definition parseDecfloatText :: "string \<Rightarrow> decfloatValue res" where
  "parseDecfloatText value =
     (let s0 = TrimSpace value in
      if s0 = [] then Inl (Errorf ''empty DECFLOAT value'' [])
      else
        let (neg, s) = splitSign s0; word = ToLower s;
            special = (\<lambda>k. Inr \<lparr>dvNeg = neg, dvKind = k, dvCoef = 0, dvExp = 0\<rparr>) in
        if word = ''inf'' \<or> word = ''infinity'' then special DecfloatInf
        else if word = ''nan'' then special DecfloatNaN
        else if word = ''snan'' then special DecfloatSNaN
        else res_bind
          (case Index (\<lambda>c. c = CHR ''e'' \<or> c = CHR ''E'') s of
             None \<Rightarrow> Inr (s, 0)
           | Some idx \<Rightarrow>
               (case ParseInt64 (drop (idx + 1) s) of
                  Inl _ \<Rightarrow> Inl (Errorf ''invalid DECFLOAT exponent in %q'' [FStr value])
                | Inr e \<Rightarrow> Inr (take idx s, e)))
          (\<lambda>(mant, exp10).
             let (intPart, fracPart) = splitPoint mant in
             if (intPart = [] \<and> fracPart = []) \<or> \<not> isASCIIDigits (intPart @ fracPart)
             then Inl (Errorf ''invalid DECFLOAT value %q'' [FStr value])
             else
               let digits = TrimLeft (CHR ''0'') (intPart @ fracPart) in
               Inr \<lparr>dvNeg = neg, dvKind = DecfloatFinite, dvCoef = nat_of_digits digits,
                    dvExp = wrap_int64 (exp10 - int (length fracPart))\<rparr>))"

definition decfloatRange :: "decfloatValue \<Rightarrow> go_error" where
  "decfloatRange v = Errorf ''DECFLOAT exponent out of range: %s'' [FStr (show_nat (dvCoef v) @ ''*10^'' @ show_int (dvExp v))]"

text \<open>
  The first half of \<open>encodeDecfloatFinite\<close>: rounding to the precision and bringing the exponent
  into range; the second half packs the result.
\<close>

definition roundToPrecision :: "decfloatFormat \<Rightarrow> nat \<Rightarrow> int \<Rightarrow> nat \<times> int" where
  "roundToPrecision f coef exp =
     (let n = length (show_nat coef) in
      if n > dfPrecision f then
        let dropped = int (n - dfPrecision f); coef1 = decfloatRoundDrop coef dropped; exp1 = wrap_int64 (exp + dropped) in
        if length (show_nat coef1) > dfPrecision f then (decfloatRoundDrop coef1 1, wrap_int64 (exp1 + 1)) else (coef1, exp1)
      else (coef, exp))"

definition raiseToQmin :: "decfloatFormat \<Rightarrow> nat \<Rightarrow> int \<Rightarrow> nat \<times> int" where
  "raiseToQmin f coef exp =
     (if exp < dfQmin f then
        let dropped = dfQmin f - exp in
        (if dropped > int (length (show_nat coef)) then 0 else decfloatRoundDrop coef dropped, dfQmin f)
      else (coef, exp))"

definition clampToQmax :: "decfloatFormat \<Rightarrow> decfloatValue \<Rightarrow> nat \<Rightarrow> int \<Rightarrow> (nat \<times> int) res" where
  "clampToQmax f v coef exp =
     (if exp > dfQmax f then
        let shift = exp - dfQmax f in
        if coef \<noteq> 0 \<and> int (length (show_nat coef)) + shift > int (dfPrecision f) then Inl (decfloatRange v)
        else Inr (if coef \<noteq> 0 then coef * decfloatPow10 (nat shift) else coef, dfQmax f)
      else Inr (coef, exp))"

definition decfloatFit :: "decfloatValue \<Rightarrow> decfloatFormat \<Rightarrow> (nat \<times> int) res" where
  "decfloatFit v f =
     (if dvCoef v = 0 then
        let e1 = (if dvExp v > dfQmax f then dfQmax f else dvExp v) in
        Inr (0, if e1 < dfQmin f then dfQmin f else e1)
      else
        let (coef1, exp1) = roundToPrecision f (dvCoef v) (dvExp v); (coef2, exp2) = raiseToQmin f coef1 exp1 in
        clampToQmax f v coef2 exp2)"

text \<open>Groups of three digits, packed as declets, most significant first.\<close>

fun packDeclets :: "string \<Rightarrow> int \<Rightarrow> int" where
  "packDeclets (a # b # c # rest) cont =
     packDeclets rest (push_bit 10 cont OR
       decfloatDecletTable (int (digit_val a) * 100 + int (digit_val b) * 10 + int (digit_val c)))"
| "packDeclets rest cont = cont"

definition decfloatComb :: "int \<Rightarrow> int \<Rightarrow> u64" where
  "decfloatComb expMSD coefMSD =
     (if coefMSD < 8 then push_bit 3 (word_of_int expMSD) OR word_of_int coefMSD
      else 0x18 OR push_bit 1 (word_of_int expMSD) OR word_of_int (coefMSD - 8))"

definition decfloatPack :: "decfloatFormat \<Rightarrow> u64 \<Rightarrow> string \<Rightarrow> int \<Rightarrow> u64 \<times> u64" where
  "decfloatPack f sign digits biased =
     (let expMSD = drop_bit (dfExpContBits f) biased;
          expCont = word_of_int biased AND (push_bit (dfExpContBits f) 1 - 1) :: u64;
          comb = decfloatComb expMSD (int (digit_val (hd digits)));
          cont = packDeclets (tl digits) 0 in
      if dfSize f = 8
      then (push_bit 63 sign OR push_bit 58 comb OR push_bit 50 expCont OR word_of_int cont, 0)
      else (push_bit 63 sign OR push_bit 58 comb OR push_bit 46 expCont OR word_of_int (drop_bit 64 cont),
            word_of_int (cont AND (2 ^ 64 - 1))))"

definition encodeDecfloatFinite :: "decfloatValue \<Rightarrow> decfloatFormat \<Rightarrow> u64 \<Rightarrow> (u64 \<times> u64) res" where
  "encodeDecfloatFinite v f sign =
     res_bind (decfloatFit v f) (\<lambda>(coef, exp).
       let digits = show_nat coef in
       if length digits > dfPrecision f
       then Inl (Errorf ''DECFLOAT coefficient exceeds %d digits'' [FInt (int (dfPrecision f))])
       else
         let biased = exp + dfBias f in
         if biased < 0 then Inl (decfloatRange v)
         else Inr (decfloatPack f sign (zero_pad (dfPrecision f) digits) biased))"

definition encodeDecfloat :: "string \<Rightarrow> int \<Rightarrow> bytes res" where
  "encodeDecfloat value sz =
     (if sz \<noteq> 8 \<and> sz \<noteq> 16 then Inl (Errorf ''unsupported DECFLOAT size %d'' [FInt sz])
      else
        let f = (if sz = 8 then decfloat16Format else decfloat34Format) in
        res_bind (parseDecfloatText value) (\<lambda>v.
          let sign = (if dvNeg v then 1 else 0 :: u64) in
          res_bind
            (case dvKind v of
               DecfloatInf \<Rightarrow> Inr (push_bit 63 sign OR push_bit 58 0x1e, 0)
             | DecfloatNaN \<Rightarrow> Inr (push_bit 63 sign OR push_bit 58 0x1f, 0)
             | DecfloatSNaN \<Rightarrow> Inr (push_bit 63 sign OR push_bit 58 0x1f OR 0x0200000000000000, 0)
             | DecfloatFinite \<Rightarrow> encodeDecfloatFinite v f sign)
            (\<lambda>(hi, lo). Inr (if sz = 8 then bytesU64 hi else bytesU64 hi @ bytesU64 lo))))"

definition decfloatParameterSize :: "parameterMarkerField \<Rightarrow> int res" where
  "decfloatParameterSize field =
     (if pfLength field = 8 \<or> pfLength field = 16 then Inr (pfLength field)
      else if pfLength field = 0 then Inr (if pfPrecision field > 16 then 16 else 8)
      else Inl (Errorf ''unsupported DECFLOAT parameter length %d'' [FInt (pfLength field)]))"

section \<open>Lemmas\<close>

subsection \<open>Declets\<close>

text \<open>The standard's packing of three digits, used to show that every value has a declet.\<close>

definition dpd :: "int \<Rightarrow> int \<Rightarrow> int \<Rightarrow> int" where
  "dpd x y z =
     (if x < 8 then
        if y < 8 then x * 128 + y * 16 + (if z < 8 then z else 8 + z mod 2)
        else if z < 8 then x * 128 + z div 2 * 32 + y mod 2 * 16 + 10 + z mod 2
        else x * 128 + 64 + y mod 2 * 16 + 14 + z mod 2
      else
        if y < 8 then
          if z < 8 then z div 2 * 256 + x mod 2 * 128 + y * 16 + 12 + z mod 2
          else y div 2 * 256 + x mod 2 * 128 + 32 + y mod 2 * 16 + 14 + z mod 2
        else if z < 8 then z div 2 * 256 + x mod 2 * 128 + y mod 2 * 16 + 14 + z mod 2
        else x mod 2 * 128 + 96 + y mod 2 * 16 + 14 + z mod 2)"

lemma dpd_all:
  "list_all (\<lambda>x. list_all (\<lambda>y. list_all (\<lambda>z. 0 \<le> dpd x y z \<and> dpd x y z < 1024 \<and>
     decfloatUnpackDeclet (dpd x y z) = x * 100 + y * 10 + z) [0..9]) [0..9]) [0..9]"
  by code_simp

lemma dpd:
  assumes "x \<in> {0..9}" "y \<in> {0..9}" "z \<in> {0..9}"
  shows "0 \<le> dpd x y z \<and> dpd x y z < 1024 \<and> decfloatUnpackDeclet (dpd x y z) = x * 100 + y * 10 + z"
  using dpd_all assms unfolding list_all_iff by (metis set_upto)

lemma find_eq: "\<exists>x \<in> set xs. P x \<Longrightarrow> \<exists>y. find P xs = Some y \<and> y \<in> set xs \<and> P y"
  by (induction xs) auto

text \<open>The table inverts the unpacking on all three-digit groups.\<close>

lemma declet_table:
  assumes "x \<in> {0..9}" "y \<in> {0..9}" "z \<in> {0..9}"
  shows "0 \<le> decfloatDecletTable (x * 100 + y * 10 + z)" "decfloatDecletTable (x * 100 + y * 10 + z) < 1024"
    "decfloatUnpackDeclet (decfloatDecletTable (x * 100 + y * 10 + z)) = x * 100 + y * 10 + z"
proof -
  have "\<exists>b \<in> set [0..1023]. decfloatUnpackDeclet b = x * 100 + y * 10 + z"
    using dpd [OF assms] by (intro bexI [of _ "dpd x y z"]) auto
  from find_eq [OF this] obtain b where
    "find (\<lambda>b. decfloatUnpackDeclet b = x * 100 + y * 10 + z) [0..1023] = Some b" "b \<in> {0..1023}"
    "decfloatUnpackDeclet b = x * 100 + y * 10 + z" by auto
  then show "0 \<le> decfloatDecletTable (x * 100 + y * 10 + z)" "decfloatDecletTable (x * 100 + y * 10 + z) < 1024"
    "decfloatUnpackDeclet (decfloatDecletTable (x * 100 + y * 10 + z)) = x * 100 + y * 10 + z"
    unfolding decfloatDecletTable_def by simp_all
qed

definition triple :: "char \<Rightarrow> char \<Rightarrow> char \<Rightarrow> int" where
  "triple a b c = int (digit_val a) * 100 + int (digit_val b) * 10 + int (digit_val c)"

lemma declet_triple:
  assumes "is_digit a" "is_digit b" "is_digit c"
  shows "0 \<le> decfloatDecletTable (triple a b c)" "decfloatDecletTable (triple a b c) < 1024"
    "decfloatUnpackDeclet (decfloatDecletTable (triple a b c)) = triple a b c"
  using declet_table [of "int (digit_val a)" "int (digit_val b)" "int (digit_val c)"] digit_val_less assms
  unfolding triple_def by (force simp: less_Suc_eq_le)+

lemma packDeclets_step:
  assumes "is_digit a" "is_digit b" "is_digit c"
  shows "packDeclets (a # b # c # rest) cont = packDeclets rest (cont * 1024 + decfloatDecletTable (triple a b c))"
proof -
  have "push_bit 10 cont OR decfloatDecletTable (triple a b c) = cont * 2 ^ 10 + decfloatDecletTable (triple a b c)"
    using declet_triple [OF assms] by (intro or_shift_add) simp_all
  then show ?thesis by (simp add: triple_def)
qed

lemma three_digits: "length ds = 3 * Suc k \<Longrightarrow> \<exists>a b c rest. ds = a # b # c # rest \<and> length rest = 3 * k"
  by (auto simp: numeral_3_eq_3 length_Suc_conv)

lemma packDeclets_linear:
  "isASCIIDigits ds \<Longrightarrow> length ds = 3 * k \<Longrightarrow>
   packDeclets ds cont = cont * 1024 ^ k + packDeclets ds 0 \<and> 0 \<le> packDeclets ds 0 \<and> packDeclets ds 0 < 1024 ^ k"
proof (induction k arbitrary: ds cont)
  case 0
  then show ?case by simp
next
  case (Suc k)
  from three_digits [OF Suc.prems(2)] obtain a b c rest where ds: "ds = a # b # c # rest" and len: "length rest = 3 * k"
    by blast
  have dig: "is_digit a" "is_digit b" "is_digit c" "isASCIIDigits rest" using Suc.prems(1) by (simp_all add: ds)
  let ?v = "decfloatDecletTable (triple a b c)"
  note v = declet_triple [OF dig(1-3)]
  have ih: "packDeclets rest x = x * 1024 ^ k + packDeclets rest 0" "0 \<le> packDeclets rest 0" "packDeclets rest 0 < 1024 ^ k"
    for x using Suc.IH [OF dig(4) len] by blast+
  have "packDeclets ds x = x * 1024 ^ Suc k + (?v * 1024 ^ k + packDeclets rest 0)" for x
    unfolding ds packDeclets_step [OF dig(1-3)] by (subst ih(1)) (simp add: algebra_simps)
  moreover have "0 \<le> ?v * 1024 ^ k + packDeclets rest 0" using v(1) ih(2) by simp
  moreover have "?v * 1024 ^ k + packDeclets rest 0 < 1024 ^ Suc k"
  proof -
    have "?v * 1024 ^ k + packDeclets rest 0 < (?v + 1) * 1024 ^ k" using ih(3) by (simp add: algebra_simps)
    also have "\<dots> \<le> 1024 * 1024 ^ k" using v(2) by (intro mult_right_mono) simp_all
    finally show ?thesis by simp
  qed
  ultimately show ?case by simp
qed

lemma packDeclets_bound:
  assumes "isASCIIDigits ds" "length ds = 3 * k"
  shows "0 \<le> packDeclets ds 0" "packDeclets ds 0 < 1024 ^ k"
  using packDeclets_linear [OF assms] by blast+

lemma packDeclets_append:
  assumes "isASCIIDigits xs" "isASCIIDigits ys" "length xs = 3 * j" "length ys = 3 * k"
  shows "packDeclets (xs @ ys) 0 = packDeclets xs 0 * 1024 ^ k + packDeclets ys 0"
proof -
  have "packDeclets (xs @ ys) cont = packDeclets ys (packDeclets xs cont)" for cont
    using assms(3)
  proof (induction j arbitrary: xs cont)
    case (Suc j)
    from three_digits [OF Suc.prems] obtain a b c rest where "xs = a # b # c # rest" "length rest = 3 * j" by blast
    with Suc.IH show ?case by simp
  qed simp
  then show ?thesis using packDeclets_linear [OF assms(2,4)] by metis
qed

lemma declet_field: "drop_bit n x AND 0x3ff = x div 2 ^ n mod 1024" for x :: int
proof -
  have "y AND 0x3ff = take_bit 10 y" for y :: int by (simp add: take_bit_eq_mask mask_eq_exp_minus_1)
  then show ?thesis by (simp add: drop_bit_eq_div take_bit_eq_mod)
qed

lemma bitsToDigits_eq:
  "decfloatBitsToDigits x = (decfloatUnpackDeclet (x div 2 ^ 20 mod 1024) * 1000 +
     decfloatUnpackDeclet (x div 2 ^ 10 mod 1024)) * 1000 + decfloatUnpackDeclet (x mod 1024)"
proof -
  have "drop_bit 0 x AND 0x3ff = x mod 1024" using declet_field [of 0 x] by simp
  then show ?thesis
    using declet_field [of 20 x] declet_field [of 10 x] by (simp add: decfloatBitsToDigits_def)
qed

lemma mixed_radix:
  fixes a b c :: int
  assumes "0 \<le> a" "a < 1024" "0 \<le> b" "b < 1024" "0 \<le> c" "c < 1024"
  shows "((a * 1024 + b) * 1024 + c) div 2 ^ 20 mod 1024 = a" "((a * 1024 + b) * 1024 + c) div 2 ^ 10 mod 1024 = b"
    "((a * 1024 + b) * 1024 + c) mod 1024 = c"
proof -
  let ?x = "(a * 1024 + b) * 1024 + c"
  have d: "?x div 1024 = a * 1024 + b" using assms by simp
  moreover have "?x div 2 ^ 20 = ?x div 1024 div 1024" by (simp add: zdiv_zmult2_eq [symmetric])
  ultimately have "?x div 2 ^ 20 = a" using assms by simp
  with d assms show "?x div 2 ^ 20 mod 1024 = a" "?x div 2 ^ 10 mod 1024 = b" by simp_all
  show "?x mod 1024 = c" using assms by (simp only: mod_mult_self3) simp
qed

lemma int_nat_of_digits3: "int (nat_of_digits [a, b, c]) = triple a b c"
  by (simp add: nat_of_digits_def triple_def)

lemma decode_nine:
  assumes "isASCIIDigits ds" "length ds = 9"
  shows "decfloatBitsToDigits (packDeclets ds 0) = int (nat_of_digits ds)"
proof -
  obtain a b c d e f g h i where ds: "ds = [a, b, c] @ [d, e, f] @ [g, h, i]"
    using assms(2) by (auto simp: numeral_eq_Suc length_Suc_conv)
  have dig: "is_digit a" "is_digit b" "is_digit c" "is_digit d" "is_digit e" "is_digit f" "is_digit g" "is_digit h" "is_digit i"
    using assms(1) by (simp_all add: ds)
  note v = declet_triple [OF dig(1-3)] declet_triple [OF dig(4-6)] declet_triple [OF dig(7-9)]
  have p: "packDeclets ds 0 = (decfloatDecletTable (triple a b c) * 1024 + decfloatDecletTable (triple d e f)) * 1024 +
      decfloatDecletTable (triple g h i)"
    unfolding ds by (simp add: packDeclets_step dig del: packDeclets.simps(1))
  have "int (nat_of_digits ds) = (triple a b c * 1000 + triple d e f) * 1000 + triple g h i"
    unfolding ds by (simp add: nat_of_digits_def triple_def)
  then show ?thesis
    unfolding bitsToDigits_eq p mixed_radix [OF v(1,2) v(4,5) v(7,8)] by (simp add: v)
qed

lemma unpack_zero: "decfloatUnpackDeclet 0 = 0"
  by code_simp

lemma decode_six:
  assumes "isASCIIDigits ds" "length ds = 6"
  shows "decfloatBitsToDigits (packDeclets ds 0) = int (nat_of_digits ds)"
proof -
  obtain a b c d e f where ds: "ds = [a, b, c] @ [d, e, f]"
    using assms(2) by (auto simp: numeral_eq_Suc length_Suc_conv)
  have dig: "is_digit a" "is_digit b" "is_digit c" "is_digit d" "is_digit e" "is_digit f"
    using assms(1) by (simp_all add: ds)
  note v = declet_triple [OF dig(1-3)] declet_triple [OF dig(4-6)]
  have p: "packDeclets ds 0 = (0 * 1024 + decfloatDecletTable (triple a b c)) * 1024 + decfloatDecletTable (triple d e f)"
    unfolding ds by (simp add: packDeclets_step dig del: packDeclets.simps(1))
  have "int (nat_of_digits ds) = triple a b c * 1000 + triple d e f"
    unfolding ds by (simp add: nat_of_digits_def triple_def)
  then show ?thesis
    unfolding bitsToDigits_eq p mixed_radix [OF order_refl zero_less_numeral v(1,2) v(4,5)] by (simp add: v unpack_zero)
qed

subsection \<open>Fields of the words\<close>

lemma word_field_or:
  fixes a b :: u64
  assumes "uint b < 2 ^ n" "uint a * 2 ^ n < 2 ^ 64"
  shows "uint (push_bit n a OR b) = uint a * 2 ^ n + uint b"
proof -
  have "uint (push_bit n a) = push_bit n (uint a)"
    using assms(2) by (simp only: unsigned_push_bit_eq) (simp add: push_bit_eq_mult take_bit_int_eq_self)
  then show ?thesis using or_shift_add [of "uint b" n "uint a"] assms(1) by (simp add: unsigned_or_eq)
qed

lemma uint_and_mask:
  fixes w :: u64
  shows "uint (w AND mask n) = uint w mod 2 ^ n"
  by (simp only: take_bit_eq_mask [symmetric] unsigned_take_bit_eq) (simp add: take_bit_eq_mod)

lemma uint_drop:
  fixes w :: u64
  shows "uint (drop_bit n w) = uint w div 2 ^ n"
proof -
  have "take_bit 64 (uint w) = uint w" using uint_bounded [of w] by (intro take_bit_int_eq_self) simp_all
  then show ?thesis by (simp only: unsigned_drop_bit_eq) (simp add: drop_bit_eq_div)
qed

lemma masks:
  "(0x1f :: u64) = mask 5" "(1 :: u64) = mask 1" "(0x3fffffff :: u64) = mask 30" "(0xfffff :: u64) = mask 20"
  "(0x3ffffff :: u64) = mask 26" "(0xf :: u64) = mask 4" "(0x0003ffffffffffff :: u64) = mask 50"
  by (simp_all add: mask_eq_exp_minus_1)

text \<open>
  A first word made of sign, combination, exponent continuation and coefficient continuation:
  \<open>k\<close> bits of exponent above \<open>m\<close> bits of coefficient.
\<close>

definition decfloat_word :: "u64 \<Rightarrow> int \<Rightarrow> int \<Rightarrow> nat \<Rightarrow> int \<Rightarrow> nat \<Rightarrow> int \<Rightarrow> bool" where
  "decfloat_word hi S C k E m D \<longleftrightarrow>
     uint hi = ((S * 32 + C) * 2 ^ k + E) * 2 ^ m + D \<and> k + m = 58 \<and>
     0 \<le> S \<and> S < 2 \<and> 0 \<le> C \<and> C < 32 \<and> 0 \<le> E \<and> E < 2 ^ k \<and> 0 \<le> D \<and> D < 2 ^ m"

lemma div_pow_add: "(x :: int) div 2 ^ (a + b) = x div 2 ^ a div 2 ^ b"
  by (simp add: power_add zdiv_zmult2_eq)

lemma div_pow_less:
  fixes x :: int
  assumes "0 \<le> x" "x < 2 ^ (a + b)"
  shows "0 \<le> x div 2 ^ a" "x div 2 ^ a < 2 ^ b"
proof -
  show "0 \<le> x div 2 ^ a" using assms(1) by (simp add: pos_imp_zdiv_nonneg_iff)
  have "x div 2 ^ a * 2 ^ a \<le> x"
    using div_mult_mod_eq [of x "2 ^ a"] pos_mod_sign [of "2 ^ a" x] zero_less_power [of "2 :: int" a] by linarith
  also have "x < 2 ^ b * 2 ^ a" using assms(2) by (simp add: power_add mult.commute)
  finally show "x div 2 ^ a < 2 ^ b" by simp
qed

lemma word_divs:
  assumes "decfloat_word hi S C k E m D"
  shows "uint hi div 2 ^ m = (S * 32 + C) * 2 ^ k + E" "uint hi div 2 ^ 58 = S * 32 + C" "uint hi div 2 ^ 63 = S"
    "uint hi mod 2 ^ m = D"
proof -
  have u: "uint hi = ((S * 32 + C) * 2 ^ k + E) * 2 ^ m + D" and km: "m + k = 58"
    and b: "0 \<le> S" "S < 2" "0 \<le> C" "C < 32" "0 \<le> E" "E < 2 ^ k" "0 \<le> D" "D < 2 ^ m"
    using assms by (simp_all add: decfloat_word_def)
  show m: "uint hi div 2 ^ m = (S * 32 + C) * 2 ^ k + E" unfolding u using b(7,8) by simp
  show c: "uint hi div 2 ^ 58 = S * 32 + C"
    using div_pow_add [of "uint hi" m k] b(5,6) unfolding km m by simp
  show "uint hi div 2 ^ 63 = S" using div_pow_add [of "uint hi" 58 5] b(3,4) unfolding c by simp
  show "uint hi mod 2 ^ m = D" unfolding u using b(7,8) by (simp only: mod_mult_self3) simp
qed

lemma word_combination:
  assumes "decfloat_word hi S C k E m D"
  shows "drop_bit 58 hi AND 0x1f = word_of_int C"
proof -
  have "0 \<le> C" "C < 32" using assms by (simp_all add: decfloat_word_def)
  then have "uint (drop_bit 58 hi AND 0x1f) = C"
    unfolding masks uint_and_mask uint_drop word_divs [OF assms] by simp
  then show ?thesis by (metis word_of_int_uint)
qed

lemma word_sign:
  assumes "decfloat_word hi S C k E m D"
  shows "decfloatSign hi = (if S = 1 then -1 else 1)"
proof -
  have "uint (drop_bit 63 hi AND 1) = S mod 2"
    unfolding masks(2) uint_and_mask uint_drop word_divs [OF assms] by simp
  moreover have "S mod 2 = S" "S = 0 \<or> S = 1" using assms by (auto simp: decfloat_word_def)
  ultimately have "drop_bit 63 hi AND 1 = word_of_int S" by (metis word_of_int_uint)
  then show ?thesis using \<open>S = 0 \<or> S = 1\<close> by (auto simp: decfloatSign_def)
qed

lemma word_exponent:
  assumes "decfloat_word hi S C k E m D"
  shows "uint (drop_bit m hi AND mask k) = E"
proof -
  have "0 \<le> E" "E < 2 ^ k" using assms by (simp_all add: decfloat_word_def)
  then show ?thesis unfolding uint_and_mask uint_drop word_divs [OF assms] by (simp only: mod_mult_self3) simp
qed

text \<open>The combination field gives back the two leading digits, and is never the code of a special value.\<close>

lemma combination_all:
  "list_all (\<lambda>e. list_all (\<lambda>c.
     let w = decfloatComb e c in
     uint w < 30 \<and>
     (if w AND 0x18 = 0x18 then (uint (drop_bit 1 (w AND 0x06)), uint (8 + (w AND 0x01)))
      else (uint (drop_bit 3 (w AND 0x18)), uint (w AND 0x07))) = (e, c)) [0..9]) [0..2]"
  by code_simp

lemma combination:
  assumes "e \<in> {0..2}" "c \<in> {0..9}"
  shows "uint (decfloatComb e c) < 30"
    "(if decfloatComb e c AND 0x18 = 0x18
      then (uint (drop_bit 1 (decfloatComb e c AND 0x06)), uint (8 + (decfloatComb e c AND 0x01)))
      else (uint (drop_bit 3 (decfloatComb e c AND 0x18)), uint (decfloatComb e c AND 0x07))) = (e, c)"
proof -
  have "e \<in> set [0..2]" "c \<in> set [0..9]" using assms by (simp_all only: set_upto)
  with combination_all have "let w = decfloatComb e c in
     uint w < 30 \<and>
     (if w AND 0x18 = 0x18 then (uint (drop_bit 1 (w AND 0x06)), uint (8 + (w AND 0x01)))
      else (uint (drop_bit 3 (w AND 0x18)), uint (w AND 0x07))) = (e, c)"
    unfolding list_all_iff by blast
  then show "uint (decfloatComb e c) < 30"
    "(if decfloatComb e c AND 0x18 = 0x18
      then (uint (drop_bit 1 (decfloatComb e c AND 0x06)), uint (8 + (decfloatComb e c AND 0x01)))
      else (uint (drop_bit 3 (decfloatComb e c AND 0x18)), uint (decfloatComb e c AND 0x07))) = (e, c)"
    unfolding Let_def by blast+
qed

lemma word_finite:
  assumes "decfloat_word hi S (uint (decfloatComb e c)) k E m D" "e \<in> {0..2}" "c \<in> {0..9}"
  shows "decfloatSpecial hi sg = None" "decfloatMSDs hi = (e, c)"
proof -
  have w: "drop_bit 58 hi AND 0x1f = decfloatComb e c" using word_combination [OF assms(1)] by simp
  have "decfloatComb e c \<noteq> 0x1f" "decfloatComb e c \<noteq> 0x1e" using combination(1) [OF assms(2,3)] by auto
  then show "decfloatSpecial hi sg = None" by (simp add: decfloatSpecial_def w)
  show "decfloatMSDs hi = (e, c)" unfolding decfloatMSDs_def Let_def w by (rule combination(2) [OF assms(2,3)])
qed

lemma decfloat_wordI:
  fixes sg comb expCont dd :: u64
  assumes "uint sg < 2" "uint comb < 32" "uint expCont < 2 ^ k" "uint dd < 2 ^ m" "k + m = 58"
  shows "decfloat_word (push_bit 63 sg OR push_bit 58 comb OR push_bit m expCont OR dd)
    (uint sg) (uint comb) k (uint expCont) m (uint dd)"
proof -
  have mk: "(2 :: int) ^ k * 2 ^ m = 2 ^ 58" using assms(5) by (simp flip: power_add)
  have "(uint expCont + 1) * 2 ^ m \<le> 2 ^ k * 2 ^ m" using assms(3) by (intro mult_right_mono) simp_all
  then have e: "uint expCont * 2 ^ m + uint dd < 2 ^ 58" using assms(4) unfolding mk by (simp add: algebra_simps)
  moreover have "(2 :: int) ^ 58 < 2 ^ 64" by simp
  ultimately have x: "uint expCont * 2 ^ m < 2 ^ 64" using uint_ge_0 [of dd] by linarith
  let ?w1 = "push_bit m expCont OR dd" and ?w2 = "push_bit 58 comb OR push_bit m expCont OR dd"
  have w1: "uint ?w1 = uint expCont * 2 ^ m + uint dd" using word_field_or [OF assms(4) x] .
  have w2: "uint ?w2 = uint comb * 2 ^ 58 + uint ?w1"
    using e w1 assms(2) by (intro word_field_or) simp_all
  have "uint ?w2 < 2 ^ 63" using e w1 w2 assms(2) by simp
  then have "uint (push_bit 63 sg OR ?w2) = uint sg * 2 ^ 63 + uint ?w2"
    using assms(1) by (intro word_field_or) simp_all
  then have "uint (push_bit 63 sg OR ?w2) = (uint sg * 32 + uint comb) * 2 ^ 58 + uint expCont * 2 ^ m + uint dd"
    unfolding w2 w1 by simp
  also have "\<dots> = ((uint sg * 32 + uint comb) * 2 ^ k + uint expCont) * 2 ^ m + uint dd"
    unfolding mk [symmetric] by (simp add: algebra_simps)
  finally show ?thesis using assms by (simp add: decfloat_word_def)
qed

lemma TrimLeft_rep: "TrimLeft c (rep n c @ s) = TrimLeft c s"
  by (induction n) (simp_all add: TrimLeft_def rep_def)

lemma show_nat_leading:
  assumes "0 < n"
  shows "TrimLeft (CHR ''0'') (show_nat n) = show_nat n"
proof (rule ccontr)
  let ?s = "show_nat n"
  assume "TrimLeft (CHR ''0'') ?s \<noteq> ?s"
  then obtain t where t: "?s = CHR ''0'' # t" by (cases ?s) (auto simp: TrimLeft_def split: if_splits)
  have "isASCIIDigits t" using isASCIIDigits_show_nat [of n] unfolding t by simp
  then have "nat_of_digits t < 10 ^ length t" by (rule nat_of_digits_less)
  moreover have "nat_of_digits t = n" using nat_of_digits_show_nat [of n] unfolding t by simp
  moreover have "10 ^ length t \<le> n" using show_nat_lower [OF assms] unfolding t by simp
  ultimately show False by simp
qed

lemma TrimLeft_digits:
  assumes "isASCIIDigits s"
  shows "TrimLeft (CHR ''0'') s = (if nat_of_digits s = 0 then [] else show_nat (nat_of_digits s))"
proof (cases "nat_of_digits s = 0")
  case True
  then have "\<forall>x \<in> set s. x = CHR ''0''" using nat_of_digits_eq_0 [OF assms] by auto
  with True show ?thesis by (auto simp: TrimLeft_def dropWhile_eq_Nil_conv)
next
  case False
  let ?n = "nat_of_digits s"
  have "?n < 10 ^ length s" by (rule nat_of_digits_less [OF assms])
  then have "length (show_nat ?n) \<le> length s" using False by (intro length_show_nat) simp_all
  then have "zero_pad (length s) (show_nat ?n) = s" using assms by (intro nat_of_digits_inj) simp_all
  then have "TrimLeft (CHR ''0'') s = TrimLeft (CHR ''0'') (show_nat ?n)"
    by (metis TrimLeft_rep zero_pad_def)
  then show ?thesis using False by (simp add: show_nat_leading)
qed

lemma show_int_nat [simp]: "show_int (int n) = show_nat n"
  by (simp add: show_int_def)

lemma formatDecfloat_nat: "formatDecfloat sign (int n) exponent = formatDecfloatStr sign (show_nat n) exponent"
  by (cases "n = 0") (simp_all add: formatDecfloat_def show_nat_leading, simp add: show_nat.simps)

subsection \<open>Decoding what was packed\<close>

lemma expCont_word:
  assumes "0 \<le> biased" "biased < 2 ^ 64"
  shows "uint (word_of_int biased AND (push_bit k 1 - 1) :: u64) = biased mod 2 ^ k"
proof -
  have "(push_bit k 1 - 1 :: u64) = mask k" by (simp add: mask_eq_exp_minus_1 push_bit_eq_mult)
  moreover have "uint (word_of_int biased :: u64) = biased" using assms by (simp add: uint_word_of_int)
  ultimately show ?thesis by (simp only: uint_and_mask)
qed

lemma exponent_or:
  fixes biased :: int
  assumes "0 \<le> biased"
  shows "(biased mod 2 ^ k) OR push_bit k (biased div 2 ^ k) = biased"
proof -
  have "push_bit k (biased div 2 ^ k) OR (biased mod 2 ^ k) = biased div 2 ^ k * 2 ^ k + biased mod 2 ^ k"
    by (rule or_shift_add) simp_all
  then show ?thesis by (simp only: or.commute div_mult_mod_eq)
qed

lemma digits_split:
  assumes "isASCIIDigits digits" "length digits = Suc n"
  obtains c rest where "digits = c # rest" "is_digit c" "isASCIIDigits rest" "length rest = n"
  using assms by (cases digits) auto

lemma msd_range: "is_digit c \<Longrightarrow> int (digit_val c) \<in> {0..9}"
  using digit_val_less [of c] by simp

lemma decode_packed16:
  assumes d: "isASCIIDigits digits" "length digits = 16" and b: "0 \<le> biased" "biased < 768"
    and p: "decfloatPack decfloat16Format (if neg then 1 else 0) digits biased = (hi, lo)"
  shows "decodeDecfloat16 (bytesU64 hi) =
    Inr (formatDecfloatStr (if neg then -1 else 1) (show_nat (nat_of_digits digits)) (biased - decfloat16Bias))"
proof -
  obtain c rest where dg: "digits = c # rest" "is_digit c" "isASCIIDigits rest" "length rest = 15"
    using digits_split [OF d(1), of 15] d(2) by auto
  define r1 r2 where r: "r1 = take 6 rest" "r2 = drop 6 rest"
  have r1: "isASCIIDigits r1" "length r1 = 6" and r2: "isASCIIDigits r2" "length r2 = 9" and app: "rest = r1 @ r2"
    using dg(3,4) by (simp_all add: r)
  have D1: "0 \<le> packDeclets r1 0" "packDeclets r1 0 < 2 ^ 20"
    using packDeclets_bound [OF r1(1), of 2] r1(2) by simp_all
  have D2: "0 \<le> packDeclets r2 0" "packDeclets r2 0 < 2 ^ 30"
    using packDeclets_bound [OF r2(1), of 3] r2(2) by simp_all
  have D: "packDeclets rest 0 = packDeclets r1 0 * 2 ^ 30 + packDeclets r2 0"
    using packDeclets_append [OF r1(1) r2(1), of 2 3] r1(2) r2(2) by (simp add: app)
  have Db: "0 \<le> packDeclets rest 0" "packDeclets rest 0 < 2 ^ 50"
    using packDeclets_bound [OF dg(3), of 5] dg(4) by simp_all
  let ?sg = "if neg then 1 else 0 :: u64" and ?e = "biased div 2 ^ 8" and ?c = "int (digit_val c)"
  let ?E = "word_of_int biased AND (push_bit 8 1 - 1) :: u64" and ?D = "word_of_int (packDeclets rest 0) :: u64"
  have e: "?e \<in> {0..2}" using b by auto
  have E: "uint ?E = biased mod 2 ^ 8" using b by (intro expCont_word) simp_all
  have uD: "uint ?D = packDeclets rest 0" using Db by (simp add: uint_word_of_int)
  have hi: "hi = push_bit 63 ?sg OR push_bit 58 (decfloatComb ?e ?c) OR push_bit 50 ?E OR ?D"
    using p by (simp add: decfloatPack_def decfloat16Format_def dg(1) drop_bit_eq_div Let_def)
  have "uint ?E < 2 ^ 8" unfolding E by simp
  then have w: "decfloat_word hi (uint ?sg) (uint (decfloatComb ?e ?c)) 8 (biased mod 2 ^ 8) 50 (packDeclets rest 0)"
    using decfloat_wordI [of ?sg "decfloatComb ?e ?c" ?E 8 ?D 50] combination(1) [OF e msd_range [OF dg(2)]] Db
    unfolding hi E uD by (simp del: push_bit_of_1)
  have ex: "uint (drop_bit 50 (hi AND 0x03fc000000000000)) = biased mod 2 ^ 8"
  proof -
    have "drop_bit 50 (hi AND 0x03fc000000000000) = drop_bit 50 hi AND drop_bit 50 0x03fc000000000000" by (rule drop_bit_and)
    also have "drop_bit 50 (0x03fc000000000000 :: u64) = mask 8" by (simp add: mask_eq_exp_minus_1 drop_bit_eq_div)
    finally show ?thesis using word_exponent [OF w] by simp
  qed
  have cont: "uint (hi AND 0x0003ffffffffffff) = packDeclets rest 0"
    unfolding masks uint_and_mask using word_divs(4) [OF w] .
  have lo: "uint ((hi AND 0x0003ffffffffffff) AND 0x3fffffff) = packDeclets r2 0"
    unfolding masks(3) uint_and_mask cont D using D2 by (simp only: mod_mult_self3) simp
  have hiD: "uint (drop_bit 30 (hi AND 0x0003ffffffffffff) AND 0xfffff) = packDeclets r1 0"
    unfolding masks(4) uint_and_mask uint_drop cont D using D1 D2 by simp
  have N: "(int (nat_of_digits r1) + ?c * 1000000) * 1000000000 + int (nat_of_digits r2) = int (nat_of_digits digits)"
    by (simp add: dg(1) app r1(2) r2(2))
  have sg: "decfloatSign hi = (if neg then -1 else 1)" using word_sign [OF w] by simp
  have "Uint64 (take 8 (bytesU64 hi)) = hi" "\<not> length (bytesU64 hi) < 8" by simp_all
  then show ?thesis
    unfolding decodeDecfloat16_def Let_def
    by (simp only: word_finite [OF w e msd_range [OF dg(2)]] sg ex lo hiD decode_nine [OF r2] decode_six [OF r1]
        exponent_or [OF b(1)] N formatDecfloat_nat option.case prod.case if_False)
qed

text \<open>The second word holds the low 64 bits of the 110 bits of coefficient, the first the 46 above them.\<close>

lemma low_word: "uint (word_of_int (cont AND (2 ^ 64 - 1)) :: u64) = cont mod 2 ^ 64" for cont :: int
proof -
  have "cont AND (2 ^ 64 - 1) = take_bit 64 cont" by (simp only: take_bit_eq_mask mask_eq_exp_minus_1)
  then show ?thesis by (simp add: uint_word_of_int take_bit_eq_mod)
qed

lemma groups34:
  fixes g1 g2 g3 g4 :: int
  assumes "0 \<le> g1" "g1 < 2 ^ 20" "0 \<le> g2" "g2 < 2 ^ 30" "0 \<le> g3" "g3 < 2 ^ 30" "0 \<le> g4" "g4 < 2 ^ 30"
    and "cont = ((g1 * 2 ^ 30 + g2) * 2 ^ 30 + g3) * 2 ^ 30 + g4"
  shows "cont mod 2 ^ 64 mod 2 ^ 30 = g4" "cont mod 2 ^ 64 div 2 ^ 30 mod 2 ^ 30 = g3"
    "cont mod 2 ^ 64 div 2 ^ 60 mod 2 ^ 4 = g2 mod 2 ^ 4" "cont div 2 ^ 64 mod 2 ^ 26 = g2 div 2 ^ 4"
    "cont div 2 ^ 64 div 2 ^ 26 mod 2 ^ 20 = g1"
proof -
  have c60: "cont div 2 ^ 60 = g1 * 2 ^ 30 + g2"
  proof -
    have "cont div 2 ^ 30 = (g1 * 2 ^ 30 + g2) * 2 ^ 30 + g3" unfolding assms(9) using assms(7,8) by simp
    then have "cont div 2 ^ 30 div 2 ^ 30 = g1 * 2 ^ 30 + g2" using assms(5,6) by simp
    then show ?thesis using div_pow_add [of cont 30 30] by simp
  qed
  have m: "cont mod 2 ^ 64 = cont mod 2 ^ 60 + 2 ^ 60 * (cont div 2 ^ 60 mod 2 ^ 4)"
    using zmod_zmult2_eq [of "2 ^ 4" cont "2 ^ 60"] by simp
  have c0: "cont mod 2 ^ 60 = g3 * 2 ^ 30 + g4"
  proof -
    have "cont = (g1 * 2 ^ 30 + g2) * 2 ^ 60 + (g3 * 2 ^ 30 + g4)" unfolding assms(9) by (simp add: algebra_simps)
    then have "cont mod 2 ^ 60 = (g3 * 2 ^ 30 + g4) mod 2 ^ 60" by (metis mod_mult_self3)
    moreover have "g3 * 2 ^ 30 + g4 < 2 ^ 60" "0 \<le> g3 * 2 ^ 30 + g4" using assms(5-8) by auto
    ultimately show ?thesis by simp
  qed
  show "cont mod 2 ^ 64 mod 2 ^ 30 = g4"
  proof -
    have "cont mod 2 ^ 64 mod 2 ^ 30 = cont mod 2 ^ 30" by (rule mod_mod_cancel) simp
    also have "\<dots> = g4" unfolding assms(9) using assms(7,8) by (simp only: mod_mult_self3) simp
    finally show ?thesis .
  qed
  have k: "0 \<le> cont div 2 ^ 60 mod 2 ^ 4" "cont div 2 ^ 60 mod 2 ^ 4 < 2 ^ 4" by simp_all
  have d30: "cont mod 2 ^ 64 div 2 ^ 30 = cont div 2 ^ 60 mod 2 ^ 4 * 2 ^ 30 + g3"
    unfolding m c0 using assms(7,8) by simp
  then show "cont mod 2 ^ 64 div 2 ^ 30 mod 2 ^ 30 = g3" using assms(5,6) by (simp only: mod_mult_self3) simp
  have "cont mod 2 ^ 64 div 2 ^ 60 = cont mod 2 ^ 64 div 2 ^ 30 div 2 ^ 30" using div_pow_add [of _ 30 30] by simp
  also have "\<dots> = cont div 2 ^ 60 mod 2 ^ 4" unfolding d30 using assms(5,6) by simp
  finally have "cont mod 2 ^ 64 div 2 ^ 60 = (g1 * 2 ^ 30 + g2) mod 2 ^ 4" unfolding c60 .
  also have "\<dots> = g2 mod 2 ^ 4" by (metis dvd_imp_mod_0 dvd_mult le_imp_power_dvd mod_add_left_eq add_0 numeral_le_iff semiring_norm(68,71,72,76,78))
  finally show "cont mod 2 ^ 64 div 2 ^ 60 mod 2 ^ 4 = g2 mod 2 ^ 4" by simp
  have c64: "cont div 2 ^ 64 = g1 * 2 ^ 26 + g2 div 2 ^ 4"
    using div_pow_add [of cont 60 4] unfolding c60 by simp
  moreover have g2': "0 \<le> g2 div 2 ^ 4" "g2 div 2 ^ 4 < 2 ^ 26" using assms(3,4) div_pow_less [of g2 4 26] by simp_all
  ultimately show "cont div 2 ^ 64 mod 2 ^ 26 = g2 div 2 ^ 4" by (simp only: mod_mult_self3) simp
  show "cont div 2 ^ 64 div 2 ^ 26 mod 2 ^ 20 = g1" unfolding c64 using g2' assms(1,2) by simp
qed

lemma decode_words34:
  assumes w: "decfloat_word hi S (uint (decfloatComb e c)) 12 (biased mod 2 ^ 12) 46 (cont div 2 ^ 64)"
    and ec: "e \<in> {0..2}" "c \<in> {0..9}" and b: "0 \<le> biased" "e = biased div 2 ^ 12" and lo: "uint lo = cont mod 2 ^ 64"
    and g: "cont mod 2 ^ 64 mod 2 ^ 30 = packDeclets r4 0" "cont mod 2 ^ 64 div 2 ^ 30 mod 2 ^ 30 = packDeclets r3 0"
      "cont mod 2 ^ 64 div 2 ^ 60 mod 2 ^ 4 = packDeclets r2 0 mod 2 ^ 4" "cont div 2 ^ 64 mod 2 ^ 26 = packDeclets r2 0 div 2 ^ 4"
      "cont div 2 ^ 64 div 2 ^ 26 mod 2 ^ 20 = packDeclets r1 0"
    and r1: "isASCIIDigits r1" "length r1 = 6" and r2: "isASCIIDigits r2" "length r2 = 9"
    and r3: "isASCIIDigits r3" "length r3 = 9" and r4: "isASCIIDigits r4" "length r4 = 9"
  shows "decodeDecfloat34 (bytesU64 hi @ bytesU64 lo) =
    Inr (formatDecfloatStr (if S = 1 then -1 else 1)
      (show_nat (nat_of_digits (digit_char (nat c) # r1 @ r2 @ r3 @ r4))) (biased - decfloat34Bias))"
proof -
  have ex: "uint (drop_bit 46 (hi AND 0x03ffc00000000000)) = biased mod 2 ^ 12"
  proof -
    have "drop_bit 46 (hi AND 0x03ffc00000000000) = drop_bit 46 hi AND drop_bit 46 0x03ffc00000000000" by (rule drop_bit_and)
    also have "drop_bit 46 (0x03ffc00000000000 :: u64) = mask 12" by (simp add: mask_eq_exp_minus_1 drop_bit_eq_div)
    finally show ?thesis using word_exponent [OF w] by simp
  qed
  have f4: "uint (lo AND 0x3fffffff) = packDeclets r4 0" unfolding masks uint_and_mask lo by (rule g)
  have f3: "uint (drop_bit 30 lo AND 0x3fffffff) = packDeclets r3 0" unfolding masks uint_and_mask uint_drop lo by (rule g)
  have hm: "uint hi mod 2 ^ 46 = cont div 2 ^ 64" by (rule word_divs(4) [OF w])
  have h26: "uint hi mod 2 ^ 26 = packDeclets r2 0 div 2 ^ 4"
    using mod_mod_cancel [of "2 ^ 26" "2 ^ 46" "uint hi"] hm g(4) by simp
  have f2: "uint (push_bit 4 (hi AND 0x3ffffff) OR (drop_bit 60 lo AND 0xf)) = packDeclets r2 0"
  proof -
    have a: "uint (hi AND 0x3ffffff) = packDeclets r2 0 div 2 ^ 4" "uint (drop_bit 60 lo AND 0xf) = packDeclets r2 0 mod 2 ^ 4"
      unfolding masks uint_and_mask uint_drop lo h26 using g(3) by simp_all
    have "packDeclets r2 0 < 2 ^ 30" "0 \<le> packDeclets r2 0" using packDeclets_bound [OF r2(1), of 3] r2(2) by simp_all
    moreover have "packDeclets r2 0 div 2 ^ 4 * 2 ^ 4 \<le> packDeclets r2 0" by (metis Groups.mult_ac(2) mult_div_mod_eq pos_mod_sign zero_less_numeral zero_less_power add_increasing2 order_refl)
    ultimately have "uint (push_bit 4 (hi AND 0x3ffffff) OR (drop_bit 60 lo AND 0xf)) =
        packDeclets r2 0 div 2 ^ 4 * 2 ^ 4 + packDeclets r2 0 mod 2 ^ 4"
      unfolding a [symmetric] by (intro word_field_or) (simp_all add: a)
    then show ?thesis by (simp only: div_mult_mod_eq)
  qed
  have f1: "uint (drop_bit 26 hi AND 0xfffff) = packDeclets r1 0"
  proof -
    have "uint hi div 2 ^ 26 mod 2 ^ 20 = (uint hi mod 2 ^ 46) div 2 ^ 26"
      using zmod_zmult2_eq [of "2 ^ 20" "uint hi" "2 ^ 26"] by simp
    also have "\<dots> = packDeclets r1 0"
    proof -
      have "cont div 2 ^ 64 < 2 ^ 46" "0 \<le> cont div 2 ^ 64" using w by (simp_all add: decfloat_word_def)
      then have "cont div 2 ^ 64 div 2 ^ 26 < 2 ^ 20" "0 \<le> cont div 2 ^ 64 div 2 ^ 26"
        using div_pow_less [of "cont div 2 ^ 64" 26 20] by simp_all
      then show ?thesis using g(5) unfolding hm by simp
    qed
    finally show ?thesis unfolding masks uint_and_mask uint_drop .
  qed
  let ?n = "nat_of_digits (digit_char (nat c) # r1 @ r2 @ r3 @ r4)"
  let ?sig = "show_int (int (nat_of_digits r1) + c * 1000000) @ zero_pad 9 (show_int (int (nat_of_digits r2))) @
      zero_pad 9 (show_int (int (nat_of_digits r3))) @ zero_pad 9 (show_int (int (nat_of_digits r4)))"
  have z: "zero_pad 9 (show_nat (nat_of_digits x)) = x" if "isASCIIDigits x" "length x = 9" for x
  proof (rule nat_of_digits_inj)
    have "length (show_nat (nat_of_digits x)) \<le> 9"
      using nat_of_digits_less [OF that(1)] that(2) length_show_nat [of "nat_of_digits x" 9]
      by (cases "nat_of_digits x = 0") (simp_all, subst show_nat.simps, simp)
    then show "length (zero_pad 9 (show_nat (nat_of_digits x))) = length x" using that(2) by simp
  qed (use that in simp_all)
  have ci: "int (nat_of_digits r1) + c * 1000000 = int (nat_of_digits r1 + nat c * 1000000)" using ec(2) by simp
  have "digit_val (digit_char (nat c)) = nat c" using ec(2) by (intro digit_val_digit_char) auto
  then have sig: "isASCIIDigits ?sig" "nat_of_digits ?sig = ?n"
    unfolding ci show_int_nat using r2 r3 r4 r1(2) ec(2) by (simp_all add: z)
  have trim: "(if TrimLeft (CHR ''0'') ?sig = [] then ''0'' else TrimLeft (CHR ''0'') ?sig) = show_nat ?n"
    unfolding TrimLeft_digits [OF sig(1)] sig(2) by (simp add: show_nat.simps [of 0])
  have bytes: "Uint64 (take 8 (bytesU64 hi @ bytesU64 lo)) = hi" "Uint64 (slice 8 16 (bytesU64 hi @ bytesU64 lo)) = lo"
    "\<not> length (bytesU64 hi @ bytesU64 lo) < 16"
    by (simp_all add: slice_append_right slice_0)
  have exp: "(biased mod 2 ^ 12) OR push_bit 12 e = biased" unfolding b(2) by (rule exponent_or [OF b(1)])
  show ?thesis
    unfolding decodeDecfloat34_def Let_def
    by (simp only: bytes word_finite [OF w ec] word_sign [OF w] ex f1 f2 f3 f4 decode_six [OF r1] decode_nine [OF r2]
        decode_nine [OF r3] decode_nine [OF r4] exp trim option.case prod.case if_False)
qed

lemma decode_packed34:
  assumes d: "isASCIIDigits digits" "length digits = 34" and b: "0 \<le> biased" "biased < 12288"
    and p: "decfloatPack decfloat34Format (if neg then 1 else 0) digits biased = (hi, lo)"
  shows "decodeDecfloat34 (bytesU64 hi @ bytesU64 lo) =
    Inr (formatDecfloatStr (if neg then -1 else 1) (show_nat (nat_of_digits digits)) (biased - decfloat34Bias))"
proof -
  obtain c rest where dg: "digits = c # rest" "is_digit c" "isASCIIDigits rest" "length rest = 33"
    using digits_split [OF d(1), of 33] d(2) by auto
  define r1 r2 r3 r4 where r: "r1 = take 6 rest" "r2 = take 9 (drop 6 rest)" "r3 = take 9 (drop 15 rest)" "r4 = drop 24 rest"
  have r1: "isASCIIDigits r1" "length r1 = 6" and r2: "isASCIIDigits r2" "length r2 = 9"
    and r3: "isASCIIDigits r3" "length r3 = 9" and r4: "isASCIIDigits r4" "length r4 = 9"
    using dg(3,4) by (simp_all add: r)
  have app: "rest = r1 @ r2 @ r3 @ r4"
    using append_take_drop_id [of 6 rest] append_take_drop_id [of 9 "drop 6 rest"] append_take_drop_id [of 9 "drop 15 rest"]
    by (simp add: r)
  have G: "0 \<le> packDeclets r1 0" "packDeclets r1 0 < 2 ^ 20" "0 \<le> packDeclets r2 0" "packDeclets r2 0 < 2 ^ 30"
    "0 \<le> packDeclets r3 0" "packDeclets r3 0 < 2 ^ 30" "0 \<le> packDeclets r4 0" "packDeclets r4 0 < 2 ^ 30"
    using packDeclets_bound [OF r1(1), of 2] packDeclets_bound [OF r2(1), of 3] packDeclets_bound [OF r3(1), of 3]
      packDeclets_bound [OF r4(1), of 3] r1(2) r2(2) r3(2) r4(2) by simp_all
  define cont where "cont = packDeclets rest 0"
  have D: "cont = ((packDeclets r1 0 * 2 ^ 30 + packDeclets r2 0) * 2 ^ 30 + packDeclets r3 0) * 2 ^ 30 + packDeclets r4 0"
    using packDeclets_append [OF r3(1) r4(1), of 3 3] packDeclets_append [OF r2(1), of "r3 @ r4" 3 6]
      packDeclets_append [OF r1(1), of "r2 @ r3 @ r4" 2 9] r1(2) r2 r3 r4
    by (simp add: cont_def app algebra_simps)
  note g = groups34 [OF G D]
  have cb: "0 \<le> cont" "cont < 2 ^ 110" using packDeclets_bound [OF dg(3), of 11] dg(4) by (simp_all add: cont_def)
  have top: "0 \<le> cont div 2 ^ 64" "cont div 2 ^ 64 < 2 ^ 46" using cb div_pow_less [of cont 64 46] by simp_all
  let ?sg = "if neg then 1 else 0 :: u64" and ?e = "biased div 2 ^ 12" and ?c = "int (digit_val c)"
  let ?E = "word_of_int biased AND (push_bit 12 1 - 1) :: u64" and ?D = "word_of_int (cont div 2 ^ 64) :: u64"
  have e: "?e \<in> {0..2}" using b by auto
  have E: "uint ?E = biased mod 2 ^ 12" using b by (intro expCont_word) simp_all
  have uD: "uint ?D = cont div 2 ^ 64" using top by (simp add: uint_word_of_int)
  have hi: "hi = push_bit 63 ?sg OR push_bit 58 (decfloatComb ?e ?c) OR push_bit 46 ?E OR ?D"
    and lo: "uint lo = cont mod 2 ^ 64"
    using p low_word [of cont] by (simp_all add: decfloatPack_def decfloat34Format_def dg(1) drop_bit_eq_div Let_def cont_def)
  have "uint ?E < 2 ^ 12" unfolding E by simp
  then have w: "decfloat_word hi (uint ?sg) (uint (decfloatComb ?e ?c)) 12 (biased mod 2 ^ 12) 46 (cont div 2 ^ 64)"
    using decfloat_wordI [of ?sg "decfloatComb ?e ?c" ?E 12 ?D 46] combination(1) [OF e msd_range [OF dg(2)]] top
    unfolding hi E uD by (simp del: push_bit_of_1)
  show ?thesis using decode_words34 [OF w e msd_range [OF dg(2)] b(1) refl lo g r1 r2 r3 r4] dg app by simp
qed

subsection \<open>Rounding\<close>

lemma length_show_nat_iff: "length (show_nat n) \<le> k \<longleftrightarrow> n < 10 ^ k" if "0 < k"
proof (cases "n = 0")
  case True
  then show ?thesis using that by (subst show_nat.simps) simp
next
  case False
  show ?thesis
  proof
    assume "length (show_nat n) \<le> k"
    have "n < 10 ^ length (show_nat n)" using nat_of_digits_less [OF isASCIIDigits_show_nat, of n] by simp
    also have "\<dots> \<le> 10 ^ k" using \<open>length (show_nat n) \<le> k\<close> by (intro power_increasing) simp_all
    finally show "n < 10 ^ k" .
  qed (use False length_show_nat in simp)
qed

text \<open>The quotient is the nearest integer, and the even one of the two nearest on a tie.\<close>

lemma decfloatRoundDrop_nearest:
  assumes "0 \<le> d" and q_def: "q = decfloatRoundDrop c d"
  shows "2 * \<bar>int q * 10 ^ nat d - int c\<bar> \<le> 10 ^ nat d"
    and "2 * \<bar>int q * 10 ^ nat d - int c\<bar> = 10 ^ nat d \<Longrightarrow> 0 < d \<Longrightarrow> even q"
proof -
  define p :: nat where "p = 10 ^ nat d"
  have e: "int c = int (c div p) * int p + int (c mod p)"
    by (metis div_mult_mod_eq of_nat_add of_nat_mult)
  have r: "c mod p < p" by (simp add: p_def)
  consider "d \<le> 0" | "0 < d" "q = c div p + 1" "2 * (c mod p) > p \<or> (2 * (c mod p) = p \<and> odd (c div p))"
    | "0 < d" "q = c div p" "\<not> (2 * (c mod p) > p \<or> (2 * (c mod p) = p \<and> odd (c div p)))"
    using q_def unfolding decfloatRoundDrop_def decfloatPow10_def Let_def p_def by (metis not_le)
  then have "2 * \<bar>int q * int p - int c\<bar> \<le> int p \<and> (2 * \<bar>int q * int p - int c\<bar> = int p \<longrightarrow> 0 < d \<longrightarrow> even q)"
  proof cases
    case 1
    then have "q = c" "p = 1" using assms(1) q_def by (simp_all add: decfloatRoundDrop_def p_def)
    then show ?thesis using 1 by simp
  next
    case 2
    then have "int q * int p - int c = int p - int (c mod p)" unfolding e by (simp add: algebra_simps)
    then show ?thesis using 2 r by auto
  next
    case 3
    then have "int q * int p - int c = - int (c mod p)" unfolding e by simp
    then show ?thesis using 3 by auto
  qed
  then show "2 * \<bar>int q * 10 ^ nat d - int c\<bar> \<le> 10 ^ nat d"
    and "2 * \<bar>int q * 10 ^ nat d - int c\<bar> = 10 ^ nat d \<Longrightarrow> 0 < d \<Longrightarrow> even q" by (simp_all add: p_def)
qed

lemma decfloatRoundDrop_bound:
  assumes "c < 10 ^ (k + nat d)"
  shows "decfloatRoundDrop c d \<le> 10 ^ k"
proof (cases "d \<le> 0")
  case True
  then show ?thesis using assms by (simp add: decfloatRoundDrop_def)
next
  case False
  have "c div 10 ^ nat d < 10 ^ k" using assms by (simp add: power_add less_mult_imp_div_less)
  then show ?thesis using False by (simp add: decfloatRoundDrop_def decfloatPow10_def Let_def)
qed

lemma decfloatRoundDrop_pow: "0 < k \<Longrightarrow> decfloatRoundDrop (10 ^ k) 1 = 10 ^ (k - 1)"
  by (cases k) (simp_all add: decfloatRoundDrop_def decfloatPow10_def)

lemma roundToPrecision_bound:
  assumes "roundToPrecision f coef exp = (c, e)" "0 < dfPrecision f"
  shows "c < 10 ^ dfPrecision f"
proof -
  let ?p = "dfPrecision f" and ?n = "length (show_nat coef)"
  show ?thesis
  proof (cases "?n > ?p")
    case False
    then show ?thesis using assms length_show_nat_iff [OF assms(2), of coef] by (simp add: roundToPrecision_def Let_def)
  next
    case True
    let ?c1 = "decfloatRoundDrop coef (int (?n - ?p))"
    have "coef < 10 ^ ?n" using nat_of_digits_less [OF isASCIIDigits_show_nat, of coef] by simp
    moreover have "?p + nat (int (?n - ?p)) = ?n" using True by simp
    ultimately have le: "?c1 \<le> 10 ^ ?p" by (intro decfloatRoundDrop_bound) (simp only:)
    show ?thesis
    proof (cases "?c1 < 10 ^ ?p")
      case c1: True
      then show ?thesis using assms True length_show_nat_iff [OF assms(2), of ?c1] by (simp add: roundToPrecision_def Let_def)
    next
      case False
      with le have c1: "?c1 = 10 ^ ?p" by simp
      then have "\<not> length (show_nat ?c1) \<le> ?p" using length_show_nat_iff [OF assms(2), of ?c1] by simp
      with assms(1) True have "c = decfloatRoundDrop (10 ^ ?p) 1"
        unfolding roundToPrecision_def Let_def c1 by (simp only: if_True not_le prod.inject)
      also have "\<dots> = 10 ^ (?p - 1)"
        by (rule decfloatRoundDrop_pow [OF assms(2)])
      also have "\<dots> < 10 ^ ?p" using assms(2) by (intro power_strict_increasing) simp_all
      finally show ?thesis .
    qed
  qed
qed

lemma raiseToQmin_bound:
  assumes "raiseToQmin f coef exp = (c, e)" "coef < 10 ^ dfPrecision f" "0 < dfPrecision f"
  shows "c < 10 ^ dfPrecision f" "dfQmin f \<le> e"
proof -
  have "decfloatRoundDrop coef (dfQmin f - exp) < 10 ^ dfPrecision f" if "exp < dfQmin f"
  proof -
    have "(10 :: nat) ^ dfPrecision f \<le> 10 ^ (dfPrecision f - 1 + nat (dfQmin f - exp))"
      using that by (intro power_increasing) auto
    then have "decfloatRoundDrop coef (dfQmin f - exp) \<le> 10 ^ (dfPrecision f - 1)"
      using assms(2) by (intro decfloatRoundDrop_bound) linarith
    also have "\<dots> < 10 ^ dfPrecision f" using assms(3) by (intro power_strict_increasing) simp_all
    finally show ?thesis .
  qed
  then show "c < 10 ^ dfPrecision f" "dfQmin f \<le> e"
    using assms by (auto simp: raiseToQmin_def Let_def split: if_splits)
qed

lemma clampToQmax_bound:
  assumes "clampToQmax f v coef exp = Inr (c, e)" "coef < 10 ^ dfPrecision f" "dfQmin f \<le> exp" "dfQmin f \<le> dfQmax f"
  shows "c < 10 ^ dfPrecision f" "dfQmin f \<le> e" "e \<le> dfQmax f"
proof -
  have "coef * 10 ^ nat (exp - dfQmax f) < 10 ^ dfPrecision f"
    if "exp > dfQmax f" "\<not> int (length (show_nat coef)) + (exp - dfQmax f) > int (dfPrecision f)"
  proof -
    have "coef * 10 ^ nat (exp - dfQmax f) < 10 ^ length (show_nat coef) * 10 ^ nat (exp - dfQmax f)"
      using nat_of_digits_less [OF isASCIIDigits_show_nat, of coef] by simp
    also have "\<dots> \<le> 10 ^ dfPrecision f"
      unfolding power_add [symmetric] using that by (intro power_increasing) auto
    finally show ?thesis .
  qed
  then show "c < 10 ^ dfPrecision f" "dfQmin f \<le> e" "e \<le> dfQmax f"
    using assms by (auto simp: clampToQmax_def decfloatPow10_def Let_def split: if_splits)
qed

lemma decfloatFit_bound:
  assumes "decfloatFit v f = Inr (c, e)" "0 < dfPrecision f" "dfQmin f \<le> dfQmax f"
  shows "c < 10 ^ dfPrecision f" "dfQmin f \<le> e" "e \<le> dfQmax f"
proof -
  obtain c1 e1 where 1: "roundToPrecision f (dvCoef v) (dvExp v) = (c1, e1)" by force
  obtain c2 e2 where 2: "raiseToQmin f c1 e1 = (c2, e2)" by force
  note b1 = roundToPrecision_bound [OF 1 assms(2)]
  note b2 = raiseToQmin_bound [OF 2 b1 assms(2)]
  show "c < 10 ^ dfPrecision f" "dfQmin f \<le> e" "e \<le> dfQmax f"
    using assms(1,3) clampToQmax_bound [OF _ b2 assms(3), of v c e]
    by (auto simp: decfloatFit_def 1 2 Let_def split: if_splits)
qed

lemma decfloatFit_exact:
  assumes "dvCoef v < 10 ^ dfPrecision f" "dfQmin f \<le> dvExp v" "dvExp v \<le> dfQmax f" "0 < dfPrecision f"
  shows "decfloatFit v f = Inr (dvCoef v, dvExp v)"
  using assms length_show_nat_iff [OF assms(4), of "dvCoef v"]
  by (auto simp: decfloatFit_def roundToPrecision_def raiseToQmin_def clampToQmax_def Let_def)

lemma round_lower:
  assumes "length (show_nat coef) = k + nat d" "0 < d" "0 < k"
  shows "10 ^ (k - 1) \<le> decfloatRoundDrop coef d"
proof -
  have "0 < coef"
  proof (rule ccontr)
    assume "\<not> 0 < coef"
    then have "length (show_nat coef) = 1" by (subst show_nat.simps) simp
    with assms show False by simp
  qed
  have "10 ^ (k - 1) * 10 ^ nat d \<le> coef"
    using show_nat_lower [OF \<open>0 < coef\<close>] assms by (simp add: power_add [symmetric])
  then have "10 ^ (k - 1) \<le> coef div 10 ^ nat d" by (simp add: less_eq_div_iff_mult_less_eq)
  also have "\<dots> \<le> decfloatRoundDrop coef d" using assms(2) by (simp add: decfloatRoundDrop_def decfloatPow10_def Let_def)
  finally show ?thesis .
qed

lemma round_keeps_digits:
  assumes "length (show_nat coef) = k + nat d" "0 < d" "0 < k"
  shows "k \<le> length (show_nat (decfloatRoundDrop coef d))"
  using length_show_nat_iff [of "k - 1" "decfloatRoundDrop coef d"] assms(3) show_nat_nonempty [of "decfloatRoundDrop coef d"]
    round_lower [OF assms]
  by (cases "k = 1") (auto simp: not_le Suc_le_eq simp del: show_nat_nonempty)

lemma roundToPrecision_close:
  assumes r: "roundToPrecision f coef exp = (c, e)" and p: "0 < dfPrecision f"
    and w: "- (2 ^ 63) \<le> exp" "exp + int (length (show_nat coef)) < 2 ^ 63"
  shows "exp \<le> e" "2 * \<bar>int c * 10 ^ nat (e - exp) - int coef\<bar> \<le> 10 ^ nat (e - exp)"
    "exp < e \<Longrightarrow> dfPrecision f \<le> length (show_nat c)" "exp = e \<Longrightarrow> c = coef"
proof -
  let ?n = "length (show_nat coef)" and ?d = "int (length (show_nat coef) - dfPrecision f)"
  let ?c1 = "decfloatRoundDrop coef ?d"
  consider "?n \<le> dfPrecision f" "c = coef" "e = exp"
    | "?n > dfPrecision f" "c = ?c1" "e = exp + ?d" "length (show_nat ?c1) \<le> dfPrecision f"
    | "?n > dfPrecision f" "c = decfloatRoundDrop ?c1 1" "e = exp + ?d + 1" "\<not> length (show_nat ?c1) \<le> dfPrecision f"
  proof -
    have "wrap_int64 (exp + ?d) = exp + ?d" "wrap_int64 (exp + ?d + 1) = exp + ?d + 1" if "?n > dfPrecision f"
      using w p that by (auto intro!: wrap_int64_id)
    then show thesis using r that unfolding roundToPrecision_def Let_def by (fastforce split: if_splits)
  qed
  then have "exp \<le> e \<and> 2 * \<bar>int c * 10 ^ nat (e - exp) - int coef\<bar> \<le> 10 ^ nat (e - exp) \<and>
    (exp < e \<longrightarrow> dfPrecision f \<le> length (show_nat c)) \<and> (exp = e \<longrightarrow> c = coef)"
  proof cases
    case 1
    then show ?thesis by simp
  next
    case 2
    then show ?thesis
      using decfloatRoundDrop_nearest(1) [of ?d c coef] round_keeps_digits [of coef "dfPrecision f" ?d] p by auto
  next
    case 3
    have "coef < 10 ^ ?n" using nat_of_digits_less [OF isASCIIDigits_show_nat, of coef] by simp
    moreover have "dfPrecision f + nat ?d = ?n" using 3(1) by simp
    ultimately have "?c1 \<le> 10 ^ dfPrecision f" by (intro decfloatRoundDrop_bound) (simp only:)
    with 3(4) have c1: "?c1 = 10 ^ dfPrecision f" unfolding length_show_nat_iff [OF p] by simp
    have c: "c = 10 ^ (dfPrecision f - 1)"
      unfolding 3(2) c1 by (rule decfloatRoundDrop_pow [OF p])
    have ed: "nat (e - exp) = Suc (nat ?d)" using 3 by simp
    have "int c * 10 ^ nat (e - exp) = int ?c1 * 10 ^ nat ?d"
      unfolding ed c c1 using p by (cases "dfPrecision f") simp_all
    then have "2 * \<bar>int c * 10 ^ nat (e - exp) - int coef\<bar> \<le> 10 ^ nat ?d"
      using decfloatRoundDrop_nearest(1) [of ?d ?c1 coef] by simp
    also have "(10 :: int) ^ nat ?d \<le> 10 ^ nat (e - exp)" unfolding ed by simp
    finally have "2 * \<bar>int c * 10 ^ nat (e - exp) - int coef\<bar> \<le> 10 ^ nat (e - exp)" .
    moreover have "\<not> length (show_nat c) \<le> dfPrecision f - 1"
    proof (cases "dfPrecision f = 1")
      case False
      then show ?thesis using p length_show_nat_iff [of "dfPrecision f - 1" c] by (simp add: c)
    qed simp
    ultimately show ?thesis using 3 by simp
  qed
  then show "exp \<le> e" "2 * \<bar>int c * 10 ^ nat (e - exp) - int coef\<bar> \<le> 10 ^ nat (e - exp)"
    "exp < e \<Longrightarrow> dfPrecision f \<le> length (show_nat c)" "exp = e \<Longrightarrow> c = coef" by blast+
qed

lemma zero_not_rounded:
  assumes "roundToPrecision f coef exp = (c, e)" "0 < dfPrecision f" "coef \<noteq> 0"
  shows "c \<noteq> 0"
proof -
  let ?n = "length (show_nat coef)" and ?d = "int (length (show_nat coef) - dfPrecision f)"
  have nz: "decfloatRoundDrop coef ?d \<noteq> 0" if "?n > dfPrecision f"
    using round_lower [of coef "dfPrecision f" ?d] assms(2) that by (metis add_diff_inverse_nat less_imp_not_less
        nat_int not_less_zero of_nat_0_less_iff power_not_zero zero_less_diff le_zero_eq zero_neq_numeral)
  have "decfloatRoundDrop x 1 \<noteq> 0" if "\<not> length (show_nat x) \<le> dfPrecision f" for x
  proof -
    have "\<not> x < 10" using that assms(2) by (metis One_nat_def Suc_leI length_show_nat_iff power_one_right zero_less_one order_trans)
    then show ?thesis by (auto simp: decfloatRoundDrop_def decfloatPow10_def Let_def)
  qed
  with nz assms(1,3) show ?thesis unfolding roundToPrecision_def Let_def by (metis not_le prod.inject)
qed

text \<open>
  In the normal range of exponents the packed value is the text's value, rounded to half a
  unit of its last digit, or written with more trailing zeros.
\<close>

lemma decfloatFit_close:
  assumes fit: "decfloatFit v f = Inr (c, e)" and p: "0 < dfPrecision f" and nz: "dvCoef v \<noteq> 0"
    and w: "dfQmin f \<le> dvExp v" "- (2 ^ 63) \<le> dvExp v" "dvExp v + int (length (show_nat (dvCoef v))) < 2 ^ 63"
  shows "dvExp v \<le> e \<Longrightarrow> 2 * \<bar>int c * 10 ^ nat (e - dvExp v) - int (dvCoef v)\<bar> \<le> 10 ^ nat (e - dvExp v)"
    and "e < dvExp v \<Longrightarrow> c = dvCoef v * 10 ^ nat (dvExp v - e)"
proof -
  obtain c1 e1 where rd: "roundToPrecision f (dvCoef v) (dvExp v) = (c1, e1)" by force
  note r = roundToPrecision_close [OF rd p w(2,3)]
  have "raiseToQmin f c1 e1 = (c1, e1)" using r(1) w(1) by (simp add: raiseToQmin_def)
  with fit nz rd have cl: "clampToQmax f v c1 e1 = Inr (c, e)" by (simp add: decfloatFit_def Let_def)
  consider "e1 \<le> dfQmax f" "c = c1" "e = e1"
    | "e1 > dfQmax f" "e = dfQmax f" "c = c1 * 10 ^ nat (e1 - e)" "c1 = 0 \<or> length (show_nat c1) < dfPrecision f"
    using cl by (fastforce simp: clampToQmax_def decfloatPow10_def Let_def split: if_splits)
  then have "(dvExp v \<le> e \<longrightarrow> 2 * \<bar>int c * 10 ^ nat (e - dvExp v) - int (dvCoef v)\<bar> \<le> 10 ^ nat (e - dvExp v)) \<and>
    (e < dvExp v \<longrightarrow> c = dvCoef v * 10 ^ nat (dvExp v - e))"
  proof cases
    case 1
    then show ?thesis using r(1,2) by simp
  next
    case 2
    have "length (show_nat c1) < dfPrecision f \<Longrightarrow> dvExp v = e1" using r(1,3) by fastforce
    moreover have "c1 \<noteq> 0" by (rule zero_not_rounded [OF rd p nz])
    ultimately have "dvExp v = e1" using 2(4) by blast
    then show ?thesis using 2 r(4) by simp
  qed
  then show "dvExp v \<le> e \<Longrightarrow> 2 * \<bar>int c * 10 ^ nat (e - dvExp v) - int (dvCoef v)\<bar> \<le> 10 ^ nat (e - dvExp v)"
    and "e < dvExp v \<Longrightarrow> c = dvCoef v * 10 ^ nat (dvExp v - e)" by blast+
qed

lemma format_by_size:
  assumes "sz = 8 \<or> sz = 16" "f = (if sz = 8 then decfloat16Format else decfloat34Format)"
  shows "0 < dfPrecision f" "dfQmin f \<le> dfQmax f" "dfQmin f = - dfBias f" "dfQmax f = (if sz = 8 then 767 else 12287) - dfBias f"
  using assms by (auto simp: decfloat16Format_def decfloat34Format_def decfloat16Bias_def decfloat34Bias_def)

lemma encode_finite:
  assumes s: "sz = 8 \<or> sz = 16" "f = (if sz = 8 then decfloat16Format else decfloat34Format)"
    and v: "parseDecfloatText value = Inr v" "dvKind v = DecfloatFinite" and fit: "decfloatFit v f = Inr (c, e)"
  shows "\<exists>bs. encodeDecfloat value sz = Inr bs \<and> length bs = nat sz \<and>
    decodeDecfloat bs = Inr (formatDecfloatStr (if dvNeg v then -1 else 1) (show_nat c) e)"
proof -
  note f = format_by_size [OF s]
  note b = decfloatFit_bound [OF fit f(1,2)]
  let ?digits = "zero_pad (dfPrecision f) (show_nat c)"
  have len: "length (show_nat c) \<le> dfPrecision f" using b(1) length_show_nat_iff [OF f(1)] by simp
  have d: "isASCIIDigits ?digits" "length ?digits = dfPrecision f" "nat_of_digits ?digits = c" using len by simp_all
  have bi: "0 \<le> e + dfBias f" "e + dfBias f < (if sz = 8 then 768 else 12288)" using b(2,3) f(3,4) by (auto split: if_splits)
  obtain hi lo where pk: "decfloatPack f (if dvNeg v then 1 else 0) ?digits (e + dfBias f) = (hi, lo)" by force
  have en: "encodeDecfloatFinite v f (if dvNeg v then 1 else 0) = Inr (hi, lo)"
    using len bi(1) by (simp add: encodeDecfloatFinite_def fit res_simps pk Let_def)
  have enc: "encodeDecfloat value sz = Inr (if sz = 8 then bytesU64 hi else bytesU64 hi @ bytesU64 lo)"
    using s en by (auto simp: encodeDecfloat_def v res_simps Let_def)
  show ?thesis
  proof (cases "sz = 8")
    case True
    with s d bi pk have "decodeDecfloat16 (bytesU64 hi) = Inr (formatDecfloatStr (if dvNeg v then -1 else 1) (show_nat c) e)"
      using decode_packed16 [OF d(1) _ bi(1) _, of "dvNeg v" hi lo] by (simp add: decfloat16Format_def d(3))
    then show ?thesis using True enc by (simp add: decodeDecfloat_def)
  next
    case False
    with s d bi pk have "decodeDecfloat34 (bytesU64 hi @ bytesU64 lo) =
        Inr (formatDecfloatStr (if dvNeg v then -1 else 1) (show_nat c) e)"
      using decode_packed34 [OF d(1) _ bi(1) _, of "dvNeg v" hi lo] by (simp add: decfloat34Format_def d(3))
    then show ?thesis using False s enc by (auto simp: decodeDecfloat_def)
  qed
qed

text \<open>
  Rounding twice: a coefficient with too many digits below the smallest exponent is first cut
  to the precision and then again to the smallest exponent. 3.4999999999999999 units of the
  smallest exponent become 4, the nearest is 3.
\<close>

lemma subnormal_rounds_twice:
  "decfloatFit \<lparr>dvNeg = False, dvKind = DecfloatFinite, dvCoef = 34999999999999999, dvExp = -414\<rparr> decfloat16Format
     = Inr (4, -398)"
proof -
  have l: "length (show_nat 34999999999999999) = 17" "length (show_nat 3500000000000000) = 16"
    by (simp_all add: show_nat.simps)
  show ?thesis
    by (simp add: decfloatFit_def roundToPrecision_def raiseToQmin_def clampToQmax_def decfloat16Format_def
        decfloat16Bias_def decfloatRoundDrop_def decfloatPow10_def l wrap_int64_def)
qed

section \<open>Properties\<close>



text \<open>
  C31. DECFLOAT encoding is accurate and never wraps: a finite value in the normal exponent
  range is packed within half a unit of its last kept digit, or exactly with zeros appended
  to its coefficient, and a value whose exponent cannot be brought into range that way is an
  error.
\<close>

theorem decfloat_half_unit:
  assumes "sz = 8 \<or> sz = 16" "f = (if sz = 8 then decfloat16Format else decfloat34Format)"
    and "parseDecfloatText value = Inr v" "dvKind v = DecfloatFinite" "dvCoef v \<noteq> 0"
    and "dfQmin f \<le> dvExp v" "dvExp v + int (length (show_nat (dvCoef v))) < 2 ^ 63"
  shows "case decfloatFit v f of
      Inl err \<Rightarrow> encodeDecfloat value sz = Inl err \<and> err = decfloatRange v
    | Inr (c, e) \<Rightarrow> (if dvExp v \<le> e
        then 2 * \<bar>int c * 10 ^ nat (e - dvExp v) - int (dvCoef v)\<bar> \<le> 10 ^ nat (e - dvExp v)
        else c = dvCoef v * 10 ^ nat (dvExp v - e))"
proof (cases "decfloatFit v f")
  case (Inl err)
  then have "err = decfloatRange v"
    by (auto simp: decfloatFit_def clampToQmax_def Let_def split: if_splits prod.splits)
  moreover have "encodeDecfloat value sz = Inl err"
    using assms(1-4) Inl by (auto simp: encodeDecfloat_def encodeDecfloatFinite_def res_simps Let_def)
  ultimately show ?thesis using Inl by simp
next
  case (Inr ce)
  obtain c e where ce: "ce = (c, e)" by force
  note f = format_by_size [OF assms(1,2)]
  have "- (2 ^ 63) \<le> dvExp v" using assms(1,2,6) by (auto simp: decfloat16Format_def decfloat34Format_def decfloat16Bias_def decfloat34Bias_def)
  from decfloatFit_close [OF Inr [unfolded ce] f(1) assms(5,6) this assms(7)]
  show ?thesis using Inr ce by auto
qed

theorem decfloat_half_unit_witness:
  "encodeDecfloat ''5E400'' 8 = Inl (decfloatRange \<lparr>dvNeg = False, dvKind = DecfloatFinite, dvCoef = 5, dvExp = 400\<rparr>)"
proof -
  let ?v = "\<lparr>dvNeg = False, dvKind = DecfloatFinite, dvCoef = 5, dvExp = 400\<rparr>"
  have p: "parseDecfloatText ''5E400'' = Inr ?v"
  proof -
    have t: "TrimSpace ''5E400'' = ''5E400''" by (rule TrimSpace_plain) (simp_all add: plain_char_def)
    have l: "ToLower ''5E400'' = ''5e400''" by (subst ToLower_ascii) (simp_all add: lower_rune_def char_of_eq_iff)
    have "ParseInt64 ''400'' = Inr 400" by (simp add: ParseInt64_def is_digit_def digit_val_def)
    then show ?thesis
      by (simp add: parseDecfloatText_def t splitSign_def l Index_def splitPoint_def isASCIIDigits_def is_digit_def
          TrimLeft_def nat_of_digits_def digit_val_def wrap_int64_def res_simps)
  qed
  have l1: "length (show_nat 5) = 1" by (subst show_nat.simps) simp
  have "decfloatFit ?v decfloat16Format = Inl (decfloatRange ?v)"
    by (simp add: decfloatFit_def roundToPrecision_def raiseToQmin_def clampToQmax_def decfloat16Format_def decfloat16Bias_def l1)
  then show ?thesis using decfloat_half_unit [OF disjI1 [OF refl] _ p] l1
    by (simp add: decfloat16Format_def decfloat16Bias_def)
qed

end
