(* ===== verification/Columns.thy ===== *)
theory Columns
  imports Session DateTime Decfloat Floats
begin

text \<open>
  Column values: \<open>decodeColumnValueWithBidi\<close> and its helpers of \<open>src/sql.go\<close>, \<open>src/boolean.go\<close>
  and \<open>src/lob_inline.go\<close>, the text decoders of \<open>src/bidi_settings.go\<close>, the settings a result
  set is decoded with, and the column types \<open>queryRows\<close> reports to \<open>database/sql\<close>. The lemmas
  relate the two: a decoded value has the type the column reports.
\<close>

section \<open>Definitions\<close>

subsection \<open>Text with the bidi layout\<close>

text \<open>
  The layout functions of \<open>src/internal/bidi\<close>, applied to UTF-16 units of a CCSID with the
  properties of the connection's bidi settings.
\<close>

record bidiLayout =
  blToLogicalPadded :: "u16 list \<Rightarrow> int \<Rightarrow> bidiSettings \<Rightarrow> u16 list"
  blToHostPadded :: "u16 list \<Rightarrow> int \<Rightarrow> bidiSettings \<Rightarrow> u16 list"

definition IsConversionBidiCCSID :: "int \<Rightarrow> bool" where
  "IsConversionBidiCCSID cid \<longleftrightarrow>
     cid \<in> {420, 424, 425, 862, 864, 916, 1046, 1089, 1255, 1256, 5351, 8612, 12708, 62211, 62224, 62235, 62245, 62251}"

definition decodeTextWithBidi :: "tables \<Rightarrow> bidiLayout \<Rightarrow> bytes \<Rightarrow> int \<Rightarrow> bidiSettings \<Rightarrow> string res" where
  "decodeTextWithBidi fs bl data cid bs =
     (let ccsidID = textCCSID cid in
      if \<not> IsConversionBidiCCSID ccsidID then decodeTextByCCSID fs data cid
      else if data = [] then Inr []
      else res_bind (DecodeUnits fs data ccsidID) (\<lambda>units.
        Inr (string_of_runes (utf16_Decode (blToLogicalPadded bl units ccsidID bs)))))"

definition encodeTextWithBidi :: "tables \<Rightarrow> bidiLayout \<Rightarrow> string \<Rightarrow> int \<Rightarrow> bidiSettings \<Rightarrow> bytes res" where
  "encodeTextWithBidi fs bl txt0 cid bs =
     (let ccsidID = textCCSID cid in
      if \<not> IsConversionBidiCCSID ccsidID then encodeTextBytes fs txt0 cid
      else EncodeUnits fs (blToHostPadded bl (utf16_Encode (runes txt0)) ccsidID bs) ccsidID)"

subsection \<open>Pieces of a row\<close>

text \<open>A slice expression with \<open>int\<close> bounds.\<close>

definition int_slice :: "int \<Rightarrow> int \<Rightarrow> bytes \<Rightarrow> bytes res" where
  "int_slice i j xs = (if 0 \<le> i \<and> i \<le> j then sub_slice (nat i) (nat j) xs else Inl (Panic ''slice bounds out of range''))"

definition inlineLOBColumnData :: "columnMeta \<Rightarrow> bytes \<Rightarrow> bytes res" where
  "inlineLOBColumnData col raw =
     (if db2Type col \<notin> {db2TypeBlob, db2TypeClob, db2TypeDbclob} then Inr raw
      else if length raw < 4 then Inl (Errorf ''inline LOB value too short: %d bytes'' [FInt (int (length raw))])
      else
        let n = unat (Uint32 (take 4 raw)); len = (if db2Type col = db2TypeDbclob then n * 2 else n) in
        if len > length raw - 4
        then Inl (Errorf ''inline LOB length %d exceeds %d bytes'' [FInt (int len), FInt (int (length raw) - 4)])
        else Inr (slice 4 (4 + len) raw))"

definition booleanWireTrue :: byte where "booleanWireTrue = 0xF1"
definition booleanWireFalse :: byte where "booleanWireFalse = 0xF0"

definition decodeBooleanValue :: "bytes \<Rightarrow> driverValue res" where
  "decodeBooleanValue raw =
     (if length raw < 1 then Inl (Errorf ''BOOLEAN value requires 1 byte, got %d'' [FInt (int (length raw))])
      else Inr (VBool (hd raw \<noteq> booleanWireFalse)))"

text \<open>A two-byte length and the value; a length past the end is cut. \<open>unit\<close> is the size of a counted character.\<close>

definition varying :: "nat \<Rightarrow> bytes \<Rightarrow> bytes" where
  "varying unit raw =
     (let valueLen = unat (Uint16 (take 2 raw)) * unit; n = (if valueLen > length raw - 2 then length raw - 2 else valueLen) in
      slice 2 (2 + n) raw)"

definition XML_BOM :: string where
  "XML_BOM = [CHR 0xEF, CHR 0xBB, CHR 0xBF]"

definition TrimPrefix :: "string \<Rightarrow> string \<Rightarrow> string" where
  "TrimPrefix s p = (if HasPrefix s p then drop (length p) s else s)"

definition decodeLobTextValueWithBidi :: "tables \<Rightarrow> bidiLayout \<Rightarrow> bytes \<Rightarrow> columnMeta \<Rightarrow> bidiSettings \<Rightarrow> driverValue res" where
  "decodeLobTextValueWithBidi fs bl raw col bs =
     (if cCCSID col = 65535 then Inr (VBytes raw)
      else res_bind (decodeTextWithBidi fs bl raw (cCCSID col) bs) (\<lambda>s.
        Inr (VString (if db2Type col = db2TypeXML \<or> db2Type col = db2TypeXMLLocator then TrimPrefix s XML_BOM else s))))"

definition decodeFloat :: "bytes \<Rightarrow> driverValue res" where
  "decodeFloat raw =
     (if length raw = 4 then Inr (VFloat (word_of_nat (float32_to_64 (unat (Uint32 raw)))))
      else if length raw \<ge> 8 then Inr (VFloat (Uint64 (take 8 raw)))
      else Inl (Errorf ''floating point column too short'' []))"

text \<open>\<open>int64(intN(...))\<close> of the first bytes.\<close>

definition decodeInt :: "nat \<Rightarrow> string \<Rightarrow> bytes \<Rightarrow> driverValue res" where
  "decodeInt n what raw =
     (if length raw < n then Inl (Errorf (what @ '' column too short'') [])
      else Inr (VInt (if n = 8 then sint (Uint64 (take 8 raw)) else if n = 4 then sint (Uint32 (take 4 raw))
                      else sint (Uint16 (take 2 raw)))))"

subsection \<open>The decoder\<close>

definition str_value :: "string res \<Rightarrow> driverValue res" where
  "str_value r = res_bind r (\<lambda>s. Inr (VString s))"

definition decodeTimestampText :: "string \<Rightarrow> dateTimeSettings \<Rightarrow> driverValue" where
  "decodeTimestampText s dt =
     (if dtTimestampString dt then VString s
      else case parseIBMiTimestamp s of Inr t \<Rightarrow> VTime t | Inl _ \<Rightarrow> VString s)"

definition decodeByType ::
    "tables \<Rightarrow> bidiLayout \<Rightarrow> columnMeta \<Rightarrow> bytes \<Rightarrow> dateTimeSettings \<Rightarrow> bidiSettings \<Rightarrow> driverValue res" where
  "decodeByType fs bl col raw dt bs =
     (let t = db2Type col; ccsid = cCCSID col; trimmed = (\<lambda>f. res_bind (decodeTextByCCSID fs raw ccsid) (\<lambda>s. f (TrimSpace s))) in
      if t = db2TypeDate then trimmed (\<lambda>s. decodeDateText s dt)
      else if t = db2TypeTime then trimmed (\<lambda>s. decodeTimeText s dt)
      else if t = db2TypeTimestamp then trimmed (\<lambda>s. Inr (decodeTimestampText s dt))
      else if t = db2TypeChar then str_value (decodeTextWithBidi fs bl raw ccsid bs)
      else if t \<in> {db2TypeVarchar, db2TypeLongVarchar, db2TypeDatalink} then
        (if length raw < 2 then Inr (VString []) else str_value (decodeTextWithBidi fs bl (varying 1 raw) ccsid bs))
      else if t \<in> {db2TypeVarGraphic, db2TypeLongVarGraphic} then
        (if length raw < 2 then Inr (VString []) else str_value (decodeTextByCCSID fs (varying 2 raw) ccsid))
      else if t = db2TypeGraphic then str_value (decodeTextByCCSID fs raw ccsid)
      else if t = db2TypeDecimal then str_value (decodePackedDecimalString raw (cPrecision col) (cScale col))
      else if t = db2TypeNumeric then str_value (decodeZonedDecimalString raw (cPrecision col) (cScale col))
      else if t = db2TypeFloatingPoint then decodeFloat raw
      else if t = db2TypeBigint then decodeInt 8 ''bigint'' raw
      else if t = db2TypeInteger then decodeInt 4 ''integer'' raw
      else if t = db2TypeSmallint then decodeInt 2 ''smallint'' raw
      else if t \<in> {db2TypeVarbinary, db2TypeRowID} then
        Inr (VBytes (if length raw < 2 then [] else varying 1 raw))
      else if t \<in> {db2TypeBinary, db2TypeBlobLocator, db2TypeClobLocator, db2TypeDbclobLocator, db2TypeXMLLocator}
      then Inr (VBytes raw)
      else if t = db2TypeDecfloat then str_value (decodeDecfloat raw)
      else if t = db2TypeBoolean then decodeBooleanValue raw
      else if t = db2TypeBlob then Inr (VBytes raw)
      else if t \<in> {db2TypeClob, db2TypeDbclob, db2TypeXML} then decodeLobTextValueWithBidi fs bl raw col bs
      else (case decodeTextByCCSID fs raw ccsid of Inr s \<Rightarrow> Inr (VString s) | Inl _ \<Rightarrow> Inr (VBytes raw)))"

definition decodeColumnValueWithBidi ::
    "tables \<Rightarrow> bidiLayout \<Rightarrow> columnMeta \<Rightarrow> bytes \<Rightarrow> dateTimeSettings \<Rightarrow> bidiSettings \<Rightarrow> driverValue res" where
  "decodeColumnValueWithBidi fs bl col row dt bs =
     (let n = int (length row); offset = cOffset col in
      if n < offset then Inl (Errorf ''row offset out of range'' [])
      else if offset + cLength col > n \<and> offset > n then Inl (Errorf ''column offset out of range'' [])
      else
        let len = (if offset + cLength col > n then n - offset else cLength col) in
        res_bind (int_slice offset (offset + len) row) (\<lambda>field.
        res_bind (inlineLOBColumnData col field) (\<lambda>raw. decodeByType fs bl col raw dt bs)))"

definition decodeColumnValueWithSettings ::
    "tables \<Rightarrow> bidiLayout \<Rightarrow> columnMeta \<Rightarrow> bytes \<Rightarrow> dateTimeSettings \<Rightarrow> driverValue res" where
  "decodeColumnValueWithSettings fs bl col row dt = decodeColumnValueWithBidi fs bl col row dt defaultBidiSettings"

definition decodeColumnValue :: "tables \<Rightarrow> bidiLayout \<Rightarrow> columnMeta \<Rightarrow> bytes \<Rightarrow> driverValue res" where
  "decodeColumnValue fs bl col row = decodeColumnValueWithSettings fs bl col row defaultDateTimeSettings"

definition decodeLobTextValue :: "tables \<Rightarrow> bidiLayout \<Rightarrow> bytes \<Rightarrow> columnMeta \<Rightarrow> driverValue res" where
  "decodeLobTextValue fs bl raw col = decodeLobTextValueWithBidi fs bl raw col defaultBidiSettings"

subsection \<open>Settings of a connection and of a result set\<close>

text \<open>None is a nil connection.\<close>

definition dateTimeSettingsForConn :: "Conn option \<Rightarrow> dateTimeSettings" where
  "dateTimeSettingsForConn conn =
     (case conn of None \<Rightarrow> defaultDateTimeSettings | Some c \<Rightarrow> dateTimeSettingsFromConfig (cnCfg c))"

definition bidiSettingsForConn :: "Conn option \<Rightarrow> bidiSettings" where
  "bidiSettingsForConn conn =
     (case conn of None \<Rightarrow> defaultBidiSettings | Some c \<Rightarrow> bidiSettingsFromConfig (cnCfg c))"

definition serverVRMAtLeast :: "Conn option \<Rightarrow> int \<Rightarrow> bool" where
  "serverVRMAtLeast conn minimum =
     (case conn of
        None \<Rightarrow> False
      | Some c \<Rightarrow> (case cnSystemInfo c of None \<Rightarrow> False | Some si \<Rightarrow> syVersion si \<noteq> 0 \<and> syVersion si \<ge> minimum))"

definition storedProcDateTimeMinVRM :: int where "storedProcDateTimeMinVRM = 0x060100"

definition dateTimeSettingsFor :: "resultSetMeta option \<Rightarrow> Conn option \<Rightarrow> bool \<Rightarrow> dateTimeSettings" where
  "dateTimeSettingsFor m conn storedProc =
     (let dt = dateTimeSettingsForConn conn in
      case m of
        None \<Rightarrow> dt
      | Some meta \<Rightarrow>
          if storedProc \<and> rmHasDataFormat meta \<and> serverVRMAtLeast conn storedProcDateTimeMinVRM
          then dt\<lparr>dtDateFormat := rmDateFormat meta, dtTimeFormat := rmTimeFormat meta\<rparr> else dt)"

subsection \<open>Column types\<close>

text \<open>\<open>reflect.Type\<close>, as far as it is reported.\<close>

datatype goType = TTime | TString | TFloat64 | TInt64 | TBool | TByteSlice

definition columnScanType :: "columnMeta \<Rightarrow> goType" where
  "columnScanType col =
     (let t = db2Type col in
      if t \<in> {db2TypeDate, db2TypeTime, db2TypeTimestamp} then TTime
      else if t \<in> {db2TypeChar, db2TypeVarchar, db2TypeLongVarchar, db2TypeVarGraphic, db2TypeGraphic,
                   db2TypeLongVarGraphic, db2TypeDatalink} then TString
      else if t \<in> {db2TypeDecimal, db2TypeNumeric} then TString
      else if t = db2TypeFloatingPoint then TFloat64
      else if t \<in> {db2TypeBigint, db2TypeInteger, db2TypeSmallint} then TInt64
      else if t = db2TypeDecfloat then TString
      else if t = db2TypeBoolean then TBool
      else if t \<in> {db2TypeClob, db2TypeDbclob, db2TypeXML, db2TypeClobLocator, db2TypeDbclobLocator, db2TypeXMLLocator}
      then (if cCCSID col = 65535 then TByteSlice else TString)
      else TByteSlice)"

definition columnMetaAt :: "resultSetMeta option \<Rightarrow> int \<Rightarrow> columnMeta option" where
  "columnMetaAt m index =
     (case m of
        None \<Rightarrow> None
      | Some meta \<Rightarrow>
          if index < 0 \<or> index \<ge> int (length (rmColumns meta)) then None else Some (rmColumns meta ! nat index))"

definition rows_Columns :: "resultSetMeta option \<Rightarrow> string list" where
  "rows_Columns m = (case m of None \<Rightarrow> [] | Some meta \<Rightarrow> columnNames meta)"

definition ColumnTypeDatabaseTypeName :: "resultSetMeta option \<Rightarrow> int \<Rightarrow> string" where
  "ColumnTypeDatabaseTypeName m index =
     (case columnMetaAt m index of None \<Rightarrow> [] | Some col \<Rightarrow> databaseTypeName col)"

definition ColumnTypeScanType :: "resultSetMeta option \<Rightarrow> Conn option \<Rightarrow> int \<Rightarrow> goType option" where
  "ColumnTypeScanType m conn index =
     (case columnMetaAt m index of
        None \<Rightarrow> None
      | Some col \<Rightarrow>
          if db2Type col = db2TypeTimestamp \<and> dtTimestampString (dateTimeSettingsForConn conn) then Some TString
          else Some (columnScanType col))"

definition ColumnTypeNullable :: "resultSetMeta option \<Rightarrow> int \<Rightarrow> bool \<times> bool" where
  "ColumnTypeNullable m index =
     (case columnMetaAt m index of None \<Rightarrow> (False, False) | Some col \<Rightarrow> (nullable col, True))"

definition ColumnTypeLength :: "resultSetMeta option \<Rightarrow> int \<Rightarrow> int \<times> bool" where
  "ColumnTypeLength m index =
     (case columnMetaAt m index of
        None \<Rightarrow> (0, False)
      | Some col \<Rightarrow>
          if db2Type col \<in> {db2TypeDate, db2TypeTime, db2TypeTimestamp, db2TypeChar, db2TypeVarchar, db2TypeLongVarchar,
              db2TypeVarGraphic, db2TypeGraphic, db2TypeLongVarGraphic, db2TypeDatalink, db2TypeBinary, db2TypeVarbinary,
              db2TypeRowID, db2TypeBlob, db2TypeClob, db2TypeDbclob, db2TypeXML, db2TypeBlobLocator, db2TypeClobLocator,
              db2TypeDbclobLocator, db2TypeXMLLocator}
          then (if cLobMaxSize col > 0 then (cLobMaxSize col, True)
                else if cLength col \<ge> 0 then (cLength col, True) else (0, False))
          else (0, False))"

definition ColumnTypePrecisionScale :: "resultSetMeta option \<Rightarrow> int \<Rightarrow> int \<times> int \<times> bool" where
  "ColumnTypePrecisionScale m index =
     (case columnMetaAt m index of
        None \<Rightarrow> (0, 0, False)
      | Some col \<Rightarrow>
          if db2Type col \<in> {db2TypeDecimal, db2TypeNumeric, db2TypeDecfloat} then (cPrecision col, cScale col, True)
          else (0, 0, False))"

section \<open>Lemmas\<close>

fun value_type :: "driverValue \<Rightarrow> goType option" where
  "value_type (VInt _) = Some TInt64"
| "value_type (VFloat _) = Some TFloat64"
| "value_type (VBool _) = Some TBool"
| "value_type (VString _) = Some TString"
| "value_type (VBytes _) = Some TByteSlice"
| "value_type (VTime _) = Some TTime"
| "value_type _ = None"

definition known_types :: "int set" where
  "known_types = {db2TypeDate, db2TypeTime, db2TypeTimestamp, db2TypeChar, db2TypeVarchar, db2TypeLongVarchar,
     db2TypeDatalink, db2TypeVarGraphic, db2TypeLongVarGraphic, db2TypeGraphic, db2TypeDecimal, db2TypeNumeric,
     db2TypeFloatingPoint, db2TypeBigint, db2TypeInteger, db2TypeSmallint, db2TypeVarbinary, db2TypeRowID, db2TypeBinary,
     db2TypeBlobLocator, db2TypeDecfloat, db2TypeBoolean, db2TypeBlob, db2TypeClob, db2TypeDbclob, db2TypeXML}"

lemma str_value_type: "str_value r = Inr v \<Longrightarrow> value_type v = Some TString"
  by (auto simp: str_value_def res_bind_def split: sum.splits)

lemma decodeDateText_type: "decodeDateText s dt = Inr v \<Longrightarrow> value_type v = Some (if s = [] then TString else TTime)"
  by (auto simp: decodeDateText_def split: if_splits sum.splits)

lemma decodeTimeText_type: "decodeTimeText s dt = Inr v \<Longrightarrow> value_type v = Some (if s = [] then TString else TTime)"
  by (auto simp: decodeTimeText_def split: if_splits sum.splits)

lemma decodeTimestampText_type:
  "value_type (decodeTimestampText s dt) =
     Some (if dtTimestampString dt \<or> isl (parseIBMiTimestamp s) then TString else TTime)"
  by (auto simp: decodeTimestampText_def split: sum.splits)

lemma scalar_types:
  "decodeFloat raw = Inr v \<Longrightarrow> value_type v = Some TFloat64"
  "decodeInt n what raw = Inr v \<Longrightarrow> value_type v = Some TInt64"
  "decodeBooleanValue raw = Inr v \<Longrightarrow> value_type v = Some TBool"
  by (auto simp: decodeFloat_def decodeInt_def decodeBooleanValue_def split: if_splits)

lemma lobText_type:
  "decodeLobTextValueWithBidi fs bl raw col bs = Inr v \<Longrightarrow> value_type v = Some (if cCCSID col = 65535 then TByteSlice else TString)"
  by (auto simp: decodeLobTextValueWithBidi_def res_bind_def split: if_splits sum.splits)

text \<open>When a date, time or timestamp column is delivered as text.\<close>

definition text_instead :: "int \<Rightarrow> string \<Rightarrow> dateTimeSettings \<Rightarrow> bool" where
  "text_instead t s dt \<longleftrightarrow>
     (if t = db2TypeTimestamp then dtTimestampString dt \<or> isl (parseIBMiTimestamp s) else s = [])"

lemma decode_times_type:
  assumes "decodeByType fs bl col raw dt bs = Inr v" "db2Type col \<in> {db2TypeDate, db2TypeTime, db2TypeTimestamp}"
  shows "\<exists>s. decodeTextByCCSID fs raw (cCCSID col) = Inr s \<and>
    value_type v = Some (if text_instead (db2Type col) (TrimSpace s) dt then TString else TTime)"
proof -
  let ?r = "decodeTextByCCSID fs raw (cCCSID col)"
  consider "db2Type col = db2TypeDate" "res_bind ?r (\<lambda>s. decodeDateText (TrimSpace s) dt) = Inr v"
    | "db2Type col = db2TypeTime" "res_bind ?r (\<lambda>s. decodeTimeText (TrimSpace s) dt) = Inr v"
    | "db2Type col = db2TypeTimestamp" "res_bind ?r (\<lambda>s. Inr (decodeTimestampText (TrimSpace s) dt)) = Inr v"
    using assms unfolding decodeByType_def Let_def by (auto simp: db2_types split: if_splits)
  then show ?thesis
  proof cases
    case 1
    then obtain s where "?r = Inr s" "decodeDateText (TrimSpace s) dt = Inr v" by (auto simp: res_bind_def split: sum.splits)
    then show ?thesis using 1(1) decodeDateText_type by (intro exI [of _ s]) (auto simp: text_instead_def db2_types)
  next
    case 2
    then obtain s where "?r = Inr s" "decodeTimeText (TrimSpace s) dt = Inr v" by (auto simp: res_bind_def split: sum.splits)
    then show ?thesis using 2(1) decodeTimeText_type by (intro exI [of _ s]) (auto simp: text_instead_def db2_types)
  next
    case 3
    then show ?thesis by (auto simp: res_bind_def text_instead_def decodeTimestampText_type split: sum.splits)
  qed
qed

lemmas decoded_types = str_value_type scalar_types lobText_type

lemma decode_other_type:
  assumes "decodeByType fs bl col raw dt bs = Inr v"
    and "db2Type col \<in> known_types - {db2TypeDate, db2TypeTime, db2TypeTimestamp}"
  shows "value_type v = Some (columnScanType col)"
  using assms(2) unfolding known_types_def
  by (elim DiffE insertE emptyE; use assms(1) in \<open>simp add: decodeByType_def columnScanType_def db2_types split: if_splits\<close>;
      auto dest: decoded_types)

lemma decode_times_value:
  assumes "decodeByType fs bl col raw dt bs = Inr v" "db2Type col \<in> {db2TypeDate, db2TypeTime, db2TypeTimestamp}"
  shows "value_type v = Some TTime \<or> (\<exists>s. v = VString s \<and> text_instead (db2Type col) s dt)"
  using assms(2)
  by (elim insertE emptyE; use assms(1) in \<open>auto simp: decodeByType_def res_bind_def decodeDateText_def decodeTimeText_def
        decodeTimestampText_def text_instead_def db2_types Let_def split: sum.splits if_splits\<close>)

lemma column_value_raw:
  assumes "decodeColumnValueWithBidi fs bl col row dt bs = Inr v"
  shows "\<exists>raw. decodeByType fs bl col raw dt bs = Inr v"
  using assms by (auto simp: decodeColumnValueWithBidi_def Let_def res_bind_def split: if_splits sum.splits)

section \<open>Properties\<close>

text \<open>
  The value decoded from a column has the Go type that \<open>ColumnTypeScanType\<close> reports for it.
  The one exception is a date or time column whose text is empty, and a timestamp column that
  is configured to be delivered as text or whose text is not a timestamp: those are strings.
  Locators of character LOBs are not in the list of types, since the text is fetched for
  them before the row is delivered.
\<close>

theorem column_value_type:
  assumes "decodeColumnValueWithBidi fs bl col row dt bs = Inr v" "db2Type col \<in> known_types"
  shows "value_type v = Some (columnScanType col) \<or>
    db2Type col \<in> {db2TypeDate, db2TypeTime, db2TypeTimestamp} \<and> (\<exists>s. v = VString s \<and> text_instead (db2Type col) s dt)"
proof (cases "db2Type col \<in> {db2TypeDate, db2TypeTime, db2TypeTimestamp}")
  case True
  then have "columnScanType col = TTime" by (auto simp: columnScanType_def)
  then show ?thesis using column_value_raw [OF assms(1)] decode_times_value True by metis
next
  case False
  then show ?thesis using column_value_raw [OF assms(1)] decode_other_type assms(2) by blast
qed

theorem column_value_type_witness:
  "value_type (VInt 513) = Some (columnScanType (zeroColumn\<lparr>cType := 500, cLength := 2\<rparr>)) \<or>
   db2Type (zeroColumn\<lparr>cType := 500, cLength := 2\<rparr>) \<in> {db2TypeDate, db2TypeTime, db2TypeTimestamp} \<and>
     (\<exists>s. VInt 513 = VString s \<and> text_instead (db2Type (zeroColumn\<lparr>cType := 500, cLength := 2\<rparr>)) s defaultDateTimeSettings)"
proof (rule column_value_type)
  have t: "db2Type (zeroColumn\<lparr>cType := 500, cLength := 2\<rparr>) = db2TypeSmallint"
    by (simp add: db2Type_def db2_type_of_def zeroColumn_def db2_types)
  show "decodeColumnValueWithBidi [] bl (zeroColumn\<lparr>cType := 500, cLength := 2\<rparr>) [2, 1] defaultDateTimeSettings defaultBidiSettings = Inr (VInt 513)" for bl
    using t by (simp add: decodeColumnValueWithBidi_def int_slice_def slice_def inlineLOBColumnData_def decodeByType_def decodeInt_def
        zeroColumn_def Uint16_eq db2_types Let_def)
  show "db2Type (zeroColumn\<lparr>cType := 500, cLength := 2\<rparr>) \<in> known_types" unfolding t by (simp add: known_types_def)
qed

end
