(* ===== verification/Params.thy ===== *)
theory Params
  imports Sql Columns
begin

text \<open>
  Parameters: the conversion of argument values to the bytes of a parameter field
  (\<open>encodeParameterValue\<close> and the encoders of \<open>src/sql.go\<close>, \<open>src/boolean.go\<close>,
  \<open>src/lob_inline.go\<close>, \<open>src/decfloat_encode.go\<close>), the bindings of a statement
  (\<open>buildParameterBindingsWithBidi\<close>), and the assignment of output parameters. The lemmas show
  that a bound value is what a column of the same type decodes to, and which values are
  refused.
\<close>

section \<open>Definitions\<close>

text \<open>
  What the encoders use of \<open>strconv\<close> and \<open>fmt\<close> for floating point and for values of other types:
  \<open>FormatFloat\<close> with \<open>'f'\<close> and \<open>'g'\<close>, \<open>ParseFloat\<close>, and \<open>fmt.Sprint\<close>; and the character tables
  and layouts.
\<close>

record encoder =
  enTables :: tables
  enLayout :: bidiLayout
  enFormatF :: "u64 \<Rightarrow> string"
  enFormatG :: "u64 \<Rightarrow> string"
  enParseFloat :: "string \<Rightarrow> u64 res"
  enSprint :: "driverValue \<Rightarrow> string"

subsection \<open>Conversions of a value\<close>

fun parameterFieldValueString :: "encoder \<Rightarrow> driverValue \<Rightarrow> string" where
  "parameterFieldValueString en (VString s) = s"
| "parameterFieldValueString en (VBytes b) = map char_of_byte b"
| "parameterFieldValueString en (VInt i) = show_int i"
| "parameterFieldValueString en (VFloat f) = enFormatF en f"
| "parameterFieldValueString en (VBool b) = (if b then ''1'' else ''0'')"
| "parameterFieldValueString en (VTime t) = format_timestamp t"
| "parameterFieldValueString en v = enSprint en v"

definition format_date :: "go_time \<Rightarrow> string" where
  "format_date t = format_year (tYear t) @ ''-'' @ pad2 (tMonth t) @ ''-'' @ pad2 (tDay t)"

definition format_clock :: "go_time \<Rightarrow> string" where
  "format_clock t = pad2 (tHour t) @ ''.'' @ pad2 (tMinute t) @ ''.'' @ pad2 (tSecond t)"

definition parameterFieldDateText :: "encoder \<Rightarrow> driverValue \<Rightarrow> string" where
  "parameterFieldDateText en v = (case v of VTime t \<Rightarrow> format_date t | _ \<Rightarrow> parameterFieldValueString en v)"

definition parameterFieldTimeText :: "encoder \<Rightarrow> driverValue \<Rightarrow> string" where
  "parameterFieldTimeText en v = (case v of VTime t \<Rightarrow> format_clock t | _ \<Rightarrow> parameterFieldValueString en v)"

definition parameterFieldTimestampText :: "encoder \<Rightarrow> driverValue \<Rightarrow> string" where
  "parameterFieldTimestampText en v = (case v of VTime t \<Rightarrow> format_timestamp t | _ \<Rightarrow> parameterFieldValueString en v)"

text \<open>\<open>hex.DecodeString\<close> of text of even length.\<close>

definition hex_value :: "char \<Rightarrow> nat option" where
  "hex_value c =
     (let n = code c in
      if 48 \<le> n \<and> n \<le> 57 then Some (n - 48)
      else if 97 \<le> n \<and> n \<le> 102 then Some (n - 87)
      else if 65 \<le> n \<and> n \<le> 70 then Some (n - 55) else None)"

fun hex_decode :: "string \<Rightarrow> bytes res" where
  "hex_decode (a # b # s) =
     (case (hex_value a, hex_value b) of
        (Some x, Some y) \<Rightarrow> res_bind (hex_decode s) (\<lambda>bs. Inr (word_of_nat (x * 16 + y) # bs))
      | (None, _) \<Rightarrow> Inl (Errorf ''encoding/hex: invalid byte: %#U'' [FStr [a]])
      | (Some _, None) \<Rightarrow> Inl (Errorf ''encoding/hex: invalid byte: %#U'' [FStr [b]]))"
| "hex_decode _ = Inr []"

definition hexDigits :: "string \<Rightarrow> string res" where
  "hexDigits v =
     (let s = TrimSpace v in
      if HasPrefix s ''0x'' \<or> HasPrefix s ''0X'' then Inr (drop 2 s)
      else if length s > 2 \<and> (s ! 0 = CHR ''x'' \<or> s ! 0 = CHR ''X'') \<and> s ! 1 = quote then
        (if last s \<noteq> quote then Inl (Errorf ''invalid hex literal %q'' [FStr v]) else Inr (slice 2 (length s - 1) s))
      else Inr s)"

definition parameterFieldBinaryBytes :: "driverValue \<Rightarrow> bytes res" where
  "parameterFieldBinaryBytes value =
     (case value of
        VBytes b \<Rightarrow> Inr b
      | VString v \<Rightarrow>
          res_bind (hexDigits v) (\<lambda>s0.
            let s1 = filter (\<lambda>c. c \<noteq> CHR '' '') s0; s = (if odd (length s1) then CHR ''0'' # s1 else s1) in hex_decode s)
      | _ \<Rightarrow> Inl ErrBindingUnsupported)"

definition parameterFieldDecimalString :: "encoder \<Rightarrow> driverValue \<Rightarrow> string res" where
  "parameterFieldDecimalString en value =
     (case value of
        VString s \<Rightarrow> Inr (TrimSpace s)
      | VBytes b \<Rightarrow> Inr (TrimSpace (map char_of_byte b))
      | VInt i \<Rightarrow> Inr (show_int i)
      | VFloat f \<Rightarrow> Inr (enFormatF en f)
      | VBool b \<Rightarrow> Inr (if b then ''1'' else ''0'')
      | _ \<Rightarrow> Inl ErrBindingUnsupported)"

definition numericParameterError :: "encoder \<Rightarrow> driverValue \<Rightarrow> string \<Rightarrow> go_error \<Rightarrow> go_error" where
  "numericParameterError en value typeName err =
     (let s = parameterFieldValueString en value in
      if errors_Is err ErrInvalidNumericText \<or> errors_Is err ErrSyntax
      then Errorf (''parameter value %q is not a valid number for %s'') [FStr s, FStr typeName]
      else if errors_Is err ErrRange then Errorf ''parameter value %q out of range for %s'' [FStr s, FStr typeName]
      else err)"

subsection \<open>Integers\<close>

definition not_representable :: "string \<Rightarrow> string \<Rightarrow> go_error" where
  "not_representable what s = Errorf (''parameter value %q '' @ what) [FStr s]"

definition TrimLeftSet :: "char set \<Rightarrow> string \<Rightarrow> string" where
  "TrimLeftSet cs s = dropWhile (\<lambda>c. c \<in> cs) s"

text \<open>
  The exponent of integer text: \<open>None\<close> stands for the result of a zero with an exponent too
  large to represent, which is 0.
\<close>

definition integerExponent :: "string \<Rightarrow> string \<Rightarrow> string option \<Rightarrow> int option res" where
  "integerExponent s digits exponentText =
     (case exponentText of
        None \<Rightarrow> Inr (Some 0)
      | Some x \<Rightarrow>
          let body = TrimLeftSet {CHR ''+'', CHR ''-''} x in
          if body = [] \<or> length x - length body > 1 \<or> \<not> isASCIIDigits body then Inl ErrInvalidNumericText
          else
            let tooLarge = (if TrimChar (CHR ''0'') digits = [] then Inr None
                            else Inl (not_representable ''is not a representable integer'' s)) in
            (case ParseInt64 x of
               Inl _ \<Rightarrow> tooLarge
             | Inr e \<Rightarrow> if e > 100000 \<or> e < -100000 then tooLarge else Inr (Some e)))"

definition integerOfDigits :: "string \<Rightarrow> bool \<Rightarrow> string \<Rightarrow> int \<Rightarrow> int res" where
  "integerOfDigits s negative digits0 exp0 =
     (let digits1 = TrimLeft (CHR ''0'') digits0 in
      if digits1 = [] then Inr 0
      else
        let digits = TrimRight (CHR ''0'') digits1; exp = exp0 + int (length digits1 - length digits) in
        if exp < 0 then Inl (not_representable ''is not an integer'' s)
        else if int (length digits) + exp > 19 then Inl (not_representable ''out of range for 64-bit integer'' s)
        else
          let body = digits @ rep (nat exp) (CHR ''0'') in
          (case ParseInt64 (if negative then CHR ''-'' # body else body) of
             Inl _ \<Rightarrow> Inl (not_representable ''out of range for 64-bit integer'' s)
           | Inr v \<Rightarrow> Inr v))"

definition parameterFieldDecimalFloat :: "string \<Rightarrow> int res" where
  "parameterFieldDecimalFloat txt0 =
     (let s0 = TrimSpace txt0 in
      if s0 = [] then Inl ErrInvalidNumericText
      else
        let (negative, s) = splitSign s0;
            (mantissa, exponentText) =
              (case Index (\<lambda>c. c = CHR ''e'' \<or> c = CHR ''E'') s of
                 None \<Rightarrow> (s, None) | Some i \<Rightarrow> (take i s, Some (drop (i + 1) s)));
            (intPart, fracPart) = splitPoint mantissa in
        if (intPart = [] \<and> fracPart = []) \<or> \<not> isASCIIDigits intPart \<or> \<not> isASCIIDigits fracPart
        then Inl ErrInvalidNumericText
        else
          res_bind (integerExponent s (intPart @ fracPart) exponentText) (\<lambda>e.
            case e of
              None \<Rightarrow> Inr 0
            | Some exp \<Rightarrow> integerOfDigits s negative (intPart @ fracPart) (exp - int (length fracPart))))"

definition parameterFieldFloat64ToInt64 :: "encoder \<Rightarrow> u64 \<Rightarrow> int res" where
  "parameterFieldFloat64ToInt64 en v =
     (if \<not> f64_finite (unat v) then Inl (Errorf ''parameter value %v is not a finite number'' [FStr (enFormatG en v)])
      else case f64_int (unat v) of
        None \<Rightarrow> Inl (Errorf ''parameter value %v is not an integer'' [FStr (enFormatG en v)])
      | Some i \<Rightarrow>
          if i < - (2 ^ 63) \<or> i \<ge> 2 ^ 63
          then Inl (Errorf ''parameter value %v out of range for 64-bit integer'' [FStr (enFormatG en v)]) else Inr i)"

definition parameterFieldInt64 :: "encoder \<Rightarrow> driverValue \<Rightarrow> int res" where
  "parameterFieldInt64 en value =
     (case value of
        VInt i \<Rightarrow> Inr i
      | VFloat f \<Rightarrow> parameterFieldFloat64ToInt64 en f
      | VBool b \<Rightarrow> Inr (if b then 1 else 0)
      | VString s \<Rightarrow> parameterFieldDecimalFloat s
      | VBytes b \<Rightarrow> parameterFieldDecimalFloat (map char_of_byte b)
      | _ \<Rightarrow> Inl ErrBindingUnsupported)"

definition parameterFieldFloat64 :: "encoder \<Rightarrow> driverValue \<Rightarrow> u64 res" where
  "parameterFieldFloat64 en value =
     (case value of
        VFloat f \<Rightarrow> Inr f
      | VInt i \<Rightarrow> Inr (word_of_nat (float_of_int i))
      | VBool b \<Rightarrow> Inr (word_of_nat (float_of_int (if b then 1 else 0)))
      | VString s \<Rightarrow> enParseFloat en (TrimSpace s)
      | VBytes b \<Rightarrow> enParseFloat en (TrimSpace (map char_of_byte b))
      | _ \<Rightarrow> Inl ErrBindingUnsupported)"

text \<open>The low bytes of the number at the end of a buffer at least as long as they are.\<close>

definition right_aligned :: "int \<Rightarrow> bytes \<Rightarrow> bytes" where
  "right_aligned size0 bs = replicate (nat (max size0 (int (length bs))) - length bs) 0 @ bs"

definition encodeBigintParameter :: "encoder \<Rightarrow> driverValue \<Rightarrow> parameterMarkerField \<Rightarrow> bytes res" where
  "encodeBigintParameter en value field =
     (case parameterFieldInt64 en value of
        Inl e \<Rightarrow> Inl (numericParameterError en value ''BIGINT'' e)
      | Inr number \<Rightarrow> Inr (right_aligned (parameterFieldNullLength field) (bytesU64 (word_of_int number))))"

definition encodeIntegerParameter :: "encoder \<Rightarrow> driverValue \<Rightarrow> parameterMarkerField \<Rightarrow> bytes res" where
  "encodeIntegerParameter en value field =
     (case parameterFieldInt64 en value of
        Inl e \<Rightarrow> Inl (numericParameterError en value ''INTEGER'' e)
      | Inr number \<Rightarrow>
          if number < - (2 ^ 31) \<or> number > 2 ^ 31 - 1
          then Inl (Errorf ''parameter value %v out of range for INTEGER'' [FInt number])
          else Inr (right_aligned (parameterFieldNullLength field) (bytesU32 (word_of_int number))))"

definition encodeSmallintParameter :: "encoder \<Rightarrow> driverValue \<Rightarrow> parameterMarkerField \<Rightarrow> bytes res" where
  "encodeSmallintParameter en value field =
     (case parameterFieldInt64 en value of
        Inl e \<Rightarrow> Inl (numericParameterError en value ''SMALLINT'' e)
      | Inr number \<Rightarrow>
          if number < - (2 ^ 15) \<or> number > 2 ^ 15 - 1
          then Inl (Errorf ''parameter value %v out of range for SMALLINT'' [FInt number])
          else Inr (right_aligned (parameterFieldNullLength field) (bytesU16 (word_of_int number))))"

definition encodeFloatingPointParameter :: "encoder \<Rightarrow> driverValue \<Rightarrow> parameterMarkerField \<Rightarrow> bytes res" where
  "encodeFloatingPointParameter en value field =
     (case parameterFieldFloat64 en value of
        Inl e \<Rightarrow> Inl (numericParameterError en value (if pfLength field = 4 then ''REAL'' else ''DOUBLE'') e)
      | Inr number \<Rightarrow>
          Inr (if pfLength field = 4 then bytesU32 (word_of_nat (float64_to_32 (unat number))) else bytesU64 number))"

subsection \<open>Decimals\<close>

definition encodePackedOrZonedDecimalParameter :: "encoder \<Rightarrow> driverValue \<Rightarrow> parameterMarkerField \<Rightarrow> bool \<Rightarrow> bytes res" where
  "encodePackedOrZonedDecimalParameter en value field packed =
     res_bind (parameterFieldDecimalString en value) (\<lambda>s.
       case decimalTextDigits s (pfScale field) of
         Inl e \<Rightarrow> Inl (numericParameterError en value (if packed then ''DECIMAL'' else ''NUMERIC'') e)
       | Inr _ \<Rightarrow> encodeDecimalText s field packed)"

definition encodeDecfloatParameter :: "encoder \<Rightarrow> driverValue \<Rightarrow> parameterMarkerField \<Rightarrow> bytes res" where
  "encodeDecfloatParameter en value field =
     res_bind (decfloatParameterSize field) (\<lambda>sz.
     res_bind (case value of VFloat f \<Rightarrow> Inr (enFormatG en f) | _ \<Rightarrow> parameterFieldDecimalString en value) (\<lambda>s.
       case parseDecfloatText s of
         Inl _ \<Rightarrow> Inl (numericParameterError en value ''DECFLOAT'' ErrInvalidNumericText)
       | Inr _ \<Rightarrow> encodeDecfloat s sz))"

definition parseBooleanString :: "string \<Rightarrow> bool res" where
  "parseBooleanString s =
     (let w = ToLower (TrimSpace s) in
      if w = ''true'' \<or> w = ''1'' then Inr True
      else if w = ''false'' \<or> w = ''0'' then Inr False
      else Inl (Errorf ''invalid BOOLEAN parameter %q: want true, false, 1 or 0'' [FStr s]))"

definition encodeBooleanParameter :: "driverValue \<Rightarrow> bytes res" where
  "encodeBooleanParameter value =
     res_bind (case value of
         VBool b \<Rightarrow> Inr b | VInt i \<Rightarrow> Inr (i \<noteq> 0) | VString s \<Rightarrow> parseBooleanString s | _ \<Rightarrow> Inl ErrBindingUnsupported)
       (\<lambda>v. Inr [if v then booleanWireTrue else booleanWireFalse])"

subsection \<open>Text and binary\<close>

definition too_long :: "'a res" where
  "too_long = Inl (Errorf ''parameter value too long'' [])"

definition encodeFixedTextBytes :: "encoder \<Rightarrow> string \<Rightarrow> parameterMarkerField \<Rightarrow> bytes res" where
  "encodeFixedTextBytes en s field =
     res_bind (encodeTextWithBidi (enTables en) (enLayout en) s (pfCCSID field) (textBidi field)) (\<lambda>raw.
       if pfLength field \<le> 0 then Inr raw
       else if int (length raw) > pfLength field then too_long
       else Inr (fitTextBytesToLength (enTables en) raw (nat (pfLength field)) (pfCCSID field)))"

text \<open>A value with its two-byte length; \<open>unit\<close> is the number of bytes the length counts.\<close>

definition withLength :: "nat \<Rightarrow> parameterMarkerField \<Rightarrow> bytes \<Rightarrow> bytes res" where
  "withLength unit field raw =
     (if pfLength field > 0 \<and> int (length raw) + 2 > pfLength field then too_long
      else if length raw div unit > 65535 then Inl (Errorf ''parameter value too long for 2-byte length prefix'' [])
      else Inr (bytesU16 (word_of_nat (length raw div unit)) @ raw))"

definition encodeVarcharParameter :: "encoder \<Rightarrow> driverValue \<Rightarrow> parameterMarkerField \<Rightarrow> bytes res" where
  "encodeVarcharParameter en value field =
     res_bind (encodeTextWithBidi (enTables en) (enLayout en) (parameterFieldValueString en value) (pfCCSID field) (textBidi field))
       (withLength 1 field)"

definition encodeVarGraphicParameter :: "encoder \<Rightarrow> driverValue \<Rightarrow> parameterMarkerField \<Rightarrow> bytes res" where
  "encodeVarGraphicParameter en value field =
     res_bind (encodeTextBytes (enTables en) (parameterFieldValueString en value) (pfCCSID field)) (\<lambda>raw.
       if odd (length raw) then Inl (Errorf ''graphic parameter must encode to an even number of bytes'' [])
       else withLength 2 field raw)"

definition fitBytesToLength :: "bytes \<Rightarrow> int \<Rightarrow> byte \<Rightarrow> bytes" where
  "fitBytesToLength raw len pad = (if len \<le> 0 then raw else copy_into (replicate (nat len) pad) raw)"

definition encodeFixedBinaryParameter :: "driverValue \<Rightarrow> parameterMarkerField \<Rightarrow> bytes res" where
  "encodeFixedBinaryParameter value field =
     res_bind (parameterFieldBinaryBytes value) (\<lambda>raw. Inr (fitBytesToLength raw (pfLength field) 0x00))"

definition encodeVarbinaryParameter :: "driverValue \<Rightarrow> parameterMarkerField \<Rightarrow> bytes res" where
  "encodeVarbinaryParameter value field = res_bind (parameterFieldBinaryBytes value) (withLength 1 field)"

definition encodeTimestampParameter :: "encoder \<Rightarrow> driverValue \<Rightarrow> parameterMarkerField \<Rightarrow> bytes res" where
  "encodeTimestampParameter en value field =
     (let s = parameterFieldTimestampText en value in
      encodeFixedTextBytes en
        (if pfLength field > 0 \<and> int (length (runes s)) > pfLength field
         then string_of_runes (take (nat (pfLength field)) (runes s)) else s) field)"

subsection \<open>The encoder\<close>

definition encodeParameterValue :: "encoder \<Rightarrow> parameterMarkerField \<Rightarrow> driverValue \<Rightarrow> bool \<Rightarrow> bytes res" where
  "encodeParameterValue en field value isNull =
     (if isNull \<or> value = VNil then make_slice (parameterFieldNullLength field) 0
      else
        let t = parameterFieldDB2Type field; fixedText = (\<lambda>s. encodeFixedTextBytes en s field) in
        if t = db2TypeBigint then encodeBigintParameter en value field
        else if t = db2TypeInteger then encodeIntegerParameter en value field
        else if t = db2TypeSmallint then encodeSmallintParameter en value field
        else if t = db2TypeFloatingPoint then encodeFloatingPointParameter en value field
        else if t = db2TypeDecimal then encodePackedOrZonedDecimalParameter en value field True
        else if t = db2TypeNumeric then encodePackedOrZonedDecimalParameter en value field False
        else if t = db2TypeDate then fixedText (parameterFieldDateText en value)
        else if t = db2TypeTime then fixedText (parameterFieldTimeText en value)
        else if t = db2TypeTimestamp then encodeTimestampParameter en value field
        else if t = db2TypeBinary then encodeFixedBinaryParameter value field
        else if t \<in> {db2TypeVarbinary, db2TypeRowID} then encodeVarbinaryParameter value field
        else if t = db2TypeChar then fixedText (parameterFieldValueString en value)
        else if t \<in> {db2TypeVarchar, db2TypeLongVarchar, db2TypeDatalink} then encodeVarcharParameter en value field
        else if t \<in> {db2TypeVarGraphic, db2TypeLongVarGraphic} then encodeVarGraphicParameter en value field
        else if t = db2TypeGraphic then fixedText (parameterFieldValueString en value)
        else if t = db2TypeDecfloat then encodeDecfloatParameter en value field
        else if t = db2TypeBoolean then encodeBooleanParameter value
        else if t \<in> {db2TypeBlob, db2TypeClob, db2TypeDbclob, db2TypeXML, db2TypeBlobLocator, db2TypeClobLocator,
                     db2TypeDbclobLocator, db2TypeXMLLocator} then Inl ErrBindingUnsupported
        else fixedText (parameterFieldValueString en value))"

subsection \<open>LOB parameters\<close>

text \<open>The bytes of a LOB value and its length as the server counts it.\<close>

definition lobValueData :: "encoder \<Rightarrow> parameterMarkerField \<Rightarrow> driverValue \<Rightarrow> bool \<Rightarrow> (bytes \<times> nat) res" where
  "lobValueData en field value xml =
     (let t = parameterFieldDB2Type field;
          clob = encodeTextWithBidi (enTables en) (enLayout en) (parameterFieldValueString en value) (pfCCSID field) (textBidi field) in
      if t = db2TypeBlob then res_bind (parameterFieldBinaryBytes value) (\<lambda>d. Inr (d, length d))
      else if t = db2TypeClob \<or> (xml \<and> t = db2TypeXML) then res_bind clob (\<lambda>d. Inr (d, length d))
      else if t = db2TypeDbclob then res_bind clob (\<lambda>d. Inr (d, length d div 2))
      else Inl ErrBindingUnsupported)"

definition isInlineLOBParameterField :: "parameterMarkerField \<Rightarrow> bool" where
  "isInlineLOBParameterField field \<longleftrightarrow>
     \<not> (pfLOBLocator field > 0 \<or> pfLOBMaxSize field \<le> 0) \<and>
     parameterFieldDB2Type field \<in> {db2TypeBlob, db2TypeClob, db2TypeDbclob}"

definition encodeInlineLOBParameterValue :: "encoder \<Rightarrow> parameterMarkerField \<Rightarrow> driverValue \<Rightarrow> bool \<Rightarrow> bool \<Rightarrow> bytes res" where
  "encodeInlineLOBParameterValue en field value hasInputValue isNull =
     (let len = (if pfLength field \<le> 0 then pfLOBMaxSize field + 4 else pfLength field) in
      res_bind (make_slice len 0) (\<lambda>raw.
        if \<not> hasInputValue \<or> isNull \<or> value = VNil then Inr raw
        else res_bind (lobValueData en field value False) (\<lambda>(data, n).
          if int (length data) > len - 4
          then Inl (Errorf ''LOB value of %d bytes exceeds the inline maximum of %d bytes'' [FInt (int (length data)), FInt (len - 4)])
          else Inr (copy_into raw (bytesU32 (word_of_nat n) @ data)))))"

definition encodeLOBParameterValue ::
    "encoder \<Rightarrow> parameterMarkerField \<Rightarrow> driverValue \<Rightarrow> bool \<Rightarrow> bool \<Rightarrow> (bytes \<times> lobWriteRequest option) res" where
  "encodeLOBParameterValue en field value hasInputValue isNull =
     (if pfLOBLocator field \<le> 0 then
        (if isInlineLOBParameterField field
         then res_bind (encodeInlineLOBParameterValue en field value hasInputValue isNull) (\<lambda>raw. Inr (raw, None))
         else Inl ErrBindingUnsupported)
      else
        let handle = word_of_int (pfLOBLocator field) :: u32; raw = bytesU32 handle in
        if \<not> hasInputValue \<or> isNull \<or> value = VNil then Inr (raw, None)
        else res_bind (lobValueData en field value True) (\<lambda>(data, n).
          Inr (raw, Some \<lparr>lwLocatorHandle = handle, lwRequestedSize = int n, lwData = data\<rparr>)))"

subsection \<open>Bindings\<close>

text \<open>
  How an argument is bound: the value to send, whether it is NULL, whether there is an input
  value, and whether the marker has an output destination.
\<close>

definition outArgument :: "byte \<Rightarrow> outDest \<Rightarrow> bool \<Rightarrow> driverValue \<Rightarrow> (driverValue \<times> bool \<times> bool) res" where
  "outArgument mode dest isIn self =
     (let nilDest = Inl (Errorf ''sql.Out destination must not be nil'' []) in
      if dest = OutNil then nilDest
      else if dest = OutNotPointer then Inl (Errorf ''sql.Out destination must be a pointer'' [])
      else if mode = 0xF0 then Inl ErrBindingUnsupported
      else if mode = 0xF1 then Inr (VNil, False, False)
      else if mode = 0xF2 then
        (if isIn then (case dest of OutPointer v \<Rightarrow> Inr (v, False, True) | _ \<Rightarrow> nilDest)
         else Inr (VNil, True, False))
      else Inr (self, False, True))"

definition bindingError :: "nat \<Rightarrow> string \<Rightarrow> go_error \<Rightarrow> go_error" where
  "bindingError parameter operation err = BindingError (int parameter + 1) operation err"

definition binding_fail :: "nat \<Rightarrow> string \<Rightarrow> go_error \<Rightarrow> 'a res" where
  "binding_fail i op e = Inl (bindingError i op e)"

definition outOperation :: "byte \<Rightarrow> outDest \<Rightarrow> string" where
  "outOperation mode dest =
     (if mode = 0xF0 \<and> dest \<noteq> OutNil \<and> dest \<noteq> OutNotPointer then ''sql.Out mode'' else ''sql.Out'')"

definition bindParameter :: "encoder \<Rightarrow> bidiSettings \<Rightarrow> nat \<Rightarrow> parameterMarkerField \<Rightarrow> driverValue \<Rightarrow> parameterBinding res" where
  "bindParameter en bs i field0 arg =
     (let field = field0\<lparr>pfBidi := Some bs\<rparr>; mode = word_of_int (pfParameterType field AND 0xFF) :: byte in
      if mode \<notin> {0x00, 0xF0, 0xF1, 0xF2} then binding_fail i ''parameter mode'' ErrBindingUnsupported
      else case (case arg of
                   VOut dest isIn \<Rightarrow>
                     (case outArgument mode dest isIn arg of
                        Inl e \<Rightarrow> binding_fail i (outOperation mode dest) e
                      | Inr (v, isNull, hasInput) \<Rightarrow> Inr (v, isNull, hasInput, True))
                 | _ \<Rightarrow> Inr (arg, False, True, False)) of
        Inl e \<Rightarrow> Inl e
      | Inr (v, isNull, hasInput, hasOut) \<Rightarrow>
          if isLOBParameterField field then
            (case encodeLOBParameterValue en field v hasInput isNull of
               Inl e \<Rightarrow> binding_fail i ''LOB parameter'' e
             | Inr (raw, lobWrite) \<Rightarrow>
                 Inr \<lparr>pbField = field, pbRaw = raw, pbIsNull = isNull \<or> (hasInput \<and> v = VNil), pbHasOut = hasOut,
                      pbLobWrite = lobWrite\<rparr>)
          else
            (case (if hasInput \<and> \<not> isNull then ConvertValue v else Inr VNil) of
               Inl e \<Rightarrow> binding_fail i ''parameter conversion'' e
             | Inr normalized \<Rightarrow>
                 (case encodeParameterValue en field normalized (isNull \<or> normalized = VNil) of
                    Inl e \<Rightarrow> binding_fail i ''parameter encoding'' e
                  | Inr raw \<Rightarrow>
                      Inr \<lparr>pbField = field, pbRaw = raw, pbIsNull = hasInput \<and> (isNull \<or> normalized = VNil),
                           pbHasOut = hasOut, pbLobWrite = None\<rparr>)))"

fun bindFields :: "encoder \<Rightarrow> bidiSettings \<Rightarrow> nat \<Rightarrow> parameterMarkerField list \<Rightarrow> namedValue list \<Rightarrow> parameterBinding list res" where
  "bindFields en bs i (f # fs) (a # as) =
     res_bind (bindParameter en bs i f (nvValue a)) (\<lambda>b.
     res_bind (bindFields en bs (Suc i) fs as) (\<lambda>rest. Inr (b # rest)))"
| "bindFields en bs i _ _ = Inr []"

definition buildParameterBindingsWithBidi ::
    "encoder \<Rightarrow> parameterMarkerFormat option \<Rightarrow> namedValue list \<Rightarrow> bidiSettings \<Rightarrow> parameterBinding list res" where
  "buildParameterBindingsWithBidi en format args bs =
     (if args = [] then Inr []
      else case format of
        None \<Rightarrow> Inl ErrBindingUnsupported
      | Some m \<Rightarrow>
          if pmFields m = [] then Inl ErrBindingUnsupported
          else if length args \<noteq> length (pmFields m)
          then Inl (Errorf ''parameter count mismatch: got %d values for %d markers''
                 [FInt (int (length args)), FInt (int (length (pmFields m)))])
          else bindFields en bs 0 (pmFields m) args)"

subsection \<open>Output destinations\<close>

text \<open>
  The destination of an output parameter, by the kind of the variable it points to. A variable
  that implements \<open>Scan\<close> is given the value; for a variable of another type \<open>otherAssign\<close> is what
  \<open>AssignableTo\<close> and \<open>ConvertibleTo\<close> of the \<open>reflect\<close> package make of the value. The result is the
  value the variable gets.
\<close>

datatype destKind = KString | KBool | KInt nat | KUint nat | KFloat32 | KFloat64 | KBytes | KInterface | KTime | KOther string

datatype outTarget = TargetNil | TargetScanner | TargetNotPointer | TargetNilPointer | TargetPointer destKind

definition cannot_convert :: "string \<Rightarrow> 'a res" where
  "cannot_convert t = Inl (Errorf (''cannot convert %T to '' @ t) [])"

definition outputValueString :: "encoder \<Rightarrow> driverValue \<Rightarrow> string res" where
  "outputValueString en value =
     (case value of
        VString s \<Rightarrow> Inr s
      | VBytes b \<Rightarrow> Inr (map char_of_byte b)
      | VInt i \<Rightarrow> Inr (show_int i)
      | VFloat f \<Rightarrow> Inr (enFormatF en f)
      | VBool b \<Rightarrow> Inr (if b then ''true'' else ''false'')
      | _ \<Rightarrow> cannot_convert ''string'')"

definition ParseBool :: "string \<Rightarrow> bool res" where
  "ParseBool s =
     (if s \<in> {''1'', ''t'', ''T'', ''TRUE'', ''true'', ''True''} then Inr True
      else if s \<in> {''0'', ''f'', ''F'', ''FALSE'', ''false'', ''False''} then Inr False
      else Inl ErrSyntax)"

definition outputValueBool :: "driverValue \<Rightarrow> bool res" where
  "outputValueBool value =
     (case value of
        VBool b \<Rightarrow> Inr b
      | VInt i \<Rightarrow> Inr (i \<noteq> 0)
      | VString s \<Rightarrow> ParseBool (TrimSpace s)
      | VBytes b \<Rightarrow> ParseBool (TrimSpace (map char_of_byte b))
      | _ \<Rightarrow> cannot_convert ''bool'')"

text \<open>
  \<open>int64(v)\<close> of a \<open>float64\<close> drops the fraction. Out of range the language leaves the result to the
  implementation; it is the one of amd64.
\<close>

definition f64_trunc :: "nat \<Rightarrow> int" where
  "f64_trunc b =
     (let e = f64_exp b; n = (if e = 0 then f64_man b else 2 ^ 52 + f64_man b);
          m = (if e \<ge> 1075 then n * 2 ^ (e - 1075) else n div 2 ^ (1075 - e));
          v = (if f64_sign b = 1 then - int m else int m) in
      if e = 2047 \<or> v < - (2 ^ 63) \<or> v \<ge> 2 ^ 63 then - (2 ^ 63) else v)"

definition outputValueInt64 :: "driverValue \<Rightarrow> int res" where
  "outputValueInt64 value =
     (case value of
        VInt i \<Rightarrow> Inr i
      | VFloat f \<Rightarrow> Inr (f64_trunc (unat f))
      | VString s \<Rightarrow> ParseInt64 (TrimSpace s)
      | VBytes b \<Rightarrow> ParseInt64 (TrimSpace (map char_of_byte b))
      | _ \<Rightarrow> cannot_convert ''int64'')"

definition outputValueFloat64 :: "encoder \<Rightarrow> driverValue \<Rightarrow> u64 res" where
  "outputValueFloat64 en value =
     (case value of
        VFloat f \<Rightarrow> Inr f
      | VInt i \<Rightarrow> Inr (word_of_nat (float_of_int i))
      | VString s \<Rightarrow> enParseFloat en (TrimSpace s)
      | VBytes b \<Rightarrow> enParseFloat en (TrimSpace (map char_of_byte b))
      | _ \<Rightarrow> cannot_convert ''float64'')"

definition outputValueBytes :: "driverValue \<Rightarrow> bytes res" where
  "outputValueBytes value =
     (case value of
        VBytes b \<Rightarrow> Inr b | VString s \<Rightarrow> Inr (map byte_of_char s) | _ \<Rightarrow> cannot_convert ''[]byte'')"

text \<open>\<open>SetInt\<close> and \<open>SetUint\<close> keep the low bits of the number.\<close>

definition signed_bits :: "nat \<Rightarrow> int \<Rightarrow> int" where
  "signed_bits b i = (i + 2 ^ (b - 1)) mod 2 ^ b - 2 ^ (b - 1)"

definition zeroOf :: "destKind \<Rightarrow> driverValue" where
  "zeroOf k =
     (case k of
        KString \<Rightarrow> VString [] | KBool \<Rightarrow> VBool False | KInt _ \<Rightarrow> VInt 0 | KUint _ \<Rightarrow> VInt 0 | KFloat32 \<Rightarrow> VFloat32 0
      | KFloat64 \<Rightarrow> VFloat 0 | KBytes \<Rightarrow> VBytes [] | KInterface \<Rightarrow> VNil | KTime \<Rightarrow> VTime zeroTime | KOther t \<Rightarrow> VOther t)"

definition setKind :: "encoder \<Rightarrow> (string \<Rightarrow> driverValue \<Rightarrow> driverValue option) \<Rightarrow> destKind \<Rightarrow> driverValue \<Rightarrow> driverValue res" where
  "setKind en otherAssign kind value =
     (case kind of
        KInterface \<Rightarrow> Inr value
      | KString \<Rightarrow> res_bind (outputValueString en value) (\<lambda>s. Inr (VString s))
      | KBool \<Rightarrow> res_bind (outputValueBool value) (\<lambda>b. Inr (VBool b))
      | KInt n \<Rightarrow> res_bind (outputValueInt64 value) (\<lambda>i. Inr (VInt (signed_bits n i)))
      | KUint n \<Rightarrow> res_bind (outputValueInt64 value) (\<lambda>i. Inr (VInt (i mod 2 ^ n)))
      | KFloat32 \<Rightarrow> res_bind (outputValueFloat64 en value) (\<lambda>f. Inr (VFloat32 (word_of_nat (float64_to_32 (unat f)))))
      | KFloat64 \<Rightarrow> res_bind (outputValueFloat64 en value) (\<lambda>f. Inr (VFloat f))
      | KBytes \<Rightarrow> res_bind (outputValueBytes value) (\<lambda>b. Inr (VBytes b))
      | KTime \<Rightarrow> (case value of VTime t \<Rightarrow> Inr value | _ \<Rightarrow> Inl (Errorf ''unsupported sql.Out destination type %s'' [FStr ''time.Time'']))
      | KOther t \<Rightarrow>
          (case otherAssign t value of
             Some v \<Rightarrow> Inr v | None \<Rightarrow> Inl (Errorf ''unsupported sql.Out destination type %s'' [FStr t])))"

text \<open>\<open>None\<close> is a destination that is left alone; \<open>scan\<close> is the destination's own \<open>Scan\<close> method.\<close>

definition assignOutDestination ::
    "encoder \<Rightarrow> (driverValue \<Rightarrow> driverValue res) \<Rightarrow> (string \<Rightarrow> driverValue \<Rightarrow> driverValue option) \<Rightarrow> outTarget \<Rightarrow> driverValue \<Rightarrow> driverValue option res" where
  "assignOutDestination en scan otherAssign dest value =
     (case dest of
        TargetNil \<Rightarrow> Inr None
      | TargetScanner \<Rightarrow> res_bind (scan value) (\<lambda>v. Inr (Some v))
      | TargetNotPointer \<Rightarrow> Inl (Errorf ''sql.Out destination must be a non-nil pointer'' [])
      | TargetNilPointer \<Rightarrow> Inl (Errorf ''sql.Out destination must be a non-nil pointer'' [])
      | TargetPointer kind \<Rightarrow>
          if value = VNil then Inr (Some (zeroOf kind))
          else res_bind (setKind en otherAssign kind value) (\<lambda>v. Inr (Some v)))"

subsection \<open>Arguments from the caller\<close>

definition ErrSkip :: go_error where
  "ErrSkip = Errorf ''driver: skip fast-path; continue as if unimplemented'' []"

definition unsigned_name :: "string \<Rightarrow> bool" where
  "unsigned_name n \<longleftrightarrow> n \<in> {''uint'', ''uint8'', ''uint16'', ''uint32'', ''uint64''}"

text \<open>
  \<open>CheckNamedValue\<close>: the value of the argument afterwards. On an error the argument keeps its
  value; \<open>errors.Is(err, driver.ErrSkip)\<close> leaves the conversion to \<open>database/sql\<close>.
\<close>

definition checkInt :: "string \<Rightarrow> string \<Rightarrow> int \<Rightarrow> driverValue res" where
  "checkInt label name i =
     (if unsigned_name name \<and> i > 2 ^ 63 - 1 then Inl (Errorf (label @ '' value %d overflows int64'') [FInt i]) else Inr (VInt i))"

fun CheckNamedValue :: "driverValue \<Rightarrow> driverValue res" where
  "CheckNamedValue (VOut dest i) =
     (if dest = OutNil then Inl (Errorf ''sql.Out destination must not be nil'' []) else Inr (VOut dest i))"
| "CheckNamedValue (VGoInt name i) = checkInt name name i"
| "CheckNamedValue (VFloat32 w) = Inr (VFloat (float64_of_32 w))"
| "CheckNamedValue (VValuer r) = r"
| "CheckNamedValue (VNamed t v) =
     (case v of
        VInt i \<Rightarrow> Inr v
      | VGoInt name i \<Rightarrow> checkInt ''unsigned'' name i
      | VFloat f \<Rightarrow> Inr v
      | VFloat32 w \<Rightarrow> Inr (VFloat (float64_of_32 w))
      | VString s \<Rightarrow> Inr v
      | _ \<Rightarrow> Inl ErrSkip)"
| "CheckNamedValue (VPointer p) = Inl ErrSkip"
| "CheckNamedValue (VOther t) = Inl ErrSkip"
| "CheckNamedValue v = Inr v"

fun batchRow :: "nat \<Rightarrow> nat \<Rightarrow> driverValue list \<Rightarrow> namedValue list res" where
  "batchRow r i [] = Inr []"
| "batchRow r i (v # vs) =
     (case v of
        VOut _ _ \<Rightarrow> Inl (Errorf ''batch row %d: sql.Out is not supported in ExecBatch'' [FInt (int r)])
      | _ \<Rightarrow>
          let keep = (\<lambda>v'. res_bind (batchRow r (Suc i) vs) (\<lambda>rest.
                Inr (\<lparr>nvName = [], nvOrdinal = Suc i, nvValue = v'\<rparr> # rest))) in
          (case CheckNamedValue v of
             Inr v' \<Rightarrow> keep v'
           | Inl e \<Rightarrow>
               if errors_Is e ErrSkip then keep v
               else Inl (Wrap e ''batch row %d column %d: %w'' [FInt (int r), FInt (int i + 1)])))"

fun batchRows :: "nat \<Rightarrow> driverValue list list \<Rightarrow> namedValue list list res" where
  "batchRows r [] = Inr []"
| "batchRows r (row # rows) =
     res_bind (batchRow r 0 row) (\<lambda>a. res_bind (batchRows (Suc r) rows) (\<lambda>rest. Inr (a # rest)))"

definition batchNamedRows :: "driverValue list list \<Rightarrow> namedValue list list res" where
  "batchNamedRows rows = batchRows 0 rows"

section \<open>Lemmas\<close>

subsection \<open>Integer text\<close>

lemma splitPoint_parts:
  assumes "splitPoint m = (a, b)"
  shows "length a \<le> length m"
  using assms by (auto simp: splitPoint_def split: option.splits)

lemma TrimRight_split: "\<exists>k. s = TrimRight c s @ rep k c \<and> k = length s - length (TrimRight c s)"
  using TrimRight_zeros [of s c] by (metis add_diff_cancel_left' length_append length_rep)

text \<open>The number that digits, an exponent and a sign stand for, when it is an integer.\<close>

definition exact_integer :: "bool \<Rightarrow> nat \<Rightarrow> int \<Rightarrow> int \<Rightarrow> bool" where
  "exact_integer negative n exp i \<longleftrightarrow>
     (if exp \<ge> 0 then \<bar>i\<bar> = int n * 10 ^ nat exp else \<bar>i\<bar> * 10 ^ nat (- exp) = int n) \<and>
     (i > 0 \<longrightarrow> \<not> negative) \<and> (i < 0 \<longrightarrow> negative)"

lemma ParseInt64_body:
  assumes "ParseInt64 (if negative then CHR ''-'' # body else body) = Inr v" "isASCIIDigits body" "body \<noteq> []"
  shows "v = (if negative then - int (nat_of_digits body) else int (nat_of_digits body))"
  using assms isASCIIDigits_hd [OF assms(2,3)]
  by (auto simp: ParseInt64_def Let_def split: if_splits sum.splits dest!: parseUint64_loop_sound)

lemma integerOfDigits_exact:
  assumes "integerOfDigits s negative digits exp = Inr i" "isASCIIDigits digits"
  shows "exact_integer negative (nat_of_digits digits) exp i"
proof (cases "TrimLeft (CHR ''0'') digits = []")
  case True
  then have "nat_of_digits digits = 0"
    using nat_of_digits_TrimLeft [of digits] by simp
  moreover have "i = 0" using assms(1) True by (simp add: integerOfDigits_def)
  ultimately show ?thesis by (simp add: exact_integer_def)
next
  case False
  let ?d1 = "TrimLeft (CHR ''0'') digits"
  obtain k where k: "?d1 = TrimRight (CHR ''0'') ?d1 @ rep k (CHR ''0'')" "k = length ?d1 - length (TrimRight (CHR ''0'') ?d1)"
    using TrimRight_split by blast
  define d where "d = TrimRight (CHR ''0'') ?d1"
  have dig: "isASCIIDigits d" and n: "nat_of_digits digits = nat_of_digits d * 10 ^ k"
  proof -
    have "isASCIIDigits ?d1" using assms(2) by simp
    then show "isASCIIDigits d" by (subst (asm) k(1)) (simp add: d_def)
    have "nat_of_digits digits = nat_of_digits ?d1" by simp
    also have "\<dots> = nat_of_digits d * 10 ^ k" by (subst k(1)) (simp add: d_def)
    finally show "nat_of_digits digits = nat_of_digits d * 10 ^ k" .
  qed
  let ?body = "d @ rep (nat (exp + int k)) (CHR ''0'')"
  have e: "0 \<le> exp + int k"
    and p: "ParseInt64 (if negative then CHR ''-'' # ?body else ?body) = Inr i"
    using assms(1) False k(2) unfolding d_def [symmetric]
    by (auto simp: integerOfDigits_def Let_def d_def split: if_splits sum.splits)
  have ne: "?body \<noteq> []"
  proof
    assume "?body = []"
    with p show False by (cases negative) (simp_all add: ParseInt64_def)
  qed
  have v: "i = (if negative then - int (nat_of_digits d * 10 ^ nat (exp + int k)) else int (nat_of_digits d * 10 ^ nat (exp + int k)))"
    using ParseInt64_body [OF p _ ne] dig by simp
  have a: "\<bar>i\<bar> = int (nat_of_digits d) * 10 ^ nat (exp + int k)" unfolding v by simp
  define m where "m = nat_of_digits d * 10 ^ nat (exp + int k)"
  have sgn: "(i > 0 \<longrightarrow> \<not> negative) \<and> (i < 0 \<longrightarrow> negative)"
    unfolding v m_def [symmetric] by simp
  show ?thesis
  proof (cases "exp \<ge> 0")
    case True
    then have "nat (exp + int k) = k + nat exp" by (simp add: nat_add_distrib)
    then show ?thesis using True a sgn by (simp add: exact_integer_def n power_add)
  next
    case False
    then have "nat (exp + int k) + nat (- exp) = k" using e by simp
    then have "\<bar>i\<bar> * 10 ^ nat (- exp) = int (nat_of_digits digits)"
      unfolding a n by (metis mult.assoc of_nat_mult of_nat_numeral of_nat_power power_add)
    then show ?thesis using False sgn by (simp add: exact_integer_def)
  qed
qed

lemma last_TrimRight: "TrimRight c s \<noteq> [] \<Longrightarrow> last (TrimRight c s) \<noteq> c"
proof -
  assume "TrimRight c s \<noteq> []"
  then have "dropWhile (\<lambda>x. x = c) (rev s) \<noteq> []" by (simp add: TrimRight_def)
  from hd_dropWhile [OF this] show ?thesis by (simp add: TrimRight_def last_rev)
qed

lemma last_digit_mod:
  assumes "isASCIIDigits d" "d \<noteq> []"
  shows "nat_of_digits d mod 10 = digit_val (last d)"
proof -
  obtain x c where d: "d = x @ [c]" using assms(2) by (meson rev_exhaust)
  then show ?thesis using assms(1) digit_val_less [of c] by simp
qed

text \<open>What is left of the digits of a number without leading and trailing zeros.\<close>

lemma significant_digits:
  assumes "isASCIIDigits digits" "TrimLeft (CHR ''0'') digits \<noteq> []"
  defines "d1 \<equiv> TrimLeft (CHR ''0'') digits"
  defines "d \<equiv> TrimRight (CHR ''0'') d1"
  shows "isASCIIDigits d \<and> d \<noteq> [] \<and> nat_of_digits digits = nat_of_digits d * 10 ^ (length d1 - length d) \<and>
    10 ^ (length d - 1) \<le> nat_of_digits d \<and> \<not> 10 dvd nat_of_digits d"
proof -
  obtain k where k: "d1 = d @ rep k (CHR ''0'')" "k = length d1 - length d"
    using TrimRight_split [of d1 "CHR ''0''"] unfolding d_def by blast
  have hd1: "hd d1 \<noteq> CHR ''0''" using hd_dropWhile assms(2) unfolding d1_def TrimLeft_def by blast
  have dig: "isASCIIDigits d1" using assms(1) by (simp add: d1_def)
  then have digd: "isASCIIDigits d" by (subst (asm) k(1)) simp
  have ne: "d \<noteq> []"
  proof
    assume "d = []"
    then have "d1 = rep k (CHR ''0'')" "d1 \<noteq> []" using k(1) assms(2) by (simp_all add: d1_def)
    then show False using hd1 set_rep [of k "CHR ''0''"] hd_in_set [of d1] by fastforce
  qed
  have "nat_of_digits digits = nat_of_digits d1" by (simp add: d1_def)
  also have "\<dots> = nat_of_digits d * 10 ^ k" by (subst k(1)) simp
  finally have v: "nat_of_digits digits = nat_of_digits d * 10 ^ k" .
  have "hd d = hd d1" using ne by (subst k(1)) simp
  then have low: "10 ^ (length d - 1) \<le> nat_of_digits d" using leading_digit_lower [OF digd ne] hd1 by simp
  have "last d \<noteq> CHR ''0''" using last_TrimRight ne unfolding d_def by blast
  then have "digit_val (last d) \<noteq> 0" using digd ne digit_val_eq_0 [of "last d"] last_in_set [OF ne]
    by (auto simp: isASCIIDigits_def list_all_iff)
  then have "\<not> 10 dvd nat_of_digits d" using last_digit_mod [OF digd ne] by (simp add: dvd_eq_mod_eq_0)
  with digd ne v low k(2) show ?thesis by simp
qed

lemma ParseInt64_signed:
  assumes "isASCIIDigits body" "body \<noteq> []" "\<bar>i\<bar> = int (nat_of_digits body)"
    and "i > 0 \<longrightarrow> \<not> negative" "i < 0 \<longrightarrow> negative" "- (2 ^ 63) \<le> i" "i < 2 ^ 63"
  shows "ParseInt64 (if negative then CHR ''-'' # body else body) = Inr i"
proof (cases negative)
  case True
  then have "i = - int (nat_of_digits body)" using assms(3,4) by simp
  then show ?thesis using True ParseInt64_neg_digits [OF assms(1,2)] assms(6) by simp
next
  case False
  then have "i = int (nat_of_digits body)" using assms(3,5) by simp
  then show ?thesis using False ParseInt64_digits [OF assms(1,2)] assms(7) by simp
qed

lemma integerOfDigits_complete:
  assumes "exact_integer negative (nat_of_digits digits) exp i" "isASCIIDigits digits" "- (2 ^ 63) \<le> i" "i < 2 ^ 63"
  shows "integerOfDigits s negative digits exp = Inr i"
proof (cases "TrimLeft (CHR ''0'') digits = []")
  case True
  then have "nat_of_digits digits = 0" using nat_of_digits_TrimLeft [of digits] by simp
  then have "i = 0" using assms(1) by (auto simp: exact_integer_def split: if_splits)
  then show ?thesis using True by (simp add: integerOfDigits_def)
next
  case False
  define d1 where "d1 = TrimLeft (CHR ''0'') digits"
  define d where "d = TrimRight (CHR ''0'') d1"
  define k where "k = length d1 - length d"
  have D: "isASCIIDigits d" "d \<noteq> []" and v: "nat_of_digits digits = nat_of_digits d * 10 ^ k"
    and low: "10 ^ (length d - 1) \<le> nat_of_digits d" and nd: "\<not> 10 dvd nat_of_digits d"
    using significant_digits [OF assms(2) False] unfolding d1_def d_def k_def by auto
  have e: "0 \<le> exp + int k"
  proof (rule ccontr)
    assume n: "\<not> 0 \<le> exp + int k"
    define m where "m = nat (- exp) - Suc k"
    have m: "nat (- exp) = Suc m + k" using n by (simp add: m_def)
    have "\<bar>i\<bar> * 10 ^ nat (- exp) = int (nat_of_digits digits)" using assms(1) n by (simp add: exact_integer_def)
    then have "(\<bar>i\<bar> * 10 ^ Suc m) * 10 ^ k = int (nat_of_digits d) * 10 ^ k" unfolding v m by (simp add: power_add)
    then have "int (nat_of_digits d) = 10 * (\<bar>i\<bar> * 10 ^ m)" by simp
    then have "int 10 dvd int (nat_of_digits d)" by (simp only: of_nat_numeral dvd_triv_left)
    then show False using nd by (simp only: of_nat_dvd_iff)
  qed
  define x where "x = nat (exp + int k)"
  have a: "\<bar>i\<bar> = int (nat_of_digits d * 10 ^ x)"
  proof (cases "exp \<ge> 0")
    case True
    then have "x = k + nat exp" by (simp add: x_def nat_add_distrib)
    then show ?thesis using True assms(1) by (simp add: exact_integer_def v power_add)
  next
    case neg: False
    then have "k = x + nat (- exp)" using e by (simp add: x_def)
    moreover have "\<bar>i\<bar> * 10 ^ nat (- exp) = int (nat_of_digits d) * 10 ^ k" using neg assms(1) by (simp add: exact_integer_def v)
    ultimately show ?thesis by (simp add: power_add)
  qed
  have short: "length d + x \<le> 19"
  proof -
    have "int (10 ^ (length d - 1) * 10 ^ x) \<le> \<bar>i\<bar>" unfolding a by (intro of_nat_mono mult_le_mono1 low)
    also have "\<dots> < 10 ^ 19" using assms(3,4) by simp
    finally have "int (10 ^ (length d - 1 + x)) < int (10 ^ 19)" by (simp add: power_add)
    then have "(10::nat) ^ (length d - 1 + x) < 10 ^ 19" by (simp only: of_nat_less_iff)
    then have "length d - 1 + x < 19" by (rule power_less_imp_less_exp [rotated]) simp
    then show ?thesis using D(2) by (cases d) auto
  qed
  have "ParseInt64 (if negative then CHR ''-'' # (d @ rep x (CHR ''0'')) else d @ rep x (CHR ''0'')) = Inr i"
    using D a assms by (intro ParseInt64_signed) (simp_all add: exact_integer_def)
  then show ?thesis using False e short
    unfolding integerOfDigits_def Let_def d1_def [symmetric] d_def [symmetric] k_def [symmetric] x_def
    by (simp split: sum.splits)
qed

lemma integerOfDigits_range: "integerOfDigits s negative digits exp = Inr i \<Longrightarrow> - (2 ^ 63) \<le> i \<and> i < 2 ^ 63"
  by (auto simp: integerOfDigits_def Let_def dest: ParseInt64_range split: if_splits sum.splits)

lemma integerOfDigits_iff:
  "isASCIIDigits digits \<Longrightarrow>
   integerOfDigits s negative digits exp = Inr i \<longleftrightarrow>
     exact_integer negative (nat_of_digits digits) exp i \<and> - (2 ^ 63) \<le> i \<and> i < 2 ^ 63"
  using integerOfDigits_complete integerOfDigits_exact integerOfDigits_range by blast

text \<open>Integer text as a program may write it: a sign, digits with a point, and an exponent.\<close>

definition numeral_text :: "string \<Rightarrow> string \<Rightarrow> string \<Rightarrow> int option \<Rightarrow> string" where
  "numeral_text sign ip fp e =
     sign @ (ip @ (if fp = [] then [] else CHR ''.'' # fp)) @ (case e of None \<Rightarrow> [] | Some x \<Rightarrow> CHR ''E'' # show_int x)"

lemma Index_first: "\<forall>c \<in> set a. \<not> P c \<Longrightarrow> P x \<Longrightarrow> Index P (a @ x # b) = Some (length a)"
  by (simp add: Index_def)

lemma digit_not:
  assumes "isASCIIDigits s"
  shows "\<forall>c \<in> set s. c \<noteq> CHR ''.'' \<and> c \<noteq> CHR ''e'' \<and> c \<noteq> CHR ''E'' \<and> c \<noteq> CHR ''+'' \<and> c \<noteq> CHR ''-'' \<and> plain_char c"
  using assms is_digit_plain by (auto simp: isASCIIDigits_def list_all_iff is_digit_def)

lemma numeral_text_parts:
  assumes "sign \<in> {[], ''+'', ''-''}" "isASCIIDigits ip" "isASCIIDigits fp" "ip @ fp \<noteq> []"
  shows "TrimSpace (numeral_text sign ip fp e) = numeral_text sign ip fp e"
    and "splitSign (numeral_text sign ip fp e) = (sign = ''-'', numeral_text [] ip fp e)"
    and "numeral_text sign ip fp e \<noteq> []"
proof -
  define m where "m = ip @ (if fp = [] then [] else CHR ''.'' # fp)"
  define x where "x = (case e of None \<Rightarrow> [] | Some x \<Rightarrow> CHR ''E'' # show_int x)"
  have "plain_char (CHR ''.'')" by (simp add: plain_char_def)
  then have "\<forall>c \<in> set m. plain_char c \<and> c \<noteq> CHR ''+'' \<and> c \<noteq> CHR ''-''"
    using digit_not [OF assms(2)] digit_not [OF assms(3)] by (simp add: m_def ball_Un)
  moreover have ne: "m \<noteq> []" using assms(4) by (auto simp: m_def)
  ultimately have m: "m \<noteq> []" "plain_char (hd m)" "hd m \<noteq> CHR ''+''" "hd m \<noteq> CHR ''-''" "plain_char (last m)"
    using hd_in_set [OF ne] last_in_set [OF ne] by blast+
  have sn: "plain_char (last (show_nat n))" for n
    using digit_not [OF isASCIIDigits_show_nat] last_in_set [OF show_nat_nonempty] by blast
  have x: "x \<noteq> [] \<longrightarrow> plain_char (last x)"
    by (cases e) (simp_all add: x_def show_int_def sn)
  have t: "numeral_text sign ip fp e = sign @ m @ x" by (simp add: numeral_text_def m_def x_def)
  show "numeral_text sign ip fp e \<noteq> []" using m(1) by (simp add: t)
  show "TrimSpace (numeral_text sign ip fp e) = numeral_text sign ip fp e"
    unfolding t using m x assms(1) by (intro TrimSpace_plain) (auto simp: hd_append last_append plain_char_def)
  have "numeral_text [] ip fp e = m @ x" by (simp add: numeral_text_def m_def x_def)
  then show "splitSign (numeral_text sign ip fp e) = (sign = ''-'', numeral_text [] ip fp e)"
    unfolding t using m assms(1) by (auto simp: splitSign_def hd_append)
qed

lemma splitPoint_numeral:
  assumes "isASCIIDigits ip" "isASCIIDigits fp"
  shows "splitPoint (ip @ (if fp = [] then [] else CHR ''.'' # fp)) = (ip, fp)"
proof (cases "fp = []")
  case True
  have "Index (\<lambda>c. c = CHR ''.'') ip = None" using digit_not [OF assms(1)] by (simp add: Index_None)
  then show ?thesis using True by (simp add: splitPoint_def)
next
  case False
  have "Index (\<lambda>c. c = CHR ''.'') (ip @ CHR ''.'' # fp) = Some (length ip)"
    using digit_not [OF assms(1)] by (intro Index_first) auto
  then show ?thesis using False by (simp add: splitPoint_def)
qed

lemma integerExponent_numeral:
  assumes "\<bar>x\<bar> \<le> 100000"
  shows "integerExponent s digits (Some (show_int x)) = Inr (Some x)"
proof -
  have d: "dropWhile (\<lambda>c. c \<in> {CHR ''+'', CHR ''-''}) (show_nat n) = show_nat n" for n
    using digit_not [of "show_nat n"] hd_in_set [OF show_nat_nonempty] by (intro dropWhile_eq_self_iff [THEN iffD2]) auto
  have "TrimLeftSet {CHR ''+'', CHR ''-''} (show_int x) = show_nat (nat \<bar>x\<bar>)"
    using d [unfolded insert_iff] by (simp add: TrimLeftSet_def show_int_def)
  moreover have "length (show_int x) - length (show_nat (nat \<bar>x\<bar>)) \<le> 1" by (simp add: show_int_def)
  moreover have "ParseInt64 (show_int x) = Inr x" using assms by (intro ParseInt64_show_int) simp_all
  moreover have "\<not> (x > 100000 \<or> x < - 100000)" using assms by linarith
  ultimately show ?thesis by (simp add: integerExponent_def)
qed

lemma numeral_exponent_split:
  assumes "isASCIIDigits ip" "isASCIIDigits fp"
  defines "m \<equiv> ip @ (if fp = [] then [] else CHR ''.'' # fp)"
  shows "(case Index (\<lambda>c. c = CHR ''e'' \<or> c = CHR ''E'') (numeral_text [] ip fp e) of
            None \<Rightarrow> (numeral_text [] ip fp e, None)
          | Some i \<Rightarrow> (take i (numeral_text [] ip fp e), Some (drop (i + 1) (numeral_text [] ip fp e)))) =
         (m, map_option show_int e)"
proof -
  have m: "\<forall>c \<in> set m. \<not> (c = CHR ''e'' \<or> c = CHR ''E'')"
    using digit_not [OF assms(1)] digit_not [OF assms(2)] by (auto simp: m_def)
  show ?thesis
  proof (cases e)
    case None
    have "Index (\<lambda>c. c = CHR ''e'' \<or> c = CHR ''E'') m = None" using m by (simp add: Index_None)
    then show ?thesis using None by (simp add: numeral_text_def m_def [symmetric])
  next
    case (Some x)
    have "Index (\<lambda>c. c = CHR ''e'' \<or> c = CHR ''E'') (m @ CHR ''E'' # show_int x) = Some (length m)"
      using m by (intro Index_first) auto
    then show ?thesis using Some by (simp add: numeral_text_def m_def [symmetric])
  qed
qed

lemma parameterFieldDecimalFloat_numeral:
  assumes "sign \<in> {[], ''+'', ''-''}" "isASCIIDigits ip" "isASCIIDigits fp" "ip @ fp \<noteq> []"
    and "\<And>x. e = Some x \<Longrightarrow> \<bar>x\<bar> \<le> 100000"
  shows "parameterFieldDecimalFloat (numeral_text sign ip fp e) =
    integerOfDigits (numeral_text [] ip fp e) (sign = ''-'') (ip @ fp) ((case e of None \<Rightarrow> 0 | Some x \<Rightarrow> x) - int (length fp))"
proof -
  have x: "integerExponent s ds (map_option show_int e) = Inr (Some (case e of None \<Rightarrow> 0 | Some x \<Rightarrow> x))" for s ds
  proof (cases e)
    case None
    then show ?thesis by (simp add: integerExponent_def)
  next
    case (Some y)
    then show ?thesis using integerExponent_numeral [OF assms(5)] by simp
  qed
  show ?thesis
    unfolding parameterFieldDecimalFloat_def Let_def numeral_text_parts [OF assms(1-4)] prod.case
      numeral_exponent_split [OF assms(2,3)] splitPoint_numeral [OF assms(2,3)] x
    using assms(2-4) numeral_text_parts(3) [OF assms(1-4), of e] by (cases "ip = []") auto
qed

subsection \<open>Bound values and columns\<close>

lemmas column_evals = decodeColumnValueWithBidi_def int_slice_def inlineLOBColumnData_def Let_def

lemma decode_whole_row:
  assumes "cOffset col = 0" "cLength col = int (length raw)" "db2Type col \<notin> {db2TypeBlob, db2TypeClob, db2TypeDbclob}"
  shows "decodeColumnValueWithBidi fs bl col raw dt bs = decodeByType fs bl col raw dt bs"
  using assms by (simp add: column_evals slice_self)

lemma right_aligned_id: "size0 \<le> int (length bs) \<Longrightarrow> right_aligned size0 bs = bs"
  by (simp add: right_aligned_def)

lemma varying_prefix:
  assumes "length raw mod u = 0" "length raw div u < 65536" "0 < u"
  shows "varying u (bytesU16 (word_of_nat (length raw div u)) @ raw) = raw"
proof -
  have "unat (word_of_nat (length raw div u) :: u16) * u = length raw"
    using assms unat_word_of_nat_16 [of "length raw div u"] by auto
  then show ?thesis by (simp add: varying_def slice_append_right slice_self)
qed

lemma sint_of_int:
  "- (2 ^ 63) \<le> i \<Longrightarrow> i < 2 ^ 63 \<Longrightarrow> sint (word_of_int i :: u64) = i"
  "- (2 ^ 31) \<le> i \<Longrightarrow> i < 2 ^ 31 \<Longrightarrow> sint (word_of_int i :: u32) = i"
  "- (2 ^ 15) \<le> i \<Longrightarrow> i < 2 ^ 15 \<Longrightarrow> sint (word_of_int i :: u16) = i"
  by (simp_all add: signed_of_int signed_take_bit_int_eq_self)

text \<open>The values a parameter field carries without loss, by the type of the field.\<close>

definition carried :: "encoder \<Rightarrow> parameterMarkerField \<Rightarrow> driverValue \<Rightarrow> bool" where
  "carried en f v \<longleftrightarrow>
     (let t = parameterFieldDB2Type f; n = pfLength f;
          fits = (\<lambda>k. (0 < n \<longrightarrow> int k + 2 \<le> n) \<and> k < 65536) in
      case v of
        VInt i \<Rightarrow>
          (t = db2TypeBigint \<and> n \<le> 8 \<and> - (2 ^ 63) \<le> i \<and> i < 2 ^ 63) \<or>
          (t = db2TypeInteger \<and> n \<le> 4 \<and> - (2 ^ 31) \<le> i \<and> i < 2 ^ 31) \<or>
          (t = db2TypeSmallint \<and> n \<le> 2 \<and> - (2 ^ 15) \<le> i \<and> i < 2 ^ 15)
      | VBool b \<Rightarrow> t = db2TypeBoolean
      | VFloat x \<Rightarrow>
          t = db2TypeFloatingPoint \<and>
          (n = 4 \<longrightarrow> float64_to_32 (unat x) < 2 ^ 32 \<and> float32_to_64 (float64_to_32 (unat x)) = unat x)
      | VBytes b \<Rightarrow>
          (t \<in> {db2TypeVarbinary, db2TypeRowID} \<and> fits (length b)) \<or>
          (t = db2TypeBinary \<and> (0 < n \<longrightarrow> int (length b) = n))
      | VString s \<Rightarrow>
          t \<in> {db2TypeVarchar, db2TypeLongVarchar, db2TypeDatalink} \<and>
          \<not> IsConversionBidiCCSID (textCCSID (pfCCSID f)) \<and> text_ok (enTables en) (pfCCSID f) s \<and>
          (case encodeTextBytes (enTables en) s (pfCCSID f) of Inr raw \<Rightarrow> fits (length raw) | Inl _ \<Rightarrow> False)
      | _ \<Rightarrow> False)"

definition column_of_field :: "parameterMarkerField \<Rightarrow> bytes \<Rightarrow> columnMeta \<Rightarrow> bool" where
  "column_of_field f raw col \<longleftrightarrow>
     db2Type col = parameterFieldDB2Type f \<and> cCCSID col = pfCCSID f \<and> cOffset col = 0 \<and> cLength col = int (length raw)"

definition reads_back :: "encoder \<Rightarrow> parameterMarkerField \<Rightarrow> driverValue \<Rightarrow> bool" where
  "reads_back en f v \<longleftrightarrow>
     (\<exists>raw. encodeParameterValue en f v False = Inr raw \<and>
       (\<forall>col dt bs. column_of_field f raw col \<longrightarrow>
          decodeColumnValueWithBidi (enTables en) (enLayout en) col raw dt bs = Inr v))"

lemma reads_backI:
  assumes "encodeParameterValue en f v False = Inr raw"
    and "parameterFieldDB2Type f \<notin> {db2TypeBlob, db2TypeClob, db2TypeDbclob}"
    and "\<And>col dt bs. db2Type col = parameterFieldDB2Type f \<Longrightarrow> cCCSID col = pfCCSID f \<Longrightarrow>
           decodeByType (enTables en) (enLayout en) col raw dt bs = Inr v"
  shows "reads_back en f v"
  unfolding reads_back_def column_of_field_def using assms by (auto simp: decode_whole_row)

lemma integers_read_back:
  assumes "carried en f (VInt i)"
  shows "reads_back en f (VInt i)"
proof -
  consider "parameterFieldDB2Type f = db2TypeBigint" "pfLength f \<le> 8" "- (2 ^ 63) \<le> i" "i < 2 ^ 63"
    | "parameterFieldDB2Type f = db2TypeInteger" "pfLength f \<le> 4" "- (2 ^ 31) \<le> i" "i < 2 ^ 31"
    | "parameterFieldDB2Type f = db2TypeSmallint" "pfLength f \<le> 2" "- (2 ^ 15) \<le> i" "i < 2 ^ 15"
    using assms by (auto simp: carried_def Let_def)
  then show ?thesis
  proof cases
    case 1
    then show ?thesis
      by (intro reads_backI [where raw = "bytesU64 (word_of_int i)"])
         (simp_all add: encodeParameterValue_def encodeBigintParameter_def parameterFieldInt64_def right_aligned_id
            parameterFieldNullLength_def decodeByType_def decodeInt_def sint_of_int db2_types Let_def)
  next
    case 2
    then show ?thesis
      by (intro reads_backI [where raw = "bytesU32 (word_of_int i)"])
         (simp_all add: encodeParameterValue_def encodeIntegerParameter_def parameterFieldInt64_def right_aligned_id
            parameterFieldNullLength_def decodeByType_def decodeInt_def sint_of_int db2_types Let_def)
  next
    case 3
    then show ?thesis
      by (intro reads_backI [where raw = "bytesU16 (word_of_int i)"])
         (simp_all add: encodeParameterValue_def encodeSmallintParameter_def parameterFieldInt64_def right_aligned_id
            parameterFieldNullLength_def decodeByType_def decodeInt_def sint_of_int db2_types Let_def)
  qed
qed

lemma bytes_read_back:
  assumes "carried en f (VBytes b)"
  shows "reads_back en f (VBytes b)"
proof -
  consider "parameterFieldDB2Type f \<in> {db2TypeVarbinary, db2TypeRowID}"
      "0 < pfLength f \<longrightarrow> int (length b) + 2 \<le> pfLength f" "length b < 65536"
    | "parameterFieldDB2Type f = db2TypeBinary" "0 < pfLength f \<longrightarrow> int (length b) = pfLength f"
    using assms by (auto simp: carried_def Let_def)
  then show ?thesis
  proof cases
    case 1
    have v: "varying (Suc 0) (bytesU16 (word_of_nat (length b)) @ b) = b" using varying_prefix [of b 1] 1(3) by simp
    have e: "encodeParameterValue en f (VBytes b) False = withLength 1 f b"
      using 1(1) by (elim insertE emptyE) (simp_all add: encodeParameterValue_def encodeVarbinaryParameter_def
          parameterFieldBinaryBytes_def db2_types Let_def)
    show ?thesis
    proof (rule reads_backI)
      show "encodeParameterValue en f (VBytes b) False = Inr (bytesU16 (word_of_nat (length b)) @ b)"
        using 1(2,3) unfolding e by (auto simp: withLength_def)
    qed (use 1(1) in \<open>elim insertE emptyE; simp add: decodeByType_def db2_types v Let_def\<close>)+
  next
    case 2
    then show ?thesis
      by (intro reads_backI [where raw = b])
         (auto simp: encodeParameterValue_def encodeFixedBinaryParameter_def parameterFieldBinaryBytes_def
            fitBytesToLength_def decodeByType_def db2_types Let_def intro!: copy_into_same)
  qed
qed

lemma text_reads_back:
  assumes "carried en f (VString s)"
  shows "reads_back en f (VString s)"
proof -
  have t: "parameterFieldDB2Type f \<in> {db2TypeVarchar, db2TypeLongVarchar, db2TypeDatalink}"
    and nb: "\<not> IsConversionBidiCCSID (textCCSID (pfCCSID f))" and ok: "text_ok (enTables en) (pfCCSID f) s"
    using assms by (auto simp: carried_def Let_def)
  obtain b where b: "encodeTextBytes (enTables en) s (pfCCSID f) = Inr b" "decodeTextByCCSID (enTables en) b (pfCCSID f) = Inr s"
    using ctext.round_trip [OF ok] by blast
  have fits: "0 < pfLength f \<longrightarrow> int (length b) + 2 \<le> pfLength f" "length b < 65536"
    using assms b(1) by (auto simp: carried_def Let_def)
  have v: "varying (Suc 0) (bytesU16 (word_of_nat (length b)) @ b) = b" using varying_prefix [of b 1] fits(2) by simp
  have e: "encodeParameterValue en f (VString s) False = withLength 1 f b"
    using t nb b(1) by (elim insertE emptyE) (simp_all add: encodeParameterValue_def encodeVarcharParameter_def
        encodeTextWithBidi_def db2_types Let_def)
  show ?thesis
  proof (rule reads_backI)
    show "encodeParameterValue en f (VString s) False = Inr (bytesU16 (word_of_nat (length b)) @ b)"
      using fits unfolding e by (auto simp: withLength_def)
  qed (use t nb b(2) in \<open>elim insertE emptyE; simp add: decodeByType_def decodeTextWithBidi_def str_value_def db2_types v Let_def\<close>)+
qed

lemma scalars_read_back:
  "carried en f (VBool b) \<Longrightarrow> reads_back en f (VBool b)"
  "carried en f (VFloat x) \<Longrightarrow> reads_back en f (VFloat x)"
proof -
  assume "carried en f (VBool b)"
  then show "reads_back en f (VBool b)"
    by (intro reads_backI [where raw = "[if b then booleanWireTrue else booleanWireFalse]"])
       (simp_all add: carried_def encodeParameterValue_def encodeBooleanParameter_def decodeByType_def decodeBooleanValue_def
          booleanWireTrue_def booleanWireFalse_def db2_types Let_def)
next
  assume c: "carried en f (VFloat x)"
  have u: "unat (word_of_nat n :: u32) = n" if "n < 2 ^ 32" for n by (rule unat_word_of_nat_32 [OF that])
  show "reads_back en f (VFloat x)"
  proof (cases "pfLength f = 4")
    case True
    then show ?thesis using c u [of "float64_to_32 (unat x)"]
      by (intro reads_backI [where raw = "bytesU32 (word_of_nat (float64_to_32 (unat x)))"])
         (simp_all add: carried_def encodeParameterValue_def encodeFloatingPointParameter_def parameterFieldFloat64_def
            decodeByType_def decodeFloat_def db2_types Let_def)
  next
    case False
    then show ?thesis using c
      by (intro reads_backI [where raw = "bytesU64 x"])
         (simp_all add: carried_def encodeParameterValue_def encodeFloatingPointParameter_def parameterFieldFloat64_def
            decodeByType_def decodeFloat_def db2_types Let_def)
  qed
qed

subsection \<open>Output integers\<close>

lemma signed_bits_range: "0 < n \<Longrightarrow> - (2 ^ (n - 1)) \<le> signed_bits n i \<and> signed_bits n i < 2 ^ (n - 1)"
proof -
  assume n: "0 < n"
  have "(2::int) ^ n = 2 ^ (n - 1) + 2 ^ (n - 1)" using n by (cases n) simp_all
  moreover have "0 \<le> (i + 2 ^ (n - 1)) mod 2 ^ n" "(i + 2 ^ (n - 1)) mod 2 ^ n < (2::int) ^ n" by simp_all
  ultimately show ?thesis unfolding signed_bits_def by linarith
qed

lemma signed_bits_iff: "0 < n \<Longrightarrow> signed_bits n i = i \<longleftrightarrow> - (2 ^ (n - 1)) \<le> i \<and> i < 2 ^ (n - 1)"
proof
  assume "0 < n" "signed_bits n i = i"
  then show "- (2 ^ (n - 1)) \<le> i \<and> i < 2 ^ (n - 1)" using signed_bits_range [of n i] by simp
next
  assume n: "0 < n" and r: "- (2 ^ (n - 1)) \<le> i \<and> i < 2 ^ (n - 1)"
  have "(2::int) ^ n = 2 ^ (n - 1) + 2 ^ (n - 1)" using n by (cases n) simp_all
  then have "(i + 2 ^ (n - 1)) mod 2 ^ n = i + 2 ^ (n - 1)" using r by (intro mod_pos_pos_trivial) linarith+
  then show "signed_bits n i = i" by (simp add: signed_bits_def)
qed

section \<open>Properties\<close>

definition example_field :: "int \<Rightarrow> int \<Rightarrow> parameterMarkerField" where
  "example_field t n = \<lparr>pfName = ''P'', pfSQLType = t, pfLength = n, pfScale = 0, pfPrecision = 0, pfCCSID = 37,
     pfParameterType = 0xF0, pfLOBLocator = 0, pfLOBMaxSize = 0, pfBidi = None\<rparr>"

definition example_encoder :: encoder where
  "example_encoder = \<lparr>enTables = [], enLayout = \<lparr>blToLogicalPadded = \<lambda>u _ _. u, blToHostPadded = \<lambda>u _ _. u\<rparr>,
     enFormatF = \<lambda>_. ''0'', enFormatG = \<lambda>_. ''0'', enParseFloat = \<lambda>_. Inl ErrSyntax, enSprint = \<lambda>_. []\<rparr>"



text \<open>
  C8. A value that its parameter field can carry (an integer in the range of the type, a
  boolean, a floating point number, bytes and text that fit the length) is encoded without an
  error, and a result column of the same type decodes the bytes to that value.
\<close>

theorem bound_value_reads_back:
  assumes "carried en f v"
  shows "\<exists>raw. encodeParameterValue en f v False = Inr raw \<and>
    (\<forall>col dt bs. column_of_field f raw col \<longrightarrow>
       decodeColumnValueWithBidi (enTables en) (enLayout en) col raw dt bs = Inr v)"
proof -
  have "reads_back en f v"
    using assms integers_read_back bytes_read_back text_reads_back scalars_read_back
    by (cases v) (auto simp: carried_def Let_def)
  then show ?thesis by (simp only: reads_back_def)
qed

theorem bound_value_reads_back_witness:
  "\<exists>raw. encodeParameterValue example_encoder (example_field 501 2) (VInt (- 300)) False = Inr raw \<and>
    (\<forall>col dt bs. column_of_field (example_field 501 2) raw col \<longrightarrow>
       decodeColumnValueWithBidi (enTables example_encoder) (enLayout example_encoder) col raw dt bs = Inr (VInt (- 300)))"
  by (rule bound_value_reads_back)
     (simp add: carried_def example_field_def parameterFieldDB2Type_def db2_type_of_def db2_types Let_def)

text \<open>
  An integer delivered to an output variable of an integer type of \<open>n\<close> bits is stored as
  it is exactly when it fits the variable; otherwise the variable gets its low bits and no
  error is reported.
\<close>

theorem output_integer_wraps:
  assumes "0 < n"
  shows "(assignOutDestination en scan other (TargetPointer (KInt n)) (VInt i) = Inr (Some (VInt i)) \<longleftrightarrow>
      - (2 ^ (n - 1)) \<le> i \<and> i < 2 ^ (n - 1)) \<and>
    (assignOutDestination en scan other (TargetPointer (KUint n)) (VInt i) = Inr (Some (VInt i)) \<longleftrightarrow>
      0 \<le> i \<and> i < 2 ^ n) \<and>
    (\<exists>j. assignOutDestination en scan other (TargetPointer (KInt n)) (VInt i) = Inr (Some (VInt j)) \<and>
      j mod 2 ^ n = i mod 2 ^ n \<and> - (2 ^ (n - 1)) \<le> j \<and> j < 2 ^ (n - 1))"
proof (intro conjI)
  let ?a = "\<lambda>k. assignOutDestination en scan other (TargetPointer k) (VInt i)"
  have s: "?a (KInt n) = Inr (Some (VInt (signed_bits n i)))" "?a (KUint n) = Inr (Some (VInt (i mod 2 ^ n)))"
    by (simp_all add: assignOutDestination_def setKind_def outputValueInt64_def)
  show "?a (KInt n) = Inr (Some (VInt i)) \<longleftrightarrow> - (2 ^ (n - 1)) \<le> i \<and> i < 2 ^ (n - 1)"
    using signed_bits_iff [OF assms, of i] by (simp add: s)
  have "i mod 2 ^ n = i \<longleftrightarrow> 0 \<le> i \<and> i < 2 ^ n"
    by (metis mod_pos_pos_trivial pos_mod_bound pos_mod_sign zero_less_numeral zero_less_power)
  then show "?a (KUint n) = Inr (Some (VInt i)) \<longleftrightarrow> 0 \<le> i \<and> i < 2 ^ n" by (simp add: s)
  have "signed_bits n i mod 2 ^ n = i mod 2 ^ n" unfolding signed_bits_def by (simp add: mod_diff_left_eq)
  then show "\<exists>j. ?a (KInt n) = Inr (Some (VInt j)) \<and> j mod 2 ^ n = i mod 2 ^ n \<and> - (2 ^ (n - 1)) \<le> j \<and> j < 2 ^ (n - 1)"
    using signed_bits_range [OF assms, of i] by (simp add: s)
qed

theorem output_integer_wraps_witness:
  "(0::nat) < 8 \<and>
   assignOutDestination example_encoder Inr (\<lambda>_ _. None) (TargetPointer (KInt 8)) (VInt 300) \<noteq> Inr (Some (VInt 300))"
  using output_integer_wraps [of 8 example_encoder Inr "\<lambda>_ _. None" 300] by simp

end
