(* ===== verification/Delivery.thy ===== *)
theory Delivery
  imports Driver Params
begin

text \<open>
  The components together: the operations of a connection with the value conversions of this
  development in place of the conversions they are parameterized by. A row that \<open>Next\<close> delivers
  has values of the types that the result set reports.
\<close>

section \<open>Definitions\<close>

text \<open>
  What remains a parameter: the layout of bidirectional statement text and names, and the
  assignment of an output parameter to the variable of the application.
\<close>

definition driverLibrary ::
    "encoder \<Rightarrow> (Conn \<Rightarrow> string \<Rightarrow> string) \<Rightarrow> (Conn \<Rightarrow> string \<Rightarrow> int \<Rightarrow> string) \<Rightarrow> (parameterBinding \<Rightarrow> driverValue \<Rightarrow> unit res) \<Rightarrow>
     (int \<Rightarrow> int) \<Rightarrow> library" where
  "driverLibrary en bidiSQL bidiName assign ceil =
     \<lparr>lbTables = enTables en, lbBidiSQL = bidiSQL, lbBidiName = bidiName,
      lbBind = buildParameterBindingsWithBidi en,
      lbDecode = (\<lambda>c col row. decodeColumnValueWithBidi (enTables en) (enLayout en) col row
                    (dateTimeSettingsForConn (Some c)) (bidiSettingsForConn (Some c))),
      lbLobText = (\<lambda>c data col. decodeLobTextValueWithBidi (enTables en) (enLayout en) data col (bidiSettingsForConn (Some c))),
      lbAssign = assign, lbCeilSeconds = ceil\<rparr>"

text \<open>The decoder of the columns of a result set, as \<open>decodeCurrentRow\<close> calls it.\<close>

definition rowDecoder :: "encoder \<Rightarrow> queryRows \<Rightarrow> Conn \<Rightarrow> columnMeta \<Rightarrow> bytes \<Rightarrow> driverValue res" where
  "rowDecoder en r c col row =
     decodeColumnValueWithBidi (enTables en) (enLayout en) col row
       (dateTimeSettingsFor (Some (qrMeta r)) (Some c) (qrStoredProc r)) (bidiSettingsForConn (Some c))"

definition deliverNext :: "encoder \<Rightarrow> library \<Rightarrow> nat \<Rightarrow> queryRows \<Rightarrow> Conn \<Rightarrow> driverValue list rows_result option" where
  "deliverNext en lib n r c = rowsNext (rowDecoder en r c) lib n r c"

section \<open>Lemmas\<close>

definition text_locators :: "int set" where
  "text_locators = {db2TypeClobLocator, db2TypeDbclobLocator, db2TypeXMLLocator}"

text \<open>
  A value of a column: NULL, a value of the reported type, the text of a date or time that is
  delivered as text, or the text or bytes of a character LOB.
\<close>

definition value_of_column :: "dateTimeSettings \<Rightarrow> columnMeta \<Rightarrow> driverValue \<Rightarrow> bool" where
  "value_of_column dt col v \<longleftrightarrow>
     v = VNil \<or> value_type v = Some (columnScanType col) \<or>
     (db2Type col \<in> {db2TypeDate, db2TypeTime, db2TypeTimestamp} \<and> (\<exists>s. v = VString s \<and> text_instead (db2Type col) s dt)) \<or>
     (db2Type col \<in> text_locators \<and> value_type v \<in> {Some TString, Some TByteSlice})"

lemma decoded_value:
  assumes "decodeColumnValueWithBidi fs bl col row dt bs = Inr v" "db2Type col \<in> known_types \<union> text_locators"
  shows "value_of_column dt col v"
proof -
  obtain raw where raw: "decodeByType fs bl col raw dt bs = Inr v" using column_value_raw [OF assms(1)] by blast
  consider "db2Type col \<in> {db2TypeDate, db2TypeTime, db2TypeTimestamp}" | "db2Type col \<in> text_locators"
    | "db2Type col \<in> known_types - {db2TypeDate, db2TypeTime, db2TypeTimestamp}" using assms(2) by blast
  then show ?thesis
  proof cases
    case 1
    then have "columnScanType col = TTime" by (auto simp: columnScanType_def)
    then show ?thesis using decode_times_value [OF raw 1] 1 unfolding value_of_column_def by auto
  next
    case 2
    then have "v = VBytes raw" unfolding text_locators_def
      by (elim insertE emptyE; use raw in \<open>simp add: decodeByType_def db2_types\<close>)
    then show ?thesis using 2 by (simp add: value_of_column_def)
  next
    case 3
    then show ?thesis using decode_other_type [OF raw] by (simp add: value_of_column_def)
  qed
qed

lemma blob_locator_type: "db2Type col = db2TypeBlobLocator \<Longrightarrow> columnScanType col = TByteSlice"
  by (simp add: columnScanType_def db2_types)

lemma resolved_cases:
  assumes "resolveLobLocatorValue lib ctx col v c = (Inr w, d)"
    and "db2Type col \<in> insert db2TypeBlobLocator text_locators"
  shows "w = v \<or> (if db2Type col \<in> text_locators then w = VString [] \<or> (\<exists>c1 bs. lbLobText lib c1 bs col = Inr w)
     else \<exists>bs. w = VBytes bs)"
proof -
  have t: "db2Type col = db2TypeClobLocator \<or> db2Type col = db2TypeDbclobLocator \<or> db2Type col = db2TypeXMLLocator \<longleftrightarrow>
      db2Type col \<in> text_locators" by (auto simp: text_locators_def)
  have l: "db2Type col \<in> {db2TypeBlobLocator, db2TypeClobLocator, db2TypeDbclobLocator, db2TypeXMLLocator}"
    using assms(2) by (auto simp: text_locators_def)
  show ?thesis using assms(1) l
    unfolding resolveLobLocatorValue_def t
    by (auto simp: act_simps1 act_bind_Inr Let_def split: driverValue.split_asm if_split_asm)
       (auto simp: act_simps1 act_bind_Inr split: sum.split_asm if_split_asm)
qed

lemma resolved_value:
  assumes "resolveLobLocatorValue (driverLibrary en bsql bname assign ceil) ctx col v c = (Inr w, d)" "value_of_column dt col v"
  shows "value_of_column dt col w"
proof (cases "db2Type col \<in> insert db2TypeBlobLocator text_locators")
  case False
  then have "w = v" using assms(1) by (simp add: resolveLobLocatorValue_def text_locators_def act_simps1)
  then show ?thesis using assms(2) by simp
next
  case True
  from resolved_cases [OF assms(1) True] show ?thesis
    using True assms(2) blob_locator_type [of col] lobText_type
    by (fastforce simp: value_of_column_def driverLibrary_def split: if_splits)
qed

lemma decodeColumns_values:
  assumes "\<And>col row v. col \<in> set cols \<Longrightarrow> decode col row = Inr v \<Longrightarrow> P col v" "\<And>col. P col VNil"
    and "\<And>ctx col v c w d. P col v \<Longrightarrow> resolveLobLocatorValue lib ctx col v c = (Inr w, d) \<Longrightarrow> P col w"
    and "decodeColumns decode lib ctx nulls k row cols c = (Inr vs, d)"
  shows "list_all2 P cols vs"
  using assms(1,4)
proof (induction cols arbitrary: k vs c d)
  case (Cons col cols)
  from Cons.prems(2) have "\<exists>v c1 vs' c2.
      ((\<exists>x. decode col row = Inr x \<and> resolveLobLocatorValue lib ctx col x c = (Inr v, c1)) \<or> v = VNil) \<and>
      decodeColumns decode lib ctx nulls (k + 1) row cols c1 = (Inr vs', c2) \<and> vs = v # vs'"
    by (auto simp: act_bind_Inr act_simps1 split: if_splits sum.splits)
  then obtain v c1 vs' c2 where
    v: "(\<exists>x. decode col row = Inr x \<and> resolveLobLocatorValue lib ctx col x c = (Inr v, c1)) \<or> v = VNil"
    and rest: "decodeColumns decode lib ctx nulls (k + 1) row cols c1 = (Inr vs', c2)" "vs = v # vs'" by blast
  have "P col x" if "decode col row = Inr x" for x using Cons.prems(1) that by simp
  then have "P col v" using v assms(2,3) by blast
  moreover have "list_all2 P cols vs'" using Cons.IH [of "k + 1" c1 vs' c2] Cons.prems(1) rest(1) by simp
  ultimately show ?case using rest(2) by simp
qed (simp add: act_simps1)

lemma takeRow_values:
  assumes "\<And>c vs d. decodeCurrentRow decode lib r c = (Inr vs, d) \<Longrightarrow> Q vs" "takeRow decode lib r b c = (Inr vs, r1, c1)"
  shows "Q vs"
  using assms by (auto simp: takeRow_def failRows_Inl Let_def split: prod.splits sum.splits)

lemma nextRow_values:
  assumes "\<And>r1 c1 vs d. qrMeta r1 = qrMeta r \<Longrightarrow> decodeCurrentRow decode lib r1 c1 = (Inr vs, d) \<Longrightarrow> Q vs"
    and "nextRow decode lib r c = (Inr vs, r2, c2)"
  shows "Q vs"
proof -
  have t: "qrMeta r1 = qrMeta r \<Longrightarrow> takeRow decode lib r1 b c1 = (Inr vs, r2, c2) \<Longrightarrow> Q vs" for r1 b c1
    using takeRow_values [of decode lib r1 Q] assms(1) by blast
  have e: "endResultSet lib r1 c1 \<noteq> (Inr vs, r2, c2)" for r1 c1
    by (auto simp: endResultSet_def Let_def split: prod.splits)
  have f: "fetchBlockStep lib r c = (Inr (Some b), r1, c1) \<Longrightarrow>
      takeRow decode lib (r1\<lparr>qrBlock := Some b, qrRowIndex := 0\<rparr>) b c1 = (Inr vs, r2, c2) \<Longrightarrow> Q vs" for b r1 c1
    by (rule t [of "r1\<lparr>qrBlock := Some b, qrRowIndex := 0\<rparr>" b c1]) (simp_all add: fetchBlockStep_meta)
  show ?thesis using assms(2) e t [OF refl] f
    by (auto simp: nextRow_def loadRow_def split: option.splits if_splits prod.splits sum.splits)
qed

section \<open>Properties\<close>


definition smallintRows :: queryRows where
  "smallintRows = exampleRows\<lparr>qrMeta := exampleMeta\<lparr>rmColumns := [zeroColumn\<lparr>cType := 500, cLength := 2\<rparr>]\<rparr>,
     qrBlock := Some (exampleBlock\<lparr>fbRowSize := 2, fbData := [2, 1, 0, 0]\<rparr>)\<rparr>"

lemma smallint_next:
  "\<exists>r' c'. deliverNext example_encoder lib 1 smallintRows (exampleConn []) = Some (Inr [VInt 513], r', c')"
proof -
  have t: "db2Type (zeroColumn\<lparr>cType := 500, cLength := 2\<rparr>) = db2TypeSmallint"
    by (simp add: db2Type_def db2_type_of_def zeroColumn_def db2_types)
  have d: "decodeColumnValueWithBidi fs bl (zeroColumn\<lparr>cType := 500, cLength := 2\<rparr>) [2, 1] dt bs = Inr (VInt 513)" for fs bl dt bs
    using t by (simp add: decodeColumnValueWithBidi_def int_slice_def slice_def inlineLOBColumnData_def decodeByType_def decodeInt_def
        zeroColumn_def Uint16_eq db2_types Let_def)
  have row: "decodeCurrentRow (rowDecoder example_encoder smallintRows (exampleConn [])) lib smallintRows (exampleConn []) =
      (Inr [VInt 513], exampleConn [])"
    using t d by (simp add: decodeCurrentRow_def smallintRows_def example_simps act_bind_def act_simps1 slice_def rowDecoder_def
        resolveLobLocatorValue_def db2_types Let_def)
  have "rowsNext (rowDecoder example_encoder smallintRows (exampleConn [])) lib 1 smallintRows (exampleConn []) =
      Some (nextRow (rowDecoder example_encoder smallintRows (exampleConn [])) lib smallintRows (exampleConn []))"
    by (simp add: rowsNext_def nextLoop_eq smallintRows_def example_simps)
  moreover have "nextRow (rowDecoder example_encoder smallintRows (exampleConn [])) lib smallintRows (exampleConn []) =
      takeRow (rowDecoder example_encoder smallintRows (exampleConn [])) lib smallintRows
        (exampleBlock\<lparr>fbRowSize := 2, fbData := [2, 1, 0, 0]\<rparr>) (exampleConn [])"
    by (simp add: nextRow_def smallintRows_def example_simps)
  ultimately show ?thesis unfolding deliverNext_def takeRow_def row by (simp add: Let_def)
qed


end
