(* ===== verification/BidiFlags.thy ===== *)
theory BidiFlags
  imports GoStrings "HOL-Library.Word"
begin

unbundle bit_operations_syntax

text \<open>
  The attributes of bidirectional text (\<open>src/internal/bidi/flags.go\<close>,
  \<open>src/internal/bidi/arabicoptions.go\<close>): flag sets and option sets as the 32-bit values the
  source keeps, their constructors, the text form of a flag set and its parser. The lemmas
  show that setting one attribute leaves the others alone and that the text form is read back.
\<close>

section \<open>Definitions\<close>

subsection \<open>Flags\<close>

record BidiFlag =
  flValue :: int
  flMask :: int

definition typeMask :: int where "typeMask = 0x03000000"
definition itypeImplicit :: int where "itypeImplicit = 0x01000000"
definition itypeVisual :: int where "itypeVisual = 0x03000000"
definition orientationMask :: int where "orientationMask = 0x00700000"
definition iorientationLTR :: int where "iorientationLTR = 0x00100000"
definition iorientationRTL :: int where "iorientationRTL = 0x00300000"
definition iorientationContextLTR :: int where "iorientationContextLTR = 0x00500000"
definition iorientationContextRTL :: int where "iorientationContextRTL = 0x00700000"
definition swapMask :: int where "swapMask = 0x00030000"
definition iswapYes :: int where "iswapYes = 0x00010000"
definition iswapNo :: int where "iswapNo = 0x00030000"
definition numeralsMask :: int where "numeralsMask = 0x00000700"
definition inumeralsNominal :: int where "inumeralsNominal = 0x00000100"
definition inumeralsNational :: int where "inumeralsNational = 0x00000300"
definition inumeralsContextual :: int where "inumeralsContextual = 0x00000500"
definition inumeralsAny :: int where "inumeralsAny = 0x00000700"
definition textMask :: int where "textMask = 0x0000000F"
definition itextNominal :: int where "itextNominal = 0x00000001"
definition itextShaped :: int where "itextShaped = 0x00000003"
definition itextInitial :: int where "itextInitial = 0x00000005"
definition itextMiddle :: int where "itextMiddle = 0x00000007"
definition itextFinal :: int where "itextFinal = 0x00000009"
definition itextIsolated :: int where "itextIsolated = 0x0000000B"

definition bidiFlagSetDefault :: int where
  "bidiFlagSetDefault = itypeImplicit OR iorientationLTR OR iswapYes OR inumeralsNominal OR itextNominal"

lemmas flag_values =
  typeMask_def itypeImplicit_def itypeVisual_def orientationMask_def iorientationLTR_def iorientationRTL_def
  iorientationContextLTR_def iorientationContextRTL_def swapMask_def iswapYes_def iswapNo_def numeralsMask_def
  inumeralsNominal_def inumeralsNational_def inumeralsContextual_def inumeralsAny_def textMask_def itextNominal_def
  itextShaped_def itextInitial_def itextMiddle_def itextFinal_def itextIsolated_def

definition typeImplicit :: BidiFlag where "typeImplicit = \<lparr>flValue = itypeImplicit, flMask = typeMask\<rparr>"
definition typeVisual :: BidiFlag where "typeVisual = \<lparr>flValue = itypeVisual, flMask = typeMask\<rparr>"
definition orientationLTR :: BidiFlag where "orientationLTR = \<lparr>flValue = iorientationLTR, flMask = orientationMask\<rparr>"
definition orientationRTL :: BidiFlag where "orientationRTL = \<lparr>flValue = iorientationRTL, flMask = orientationMask\<rparr>"
definition orientationContextLTR :: BidiFlag where
  "orientationContextLTR = \<lparr>flValue = iorientationContextLTR, flMask = orientationMask\<rparr>"
definition orientationContextRTL :: BidiFlag where
  "orientationContextRTL = \<lparr>flValue = iorientationContextRTL, flMask = orientationMask\<rparr>"
definition swapYes :: BidiFlag where "swapYes = \<lparr>flValue = iswapYes, flMask = swapMask\<rparr>"
definition swapNo :: BidiFlag where "swapNo = \<lparr>flValue = iswapNo, flMask = swapMask\<rparr>"
definition numeralsNominal :: BidiFlag where "numeralsNominal = \<lparr>flValue = inumeralsNominal, flMask = numeralsMask\<rparr>"
definition numeralsNational :: BidiFlag where "numeralsNational = \<lparr>flValue = inumeralsNational, flMask = numeralsMask\<rparr>"
definition numeralsContextual :: BidiFlag where
  "numeralsContextual = \<lparr>flValue = inumeralsContextual, flMask = numeralsMask\<rparr>"
definition numeralsAny :: BidiFlag where "numeralsAny = \<lparr>flValue = inumeralsAny, flMask = numeralsMask\<rparr>"
definition textNominal :: BidiFlag where "textNominal = \<lparr>flValue = itextNominal, flMask = textMask\<rparr>"
definition textShaped :: BidiFlag where "textShaped = \<lparr>flValue = itextShaped, flMask = textMask\<rparr>"
definition textInitial :: BidiFlag where "textInitial = \<lparr>flValue = itextInitial, flMask = textMask\<rparr>"
definition textMiddle :: BidiFlag where "textMiddle = \<lparr>flValue = itextMiddle, flMask = textMask\<rparr>"
definition textFinal :: BidiFlag where "textFinal = \<lparr>flValue = itextFinal, flMask = textMask\<rparr>"
definition textIsolated :: BidiFlag where "textIsolated = \<lparr>flValue = itextIsolated, flMask = textMask\<rparr>"

lemmas flag_defs =
  typeImplicit_def typeVisual_def orientationLTR_def orientationRTL_def orientationContextLTR_def orientationContextRTL_def
  swapYes_def swapNo_def numeralsNominal_def numeralsNational_def numeralsContextual_def numeralsAny_def
  textNominal_def textShaped_def textInitial_def textMiddle_def textFinal_def textIsolated_def

text \<open>A flag set is its value; the pointers of the source are values here, since every set is copied before it is changed.\<close>

type_synonym BidiFlagSet = int

definition ErrIllegalArgument :: go_error where
  "ErrIllegalArgument = Errorf ''bidi: illegal argument'' []"

definition NewBidiFlagSet :: BidiFlagSet where
  "NewBidiFlagSet = bidiFlagSetDefault"

definition NewBidiFlagSetFromFlag :: "BidiFlag \<Rightarrow> BidiFlagSet" where
  "NewBidiFlagSetFromFlag flag = flValue flag OR bidiFlagSetDefault"

text \<open>The values joined one after the other; a common bit is an error.\<close>

fun joinFlags :: "int \<Rightarrow> BidiFlag list \<Rightarrow> int res" where
  "joinFlags v [] = Inr v"
| "joinFlags v (f # fs) = (if v AND flValue f \<noteq> 0 then Inl ErrIllegalArgument else joinFlags (v OR flValue f) fs)"

definition NewBidiFlagSetFromFlags :: "BidiFlag list \<Rightarrow> BidiFlagSet res" where
  "NewBidiFlagSetFromFlags flags =
     (case flags of
        [] \<Rightarrow> Inl ErrIllegalArgument
      | f # fs \<Rightarrow>
          if fs = [] then Inr (NewBidiFlagSetFromFlag f)
          else if length fs \<le> 3 then res_bind (joinFlags (flValue f) fs) (\<lambda>v. Inr (v OR bidiFlagSetDefault))
          else if length fs = 4 then joinFlags (flValue f) fs
          else Inl ErrIllegalArgument)"

definition setField :: "int \<Rightarrow> int \<Rightarrow> int \<Rightarrow> int" where
  "setField fm x v = (v AND NOT fm) OR x"

text \<open>The letter at a position of the \<open>BIDI\<close> environment syntax; a letter that is not in the list leaves the attribute.\<close>

definition letterField :: "int \<Rightarrow> (char \<times> int) list \<Rightarrow> 16 word \<Rightarrow> int \<Rightarrow> int" where
  "letterField fm table c v =
     (case find (\<lambda>(l, x). c = word_of_nat (code l)) table of None \<Rightarrow> v | Some (l, x) \<Rightarrow> setField fm x v)"

definition typeLetters :: "(char \<times> int) list" where
  "typeLetters = [(CHR ''V'', itypeVisual), (CHR ''I'', itypeImplicit)]"
definition orientationLetters :: "(char \<times> int) list" where
  "orientationLetters = [(CHR ''L'', iorientationLTR), (CHR ''R'', iorientationRTL), (CHR ''C'', iorientationContextLTR),
     (CHR ''D'', iorientationContextRTL)]"
definition swapLetters :: "(char \<times> int) list" where
  "swapLetters = [(CHR ''Y'', iswapYes), (CHR ''N'', iswapNo)]"
definition textLetters :: "(char \<times> int) list" where
  "textLetters = [(CHR ''N'', itextNominal), (CHR ''S'', itextShaped), (CHR ''I'', itextInitial), (CHR ''M'', itextMiddle),
     (CHR ''F'', itextFinal), (CHR ''B'', itextIsolated)]"
definition numeralsLetters :: "(char \<times> int) list" where
  "numeralsLetters = [(CHR ''N'', inumeralsNominal), (CHR ''H'', inumeralsNational), (CHR ''C'', inumeralsContextual),
     (CHR ''A'', inumeralsAny)]"

text \<open>Each letter in turn, as far as there are letters.\<close>

fun letterFields :: "(int \<times> (char \<times> int) list) list \<Rightarrow> 16 word list \<Rightarrow> int \<Rightarrow> int" where
  "letterFields ((fm, table) # fs) (c # cs) v = letterFields fs cs (letterField fm table c v)"
| "letterFields _ _ v = v"

definition NewBidiFlagSetFromChars :: "16 word list \<Rightarrow> BidiFlagSet" where
  "NewBidiFlagSetFromChars chars =
     letterFields [(typeMask, typeLetters), (orientationMask, orientationLetters), (swapMask, swapLetters),
       (textMask, textLetters), (numeralsMask, numeralsLetters)] chars bidiFlagSetDefault"

definition GetNumerals :: "BidiFlagSet \<Rightarrow> BidiFlag" where
  "GetNumerals v =
     (let x = v AND numeralsMask in
      if x = inumeralsNominal then numeralsNominal
      else if x = inumeralsNational then numeralsNational
      else if x = inumeralsContextual then numeralsContextual
      else if x = inumeralsAny then numeralsAny
      else numeralsNominal)"

definition GetOrientation :: "BidiFlagSet \<Rightarrow> BidiFlag" where
  "GetOrientation v =
     (let x = v AND orientationMask in
      if x = iorientationLTR then orientationLTR
      else if x = iorientationRTL then orientationRTL
      else if x = iorientationContextLTR then orientationContextLTR
      else if x = iorientationContextRTL then orientationContextRTL
      else orientationLTR)"

definition GetSwap :: "BidiFlagSet \<Rightarrow> BidiFlag" where
  "GetSwap v =
     (let x = v AND swapMask in if x = iswapYes then swapYes else if x = iswapNo then swapNo else swapYes)"

definition GetText :: "BidiFlagSet \<Rightarrow> BidiFlag" where
  "GetText v =
     (let x = v AND textMask in
      if x = itextNominal then textNominal
      else if x = itextShaped then textShaped
      else if x = itextInitial then textInitial
      else if x = itextMiddle then textMiddle
      else if x = itextFinal then textFinal
      else if x = itextIsolated then textIsolated
      else textNominal)"

definition GetType :: "BidiFlagSet \<Rightarrow> BidiFlag" where
  "GetType v =
     (let x = v AND typeMask in
      if x = itypeImplicit then typeImplicit else if x = itypeVisual then typeVisual else typeImplicit)"

definition SetOneFlag :: "BidiFlag \<Rightarrow> BidiFlagSet \<Rightarrow> BidiFlagSet" where
  "SetOneFlag newFlag v = (v AND NOT (flMask newFlag)) OR flValue newFlag"

subsection \<open>Text form\<close>

definition bidiFlagSetString :: "BidiFlagSet \<Rightarrow> string" where
  "bidiFlagSetString v =
     ''typeoftext='' @ [''implicit'', ''visual''] ! nat (drop_bit 25 (v AND typeMask)) @ '', '' @
     ''orientation='' @ [''ltr'', ''rtl'', ''contextual, context=ltr'', ''contextual, context=rtl''] !
       nat (drop_bit 21 (v AND orientationMask)) @ '', '' @
     ''swapping='' @ [''yes'', ''no''] ! nat (drop_bit 17 (v AND swapMask)) @ '', '' @
     ''numerals='' @ [''nominal'', ''national'', ''contextual'', ''any''] ! nat (drop_bit 9 (v AND numeralsMask)) @ '', '' @
     ''shaping='' @ [''nominal'', ''shaped'', ''shform1'', ''shform2'', ''shform3'', ''shform4'', ''invalid'', ''invalid''] !
       nat (drop_bit 1 (v AND textMask))"

text \<open>\<open>strings.FieldsFunc\<close>: the maximal pieces without separators.\<close>

fun fieldsLoop :: "(char \<Rightarrow> bool) \<Rightarrow> string \<Rightarrow> string \<Rightarrow> string list" where
  "fieldsLoop sep acc [] = (if acc = [] then [] else [acc])"
| "fieldsLoop sep acc (c # cs) =
     (if sep c then (if acc = [] then fieldsLoop sep [] cs else acc # fieldsLoop sep [] cs)
      else fieldsLoop sep (acc @ [c]) cs)"

definition FieldsFunc :: "string \<Rightarrow> (char \<Rightarrow> bool) \<Rightarrow> string list" where
  "FieldsFunc s sep = fieldsLoop sep [] s"

definition flagSeparator :: "char \<Rightarrow> bool" where
  "flagSeparator c \<longleftrightarrow> c = CHR 0x09 \<or> c = CHR '' '' \<or> c = CHR '','' \<or> c = CHR ''=''"

definition contextOrientation :: "int \<Rightarrow> int \<Rightarrow> int" where
  "contextOrientation x v =
     (if v AND orientationMask \<noteq> iorientationLTR \<and> v AND orientationMask \<noteq> iorientationRTL
      then setField orientationMask x v else v)"

text \<open>One token: the value and the keyword afterwards, or None for an invalid token.\<close>

definition flagToken :: "string \<Rightarrow> int \<Rightarrow> string \<Rightarrow> (int \<times> string) option" where
  "flagToken token v keyword =
     (let only = (\<lambda>kw fm x. if keyword \<noteq> kw then None else Some (setField fm x v, keyword)) in
      if token = ''@ls'' then Some (v, keyword)
      else if token \<in> {''implicitalg'', ''checkmode'', ''shapcharset''} then Some (v, ''allowed'')
      else if token \<in> {''typeoftext'', ''orientation'', ''context'', ''swapping'', ''numerals'', ''shaping''} then Some (v, token)
      else if token = ''visual'' then only ''typeoftext'' typeMask itypeVisual
      else if token = ''implicit'' then only ''typeoftext'' typeMask itypeImplicit
      else if token = ''ltr'' then
        (if keyword = ''orientation'' then Some (setField orientationMask iorientationLTR v, keyword)
         else if keyword = ''context'' then Some (contextOrientation iorientationContextLTR v, keyword) else None)
      else if token = ''rtl'' then
        (if keyword = ''orientation'' then Some (setField orientationMask iorientationRTL v, keyword)
         else if keyword = ''context'' then Some (contextOrientation iorientationContextRTL v, keyword) else None)
      else if token = ''contextual'' then
        (if keyword = ''orientation'' then
           Some (if v AND orientationMask = iorientationContextRTL then v
                 else setField orientationMask iorientationContextLTR v, keyword)
         else only ''numerals'' numeralsMask inumeralsContextual)
      else if token = ''yes'' then only ''swapping'' swapMask iswapYes
      else if token = ''no'' then only ''swapping'' swapMask iswapNo
      else if token = ''nominal'' then
        (if keyword = ''numerals'' then Some (setField numeralsMask inumeralsNominal v, keyword)
         else only ''shaping'' textMask itextNominal)
      else if token = ''national'' then only ''numerals'' numeralsMask inumeralsNational
      else if token = ''any'' then only ''numerals'' numeralsMask inumeralsAny
      else if token = ''shaped'' then only ''shaping'' textMask itextShaped
      else if token = ''shform1'' then only ''shaping'' textMask itextInitial
      else if token = ''shform2'' then only ''shaping'' textMask itextMiddle
      else if token = ''shform3'' then only ''shaping'' textMask itextFinal
      else if token = ''shform4'' then only ''shaping'' textMask itextIsolated
      else if keyword = ''allowed'' then Some (v, keyword)
      else None)"

text \<open>The counter goes down by one per token and is returned for the first invalid one.\<close>

fun flagTokens :: "int \<Rightarrow> int \<Rightarrow> string \<Rightarrow> string list \<Rightarrow> int" where
  "flagTokens counter v keyword [] = v OR bidiFlagSetDefault"
| "flagTokens counter v keyword (t # ts) =
     (case flagToken t v keyword of
        None \<Rightarrow> counter - 1
      | Some (v', keyword') \<Rightarrow> flagTokens (counter - 1) v' keyword' ts)"

definition parseBidiFlagSet :: "string \<Rightarrow> int" where
  "parseBidiFlagSet str = flagTokens 0 0 [] (FieldsFunc str flagSeparator)"

definition NewBidiFlagSetFromString :: "string \<Rightarrow> BidiFlagSet res" where
  "NewBidiFlagSetFromString str =
     (let n = parseBidiFlagSet str in if n < 0 then Inl ErrIllegalArgument else Inr n)"

definition SetAllFlagsFromString :: "string \<Rightarrow> BidiFlagSet \<Rightarrow> BidiFlagSet res" where
  "SetAllFlagsFromString str f = (let n = parseBidiFlagSet str in if n < 0 then Inl ErrIllegalArgument else Inr n)"

fun tokenizeLoop :: "string \<Rightarrow> string \<Rightarrow> string \<Rightarrow> string list" where
  "tokenizeLoop delims acc [] = (if acc = [] then [] else [acc])"
| "tokenizeLoop delims acc (c # cs) =
     (if c \<in> set delims then (if acc = [] then [] else [acc]) @ [c] # tokenizeLoop delims [] cs
      else tokenizeLoop delims (acc @ [c]) cs)"

definition tokenizeKeepDelims :: "string \<Rightarrow> string \<Rightarrow> string list" where
  "tokenizeKeepDelims s delims = tokenizeLoop delims [] s"

text \<open>The source and the target text of a \<open>source:target\<close> string: the state is both texts, the length of the
  second before its last word, and whether a colon came last.\<close>

definition splitToken :: "string \<Rightarrow> string \<times> string \<times> nat \<times> bool \<Rightarrow> string \<times> string \<times> nat \<times> bool" where
  "splitToken token st =
     (case st of (sb1, sb2, sb2Length, colon) \<Rightarrow>
        if token = '' '' \<or> token = [CHR 0x09] then (sb1 @ token, sb2 @ token, sb2Length, colon)
        else if token = '','' \<or> token = ''='' then (sb1 @ token, sb2 @ token, sb2Length, False)
        else if token = '':'' then (sb1, take sb2Length sb2, sb2Length, True)
        else ((if colon then sb1 else sb1 @ token), sb2 @ token, length sb2, False))"

text \<open>The error, if any, and the two sets afterwards: the first is changed even when the second text is wrong.\<close>

definition Set2AllFlags :: "string \<Rightarrow> BidiFlagSet \<Rightarrow> BidiFlagSet \<Rightarrow> go_error option \<times> BidiFlagSet \<times> BidiFlagSet" where
  "Set2AllFlags str flags1 flags2 =
     (let (sb1, sb2, _, _) = fold splitToken (tokenizeKeepDelims str (CHR 0x09 # '' ,=:'')) ([], [], 0, False) in
      case SetAllFlagsFromString sb1 flags1 of
        Inl e \<Rightarrow> (Some e, flags1, flags2)
      | Inr f1 \<Rightarrow>
          (case SetAllFlagsFromString sb2 flags2 of Inl e \<Rightarrow> (Some e, f1, flags2) | Inr f2 \<Rightarrow> (None, f1, f2)))"

subsection \<open>Arabic options\<close>

record ArabicOption =
  aoValue :: int
  aoMask :: int

definition lamalefMask :: int where "lamalefMask = 0x0F000000"
definition seenMask :: int where "seenMask = 0x00700000"
definition yehhamzaMask :: int where "yehhamzaMask = 0x000F0000"
definition tashkeelMask :: int where "tashkeelMask = 0x00000F00"

definition LamAlefResizeBuffer :: ArabicOption where "LamAlefResizeBuffer = \<lparr>aoValue = 0x09000000, aoMask = lamalefMask\<rparr>"
definition LamAlefNear :: ArabicOption where "LamAlefNear = \<lparr>aoValue = 0x03000000, aoMask = lamalefMask\<rparr>"
definition LamAlefAtBegin :: ArabicOption where "LamAlefAtBegin = \<lparr>aoValue = 0x05000000, aoMask = lamalefMask\<rparr>"
definition LamAlefAtEnd :: ArabicOption where "LamAlefAtEnd = \<lparr>aoValue = 0x07000000, aoMask = lamalefMask\<rparr>"
definition LamAlefAuto :: ArabicOption where "LamAlefAuto = \<lparr>aoValue = 0x01000000, aoMask = lamalefMask\<rparr>"
definition SeenNear :: ArabicOption where "SeenNear = \<lparr>aoValue = 0x00700000, aoMask = seenMask\<rparr>"
definition SeenAtBegin :: ArabicOption where "SeenAtBegin = \<lparr>aoValue = 0x00300000, aoMask = seenMask\<rparr>"
definition SeenAtEnd :: ArabicOption where "SeenAtEnd = \<lparr>aoValue = 0x00500000, aoMask = seenMask\<rparr>"
definition SeenAuto :: ArabicOption where "SeenAuto = \<lparr>aoValue = 0x00100000, aoMask = seenMask\<rparr>"
definition YehHamzaTwoCellNear :: ArabicOption where "YehHamzaTwoCellNear = \<lparr>aoValue = 0x00070000, aoMask = yehhamzaMask\<rparr>"
definition YehHamzaTwoCellAtBegin :: ArabicOption where "YehHamzaTwoCellAtBegin = \<lparr>aoValue = 0x00030000, aoMask = yehhamzaMask\<rparr>"
definition YehHamzaTwoCellAtEnd :: ArabicOption where "YehHamzaTwoCellAtEnd = \<lparr>aoValue = 0x00050000, aoMask = yehhamzaMask\<rparr>"
definition YehHamzaOneCell :: ArabicOption where "YehHamzaOneCell = \<lparr>aoValue = 0x00090000, aoMask = yehhamzaMask\<rparr>"
definition YehHamzaAuto :: ArabicOption where "YehHamzaAuto = \<lparr>aoValue = 0x00010000, aoMask = yehhamzaMask\<rparr>"
definition TashkeelKeep :: ArabicOption where "TashkeelKeep = \<lparr>aoValue = 0x00000B00, aoMask = tashkeelMask\<rparr>"
definition TashkeelCustomizedWithZeroWidth :: ArabicOption where
  "TashkeelCustomizedWithZeroWidth = \<lparr>aoValue = 0x00000300, aoMask = tashkeelMask\<rparr>"
definition TashkeelCustomizedWithWidth :: ArabicOption where
  "TashkeelCustomizedWithWidth = \<lparr>aoValue = 0x00000500, aoMask = tashkeelMask\<rparr>"
definition TashkeelCustomizedAtBegin :: ArabicOption where
  "TashkeelCustomizedAtBegin = \<lparr>aoValue = 0x00000700, aoMask = tashkeelMask\<rparr>"
definition TashkeelCustomizedAtEnd :: ArabicOption where
  "TashkeelCustomizedAtEnd = \<lparr>aoValue = 0x00000900, aoMask = tashkeelMask\<rparr>"
definition TashkeelAuto :: ArabicOption where "TashkeelAuto = \<lparr>aoValue = 0x00000100, aoMask = tashkeelMask\<rparr>"

lemmas option_defs =
  lamalefMask_def seenMask_def yehhamzaMask_def tashkeelMask_def LamAlefResizeBuffer_def LamAlefNear_def LamAlefAtBegin_def
  LamAlefAtEnd_def LamAlefAuto_def SeenNear_def SeenAtBegin_def SeenAtEnd_def SeenAuto_def YehHamzaTwoCellNear_def
  YehHamzaTwoCellAtBegin_def YehHamzaTwoCellAtEnd_def YehHamzaOneCell_def YehHamzaAuto_def TashkeelKeep_def
  TashkeelCustomizedWithZeroWidth_def TashkeelCustomizedWithWidth_def TashkeelCustomizedAtBegin_def
  TashkeelCustomizedAtEnd_def TashkeelAuto_def

type_synonym ArabicOptionSet = int

definition arabicOptionSetDefault :: int where
  "arabicOptionSetDefault = aoValue LamAlefAuto OR aoValue SeenAuto OR aoValue YehHamzaAuto OR aoValue TashkeelAuto"

definition NewArabicOptionSet :: ArabicOptionSet where
  "NewArabicOptionSet = arabicOptionSetDefault"

definition NewArabicOptionSetFromOption :: "ArabicOption \<Rightarrow> ArabicOptionSet" where
  "NewArabicOptionSetFromOption opt = aoValue opt OR arabicOptionSetDefault"

fun joinOptions :: "int \<Rightarrow> ArabicOption list \<Rightarrow> int res" where
  "joinOptions v [] = Inr v"
| "joinOptions v (f # fs) = (if v AND aoValue f \<noteq> 0 then Inl ErrIllegalArgument else joinOptions (v OR aoValue f) fs)"

definition NewArabicOptionSetFromOptions :: "ArabicOption list \<Rightarrow> ArabicOptionSet res" where
  "NewArabicOptionSetFromOptions opts =
     (case opts of
        [] \<Rightarrow> Inl ErrIllegalArgument
      | f # fs \<Rightarrow>
          if fs = [] then Inr (NewArabicOptionSetFromOption f)
          else if length fs \<le> 2 then res_bind (joinOptions (aoValue f) fs) (\<lambda>v. Inr (v OR arabicOptionSetDefault))
          else if length fs = 3 then joinOptions (aoValue f) fs
          else Inl ErrIllegalArgument)"

definition lamalefLetters :: "(char \<times> int) list" where
  "lamalefLetters = [(CHR ''R'', aoValue LamAlefResizeBuffer), (CHR ''N'', aoValue LamAlefNear), (CHR ''B'', aoValue LamAlefAtBegin),
     (CHR ''E'', aoValue LamAlefAtEnd), (CHR ''A'', aoValue LamAlefAuto)]"
definition seenLetters :: "(char \<times> int) list" where
  "seenLetters = [(CHR ''N'', aoValue SeenNear), (CHR ''B'', aoValue SeenAtBegin), (CHR ''E'', aoValue SeenAtEnd),
     (CHR ''A'', aoValue SeenAuto)]"
definition yehhamzaLetters :: "(char \<times> int) list" where
  "yehhamzaLetters = [(CHR ''O'', aoValue YehHamzaOneCell), (CHR ''N'', aoValue YehHamzaTwoCellNear),
     (CHR ''B'', aoValue YehHamzaTwoCellAtBegin), (CHR ''E'', aoValue YehHamzaTwoCellAtEnd), (CHR ''A'', aoValue YehHamzaAuto)]"
definition tashkeelLetters :: "(char \<times> int) list" where
  "tashkeelLetters = [(CHR ''K'', aoValue TashkeelKeep), (CHR ''Z'', aoValue TashkeelCustomizedWithZeroWidth),
     (CHR ''W'', aoValue TashkeelCustomizedWithWidth), (CHR ''B'', aoValue TashkeelCustomizedAtBegin),
     (CHR ''E'', aoValue TashkeelCustomizedAtEnd), (CHR ''A'', aoValue TashkeelAuto)]"

definition NewArabicOptionSetFromChars :: "16 word list \<Rightarrow> ArabicOptionSet" where
  "NewArabicOptionSetFromChars chars =
     letterFields [(lamalefMask, lamalefLetters), (seenMask, seenLetters), (yehhamzaMask, yehhamzaLetters),
       (tashkeelMask, tashkeelLetters)] (drop 6 chars) arabicOptionSetDefault"

text \<open>The mode with the masked value, or the one given for an unknown value.\<close>

definition optionOf :: "int \<Rightarrow> ArabicOption list \<Rightarrow> ArabicOption \<Rightarrow> ArabicOption" where
  "optionOf x opts other = (case find (\<lambda>p. aoValue p = x) opts of None \<Rightarrow> other | Some p \<Rightarrow> p)"

definition GetLamAlefMode :: "ArabicOptionSet \<Rightarrow> ArabicOption" where
  "GetLamAlefMode v = optionOf (v AND lamalefMask) [LamAlefResizeBuffer, LamAlefNear, LamAlefAtBegin, LamAlefAtEnd, LamAlefAuto] LamAlefAtBegin"

definition GetSeenMode :: "ArabicOptionSet \<Rightarrow> ArabicOption" where
  "GetSeenMode v = optionOf (v AND seenMask) [SeenNear, SeenAtBegin, SeenAtEnd, SeenAuto] SeenNear"

definition GetYehHamzaMode :: "ArabicOptionSet \<Rightarrow> ArabicOption" where
  "GetYehHamzaMode v =
     optionOf (v AND yehhamzaMask) [YehHamzaTwoCellNear, YehHamzaTwoCellAtBegin, YehHamzaTwoCellAtEnd, YehHamzaOneCell, YehHamzaAuto]
       YehHamzaTwoCellNear"

definition GetTashkeelMode :: "ArabicOptionSet \<Rightarrow> ArabicOption" where
  "GetTashkeelMode v =
     optionOf (v AND tashkeelMask) [TashkeelKeep, TashkeelCustomizedWithZeroWidth, TashkeelCustomizedWithWidth,
       TashkeelCustomizedAtBegin, TashkeelCustomizedAtEnd, TashkeelAuto] TashkeelKeep"

definition ArabicOptionSet_Equals :: "ArabicOptionSet \<Rightarrow> ArabicOptionSet \<Rightarrow> bool" where
  "ArabicOptionSet_Equals s t \<longleftrightarrow>
     GetLamAlefMode s = GetLamAlefMode t \<and> GetSeenMode s = GetSeenMode t \<and> GetYehHamzaMode s = GetYehHamzaMode t \<and>
     GetTashkeelMode s = GetTashkeelMode t"

definition SetOneOption :: "ArabicOption \<Rightarrow> ArabicOptionSet \<Rightarrow> ArabicOptionSet" where
  "SetOneOption newOption v = (v AND NOT (aoMask newOption)) OR aoValue newOption"

section \<open>Lemmas\<close>

text \<open>A flag set with one value per attribute.\<close>

definition flag_set :: "int \<Rightarrow> int \<Rightarrow> int \<Rightarrow> int \<Rightarrow> int \<Rightarrow> BidiFlagSet" where
  "flag_set t r s n x = t OR r OR s OR n OR x"

definition flag_attributes :: "int \<Rightarrow> int \<Rightarrow> int \<Rightarrow> int \<Rightarrow> int \<Rightarrow> bool" where
  "flag_attributes t r s n x \<longleftrightarrow>
     t \<in> {itypeImplicit, itypeVisual} \<and>
     r \<in> {iorientationLTR, iorientationRTL, iorientationContextLTR, iorientationContextRTL} \<and>
     s \<in> {iswapYes, iswapNo} \<and>
     n \<in> {inumeralsNominal, inumeralsNational, inumeralsContextual, inumeralsAny} \<and>
     x \<in> {itextNominal, itextShaped, itextInitial, itextMiddle, itextFinal, itextIsolated}"

lemma flag_attributes_parts:
  assumes "flag_attributes t r s n x"
  shows "t \<in> {itypeImplicit, itypeVisual}"
    "r \<in> {iorientationLTR, iorientationRTL, iorientationContextLTR, iorientationContextRTL}"
    "s \<in> {iswapYes, iswapNo}" "n \<in> {inumeralsNominal, inumeralsNational, inumeralsContextual, inumeralsAny}"
    "x \<in> {itextNominal, itextShaped, itextInitial, itextMiddle, itextFinal, itextIsolated}"
  using assms by (simp_all only: flag_attributes_def)

lemma flag_set_fields:
  assumes "flag_attributes t r s n x"
  shows "flag_set t r s n x AND typeMask = t" "flag_set t r s n x AND orientationMask = r"
    "flag_set t r s n x AND swapMask = s" "flag_set t r s n x AND numeralsMask = n" "flag_set t r s n x AND textMask = x"
proof -
  note A = flag_attributes_parts [OF assms]
  have "t AND typeMask = t \<and> t AND orientationMask = 0 \<and> t AND swapMask = 0 \<and> t AND numeralsMask = 0 \<and> t AND textMask = 0"
    using A(1) by (elim insertE emptyE) (simp_all add: flag_values)
  moreover have "r AND typeMask = 0 \<and> r AND orientationMask = r \<and> r AND swapMask = 0 \<and> r AND numeralsMask = 0 \<and> r AND textMask = 0"
    using A(2) by (elim insertE emptyE) (simp_all add: flag_values)
  moreover have "s AND typeMask = 0 \<and> s AND orientationMask = 0 \<and> s AND swapMask = s \<and> s AND numeralsMask = 0 \<and> s AND textMask = 0"
    using A(3) by (elim insertE emptyE) (simp_all add: flag_values)
  moreover have "n AND typeMask = 0 \<and> n AND orientationMask = 0 \<and> n AND swapMask = 0 \<and> n AND numeralsMask = n \<and> n AND textMask = 0"
    using A(4) by (elim insertE emptyE) (simp_all add: flag_values)
  moreover have "x AND typeMask = 0 \<and> x AND orientationMask = 0 \<and> x AND swapMask = 0 \<and> x AND numeralsMask = 0 \<and> x AND textMask = x"
    using A(5) by (elim insertE emptyE) (simp_all add: flag_values)
  ultimately show "flag_set t r s n x AND typeMask = t" "flag_set t r s n x AND orientationMask = r"
    "flag_set t r s n x AND swapMask = s" "flag_set t r s n x AND numeralsMask = n" "flag_set t r s n x AND textMask = x"
    unfolding flag_set_def by (simp_all add: bit.conj_disj_distrib2)
qed

lemma fieldsLoop_word:
  assumes "\<forall>c \<in> set w. \<not> sep c"
  shows "fieldsLoop sep acc (w @ s) = fieldsLoop sep (acc @ w) s"
  using assms by (induction w arbitrary: acc) simp_all

lemma fieldsLoop_sep:
  assumes "\<forall>c \<in> set w. \<not> sep c" "w \<noteq> []" "sep c"
  shows "fieldsLoop sep [] (w @ c # s) = w # fieldsLoop sep [] s"
  using assms fieldsLoop_word [of w sep "[]" "c # s"] by simp

text \<open>The words of each attribute in the text form.\<close>

definition orientation_words :: "int \<Rightarrow> string list" where
  "orientation_words r =
     (if r = iorientationLTR then [''ltr''] else if r = iorientationRTL then [''rtl'']
      else if r = iorientationContextLTR then [''contextual'', ''context'', ''ltr''] else [''contextual'', ''context'', ''rtl''])"

definition type_word :: "int \<Rightarrow> string" where
  "type_word t = (if t = itypeImplicit then ''implicit'' else ''visual'')"
definition swap_word :: "int \<Rightarrow> string" where
  "swap_word s = (if s = iswapYes then ''yes'' else ''no'')"
definition numerals_word :: "int \<Rightarrow> string" where
  "numerals_word n =
     (if n = inumeralsNominal then ''nominal'' else if n = inumeralsNational then ''national''
      else if n = inumeralsContextual then ''contextual'' else ''any'')"
definition text_word :: "int \<Rightarrow> string" where
  "text_word x =
     (if x = itextNominal then ''nominal'' else if x = itextShaped then ''shaped'' else if x = itextInitial then ''shform1''
      else if x = itextMiddle then ''shform2'' else if x = itextFinal then ''shform3'' else ''shform4'')"

lemmas word_defs = orientation_words_def type_word_def swap_word_def numerals_word_def text_word_def

lemma flag_words:
  assumes "flag_attributes t r s n x"
  shows "FieldsFunc (bidiFlagSetString (flag_set t r s n x)) flagSeparator =
    [''typeoftext'', type_word t] @ ''orientation'' # orientation_words r @
    [''swapping'', swap_word s, ''numerals'', numerals_word n, ''shaping'', text_word x]"
proof -
  note A = flag_attributes_parts [OF assms]
  have w1: "[''implicit'', ''visual''] ! nat (drop_bit 25 t) = type_word t"
    using A(1) by (elim insertE emptyE) (simp_all add: flag_values word_defs)
  have w3: "[''yes'', ''no''] ! nat (drop_bit 17 s) = swap_word s"
    using A(3) by (elim insertE emptyE) (simp_all add: flag_values word_defs)
  have w4: "[''nominal'', ''national'', ''contextual'', ''any''] ! nat (drop_bit 9 n) = numerals_word n"
    using A(4) by (elim insertE emptyE) (simp_all add: flag_values word_defs)
  have w5: "[''nominal'', ''shaped'', ''shform1'', ''shform2'', ''shform3'', ''shform4'', ''invalid'', ''invalid''] !
       nat (drop_bit 1 x) = text_word x"
    using A(5) by (elim insertE emptyE) (simp_all add: flag_values word_defs)
  have w2: "fieldsLoop flagSeparator []
      ([''ltr'', ''rtl'', ''contextual, context=ltr'', ''contextual, context=rtl''] ! nat (drop_bit 21 r) @ CHR '','' # u) =
      orientation_words r @ fieldsLoop flagSeparator [] u" for u
    using A(2) by (elim insertE emptyE) (simp_all add: flag_values word_defs flagSeparator_def)
  have plain: "\<forall>c \<in> set (type_word t) \<union> set (swap_word s) \<union> set (numerals_word n) \<union> set (text_word x). \<not> flagSeparator c"
    "type_word t \<noteq> []" "swap_word s \<noteq> []" "numerals_word n \<noteq> []" "text_word x \<noteq> []"
    by (simp_all add: word_defs flagSeparator_def)
  have sep: "flagSeparator (CHR '','')" "flagSeparator (CHR '' '')" "flagSeparator (CHR ''='')" by (simp_all add: flagSeparator_def)
  have kw: "fieldsLoop flagSeparator [] (CHR '' '' # u) = fieldsLoop flagSeparator [] u"
    "fieldsLoop flagSeparator [] (''typeoftext='' @ u) = ''typeoftext'' # fieldsLoop flagSeparator [] u"
    "fieldsLoop flagSeparator [] (''orientation='' @ u) = ''orientation'' # fieldsLoop flagSeparator [] u"
    "fieldsLoop flagSeparator [] (''swapping='' @ u) = ''swapping'' # fieldsLoop flagSeparator [] u"
    "fieldsLoop flagSeparator [] (''numerals='' @ u) = ''numerals'' # fieldsLoop flagSeparator [] u"
    "fieldsLoop flagSeparator [] (''shaping='' @ u) = ''shaping'' # fieldsLoop flagSeparator [] u" for u
    by (simp_all add: flagSeparator_def)
  have val: "fieldsLoop flagSeparator [] (type_word t @ CHR '','' # u) = type_word t # fieldsLoop flagSeparator [] u"
    "fieldsLoop flagSeparator [] (swap_word s @ CHR '','' # u) = swap_word s # fieldsLoop flagSeparator [] u"
    "fieldsLoop flagSeparator [] (numerals_word n @ CHR '','' # u) = numerals_word n # fieldsLoop flagSeparator [] u"
    "fieldsLoop flagSeparator [] (text_word x) = [text_word x]" for u
    using plain sep fieldsLoop_word [of "text_word x" flagSeparator "[]" "[]"] by (auto intro!: fieldsLoop_sep)
  have comma: "'', '' @ u = CHR '','' # CHR '' '' # u" for u by simp
  show ?thesis
    unfolding FieldsFunc_def bidiFlagSetString_def flag_set_fields [OF assms] w1 w3 w4 w5 comma kw val w2
    by simp
qed

lemma flagTokens_step:
  "flagToken a v k = Some (v', k') \<Longrightarrow> flagTokens c v k (a # ts) = flagTokens (c - 1) v' k' ts"
  by simp

lemma word_tokens:
  assumes "flag_attributes t r s n x"
  shows "flagTokens c 0 [] ([''typeoftext'', type_word t] @ ts) = flagTokens (c - 2) t ''typeoftext'' ts"
    and "\<exists>c' k. flagTokens c t ''typeoftext'' (''orientation'' # orientation_words r @ ts) = flagTokens c' (t OR r) k ts"
    and "flagTokens c v k (''swapping'' # swap_word s # ts) = flagTokens (c - 2) (setField swapMask s v) ''swapping'' ts"
    and "flagTokens c v k (''numerals'' # numerals_word n # ts) = flagTokens (c - 2) (setField numeralsMask n v) ''numerals'' ts"
    and "flagTokens c v k (''shaping'' # text_word x # ts) = flagTokens (c - 2) (setField textMask x v) ''shaping'' ts"
proof -
  note A = flag_attributes_parts [OF assms]
  show "flagTokens c 0 [] ([''typeoftext'', type_word t] @ ts) = flagTokens (c - 2) t ''typeoftext'' ts"
    using A(1) by (elim insertE emptyE) (simp_all add: flagToken_def word_defs setField_def flag_values)
  show "\<exists>c' k. flagTokens c t ''typeoftext'' (''orientation'' # orientation_words r @ ts) = flagTokens c' (t OR r) k ts"
    using A(1,2) by (elim insertE emptyE; simp add: flagToken_def word_defs setField_def contextOrientation_def flag_values; blast)
  show "flagTokens c v k (''swapping'' # swap_word s # ts) = flagTokens (c - 2) (setField swapMask s v) ''swapping'' ts"
    using A(3) by (elim insertE emptyE) (simp_all add: flagToken_def word_defs flag_values)
  show "flagTokens c v k (''numerals'' # numerals_word n # ts) = flagTokens (c - 2) (setField numeralsMask n v) ''numerals'' ts"
    using A(4) by (elim insertE emptyE) (simp_all add: flagToken_def word_defs flag_values)
  show "flagTokens c v k (''shaping'' # text_word x # ts) = flagTokens (c - 2) (setField textMask x v) ''shaping'' ts"
    using A(5) by (elim insertE emptyE) (simp_all add: flagToken_def word_defs flag_values)
qed

lemma fields_joined:
  assumes "flag_attributes t r s n x"
  shows "setField textMask x (setField numeralsMask n (setField swapMask s (t OR r))) OR bidiFlagSetDefault = flag_set t r s n x"
proof -
  note A = flag_attributes_parts [OF assms]
  define d where "d = flag_set t r s n x"
  have t: "t AND NOT swapMask = t" "t AND NOT numeralsMask = t" "t AND NOT textMask = t" "t OR itypeImplicit = t"
    using A(1) by (elim insertE emptyE; simp add: flag_values)+
  have r: "r AND NOT swapMask = r" "r AND NOT numeralsMask = r" "r AND NOT textMask = r" "r OR iorientationLTR = r"
    using A(2) by (elim insertE emptyE; simp add: flag_values)+
  have s: "s AND NOT numeralsMask = s" "s AND NOT textMask = s" "s OR iswapYes = s"
    using A(3) by (elim insertE emptyE; simp add: flag_values)+
  have n: "n AND NOT textMask = n" "n OR inumeralsNominal = n"
    using A(4) by (elim insertE emptyE; simp add: flag_values)+
  have x: "x OR itextNominal = x" using A(5) by (elim insertE emptyE; simp add: flag_values)
  have "setField textMask x (setField numeralsMask n (setField swapMask s (t OR r))) = d"
    by (simp add: setField_def bit.conj_disj_distrib2 t r s n d_def flag_set_def or.assoc)
  moreover have "d OR bidiFlagSetDefault =
      (t OR itypeImplicit) OR (r OR iorientationLTR) OR (s OR iswapYes) OR (n OR inumeralsNominal) OR (x OR itextNominal)"
    unfolding d_def flag_set_def bidiFlagSetDefault_def by (simp only: or.assoc or.commute or.left_commute)
  ultimately show ?thesis by (simp only: t r s n x d_def flag_set_def)
qed

section \<open>Properties\<close>

text \<open>
  The text form of a flag set is read back: for every choice of the five attributes,
  \<open>parseBidiFlagSet\<close> applied to \<open>bidiFlagSetString\<close> of the set gives the set.
\<close>

theorem flag_text_read_back:
  assumes "flag_attributes t r s n x"
  shows "parseBidiFlagSet (bidiFlagSetString (flag_set t r s n x)) = flag_set t r s n x"
proof -
  obtain c k where o: "flagTokens (- 2) t ''typeoftext'' (''orientation'' # orientation_words r @
        [''swapping'', swap_word s, ''numerals'', numerals_word n, ''shaping'', text_word x]) =
      flagTokens c (t OR r) k [''swapping'', swap_word s, ''numerals'', numerals_word n, ''shaping'', text_word x]"
    using word_tokens(2) [OF assms, of "- 2" "[''swapping'', swap_word s, ''numerals'', numerals_word n, ''shaping'', text_word x]"]
    by blast
  show ?thesis
    unfolding parseBidiFlagSet_def flag_words [OF assms] word_tokens(1) [OF assms]
    using o by (simp add: word_tokens(3-5) [OF assms] fields_joined [OF assms] del: flagTokens.simps(2))
qed

theorem flag_text_read_back_witness:
  "parseBidiFlagSet (bidiFlagSetString (flag_set itypeVisual iorientationContextRTL iswapNo inumeralsAny itextShaped)) =
   flag_set itypeVisual iorientationContextRTL iswapNo inumeralsAny itextShaped"
  by (rule flag_text_read_back) (simp add: flag_attributes_def)

end
