(* ===== verification/BidiOrder.thy ===== *)
theory BidiOrder
  imports BidiFlags "HOL-Library.Multiset"
begin

text \<open>
  The reordering of bidirectional text (\<open>src/internal/bidi/order.go\<close> with its tables,
  \<open>src/internal/bidi/transform.go\<close>, the record of \<open>src/internal/bidi/text.go\<close>): classes of
  characters, the implicit levels by the state tables, the map from destination to source and
  the output characters. The lemmas show that the automaton of the levels never leaves its table;
  \<open>BidiReorder\<close> composes them.
\<close>

section \<open>Definitions\<close>

subsection \<open>Integers and slices\<close>

definition int8 :: "int \<Rightarrow> int" where
  "int8 x = (x + 128) mod 256 - 128"

definition int32 :: "int \<Rightarrow> int" where
  "int32 x = (x + 2 ^ 31) mod 2 ^ 32 - 2 ^ 31"

definition byte_of :: "int \<Rightarrow> int" where
  "byte_of x = x mod 256"

definition index_panic :: "'a res" where
  "index_panic = Inl (Panic ''index out of range'')"

fun res_fold :: "('a \<Rightarrow> 's \<Rightarrow> 's res) \<Rightarrow> 'a list \<Rightarrow> 's \<Rightarrow> 's res" where
  "res_fold f [] s = Inr s"
| "res_fold f (x # xs) s = res_bind (f x s) (res_fold f xs)"

text \<open>\<open>copy(dst[a:b], src)\<close>\<close>

definition copy_slice :: "'a list \<Rightarrow> int \<Rightarrow> int \<Rightarrow> 'a list \<Rightarrow> 'a list res" where
  "copy_slice dst a b src =
     (if 0 \<le> a \<and> a \<le> b \<and> b \<le> int (length dst)
      then Inr (take (nat a) dst @ copy_into (slice (nat a) (nat b) dst) src @ drop (nat b) dst)
      else index_panic)"

definition int_sub :: "int \<Rightarrow> int \<Rightarrow> 'a list \<Rightarrow> 'a list res" where
  "int_sub a b xs = (if 0 \<le> a \<and> a \<le> b \<and> b \<le> int (length xs) then Inr (slice (nat a) (nat b) xs) else index_panic)"

subsection \<open>Character classes\<close>

definition ubatB :: int where "ubatB = 0"
definition ubatS :: int where "ubatS = 1"
definition ubatL :: int where "ubatL = 2"
definition ubatR :: int where "ubatR = 3"
definition ubatEN :: int where "ubatEN = 4"
definition ubatAN :: int where "ubatAN = 5"
definition ubatW :: int where "ubatW = 6"
definition ubatN :: int where "ubatN = 7"
definition ubatBD :: int where "ubatBD = 8"
definition ubatAL :: int where "ubatAL = 9"
definition ubatET :: int where "ubatET = 10"
definition ubatES :: int where "ubatES = 11"
definition ubatCS :: int where "ubatCS = 12"
definition ubatNSM :: int where "ubatNSM = 13"
definition ubatNSwap :: int where "ubatNSwap = - 7"

lemmas ubat_defs =
  ubatB_def ubatS_def ubatL_def ubatR_def ubatEN_def ubatAN_def ubatW_def ubatN_def ubatBD_def ubatAL_def ubatET_def
  ubatES_def ubatCS_def ubatNSM_def ubatNSwap_def

definition lrm :: u16 where "lrm = 0x200E"
definition rlm :: u16 where "rlm = 0x200F"
definition noDelim :: u16 where "noDelim = 0xFFFF"

definition itil :: nat where "itil = 8"
definition itcond :: nat where "itcond = 9"
definition impLTR :: int where "impLTR = 4"
definition impRTL :: int where "impRTL = 8"
definition pointBefore :: int where "pointBefore = 0"
definition pointAfter :: int where "pointAfter = 65536"

definition between :: "u16 \<Rightarrow> u16 \<Rightarrow> u16 \<Rightarrow> bool" where
  "between a b x \<longleftrightarrow> a \<le> x \<and> x \<le> b"

definition isClassL :: "u16 \<Rightarrow> bool" where
  "isClassL x \<longleftrightarrow>
     between 0x0041 0x005A x \<or> between 0x0061 0x007A x \<or> between 0x00C0 0x00D6 x \<or> between 0x00D8 0x00F6 x \<or>
     between 0x00F8 0x058F x \<or> between 0x0900 0x10FF x \<or> x = 0x200E \<or> between 0x20D0 0x20FF x \<or> between 0x2160 0x2182 x \<or>
     between 0x3040 0x9FFF x \<or> between 0xF900 0xFB17 x \<or> x = 0xFE60 \<or> x = 0xFE6B \<or> x = 0xFF06 \<or> between 0xFF20 0xFF3A x \<or>
     between 0xFF41 0xFF5A x \<or> between 0xFF60 0xFFDF x"

definition isClassEN :: "u16 \<Rightarrow> bool" where
  "isClassEN x \<longleftrightarrow>
     between 0x0030 0x0039 x \<or> between 0x00B2 0x00B3 x \<or> x = 0x00B9 \<or> between 0x06F0 0x06F9 x \<or> x = 0x2070 \<or>
     between 0x2074 0x2079 x \<or> between 0x2080 0x2089 x \<or> between 0x2460 0x249B x \<or> x = 0x24EA \<or> between 0xFF10 0xFF19 x"

definition isClassET :: "u16 \<Rightarrow> bool" where
  "isClassET x \<longleftrightarrow>
     between 0x0023 0x0025 x \<or> between 0x00A2 0x00A5 x \<or> between 0x00B0 0x00B1 x \<or> x = 0x066A \<or> between 0x09F2 0x09F3 x \<or>
     x = 0x0AF1 \<or> x = 0x0BF9 \<or> x = 0x0E3F \<or> x = 0x17DB \<or> between 0x2030 0x2034 x \<or> between 0x207A 0x207B x \<or>
     between 0x208A 0x208B x \<or> between 0x20A0 0x20B1 x \<or> x = 0x212E \<or> between 0x2212 0x2213 x \<or> x = 0xFB29 \<or> x = 0xFE5F \<or>
     between 0xFE62 0xFE63 x \<or> between 0xFE69 0xFE6A x \<or> between 0xFF03 0xFF05 x \<or> x = 0xFF0B \<or> x = 0xFF0D \<or>
     between 0xFFE0 0xFFE1 x \<or> between 0xFFE5 0xFFE6 x"

definition getChType :: "u16 \<Rightarrow> int" where
  "getChType x =
     (if x = 0x000A \<or> x = 0x000D \<or> between 0x001C 0x001E x \<or> x = 0x0085 \<or> x = 0x2029 then ubatB
      else if x = 0x0009 \<or> x = 0x000B \<or> x = 0x001F then ubatS
      else if isClassL x then ubatL
      else if between 0x0591 0x05FF x \<or> x = 0x200F \<or> between 0xFB1D 0xFB4F x then ubatR
      else if between 0x0600 0x065F x \<or> between 0x066E 0x06EF x \<or> between 0x06FA 0x08FF x \<or> between 0xFB50 0xFDFF x \<or>
        between 0xFE70 0xFEFC x then ubatAL
      else if isClassEN x then ubatEN
      else if between 0x0660 0x0669 x \<or> between 0x066B 0x066C x then ubatAN
      else if isClassET x then ubatET
      else if x = 0x002B \<or> x = 0x002D \<or> x = 0x002F \<or> x = 0xFF0F then ubatES
      else if x = 0x002C \<or> x = 0x002E \<or> x = 0x003A \<or> x = 0x00A0 \<or> x = 0x060C \<or> x = 0xFE50 \<or> x = 0xFE52 \<or> x = 0xFE55 \<or>
        x = 0xFF0C \<or> x = 0xFF0E \<or> x = 0xFF1A then ubatCS
      else if x = 0x000C \<or> x = 0x0020 \<or> x = 0x1680 \<or> x = 0x180E \<or> between 0x2000 0x200A x \<or> x = 0x2028 \<or> x = 0x202F \<or>
        x = 0x205F \<or> x = 0x3000 then ubatW
      else if between 0x202A 0x202E x \<or> between 0x206C 0x206F x then ubatBD
      else ubatN)"

definition getChTypeWB :: "u16 \<Rightarrow> bool \<Rightarrow> int" where
  "getChTypeWB x wordBreak = (if wordBreak \<and> x = 0x0020 then ubatS else getChType x)"

subsection \<open>Tables\<close>

definition impTabLTR :: "int list list" where
  "impTabLTR =
     [[0, 0, 0, 3, 0, 1, 0, 0, 0, 0],
      [0, 0, 0, 3, 0, 1, 2, 2, 2, 0],
      [0, 0, 0, 3, 0, 17, 2, 2, 0, 1],
      [0, 0, 0, 3, 5, 5, 4, 4, 1, 0],
      [0, 0, 0, 3, 21, 21, 4, 4, 0, 1],
      [0, 0, 0, 3, 5, 5, 4, 4, 2, 0]]"

definition impTabRTL :: "int list list" where
  "impTabRTL =
     [[0, 0, 2, 0, 1, 1, 0, 0, 0, 0],
      [0, 0, 2, 0, 1, 1, 0, 0, 1, 0],
      [0, 0, 2, 0, 2, 1, 3, 3, 1, 0],
      [0, 0, 2, 0, 2, 33, 3, 3, 0, 1]]"

definition impTabLTRr :: "int list list" where
  "impTabLTRr =
     [[0, 0, 0, 2, 0, 1, 0, 0, 0, 0],
      [0, 0, 0, 2, 0, 1, 3, 3, 2, 0],
      [0, 0, 0, 2, 4, 1, 3, 3, 1, 0],
      [0, 0, 0, 34, 4, 4, 3, 3, 1, 1],
      [0, 0, 0, 34, 4, 4, 3, 3, 2, 1]]"

definition impTabRTLr :: "int list list" where
  "impTabRTLr =
     [[0, 0, 3, 0, 1, 2, 0, 0, 0, 0],
      [32, 32, 3, 32, 1, 34, 5, 5, 1, 1],
      [0, 0, 3, 0, 1, 2, 0, 0, 1, 0],
      [0, 0, 3, 0, 3, 2, 4, 4, 1, 0],
      [0, 0, 3, 0, 3, 34, 4, 4, 0, 1],
      [32, 32, 3, 32, 1, 34, 5, 5, 0, 1]]"

definition impTabLTRw :: "int list list" where
  "impTabLTRw =
     [[0, 0, 0, 2, 1, 1, 0, 0, 0, 0],
      [0, 0, 0, 2, 1, 1, 0, 0, 2, 0],
      [0, 0, 0, 2, 4, 4, 3, 3, 1, 0],
      [0, 0, 0, 2, 20, 20, 3, 3, 0, 1],
      [0, 0, 0, 2, 4, 4, 3, 3, 2, 0]]"

definition impTabLTRm :: "int list list" where
  "impTabLTRm =
     [[0, 0, 0, 99, 0, 1, 0, 0, 0, 0],
      [0, 0, 0, 99, 0, 1, 2, 2, 2, 0],
      [0, 0, 0, 99, 0, 33, 2, 2, 1, 1],
      [0, 0, 0, 99, 85, 86, 4, 4, 1, 0],
      [48, 48, 48, 67, 85, 86, 4, 4, 1, 1],
      [48, 48, 48, 67, 5, 86, 4, 4, 2, 0],
      [48, 48, 48, 67, 85, 6, 4, 4, 2, 0]]"

definition impTabRTLm :: "int list list" where
  "impTabRTLm =
     [[0, 0, 3, 0, 1, 1, 0, 0, 0, 0],
      [0, 0, 115, 0, 1, 1, 2, 2, 1, 0],
      [0, 0, 115, 0, 1, 1, 2, 2, 0, 0],
      [0, 0, 3, 0, 3, 134, 4, 4, 1, 0],
      [144, 144, 163, 144, 5, 134, 4, 4, 0, 1],
      [144, 144, 163, 144, 5, 134, 4, 4, 1, 1],
      [144, 144, 163, 144, 6, 6, 4, 4, 1, 1]]"

definition impTabLTRwm :: "int list list" where
  "impTabLTRwm =
     [[0, 0, 0, 98, 1, 1, 0, 0, 0, 0],
      [0, 0, 0, 98, 1, 1, 0, 0, 2, 0],
      [0, 0, 0, 98, 84, 84, 3, 3, 1, 0],
      [48, 48, 48, 66, 84, 84, 3, 3, 1, 1],
      [48, 48, 48, 66, 4, 4, 3, 3, 2, 0]]"

definition symPairs :: "(u16 \<times> u16) list" where
  "symPairs =
     [(40, 41), (41, 40), (60, 62), (62, 60), (91, 93), (93, 91),
      (123, 125), (125, 123), (171, 187), (187, 171), (8317, 8318), (8318, 8317),
      (8333, 8334), (8334, 8333), (9001, 9002), (9002, 9001), (65113, 65114), (65114, 65113),
      (65115, 65116), (65116, 65115), (65117, 65118), (65118, 65117), (65124, 65125), (65125, 65124)]"


text \<open>The binary search of the source, on a table of pairs.\<close>

function pairSearch :: "('a::linorder \<times> 'b) list \<Rightarrow> int \<Rightarrow> int \<Rightarrow> 'a \<Rightarrow> 'b option" where
  "pairSearch tab low high x =
     (if low \<le> high then
        let mid = (low + high) div 2; c = fst (tab ! nat mid) in
        if x < c then pairSearch tab low (mid - 1) x
        else if x > c then pairSearch tab (mid + 1) high x
        else Some (snd (tab ! nat mid))
      else None)"
  by pat_completeness auto
termination by (relation "measure (\<lambda>(tab, low, high, x). nat (high - low + 1))") auto

declare pairSearch.simps [simp del]

definition ucqsymm :: "u16 \<Rightarrow> u16" where
  "ucqsymm x = (case pairSearch symPairs 0 23 x of None \<Rightarrow> x | Some y \<Rightarrow> y)"

subsection \<open>Texts, transforms and the working state\<close>

text \<open>\<open>None\<close> is a nil slice.\<close>

record BidiText =
  txFlags :: BidiFlagSet
  txData :: "u16 list option"
  txOffset :: nat
  txCount :: nat

definition txChars :: "BidiText \<Rightarrow> u16 list" where
  "txChars t = (case txData t of None \<Rightarrow> [] | Some d \<Rightarrow> d)"

record BidiTransform =
  bxFlags :: BidiFlagSet
  bxImpToImp :: bool
  bxRoundTrip :: bool
  bxWinCompatible :: bool
  bxInsertMarkers :: bool
  bxRemoveMarkers :: bool
  bxDelimiters :: "u16 list"
  bxOptions :: "ArabicOptionSet option"
  bxWordBreak :: bool
  bxDestinationRequired :: bool
  bxSrcToDstMapRequired :: bool
  bxDstToSrcMapRequired :: bool
  bxPropertyMapRequired :: bool
  bxContinuation :: bool
  bxInpCount :: nat
  bxOutCount :: nat
  bxSrcToDstMap :: "int list"
  bxDstToSrcMap :: "int list"
  bxPropertyMap :: "int list"
  bxInsertPoints :: "int list option"

definition NewBidiTransform :: BidiTransform where
  "NewBidiTransform =
     \<lparr>bxFlags = NewBidiFlagSet, bxImpToImp = True, bxRoundTrip = False, bxWinCompatible = False, bxInsertMarkers = False,
      bxRemoveMarkers = False, bxDelimiters = [], bxOptions = None, bxWordBreak = False, bxDestinationRequired = True,
      bxSrcToDstMapRequired = False, bxDstToSrcMapRequired = False, bxPropertyMapRequired = False, bxContinuation = False,
      bxInpCount = 0, bxOutCount = 0, bxSrcToDstMap = [], bxDstToSrcMap = [], bxPropertyMap = [], bxInsertPoints = None\<rparr>"

text \<open>The fields of \<open>bidiOrder\<close>; \<open>boBdx\<close> is the transform that it belongs to. The types of a character are the pair
  of its original and its final type.\<close>

record bidiOrder =
  boIx :: int
  boOutLev :: int
  boBasLev :: int
  boCurLev :: int
  boImpSta :: int
  boCondPos :: int
  boXType :: int
  boWTarget :: int
  boNumFlag :: BidiFlag
  boSymmetric :: bool
  boOrientIn :: BidiFlag
  boOrientOut :: BidiFlag
  boTypeIn :: BidiFlag
  boTypeOut :: BidiFlag
  boBdx :: BidiTransform
  boSize :: nat
  boBufferIn :: "u16 list"
  boBufferOut :: "u16 list"
  boInvertInput :: bool
  boVisToVis :: bool
  boImpTab :: "int list list"
  boTypeArray :: "(int \<times> int) list"
  boInsertMarkers :: bool
  boInsertCnt :: nat
  boRemoveCnt :: nat
  boStartL2EN :: int
  boLastStrongRTL :: int
  boReqImpToImp :: bool
  boImpToImpOrient :: int
  boImpToImpPhase :: int
  boDelim1 :: u16
  boDelim2 :: u16

definition zeroFlag :: BidiFlag where "zeroFlag = \<lparr>flValue = 0, flMask = 0\<rparr>"

definition newOrder :: "BidiTransform \<Rightarrow> bidiOrder" where
  "newOrder bdx =
     \<lparr>boIx = 0, boOutLev = 0, boBasLev = 0, boCurLev = 0, boImpSta = 0, boCondPos = 0, boXType = 0, boWTarget = 0,
      boNumFlag = zeroFlag, boSymmetric = False, boOrientIn = zeroFlag, boOrientOut = zeroFlag, boTypeIn = zeroFlag,
      boTypeOut = zeroFlag, boBdx = bdx, boSize = 0, boBufferIn = [], boBufferOut = [], boInvertInput = False,
      boVisToVis = False, boImpTab = [], boTypeArray = [], boInsertMarkers = False, boInsertCnt = 0, boRemoveCnt = 0,
      boStartL2EN = 0, boLastStrongRTL = 0, boReqImpToImp = False, boImpToImpOrient = 0, boImpToImpPhase = 0,
      boDelim1 = 0, boDelim2 = 0\<rparr>"

definition onBdx :: "(BidiTransform \<Rightarrow> BidiTransform) \<Rightarrow> bidiOrder \<Rightarrow> bidiOrder" where
  "onBdx f ord = ord\<lparr>boBdx := f (boBdx ord)\<rparr>"

definition origType :: "bidiOrder \<Rightarrow> nat \<Rightarrow> int" where
  "origType ord i = fst (boTypeArray ord ! i)"

definition finalType :: "bidiOrder \<Rightarrow> nat \<Rightarrow> int" where
  "finalType ord i = snd (boTypeArray ord ! i)"

definition setOrig :: "nat \<Rightarrow> int \<Rightarrow> bidiOrder \<Rightarrow> bidiOrder" where
  "setOrig i t ord = ord\<lparr>boTypeArray := (boTypeArray ord)[i := (t, finalType ord i)]\<rparr>"

definition setFinal :: "nat \<Rightarrow> int \<Rightarrow> bidiOrder \<Rightarrow> bidiOrder" where
  "setFinal i t ord = ord\<lparr>boTypeArray := (boTypeArray ord)[i := (origType ord i, t)]\<rparr>"

definition setLevel :: "nat \<Rightarrow> int \<Rightarrow> bidiOrder \<Rightarrow> bidiOrder" where
  "setLevel i level = onBdx (\<lambda>b. b\<lparr>bxPropertyMap := (bxPropertyMap b)[i := byte_of level]\<rparr>)"

definition d2s :: "bidiOrder \<Rightarrow> nat \<Rightarrow> nat" where
  "d2s ord i = nat (bxDstToSrcMap (boBdx ord) ! i)"

subsection \<open>Insertion points\<close>

definition insertPoints :: "bidiOrder \<Rightarrow> int list" where
  "insertPoints ord = (case bxInsertPoints (boBdx ord) of None \<Rightarrow> [] | Some ps \<Rightarrow> ps)"

definition pointKey :: "int \<Rightarrow> int \<Rightarrow> u16 \<Rightarrow> int" where
  "pointKey pos aft mark = int32 (int32 (int32 (int32 pos * 2 ^ 17) + int32 aft) + uint mark)"

definition addPoint :: "int \<Rightarrow> int \<Rightarrow> u16 \<Rightarrow> bidiOrder \<Rightarrow> bidiOrder" where
  "addPoint pos aft mark ord =
     onBdx (\<lambda>b. b\<lparr>bxInsertPoints := Some (insertPoints ord @ [pointKey pos aft mark])\<rparr>) ord"

definition setVectorSize :: "int list \<Rightarrow> nat \<Rightarrow> int list" where
  "setVectorSize v n = (if n \<le> length v then take n v else v @ replicate (n - length v) 0)"

text \<open>\<open>if bdx.insertPoints != nil\<close> cut the vector.\<close>

definition cutPoints :: "nat \<Rightarrow> bidiOrder \<Rightarrow> bidiOrder" where
  "cutPoints n = onBdx (\<lambda>b. b\<lparr>bxInsertPoints := map_option (\<lambda>v. setVectorSize v n) (bxInsertPoints b)\<rparr>)"

text \<open>The first position after a run of digits, from \<open>i\<close> on, and the last one before it.\<close>

function runAfter :: "(int \<Rightarrow> bool) \<Rightarrow> bidiOrder \<Rightarrow> nat \<Rightarrow> nat" where
  "runAfter P ord i = (if i < boSize ord \<and> P (finalType ord i) then runAfter P ord (i + 1) else i)"
  by pat_completeness auto
termination by (relation "measure (\<lambda>(P, ord, i). boSize ord - i)") auto

declare runAfter.simps [simp del]

function runBefore :: "(int \<Rightarrow> bool) \<Rightarrow> bidiOrder \<Rightarrow> int \<Rightarrow> int" where
  "runBefore P ord i = (if i \<ge> 0 \<and> P (finalType ord (nat i)) then runBefore P ord (i - 1) else i)"
  by pat_completeness auto
termination by (relation "measure (\<lambda>(P, ord, i). nat (i + 1))") auto

declare runBefore.simps [simp del]

definition afterAN :: "bidiOrder \<Rightarrow> int \<Rightarrow> int" where
  "afterAN ord i = int (runAfter (\<lambda>t. t = ubatAN) ord (nat i))"

definition afterENAN :: "bidiOrder \<Rightarrow> int \<Rightarrow> int" where
  "afterENAN ord i = int (runAfter (\<lambda>t. t = ubatEN \<or> t = ubatAN) ord (nat i))"

definition beforeENAN :: "bidiOrder \<Rightarrow> int \<Rightarrow> int" where
  "beforeENAN ord i = runBefore (\<lambda>t. t = ubatEN \<or> t = ubatAN) ord i"

subsection \<open>Implicit levels\<close>

definition symmetricSwap :: "nat \<Rightarrow> int \<Rightarrow> int \<Rightarrow> bidiOrder \<Rightarrow> bidiOrder" where
  "symmetricSwap i oldLevel level ord =
     (if boSymmetric ord \<and> odd (oldLevel XOR level) then
        let pos = (if boImpToImpPhase ord = 2 then d2s ord i else i) in
        if origType ord pos = ubatN then setOrig pos ubatNSwap ord
        else if origType ord pos = ubatNSwap then setOrig pos ubatN ord else ord
      else ord)"

definition relevel :: "int \<Rightarrow> nat \<Rightarrow> bidiOrder \<Rightarrow> bidiOrder" where
  "relevel level i ord =
     symmetricSwap i (int8 (bxPropertyMap (boBdx ord) ! i)) level (setLevel i level ord)"

text \<open>The positions from \<open>ucbCondPos\<close> to before the current one.\<close>

definition relevelRun :: "int \<Rightarrow> bidiOrder \<Rightarrow> bidiOrder res" where
  "relevelRun level ord =
     (if boCondPos ord < 0 \<and> boCondPos ord < boIx ord then index_panic
      else Inr (fold (relevel level) [nat (boCondPos ord)..<nat (boIx ord)] ord))"

definition tableAt :: "int list list \<Rightarrow> int \<Rightarrow> int \<Rightarrow> int res" where
  "tableAt tab i j =
     (if 0 \<le> i \<and> i < int (length tab) \<and> 0 \<le> j \<and> j < int (length (tab ! nat i)) then Inr (tab ! nat i ! nat j) else index_panic)"

text \<open>An L after R or AL and possibly digits.\<close>

definition actionL :: "int \<Rightarrow> bidiOrder \<Rightarrow> bidiOrder" where
  "actionL newLevel ord0 =
     (let ord1 = (if boStartL2EN ord0 \<ge> 0 then addPoint (boStartL2EN ord0) pointBefore lrm ord0 else ord0);
          ord = ord1\<lparr>boStartL2EN := -1\<rparr> in
      if length (insertPoints ord) \<le> boInsertCnt ord then ord\<lparr>boLastStrongRTL := -1\<rparr>
      else
        let ord2 = fold (\<lambda>i od. setOrig i \<bar>origType od i\<bar> (setLevel i newLevel od))
              [nat (boLastStrongRTL ord + 1)..<nat (boIx ord)] ord in
        ord2\<lparr>boInsertCnt := length (insertPoints ord2), boLastStrongRTL := -1\<rparr>)"

text \<open>EN or AN after R or AL.\<close>

definition actionDigit :: "bidiOrder \<Rightarrow> bidiOrder" where
  "actionDigit ord0 =
     (let ord = ord0\<lparr>boCondPos := -1\<rparr> in
      if boXType ord = ubatAN \<and> origType ord (nat (boIx ord)) = ubatAN \<and> \<not> bxWinCompatible (boBdx ord) then
        (if boStartL2EN ord = -1 then ord\<lparr>boLastStrongRTL := afterAN ord (boIx ord) - 1\<rparr>
         else
           let ord1 = (if boStartL2EN ord \<ge> 0
                 then (addPoint (boStartL2EN ord) pointBefore lrm ord)\<lparr>boStartL2EN := -2\<rparr> else ord) in
           addPoint (boIx ord) pointBefore lrm ord1)
      else if boStartL2EN ord = -1 then ord\<lparr>boStartL2EN := boIx ord\<rparr> else ord)"

definition actionAN :: "bidiOrder \<Rightarrow> bidiOrder" where
  "actionAN ord =
     (let pos = afterENAN ord (boIx ord); i = beforeENAN ord (boIx ord) in
      if (pos \<ge> int (boSize ord) \<or> finalType ord (nat pos) = ubatL \<or> finalType ord (nat pos) = ubatR) \<and>
         i \<ge> 0 \<and> finalType ord (nat i) = ubatL
      then ord
      else addPoint (i + 1) pointBefore lrm (addPoint (pos - 1) pointAfter lrm ord))"

definition implicitAction :: "int \<Rightarrow> int \<Rightarrow> bidiOrder \<Rightarrow> bidiOrder res" where
  "implicitAction special newLevel ord =
     (if special = 1 then
        res_bind (relevelRun (int8 (boCurLev ord + 1)) ord) (\<lambda>od. Inr (od\<lparr>boCondPos := -1\<rparr>))
      else if special = 2 then Inr (ord\<lparr>boCondPos := -1\<rparr>)
      else if special = 3 then Inr (actionL newLevel ord)
      else if special = 4 then
        Inr ((cutPoints (boInsertCnt ord) ord)\<lparr>boStartL2EN := -1, boLastStrongRTL := boIx ord\<rparr>)
      else if special = 5 then Inr (actionDigit ord)
      else if special = 6 then Inr (ord\<lparr>boLastStrongRTL := boIx ord\<rparr>)
      else if special = 7 then
        (let i = beforeENAN ord (boIx ord - 1) in
         if i < 0 then Inr ord
         else let od = addPoint i pointBefore rlm ord in Inr (od\<lparr>boInsertCnt := length (insertPoints od)\<rparr>))
      else if special = 8 then Inr (actionAN ord)
      else if special = 9 then Inr ((cutPoints (boInsertCnt ord) ord)\<lparr>boCondPos := -1\<rparr>)
      else if special = 10 then
        Inr (if bxInsertPoints (boBdx ord) \<noteq> None then ord\<lparr>boInsertCnt := length (insertPoints ord)\<rparr> else ord)
      else Inl (Panic ''bidi: invalid action number''))"

definition conditionalRun :: "int \<Rightarrow> int \<Rightarrow> bidiOrder \<Rightarrow> bidiOrder res" where
  "conditionalRun sCond newLevel ord =
     (if sCond = 0 then
        (if boCondPos ord > -1 then res_bind (relevelRun newLevel ord) (\<lambda>od. Inr (od\<lparr>boCondPos := -1\<rparr>)) else Inr ord)
      else if boCondPos ord = -1 then Inr (ord\<lparr>boCondPos := boIx ord\<rparr>) else Inr ord)"

definition implicitProcessing :: "bidiOrder \<Rightarrow> bidiOrder res" where
  "implicitProcessing ord =
     res_bind (tableAt (boImpTab ord) (boImpSta ord) (boXType ord)) (\<lambda>entry.
       let special = drop_bit 4 entry; newIS = entry AND 0x0F in
       res_bind (tableAt (boImpTab ord) newIS (int itil)) (\<lambda>newIL.
         let newLevel = int8 (boCurLev ord + newIL) in
         res_bind (if special > 0 then implicitAction special newLevel ord else Inr ord) (\<lambda>ord1.
         res_bind (tableAt (boImpTab ord1) newIS (int itcond)) (\<lambda>sCond.
         res_bind (conditionalRun sCond newLevel ord1) (\<lambda>ord2.
           Inr (ord2\<lparr>boImpSta := newIS, boWTarget := (if boXType ord2 = ubatB then 0 else newLevel)\<rparr>))))))"

subsection \<open>Types\<close>

definition strongOf :: "u16 list \<Rightarrow> int" where
  "strongOf cs =
     (case find (\<lambda>c. getChType c \<in> {ubatL, ubatR, ubatAL}) cs of
        None \<Rightarrow> ubatN | Some c \<Rightarrow> if getChType c = ubatL then ubatL else ubatR)"

definition interesting :: "BidiText \<Rightarrow> u16 list" where
  "interesting t = slice (txOffset t) (txOffset t + txCount t) (txChars t)"

definition firstStrong :: "BidiText \<Rightarrow> int" where
  "firstStrong src = strongOf (interesting src)"

definition lastStrong :: "BidiText \<Rightarrow> int" where
  "lastStrong src = strongOf (rev (interesting src))"

text \<open>The state of the scan for delimiters, and the class of the character.\<close>

definition delimStep :: "bidiOrder \<Rightarrow> nat \<Rightarrow> int \<Rightarrow> nat \<Rightarrow> int \<times> nat" where
  "delimStep ord i cType delimState =
     (let c = boBufferIn ord ! i in
      if boDelim1 ord = noDelim then (cType, delimState)
      else if delimState = 0 then (ubatB, if c = boDelim1 ord then 1 else 0)
      else if delimState = 1 then
        (if c = boDelim2 ord then
           (if i + 1 < boSize ord \<and> boBufferIn ord ! (i + 1) = boDelim2 ord then (cType, 2) else (ubatB, 0))
         else (cType, 1))
      else (cType, 1))"

text \<open>The terminators before a European digit become digits; \<open>at\<close> is the place of a position in the type array.\<close>

fun terminatorsBack :: "(nat \<Rightarrow> nat) \<Rightarrow> nat \<Rightarrow> bidiOrder \<Rightarrow> bidiOrder" where
  "terminatorsBack at 0 ord = ord"
| "terminatorsBack at (Suc n) ord =
     (if origType ord (at n) = ubatET then terminatorsBack at n (setFinal (at n) ubatEN ord) else ord)"

definition europeanDigit :: "(nat \<Rightarrow> nat) \<Rightarrow> nat \<Rightarrow> bool \<Rightarrow> bidiOrder \<Rightarrow> bidiOrder" where
  "europeanDigit at i isArabic ord =
     (let wType = (if isArabic then ubatAN else ubatEN);
          ord1 = (if isArabic then ord
            else terminatorsBack at i
              (if i \<ge> 2 \<and> origType ord (at (i - 1)) = ubatES \<and> origType ord (at (i - 2)) = ubatEN
               then setFinal (at (i - 1)) ubatEN ord else ord));
          ord2 = (if i \<ge> 2 \<and> origType ord1 (at (i - 1)) = ubatCS \<and> origType ord1 (at (i - 2)) = ubatEN
            then setFinal (at (i - 1)) wType ord1 else ord1) in
      setFinal (at i) wType ord2)"

definition typeStep :: "nat \<Rightarrow> bidiOrder \<times> bool \<times> nat \<Rightarrow> bidiOrder \<times> bool \<times> nat" where
  "typeStep i st =
     (case st of (ord0, isArabic, delimState0) \<Rightarrow>
        let cType0 = getChTypeWB (boBufferIn ord0 ! i) (bxWordBreak (boBdx ord0));
            ord = ord0\<lparr>boTypeArray := (boTypeArray ord0)[i := (cType0, ubatN)]\<rparr>;
            (cType, delimState) = delimStep ord i cType0 delimState0 in
        if boVisToVis ord then (ord, isArabic, delimState)
        else if cType = ubatB then (setFinal i ubatB ord, False, delimState)
        else if cType = ubatS then (setFinal i ubatS ord, isArabic, delimState)
        else if cType = ubatL then (setFinal i ubatL ord, False, delimState)
        else if cType = ubatR then (setFinal i ubatR ord, False, delimState)
        else if cType = ubatAL then (setFinal i ubatR ord, True, delimState)
        else if cType = ubatEN then (europeanDigit (\<lambda>k. k) i isArabic ord, isArabic, delimState)
        else if cType = ubatAN then
          (setFinal i ubatAN
             (if i \<ge> 2 \<and> origType ord (i - 1) = ubatCS \<and> finalType ord (i - 2) = ubatAN then setFinal (i - 1) ubatAN ord else ord),
           isArabic, delimState)
        else if cType = ubatW then (setFinal i ubatW ord, isArabic, delimState)
        else if cType = ubatET then
          ((if i > 0 \<and> finalType ord (i - 1) = ubatEN then setFinal i ubatEN ord else ord), isArabic, delimState)
        else if cType = ubatNSM then ((if i = 0 then ord else setFinal i (finalType ord (i - 1)) ord), isArabic, delimState)
        else (ord, isArabic, delimState))"

definition fillTypeArray :: "bidiOrder \<Rightarrow> bidiOrder" where
  "fillTypeArray ord = fst (fold typeStep [0..<boSize ord] (ord, False, 0))"

definition typeStep2 :: "nat \<Rightarrow> bidiOrder \<times> bool \<Rightarrow> bidiOrder \<times> bool" where
  "typeStep2 i st =
     (case st of (ord0, isArabic) \<Rightarrow>
        let k = d2s ord0 i;
            delim = (boDelim1 ord0 \<noteq> noDelim \<and> finalType ord0 k = ubatB);
            cType = (if delim then ubatB else origType ord0 k);
            ord = (if delim then ord0 else setFinal k ubatN ord0) in
        if cType = ubatB then (setFinal k ubatB ord, False)
        else if cType = ubatS then (setFinal k ubatS ord, isArabic)
        else if cType = ubatL then (setFinal k ubatL ord, False)
        else if cType = ubatR then (setFinal k ubatR ord, False)
        else if cType = ubatAL then (setFinal k ubatR ord, True)
        else if cType = ubatEN then (europeanDigit (d2s ord) i isArabic ord, isArabic)
        else if cType = ubatAN then
          (setFinal k ubatAN
             (if i \<ge> 2 \<and> origType ord (d2s ord (i - 1)) = ubatCS \<and> origType ord (d2s ord (i - 2)) = ubatAN
              then setFinal (d2s ord (i - 1)) ubatAN ord else ord), isArabic)
        else if cType = ubatW then (setFinal k ubatW ord, isArabic)
        else if cType = ubatET then
          ((if i > 0 \<and> finalType ord (d2s ord (i - 1)) = ubatEN then setFinal k ubatEN ord else ord), isArabic)
        else (ord, isArabic))"

definition fillTypeArray2 :: "bidiOrder \<Rightarrow> bidiOrder" where
  "fillTypeArray2 ord = fst (fold typeStep2 [0..<boSize ord] (ord, False))"

definition markerStart :: "bidiOrder \<Rightarrow> bidiOrder" where
  "markerStart ord = (cutPoints 0 ord)\<lparr>boStartL2EN := -1, boLastStrongRTL := -1\<rparr>"

definition baseLvl :: "bidiOrder \<Rightarrow> bidiOrder" where
  "baseLvl ord0 =
     (let bas = (if boOrientIn ord0 = orientationRTL then 1 else 0); out = (if boOrientOut ord0 = orientationRTL then 1 else 0);
          rtl = (boOrientIn ord0 = orientationRTL);
          ord = ord0\<lparr>boVisToVis := (boTypeIn ord0 = typeVisual \<and> boTypeOut ord0 = typeVisual),
            boBasLev := bas, boOutLev := out, boCurLev := (if bas = 0 \<and> out = 1 then 2 else bas)\<rparr>;
          ord1 =
            (if bxRoundTrip (boBdx ord) then ord\<lparr>boImpTab := (if rtl then impTabRTLr else impTabLTRr)\<rparr>
             else if bxWinCompatible (boBdx ord) then
               (if boInsertMarkers ord then markerStart (ord\<lparr>boImpTab := (if rtl then impTabRTLm else impTabLTRwm)\<rparr>)
                else ord\<lparr>boImpTab := (if rtl then impTabRTL else impTabLTRw)\<rparr>)
             else if boInsertMarkers ord then markerStart (ord\<lparr>boImpTab := (if rtl then impTabRTLm else impTabLTRm)\<rparr>)
             else ord\<lparr>boImpTab := (if rtl then impTabRTL else impTabLTR)\<rparr>) in
      ord1\<lparr>boInsertCnt := 0, boRemoveCnt := 0, boImpSta := 0, boCondPos := -1\<rparr>)"

subsection \<open>Reordering\<close>

fun invertInts :: "'a list \<Rightarrow> nat \<Rightarrow> nat \<Rightarrow> 'a list" where
  "invertInts buffer lower upper =
     (if lower < upper
      then invertInts (buffer[lower := buffer ! upper, upper := buffer ! lower]) (lower + 1) (upper - 1) else buffer)"

declare invertInts.simps [simp del]

function runEnd :: "int list \<Rightarrow> nat \<Rightarrow> int \<Rightarrow> nat \<Rightarrow> nat" where
  "runEnd pm n work i = (if i < n \<and> int8 (pm ! i) \<ge> work then runEnd pm n work (i + 1) else i)"
  by pat_completeness auto
termination by (relation "measure (\<lambda>(pm, n, work, i). n - i)") auto

declare runEnd.simps [simp del]

lemma runEnd_ge: "i \<le> runEnd pm n work i"
proof (induction pm n work i rule: runEnd.induct)
  case (1 pm n work i)
  then show ?case by (subst runEnd.simps) (auto simp: Suc_leD)
qed

text \<open>Each maximal run of levels at or above \<open>work\<close> is reversed.\<close>

function flipRuns :: "int list \<Rightarrow> nat \<Rightarrow> int \<Rightarrow> nat \<Rightarrow> int list \<Rightarrow> int list" where
  "flipRuns pm n work i d =
     (if i < n then
        if int8 (pm ! i) < work then flipRuns pm n work (i + 1) d
        else let j = runEnd pm n work (i + 1) in flipRuns pm n work j (invertInts d i (j - 1))
      else d)"
  by pat_completeness auto
termination
proof (relation "measure (\<lambda>(pm, n, work, i, d). n - i)")
  fix pm n work i j
  assume "i < n" "j = runEnd pm n work (i + 1)"
  moreover have "i + 1 \<le> runEnd pm n work (i + 1)" by (rule runEnd_ge)
  ultimately show "((pm, n, work, j, d'), pm, n, work, i, d) \<in> measure (\<lambda>(pm, n, work, i, d). n - i)" for d d' by simp
qed auto

declare flipRuns.simps [simp del]

definition pass2 :: "bidiOrder \<Rightarrow> bidiOrder" where
  "pass2 ord =
     (let n = boSize ord; pm = bxPropertyMap (boBdx ord); levels = map int8 (take n pm);
          ord1 = (if boImpToImpPhase ord \<noteq> 2
            then onBdx (\<lambda>b. b\<lparr>bxDstToSrcMap := map int [0..<n] @ drop n (bxDstToSrcMap b)\<rparr>) ord else ord);
          lowest = fold min levels 100; highest = fold max levels 0 in
      if boReqImpToImp ord1 \<and> boImpToImpOrient ord1 = 0 then ord1
      else
        let low = (if boOrientOut ord1 = orientationRTL then (lowest + 1) AND NOT 1 else lowest OR 1) in
        onBdx (\<lambda>b. b\<lparr>bxDstToSrcMap := fold (\<lambda>work. flipRuns pm n work 0) (rev [low..highest]) (bxDstToSrcMap b)\<rparr>) ord1)"

definition outChar :: "bidiOrder \<Rightarrow> nat \<Rightarrow> u16" where
  "outChar ord logPos =
     (let xchar = boBufferIn ord ! logPos; xtype = origType ord logPos in
      if xtype = ubatEN then
        (if boNumFlag ord = numeralsNational \<or> (boNumFlag ord = numeralsContextual \<and> finalType ord logPos = ubatAN)
         then xchar + 0x0630 else xchar)
      else if xtype = ubatAN then (if boNumFlag ord = numeralsNominal then xchar - 0x0630 else xchar)
      else if xtype = ubatNSwap then ucqsymm xchar
      else xchar)"

definition pass3 :: "bidiOrder \<Rightarrow> bidiOrder" where
  "pass3 ord = ord\<lparr>boBufferOut := map (\<lambda>i. outChar ord (d2s ord i)) [0..<boSize ord]\<rparr>"

text \<open>One character of a pass; the second pass goes through the characters in the order of the first.\<close>

definition charStep :: "bool \<Rightarrow> nat \<Rightarrow> bidiOrder \<Rightarrow> bidiOrder res" where
  "charStep second ix ord =
     (let ipos = (if second then d2s ord ix else ix) in
      res_bind (implicitProcessing (ord\<lparr>boIx := int ix, boXType := finalType ord ipos\<rparr>)) (\<lambda>ord1.
        let ord2 = setLevel ix (boWTarget ord1) ord1; t = origType ord2 ipos in
        Inr (if boSymmetric ord2 \<and> odd (boWTarget ord2) \<and> (if second then \<bar>t\<bar> = ubatN else t = ubatN)
             then setOrig ipos (if second then - t else ubatNSwap) ord2 else ord2)))"

definition levelPass :: "bool \<Rightarrow> bidiOrder \<Rightarrow> bidiOrder res" where
  "levelPass second ord =
     res_bind (res_fold (charStep second) [0..<boSize ord] ord) (\<lambda>ord1.
     res_bind (implicitProcessing (ord1\<lparr>boIx := int (boSize ord1), boXType := ubatB\<rparr>)) (\<lambda>ord2. Inr (pass2 ord2)))"

definition implicitToImplicit :: "BidiText \<Rightarrow> BidiText \<Rightarrow> bidiOrder \<Rightarrow> bidiOrder res" where
  "implicitToImplicit src dst ord =
     (let origOut = boOrientOut ord;
          ord1 = fillTypeArray (baseLvl (ord\<lparr>boImpToImpPhase := 1, boOrientOut := orientationLTR,
            boSymmetric := (GetSwap (txFlags src) = swapYes)\<rparr>)) in
      res_bind (levelPass False ord1) (\<lambda>ord2.
        let origIn = boOrientIn ord2;
            ord3 = ord2\<lparr>boOrientOut := origOut, boImpToImpPhase := 2\<rparr>;
            ord4 = (if boImpToImpOrient ord3 = impLTR
              then onBdx (\<lambda>b. b\<lparr>bxDstToSrcMap := invertInts (bxDstToSrcMap b) 0 (boSize ord3 - 1)\<rparr>) (ord3\<lparr>boOrientIn := orientationRTL\<rparr>)
              else ord3\<lparr>boOrientIn := orientationLTR\<rparr>);
            ord5 = fillTypeArray2 (baseLvl (ord4\<lparr>boSymmetric := (GetSwap (txFlags dst) = swapYes)\<rparr>)) in
        res_bind (levelPass True ord5) (\<lambda>ord6. Inr (ord6\<lparr>boOrientIn := origIn, boSymmetric := True\<rparr>))))"

definition resolveIn :: "BidiText \<Rightarrow> BidiFlag \<Rightarrow> BidiFlag" where
  "resolveIn src orient =
     (if orient = orientationContextLTR \<or> orient = orientationContextRTL then
        let st = firstStrong src in
        if st = ubatL then orientationLTR
        else if st = ubatR then orientationRTL
        else if orient = orientationContextRTL then orientationRTL else orientationLTR
      else orient)"

definition resolveOut :: "BidiText \<Rightarrow> BidiFlag \<Rightarrow> BidiFlag" where
  "resolveOut src orient =
     (if orient = orientationContextLTR \<or> orient = orientationContextRTL then
        let st = firstStrong src in
        if st = ubatL then (if lastStrong src = ubatR then orientationRTL else orientationLTR)
        else if st = ubatR then orientationRTL
        else if orient = orientationContextRTL then orientationRTL else orientationLTR
      else orient)"

definition padTo :: "nat \<Rightarrow> int list \<Rightarrow> int list" where
  "padTo n xs = (if length xs < n then replicate n 0 else xs)"

text \<open>The fields set before the levels are computed.\<close>

definition orderSetup :: "BidiText \<Rightarrow> BidiText \<Rightarrow> BidiTransform \<Rightarrow> bidiOrder \<Rightarrow> bidiOrder" where
  "orderSetup src dst bdx ord =
     (let n = txCount src; text0 = interesting src;
          inO = resolveIn src (GetOrientation (txFlags src)); outO = resolveOut src (GetOrientation (txFlags dst));
          inT = GetType (txFlags src); outT = GetType (txFlags dst);
          req = (inT = typeImplicit \<and> outT = typeImplicit);
          i2i = (bxImpToImp bdx \<and> req \<and> inO \<noteq> outO);
          delims = bxDelimiters bdx; markers = bxInsertMarkers bdx;
          invert = (inT = typeVisual \<and> outT = typeImplicit \<and> ((markers \<and> inO = orientationRTL) \<or> (\<not> markers \<and> inO \<noteq> outO)));
          inO1 = (if invert then (if markers then orientationLTR else outO) else inO);
          keep = (markers \<and> \<not> (inT \<noteq> typeVisual \<or> outT \<noteq> typeImplicit \<or> bxRemoveMarkers bdx));
          turn = (keep \<and> outO = orientationRTL) in
      ord\<lparr>boOrientIn := (if turn then orientationRTL else inO1), boOrientOut := (if turn then orientationLTR else outO),
        boTypeIn := inT, boTypeOut := outT, boReqImpToImp := req,
        boImpToImpOrient := (if i2i then (if inO = orientationLTR then impLTR else impRTL) else 0),
        boImpToImpPhase := (if i2i then boImpToImpPhase ord else 0),
        boDelim1 := (if delims = [] then noDelim else delims ! 0),
        boDelim2 := (if delims = [] then boDelim2 ord else if length delims > 1 then delims ! 1 else delims ! 0),
        boInsertMarkers := keep, boInvertInput := invert, boBufferIn := (if invert then rev text0 else text0),
        boSize := n, boNumFlag := GetNumerals (txFlags dst),
        boSymmetric := (\<not> req \<and> GetSwap (txFlags dst) \<noteq> GetSwap (txFlags src)),
        boBufferOut := replicate n 0, boTypeArray := replicate n (0, 0),
        boBdx := bdx\<lparr>bxPropertyMap := padTo n (bxPropertyMap bdx), bxDstToSrcMap := padTo n (bxDstToSrcMap bdx)\<rparr>\<rparr>)"

definition isMarker :: "u16 \<Rightarrow> bool" where
  "isMarker c \<longleftrightarrow> c = lrm \<or> c = rlm"

text \<open>The characters that stay move to the front, in place.\<close>

definition removeStep :: "nat \<Rightarrow> u16 list \<times> int list \<times> nat \<Rightarrow> u16 list \<times> int list \<times> nat" where
  "removeStep pos st =
     (case st of (buf, dmap, cnt) \<Rightarrow>
        if isMarker (buf ! pos) then (buf, dmap, cnt + 1)
        else if cnt > 0 then (buf[pos - cnt := buf ! pos], dmap[pos - cnt := dmap ! pos], cnt)
        else st)"

definition removeMarks :: "nat \<Rightarrow> bidiOrder \<Rightarrow> bidiOrder" where
  "removeMarks n ord =
     (case fold removeStep [0..<n] (boBufferOut ord, bxDstToSrcMap (boBdx ord), boRemoveCnt ord) of (buf, dmap, cnt) \<Rightarrow>
        onBdx (\<lambda>b. b\<lparr>bxDstToSrcMap := dmap\<rparr>) (ord\<lparr>boBufferOut := buf, boRemoveCnt := cnt\<rparr>))"

subsection \<open>Inserted marks\<close>

definition pointParts :: "int \<Rightarrow> int \<times> int \<times> u16" where
  "pointParts p = (int32 (drop_bit 17 p), p AND 0x10000, word_of_int p)"

text \<open>A point in a right-to-left destination is moved to the position of its character there.\<close>

definition movePoint :: "nat \<Rightarrow> int list \<Rightarrow> int \<Rightarrow> int" where
  "movePoint n dmap p =
     (case pointParts p of (ipos, aft, mark) \<Rightarrow>
        pointKey (case find (\<lambda>k. dmap ! k = ipos) [0..<n] of None \<Rightarrow> ipos | Some k \<Rightarrow> int k) aft mark)"

definition placePoints :: "nat \<Rightarrow> bidiOrder \<Rightarrow> bidiOrder" where
  "placePoints n ord =
     (if boBasLev ord = 1 then
        let ps = insertPoints ord; dmap = bxDstToSrcMap (boBdx ord);
            moved = map (movePoint n dmap) (take (boInsertCnt ord) ps) @ drop (boInsertCnt ord) ps in
        onBdx (\<lambda>b. b\<lparr>bxInsertPoints := Some (sort moved)\<rparr>) ord
      else ord)"

text \<open>The state is the data, the map, and the position in the source of the copy; \<open>i\<close> counts the points.\<close>

definition insertStep :: "nat \<Rightarrow> bidiOrder \<Rightarrow> bool \<Rightarrow> nat \<Rightarrow> u16 list \<times> int list \<times> int \<Rightarrow> (u16 list \<times> int list \<times> int) res" where
  "insertStep offset ord mapped i st =
     (case st of (data, tmap, pos) \<Rightarrow>
        case pointParts (insertPoints ord ! i) of (ipos0, aft, mark) \<Rightarrow>
        let ipos = ipos0 + drop_bit 16 aft; base = int offset + int i in
        res_bind (int_sub pos ipos (boBufferOut ord)) (\<lambda>piece.
        res_bind (copy_slice data (base + pos) (base + ipos) piece) (\<lambda>data1.
        res_bind (copy_slice data1 (base + ipos) (base + ipos + 1) [mark]) (\<lambda>data2.
          if mapped then
            res_bind (int_sub pos ipos (bxDstToSrcMap (boBdx ord))) (\<lambda>mpiece.
            res_bind (copy_slice tmap (pos + int i) (ipos + int i) mpiece) (\<lambda>tmap1.
            res_bind (copy_slice tmap1 (ipos + int i) (ipos + int i + 1) [-1]) (\<lambda>tmap2. Inr (data2, tmap2, ipos))))
          else Inr (data2, tmap, ipos)))))"

definition insertMarks :: "nat \<Rightarrow> nat \<Rightarrow> bool \<Rightarrow> u16 list \<Rightarrow> bidiOrder \<Rightarrow> (u16 list \<times> bidiOrder) res" where
  "insertMarks offset dstCount mapped data ord =
     (let c = boInsertCnt ord in
      if length (insertPoints ord) < c then index_panic
      else
      res_bind (res_fold (insertStep offset ord mapped) [0..<c] (data, replicate dstCount 0, 0)) (\<lambda>(data1, tmap1, pos).
        let n = int dstCount - pos - int c in
        res_bind (int_sub pos (pos + n) (boBufferOut ord)) (\<lambda>piece.
        res_bind (copy_slice data1 (int offset + pos + int c) (int offset + pos + int c + n) piece) (\<lambda>data2.
          if mapped then
            res_bind (int_sub pos (pos + n) (bxDstToSrcMap (boBdx ord))) (\<lambda>mpiece.
            res_bind (copy_slice tmap1 (pos + int c) (pos + int c + n) mpiece) (\<lambda>tmap2.
              Inr (data2, onBdx (\<lambda>b. b\<lparr>bxDstToSrcMap := tmap2\<rparr>) ord)))
          else Inr (data2, ord)))))"

subsection \<open>The whole order\<close>

text \<open>The room for the output: the output buffer itself when the destination has no data and nothing is inserted.\<close>

definition destData :: "BidiText \<Rightarrow> bidiOrder \<Rightarrow> nat \<Rightarrow> u16 list" where
  "destData dst ord dstCount =
     (let data = (case txData dst of
            None \<Rightarrow> if txOffset dst = 0 \<and> boInsertCnt ord = 0 then boBufferOut ord else replicate (txOffset dst + dstCount) 0
          | Some d \<Rightarrow> d) in
      if txOffset dst + dstCount > length data
      then take (txOffset dst) data @ replicate (txOffset dst + dstCount - min (txOffset dst) (length data)) 0
      else data)"

definition sharesOutput :: "BidiText \<Rightarrow> bidiOrder \<Rightarrow> bool" where
  "sharesOutput dst ord \<longleftrightarrow> txData dst = None \<and> txOffset dst = 0 \<and> boInsertCnt ord = 0"

definition sourceMap :: "nat \<Rightarrow> nat \<Rightarrow> bidiOrder \<Rightarrow> bidiOrder" where
  "sourceMap n dstCount ord =
     (if bxSrcToDstMapRequired (boBdx ord) then
        let b = boBdx ord; old = padTo n (bxSrcToDstMap b);
            cleared = (if boRemoveCnt ord > 0 then replicate n (-1) @ drop n old else old);
            filled = fold (\<lambda>i m. let pos = bxDstToSrcMap b ! i in if pos \<ge> 0 then m[nat pos := int i] else m) [0..<dstCount] cleared in
        onBdx (\<lambda>b. b\<lparr>bxSrcToDstMap := filled\<rparr>) ord
      else ord)"

definition propertyMap :: "nat \<Rightarrow> bidiOrder \<Rightarrow> bidiOrder" where
  "propertyMap n ord =
     (if bxPropertyMapRequired (boBdx ord) then
        let pm = bxPropertyMap (boBdx ord);
            marked = map (\<lambda>i. if i < n \<and> origType ord i \<noteq> ubatNSM then pm ! i OR 0x80 else pm ! i) [0..<length pm] in
        onBdx (\<lambda>b. b\<lparr>bxPropertyMap := (if boInvertInput ord then invertInts marked 0 (n - 1) else marked)\<rparr>) ord
      else ord)"

definition levelsAndMap :: "BidiText \<Rightarrow> BidiText \<Rightarrow> bidiOrder \<Rightarrow> bidiOrder res" where
  "levelsAndMap src dst ord =
     (if boImpToImpOrient ord > 0 then implicitToImplicit src dst ord else levelPass False (fillTypeArray (baseLvl ord)))"

definition mapsRequired :: "BidiTransform \<Rightarrow> bool" where
  "mapsRequired b \<longleftrightarrow> bxDstToSrcMapRequired b \<or> bxSrcToDstMapRequired b"

definition uninvert :: "nat \<Rightarrow> bidiOrder \<Rightarrow> bidiOrder" where
  "uninvert n ord =
     (if mapsRequired (boBdx ord) \<and> boInvertInput ord then
        onBdx (\<lambda>b. b\<lparr>bxDstToSrcMap := map (\<lambda>x. int n - x - 1) (take n (bxDstToSrcMap b)) @ drop n (bxDstToSrcMap b)\<rparr>) ord
      else ord)"

definition orderTo :: "BidiText \<Rightarrow> BidiText \<Rightarrow> BidiTransform \<Rightarrow> bidiOrder \<Rightarrow> (BidiText \<times> BidiTransform \<times> bidiOrder) res" where
  "orderTo src dst bdx ord0 =
     (if txCount src < 1 then
        Inr (dst\<lparr>txData := (case txData dst of None \<Rightarrow> Some [] | d \<Rightarrow> d)\<rparr>, bdx\<lparr>bxInpCount := 0, bxOutCount := 0\<rparr>, ord0)
      else if length (txChars src) < txOffset src + txCount src then index_panic
      else
        let n = txCount src in
        res_bind (levelsAndMap src dst (orderSetup src dst bdx ord0)) (\<lambda>ord1.
          let ord2 = uninvert n (pass3 ord1);
              ord = (if bxRemoveMarkers (boBdx ord2) then removeMarks n ord2 else ord2);
              dstCount = n - boRemoveCnt ord + boInsertCnt ord;
              data = destData dst ord dstCount in
          res_bind
            (if boInsertCnt ord > 0 then
               insertMarks (txOffset dst) dstCount (mapsRequired (boBdx ord)) data (placePoints n ord)
             else if sharesOutput dst ord then Inr (data, ord)
             else res_bind (copy_slice data (int (txOffset dst)) (int (txOffset dst + dstCount)) (take dstCount (boBufferOut ord)))
                    (\<lambda>d. Inr (d, ord)))
            (\<lambda>(data1, ord3).
              let ord4 = propertyMap n (sourceMap n dstCount ord3);
                  bdx1 = (boBdx ord4)\<lparr>bxInpCount := n, bxOutCount := dstCount\<rparr> in
              Inr (dst\<lparr>txData := Some data1, txCount := dstCount\<rparr>, bdx1, ord4\<lparr>boBdx := bdx1\<rparr>))))"

section \<open>Lemmas\<close>

subsection \<open>Mirrored characters\<close>

lemma pairSearch_finds:
  assumes "0 \<le> low" "high < int (length tab)" "pairSearch tab low high x = Some y"
  shows "(x, y) \<in> set tab"
  using assms
proof (induction tab low high x rule: pairSearch.induct)
  case (1 tab low high x)
  define m where "m = (low + high) div 2"
  define c where "c = fst (tab ! nat m)"
  have le: "low \<le> high" using "1.prems"(3) by (subst (asm) pairSearch.simps) (simp split: if_splits)
  then have m: "0 \<le> m" "m < int (length tab)" "m \<le> high" using "1.prems"(1,2) by (auto simp: m_def)
  have e: "pairSearch tab low high x =
      (if x < c then pairSearch tab low (m - 1) x else if x > c then pairSearch tab (m + 1) high x else Some (snd (tab ! nat m)))"
    using le by (subst pairSearch.simps) (simp add: Let_def m_def c_def)
  consider "x < c" | "\<not> x < c" "x > c" | "x = c" by fastforce
  then show ?case
  proof cases
    case 1
    then show ?thesis using "1.IH"(1) [OF le refl refl] "1.prems" m e by (simp add: m_def [symmetric] c_def [symmetric])
  next
    case 2
    then show ?thesis using "1.IH"(2) [OF le refl refl] "1.prems" m e by (simp add: m_def [symmetric] c_def [symmetric])
  next
    case 3
    then have "(x, y) = tab ! nat m" using e "1.prems"(3) by (simp add: c_def prod_eq_iff)
    then show ?thesis using m by (metis nat_less_iff nth_mem)
  qed
qed

lemma symPairs_mutual: "list_all (\<lambda>(x, y). pairSearch symPairs 0 23 y = Some x) symPairs"
  unfolding symPairs_def by (simp add: pairSearch.simps Let_def)

lemma ucqsymm_involution: "ucqsymm (ucqsymm x) = x"
proof (cases "pairSearch symPairs 0 23 x")
  case (Some y)
  then have "(x, y) \<in> set symPairs" by (rule pairSearch_finds [rotated 2]) (simp_all add: symPairs_def)
  then have "pairSearch symPairs 0 23 y = Some x" using symPairs_mutual by (auto simp: list_all_iff)
  then show ?thesis using Some by (simp add: ucqsymm_def)
qed (simp add: ucqsymm_def)

subsection \<open>The tables\<close>

text \<open>What the automaton relies on: next states inside the table, actions up to 2 only, and action 1 only in a state that
  has an open conditional run.\<close>

definition good_table :: "int list list \<Rightarrow> bool" where
  "good_table tab \<longleftrightarrow>
     tab \<noteq> [] \<and> list_all (\<lambda>row. length row = 10 \<and>
       list_all (\<lambda>e. 0 \<le> e \<and> drop_bit 4 e \<le> 2 \<and> e AND 15 < int (length tab) \<and> (drop_bit 4 e = 1 \<longrightarrow> row ! 9 \<noteq> 0)) (take 8 row)) tab"

lemma good_tables: "good_table impTabLTR" "good_table impTabRTL" "good_table impTabLTRr" "good_table impTabRTLr" "good_table impTabLTRw"
  by (simp_all add: good_table_def impTabLTR_def impTabRTL_def impTabLTRr_def impTabRTLr_def impTabLTRw_def)

lemma good_tableD:
  assumes "good_table tab" "0 \<le> i" "i < int (length tab)" "0 \<le> j" "j < 8"
  defines "e \<equiv> tab ! nat i ! nat j"
  shows "tableAt tab i j = Inr e" "0 \<le> e" "drop_bit 4 e \<le> 2" "0 \<le> e AND 15" "e AND 15 < int (length tab)"
    "drop_bit 4 e = 1 \<Longrightarrow> tab ! nat i ! 9 \<noteq> 0"
proof -
  let ?row = "tab ! nat i"
  have "?row \<in> set tab" using assms(2,3) by simp
  then have r: "length ?row = 10"
      "list_all (\<lambda>e. 0 \<le> e \<and> drop_bit 4 e \<le> 2 \<and> e AND 15 < int (length tab) \<and> (drop_bit 4 e = 1 \<longrightarrow> ?row ! 9 \<noteq> 0)) (take 8 ?row)"
    using assms(1) by (auto simp: good_table_def list_all_iff)
  have "e \<in> set (take 8 ?row)" unfolding e_def using r(1) assms(4,5)
    by (intro in_set_conv_nth [THEN iffD2] exI [of _ "nat j"]) (simp add: nat_less_iff)
  then show "0 \<le> e" "drop_bit 4 e \<le> 2" "e AND 15 < int (length tab)" "drop_bit 4 e = 1 \<Longrightarrow> ?row ! 9 \<noteq> 0"
    using r(2) by (auto simp: list_all_iff)
  show "tableAt tab i j = Inr e" using assms(2-5) r(1) by (simp add: tableAt_def e_def)
  show "0 \<le> e AND 15" by simp
qed

lemma good_table_columns:
  assumes "good_table tab" "0 \<le> i" "i < int (length tab)"
  shows "tableAt tab i (int itil) = Inr (tab ! nat i ! 8)" "tableAt tab i (int itcond) = Inr (tab ! nat i ! 9)"
proof -
  have "tab ! nat i \<in> set tab" using assms(2,3) by simp
  then have "length (tab ! nat i) = 10" using assms(1) by (auto simp: good_table_def list_all_iff)
  then show "tableAt tab i (int itil) = Inr (tab ! nat i ! 8)" "tableAt tab i (int itcond) = Inr (tab ! nat i ! 9)"
    using assms(2,3) by (simp_all add: tableAt_def itil_def itcond_def)
qed

subsection \<open>What the passes leave alone\<close>

text \<open>The state without what computing the levels changes; of the types it keeps the original class of each character,
  up to the sign that asks for the mirrored one.\<close>

definition frame :: "bidiOrder \<Rightarrow> bidiOrder" where
  "frame ord = ord\<lparr>boIx := 0, boImpSta := 0, boCondPos := 0, boXType := 0, boWTarget := 0,
     boTypeArray := map (\<lambda>p. (\<bar>fst p\<bar>, 0)) (boTypeArray ord), boBdx := (boBdx ord)\<lparr>bxPropertyMap := []\<rparr>\<rparr>"

lemma frame_fields:
  assumes "frame a = frame b"
  shows "boSize a = boSize b" "boBufferIn a = boBufferIn b" "boInsertCnt a = boInsertCnt b" "boRemoveCnt a = boRemoveCnt b"
    "boImpTab a = boImpTab b" "boImpToImpPhase a = boImpToImpPhase b" "boImpToImpOrient a = boImpToImpOrient b"
    "boInsertMarkers a = boInsertMarkers b" "boReqImpToImp a = boReqImpToImp b" "boOrientOut a = boOrientOut b"
    "boOrientIn a = boOrientIn b" "boInvertInput a = boInvertInput b" "boNumFlag a = boNumFlag b" "boCurLev a = boCurLev b"
    "(boBdx a)\<lparr>bxPropertyMap := []\<rparr> = (boBdx b)\<lparr>bxPropertyMap := []\<rparr>"
  using arg_cong [OF assms, of boSize] arg_cong [OF assms, of boBufferIn] arg_cong [OF assms, of boInsertCnt]
    arg_cong [OF assms, of boRemoveCnt] arg_cong [OF assms, of boImpTab] arg_cong [OF assms, of boImpToImpPhase]
    arg_cong [OF assms, of boImpToImpOrient] arg_cong [OF assms, of boInsertMarkers] arg_cong [OF assms, of boReqImpToImp]
    arg_cong [OF assms, of boOrientOut] arg_cong [OF assms, of boOrientIn] arg_cong [OF assms, of boInvertInput]
    arg_cong [OF assms, of boNumFlag] arg_cong [OF assms, of boCurLev] arg_cong [OF assms, of boBdx]
  by (simp_all add: frame_def)

lemma frame_map: "frame a = frame b \<Longrightarrow> bxDstToSrcMap (boBdx a) = bxDstToSrcMap (boBdx b)"
  using arg_cong [OF frame_fields(15), of a b bxDstToSrcMap] by simp

lemma frame_simps [simp]:
  "frame (ord\<lparr>boIx := a\<rparr>) = frame ord" "frame (ord\<lparr>boImpSta := a\<rparr>) = frame ord" "frame (ord\<lparr>boCondPos := a\<rparr>) = frame ord"
  "frame (ord\<lparr>boXType := a\<rparr>) = frame ord" "frame (ord\<lparr>boWTarget := a\<rparr>) = frame ord"
  "frame (setLevel i l ord) = frame ord"
  by (simp_all add: frame_def setLevel_def onBdx_def)

lemma map_update_same: "f y = f (xs ! i) \<Longrightarrow> map f (xs[i := y]) = map f xs"
  by (metis list_update_id map_update)

lemma frame_setFinal [simp]: "frame (setFinal i t ord) = frame ord"
  by (simp add: frame_def setFinal_def origType_def map_update_same)

lemma frame_setOrig: "\<bar>t\<bar> = \<bar>origType ord i\<bar> \<Longrightarrow> frame (setOrig i t ord) = frame ord"
  by (simp add: frame_def setOrig_def origType_def map_update_same)

text \<open>The final types of the characters are the columns of the tables.\<close>

definition types_ok :: "nat \<Rightarrow> bidiOrder \<Rightarrow> bool" where
  "types_ok n ord \<longleftrightarrow> length (boTypeArray ord) = n \<and> (\<forall>p \<in> set (boTypeArray ord). 0 \<le> snd p \<and> snd p < 8)"

lemma types_okD: "types_ok n ord \<Longrightarrow> i < n \<Longrightarrow> 0 \<le> finalType ord i \<and> finalType ord i < 8"
  by (simp add: types_ok_def finalType_def)

lemma types_ok_update:
  "types_ok n ord \<Longrightarrow> 0 \<le> snd p \<Longrightarrow> snd p < 8 \<Longrightarrow> types_ok n (ord\<lparr>boTypeArray := (boTypeArray ord)[i := p]\<rparr>)"
  using set_update_subset_insert [of "boTypeArray ord" i p] by (auto simp: types_ok_def)

lemma types_ok_simps [simp]:
  "types_ok n (ord\<lparr>boIx := a\<rparr>) = types_ok n ord" "types_ok n (ord\<lparr>boImpSta := a\<rparr>) = types_ok n ord"
  "types_ok n (ord\<lparr>boCondPos := a\<rparr>) = types_ok n ord" "types_ok n (ord\<lparr>boXType := a\<rparr>) = types_ok n ord"
  "types_ok n (ord\<lparr>boWTarget := a\<rparr>) = types_ok n ord" "types_ok n (setLevel i l ord) = types_ok n ord"
  by (simp_all add: types_ok_def setLevel_def onBdx_def)

lemma types_ok_setFinal: "types_ok n ord \<Longrightarrow> 0 \<le> t \<Longrightarrow> t < 8 \<Longrightarrow> types_ok n (setFinal i t ord)"
  unfolding setFinal_def by (rule types_ok_update) simp_all

lemma types_ok_setOrig: "types_ok n ord \<Longrightarrow> types_ok n (setOrig i t ord)"
proof (cases "i < n")
  case True
  assume "types_ok n ord"
  with types_okD [OF this True] show ?thesis unfolding setOrig_def by (intro types_ok_update) simp_all
next
  case False
  assume "types_ok n ord"
  with False show ?thesis by (simp add: setOrig_def types_ok_def list_update_beyond)
qed

lemma symmetricSwap_kept:
  "frame (symmetricSwap i old level ord) = frame ord" "types_ok n ord \<Longrightarrow> types_ok n (symmetricSwap i old level ord)"
  by (auto simp: symmetricSwap_def Let_def types_ok_setOrig frame_setOrig ubat_defs)

text \<open>The fields of the automaton, which the levels of a run leave alone.\<close>

definition automaton :: "bidiOrder \<Rightarrow> int \<times> int \<times> int \<times> int" where
  "automaton ord = (boIx ord, boImpSta ord, boCondPos ord, boXType ord)"

lemma automaton_simps [simp]:
  "automaton (setOrig i t ord) = automaton ord" "automaton (setFinal i t ord) = automaton ord"
  "automaton (setLevel i l ord) = automaton ord" "automaton (symmetricSwap i old level ord) = automaton ord"
  by (simp_all add: automaton_def setOrig_def setFinal_def setLevel_def onBdx_def symmetricSwap_def Let_def)

lemma relevel_kept:
  "frame (relevel level i ord) = frame ord" "types_ok n ord \<Longrightarrow> types_ok n (relevel level i ord)"
  "automaton (relevel level i ord) = automaton ord"
  by (simp_all add: relevel_def symmetricSwap_kept)

lemma fold_relevel_kept:
  "frame (fold (relevel level) is ord) = frame ord" "types_ok n ord \<Longrightarrow> types_ok n (fold (relevel level) is ord)"
  "automaton (fold (relevel level) is ord) = automaton ord"
  by (induction "is" arbitrary: ord) (simp_all add: relevel_kept)

lemma relevelRun_kept:
  assumes "0 \<le> boCondPos ord" "types_ok n ord"
  obtains ord' where "relevelRun level ord = Inr ord'" "frame ord' = frame ord" "types_ok n ord'" "automaton ord' = automaton ord"
  using assms fold_relevel_kept by (auto simp: relevelRun_def)

subsection \<open>The automaton\<close>

definition step_ok :: "bidiOrder \<Rightarrow> bool" where
  "step_ok ord \<longleftrightarrow>
     good_table (boImpTab ord) \<and> 0 \<le> boImpSta ord \<and> boImpSta ord < int (length (boImpTab ord)) \<and> -1 \<le> boCondPos ord \<and>
     (boImpTab ord ! nat (boImpSta ord) ! 9 \<noteq> 0 \<longrightarrow> 0 \<le> boCondPos ord) \<and> 0 \<le> boIx ord"

lemma implicitAction_ok:
  assumes "special \<in> {1, 2}" "special = 1 \<Longrightarrow> 0 \<le> boCondPos ord" "types_ok n ord"
  obtains ord' where "implicitAction special level ord = Inr ord'" "frame ord' = frame ord" "types_ok n ord'"
    "boCondPos ord' = -1" "boIx ord' = boIx ord" "boXType ord' = boXType ord"
proof (cases "special = 1")
  case True
  obtain ord' where "relevelRun (int8 (boCurLev ord + 1)) ord = Inr ord'" "frame ord' = frame ord" "types_ok n ord'"
    "automaton ord' = automaton ord"
    using relevelRun_kept [OF assms(2) [OF True] assms(3)] by blast
  then show thesis using True that [of "ord'\<lparr>boCondPos := -1\<rparr>"] by (simp add: implicitAction_def automaton_def)
next
  case False
  then show thesis using assms that [of "ord\<lparr>boCondPos := -1\<rparr>"] by (auto simp: implicitAction_def)
qed

lemma conditionalRun_ok:
  assumes "-1 \<le> boCondPos ord" "types_ok n ord" "0 \<le> boIx ord"
  obtains ord' where "conditionalRun sCond level ord = Inr ord'" "frame ord' = frame ord" "types_ok n ord'"
    "-1 \<le> boCondPos ord'" "sCond \<noteq> 0 \<longrightarrow> 0 \<le> boCondPos ord'" "boIx ord' = boIx ord" "boXType ord' = boXType ord"
proof (cases "sCond = 0 \<and> boCondPos ord > -1")
  case True
  then have c: "0 \<le> boCondPos ord" by linarith
  obtain ord' where "relevelRun level ord = Inr ord'" "frame ord' = frame ord" "types_ok n ord'" "automaton ord' = automaton ord"
    using relevelRun_kept [OF c assms(2)] by blast
  then show thesis using True that [of "ord'\<lparr>boCondPos := -1\<rparr>"] by (simp add: conditionalRun_def automaton_def)
next
  case False
  show thesis
  proof (cases "sCond \<noteq> 0 \<and> boCondPos ord = -1")
    case True
    then show thesis using assms that [of "ord\<lparr>boCondPos := boIx ord\<rparr>"] by (simp add: conditionalRun_def)
  next
    case noRun: False
    then show thesis using assms False that [of ord] by (auto simp: conditionalRun_def)
  qed
qed

lemma implicitProcessing_ok:
  assumes "step_ok ord" "types_ok n ord" "0 \<le> boXType ord" "boXType ord < 8"
  obtains ord' where "implicitProcessing ord = Inr ord'" "frame ord' = frame ord" "types_ok n ord'" "step_ok ord'" "boIx ord' = boIx ord"
proof -
  let ?tab = "boImpTab ord" and ?e = "boImpTab ord ! nat (boImpSta ord) ! nat (boXType ord)"
  define level where "level = int8 (boCurLev ord + ?tab ! nat (?e AND 15) ! 8)"
  have ok: "good_table ?tab" "0 \<le> boImpSta ord" "boImpSta ord < int (length ?tab)" using assms(1) by (simp_all add: step_ok_def)
  note e = good_tableD [OF ok assms(3,4)]
  note cols = good_table_columns [OF ok(1) e(4,5)]
  have act: "\<exists>ord1. (if drop_bit 4 ?e > 0 then implicitAction (drop_bit 4 ?e) level ord else Inr ord) = Inr ord1 \<and>
      frame ord1 = frame ord \<and> types_ok n ord1 \<and> -1 \<le> boCondPos ord1 \<and> boIx ord1 = boIx ord \<and> boXType ord1 = boXType ord"
  proof (cases "drop_bit 4 ?e > 0")
    case True
    then have sp: "drop_bit 4 ?e \<in> {1, 2}" using e(3) by (auto simp del: drop_bit_numeral_minus_bit1)
    have "drop_bit 4 ?e = 1 \<Longrightarrow> 0 \<le> boCondPos ord" using e(6) assms(1) by (simp add: step_ok_def)
    from implicitAction_ok [OF sp this assms(2)] show ?thesis using True by (metis order_refl)
  next
    case False
    then show ?thesis using assms(1,2) by (simp add: step_ok_def)
  qed
  then obtain ord1 where o1: "(if drop_bit 4 ?e > 0 then implicitAction (drop_bit 4 ?e) level ord else Inr ord) = Inr ord1"
      "frame ord1 = frame ord" "types_ok n ord1" "-1 \<le> boCondPos ord1" "boIx ord1 = boIx ord" "boXType ord1 = boXType ord" by blast
  have ix: "0 \<le> boIx ord1" using o1(5) assms(1) by (simp add: step_ok_def)
  obtain ord2 where o2: "conditionalRun (?tab ! nat (?e AND 15) ! 9) level ord1 = Inr ord2" "frame ord2 = frame ord1" "types_ok n ord2"
      "-1 \<le> boCondPos ord2" "?tab ! nat (?e AND 15) ! 9 \<noteq> 0 \<longrightarrow> 0 \<le> boCondPos ord2" "boIx ord2 = boIx ord1" "boXType ord2 = boXType ord1"
    using conditionalRun_ok [OF o1(4,3) ix] by blast
  have tab: "boImpTab ord1 = ?tab" "boImpTab ord2 = ?tab" using frame_fields(5) o1(2) o2(2) by metis+
  let ?r = "ord2\<lparr>boImpSta := ?e AND 15, boWTarget := (if boXType ord2 = ubatB then 0 else level)\<rparr>"
  have "implicitProcessing ord = Inr ?r"
    unfolding implicitProcessing_def
    by (simp only: e(1) res_bind_Inr Let_def cols level_def [symmetric] o1(1) tab o2(1))
  moreover have "step_ok ?r" using ok(1) e(4,5) o2(4,5,6) ix by (simp add: step_ok_def tab)
  ultimately show thesis using that [of ?r] o1 o2 by simp
qed

end
