(* ===== verification/BidiReorder.thy ===== *)
theory BidiReorder
  imports BidiOrder
begin

text \<open>
  Correctness of the reordering of \<open>src/internal/bidi/order.go\<close>, over the definitions of \<open>BidiOrder\<close>: a pass over the
  text computes types and levels without panicking, the map from destination to source stays a permutation, and what is
  delivered are the characters of the source, up to numerals, mirrored neutrals and removed marks.
\<close>

subsection \<open>The map is a permutation\<close>

text \<open>The first \<open>n\<close> entries are the positions 0 to n - 1 in some order.\<close>

definition perm_map :: "nat \<Rightarrow> int list \<Rightarrow> bool" where
  "perm_map n d \<longleftrightarrow> n \<le> length d \<and> mset (take n d) = mset (map int [0..<n])"

lemma perm_map_identity: "perm_map n (map int [0..<n] @ d)"
  by (simp add: perm_map_def)

lemma perm_mapD: "perm_map n d \<Longrightarrow> i < n \<Longrightarrow> nat (d ! i) < n \<and> 0 \<le> d ! i"
proof -
  assume p: "perm_map n d" and i: "i < n"
  then have "d ! i \<in> set (take n d)" by (metis in_set_conv_nth length_take min.absorb2 nth_take perm_map_def)
  also have "set (take n d) = set (map int [0..<n])" using p by (metis perm_map_def mset_eq_setD)
  finally show ?thesis by auto
qed

lemma invertInts_perm: "perm_map n d \<Longrightarrow> upper < n \<Longrightarrow> perm_map n (invertInts d lower upper)"
proof (induction d lower upper rule: invertInts.induct)
  case (1 d lower upper)
  show ?case
  proof (cases "lower < upper")
    case True
    let ?d = "d[lower := d ! upper, upper := d ! lower]"
    have n: "n \<le> length d" using "1.prems" by (simp add: perm_map_def)
    have "take n ?d = (take n d)[lower := take n d ! upper, upper := take n d ! lower]"
      using "1.prems" True n by (simp add: take_update_swap)
    moreover have "mset \<dots> = mset (take n d)" using "1.prems" True n by (intro mset_swap) simp_all
    ultimately have "perm_map n ?d" using "1.prems" by (simp only: perm_map_def length_list_update)
    then have "perm_map n (invertInts ?d (lower + 1) (upper - 1))" using "1.IH" [OF True] "1.prems"(2) by simp
    then show ?thesis using True by (subst invertInts.simps) simp
  next
    case False
    then show ?thesis using "1.prems" by (subst invertInts.simps) simp
  qed
qed

lemma runEnd_le: "i \<le> n \<Longrightarrow> runEnd pm n work i \<le> n"
proof (induction pm n work i rule: runEnd.induct)
  case (1 pm n work i)
  then show ?case by (subst runEnd.simps) auto
qed

lemma flipRuns_perm: "perm_map n d \<Longrightarrow> perm_map n (flipRuns pm n work i d)"
proof (induction pm n work i d rule: flipRuns.induct)
  case (1 pm n work i d)
  let ?j = "runEnd pm n work (i + 1)"
  show ?case
  proof (cases "i < n")
    case True
    have j: "i + 1 \<le> ?j" "?j \<le> n" using runEnd_ge runEnd_le True by auto
    then have inv: "perm_map n (invertInts d i (?j - 1))" using "1.prems" True by (intro invertInts_perm) auto
    show ?thesis
    proof (cases "int8 (pm ! i) < work")
      case lt: True
      then show ?thesis using "1.IH"(1) [OF True lt "1.prems"] True by (subst flipRuns.simps) simp
    next
      case ge: False
      then show ?thesis using "1.IH"(2) [OF True ge refl inv] True by (subst flipRuns.simps) (simp add: Let_def)
    qed
  next
    case False
    then show ?thesis using "1.prems" by (subst flipRuns.simps) simp
  qed
qed

lemma fold_flipRuns_perm: "perm_map n d \<Longrightarrow> perm_map n (fold (\<lambda>work. flipRuns pm n work 0) works d)"
  by (induction works arbitrary: d) (simp_all add: flipRuns_perm)

text \<open>The state without the map either.\<close>

definition mframe :: "bidiOrder \<Rightarrow> bidiOrder" where
  "mframe ord = onBdx (\<lambda>b. b\<lparr>bxDstToSrcMap := []\<rparr>) (frame ord)"

lemma mframe_frame: "frame a = frame b \<Longrightarrow> mframe a = mframe b"
  by (simp add: mframe_def)

lemma mframe_fields:
  assumes "mframe a = mframe b"
  shows "boSize a = boSize b" "boBufferIn a = boBufferIn b" "boInsertCnt a = boInsertCnt b" "boRemoveCnt a = boRemoveCnt b"
    "boImpToImpPhase a = boImpToImpPhase b" "boImpToImpOrient a = boImpToImpOrient b" "boInsertMarkers a = boInsertMarkers b"
    "boInvertInput a = boInvertInput b" "boOrientIn a = boOrientIn b"
    "(boBdx a)\<lparr>bxPropertyMap := [], bxDstToSrcMap := []\<rparr> = (boBdx b)\<lparr>bxPropertyMap := [], bxDstToSrcMap := []\<rparr>"
    "map (\<lambda>p. \<bar>fst p\<bar>) (boTypeArray a) = map (\<lambda>p. \<bar>fst p\<bar>) (boTypeArray b)"
  using arg_cong [OF assms, of boSize] arg_cong [OF assms, of boBufferIn] arg_cong [OF assms, of boInsertCnt]
    arg_cong [OF assms, of boRemoveCnt] arg_cong [OF assms, of boImpToImpPhase] arg_cong [OF assms, of boImpToImpOrient]
    arg_cong [OF assms, of boInsertMarkers] arg_cong [OF assms, of boInvertInput] arg_cong [OF assms, of boOrientIn]
    arg_cong [OF assms, of boBdx] arg_cong [OF assms, of "\<lambda>x. map fst (boTypeArray x)"]
  by (simp_all add: mframe_def frame_def onBdx_def comp_def)

lemma mframe_onBdx [simp]: "mframe (onBdx (\<lambda>b. b\<lparr>bxDstToSrcMap := f b\<rparr>) ord) = mframe ord"
  by (simp add: mframe_def frame_def onBdx_def)

lemma types_ok_onBdx [simp]: "types_ok n (onBdx f ord) = types_ok n ord"
  by (simp add: types_ok_def onBdx_def)

lemma boIx_onBdx [simp]: "boIx (onBdx f ord) = boIx ord"
  by (simp add: onBdx_def)

lemma onBdx_perm:
  "perm_map n (f (boBdx ord)) \<Longrightarrow> perm_map n (bxDstToSrcMap (boBdx (onBdx (\<lambda>b. b\<lparr>bxDstToSrcMap := f b\<rparr>) ord)))"
  by (simp add: onBdx_def)

lemma pass2_ok:
  assumes "boImpToImpPhase ord \<noteq> 2 \<or> perm_map (boSize ord) (bxDstToSrcMap (boBdx ord))"
  shows "mframe (pass2 ord) = mframe ord \<and> types_ok n (pass2 ord) = types_ok n ord \<and> boIx (pass2 ord) = boIx ord \<and>
    perm_map (boSize ord) (bxDstToSrcMap (boBdx (pass2 ord)))"
proof -
  define ord1 where "ord1 = (if boImpToImpPhase ord \<noteq> 2
    then onBdx (\<lambda>b. b\<lparr>bxDstToSrcMap := map int [0..<boSize ord] @ drop (boSize ord) (bxDstToSrcMap b)\<rparr>) ord else ord)"
  obtain c works where p: "pass2 ord = (if c then ord1 else onBdx (\<lambda>b. b\<lparr>bxDstToSrcMap :=
      fold (\<lambda>work. flipRuns (bxPropertyMap (boBdx ord)) (boSize ord) work 0) works (bxDstToSrcMap b)\<rparr>) ord1)"
    unfolding pass2_def Let_def ord1_def by blast
  have o1: "perm_map (boSize ord) (bxDstToSrcMap (boBdx ord1))" "mframe ord1 = mframe ord" "types_ok n ord1 = types_ok n ord"
      "boIx ord1 = boIx ord"
    using assms onBdx_perm perm_map_identity by (simp_all add: ord1_def)
  show ?thesis
  proof (cases c)
    case True
    then show ?thesis using p o1 by simp
  next
    case False
    have "perm_map (boSize ord) (bxDstToSrcMap (boBdx (pass2 ord)))"
      unfolding p using False fold_flipRuns_perm [OF o1(1)] by (simp only: if_False onBdx_perm)
    then show ?thesis using False p o1 by simp
  qed
qed

subsection \<open>A pass\<close>

lemma d2s_frame: "frame a = frame b \<Longrightarrow> d2s a i = d2s b i"
  by (drule frame_map) (simp add: d2s_def)

lemma charStep_ok:
  assumes "step_ok ord" "types_ok n ord" "ix < n" "second \<Longrightarrow> d2s ord ix < n"
  obtains ord' where "charStep second ix ord = Inr ord'" "frame ord' = frame ord" "types_ok n ord'" "step_ok ord'"
proof -
  let ?p = "if second then d2s ord ix else ix"
  let ?o = "ord\<lparr>boIx := int ix, boXType := finalType ord ?p\<rparr>"
  have "?p < n" using assms(3,4) by simp
  then have x: "0 \<le> boXType ?o" "boXType ?o < 8" using types_okD [OF assms(2)] by simp_all
  have st: "step_ok ?o" using assms(1) by (simp add: step_ok_def)
  obtain ord1 where o1: "implicitProcessing ?o = Inr ord1" "frame ord1 = frame ?o" "types_ok n ord1" "step_ok ord1"
    using implicitProcessing_ok [OF st _ x] assms(2) by auto
  let ?s = "setLevel ix (boWTarget ord1) ord1"
  have fr: "frame ?s = frame ord" and ty: "types_ok n ?s" using o1(2,3) by simp_all
  have st: "step_ok ?s" using o1(4) by (simp add: step_ok_def setLevel_def onBdx_def)
  have so: "step_ok (setOrig i t ?s)" for i t using st by (simp add: step_ok_def setOrig_def)
  define again where "again = (boSymmetric ?s \<and> odd (boWTarget ?s) \<and>
    (if second then \<bar>origType ?s ?p\<bar> = ubatN else origType ?s ?p = ubatN))"
  define t where "t = (if second then - origType ?s ?p else ubatNSwap)"
  have e: "charStep second ix ord = Inr (if again then setOrig ?p t ?s else ?s)"
    unfolding charStep_def Let_def o1(1) res_bind_Inr again_def t_def ..
  have "again \<Longrightarrow> \<bar>t\<bar> = \<bar>origType ?s ?p\<bar>" by (auto simp: again_def t_def ubat_defs split: if_splits)
  then have "again \<Longrightarrow> frame (setOrig ?p t ?s) = frame ord" using frame_setOrig [of t ?s ?p] fr by simp
  then show thesis using that [OF e] fr ty types_ok_setOrig [OF ty, of ?p t] st so [of ?p t] by (cases again) simp_all
qed

lemma res_fold_charStep:
  assumes "\<forall>ix \<in> set ixs. ix < n \<and> (second \<longrightarrow> d2s ord ix < n)" "step_ok ord" "types_ok n ord"
  shows "\<exists>ord'. res_fold (charStep second) ixs ord = Inr ord' \<and> frame ord' = frame ord \<and> types_ok n ord' \<and> step_ok ord'"
  using assms
proof (induction ixs arbitrary: ord)
  case (Cons ix ixs)
  from Cons.prems obtain ord1 where o1: "charStep second ix ord = Inr ord1" "frame ord1 = frame ord" "types_ok n ord1" "step_ok ord1"
    using charStep_ok [of ord n ix second] by auto
  then have "\<forall>ix \<in> set ixs. ix < n \<and> (second \<longrightarrow> d2s ord1 ix < n)" using Cons.prems(1) d2s_frame [OF o1(2)] by simp
  from Cons.IH [OF this o1(4,3)] show ?case using o1 by simp
qed simp

text \<open>A pass succeeds and leaves a permutation.\<close>

lemma levelPass_ok:
  assumes "step_ok ord" "types_ok (boSize ord) ord" "second \<Longrightarrow> perm_map (boSize ord) (bxDstToSrcMap (boBdx ord))"
    and "second \<longleftrightarrow> boImpToImpPhase ord = 2"
  obtains ord' where "levelPass second ord = Inr ord'" "mframe ord' = mframe ord" "types_ok (boSize ord) ord'"
    "perm_map (boSize ord) (bxDstToSrcMap (boBdx ord'))" "0 \<le> boIx ord'"
proof -
  let ?n = "boSize ord"
  have "\<forall>ix \<in> set [0..<?n]. ix < ?n \<and> (second \<longrightarrow> d2s ord ix < ?n)"
    using assms(3) perm_mapD by (auto simp: d2s_def)
  from res_fold_charStep [OF this assms(1,2)] obtain ord1 where
    o1: "res_fold (charStep second) [0..<?n] ord = Inr ord1" "frame ord1 = frame ord" "types_ok ?n ord1" "step_ok ord1" by blast
  let ?e = "ord1\<lparr>boIx := int (boSize ord1), boXType := ubatB\<rparr>"
  have "step_ok ?e" "types_ok ?n ?e" "0 \<le> boXType ?e" "boXType ?e < 8" using o1 by (simp_all add: step_ok_def ubat_defs)
  then obtain ord2 where o2: "implicitProcessing ?e = Inr ord2" "frame ord2 = frame ?e" "types_ok ?n ord2" "boIx ord2 = boIx ?e"
    using implicitProcessing_ok by metis
  have f: "frame ord2 = frame ord" using o1(2) o2(2) by simp
  have "boImpToImpPhase ord2 \<noteq> 2 \<or> perm_map (boSize ord2) (bxDstToSrcMap (boBdx ord2))"
    using assms(3,4) unfolding frame_fields [OF f] frame_map [OF f] by blast
  from pass2_ok [OF this, of ?n] mframe_frame [OF f] o2(3) frame_fields(1) [OF f]
  have "mframe (pass2 ord2) = mframe ord" "types_ok ?n (pass2 ord2)" "perm_map ?n (bxDstToSrcMap (boBdx (pass2 ord2)))"
    "0 \<le> boIx (pass2 ord2)" using o2(4) by simp_all
  moreover have "levelPass second ord = Inr (pass2 ord2)" unfolding levelPass_def by (simp only: o1(1) o2(1) res_bind_Inr)
  ultimately show thesis using that by blast
qed

subsection \<open>Types\<close>

text \<open>The state without its types; the original types; and a change of final types only.\<close>

definition bare :: "bidiOrder \<Rightarrow> bidiOrder" where
  "bare ord = ord\<lparr>boTypeArray := []\<rparr>"

definition origs :: "bidiOrder \<Rightarrow> int list" where
  "origs ord = map fst (boTypeArray ord)"

definition retyped :: "nat \<Rightarrow> bidiOrder \<Rightarrow> bidiOrder \<Rightarrow> bool" where
  "retyped n a b \<longleftrightarrow> types_ok n b \<and> bare b = bare a \<and> origs b = origs a"

lemma retyped_refl: "types_ok n a \<Longrightarrow> retyped n a a"
  by (simp add: retyped_def)

lemma retyped_trans: "retyped n a b \<Longrightarrow> retyped n b c \<Longrightarrow> retyped n a c"
  by (simp add: retyped_def)

lemma retyped_setFinal: "retyped n a b \<Longrightarrow> 0 \<le> t \<Longrightarrow> t < 8 \<Longrightarrow> retyped n a (setFinal i t b)"
  unfolding retyped_def
  by (simp add: types_ok_setFinal) (simp add: setFinal_def bare_def origs_def origType_def map_update_same)

lemma ubat_columns [simp]:
  "0 \<le> ubatB" "0 \<le> ubatS" "0 \<le> ubatL" "0 \<le> ubatR" "0 \<le> ubatEN" "0 \<le> ubatAN" "0 \<le> ubatW" "0 \<le> ubatN"
  "ubatB < 8" "ubatS < 8" "ubatL < 8" "ubatR < 8" "ubatEN < 8" "ubatAN < 8" "ubatW < 8" "ubatN < 8"
  by (simp_all add: ubat_defs)

lemma retyped_terminatorsBack: "retyped n a b \<Longrightarrow> retyped n a (terminatorsBack at k b)"
  by (induction k arbitrary: b) (simp_all add: retyped_setFinal)

lemma retyped_europeanDigit: "retyped n a b \<Longrightarrow> retyped n a (europeanDigit at i isArabic b)"
  by (simp add: europeanDigit_def Let_def retyped_setFinal retyped_terminatorsBack)

lemma bare_fields:
  assumes "bare a = bare b"
  shows "boSize a = boSize b" "boBufferIn a = boBufferIn b" "boBdx a = boBdx b" "step_ok a = step_ok b"
    "boImpToImpPhase a = boImpToImpPhase b"
  using arg_cong [OF assms, of boSize] arg_cong [OF assms, of boBufferIn] arg_cong [OF assms, of boBdx]
    arg_cong [OF assms, of step_ok] arg_cong [OF assms, of boImpToImpPhase]
  by (simp_all add: bare_def step_ok_def)

lemma typeStep_ok:
  assumes "types_ok n ord" "i < n"
  defines "c \<equiv> getChTypeWB (boBufferIn ord ! i) (bxWordBreak (boBdx ord))"
  shows "retyped n (ord\<lparr>boTypeArray := (boTypeArray ord)[i := (c, ubatN)]\<rparr>) (fst (typeStep i (ord, isArabic, d)))"
proof -
  let ?o = "ord\<lparr>boTypeArray := (boTypeArray ord)[i := (c, ubatN)]\<rparr>"
  have ty: "types_ok n (ord\<lparr>boTypeArray := (boTypeArray ord)[j := (c, ubatN)]\<rparr>)" for j
    using assms(1) by (rule types_ok_update) simp_all
  note r = retyped_refl [OF ty]
  have prev: "0 \<le> finalType ?o (i - Suc 0)" "finalType ?o (i - Suc 0) < 8"
    using types_okD [OF ty, of "i - 1"] assms(2) by auto
  show ?thesis
    unfolding typeStep_def prod.case c_def [symmetric] Let_def
    by (simp add: split_beta if_distrib [of fst] r retyped_setFinal retyped_europeanDigit prev)
qed

lemma fillTypeArray_prefix:
  assumes "types_ok n ord" "length (boBufferIn ord) = n" "k \<le> n"
  defines "cls \<equiv> \<lambda>c. getChTypeWB c (bxWordBreak (boBdx ord))"
  shows "case fold typeStep [0..<k] (ord, False, 0) of (ord', _) \<Rightarrow>
    types_ok n ord' \<and> bare ord' = bare ord \<and> take k (origs ord') = map cls (take k (boBufferIn ord))"
  using assms(3)
proof (induction k)
  case 0
  show ?case using assms(1) by simp
next
  case (Suc k)
  obtain o1 a d where o1: "fold typeStep [0..<k] (ord, False, 0) = (o1, a, d)" using prod_cases3 by blast
  then have ih: "types_ok n o1" "bare o1 = bare ord" "take k (origs o1) = map cls (take k (boBufferIn ord))"
    using Suc by simp_all
  let ?o = "o1\<lparr>boTypeArray := (boTypeArray o1)[k := (cls (boBufferIn ord ! k), ubatN)]\<rparr>"
  have "retyped n ?o (fst (typeStep k (o1, a, d)))"
    using typeStep_ok [OF ih(1), of k a d] Suc.prems by (simp add: bare_fields [OF ih(2)] cls_def)
  moreover have "k < length (boTypeArray o1)" using ih(1) Suc.prems by (simp add: types_ok_def)
  then have "bare ?o = bare ord" "take (Suc k) (origs ?o) = map cls (take (Suc k) (boBufferIn ord))"
    using ih(2,3) Suc.prems assms(2) by (simp_all add: bare_def origs_def map_update take_Suc_conv_app_nth take_update_swap list_update_append)
  ultimately show ?case using o1 by (simp add: retyped_def split_beta)
qed

lemma fillTypeArray_ok:
  assumes "types_ok (boSize ord) ord" "length (boBufferIn ord) = boSize ord"
  shows "types_ok (boSize ord) (fillTypeArray ord)" "bare (fillTypeArray ord) = bare ord"
    "origs (fillTypeArray ord) = map (\<lambda>c. getChTypeWB c (bxWordBreak (boBdx ord))) (boBufferIn ord)"
  using fillTypeArray_prefix [OF assms order_refl] assms(2)
  by (auto simp: fillTypeArray_def split_beta types_ok_def origs_def)

lemma typeStep2_ok: "retyped n a (fst st) \<Longrightarrow> retyped n a (fst (typeStep2 i st))"
  unfolding typeStep2_def split_beta Let_def
  by (simp add: if_distrib [of fst] retyped_setFinal retyped_europeanDigit)

lemma fillTypeArray2_ok:
  assumes "types_ok n ord"
  shows "retyped n ord (fillTypeArray2 ord)"
proof -
  have "retyped n ord (fst (fold typeStep2 is st))" if "retyped n ord (fst st)" for "is" st
    using that by (induction "is" arbitrary: st) (simp_all add: typeStep2_ok)
  then show ?thesis using retyped_refl [OF assms] by (simp add: fillTypeArray2_def)
qed

subsection \<open>Levels and map\<close>

text \<open>The transform without its maps, and what the computation of levels keeps of the state.\<close>

definition settings :: "BidiTransform \<Rightarrow> BidiTransform" where
  "settings b = b\<lparr>bxPropertyMap := [], bxDstToSrcMap := []\<rparr>"

definition kept :: "bidiOrder \<Rightarrow> bidiOrder \<Rightarrow> bool" where
  "kept a b \<longleftrightarrow> boSize b = boSize a \<and> boBufferIn b = boBufferIn a \<and> boInsertMarkers b = boInsertMarkers a \<and>
     boInvertInput b = boInvertInput a \<and> settings (boBdx b) = settings (boBdx a)"

lemma kept_trans: "kept a b \<Longrightarrow> kept b c \<Longrightarrow> kept a c"
  by (simp add: kept_def)

lemma kept_mframe:
  assumes "mframe b = mframe a"
  shows "kept a b"
  using mframe_fields [OF assms] by (simp add: kept_def settings_def)

lemma kept_bare:
  assumes "bare b = bare a"
  shows "kept a b"
  using arg_cong [OF assms, of boSize] arg_cong [OF assms, of boBufferIn] arg_cong [OF assms, of boBdx]
    arg_cong [OF assms, of boInsertMarkers] arg_cong [OF assms, of boInvertInput]
  by (simp add: bare_def kept_def)

lemma baseLvl_ok:
  assumes "\<not> boInsertMarkers ord" "0 \<le> boIx ord"
  shows "step_ok (baseLvl ord)" "kept ord (baseLvl ord)" "boTypeArray (baseLvl ord) = boTypeArray ord"
    "boBdx (baseLvl ord) = boBdx ord" "boImpToImpPhase (baseLvl ord) = boImpToImpPhase ord"
    "boInsertCnt (baseLvl ord) = 0" "boRemoveCnt (baseLvl ord) = 0" "boIx (baseLvl ord) = boIx ord"
proof -
  let ?tab = "if bxRoundTrip (boBdx ord) then (if boOrientIn ord = orientationRTL then impTabRTLr else impTabLTRr)
    else if boOrientIn ord = orientationRTL then impTabRTL else if bxWinCompatible (boBdx ord) then impTabLTRw else impTabLTR"
  have row: "impTabRTLr ! 0 ! 9 = 0" "impTabLTRr ! 0 ! 9 = 0" "impTabRTL ! 0 ! 9 = 0" "impTabLTRw ! 0 ! 9 = 0" "impTabLTR ! 0 ! 9 = 0"
    by (simp_all add: impTabRTLr_def impTabLTRr_def impTabRTL_def impTabLTRw_def impTabLTR_def)
  have t: "good_table ?tab" "?tab ! 0 ! 9 = 0" using good_tables row by simp_all
  have b: "\<exists>vv bas out cur. baseLvl ord = ord\<lparr>boVisToVis := vv, boBasLev := bas, boOutLev := out, boCurLev := cur, boImpTab := ?tab,
      boInsertCnt := 0, boRemoveCnt := 0, boImpSta := 0, boCondPos := -1\<rparr>"
    using assms(1) by (auto simp: baseLvl_def Let_def)
  show "step_ok (baseLvl ord)" using b t assms(2) by (auto simp: step_ok_def good_table_def)
  show "kept ord (baseLvl ord)" "boTypeArray (baseLvl ord) = boTypeArray ord"
    "boBdx (baseLvl ord) = boBdx ord" "boImpToImpPhase (baseLvl ord) = boImpToImpPhase ord"
    "boInsertCnt (baseLvl ord) = 0" "boRemoveCnt (baseLvl ord) = 0" "boIx (baseLvl ord) = boIx ord"
    using b by (auto simp: kept_def)
qed

text \<open>What the characters are delivered from.\<close>

definition levelled :: "bidiOrder \<Rightarrow> bool" where
  "levelled ord \<longleftrightarrow>
     types_ok (boSize ord) ord \<and> boInsertCnt ord = 0 \<and> boRemoveCnt ord = 0 \<and>
     map abs (origs ord) = map (\<lambda>c. getChTypeWB c (bxWordBreak (boBdx ord))) (boBufferIn ord) \<and>
     perm_map (boSize ord) (bxDstToSrcMap (boBdx ord))"

lemma getChTypeWB_nonneg: "0 \<le> getChTypeWB c wb"
  by (simp add: getChTypeWB_def getChType_def ubat_defs)

lemma settings_fields:
  assumes "settings a = settings b"
  shows "bxWordBreak a = bxWordBreak b" "bxRemoveMarkers a = bxRemoveMarkers b"
  using arg_cong [OF assms, of bxWordBreak] arg_cong [OF assms, of bxRemoveMarkers] by (simp_all add: settings_def)

lemma settings_options: "settings a = settings b \<Longrightarrow> bxOptions a = bxOptions b"
  by (drule arg_cong [where f = bxOptions]) (simp add: settings_def)

lemma kept_wordBreak: "kept a b \<Longrightarrow> bxWordBreak (boBdx b) = bxWordBreak (boBdx a)"
  by (rule settings_fields) (simp add: kept_def)

lemma mframe_origs: "mframe b = mframe a \<Longrightarrow> map abs (origs b) = map abs (origs a)"
  by (drule mframe_fields(11)) (simp add: origs_def comp_def)

lemma firstPass_ok:
  assumes "\<not> boInsertMarkers ord" "0 \<le> boIx ord" "types_ok (boSize ord) ord" "length (boBufferIn ord) = boSize ord"
    and "boImpToImpPhase ord \<noteq> 2"
  obtains ord' where "levelPass False (fillTypeArray (baseLvl ord)) = Inr ord'" "kept ord ord'" "levelled ord'"
    "boImpToImpPhase ord' = boImpToImpPhase ord" "0 \<le> boIx ord'"
proof -
  let ?b = "baseLvl ord" and ?f = "fillTypeArray (baseLvl ord)"
  note b = baseLvl_ok [OF assms(1,2)]
  have s: "boSize ?b = boSize ord" "boBufferIn ?b = boBufferIn ord" using b(2) by (simp_all add: kept_def)
  have "types_ok (boSize ?b) ?b" using assms(3) b(3) s by (simp add: types_ok_def)
  note f = fillTypeArray_ok [OF this] 
  note f = f [unfolded s, OF assms(4)]
  note fb = bare_fields [OF f(2)]
  have st: "step_ok ?f" "boSize ?f = boSize ord" "boImpToImpPhase ?f = boImpToImpPhase ord" using fb b s by simp_all
  obtain ord' where o: "levelPass False ?f = Inr ord'" "mframe ord' = mframe ?f" "types_ok (boSize ord) ord'"
      "perm_map (boSize ord) (bxDstToSrcMap (boBdx ord'))" "0 \<le> boIx ord'"
    using levelPass_ok [of ?f False] st f(1) assms(5) by auto
  have k: "kept ord ord'" using kept_trans [OF kept_trans [OF b(2) kept_bare [OF f(2)]] kept_mframe [OF o(2)]] .
  have "boInsertCnt ?f = 0" "boRemoveCnt ?f = 0"
    using arg_cong [OF f(2), of boInsertCnt] arg_cong [OF f(2), of boRemoveCnt] b by (simp_all add: bare_def)
  moreover have "map abs (origs ?f) = map (\<lambda>c. getChTypeWB c (bxWordBreak (boBdx ord))) (boBufferIn ord)"
    using f(3) b(4) getChTypeWB_nonneg by (simp add: comp_def)
  ultimately have "levelled ord'"
    using o(3,4) mframe_origs [OF o(2)] mframe_fields [OF o(2)] kept_wordBreak [OF k] k by (simp add: levelled_def kept_def)
  then show thesis using that o(1,5) k mframe_fields(5) [OF o(2)] st(3) by simp
qed

lemma secondPass_ok:
  assumes "\<not> boInsertMarkers ord" "0 \<le> boIx ord" "levelled ord" "boImpToImpPhase ord = 2"
  obtains ord' where "levelPass True (fillTypeArray2 (baseLvl ord)) = Inr ord'" "kept ord ord'" "levelled ord'"
proof -
  let ?b = "baseLvl ord" and ?f = "fillTypeArray2 (baseLvl ord)"
  note b = baseLvl_ok [OF assms(1,2)]
  have s: "boSize ?b = boSize ord" "boBufferIn ?b = boBufferIn ord" using b(2) by (simp_all add: kept_def)
  have "types_ok (boSize ord) ?b" using assms(3) b(3) by (simp add: types_ok_def levelled_def)
  from fillTypeArray2_ok [OF this] have f: "types_ok (boSize ord) ?f" "bare ?f = bare ?b" "origs ?f = origs ord"
    using b(3) by (simp_all add: retyped_def origs_def)
  note fb = bare_fields [OF f(2)]
  have st: "step_ok ?f" "boSize ?f = boSize ord" "boImpToImpPhase ?f = 2" "boBdx ?f = boBdx ord" using fb b s assms(4) by simp_all
  obtain ord' where o: "levelPass True ?f = Inr ord'" "mframe ord' = mframe ?f" "types_ok (boSize ord) ord'"
      "perm_map (boSize ord) (bxDstToSrcMap (boBdx ord'))"
    using levelPass_ok [of ?f True] st f(1) assms(3) by (auto simp: levelled_def)
  have k: "kept ord ord'" using kept_trans [OF kept_trans [OF b(2) kept_bare [OF f(2)]] kept_mframe [OF o(2)]] .
  have "boInsertCnt ?f = 0" "boRemoveCnt ?f = 0"
    using arg_cong [OF f(2), of boInsertCnt] arg_cong [OF f(2), of boRemoveCnt] b by (simp_all add: bare_def)
  then have "levelled ord'"
    using o(3,4) mframe_origs [OF o(2)] mframe_fields [OF o(2)] kept_wordBreak [OF k] k f(3) assms(3)
    by (simp add: levelled_def kept_def)
  then show thesis using that o(1) k by blast
qed

lemma invertInts_length [simp]: "length (invertInts d lower upper) = length d"
  by (induction d lower upper rule: invertInts.induct) (subst invertInts.simps, simp)

lemma invert_all_perm: "perm_map n d \<Longrightarrow> perm_map n (invertInts d 0 (n - 1))"
  by (cases n) (simp add: perm_map_def, simp add: invertInts_perm)

lemma levelled_onBdx:
  "levelled ord \<Longrightarrow> perm_map (boSize ord) (f (boBdx ord)) \<Longrightarrow> levelled (onBdx (\<lambda>b. b\<lparr>bxDstToSrcMap := f b\<rparr>) ord)"
  by (simp add: levelled_def onBdx_def types_ok_def origs_def)

lemma kept_onBdx [simp]: "kept ord (onBdx (\<lambda>b. b\<lparr>bxDstToSrcMap := f b\<rparr>) od) = kept ord od"
  by (simp add: kept_def onBdx_def settings_def)

lemma levelled_simps [simp]:
  "levelled (ord\<lparr>boOrientIn := a\<rparr>) = levelled ord" "levelled (ord\<lparr>boOrientOut := a\<rparr>) = levelled ord"
  "levelled (ord\<lparr>boImpToImpPhase := p\<rparr>) = levelled ord" "levelled (ord\<lparr>boSymmetric := s\<rparr>) = levelled ord"
  by (simp_all add: levelled_def types_ok_def origs_def)

lemma kept_simps [simp]:
  "kept ord (od\<lparr>boOrientIn := a\<rparr>) = kept ord od" "kept ord (od\<lparr>boOrientOut := a\<rparr>) = kept ord od"
  "kept ord (od\<lparr>boImpToImpPhase := p\<rparr>) = kept ord od" "kept ord (od\<lparr>boSymmetric := s\<rparr>) = kept ord od"
  "kept (ord\<lparr>boOrientIn := a\<rparr>) od = kept ord od" "kept (ord\<lparr>boOrientOut := a\<rparr>) od = kept ord od"
  "kept (ord\<lparr>boImpToImpPhase := p\<rparr>) od = kept ord od" "kept (ord\<lparr>boSymmetric := s\<rparr>) od = kept ord od"
  by (simp_all add: kept_def)

lemma implicitToImplicit_ok:
  assumes "\<not> boInsertMarkers ord" "0 \<le> boIx ord" "types_ok (boSize ord) ord" "length (boBufferIn ord) = boSize ord"
  obtains ord' where "implicitToImplicit src dst ord = Inr ord'" "kept ord ord'" "levelled ord'"
proof -
  let ?o = "ord\<lparr>boImpToImpPhase := 1, boOrientOut := orientationLTR, boSymmetric := (GetSwap (txFlags src) = swapYes)\<rparr>"
  obtain ord2 where o2: "levelPass False (fillTypeArray (baseLvl ?o)) = Inr ord2" "kept ?o ord2" "levelled ord2" "0 \<le> boIx ord2"
    using firstPass_ok [of ?o] assms by (auto simp: types_ok_def)
  let ?o3 = "ord2\<lparr>boOrientOut := boOrientOut ord, boImpToImpPhase := 2\<rparr>"
  let ?o4 = "if boImpToImpOrient ?o3 = impLTR
    then onBdx (\<lambda>b. b\<lparr>bxDstToSrcMap := invertInts (bxDstToSrcMap b) 0 (boSize ?o3 - 1)\<rparr>) (?o3\<lparr>boOrientIn := orientationRTL\<rparr>)
    else ?o3\<lparr>boOrientIn := orientationLTR\<rparr>"
  let ?o5 = "?o4\<lparr>boSymmetric := (GetSwap (txFlags dst) = swapYes)\<rparr>"
  have k2: "kept ord ord2" using o2(2) by simp
  have "perm_map (boSize ord2) (bxDstToSrcMap (boBdx ord2))" using o2(3) by (simp add: levelled_def)
  then have l4: "levelled ?o4" using o2(3) levelled_onBdx invert_all_perm by simp
  have k4: "kept ord ?o4" using k2 by simp
  have p5: "\<not> boInsertMarkers ?o5" "0 \<le> boIx ?o5" "levelled ?o5" "boImpToImpPhase ?o5 = 2"
    using k4 assms(1) o2(4) l4 by (simp_all add: kept_def onBdx_def)
  obtain ord6 where o6: "levelPass True (fillTypeArray2 (baseLvl ?o5)) = Inr ord6" "kept ?o5 ord6" "levelled ord6"
    by (rule secondPass_ok [OF p5])
  have "implicitToImplicit src dst ord = Inr (ord6\<lparr>boOrientIn := boOrientIn ord2, boSymmetric := True\<rparr>)"
    unfolding implicitToImplicit_def Let_def by (simp only: o2(1) res_bind_Inr o6(1))
  moreover have "kept ord ord6" using kept_trans [OF k4] o6(2) by simp
  ultimately show thesis using that o6(3) by simp
qed

lemma levelsAndMap_ok:
  assumes "\<not> boInsertMarkers ord" "0 \<le> boIx ord" "types_ok (boSize ord) ord" "length (boBufferIn ord) = boSize ord"
    and "boImpToImpOrient ord > 0 \<or> boImpToImpPhase ord \<noteq> 2"
  obtains ord' where "levelsAndMap src dst ord = Inr ord'" "kept ord ord'" "levelled ord'"
proof (cases "boImpToImpOrient ord > 0")
  case True
  then show thesis using implicitToImplicit_ok [OF assms(1-4)] that by (auto simp: levelsAndMap_def)
next
  case False
  then show thesis using firstPass_ok [OF assms(1-4)] assms(5) that by (auto simp: levelsAndMap_def)
qed

subsection \<open>The delivered characters\<close>

text \<open>How a character may come out: itself, a digit in the other numerals, or the mirrored form of a neutral.\<close>

definition delivered_as :: "bool \<Rightarrow> u16 \<Rightarrow> u16 \<Rightarrow> bool" where
  "delivered_as wordBreak c d \<longleftrightarrow>
     d = c \<or> (getChTypeWB c wordBreak = ubatEN \<and> d = c + 0x0630) \<or> (getChTypeWB c wordBreak = ubatAN \<and> d = c - 0x0630) \<or>
     (getChTypeWB c wordBreak = ubatN \<and> d = ucqsymm c)"

lemma outChar_delivered:
  assumes "levelled ord" "k < length (boBufferIn ord)"
  shows "delivered_as (bxWordBreak (boBdx ord)) (boBufferIn ord ! k) (outChar ord k)"
proof -
  have l: "map abs (origs ord) = map (\<lambda>c. getChTypeWB c (bxWordBreak (boBdx ord))) (boBufferIn ord)"
    using assms(1) by (simp add: levelled_def)
  then have "length (boTypeArray ord) = length (boBufferIn ord)" using map_eq_imp_length_eq by (fastforce simp: origs_def)
  then have t: "\<bar>origType ord k\<bar> = getChTypeWB (boBufferIn ord ! k) (bxWordBreak (boBdx ord))"
    using arg_cong [OF l, of "\<lambda>xs. xs ! k"] assms(2) by (simp add: origs_def origType_def)
  consider "origType ord k = ubatEN" | "origType ord k = ubatAN" | "origType ord k = ubatNSwap"
    | "origType ord k \<notin> {ubatEN, ubatAN, ubatNSwap}" by blast
  then show ?thesis
    by cases (use t in \<open>simp_all add: delivered_as_def outChar_def Let_def ubat_defs\<close>)
qed

lemma pass3_delivered:
  assumes "levelled ord" "length (boBufferIn ord) = boSize ord"
  obtains cs where "mset cs = mset (boBufferIn ord)"
    "list_all2 (delivered_as (bxWordBreak (boBdx ord))) cs (boBufferOut (pass3 ord))"
proof -
  let ?n = "boSize ord"
  define ps where "ps = map (d2s ord) [0..<?n]"
  have p: "perm_map ?n (bxDstToSrcMap (boBdx ord))" using assms(1) by (simp add: levelled_def)
  have "ps = map nat (take ?n (bxDstToSrcMap (boBdx ord)))"
    using p by (intro nth_equalityI) (simp_all add: ps_def perm_map_def d2s_def)
  then have "mset ps = image_mset nat (mset (map int [0..<?n]))" using p by (simp add: perm_map_def)
  then have m: "mset ps = mset [0..<?n]" by (simp flip: mset_map add: comp_def)
  have "mset (map ((!) (boBufferIn ord)) ps) = mset (map ((!) (boBufferIn ord)) [0..<?n])"
    using m by (simp only: mset_map)
  moreover have "map ((!) (boBufferIn ord)) [0..<?n] = boBufferIn ord" using assms(2) map_nth by metis
  moreover have "set ps = {0..<?n}" using mset_eq_setD [OF m] by simp
  then have "list_all2 (delivered_as (bxWordBreak (boBdx ord))) (map ((!) (boBufferIn ord)) ps) (map (outChar ord) ps)"
    using outChar_delivered [OF assms(1)] assms(2) by (auto simp: list_all2_conv_all_nth dest: nth_mem)
  moreover have "boBufferOut (pass3 ord) = map (outChar ord) ps" by (simp add: pass3_def ps_def)
  ultimately show thesis using that [of "map ((!) (boBufferIn ord)) ps"] by simp
qed

subsection \<open>Removed marks\<close>

lemma removeStep_fold:
  assumes "k \<le> length buf"
  shows "case fold removeStep [0..<k] (buf, dmap, 0) of (buf', _, cnt) \<Rightarrow>
    cnt \<le> k \<and> length buf' = length buf \<and> drop k buf' = drop k buf \<and> take (k - cnt) buf' = filter (\<lambda>c. \<not> isMarker c) (take k buf)"
  using assms
proof (induction k)
  case (Suc k)
  obtain b d c where st: "fold removeStep [0..<k] (buf, dmap, 0) = (b, d, c)" using prod_cases3 by blast
  then have ih: "c \<le> k" "length b = length buf" "drop k b = drop k buf" "take (k - c) b = filter (\<lambda>c. \<not> isMarker c) (take k buf)"
    using Suc by simp_all
  have step: "fold removeStep [0..<Suc k] (buf, dmap, 0) = removeStep k (b, d, c)" using st by simp
  have nth: "b ! k = buf ! k" using ih(3) Suc.prems ih(2) by (metis Suc_le_lessD hd_drop_conv_nth)
  have drop': "drop (Suc k) b = drop (Suc k) buf" using arg_cong [OF ih(3), of tl] by (simp add: drop_Suc tl_drop)
  have tk: "take (Suc k) buf = take k buf @ [buf ! k]" using Suc.prems by (simp add: take_Suc_conv_app_nth)
  show ?case
  proof (cases "isMarker (buf ! k)")
    case True
    then show ?thesis unfolding step using ih nth drop' tk by (simp add: removeStep_def)
  next
    case False
    have "take (Suc k - c) (b[k - c := buf ! k]) = take (k - c) b @ [buf ! k]"
      using ih(1,2) Suc.prems by (simp add: Suc_diff_le take_Suc_conv_app_nth)
    moreover have "b[k := buf ! k] = b" using nth by (metis list_update_id)
    ultimately show ?thesis unfolding step using False ih nth drop' tk Suc.prems by (cases "c = 0") (simp_all add: removeStep_def)
  qed
qed simp

lemma removeMarks_ok:
  assumes "boRemoveCnt ord = 0" "length (boBufferOut ord) = n"
  shows "take (n - boRemoveCnt (removeMarks n ord)) (boBufferOut (removeMarks n ord)) = filter (\<lambda>c. \<not> isMarker c) (boBufferOut ord)"
    "length (boBufferOut (removeMarks n ord)) = n" "boInsertCnt (removeMarks n ord) = boInsertCnt ord"
  using removeStep_fold [of n "boBufferOut ord" "bxDstToSrcMap (boBdx ord)"] assms
  by (auto simp: removeMarks_def onBdx_def split: prod.splits)

subsection \<open>The whole order\<close>

lemma orderSetup_ok:
  assumes "\<not> bxInsertMarkers bdx" "txOffset src + txCount src \<le> length (txChars src)"
    and "ord = orderSetup src dst bdx ord0"
  shows "\<not> boInsertMarkers ord" "boIx ord = boIx ord0" "boSize ord = txCount src" "types_ok (boSize ord) ord"
    "mset (boBufferIn ord) = mset (interesting src)" "length (boBufferIn ord) = boSize ord"
    "boImpToImpOrient ord > 0 \<or> boImpToImpPhase ord \<noteq> 2" "settings (boBdx ord) = settings bdx"
  using assms(1,2) by (simp_all add: assms(3) orderSetup_def Let_def types_ok_def interesting_def settings_def impLTR_def impRTL_def slice_def)

lemma destData_shared:
  "txData dst = None \<Longrightarrow> txOffset dst = 0 \<Longrightarrow> boInsertCnt ord = 0 \<Longrightarrow> c \<le> length (boBufferOut ord) \<Longrightarrow>
   destData dst ord (c + boInsertCnt ord) = boBufferOut ord \<and> sharesOutput dst ord"
  by (simp add: destData_def sharesOutput_def Let_def)

text \<open>The result of reordering into a new destination: a buffer of the size of the source, of which the characters that stay
  come first; the options of the transform are as before.\<close>

lemma order_result:
  assumes "1 \<le> txCount src" "txOffset src + txCount src \<le> length (txChars src)" "\<not> bxInsertMarkers bdx" "0 \<le> boIx ord0"
    and "txData dst = None" "txOffset dst = 0"
  shows "\<exists>buf c bdx' ord' cs out. orderTo src dst bdx ord0 = Inr (dst\<lparr>txData := Some buf, txCount := c\<rparr>, bdx', ord') \<and>
    length buf = txCount src \<and> c \<le> length buf \<and> bxOptions bdx' = bxOptions bdx \<and> mset cs = mset (interesting src) \<and>
    list_all2 (delivered_as (bxWordBreak bdx)) cs out \<and>
    take c buf = (if bxRemoveMarkers bdx then filter (\<lambda>c. \<not> isMarker c) out else out)"
proof -
  let ?n = "txCount src" and ?s = "orderSetup src dst bdx ord0"
  note s = orderSetup_ok [OF assms(3,2) refl, of dst ord0]
  obtain ord1 where o1: "levelsAndMap src dst ?s = Inr ord1" "kept ?s ord1" "levelled ord1"
    using levelsAndMap_ok [OF s(1) _ s(4,6,7)] s(2) assms(4) by metis
  have k: "boSize ord1 = ?n" "boBufferIn ord1 = boBufferIn ?s" "settings (boBdx ord1) = settings bdx" using o1(2) s by (simp_all add: kept_def)
  note wb = settings_fields [OF k(3)]
  have len: "length (boBufferIn ord1) = boSize ord1" using k s by simp
  obtain cs where cs: "mset cs = mset (boBufferIn ord1)" "list_all2 (delivered_as (bxWordBreak bdx)) cs (boBufferOut (pass3 ord1))"
    by (rule pass3_delivered [OF o1(3) len, unfolded wb])
  let ?o2 = "uninvert ?n (pass3 ord1)"
  have o2: "boBufferOut ?o2 = boBufferOut (pass3 ord1)" "length (boBufferOut ?o2) = ?n" "boRemoveCnt ?o2 = 0" "boInsertCnt ?o2 = 0"
      "bxRemoveMarkers (boBdx ?o2) = bxRemoveMarkers bdx"
    using o1(3) k(1) wb by (simp_all add: uninvert_def pass3_def onBdx_def levelled_def)
  let ?o = "if bxRemoveMarkers (boBdx ?o2) then removeMarks ?n ?o2 else ?o2"
  let ?c = "?n - boRemoveCnt ?o"
  have o: "take ?c (boBufferOut ?o) = (if bxRemoveMarkers bdx then filter (\<lambda>c. \<not> isMarker c) (boBufferOut (pass3 ord1)) else boBufferOut (pass3 ord1))"
      "length (boBufferOut ?o) = ?n" "boInsertCnt ?o = 0"
    using removeMarks_ok [OF o2(3,2)] o2 by (simp_all split: if_split)
  have d: "destData dst ?o (?c + boInsertCnt ?o) = boBufferOut ?o" "sharesOutput dst ?o"
    using destData_shared [OF assms(5,6) o(3), of ?c] o(2) by simp_all
  define ord4 where "ord4 = propertyMap ?n (sourceMap ?n (?c + boInsertCnt ?o) ?o)"
  define bdx1 where "bdx1 = (boBdx ord4)\<lparr>bxInpCount := ?n, bxOutCount := ?c + boInsertCnt ?o\<rparr>"
  have pre: "\<not> ?n < 1" "\<not> length (txChars src) < txOffset src + ?n" "\<not> 0 < boInsertCnt ?o" using assms(1,2) o(3) by simp_all
  have r: "orderTo src dst bdx ord0 = Inr (dst\<lparr>txData := Some (boBufferOut ?o), txCount := ?c + boInsertCnt ?o\<rparr>, bdx1, ord4\<lparr>boBdx := bdx1\<rparr>)"
    unfolding orderTo_def Let_def ord4_def bdx1_def
    by (simp only: pre if_False o1(1) res_bind_Inr d if_True prod.case)
  have "bxOptions bdx1 = bxOptions (boBdx ord1)"
    by (simp add: bdx1_def ord4_def propertyMap_def sourceMap_def removeMarks_def uninvert_def pass3_def onBdx_def Let_def split: prod.splits)
  then have "bxOptions bdx1 = bxOptions bdx" using settings_options [OF k(3)] by simp
  moreover have "?c + boInsertCnt ?o \<le> length (boBufferOut ?o)" "take (?c + boInsertCnt ?o) (boBufferOut ?o) = take ?c (boBufferOut ?o)"
    using o(2,3) by simp_all
  ultimately show ?thesis using r cs o(1,2) k(2) s(5) by metis
qed


definition example_text :: BidiText where
  "example_text = \<lparr>txFlags = NewBidiFlagSet, txData = Some [0x05D0, 0x28, 0x41, 0x200E], txOffset = 0, txCount = 4\<rparr>"

definition empty_text :: BidiText where
  "empty_text = \<lparr>txFlags = NewBidiFlagSet, txData = None, txOffset = 0, txCount = 0\<rparr>"


end
