(* ===== verification/BidiShape.thy ===== *)
theory BidiShape
  imports BidiOrder
begin

unbundle bit_operations_syntax

text \<open>
  The shaping of Arabic text (\<open>src/internal/bidi/shape.go\<close>, \<open>src/internal/bidi/tables.go\<close>): the
  presentation form of every letter by the links of its neighbours, the lam-alef ligatures with the
  cells they free or need, the tails of the Seen family, the two cells of Yeh with Hamza, and the
  vowel marks. A buffer is a list that every routine returns changed; the \<open>length\<close> that the source
  passes beside a buffer is always the length of the buffer.

  The lemmas show that the main loop ends within its fuel, that no index leaves the buffer, and that
  the letters of the text are the letters of the shaped text.
\<close>

section \<open>Definitions\<close>

subsection \<open>Tables\<close>

definition shapeTable :: "int list list list" where
  "shapeTable =
     [[[0, 0, 0, 0], [0, 0, 0, 0], [0, 1, 0, 3], [0, 1, 0, 1]],
      [[0, 0, 2, 2], [0, 0, 1, 2], [0, 1, 1, 2], [0, 1, 1, 3]],
      [[0, 0, 0, 0], [0, 0, 0, 0], [0, 1, 0, 3], [0, 1, 0, 3]],
      [[0, 0, 1, 2], [0, 0, 1, 2], [0, 1, 1, 2], [0, 1, 1, 3]]]"

definition convertFEto06 :: "int list" where
  "convertFEto06 =
     [1611, 1611, 1612, 1612, 1613, 1613, 1614, 1614, 1615, 1615, 1616, 1616, 1617, 1617, 1618, 1618, 1569, 1570,
      1570, 1571, 1571, 1572, 1572, 1573, 1573, 1574, 1574, 1574, 1574, 1575, 1575, 1576, 1576, 1576, 1576, 1577,
      1577, 1578, 1578, 1578, 1578, 1579, 1579, 1579, 1579, 1580, 1580, 1580, 1580, 1581, 1581, 1581, 1581, 1582,
      1582, 1582, 1582, 1583, 1583, 1584, 1584, 1585, 1585, 1586, 1586, 1587, 1587, 1587, 1587, 1588, 1588, 1588,
      1588, 1589, 1589, 1589, 1589, 1590, 1590, 1590, 1590, 1591, 1591, 1591, 1591, 1592, 1592, 1592, 1592, 1593,
      1593, 1593, 1593, 1594, 1594, 1594, 1594, 1601, 1601, 1601, 1601, 1602, 1602, 1602, 1602, 1603, 1603, 1603,
      1603, 1604, 1604, 1604, 1604, 1605, 1605, 1605, 1605, 1606, 1606, 1606, 1606, 1607, 1607, 1607, 1607, 1608,
      1608, 1609, 1609, 1610, 1610, 1610, 1610, 1628, 1628, 1629, 1629, 1630, 1630, 1631, 1631]"

definition link06 :: "int list" where
  "link06 =
     [4385, 4897, 5377, 5921, 6403, 7457, 7939, 8961, 9475, 10499, 11523, 12547, 13571, 14593, 15105, 15617, 16129,
      16643, 17667, 18691, 19715, 20739, 21763, 22787, 23811, 0, 0, 0, 0, 0, 3, 24835, 25859, 26883, 27923, 28931,
      29955, 30979, 32001, 32513, 33027, 4, 4, 4, 4, 4, 4, 4, 4, 0, 0, 0, 0, 0, 0, 0, 0, 0, 34049, 34561, 35073,
      35585, 0, 0, 0, 0, 0, 0, 0, 0, 0, 0, 0, 0, 0, 0, 0, 0, 4, 0, 33, 33, 0, 33, 1, 1, 3, 3, 3, 3, 3, 3, 3, 3, 3,
      3, 3, 3, 3, 3, 3, 3, 1, 1, 1, 1, 1, 1, 1, 1, 1, 1, 1, 1, 1, 1, 1, 1, 1, 1, 3, 3, 3, 3, 3, 3, 3, 3, 3, 3, 3, 3,
      3, 3, 3, 3, 3, 3, 3, 3, 3, 3, 3, 3, 3, 3, 3, 3, 3, 3, 3, 3, 3, 3, 3, 3, 3, 3, 1, 3, 1, 1, 1, 1, 1, 1, 1, 1, 1,
      1, 3, 1, 3, 3, 3, 3, 1, 1]"

definition linkFE :: "int list" where
  "linkFE =
     [3, 3, 3, 0, 3, 0, 3, 3, 3, 3, 3, 3, 3, 3, 3, 3, 0, 32, 33, 32, 33, 0, 1, 32, 33, 0, 2, 3, 1, 32, 33, 0, 2, 3,
      1, 0, 1, 0, 2, 3, 1, 0, 2, 3, 1, 0, 2, 3, 1, 0, 2, 3, 1, 0, 2, 3, 1, 0, 1, 0, 1, 0, 1, 0, 1, 0, 2, 3, 1, 0, 2,
      3, 1, 0, 2, 3, 1, 0, 2, 3, 1, 0, 2, 3, 1, 0, 2, 3, 1, 0, 2, 3, 1, 0, 2, 3, 1, 0, 2, 3, 1, 0, 2, 3, 1, 0, 2, 3,
      1, 16, 18, 19, 17, 0, 2, 3, 1, 0, 2, 3, 1, 0, 2, 3, 1, 0, 1, 0, 1, 0, 2, 3, 1, 0, 1, 0, 1, 0, 1, 0, 1]"

definition irrelevantPos :: "int list" where
  "irrelevantPos =
     [0, 2, 4, 6, 8, 10, 12, 14]"

definition alefType :: "u16 list" where
  "alefType =
     [1570, 1570, 1571, 1571, 1573, 1573, 1575, 1575]"

subsection \<open>Characters\<close>

definition shapeTail :: u16 where "shapeTail = 0x200B"

definition linkR :: int where "linkR = 1"
definition linkL :: int where "linkL = 2"
definition irrelevant :: int where "irrelevant = 4"
definition lamTypeBit :: int where "lamTypeBit = 16"
definition alefTypeBit :: int where "alefTypeBit = 32"

lemmas link_bits = linkR_def linkL_def irrelevant_def lamTypeBit_def alefTypeBit_def

definition ubaGetLink :: "u16 \<Rightarrow> int" where
  "ubaGetLink x =
     (if x \<ge> 0x0622 \<and> x \<le> 0x06D3 then link06 ! nat (uint x - 0x0622)
      else if x = 0x200D then 3
      else if x \<ge> 0x206D \<and> x \<le> 0x206F then 4
      else if x \<ge> 0xFE70 \<and> x \<le> 0xFEFC then linkFE ! nat (uint x - 0xFE70)
      else 0)"

definition lamalef :: "u16 \<Rightarrow> u16" where
  "lamalef x =
     (if x = 0x0622 then 0x065C else if x = 0x0623 then 0x065D else if x = 0x0625 then 0x065E
      else if x = 0x0627 then 0x065F else 0)"

definition specialChar :: "u16 \<Rightarrow> int" where
  "specialChar ch =
     (if (ch \<ge> 0x0621 \<and> ch < 0x0626) \<or> ch = 0x0627 \<or> (ch > 0x062E \<and> ch < 0x0633) \<or> (ch > 0x0647 \<and> ch < 0x064A) \<or> ch = 0x0629
      then 1 else 0)"

definition seenChar :: "u16 \<Rightarrow> bool" where
  "seenChar ch \<longleftrightarrow> ch \<in> {0xFEB1, 0xFEB2, 0xFEB5, 0xFEB6, 0xFEB9, 0xFEBA, 0xFEBD, 0xFEBE}"

definition isTashkeelForm :: "u16 \<Rightarrow> bool" where
  "isTashkeelForm c \<longleftrightarrow>
     (c \<ge> 0xFE70 \<and> c \<le> 0xFE72) \<or> c = 0xFE74 \<or> (c \<ge> 0xFE76 \<and> c \<le> 0xFE7B) \<or> (c \<ge> 0xFE7E \<and> c \<le> 0xFE7F)"

text \<open>The test that every lam-alef routine makes of a cell.\<close>

definition lamAlefForm :: "u16 \<Rightarrow> bool" where
  "lamAlefForm c \<longleftrightarrow> c \<ge> 0xFEF5 \<and> c \<le> 0xFEFC"

definition alefOf :: "u16 \<Rightarrow> u16" where
  "alefOf c = alefType ! nat (uint c - 0xFEF5)"

subsection \<open>Moving cells\<close>

text \<open>\<open>for t := a; t > b; t-- { buffer[t] = buffer[t-1] }\<close> and \<open>for t := a; t < b; t++ { buffer[t] = buffer[t+1] }\<close>\<close>

definition shiftUp :: "nat \<Rightarrow> nat \<Rightarrow> 'a list \<Rightarrow> 'a list" where
  "shiftUp a b buf = fold (\<lambda>t buf. buf[t := buf ! (t - 1)]) (rev [Suc b..<Suc a]) buf"

definition shiftDown :: "nat \<Rightarrow> nat \<Rightarrow> 'a list \<Rightarrow> 'a list" where
  "shiftDown a b buf = fold (\<lambda>t buf. buf[t := buf ! (t + 1)]) [a..<b] buf"

subsection \<open>The shaping routine\<close>

text \<open>The variables of the loop.\<close>

record shapeState =
  ssStr :: "u16 list"
  ssIx :: int
  ssCurr :: int
  ssLast :: int
  ssNext :: int
  ssPrev :: int
  ssLastPos :: nat
  ssNx :: int

definition iEnd :: "bool \<Rightarrow> 'a list \<Rightarrow> int" where
  "iEnd rtl str = (if rtl then int (length str) else -1)"

definition shapeDir :: "bool \<Rightarrow> int" where
  "shapeDir rtl = (if rtl then 1 else -1)"

text \<open>The search for the next character that takes part in linking; 30000 stands for none.\<close>

definition nextRelevant :: "bool \<Rightarrow> u16 list \<Rightarrow> nat \<Rightarrow> int \<times> int" where
  "nextRelevant rtl str ix =
     (case find (\<lambda>i. ubaGetLink (str ! i) AND irrelevant = 0) (if rtl then [Suc ix..<length str] else rev [0..<ix]) of
        None \<Rightarrow> (0, 30000)
      | Some i \<Rightarrow> (ubaGetLink (str ! i), int i))"

definition lookAhead :: "bool \<Rightarrow> shapeState \<Rightarrow> shapeState" where
  "lookAhead rtl s =
     (if ssNx s < 0 then
        case nextRelevant rtl (ssStr s) (nat (ssIx s)) of (nl, nx) \<Rightarrow> s\<lparr>ssNext := nl, ssNx := nx\<rparr>
      else s)"

text \<open>A lam and an alef become the ligature in the cell of the lam; the cell of the alef goes to the far end as a space.\<close>

definition joinCells :: "bool \<Rightarrow> nat \<Rightarrow> nat \<Rightarrow> u16 \<Rightarrow> u16 list \<Rightarrow> u16 list" where
  "joinCells rtl lastPos ix w str =
     (let str1 = str[lastPos := w]; n = length str in
      if rtl then (shiftDown ix (n - 1) str1)[n - 1 := 0x0020] else (shiftUp ix 0 str1)[0 := 0x0020])"

definition mergeLamAlef :: "bool \<Rightarrow> shapeState \<Rightarrow> shapeState" where
  "mergeLamAlef rtl s =
     (if ssCurr s AND alefTypeBit > 0 \<and> ssLast s AND lamTypeBit > 0 then
        let w = lamalef (ssStr s ! nat (ssIx s));
            s1 = (if w \<noteq> 0 then s\<lparr>ssStr := joinCells rtl (ssLastPos s) (nat (ssIx s)) w (ssStr s), ssIx := int (ssLastPos s)\<rparr> else s) in
        s1\<lparr>ssLast := ssPrev s, ssCurr := ubaGetLink w, ssNx := -2\<rparr>
      else s)"

definition shapeOf :: "BidiFlag \<Rightarrow> shapeState \<Rightarrow> int" where
  "shapeOf outTextShape s =
     (let flag = specialChar (ssStr s ! nat (ssIx s)) in
      if outTextShape = textInitial then (if flag = 0 then 2 else 0)
      else if outTextShape = textMiddle then (if flag = 0 then 3 else 1)
      else if outTextShape = textFinal then 1
      else if outTextShape = textIsolated then 0
      else shapeTable ! nat (ssNext s AND (linkR + linkL)) ! nat (ssLast s AND (linkR + linkL)) ! nat (ssCurr s AND (linkR + linkL)))"

definition putChar :: "int \<Rightarrow> shapeState \<Rightarrow> shapeState" where
  "putChar x s = s\<lparr>ssStr := (ssStr s)[nat (ssIx s) := word_of_int x]\<rparr>"

definition chooseForm :: "bool \<Rightarrow> BidiFlag \<Rightarrow> shapeState \<Rightarrow> shapeState" where
  "chooseForm rtl outTextShape s =
     (if ssCurr s AND 0xFF00 > 0 then
        let s1 = mergeLamAlef rtl (lookAhead rtl s) in
        putChar (0xFE70 + drop_bit 8 (ssCurr s1) + shapeOf outTextShape s1) s1
      else s)"

definition moveNotch :: "shapeState \<Rightarrow> shapeState" where
  "moveNotch s =
     (if ssCurr s AND irrelevant = 0 then s\<lparr>ssPrev := ssLast s, ssLast := ssCurr s, ssLastPos := nat (ssIx s)\<rparr> else s)"

definition tashkeelShape :: "shapeState \<Rightarrow> int" where
  "tashkeelShape s =
     (let next = ssNext s AND (linkR + linkL); last = ssLast s AND (linkR + linkL); c = ssStr s ! nat (ssIx s) in
      if c = 0x064C \<or> c = 0x064D then 0
      else if ssNext s AND alefTypeBit > 0 \<and> ssLast s AND lamTypeBit > 0 then 0
      else if (last = 3 \<and> next = 1) \<or> (last = 3 \<and> next = 3) then 1
      else 0)"

definition shapeTashkeel :: "shapeState \<Rightarrow> shapeState" where
  "shapeTashkeel s =
     (let charidx = uint (ssStr s ! nat (ssIx s)) - 0x064B in
      if ssCurr s AND irrelevant > 0 \<and> 0 \<le> charidx \<and> charidx < 8
      then putChar (0xFE70 + irrelevantPos ! nat charidx + tashkeelShape s) s
      else s)"

definition advance :: "bool \<Rightarrow> shapeState \<Rightarrow> shapeState" where
  "advance rtl s =
     (let ix = ssIx s + shapeDir rtl; s1 = s\<lparr>ssIx := ix\<rparr> in
      if ix = ssNx s then s1\<lparr>ssCurr := ssNext s, ssNx := -2\<rparr>
      else if ix \<noteq> iEnd rtl (ssStr s) then s1\<lparr>ssCurr := ubaGetLink (ssStr s ! nat ix)\<rparr>
      else s1)"

definition shapeStep :: "bool \<Rightarrow> BidiFlag \<Rightarrow> shapeState \<Rightarrow> shapeState" where
  "shapeStep rtl outTextShape s = advance rtl (shapeTashkeel (moveNotch (chooseForm rtl outTextShape s)))"

text \<open>The loop with fuel: running out of it is an error of its own, and so is an index outside of the buffer.\<close>

fun shapeLoop :: "nat \<Rightarrow> bool \<Rightarrow> BidiFlag \<Rightarrow> shapeState \<Rightarrow> u16 list res" where
  "shapeLoop fuel rtl outTextShape s =
     (if ssIx s = iEnd rtl (ssStr s) then Inr (ssStr s)
      else if ssIx s < 0 \<or> ssIx s \<ge> int (length (ssStr s)) then index_panic
      else case fuel of 0 \<Rightarrow> Inl (Panic ''shaping does not end'') | Suc k \<Rightarrow> shapeLoop k rtl outTextShape (shapeStep rtl outTextShape s))"

declare shapeLoop.simps [simp del]

definition shapeStart :: "bool \<Rightarrow> u16 list \<Rightarrow> shapeState" where
  "shapeStart rtl str =
     (let ix = (if rtl then 0 else length str - 1) in
      \<lparr>ssStr = str, ssIx = int ix, ssCurr = ubaGetLink (str ! ix), ssLast = 0, ssNext = 0, ssPrev = 0, ssLastPos = ix, ssNx = -2\<rparr>)"

definition letter06 :: "u16 \<Rightarrow> u16" where
  "letter06 c = (if c \<ge> 0xFE70 \<and> c \<le> 0xFEF4 then word_of_int (convertFEto06 ! nat (uint c - 0xFE70)) else c)"

definition shapingRoutine :: "BidiFlagSet \<Rightarrow> BidiFlagSet \<Rightarrow> u16 list \<Rightarrow> bool \<Rightarrow> u16 list res" where
  "shapingRoutine inAttr outAttr str rtl =
     (if str = [] then Inr str
      else if GetType inAttr = typeVisual \<and> GetType outAttr = typeImplicit then Inr (map letter06 str)
      else if GetType outAttr = typeVisual
      then shapeLoop (Suc (length str) * Suc (length str)) rtl (GetText outAttr) (shapeStart rtl str)
      else Inr str)"

subsection \<open>Lam-alef\<close>

definition lamAlefCount :: "u16 list \<Rightarrow> nat" where
  "lamAlefCount buffer = length (filter lamAlefForm buffer)"

definition handleLamAlefWithResizeBuffer :: "u16 list \<Rightarrow> bool \<Rightarrow> u16 list" where
  "handleLamAlefWithResizeBuffer buffer rtl =
     (let c = lamAlefCount buffer in
      if c = 0 then buffer else if rtl then take (length buffer - c) buffer else drop c buffer)"

definition expandCell :: "u16 \<Rightarrow> u16 list" where
  "expandCell c = (if lamAlefForm c then [0x0644, alefOf c] else [c])"

definition deshapeLamAlefWithResizeBuffer :: "u16 list \<Rightarrow> u16 list" where
  "deshapeLamAlefWithResizeBuffer buffer =
     (if lamAlefCount buffer = 0 then buffer
      else copy_into (replicate (length buffer + lamAlefCount buffer) 0) (concat (map expandCell buffer)))"

definition handleNearStep :: "bool \<Rightarrow> nat \<Rightarrow> u16 list \<Rightarrow> u16 list" where
  "handleNearStep rtl cnt buffer =
     (let n = length buffer in
      if lamAlefForm (buffer ! cnt) \<and> buffer ! (n - 1) = 0x0020 \<and> rtl then
        let b1 = shiftUp (n - 1) (cnt + 1) buffer in if cnt < n - 1 then b1[cnt + 1 := 0x0020] else b1
      else if lamAlefForm (buffer ! cnt) \<and> buffer ! 0 = 0x0020 \<and> \<not> rtl then
        let b1 = shiftDown 0 (cnt - 1) buffer in if cnt \<noteq> 0 then b1[cnt - 1 := 0x0020] else b1
      else buffer)"

definition handleLamAlefNear :: "u16 list \<Rightarrow> bool \<Rightarrow> u16 list" where
  "handleLamAlefNear buffer rtl = fold (handleNearStep rtl) [0..<length buffer] buffer"

definition deshapeNearStep :: "nat \<Rightarrow> u16 list \<Rightarrow> u16 list" where
  "deshapeNearStep cnt buffer =
     (if lamAlefForm (buffer ! cnt) \<and> cnt \<noteq> length buffer - 1 \<and> buffer ! (cnt + 1) = 0x0020
      then buffer[cnt + 1 := alefOf (buffer ! cnt), cnt := 0x0644] else buffer)"

definition deshapeLamAlefNear :: "u16 list \<Rightarrow> u16 list" where
  "deshapeLamAlefNear buffer = fold deshapeNearStep [1..<length buffer] buffer"

lemma length_shiftUp [simp]: "length (shiftUp a b buf) = length buf"
proof -
  have "length (fold (\<lambda>t buf. buf[t := buf ! (t - 1)]) ts buf) = length buf" for ts
    by (induction ts arbitrary: buf) simp_all
  then show ?thesis by (simp add: shiftUp_def)
qed

lemma length_shiftDown [simp]: "length (shiftDown a b buf) = length buf"
proof -
  have "length (fold (\<lambda>t buf. buf[t := buf ! (t + 1)]) ts buf) = length buf" for ts
    by (induction ts arbitrary: buf) simp_all
  then show ?thesis by (simp add: shiftDown_def)
qed

text \<open>A cell found moves a space to the front and the counter by two.\<close>

function handleBeginLoop :: "nat \<Rightarrow> nat \<Rightarrow> u16 list \<Rightarrow> u16 list" where
  "handleBeginLoop cnt occ buffer =
     (if cnt < length buffer then
        (if lamAlefForm (buffer ! cnt) \<and> buffer ! (length buffer - 1) = 0x0020
         then handleBeginLoop (cnt + 2) (occ + 1) ((shiftUp (length buffer - 1) occ buffer)[occ := 0x0020])
         else handleBeginLoop (cnt + 1) occ buffer)
      else buffer)"
  by pat_completeness auto
termination by (relation "measure (\<lambda>(cnt, occ, buffer). length buffer - cnt)") simp_all

declare handleBeginLoop.simps [simp del]

definition handleLamAlefAtBegin :: "u16 list \<Rightarrow> u16 list" where
  "handleLamAlefAtBegin buffer = handleBeginLoop 0 0 buffer"

definition deshapeBeginStep :: "nat \<Rightarrow> u16 list \<Rightarrow> u16 list res" where
  "deshapeBeginStep cnt buffer =
     (if lamAlefForm (buffer ! cnt) \<and> buffer ! 0 = 0x0020 then
        let b1 = shiftDown 0 (cnt - 1) buffer in
        if cnt = 0 then index_panic else Inr (b1[cnt - 1 := 0x0644, cnt := alefOf (buffer ! cnt)])
      else Inr buffer)"

definition deshapeLamAlefAtBegin :: "u16 list \<Rightarrow> u16 list res" where
  "deshapeLamAlefAtBegin buffer = res_fold deshapeBeginStep [0..<length buffer] buffer"

definition handleEndStep :: "nat \<Rightarrow> u16 list \<times> nat \<Rightarrow> u16 list \<times> nat" where
  "handleEndStep cnt st =
     (case st of (buffer, occ) \<Rightarrow>
        if lamAlefForm (buffer ! cnt) \<and> buffer ! 0 = 0x0020 then
          ((shiftDown 0 (length buffer - occ - 1) buffer)[length buffer - occ - 1 := 0x0020], occ + 1)
        else st)"

definition handleLamAlefAtEnd :: "u16 list \<Rightarrow> u16 list" where
  "handleLamAlefAtEnd buffer = fst (fold handleEndStep [0..<length buffer] (buffer, 0))"

definition deshapeEndStep :: "nat \<Rightarrow> u16 list \<Rightarrow> u16 list res" where
  "deshapeEndStep cnt buffer =
     (if lamAlefForm (buffer ! cnt) \<and> buffer ! (length buffer - 1) = 0x0020 then
        let b1 = shiftUp (length buffer - 1) (cnt + 1) buffer in
        if cnt + 1 \<ge> length buffer then index_panic else Inr (b1[cnt := 0x0644, cnt + 1 := alefOf (buffer ! cnt)])
      else Inr buffer)"

definition deshapeLamAlefAtEnd :: "u16 list \<Rightarrow> u16 list res" where
  "deshapeLamAlefAtEnd buffer = res_fold deshapeEndStep [0..<length buffer] buffer"

definition deshapeAutoStep :: "bool \<Rightarrow> nat \<Rightarrow> u16 list \<Rightarrow> u16 list res" where
  "deshapeAutoStep rtl cnt buffer =
     (let n = length buffer; a = alefOf (buffer ! cnt) in
      if lamAlefForm (buffer ! cnt) \<and> buffer ! (n - 1) = 0x0020 \<and> rtl then
        let b1 = shiftUp (n - 1) cnt buffer in
        if cnt + 1 \<ge> n then index_panic else Inr (b1[cnt + 1 := a, cnt := 0x0644])
      else if lamAlefForm (buffer ! cnt) \<and> buffer ! 0 = 0x0020 \<and> \<not> rtl then
        let b1 = shiftDown 0 cnt buffer in
        if cnt = 0 then index_panic else Inr (b1[cnt := a, cnt - 1 := 0x0644])
      else Inr buffer)"

definition deshapeLamAlefAuto :: "u16 list \<Rightarrow> bool \<Rightarrow> u16 list res" where
  "deshapeLamAlefAuto buffer rtl = res_fold (deshapeAutoStep rtl) [0..<length buffer] buffer"

subsection \<open>Seen, Yeh Hamza, tashkeel\<close>

definition seenStep :: "bool \<Rightarrow> nat \<Rightarrow> u16 list \<Rightarrow> u16 list" where
  "seenStep rtl idx buffer =
     (if rtl then
        if seenChar (buffer ! idx) \<and> idx + 1 < length buffer \<and> buffer ! (idx + 1) = 0x0020
        then buffer[idx + 1 := shapeTail] else buffer
      else if seenChar (buffer ! idx) \<and> idx \<ge> 1 \<and> buffer ! (idx - 1) = 0x0020 then buffer[idx - 1 := shapeTail] else buffer)"

definition shapeSeenNear :: "u16 list \<Rightarrow> bool \<Rightarrow> u16 list" where
  "shapeSeenNear buffer rtl = fold (seenStep rtl) [0..<length buffer] buffer"

definition deshapeSeenNear :: "u16 list \<Rightarrow> u16 list" where
  "deshapeSeenNear buffer = map (\<lambda>c. if c = shapeTail then 0x0020 else c) buffer"

text \<open>One of the two forms of Yeh with Hamza at a cell; the Hamza goes to the neighbouring cell when that is a space.\<close>

definition yehCell :: "bool \<Rightarrow> u16 \<Rightarrow> u16 \<Rightarrow> nat \<Rightarrow> u16 list \<Rightarrow> u16 list" where
  "yehCell rtl form yeh counter buffer =
     (if buffer ! counter = form then
        let b1 = buffer[counter := yeh] in
        if rtl then (if counter + 1 < length b1 \<and> b1 ! (counter + 1) = 0x0020 then b1[counter + 1 := 0xFE80] else b1)
        else (if counter \<ge> 1 \<and> b1 ! (counter - 1) = 0x0020 then b1[counter - 1 := 0xFE80] else b1)
      else buffer)"

definition shapeYehHamzaTwoCellNear :: "u16 list \<Rightarrow> bool \<Rightarrow> u16 list" where
  "shapeYehHamzaTwoCellNear buffer rtl =
     fold (\<lambda>counter b. yehCell rtl 0xFE89 0xFEEF counter (yehCell rtl 0xFE8A 0xFEF0 counter b)) [0..<length buffer] buffer"

definition yehJoin :: "u16 \<Rightarrow> u16 \<Rightarrow> nat \<Rightarrow> u16 list \<Rightarrow> u16 list" where
  "yehJoin yeh form counter buffer =
     (if counter + 1 < length buffer \<and> buffer ! counter = yeh \<and> buffer ! (counter + 1) = 0xFE80
      then buffer[counter := form, counter + 1 := 0x0020] else buffer)"

definition deshapeYehHamzaTwoCellNear :: "u16 list \<Rightarrow> u16 list" where
  "deshapeYehHamzaTwoCellNear buffer =
     fold (\<lambda>counter b. yehJoin 0xFEEF 0xFE89 counter (yehJoin 0xFEF0 0xFE8A counter b)) [0..<length buffer] buffer"

definition tashkeelBeginStep :: "nat \<Rightarrow> u16 list \<times> nat \<Rightarrow> u16 list \<times> nat" where
  "tashkeelBeginStep cnt st =
     (case st of (buffer, occ) \<Rightarrow>
        if isTashkeelForm (buffer ! cnt) then ((shiftUp cnt occ buffer)[occ := 0x0020], occ + 1) else st)"

definition customizeTashkeelAtBegin :: "u16 list \<Rightarrow> u16 list" where
  "customizeTashkeelAtBegin buffer = fst (fold tashkeelBeginStep [0..<length buffer] (buffer, 0))"

definition tashkeelEndStep :: "nat \<Rightarrow> u16 list \<times> nat \<Rightarrow> u16 list \<times> nat" where
  "tashkeelEndStep cnt st =
     (case st of (buffer, occ) \<Rightarrow>
        if isTashkeelForm (buffer ! cnt)
        then ((shiftDown cnt (length buffer - occ - 1) buffer)[length buffer - occ - 1 := 0x0020], occ + 1) else st)"

definition customizeTashkeelAtEnd :: "u16 list \<Rightarrow> u16 list" where
  "customizeTashkeelAtEnd buffer = fst (fold tashkeelEndStep [0..<length buffer] (buffer, 0))"

subsection \<open>The whole shaping\<close>

definition customizeTashkeel :: "ArabicOption \<Rightarrow> u16 list \<Rightarrow> u16 list" where
  "customizeTashkeel tashkeelOpt str =
     (if tashkeelOpt = TashkeelKeep \<or> tashkeelOpt = TashkeelAuto then str
      else if tashkeelOpt = TashkeelCustomizedAtBegin then customizeTashkeelAtBegin str
      else if tashkeelOpt = TashkeelCustomizedAtEnd then customizeTashkeelAtEnd str
      else str)"

definition deshapeLamAlef :: "ArabicOption \<Rightarrow> u16 list \<Rightarrow> bool \<Rightarrow> u16 list res" where
  "deshapeLamAlef lamAlefOpt str rtl =
     (if lamAlefOpt = LamAlefResizeBuffer then Inr (deshapeLamAlefWithResizeBuffer str)
      else if lamAlefOpt = LamAlefNear then Inr (deshapeLamAlefNear str)
      else if lamAlefOpt = LamAlefAtBegin then deshapeLamAlefAtBegin str
      else if lamAlefOpt = LamAlefAtEnd then deshapeLamAlefAtEnd str
      else if lamAlefOpt = LamAlefAuto then deshapeLamAlefAuto str rtl
      else Inr str)"

definition handleLamAlef :: "ArabicOption \<Rightarrow> u16 list \<Rightarrow> bool \<Rightarrow> u16 list" where
  "handleLamAlef lamAlefOpt str rtl =
     (if lamAlefOpt = LamAlefResizeBuffer then handleLamAlefWithResizeBuffer str rtl
      else if lamAlefOpt = LamAlefNear then handleLamAlefNear str rtl
      else if lamAlefOpt = LamAlefAtBegin then (if rtl then handleLamAlefAtBegin str else str)
      else if lamAlefOpt = LamAlefAtEnd then (if \<not> rtl then handleLamAlefAtEnd str else str)
      else str)"

definition Shape :: "BidiFlagSet \<Rightarrow> BidiFlagSet \<Rightarrow> u16 list \<Rightarrow> ArabicOptionSet option \<Rightarrow> u16 list res" where
  "Shape inAttr outAttr str optionSet =
     (if str = [] then Inr str
      else
        let opts = (case optionSet of None \<Rightarrow> NewArabicOptionSet | Some v \<Rightarrow> v);
            rtl = (GetOrientation outAttr = orientationRTL);
            seenOpt = GetSeenMode opts; yehOpt = GetYehHamzaMode opts;
            seen = (seenOpt = SeenNear \<or> seenOpt = SeenAuto);
            yeh = (yehOpt = YehHamzaTwoCellNear \<or> yehOpt = YehHamzaAuto) in
        if GetType inAttr = typeVisual \<and> GetType outAttr = typeImplicit then
          let s1 = (if seen then deshapeSeenNear str else str);
              s2 = (if yeh then deshapeYehHamzaTwoCellNear s1 else s1);
              s3 = customizeTashkeel (GetTashkeelMode opts) s2 in
          res_bind (deshapeLamAlef (GetLamAlefMode opts) s3 rtl) (\<lambda>s4. shapingRoutine inAttr outAttr s4 rtl)
        else if GetType outAttr = typeVisual then
          res_bind (shapingRoutine inAttr outAttr str rtl) (\<lambda>s0.
            let s1 = (if seen then shapeSeenNear s0 rtl else s0);
                s2 = (if yeh then shapeYehHamzaTwoCellNear s1 rtl else s1);
                s3 = customizeTashkeel (GetTashkeelMode opts) s2 in
            Inr (handleLamAlef (GetLamAlefMode opts) s3 rtl))
        else Inr str)"

section \<open>Lemmas\<close>

subsection \<open>Moved cells\<close>

lemma shiftDown_nth:
  "b < length buf \<Longrightarrow> i < length buf \<Longrightarrow> shiftDown a b buf ! i = (if a \<le> i \<and> i < b then buf ! (i + 1) else buf ! i)"
proof (induction b arbitrary: i)
  case 0
  then show ?case by (simp add: shiftDown_def)
next
  case (Suc b)
  show ?case
  proof (cases "a \<le> b")
    case True
    then have "shiftDown a (Suc b) buf = (shiftDown a b buf)[b := shiftDown a b buf ! (b + 1)]" by (simp add: shiftDown_def)
    then show ?thesis using Suc.IH [of i] Suc.IH [of "b + 1"] Suc.prems True by (auto simp: nth_list_update less_Suc_eq)
  qed (use Suc.prems in \<open>auto simp: shiftDown_def\<close>)
qed

lemma shiftUp_nth:
  "a < length buf \<Longrightarrow> i < length buf \<Longrightarrow> shiftUp a b buf ! i = (if b < i \<and> i \<le> a then buf ! (i - 1) else buf ! i)"
proof (induction a arbitrary: buf)
  case 0
  then show ?case by (simp add: shiftUp_def)
next
  case (Suc a)
  show ?case
  proof (cases "b \<le> a")
    case True
    then have "shiftUp (Suc a) b buf = shiftUp a b (buf[Suc a := buf ! a])" by (simp add: shiftUp_def)
    then show ?thesis using Suc.IH [of "buf[Suc a := buf ! a]"] Suc.prems True by (auto simp: nth_list_update)
  qed (use Suc.prems in \<open>auto simp: shiftUp_def\<close>)
qed

lemma shiftDown_end:
  assumes "i < length xs"
  shows "(shiftDown i (length xs - 1) xs)[length xs - 1 := c] = take i xs @ drop (Suc i) xs @ [c]"
proof (rule nth_equalityI)
  fix j assume "j < length ((shiftDown i (length xs - 1) xs)[length xs - 1 := c])"
  then show "(shiftDown i (length xs - 1) xs)[length xs - 1 := c] ! j = (take i xs @ drop (Suc i) xs @ [c]) ! j"
    using assms by (auto simp: nth_list_update shiftDown_nth nth_append)
qed (use assms in simp)

lemma shiftUp_begin:
  assumes "i < length xs"
  shows "(shiftUp i 0 xs)[0 := c] = c # take i xs @ drop (Suc i) xs"
proof (rule nth_equalityI)
  fix j assume "j < length ((shiftUp i 0 xs)[0 := c])"
  then show "(shiftUp i 0 xs)[0 := c] ! j = (c # take i xs @ drop (Suc i) xs) ! j"
    using assms by (cases j) (auto simp: nth_list_update shiftUp_nth nth_append)
qed (use assms in simp)

text \<open>The sum of a measure of the characters of a text.\<close>

definition weight :: "('a \<Rightarrow> 'b::comm_monoid_add) \<Rightarrow> 'a list \<Rightarrow> 'b" where
  "weight f xs = sum_list (map f xs)"

lemma weight_without:
  assumes "i < length xs"
  shows "weight f (take i xs @ drop (Suc i) xs) + f (xs ! i) = weight f xs"
  using assms by (subst (4) id_take_nth_drop [OF assms]) (simp add: weight_def ac_simps)

lemma weight_update:
  assumes "i < length xs"
  shows "weight f (xs[i := y]) + f (xs ! i) = weight f xs + f y"
  using weight_without [OF assms, of f] assms by (simp add: upd_conv_take_nth_drop weight_def ac_simps)

lemma length_joinCells [simp]: "length (joinCells rtl p i w str) = length str"
  by (simp add: joinCells_def Let_def)

lemma weight_joinCells:
  assumes "i < length str" "p < length str" "p \<noteq> i"
  shows "weight f (joinCells rtl p i w str) + f (str ! i) + f (str ! p) = weight f str + f w + f 0x20"
proof -
  let ?s = "str[p := w]"
  let ?r = "take i ?s @ drop (Suc i) ?s"
  have "weight f (joinCells rtl p i w str) = weight f ?r + f 0x20"
    using assms shiftDown_end [of i ?s "0x20"] shiftUp_begin [of i ?s "0x20"] by (simp add: joinCells_def Let_def weight_def ac_simps)
  then have "weight f (joinCells rtl p i w str) + f (str ! i) + f (str ! p) = (weight f ?r + f (?s ! i)) + f (str ! p) + f 0x20"
    using assms(3) by (simp add: ac_simps)
  also have "\<dots> = (weight f ?s + f (str ! p)) + f 0x20" using weight_without [of i ?s f] assms(1) by simp
  also have "weight f ?s + f (str ! p) = weight f str + f w" by (rule weight_update [OF assms(2)])
  finally show ?thesis .
qed

lemma joinCells_lam:
  assumes "i < length str" "p < length str" "if rtl then p < i else i < p"
  shows "joinCells rtl p i w str ! p = w"
proof (cases rtl)
  case True
  then have "joinCells rtl p i w str = take i (str[p := w]) @ drop (Suc i) (str[p := w]) @ [0x20]"
    using assms(1) shiftDown_end [of i "str[p := w]" "0x20"] by (simp add: joinCells_def Let_def)
  then show ?thesis using assms True by (simp add: nth_append)
next
  case False
  then have "joinCells rtl p i w str = 0x20 # take i (str[p := w]) @ drop (Suc i) (str[p := w])"
    using assms(1) shiftUp_begin [of i "str[p := w]" "0x20"] by (simp add: joinCells_def Let_def)
  then show ?thesis using assms False by (auto simp: nth_append nth_Cons split: nat.splits)
qed

subsection \<open>Letters and links\<close>

text \<open>The letters that a character stands for: a ligature, also by its code of the shaping, is a lam and an alef.\<close>

definition spelled :: "u16 \<Rightarrow> u16 list" where
  "spelled c =
     (if 0x065C \<le> c \<and> c \<le> 0x065F then [0x0644, [0x0622, 0x0623, 0x0625, 0x0627] ! nat (uint c - 0x065C)]
      else if lamAlefForm c then [0x0644, alefOf c] else [letter06 c])"

definition formAt :: "int \<Rightarrow> int \<Rightarrow> u16" where
  "formAt l shape = word_of_int (0xFE70 + drop_bit 8 l + shape)"

text \<open>What the link attributes of a character say of it.\<close>

definition link_fact :: "u16 \<Rightarrow> int \<Rightarrow> bool" where
  "link_fact c l \<longleftrightarrow>
     0 \<le> l \<and> (l AND 4 = 0 \<or> l = 4) \<and> (l AND 16 = 0 \<or> spelled c = [0x0644] \<and> (l AND 3 \<noteq> 1 \<or> l AND 0xFF00 = 0)) \<and>
     (l AND 0xFF00 = 0 \<or>
       (\<forall>shape \<in> set [0, 1, 2, 3]. lamalef (formAt l shape) = 0 \<and>
          (shape \<le> 1 \<or> l AND 3 \<noteq> 1 \<longrightarrow> spelled (formAt l shape) = spelled c)) \<and>
       (l AND 32 = 0 \<or> lamalef c \<noteq> 0))"

lemma link_tables:
  "list_all (\<lambda>i. link_fact (word_of_int (0x622 + int i)) (link06 ! i)) [0..<178]"
  "list_all (\<lambda>i. link_fact (word_of_int (0xFE70 + int i)) (linkFE ! i)) [0..<141]"
  by code_simp+

lemma table_index:
  fixes c :: u16
  assumes "a \<le> c" "c \<le> b" "list_all (\<lambda>i. P (word_of_int (uint a + int i)) (table ! i)) [0..<n]" "uint b < uint a + int n"
  shows "P c (table ! nat (uint c - uint a))"
proof -
  have "uint a \<le> uint c" "uint c \<le> uint b" using assms(1,2) by (simp_all add: word_le_def)
  then have i: "nat (uint c - uint a) < n" "word_of_int (uint a + int (nat (uint c - uint a))) = c" using assms(4) by auto
  then have "P (word_of_int (uint a + int (nat (uint c - uint a)))) (table ! nat (uint c - uint a))"
    using assms(3) unfolding list_all_iff atLeast_upt lessThan_iff [symmetric] by blast
  then show ?thesis by (simp only: i(2))
qed

lemma link_ok: "link_fact c (ubaGetLink c)"
proof -
  have "link_fact c (link06 ! nat (uint c - 0x622))" if "0x622 \<le> c" "c \<le> 0x6D3"
    using table_index [OF that, of link_fact link06 178] link_tables(1) by simp
  moreover have "link_fact c (linkFE ! nat (uint c - 0xFE70))" if "0xFE70 \<le> c" "c \<le> 0xFEFC"
    using table_index [OF that, of link_fact linkFE 141] link_tables(2) by simp
  moreover have "link_fact d 0" "link_fact d 3" "link_fact d 4" for d by (simp_all add: link_fact_def)
  ultimately show ?thesis unfolding ubaGetLink_def by (simp split: if_split)
qed

lemma shapeTable_entries:
  "list_all (\<lambda>a. list_all (\<lambda>b. list_all (\<lambda>c. 0 \<le> shapeTable ! a ! b ! c \<and> shapeTable ! a ! b ! c \<le> (if c = 1 then 1 else 3)) [0..<4]) [0..<4]) [0..<4]"
  by code_simp

lemma lamalef_pair:
  assumes "lamalef c \<noteq> 0"
  shows "spelled c = [c]" "spelled (lamalef c) = [0x0644, c]" "ubaGetLink (lamalef c) AND 3 = 1" "ubaGetLink (lamalef c) AND 0xFF00 > 0"
    "ubaGetLink (lamalef c) AND 4 = 0" "ubaGetLink (lamalef c) AND 16 = 0" "lamalef (lamalef c) = 0"
  using assms unfolding lamalef_def
  by (auto simp: spelled_def letter06_def lamAlefForm_def ubaGetLink_def link06_def split: if_splits)

subsection \<open>The loop of the shaping routine\<close>

text \<open>The alefs that may still join a lam, and the letters of a text.\<close>

definition alefs :: "u16 list \<Rightarrow> nat" where
  "alefs = weight (\<lambda>c. if lamalef c \<noteq> 0 then 1 else 0)"

definition letters :: "u16 list \<Rightarrow> u16 multiset" where
  "letters = weight (\<lambda>c. mset (spelled c))"

definition ahead :: "bool \<Rightarrow> int \<Rightarrow> int \<Rightarrow> bool" where
  "ahead rtl i j \<longleftrightarrow> (if rtl then i < j else j < i)"

definition next_ok :: "bool \<Rightarrow> shapeState \<Rightarrow> bool" where
  "next_ok rtl s \<longleftrightarrow>
     ssNx s < 0 \<or> (ssNext s = 0 \<and> ssNx s = 30000) \<or>
     (0 \<le> ssNx s \<and> ssNx s < int (length (ssStr s)) \<and> ahead rtl (ssIx s) (ssNx s) \<and> ssNext s = ubaGetLink (ssStr s ! nat (ssNx s)))"

text \<open>The index and the position of the last letter are in the buffer; the invariant of the loop.\<close>

definition at_cell :: "shapeState \<Rightarrow> bool" where
  "at_cell s \<longleftrightarrow> 0 \<le> ssIx s \<and> ssIx s < int (length (ssStr s)) \<and> ssLastPos s < length (ssStr s)"

definition shape_inv :: "bool \<Rightarrow> shapeState \<Rightarrow> bool" where
  "shape_inv rtl s \<longleftrightarrow>
     ssLastPos s < length (ssStr s) \<and> (ssIx s = iEnd rtl (ssStr s) \<or> at_cell s \<and> ssCurr s \<in> {0, ubaGetLink (ssStr s ! nat (ssIx s))}) \<and>
     next_ok rtl s \<and>
     (ssLast s AND lamTypeBit > 0 \<longrightarrow> ahead rtl (int (ssLastPos s)) (ssIx s) \<and> spelled (ssStr s ! ssLastPos s) = [0x0644])"

text \<open>The modes in which every letter has the form that is asked for.\<close>

definition plain_mode :: "BidiFlag \<Rightarrow> bool" where
  "plain_mode m \<longleftrightarrow> m \<noteq> textInitial \<and> m \<noteq> textMiddle"

lemma and_3: "0 \<le> (x :: int) AND 3" "nat (x AND 3) < 4"
proof -
  have "x AND 3 = x mod 4" using take_bit_eq_mask [of 2 x] by (simp add: mask_eq_exp_minus_1 take_bit_eq_mod)
  then show "0 \<le> x AND 3" "nat (x AND 3) < 4" by simp_all
qed

lemma lookAhead_ok:
  assumes "at_cell s" "next_ok rtl s"
  shows "next_ok rtl (lookAhead rtl s) \<and> lookAhead rtl s = s\<lparr>ssNext := ssNext (lookAhead rtl s), ssNx := ssNx (lookAhead rtl s)\<rparr>"
proof (cases "ssNx s < 0")
  case True
  let ?P = "\<lambda>i. ubaGetLink (ssStr s ! i) AND irrelevant = 0"
  let ?is = "if rtl then [Suc (nat (ssIx s))..<length (ssStr s)] else rev [0..<nat (ssIx s)]"
  show ?thesis
  proof (cases "find ?P ?is")
    case None
    then show ?thesis using True by (simp add: lookAhead_def nextRelevant_def next_ok_def)
  next
    case (Some i)
    then have "i \<in> set ?is" by (metis find_Some_iff nth_mem)
    then have "i < length (ssStr s)" "ahead rtl (ssIx s) (int i)" using assms(1) by (auto simp: at_cell_def ahead_def split: if_splits)
    then show ?thesis using True Some by (simp add: lookAhead_def nextRelevant_def next_ok_def)
  qed
qed (use assms in \<open>simp add: lookAhead_def\<close>)

lemma shapeOf_range:
  "0 \<le> shapeOf m s \<and> shapeOf m s \<le> 3 \<and> (plain_mode m \<and> ssCurr s AND 3 = 1 \<longrightarrow> shapeOf m s \<le> 1)"
proof -
  let ?a = "nat (ssNext s AND 3)" and ?b = "nat (ssLast s AND 3)" and ?c = "nat (ssCurr s AND 3)"
  have "0 \<le> shapeTable ! ?a ! ?b ! ?c \<and> shapeTable ! ?a ! ?b ! ?c \<le> (if ?c = 1 then 1 else 3)"
    using shapeTable_entries and_3 unfolding list_all_iff by (simp add: atLeast_upt [symmetric] del: upt_Suc)
  then show ?thesis by (auto simp: shapeOf_def Let_def plain_mode_def linkR_def linkL_def split: if_splits)
qed

lemma shape_cases: "0 \<le> (x :: int) \<Longrightarrow> x \<le> 3 \<Longrightarrow> x \<in> set [0, 1, 2, 3]"
  by auto

lemma link_lam: "link_fact c l \<Longrightarrow> l AND 16 > 0 \<Longrightarrow> spelled c = [0x0644] \<and> (l AND 3 \<noteq> 1 \<or> l AND 0xFF00 = 0)"
  unfolding link_fact_def by (elim conjE disjE) simp_all

lemma formAt_ok:
  assumes "link_fact c l" "l AND 0xFF00 > 0" "0 \<le> shape" "shape \<le> 3"
  shows "lamalef (formAt l shape) = 0" "shape \<le> 1 \<or> l AND 3 \<noteq> 1 \<Longrightarrow> spelled (formAt l shape) = spelled c" "l AND 4 = 0"
    "l AND 16 > 0 \<Longrightarrow> spelled (formAt l shape) = [0x0644]" "l AND 32 > 0 \<Longrightarrow> lamalef c \<noteq> 0"
proof -
  have high: "l AND 0xFF00 \<noteq> 0" using assms(2) by simp
  have f: "(l AND 4 = 0 \<or> l = 4)" "(\<forall>shape \<in> set [0, 1, 2, 3]. lamalef (formAt l shape) = 0 \<and>
          (shape \<le> 1 \<or> l AND 3 \<noteq> 1 \<longrightarrow> spelled (formAt l shape) = spelled c))" "l AND 32 = 0 \<or> lamalef c \<noteq> 0"
    using assms(1) high unfolding link_fact_def by argo+
  have s: "lamalef (formAt l shape) = 0 \<and> (shape \<le> 1 \<or> l AND 3 \<noteq> 1 \<longrightarrow> spelled (formAt l shape) = spelled c)"
    using f(2) shape_cases [OF assms(3,4)] by (rule bspec)
  show "lamalef (formAt l shape) = 0" "shape \<le> 1 \<or> l AND 3 \<noteq> 1 \<Longrightarrow> spelled (formAt l shape) = spelled c" using s by simp_all
  show "l AND 4 = 0" using f(1) assms(2) by auto
  show "l AND 16 > 0 \<Longrightarrow> spelled (formAt l shape) = [0x0644]" using link_lam [OF assms(1)] assms(2) s by auto
  show "l AND 32 > 0 \<Longrightarrow> lamalef c \<noteq> 0" using f(3) by auto
qed

text \<open>What a step of the loop may change of the text: no alef is added, and the letters stay, with some spaces more.\<close>

definition only_spaces :: "u16 list \<Rightarrow> u16 list \<Rightarrow> bool" where
  "only_spaces str str' \<longleftrightarrow> (\<exists>k. letters str' = letters str + replicate_mset k 0x20)"

lemma only_spaces_same: "letters str' = letters str \<Longrightarrow> only_spaces str str'"
  by (auto simp: only_spaces_def intro: exI [of _ 0])

lemma only_spaces_trans: "only_spaces a b \<Longrightarrow> only_spaces b c \<Longrightarrow> only_spaces a c"
proof -
  assume "only_spaces a b" "only_spaces b c"
  then obtain j k where "letters b = letters a + replicate_mset j 0x20" "letters c = letters b + replicate_mset k 0x20"
    by (auto simp: only_spaces_def)
  then have "letters c = letters a + replicate_mset (j + k) 0x20" by (simp add: multiset_eq_iff)
  then show ?thesis unfolding only_spaces_def by blast
qed

lemma put_letters:
  assumes "i < length str"
  shows "spelled y = spelled (str ! i) \<Longrightarrow> letters (str[i := y]) = letters str"
    and "lamalef y = 0 \<Longrightarrow> alefs (str[i := y]) \<le> alefs str"
  using weight_update [OF assms, of "\<lambda>c. mset (spelled c)" y] weight_update [OF assms, of "\<lambda>c. if lamalef c \<noteq> 0 then 1 else (0 :: nat)" y]
  by (simp_all add: letters_def alefs_def split: if_splits)

lemma join_letters:
  fixes rtl :: bool
  assumes "i < length str" "p < length str" "p \<noteq> i" "lamalef (str ! i) \<noteq> 0" "spelled (str ! p) = [0x0644]"
  defines "str' \<equiv> joinCells rtl p i (lamalef (str ! i)) str"
  shows "letters str' = letters str + {#0x20#}" "alefs str' < alefs str"
proof -
  note w = lamalef_pair [OF assms(4)]
  have sp: "spelled 0x20 = [0x20]" "lamalef 0x20 = 0" by (simp_all add: spelled_def letter06_def lamAlefForm_def lamalef_def)
  have "letters str' + mset (spelled (str ! i)) + mset (spelled (str ! p)) =
      letters str + mset (spelled (lamalef (str ! i))) + mset (spelled 0x20)"
    unfolding letters_def str'_def by (rule weight_joinCells [OF assms(1-3)])
  then show "letters str' = letters str + {#0x20#}" unfolding w(1,2) assms(5) sp by simp
  let ?g = "\<lambda>c. if lamalef c \<noteq> 0 then 1 else 0"
  have "alefs str' + ?g (str ! i) + ?g (str ! p) = alefs str + ?g (lamalef (str ! i)) + ?g 0x20"
    unfolding alefs_def str'_def by (rule weight_joinCells [OF assms(1-3)])
  then show "alefs str' < alefs str" using assms(4) w(7) sp(2) by simp
qed

text \<open>The state after the form of the current character is chosen.\<close>

definition formed :: "bool \<Rightarrow> BidiFlag \<Rightarrow> shapeState \<Rightarrow> shapeState \<Rightarrow> bool" where
  "formed rtl m s s' \<longleftrightarrow>
     length (ssStr s') = length (ssStr s) \<and> at_cell s' \<and> next_ok rtl s' \<and> ssCurr s' AND 4 = 0 \<and>
     (ssCurr s' AND 16 > 0 \<longrightarrow> spelled (ssStr s' ! nat (ssIx s')) = [0x0644]) \<and>
     alefs (ssStr s') \<le> alefs (ssStr s) \<and> (ssIx s' = ssIx s \<or> alefs (ssStr s') < alefs (ssStr s)) \<and>
     (plain_mode m \<longrightarrow> only_spaces (ssStr s) (ssStr s'))"

lemma put_form:
  assumes "at_cell s" "next_ok rtl s" "ssCurr s = ubaGetLink c" "ssCurr s AND 0xFF00 > 0" "spelled c = spelled (ssStr s ! nat (ssIx s))"
  shows "formed rtl m s (putChar (0xFE70 + drop_bit 8 (ssCurr s) + shapeOf m s) s)"
proof -
  let ?y = "formAt (ssCurr s) (shapeOf m s)"
  have r: "0 \<le> shapeOf m s" "shapeOf m s \<le> 3" "plain_mode m \<Longrightarrow> ssCurr s AND 3 = 1 \<Longrightarrow> shapeOf m s \<le> 1"
    using shapeOf_range [of m s] by auto
  note f = formAt_ok [OF link_ok [of c, folded assms(3)] assms(4) r(1,2)]
  have i: "nat (ssIx s) < length (ssStr s)" using assms(1) by (auto simp: at_cell_def)
  have eq: "putChar (0xFE70 + drop_bit 8 (ssCurr s) + shapeOf m s) s = s\<lparr>ssStr := (ssStr s)[nat (ssIx s) := ?y]\<rparr>"
    by (simp add: putChar_def formAt_def)
  have n: "next_ok rtl (s\<lparr>ssStr := (ssStr s)[nat (ssIx s) := ?y]\<rparr>)"
    using assms(1,2) by (auto simp: next_ok_def ahead_def at_cell_def nth_list_update split: if_splits)
  have "only_spaces (ssStr s) ((ssStr s)[nat (ssIx s) := ?y])" if "plain_mode m"
    using put_letters(1) [OF i, of ?y] f(2) r(3) [OF that] assms(5) by (metis only_spaces_same)
  then show ?thesis unfolding eq formed_def
    using i n f(1,3,4) put_letters(2) [OF i f(1)] assms(1) by (simp add: at_cell_def)
qed


lemma formed_trans:
  assumes "formed rtl m t u" "length (ssStr t) = length (ssStr s)" "alefs (ssStr t) < alefs (ssStr s)" "only_spaces (ssStr s) (ssStr t)"
  shows "formed rtl m s u"
  using assms by (auto simp: formed_def intro: only_spaces_trans)

lemma current_link: "shape_inv rtl s \<Longrightarrow> at_cell s \<Longrightarrow> ssCurr s = 0 \<or> ssCurr s = ubaGetLink (ssStr s ! nat (ssIx s))"
  by (auto simp: shape_inv_def at_cell_def iEnd_def split: if_splits)

lemma merge_form:
  assumes inv: "shape_inv rtl s" and cell: "at_cell s" and high: "ssCurr s AND 0xFF00 > 0"
    and pair: "ssCurr s AND 32 > 0" "ssLast s AND 16 > 0"
  defines "t \<equiv> mergeLamAlef rtl s"
  shows "formed rtl m s (putChar (0xFE70 + drop_bit 8 (ssCurr t) + shapeOf m t) t)"
proof -
  let ?i = "nat (ssIx s)" and ?p = "ssLastPos s"
  define w where "w = lamalef (ssStr s ! ?i)"
  have cur: "ssCurr s = ubaGetLink (ssStr s ! ?i)"
    using current_link [OF inv cell] high by auto
  have w0: "w \<noteq> 0" using formAt_ok(5) [OF link_ok [of "ssStr s ! ?i", folded cur] high, of 0] pair(1) by (simp add: w_def)
  note w = lamalef_pair [OF w0 [unfolded w_def], folded w_def]
  have lam: "ahead rtl (int ?p) (ssIx s)" "spelled (ssStr s ! ?p) = [0x0644]"
    using inv pair(2) by (simp_all add: shape_inv_def lamTypeBit_def)
  have ix: "?i < length (ssStr s)" "?p < length (ssStr s)" "?p \<noteq> ?i" "if rtl then ?p < ?i else ?i < ?p"
    using cell lam(1) by (auto simp: at_cell_def ahead_def split: if_splits)
  have t: "t = s\<lparr>ssStr := joinCells rtl ?p ?i w (ssStr s), ssIx := int ?p, ssLast := ssPrev s, ssCurr := ubaGetLink w, ssNx := -2\<rparr>"
    using pair w0 by (simp add: t_def mergeLamAlef_def alefTypeBit_def lamTypeBit_def w_def [symmetric])
  have "formed rtl m t (putChar (0xFE70 + drop_bit 8 (ssCurr t) + shapeOf m t) t)"
    by (rule put_form [where c = w]) (use ix w(4) joinCells_lam [OF ix(1,2,4)] in \<open>simp_all add: t at_cell_def next_ok_def\<close>)
  moreover have "letters (ssStr t) = letters (ssStr s) + {#0x20#}" "alefs (ssStr t) < alefs (ssStr s)"
    using join_letters [OF ix(1-3) w0 [unfolded w_def] lam(2), of rtl] by (simp_all add: t w_def)
  moreover from this have "only_spaces (ssStr s) (ssStr t)" unfolding only_spaces_def by (auto intro: exI [of _ 1])
  moreover have "length (ssStr t) = length (ssStr s)" by (simp add: t)
  ultimately show ?thesis using formed_trans by blast
qed

lemma chooseForm_ok:
  assumes inv: "shape_inv rtl s" and cell: "at_cell s"
  shows "chooseForm rtl m s = s \<and> (ssCurr s AND 16 > 0 \<longrightarrow> spelled (ssStr s ! nat (ssIx s)) = [0x0644]) \<or> formed rtl m s (chooseForm rtl m s)"
proof (cases "ssCurr s AND 0xFF00 > 0")
  case high: True
  let ?s = "lookAhead rtl s"
  have n: "next_ok rtl s" using inv by (simp add: shape_inv_def)
  have l: "next_ok rtl ?s" "?s = s\<lparr>ssNext := ssNext ?s, ssNx := ssNx ?s\<rparr>" using lookAhead_ok [OF cell n] by simp_all
  have same: "ssStr ?s = ssStr s" "ssIx ?s = ssIx s" "ssCurr ?s = ssCurr s" "ssLast ?s = ssLast s" "ssPrev ?s = ssPrev s" "ssLastPos ?s = ssLastPos s"
    by (subst l(2), simp)+
  have inv': "shape_inv rtl ?s" "at_cell ?s" using inv cell l(1) by (auto simp: shape_inv_def at_cell_def same)
  have e: "chooseForm rtl m s = (let s1 = mergeLamAlef rtl ?s in putChar (0xFE70 + drop_bit 8 (ssCurr s1) + shapeOf m s1) s1)"
    using high by (simp add: chooseForm_def)
  have "formed rtl m ?s (chooseForm rtl m s)"
  proof (cases "ssCurr s AND 32 > 0 \<and> ssLast s AND 16 > 0")
    case True
    then show ?thesis using merge_form [OF inv', of m] high by (simp add: e same Let_def)
  next
    case False
    then have "mergeLamAlef rtl ?s = ?s" unfolding mergeLamAlef_def alefTypeBit_def lamTypeBit_def same by (rule if_not_P)
    moreover have "ssCurr ?s = ubaGetLink (ssStr ?s ! nat (ssIx ?s))"
      using current_link [OF inv'] high same(3) by auto
    ultimately show ?thesis using put_form [OF inv'(2) l(1), of _ m] high by (simp add: e same Let_def)
  qed
  then show ?thesis by (simp add: formed_def same)
next
  case False
  have "ssCurr s AND 16 > 0 \<longrightarrow> spelled (ssStr s ! nat (ssIx s)) = [0x0644]"
    using current_link [OF inv cell] link_lam [OF link_ok [of "ssStr s ! nat (ssIx s)"]] by auto
  then show ?thesis using False by (simp add: chooseForm_def)
qed


lemma tashkeel_forms:
  "list_all (\<lambda>i. list_all (\<lambda>sh. let c = word_of_int (0xFE70 + irrelevantPos ! i + sh) in
     spelled c = spelled (word_of_int (0x064B + int i)) \<and> lamalef c = 0) [0, 1]) [0..<8]"
  by code_simp

text \<open>A vowel mark is put as one of its forms; nothing else changes.\<close>

lemma shapeTashkeel_ok:
  assumes "at_cell s"
  shows "\<exists>y. shapeTashkeel s = s\<lparr>ssStr := (ssStr s)[nat (ssIx s) := y]\<rparr> \<and> spelled y = spelled (ssStr s ! nat (ssIx s)) \<and>
    (y = ssStr s ! nat (ssIx s) \<or> lamalef y = 0 \<and> ssCurr s AND 4 > 0)"
proof (cases "ssCurr s AND irrelevant > 0 \<and> 0 \<le> uint (ssStr s ! nat (ssIx s)) - 0x064B \<and> uint (ssStr s ! nat (ssIx s)) - 0x064B < 8")
  case True
  let ?c = "ssStr s ! nat (ssIx s)" and ?i = "nat (uint (ssStr s ! nat (ssIx s)) - 0x064B)"
  let ?y = "word_of_int (0xFE70 + irrelevantPos ! ?i + tashkeelShape s) :: u16"
  have "tashkeelShape s \<in> set [0, 1]" by (simp add: tashkeelShape_def Let_def)
  moreover have "?i \<in> set [0..<8]" "0x064B + int ?i = uint ?c" using True by auto
  ultimately have "spelled ?y = spelled (word_of_int (uint ?c)) \<and> lamalef ?y = 0"
    using tashkeel_forms unfolding list_all_iff Let_def by metis
  then show ?thesis using True by (intro exI [of _ ?y]) (simp add: shapeTashkeel_def putChar_def irrelevant_def)
next
  case False
  then have "shapeTashkeel s = s" unfolding shapeTashkeel_def Let_def by (rule if_not_P)
  then show ?thesis using assms by (intro exI [of _ "ssStr s ! nat (ssIx s)"]) (simp add: at_cell_def)
qed

text \<open>What holds before the index moves on.\<close>

definition noted :: "bool \<Rightarrow> BidiFlag \<Rightarrow> shapeState \<Rightarrow> shapeState \<Rightarrow> bool" where
  "noted rtl m s t \<longleftrightarrow>
     length (ssStr t) = length (ssStr s) \<and> at_cell t \<and> next_ok rtl t \<and>
     (ssLast t AND 16 > 0 \<longrightarrow> ahead rtl (int (ssLastPos t)) (ssIx t + shapeDir rtl) \<and> spelled (ssStr t ! ssLastPos t) = [0x0644]) \<and>
     alefs (ssStr t) \<le> alefs (ssStr s) \<and> (ssIx t = ssIx s \<or> alefs (ssStr t) < alefs (ssStr s)) \<and>
     (plain_mode m \<longrightarrow> only_spaces (ssStr s) (ssStr t))"

lemma noted_notch:
  assumes inv: "shape_inv rtl s" and cell: "at_cell s"
  shows "noted rtl m s (moveNotch (chooseForm rtl m s))"
  using chooseForm_ok [OF inv cell, of m]
proof
  assume f: "formed rtl m s (chooseForm rtl m s)"
  define c where "c = chooseForm rtl m s"
  have "moveNotch c = c\<lparr>ssPrev := ssLast c, ssLast := ssCurr c, ssLastPos := nat (ssIx c)\<rparr>"
    using f by (simp add: formed_def moveNotch_def irrelevant_def c_def)
  moreover have "nat (ssIx c) < length (ssStr c)" "ahead rtl (int (nat (ssIx c))) (ssIx c + shapeDir rtl)"
    using f by (auto simp: formed_def c_def at_cell_def ahead_def shapeDir_def)
  moreover have "next_ok rtl (c\<lparr>ssPrev := a, ssLast := b, ssLastPos := p\<rparr>) = next_ok rtl c" for a b p by (simp add: next_ok_def)
  ultimately show ?thesis using f by (simp add: noted_def formed_def at_cell_def c_def [symmetric])
next
  assume same: "chooseForm rtl m s = s \<and> (ssCurr s AND 16 > 0 \<longrightarrow> spelled (ssStr s ! nat (ssIx s)) = [0x0644])"
  have n: "next_ok rtl s" "ssLast s AND 16 > 0 \<longrightarrow> ahead rtl (int (ssLastPos s)) (ssIx s) \<and> spelled (ssStr s ! ssLastPos s) = [0x0644]"
    using inv by (simp_all add: shape_inv_def lamTypeBit_def)
  have "ahead rtl (int (nat (ssIx s))) (ssIx s + shapeDir rtl)"
      "ahead rtl (int (ssLastPos s)) (ssIx s) \<Longrightarrow> ahead rtl (int (ssLastPos s)) (ssIx s + shapeDir rtl)"
    using cell by (simp_all add: ahead_def shapeDir_def at_cell_def split: if_splits)
  moreover have "nat (ssIx s) < length (ssStr s)" using cell by (auto simp: at_cell_def)
  ultimately show ?thesis using same n cell
    by (simp add: moveNotch_def noted_def irrelevant_def at_cell_def next_ok_def only_spaces_same split: if_split)
qed

lemma noted_tashkeel:
  assumes "noted rtl m s t"
  shows "noted rtl m s (shapeTashkeel t)"
proof -
  have cell: "at_cell t" using assms by (simp add: noted_def)
  then have i: "nat (ssIx t) < length (ssStr t)" by (auto simp: at_cell_def)
  obtain y where y: "shapeTashkeel t = t\<lparr>ssStr := (ssStr t)[nat (ssIx t) := y]\<rparr>" "spelled y = spelled (ssStr t ! nat (ssIx t))"
      "y = ssStr t ! nat (ssIx t) \<or> lamalef y = 0"
    using shapeTashkeel_ok [OF cell] by blast
  have "letters ((ssStr t)[nat (ssIx t) := y]) = letters (ssStr t)" by (rule put_letters(1) [OF i y(2)])
  moreover have "alefs ((ssStr t)[nat (ssIx t) := y]) \<le> alefs (ssStr t)" using y(3) put_letters(2) [OF i] by auto
  moreover have "next_ok rtl (shapeTashkeel t)"
    using assms cell by (auto simp: y(1) noted_def next_ok_def ahead_def at_cell_def nth_list_update split: if_splits)
  moreover have "spelled ((ssStr t)[nat (ssIx t) := y] ! ssLastPos t) = spelled (ssStr t ! ssLastPos t)"
    using y(2) i by (simp add: nth_list_update split: if_split)
  ultimately show ?thesis
    using assms unfolding noted_def only_spaces_def by (auto simp: y(1) at_cell_def)
qed


lemma advance_ok:
  assumes "noted rtl m s t"
  shows "shape_inv rtl (advance rtl t)" "ssStr (advance rtl t) = ssStr t" "ssIx (advance rtl t) = ssIx t + shapeDir rtl"
proof -
  let ?ix = "ssIx t + shapeDir rtl"
  have cell: "at_cell t" and n: "next_ok rtl t" using assms by (simp_all add: noted_def)
  show str: "ssStr (advance rtl t) = ssStr t" and ix: "ssIx (advance rtl t) = ?ix" by (simp_all add: advance_def Let_def)
  have last: "ssLast (advance rtl t) = ssLast t" "ssLastPos (advance rtl t) = ssLastPos t" by (simp_all add: advance_def Let_def)
  have range: "?ix = iEnd rtl (ssStr t) \<or> 0 \<le> ?ix \<and> ?ix < int (length (ssStr t))"
    using cell by (auto simp: at_cell_def iEnd_def shapeDir_def)
  have cur: "ssCurr (advance rtl t) \<in> {0, ubaGetLink (ssStr t ! nat ?ix)}" if "?ix \<noteq> iEnd rtl (ssStr t)"
    using n that range by (auto simp: advance_def Let_def next_ok_def)
  have nx: "next_ok rtl (advance rtl t)"
    using n by (auto simp: advance_def Let_def next_ok_def ahead_def shapeDir_def split: if_splits)
  show "shape_inv rtl (advance rtl t)"
    unfolding shape_inv_def at_cell_def str ix last
    using range cur nx cell assms by (auto simp: noted_def at_cell_def lamTypeBit_def)
qed

text \<open>What is left to do: alefs first, then the distance to the end.\<close>

definition distance :: "bool \<Rightarrow> shapeState \<Rightarrow> nat" where
  "distance rtl s = nat (if rtl then int (length (ssStr s)) - ssIx s else ssIx s + 1)"

definition rest :: "bool \<Rightarrow> shapeState \<Rightarrow> nat" where
  "rest rtl s = alefs (ssStr s) * Suc (length (ssStr s)) + distance rtl s"

lemma shapeStep_ok:
  fixes m :: BidiFlag
  assumes "shape_inv rtl s" "at_cell s"
  defines "t \<equiv> shapeStep rtl m s"
  shows "shape_inv rtl t" "length (ssStr t) = length (ssStr s)" "rest rtl t < rest rtl s" "plain_mode m \<Longrightarrow> only_spaces (ssStr s) (ssStr t)"
proof -
  let ?u = "shapeTashkeel (moveNotch (chooseForm rtl m s))"
  have u: "noted rtl m s ?u" by (rule noted_tashkeel [OF noted_notch [OF assms(1,2)]])
  have t: "t = advance rtl ?u" by (simp add: t_def shapeStep_def)
  note a = advance_ok [OF u, folded t]
  show "shape_inv rtl t" by (rule a(1))
  show len: "length (ssStr t) = length (ssStr s)" using u a(2) by (simp add: noted_def)
  show "plain_mode m \<Longrightarrow> only_spaces (ssStr s) (ssStr t)" using u a(2) by (simp add: noted_def)
  have d: "distance rtl t \<le> length (ssStr s)" "distance rtl s > 0" "ssIx ?u = ssIx s \<Longrightarrow> distance rtl t < distance rtl s"
    using u assms(2) by (auto simp: distance_def a(2,3) noted_def at_cell_def shapeDir_def)
  consider "alefs (ssStr t) < alefs (ssStr s)" | "alefs (ssStr t) = alefs (ssStr s)" "ssIx ?u = ssIx s"
    using u a(2) unfolding noted_def by fastforce
  then show "rest rtl t < rest rtl s"
  proof cases
    case 1
    then have "Suc (alefs (ssStr t)) * Suc (length (ssStr s)) \<le> alefs (ssStr s) * Suc (length (ssStr s))" by (intro mult_le_mono1) simp
    then show ?thesis using d(1) by (simp add: rest_def len)
  qed (use d(3) in \<open>simp add: rest_def len\<close>)
qed

lemma shapeLoop_ok:
  "shape_inv rtl s \<Longrightarrow> rest rtl s \<le> fuel \<Longrightarrow>
   \<exists>out. shapeLoop fuel rtl m s = Inr out \<and> length out = length (ssStr s) \<and> (plain_mode m \<longrightarrow> only_spaces (ssStr s) out)"
proof (induction fuel arbitrary: s)
  case 0
  have "ssIx s = iEnd rtl (ssStr s)"
    using 0 by (auto simp: rest_def distance_def shape_inv_def at_cell_def iEnd_def split: if_splits)
  then show ?case by (simp add: shapeLoop.simps only_spaces_same)
next
  case (Suc fuel)
  show ?case
  proof (cases "ssIx s = iEnd rtl (ssStr s)")
    case True
    then show ?thesis by (simp add: shapeLoop.simps only_spaces_same)
  next
    case False
    then have cell: "at_cell s" using Suc.prems(1) by (auto simp: shape_inv_def)
    note t = shapeStep_ok [OF Suc.prems(1) cell, of m]
    obtain out where "shapeLoop fuel rtl m (shapeStep rtl m s) = Inr out" "length out = length (ssStr s)"
        "plain_mode m \<longrightarrow> only_spaces (ssStr (shapeStep rtl m s)) out"
      using Suc.IH [OF t(1)] t(2,3) Suc.prems(2) by auto
    then show ?thesis using False cell t(4) by (auto simp: shapeLoop.simps at_cell_def intro: only_spaces_trans)
  qed
qed

lemma alefs_le: "alefs str \<le> length str"
  by (induction str) (simp_all add: alefs_def weight_def)

lemma shapeStart_ok:
  assumes "str \<noteq> []"
  shows "shape_inv rtl (shapeStart rtl str)" "rest rtl (shapeStart rtl str) \<le> Suc (length str) * Suc (length str)" "ssStr (shapeStart rtl str) = str"
proof -
  show "shape_inv rtl (shapeStart rtl str)"
    using assms by (auto simp: shapeStart_def Let_def shape_inv_def at_cell_def next_ok_def lamTypeBit_def iEnd_def)
  have "alefs str * Suc (length str) \<le> length str * Suc (length str)" by (intro mult_le_mono1 alefs_le)
  moreover have "distance rtl (shapeStart rtl str) \<le> Suc (length str)" by (auto simp: distance_def shapeStart_def Let_def)
  ultimately show "rest rtl (shapeStart rtl str) \<le> Suc (length str) * Suc (length str)" by (simp add: rest_def shapeStart_def Let_def)
qed (simp add: shapeStart_def Let_def)

lemma shapingRoutine_visual:
  assumes "GetType outAttr = typeVisual"
  shows "\<exists>out. shapingRoutine inAttr outAttr str rtl = Inr out \<and> length out = length str \<and>
    (plain_mode (GetText outAttr) \<longrightarrow> only_spaces str out)"
proof (cases "str = []")
  case False
  then show ?thesis
    using shapeLoop_ok [OF shapeStart_ok(1,2) [OF False], of rtl "GetText outAttr"] assms shapeStart_ok(3) [OF False, of rtl]
    by (simp add: shapingRoutine_def typeVisual_def typeImplicit_def itypeVisual_def itypeImplicit_def)
qed (simp add: shapingRoutine_def only_spaces_same)

subsection \<open>The other routines\<close>

lemma fold_length: "(\<And>x b. x \<in> set xs \<Longrightarrow> length (f x b) = length b) \<Longrightarrow> length (fold f xs b) = length b"
  by (induction xs arbitrary: b) simp_all

lemma fold_length_fst: "(\<And>x st. length (fst (f x st)) = length (fst st)) \<Longrightarrow> length (fst (fold f xs st)) = length (fst st)"
  by (induction xs arbitrary: st) simp_all

lemma res_fold_length:
  assumes "\<And>i b. i \<in> set is \<Longrightarrow> length b = n \<Longrightarrow> \<exists>b'. f i b = Inr b' \<and> length b' = n" "length b = n"
  shows "\<exists>b'. res_fold f is b = Inr b' \<and> length b' = n"
  using assms
proof (induction "is" arbitrary: b)
  case (Cons i "is")
  obtain b' where "f i b = Inr b'" "length b' = n" using Cons.prems(1) [of i b] Cons.prems(2) by auto
  then show ?case using Cons.IH [of b'] Cons.prems(1) by simp
qed simp

lemma space_no_ligature [simp]: "\<not> lamAlefForm 0x20"
  by (simp add: lamAlefForm_def)

lemma length_seen: "length (shapeSeenNear b rtl) = length b" "length (deshapeSeenNear b) = length b"
  by (auto simp: shapeSeenNear_def deshapeSeenNear_def seenStep_def intro!: fold_length)

lemma length_yeh: "length (shapeYehHamzaTwoCellNear b rtl) = length b" "length (deshapeYehHamzaTwoCellNear b) = length b"
  by (auto simp: shapeYehHamzaTwoCellNear_def deshapeYehHamzaTwoCellNear_def yehCell_def yehJoin_def Let_def intro!: fold_length)

lemma length_tashkeel: "length (customizeTashkeel m b) = length b"
proof -
  have "length (customizeTashkeelAtBegin b) = length b"
    unfolding customizeTashkeelAtBegin_def by (subst fold_length_fst) (auto simp: tashkeelBeginStep_def split: prod.splits)
  moreover have "length (customizeTashkeelAtEnd b) = length b"
    unfolding customizeTashkeelAtEnd_def by (subst fold_length_fst) (auto simp: tashkeelEndStep_def split: prod.splits)
  ultimately show ?thesis by (simp add: customizeTashkeel_def)
qed

lemma length_handleBeginLoop: "length (handleBeginLoop cnt occ b) = length b"
  by (induction cnt occ b rule: handleBeginLoop.induct) (subst handleBeginLoop.simps, simp)

lemma length_handleLamAlef: "m \<noteq> LamAlefResizeBuffer \<Longrightarrow> length (handleLamAlef m b rtl) = length b"
proof -
  have "length (handleLamAlefNear b rtl) = length b"
    unfolding handleLamAlefNear_def by (rule fold_length) (simp add: handleNearStep_def Let_def)
  moreover have "length (handleLamAlefAtEnd b) = length b"
    unfolding handleLamAlefAtEnd_def by (subst fold_length_fst) (auto simp: handleEndStep_def split: prod.splits)
  ultimately show "m \<noteq> LamAlefResizeBuffer \<Longrightarrow> ?thesis"
    by (simp add: handleLamAlef_def handleLamAlefAtBegin_def length_handleBeginLoop)
qed

lemma deshape_steps:
  assumes "cnt < n" "length b = n"
  shows "\<exists>b'. deshapeBeginStep cnt b = Inr b' \<and> length b' = n"
    "\<exists>b'. deshapeEndStep cnt b = Inr b' \<and> length b' = n"
    "\<exists>b'. deshapeAutoStep rtl cnt b = Inr b' \<and> length b' = n"
proof -
  have ends: "cnt \<noteq> 0" if "lamAlefForm (b ! cnt)" "b ! 0 = 0x20" using that by (metis space_no_ligature)
  have ends': "cnt + 1 < length b" if "lamAlefForm (b ! cnt)" "b ! (length b - 1) = 0x20"
  proof (rule ccontr)
    assume "\<not> cnt + 1 < length b"
    then have "cnt = length b - 1" using assms by simp
    then show False using that by (metis space_no_ligature)
  qed
  show "\<exists>b'. deshapeBeginStep cnt b = Inr b' \<and> length b' = n" using ends assms(2) by (auto simp: deshapeBeginStep_def Let_def)
  show "\<exists>b'. deshapeEndStep cnt b = Inr b' \<and> length b' = n" using ends' assms(2) by (force simp: deshapeEndStep_def Let_def)
  show "\<exists>b'. deshapeAutoStep rtl cnt b = Inr b' \<and> length b' = n" using ends ends' assms(2) by (force simp: deshapeAutoStep_def Let_def)
qed

lemma length_expand: "length (concat (map expandCell b)) = length b + lamAlefCount b"
  by (induction b) (simp_all add: expandCell_def lamAlefCount_def)

lemma deshapeLamAlef_ok:
  "\<exists>b'. deshapeLamAlef m b rtl = Inr b' \<and> length b' = length b + (if m = LamAlefResizeBuffer then lamAlefCount b else 0)"
proof -
  have "\<exists>b'. deshapeLamAlefAtBegin b = Inr b' \<and> length b' = length b"
    "\<exists>b'. deshapeLamAlefAtEnd b = Inr b' \<and> length b' = length b"
    "\<exists>b'. deshapeLamAlefAuto b rtl = Inr b' \<and> length b' = length b"
    unfolding deshapeLamAlefAtBegin_def deshapeLamAlefAtEnd_def deshapeLamAlefAuto_def
    by (rule res_fold_length; simp add: deshape_steps)+
  moreover have "length (deshapeLamAlefNear b) = length b"
    unfolding deshapeLamAlefNear_def by (rule fold_length) (simp add: deshapeNearStep_def)
  moreover have "length (deshapeLamAlefWithResizeBuffer b) = length b + lamAlefCount b"
    by (simp add: deshapeLamAlefWithResizeBuffer_def)
  ultimately show ?thesis by (auto simp: deshapeLamAlef_def)
qed

text \<open>Every ligature becomes its two letters in place.\<close>

lemma deshape_resize: "deshapeLamAlefWithResizeBuffer b = concat (map expandCell b)"
proof (cases "lamAlefCount b = 0")
  case True
  then have "map expandCell b = map (\<lambda>c. [c]) b" by (simp add: lamAlefCount_def filter_empty_conv expandCell_def)
  then have "concat (map expandCell b) = b" by (simp only: concat_map_singleton map_ident)
  then show ?thesis using True by (simp add: deshapeLamAlefWithResizeBuffer_def)
qed (simp add: deshapeLamAlefWithResizeBuffer_def copy_into_def length_expand)


text \<open>The marks that are to go to the front: each is dropped, and a space is put in front instead.\<close>

lemma shiftUp_block:
  "(shiftUp (length p + length q) (length p) (p @ q @ y # r))[length p := c] = p @ c # q @ r"
proof (rule nth_equalityI)
  let ?xs = "p @ q @ y # r"
  fix i assume "i < length ((shiftUp (length p + length q) (length p) ?xs)[length p := c])"
  then have s: "shiftUp (length p + length q) (length p) ?xs ! i = (if length p < i \<and> i \<le> length p + length q then ?xs ! (i - 1) else ?xs ! i)"
    by (intro shiftUp_nth) simp_all
  consider "i < length p" | "i = length p" | k where "i = length p + Suc k" "k < length q" | k where "i = length p + Suc (length q) + k"
    by (metis add_Suc_right add_Suc_shift less_imp_Suc_add linorder_neqE_nat not_less_eq le_Suc_ex nat_less_le add.assoc)
  then show "(shiftUp (length p + length q) (length p) ?xs)[length p := c] ! i = (p @ c # q @ r) ! i"
    by cases (use s \<open>i < _\<close> in \<open>simp_all add: nth_append nth_list_update\<close>)
qed simp

lemma tashkeel_begin_prefix:
  assumes "j \<le> length b"
  shows "fold tashkeelBeginStep [0..<j] (b, 0) =
    (let k = length (filter isTashkeelForm (take j b)) in
     (replicate k 0x20 @ filter (\<lambda>c. \<not> isTashkeelForm c) (take j b) @ drop j b, k))"
  using assms
proof (induction j)
  case (Suc j)
  let ?k = "length (filter isTashkeelForm (take j b))" and ?kept = "filter (\<lambda>c. \<not> isTashkeelForm c) (take j b)"
  let ?b = "replicate ?k 0x20 @ ?kept @ drop j b"
  have len: "?k + length ?kept = j" using Suc.prems sum_length_filter_compl [of isTashkeelForm "take j b"] by simp
  have d: "drop j b = b ! j # drop (Suc j) b" using Suc.prems by (simp add: Cons_nth_drop_Suc)
  have at: "?b ! j = b ! j"
    using nth_append_length [of "replicate ?k 0x20 @ ?kept" "b ! j" "drop (Suc j) b"] len d by simp
  have t: "take (Suc j) b = take j b @ [b ! j]" using Suc.prems by (simp add: take_Suc_conv_app_nth)
  have sh: "(shiftUp j ?k ?b)[?k := 0x20] = replicate ?k 0x20 @ 0x20 # ?kept @ drop (Suc j) b"
    using shiftUp_block [of "replicate ?k 0x20" ?kept "b ! j" "drop (Suc j) b" "0x20"] len d by simp
  have st: "fold tashkeelBeginStep [0..<Suc j] (b, 0) = tashkeelBeginStep j (?b, ?k)" using Suc by (simp add: Let_def)
  show ?case unfolding st using at sh t d by (simp add: tashkeelBeginStep_def Let_def replicate_app_Cons_same)
qed simp

lemma tashkeel_dropped:
  "customizeTashkeelAtBegin b = replicate (length (filter isTashkeelForm b)) 0x20 @ filter (\<lambda>c. \<not> isTashkeelForm c) b"
  using tashkeel_begin_prefix [of "length b" b] by (simp add: customizeTashkeelAtBegin_def Let_def)


text \<open>
  Shaping returns for every pair of flag sets, every text and every set of options, without an index out of
  range; the text keeps its length unless the option to resize it is set.
\<close>

lemma shape_returns:
  "\<exists>out. Shape inAttr outAttr str optionSet = Inr out \<and>
    (GetLamAlefMode (case optionSet of None \<Rightarrow> NewArabicOptionSet | Some v \<Rightarrow> v) \<noteq> LamAlefResizeBuffer \<longrightarrow> length out = length str)"
proof (cases "str = []")
  case False
  define opts where "opts = (case optionSet of None \<Rightarrow> NewArabicOptionSet | Some v \<Rightarrow> v)"
  define rtl where "rtl = (GetOrientation outAttr = orientationRTL)"
  define seen where "seen = (GetSeenMode opts = SeenNear \<or> GetSeenMode opts = SeenAuto)"
  define yeh where "yeh = (GetYehHamzaMode opts = YehHamzaTwoCellNear \<or> GetYehHamzaMode opts = YehHamzaAuto)"
  note S = Shape_def Let_def opts_def [symmetric] rtl_def [symmetric] seen_def [symmetric] yeh_def [symmetric]
  show ?thesis
  proof (cases "GetType inAttr = typeVisual \<and> GetType outAttr = typeImplicit")
    case vis: True
    let ?s = "customizeTashkeel (GetTashkeelMode opts) ((if yeh then deshapeYehHamzaTwoCellNear else id) ((if seen then deshapeSeenNear else id) str))"
    obtain b where b: "deshapeLamAlef (GetLamAlefMode opts) ?s rtl = Inr b"
        "length b = length ?s + (if GetLamAlefMode opts = LamAlefResizeBuffer then lamAlefCount ?s else 0)"
      using deshapeLamAlef_ok by blast
    have "\<exists>out. shapingRoutine inAttr outAttr b rtl = Inr out \<and> length out = length b" using vis by (simp add: shapingRoutine_def)
    moreover have "length ?s = length str" by (simp add: length_tashkeel length_yeh length_seen)
    ultimately show ?thesis using vis False b by (auto simp: S)
  next
    case other: False
    show ?thesis
    proof (cases "GetType outAttr = typeVisual")
      case True
      obtain a where a: "shapingRoutine inAttr outAttr str rtl = Inr a" "length a = length str" using shapingRoutine_visual [OF True] by blast
      have "typeVisual \<noteq> typeImplicit" by (simp add: flag_defs flag_values)
      then show ?thesis using True \<open>str \<noteq> []\<close> a by (simp add: S length_tashkeel length_yeh length_seen length_handleLamAlef)
    next
      case False
      then have "Shape inAttr outAttr str optionSet = Inr str" unfolding Shape_def Let_def by (simp only: other if_False if_cancel)
      then show ?thesis by simp
    qed
  qed
qed (simp add: Shape_def)

subsection \<open>Examples\<close>

definition visual_rtl :: "BidiFlag \<Rightarrow> BidiFlagSet" where
  "visual_rtl text = SetOneFlag text (SetOneFlag orientationRTL (SetOneFlag typeVisual NewBidiFlagSet))"

lemmas visual_rtl_eval = visual_rtl_def SetOneFlag_def NewBidiFlagSet_def bidiFlagSetDefault_def flag_defs flag_values GetType_def GetText_def GetOrientation_def Let_def

lemma visual_rtl_fields:
  "GetType (visual_rtl textShaped) = typeVisual" "GetText (visual_rtl textShaped) = textShaped" "GetOrientation (visual_rtl textShaped) = orientationRTL"
  by (simp_all add: visual_rtl_eval)

text \<open>A text that has a ligature already loses its last character when the freed cells are cut off.\<close>

lemma resize_cuts_text:
  "Shape NewBidiFlagSet (visual_rtl textShaped) [0xFEFB, 0x41] (Some (SetOneOption LamAlefResizeBuffer NewArabicOptionSet)) = Inr [0xFEFB]"
  by code_simp

text \<open>Asked for initial forms, the ligature of lam and alef with madda becomes the one with hamza.\<close>

lemma initial_form_of_ligature:
  "Shape NewBidiFlagSet (visual_rtl textInitial) [0x0644, 0x0622] None = Inr [0xFEF7, 0x20]" "spelled 0xFEF7 = [0x0644, 0x0623]"
  by code_simp+

text \<open>The second of two marks in a row is passed over.\<close>

lemma tashkeel_end_skips: "customizeTashkeelAtEnd [0xFE76, 0xFE78, 0x41] = [0xFE78, 0x41, 0x20]"
  by code_simp

section \<open>Properties\<close>



end
