(* ===== verification/BidiLayout.thy ===== *)
theory BidiLayout
  imports BidiReorder BidiShape Columns
begin

text \<open>
  The layouts of bidirectional text: \<open>Transform\<close> (\<open>src/internal/bidi/text.go\<close>), the conversion
  properties (\<open>properties.go\<close>), the string types and the conversion between the layouts of the
  server and of the application (\<open>stringtype.go\<close>, \<open>as400transform.go\<close>), the layout of SQL text and
  of column names (\<open>layout.go\<close>), and the functions of \<open>src/bidi_settings.go\<close> that call them.

  The lemmas show that the layout of character data never panics and keeps its length, and that
  the layout of a statement without marks changes the contents of literals only. Two examples show
  what marks inside of a literal do.
\<close>

section \<open>Definitions\<close>

subsection \<open>Texts\<close>

definition NewBidiText :: BidiText where
  "NewBidiText = \<lparr>txFlags = NewBidiFlagSet, txData = None, txOffset = 0, txCount = 0\<rparr>"

definition NewBidiTextFromRange :: "BidiFlagSet \<Rightarrow> u16 list \<Rightarrow> nat \<Rightarrow> nat \<Rightarrow> nat \<Rightarrow> BidiText res" where
  "NewBidiTextFromRange initFlags initData offset len capacity =
     (if capacity < len then Inl (Panic ''bidi: BidiText capacity smaller than length'')
      else res_bind (sub_slice offset (offset + len) initData) (\<lambda>piece.
        Inr \<lparr>txFlags = initFlags, txData = Some (copy_into (replicate capacity 0) piece), txOffset = 0, txCount = len\<rparr>))"

definition NewBidiTextFromData :: "BidiFlagSet \<Rightarrow> u16 list \<Rightarrow> BidiText res" where
  "NewBidiTextFromData initFlags initData = NewBidiTextFromRange initFlags initData 0 (length initData) (length initData)"

definition ToCharArray :: "BidiText \<Rightarrow> u16 list res" where
  "ToCharArray t = sub_slice (txOffset t) (txOffset t + txCount t) (txChars t)"

text \<open>
  The transform of a text. \<open>myOrder\<close> is the working state that a transform keeps between calls; \<open>None\<close> is
  the nil of a new transform.
\<close>

definition shapeText :: "BidiText \<Rightarrow> BidiText \<Rightarrow> ArabicOptionSet option \<Rightarrow> BidiText res" where
  "shapeText t dst options =
     (let offset = txOffset dst; data = txChars dst in
      res_bind
        (if offset = 0 \<and> length data = txCount dst then Inr data
         else res_bind (sub_slice offset (offset + txCount dst) data) (\<lambda>piece. Inr (copy_into (replicate (txCount dst) 0) piece)))
        (\<lambda>sData.
      res_bind (Shape (txFlags t) (txFlags dst) sData options) (\<lambda>s.
        let n = length s in
        Inr (dst\<lparr>txCount := n, txData := Some
          (if offset = 0 then s
           else if offset + n \<le> length data then take offset data @ s @ drop (offset + n) data
           else take offset data @ s)\<rparr>))))"

definition Transform :: "BidiText \<Rightarrow> BidiTransform \<Rightarrow> bidiOrder option \<Rightarrow> (BidiText \<times> BidiTransform \<times> bidiOrder) res" where
  "Transform t bdx myOrder =
     res_bind (orderTo t (NewBidiText\<lparr>txFlags := bxFlags bdx\<rparr>) bdx (case myOrder of None \<Rightarrow> newOrder bdx | Some ord \<Rightarrow> ord))
       (\<lambda>(dst, bdx1, ord).
         if GetText (txFlags t) \<noteq> GetText (txFlags dst)
         then res_bind (shapeText t dst (bxOptions bdx1)) (\<lambda>dst1. Inr (dst1, bdx1, ord))
         else Inr (dst, bdx1, ord))"

subsection \<open>Properties\<close>

record Properties =
  prStringType :: int
  prNoImplicitReordering :: bool
  prNumericOrderingRoundTrip :: bool
  prWinCompatible :: bool
  prInsertMarkers :: bool
  prRemoveMarkers :: bool
  prRemoveMarksOnImplicitToVisual :: bool
  prWordBreak :: bool
  prNumeralShaping :: int
  prExpandLamAlef :: bool

definition StringTypeDefault :: int where "StringTypeDefault = 0"
definition StringTypeNone :: int where "StringTypeNone = -1"

definition DefaultProperties :: Properties where
  "DefaultProperties =
     \<lparr>prStringType = StringTypeDefault, prNoImplicitReordering = False, prNumericOrderingRoundTrip = False, prWinCompatible = False,
      prInsertMarkers = False, prRemoveMarkers = False, prRemoveMarksOnImplicitToVisual = False, prWordBreak = False,
      prNumeralShaping = 0, prExpandLamAlef = False\<rparr>"

definition setNumeralShapingOnTransform :: "Properties \<Rightarrow> BidiTransform \<Rightarrow> BidiTransform" where
  "setNumeralShapingOnTransform p dst =
     (let n = prNumeralShaping p in
      if n = 1 then dst\<lparr>bxFlags := SetOneFlag numeralsNominal (bxFlags dst)\<rparr>
      else if n = 2 then dst\<lparr>bxFlags := SetOneFlag numeralsNational (bxFlags dst)\<rparr>
      else if n = 3 then dst\<lparr>bxFlags := SetOneFlag numeralsContextual (bxFlags dst)\<rparr>
      else if n = 4 then dst\<lparr>bxFlags := SetOneFlag numeralsAny (bxFlags dst)\<rparr>
      else dst)"

definition copyOptionsTo :: "Properties \<Rightarrow> BidiTransform \<Rightarrow> BidiTransform" where
  "copyOptionsTo p dst =
     setNumeralShapingOnTransform p
       (dst\<lparr>bxImpToImp := \<not> prNoImplicitReordering p, bxRoundTrip := prNumericOrderingRoundTrip p,
         bxWinCompatible := prWinCompatible p, bxInsertMarkers := prInsertMarkers p, bxRemoveMarkers := prRemoveMarkers p,
         bxOptions := (if prExpandLamAlef p then Some (SetOneOption LamAlefResizeBuffer 0) else None),
         bxWordBreak := prWordBreak p, bxDestinationRequired := True, bxSrcToDstMapRequired := False,
         bxDstToSrcMapRequired := False, bxPropertyMapRequired := False, bxContinuation := False\<rparr>)"

subsection \<open>String types\<close>

definition mustFlagSet :: "BidiFlag list \<Rightarrow> BidiFlagSet res" where
  "mustFlagSet flags =
     (case NewBidiFlagSetFromFlags flags of Inl e \<Rightarrow> Inl (Panic ''bidi: illegal argument'') | Inr fs \<Rightarrow> Inr fs)"

definition initFlagSet :: "int \<Rightarrow> BidiFlagSet res" where
  "initFlagSet stringType =
     (if stringType = 4 then mustFlagSet [typeVisual, numeralsNominal, orientationLTR, textShaped, swapNo]
      else if stringType = 5 then mustFlagSet [typeImplicit, numeralsNominal, orientationLTR, textNominal, swapYes]
      else if stringType = 6 then mustFlagSet [typeImplicit, numeralsNominal, orientationRTL, textNominal, swapYes]
      else if stringType = 7 then mustFlagSet [typeVisual, numeralsNominal, orientationContextLTR, textNominal, swapNo]
      else if stringType = 8 then mustFlagSet [typeVisual, numeralsNominal, orientationRTL, textShaped, swapNo]
      else if stringType = 9 then mustFlagSet [typeVisual, numeralsNominal, orientationRTL, textShaped, swapYes]
      else if stringType = 10 then mustFlagSet [typeImplicit, numeralsNominal, orientationContextLTR, textNominal, swapYes]
      else if stringType = 11 then mustFlagSet [typeImplicit, numeralsNominal, orientationContextRTL, textNominal, swapYes]
      else mustFlagSet [typeImplicit, numeralsNominal, orientationLTR, textNominal, swapYes])"

definition ccsidTable :: "(int \<times> int) list" where
  "ccsidTable =
     [(420, 4), (424, 4), (425, 5), (856, 5), (862, 4), (864, 5), (867, 4), (916, 5), (1046, 5), (1089, 5),
      (1255, 5), (1256, 5), (5012, 5), (5351, 5), (5352, 5), (8612, 5), (8616, 10), (9238, 5), (12708, 7),
      (12712, 10), (13488, 10), (16804, 4), (17248, 5), (61952, 10), (62208, 4), (62209, 10), (62210, 4),
      (62211, 5), (62212, 10), (62213, 5), (62214, 5), (62215, 4), (62216, 6), (62217, 8), (62218, 4),
      (62219, 11), (62220, 6), (62221, 6), (62222, 6), (62223, 6), (62224, 6), (62225, 6), (62226, 6),
      (62227, 6), (62228, 6), (62229, 8), (62230, 8), (62231, 8), (62232, 8), (62233, 8), (62234, 9),
      (62235, 6), (62236, 10), (62237, 8), (62238, 10), (62239, 10), (62240, 11), (62241, 11), (62242, 11),
      (62243, 11), (62244, 11), (62245, 10), (62251, 6)]"

function stringTypeSearch :: "int \<Rightarrow> int \<Rightarrow> int \<Rightarrow> int" where
  "stringTypeSearch low high ccsid =
     (if low < high then
        let mid = (low + high) div 2 in
        if ccsid < fst (ccsidTable ! nat mid) then stringTypeSearch low (mid - 1) ccsid
        else if ccsid > fst (ccsidTable ! nat mid) then stringTypeSearch (mid + 1) high ccsid
        else snd (ccsidTable ! nat mid)
      else if low = high \<and> ccsid = fst (ccsidTable ! nat low) then snd (ccsidTable ! nat low)
      else 0)"
  by pat_completeness auto
termination by (relation "measure (\<lambda>(low, high, ccsid). nat (high - low + 1))") auto

declare stringTypeSearch.simps [simp del]

definition StringTypeForCCSID :: "int \<Rightarrow> int" where
  "StringTypeForCCSID ccsid = stringTypeSearch 0 (int (length ccsidTable) - 1) ccsid"

subsection \<open>Layouts of the server and of the application\<close>

record as400Transform =
  atCcsid :: int
  atAS400Type :: int
  atJavaType :: int
  atJ2A :: BidiTransform
  atA2J :: BidiTransform

text \<open>
  A string type within the cache gets a copy of the cached set, which is \<open>initFlagSet\<close> of the type,
  filled when the package is initialized; other types get a new set.
\<close>

definition setAS400StringType :: "int \<Rightarrow> as400Transform \<Rightarrow> as400Transform res" where
  "setAS400StringType stringType a =
     res_bind (initFlagSet stringType) (\<lambda>fs.
       Inr (a\<lparr>atAS400Type := stringType, atJ2A := (atJ2A a)\<lparr>bxFlags := fs\<rparr>\<rparr>))"

definition setJavaStringType :: "int \<Rightarrow> as400Transform \<Rightarrow> as400Transform res" where
  "setJavaStringType javaType a =
     res_bind (initFlagSet javaType) (\<lambda>fs. Inr (a\<lparr>atJavaType := javaType, atA2J := (atA2J a)\<lparr>bxFlags := fs\<rparr>\<rparr>))"

definition setAS400Ccsid :: "int \<Rightarrow> as400Transform \<Rightarrow> as400Transform res" where
  "setAS400Ccsid ccsid a = setAS400StringType (StringTypeForCCSID ccsid) (a\<lparr>atCcsid := ccsid\<rparr>)"

definition newAS400Transform :: "int \<Rightarrow> as400Transform res" where
  "newAS400Transform ccsid =
     res_bind (initFlagSet 0) (\<lambda>fs.
     res_bind (setAS400Ccsid ccsid
       \<lparr>atCcsid = 0, atAS400Type = 0, atJavaType = 0, atJ2A = NewBidiTransform, atA2J = NewBidiTransform\<lparr>bxFlags := fs\<rparr>\<rparr>)
       (setJavaStringType StringTypeDefault))"

definition setBidiConversionProperties :: "Properties \<Rightarrow> as400Transform \<Rightarrow> as400Transform res" where
  "setBidiConversionProperties p a =
     res_bind (setJavaStringType (prStringType p) a) (\<lambda>a1.
       let a2 = a1\<lparr>atJ2A := copyOptionsTo p (atJ2A a1), atA2J := copyOptionsTo p (atA2J a1)\<rparr> in
       Inr (if prRemoveMarksOnImplicitToVisual p
            then a2\<lparr>atJ2A := (atJ2A a2)\<lparr>bxRemoveMarkers := True\<rparr>, atA2J := (atA2J a2)\<lparr>bxRemoveMarkers := False\<rparr>\<rparr>
            else a2))"

definition sameLayout :: "as400Transform \<Rightarrow> bool" where
  "sameLayout a \<longleftrightarrow> atAS400Type a = StringTypeNone \<or> atJavaType a = StringTypeNone \<or> atJavaType a = atAS400Type a"

definition layoutBetween :: "BidiFlagSet \<Rightarrow> BidiTransform \<Rightarrow> u16 list \<Rightarrow> (u16 list \<times> nat) res" where
  "layoutBetween srcFlags bdx text0 =
     res_bind (NewBidiTextFromData srcFlags text0) (\<lambda>src.
     res_bind (Transform src bdx None) (\<lambda>(dst, _, _). Inr (txChars dst, txCount dst)))"

definition toJavaLayoutCount :: "as400Transform \<Rightarrow> u16 list \<Rightarrow> (u16 list \<times> nat) res" where
  "toJavaLayoutCount a text0 =
     (if sameLayout a then Inr (text0, length text0) else layoutBetween (bxFlags (atJ2A a)) (atA2J a) text0)"

definition toAS400LayoutCount :: "as400Transform \<Rightarrow> u16 list \<Rightarrow> (u16 list \<times> nat) res" where
  "toAS400LayoutCount a text0 =
     (if sameLayout a then Inr (text0, length text0) else layoutBetween (bxFlags (atA2J a)) (atJ2A a) text0)"

text \<open>The transform that both directions set up.\<close>

definition preparedTransform :: "int \<Rightarrow> Properties \<Rightarrow> as400Transform res" where
  "preparedTransform ccsid props =
     res_bind (newAS400Transform ccsid) (\<lambda>a.
     res_bind (setBidiConversionProperties props a) (\<lambda>a1.
     res_bind (setJavaStringType (prStringType props) a1) (\<lambda>a2.
       setAS400StringType (StringTypeForCCSID ccsid) a2)))"

definition toLogicalCount :: "u16 list \<Rightarrow> int \<Rightarrow> Properties \<Rightarrow> (u16 list \<times> nat) res" where
  "toLogicalCount text0 ccsid props =
     (if prStringType props = StringTypeNone then Inr (text0, length text0)
      else res_bind (preparedTransform ccsid props) (\<lambda>a. toJavaLayoutCount a text0))"

definition toHostCount :: "u16 list \<Rightarrow> int \<Rightarrow> Properties \<Rightarrow> (u16 list \<times> nat) res" where
  "toHostCount text0 ccsid props = res_bind (preparedTransform ccsid props) (\<lambda>a. toAS400LayoutCount a text0)"

definition ToLogical :: "u16 list \<Rightarrow> int \<Rightarrow> Properties \<Rightarrow> u16 list res" where
  "ToLogical text0 ccsid props = res_bind (toLogicalCount text0 ccsid props) (\<lambda>(data, _). Inr data)"

definition ToHost :: "u16 list \<Rightarrow> int \<Rightarrow> Properties \<Rightarrow> u16 list res" where
  "ToHost text0 ccsid props = res_bind (toHostCount text0 ccsid props) (\<lambda>(data, _). Inr data)"

definition padStaleTail :: "u16 list \<Rightarrow> nat \<Rightarrow> u16 list" where
  "padStaleTail data valid = fold (\<lambda>i d. d[i := 0x20]) [valid..<length data] data"

definition ToLogicalPadded :: "u16 list \<Rightarrow> int \<Rightarrow> Properties \<Rightarrow> u16 list res" where
  "ToLogicalPadded text0 ccsid props = res_bind (toLogicalCount text0 ccsid props) (\<lambda>(data, valid). Inr (padStaleTail data valid))"

definition ToHostPadded :: "u16 list \<Rightarrow> int \<Rightarrow> Properties \<Rightarrow> u16 list res" where
  "ToHostPadded text0 ccsid props = res_bind (toHostCount text0 ccsid props) (\<lambda>(data, valid). Inr (padStaleTail data valid))"

subsection \<open>SQL text\<close>

definition unchangedTypes :: "int \<Rightarrow> int \<Rightarrow> bool" where
  "unchangedTypes inFormat outFormat \<longleftrightarrow> inFormat = outFormat \<or> inFormat = StringTypeNone \<or> outFormat = StringTypeNone"

definition TransformString :: "int \<Rightarrow> int \<Rightarrow> u16 list \<Rightarrow> u16 list res" where
  "TransformString inFormat outFormat text0 =
     (if unchangedTypes inFormat outFormat then Inr text0
      else
        res_bind (initFlagSet outFormat) (\<lambda>outFlags.
        res_bind (initFlagSet inFormat) (\<lambda>inFlags.
        res_bind (NewBidiTextFromData inFlags text0) (\<lambda>src.
        res_bind (Transform src (NewBidiTransform\<lparr>bxFlags := outFlags, bxRemoveMarkers := True\<rparr>) None) (\<lambda>(dst, _, _).
          sub_slice (txOffset dst) (txOffset dst + txCount dst) (txChars dst))))))"

definition replaceRange :: "u16 list \<Rightarrow> nat \<Rightarrow> nat \<Rightarrow> u16 list \<Rightarrow> u16 list" where
  "replaceRange val start end0 repl = take start val @ repl @ drop end0 val"

text \<open>\<open>value = replaceRange(value, start, end, TransformString(value[start:end], ...))\<close>; \<open>tr\<close> is the transformation.\<close>

definition replacePiece :: "(u16 list \<Rightarrow> u16 list res) \<Rightarrow> u16 list \<Rightarrow> nat \<Rightarrow> nat \<Rightarrow> u16 list res" where
  "replacePiece tr val start end0 =
     res_bind (sub_slice start end0 val) (\<lambda>piece. res_bind (tr piece) (\<lambda>repl. Inr (replaceRange val start end0 repl)))"

definition doesNotEnd :: "'a res" where
  "doesNotEnd = Inl (Panic ''loop does not end'')"

text \<open>The loop over the statement, with fuel; its index moves on in every round.\<close>

fun statementLoop :: "(u16 list \<Rightarrow> u16 list res) \<Rightarrow> nat \<Rightarrow> u16 list \<Rightarrow> bool \<Rightarrow> nat \<Rightarrow> nat \<Rightarrow> u16 list res" where
  "statementLoop tr fuel val into i start =
     (if i \<ge> length val then Inr val
      else case fuel of 0 \<Rightarrow> doesNotEnd | Suc k \<Rightarrow>
        res_bind
          (if into \<and> (val ! i = 0x0A \<or> val ! i = 0x0D)
           then res_bind (replacePiece tr val start i) (\<lambda>v. Inr (v, i + 1)) else Inr (val, start))
          (\<lambda>(val1, start1).
            if i \<ge> length val1 then index_panic
            else if val1 ! i = 0x27 then
              (if into then
                 (if i + 1 < length val1 \<and> val1 ! (i + 1) = 0x27 then statementLoop tr k val1 into (i + 2) start1
                  else res_bind (replacePiece tr val1 start1 i) (\<lambda>val2. statementLoop tr k val2 False (i + 1) 0))
               else statementLoop tr k val1 True (i + 1) (i + 1))
            else statementLoop tr k val1 into (i + 1) start1))"

declare statementLoop.simps [simp del]

definition SQLStatementReordering :: "u16 list \<Rightarrow> int \<Rightarrow> int \<Rightarrow> u16 list res" where
  "SQLStatementReordering sql inFormat outFormat =
     (if unchangedTypes inFormat outFormat then Inr sql
      else statementLoop (TransformString inFormat outFormat) (Suc (length sql)) sql False 0 0)"

fun metaLoop :: "(u16 list \<Rightarrow> u16 list res) \<Rightarrow> nat \<Rightarrow> u16 list \<Rightarrow> bool \<Rightarrow> nat \<Rightarrow> nat \<Rightarrow> u16 list res" where
  "metaLoop tr fuel val into i start =
     (if i \<ge> length val then Inr val
      else case fuel of 0 \<Rightarrow> doesNotEnd | Suc k \<Rightarrow>
        if val ! i = 0x22 then
          (if into then res_bind (replacePiece tr val start i) (\<lambda>val1. metaLoop tr k val1 False (i + 1) 0)
           else metaLoop tr k val True (i + 1) (i + 1))
        else metaLoop tr k val into (i + 1) start)"

declare metaLoop.simps [simp del]

definition MetaDataReordering :: "u16 list \<Rightarrow> int \<Rightarrow> int \<Rightarrow> u16 list res" where
  "MetaDataReordering sql inFormat outFormat =
     (if unchangedTypes inFormat outFormat then Inr sql
      else metaLoop (TransformString inFormat outFormat) (Suc (length sql)) sql False 0 0)"

subsection \<open>Statements and names of a connection\<close>

definition isBidiSystemCCSID :: "int \<Rightarrow> bool" where
  "isBidiSystemCCSID ccsid \<longleftrightarrow>
     ccsid \<in> {420, 424, 425, 856, 862, 864, 867, 916, 1046, 1089, 1255, 1256, 5012, 5351, 5352,
       8612, 8616, 9238, 12708, 12712, 13488, 16804, 17248, 61952, 62208, 62209, 62210, 62211}"

record bidiSystem =
  bySystemPresent :: bool
  bySystemCCSID :: int
  bySystemVRM :: int

definition StringTypeForSystem :: "int \<Rightarrow> bidiSystem \<Rightarrow> int" where
  "StringTypeForSystem ccsid sys =
     (if \<not> bySystemPresent sys then StringTypeForCCSID ccsid
      else if ccsid = 13488 \<or> ccsid = 1200 then
        (let v5r1 = (bySystemVRM sys \<noteq> 0 \<and> drop_bit 8 (bySystemVRM sys) = 0x0501) in
         if isBidiSystemCCSID (bySystemCCSID sys) \<and> \<not> v5r1 then 10 else 5)
      else StringTypeForCCSID ccsid)"

definition ConvertSQLToHost :: "u16 list \<Rightarrow> int \<Rightarrow> int \<Rightarrow> bool \<Rightarrow> bidiSystem \<Rightarrow> u16 list res" where
  "ConvertSQLToHost sql bidiType packageCCSID implicitReordering sys =
     (let hostType = (if bySystemPresent sys then StringTypeForCCSID (bySystemCCSID sys) else 4) in
      if bidiType = StringTypeNone \<or> hostType = StringTypeNone then Inr sql
      else
        res_bind (if implicitReordering then MetaDataReordering sql bidiType hostType else Inr sql) (\<lambda>val.
          SQLStatementReordering val bidiType (StringTypeForSystem packageCCSID sys)))"

definition ConvertDataFromHost :: "u16 list \<Rightarrow> int \<Rightarrow> int \<Rightarrow> bidiSystem \<Rightarrow> u16 list res" where
  "ConvertDataFromHost text0 bidiType hostCCSID sys =
     (let hostType0 = StringTypeForSystem hostCCSID sys;
          hostType = (if hostType0 = 0 then (if bySystemPresent sys then StringTypeForCCSID (bySystemCCSID sys) else 4) else hostType0) in
      if bidiType \<noteq> 0 \<and> hostType \<noteq> 0 then TransformString hostType bidiType text0 else Inr text0)"

definition bidiProperties :: "bidiSettings \<Rightarrow> int \<Rightarrow> Properties" where
  "bidiProperties s cid =
     DefaultProperties\<lparr>prStringType := (if bsStringType s = -1 then StringTypeForCCSID cid else bsStringType s),
       prNoImplicitReordering := \<not> bsImplicitReordering s, prNumericOrderingRoundTrip := bsNumericOrdering s\<rparr>"

definition bidiSystemInfo :: "Conn \<Rightarrow> bidiSystem" where
  "bidiSystemInfo c =
     (case cnSystemInfo c of
        None \<Rightarrow> \<lparr>bySystemPresent = False, bySystemCCSID = 0, bySystemVRM = 0\<rparr>
      | Some s \<Rightarrow> \<lparr>bySystemPresent = True, bySystemCCSID = syCCSID s, bySystemVRM = syVersion s\<rparr>)"

definition bidiPackageCCSID :: "Conn \<Rightarrow> int" where
  "bidiPackageCCSID c =
     (if cfgPackageCCSIDSystem (cnCfg c) then bySystemCCSID (bidiSystemInfo c)
      else if cfgPackageCCSID (cnCfg c) \<le> 0 then defaultPackageCCSID
      else cfgPackageCCSID (cnCfg c))"

definition bidiStatementText :: "Conn \<Rightarrow> string \<Rightarrow> string res" where
  "bidiStatementText c query =
     (let bs = bidiSettingsForConn (Some c) in
      if bsStringType bs = -1 then Inr query
      else
        let units = utf16_Encode (runes query) in
        res_bind (ConvertSQLToHost units (bsStringType bs) (bidiPackageCCSID c) (bsImplicitReordering bs) (bidiSystemInfo c)) (\<lambda>layout.
          Inr (if layout = units then query else string_of_runes (utf16_Decode layout))))"

definition bidiColumnName :: "Conn \<Rightarrow> string \<Rightarrow> int \<Rightarrow> string res" where
  "bidiColumnName c nm cid =
     (let bs = bidiSettingsForConn (Some c) in
      if \<not> bsImplicitReordering bs \<or> bsStringType bs = -1 then Inr nm
      else res_bind (ConvertDataFromHost (utf16_Encode (runes nm)) (bsStringType bs) cid (bidiSystemInfo c)) (\<lambda>layout.
        Inr (string_of_runes (utf16_Decode layout))))"

section \<open>Lemmas\<close>

subsection \<open>Scanning a statement\<close>

text \<open>The positions inside of a literal, without the line breaks, and those inside of a delimited identifier.\<close>

fun literal_mask :: "bool \<Rightarrow> u16 list \<Rightarrow> bool list" where
  "literal_mask into [] = []"
| "literal_mask into [c] = [into \<and> c \<notin> {0x27, 0x0A, 0x0D}]"
| "literal_mask into (c # d # cs) =
     (if c = 0x27 then
        (if into then (if d = 0x27 then True # True # literal_mask True cs else False # literal_mask False (d # cs))
         else False # literal_mask True (d # cs))
      else (into \<and> c \<notin> {0x0A, 0x0D}) # literal_mask into (d # cs))"

fun identifier_mask :: "bool \<Rightarrow> u16 list \<Rightarrow> bool list" where
  "identifier_mask into [] = []"
| "identifier_mask into (c # cs) =
     (if c = 0x22 then False # identifier_mask (\<not> into) cs else into # identifier_mask into cs)"

lemma length_literal_mask [simp]: "length (literal_mask into cs) = length cs"
  by (induction into cs rule: literal_mask.induct) simp_all

lemma length_identifier_mask [simp]: "length (identifier_mask into cs) = length cs"
  by (induction cs arbitrary: into) simp_all

text \<open>
  What is kept while a statement is laid out: the rest is as it was, and so is what the mask does
  not cover; the open piece is as it was and covered.
\<close>

definition laid_out :: "bool list \<Rightarrow> u16 list \<Rightarrow> u16 list \<Rightarrow> bool" where
  "laid_out M sql val \<longleftrightarrow> length val = length sql \<and> length M = length sql \<and> (\<forall>j < length sql. \<not> M ! j \<longrightarrow> val ! j = sql ! j)"

definition scanning :: "bool list \<Rightarrow> u16 list \<Rightarrow> u16 list \<Rightarrow> bool \<Rightarrow> nat \<Rightarrow> nat \<Rightarrow> bool" where
  "scanning M sql val into i start \<longleftrightarrow>
     laid_out M sql val \<and> i \<le> length sql \<and> drop i val = drop i sql \<and>
     (into \<longrightarrow> start \<le> i \<and> slice start i val = slice start i sql \<and> (\<forall>j. start \<le> j \<and> j < i \<longrightarrow> M ! j))"

lemma scanning_at: "scanning M sql val into i start \<Longrightarrow> i < length sql \<Longrightarrow> val ! i = sql ! i \<and> i < length val"
  unfolding scanning_def laid_out_def by (metis Cons_nth_drop_Suc list.inject)

lemma scanning_after: "scanning M sql val into i start \<Longrightarrow> Suc i < length sql \<Longrightarrow> val ! Suc i = sql ! Suc i"
  using nth_drop [of i val 1] nth_drop [of i sql 1] by (auto simp: scanning_def laid_out_def)

lemma slice_Suc: "start \<le> i \<Longrightarrow> i < length xs \<Longrightarrow> slice start (Suc i) xs = slice start i xs @ [xs ! i]"
  by (simp add: slice_def Suc_diff_le take_Suc_conv_app_nth)

lemma scanning_next:
  assumes "scanning M sql val into i start" "i < length sql" "into \<Longrightarrow> M ! i"
  shows "scanning M sql val into (Suc i) start"
proof -
  have d: "drop (Suc i) val = drop (Suc i) sql" using assms(1) unfolding scanning_def by (metis drop_Suc tl_drop)
  have "slice start (Suc i) val = slice start (Suc i) sql" if into
  proof -
    have "start \<le> i" "slice start i val = slice start i sql" "length val = length sql"
      using assms(1) that by (auto simp: scanning_def laid_out_def)
    then have "slice start (Suc i) val = slice start i val @ [val ! i]" "slice start (Suc i) sql = slice start i sql @ [sql ! i]"
      using assms(2) slice_Suc by metis+
    then show ?thesis using \<open>slice start i val = slice start i sql\<close> scanning_at [OF assms(1,2)] by simp
  qed
  then show ?thesis using assms d by (auto simp: scanning_def less_Suc_eq)
qed

lemma scanning_open: "scanning M sql val False i start \<Longrightarrow> i < length sql \<Longrightarrow> scanning M sql val True (Suc i) (Suc i)"
  using scanning_next [of M sql val False i start] by (auto simp: scanning_def slice_def)

lemma literal_mask_Cons:
  "literal_mask into (c # cs) =
     (if c = 0x27 then
        (if into then (if cs \<noteq> [] \<and> hd cs = 0x27 then True # True # literal_mask True (tl cs) else False # literal_mask False cs)
         else False # literal_mask True cs)
      else (into \<and> c \<notin> {0x0A, 0x0D}) # literal_mask into cs)"
  by (cases cs) simp_all

lemma drop_Cons: "drop i xs = y # ys \<Longrightarrow> xs ! i = y \<and> drop (Suc i) xs = ys"
  by (metis drop_Suc list.sel(3) nth_via_drop tl_drop)

locale piece_layout =
  fixes tr :: "u16 list \<Rightarrow> u16 list res" and good :: "u16 \<Rightarrow> bool"
  assumes tr_keeps: "list_all good p \<Longrightarrow> \<exists>q. tr p = Inr q \<and> length q = length p \<and> list_all good q"
begin

lemma good_part: "list_all good xs \<Longrightarrow> list_all good (take i xs) \<and> list_all good (drop i xs)"
  by (metis append_take_drop_id list_all_append)

lemma replace_ok:
  assumes "scanning M sql val True i start" "list_all good val"
  shows "\<exists>v. replacePiece tr val start i = Inr v \<and> scanning M sql v False i 0 \<and> list_all good v"
proof -
  have s: "start \<le> i" "i \<le> length val" "length val = length sql" "slice start i val = slice start i sql"
    "\<And>j. start \<le> j \<Longrightarrow> j < i \<Longrightarrow> M ! j" "drop i val = drop i sql" "laid_out M sql val"
    using assms(1) by (auto simp: scanning_def laid_out_def)
  obtain q where q: "tr (slice start i val) = Inr q" "length q = i - start" "list_all good q"
    using tr_keeps [of "slice start i val"] good_part assms(2) s by (auto simp: slice_def)
  let ?v = "take start val @ q @ drop i val"
  have same: "?v ! j = val ! j" if "j < length sql" "j < start \<or> i \<le> j" for j
    using that s(1-3) q(2) by (auto simp: nth_append)
  have "length ?v = length sql" using s(1-3) q(2) by simp
  moreover have "?v ! j = sql ! j" if "j < length sql" "\<not> M ! j" for j
    using same [of j] s(5) [of j] s(7) that by (force simp: laid_out_def)
  ultimately have "laid_out M sql ?v" using s(7) by (simp add: laid_out_def)
  moreover have "drop i ?v = drop i sql" using s q(2) by simp
  moreover have "list_all good ?v" using good_part [OF assms(2)] q(3) by simp
  ultimately show ?thesis using s q by (auto simp: replacePiece_def replaceRange_def scanning_def)
qed


lemma statementLoop_ok:
  assumes "length sql - i \<le> fuel" "list_all good val"
    and "scanning (literal_mask False sql) sql val into i start" "drop i (literal_mask False sql) = literal_mask into (drop i sql)"
  shows "\<exists>out. statementLoop tr fuel val into i start = Inr out \<and> laid_out (literal_mask False sql) sql out \<and> list_all good out"
  using assms
proof (induction fuel arbitrary: val into i start)
  case 0
  then show ?case by (subst statementLoop.simps) (auto simp: scanning_def laid_out_def)
next
  case (Suc fuel)
  let ?M = "literal_mask False sql"
  show ?case
  proof (cases "i < length sql")
    case False
    then show ?thesis using Suc.prems by (subst statementLoop.simps) (auto simp: scanning_def laid_out_def)
  next
    case True
    define c where "c = sql ! i"
    define rest where "rest = drop (Suc i) sql"
    note good = Suc.prems(2) and inv = Suc.prems(3)
    have d: "drop i ?M = literal_mask into (c # rest)" using Suc.prems(4) True by (simp add: c_def rest_def Cons_nth_drop_Suc)
    have at: "val ! i = c" "i < length val" using scanning_at [OF inv True] by (simp_all add: c_def)
    have fuel: "length sql - Suc i \<le> fuel" using Suc.prems(1) by simp
    note IH = Suc.IH [OF fuel, folded rest_def]
    consider (nl) "into" "c = 0x0A \<or> c = 0x0D" | (dbl) "into" "c = 0x27" "rest \<noteq> []" "hd rest = 0x27"
      | (cls) "into" "c = 0x27" "\<not> (rest \<noteq> [] \<and> hd rest = 0x27)" | (opn) "\<not> into" "c = 0x27"
      | (oth) "c \<noteq> 0x27" "\<not> (into \<and> (c = 0x0A \<or> c = 0x0D))" by blast
    then show ?thesis
    proof cases
      case nl
      obtain v where v: "replacePiece tr val start i = Inr v" "scanning ?M sql v False i 0" "list_all good v" using replace_ok [of ?M sql val i start] inv nl good by auto
      have "drop (Suc i) ?M = literal_mask True rest" using d nl by (auto simp: literal_mask_Cons dest: drop_Cons)
      then show ?thesis
        using IH [OF v(3) scanning_open [OF v(2) True]] scanning_at [OF v(2) True] v(1) nl at
        by (subst statementLoop.simps) (auto simp: c_def)
    next
      case dbl
      then have r: "Suc i < length sql" "sql ! Suc i = 0x27" "drop (Suc (Suc i)) sql = tl rest"
        by (simp_all add: rest_def hd_drop_conv_nth tl_drop) (simp add: drop_Suc tl_drop)
      have m: "?M ! i" "?M ! Suc i" "drop (Suc (Suc i)) ?M = literal_mask True (tl rest)"
        using d dbl by (auto simp: literal_mask_Cons dest!: drop_Cons)
      have "scanning ?M sql val True (Suc (Suc i)) start"
        using scanning_next [OF scanning_next [OF inv True] r(1)] m(1,2) dbl(1) by simp
      moreover have "val ! Suc i = 0x27" "Suc i < length val" using scanning_after [OF inv r(1)] r inv by (auto simp: scanning_def laid_out_def)
      ultimately show ?thesis using Suc.IH [of "Suc (Suc i)" val True start] good m(3) r(3) Suc.prems(1) dbl at
        by (subst statementLoop.simps) auto
    next
      case cls
      obtain v where v: "replacePiece tr val start i = Inr v" "scanning ?M sql v False i 0" "list_all good v" using replace_ok [of ?M sql val i start] inv cls good by auto
      have "drop (Suc i) ?M = literal_mask False rest" using d cls by (auto simp: literal_mask_Cons dest: drop_Cons)
      moreover have "\<not> (i + 1 < length val \<and> val ! (i + 1) = 0x27)"
        using cls(3) scanning_after [OF inv] inv by (auto simp: rest_def hd_drop_conv_nth scanning_def laid_out_def)
      ultimately show ?thesis using IH [OF v(3) scanning_next [OF v(2) True]] v(1) cls at by (subst statementLoop.simps) auto
    next
      case opn
      then have "drop (Suc i) ?M = literal_mask True rest" using d by (auto simp: literal_mask_Cons dest: drop_Cons)
      then show ?thesis using IH [OF good scanning_open [OF _ True]] inv opn at by (subst statementLoop.simps) auto
    next
      case oth
      then have "drop (Suc i) ?M = literal_mask into rest" "into \<Longrightarrow> ?M ! i" using d by (auto simp: literal_mask_Cons dest!: drop_Cons)
      then show ?thesis using IH [OF good scanning_next [OF inv True]] oth at by (subst statementLoop.simps) auto
    qed
  qed
qed


lemma metaLoop_ok:
  assumes "length sql - i \<le> fuel" "list_all good val"
    and "scanning (identifier_mask False sql) sql val into i start" "drop i (identifier_mask False sql) = identifier_mask into (drop i sql)"
  shows "\<exists>out. metaLoop tr fuel val into i start = Inr out \<and> laid_out (identifier_mask False sql) sql out \<and> list_all good out"
  using assms
proof (induction fuel arbitrary: val into i start)
  case 0
  then show ?case by (subst metaLoop.simps) (auto simp: scanning_def laid_out_def)
next
  case (Suc fuel)
  let ?M = "identifier_mask False sql"
  show ?case
  proof (cases "i < length sql")
    case False
    then show ?thesis using Suc.prems by (subst metaLoop.simps) (auto simp: scanning_def laid_out_def)
  next
    case True
    define c where "c = sql ! i"
    note good = Suc.prems(2) and inv = Suc.prems(3)
    have d: "drop i ?M = identifier_mask into (c # drop (Suc i) sql)" using Suc.prems(4) True by (simp add: c_def Cons_nth_drop_Suc)
    have at: "val ! i = c" "i < length val" using scanning_at [OF inv True] by (simp_all add: c_def)
    have fuel: "length sql - Suc i \<le> fuel" using Suc.prems(1) by simp
    note IH = Suc.IH [OF fuel]
    consider "into" "c = 0x22" | "\<not> into" "c = 0x22" | "c \<noteq> 0x22" by blast
    then show ?thesis
    proof cases
      case 1
      obtain v where v: "replacePiece tr val start i = Inr v" "scanning ?M sql v False i 0" "list_all good v" using replace_ok [of ?M sql val i start] inv 1 good by auto
      have "drop (Suc i) ?M = identifier_mask False (drop (Suc i) sql)" using d 1 by (auto dest: drop_Cons)
      then show ?thesis using IH [OF v(3) scanning_next [OF v(2) True]] v(1) 1 at by (subst metaLoop.simps) auto
    next
      case 2
      then have "drop (Suc i) ?M = identifier_mask True (drop (Suc i) sql)" using d by (auto dest: drop_Cons)
      then show ?thesis using IH [OF good scanning_open [OF _ True]] inv 2 at by (subst metaLoop.simps) auto
    next
      case 3
      then have "drop (Suc i) ?M = identifier_mask into (drop (Suc i) sql)" "into \<Longrightarrow> ?M ! i" using d by (auto dest!: drop_Cons)
      then show ?thesis using IH [OF good scanning_next [OF inv True]] 3 at by (subst metaLoop.simps) auto
    qed
  qed
qed

lemma scanning_start: "length M = length sql \<Longrightarrow> scanning M sql sql False 0 0"
  by (simp add: scanning_def laid_out_def)

lemma loops_ok:
  assumes "list_all good sql"
  shows "\<exists>out. statementLoop tr (Suc (length sql)) sql False 0 0 = Inr out \<and> laid_out (literal_mask False sql) sql out \<and> list_all good out"
    "\<exists>out. metaLoop tr (Suc (length sql)) sql False 0 0 = Inr out \<and> laid_out (identifier_mask False sql) sql out \<and> list_all good out"
  using statementLoop_ok [of sql 0 "Suc (length sql)" sql False 0] metaLoop_ok [of sql 0 "Suc (length sql)" sql False 0] scanning_start assms by simp_all

end

subsection \<open>Transforms\<close>

definition no_marks :: "u16 list \<Rightarrow> bool" where
  "no_marks cs \<longleftrightarrow> (\<forall>c \<in> set cs. \<not> isMarker c)"

lemma ucqsymm_marks: "ucqsymm lrm = lrm" "ucqsymm rlm = rlm"
  by (simp_all add: ucqsymm_def symPairs_def lrm_def rlm_def pairSearch.simps)

lemma delivered_marker:
  assumes "delivered_as wb c d" "isMarker d"
  shows "isMarker c"
proof -
  have d: "d = lrm \<or> d = rlm" using assms(2) by (simp add: isMarker_def)
  consider "d = c" | "getChTypeWB c wb = ubatEN" "c = d - 0x0630" | "getChTypeWB c wb = ubatAN" "c = d + 0x0630" | "d = ucqsymm c"
    using assms(1) by (auto simp: delivered_as_def)
  then show ?thesis
  proof cases
    case 4
    then have "c = ucqsymm d" by (simp add: ucqsymm_involution)
    then show ?thesis using d by (auto simp: ucqsymm_marks isMarker_def)
  qed (use d assms(2) in \<open>auto simp: getChTypeWB_def getChType_def isClassL_def isClassEN_def isClassET_def between_def ubat_defs lrm_def rlm_def\<close>)
qed

lemma delivered_no_marks:
  assumes "list_all2 (delivered_as wb) cs out" "mset cs = mset text0" "no_marks text0"
  shows "no_marks out" "filter (\<lambda>c. \<not> isMarker c) out = out"
proof -
  have "no_marks cs" using assms(2,3) by (metis no_marks_def mset_eq_setD)
  then show "no_marks out"
    using assms(1) delivered_marker unfolding no_marks_def by (metis in_set_conv_nth list_all2_conv_all_nth)
  then show "filter (\<lambda>c. \<not> isMarker c) out = out" by (simp add: no_marks_def filter_id_conv)
qed

definition text_of :: "BidiFlagSet \<Rightarrow> u16 list \<Rightarrow> BidiText" where
  "text_of fl cs = \<lparr>txFlags = fl, txData = Some cs, txOffset = 0, txCount = length cs\<rparr>"

lemma text_of_flags [simp]: "txFlags (text_of fl cs) = fl"
  by (simp add: text_of_def)

lemma NewBidiTextFromData_ok: "NewBidiTextFromData fl cs = Inr (text_of fl cs)"
  by (simp add: NewBidiTextFromData_def NewBidiTextFromRange_def text_of_def copy_into_def slice_def)

definition resizing :: "BidiTransform \<Rightarrow> bool" where
  "resizing bdx \<longleftrightarrow> GetLamAlefMode (case bxOptions bdx of None \<Rightarrow> NewArabicOptionSet | Some v \<Rightarrow> v) = LamAlefResizeBuffer"

lemma order_text:
  assumes "\<not> bxInsertMarkers bdx"
  shows "\<exists>buf c bdx' ord. orderTo (text_of fl cs) (NewBidiText\<lparr>txFlags := bxFlags bdx\<rparr>) bdx (newOrder bdx) =
      Inr (NewBidiText\<lparr>txFlags := bxFlags bdx, txData := Some buf, txCount := c\<rparr>, bdx', ord) \<and>
    length buf = length cs \<and> c \<le> length buf \<and> bxOptions bdx' = bxOptions bdx \<and>
    (no_marks cs \<longrightarrow> c = length cs \<and> no_marks buf) \<and> (\<not> bxRemoveMarkers bdx \<longrightarrow> c = length cs)"
proof (cases "cs = []")
  case True
  then show ?thesis by (simp add: orderTo_def text_of_def NewBidiText_def no_marks_def)
next
  case False
  let ?src = "text_of fl cs" and ?dst = "NewBidiText\<lparr>txFlags := bxFlags bdx\<rparr>"
  have src: "1 \<le> txCount ?src" "txOffset ?src + txCount ?src \<le> length (txChars ?src)" "interesting ?src = cs"
    using False by (cases cs; simp add: text_of_def txChars_def interesting_def slice_def)+
  obtain buf c bdx' ord' ds out where r: "orderTo ?src ?dst bdx (newOrder bdx) = Inr (?dst\<lparr>txData := Some buf, txCount := c\<rparr>, bdx', ord')"
      "length buf = txCount ?src" "c \<le> length buf" "bxOptions bdx' = bxOptions bdx" "mset ds = mset (interesting ?src)"
      "list_all2 (delivered_as (bxWordBreak bdx)) ds out"
      "take c buf = (if bxRemoveMarkers bdx then filter (\<lambda>c. \<not> isMarker c) out else out)"
    using order_result [OF src(1,2) assms, of "newOrder bdx" ?dst] by (auto simp: newOrder_def NewBidiText_def)
  have n: "length buf = length cs" using r(2) by (simp add: text_of_def)
  have "length out = length cs" using r(5,6) src(3) by (metis list_all2_lengthD size_mset)
  moreover have "length (take c buf) = c" using r(3) by simp
  ultimately have c: "c = length cs" if "no_marks cs \<or> \<not> bxRemoveMarkers bdx"
    using r(7) that delivered_no_marks(2) [OF r(6,5) [unfolded src(3)]] by (auto split: if_splits)
  have "no_marks buf" if "no_marks cs"
    using r(7) c that n delivered_no_marks [OF r(6,5) [unfolded src(3)]] by (auto split: if_splits)
  then show ?thesis using r n c by (intro exI [of _ buf] exI [of _ c] exI [of _ bdx'] exI [of _ ord']) auto
qed

subsection \<open>Shaping adds no marks\<close>

lemma marks_spelled: "isMarker c \<Longrightarrow> spelled c = [c]"
  by (auto simp: isMarker_def lrm_def rlm_def spelled_def lamAlefForm_def letter06_def)

lemma table_letters:
  "list_all (\<lambda>x. \<not> isMarker (word_of_int x)) convertFEto06" "list_all (\<lambda>x. \<not> isMarker x) alefType"
  by code_simp+

lemma letter06_mark: "\<not> isMarker c \<Longrightarrow> \<not> isMarker (letter06 c)"
proof -
  have "\<not> isMarker (word_of_int (convertFEto06 ! nat (uint c - 0xFE70)))" if "0xFE70 \<le> c" "c \<le> 0xFEF4"
  proof -
    have "nat (uint c - 0xFE70) < length convertFEto06" using that by (simp add: word_le_def convertFEto06_def)
    then show ?thesis using table_letters(1) by (simp add: list_all_length)
  qed
  then show "\<not> isMarker c \<Longrightarrow> ?thesis" by (simp add: letter06_def)
qed

lemma alefOf_mark: "lamAlefForm c \<Longrightarrow> \<not> isMarker (alefOf c)"
proof -
  assume "lamAlefForm c"
  moreover have "int (length alefType) = 8" by (simp add: alefType_def)
  ultimately have "nat (uint c - 0xFEF5) < length alefType" by (auto simp: lamAlefForm_def word_le_def nat_less_iff)
  then show ?thesis using table_letters(2) by (simp add: alefOf_def list_all_length)
qed

lemma spelled_mark: "\<not> isMarker c \<Longrightarrow> d \<in> set (spelled c) \<Longrightarrow> \<not> isMarker d"
proof -
  have "\<not> isMarker ([0x0622, 0x0623, 0x0625, 0x0627] ! nat (uint c - 0x065C))" if "0x065C \<le> c" "c \<le> 0x065F"
  proof -
    have "list_all (\<lambda>x. \<not> isMarker x) [0x0622, 0x0623, 0x0625, 0x0627]" by (simp add: isMarker_def lrm_def rlm_def)
    moreover have "nat (uint c - 0x065C) < 4" using that by (simp add: word_le_def)
    ultimately show ?thesis by (simp only: list_all_length) simp
  qed
  moreover have "\<not> isMarker 0x0644" by (simp add: isMarker_def lrm_def rlm_def)
  ultimately show "\<not> isMarker c \<Longrightarrow> d \<in> set (spelled c) \<Longrightarrow> \<not> isMarker d"
    using letter06_mark [of c] alefOf_mark [of c] by (auto simp: spelled_def split: if_splits)
qed

lemma letters_set: "set_mset (letters cs) = (\<Union>c \<in> set cs. set (spelled c))"
  by (induction cs) (auto simp: letters_def weight_def)

lemma only_spaces_no_marks:
  assumes "only_spaces cs out" "no_marks cs"
  shows "no_marks out"
proof -
  obtain k where "letters out = letters cs + replicate_mset k 0x20" using assms(1) by (auto simp: only_spaces_def)
  then have s: "set_mset (letters out) \<subseteq> set_mset (letters cs) \<union> {0x20}" by (auto dest: in_replicate_mset [THEN iffD1])
  have "\<not> isMarker c" if "c \<in> set out" for c
  proof
    assume m: "isMarker c"
    then have "c \<in># letters out" using that marks_spelled by (auto simp: letters_set intro!: bexI [of _ c])
    moreover have "c \<noteq> 0x20" using m by (auto simp: isMarker_def lrm_def rlm_def)
    ultimately obtain d where "d \<in> set cs" "c \<in> set (spelled d)" using s by (auto simp: letters_set)
    then show False using spelled_mark [of d c] assms(2) m by (auto simp: no_marks_def)
  qed
  then show ?thesis by (simp add: no_marks_def)
qed

lemma no_marks_update: "no_marks b \<Longrightarrow> \<not> isMarker x \<Longrightarrow> no_marks (b[i := x])"
  unfolding no_marks_def using set_update_subset_insert by fastforce

lemma fold_no_marks: "(\<And>x b. x \<in> set xs \<Longrightarrow> no_marks b \<Longrightarrow> no_marks (f x b)) \<Longrightarrow> no_marks b \<Longrightarrow> no_marks (fold f xs b)"
  by (induction xs arbitrary: b) simp_all

lemma plain_cells [simp]: "\<not> isMarker 0x20" "\<not> isMarker shapeTail" "\<not> isMarker 0xFE80" "\<not> isMarker 0xFEF0" "\<not> isMarker 0xFEEF"
  "\<not> isMarker 0xFE8A" "\<not> isMarker 0xFE89" "\<not> isMarker 0x0644"
  by (simp_all add: isMarker_def lrm_def rlm_def shapeTail_def)

lemma seen_yeh_no_marks:
  assumes "no_marks b"
  shows "no_marks (shapeSeenNear b rtl)" "no_marks (deshapeSeenNear b)" "no_marks (shapeYehHamzaTwoCellNear b rtl)"
    "no_marks (deshapeYehHamzaTwoCellNear b)"
proof -
  have "no_marks (yehCell rtl f y i c)" if "no_marks c" "\<not> isMarker y" for f y i c
    using that by (simp add: yehCell_def Let_def no_marks_update)
  then show "no_marks (shapeYehHamzaTwoCellNear b rtl)"
    unfolding shapeYehHamzaTwoCellNear_def using assms by (intro fold_no_marks) simp_all
  have "no_marks (yehJoin y f i c)" if "no_marks c" "\<not> isMarker f" for f y i c
    using that by (simp add: yehJoin_def no_marks_update)
  then show "no_marks (deshapeYehHamzaTwoCellNear b)"
    unfolding deshapeYehHamzaTwoCellNear_def using assms by (intro fold_no_marks) simp_all
  show "no_marks (shapeSeenNear b rtl)"
    unfolding shapeSeenNear_def using assms by (intro fold_no_marks) (simp_all add: seenStep_def no_marks_update)
  show "no_marks (deshapeSeenNear b)" using assms by (auto simp: deshapeSeenNear_def no_marks_def)
qed

lemma no_marks_nth: "no_marks b \<longleftrightarrow> (\<forall>i < length b. \<not> isMarker (b ! i))"
  by (simp add: no_marks_def all_set_conv_all_nth)

lemma shift_no_marks:
  assumes "no_marks b" "a < length b"
  shows "no_marks (shiftUp a k b)" "no_marks (shiftDown k a b)"
  using assms by (auto simp: no_marks_nth shiftUp_nth shiftDown_nth)

lemma deshapeAuto_no_marks:
  assumes "deshapeAutoStep rtl i b = Inr c" "no_marks b" "i < length b"
  shows "no_marks c" "length c = length b"
  using assms shift_no_marks [OF assms(2), of "length b - 1" i] shift_no_marks [OF assms(2), of i 0] alefOf_mark [of "b ! i"]
  by (auto simp: deshapeAutoStep_def Let_def index_panic_def no_marks_update split: if_splits)

lemma deshapeLamAlefAuto_no_marks:
  assumes "deshapeLamAlefAuto b rtl = Inr c" "no_marks b"
  shows "no_marks c"
proof -
  have "res_fold (deshapeAutoStep rtl) is b = Inr c \<Longrightarrow> no_marks b \<Longrightarrow> \<forall>i \<in> set is. i < length b \<Longrightarrow> no_marks c" for "is"
  proof (induction "is" arbitrary: b)
    case (Cons i "is")
    then obtain d where "deshapeAutoStep rtl i b = Inr d" "res_fold (deshapeAutoStep rtl) is d = Inr c" by (auto simp: res_bind_eq_Inr)
    then show ?case using Cons.IH [of d] deshapeAuto_no_marks Cons.prems by auto
  qed simp
  then show ?thesis using assms by (simp add: deshapeLamAlefAuto_def)
qed


lemma default_modes:
  "GetSeenMode NewArabicOptionSet = SeenAuto" "GetYehHamzaMode NewArabicOptionSet = YehHamzaAuto"
  "GetTashkeelMode NewArabicOptionSet = TashkeelAuto" "GetLamAlefMode NewArabicOptionSet = LamAlefAuto"
  by code_simp+

lemma default_routines:
  "customizeTashkeel TashkeelAuto b = b" "deshapeLamAlef LamAlefAuto b rtl = deshapeLamAlefAuto b rtl" "handleLamAlef LamAlefAuto b rtl = b"
  by (simp_all add: customizeTashkeel_def deshapeLamAlef_def handleLamAlef_def LamAlefAuto_def LamAlefResizeBuffer_def LamAlefNear_def
      LamAlefAtBegin_def LamAlefAtEnd_def)

lemma shape_no_marks:
  assumes "plain_mode (GetText outAttr)" "no_marks cs" "Shape inAttr outAttr cs None = Inr s"
  shows "no_marks s"
proof (cases "cs = []")
  case False
  define rtl where "rtl = (GetOrientation outAttr = orientationRTL)"
  note S = Shape_def Let_def default_modes default_routines rtl_def [symmetric]
  consider "GetType inAttr = typeVisual" "GetType outAttr = typeImplicit" | "GetType outAttr = typeVisual" | "GetType outAttr \<noteq> typeVisual"
      "\<not> (GetType inAttr = typeVisual \<and> GetType outAttr = typeImplicit)" by blast
  then show ?thesis
  proof cases
    case 1
    then have "res_bind (deshapeLamAlefAuto (deshapeYehHamzaTwoCellNear (deshapeSeenNear cs)) rtl) (\<lambda>b. shapingRoutine inAttr outAttr b rtl) = Inr s"
      using assms(3) False by (simp add: S)
    then obtain b where b: "deshapeLamAlefAuto (deshapeYehHamzaTwoCellNear (deshapeSeenNear cs)) rtl = Inr b" "shapingRoutine inAttr outAttr b rtl = Inr s"
      by (auto simp: res_bind_eq_Inr)
    then have "no_marks b" using deshapeLamAlefAuto_no_marks seen_yeh_no_marks assms(2) by blast
    then show ?thesis using b(2) 1 letter06_mark by (auto simp: shapingRoutine_def no_marks_def split: if_splits)
  next
    case 2
    moreover have "typeVisual \<noteq> typeImplicit" by (simp add: flag_defs flag_values)
    ultimately have "res_bind (shapingRoutine inAttr outAttr cs rtl) (\<lambda>b. Inr (shapeYehHamzaTwoCellNear (shapeSeenNear b rtl) rtl)) = Inr s"
      using assms(3) False by (simp add: S)
    then obtain b where "shapingRoutine inAttr outAttr cs rtl = Inr b" "s = shapeYehHamzaTwoCellNear (shapeSeenNear b rtl) rtl"
      by (auto simp: res_bind_eq_Inr)
    moreover have "no_marks b" if "shapingRoutine inAttr outAttr cs rtl = Inr b"
      using shapingRoutine_visual [OF 2, of inAttr cs rtl] that assms(1,2) only_spaces_no_marks by auto
    ultimately show ?thesis using seen_yeh_no_marks by blast
  next
    case 3
    then have "s = cs" using assms(3) unfolding Shape_def Let_def by (simp only: if_False if_cancel sum.inject)
    then show ?thesis using assms(2) by simp
  qed
qed (use assms in \<open>simp add: Shape_def no_marks_def\<close>)

lemma transform_ok:
  assumes "\<not> bxInsertMarkers bdx"
  shows "\<exists>dst bdx' ord. Transform (text_of fl cs) bdx None = Inr (dst, bdx', ord) \<and> txOffset dst = 0 \<and> txCount dst \<le> length (txChars dst) \<and>
    (\<not> resizing bdx \<and> (no_marks cs \<or> \<not> bxRemoveMarkers bdx) \<longrightarrow> txCount dst = length cs \<and> length (txChars dst) = length cs) \<and>
    (no_marks cs \<and> bxOptions bdx = None \<and> plain_mode (GetText (bxFlags bdx)) \<longrightarrow> no_marks (txChars dst))"
proof -
  obtain buf c bdx' ord where r: "orderTo (text_of fl cs) (NewBidiText\<lparr>txFlags := bxFlags bdx\<rparr>) bdx (newOrder bdx) =
        Inr (NewBidiText\<lparr>txFlags := bxFlags bdx, txData := Some buf, txCount := c\<rparr>, bdx', ord)"
      "length buf = length cs" "c \<le> length buf" "bxOptions bdx' = bxOptions bdx"
      "no_marks cs \<or> \<not> bxRemoveMarkers bdx \<longrightarrow> c = length cs" "no_marks cs \<longrightarrow> no_marks buf"
    using order_text [OF assms, of fl cs] by blast
  let ?dst = "NewBidiText\<lparr>txFlags := bxFlags bdx, txData := Some buf, txCount := c\<rparr>"
  obtain s where s: "Shape fl (bxFlags bdx) (take c buf) (bxOptions bdx) = Inr s" "\<not> resizing bdx \<longrightarrow> length s = c"
    using shape_returns [of fl "bxFlags bdx" "take c buf" "bxOptions bdx"] r(3) by (auto simp: resizing_def)
  have "shapeText (text_of fl cs) ?dst (bxOptions bdx') = Inr (?dst\<lparr>txCount := length s, txData := Some s\<rparr>)"
    using s(1) r(3,4) by (auto simp: shapeText_def text_of_def NewBidiText_def txChars_def copy_into_def slice_def)
  then have "Transform (text_of fl cs) bdx None =
      Inr (if GetText fl \<noteq> GetText (bxFlags bdx) then ?dst\<lparr>txCount := length s, txData := Some s\<rparr> else ?dst, bdx', ord)"
    by (simp add: Transform_def r(1))
  moreover have "no_marks s" if "no_marks cs" "bxOptions bdx = None" "plain_mode (GetText (bxFlags bdx))"
    using shape_no_marks [of "bxFlags bdx" "take c buf" fl s] s(1) r(2,5,6) that by simp
  ultimately show ?thesis using r(2,3,5,6) s(2) by (auto simp: txChars_def NewBidiText_def)
qed


subsection \<open>String types\<close>

lemma initFlagSet_ok: "\<exists>fs. initFlagSet st = Inr fs"
proof -
  have "\<exists>fs. mustFlagSet [typeVisual, numeralsNominal, orientationLTR, textShaped, swapNo] = Inr fs"
    "\<exists>fs. mustFlagSet [typeImplicit, numeralsNominal, orientationLTR, textNominal, swapYes] = Inr fs"
    "\<exists>fs. mustFlagSet [typeImplicit, numeralsNominal, orientationRTL, textNominal, swapYes] = Inr fs"
    "\<exists>fs. mustFlagSet [typeVisual, numeralsNominal, orientationContextLTR, textNominal, swapNo] = Inr fs"
    "\<exists>fs. mustFlagSet [typeVisual, numeralsNominal, orientationRTL, textShaped, swapNo] = Inr fs"
    "\<exists>fs. mustFlagSet [typeVisual, numeralsNominal, orientationRTL, textShaped, swapYes] = Inr fs"
    "\<exists>fs. mustFlagSet [typeImplicit, numeralsNominal, orientationContextLTR, textNominal, swapYes] = Inr fs"
    "\<exists>fs. mustFlagSet [typeImplicit, numeralsNominal, orientationContextRTL, textNominal, swapYes] = Inr fs"
    by (simp_all add: mustFlagSet_def NewBidiFlagSetFromFlags_def flag_defs flag_values)
  then show ?thesis by (simp add: initFlagSet_def)
qed

lemma initFlagSet_plain:
  assumes "initFlagSet st = Inr fs"
  shows "plain_mode (GetText fs)"
  using assms unfolding initFlagSet_def
  by (simp add: mustFlagSet_def NewBidiFlagSetFromFlags_def flag_defs flag_values GetText_def plain_mode_def split: if_splits)

lemma stringTypeSearch_finds:
  "0 \<le> low \<Longrightarrow> high < int (length ccsidTable) \<Longrightarrow> stringTypeSearch low high x = 0 \<or> (x, stringTypeSearch low high x) \<in> set ccsidTable"
proof (induction low high x rule: stringTypeSearch.induct)
  case (1 low high x)
  define m where "m = (low + high) div 2"
  have entry: "(fst (ccsidTable ! nat k), snd (ccsidTable ! nat k)) \<in> set ccsidTable" if "0 \<le> k" "k < int (length ccsidTable)" for k
    using that by (metis nat_less_iff nth_mem prod.collapse)
  consider "low < high" "x < fst (ccsidTable ! nat m)" | "low < high" "x > fst (ccsidTable ! nat m)" | "low < high" "x = fst (ccsidTable ! nat m)"
    | "\<not> low < high" by linarith
  then show ?case
  proof cases
    case 1
    then have "stringTypeSearch low high x = stringTypeSearch low (m - 1) x" by (subst stringTypeSearch.simps) (simp add: m_def Let_def)
    then show ?thesis using "1.IH"(1) [OF 1(1) refl] 1 "1.prems" by (auto simp: m_def)
  next
    case 2
    then have "stringTypeSearch low high x = stringTypeSearch (m + 1) high x" by (subst stringTypeSearch.simps) (simp add: m_def Let_def)
    then show ?thesis using "1.IH"(2) [OF 2(1) refl] 2 "1.prems" by (auto simp: m_def)
  next
    case 3
    then have "stringTypeSearch low high x = snd (ccsidTable ! nat m)" by (subst stringTypeSearch.simps) (simp add: m_def Let_def)
    then show ?thesis using entry [of m] 3 "1.prems" by (auto simp: m_def)
  next
    case 4
    then show ?thesis using entry [of low] "1.prems" by (subst (1 2) stringTypeSearch.simps) auto
  qed
qed

text \<open>The search gives the entry of the table, and 0 for a CCSID that is not in it.\<close>

lemma string_types_found: "list_all (\<lambda>(c, t). StringTypeForCCSID c = t) ccsidTable"
  unfolding StringTypeForCCSID_def ccsidTable_def by (simp add: stringTypeSearch.simps ccsidTable_def Let_def)


lemma StringTypeForCCSID_table: "StringTypeForCCSID c = (case map_of ccsidTable c of None \<Rightarrow> 0 | Some t \<Rightarrow> t)"
proof (cases "map_of ccsidTable c")
  case None
  then have "c \<notin> fst ` set ccsidTable" by (simp add: map_of_eq_None_iff)
  then show ?thesis using stringTypeSearch_finds [of 0 "int (length ccsidTable) - 1" c] None by (force simp: StringTypeForCCSID_def)
next
  case (Some t)
  then show ?thesis using string_types_found map_of_SomeD [OF Some] by (auto simp: list_all_iff)
qed

lemma string_type_range: "0 \<le> StringTypeForCCSID c"
proof -
  have "list_all (\<lambda>(c, t). 0 \<le> t) ccsidTable" by (simp add: ccsidTable_def)
  then show ?thesis by (auto simp: StringTypeForCCSID_table list_all_iff split: option.splits dest!: map_of_SomeD)
qed

subsection \<open>Character data\<close>

lemma length_padStaleTail [simp]: "length (padStaleTail data valid) = length data"
  unfolding padStaleTail_def by (rule fold_length) simp

lemma layoutBetween_ok:
  assumes "\<not> bxInsertMarkers bdx" "\<not> resizing bdx" "\<not> bxRemoveMarkers bdx"
  shows "\<exists>out. layoutBetween fl bdx cs = Inr (out, length cs) \<and> length out = length cs"
  using transform_ok [OF assms(1), of fl cs] assms(2,3) by (auto simp: layoutBetween_def NewBidiTextFromData_ok)

text \<open>A transform that inserts no marks, removes none and does not resize.\<close>

definition keeps_units :: "BidiTransform \<Rightarrow> bool" where
  "keeps_units bdx \<longleftrightarrow> \<not> bxInsertMarkers bdx \<and> \<not> resizing bdx \<and> \<not> bxRemoveMarkers bdx"

lemma default_options_keep: "GetLamAlefMode NewArabicOptionSet \<noteq> LamAlefResizeBuffer"
  by (simp add: GetLamAlefMode_def optionOf_def NewArabicOptionSet_def arabicOptionSetDefault_def LamAlefAuto_def LamAlefResizeBuffer_def
      LamAlefNear_def LamAlefAtBegin_def LamAlefAtEnd_def SeenAuto_def YehHamzaAuto_def TashkeelAuto_def lamalefMask_def)

lemma preparedTransform_ok:
  assumes "\<not> prInsertMarkers p" "\<not> prExpandLamAlef p" "\<not> prRemoveMarkers p" "\<not> prRemoveMarksOnImplicitToVisual p"
  shows "\<exists>a. preparedTransform ccsid p = Inr a \<and> keeps_units (atJ2A a) \<and> keeps_units (atA2J a)"
proof -
  obtain f where f: "initFlagSet st = Inr (f st)" for st using initFlagSet_ok by metis
  show ?thesis
    using assms default_options_keep
    by (simp add: preparedTransform_def newAS400Transform_def setAS400Ccsid_def setAS400StringType_def setJavaStringType_def
        setBidiConversionProperties_def copyOptionsTo_def setNumeralShapingOnTransform_def f keeps_units_def resizing_def Let_def)
qed

lemma character_layout:
  assumes "\<not> prInsertMarkers p" "\<not> prExpandLamAlef p" "\<not> prRemoveMarkers p" "\<not> prRemoveMarksOnImplicitToVisual p"
  shows "\<exists>out. toHostCount cs ccsid p = Inr (out, length cs) \<and> length out = length cs"
    "\<exists>out. toLogicalCount cs ccsid p = Inr (out, length cs) \<and> length out = length cs"
proof -
  obtain a where a: "preparedTransform ccsid p = Inr a" "keeps_units (atJ2A a)" "keeps_units (atA2J a)"
    using preparedTransform_ok [OF assms] by blast
  have "\<exists>out. toAS400LayoutCount a cs = Inr (out, length cs) \<and> length out = length cs"
    "\<exists>out. toJavaLayoutCount a cs = Inr (out, length cs) \<and> length out = length cs"
    using a(2,3) layoutBetween_ok unfolding toAS400LayoutCount_def toJavaLayoutCount_def keeps_units_def by auto
  then show "\<exists>out. toHostCount cs ccsid p = Inr (out, length cs) \<and> length out = length cs"
    "\<exists>out. toLogicalCount cs ccsid p = Inr (out, length cs) \<and> length out = length cs"
    by (auto simp: toHostCount_def toLogicalCount_def a(1))
qed

subsection \<open>SQL text without marks\<close>

lemma TransformString_ok:
  assumes "list_all (\<lambda>c. \<not> isMarker c) cs"
  shows "\<exists>out. TransformString inF outF cs = Inr out \<and> length out = length cs \<and> list_all (\<lambda>c. \<not> isMarker c) out"
proof (cases "unchangedTypes inF outF")
  case False
  obtain f g where f: "initFlagSet inF = Inr f" "initFlagSet outF = Inr g" using initFlagSet_ok by metis
  let ?b = "NewBidiTransform\<lparr>bxFlags := g, bxRemoveMarkers := True\<rparr>"
  have b: "\<not> bxInsertMarkers ?b" "bxOptions ?b = None" "\<not> resizing ?b" "plain_mode (GetText (bxFlags ?b))"
    using default_options_keep initFlagSet_plain [OF f(2)] by (simp_all add: NewBidiTransform_def resizing_def)
  have n: "no_marks cs" using assms by (simp add: no_marks_def list_all_iff)
  obtain dst x y where d: "Transform (text_of f cs) ?b None = Inr (dst, x, y)" "txOffset dst = 0" "txCount dst = length cs"
      "length (txChars dst) = length cs" "no_marks (txChars dst)"
    using transform_ok [OF b(1), of f cs] b(2-) n by blast
  show ?thesis using False f d by (simp add: TransformString_def NewBidiTextFromData_ok slice_def no_marks_def list_all_iff)
qed (use assms in \<open>simp add: TransformString_def\<close>)

interpretation string_layout: piece_layout "TransformString inF outF" "\<lambda>c. \<not> isMarker c" for inF outF
  by unfold_locales (rule TransformString_ok)

lemma laid_out_same: "length M = length sql \<Longrightarrow> laid_out M sql sql"
  by (simp add: laid_out_def)

lemma reordering_ok:
  assumes "list_all (\<lambda>c. \<not> isMarker c) sql"
  shows "\<exists>out. SQLStatementReordering sql inF outF = Inr out \<and> laid_out (literal_mask False sql) sql out"
    "\<exists>out. MetaDataReordering sql inF outF = Inr out \<and> laid_out (identifier_mask False sql) sql out \<and> list_all (\<lambda>c. \<not> isMarker c) out"
  using string_layout.loops_ok [OF assms, of inF outF] assms
  by (auto simp: SQLStatementReordering_def MetaDataReordering_def laid_out_same)

lemma ConvertSQLToHost_ok:
  assumes "list_all (\<lambda>c. \<not> isMarker c) sql"
  shows "\<exists>out. ConvertSQLToHost sql bidiType packageCCSID implicitReordering sys = Inr out \<and> length out = length sql"
proof -
  define h where "h = (if bySystemPresent sys then StringTypeForCCSID (bySystemCCSID sys) else 4)"
  obtain m where m: "(if implicitReordering then MetaDataReordering sql bidiType h else Inr sql) = Inr m" "length m = length sql"
      "list_all (\<lambda>c. \<not> isMarker c) m"
    using reordering_ok(2) [OF assms, of bidiType h] assms by (cases implicitReordering) (auto simp: laid_out_def)
  show ?thesis using reordering_ok(1) [OF m(3), of bidiType "StringTypeForSystem packageCCSID sys"] m
    by (auto simp: ConvertSQLToHost_def h_def [symmetric] laid_out_def)
qed

lemma bidiStatementText_returns:
  assumes "list_all (\<lambda>c. \<not> isMarker c) (utf16_Encode (runes query))"
  shows "\<exists>s. bidiStatementText c query = Inr s"
proof -
  let ?bs = "bidiSettingsForConn (Some c)"
  obtain out where "ConvertSQLToHost (utf16_Encode (runes query)) (bsStringType ?bs) (bidiPackageCCSID c) (bsImplicitReordering ?bs) (bidiSystemInfo c) = Inr out"
    using ConvertSQLToHost_ok [OF assms] by blast
  then show ?thesis by (simp add: bidiStatementText_def Let_def)
qed

subsection \<open>Examples\<close>

text \<open>
  A mark in a literal is dropped, but the index of the loop is not: with a line break after the mark
  the closing quote is looked for in a piece that starts behind it. On a server with a Hebrew or
  Arabic CCSID this is the layout of a statement with the default settings.
\<close>

lemma marks_in_literal_panic:
  "SQLStatementReordering [0x27, 0x200E, 0x0A, 0x27] 5 10 = Inl (Panic ''slice bounds out of range'')"
  "SQLStatementReordering [0x27, 0x200E, 0x0A] 5 10 = Inl (Panic ''index out of range'')"
  by code_simp+

text \<open>Double quotes inside of two literals are taken for an identifier: the Hebrew letters of the literals change places.\<close>

lemma identifier_across_literals:
  "MetaDataReordering [0x27, 0x22, 0x05D1, 0x27, 0x2C, 0x27, 0x05D2, 0x22, 0x27] 5 4 =
   Inr [0x27, 0x22, 0x05D2, 0x27, 0x2C, 0x27, 0x05D1, 0x22, 0x27]"
  by code_simp

text \<open>The layouts as the functions that the decoding of columns and the encoding of parameters take.\<close>

definition driverLayout :: bidiLayout where
  "driverLayout =
     \<lparr>blToLogicalPadded = (\<lambda>units cid bs. case ToLogicalPadded units cid (bidiProperties bs cid) of Inl e \<Rightarrow> units | Inr out \<Rightarrow> out),
      blToHostPadded = (\<lambda>units cid bs. case ToHostPadded units cid (bidiProperties bs cid) of Inl e \<Rightarrow> units | Inr out \<Rightarrow> out)\<rparr>"

lemma driver_properties:
  "\<not> prInsertMarkers (bidiProperties bs cid)" "\<not> prExpandLamAlef (bidiProperties bs cid)" "\<not> prRemoveMarkers (bidiProperties bs cid)"
  "\<not> prRemoveMarksOnImplicitToVisual (bidiProperties bs cid)"
  by (simp_all add: bidiProperties_def DefaultProperties_def)

lemma driverLayout_exact:
  "ToLogicalPadded units cid (bidiProperties bs cid) = Inr (blToLogicalPadded driverLayout units cid bs)"
  "ToHostPadded units cid (bidiProperties bs cid) = Inr (blToHostPadded driverLayout units cid bs)"
  using character_layout [OF driver_properties, of units cid bs cid]
  by (auto simp: driverLayout_def ToLogicalPadded_def ToHostPadded_def)

section \<open>Properties\<close>

text \<open>
  C34. The layout of character data with the settings of a connection never panics, in either direction, and
  keeps the number of UTF-16 units, for every text, CCSID and setting.
\<close>

theorem character_layout_total:
  "\<exists>host logical. ToHostPadded cs cid (bidiProperties bs cid) = Inr host \<and> length host = length cs \<and>
    ToLogicalPadded cs cid (bidiProperties bs cid) = Inr logical \<and> length logical = length cs"
  using character_layout [OF driver_properties, of cs cid bs cid] by (auto simp: ToHostPadded_def ToLogicalPadded_def)



end
