(* ===== verification/Password.thy ===== *)
theory Password
  imports Attributes
begin

text \<open>
  The password substitutes of the sign-on (\<open>src/encryption.go\<close>): DES for the password levels 0 and 1,
  SHA-1 for 2 and 3, PBKDF2 and SHA-512 from level 4 on, and the authentication scheme byte that
  announces which one is sent. The DES part works on buffers of 8 bytes with loops that carry and
  shift; it is shown to be the published algorithm on 64-bit numbers.

  The ciphers and hashes of Go's \<open>crypto\<close> packages are a parameter, a record of functions; what the
  theorems need of them (the sizes of their results) is \<open>crypto_sizes\<close>.
\<close>

record crypto =
  cyDES :: "bytes \<Rightarrow> (bytes \<Rightarrow> bytes) res"
  cySHA1 :: "bytes \<Rightarrow> bytes"
  cySHA256 :: "bytes \<Rightarrow> bytes"
  cySHA512 :: "bytes \<Rightarrow> bytes"
  cyPBKDF2 :: "string \<Rightarrow> bytes \<Rightarrow> nat \<Rightarrow> nat \<Rightarrow> bytes res"

text \<open>
  \<open>cyDES key\<close> is \<open>des.NewCipher(key)\<close> with the \<open>Encrypt\<close> of the block it returns; the hashes are
  \<open>Sum\<close> of everything written; \<open>cyPBKDF2\<close> is \<open>pbkdf2.Key\<close> with \<open>sha512.New\<close>.
\<close>

definition pwdLevel4Iterations :: nat where "pwdLevel4Iterations = 10022"
definition pwdLevel4KeyLength :: nat where "pwdLevel4KeyLength = 64"
definition maxUserIDLength :: nat where "maxUserIDLength = 10"
definition maxPasswordLengthDES :: nat where "maxPasswordLengthDES = 10"
definition passwordSubstituteDES :: nat where "passwordSubstituteDES = 8"
definition passwordSubstituteSHA :: nat where "passwordSubstituteSHA = 20"

definition shaSequence :: bytes where "shaSequence = [0, 0, 0, 0, 0, 0, 0, 1]"

definition passwordAuthScheme :: "nat \<Rightarrow> byte" where
  "passwordAuthScheme substituteLen =
     (if substituteLen = passwordSubstituteDES then 0x01
      else if substituteLen = passwordSubstituteSHA then 0x03 else 0x07)"

definition checkPasswordPresent :: "string \<Rightarrow> unit res" where
  "checkPasswordPresent password =
     (if password = [] then Inl (Errorf ''password is empty'' [])
      else if hd password = CHR ''*'' then Inl (Errorf ''password begins with a '*' character'' [])
      else Inr ())"

section \<open>Operations on buffers\<close>

definition xorBytes :: "bytes \<Rightarrow> bytes \<Rightarrow> bytes \<Rightarrow> bytes" where
  "xorBytes left right out = copy_into out (map2 (XOR) left right)"

fun addLoop :: "nat \<Rightarrow> int \<Rightarrow> bytes \<Rightarrow> bytes \<Rightarrow> bytes \<Rightarrow> bytes" where
  "addLoop 0 carry left right out = out"
| "addLoop (Suc i) carry left right out =
     (let sum = uint (left ! i AND 0xff) + uint (right ! i AND 0xff) + carry in
      addLoop i (drop_bit 8 sum) left right (out[i := word_of_int sum]))"

definition addBytes :: "bytes \<Rightarrow> bytes \<Rightarrow> bytes \<Rightarrow> bytes res" where
  "addBytes left right out =
     (if length left < length out \<or> length right < length out then Inl (Panic ''index out of range'')
      else Inr (addLoop (length out) 0 left right out))"

function shiftLoop :: "nat \<Rightarrow> bytes \<Rightarrow> bytes" where
  "shiftLoop i bs =
     (if i < 7 then shiftLoop (Suc i) (bs[i := push_bit 1 (bs ! i) OR drop_bit 7 (bs ! Suc i AND 0x80)]) else bs)"
  by pat_completeness auto
termination by (relation "measure (\<lambda>(i, bs). 7 - i)") auto

declare shiftLoop.simps [simp del]

definition xorWith0x55AndLshift :: "bytes \<Rightarrow> bytes res" where
  "xorWith0x55AndLshift bs =
     (let b1 = map (\<lambda>x. x XOR 0x55) (take 8 bs) @ drop 8 bs in
      if bs = [] then Inr []
      else if length bs < 8 then Inl (Panic ''index out of range'')
      else let b2 = shiftLoop 0 b1 in Inr (b2[7 := push_bit 1 (b2 ! 7)]))"

fun ebcdicStrLen :: "bytes \<Rightarrow> nat \<Rightarrow> nat" where
  "ebcdicStrLen (b # bs) (Suc n) = (if b \<noteq> 0x40 \<and> b \<noteq> 0 then Suc (ebcdicStrLen bs n) else 0)"
| "ebcdicStrLen bs n = 0"

definition desEncrypt8 :: "crypto \<Rightarrow> bytes \<Rightarrow> bytes \<Rightarrow> bytes res" where
  "desEncrypt8 cy key data =
     (if length key < 8 \<or> length data < 8 then Inl (Errorf ''DES key and data must be at least 8 bytes'' [])
      else case cyDES cy (take 8 key) of
        Inl e \<Rightarrow> Inl (Wrap e ''DES key: %w'' [])
      | Inr encrypt \<Rightarrow> Inr (copy_into (replicate 8 0) (encrypt (take 8 data))))"

section \<open>The DES substitute\<close>

text \<open>The two bytes of a user id that do not fit a DES block, folded into the first eight.\<close>

definition foldUserID :: "bytes \<Rightarrow> bytes" where
  "foldUserID w =
     w[0 := w ! 0 XOR (w ! 8 AND 0xC0),
       1 := w ! 1 XOR push_bit 2 (w ! 8 AND 0x30),
       2 := w ! 2 XOR push_bit 4 (w ! 8 AND 0x0C),
       3 := w ! 3 XOR push_bit 6 (w ! 8 AND 0x03),
       4 := w ! 4 XOR (w ! 9 AND 0xC0),
       5 := w ! 5 XOR push_bit 2 (w ! 9 AND 0x30),
       6 := w ! 6 XOR push_bit 4 (w ! 9 AND 0x0C),
       7 := w ! 7 XOR push_bit 6 (w ! 9 AND 0x03)]"

definition blanks10 :: bytes where "blanks10 = replicate 10 0x40"

definition generateToken :: "crypto \<Rightarrow> bytes \<Rightarrow> bytes \<Rightarrow> bytes res" where
  "generateToken cy userID password =
     (if length userID < maxUserIDLength then Inl (Errorf ''invalid DES user ID length'' [])
      else
        let work0 = copy_into (replicate 10 0) userID;
            work1 = (if ebcdicStrLen userID 10 > 8 then foldUserID work0 else work0);
            len = ebcdicStrLen password 10 in
        if len > 8 then
          res_bind (xorWith0x55AndLshift (copy_into blanks10 (take 8 password))) (\<lambda>work2.
          res_bind (desEncrypt8 cy work2 (take 8 work1)) (\<lambda>enc1.
          res_bind (xorWith0x55AndLshift (copy_into blanks10 (slice 8 len password))) (\<lambda>work3.
          res_bind (desEncrypt8 cy work3 (take 8 work1)) (\<lambda>enc2.
            Inr (xorBytes enc1 enc2 (replicate 8 0))))))
        else
          res_bind (xorWith0x55AndLshift (copy_into blanks10 (take len password))) (\<lambda>work2.
          res_bind (desEncrypt8 cy work2 (take 8 work1)) (\<lambda>enc.
            Inr (copy_into (replicate 8 0) enc))))"

definition generatePasswordSubstitute ::
  "crypto \<Rightarrow> bytes \<Rightarrow> bytes \<Rightarrow> bytes \<Rightarrow> bytes \<Rightarrow> bytes \<Rightarrow> bytes \<Rightarrow> bytes res" where
  "generatePasswordSubstitute cy userID token passwordVerifier sequenceNumber clientSeed serverSeed =
     (if length userID < maxUserIDLength \<or> length token < 8 \<or> length passwordVerifier < 8 \<or>
         length sequenceNumber < 8 \<or> length clientSeed < 8 \<or> length serverSeed < 8
      then Inl (Errorf ''invalid DES password inputs'' [])
      else
        res_bind (addBytes (take 8 sequenceNumber) (take 8 serverSeed) (replicate 8 0)) (\<lambda>rDrSEQ.
        res_bind (desEncrypt8 cy (take 8 token) rDrSEQ) (\<lambda>encrypted1.
        let data1 = xorBytes encrypted1 (take 8 clientSeed) (replicate 8 0) in
        res_bind (desEncrypt8 cy (take 8 token) data1) (\<lambda>encrypted2.
        let data2 = xorBytes (take 8 userID) rDrSEQ data1;
            data3 = xorBytes data2 encrypted2 data2 in
        res_bind (desEncrypt8 cy (take 8 token) data3) (\<lambda>encrypted3.
        let data4 = (replicate 8 0x40)[0 := userID ! 8, 1 := userID ! 9];
            data5 = xorBytes rDrSEQ data4 data4;
            data6 = xorBytes data5 encrypted3 data5 in
        res_bind (desEncrypt8 cy (take 8 token) data6) (\<lambda>encrypted4.
          desEncrypt8 cy (take 8 token) (xorBytes (take 8 sequenceNumber) encrypted4 data6)))))))"

definition encryptPasswordDES :: "crypto \<Rightarrow> bytes \<Rightarrow> bytes \<Rightarrow> bytes \<Rightarrow> bytes \<Rightarrow> bytes res" where
  "encryptPasswordDES cy userID password clientSeed serverSeed =
     res_bind (generateToken cy userID password) (\<lambda>token.
       generatePasswordSubstitute cy userID token (replicate 8 0) [0, 0, 0, 0, 0, 0, 0, 1] clientSeed serverSeed)"

definition desPasswordSubstitute ::
  "tables \<Rightarrow> caseTables \<Rightarrow> crypto \<Rightarrow> string \<Rightarrow> string \<Rightarrow> bytes \<Rightarrow> bytes \<Rightarrow> bytes res" where
  "desPasswordSubstitute fs ct cy user password0 clientSeed serverSeed =
     (let password = (if password0 \<noteq> [] \<and> is_digit (hd password0) then CHR ''Q'' # password0 else password0) in
      if length (runes password) > maxPasswordLengthDES then Inl (Errorf ''password too long'' [])
      else
        res_bind (EncodeEBCDIC37BlankPad fs user maxUserIDLength) (\<lambda>userBytes.
        res_bind (EncodeEBCDIC37BlankPad fs (ToUpperBy ct password) maxPasswordLengthDES) (\<lambda>passwordBytes.
          encryptPasswordDES cy userBytes passwordBytes clientSeed serverSeed)))"

section \<open>The SHA substitutes\<close>

definition userIDUTF16 :: "caseTables \<Rightarrow> string \<Rightarrow> bytes" where
  "userIDUTF16 ct user = EncodeUTF16BEBlankPad (ToUpperBy ct user) 20"

definition encryptPasswordSHA :: "crypto \<Rightarrow> bytes \<Rightarrow> bytes \<Rightarrow> bytes \<Rightarrow> bytes \<Rightarrow> bytes res" where
  "encryptPasswordSHA cy userID password clientSeed serverSeed =
     (if userID = [] \<or> length clientSeed < 8 \<or> length serverSeed < 8 then Inl (Errorf ''invalid SHA password inputs'' [])
      else
        let token = cySHA1 cy (userID @ password) in
        if length token \<noteq> 20 then Inl (Errorf ''unexpected SHA token length'' [])
        else Inr (cySHA1 cy (token @ take 8 serverSeed @ take 8 clientSeed @ userID @ shaSequence)))"

text \<open>The characters \<open>strings.TrimRight\<close> removes here: NUL, the blank and U+3000.\<close>

definition trimmedPassword :: "string \<Rightarrow> string" where
  "trimmedPassword password = rev (trimSeqs (map rev [[CHR 0x00], '' '', [CHR 0xE3, CHR 0x80, CHR 0x80]]) (rev password))"

definition sha1PasswordSubstitute :: "caseTables \<Rightarrow> crypto \<Rightarrow> string \<Rightarrow> string \<Rightarrow> bytes \<Rightarrow> bytes \<Rightarrow> bytes res" where
  "sha1PasswordSubstitute ct cy user password clientSeed serverSeed =
     res_bind (checkPasswordPresent password) (\<lambda>_.
       encryptPasswordSHA cy (userIDUTF16 ct user) (EncodeUTF16BE (trimmedPassword password)) clientSeed serverSeed)"

definition lastUnits :: "u16 list \<Rightarrow> u16 list" where
  "lastUnits units =
     (let tail = drop (length units - 4) units in
      map (\<lambda>i. if i < length tail then tail ! i else 0x20) [0..<4])"

definition passwordLevel4Salt :: "crypto \<Rightarrow> string \<Rightarrow> string \<Rightarrow> bytes" where
  "passwordLevel4Salt cy user password =
     cySHA256 cy (EncodeUTF16BEBlankPad user 20 @ concat (map bytesU16 (lastUnits (utf16_Encode (runes password)))))"

definition passwordLevel4Token :: "caseTables \<Rightarrow> crypto \<Rightarrow> string \<Rightarrow> string \<Rightarrow> bytes res" where
  "passwordLevel4Token ct cy user password =
     (case cyPBKDF2 cy password (passwordLevel4Salt cy (ToUpperBy ct user) password) pwdLevel4Iterations pwdLevel4KeyLength of
        Inl e \<Rightarrow> Inl (Wrap e ''pbkdf2 failed: %w'' [])
      | Inr token \<Rightarrow> Inr token)"

definition sha512Substitute :: "crypto \<Rightarrow> bytes \<Rightarrow> bytes \<Rightarrow> bytes \<Rightarrow> bytes \<Rightarrow> bytes \<Rightarrow> bytes" where
  "sha512Substitute cy token serverSeed clientSeed userIDBytes sequence =
     cySHA512 cy (token @ take 8 serverSeed @ take 8 clientSeed @ userIDBytes @ sequence)"

definition sha512PasswordSubstitute :: "caseTables \<Rightarrow> crypto \<Rightarrow> string \<Rightarrow> string \<Rightarrow> bytes \<Rightarrow> bytes \<Rightarrow> bytes res" where
  "sha512PasswordSubstitute ct cy user password clientSeed serverSeed =
     res_bind (checkPasswordPresent password) (\<lambda>_.
     res_bind (passwordLevel4Token ct cy user password) (\<lambda>token.
       Inr (sha512Substitute cy token serverSeed clientSeed (userIDUTF16 ct user) shaSequence)))"

definition passwordSubstitute ::
  "tables \<Rightarrow> caseTables \<Rightarrow> crypto \<Rightarrow> string \<Rightarrow> string \<Rightarrow> int \<Rightarrow> bytes \<Rightarrow> bytes \<Rightarrow> bytes res" where
  "passwordSubstitute fs ct cy user0 password level clientSeed serverSeed =
     (if length clientSeed < 8 \<or> length serverSeed < 8
      then Inl (Errorf ''client and server seeds must be at least 8 bytes'' [])
      else
        let user = ToUpperBy ct user0 in
        if length (runes user) > maxUserIDLength then Inl (Errorf ''user ID too long'' [])
        else if level < 2 then desPasswordSubstitute fs ct cy user password clientSeed serverSeed
        else if level < 4 then sha1PasswordSubstitute ct cy user password clientSeed serverSeed
        else sha512PasswordSubstitute ct cy user password clientSeed serverSeed)"

section \<open>Buffers as 64-bit numbers\<close>

lemma be_nat_snoc: "be_nat (bs @ [b]) = be_nat bs * 256 + unat b"
  by (simp add: be_nat_append)

lemma bit_shift_add: "bit (a * 256 + unat (b :: byte)) n \<longleftrightarrow> (if n < 8 then bit b n else bit a (n - 8))"
proof (cases "n < 8")
  case True
  have "take_bit 8 (a * 256 + unat b) = unat b" using unat_less_pow [of b] by (simp add: take_bit_eq_mod)
  then have "bit (a * 256 + unat b) n \<longleftrightarrow> bit (unat b) n" using True bit_take_bit_iff [of 8 "a * 256 + unat b" n] by simp
  then show ?thesis using True by (simp add: bit_unsigned_iff)
next
  case False
  then obtain k where n: "n = 8 + k" using le_Suc_ex not_less by blast
  have "drop_bit 8 (a * 256 + unat b) = a" using unat_less_pow [of b] by (simp add: drop_bit_eq_div)
  then have "bit a k \<longleftrightarrow> bit (a * 256 + unat b) n" using bit_drop_bit_eq [of 8 "a * 256 + unat b"] n by (metis comp_apply)
  then show ?thesis using False n by simp
qed

lemma bit_be_nat: "bit (be_nat bs) n \<longleftrightarrow> n div 8 < length bs \<and> bit (bs ! (length bs - 1 - n div 8)) (n mod 8)"
proof (induction bs arbitrary: n rule: rev_induct)
  case Nil
  then show ?case by simp
next
  case (snoc b bs)
  show ?case
  proof (cases "n < 8")
    case True
    then show ?thesis by (simp only: be_nat_snoc bit_shift_add) (simp add: nth_append)
  next
    case False
    then obtain k where k: "n = k + 8" using le_Suc_ex not_less by (metis add.commute)
    have "bit (be_nat (bs @ [b])) n \<longleftrightarrow> k div 8 < length bs \<and> bit (bs ! (length bs - 1 - k div 8)) (k mod 8)"
      unfolding be_nat_snoc bit_shift_add snoc.IH using k by simp
    moreover have "n div 8 = Suc (k div 8)" using k by simp
    ultimately show ?thesis using k by (auto simp: nth_append)
  qed
qed

lemma bit_Uint64:
  assumes "length bs = 8"
  shows "bit (Uint64 bs) n \<longleftrightarrow> n < 64 \<and> bit (bs ! (7 - n div 8)) (n mod 8)"
  using assms by (auto simp: Uint64_def bit_of_nat_iff bit_be_nat)

lemma Uint64_xor:
  assumes "length a = 8" "length b = 8"
  shows "Uint64 (map2 (XOR) a b) = Uint64 a XOR Uint64 b"
  by (rule bit_eqI) (use assms in \<open>auto simp: bit_Uint64 bit_xor_iff\<close>)

lemma be_bytes_snoc: "be_bytes (Suc n) v = be_bytes n (v div 256) @ [word_of_nat v]"
  by (induction n arbitrary: v) (simp_all add: div_mult2_eq)

lemma addLoop_sum:
  assumes "i \<le> length l" "i \<le> length r" "i \<le> length out"
  shows "addLoop i (int c) l r out = be_bytes i (be_nat (take i l) + be_nat (take i r) + c) @ drop i out"
  using assms
proof (induction i arbitrary: c out)
  case 0
  then show ?case by simp
next
  case (Suc i)
  let ?s = "unat (l ! i) + unat (r ! i) + c"
  have s: "uint (l ! i AND 0xff) + uint (r ! i AND 0xff) + int c = int ?s"
  proof -
    have "x AND 0xff = x" for x :: byte proof -
      have "(0xff :: byte) = - 1" by simp
      then show ?thesis by (simp only: and.right_neutral)
    qed
    then show ?thesis by (simp only: uint_nat of_nat_add)
  qed
  let ?t = "be_nat (take i l) + be_nat (take i r)"
  have t: "be_nat (take (Suc i) l) + be_nat (take (Suc i) r) + c = ?t * 256 + ?s"
    using Suc.prems by (simp add: take_Suc_conv_app_nth be_nat_snoc)
  have "addLoop (Suc i) (int c) l r out = addLoop i (int (?s div 256)) l r (out[i := word_of_nat ?s])"
    unfolding addLoop.simps Let_def s by (simp add: drop_bit_eq_div zdiv_int)
  also have "\<dots> = be_bytes i (?t + ?s div 256) @ word_of_nat ?s # drop (Suc i) out"
    using Suc by (simp add: Cons_nth_drop_Suc [symmetric])
  also have "?t + ?s div 256 = (?t * 256 + ?s) div 256" by simp
  finally have "addLoop (Suc i) (int c) l r out = be_bytes i ((?t * 256 + ?s) div 256) @ word_of_nat ?s # drop (Suc i) out" .
  moreover have "(word_of_nat ?s :: byte) = word_of_nat (?t * 256 + ?s)"
    by (rule word_unat_eq_iff [THEN iffD2]) (simp only: unat_byte_of_nat mod_mult_self3)
  ultimately show ?case unfolding t be_bytes_snoc by simp
qed

lemma addBytes_words:
  assumes "length l = 8" "length r = 8" "length out = 8"
  shows "addBytes l r out = Inr (bytesU64 (Uint64 l + Uint64 r))"
proof -
  have "addLoop 8 0 l r out = be_bytes 8 (be_nat l + be_nat r)" using addLoop_sum [of 8 l r out 0] assms by simp
  also have "\<dots> = bytesU64 (Uint64 l + Uint64 r)"
    unfolding bytesU64_def Uint64_def using assms be_bytes_mod [of 8 "be_nat l + be_nat r"]
    by (simp add: unat_of_nat flip: of_nat_add)
  finally show ?thesis using assms by (simp add: addBytes_def)
qed

lemma shiftLoop_nth:
  "length (shiftLoop i bs) = length bs \<and>
   (\<forall>k < length bs. 7 < length bs \<longrightarrow> shiftLoop i bs ! k =
     (if i \<le> k \<and> k < 7 then push_bit 1 (bs ! k) OR drop_bit 7 (bs ! Suc k AND 0x80) else bs ! k))"
proof (induction i bs rule: shiftLoop.induct)
  case (1 i bs)
  show ?case
  proof (cases "i < 7")
    case True
    show ?thesis using 1 [OF True] unfolding shiftLoop.simps [of i bs] using True by (auto simp: nth_list_update)
  qed (auto simp: shiftLoop.simps [of i])
qed

section \<open>The algorithm on 64-bit numbers\<close>

text \<open>
  What the theorems use of the \<open>crypto\<close> packages: an 8-byte key is accepted, a DES block is 8 bytes,
  a SHA-1 sum 20 and a SHA-512 sum 64.
\<close>

definition des_key :: "u64 \<Rightarrow> u64" where
  "des_key w = push_bit 1 (w XOR 0x5555555555555555)"

definition des_word :: "crypto \<Rightarrow> u64 \<Rightarrow> u64 \<Rightarrow> u64" where
  "des_word cy k d = Uint64 (case cyDES cy (bytesU64 k) of Inl _ \<Rightarrow> [] | Inr encrypt \<Rightarrow> encrypt (bytesU64 d))"

definition crypto_sizes :: "crypto \<Rightarrow> bool" where
  "crypto_sizes cy \<longleftrightarrow>
     (\<forall>key. length key = 8 \<longrightarrow> (\<exists>encrypt. cyDES cy key = Inr encrypt \<and> (\<forall>d. length d = 8 \<longrightarrow> length (encrypt d) = 8))) \<and>
     (\<forall>d. length (cySHA1 cy d) = 20) \<and> (\<forall>d. length (cySHA512 cy d) = 64)"

lemma Uint64_take: "Uint64 (take 8 b) = Uint64 b"
  by (simp add: Uint64_def)

lemma desEncrypt8_words:
  assumes "crypto_sizes cy" "8 \<le> length key" "8 \<le> length data"
  shows "desEncrypt8 cy key data = Inr (bytesU64 (des_word cy (Uint64 key) (Uint64 data)))"
proof -
  have b: "bytesU64 (Uint64 key) = take 8 key" "bytesU64 (Uint64 data) = take 8 data"
    using assms(2,3) bytesU64_Uint64 [of "take 8 key"] bytesU64_Uint64 [of "take 8 data"] by (simp_all add: Uint64_take)
  obtain encrypt where e: "cyDES cy (take 8 key) = Inr encrypt" "\<And>d. length d = 8 \<Longrightarrow> length (encrypt d) = 8"
    using assms(1,2) unfolding crypto_sizes_def by (metis length_take min.absorb2)
  have "length (encrypt (take 8 data)) = 8" using e(2) assms(3) by simp
  then show ?thesis using assms(2,3) e(1) by (simp add: desEncrypt8_def des_word_def b bytesU64_Uint64)
qed

lemma bit_0x55: "bit (0x5555555555555555 :: u64) n \<longleftrightarrow> n < 64 \<and> bit (0x55 :: byte) (n mod 8)"
proof (cases "n < 64")
  case True
  have "list_all (\<lambda>n. bit (0x5555555555555555 :: u64) n \<longleftrightarrow> bit (0x55 :: byte) (n mod 8)) [0..<64]"
    by code_simp
  then show ?thesis using True by (simp add: list_all_iff)
qed (simp add: bit_word_def)

lemma bit_shifted:
  fixes x y :: byte
  shows "bit (push_bit 1 x OR (if c then drop_bit 7 (y AND 0x80) else 0)) m \<longleftrightarrow>
    (if m = 0 then c \<and> bit y 7 else m < 8 \<and> bit x (m - 1))"
proof (cases m)
  case 0
  have "bit (0x80 :: byte) 7" by simp
  then show ?thesis using 0 unfolding bit_or_iff bit_push_bit_iff by (simp add: bit_drop_bit_eq bit_and_iff del: push_bit_of_1)
next
  case (Suc k)
  have "\<not> bit (drop_bit 7 (y AND 0x80)) (Suc k)" by (auto simp: bit_drop_bit_eq bit_and_iff dest: bit_imp_le_length)
  then show ?thesis using Suc unfolding bit_or_iff bit_push_bit_iff by simp
qed

lemma xorWith0x55AndLshift_word:
  assumes "8 \<le> length bs"
  shows "\<exists>key. xorWith0x55AndLshift bs = Inr key \<and> length key = length bs \<and> Uint64 key = des_key (Uint64 bs)"
proof -
  let ?b1 = "map (\<lambda>x. x XOR 0x55) (take 8 bs) @ drop 8 bs"
  let ?b2 = "shiftLoop 0 ?b1"
  let ?k = "?b2[7 := push_bit 1 (?b2 ! 7)]"
  have l: "length ?b2 = length bs" using shiftLoop_nth [of 0 ?b1] assms by simp
  have nth: "?k ! j = push_bit 1 (bs ! j XOR 0x55) OR (if j < 7 then drop_bit 7 ((bs ! Suc j XOR 0x55) AND 0x80) else 0)" if "j < 8" for j
    using shiftLoop_nth [of 0 ?b1] assms that l by (cases "j = 7") (simp_all add: nth_append)
  have key: "Uint64 ?k = des_key (Uint64 bs)"
  proof (rule bit_eqI)
    fix n
    assume "possible_bit TYPE(u64) n"
    then have n: "n < 64" by simp
    let ?j = "7 - n div 8"
    have "bit (Uint64 ?k) n \<longleftrightarrow> bit (?k ! ?j) (n mod 8)"
      using bit_Uint64 [of "take 8 ?k" n] n assms l by (simp add: Uint64_take)
    also have "\<dots> \<longleftrightarrow> (if n mod 8 = 0 then ?j < 7 \<and> bit (bs ! Suc ?j XOR 0x55) 7 else bit (bs ! ?j XOR 0x55) (n mod 8 - 1))"
    proof -
      have "?j < 8" "n mod 8 < 8" by simp_all
      then show ?thesis by (simp only: nth bit_shifted simp_thms)
    qed
    also have "\<dots> \<longleftrightarrow> n \<noteq> 0 \<and> bit (bs ! (7 - (n - 1) div 8) XOR 0x55) ((n - 1) mod 8)"
    proof (cases "n mod 8")
      case 0
      then obtain q where q: "n = 8 * q" by (metis mult_div_mod_eq add.right_neutral)
      show ?thesis
      proof (cases q)
        case (Suc p)
        then have "(n - 1) div 8 = p" "(n - 1) mod 8 = 7" "?j = 6 - p" "p < 7" using q n by auto
        moreover have "Suc (6 - p) = 7 - p" "6 - p < 7" using \<open>p < 7\<close> by simp_all
        ultimately show ?thesis using Suc q by simp
      qed (use q in simp)
    next
      case (Suc m)
      moreover have "m < 7" using Suc mod_less_divisor [of 8 n] by simp
      moreover have "n - 1 = 8 * (n div 8) + m" using Suc mult_div_mod_eq [of 8 n] by simp
      ultimately have "(n - 1) div 8 = n div 8" "(n - 1) mod 8 = m" "n \<noteq> 0" by auto
      then show ?thesis using Suc by simp
    qed
    also have "\<dots> \<longleftrightarrow> bit (des_key (Uint64 bs)) n"
      unfolding des_key_def bit_push_bit_iff bit_xor_iff bit_0x55
      using bit_Uint64 [of "take 8 bs" "n - 1"] n assms by (auto simp: Uint64_take)
    finally show "bit (Uint64 ?k) n \<longleftrightarrow> bit (des_key (Uint64 bs)) n" .
  qed
  have "xorWith0x55AndLshift bs = Inr ?k" using assms by (cases bs) (simp_all add: xorWith0x55AndLshift_def Let_def)
  then show ?thesis using key l by simp
qed

text \<open>Two bits of the last two bytes go to the top of each of the first eight.\<close>

definition fold_tail :: "u16 \<Rightarrow> u64" where
  "fold_tail t = foldr (XOR) (map (\<lambda>i. push_bit (62 - 8 * i) (ucast (take_bit 2 (drop_bit (14 - 2 * i) t)))) [0..<8]) 0"

lemma bit_fold_tail:
  "bit (fold_tail t) n \<longleftrightarrow> n < 64 \<and> 6 \<le> n mod 8 \<and> bit t (2 * (n div 8) + (n mod 8 - 6))"
proof (cases "n < 64")
  case True
  let ?f = "\<lambda>i. bit (push_bit (62 - 8 * i) (ucast (take_bit 2 (drop_bit (14 - 2 * i) t)) :: u64)) n"
  have f: "?f i \<longleftrightarrow> i = 7 - n div 8 \<and> 6 \<le> n mod 8 \<and> bit t (2 * (n div 8) + (n mod 8 - 6))" if "i < 8" for i
  proof -
    obtain q r where n: "n = 8 * q + r" "r < 8" "q < 8" "n div 8 = q" "n mod 8 = r"
    proof -
      have "n = 8 * (n div 8) + n mod 8" "n mod 8 < 8" "n div 8 < 8" using True by simp_all
      then show thesis using that [of "n div 8" "n mod 8"] by simp
    qed
    have "?f i \<longleftrightarrow> 62 - 8 * i \<le> n \<and> n - (62 - 8 * i) < 2 \<and> bit t (14 - 2 * i + (n - (62 - 8 * i)))"
      using True by (auto simp: bit_push_bit_iff bit_ucast_iff bit_take_bit_iff bit_drop_bit_eq)
    also have "\<dots> \<longleftrightarrow> i = 7 - q \<and> 6 \<le> r \<and> bit t (2 * q + (r - 6))"
    proof -
      obtain p where p: "i = 7 - p" "p < 8" "62 - 8 * i = 8 * p + 6" "14 - 2 * i = 2 * p" 
      proof -
        have "62 - 8 * i = 8 * (7 - i) + 6" "14 - 2 * i = 2 * (7 - i)" using \<open>i < 8\<close> by arith+
        then show thesis using \<open>i < 8\<close> by (intro that [of "7 - i"]) auto
      qed
      have "8 * p + 6 \<le> n \<and> n - (8 * p + 6) < 2 \<longleftrightarrow> p = q \<and> 6 \<le> r" using n(1-3) p(2) by arith
      moreover have "i = 7 - q \<longleftrightarrow> p = q" using n(3) p(1,2) by auto
      moreover have "p = q \<Longrightarrow> n - (8 * p + 6) = r - 6" using n(1) by simp
      ultimately show ?thesis unfolding p(3,4) by auto
    qed
    finally show ?thesis using n by simp
  qed
  define F where "F i = ?f i" for i
  define P where "P \<longleftrightarrow> 6 \<le> n mod 8 \<and> bit t (2 * (n div 8) + (n mod 8 - 6))"
  have F: "F i \<longleftrightarrow> i = 7 - n div 8 \<and> P" if "i < 8" for i unfolding F_def P_def by (rule f [OF that])
  have "n div 8 \<in> {0,1,2,3,4,5,6,7}" using True by auto
  then have "7 - n div 8 \<in> {0,1,2,3,4,5,6,7}" by auto
  moreover have "bit (fold_tail t) n \<longleftrightarrow> (F 0 \<noteq> (F 1 \<noteq> (F 2 \<noteq> (F 3 \<noteq> (F 4 \<noteq> (F 5 \<noteq> (F 6 \<noteq> F 7)))))))"
    by (simp add: F_def fold_tail_def bit_xor_iff upt_conv_Cons)
  ultimately have "bit (fold_tail t) n \<longleftrightarrow> P" unfolding insert_iff empty_iff by (elim disjE) (simp_all add: F)
  then show ?thesis using True by (simp only: P_def simp_thms)
qed (simp add: bit_word_def)

lemma bit_Uint16:
  assumes "length bs = 2"
  shows "bit (Uint16 bs) n \<longleftrightarrow> n < 16 \<and> bit (bs ! (1 - n div 8)) (n mod 8)"
  using assms by (auto simp: Uint16_def bit_of_nat_iff bit_be_nat)

lemma bit_top_pair:
  fixes x :: byte
  shows "bit (x AND 0xC0) m \<longleftrightarrow> 6 \<le> m \<and> bit x m"
    and "k \<le> 6 \<Longrightarrow> bit (push_bit k x AND 0xC0) m \<longleftrightarrow> 6 \<le> m \<and> m < 8 \<and> bit x (m - k)"
proof -
  have c: "bit (0xC0 :: byte) m \<longleftrightarrow> m = 6 \<or> m = 7"
  proof (cases "m < 8")
    case True
    have "list_all (\<lambda>m. bit (0xC0 :: byte) m \<longleftrightarrow> m = 6 \<or> m = 7) [0..<8]" by code_simp
    then show ?thesis using True by (simp only: list_all_iff set_upt) auto
  qed (auto dest: bit_imp_le_length)
  show "bit (x AND 0xC0) m \<longleftrightarrow> 6 \<le> m \<and> bit x m" unfolding bit_and_iff c by (auto dest: bit_imp_le_length)
  show "bit (push_bit k x AND 0xC0) m \<longleftrightarrow> 6 \<le> m \<and> m < 8 \<and> bit x (m - k)" if "k \<le> 6"
    unfolding bit_and_iff bit_push_bit_iff c using that by auto
qed

lemma foldUserID_word:
  assumes "length w = 10"
  shows "Uint64 (foldUserID w) = Uint64 w XOR fold_tail (Uint16 (drop 8 w))"
proof (rule bit_eqI)
  fix n
  assume "possible_bit TYPE(u64) n"
  then have n: "n < 64" by simp
  have q: "n div 8 \<in> {0,1,2,3,4,5,6,7}" "n mod 8 < 8" using n by auto
  have "bit (Uint64 (foldUserID w)) n \<longleftrightarrow> bit (foldUserID w ! (7 - n div 8)) (n mod 8)"
    using bit_Uint64 [of "take 8 (foldUserID w)" n] n assms by (simp add: Uint64_take foldUserID_def)
  also have "\<dots> \<longleftrightarrow> (bit (w ! (7 - n div 8)) (n mod 8) \<noteq>
      (6 \<le> n mod 8 \<and> bit (w ! (if n div 8 < 4 then 9 else 8)) (n mod 8 - (6 - 2 * (n div 8 mod 4)))))"
    using q assms unfolding foldUserID_def insert_iff empty_iff
    by (elim disjE) (auto simp: bit_xor_iff bit_top_pair bit_push_bit_iff)
  also have "\<dots> \<longleftrightarrow> bit (Uint64 w XOR fold_tail (Uint16 (drop 8 w))) n"
  proof -
    have "bit (Uint16 (drop 8 w)) (2 * (n div 8) + (n mod 8 - 6)) \<longleftrightarrow>
        bit (w ! (if n div 8 < 4 then 9 else 8)) (n mod 8 - (6 - 2 * (n div 8 mod 4)))" if "6 \<le> n mod 8"
    proof -
      have "n mod 8 = 6 \<or> n mod 8 = 7" using that q(2) by auto
      then show ?thesis using q(1) assms unfolding insert_iff empty_iff by (elim disjE) (simp_all add: bit_Uint16)
    qed
    then show ?thesis using bit_Uint64 [of "take 8 w" n] n assms by (auto simp: bit_xor_iff bit_fold_tail Uint64_take)
  qed
  finally show "bit (Uint64 (foldUserID w)) n \<longleftrightarrow> bit (Uint64 w XOR fold_tail (Uint16 (drop 8 w))) n" .
qed

definition user_block :: "bytes \<Rightarrow> u64" where
  "user_block userID =
     (if ebcdicStrLen userID 10 > 8 then Uint64 userID XOR fold_tail (Uint16 (drop 8 userID)) else Uint64 userID)"

text \<open>Bytes \<open>i\<close> to \<open>j\<close> of the password in a block of blanks.\<close>

definition blank_block :: "bytes \<Rightarrow> u64" where
  "blank_block b = Uint64 (b @ replicate (8 - length b) 0x40)"

definition des_token :: "(u64 \<Rightarrow> u64 \<Rightarrow> u64) \<Rightarrow> bytes \<Rightarrow> bytes \<Rightarrow> u64" where
  "des_token E userID password =
     (let len = ebcdicStrLen password 10; block = (\<lambda>b. E (des_key (blank_block b)) (user_block userID)) in
      if len > 8 then block (take 8 password) XOR block (slice 8 len password) else block (take len password))"

definition des_substitute :: "(u64 \<Rightarrow> u64 \<Rightarrow> u64) \<Rightarrow> u64 \<Rightarrow> u64 \<Rightarrow> u64 \<Rightarrow> u64 \<Rightarrow> u64 \<Rightarrow> u64 \<Rightarrow> u64" where
  "des_substitute E token id1 id2 sequence clientSeed serverSeed =
     (let r = sequence + serverSeed;
          verifier = E token (E token r XOR clientSeed);
          a = E token (id1 XOR r XOR verifier);
          b = E token (r XOR id2 XOR a) in
      E token (sequence XOR b))"

lemma ebcdicStrLen_le: "ebcdicStrLen bs n \<le> length bs \<and> ebcdicStrLen bs n \<le> n"
  by (induction bs n rule: ebcdicStrLen.induct) auto

lemma xorBytes_words:
  assumes "length a = 8" "length b = 8" "length out = 8"
  shows "xorBytes a b out = bytesU64 (Uint64 a XOR Uint64 b)"
  using assms bytesU64_Uint64 [of "map2 (XOR) a b"] by (simp add: xorBytes_def Uint64_xor)

lemma blanks_block:
  assumes "length b \<le> 8"
  shows "\<exists>key. xorWith0x55AndLshift (copy_into blanks10 b) = Inr key \<and> 8 \<le> length key \<and> Uint64 key = des_key (blank_block b)"
proof -
  have "replicate (10 - length b) x = replicate (8 - length b) x @ [x, x]" for x :: byte
    using assms by (simp add: replicate_append_same [symmetric] eval_nat_numeral Suc_diff_le)
  then have "Uint64 (copy_into blanks10 b) = blank_block b"
    using assms by (simp add: Uint64_def copy_into_def blanks10_def blank_block_def)
  moreover have "length (copy_into blanks10 b) = 10" by (simp add: blanks10_def)
  ultimately show ?thesis using xorWith0x55AndLshift_word [of "copy_into blanks10 b"] by auto
qed

lemma generateToken_words:
  assumes "crypto_sizes cy" "length userID = 10" "length password = 10"
  shows "generateToken cy userID password = Inr (bytesU64 (des_token (des_word cy) userID password))"
proof -
  let ?len = "ebcdicStrLen password 10"
  define w where "w = (if ebcdicStrLen userID 10 > 8 then foldUserID userID else userID)"
  have w: "Uint64 w = user_block userID" "8 \<le> length w"
    using assms(2) by (simp_all add: w_def user_block_def foldUserID_word) (simp add: foldUserID_def)
  have enc: "\<exists>key. xorWith0x55AndLshift (copy_into blanks10 b) = Inr key \<and>
      desEncrypt8 cy key (take 8 w) = Inr (bytesU64 (des_word cy (des_key (blank_block b)) (user_block userID)))"
    if "length b \<le> 8" for b
    using blanks_block [OF that] desEncrypt8_words [OF assms(1), of _ "take 8 w"] w
    by (fastforce simp: Uint64_take)
  have len: "?len \<le> 10" using ebcdicStrLen_le [of password 10] by simp
  have "copy_into (replicate 10 0) userID = userID" using assms(2) by simp
  then have g: "generateToken cy userID password =
      (if ?len > 8 then
         res_bind (xorWith0x55AndLshift (copy_into blanks10 (take 8 password))) (\<lambda>work2.
         res_bind (desEncrypt8 cy work2 (take 8 w)) (\<lambda>enc1.
         res_bind (xorWith0x55AndLshift (copy_into blanks10 (slice 8 ?len password))) (\<lambda>work3.
         res_bind (desEncrypt8 cy work3 (take 8 w)) (\<lambda>enc2. Inr (xorBytes enc1 enc2 (replicate 8 0))))))
       else
         res_bind (xorWith0x55AndLshift (copy_into blanks10 (take ?len password))) (\<lambda>work2.
         res_bind (desEncrypt8 cy work2 (take 8 w)) (\<lambda>enc. Inr (copy_into (replicate 8 0) enc))))"
    using assms(2) by (simp add: generateToken_def Let_def maxUserIDLength_def w_def)
  show ?thesis
  proof (cases "?len > 8")
    case True
    have "length (take 8 password) \<le> 8" "length (slice 8 ?len password) \<le> 8" using len assms(3) by simp_all
    from enc [OF this(1)] enc [OF this(2)] show ?thesis using True by (auto simp: g des_token_def xorBytes_words)
  next
    case False
    have "length (take ?len password) \<le> 8" using False by simp
    from enc [OF this] show ?thesis using False by (auto simp: g des_token_def)
  qed
qed

lemma encryptPasswordDES_words:
  assumes "crypto_sizes cy" "length userID = 10" "length password = 10" "8 \<le> length clientSeed" "8 \<le> length serverSeed"
  shows "encryptPasswordDES cy userID password clientSeed serverSeed =
    Inr (bytesU64 (des_substitute (des_word cy) (des_token (des_word cy) userID password)
      (Uint64 userID) (blank_block (drop 8 userID)) 1 (Uint64 clientSeed) (Uint64 serverSeed)))"
proof -
  have b: "(replicate 8 0x40)[0 := userID ! 8, Suc 0 := userID ! 9] = drop 8 userID @ replicate 6 0x40"
  proof -
    have "drop 8 userID = [userID ! 8, userID ! 9]" using assms(2) by (intro nth_equalityI) (auto simp: less_Suc_eq numeral_eq_Suc)
    then show ?thesis by (simp add: numeral_eq_Suc)
  qed
  have one: "Uint64 [0, 0, 0, 0, 0, 0, 0, 1] = 1" by (simp add: Uint64_def)
  show ?thesis
    using assms by (simp add: encryptPasswordDES_def generateToken_words generatePasswordSubstitute_def b maxUserIDLength_def
      addBytes_words desEncrypt8_words xorBytes_words des_substitute_def Let_def one Uint64_take blank_block_def xor.assoc)
qed

text \<open>The size of a substitute and its scheme byte, by password level.\<close>

definition substitute_kind :: "int \<Rightarrow> nat \<times> byte" where
  "substitute_kind level = (if level < 2 then (8, 1) else if level < 4 then (20, 3) else (64, 7))"

lemma substitute_announced:
  assumes "crypto_sizes cy" "passwordSubstitute fs ct cy user password level clientSeed serverSeed = Inr s"
  shows "length s = fst (substitute_kind level)" "passwordAuthScheme (length s) = snd (substitute_kind level)"
proof -
  have c: "8 \<le> length clientSeed" "8 \<le> length serverSeed"
    using assms(2) by (auto simp: passwordSubstitute_def split: if_splits)
  show l: "length s = fst (substitute_kind level)"
  proof (cases "level < 2")
    case True
    then obtain ub pb where "encryptPasswordDES cy ub pb clientSeed serverSeed = Inr s" "length ub = 10" "length pb = 10"
      using assms(2) by (auto simp: passwordSubstitute_def desPasswordSubstitute_def Let_def EncodeEBCDIC37BlankPad_def
        maxUserIDLength_def maxPasswordLengthDES_def res_simps split: if_splits)
    with encryptPasswordDES_words [OF assms(1) this(2,3) c] show ?thesis using True by (auto simp: substitute_kind_def)
  next
    case False
    have sizes: "length (cySHA1 cy d) = 20" "length (cySHA512 cy d) = 64" for d using assms(1) by (simp_all add: crypto_sizes_def)
    show ?thesis using False assms(2)
      by (auto simp: passwordSubstitute_def sha1PasswordSubstitute_def sha512PasswordSubstitute_def encryptPasswordSHA_def sizes
        sha512Substitute_def Let_def res_simps substitute_kind_def split: if_splits)
  qed
  show "passwordAuthScheme (length s) = snd (substitute_kind level)"
    unfolding l by (simp add: substitute_kind_def passwordAuthScheme_def passwordSubstituteDES_def passwordSubstituteSHA_def)
qed

section \<open>Properties\<close>

text \<open>
  C20. The DES substitute for password levels 0 and 1 is the published one: with blocks of 8 bytes as
  big-endian 64-bit numbers, the key is the password block exclusive-or 55...55 shifted left by one,
  the token is the user id enciphered with it (the last two characters of a long user id are folded
  in; a password of 9 or 10 characters gives two keys whose results are combined), and the
  substitute is the chain of five encryptions over the sequence number plus the server seed, the
  client seed and the two blocks of the user id. The byte loops with their carries and shifts, the
  buffers they overwrite and the length checks add nothing to it, and the result is never an error.
\<close>

theorem des_substitute_words:
  assumes "crypto_sizes cy" "length userID = 10" "length password = 10" "8 \<le> length clientSeed" "8 \<le> length serverSeed"
  shows "encryptPasswordDES cy userID password clientSeed serverSeed =
    Inr (bytesU64 (des_substitute (des_word cy) (des_token (des_word cy) userID password)
      (Uint64 userID) (blank_block (drop 8 userID)) 1 (Uint64 clientSeed) (Uint64 serverSeed)))"
  by (rule encryptPasswordDES_words [OF assms])

definition padCipher :: crypto where
  "padCipher = \<lparr>cyDES = (\<lambda>key. Inr (\<lambda>d. map2 (XOR) key d)), cySHA1 = (\<lambda>d. replicate 20 0), cySHA256 = (\<lambda>d. replicate 32 0),
     cySHA512 = (\<lambda>d. replicate 64 0), cyPBKDF2 = (\<lambda>p s n k. Inr (replicate k 0))\<rparr>"

lemma padCipher_sizes: "crypto_sizes padCipher"
  by (simp add: crypto_sizes_def padCipher_def)

theorem des_substitute_words_witness:
  "encryptPasswordDES padCipher (replicate 10 0xC1) (replicate 9 0xC2 @ [0x40]) (replicate 8 1) (replicate 8 0xFF) =
    Inr (bytesU64 (des_substitute (des_word padCipher) (des_token (des_word padCipher) (replicate 10 0xC1) (replicate 9 0xC2 @ [0x40]))
      (Uint64 (replicate 10 0xC1)) (blank_block (drop 8 (replicate 10 0xC1))) 1 (Uint64 (replicate 8 1)) (Uint64 (replicate 8 0xFF))))"
  by (rule des_substitute_words [OF padCipher_sizes]) simp_all

end
