(* ===== verification/Connect.thy ===== *)
theory Connect
  imports Password
begin

text \<open>
  Opening a connection (\<open>src/transport.go\<close>, \<open>src/portmapper.go\<close>, \<open>src/signon.go\<close>, \<open>src/dbconn.go\<close>
  and \<open>openConn\<close> of \<open>src/driver.go\<close>): dialling with the socket options and TLS, the port mapper,
  the exchange with the sign-on server, and the four exchanges that start the database server; and
  the cancel request over a second connection.

  The sockets are a store: a \<open>net.Conn\<close> is its index, \<open>Close\<close> marks it. So a socket that is opened and
  not closed is visible in the final state. What the network does is a parameter (\<open>network\<close>): the
  outcome of a dial, of a socket option and of a TLS handshake, each at the time it happens, the
  wall clock and \<open>context.WithTimeout\<close>. Deadlines (\<open>SetDeadline\<close>, \<open>socketTimeoutConn\<close>) only decide
  whether a read or write fails, which the contents of a socket leave open.
\<close>

section \<open>Definitions\<close>

subsection \<open>Sockets\<close>

record hostConn =
  hcIn :: conn_in
  hcWrites :: "bool list"
  hcWriteErr :: go_error
  hcSent :: "bytes list"
  hcClosed :: bool

record Dialer =
  dlTimeout :: int
  dlKeepAlive :: int

datatype socketOption = SetNoDelay bool | SetReadBuffer int | SetWriteBuffer int

record network =
  nwDial :: "nat \<Rightarrow> Dialer \<Rightarrow> string \<Rightarrow> hostConn res"
  nwOption :: "nat \<Rightarrow> socketOption \<Rightarrow> go_error option"
  nwHandshake :: "nat \<Rightarrow> string \<Rightarrow> go_error option"
  nwMillis :: "nat \<Rightarrow> u64"
  nwWithTimeout :: "int \<Rightarrow> go_ctx \<Rightarrow> go_ctx"

record world =
  wdSockets :: "hostConn list"
  wdClock :: nat

type_synonym 'a net = "(world, 'a) step"

definition tick :: "world \<Rightarrow> world" where
  "tick w = w\<lparr>wdClock := Suc (wdClock w)\<rparr>"

definition setSocket :: "nat \<Rightarrow> hostConn \<Rightarrow> world \<Rightarrow> world" where
  "setSocket k s w = tick (w\<lparr>wdSockets := (wdSockets w)[k := s]\<rparr>)"

definition connClosed :: "nat \<Rightarrow> world \<Rightarrow> world" where
  "connClosed k w = setSocket k ((wdSockets w ! k)\<lparr>hcClosed := True\<rparr>) w"

definition netClose :: "nat \<Rightarrow> unit net" where
  "netClose k = act_modify (connClosed k)"

definition connWrite :: "nat \<Rightarrow> bytes \<Rightarrow> unit net" where
  "connWrite k p w =
     (let s = wdSockets w ! k in
      case hcWrites s of
        True # ws \<Rightarrow> (Inl (hcWriteErr s), setSocket k (s\<lparr>hcWrites := ws\<rparr>) w)
      | _ \<Rightarrow> (Inr (), setSocket k (s\<lparr>hcWrites := tl (hcWrites s), hcSent := hcSent s @ [p]\<rparr>) w))"

definition connRead :: "nat \<Rightarrow> (conn_in \<Rightarrow> 'a res \<times> conn_in) \<Rightarrow> 'a net" where
  "connRead k f w =
     (let s = wdSockets w ! k in case f (hcIn s) of (r, i) \<Rightarrow> (r, setSocket k (s\<lparr>hcIn := i\<rparr>) w))"

text \<open>\<open>net.JoinHostPort\<close>: a host with a colon is put in brackets.\<close>

definition JoinHostPort :: "string \<Rightarrow> string \<Rightarrow> string" where
  "JoinHostPort host port =
     (if CHR '':'' \<in> set host then ''['' @ host @ '']:'' @ port else host @ '':'' @ port)"

subsection \<open>Dialling\<close>

text \<open>A socket that was just dialled is open and nothing was sent on it.\<close>

definition dialContext :: "network \<Rightarrow> Dialer \<Rightarrow> string \<Rightarrow> nat net" where
  "dialContext nw d address w =
     (case nwDial nw (wdClock w) d address of
        Inl e \<Rightarrow> (Inl e, tick w)
      | Inr s \<Rightarrow> (Inr (length (wdSockets w)), tick (w\<lparr>wdSockets := wdSockets w @ [s\<lparr>hcSent := [], hcClosed := False\<rparr>]\<rparr>)))"

definition wireError :: "string \<Rightarrow> go_error \<Rightarrow> go_error" where
  "wireError operation e = TransportError operation (Wrap ErrConnection ''%v'' [FErr e])"

definition socketOptions :: "Config \<Rightarrow> (string \<times> socketOption) list" where
  "socketOptions cfg =
     (case cfgTCPNoDelay cfg of None \<Rightarrow> [] | Some b \<Rightarrow> [(''tcpNoDelay'', SetNoDelay b)]) @
     (if cfgReceiveBufferSize cfg > 0 then [(''receiveBufferSize'', SetReadBuffer (cfgReceiveBufferSize cfg))] else []) @
     (if cfgSendBufferSize cfg > 0 then [(''sendBufferSize'', SetWriteBuffer (cfgSendBufferSize cfg))] else [])"

fun applyOptions :: "network \<Rightarrow> (string \<times> socketOption) list \<Rightarrow> unit net" where
  "applyOptions nw [] w = (Inr (), w)"
| "applyOptions nw ((name, opt) # opts) w =
     (case nwOption nw (wdClock w) opt of
        Some e \<Rightarrow> (Inl (wireError (''socket option '' @ name) e), tick w)
      | None \<Rightarrow> applyOptions nw opts (tick w))"

definition applySocketOptions :: "network \<Rightarrow> Config \<Rightarrow> unit net" where
  "applySocketOptions nw cfg = applyOptions nw (socketOptions cfg)"

definition hostDialer :: "Config \<Rightarrow> Dialer" where
  "hostDialer cfg =
     \<lparr>dlTimeout = (if cfgConnectTimeout cfg > 0 then cfgConnectTimeout cfg else 0),
      dlKeepAlive = (case cfgKeepAlive cfg of None \<Rightarrow> 0 | Some b \<Rightarrow> if b then 0 else -1)\<rparr>"

definition tlsServerName :: "Config \<Rightarrow> string" where
  "tlsServerName cfg =
     (case cfgTLSConfig cfg of None \<Rightarrow> cfgHost cfg | Some name \<Rightarrow> if name = [] then cfgHost cfg else name)"

definition handshake :: "network \<Rightarrow> Config \<Rightarrow> unit net" where
  "handshake nw cfg w =
     (case nwHandshake nw (wdClock w) (tlsServerName cfg) of
        Some e \<Rightarrow> (Inl (wireError ''TLS dial'' e), tick w)
      | None \<Rightarrow> (Inr (), tick w))"

text \<open>The clean-up of an error path: it runs when the body fails and does not change the error.\<close>

definition on_error :: "('s, 'a) step \<Rightarrow> ('s, unit) step \<Rightarrow> ('s, 'a) step" where
  "on_error m cleanup c = (case m c of (Inl e, c1) \<Rightarrow> (Inl e, snd (cleanup c1)) | (Inr x, c1) \<Rightarrow> (Inr x, c1))"

definition dialHostServer :: "network \<Rightarrow> Config \<Rightarrow> int \<Rightarrow> nat net" where
  "dialHostServer nw cfg port =
     (if port \<le> 0 then act_fail (Wrap ErrConnection ''invalid port %d'' [FInt port])
      else
        let address = JoinHostPort (cfgHost cfg) (show_int port) in
        act_bind (\<lambda>w. case dialContext nw (hostDialer cfg) address w of
            (Inl e, w1) \<Rightarrow> (Inl (wireError (if cfgUseTLS cfg then ''TLS dial'' else ''TCP dial'') e), w1)
          | (Inr raw, w1) \<Rightarrow> (Inr raw, w1)) (\<lambda>raw.
        act_bind (on_error (applySocketOptions nw cfg) (netClose raw)) (\<lambda>_.
        if cfgUseTLS cfg then act_bind (on_error (handshake nw cfg) (netClose raw)) (\<lambda>_. act_return raw)
        else act_return raw)))"

subsection \<open>The port mapper\<close>

definition portReply :: "nat \<Rightarrow> int net" where
  "portReply conn =
     act_bind (connRead conn (\<lambda>i. ReadFull i 1)) (\<lambda>prefix.
     if hd prefix \<noteq> 0x2B then act_fail (Errorf ''unexpected port mapper reply: %q'' [FInt (uint (hd prefix))])
     else
       act_bind (connRead conn (\<lambda>i. ReadFull i 4)) (\<lambda>portBuf.
       let port = uint (Uint32 portBuf) in
       if port \<le> 0 \<or> port > 65535 then act_fail (Errorf ''invalid port mapper reply: %d'' [FInt port])
       else act_return port))"

definition ResolvePort :: "network \<Rightarrow> string \<Rightarrow> string \<Rightarrow> int net" where
  "ResolvePort nw host service =
     (if TrimSpace host = [] then act_fail (Wrap ErrConnection ''host is required'' [])
      else if TrimSpace service = [] then act_fail (Wrap ErrConnection ''service is required'' [])
      else
        act_bind (dialContext nw \<lparr>dlTimeout = 0, dlKeepAlive = 0\<rparr> (JoinHostPort host ''449'')) (\<lambda>conn.
        act_defer (act_bind (connWrite conn (bytes_of_string service)) (\<lambda>_. portReply conn)) (netClose conn)))"

definition DefaultPort :: "Config \<Rightarrow> int" where
  "DefaultPort cfg = (if cfgUseTLS cfg then 9471 else 8471)"

definition DatabaseServiceName :: "Config \<Rightarrow> string" where
  "DatabaseServiceName cfg = (if cfgUseTLS cfg then ''as-database-s'' else ''as-database'')"

subsection \<open>Sign-on\<close>

definition SignonServerID :: u16 where "SignonServerID = 0xE009"
definition SignonPort :: int where "SignonPort = 8476"
definition SecureSignonPort :: int where "SecureSignonPort = 9476"
definition clientVersion :: u32 where "clientVersion = 1"
definition clientDataStreamLevel :: u16 where "clientDataStreamLevel = 2"
definition clientCCSID :: u32 where "clientCCSID = 1200"

definition signonError :: "int \<Rightarrow> go_error" where
  "signonError rc =
     (if rc = 0x20001 then Wrap ErrAuthentication ''user ID is not known'' []
      else if rc = 0x3000B then
        Wrap ErrAuthentication ''signon rejected by server (return code 0x3000B); the password may be incorrect'' []
      else if rc = 0x3000C then
        Wrap ErrAuthentication ''user profile will be revoked on next invalid password or passphrase'' []
      else if rc = 0x3000D then Wrap ErrAuthentication ''password is expired'' []
      else Wrap ErrAuthentication ''signon failed with return code 0x%x'' [FInt (uint (word_of_int rc :: u32))])"

definition signonUserBytes :: "tables \<Rightarrow> caseTables \<Rightarrow> string \<Rightarrow> int \<Rightarrow> bool \<Rightarrow> bytes res" where
  "signonUserBytes fs ct user level forEncryption =
     (if level \<ge> 2 \<and> forEncryption then Inr (EncodeUTF16BEBlankPad (ToUpperBy ct user) 20)
      else if length user > 10 then Inl (Errorf ''user too long'' [])
      else EncodeEBCDIC37BlankPad fs (ToUpperBy ct user) 10)"

text \<open>Write a request, read a packet, take its return code and payload.\<close>

definition simpleExchange :: "nat \<Rightarrow> bytes \<Rightarrow> u16 \<Rightarrow> (int \<times> bytes) net" where
  "simpleExchange conn request replyID =
     act_bind (connWrite conn request) (\<lambda>_.
     act_bind (connRead conn readPacket) (\<lambda>packet.
       act_res (readSimpleReplyForID packet replyID)))"

definition exchangeAttributesRequest :: "bytes \<Rightarrow> bytes" where
  "exchangeAttributesRequest clientSeed =
     buildHeader 52 0 SignonServerID 0 0x7003 @
     bytesU32 10 @ bytesU16 0x1101 @ bytesU32 clientVersion @
     bytesU32 8 @ bytesU16 0x1102 @ bytesU16 clientDataStreamLevel @
     bytesU32 14 @ bytesU16 0x1103 @ clientSeed"

definition exchangeParam :: "tables \<Rightarrow> u16 \<Rightarrow> bytes \<Rightarrow> SystemInfo \<times> bytes \<Rightarrow> SystemInfo \<times> bytes" where
  "exchangeParam fs cp cpPayload st =
     (case st of (info, serverSeed) \<Rightarrow>
        if cp = 0x1101 then
          (if 4 \<le> length cpPayload then (info\<lparr>syVersion := uint (Uint32 (take 4 cpPayload))\<rparr>, serverSeed) else st)
        else if cp = 0x1102 then
          (if 2 \<le> length cpPayload then (info\<lparr>syLevel := uint (Uint16 (take 2 cpPayload))\<rparr>, serverSeed) else st)
        else if cp = 0x1103 then
          (if 8 \<le> length cpPayload then (info, take 8 cpPayload) else st)
        else if cp = 0x1119 then
          (if 1 \<le> length cpPayload then (info\<lparr>syPasswordLevel := uint (hd cpPayload)\<rparr>, serverSeed) else st)
        else if cp = 0x111F then
          (if 4 \<le> length cpPayload
           then (case DecodeEBCDIC37 fs (drop 4 cpPayload) of
                   Inl _ \<Rightarrow> st | Inr jobName \<Rightarrow> (info\<lparr>syJobName := jobName\<rparr>, serverSeed))
           else st)
        else st)"

text \<open>The loop over the parameters of a simple reply: it stops when fewer than six bytes are left.\<close>

function paramLoop :: "(u16 \<Rightarrow> bytes \<Rightarrow> 's \<Rightarrow> 's) \<Rightarrow> bytes \<Rightarrow> 's \<Rightarrow> 's res" where
  "paramLoop f payload st =
     (if length payload < 6 then Inr st
      else case ParseLLCP payload of
        Inl e \<Rightarrow> Inl e
      | Inr (cp, cpPayload, rest) \<Rightarrow> paramLoop f rest (f cp cpPayload st))"
  by pat_completeness auto
termination by (relation "measure (\<lambda>(f, payload, st). length payload)") (auto dest: ParseLLCP_shorter)

declare paramLoop.simps [simp del]

definition newSystemInfo :: "string \<Rightarrow> SystemInfo" where
  "newSystemInfo system =
     \<lparr>syFunctionalLevel = 0, syJobIdentifier = [], syCCSID = 0, syVersion = 0, sySystem = system, syLevel = 0,
      syPasswordLevel = 0, syJobName = []\<rparr>"

definition signonExchange :: "tables \<Rightarrow> network \<Rightarrow> nat \<Rightarrow> string \<Rightarrow> (SystemInfo \<times> bytes \<times> bytes) net" where
  "signonExchange fs nw conn system =
     act_bind (act_get (\<lambda>w. bytesU64 (nwMillis nw (wdClock w)))) (\<lambda>clientSeed.
     act_bind (simpleExchange conn (exchangeAttributesRequest clientSeed) 0xF003) (\<lambda>(rc, payload).
     if rc \<noteq> 0 then act_fail (signonError rc)
     else
       act_bind (act_res (paramLoop (exchangeParam fs) payload (newSystemInfo system, []))) (\<lambda>(info, serverSeed).
       if serverSeed = [] then act_fail (Errorf ''signon exchange reply missing server seed'' [])
       else act_return (info, clientSeed, serverSeed))))"

definition signonInfoRequest :: "SystemInfo \<Rightarrow> bytes \<Rightarrow> bytes \<Rightarrow> bytes" where
  "signonInfoRequest info encryptedPassword wireUserBytes =
     (let len = 37 + length encryptedPassword + 16 + (if syLevel info \<ge> 5 then 7 else 0) in
      buildHeader (word_of_nat len) 0 SignonServerID 1 0x7004 @
      [passwordAuthScheme (length encryptedPassword)] @
      bytesU32 10 @ bytesU16 0x1113 @ bytesU32 clientCCSID @
      bytesU32 (word_of_nat (6 + length encryptedPassword)) @ bytesU16 0x1105 @ encryptedPassword @
      bytesU32 16 @ bytesU16 0x1104 @ wireUserBytes @
      (if syLevel info \<ge> 5 then bytesU32 7 @ bytesU16 0x1128 @ [1] else []))"

definition serverCCSIDParam :: "u16 \<Rightarrow> bytes \<Rightarrow> SystemInfo \<Rightarrow> SystemInfo" where
  "serverCCSIDParam cp cpPayload info =
     (if cp = 0x1114 \<and> 4 \<le> length cpPayload then info\<lparr>syCCSID := uint (Uint32 (take 4 cpPayload))\<rparr> else info)"

definition signonAuthenticate ::
  "tables \<Rightarrow> caseTables \<Rightarrow> crypto \<Rightarrow> nat \<Rightarrow> SystemInfo \<Rightarrow> string \<Rightarrow> string \<Rightarrow> bytes \<Rightarrow> bytes \<Rightarrow> SystemInfo net" where
  "signonAuthenticate fs ct cy conn info user password clientSeed serverSeed =
     act_bind (act_res (passwordSubstitute fs ct cy user password (syPasswordLevel info) clientSeed serverSeed)) (\<lambda>encryptedPassword.
     act_bind (act_res (signonUserBytes fs ct user 0 False)) (\<lambda>wireUserBytes.
     act_bind (simpleExchange conn (signonInfoRequest info encryptedPassword wireUserBytes) 0xF004) (\<lambda>(rc, payload).
     if rc \<noteq> 0 then act_fail (signonError rc)
     else act_res (paramLoop serverCCSIDParam payload info))))"

text \<open>An error of an exchange is reported as the context's error when the context is done.\<close>

definition ctx_error :: "go_ctx \<Rightarrow> 'a net \<Rightarrow> 'a net" where
  "ctx_error ctx m w =
     (case m w of
        (Inl e, w1) \<Rightarrow> (Inl (case ctxErr ctx (wdClock w1) of Some e' \<Rightarrow> e' | None \<Rightarrow> e), w1)
      | (Inr x, w1) \<Rightarrow> (Inr x, w1))"

definition connectSystemInfo ::
  "tables \<Rightarrow> caseTables \<Rightarrow> crypto \<Rightarrow> network \<Rightarrow> go_ctx \<Rightarrow> Config \<Rightarrow> string \<Rightarrow> string \<Rightarrow> SystemInfo net" where
  "connectSystemInfo fs ct cy nw ctx cfg user password =
     act_bind (dialHostServer nw cfg (if cfgUseTLS cfg then SecureSignonPort else SignonPort)) (\<lambda>conn.
     act_defer
       (act_bind (ctx_error ctx (signonExchange fs nw conn (cfgHost cfg))) (\<lambda>(info, clientSeed, serverSeed).
          ctx_error ctx (signonAuthenticate fs ct cy conn info user password clientSeed serverSeed)))
       (netClose conn))"

subsection \<open>Starting the database server\<close>

definition exchangeSeedsRequest :: "bytes \<Rightarrow> bytes" where
  "exchangeSeedsRequest clientSeed =
     bytesU32 28 @ [1, 0] @ bytesU16 DatabaseServerID @ bytesU32 0 @ bytesU32 0 @ bytesU16 8 @ bytesU16 0x7001 @ clientSeed"

definition returnCodeError :: "string \<Rightarrow> int \<Rightarrow> go_error" where
  "returnCodeError format rc = Errorf format [FInt (uint (word_of_int rc :: u32))]"

definition databaseExchangeSeeds :: "nat \<Rightarrow> bytes \<Rightarrow> bytes net" where
  "databaseExchangeSeeds conn clientSeed =
     act_bind (simpleExchange conn (exchangeSeedsRequest clientSeed) 0xF001) (\<lambda>(rc, payload).
     if rc \<noteq> 0 then act_fail (returnCodeError ''database exchange seeds failed with return code 0x%x'' rc)
     else if length payload < 8 then act_fail (Errorf ''database exchange seeds reply too short'' [])
     else act_return (take 8 payload))"

definition startServerRequest :: "bytes \<Rightarrow> bytes \<Rightarrow> bytes" where
  "startServerRequest encryptedPassword wireUserBytes =
     bytesU32 (word_of_nat (44 + length encryptedPassword)) @ [2, 0] @ bytesU16 DatabaseServerID @ bytesU32 0 @ bytesU32 0 @
     bytesU16 2 @ bytesU16 0x7002 @ [passwordAuthScheme (length encryptedPassword), 1] @
     bytesU32 (word_of_nat (6 + length encryptedPassword)) @ bytesU16 0x1105 @ encryptedPassword @
     bytesU32 16 @ bytesU16 0x1104 @ wireUserBytes"

definition jobNameParam :: "tables \<Rightarrow> u16 \<Rightarrow> bytes \<Rightarrow> SystemInfo \<Rightarrow> SystemInfo" where
  "jobNameParam fs cp cpPayload info =
     (if cp = 0x111F \<and> 4 \<le> length cpPayload
      then (case DecodeEBCDIC37 fs (drop 4 cpPayload) of Inl _ \<Rightarrow> info | Inr jobName \<Rightarrow> info\<lparr>syJobName := jobName\<rparr>)
      else info)"

definition databaseStartServer ::
  "tables \<Rightarrow> caseTables \<Rightarrow> crypto \<Rightarrow> nat \<Rightarrow> SystemInfo \<Rightarrow> string \<Rightarrow> string \<Rightarrow> bytes \<Rightarrow> bytes \<Rightarrow> SystemInfo net" where
  "databaseStartServer fs ct cy conn info user password clientSeed serverSeed =
     act_bind (act_res (passwordSubstitute fs ct cy user password (syPasswordLevel info) clientSeed serverSeed)) (\<lambda>encryptedPassword.
     act_bind (act_res (signonUserBytes fs ct user 0 False)) (\<lambda>wireUserBytes.
     act_bind (simpleExchange conn (startServerRequest encryptedPassword wireUserBytes) 0xF002) (\<lambda>(rc, payload).
     if rc \<noteq> 0 then act_fail (returnCodeError ''database start server failed with return code 0x%x'' rc)
     else act_res (paramLoop (jobNameParam fs) payload info))))"

definition serverAttributesFunctionalLevelOffset :: nat where "serverAttributesFunctionalLevelOffset = 52"
definition serverAttributesJobIdentifierOffset :: nat where "serverAttributesJobIdentifierOffset = 90"

definition functionalLevelOf :: "string \<Rightarrow> int option" where
  "functionalLevelOf functionalLevel =
     (let trimmed = TrimSpace functionalLevel in
      if 7 \<le> length trimmed
      then (case ParseInt64 (TrimSpace (drop 6 trimmed)) of Inl _ \<Rightarrow> None | Inr parsed \<Rightarrow> Some parsed)
      else None)"

definition parseServerAttributesBlock :: "tables \<Rightarrow> bytes \<Rightarrow> SystemInfo \<Rightarrow> SystemInfo res" where
  "parseServerAttributesBlock fs data info =
     (if length data < serverAttributesJobIdentifierOffset + 26
      then Inl (Errorf ''server attributes too short: %d'' [FInt (int (length data))])
      else
        let info1 =
              (case DecodeEBCDIC37 fs (slice serverAttributesFunctionalLevelOffset (serverAttributesFunctionalLevelOffset + 10) data) of
                 Inl _ \<Rightarrow> info
               | Inr functionalLevel \<Rightarrow>
                   (case functionalLevelOf functionalLevel of None \<Rightarrow> info | Some parsed \<Rightarrow> info\<lparr>syFunctionalLevel := parsed\<rparr>)) in
        Inr (case DecodeEBCDIC37 fs (slice serverAttributesJobIdentifierOffset (serverAttributesJobIdentifierOffset + 26) data) of
               Inl _ \<Rightarrow> info1
             | Inr jobIdentifier \<Rightarrow> info1\<lparr>syJobIdentifier := jobIdentifier\<rparr>))"

function parseServerAttributesPayload :: "tables \<Rightarrow> bytes \<Rightarrow> SystemInfo \<Rightarrow> SystemInfo res" where
  "parseServerAttributesPayload fs data info =
     (if data = [] then Inr info
      else case ParseLLCP data of
        Inl e \<Rightarrow> Inl e
      | Inr (codePoint, cpPayload, rest) \<Rightarrow>
          if codePoint = 0x3804 then
            (case parseServerAttributesBlock fs cpPayload info of
               Inl e \<Rightarrow> Inl e | Inr info1 \<Rightarrow> parseServerAttributesPayload fs rest info1)
          else parseServerAttributesPayload fs rest info)"
  by pat_completeness auto
termination by (relation "measure (\<lambda>(fs, data, info). length data)") (auto dest: ParseLLCP_shorter)

declare parseServerAttributesPayload.simps [simp del]

definition envelopeExchange :: "nat \<Rightarrow> string \<Rightarrow> bytes \<Rightarrow> bytes net" where
  "envelopeExchange conn what request =
     act_bind (connWrite conn request) (\<lambda>_.
     act_bind (connRead conn readPacket) (\<lambda>packet.
     act_bind (act_res (readReplyEnvelope packet)) (\<lambda>(envelope, payload).
     if hasError envelope then act_fail (envelopeError what envelope) else act_return payload)))"

definition databaseSetServerAttributes ::
  "tables \<Rightarrow> caseTables \<Rightarrow> nat \<Rightarrow> Config \<Rightarrow> SystemInfo \<Rightarrow> bool \<Rightarrow> SystemInfo net" where
  "databaseSetServerAttributes fs ct conn cfg info autoCommit =
     act_bind (act_res (buildSetServerAttributesRequestVRM fs ct cfg autoCommit (cfgCommitmentControl cfg) (syVersion info))) (\<lambda>request.
     act_bind (envelopeExchange conn ''database server attributes'' request) (\<lambda>payload.
       act_res (parseServerAttributesPayload fs payload info)))"

definition databaseAddLibraryList :: "tables \<Rightarrow> caseTables \<Rightarrow> nat \<Rightarrow> Config \<Rightarrow> unit net" where
  "databaseAddLibraryList fs ct conn cfg =
     act_bind (act_res (buildAddLibraryListRequest fs ct cfg)) (\<lambda>r.
     case r of
       None \<Rightarrow> act_return ()
     | Some request \<Rightarrow> act_bind (envelopeExchange conn ''database add library list'' request) (\<lambda>_. act_return ()))"

definition databasePort :: "network \<Rightarrow> Config \<Rightarrow> int net" where
  "databasePort nw cfg =
     (if cfgPort cfg \<noteq> 0 then act_return (cfgPort cfg)
      else
        act_bind (act_try (ResolvePort nw (cfgHost cfg) (DatabaseServiceName cfg))) (\<lambda>r.
        case r of Inr resolvedPort \<Rightarrow> act_return resolvedPort | Inl _ \<Rightarrow> act_return (DefaultPort cfg)))"

text \<open>The exchanges on the database socket, each with the context's error and the socket closed when it fails.\<close>

definition connectSteps ::
  "tables \<Rightarrow> caseTables \<Rightarrow> crypto \<Rightarrow> network \<Rightarrow> go_ctx \<Rightarrow> Config \<Rightarrow> SystemInfo \<Rightarrow> string \<Rightarrow> string \<Rightarrow> nat \<Rightarrow> SystemInfo net" where
  "connectSteps fs ct cy nw ctx cfg info user password conn =
     act_bind (act_get (\<lambda>w. bytesU64 (nwMillis nw (wdClock w)))) (\<lambda>clientSeed.
     act_bind (ctx_error ctx (on_error (databaseExchangeSeeds conn clientSeed) (netClose conn))) (\<lambda>serverSeed.
     act_bind (on_error (ctx_error ctx (databaseStartServer fs ct cy conn info user password clientSeed serverSeed)) (netClose conn)) (\<lambda>info1.
     act_bind (on_error (ctx_error ctx (databaseSetServerAttributes fs ct conn cfg info1 True)) (netClose conn)) (\<lambda>info2.
     act_bind (on_error (ctx_error ctx (databaseAddLibraryList fs ct conn cfg)) (netClose conn)) (\<lambda>_.
       act_return info2)))))"

definition connectDatabase ::
  "tables \<Rightarrow> caseTables \<Rightarrow> crypto \<Rightarrow> network \<Rightarrow> go_ctx \<Rightarrow> Config \<Rightarrow> SystemInfo \<Rightarrow> string \<Rightarrow> string \<Rightarrow> (nat \<times> SystemInfo) net" where
  "connectDatabase fs ct cy nw ctx cfg info user password =
     act_bind (databasePort nw cfg) (\<lambda>port.
     if port \<le> 0 then act_fail (Wrap ErrConnection ''invalid database port'' [])
     else
       act_bind (dialHostServer nw cfg port) (\<lambda>conn.
       act_bind (connectSteps fs ct cy nw ctx cfg info user password conn) (\<lambda>info1.
         act_return (conn, info1))))"

subsection \<open>Opening a connection, and the second one of a cancel\<close>

text \<open>\<open>&Conn{...}\<close>: the connection reads and writes the database socket from now on.\<close>

definition newConn :: "network \<Rightarrow> Config \<Rightarrow> hostConn \<Rightarrow> SystemInfo \<Rightarrow> packageState option \<Rightarrow> nat \<Rightarrow> Conn" where
  "newConn nw cfg s info pkg now =
     \<lparr>cnCfg = cfg, cnSystemInfo = Some info, cnNet = True, cnClosed = False, cnCloseErr = None, cnAutoCommit = True,
      cnCommitment = cfgCommitmentControl cfg, cnWarnings = [],
      cnNames = \<lparr>nsUsed = {}, nsDescriptorSeq = 0, nsCursorSeq = 0, nsBusy = {}\<rparr>,
      cnPkg = pkg, cnRpbTimeouts = (\<lambda>h. None), cnClientInfo = [], cnFresh = nwWithTimeout nw 10000000000 Background,
      cnIn = hcIn s, cnWrites = hcWrites s, cnSent = [], cnRead = [], cnCancels = [], cnClock = now\<rparr>"

definition openConn ::
  "tables \<Rightarrow> caseTables \<Rightarrow> crypto \<Rightarrow> network \<Rightarrow> go_ctx \<Rightarrow> Config \<Rightarrow> (nat \<times> Conn) net" where
  "openConn fs ct cy nw ctx0 cfg =
     (let ctx = (if cfgConnectTimeout cfg > 0 then nwWithTimeout nw (cfgConnectTimeout cfg) ctx0 else ctx0) in
      act_bind (connectSystemInfo fs ct cy nw ctx cfg (cfgUser cfg) (cfgPassword cfg)) (\<lambda>info.
      act_bind (connectDatabase fs ct cy nw ctx cfg info (cfgUser cfg) (cfgPassword cfg)) (\<lambda>(dbConn, info1).
      act_bind (on_error (act_res (newPackageState (ToUpperBy ct) cfg)) (netClose dbConn)) (\<lambda>(pkg, pkgWarning).
      act_bind (act_get (\<lambda>w. newConn nw cfg (wdSockets w ! dbConn) info1 pkg (wdClock w))) (\<lambda>conn.
        act_return (dbConn, recordWarning (case pkgWarning of None \<Rightarrow> [] | Some warning \<Rightarrow> [warning]) conn))))))"

text \<open>
  \<open>cancelStatement\<close> on its own connection: it connects again, sends the cancel request with the job
  identifier, reads the reply and closes the socket.
\<close>

definition cancelRequest ::
  "tables \<Rightarrow> caseTables \<Rightarrow> crypto \<Rightarrow> network \<Rightarrow> go_ctx \<Rightarrow> Config \<Rightarrow> SystemInfo \<Rightarrow> unit net" where
  "cancelRequest fs ct cy nw ctx0 cfg info =
     (let ctx = nwWithTimeout nw 10000000000 ctx0 in
      act_bind (connectDatabase fs ct cy nw ctx cfg info (cfgUser cfg) (cfgPassword cfg)) (\<lambda>(cancelConn, _).
      act_defer
        (act_bind (act_res (buildCancelRequest fs 0 (syJobIdentifier info))) (\<lambda>request.
         act_bind (envelopeExchange cancelConn ''cancel request'' request) (\<lambda>_. act_return ())))
        (netClose cancelConn)))"

definition cancelOverSecond ::
  "tables \<Rightarrow> caseTables \<Rightarrow> crypto \<Rightarrow> network \<Rightarrow> go_ctx \<Rightarrow> Conn \<Rightarrow> unit net" where
  "cancelOverSecond fs ct cy nw ctx c w =
     (case ctxErr ctx (wdClock w) of
        Some e \<Rightarrow> (Inl e, w)
      | None \<Rightarrow>
          (case cnSystemInfo c of
             None \<Rightarrow> (Inl (unsupported ''protocol-native cancel''), w)
           | Some info \<Rightarrow>
               if syFunctionalLevel info < 5 \<or> TrimSpace (syJobIdentifier info) = []
               then (Inl (unsupported ''protocol-native cancel''), w)
               else cancelRequest fs ct cy nw ctx (cnCfg c) info w))"

section \<open>The exchanges keep to their socket\<close>

text \<open>
  What a step that works on one socket may change: the log and the input of that socket, and the time.
\<close>

definition touches :: "nat \<Rightarrow> world \<Rightarrow> world \<Rightarrow> bool" where
  "touches k w w' \<longleftrightarrow> length (wdSockets w') = length (wdSockets w) \<and>
     (\<forall>j < length (wdSockets w). j \<noteq> k \<longrightarrow> wdSockets w' ! j = wdSockets w ! j) \<and>
     (k < length (wdSockets w) \<longrightarrow> hcClosed (wdSockets w' ! k) = hcClosed (wdSockets w ! k))"

lemma touches_refl: "touches k w w"
  by (simp add: touches_def)

lemma touches_trans: "touches k w w1 \<Longrightarrow> touches k w1 w2 \<Longrightarrow> touches k w w2"
  by (simp add: touches_def)

text \<open>
  The contract of the exchanges: on their socket they write requests and read replies, and leave
  opening and closing to their callers. The callers' clean-up is proved from it once.
\<close>

locale exchange_on =
  fixes conn :: nat and m :: "'a net"
  assumes uses: "m w = (r, w') \<Longrightarrow> touches conn w w'"
begin

lemma after_defer:
  assumes "act_defer m (netClose conn) w = (r, w')" "conn < length (wdSockets w)"
  shows "length (wdSockets w') = length (wdSockets w) \<and> hcClosed (wdSockets w' ! conn) \<and>
    (\<forall>j < length (wdSockets w). j \<noteq> conn \<longrightarrow> wdSockets w' ! j = wdSockets w ! j)"
proof -
  obtain r1 w1 where m: "m w = (r1, w1)" by fastforce
  from uses [OF m] assms m show ?thesis
    by (auto simp: act_defer_def netClose_def act_modify_def connClosed_def setSocket_def tick_def touches_def)
qed

lemma after_error:
  assumes "on_error m (netClose conn) w = (r, w')" "conn < length (wdSockets w)" "\<not> hcClosed (wdSockets w ! conn)"
  shows "length (wdSockets w') = length (wdSockets w) \<and> (hcClosed (wdSockets w' ! conn) \<longleftrightarrow> isl r) \<and>
    (\<forall>j < length (wdSockets w). j \<noteq> conn \<longrightarrow> wdSockets w' ! j = wdSockets w ! j)"
proof -
  obtain r1 w1 where m: "m w = (r1, w1)" by fastforce
  from uses [OF m] assms m show ?thesis
    by (cases r1) (auto simp: on_error_def netClose_def act_modify_def connClosed_def setSocket_def tick_def touches_def)
qed

end

lemma uses_basic:
  "exchange_on k (act_return x)" "exchange_on k (act_fail e)" "exchange_on k (act_res v)" "exchange_on k (act_get g)"
  by (unfold_locales; simp add: act_return_def act_fail_def act_res_def act_get_def touches_refl)+

lemma uses_bind:
  assumes "exchange_on k m" "\<And>x. exchange_on k (f x)"
  shows "exchange_on k (act_bind m f)"
proof
  fix w r w'
  assume b: "act_bind m f w = (r, w')"
  obtain r1 w1 where m: "m w = (r1, w1)" by fastforce
  show "touches k w w'"
  proof (cases r1)
    case (Inl e)
    then show ?thesis using exchange_on.uses [OF assms(1) m] b m by (simp add: act_bind_def)
  next
    case (Inr x)
    then have "f x w1 = (r, w')" using b m by (simp add: act_bind_def)
    from touches_trans [OF exchange_on.uses [OF assms(1) m] exchange_on.uses [OF assms(2) this]] show ?thesis .
  qed
qed

lemma uses_ctx_error: "exchange_on k m \<Longrightarrow> exchange_on k (ctx_error ctx m)"
  unfolding exchange_on_def ctx_error_def by (auto split: prod.splits sum.splits)

lemma uses_io: "exchange_on k (connWrite k p)" "exchange_on k (connRead k f)"
  unfolding exchange_on_def connWrite_def connRead_def
  by (auto simp: touches_def setSocket_def tick_def Let_def split: prod.splits list.splits bool.splits)

lemma uses_if: "exchange_on k a \<Longrightarrow> exchange_on k b \<Longrightarrow> exchange_on k (if c then a else b)"
  by simp

lemmas uses_rules = uses_basic uses_bind uses_io uses_ctx_error uses_if

lemma uses_simpleExchange: "exchange_on k (simpleExchange k request replyID)"
  unfolding simpleExchange_def by (intro uses_rules)

lemma uses_envelopeExchange: "exchange_on k (envelopeExchange k what request)"
  unfolding envelopeExchange_def by (intro uses_rules allI) (auto intro!: uses_rules split: prod.split)

interpretation signon: exchange_on k
  "act_bind (ctx_error ctx (signonExchange fs nw k host)) (\<lambda>(info, clientSeed, serverSeed).
     ctx_error ctx (signonAuthenticate fs ct cy k info user password clientSeed serverSeed))"
  for k ctx fs nw host ct cy user password
  unfolding signonExchange_def signonAuthenticate_def
  by (auto intro!: uses_rules uses_simpleExchange split: prod.split)

interpretation seeds: exchange_on k "databaseExchangeSeeds k clientSeed" for k clientSeed
  unfolding databaseExchangeSeeds_def by (auto intro!: uses_rules uses_simpleExchange split: prod.split)

interpretation start: exchange_on k "ctx_error ctx (databaseStartServer fs ct cy k info user password clientSeed serverSeed)"
  for k ctx fs ct cy info user password clientSeed serverSeed
  unfolding databaseStartServer_def by (auto intro!: uses_rules uses_simpleExchange split: prod.split)

interpretation attributes_step: exchange_on k "ctx_error ctx (databaseSetServerAttributes fs ct k cfg info autoCommit)"
  for k ctx fs ct cfg info autoCommit
  unfolding databaseSetServerAttributes_def by (auto intro!: uses_rules uses_envelopeExchange)

interpretation libraries_step: exchange_on k "ctx_error ctx (databaseAddLibraryList fs ct k cfg)" for k ctx fs ct cfg
  unfolding databaseAddLibraryList_def by (auto intro!: uses_rules uses_envelopeExchange split: option.split)

interpretation port_mapper: exchange_on k "act_bind (connWrite k service) (\<lambda>_. portReply k)" for k service
  unfolding portReply_def Let_def by (intro uses_rules)

section \<open>Which sockets are open\<close>

text \<open>
  The sockets that were there before are untouched, and of the new ones exactly those of \<open>K\<close> are open.
\<close>

definition leaves :: "nat set \<Rightarrow> world \<Rightarrow> world \<Rightarrow> bool" where
  "leaves K w w' \<longleftrightarrow> length (wdSockets w) \<le> length (wdSockets w') \<and> K \<subseteq> {length (wdSockets w)..<length (wdSockets w')} \<and>
     (\<forall>j < length (wdSockets w). wdSockets w' ! j = wdSockets w ! j) \<and>
     (\<forall>j < length (wdSockets w'). length (wdSockets w) \<le> j \<longrightarrow> (hcClosed (wdSockets w' ! j) \<longleftrightarrow> j \<notin> K))"

text \<open>A step that opens a socket and gives it to its caller, or fails and leaves none open.\<close>

definition opens :: "('a \<Rightarrow> nat) \<Rightarrow> 'a net \<Rightarrow> bool" where
  "opens sock m \<longleftrightarrow> (\<forall>w r w'. m w = (r, w') \<longrightarrow> leaves (case r of Inr x \<Rightarrow> {sock x} | Inl _ \<Rightarrow> {}) w w')"

definition balanced :: "'a net \<Rightarrow> bool" where
  "balanced m \<longleftrightarrow> (\<forall>w r w'. m w = (r, w') \<longrightarrow> leaves {} w w')"

lemma leaves_refl: "wdSockets w' = wdSockets w \<Longrightarrow> leaves {} w w'"
  by (simp add: leaves_def)

lemma leaves_trans:
  assumes "leaves {} w w1" "leaves K w1 w2"
  shows "leaves K w w2"
proof -
  have "hcClosed (wdSockets w2 ! j) \<longleftrightarrow> j \<notin> K" if "j < length (wdSockets w2)" "length (wdSockets w) \<le> j" for j
  proof (cases "j < length (wdSockets w1)")
    case True
    then have "wdSockets w2 ! j = wdSockets w1 ! j" "hcClosed (wdSockets w1 ! j)" using assms that(2) by (auto simp: leaves_def)
    moreover have "j \<notin> K" using assms(2) True by (auto simp: leaves_def)
    ultimately show ?thesis by simp
  qed (use assms(2) that in \<open>simp add: leaves_def\<close>)
  then show ?thesis using assms by (auto simp: leaves_def)
qed

text \<open>A step on the one socket that is open.\<close>

lemma leaves_step:
  assumes "leaves {k} w w1" "length (wdSockets w2) = length (wdSockets w1)"
    and "\<forall>j < length (wdSockets w1). j \<noteq> k \<longrightarrow> wdSockets w2 ! j = wdSockets w1 ! j"
  shows "leaves (if hcClosed (wdSockets w2 ! k) then {} else {k}) w w2"
proof -
  have "k \<in> {length (wdSockets w)..<length (wdSockets w1)}" using assms(1) by (simp add: leaves_def)
  then show ?thesis using assms by (auto simp: leaves_def)
qed

lemma leaves_open: "leaves {k} w w1 \<Longrightarrow> k < length (wdSockets w1) \<and> \<not> hcClosed (wdSockets w1 ! k)"
  by (auto simp: leaves_def)

lemma balanced_bind_opens:
  assumes "balanced m" "\<And>x. opens sock (f x)"
  shows "opens sock (act_bind m f)"
  unfolding opens_def
proof (intro allI impI)
  fix w r w'
  assume b: "act_bind m f w = (r, w')"
  obtain r1 w1 where m: "m w = (r1, w1)" by fastforce
  with assms(1) have l: "leaves {} w w1" by (simp add: balanced_def)
  show "leaves (case r of Inl _ \<Rightarrow> {} | Inr x \<Rightarrow> {sock x}) w w'"
  proof (cases r1)
    case (Inl e)
    then show ?thesis using b m l by (auto simp: act_bind_def)
  next
    case (Inr x)
    then have "f x w1 = (r, w')" using b m by (simp add: act_bind_def)
    then show ?thesis using leaves_trans [OF l] assms(2) [of x] unfolding opens_def by blast
  qed
qed

lemma balanced_bind: "balanced m \<Longrightarrow> (\<And>x. balanced (f x)) \<Longrightarrow> balanced (act_bind m f)"
  using leaves_trans by (fastforce simp: balanced_def act_bind_def split: prod.splits sum.splits)

lemma balanced_basic:
  "balanced (act_return x)" "balanced (act_fail e)" "balanced (act_res v)" "balanced (act_get g)"
  by (auto simp: balanced_def act_return_def act_fail_def act_res_def act_get_def leaves_refl)

lemma opens_fail: "opens sock (act_fail e)"
  by (auto simp: opens_def act_fail_def leaves_refl)

lemma opensD: "opens sock m \<Longrightarrow> m w = (Inl e, w') \<Longrightarrow> leaves {} w w'" "opens sock m \<Longrightarrow> m w = (Inr x, w') \<Longrightarrow> leaves {sock x} w w'"
  unfolding opens_def by fastforce+

text \<open>A step on an open socket that closes it exactly when it fails.\<close>

definition fails_closed :: "nat \<Rightarrow> 'a net \<Rightarrow> bool" where
  "fails_closed k m \<longleftrightarrow> (\<forall>w r w'. m w = (r, w') \<longrightarrow> k < length (wdSockets w) \<longrightarrow> \<not> hcClosed (wdSockets w ! k) \<longrightarrow>
     length (wdSockets w') = length (wdSockets w) \<and> (hcClosed (wdSockets w' ! k) \<longleftrightarrow> isl r) \<and>
     (\<forall>j < length (wdSockets w). j \<noteq> k \<longrightarrow> wdSockets w' ! j = wdSockets w ! j))"

lemma fails_closed_on_error: "exchange_on k m \<Longrightarrow> fails_closed k (on_error m (netClose k))"
  unfolding fails_closed_def using exchange_on.after_error by blast

lemma fails_closed_ctx_error: "fails_closed k m \<Longrightarrow> fails_closed k (ctx_error ctx m)"
  unfolding fails_closed_def ctx_error_def by (fastforce split: prod.splits sum.splits)

lemma fails_closed_return: "fails_closed k (act_return x)"
  by (auto simp: fails_closed_def act_return_def)

lemma fails_closed_get: "(\<And>x. fails_closed k (f x)) \<Longrightarrow> fails_closed k (act_bind (act_get g) f)"
  by (auto simp: fails_closed_def act_bind_def act_get_def)

lemma fails_closed_bind:
  assumes "fails_closed k m" "\<And>x. fails_closed k (f x)"
  shows "fails_closed k (act_bind m f)"
  unfolding fails_closed_def
proof (intro allI impI)
  fix w r w'
  assume b: "act_bind m f w = (r, w')" and k: "k < length (wdSockets w)" "\<not> hcClosed (wdSockets w ! k)"
  obtain r1 w1 where m: "m w = (r1, w1)" by fastforce
  note 1 = assms(1) [unfolded fails_closed_def, rule_format, OF m k]
  show "length (wdSockets w') = length (wdSockets w) \<and> (hcClosed (wdSockets w' ! k) \<longleftrightarrow> isl r) \<and>
     (\<forall>j < length (wdSockets w). j \<noteq> k \<longrightarrow> wdSockets w' ! j = wdSockets w ! j)"
  proof (cases r1)
    case (Inl e)
    then show ?thesis using 1 b m by (auto simp: act_bind_def)
  next
    case (Inr x)
    then have f: "f x w1 = (r, w')" using b m by (simp add: act_bind_def)
    have "k < length (wdSockets w1)" "\<not> hcClosed (wdSockets w1 ! k)" using 1 k Inr by simp_all
    from assms(2) [unfolded fails_closed_def, rule_format, OF f this] 1 show ?thesis by simp
  qed
qed

lemmas fails_closed_rules = fails_closed_on_error fails_closed_ctx_error fails_closed_return fails_closed_get fails_closed_bind

lemma opens_then:
  assumes "opens sock m" "\<And>x. fails_closed (sock x) (f x)" "\<And>x w y w'. f x w = (Inr y, w') \<Longrightarrow> sock' y = sock x"
  shows "opens sock' (act_bind m f)"
  unfolding opens_def
proof (intro allI impI)
  fix w r w'
  assume b: "act_bind m f w = (r, w')"
  obtain r1 w1 where m: "m w = (r1, w1)" by fastforce
  show "leaves (case r of Inl _ \<Rightarrow> {} | Inr x \<Rightarrow> {sock' x}) w w'"
  proof (cases r1)
    case (Inl e)
    then show ?thesis using b m opensD(1) [OF assms(1)] by (auto simp: act_bind_def)
  next
    case (Inr x)
    have l: "leaves {sock x} w w1" using opensD(2) [OF assms(1)] m Inr by simp
    have f: "f x w1 = (r, w')" using b m Inr by (simp add: act_bind_def)
    note e = assms(2) [unfolded fails_closed_def, rule_format, OF f leaves_open [OF l, THEN conjunct1] leaves_open [OF l, THEN conjunct2]]
    then show ?thesis using leaves_step [OF l, of w'] assms(3) f by (cases r) simp_all
  qed
qed

lemma opens_defer:
  assumes "opens sock m" "\<And>x. exchange_on (sock x) (f x)"
  shows "balanced (act_bind m (\<lambda>x. act_defer (f x) (netClose (sock x))))"
  unfolding balanced_def
proof (intro allI impI)
  fix w r w'
  assume b: "act_bind m (\<lambda>x. act_defer (f x) (netClose (sock x))) w = (r, w')"
  obtain r1 w1 where m: "m w = (r1, w1)" by fastforce
  show "leaves {} w w'"
  proof (cases r1)
    case (Inl e)
    then show ?thesis using b m opensD(1) [OF assms(1)] by (auto simp: act_bind_def)
  next
    case (Inr x)
    have l: "leaves {sock x} w w1" using opensD(2) [OF assms(1)] m Inr by simp
    have d: "act_defer (f x) (netClose (sock x)) w1 = (r, w')" using b m Inr by (simp add: act_bind_def)
    from exchange_on.after_defer [OF assms(2) d] leaves_open [OF l] leaves_step [OF l, of w'] show ?thesis by simp
  qed
qed

section \<open>The steps of opening\<close>

lemma opens_dialContext: "opens (\<lambda>k. k) (dialContext nw d address)"
  by (auto simp: opens_def dialContext_def leaves_def tick_def nth_append less_Suc_eq split: sum.splits)

lemma applyOptions_sockets: "applyOptions nw opts w = (r, w') \<Longrightarrow> wdSockets w' = wdSockets w"
  by (induction nw opts w rule: applyOptions.induct) (auto simp: tick_def split: option.splits)

lemma uses_local: "exchange_on k (applySocketOptions nw cfg)" "exchange_on k (handshake nw cfg)"
  unfolding exchange_on_def applySocketOptions_def handshake_def
  by (auto simp: touches_def tick_def dest: applyOptions_sockets split: option.splits)

lemma opens_map_error:
  "opens sock m \<Longrightarrow> opens sock (\<lambda>w. case m w of (Inl e, w1) \<Rightarrow> (Inl (g e), w1) | (Inr x, w1) \<Rightarrow> (Inr x, w1))"
  unfolding opens_def by (fastforce split: prod.splits sum.splits)

lemma act_bind_InrD: "act_bind m f w = (Inr y, w') \<Longrightarrow> \<exists>x w1. m w = (Inr x, w1) \<and> f x w1 = (Inr y, w')"
  by (auto simp: act_bind_def split: prod.splits sum.splits)

lemma opens_dialHostServer: "opens (\<lambda>k. k) (dialHostServer nw cfg port)"
proof (cases "port \<le> 0")
  case False
  have "opens (\<lambda>k. k) (act_bind (\<lambda>w. case dialContext nw (hostDialer cfg) (JoinHostPort (cfgHost cfg) (show_int port)) w of
            (Inl e, w1) \<Rightarrow> (Inl (wireError (if cfgUseTLS cfg then ''TLS dial'' else ''TCP dial'') e), w1)
          | (Inr raw, w1) \<Rightarrow> (Inr raw, w1)) (\<lambda>raw.
        act_bind (on_error (applySocketOptions nw cfg) (netClose raw)) (\<lambda>_.
        if cfgUseTLS cfg then act_bind (on_error (handshake nw cfg) (netClose raw)) (\<lambda>_. act_return raw)
        else act_return raw)))"
    by (rule opens_then [OF opens_map_error [OF opens_dialContext]])
      (auto intro!: fails_closed_rules uses_local dest!: act_bind_InrD simp: act_return_def split: if_splits)
  then show ?thesis using False by (simp add: dialHostServer_def Let_def)
qed (simp add: dialHostServer_def opens_fail)

lemma balanced_ResolvePort: "balanced (ResolvePort nw host service)"
  unfolding ResolvePort_def
  by (auto intro!: balanced_basic opens_defer [OF opens_dialContext] port_mapper.exchange_on_axioms)

lemma balanced_try: "balanced m \<Longrightarrow> balanced (act_try m)"
  by (auto simp: balanced_def act_try_def split: prod.splits)

lemma balanced_databasePort: "balanced (databasePort nw cfg)"
  unfolding databasePort_def
  by (auto intro!: balanced_basic balanced_bind balanced_try balanced_ResolvePort split: sum.split)

lemma balanced_connectSystemInfo: "balanced (connectSystemInfo fs ct cy nw ctx cfg user password)"
  unfolding connectSystemInfo_def by (rule opens_defer [OF opens_dialHostServer signon.exchange_on_axioms])

lemma fails_closed_connectSteps: "fails_closed conn (connectSteps fs ct cy nw ctx cfg info user password conn)"
  unfolding connectSteps_def
  by (intro fails_closed_rules seeds.exchange_on_axioms start.exchange_on_axioms attributes_step.exchange_on_axioms
    libraries_step.exchange_on_axioms)

lemma opens_connectDatabase: "opens fst (connectDatabase fs ct cy nw ctx cfg info user password)"
proof -
  have "opens fst (act_bind (dialHostServer nw cfg port) (\<lambda>conn.
      act_bind (connectSteps fs ct cy nw ctx cfg info user password conn) (\<lambda>info1. act_return (conn, info1))))" for port
    by (rule opens_then [OF opens_dialHostServer])
      (auto intro!: fails_closed_rules fails_closed_connectSteps dest!: act_bind_InrD simp: act_return_def)
  then show ?thesis unfolding connectDatabase_def
    by (auto intro!: balanced_bind_opens balanced_databasePort opens_fail)
qed

lemma opens_openConn: "opens fst (openConn fs ct cy nw ctx cfg)"
proof -
  have db: "opens fst (act_bind (connectDatabase fs ct cy nw ctx1 cfg info user password) (\<lambda>(dbConn, info1).
      act_bind (on_error (act_res (newPackageState (ToUpperBy ct) cfg)) (netClose dbConn)) (\<lambda>(pkg, pkgWarning).
      act_bind (act_get (\<lambda>w. newConn nw cfg (wdSockets w ! dbConn) info1 pkg (wdClock w))) (\<lambda>conn.
        act_return (dbConn, recordWarning (case pkgWarning of None \<Rightarrow> [] | Some warning \<Rightarrow> [warning]) conn)))))"
    for ctx1 info user password
    by (rule opens_then [OF opens_connectDatabase])
      (auto intro!: fails_closed_rules uses_basic dest!: act_bind_InrD simp: act_return_def split: prod.splits)
  show ?thesis unfolding openConn_def Let_def by (rule balanced_bind_opens [OF balanced_connectSystemInfo db])
qed

lemma balanced_cancel: "balanced (cancelOverSecond fs ct cy nw ctx c)"
proof -
  have "balanced (cancelRequest fs ct cy nw ctx cfg info)" for cfg info
  proof -
    have "balanced (act_bind (connectDatabase fs ct cy nw ctx1 cfg info user password) (\<lambda>x.
        act_defer ((\<lambda>(cancelConn, _). act_bind (act_res (buildCancelRequest fs 0 (syJobIdentifier info))) (\<lambda>request.
         act_bind (envelopeExchange cancelConn ''cancel request'' request) (\<lambda>_. act_return ()))) x) (netClose (fst x))))"
      for ctx1 user password
      by (rule opens_defer [OF opens_connectDatabase]) (auto intro!: uses_rules uses_envelopeExchange split: prod.split)
    then show ?thesis unfolding cancelRequest_def Let_def by (simp add: case_prod_unfold)
  qed
  then show ?thesis unfolding balanced_def cancelOverSecond_def
    by (auto simp: leaves_refl split: option.splits if_splits)
qed

section \<open>What is sent\<close>

lemma act_bind_Inr_iff: "act_bind m f w = (Inr y, w') \<longleftrightarrow> (\<exists>x w1. m w = (Inr x, w1) \<and> f x w1 = (Inr y, w'))"
  by (auto simp: act_bind_def split: prod.splits sum.splits)

lemma step_Inr:
  "act_return x w = (Inr y, w') \<longleftrightarrow> y = x \<and> w' = w" "act_fail e w = (Inr y, w') \<longleftrightarrow> False"
  "act_res v w = (Inr y, w') \<longleftrightarrow> v = Inr y \<and> w' = w" "act_get g w = (Inr z, w') \<longleftrightarrow> z = g w \<and> w' = w"
  "on_error m c w = (Inr u, w') \<longleftrightarrow> m w = (Inr u, w')" "ctx_error ctx n w = (Inr v', w') \<longleftrightarrow> n w = (Inr v', w')"
  by (auto simp: act_return_def act_fail_def act_res_def act_get_def on_error_def ctx_error_def split: prod.splits sum.splits)

text \<open>The requests a step that succeeds has written to a socket.\<close>

definition wrote :: "nat \<Rightarrow> bytes list \<Rightarrow> world \<Rightarrow> world \<Rightarrow> bool" where
  "wrote k reqs w w' \<longleftrightarrow> length (wdSockets w') = length (wdSockets w) \<and> hcSent (wdSockets w' ! k) = hcSent (wdSockets w ! k) @ reqs"

lemma wrote_refl: "wrote k [] w w"
  by (simp add: wrote_def)

lemma wrote_trans: "wrote k a w w1 \<Longrightarrow> wrote k b w1 w2 \<Longrightarrow> wrote k (a @ b) w w2"
  by (simp add: wrote_def)

lemma connWrite_wrote: "connWrite k p w = (Inr u, w') \<Longrightarrow> k < length (wdSockets w) \<Longrightarrow> wrote k [p] w w'"
  by (auto simp: connWrite_def wrote_def setSocket_def tick_def Let_def split: list.splits bool.splits)

lemma connRead_wrote: "connRead k f w = (Inr x, w') \<Longrightarrow> k < length (wdSockets w) \<Longrightarrow> wrote k [] w w'"
  by (auto simp: connRead_def wrote_def setSocket_def tick_def Let_def split: prod.splits)

lemma simpleExchange_wrote:
  assumes "simpleExchange k request replyID w = (Inr x, w')" "k < length (wdSockets w)"
  shows "wrote k [request] w w'"
  using assms connWrite_wrote [of k request w] connRead_wrote [of k readPacket]
  by (fastforce simp: simpleExchange_def act_bind_Inr_iff step_Inr wrote_def)

lemma envelopeExchange_wrote:
  assumes "envelopeExchange k what request w = (Inr x, w')" "k < length (wdSockets w)"
  shows "wrote k [request] w w'"
  using assms connWrite_wrote [of k request w] connRead_wrote [of k readPacket]
  by (fastforce simp: envelopeExchange_def act_bind_Inr_iff step_Inr wrote_def split: if_splits)

lemma paramLoop_inv:
  "paramLoop f data st = Inr st' \<Longrightarrow> P st \<Longrightarrow> (\<And>cp p s. P s \<Longrightarrow> P (f cp p s)) \<Longrightarrow> P st'"
proof (induction f data st rule: paramLoop.induct)
  case (1 f data st)
  show ?case
  proof (cases "length data < 6")
    case False
    then obtain cp p rest where p: "ParseLLCP data = Inr (cp, p, rest)" "paramLoop f rest (f cp p st) = Inr st'"
      using 1(2) unfolding paramLoop.simps [of f data st] by (auto split: sum.splits)
    show ?thesis by (rule 1(1) [OF False p(1) refl refl p(2) 1(4) [OF 1(3)] 1(4)])
  qed (use 1(2,3) in \<open>simp add: paramLoop.simps\<close>)
qed

lemma jobName_version: "paramLoop (jobNameParam fs) data info = Inr info' \<Longrightarrow> syVersion info' = syVersion info"
  by (erule paramLoop_inv) (simp_all add: jobNameParam_def split: sum.split)

lemma exchangeSeeds_wrote:
  assumes "databaseExchangeSeeds k seed w = (Inr serverSeed, w')" "k < length (wdSockets w)"
  shows "wrote k [exchangeSeedsRequest seed] w w'"
  using assms simpleExchange_wrote [OF _ assms(2)]
  by (fastforce simp: databaseExchangeSeeds_def act_bind_Inr_iff step_Inr split: if_splits)

lemma startServer_wrote:
  assumes "databaseStartServer fs ct cy k info user password seed serverSeed w = (Inr info1, w')" "k < length (wdSockets w)"
  shows "\<exists>pw ub. passwordSubstitute fs ct cy user password (syPasswordLevel info) seed serverSeed = Inr pw \<and>
    signonUserBytes fs ct user 0 False = Inr ub \<and> wrote k [startServerRequest pw ub] w w' \<and> syVersion info1 = syVersion info"
  using assms simpleExchange_wrote [OF _ assms(2)]
  by (fastforce simp: databaseStartServer_def act_bind_Inr_iff step_Inr dest: jobName_version split: if_splits)

lemma setServerAttributes_wrote:
  assumes "databaseSetServerAttributes fs ct k cfg info ac w = (Inr info1, w')" "k < length (wdSockets w)"
  shows "\<exists>request. buildSetServerAttributesRequestVRM fs ct cfg ac (cfgCommitmentControl cfg) (syVersion info) = Inr request \<and>
    wrote k [request] w w'"
  using assms envelopeExchange_wrote [OF _ assms(2)]
  by (fastforce simp: databaseSetServerAttributes_def act_bind_Inr_iff step_Inr)

lemma addLibraryList_wrote:
  assumes "databaseAddLibraryList fs ct k cfg w = (Inr u, w')" "k < length (wdSockets w)"
  shows "\<exists>r. buildAddLibraryListRequest fs ct cfg = Inr r \<and> wrote k (case r of None \<Rightarrow> [] | Some request \<Rightarrow> [request]) w w'"
proof -
  from assms(1) obtain r where r: "buildAddLibraryListRequest fs ct cfg = Inr r"
      "(case r of None \<Rightarrow> act_return () | Some request \<Rightarrow>
         act_bind (envelopeExchange k ''database add library list'' request) (\<lambda>_. act_return ())) w = (Inr u, w')"
    by (auto simp: databaseAddLibraryList_def act_bind_Inr_iff step_Inr)
  show ?thesis
  proof (cases r)
    case None
    then show ?thesis using r by (simp add: step_Inr wrote_refl)
  next
    case (Some request)
    then obtain x where "envelopeExchange k ''database add library list'' request w = (Inr x, w')"
      using r(2) by (auto simp: act_bind_Inr_iff step_Inr)
    from envelopeExchange_wrote [OF this assms(2)] show ?thesis using r(1) Some by simp
  qed
qed

text \<open>The requests the database server gets while a connection is opened.\<close>

definition start_requests ::
  "tables \<Rightarrow> caseTables \<Rightarrow> crypto \<Rightarrow> Config \<Rightarrow> SystemInfo \<Rightarrow> string \<Rightarrow> string \<Rightarrow> bytes list \<Rightarrow> bool" where
  "start_requests fs ct cy cfg info user password reqs \<longleftrightarrow>
     (\<exists>clientSeed serverSeed pw ub attributes libraries.
        passwordSubstitute fs ct cy user password (syPasswordLevel info) clientSeed serverSeed = Inr pw \<and>
        signonUserBytes fs ct user 0 False = Inr ub \<and>
        buildSetServerAttributesRequestVRM fs ct cfg True (cfgCommitmentControl cfg) (syVersion info) = Inr attributes \<and>
        buildAddLibraryListRequest fs ct cfg = Inr libraries \<and>
        reqs = [exchangeSeedsRequest clientSeed, startServerRequest pw ub, attributes] @
          (case libraries of None \<Rightarrow> [] | Some request \<Rightarrow> [request]))"

lemma connectSteps_wrote:
  assumes "connectSteps fs ct cy nw ctx cfg info user password k w = (Inr info', w')" "k < length (wdSockets w)"
  shows "\<exists>reqs. start_requests fs ct cy cfg info user password reqs \<and> wrote k reqs w w'"
proof -
  let ?seed = "bytesU64 (nwMillis nw (wdClock w))"
  from assms(1) obtain serverSeed w1 info1 w2 w3 where
    s: "databaseExchangeSeeds k ?seed w = (Inr serverSeed, w1)" and
    t: "databaseStartServer fs ct cy k info user password ?seed serverSeed w1 = (Inr info1, w2)" and
    a: "databaseSetServerAttributes fs ct k cfg info1 True w2 = (Inr info', w3)" and
    l: "databaseAddLibraryList fs ct k cfg w3 = (Inr (), w')"
    by (auto simp: connectSteps_def act_bind_Inr_iff step_Inr)
  note s1 = exchangeSeeds_wrote [OF s assms(2)]
  then have k1: "k < length (wdSockets w1)" using assms(2) by (simp add: wrote_def)
  from startServer_wrote [OF t k1] obtain pw ub where
    t1: "passwordSubstitute fs ct cy user password (syPasswordLevel info) ?seed serverSeed = Inr pw"
      "signonUserBytes fs ct user 0 False = Inr ub" "wrote k [startServerRequest pw ub] w1 w2" "syVersion info1 = syVersion info"
    by blast
  then have k2: "k < length (wdSockets w2)" using k1 by (simp add: wrote_def)
  from setServerAttributes_wrote [OF a k2] obtain att where
    a1: "buildSetServerAttributesRequestVRM fs ct cfg True (cfgCommitmentControl cfg) (syVersion info) = Inr att" "wrote k [att] w2 w3"
    using t1(4) by auto
  then have k3: "k < length (wdSockets w3)" using k2 by (simp add: wrote_def)
  from addLibraryList_wrote [OF l k3] obtain lib where
    l1: "buildAddLibraryListRequest fs ct cfg = Inr lib" "wrote k (case lib of None \<Rightarrow> [] | Some request \<Rightarrow> [request]) w3 w'" by blast
  have "wrote k ([exchangeSeedsRequest ?seed, startServerRequest pw ub, att] @ (case lib of None \<Rightarrow> [] | Some request \<Rightarrow> [request])) w w'"
    using wrote_trans [OF s1 wrote_trans [OF t1(3) wrote_trans [OF a1(2) l1(2)]]] by simp
  then show ?thesis using t1 a1 l1 unfolding start_requests_def by blast
qed

lemma dialContext_fresh:
  "dialContext nw d address w = (Inr k, w') \<Longrightarrow> k < length (wdSockets w') \<and> hcSent (wdSockets w' ! k) = []"
  by (auto simp: dialContext_def tick_def split: sum.splits)

lemma dialHostServer_fresh:
  assumes "dialHostServer nw cfg port w = (Inr k, w')"
  shows "k < length (wdSockets w') \<and> hcSent (wdSockets w' ! k) = []"
proof -
  have map_Inr: "(case dialContext nw d a w0 of (Inl e, w1) \<Rightarrow> (Inl (g e), w1) | (Inr raw, w1) \<Rightarrow> (Inr raw, w1)) = (Inr y, w2) \<longleftrightarrow>
      dialContext nw d a w0 = (Inr y, w2)" for d a w0 g y w2
    by (auto split: prod.splits sum.splits)
  from assms obtain d a w1 w2 where d: "dialContext nw d a w = (Inr k, w1)" and o: "applySocketOptions nw cfg w1 = (Inr (), w2)"
      and h: "w' = w2 \<or> handshake nw cfg w2 = (Inr (), w')"
    by (auto simp: dialHostServer_def Let_def act_bind_Inr_iff step_Inr map_Inr split: if_splits)
  have "wdSockets w2 = wdSockets w1" using o by (simp add: applySocketOptions_def applyOptions_sockets)
  moreover have "wdSockets w' = wdSockets w2" using h by (auto simp: handshake_def tick_def split: option.splits)
  ultimately show ?thesis using dialContext_fresh [OF d] by simp
qed

lemma connectDatabase_Inr:
  assumes "connectDatabase fs ct cy nw ctx cfg info user password w = (Inr (k, info'), w')"
  shows "start_requests fs ct cy cfg info user password (hcSent (wdSockets w' ! k))"
proof -
  from assms obtain port w1 w2 where d: "dialHostServer nw cfg port w1 = (Inr k, w2)"
    and s: "connectSteps fs ct cy nw ctx cfg info user password k w2 = (Inr info', w')"
    by (auto simp: connectDatabase_def act_bind_Inr_iff step_Inr split: if_splits)
  from dialHostServer_fresh [OF d] have f: "k < length (wdSockets w2)" "hcSent (wdSockets w2 ! k) = []" by simp_all
  from connectSteps_wrote [OF s f(1)] f(2) show ?thesis by (auto simp: wrote_def)
qed

definition fresh_conn :: "Config \<Rightarrow> hostConn \<Rightarrow> Conn \<Rightarrow> bool" where
  "fresh_conn cfg s c \<longleftrightarrow> IsValid c \<and> cnCfg c = cfg \<and> cnAutoCommit c \<and> cnCommitment c = cfgCommitmentControl cfg \<and>
     cnIn c = hcIn s \<and> cnSent c = [] \<and> cnRead c = [] \<and> nsUsed (cnNames c) = {} \<and> nsBusy (cnNames c) = {} \<and> cnClientInfo c = []"

lemma openConn_Inr:
  assumes "openConn fs ct cy nw ctx cfg w = (Inr (k, c), w')"
  shows "fresh_conn cfg (wdSockets w' ! k) c \<and>
    (\<exists>info. start_requests fs ct cy cfg info (cfgUser cfg) (cfgPassword cfg) (hcSent (wdSockets w' ! k)))"
proof -
  from assms obtain ctx1 info w1 info1 pkg warning where
    d: "connectDatabase fs ct cy nw ctx1 cfg info (cfgUser cfg) (cfgPassword cfg) w1 = (Inr (k, info1), w')" and
    c: "c = recordWarning (case warning of None \<Rightarrow> [] | Some x \<Rightarrow> [x]) (newConn nw cfg (wdSockets w' ! k) info1 pkg (wdClock w'))"
    by (auto simp: openConn_def Let_def act_bind_Inr_iff step_Inr)
  have "fresh_conn cfg (wdSockets w' ! k) c" by (simp add: c fresh_conn_def recordWarning_def newConn_def IsValid_def)
  then show ?thesis using connectDatabase_Inr [OF d] by blast
qed

lemma AppendLLCP_nil: "AppendLLCP [] cp payload = bytesU32 (word_of_nat (6 + length payload)) @ bytesU16 cp @ payload"
  by (simp add: AppendLLCP_def add.commute)

section \<open>Properties\<close>

text \<open>
  C16. Opening a connection leaks no socket and leaves a connection that is ready to use. Whatever the
  network and the servers do: the sockets that were there before are untouched; when \<open>openConn\<close> fails,
  all the sockets it opened (port mapper, sign-on, database) are closed again; when it succeeds exactly
  one new socket is open, the database server got on it the seed exchange, the start request with the
  password substitute, the attributes for automatic commit and the library list, if one is configured,
  in this order and nothing else, and the connection reads on from that socket, is valid, in automatic
  commit with the configured level, and owns no names, replies or client information yet.
\<close>

theorem open_conn:
  "case openConn fs ct cy nw ctx cfg w of
     (Inl e, w') \<Rightarrow> leaves {} w w'
   | (Inr (k, c), w') \<Rightarrow> leaves {k} w w' \<and> fresh_conn cfg (wdSockets w' ! k) c \<and>
       (\<exists>info. start_requests fs ct cy cfg info (cfgUser cfg) (cfgPassword cfg) (hcSent (wdSockets w' ! k)))"
proof (cases "openConn fs ct cy nw ctx cfg w")
  case (Pair r w')
  show ?thesis
  proof (cases r)
    case (Inl e)
    then show ?thesis using opensD(1) [OF opens_openConn] Pair by simp
  next
    case (Inr x)
    obtain k c where x: "x = (k, c)" by fastforce
    have o: "openConn fs ct cy nw ctx cfg w = (Inr (k, c), w')" using Pair Inr x by simp
    from openConn_Inr [OF o] opensD(2) [OF opens_openConn o] show ?thesis unfolding o by simp
  qed
qed

text \<open>
  C21. The two requests that carry the password are well formed at every password level: each is a
  packet that is read back whole whatever follows it; after its header come the scheme byte of the
  level (1 for the 8-byte DES substitute, 3 for the 20-byte SHA-1 one, 7 for the 64-byte SHA-512 one)
  and the parameters, with the substitute, of the size the scheme announces, and the user id.
\<close>

theorem signon_requests_understood:
  assumes "crypto_sizes cy" "passwordSubstitute fs ct cy user password (syPasswordLevel info) clientSeed serverSeed = Inr pw"
    and "signonUserBytes fs ct user 0 False = Inr ub"
  shows "let kind = substitute_kind (syPasswordLevel info);
      signon = signonInfoRequest info pw ub; start = startServerRequest pw ub;
      credentials = [(0x1105, pw), (0x1104, ub)] in
    length pw = fst kind \<and>
    readPacket \<lparr>inBytes = signon @ rest, inErr = e\<rparr> = (Inr signon, \<lparr>inBytes = rest, inErr = e\<rparr>) \<and>
    drop 20 signon = snd kind # params ((0x1113, bytesU32 1200) # credentials @ (if 5 \<le> syLevel info then [(0x1128, [1])] else [])) \<and>
    readPacket \<lparr>inBytes = start @ rest, inErr = e\<rparr> = (Inr start, \<lparr>inBytes = rest, inErr = e\<rparr>) \<and>
    drop 20 start = snd kind # 1 # params credentials"
proof -
  note k = substitute_announced [OF assms(1,2)]
  have ub: "length ub = 10" using assms(3) by (auto simp: signonUserBytes_def EncodeEBCDIC37BlankPad_def res_simps split: if_splits)
  have pw: "length pw \<le> 64" using k(1) by (simp add: substitute_kind_def split: if_splits)
  let ?s = "signonInfoRequest info pw ub" and ?t = "startServerRequest pw ub"
  have ls: "length ?s = 37 + length pw + 16 + (if 5 \<le> syLevel info then 7 else 0)"
    using ub by (simp add: signonInfoRequest_def Let_def HeaderSize_def)
  have lt: "length ?t = 44 + length pw" using ub by (simp add: startServerRequest_def)
  have s: "readPacket \<lparr>inBytes = ?s @ rest, inErr = e\<rparr> = (Inr ?s, \<lparr>inBytes = rest, inErr = e\<rparr>)"
    by (subst readPacket_ok [where rest = rest]) (use ls pw in \<open>auto simp: HeaderSize_def maxPacketLength_def signonInfoRequest_def Let_def buildHeader_def\<close>)
  have t: "readPacket \<lparr>inBytes = ?t @ rest, inErr = e\<rparr> = (Inr ?t, \<lparr>inBytes = rest, inErr = e\<rparr>)"
    by (subst readPacket_ok [where rest = rest]) (use lt pw in \<open>auto simp: HeaderSize_def maxPacketLength_def startServerRequest_def\<close>)
  have ps: "drop 20 ?s = snd (substitute_kind (syPasswordLevel info)) #
      params ((0x1113, bytesU32 1200) # [(0x1105, pw), (0x1104, ub)] @ (if 5 \<le> syLevel info then [(0x1128, [1])] else []))"
    using ub k(2) by (simp add: signonInfoRequest_def Let_def buildHeader_def AppendLLCP_nil clientCCSID_def)
  have pt: "drop 20 ?t = snd (substitute_kind (syPasswordLevel info)) # 1 # params [(0x1105, pw), (0x1104, ub)]"
    using ub k(2) by (simp add: startServerRequest_def AppendLLCP_nil)
  show ?thesis unfolding Let_def using k(1) s t ps pt by simp
qed

lemma sign_on_example:
  "passwordSubstitute blankTables asciiCase padCipher [] ''B'' 2 (replicate 8 0) (replicate 8 0) = Inr (replicate 20 0)"
  "signonUserBytes blankTables asciiCase [] 0 False = Inr (replicate 10 0x40)"
proof -
  have u: "ToUpperBy asciiCase [] = []" by (simp add: ToUpperBy_def string_of_runes_def)
  have e: "EncodeEBCDIC37 blankTables [] = Inr []" using blank_encodes [of "[]"] by simp
  have "length (EncodeUTF16BEBlankPad [] 20) = 20" by (simp add: EncodeUTF16BEBlankPad_def)
  then have n: "EncodeUTF16BEBlankPad [] 20 \<noteq> []" by auto
  show "passwordSubstitute blankTables asciiCase padCipher [] ''B'' 2 (replicate 8 0) (replicate 8 0) = Inr (replicate 20 0)"
    using n by (simp add: passwordSubstitute_def u sha1PasswordSubstitute_def checkPasswordPresent_def encryptPasswordSHA_def userIDUTF16_def
      padCipher_def Let_def)
  show "signonUserBytes blankTables asciiCase [] 0 False = Inr (replicate 10 0x40)"
    by (simp add: signonUserBytes_def EncodeEBCDIC37BlankPad_def u e copy_into_def)
qed

theorem signon_requests_understood_witness:
  "let signon = signonInfoRequest (newSystemInfo ''H''\<lparr>syPasswordLevel := 2\<rparr>) (replicate 20 0) (replicate 10 0x40) in
   readPacket \<lparr>inBytes = signon @ [1], inErr = EOF\<rparr> = (Inr signon, \<lparr>inBytes = [1], inErr = EOF\<rparr>) \<and> signon ! 20 = 3"
proof -
  let ?i = "newSystemInfo ''H''\<lparr>syPasswordLevel := 2\<rparr>"
  have "passwordSubstitute blankTables asciiCase padCipher [] ''B'' (syPasswordLevel ?i) (replicate 8 0) (replicate 8 0) = Inr (replicate 20 0)"
    using sign_on_example(1) by simp
  from signon_requests_understood [OF padCipher_sizes this sign_on_example(2), of "[1]" EOF]
  have r: "readPacket \<lparr>inBytes = signonInfoRequest ?i (replicate 20 0) (replicate 10 0x40) @ [1], inErr = EOF\<rparr> =
        (Inr (signonInfoRequest ?i (replicate 20 0) (replicate 10 0x40)), \<lparr>inBytes = [1], inErr = EOF\<rparr>)"
    and d: "take 1 (drop 20 (signonInfoRequest ?i (replicate 20 0) (replicate 10 0x40))) = [3]"
    by (simp_all add: Let_def substitute_kind_def)
  have "xs ! 20 = x" if "take 1 (drop 20 xs) = [x]" for xs :: bytes and x
    using that by (cases "drop 20 xs") (auto simp: drop_Cons' nth_via_drop)
  from this [OF d] r show ?thesis by (simp add: Let_def)
qed

section \<open>An example run\<close>

text \<open>A network and two servers with which a connection is opened without an error.\<close>

definition simpleReply :: "u16 \<Rightarrow> bytes \<Rightarrow> bytes" where
  "simpleReply replyID payload = buildHeader (word_of_nat (24 + length payload)) 0 0xE009 0 replyID @ bytesU32 0 @ payload"

lemma simpleReply_read:
  assumes "length payload < 1000"
  shows "readPacket \<lparr>inBytes = simpleReply r payload @ rest, inErr = e\<rparr> = (Inr (simpleReply r payload), \<lparr>inBytes = rest, inErr = e\<rparr>)"
    and "readSimpleReplyForID (simpleReply r payload) r = Inr (0, payload)"
proof -
  show "readPacket \<lparr>inBytes = simpleReply r payload @ rest, inErr = e\<rparr> = (Inr (simpleReply r payload), \<lparr>inBytes = rest, inErr = e\<rparr>)"
    by (subst readPacket_ok [where rest = rest])
      (use assms in \<open>auto simp: simpleReply_def HeaderSize_def maxPacketLength_def buildHeader_def\<close>)
  have h: "ParseHeader (simpleReply r payload) = Inr \<lparr>hLength = word_of_nat (24 + length payload), hHeaderID = 0, hServerID = 0xE009,
      hCSInstance = 0, hCorrelationID = 0, hTemplateLength = 0, hReqRepID = r\<rparr>"
    unfolding simpleReply_def buildHeader_eq_MarshalBinary by (rule ParseHeader_MarshalBinary) (simp add: HeaderSize_def)
  have "readSimpleReply (simpleReply r payload) = Inr (0, payload)"
    by (simp add: readSimpleReply_def readReturnCode_def simpleReply_def HeaderSize_def slice_append_right slice_def)
  then show "readSimpleReplyForID (simpleReply r payload) r = Inr (0, payload)" by (simp add: readSimpleReplyForID_def h)
qed

text \<open>A socket on which every write succeeds and the server has sent the given bytes.\<close>

definition served :: "nat \<Rightarrow> bytes \<Rightarrow> world \<Rightarrow> bool" where
  "served k bs w \<longleftrightarrow> k < length (wdSockets w) \<and> hcWrites (wdSockets w ! k) = [] \<and> hcIn (wdSockets w ! k) = \<lparr>inBytes = bs, inErr = EOF\<rparr>"

lemma served_write: "served k bs w \<Longrightarrow> \<exists>w'. connWrite k p w = (Inr (), w') \<and> served k bs w' \<and> wdClock w < wdClock w'"
  by (simp add: served_def connWrite_def setSocket_def tick_def Let_def)

lemma served_read:
  assumes "served k bs w" "f \<lparr>inBytes = bs, inErr = EOF\<rparr> = (r, \<lparr>inBytes = rest, inErr = EOF\<rparr>)"
  shows "\<exists>w'. connRead k f w = (r, w') \<and> served k rest w' \<and> wdClock w < wdClock w'"
  using assms by (simp add: served_def connRead_def setSocket_def tick_def Let_def)

lemma served_simple:
  assumes "served k (simpleReply r payload @ rest) w" "length payload < 1000"
  shows "\<exists>w'. simpleExchange k request r w = (Inr (0, payload), w') \<and> served k rest w' \<and> wdClock w < wdClock w'"
proof -
  from served_write [OF assms(1)] obtain w1 where w: "connWrite k request w = (Inr (), w1)" "served k (simpleReply r payload @ rest) w1" "wdClock w < wdClock w1" by blast
  from served_read [where f = readPacket, OF w(2) simpleReply_read(1) [OF assms(2)]] obtain w2 where
    r: "connRead k readPacket w1 = (Inr (simpleReply r payload), w2)" "served k rest w2" "wdClock w1 < wdClock w2" by blast
  show ?thesis using w(1,3) r simpleReply_read(2) [OF assms(2)] by (simp add: simpleExchange_def act_bind_def act_res_def)
qed

lemma served_envelope:
  assumes "served k (okReply @ rest) w"
  shows "\<exists>w'. envelopeExchange k what request w = (Inr [], w') \<and> served k rest w' \<and> wdClock w < wdClock w'"
proof -
  from served_write [OF assms] obtain w1 where w: "connWrite k request w = (Inr (), w1)" "served k (okReply @ rest) w1" "wdClock w < wdClock w1" by blast
  have p: "readPacket \<lparr>inBytes = okReply @ rest, inErr = EOF\<rparr> = (Inr okReply, \<lparr>inBytes = rest, inErr = EOF\<rparr>)"
    by (simp add: okReply_packet)
  from served_read [where f = readPacket, OF w(2) p] obtain w2 where r: "connRead k readPacket w1 = (Inr okReply, w2)" "served k rest w2" "wdClock w1 < wdClock w2" by blast
  show ?thesis using w(1,3) r
    by (simp add: envelopeExchange_def act_bind_def act_res_def act_return_def okReply_envelope hasError_def)
qed

definition signonReplies :: bytes where
  "signonReplies = simpleReply 0xF003 (AppendLLCP [] 0x1103 (replicate 8 0) @ AppendLLCP [] 0x1119 [2]) @ simpleReply 0xF004 []"

definition databaseReplies :: bytes where
  "databaseReplies = simpleReply 0xF001 (replicate 8 0) @ simpleReply 0xF002 [] @ okReply"

definition exampleNetwork :: network where
  "exampleNetwork =
     \<lparr>nwDial = (\<lambda>t d a. Inr \<lparr>hcIn = \<lparr>inBytes = (if t = 0 then signonReplies else databaseReplies), inErr = EOF\<rparr>, hcWrites = [], hcWriteErr = EOF,
                 hcSent = [], hcClosed = False\<rparr>),
      nwOption = (\<lambda>t opt. None), nwHandshake = (\<lambda>t name. None), nwMillis = (\<lambda>t. 0), nwWithTimeout = (\<lambda>d ctx. ctx)\<rparr>"

definition exampleLogin :: Config where
  "exampleLogin = exampleConfig\<lparr>cfgPort := 8471, cfgUser := [], cfgPassword := ''B'', cfgExtendedDynamic := False\<rparr>"

lemma exampleLogin_fields:
  "cfgPort exampleLogin = 8471" "cfgUser exampleLogin = []" "cfgPassword exampleLogin = ''B''" "\<not> cfgExtendedDynamic exampleLogin"
  "\<not> cfgUseTLS exampleLogin" "cfgTCPNoDelay exampleLogin = None" "cfgReceiveBufferSize exampleLogin = 0" "cfgSendBufferSize exampleLogin = 0"
  "cfgConnectTimeout exampleLogin = 0" "defaultSQLLibrary asciiCase exampleLogin = []" "libraryTokens asciiCase exampleLogin = []"
  by (simp_all add: exampleLogin_def exampleConfig_def defaultSQLLibrary_def libraryTokens_def normalize_empty)

lemma example_dial:
  assumes "0 < port" "wdClock w = t"
  shows "\<exists>k w'. dialHostServer exampleNetwork exampleLogin port w = (Inr k, w') \<and> wdClock w' = Suc t \<and>
    served k (if t = 0 then signonReplies else databaseReplies) w'"
  using assms by (simp add: dialHostServer_def Let_def act_bind_def dialContext_def exampleNetwork_def applySocketOptions_def socketOptions_def
    exampleLogin_fields on_error_def act_return_def served_def tick_def)

lemma example_seed: "bytesU64 0 = replicate 8 0"
  by code_simp

lemma example_params:
  "paramLoop (exchangeParam fs) (AppendLLCP [] 0x1103 (replicate 8 0) @ AppendLLCP [] 0x1119 [2]) (info, []) =
     Inr (info\<lparr>syPasswordLevel := 2\<rparr>, replicate 8 0)"
proof -
  have p: "ParseLLCP (AppendLLCP [] cp q @ rest) = Inr (cp, q, rest)" if "length q < 1000" for cp q rest
    using that by (intro ParseLLCP_AppendLLCP) simp
  have l: "length (AppendLLCP [] cp q) = 6 + length q" for cp q by (simp add: AppendLLCP_nil)
  have "paramLoop (exchangeParam fs) (AppendLLCP [] 0x1103 (replicate 8 0) @ AppendLLCP [] 0x1119 [2]) (info, []) =
      paramLoop (exchangeParam fs) (AppendLLCP [] 0x1119 [2]) (info, replicate 8 0)"
    by (subst paramLoop.simps) (simp add: p l exchangeParam_def)
  also have "\<dots> = paramLoop (exchangeParam fs) [] (info\<lparr>syPasswordLevel := 2\<rparr>, replicate 8 0)"
    using p [where cp = "0x1119" and q = "[2]" and rest = "[]"] by (subst paramLoop.simps) (simp add: l exchangeParam_def)
  finally show ?thesis by (simp add: paramLoop.simps)
qed

lemma example_signon:
  assumes "wdClock w = 0"
  shows "\<exists>info w'. connectSystemInfo blankTables asciiCase padCipher exampleNetwork Background exampleLogin [] ''B'' w = (Inr info, w') \<and>
    syPasswordLevel info = 2 \<and> syVersion info = 0 \<and> 0 < wdClock w'"
proof -
  let ?info = "newSystemInfo (cfgHost exampleLogin)\<lparr>syPasswordLevel := 2\<rparr>"
  from example_dial [of SignonPort w 0] assms obtain k w1 where
    d: "dialHostServer exampleNetwork exampleLogin SignonPort w = (Inr k, w1)" "served k signonReplies w1"
    by (auto simp: SignonPort_def)
  from served_simple [OF d(2) [unfolded signonReplies_def], of "exchangeAttributesRequest (replicate 8 0)"] obtain w2 where
    e: "simpleExchange k (exchangeAttributesRequest (replicate 8 0)) 0xF003 w1 =
          (Inr (0, AppendLLCP [] 0x1103 (replicate 8 0) @ AppendLLCP [] 0x1119 [2]), w2)" "served k (simpleReply 0xF004 [] @ []) w2"
    by (auto simp: AppendLLCP_nil)
  have se: "signonExchange blankTables exampleNetwork k (cfgHost exampleLogin) w1 = (Inr (?info, replicate 8 0, replicate 8 0), w2)"
    by (simp add: signonExchange_def act_bind_def act_get_def exampleNetwork_def example_seed e(1) act_res_def example_params act_return_def)
  from served_simple [OF e(2), of "signonInfoRequest ?info (replicate 20 0) (replicate 10 0x40)"] obtain w3 where
    a: "simpleExchange k (signonInfoRequest ?info (replicate 20 0) (replicate 10 0x40)) 0xF004 w2 = (Inr (0, []), w3)" by auto
  have sa: "signonAuthenticate blankTables asciiCase padCipher k ?info [] ''B'' (replicate 8 0) (replicate 8 0) w2 = (Inr ?info, w3)"
    using a by (simp add: signonAuthenticate_def act_bind_def act_res_def sign_on_example paramLoop.simps)
  have "connectSystemInfo blankTables asciiCase padCipher exampleNetwork Background exampleLogin [] ''B'' w = (Inr ?info, connClosed k w3)"
    by (simp add: connectSystemInfo_def act_bind_def exampleLogin_fields d(1) act_defer_def ctx_error_def se sa netClose_def act_modify_def)
  then show ?thesis by (simp add: newSystemInfo_def connClosed_def setSocket_def tick_def)
qed

lemma example_database:
  assumes "0 < wdClock w" "syPasswordLevel info = 2" "syVersion info = 0"
  shows "\<exists>k info' w'. connectDatabase blankTables asciiCase padCipher exampleNetwork Background exampleLogin info [] ''B'' w = (Inr (k, info'), w')"
proof -
  from example_dial [of 8471 w "wdClock w"] assms(1) obtain k w1 where
    d: "dialHostServer exampleNetwork exampleLogin 8471 w = (Inr k, w1)" "served k databaseReplies w1" by auto
  from served_simple [OF d(2) [unfolded databaseReplies_def], of "exchangeSeedsRequest (replicate 8 0)"] obtain w2 where
    e: "simpleExchange k (exchangeSeedsRequest (replicate 8 0)) 0xF001 w1 = (Inr (0, replicate 8 0), w2)"
      "served k (simpleReply 0xF002 [] @ okReply) w2" by auto
  from served_simple [OF e(2), of "startServerRequest (replicate 20 0) (replicate 10 0x40)"] obtain w3 where
    s: "simpleExchange k (startServerRequest (replicate 20 0) (replicate 10 0x40)) 0xF002 w2 = (Inr (0, []), w3)" "served k (okReply @ []) w3"
    by auto
  obtain att where b: "buildSetServerAttributesRequestVRM blankTables asciiCase exampleLogin True (cfgCommitmentControl exampleLogin) 0 = Inr att"
    using attributes_example exampleLogin_fields(10) by blast
  from served_envelope [OF s(2)] obtain w4 where a: "envelopeExchange k ''database server attributes'' att w3 = (Inr [], w4)" by blast
  have l: "buildAddLibraryListRequest blankTables asciiCase exampleLogin = Inr None"
    by (simp add: buildAddLibraryListRequest_def configuredLibraryList_def exampleLogin_fields Let_def)
  have 1: "databaseExchangeSeeds k (replicate 8 0) w1 = (Inr (replicate 8 0), w2)"
    by (simp add: databaseExchangeSeeds_def act_bind_def e(1) act_return_def)
  have 2: "databaseStartServer blankTables asciiCase padCipher k info [] ''B'' (replicate 8 0) (replicate 8 0) w2 = (Inr info, w3)"
    by (simp add: databaseStartServer_def act_bind_def act_res_def assms(2) sign_on_example s(1) paramLoop.simps)
  have 3: "databaseSetServerAttributes blankTables asciiCase k exampleLogin info True w3 = (Inr info, w4)"
    by (simp add: databaseSetServerAttributes_def act_bind_def act_res_def assms(3) b a parseServerAttributesPayload.simps)
  have 4: "databaseAddLibraryList blankTables asciiCase k exampleLogin w4 = (Inr (), w4)"
    by (simp add: databaseAddLibraryList_def act_bind_def act_res_def l act_return_def)
  have c: "connectSteps blankTables asciiCase padCipher exampleNetwork Background exampleLogin info [] ''B'' k w1 = (Inr info, w4)"
    by (simp add: connectSteps_def act_bind_def act_get_def exampleNetwork_def example_seed ctx_error_def on_error_def 1 2 3 4 act_return_def)
  show ?thesis by (simp add: connectDatabase_def act_bind_def databasePort_def exampleLogin_fields act_return_def d(1) c)
qed

lemma open_example:
  "\<exists>k c w'. openConn blankTables asciiCase padCipher exampleNetwork Background exampleLogin \<lparr>wdSockets = [], wdClock = 0\<rparr> = (Inr (k, c), w')"
proof -
  let ?w = "\<lparr>wdSockets = [], wdClock = 0\<rparr> :: world"
  from example_signon [of ?w] obtain info w1 where
    s: "connectSystemInfo blankTables asciiCase padCipher exampleNetwork Background exampleLogin [] ''B'' ?w = (Inr info, w1)"
      "syPasswordLevel info = 2" "syVersion info = 0" "0 < wdClock w1" by auto
  from example_database [OF s(4,2,3)] obtain k info' w2 where
    d: "connectDatabase blankTables asciiCase padCipher exampleNetwork Background exampleLogin info [] ''B'' w1 = (Inr (k, info'), w2)" by blast
  show ?thesis
    by (simp add: openConn_def Let_def act_bind_def exampleLogin_fields s(1) d newPackageState_def on_error_def act_res_def act_get_def act_return_def)
qed

theorem open_conn_witness:
  "\<exists>k c w'. openConn blankTables asciiCase padCipher exampleNetwork Background exampleLogin \<lparr>wdSockets = [], wdClock = 0\<rparr> = (Inr (k, c), w') \<and>
     leaves {k} \<lparr>wdSockets = [], wdClock = 0\<rparr> w' \<and> fresh_conn exampleLogin (wdSockets w' ! k) c"
proof -
  obtain k c w' where o: "openConn blankTables asciiCase padCipher exampleNetwork Background exampleLogin \<lparr>wdSockets = [], wdClock = 0\<rparr> =
      (Inr (k, c), w')" using open_example by blast
  from open_conn [where fs = blankTables and ct = asciiCase and cy = padCipher and nw = exampleNetwork and ctx = Background and
      cfg = exampleLogin and w = "\<lparr>wdSockets = [], wdClock = 0\<rparr>"] o
  show ?thesis by auto
qed

end
