(* ===== verification/Dsn.thy ===== *)
theory Dsn
  imports Params Attributes "HOL-Library.Char_ord" "HOL-Library.List_Lexorder"
begin

text \<open>
  The connection string (\<open>src/dsn.go\<close>) and the groups of options that live with the code they
  configure: sockets (\<open>src/transport.go\<close>), packages (\<open>src/package.go\<close>), client information
  (\<open>src/clientinfo.go\<close>), bidi (\<open>src/bidi_settings.go\<close>) and timestamps (\<open>src/timestamp.go\<close>).

  \<open>ParseDSN\<close> is a sequence of steps on the configuration, one per option in the order of the source,
  that stops at the first error. The URL parser and \<open>time.ParseDuration\<close> are parameters
  (\<open>dsnLibrary\<close>); the parsed query is an association list with distinct keys.
\<close>

section \<open>Definitions\<close>

record parsedURL =
  puScheme :: string
  puUser :: "(string \<times> string option) option"
  puHostname :: string
  puPort :: string
  puPath :: string
  puQuery :: "(string \<times> string list) list"

record dsnLibrary =
  dlParse :: "string \<Rightarrow> parsedURL res"
  dlDuration :: "string \<Rightarrow> int res"

type_synonym query = "(string \<times> string list) list"
type_synonym option_step = "Config \<Rightarrow> Config res"

subsection \<open>Looking options up\<close>

definition query_Get :: "query \<Rightarrow> string \<Rightarrow> string" where
  "query_Get q name = (case map_of q name of Some (v # _) \<Rightarrow> v | _ \<Rightarrow> [])"

definition normalizeOptionKey :: "string \<Rightarrow> string" where
  "normalizeOptionKey value = filter (\<lambda>c. c \<notin> {CHR '' '', CHR ''_'', CHR ''-''}) value"

fun firstNonEmpty :: "string list \<Rightarrow> string option" where
  "firstNonEmpty [] = None"
| "firstNonEmpty (candidate # rest) =
     (let value = TrimSpace candidate in if value \<noteq> [] then Some value else firstNonEmpty rest)"

definition query_values :: "query \<Rightarrow> string \<Rightarrow> string list" where
  "query_values q key = (case map_of q key of Some vs \<Rightarrow> vs | None \<Rightarrow> [])"

definition optionValue :: "query \<Rightarrow> string \<Rightarrow> string option" where
  "optionValue q name =
     (let value = TrimSpace (query_Get q name) in
      if value \<noteq> [] then Some value
      else
        let want = normalizeOptionKey (ToLower name);
            keys = filter (\<lambda>key. normalizeOptionKey (ToLower (TrimSpace key)) = want) (sort (map fst q)) in
        firstNonEmpty (concat (map (query_values q) keys)))"

subsection \<open>Option values\<close>

definition parseEnumeratedOption :: "string \<Rightarrow> int \<Rightarrow> int \<Rightarrow> (string \<times> int) list \<Rightarrow> int res" where
  "parseEnumeratedOption value lo hi mappings =
     (let trimmed = TrimSpace (ToLower value) in
      if trimmed = [] then Inl (Errorf ''empty option'' [])
      else case ParseInt64 trimmed of
        Inr parsed \<Rightarrow>
          if parsed < lo \<or> parsed > hi then Inl (Errorf ''option %q out of range'' [FStr value]) else Inr parsed
      | Inl _ \<Rightarrow>
          (case map_of mappings trimmed of
             Some parsed \<Rightarrow> Inr parsed
           | None \<Rightarrow>
               (case map_of mappings (normalizeOptionKey trimmed) of
                  Some parsed \<Rightarrow> Inr parsed
                | None \<Rightarrow> Inl (Errorf ''unknown option %q'' [FStr value]))))"

definition parseDateFormatOption :: "string \<Rightarrow> int res" where
  "parseDateFormatOption value = parseEnumeratedOption value 0 7
     [(''julian'', 0), (''mdy'', 1), (''dmy'', 2), (''ymd'', 3), (''usa'', 4), (''iso'', 5), (''eur'', 6), (''jis'', 7)]"

definition parseTimeFormatOption :: "string \<Rightarrow> int res" where
  "parseTimeFormatOption value = parseEnumeratedOption value 0 4
     [(''hms'', 0), (''usa'', 1), (''iso'', 2), (''eur'', 3), (''jis'', 4)]"

definition parseDateSeparatorOption :: "string \<Rightarrow> int res" where
  "parseDateSeparatorOption value = parseEnumeratedOption value 0 4
     [(''/'', 0), (''slash'', 0), (''-'', 1), (''dash'', 1), (''.'', 2), (''dot'', 2), (''period'', 2),
      ('','', 3), (''comma'', 3), (''space'', 4)]"

definition parseTimeSeparatorOption :: "string \<Rightarrow> int res" where
  "parseTimeSeparatorOption value = parseEnumeratedOption value 0 3
     [('':'', 0), (''colon'', 0), (''.'', 1), (''dot'', 1), (''period'', 1), ('','', 2), (''comma'', 2), (''space'', 3)]"

definition parseDecimalSeparatorOption :: "string \<Rightarrow> int res" where
  "parseDecimalSeparatorOption value = parseEnumeratedOption value 0 1
     [(''.'', 0), (''dot'', 0), (''period'', 0), ('','', 1), (''comma'', 1)]"

definition parseCommitmentControlOption :: "string \<Rightarrow> int res" where
  "parseCommitmentControlOption value = parseEnumeratedOption value 0 4
     [(''none'', 0), (''cs'', 1), (''cursorstability'', 1), (''chg'', 2), (''changedpage'', 2), (''all'', 3),
      (''rr'', 4), (''repeatableread'', 4)]"

definition parseDurationValue :: "dsnLibrary \<Rightarrow> string \<Rightarrow> int res" where
  "parseDurationValue lib value =
     (case dlDuration lib value of
        Inr duration \<Rightarrow> Inr duration
      | Inl _ \<Rightarrow> res_bind (ParseInt64 value) (\<lambda>seconds. Inr (wrap_int64 (seconds * 1000000000))))"

definition parseSocketTimeoutValue :: "dsnLibrary \<Rightarrow> string \<Rightarrow> int res" where
  "parseSocketTimeoutValue lib value =
     (case ParseInt64 value of
        Inr millis \<Rightarrow>
          if millis < 0 then Inl (Errorf ''negative socket timeout %d'' [FInt millis])
          else Inr (wrap_int64 (millis * 1000000))
      | Inl _ \<Rightarrow>
          res_bind (dlDuration lib value) (\<lambda>timeout.
            if timeout < 0 then Inl (Errorf ''negative socket timeout %s'' [FStr value]) else Inr timeout))"

definition parseTimestampPrecisionOption :: "string \<Rightarrow> bool res" where
  "parseTimestampPrecisionOption value =
     (let v = ToLower (TrimSpace value) in
      if v = ''nanoseconds'' then Inr False else if v = ''string'' then Inr True
      else Inl (Errorf ''invalid timestampPrecision %q'' [FStr value]))"

definition parseBidiStringTypeOption :: "string \<Rightarrow> int res" where
  "parseBidiStringTypeOption value =
     (let trimmed = ToLower (TrimSpace value) in
      if trimmed = ''none'' \<or> trimmed = ''notset'' then Inr (-1)
      else res_bind (ParseInt64 trimmed) (\<lambda>parsed.
        if \<not> validBidiStringType parsed then Inl (Errorf ''bidi string type %d out of range'' [FInt parsed])
        else Inr parsed))"

subsection \<open>Steps on the configuration\<close>

definition invalidValue :: "string \<Rightarrow> string \<Rightarrow> 'a res" where
  "invalidValue name value = Inl (Wrap ErrInvalidDSN (''invalid '' @ name @ '' value %q'') [FStr value])"

text \<open>\<open>value, err := parse(text); if err != nil { return invalid }; config.Field = value\<close>\<close>

definition assign :: "string \<Rightarrow> (string \<Rightarrow> 'a res) \<Rightarrow> ('a \<Rightarrow> Config \<Rightarrow> Config) \<Rightarrow> string \<Rightarrow> option_step" where
  "assign name parse put value cfg =
     (case parse value of Inl _ \<Rightarrow> invalidValue name value | Inr x \<Rightarrow> Inr (put x cfg))"

text \<open>\<open>if value := strings.TrimSpace(config.RawQuery.Get(name)); value != ""\<close>, and with \<open>optionValue\<close>.\<close>

definition plain :: "string \<Rightarrow> (string \<Rightarrow> option_step) \<Rightarrow> option_step" where
  "plain name f cfg =
     (let value = TrimSpace (query_Get (cfgRawQuery cfg) name) in if value \<noteq> [] then f value cfg else Inr cfg)"

definition named :: "string \<Rightarrow> (string \<Rightarrow> option_step) \<Rightarrow> option_step" where
  "named name f cfg = (case optionValue (cfgRawQuery cfg) name of Some value \<Rightarrow> f value cfg | None \<Rightarrow> Inr cfg)"

fun runSteps :: "option_step list \<Rightarrow> option_step" where
  "runSteps [] cfg = Inr cfg"
| "runSteps (step # steps) cfg = res_bind (step cfg) (runSteps steps)"

definition checked :: "('a \<Rightarrow> bool) \<Rightarrow> (string \<Rightarrow> 'a res) \<Rightarrow> string \<Rightarrow> 'a res" where
  "checked ok parse value = res_bind (parse value) (\<lambda>x. if ok x then Inr x else Inl ErrRange)"

definition errorsMode :: "string \<Rightarrow> bool res" where
  "errorsMode value =
     (let v = ToLower (TrimSpace value) in
      if v = ''basic'' then Inr False else if v = ''full'' then Inr True else Inl ErrSyntax)"

definition parseServerAttributeOptions :: option_step where
  "parseServerAttributeOptions = runSteps
     [named ''queryOptimizeGoal'' (assign ''queryOptimizeGoal'' (\<lambda>v. parseEnumeratedOption v 0 2
        [(''default'', 0), (''firstio'', 1), (''*firstio'', 1), (''allio'', 2), (''*allio'', 2)])
        (\<lambda>x c. c\<lparr>cfgQueryOptimizeGoal := x\<rparr>)),
      named ''decimalMaxPrecision'' (assign ''decimalMaxPrecision'' (checked (\<lambda>p. p = 31 \<or> p = 63) ParseInt64)
        (\<lambda>x c. c\<lparr>cfgDecimalMaxPrecision := x\<rparr>)),
      named ''decimalMaxScale'' (assign ''decimalMaxScale'' (checked (\<lambda>s. 0 \<le> s \<and> s \<le> 63) ParseInt64)
        (\<lambda>x c. c\<lparr>cfgDecimalMaxScale := x\<rparr>)),
      named ''minimumDivideScale'' (assign ''minimumDivideScale'' (checked (\<lambda>s. 0 \<le> s \<and> s \<le> 9) ParseInt64)
        (\<lambda>x c. c\<lparr>cfgMinimumDivideScale := x\<rparr>)),
      named ''lobThreshold'' (assign ''lobThreshold'' (checked (\<lambda>t. 0 \<le> t \<and> t \<le> maxLOBThreshold) ParseInt64)
        (\<lambda>x c. c\<lparr>cfgLOBThreshold := x\<rparr>)),
      named ''blockSize'' (assign ''blockSize'' (checked validBlockSize ParseInt64) (\<lambda>x c. c\<lparr>cfgBlockSize := x\<rparr>)),
      named ''errors'' (assign ''errors'' errorsMode (\<lambda>x c. c\<lparr>cfgErrorsFull := x\<rparr>)),
      named ''trueAutocommit'' (assign ''trueAutocommit'' ParseBool (\<lambda>x c. c\<lparr>cfgTrueAutocommit := x\<rparr>)),
      named ''useBlockUpdate'' (assign ''useBlockUpdate'' ParseBool (\<lambda>x c. c\<lparr>cfgUseBlockUpdate := x\<rparr>)),
      named ''returnGeneratedKeys'' (assign ''returnGeneratedKeys'' ParseBool (\<lambda>x c. c\<lparr>cfgReturnGeneratedKeys := x\<rparr>)),
      named ''decfloatRoundingMode'' (assign ''decfloatRoundingMode'' (\<lambda>v. parseEnumeratedOption v 0 6
        [(''halfeven'', 0), (''halfup'', 1), (''down'', 2), (''ceiling'', 3), (''floor'', 4), (''halfdown'', 5), (''up'', 6)])
        (\<lambda>x c. c\<lparr>cfgDecfloatRoundingMode := x\<rparr>))]"

definition bufferSize :: "string \<Rightarrow> int res" where
  "bufferSize = checked (\<lambda>s. 0 \<le> s \<and> s \<le> maxSocketBufferSize) ParseInt64"

definition parseSocketOptions :: "dsnLibrary \<Rightarrow> option_step" where
  "parseSocketOptions lib = runSteps
     [named ''keepAlive'' (assign ''keepAlive'' ParseBool (\<lambda>x c. c\<lparr>cfgKeepAlive := Some x\<rparr>)),
      named ''tcpNoDelay'' (assign ''tcpNoDelay'' ParseBool (\<lambda>x c. c\<lparr>cfgTCPNoDelay := Some x\<rparr>)),
      named ''receiveBufferSize'' (assign ''receiveBufferSize'' bufferSize (\<lambda>x c. c\<lparr>cfgReceiveBufferSize := x\<rparr>)),
      named ''sendBufferSize'' (assign ''sendBufferSize'' bufferSize (\<lambda>x c. c\<lparr>cfgSendBufferSize := x\<rparr>)),
      named ''socketTimeout'' (assign ''socketTimeout'' (parseSocketTimeoutValue lib) (\<lambda>x c. c\<lparr>cfgSocketTimeout := x\<rparr>))]"

definition oneOf :: "string list \<Rightarrow> string \<Rightarrow> string res" where
  "oneOf words value = (if ToLower value \<in> set words then Inr (ToLower value) else Inl ErrSyntax)"

definition packageCCSIDStep :: "caseTables \<Rightarrow> string \<Rightarrow> option_step" where
  "packageCCSIDStep ct value cfg =
     (if EqualFold ct value ''system'' then Inr (cfg\<lparr>cfgPackageCCSIDSystem := True\<rparr>)
      else assign ''packageCCSID'' (checked (\<lambda>x. x > 0) ParseInt64) (\<lambda>x c. c\<lparr>cfgPackageCCSID := x\<rparr>) value cfg)"

definition packageSteps :: "caseTables \<Rightarrow> option_step list" where
  "packageSteps ct =
     [named ''extendedDynamic'' (assign ''extendedDynamic'' ParseBool (\<lambda>x c. c\<lparr>cfgExtendedDynamic := x\<rparr>)),
      named ''package'' (\<lambda>value c. Inr (c\<lparr>cfgPackage := value\<rparr>)),
      named ''packageLibrary'' (\<lambda>value c. Inr (c\<lparr>cfgPackageLibrary := ToUpperBy ct value\<rparr>)),
      named ''packageCriteria'' (assign ''packageCriteria'' (oneOf [''default'', ''select'']) (\<lambda>x c. c\<lparr>cfgPackageCriteria := x\<rparr>)),
      named ''packageAdd'' (assign ''packageAdd'' ParseBool (\<lambda>x c. c\<lparr>cfgPackageAddDisabled := \<not> x\<rparr>)),
      named ''packageError'' (assign ''packageError'' (oneOf [''none'', ''warning'', ''exception'']) (\<lambda>x c. c\<lparr>cfgPackageError := x\<rparr>)),
      named ''packageCCSID'' (packageCCSIDStep ct),
      named ''packageCache'' (assign ''packageCache'' ParseBool (\<lambda>x c. c\<lparr>cfgPackageCache := x\<rparr>)),
      named ''packageClear'' (assign ''packageClear'' ParseBool (\<lambda>x c. c\<lparr>cfgPackageClear := x\<rparr>))]"

definition parsePackageOptions :: "caseTables \<Rightarrow> option_step" where
  "parsePackageOptions ct cfg = runSteps (packageSteps ct)
     (cfg\<lparr>cfgExtendedDynamic := False, cfgPackageLibrary := ''QGPL'', cfgPackageCriteria := ''default'',
          cfgPackageError := ''warning'', cfgPackageCCSID := 13488\<rparr>)"

definition setClientInfoField :: "string \<Rightarrow> string \<Rightarrow> Config \<Rightarrow> Config" where
  "setClientInfoField name value cfg =
     (if name = ''ApplicationName'' then cfg\<lparr>cfgApplicationName := value\<rparr>
      else if name = ''ClientUser'' then cfg\<lparr>cfgClientUser := value\<rparr>
      else if name = ''ClientAccounting'' then cfg\<lparr>cfgClientAccounting := value\<rparr>
      else if name = ''ClientHostname'' then cfg\<lparr>cfgClientHostname := value\<rparr>
      else if name = ''ClientProgramID'' then cfg\<lparr>cfgClientProgramID := value\<rparr>
      else cfg)"

definition clientInfoStep :: "string \<Rightarrow> option_step" where
  "clientInfoStep name =
     (let key = ToLower (take 1 name) @ drop 1 name in
      named key (\<lambda>value cfg.
        if length value > clientInfoMaxBytes
        then Inl (Wrap ErrInvalidDSN ''%s longer than %d bytes'' [FStr key, FInt (int clientInfoMaxBytes)])
        else Inr (setClientInfoField name value cfg)))"

definition parseClientInfoOptions :: option_step where
  "parseClientInfoOptions = runSteps
     (map (\<lambda>attr. clientInfoStep (fst attr)) clientInfoAttributes @
      [named ''queryStorageLimit'' (assign ''queryStorageLimit'' ParseInt64 (\<lambda>x c. c\<lparr>cfgQueryStorageLimit := x\<rparr>)),
       named ''queryTimeoutMechanism'' (assign ''queryTimeoutMechanism'' (oneOf [''cancel'', ''qqrytimlmt''])
         (\<lambda>x c. c\<lparr>cfgQueryTimeoutMechanism := x\<rparr>))])"

subsection \<open>The connection string\<close>

definition dsnDefaults :: "string \<Rightarrow> bool \<Rightarrow> query \<Rightarrow> Config" where
  "dsnDefaults dsn useTLS q =
     \<lparr>cfgHost = [], cfgPort = 0, cfgUseTLS = useTLS, cfgSchema = [], cfgNaming = NamingSQL, cfgDateFormat = 5,
      cfgDateSeparator = 0, cfgTimeFormat = 0, cfgTimeSeparator = 0, cfgDecimalSeparator = 0,
      cfgCommitmentControl = defaultCommitmentControl, cfgLibraries = [], cfgStatementCacheSize = 0,
      cfgScrollableCursors = False, cfgHoldCursors = False, cfgQueryOptimizeGoal = 0,
      cfgDecimalMaxPrecision = defaultDecimalMaxPrecision, cfgDecimalMaxScale = 31, cfgMinimumDivideScale = 0,
      cfgLOBThreshold = 1048576, cfgBlockSize = defaultBlockSizeKB, cfgTrueAutocommit = False, cfgUseBlockUpdate = False,
      cfgReturnGeneratedKeys = False, cfgDecfloatRoundingMode = 0, cfgExtendedDynamic = False, cfgPackage = [],
      cfgPackageLibrary = [], cfgPackageCriteria = [], cfgPackageAddDisabled = False, cfgPackageError = [],
      cfgPackageCCSID = 0, cfgPackageCCSIDSystem = False, cfgPackageCache = False, cfgQueryTimeoutMechanism = ''cancel'',
      cfgReceiveBufferSize = 0, cfgSendBufferSize = 0, cfgSocketTimeout = 0, cfgErrorsFull = False,
      cfgTimestampString = False, cfgBidiStringType = 5, cfgBidiImplicitReordering = True, cfgBidiNumericOrdering = False,
      cfgDSN = dsn, cfgUser = [], cfgPassword = [], cfgApplicationName = [], cfgClientUser = [], cfgClientAccounting = [],
      cfgClientHostname = [], cfgClientProgramID = [], cfgQueryStorageLimit = defaultQueryStorageLimit,
      cfgPackageClear = False, cfgKeepAlive = None, cfgTCPNoDelay = None, cfgConnectTimeout = 0, cfgRawQuery = q,
      cfgTLSConfig = None\<rparr>"

definition userInfo :: "parsedURL \<Rightarrow> Config \<Rightarrow> Config" where
  "userInfo parsed cfg =
     (case puUser parsed of
        None \<Rightarrow> cfg
      | Some (name, password) \<Rightarrow>
          cfg\<lparr>cfgUser := name, cfgPassword := (case password of None \<Rightarrow> cfgPassword cfg | Some p \<Rightarrow> p)\<rparr>)"

definition hostStep :: "parsedURL \<Rightarrow> option_step" where
  "hostStep parsed cfg =
     (if puHostname parsed = [] then Inl (Wrap ErrInvalidDSN ''host is required'' [])
      else Inr (cfg\<lparr>cfgHost := puHostname parsed\<rparr>))"

definition setPort :: "string \<Rightarrow> option_step" where
  "setPort value cfg =
     (case ParseInt64 value of
        Inl _ \<Rightarrow> Inl (Wrap ErrInvalidDSN ''invalid port %q'' [FStr value])
      | Inr port \<Rightarrow> Inr (cfg\<lparr>cfgPort := port\<rparr>))"

definition portStep :: "parsedURL \<Rightarrow> option_step" where
  "portStep parsed cfg =
     (let v1 = TrimSpace (query_Get (cfgRawQuery cfg) ''port''); v2 = TrimSpace (query_Get (cfgRawQuery cfg) ''portNumber'') in
      if v1 \<noteq> [] then setPort v1 cfg
      else if v2 \<noteq> [] then setPort v2 cfg
      else if puPort parsed \<noteq> [] then setPort (puPort parsed) cfg
      else Inr cfg)"

definition schemaStep :: "parsedURL \<Rightarrow> option_step" where
  "schemaStep parsed cfg =
     (let path = TrimPrefix (puPath parsed) ''/'' in
      if path = [] then Inr cfg else Inr (cfg\<lparr>cfgSchema := takeWhile (\<lambda>c. c \<noteq> CHR ''/'') path\<rparr>))"

definition parseNaming :: "string \<Rightarrow> NamingConvention res" where
  "parseNaming value =
     (let v = ToLower value in
      if v = ''sql'' then Inr NamingSQL else if v = ''system'' then Inr NamingSystem else Inl ErrSyntax)"

definition protocolSteps :: "option_step list" where
  "protocolSteps =
     [plain ''tls'' (assign ''tls'' ParseBool (\<lambda>x c. c\<lparr>cfgUseTLS := x\<rparr>)),
      plain ''secure'' (assign ''secure'' ParseBool (\<lambda>x c. c\<lparr>cfgUseTLS := x\<rparr>)),
      plain ''naming'' (assign ''naming'' parseNaming (\<lambda>x c. c\<lparr>cfgNaming := x\<rparr>)),
      plain ''dateFormat'' (assign ''dateFormat'' parseDateFormatOption (\<lambda>x c. c\<lparr>cfgDateFormat := x\<rparr>)),
      plain ''dateSeparator'' (assign ''dateSeparator'' parseDateSeparatorOption (\<lambda>x c. c\<lparr>cfgDateSeparator := x\<rparr>)),
      plain ''timeFormat'' (assign ''timeFormat'' parseTimeFormatOption (\<lambda>x c. c\<lparr>cfgTimeFormat := x\<rparr>)),
      plain ''timeSeparator'' (assign ''timeSeparator'' parseTimeSeparatorOption (\<lambda>x c. c\<lparr>cfgTimeSeparator := x\<rparr>)),
      plain ''decimalSeparator'' (assign ''decimalSeparator'' parseDecimalSeparatorOption (\<lambda>x c. c\<lparr>cfgDecimalSeparator := x\<rparr>)),
      plain ''commitmentControl'' (assign ''commitmentControl'' parseCommitmentControlOption (\<lambda>x c. c\<lparr>cfgCommitmentControl := x\<rparr>)),
      plain ''commitControl'' (assign ''commitControl'' parseCommitmentControlOption (\<lambda>x c. c\<lparr>cfgCommitmentControl := x\<rparr>))]"

text \<open>\<open>strings.Split\<close> at a character.\<close>

fun Split :: "char \<Rightarrow> string \<Rightarrow> string list" where
  "Split c [] = [[]]"
| "Split c (x # xs) =
     (if x = c then [] # Split c xs
      else case Split c xs of part # parts \<Rightarrow> (x # part) # parts | [] \<Rightarrow> [[x]])"

definition librariesStep :: "string \<Rightarrow> option_step" where
  "librariesStep value cfg =
     Inr (cfg\<lparr>cfgLibraries := filter (\<lambda>library. library \<noteq> []) (map TrimSpace (Split (CHR '','') value))\<rparr>)"

definition bidiStep :: option_step where
  "bidiStep cfg =
     (case optionValue (cfgRawQuery cfg) ''bidiStringType'' of
        Some value \<Rightarrow> assign ''bidiStringType'' parseBidiStringTypeOption (\<lambda>x c. c\<lparr>cfgBidiStringType := x\<rparr>) value cfg
      | None \<Rightarrow>
          if map_of (cfgRawQuery cfg) ''bidiStringType'' \<noteq> None then Inr (cfg\<lparr>cfgBidiStringType := -1\<rparr>) else Inr cfg)"

definition sessionSteps :: "option_step list" where
  "sessionSteps =
     [plain ''libraries'' librariesStep,
      plain ''statementCacheSize'' (assign ''statementCacheSize'' ParseInt64 (\<lambda>x c. c\<lparr>cfgStatementCacheSize := x\<rparr>)),
      plain ''scrollableCursors'' (assign ''scrollableCursors'' ParseBool (\<lambda>x c. c\<lparr>cfgScrollableCursors := x\<rparr>)),
      plain ''timestampPrecision'' (assign ''timestampPrecision'' parseTimestampPrecisionOption (\<lambda>x c. c\<lparr>cfgTimestampString := x\<rparr>)),
      bidiStep,
      plain ''bidiImplicitReordering'' (assign ''bidiImplicitReordering'' ParseBool (\<lambda>x c. c\<lparr>cfgBidiImplicitReordering := x\<rparr>)),
      plain ''bidiNumericOrdering'' (assign ''bidiNumericOrdering'' ParseBool (\<lambda>x c. c\<lparr>cfgBidiNumericOrdering := x\<rparr>)),
      plain ''holdCursors'' (assign ''holdCursors'' ParseBool (\<lambda>x c. c\<lparr>cfgHoldCursors := x\<rparr>))]"

definition timeoutStep :: "dsnLibrary \<Rightarrow> option_step" where
  "timeoutStep lib cfg =
     (let v1 = TrimSpace (query_Get (cfgRawQuery cfg) ''connectTimeout''); v2 = TrimSpace (query_Get (cfgRawQuery cfg) ''timeout'');
          put = (\<lambda>x c. c\<lparr>cfgConnectTimeout := x\<rparr>) in
      res_bind
        (if v1 \<noteq> [] then assign ''connectTimeout'' (parseDurationValue lib) put v1 cfg
         else if v2 \<noteq> [] then assign ''timeout'' (parseDurationValue lib) put v2 cfg
         else Inr cfg)
        (\<lambda>c. Inr (if cfgConnectTimeout c = 0 then c\<lparr>cfgConnectTimeout := 15000000000\<rparr> else c)))"

definition validateStep :: option_step where
  "validateStep cfg = res_bind (Validate cfg) (\<lambda>_. Inr cfg)"

definition dsnSteps :: "dsnLibrary \<Rightarrow> caseTables \<Rightarrow> parsedURL \<Rightarrow> option_step list" where
  "dsnSteps lib ct parsed =
     [hostStep parsed, portStep parsed, schemaStep parsed] @ protocolSteps @
     [parseServerAttributeOptions, parseSocketOptions lib, parsePackageOptions ct, parseClientInfoOptions] @
     sessionSteps @ [timeoutStep lib, validateStep]"

definition ParseDSN :: "dsnLibrary \<Rightarrow> caseTables \<Rightarrow> string \<Rightarrow> Config res" where
  "ParseDSN lib ct dsn =
     (if TrimSpace dsn = [] then Inl (Wrap ErrInvalidDSN ''empty DSN'' [])
      else case dlParse lib dsn of
        Inl e \<Rightarrow> Inl (Wrap ErrInvalidDSN ''%v'' [FErr e])
      | Inr parsed \<Rightarrow>
          (let scheme = ToLower (puScheme parsed) in
           if scheme \<noteq> ''as400'' \<and> scheme \<noteq> ''as400s''
           then Inl (Wrap ErrInvalidDSN ''unsupported scheme %q'' [FStr (puScheme parsed)])
           else runSteps (dsnSteps lib ct parsed) (userInfo parsed (dsnDefaults dsn (scheme = ''as400s'') (puQuery parsed)))))"

section \<open>Lemmas\<close>

text \<open>The errors of the steps: each of them is an \<open>ErrInvalidDSN\<close>.\<close>

definition dsn_error :: "'a res \<Rightarrow> bool" where
  "dsn_error r \<longleftrightarrow> (\<forall>e. r = Inl e \<longrightarrow> errors_Is e ErrInvalidDSN)"

definition refuses :: "option_step \<Rightarrow> bool" where
  "refuses step \<longleftrightarrow> (\<forall>cfg. dsn_error (step cfg))"

lemma dsn_error_simps [simp]: "dsn_error (Inr x)" "dsn_error (Inl (Wrap ErrInvalidDSN f a))" "dsn_error (invalidValue n v)"
  "dsn_error (res_bind (invalidValue n v) g)"
  by (simp_all add: dsn_error_def invalidValue_def)

lemma refuses_assign: "refuses (assign name parse put value)"
  by (simp add: refuses_def assign_def split: sum.split)

lemma refuses_option: "(\<And>value. refuses (f value)) \<Longrightarrow> refuses (plain name f)" "(\<And>value. refuses (f value)) \<Longrightarrow> refuses (named name f)"
  by (auto simp: refuses_def plain_def named_def Let_def split: option.split)

lemma refuses_steps: "list_all refuses steps \<Longrightarrow> refuses (runSteps steps)"
proof (induction steps)
  case (Cons s steps)
  then have s: "refuses s" "refuses (runSteps steps)" by simp_all
  have "dsn_error (res_bind (s cfg) (runSteps steps))" for cfg
    using s by (cases "s cfg") (auto simp: refuses_def dsn_error_def)
  then show ?case by (simp add: refuses_def)
qed (simp add: refuses_def)

lemma refuses_local:
  "refuses (hostStep parsed)" "refuses (schemaStep parsed)" "refuses (librariesStep value)" "refuses (packageCCSIDStep ct value)"
  "refuses (portStep parsed)" "refuses bidiStep" "refuses (timeoutStep lib)" "refuses (clientInfoStep name)"
  by (auto simp: refuses_def hostStep_def schemaStep_def librariesStep_def packageCCSIDStep_def portStep_def setPort_def bidiStep_def
      timeoutStep_def clientInfoStep_def named_def assign_def Let_def split: option.split sum.split)

lemma refuses_validate: "refuses validateStep"
proof -
  have "dsn_error (Validate cfg)" for cfg
    unfolding Validate_def by (simp add: invalid_option_def validatePackageConfig_def dsn_error_def)
  then show ?thesis by (auto simp: refuses_def validateStep_def dsn_error_def res_simps)
qed

lemma refuses_update: "refuses (\<lambda>c. Inr (g c))"
  by (simp add: refuses_def)

lemmas refuses_rules = refuses_assign refuses_option refuses_steps refuses_local refuses_validate

lemma refuses_groups:
  "refuses parseServerAttributeOptions" "refuses (parseSocketOptions lib)" "refuses (parsePackageOptions ct)" "refuses parseClientInfoOptions"
  "list_all refuses protocolSteps" "list_all refuses sessionSteps"
proof -
  show "refuses parseServerAttributeOptions" "refuses (parseSocketOptions lib)" "refuses parseClientInfoOptions"
    unfolding parseServerAttributeOptions_def parseSocketOptions_def parseClientInfoOptions_def
    by (rule refuses_steps; simp add: refuses_rules list_all_iff)+
  show "list_all refuses protocolSteps" "list_all refuses sessionSteps"
    by (simp_all add: protocolSteps_def sessionSteps_def refuses_rules)
  have "refuses (runSteps (packageSteps ct))"
    by (rule refuses_steps) (simp add: packageSteps_def refuses_rules refuses_update)
  then show "refuses (parsePackageOptions ct)" by (simp add: refuses_def parsePackageOptions_def)
qed

lemma refuses_dsnSteps: "refuses (runSteps (dsnSteps lib ct parsed))"
  by (rule refuses_steps) (simp add: dsnSteps_def refuses_groups refuses_rules)

text \<open>The steps that leave a part of the configuration as it is.\<close>

definition keeps_field :: "(Config \<Rightarrow> 'a) \<Rightarrow> option_step \<Rightarrow> bool" where
  "keeps_field get step \<longleftrightarrow> (\<forall>cfg cfg'. step cfg = Inr cfg' \<longrightarrow> get cfg' = get cfg)"

lemma keeps_assign: "(\<And>x c. get (put x c) = get c) \<Longrightarrow> keeps_field get (assign name parse put value)"
  by (auto simp: keeps_field_def assign_def invalidValue_def split: sum.splits)

lemma keeps_dsn_option:
  "(\<And>value. keeps_field get (f value)) \<Longrightarrow> keeps_field get (plain name f)"
  "(\<And>value. keeps_field get (f value)) \<Longrightarrow> keeps_field get (named name f)"
  by (auto simp: keeps_field_def plain_def named_def Let_def split: option.splits if_splits)

lemma keeps_steps: "list_all (keeps_field get) steps \<Longrightarrow> keeps_field get (runSteps steps)"
  by (induction steps) (auto simp: keeps_field_def res_simps)

lemma keeps_update: "(\<And>c. get (g c) = get c) \<Longrightarrow> keeps_field get (\<lambda>c. Inr (g c))"
  by (simp add: keeps_field_def)

definition endpoint_of :: "Config \<Rightarrow> (string \<times> int \<times> bool) \<times> (string \<times> string) \<times> query" where
  "endpoint_of c = ((cfgHost c, cfgPort c, cfgUseTLS c), (cfgUser c, cfgPassword c), cfgRawQuery c)"

lemma keeps_endpoint:
  "keeps_field endpoint_of (schemaStep parsed)" "keeps_field endpoint_of (librariesStep value)"
  "keeps_field endpoint_of (packageCCSIDStep ct value)" "keeps_field endpoint_of bidiStep" "keeps_field endpoint_of (timeoutStep lib)"
  "keeps_field endpoint_of (clientInfoStep name)" "keeps_field endpoint_of validateStep"
  by (auto simp: keeps_field_def schemaStep_def librariesStep_def packageCCSIDStep_def bidiStep_def timeoutStep_def clientInfoStep_def
      validateStep_def setClientInfoField_def named_def assign_def invalidValue_def endpoint_of_def Let_def res_simps
      split: option.splits sum.splits if_splits)

lemma keeps_endpoint_groups:
  "keeps_field endpoint_of parseServerAttributeOptions" "keeps_field endpoint_of (parseSocketOptions lib)"
  "keeps_field endpoint_of (parsePackageOptions ct)" "keeps_field endpoint_of parseClientInfoOptions"
  "list_all (keeps_field endpoint_of) sessionSteps" "list_all (keeps_field endpoint_of) (drop 2 protocolSteps)"
proof -
  note rules = keeps_assign keeps_dsn_option keeps_steps keeps_endpoint keeps_update endpoint_of_def
  show "keeps_field endpoint_of parseServerAttributeOptions" "keeps_field endpoint_of (parseSocketOptions lib)"
    "keeps_field endpoint_of parseClientInfoOptions"
    unfolding parseServerAttributeOptions_def parseSocketOptions_def parseClientInfoOptions_def
    by (rule keeps_steps; simp add: rules list_all_iff)+
  show "list_all (keeps_field endpoint_of) sessionSteps" "list_all (keeps_field endpoint_of) (drop 2 protocolSteps)"
    by (simp_all add: sessionSteps_def protocolSteps_def rules)
  have "keeps_field endpoint_of (runSteps (packageSteps ct))"
    by (rule keeps_steps) (simp add: packageSteps_def rules)
  then show "keeps_field endpoint_of (parsePackageOptions ct)"
    by (simp add: keeps_field_def parsePackageOptions_def endpoint_of_def)
qed

lemma keeps_fieldD: "keeps_field get step \<Longrightarrow> step cfg = Inr cfg' \<Longrightarrow> get cfg' = get cfg"
  by (simp add: keeps_field_def)

text \<open>What the connection string says about the endpoint.\<close>

definition flag_option :: "query \<Rightarrow> string \<Rightarrow> bool \<Rightarrow> bool \<Rightarrow> bool" where
  "flag_option q name old new \<longleftrightarrow>
     (let value = TrimSpace (query_Get q name) in if value = [] then new = old else ParseBool value = Inr new)"

definition port_text :: "parsedURL \<Rightarrow> string" where
  "port_text parsed =
     (let v1 = TrimSpace (query_Get (puQuery parsed) ''port''); v2 = TrimSpace (query_Get (puQuery parsed) ''portNumber'') in
      if v1 \<noteq> [] then v1 else if v2 \<noteq> [] then v2 else puPort parsed)"

definition endpoint :: "parsedURL \<Rightarrow> Config \<Rightarrow> bool" where
  "endpoint parsed cfg \<longleftrightarrow>
     cfgHost cfg = puHostname parsed \<and> cfgHost cfg \<noteq> [] \<and>
     (cfgUser cfg, cfgPassword cfg) = (case puUser parsed of None \<Rightarrow> ([], []) | Some (u, p) \<Rightarrow> (u, case p of None \<Rightarrow> [] | Some x \<Rightarrow> x)) \<and>
     (if port_text parsed = [] then cfgPort cfg = 0 else ParseInt64 (port_text parsed) = Inr (cfgPort cfg)) \<and>
     (\<exists>tls. flag_option (puQuery parsed) ''tls'' (ToLower (puScheme parsed) = ''as400s'') tls \<and>
        flag_option (puQuery parsed) ''secure'' tls (cfgUseTLS cfg))"

lemma flag_step:
  assumes "plain name (assign name ParseBool (\<lambda>x c. c\<lparr>cfgUseTLS := x\<rparr>)) cfg = Inr cfg'"
  shows "endpoint_of cfg' = ((cfgHost cfg, cfgPort cfg, cfgUseTLS cfg'), snd (endpoint_of cfg)) \<and> flag_option (cfgRawQuery cfg) name (cfgUseTLS cfg) (cfgUseTLS cfg')"
  using assms by (auto simp: plain_def assign_def invalidValue_def flag_option_def endpoint_of_def Let_def split: if_splits sum.splits)

lemma port_step:
  assumes "portStep parsed cfg = Inr cfg'" "cfgRawQuery cfg = puQuery parsed"
  shows "endpoint_of cfg' = ((cfgHost cfg, cfgPort cfg', cfgUseTLS cfg), snd (endpoint_of cfg)) \<and>
    (if port_text parsed = [] then cfgPort cfg' = cfgPort cfg else ParseInt64 (port_text parsed) = Inr (cfgPort cfg'))"
  using assms by (auto simp: portStep_def setPort_def port_text_def endpoint_of_def Let_def split: if_splits sum.splits)

lemma dsnSteps_endpoint:
  assumes "runSteps (dsnSteps lib ct parsed) cfg = Inr cfg'" "cfgRawQuery cfg = puQuery parsed" "cfgPort cfg = 0"
  shows "cfgHost cfg' = puHostname parsed \<and> cfgHost cfg' \<noteq> [] \<and> cfgUser cfg' = cfgUser cfg \<and> cfgPassword cfg' = cfgPassword cfg \<and>
    (if port_text parsed = [] then cfgPort cfg' = 0 else ParseInt64 (port_text parsed) = Inr (cfgPort cfg')) \<and>
    (\<exists>tls. flag_option (puQuery parsed) ''tls'' (cfgUseTLS cfg) tls \<and> flag_option (puQuery parsed) ''secure'' tls (cfgUseTLS cfg'))"
proof -
  have split: "protocolSteps = plain ''tls'' (assign ''tls'' ParseBool (\<lambda>x c. c\<lparr>cfgUseTLS := x\<rparr>)) #
      plain ''secure'' (assign ''secure'' ParseBool (\<lambda>x c. c\<lparr>cfgUseTLS := x\<rparr>)) # drop 2 protocolSteps"
    by (simp add: protocolSteps_def)
  let ?rest = "drop 2 protocolSteps @ [parseServerAttributeOptions, parseSocketOptions lib, parsePackageOptions ct, parseClientInfoOptions] @
      sessionSteps @ [timeoutStep lib, validateStep]"
  have "dsnSteps lib ct parsed = hostStep parsed # portStep parsed # schemaStep parsed #
      plain ''tls'' (assign ''tls'' ParseBool (\<lambda>x c. c\<lparr>cfgUseTLS := x\<rparr>)) #
      plain ''secure'' (assign ''secure'' ParseBool (\<lambda>x c. c\<lparr>cfgUseTLS := x\<rparr>)) # ?rest"
    unfolding dsnSteps_def by (subst split) simp
  with assms(1) obtain c1 c2 c3 c4 c5 where h: "hostStep parsed cfg = Inr c1" and p: "portStep parsed c1 = Inr c2"
    and s: "schemaStep parsed c2 = Inr c3"
    and t: "plain ''tls'' (assign ''tls'' ParseBool (\<lambda>x c. c\<lparr>cfgUseTLS := x\<rparr>)) c3 = Inr c4"
    and u: "plain ''secure'' (assign ''secure'' ParseBool (\<lambda>x c. c\<lparr>cfgUseTLS := x\<rparr>)) c4 = Inr c5" and r: "runSteps ?rest c5 = Inr cfg'"
    by (auto simp: res_simps simp del: append_assoc)
  have k: "keeps_field endpoint_of (runSteps ?rest)"
    by (rule keeps_steps) (simp add: keeps_endpoint_groups keeps_endpoint)
  have h1: "c1 = cfg\<lparr>cfgHost := puHostname parsed\<rparr>" "puHostname parsed \<noteq> []" using h by (auto simp: hostStep_def split: if_splits)
  have q1: "cfgRawQuery c1 = puQuery parsed" using h1 assms(2) by simp
  note p1 = port_step [OF p q1] and s1 = keeps_fieldD [OF keeps_endpoint(1) s] and t1 = flag_step [OF t] and u1 = flag_step [OF u]
    and r1 = keeps_fieldD [OF k r]
  show ?thesis using h1 q1 p1 s1 t1 u1 r1 assms(3) by (simp add: endpoint_of_def split: if_splits) blast+
qed

lemma last_step_valid: "runSteps (steps @ [validateStep]) cfg = Inr cfg' \<Longrightarrow> Validate cfg' = Inr ()"
  by (induction steps arbitrary: cfg) (auto simp: validateStep_def res_simps)

text \<open>Option names that differ in case, blanks, underscores and dashes only.\<close>

definition same_option :: "string \<Rightarrow> string \<Rightarrow> bool" where
  "same_option key name \<longleftrightarrow> normalizeOptionKey (ToLower (TrimSpace key)) = normalizeOptionKey (ToLower name)"

lemma firstNonEmpty_None: "firstNonEmpty vs = None \<longleftrightarrow> (\<forall>v\<in>set vs. TrimSpace v = [])"
  by (induction vs) (simp_all add: Let_def)

lemma firstNonEmpty_Some: "firstNonEmpty vs = Some x \<Longrightarrow> \<exists>v\<in>set vs. x = TrimSpace v \<and> x \<noteq> []"
  by (induction vs) (auto simp: Let_def split: if_splits)

lemma query_Get_value: "query_Get q name \<noteq> [] \<Longrightarrow> \<exists>vs. (name, vs) \<in> set q \<and> query_Get q name \<in> set vs"
  by (auto simp: query_Get_def split: option.splits list.splits dest!: map_of_SomeD)

lemma TrimSpace_Nil: "TrimSpace [] = []"
  using TrimSpace_length [of "[]"] by simp

lemma option_found:
  assumes "distinct (map fst q)" "TrimSpace name = name"
  shows "case optionValue q name of
      None \<Rightarrow> \<forall>(key, vs)\<in>set q. same_option key name \<longrightarrow> (\<forall>v\<in>set vs. TrimSpace v = [])
    | Some x \<Rightarrow> x \<noteq> [] \<and> (\<exists>(key, vs)\<in>set q. same_option key name \<and> (\<exists>v\<in>set vs. x = TrimSpace v))"
proof (cases "TrimSpace (query_Get q name) = []")
  case True
  let ?vs = "concat (map (query_values q) (filter (\<lambda>key. same_option key name) (sort (map fst q))))"
  have o: "optionValue q name = firstNonEmpty ?vs"
    using True by (simp add: optionValue_def Let_def same_option_def)
  have vs: "set ?vs = (\<Union>(key, vs)\<in>{p \<in> set q. same_option (fst p) name}. set vs)"
    using assms(1) by (force simp: query_values_def)
  show ?thesis
  proof (cases "firstNonEmpty ?vs")
    case None
    then have "\<forall>v\<in>set ?vs. TrimSpace v = []" by (simp only: firstNonEmpty_None)
    then show ?thesis unfolding o None option.case vs by auto
  next
    case (Some x)
    from firstNonEmpty_Some [OF Some] show ?thesis unfolding o Some option.case vs by auto
  qed
next
  case False
  then have "query_Get q name \<noteq> []" using TrimSpace_Nil by auto
  from query_Get_value [OF this] obtain vs where "(name, vs) \<in> set q" "query_Get q name \<in> set vs" by blast
  then show ?thesis using False assms(2) by (auto simp: optionValue_def Let_def same_option_def intro!: bexI [of _ "(name, vs)"])
qed

text \<open>A number of seconds too large for a duration wraps around and is accepted as a negative timeout.\<close>

lemma connect_timeout_wraps:
  assumes "dlDuration lib ''9223372037'' = Inl e"
  shows "parseDurationValue lib ''9223372037'' = Inr (- 9223372036709551616)"
proof -
  have "ParseInt64 ''9223372037'' = Inr 9223372037" by (simp add: ParseInt64_def is_digit_def digit_val_def)
  then show ?thesis using assms by (simp add: parseDurationValue_def wrap_int64_def)
qed

section \<open>Properties\<close>

text \<open>
  C23. A connection string is either refused, always with an \<open>ErrInvalidDSN\<close>, or gives a configuration
  that passes validation and connects to what the string names: host, user and password of the URL;
  the port of the options \<open>port\<close> and \<open>portNumber\<close> before the one of the URL; and TLS as \<open>secure\<close> says,
  else as \<open>tls\<close> says, else as the scheme says. None of the other options changes any of these.
\<close>

theorem dsn_outcome:
  "case ParseDSN lib ct dsn of
     Inl e \<Rightarrow> errors_Is e ErrInvalidDSN
   | Inr cfg \<Rightarrow> Validate cfg = Inr () \<and> (\<exists>parsed. dlParse lib dsn = Inr parsed \<and> endpoint parsed cfg)"
proof (cases "ParseDSN lib ct dsn")
  case (Inl e)
  have "dsn_error (ParseDSN lib ct dsn)"
    using refuses_dsnSteps unfolding ParseDSN_def Let_def refuses_def by (simp split: sum.split)
  then show ?thesis using Inl by (simp add: dsn_error_def)
next
  case (Inr cfg)
  let ?start = "\<lambda>parsed. userInfo parsed (dsnDefaults dsn (ToLower (puScheme parsed) = ''as400s'') (puQuery parsed))"
  obtain parsed where p: "dlParse lib dsn = Inr parsed" "runSteps (dsnSteps lib ct parsed) (?start parsed) = Inr cfg"
    using Inr unfolding ParseDSN_def Let_def by (auto split: sum.splits if_splits)
  have steps: "dsnSteps lib ct parsed = ([hostStep parsed, portStep parsed, schemaStep parsed] @ protocolSteps @
      [parseServerAttributeOptions, parseSocketOptions lib, parsePackageOptions ct, parseClientInfoOptions] @
      sessionSteps @ [timeoutStep lib]) @ [validateStep]"
    by (simp add: dsnSteps_def)
  have start: "cfgRawQuery (?start parsed) = puQuery parsed" "cfgPort (?start parsed) = 0"
      "cfgUseTLS (?start parsed) = (ToLower (puScheme parsed) = ''as400s'')"
      "(cfgUser (?start parsed), cfgPassword (?start parsed)) =
        (case puUser parsed of None \<Rightarrow> ([], []) | Some (u, p) \<Rightarrow> (u, case p of None \<Rightarrow> [] | Some x \<Rightarrow> x))"
    by (auto simp: userInfo_def dsnDefaults_def split: option.split)
  from dsnSteps_endpoint [OF p(2) start(1,2)] have "endpoint parsed cfg" using start(3,4) by (auto simp: endpoint_def)
  with p(1) last_step_valid [OF p(2) [unfolded steps]] show ?thesis using Inr by auto
qed

end
