(* ===== verification/Spec2Isabelle.thy ===== *)
theory Spec2Isabelle
  imports Delivery BidiLayout Connect Dsn
begin

text \<open>
  Verification of i400, a driver for Go's \<open>database/sql\<close> package that speaks the host-server
  protocol of Db2 for IBM i (sources under \<open>src/\<close>).

  \<^bold>\<open>The program.\<close> An application uses a connection (\<open>Conn\<close>, \<open>src/driver.go\<close>), prepared
  statements (\<open>Stmt\<close>, \<open>src/stmt.go\<close>), rows (\<open>queryRows\<close>, \<open>src/sql.go\<close>) and transactions (\<open>Tx\<close>,
  \<open>src/tx.go\<close>). Their methods call the SQL layer (\<open>src/sql.go\<close>, \<open>src/batch.go\<close>,
  \<open>src/package.go\<close>), which builds requests, exchanges them with the server
  (\<open>doRequest\<close>, \<open>doStatementRequest\<close>, \<open>src/wire.go\<close>), checks the replies
  (\<open>src/reply_error.go\<close>) and parses them. Text is converted by \<open>src/internal/ccsid\<close>; values are
  converted by the encoders and decoders of \<open>src/sql.go\<close>, \<open>src/decfloat_encode.go\<close>,
  \<open>src/datetime_format.go\<close> and \<open>src/timestamp.go\<close>. A connection comes from a connection string
  (\<open>src/dsn.go\<close>) and is opened by \<open>src/signon.go\<close>, \<open>src/encryption.go\<close>, \<open>src/portmapper.go\<close>,
  \<open>src/transport.go\<close> and \<open>src/dbconn.go\<close>; \<open>src/clientinfo.go\<close> changes its client information.

  \<^bold>\<open>The theories\<close>, from the bottom up; definitions carry the names of the source.

  \<^item> \<open>Prelude\<close>, \<open>GoStrings\<close>, \<open>Values\<close>, \<open>Floats\<close>, \<open>Unicode\<close>: what the code uses of Go: errors as a datatype with
    \<open>errors.Is\<close>, results \<open>error + value\<close>, byte slices with wrap-around integers, the
    functions of \<open>strings\<close>, \<open>strconv\<close> and UTF-8/UTF-16, argument values and
    \<open>driver.DefaultParameterConverter\<close>, and floating-point numbers as their bits.
  \<^item> \<open>Wire\<close>: packets, headers, parameters and reply envelopes. A packet is read exactly when
    the stream starts with one; a parameter is parsed exactly when it was appended.
  \<^item> \<open>Formats\<close>, \<open>Reader\<close>, \<open>Parse\<close>: the descriptions of columns, parameters and results and the
    parsers of replies. The loops over parameters are instances of the locale
    \<open>llcp_scanner\<close>. Fetched blocks are consistent, the describe layout is a running sum, the
    SQLCA is read field by field, and the parameter-marker parsers never panic.
  \<^item> \<open>Decimal\<close>: decimal text, packed and zoned digits: values are encoded exactly.
  \<^item> \<open>Ccsid\<close>: the codecs and the codec lookup: round trips, and a lookup cache that is
    transparent. The embedded conversion tables are a parameter.
  \<^item> \<open>Scan\<close>: the scanners of SQL text: placeholders, named parameters, literals.
  \<^item> \<open>Handles\<close>: statement ids, descriptor handles and cursor names, with the contract of an
    allocator as locale \<open>id_allocator\<close>.
  \<^item> \<open>Requests\<close>, \<open>Blocks\<close>: the request builders and the blocks of a batch. The locale
    \<open>request_builder\<close> says that a request is read back as what it was built from.
  \<^item> \<open>Config\<close>, \<open>Package\<close>: the configuration and its validation, SQL packages.
  \<^item> \<open>Session\<close>: the connection as a state with its peer. \<open>cnIn\<close> and \<open>cnWrites\<close> are what the
    network will deliver and which writes fail, \<open>cnSent\<close> and \<open>cnRead\<close> what was transferred; a
    context is a function of a clock that advances with every read and write. A theorem
    about every state therefore covers every server and every cancellation. The locales
    \<open>step_relation\<close>, \<open>session_relation\<close> and \<open>connection_relation\<close> say what a relation between
    states must allow to be kept by the transport functions, by steps that change names, and
    by steps that change the transaction state; the relations of the development are
    their interpretations.
  \<^item> \<open>Sql\<close>: prepare, open, fetch, execute, close, large objects, output parameters, batches,
    one-use statements. Every operation keeps every relation of these locales.
  \<^item> \<open>Rows\<close>: reading, scrolling and closing rows. \<open>Next\<close> is a partial function; it is shown to
    be total. Every row is delivered once and in order.
  \<^item> \<open>Tx\<close>: transactions, \<open>Ping\<close> and \<open>Close\<close>.
  \<^item> \<open>Cache\<close>: the statement cache, with each section under its lock as one step, so that the
    invariant holds in every interleaving.
  \<^item> \<open>Stmt\<close>: prepared statements with their use count, the entry points of a connection,
    batches and generated keys.
  \<^item> \<open>Driver\<close>: all operations as one step relation. A valid connection is always in step with
    the server, an invalid one is silent, a failed query gives its names back, and a context
    error is never reported as a bad connection by an exchange.
  \<^item> \<open>DateTime\<close>: dates, times and timestamps with the calendar of Go's \<open>time\<close> package; every format
    is read back.
  \<^item> \<open>Decfloat\<close>: decimal floating point, from text to densely packed digits and back: exact when
    the number fits, within half a unit otherwise.
  \<^item> \<open>Columns\<close>, \<open>Params\<close>: the decoding of columns and their reported types, the encoding of
    parameters, the bindings of a statement and the assignment of output parameters. A bound
    value is what a column of the same type decodes to.
  \<^item> \<open>Delivery\<close>: the operations with these conversions in place of the parameters of the record
    \<open>library\<close>: the rows that \<open>Next\<close> delivers have the types the result set reports.
  \<^item> \<open>Attributes\<close>: the server attributes, the library list, client information and \<open>ResetSession\<close>. The
    attribute request says what the configuration asks for, the library list has the effect the
    configuration describes, \<open>SetClientInfo\<close> is all or nothing, and a session that was reset is as
    after it was opened.
  \<^item> \<open>Password\<close>: the password substitutes. The DES substitute, computed on byte buffers, is the
    published algorithm on 64-bit numbers.
  \<^item> \<open>Connect\<close>: dialling, the port mapper, sign-on, the start of the database server, \<open>openConn\<close> and
    the second connection of a cancel, on a store of sockets. Opening leaks no socket and ends with
    a connection that satisfies what the theorems of \<open>Driver\<close> assume of a new one; the locale
    \<open>exchange_on\<close> is the contract of the exchanges, from which the clean-up of their callers follows.
  \<^item> \<open>Dsn\<close>: the connection string as a sequence of steps on the configuration. It is refused with
    \<open>ErrInvalidDSN\<close> or gives a valid configuration with the endpoint it names; options are found
    under all their spellings.
  \<^item> \<open>BidiFlags\<close>, \<open>BidiOrder\<close>, \<open>BidiReorder\<close>: bidirectional text: flag sets and Arabic options with their
    text forms, and the reordering with its state tables, levels, mirroring, marks and maps. The
    text of a flag set is read back; reordering never panics and only rearranges.
  \<^item> \<open>BidiShape\<close>: the shaping of Arabic letters on a buffer of cells. The main loop ends within its fuel,
    the square of the length of the text plus one, because every round joins an alef or moves on;
    the shaped text has the letters of the text.
  \<^item> \<open>BidiLayout\<close>: the layouts between server and application by string types and the layout of SQL
    text. Character data keeps its length; a statement without marks is changed inside of its
    literals and identifiers only. The locale \<open>piece_layout\<close> is what the scanners of a statement
    need of the layout of a piece.

  \<^bold>\<open>Bounds.\<close> Lengths are natural numbers; the integers of the protocol are words of their
  width and products of counts are computed in 64 bits, as the source does. Loops are
  structural or have a measure; \<open>Next\<close> and the reading of generated keys are partial
  functions whose undefined value means that the call does not return. The shaping loop has fuel, and
  running out of it is an error that is shown not to happen.

  \<^bold>\<open>Concurrency.\<close> \<open>opMu\<close> makes an exchange one step and \<open>nameMu\<close> a name operation one step. The
  goroutine that watches a context during a read is represented by its effect, a read that
  fails or a reply that arrives late. Nil receivers are left out. A Go panic is the error
  \<open>Panic\<close>.

  \<^bold>\<open>Parameters.\<close> The SQL layer takes the conversions of values from the record \<open>library\<close>, so that
  its theorems hold for any of them; \<open>Delivery\<close> fills it in. What stays a parameter: the formatting
  and parsing of floating-point text (\<open>strconv\<close>), \<open>fmt.Sprint\<close>, conversions of the \<open>reflect\<close> package to
  types of the application; the case tables of the \<open>unicode\<close> package (\<open>caseTables\<close>); the ciphers and
  hashes of the \<open>crypto\<close> packages (\<open>crypto\<close>, of which the theorems use the sizes of the results);
  the outcome of dials, socket options and handshakes and the wall clock (\<open>network\<close>); \<open>url.Parse\<close> and
  \<open>time.ParseDuration\<close> (\<open>dsnLibrary\<close>); and, for the SQL layer, the bidirectional layout, which is the
  one of \<open>BidiLayout\<close> (\<open>driverLayout\<close>).

  \<^bold>\<open>Not modelled.\<close> Deadlines of sockets except for the failures they cause, and the registration of the driver with \<open>database/sql\<close>.
\<close>

end
